(* ===== verification/Prelude.thy ===== *)
theory Prelude
  imports Main "HOL-Library.Word" "HOL-Library.Multiset" "HOL-Library.Monad_Syntax"
begin

text \<open>
  Shared vocabulary of the development: the machine integer types of the driver, the
  status values its functions return, bounded scans with a wrapping eight-bit counter,
  null-terminated chains through a node store, and the generic facts on lists and words
  that the component theories rely on.
\<close>

section \<open>Machine types and addresses\<close>

type_synonym u8 = "8 word"
type_synonym u16 = "16 word"
type_synonym u32 = "32 word"
type_synonym u64 = "64 word"

text \<open>A MAC address (\<open>tSirMacAddr\<close>, \<open>uint8_t[6]\<close>) is its list of six bytes.\<close>

type_synonym mac_addr = "u8 list"

definition is_mac :: "mac_addr \<Rightarrow> bool" where
  "is_mac a \<longleftrightarrow> length a = 6"

text \<open>
  Collections: \<open>chain_simps\<close> rewrites facts about chains, \<open>frame_simps\<close> says which fields an
  operation leaves alone, \<open>inv_intros\<close> introduces component invariants.
\<close>

named_theorems chain_simps "facts about null-terminated chains"
named_theorems frame_simps "fields an operation leaves unchanged"
named_theorems inv_intros "introduction rules for component invariants"

section \<open>Lists\<close>

lemma find_upt_Some_iff:
  "find P [0..<n] = Some i \<longleftrightarrow> i < n \<and> P i \<and> (\<forall>j<i. \<not> P j)"
proof -
  have "find P [0..<n] = Some i \<longleftrightarrow> (\<exists>k<n. P k \<and> i = k \<and> (\<forall>j<k. \<not> P j))"
    by (auto simp: find_Some_iff)
  then show ?thesis by auto
qed

lemma find_upt_None_iff: "find P [0..<n] = None \<longleftrightarrow> (\<forall>i<n. \<not> P i)"
  by (auto simp: find_None_iff)

lemma find_split:
  "find P xs = Some x \<Longrightarrow> \<exists>as bs. xs = as @ x # bs \<and> P x \<and> (\<forall>y \<in> set as. \<not> P y)"
proof (induction xs)
  case Nil
  then show ?case by simp
next
  case (Cons y xs)
  show ?case
  proof (cases "P y")
    case True
    with Cons.prems have "y # xs = [] @ x # xs \<and> P x" by auto
    then show ?thesis by (metis empty_iff list.set(1))
  next
    case False
    with Cons obtain as bs where "xs = as @ x # bs" "P x" "\<forall>y \<in> set as. \<not> P y" by auto
    with False have "y # xs = (y # as) @ x # bs \<and> P x \<and> (\<forall>y \<in> set (y # as). \<not> P y)" by simp
    then show ?thesis by blast
  qed
qed

lemma find_unique:
  assumes "\<And>x y. \<lbrakk>x \<in> set xs; y \<in> set xs; P x; P y\<rbrakk> \<Longrightarrow> x = y"
  shows "find P xs = Some x \<longleftrightarrow> x \<in> set xs \<and> P x"
proof
  assume "find P xs = Some x"
  then show "x \<in> set xs \<and> P x" by (auto dest: find_split)
next
  assume x: "x \<in> set xs \<and> P x"
  then obtain y where y: "find P xs = Some y" by (cases "find P xs") (auto simp: find_None_iff)
  then have "y \<in> set xs" "P y" by (auto dest: find_split)
  with x assms y show "find P xs = Some x" by blast
qed

lemma map_filter_eqI: "(\<And>x. x \<in> set xs \<Longrightarrow> f x = g x) \<Longrightarrow> List.map_filter f xs = List.map_filter g xs"
  by (induction xs) (auto simp: map_filter_simps split: option.split)

lemma nth_list_update_if:
  "i < length xs \<Longrightarrow> xs[j := x] ! i = (if i = j then x else xs ! i)"
  by (simp add: nth_list_update)

lemma mset_swap_nth:
  "i < length xs \<Longrightarrow> j < length xs \<Longrightarrow> mset (xs[i := xs ! j, j := xs ! i]) = mset xs"
  by (rule mset_swap)

section \<open>Words\<close>

lemma unat_Suc_word:
  fixes w :: "'a::len word"
  assumes "w < v"
  shows "unat (w + 1) = Suc (unat w)"
proof -
  have "w \<noteq> - 1"
    using assms by (metis word_n1_ge linorder_not_less)
  then have "1 + w \<noteq> 0" by (metis add_eq_0_iff)
  then show ?thesis by (simp add: unatSuc add.commute)
qed

lemma unat_Suc_u8: "unat (w :: u8) < 255 \<Longrightarrow> unat (w + 1) = Suc (unat w)"
  by (rule unat_Suc_word [where v = 255]) (simp add: word_less_nat_alt)

lemma unat_u8_less [simp]: "unat (w :: u8) < 256"
  using unsigned_less [of w, where ?'a = nat] by simp

lemma unat_u16_less [simp]: "unat (w :: u16) < 65536"
  using unsigned_less [of w, where ?'a = nat] by simp

lemma unat_ucast_u8_u16 [simp]: "unat (ucast (i :: u8) :: u16) = unat i"
proof -
  have "unat i < 2 ^ 16" by (rule less_trans [OF unat_u8_less]) simp
  then show ?thesis by (simp add: unsigned_ucast_eq take_bit_nat_eq_self)
qed

lemma unat_ucast_u16_u32 [simp]: "unat (ucast (i :: u16) :: u32) = unat i"
proof -
  have "unat i < 2 ^ 32" by (rule less_trans [OF unat_u16_less]) simp
  then show ?thesis by (simp add: unsigned_ucast_eq take_bit_nat_eq_self)
qed

lemma unat_ucast_u16_u8: "unat (w :: u16) < 256 \<Longrightarrow> unat (ucast w :: u8) = unat w"
  by (simp add: unsigned_ucast_eq take_bit_nat_eq_self)

lemma ucast_u8_less_u16_iff:
  "(ucast (i :: u8) < (b :: u16)) \<longleftrightarrow> unat i < unat b"
  by (simp add: word_less_nat_alt)

lemma ucast_add_u8: "(ucast (ucast (c :: u8) + (w :: u16)) :: u8) = c + ucast w"
proof -
  have "(unat c + unat w) mod 65536 mod 256 = (unat c + unat w mod 256) mod 256"
    by (simp add: mod_mod_cancel mod_add_right_eq)
  then show ?thesis
    by (simp add: word_unat_eq_iff unat_word_ariths unsigned_ucast_eq take_bit_nat_def)
qed

section \<open>Scans with an eight-bit counter\<close>

text \<open>
  Many loops of the driver have the shape
  \<^verbatim>\<open>for (uint8_t i = 0; i < bound; i++) if (P(i)) break;\<close>
  with a sixteen-bit bound. The counter wraps at 256, so such a loop does not return when
  the bound is above 255 and no index below 256 satisfies the test. \<open>None\<close> is the loop
  that never returns, \<open>Some None\<close> the loop that runs off its bound.
\<close>

partial_function (option) scan_u8 :: "(nat \<Rightarrow> bool) \<Rightarrow> u16 \<Rightarrow> u8 \<Rightarrow> nat option option" where
  "scan_u8 tst bound i =
     (if ucast i < bound
      then if tst (unat i) then Some (Some (unat i)) else scan_u8 tst bound (i + 1)
      else Some None)"

lemma find_upt_step:
  "i < n \<Longrightarrow> find P [i..<n] = (if P i then Some i else find P [Suc i..<n])"
  by (simp add: upt_conv_Cons)

lemma scan_u8_from:
  assumes "unat bound \<le> 255"
  shows "scan_u8 P bound i = Some (find P [unat i..<unat bound])"
  using assms
proof (induction "unat bound - unat i" arbitrary: i rule: less_induct)
  case less
  show ?case
  proof (cases "unat i < unat bound")
    case True
    with less.prems have suc: "unat (i + 1) = Suc (unat i)" by (simp add: unat_Suc_u8)
    with True less.prems less.hyps [of "i + 1"]
    have "scan_u8 P bound (i + 1) = Some (find P [Suc (unat i)..<unat bound])" by simp
    with True show ?thesis
      by (simp add: scan_u8.simps [of P bound i] ucast_u8_less_u16_iff find_upt_step)
  next
    case False
    then show ?thesis
      by (simp add: scan_u8.simps [of P bound i] ucast_u8_less_u16_iff)
  qed
qed

lemma scan_u8_find:
  "unat bound \<le> 255 \<Longrightarrow> scan_u8 P bound 0 = Some (find P [0..<unat bound])"
  by (simp add: scan_u8_from)

lemma scan_u8_wraps:
  assumes big: "255 < unat bound" and none: "\<And>j. j < 256 \<Longrightarrow> \<not> P j"
  shows "scan_u8 P bound i = None"
proof (rule ccontr)
  assume "scan_u8 P bound i \<noteq> None"
  then obtain r where ret: "scan_u8 P bound i = Some r" by blast
  let ?no = "\<lambda>Q b (i :: u8) (r :: nat option). Q = P \<and> b = bound \<longrightarrow> False"
  have "?no P bound i r"
  proof (rule scan_u8.raw_induct [where P = ?no, OF _ ret])
    fix f Q b s and j :: u8
    assume IH: "\<And>Q b i r. f Q b i = Some r \<Longrightarrow> Q = P \<and> b = bound \<longrightarrow> False"
      and eq: "(if ucast j < b then if Q (unat j) then Some (Some (unat j)) else f Q b (j + 1)
                else Some None) = Some s"
    show "Q = P \<and> b = bound \<longrightarrow> False"
    proof
      assume *: "Q = P \<and> b = bound"
      have j: "unat j < 256" by simp
      with big have "unat j < unat bound" by linarith
      with j * have "ucast j < b" "\<not> Q (unat j)"
        using none by (auto simp: ucast_u8_less_u16_iff)
      with eq have "f Q b (j + 1) = Some s" by simp
      from IH [OF this] * show False by blast
    qed
  qed
  then show False by simp
qed

section \<open>Null-terminated chains\<close>

text \<open>
  Linked structures whose nodes live in an array are read through a successor function
  on node numbers: \<open>chain nxt p ps\<close> says that following \<open>nxt\<close> from \<open>p\<close> visits exactly the
  nodes \<open>ps\<close> and then ends in the null pointer.
\<close>

primrec chain :: "('n \<Rightarrow> 'n option) \<Rightarrow> 'n option \<Rightarrow> 'n list \<Rightarrow> bool" where
  "chain nxt p [] \<longleftrightarrow> p = None"
| "chain nxt p (n # ns) \<longleftrightarrow> p = Some n \<and> chain nxt (nxt n) ns"

lemma chain_None [chain_simps, simp]: "chain nxt None ps \<longleftrightarrow> ps = []"
  by (cases ps) auto

lemma chain_Some [chain_simps]:
  "chain nxt (Some n) ps \<longleftrightarrow> (\<exists>qs. ps = n # qs \<and> chain nxt (nxt n) qs)"
  by (cases ps) auto

lemma chain_unique: "chain nxt p ps \<Longrightarrow> chain nxt p qs \<Longrightarrow> ps = qs"
proof (induction ps arbitrary: p qs)
  case Nil
  then show ?case by simp
next
  case (Cons n ps)
  then show ?case by (cases qs) auto
qed

lemma chain_append_tail:
  "chain nxt p (ps @ n # qs) \<Longrightarrow> chain nxt (nxt n) qs"
  by (induction ps arbitrary: p) auto

lemma chain_cong:
  "(\<And>n. n \<in> set ps \<Longrightarrow> nxt n = nxt' n) \<Longrightarrow> chain nxt p ps = chain nxt' p ps"
  by (induction ps arbitrary: p) auto

lemma chain_upd_notin [chain_simps]:
  "n \<notin> set ps \<Longrightarrow> chain (nxt(n := q)) p ps = chain nxt p ps"
  by (rule chain_cong) auto

lemma chain_distinct:
  assumes "chain nxt p ps"
  shows "distinct ps"
  using assms
proof (induction ps arbitrary: p)
  case Nil
  then show ?case by simp
next
  case (Cons n ps)
  have "n \<notin> set ps"
  proof
    assume "n \<in> set ps"
    then obtain as bs where ps: "ps = as @ n # bs" by (auto simp: in_set_conv_decomp)
    from Cons.prems have "chain nxt (nxt n) ps" by simp
    moreover from this ps have "chain nxt (nxt n) bs" by (metis chain_append_tail)
    ultimately have "ps = bs" by (rule chain_unique)
    with ps show False by simp
  qed
  with Cons show ?case by auto
qed

lemma chain_unlink:
  assumes "chain nxt p (as @ a # n # bs)"
  shows "chain (nxt(a := nxt n)) p (as @ a # bs)"
proof -
  from assms have "distinct (as @ a # n # bs)" by (rule chain_distinct)
  with assms show ?thesis
  proof (induction as arbitrary: p)
    case Nil
    then show ?case by (auto simp: chain_upd_notin simp del: fun_upd_apply) (simp add: chain_upd_notin)
  next
    case (Cons c as)
    then have "c \<noteq> a" by auto
    with Cons show ?case by auto
  qed
qed

section \<open>Segments with a head and a tail pointer\<close>

text \<open>
  A queue kept by a head and a tail pointer: \<open>seg nxt h t xs\<close> says that the elements from \<open>h\<close>
  to \<open>t\<close> are \<open>xs\<close>. What the last element points to is not part of the segment.
\<close>

definition seg :: "('n \<Rightarrow> 'n option) \<Rightarrow> 'n option \<Rightarrow> 'n option \<Rightarrow> 'n list \<Rightarrow> bool" where
  "seg nxt h t xs \<longleftrightarrow>
     (if xs = [] then h = None
      else t = Some (last xs) \<and> chain (nxt(last xs := None)) h xs)"

lemma seg_head: "seg nxt h t xs \<Longrightarrow> h = (if xs = [] then None else Some (hd xs))"
  by (cases xs) (auto simp: seg_def)

lemma seg_None_iff: "seg nxt h t xs \<Longrightarrow> h = None \<longleftrightarrow> xs = []"
  using seg_head [of nxt h t xs] by auto

lemma seg_Nil [simp]: "seg nxt None t []"
  by (simp add: seg_def)

lemma seg_distinct: "seg nxt h t xs \<Longrightarrow> distinct xs"
  by (auto simp: seg_def dest: chain_distinct split: if_splits)

lemma seg_frame: "a \<notin> set xs \<Longrightarrow> seg (nxt(a := v)) h t xs = seg nxt h t xs"
proof (cases "xs = []")
  case False
  moreover assume "a \<notin> set xs"
  ultimately have "chain (nxt(a := v, last xs := None)) h xs = chain (nxt(last xs := None)) h xs"
    by (intro chain_cong) auto
  with False show ?thesis by (simp add: seg_def)
qed (simp add: seg_def)

lemma chain_glue:
  assumes "chain (nxt(last xs := None)) p xs" "xs \<noteq> []" "chain nxt (Some m) ys" "last xs \<notin> set ys"
  shows "chain (nxt(last xs := Some m)) p (xs @ ys)"
proof -
  have d: "distinct xs" using assms(1) by (rule chain_distinct)
  have ys: "chain (nxt(last xs := Some m)) (Some m) ys" using assms(3,4) by (simp add: chain_upd_notin)
  from assms(1,2) d ys show ?thesis
  proof (induction xs arbitrary: p)
    case (Cons x xs)
    show ?case
    proof (cases "xs = []")
      case False
      then have "x \<noteq> last xs" using Cons.prems(3) by auto
      with Cons False show ?thesis by auto
    qed (use Cons.prems in auto)
  qed simp
qed

text \<open>Linking one segment behind another.\<close>

lemma seg_append:
  assumes "seg nxt h t xs" "seg nxt h2 t2 ys" "xs \<noteq> []" "ys \<noteq> []" "distinct (xs @ ys)"
  shows "seg (nxt(last xs := h2)) h t2 (xs @ ys)"
proof -
  have l: "last xs \<in> set xs" "last ys \<in> set ys" using assms(3,4) by simp_all
  then have n: "last xs \<notin> set ys" "last ys \<notin> set xs" "last xs \<noteq> last ys" using assms(5) by auto
  have x: "chain (nxt(last xs := None)) h xs" and y: "t2 = Some (last ys)" "chain (nxt(last ys := None)) h2 ys"
    using assms(1-4) by (auto simp: seg_def)
  obtain m where m: "h2 = Some m" using y assms(4) by (cases ys) auto
  have "chain ((nxt(last xs := None))(last ys := None)) h xs" using x n(2) by (simp add: chain_upd_notin)
  then have "chain ((nxt(last ys := None))(last xs := None)) h xs" using n(3) by (simp add: fun_upd_twist)
  from chain_glue [OF this assms(3)] y(2) m n(1)
  have "chain ((nxt(last ys := None))(last xs := Some m)) h (xs @ ys)" by simp
  then have "chain ((nxt(last xs := h2))(last ys := None)) h (xs @ ys)" using n(3) m by (simp add: fun_upd_twist)
  with y(1) assms(3,4) show ?thesis by (simp add: seg_def)
qed

text \<open>Terminating a segment makes it a list.\<close>

lemma seg_chain:
  "\<lbrakk>seg nxt h t xs; xs \<noteq> []\<rbrakk> \<Longrightarrow> chain (nxt(the t := None)) h xs"
  by (auto simp: seg_def)

section \<open>Rings\<close>

text \<open>The indices visited from \<open>s\<close> in \<open>d\<close> steps around a ring of \<open>n\<close> slots.\<close>

definition ring_idx :: "nat \<Rightarrow> nat \<Rightarrow> nat \<Rightarrow> nat list" where
  "ring_idx n s d = map (\<lambda>j. (s + j) mod n) [0..<d]"

lemma ring_idx_0 [simp]: "ring_idx n s 0 = []"
  by (simp add: ring_idx_def)

lemma ring_idx_Suc: "s < n \<Longrightarrow> ring_idx n s (Suc d) = s # ring_idx n (Suc s mod n) d"
proof -
  assume "s < n"
  have "(\<lambda>j. (s + Suc j) mod n) = (\<lambda>j. (Suc s mod n + j) mod n)"
    by (auto simp: mod_add_left_eq)
  with \<open>s < n\<close> show ?thesis by (simp add: ring_idx_def map_upt_Suc del: upt_Suc)
qed

lemma ring_idx_range: "0 < n \<Longrightarrow> i \<in> set (ring_idx n s d) \<Longrightarrow> i < n"
  by (auto simp: ring_idx_def)

lemma ring_idx_distinct:
  assumes "d \<le> n"
  shows "distinct (ring_idx n s d)"
proof -
  have "inj_on (\<lambda>j. (s + j) mod n) {0..<d}"
  proof (rule inj_onI)
    fix i j assume ij: "i \<in> {0..<d}" "j \<in> {0..<d}" "(s + i) mod n = (s + j) mod n"
    have "\<not> a < b" if "a < d" "b < d" "(s + a) mod n = (s + b) mod n" for a b
    proof
      assume "a < b"
      then have "n dvd (s + b) - (s + a)"
        using that(3) mod_eq_dvd_iff_nat [of "s + a" "s + b" n] by (metis add_le_cancel_left less_imp_le)
      with \<open>a < b\<close> that(2) assms show False by (auto dest: dvd_imp_le)
    qed
    from this [of i j] this [of j i] ij show "i = j" by (simp add: nat_neq_iff)
  qed
  then show ?thesis by (simp add: ring_idx_def distinct_map)
qed

section \<open>Machines\<close>

text \<open>
  A component driven by a sequence of operations: an invariant that holds at the start and is kept
  by every step holds in every state that is reached.
\<close>

locale machine =
  fixes init :: "'s \<Rightarrow> bool" and step :: "'s \<Rightarrow> 's \<Rightarrow> bool" and inv :: "'s \<Rightarrow> bool"
  assumes init_inv: "init s \<Longrightarrow> inv s" and step_inv: "inv s \<Longrightarrow> step s s' \<Longrightarrow> inv s'"
begin

lemma steps_inv: "step\<^sup>*\<^sup>* s s' \<Longrightarrow> inv s \<Longrightarrow> inv s'"
  by (induction rule: rtranclp_induct) (auto intro: step_inv)

lemma reachable_inv: "init s \<Longrightarrow> step\<^sup>*\<^sup>* s s' \<Longrightarrow> inv s'"
  using steps_inv init_inv by blast

end

end
