(* ===== verification/Csr_List.thy ===== *)
theory Csr_List
  imports Prelude
begin

text \<open>
  The doubly linked list of the CSR/SME layer, \<open>core/sme/src/csr/csr_link_list.c\<close>: a circular
  list with a head element, a count, an open/closed flag, a lock and an optional command
  timer. Elements are addresses in a store of \<open>next\<close> and \<open>last\<close> links; address 0 is the
  null pointer. Calls into the operating system layer (mutex, timer) are recorded in
  order in \<open>ll_log\<close>.
\<close>

section \<open>State\<close>

datatype ll_event = MutexCreate | MutexDestroy | MutexAcquire | MutexRelease
  | TimerStart u32 | TimerStop

definition LIST_FLAG_CLOSE :: u32 where
  "LIST_FLAG_CLOSE = 0"

definition LIST_FLAG_OPEN :: u32 where
  "LIST_FLAG_OPEN = 0xa1b2c4d7"

record ll_state =
  ll_next :: "nat \<Rightarrow> nat"
  ll_last :: "nat \<Rightarrow> nat"
  ListHead :: nat
  ll_Count :: u32
  hHdd :: nat
  ll_Flag :: u32
  cmdTimeoutDuration :: u32
  cmdTimeoutTimer :: "nat option"
  ll_log :: "ll_event list"

text \<open>A \<open>tDblLinkList\<close> pointer argument; \<open>None\<close> is the null pointer.\<close>

type_synonym plist = "ll_state option"

definition ll_emit :: "ll_event \<Rightarrow> ll_state \<Rightarrow> ll_state" where
  "ll_emit e l = l\<lparr>ll_log := ll_log l @ [e]\<rparr>"

section \<open>Link manipulation\<close>

definition csr_list_init :: "nat \<Rightarrow> ll_state \<Rightarrow> ll_state" where
  "csr_list_init p l = l\<lparr>ll_next := (ll_next l)(p := p), ll_last := (ll_last l)(p := p)\<rparr>"

definition csr_list_remove_entry :: "nat \<Rightarrow> ll_state \<Rightarrow> ll_state" where
  "csr_list_remove_entry pEntry l =
     (let pLast = ll_last l pEntry; pNext = ll_next l pEntry in
      l\<lparr>ll_next := (ll_next l)(pLast := pNext), ll_last := (ll_last l)(pNext := pLast)\<rparr>)"

definition csr_list_remove_head :: "nat \<Rightarrow> ll_state \<Rightarrow> ll_state \<times> nat" where
  "csr_list_remove_head pHead l =
     (let pEntry = ll_next l pHead; pNext = ll_next l pEntry in
      (l\<lparr>ll_next := (ll_next l)(pHead := pNext), ll_last := (ll_last l)(pNext := pHead)\<rparr>, pEntry))"

definition csr_list_remove_tail :: "nat \<Rightarrow> ll_state \<Rightarrow> ll_state \<times> nat" where
  "csr_list_remove_tail pHead l =
     (let pEntry = ll_last l pHead; pLast = ll_last l pEntry in
      (l\<lparr>ll_last := (ll_last l)(pHead := pLast), ll_next := (ll_next l)(pLast := pHead)\<rparr>, pEntry))"

definition csr_list_insert_tail :: "nat \<Rightarrow> nat \<Rightarrow> ll_state \<Rightarrow> ll_state" where
  "csr_list_insert_tail pHead pEntry l =
     (let pLast = ll_last l pHead in
      l\<lparr>ll_last := (ll_last l)(pEntry := pLast, pHead := pEntry),
        ll_next := (ll_next l)(pEntry := pHead, pLast := pEntry)\<rparr>)"

definition csr_list_insert_head :: "nat \<Rightarrow> nat \<Rightarrow> ll_state \<Rightarrow> ll_state" where
  "csr_list_insert_head pHead pEntry l =
     (let pNext = ll_next l pHead in
      l\<lparr>ll_next := (ll_next l)(pEntry := pNext, pHead := pEntry),
        ll_last := (ll_last l)(pEntry := pHead, pNext := pEntry)\<rparr>)"

definition csr_list_insert_entry :: "nat \<Rightarrow> nat \<Rightarrow> ll_state \<Rightarrow> ll_state" where
  "csr_list_insert_entry pEntry pNewEntry l =
     (if pEntry = 0 then l
      else let pLast = ll_last l pEntry in
      l\<lparr>ll_next := (ll_next l)(pLast := pNewEntry, pNewEntry := pEntry),
        ll_last := (ll_last l)(pEntry := pNewEntry, pNewEntry := pLast)\<rparr>)"

definition csrIsListEmpty :: "ll_state \<Rightarrow> bool" where
  "csrIsListEmpty l \<longleftrightarrow> ll_next l (ListHead l) = ListHead l"

section \<open>The list interface\<close>

text \<open>
  Every operation of the interface does nothing on a null pointer and on a list that is
  not open; \<open>on_open\<close> is that common frame, with the result in those two cases.
\<close>

definition on_open :: "'r \<Rightarrow> (ll_state \<Rightarrow> ll_state \<times> 'r) \<Rightarrow> plist \<Rightarrow> plist \<times> 'r" where
  "on_open dflt body p =
     (case p of
        None \<Rightarrow> (None, dflt)
      | Some l \<Rightarrow>
          if ll_Flag l = LIST_FLAG_OPEN
          then let (l', r) = body l in (Some l', r)
          else (Some l, dflt))"

definition csr_ll_count :: "plist \<Rightarrow> u32" where
  "csr_ll_count pList = snd (on_open 0 (\<lambda>l. (l, ll_Count l)) pList)"

definition csr_ll_lock :: "plist \<Rightarrow> plist" where
  "csr_ll_lock pList = fst (on_open () (\<lambda>l. (ll_emit MutexAcquire l, ())) pList)"

definition csr_ll_unlock :: "plist \<Rightarrow> plist" where
  "csr_ll_unlock pList = fst (on_open () (\<lambda>l. (ll_emit MutexRelease l, ())) pList)"

text \<open>The two calls on a list that is known not to be null, as the other operations make them.\<close>

definition ll_lock_if :: "bool \<Rightarrow> ll_state \<Rightarrow> ll_state" where
  "ll_lock_if fInterlocked l = (if fInterlocked then the (csr_ll_lock (Some l)) else l)"

definition ll_unlock_if :: "bool \<Rightarrow> ll_state \<Rightarrow> ll_state" where
  "ll_unlock_if fInterlocked l = (if fInterlocked then the (csr_ll_unlock (Some l)) else l)"

text \<open>A body between \<open>csr_ll_lock\<close> and \<open>csr_ll_unlock\<close> when the caller asks for it.\<close>

definition interlocked :: "bool \<Rightarrow> (ll_state \<Rightarrow> ll_state \<times> 'r) \<Rightarrow> ll_state \<Rightarrow> ll_state \<times> 'r" where
  "interlocked fInterlocked body l =
     (let (l1, r) = body (ll_lock_if fInterlocked l) in (ll_unlock_if fInterlocked l1, r))"

definition csr_ll_is_list_empty :: "plist \<Rightarrow> bool \<Rightarrow> plist \<times> bool" where
  "csr_ll_is_list_empty pList fInterlocked =
     on_open True (interlocked fInterlocked (\<lambda>l. (l, csrIsListEmpty l))) pList"

definition csr_ll_peek_head :: "plist \<Rightarrow> bool \<Rightarrow> plist \<times> nat" where
  "csr_ll_peek_head pList fInterlocked =
     on_open 0 (interlocked fInterlocked
       (\<lambda>l. (l, if csrIsListEmpty l then 0 else ll_next l (ListHead l)))) pList"

definition csr_ll_peek_tail :: "plist \<Rightarrow> bool \<Rightarrow> plist \<times> nat" where
  "csr_ll_peek_tail pList fInterlocked =
     on_open 0 (interlocked fInterlocked
       (\<lambda>l. (l, if csrIsListEmpty l then 0 else ll_last l (ListHead l)))) pList"

text \<open>The search loop shared by \<open>csr_ll_find_entry\<close> and \<open>csr_ll_remove_entry\<close>.\<close>

partial_function (option) ll_search ::
  "(nat \<Rightarrow> nat) \<Rightarrow> nat \<Rightarrow> nat \<Rightarrow> nat \<Rightarrow> bool option" where
  "ll_search nxt hd_addr target pEntry =
     (if pEntry \<noteq> 0 \<and> pEntry \<noteq> hd_addr
      then if pEntry = target then Some True else ll_search nxt hd_addr target (nxt pEntry)
      else Some False)"

definition csr_ll_find_entry :: "plist \<Rightarrow> nat \<Rightarrow> bool option" where
  "csr_ll_find_entry pList pEntryToFind =
     (case pList of
        None \<Rightarrow> Some False
      | Some l \<Rightarrow>
          if ll_Flag l = LIST_FLAG_OPEN
          then ll_search (ll_next l) (ListHead l) pEntryToFind (snd (csr_ll_peek_head pList False))
          else Some False)"

text \<open>\<open>mutex_ok\<close> is the outcome of \<open>qdf_mutex_create\<close>; the result tells success.\<close>

definition csr_ll_open :: "bool \<Rightarrow> nat \<Rightarrow> plist \<Rightarrow> plist \<times> bool" where
  "csr_ll_open mutex_ok hdd pList =
     (case pList of
        None \<Rightarrow> (None, False)
      | Some l \<Rightarrow>
          if ll_Flag l \<noteq> LIST_FLAG_OPEN
          then let l1 = ll_emit MutexCreate (l\<lparr>ll_Count := 0, cmdTimeoutTimer := None\<rparr>) in
            if mutex_ok
            then (Some ((csr_list_init (ListHead l1) l1)\<lparr>ll_Flag := LIST_FLAG_OPEN, hHdd := hdd\<rparr>), True)
            else (Some l1, False)
          else (Some l, True))"

definition csr_ll_insert_tail :: "plist \<Rightarrow> nat \<Rightarrow> bool \<Rightarrow> plist" where
  "csr_ll_insert_tail pList pEntry fInterlocked =
     fst (on_open () (interlocked fInterlocked
       (\<lambda>l. let l1 = csr_list_insert_tail (ListHead l) pEntry l in
            (l1\<lparr>ll_Count := ll_Count l1 + 1\<rparr>, ()))) pList)"

definition csr_ll_insert_head :: "plist \<Rightarrow> nat \<Rightarrow> bool \<Rightarrow> plist" where
  "csr_ll_insert_head pList pEntry fInterlocked =
     fst (on_open () (\<lambda>l.
       let l1 = fst (interlocked fInterlocked
             (\<lambda>l. let l1 = csr_list_insert_head (ListHead l) pEntry l in
                  (l1\<lparr>ll_Count := ll_Count l1 + 1\<rparr>, ())) l)
       in (if cmdTimeoutTimer l1 \<noteq> None \<and> cmdTimeoutDuration l1 \<noteq> 0
           then ll_emit (TimerStart (cmdTimeoutDuration l1)) l1 else l1, ())) pList)"

definition csr_ll_insert_entry :: "plist \<Rightarrow> nat \<Rightarrow> nat \<Rightarrow> bool \<Rightarrow> plist" where
  "csr_ll_insert_entry pList pEntry pNewEntry fInterlocked =
     fst (on_open () (interlocked fInterlocked
       (\<lambda>l. let l1 = csr_list_insert_entry pEntry pNewEntry l in
            (l1\<lparr>ll_Count := ll_Count l1 + 1\<rparr>, ()))) pList)"

definition csr_ll_remove_tail :: "plist \<Rightarrow> bool \<Rightarrow> plist \<times> nat" where
  "csr_ll_remove_tail pList fInterlocked =
     on_open 0 (interlocked fInterlocked
       (\<lambda>l. if csrIsListEmpty l then (l, 0)
            else let (l1, e) = csr_list_remove_tail (ListHead l) l in
                 (l1\<lparr>ll_Count := ll_Count l1 - 1\<rparr>, e))) pList"

definition csr_ll_remove_head :: "plist \<Rightarrow> bool \<Rightarrow> plist \<times> nat" where
  "csr_ll_remove_head pList fInterlocked =
     on_open 0 (interlocked fInterlocked
       (\<lambda>l. if csrIsListEmpty l then (l, 0)
            else let (l1, e) = csr_list_remove_head (ListHead l) l in
                 (l1\<lparr>ll_Count := ll_Count l1 - 1\<rparr>, e))) pList"

text \<open>The loop of \<open>csr_ll_purge\<close>: remove heads until the list yields the null pointer.\<close>

partial_function (option) ll_purge_loop :: "plist \<Rightarrow> plist option" where
  "ll_purge_loop p =
     (let r = csr_ll_remove_head p False in
      if snd r \<noteq> 0 then ll_purge_loop (fst r) else Some (fst r))"

definition csr_ll_purge :: "plist \<Rightarrow> bool \<Rightarrow> plist option" where
  "csr_ll_purge pList fInterlocked =
     (case pList of
        None \<Rightarrow> Some None
      | Some l \<Rightarrow>
          if ll_Flag l = LIST_FLAG_OPEN
          then do {
            p \<leftarrow> ll_purge_loop (Some (ll_lock_if fInterlocked l));
            Some (map_option (ll_unlock_if fInterlocked) p)
          }
          else Some pList)"

definition csr_ll_close :: "plist \<Rightarrow> plist option" where
  "csr_ll_close pList =
     (case pList of
        None \<Rightarrow> Some None
      | Some l \<Rightarrow>
          if ll_Flag l = LIST_FLAG_OPEN
          then do {
            p \<leftarrow> csr_ll_purge pList True;
            Some (map_option (\<lambda>l. (ll_emit MutexDestroy l)\<lparr>ll_Flag := LIST_FLAG_CLOSE\<rparr>) p)
          }
          else Some pList)"

definition csr_ll_remove_entry :: "plist \<Rightarrow> nat \<Rightarrow> bool \<Rightarrow> (plist \<times> bool) option" where
  "csr_ll_remove_entry pList pEntryToRemove fInterlocked =
     (case pList of
        None \<Rightarrow> Some (None, False)
      | Some l \<Rightarrow>
          if ll_Flag l = LIST_FLAG_OPEN
          then let l1 = ll_lock_if fInterlocked l in
            do {
              fFound \<leftarrow> ll_search (ll_next l1) (ListHead l1) pEntryToRemove
                          (snd (csr_ll_peek_head (Some l1) False));
              let l2 = (if fFound
                        then let m = csr_list_remove_entry pEntryToRemove l1 in
                             m\<lparr>ll_Count := ll_Count m - 1\<rparr>
                        else l1);
              let l3 = ll_unlock_if fInterlocked l2;
              Some (Some (if cmdTimeoutTimer l3 \<noteq> None then ll_emit TimerStop l3 else l3), fFound)
            }
          else Some (pList, False))"

definition csr_ll_next :: "plist \<Rightarrow> nat \<Rightarrow> bool \<Rightarrow> (plist \<times> nat) option" where
  "csr_ll_next pList pEntry fInterlocked =
     (case pList of
        None \<Rightarrow> Some (None, 0)
      | Some l \<Rightarrow>
          if ll_Flag l = LIST_FLAG_OPEN
          then let l1 = ll_lock_if fInterlocked l in
            do {
              fnd \<leftarrow> (if csrIsListEmpty l1 then Some False else csr_ll_find_entry (Some l1) pEntry);
              let e = (if fnd \<and> ll_next l1 pEntry \<noteq> ListHead l1 then ll_next l1 pEntry else 0);
              Some (Some (ll_unlock_if fInterlocked l1), e)
            }
          else Some (pList, 0))"

definition csr_ll_previous :: "plist \<Rightarrow> nat \<Rightarrow> bool \<Rightarrow> (plist \<times> nat) option" where
  "csr_ll_previous pList pEntry fInterlocked =
     (case pList of
        None \<Rightarrow> Some (None, 0)
      | Some l \<Rightarrow>
          if ll_Flag l = LIST_FLAG_OPEN
          then let l1 = ll_lock_if fInterlocked l in
            do {
              fnd \<leftarrow> (if csrIsListEmpty l1 then Some False else csr_ll_find_entry (Some l1) pEntry);
              let e = (if fnd \<and> ll_last l1 pEntry \<noteq> ListHead l1 then ll_last l1 pEntry else 0);
              Some (Some (ll_unlock_if fInterlocked l1), e)
            }
          else Some (pList, 0))"

section \<open>Rings\<close>

text \<open>Consecutive vertices are linked in both directions.\<close>

fun links :: "(nat \<Rightarrow> nat) \<Rightarrow> (nat \<Rightarrow> nat) \<Rightarrow> nat list \<Rightarrow> bool" where
  "links nxt lst (u # v # vs) \<longleftrightarrow> nxt u = v \<and> lst v = u \<and> links nxt lst (v # vs)"
| "links nxt lst vs \<longleftrightarrow> True"

lemma links_append:
  assumes "us \<noteq> []" "vs \<noteq> []"
  shows "links nxt lst (us @ vs) \<longleftrightarrow>
    links nxt lst us \<and> links nxt lst vs \<and> nxt (last us) = hd vs \<and> lst (hd vs) = last us"
  using assms
proof (induction us rule: induct_list012)
  case (2 u)
  then show ?case by (cases vs) auto
qed auto

lemma links_cong:
  assumes "\<And>u. u \<in> set (butlast vs) \<Longrightarrow> nxt' u = nxt u" "\<And>u. u \<in> set (tl vs) \<Longrightarrow> lst' u = lst u"
  shows "links nxt' lst' vs = links nxt lst vs"
  using assms
proof (induction vs rule: induct_list012)
  case (3 u v vs)
  have "links nxt' lst' (v # vs) = links nxt lst (v # vs)"
    using 3(3,4) by (intro 3(2)) (auto split: if_splits dest: list.set_sel(2))
  with 3(3,4) show ?case by simp
qed auto

definition ring :: "(nat \<Rightarrow> nat) \<Rightarrow> (nat \<Rightarrow> nat) \<Rightarrow> nat \<Rightarrow> nat list \<Rightarrow> bool" where
  "ring nxt lst h xs \<longleftrightarrow> distinct (h # xs) \<and> 0 \<notin> set (h # xs) \<and> links nxt lst (h # xs @ [h])"

lemma ring_cut:
  assumes "ring nxt lst h (as @ bs)"
  shows "links nxt lst (h # as)" "links nxt lst (bs @ [h])"
    "nxt (last (h # as)) = hd (bs @ [h])" "lst (hd (bs @ [h])) = last (h # as)"
  using assms links_append [of "h # as" "bs @ [h]" nxt lst] by (auto simp: ring_def)

lemma ring_glue:
  assumes "distinct (h # as @ bs)" "0 \<notin> set (h # as @ bs)"
    and "links nxt lst (h # as)" "links nxt lst (bs @ [h])"
    "nxt (last (h # as)) = hd (bs @ [h])" "lst (hd (bs @ [h])) = last (h # as)"
  shows "ring nxt lst h (as @ bs)"
  using assms links_append [of "h # as" "bs @ [h]" nxt lst] by (auto simp: ring_def)

lemma in_butlast_not_last: "distinct vs \<Longrightarrow> u \<in> set (butlast vs) \<Longrightarrow> u \<noteq> last vs"
  by (cases vs rule: rev_cases) auto

text \<open>Every insertion of the file splices an element between two neighbours.\<close>

lemma ring_splice:
  assumes r: "ring nxt lst h (as @ bs)" and e: "e \<notin> set (h # as @ bs)" "e \<noteq> 0"
    and ab: "a = last (h # as)" "b = hd (bs @ [h])"
  shows "ring (nxt(a := e, e := b)) (lst(b := e, e := a)) h (as @ e # bs)"
proof -
  let ?n = "nxt(a := e, e := b)" and ?l = "lst(b := e, e := a)"
  from r have d: "distinct (h # as @ bs)" "0 \<notin> set (h # as @ bs)" by (auto simp: ring_def)
  have a_in: "a \<in> set (h # as)" unfolding ab by (rule last_in_set) simp
  have b_in: "b \<in> set (bs @ [h])" unfolding ab by (rule hd_in_set) simp
  have ne: "a \<noteq> e" "b \<noteq> e" using a_in b_in e by auto
  have "links ?n ?l (h # as) = links nxt lst (h # as)"
  proof (rule links_cong)
    fix u assume u: "u \<in> set (butlast (h # as))"
    with d have "u \<noteq> a" unfolding ab by (intro in_butlast_not_last) auto
    moreover have "u \<noteq> e" using e in_set_butlastD [OF u] by auto
    ultimately show "?n u = nxt u" by simp
  next
    fix u assume "u \<in> set (tl (h # as))"
    with d e b_in show "?l u = lst u" by auto
  qed
  moreover have "links ?n ?l (e # bs @ [h]) \<longleftrightarrow> links ?n ?l (bs @ [h])"
    using ne links_append [of "[e]" "bs @ [h]" ?n ?l] ab by auto
  moreover have "links ?n ?l (bs @ [h]) = links nxt lst (bs @ [h])"
  proof (rule links_cong)
    fix u assume "u \<in> set (butlast (bs @ [h]))"
    with d e a_in show "?n u = nxt u" by auto
  next
    fix u assume u: "u \<in> set (tl (bs @ [h]))"
    with d have "u \<noteq> b" unfolding ab by (cases bs) auto
    moreover from u e have "u \<noteq> e" by (auto dest: list.set_sel(2) split: list.splits) (cases bs; auto)+
    ultimately show "?l u = lst u" by simp
  qed
  ultimately show ?thesis
    using ring_cut [OF r] d e ne ab by (intro ring_glue) auto
qed

text \<open>Every removal joins the neighbours of the element it takes out.\<close>

lemma ring_unsplice:
  assumes r: "ring nxt lst h (as @ e # bs)"
    and ab: "a = last (h # as)" "b = hd (bs @ [h])"
  shows "ring (nxt(a := b)) (lst(b := a)) h (as @ bs)"
proof -
  let ?n = "nxt(a := b)" and ?l = "lst(b := a)"
  from r have d: "distinct (h # as @ e # bs)" "0 \<notin> set (h # as @ e # bs)" by (auto simp: ring_def)
  have a_in: "a \<in> set (h # as)" unfolding ab by (rule last_in_set) simp
  have b_in: "b \<in> set (bs @ [h])" unfolding ab by (rule hd_in_set) simp
  have "links ?n ?l (h # as) = links nxt lst (h # as)"
  proof (rule links_cong)
    fix u assume u: "u \<in> set (butlast (h # as))"
    with d have "u \<noteq> a" unfolding ab by (intro in_butlast_not_last) auto
    then show "?n u = nxt u" by simp
  next
    fix u assume "u \<in> set (tl (h # as))"
    with d b_in show "?l u = lst u" by auto
  qed
  moreover have "links ?n ?l (bs @ [h]) = links nxt lst (bs @ [h])"
  proof (rule links_cong)
    fix u assume "u \<in> set (butlast (bs @ [h]))"
    with d a_in show "?n u = nxt u" by auto
  next
    fix u assume u: "u \<in> set (tl (bs @ [h]))"
    with d have "u \<noteq> b" unfolding ab by (cases bs) auto
    then show "?l u = lst u" by simp
  qed
  moreover have "links nxt lst (bs @ [h])"
    using ring_cut(2) [of nxt lst h "as @ [e]" bs] r by simp
  ultimately show ?thesis
    using ring_cut [OF r] d ab by (intro ring_glue) auto
qed

section \<open>Representation\<close>

text \<open>\<open>ll_rep l xs\<close>: the open list \<open>l\<close> holds exactly the elements \<open>xs\<close>, in order.\<close>

definition ll_rep :: "ll_state \<Rightarrow> nat list \<Rightarrow> bool" where
  "ll_rep l xs \<longleftrightarrow> ll_Flag l = LIST_FLAG_OPEN \<and> ring (ll_next l) (ll_last l) (ListHead l) xs \<and>
     ll_Count l = of_nat (length xs)"

definition plist_rep :: "plist \<Rightarrow> nat list \<Rightarrow> bool" where
  "plist_rep p xs \<longleftrightarrow> (\<exists>l. p = Some l \<and> ll_rep l xs)"

text \<open>An element that can be put on the list: not null, not the head, not on it yet.\<close>

definition ll_fresh :: "plist \<Rightarrow> nat list \<Rightarrow> nat \<Rightarrow> bool" where
  "ll_fresh p xs e \<longleftrightarrow> e \<noteq> 0 \<and> e \<notin> set xs \<and> (\<forall>l. p = Some l \<longrightarrow> e \<noteq> ListHead l)"

lemma ll_emit_rep [simp]: "ll_rep (ll_emit ev l) xs = ll_rep l xs"
  by (simp add: ll_rep_def ll_emit_def)

lemma ll_emit_fields [simp]:
  "ll_next (ll_emit ev l) = ll_next l" "ll_last (ll_emit ev l) = ll_last l"
  "ListHead (ll_emit ev l) = ListHead l" "ll_Flag (ll_emit ev l) = ll_Flag l"
  "ll_Count (ll_emit ev l) = ll_Count l" "ll_log (ll_emit ev l) = ll_log l @ [ev]"
  "cmdTimeoutTimer (ll_emit ev l) = cmdTimeoutTimer l"
  "cmdTimeoutDuration (ll_emit ev l) = cmdTimeoutDuration l"
  by (simp_all add: ll_emit_def)

lemma ll_lock_if_cases:
  "ll_lock_if b l = (if b \<and> ll_Flag l = LIST_FLAG_OPEN then ll_emit MutexAcquire l else l)"
  by (simp add: ll_lock_if_def csr_ll_lock_def on_open_def)

lemma ll_unlock_if_cases:
  "ll_unlock_if b l = (if b \<and> ll_Flag l = LIST_FLAG_OPEN then ll_emit MutexRelease l else l)"
  by (simp add: ll_unlock_if_def csr_ll_unlock_def on_open_def)

lemma ll_lock_if_fields [simp]:
  "ll_next (ll_lock_if b l) = ll_next l" "ll_last (ll_lock_if b l) = ll_last l"
  "ListHead (ll_lock_if b l) = ListHead l" "ll_Flag (ll_lock_if b l) = ll_Flag l"
  "ll_Count (ll_lock_if b l) = ll_Count l" "ll_rep (ll_lock_if b l) xs = ll_rep l xs"
  "cmdTimeoutTimer (ll_lock_if b l) = cmdTimeoutTimer l"
  by (simp_all add: ll_lock_if_cases)

lemma ll_unlock_if_fields [simp]:
  "ListHead (ll_unlock_if b l) = ListHead l" "ll_rep (ll_unlock_if b l) xs = ll_rep l xs"
  "ll_Flag (ll_unlock_if b l) = ll_Flag l" "cmdTimeoutTimer (ll_unlock_if b l) = cmdTimeoutTimer l"
  by (simp_all add: ll_unlock_if_cases)

lemma ll_rep_open: "ll_rep l xs \<Longrightarrow> ll_Flag l = LIST_FLAG_OPEN"
  by (simp add: ll_rep_def)

lemma ring_ends:
  assumes "ring nxt lst h xs"
  shows "nxt h = hd (xs @ [h])" "lst h = last (h # xs)" "h \<noteq> 0" "0 \<notin> set xs" "h \<notin> set xs"
  using ring_cut [of nxt lst h "[]" xs] ring_cut [of nxt lst h xs "[]"] assms
  by (auto simp: ring_def)

lemma ring_neighbours:
  assumes "ring nxt lst h (as @ e # bs)"
  shows "nxt e = hd (bs @ [h])" "lst e = last (h # as)"
  using ring_cut [of nxt lst h "as @ [e]" bs] ring_cut [of nxt lst h as "e # bs"] assms by auto

lemma csrIsListEmpty_rep: "ll_rep l xs \<Longrightarrow> csrIsListEmpty l \<longleftrightarrow> xs = []"
  using ring_ends [of "ll_next l" "ll_last l" "ListHead l" xs]
  by (cases xs) (auto simp: csrIsListEmpty_def ll_rep_def)

lemma csrIsListEmpty_lock [simp]: "csrIsListEmpty (ll_lock_if b l) = csrIsListEmpty l"
  by (simp add: csrIsListEmpty_def)

lemma insert_tail_rep:
  assumes "ll_rep l xs" "e \<noteq> 0" "e \<notin> set (ListHead l # xs)"
  shows "ll_rep ((csr_list_insert_tail (ListHead l) e l)\<lparr>ll_Count := ll_Count l + 1\<rparr>) (xs @ [e])"
proof -
  let ?h = "ListHead l"
  have r: "ring (ll_next l) (ll_last l) ?h (xs @ [])" using assms by (simp add: ll_rep_def)
  have "last (?h # xs) \<noteq> e" using assms(3) last_in_set [of "?h # xs"] by (auto simp del: last.simps)
  with ring_splice [OF r, of e "last (?h # xs)" ?h] assms ring_ends(2) [of "ll_next l" "ll_last l" ?h xs]
  show ?thesis
    by (auto simp: ll_rep_def csr_list_insert_tail_def Let_def fun_upd_twist simp del: last.simps)
qed

lemma insert_head_rep:
  assumes "ll_rep l xs" "e \<noteq> 0" "e \<notin> set (ListHead l # xs)"
  shows "ll_rep ((csr_list_insert_head (ListHead l) e l)\<lparr>ll_Count := ll_Count l + 1\<rparr>) (e # xs)"
proof -
  let ?h = "ListHead l"
  have r: "ring (ll_next l) (ll_last l) ?h ([] @ xs)" using assms by (simp add: ll_rep_def)
  have "hd (xs @ [?h]) \<noteq> e" using assms(3) hd_in_set [of "xs @ [?h]"] by auto
  with ring_splice [OF r, of e ?h "hd (xs @ [?h])"] assms ring_ends(1) [of "ll_next l" "ll_last l" ?h xs]
  show ?thesis
    by (auto simp: ll_rep_def csr_list_insert_head_def Let_def fun_upd_twist)
qed

lemma insert_entry_rep:
  assumes "ll_rep l (as @ q # bs)" "e \<noteq> 0" "e \<notin> set (ListHead l # as @ q # bs)"
  shows "ll_rep ((csr_list_insert_entry q e l)\<lparr>ll_Count := ll_Count l + 1\<rparr>) (as @ e # q # bs)"
proof -
  let ?h = "ListHead l"
  have r: "ring (ll_next l) (ll_last l) ?h (as @ q # bs)" using assms by (simp add: ll_rep_def)
  then have "q \<noteq> 0" by (auto simp: ring_def)
  with ring_splice [OF r, of e "last (?h # as)" q] assms ring_neighbours(2) [OF r]
  show ?thesis
    by (auto simp: ll_rep_def csr_list_insert_entry_def Let_def simp del: last.simps)
qed

lemma remove_entry_rep:
  assumes "ll_rep l (as @ e # bs)"
  shows "ll_rep ((csr_list_remove_entry e l)\<lparr>ll_Count := ll_Count l - 1\<rparr>) (as @ bs)"
proof -
  have r: "ring (ll_next l) (ll_last l) (ListHead l) (as @ e # bs)" using assms by (simp add: ll_rep_def)
  from ring_unsplice [OF r refl refl] ring_neighbours [OF r] assms show ?thesis
    by (auto simp: ll_rep_def csr_list_remove_entry_def Let_def simp del: last.simps)
qed

lemma remove_head_rep:
  assumes "ll_rep l (e # xs)"
  shows "ll_rep ((fst (csr_list_remove_head (ListHead l) l))\<lparr>ll_Count := ll_Count l - 1\<rparr>) xs"
    and "snd (csr_list_remove_head (ListHead l) l) = e"
proof -
  have r: "ring (ll_next l) (ll_last l) (ListHead l) ([] @ e # xs)" using assms by (simp add: ll_rep_def)
  from ring_unsplice [OF r refl refl] ring_neighbours [OF r] ring_ends(1) [OF r] assms
  show "ll_rep ((fst (csr_list_remove_head (ListHead l) l))\<lparr>ll_Count := ll_Count l - 1\<rparr>) xs"
    "snd (csr_list_remove_head (ListHead l) l) = e"
    by (auto simp: ll_rep_def csr_list_remove_head_def Let_def)
qed

lemma remove_tail_rep:
  assumes "ll_rep l (xs @ [e])"
  shows "ll_rep ((fst (csr_list_remove_tail (ListHead l) l))\<lparr>ll_Count := ll_Count l - 1\<rparr>) xs"
    and "snd (csr_list_remove_tail (ListHead l) l) = e"
proof -
  have r: "ring (ll_next l) (ll_last l) (ListHead l) (xs @ e # [])" using assms by (simp add: ll_rep_def)
  have "last (ListHead l # xs @ [e]) = e" by simp
  with ring_unsplice [OF r refl refl] ring_neighbours [OF r] ring_ends(2) [OF r] assms
  show "ll_rep ((fst (csr_list_remove_tail (ListHead l) l))\<lparr>ll_Count := ll_Count l - 1\<rparr>) xs"
    "snd (csr_list_remove_tail (ListHead l) l) = e"
    by (auto simp: ll_rep_def csr_list_remove_tail_def Let_def simp del: last.simps)
qed

section \<open>The contract of the list\<close>

text \<open>
  What the commands of the SME layer rely on: a list of distinct elements with insertion
  and removal at both ends, removal of a given element, and a count. \<open>rep s xs\<close> relates a
  list state to the elements it holds and \<open>fresh\<close> is the caller's obligation on an
  element it puts on the list.
\<close>

locale link_list =
  fixes rep :: "'s \<Rightarrow> 'a list \<Rightarrow> bool"
    and fresh :: "'s \<Rightarrow> 'a list \<Rightarrow> 'a \<Rightarrow> bool"
    and push_tail :: "'s \<Rightarrow> 'a \<Rightarrow> 's"
    and push_head :: "'s \<Rightarrow> 'a \<Rightarrow> 's"
    and pop_head :: "'s \<Rightarrow> 's \<times> 'a"
    and remove :: "'s \<Rightarrow> 'a \<Rightarrow> ('s \<times> bool) option"
    and null :: 'a
  assumes push_tail: "\<lbrakk>rep s xs; fresh s xs e\<rbrakk> \<Longrightarrow> rep (push_tail s e) (xs @ [e])"
    and push_head: "\<lbrakk>rep s xs; fresh s xs e\<rbrakk> \<Longrightarrow> rep (push_head s e) (e # xs)"
    and pop_head_Cons: "rep s (e # xs) \<Longrightarrow> rep (fst (pop_head s)) xs \<and> snd (pop_head s) = e"
    and pop_head_Nil: "rep s [] \<Longrightarrow> pop_head s = (s, null)"
    and remove_in: "\<lbrakk>rep s (as @ e # bs)\<rbrakk> \<Longrightarrow> \<exists>s'. remove s e = Some (s', True) \<and> rep s' (as @ bs)"
    and fresh_push: "\<lbrakk>rep s xs; fresh s xs e; fresh s xs d; d \<noteq> e\<rbrakk> \<Longrightarrow>
          fresh (push_tail s e) (xs @ [e]) d"
    and elements: "rep s xs \<Longrightarrow> distinct xs \<and> null \<notin> set xs"
begin

fun push_all :: "'s \<Rightarrow> 'a list \<Rightarrow> 's" where
  "push_all s [] = s"
| "push_all s (e # es) = push_all (push_tail s e) es"

fun pop_n :: "nat \<Rightarrow> 's \<Rightarrow> 'a list" where
  "pop_n 0 s = []"
| "pop_n (Suc n) s = snd (pop_head s) # pop_n n (fst (pop_head s))"

lemma push_all_rep:
  "\<lbrakk>rep s xs; distinct es; \<forall>e \<in> set es. fresh s xs e\<rbrakk> \<Longrightarrow> rep (push_all s es) (xs @ es)"
proof (induction es arbitrary: s xs)
  case Nil
  then show ?case by simp
next
  case (Cons e es)
  then have "rep (push_all (push_tail s e) es) ((xs @ [e]) @ es)"
    by (intro Cons.IH) (auto intro: push_tail fresh_push)
  then show ?case by simp
qed

lemma pop_n_rep: "rep s xs \<Longrightarrow> n \<le> length xs \<Longrightarrow> pop_n n s = take n xs"
proof (induction n arbitrary: s xs)
  case (Suc n)
  then obtain e ys where xs: "xs = e # ys" by (cases xs) auto
  with Suc pop_head_Cons [of s e ys] show ?case by simp
qed simp

text \<open>First in, first out: what is pushed at the tail comes out at the head in order.\<close>

lemma fifo:
  assumes "rep s []" "distinct es" "\<forall>e \<in> set es. fresh s [] e"
  shows "pop_n (length es) (push_all s es) = es"
  using pop_n_rep [OF push_all_rep [OF assms]] by simp

end

lemma plist_rep_Some: "plist_rep (Some l) xs = ll_rep l xs"
  by (simp add: plist_rep_def)

lemma csr_ll_insert_tail_rep:
  assumes "ll_rep l xs" "e \<noteq> 0" "e \<notin> set (ListHead l # xs)"
  shows "\<exists>l'. csr_ll_insert_tail (Some l) e lk = Some l' \<and> ll_rep l' (xs @ [e]) \<and> ListHead l' = ListHead l"
  using insert_tail_rep [of "ll_lock_if lk l" xs e] assms
  by (simp add: csr_ll_insert_tail_def on_open_def interlocked_def Let_def ll_rep_open
      csr_list_insert_tail_def)

lemma csr_ll_insert_head_rep:
  assumes "ll_rep l xs" "e \<noteq> 0" "e \<notin> set (ListHead l # xs)"
  shows "\<exists>l'. csr_ll_insert_head (Some l) e lk = Some l' \<and> ll_rep l' (e # xs) \<and> ListHead l' = ListHead l"
  using insert_head_rep [of "ll_lock_if lk l" xs e] assms
  by (simp add: csr_ll_insert_head_def on_open_def interlocked_def Let_def ll_rep_open
      csr_list_insert_head_def)

lemma csr_ll_insert_entry_rep:
  assumes "ll_rep l (as @ q # bs)" "e \<noteq> 0" "e \<notin> set (ListHead l # as @ q # bs)"
  shows "\<exists>l'. csr_ll_insert_entry (Some l) q e lk = Some l' \<and> ll_rep l' (as @ e # q # bs) \<and>
    ListHead l' = ListHead l"
proof -
  from assms have "q \<noteq> 0" by (auto simp: ll_rep_def ring_def)
  then show ?thesis
    using insert_entry_rep [of "ll_lock_if lk l" as q bs e] assms
    by (simp add: csr_ll_insert_entry_def on_open_def interlocked_def Let_def ll_rep_open
        csr_list_insert_entry_def)
qed

lemma csr_ll_remove_head_rep:
  assumes "ll_rep l (e # xs)"
  shows "\<exists>l'. csr_ll_remove_head (Some l) lk = (Some l', e) \<and> ll_rep l' xs \<and> ListHead l' = ListHead l"
  using remove_head_rep [of "ll_lock_if lk l" e xs] assms
  by (auto simp: csr_ll_remove_head_def on_open_def interlocked_def Let_def ll_rep_open
      csr_list_remove_head_def csrIsListEmpty_rep [of l "e # xs"])

lemma csr_ll_remove_tail_rep:
  assumes "ll_rep l (xs @ [e])"
  shows "\<exists>l'. csr_ll_remove_tail (Some l) lk = (Some l', e) \<and> ll_rep l' xs \<and> ListHead l' = ListHead l"
  using remove_tail_rep [of "ll_lock_if lk l" xs e] assms
  by (auto simp: csr_ll_remove_tail_def on_open_def interlocked_def Let_def ll_rep_open
      csr_list_remove_tail_def csrIsListEmpty_rep [of l "xs @ [e]"])

lemma csr_ll_remove_empty:
  assumes "ll_rep l []"
  shows "csr_ll_remove_head (Some l) False = (Some l, 0)" "csr_ll_remove_tail (Some l) False = (Some l, 0)"
  using assms by (auto simp: csr_ll_remove_head_def csr_ll_remove_tail_def on_open_def interlocked_def
      Let_def ll_rep_open csrIsListEmpty_rep ll_lock_if_cases ll_unlock_if_cases)

lemma csr_ll_peek_head_rep:
  assumes "ll_rep l xs"
  shows "snd (csr_ll_peek_head (Some l) lk) = (case xs of [] \<Rightarrow> 0 | e # es \<Rightarrow> e)"
proof -
  have "ll_next l (ListHead l) = hd (xs @ [ListHead l])"
    using assms by (intro ring_ends(1) [of _ "ll_last l"]) (simp add: ll_rep_def)
  with csrIsListEmpty_rep [OF assms] ll_rep_open [OF assms] show ?thesis
    by (cases xs) (simp_all add: csr_ll_peek_head_def on_open_def interlocked_def)
qed

lemma csr_ll_peek_tail_rep:
  assumes "ll_rep l xs"
  shows "snd (csr_ll_peek_tail (Some l) lk) = (if xs = [] then 0 else last xs)"
proof -
  have "ll_last l (ListHead l) = last (ListHead l # xs)"
    using assms by (intro ring_ends(2) [of "ll_next l"]) (simp add: ll_rep_def)
  with csrIsListEmpty_rep [OF assms] ll_rep_open [OF assms] show ?thesis
    by (simp add: csr_ll_peek_tail_def on_open_def interlocked_def)
qed

text \<open>The search loop stops at the head of the list and decides membership.\<close>

lemma ll_search_links:
  assumes "links nxt lst (p # xs @ [h])" "h \<notin> set xs" "0 \<notin> set xs"
  shows "ll_search nxt h e (nxt p) = Some (e \<in> set xs)"
  using assms
proof (induction xs arbitrary: p)
  case Nil
  then show ?case by (simp add: ll_search.simps)
next
  case (Cons x xs)
  then have "ll_search nxt h e (nxt x) = Some (e \<in> set xs)" by simp
  with Cons.prems show ?case by (auto simp: ll_search.simps [of nxt h e x])
qed

lemma ll_search_rep:
  assumes "ll_rep l xs"
  shows "ll_search (ll_next l) (ListHead l) e (snd (csr_ll_peek_head (Some l) lk)) = Some (e \<in> set xs)"
proof (cases xs)
  case Nil
  with assms show ?thesis by (simp add: csr_ll_peek_head_rep ll_search.simps)
next
  case (Cons x ys)
  have r: "ring (ll_next l) (ll_last l) (ListHead l) xs" using assms by (simp add: ll_rep_def)
  have "ll_search (ll_next l) (ListHead l) e (ll_next l (ListHead l)) = Some (e \<in> set xs)"
    using r by (intro ll_search_links) (auto simp: ring_def)
  with ring_ends(1) [OF r] Cons assms show ?thesis by (simp add: csr_ll_peek_head_rep)
qed

lemma csr_ll_find_entry_rep:
  "ll_rep l xs \<Longrightarrow> csr_ll_find_entry (Some l) e = Some (e \<in> set xs)"
  by (simp add: csr_ll_find_entry_def ll_rep_open ll_search_rep)

lemma csr_ll_remove_entry_absent:
  "ll_rep l xs \<Longrightarrow> e \<notin> set xs \<Longrightarrow>
   \<exists>l'. csr_ll_remove_entry (Some l) e lk = Some (Some l', False) \<and> ll_rep l' xs \<and> ListHead l' = ListHead l"
  using ll_search_rep [of "ll_lock_if lk l" xs e False]
  by (auto simp: csr_ll_remove_entry_def ll_rep_open Let_def)

lemma csr_ll_remove_entry_present:
  assumes "ll_rep l (as @ e # bs)"
  shows "\<exists>l'. csr_ll_remove_entry (Some l) e lk = Some (Some l', True) \<and> ll_rep l' (as @ bs) \<and>
    ListHead l' = ListHead l"
  using ll_search_rep [of "ll_lock_if lk l" "as @ e # bs" e False]
    remove_entry_rep [of "ll_lock_if lk l" as e bs] assms
  by (auto simp: csr_ll_remove_entry_def ll_rep_open Let_def csr_list_remove_entry_def)

interpretation ll: link_list plist_rep ll_fresh
  "\<lambda>p e. csr_ll_insert_tail p e lk" "\<lambda>p e. csr_ll_insert_head p e lk"
  "\<lambda>p. csr_ll_remove_head p False" "\<lambda>p e. csr_ll_remove_entry p e lk" 0
  for lk
proof (unfold_locales, goal_cases)
  case (1 s xs e)
  then obtain l where "s = Some l" "ll_rep l xs" by (auto simp: plist_rep_def)
  with 1 csr_ll_insert_tail_rep [of l xs e lk] show ?case by (auto simp: plist_rep_def ll_fresh_def)
next
  case (2 s xs e)
  then obtain l where "s = Some l" "ll_rep l xs" by (auto simp: plist_rep_def)
  with 2 csr_ll_insert_head_rep [of l xs e lk] show ?case by (auto simp: plist_rep_def ll_fresh_def)
next
  case (3 s e xs)
  then show ?case using csr_ll_remove_head_rep [of _ e xs False] by (fastforce simp: plist_rep_def)
next
  case (4 s)
  then show ?case by (auto simp: plist_rep_def csr_ll_remove_empty)
next
  case (5 s as e bs)
  then show ?case using csr_ll_remove_entry_present [of _ as e bs lk] by (fastforce simp: plist_rep_def)
next
  case (6 s xs e d)
  then obtain l where "s = Some l" "ll_rep l xs" by (auto simp: plist_rep_def)
  with 6 csr_ll_insert_tail_rep [of l xs e lk] show ?case by (auto simp: ll_fresh_def)
next
  case (7 s xs)
  then show ?case by (auto simp: plist_rep_def ll_rep_def ring_def)
qed

section \<open>Traversal, purging and locking\<close>

lemma csr_ll_next_rep:
  assumes "ll_rep l (as @ e # bs)"
  shows "csr_ll_next (Some l) e lk =
    Some (Some (ll_unlock_if lk (ll_lock_if lk l)), case bs of [] \<Rightarrow> 0 | b # _ \<Rightarrow> b)"
proof -
  have r: "ring (ll_next l) (ll_last l) (ListHead l) (as @ e # bs)" using assms by (simp add: ll_rep_def)
  have "csr_ll_find_entry (Some (ll_lock_if lk l)) e = Some True"
    using csr_ll_find_entry_rep [of "ll_lock_if lk l" "as @ e # bs" e] assms by simp
  moreover have "\<not> csrIsListEmpty l" using csrIsListEmpty_rep [OF assms] by simp
  moreover have "ll_next l e = ListHead l \<longleftrightarrow> bs = []"
    using ring_neighbours(1) [OF r] ring_ends(5) [OF r] by (cases bs) auto
  ultimately show ?thesis
    using ll_rep_open [OF assms] ring_neighbours(1) [OF r]
    by (cases bs) (simp_all add: csr_ll_next_def Let_def)
qed

lemma csr_ll_previous_rep:
  assumes "ll_rep l (as @ e # bs)"
  shows "csr_ll_previous (Some l) e lk =
    Some (Some (ll_unlock_if lk (ll_lock_if lk l)), if as = [] then 0 else last as)"
proof -
  have r: "ring (ll_next l) (ll_last l) (ListHead l) (as @ e # bs)" using assms by (simp add: ll_rep_def)
  have "csr_ll_find_entry (Some (ll_lock_if lk l)) e = Some True"
    using csr_ll_find_entry_rep [of "ll_lock_if lk l" "as @ e # bs" e] assms by simp
  moreover have "\<not> csrIsListEmpty l" using csrIsListEmpty_rep [OF assms] by simp
  moreover have "ll_last l e = ListHead l \<longleftrightarrow> as = []"
    using ring_neighbours(2) [OF r] ring_ends(5) [OF r] by (cases as rule: rev_cases) auto
  ultimately show ?thesis
    using ll_rep_open [OF assms] ring_neighbours(2) [OF r]
    by (simp add: csr_ll_previous_def Let_def)
qed

lemma ll_purge_loop_rep:
  assumes "ll_rep l xs"
  shows "\<exists>l'. ll_purge_loop (Some l) = Some (Some l') \<and> ll_rep l' [] \<and> ListHead l' = ListHead l \<and>
    ll_log l' = ll_log l"
  using assms
proof (induction xs arbitrary: l)
  case Nil
  then show ?case by (simp add: ll_purge_loop.simps csr_ll_remove_empty)
next
  case (Cons x xs)
  obtain m where m: "csr_ll_remove_head (Some l) False = (Some m, x)" "ll_rep m xs" "ListHead m = ListHead l"
    using csr_ll_remove_head_rep [OF Cons.prems, of False] by auto
  have "ll_log m = ll_log l"
    using m(1) by (auto simp: csr_ll_remove_head_def on_open_def interlocked_def Let_def
        ll_lock_if_cases ll_unlock_if_cases csr_list_remove_head_def split: if_splits)
  moreover have "x \<noteq> 0" using Cons.prems by (auto simp: ll_rep_def ring_def)
  ultimately show ?case using Cons.IH [OF m(2)] m by (simp add: ll_purge_loop.simps [of "Some l"])
qed

lemma csr_ll_purge_rep:
  assumes "ll_rep l xs"
  shows "\<exists>l'. csr_ll_purge (Some l) lk = Some (Some l') \<and> ll_rep l' [] \<and>
    ll_log l' = ll_log l @ (if lk then [MutexAcquire, MutexRelease] else [])"
proof -
  obtain m where "ll_purge_loop (Some (ll_lock_if lk l)) = Some (Some m)" "ll_rep m []"
    "ll_log m = ll_log (ll_lock_if lk l)"
    using ll_purge_loop_rep [of "ll_lock_if lk l" xs] assms by auto
  moreover have "ll_Flag m = LIST_FLAG_OPEN" using calculation(2) by (rule ll_rep_open)
  ultimately show ?thesis using ll_rep_open [OF assms]
    by (simp add: csr_ll_purge_def ll_unlock_if_cases ll_lock_if_cases)
qed

lemma csr_ll_open_rep:
  assumes "ll_Flag l \<noteq> LIST_FLAG_OPEN" "ListHead l \<noteq> 0"
  shows "\<exists>l'. csr_ll_open True hdd (Some l) = (Some l', True) \<and> ll_rep l' [] \<and> ListHead l' = ListHead l"
  using assms by (simp add: csr_ll_open_def Let_def ll_rep_def csr_list_init_def ring_def)

text \<open>A closed list with its head at address 1, as a concrete starting point.\<close>

definition closed_list :: ll_state where
  "closed_list = \<lparr>ll_next = \<lambda>_. 0, ll_last = \<lambda>_. 0, ListHead = 1, ll_Count = 0, hHdd = 0,
     ll_Flag = LIST_FLAG_CLOSE, cmdTimeoutDuration = 0, cmdTimeoutTimer = None, ll_log = []\<rparr>"

definition open_list :: plist where
  "open_list = fst (csr_ll_open True 9 (Some closed_list))"

lemma open_list_rep: "plist_rep open_list []"
  using csr_ll_open_rep [of closed_list 9]
  by (auto simp: open_list_def plist_rep_def closed_list_def LIST_FLAG_OPEN_def LIST_FLAG_CLOSE_def)

lemma open_list_fresh: "ll_fresh open_list xs e \<longleftrightarrow> e \<noteq> 0 \<and> e \<noteq> 1 \<and> e \<notin> set xs"
  using csr_ll_open_rep [of closed_list 9]
  by (auto simp: open_list_def ll_fresh_def closed_list_def LIST_FLAG_OPEN_def LIST_FLAG_CLOSE_def)

section \<open>Properties\<close>

text \<open>The elements that \<open>n\<close> calls of \<open>csr_ll_remove_head\<close> return, in order.\<close>

fun csr_drain :: "nat \<Rightarrow> plist \<Rightarrow> nat list" where
  "csr_drain 0 p = []"
| "csr_drain (Suc n) p = (let (p', e) = csr_ll_remove_head p False in e # csr_drain n p')"

lemma csr_drain_pop_n: "csr_drain n p = ll.pop_n n p"
  by (induction n arbitrary: p) (auto simp: ll.pop_n.simps split: prod.split)

lemma push_all_foldl: "ll.push_all lk p es = foldl (\<lambda>p e. csr_ll_insert_tail p e lk) p es"
  by (induction es arbitrary: p) (simp_all add: ll.push_all.simps)

text \<open>
  the SME command queue is first in, first out. Any number of distinct elements put on an
  empty open list with \<open>csr_ll_insert_tail\<close> (with or without the lock) are returned by
  successive calls of \<open>csr_ll_remove_head\<close> in the order in which they were inserted.
\<close>

theorem csr_ll_fifo:
  assumes "plist_rep p []" "distinct es" "\<forall>e \<in> set es. ll_fresh p [] e"
  shows "csr_drain (length es) (foldl (\<lambda>p e. csr_ll_insert_tail p e lk) p es) = es"
  using ll.fifo [OF assms, of lk] by (simp add: csr_drain_pop_n push_all_foldl)

theorem csr_ll_fifo_witness:
  "csr_drain 3 (foldl (\<lambda>p e. csr_ll_insert_tail p e True) open_list [7, 5, 6]) = [7, 5, 6]"
  using csr_ll_fifo [OF open_list_rep, of "[7, 5, 6]" True] by (simp add: open_list_fresh numeral_3_eq_3)

text \<open>
  Removal by address. On an open list holding the elements \<open>xs\<close>, \<open>csr_ll_remove_entry\<close>
  returns (its search loop ends at the head of the ring), reports whether the element was on
  the list, and leaves the list holding \<open>xs\<close> without it; the order of the others, the links in
  both directions and the element count stay right.
\<close>

theorem csr_ll_remove_entry_correct:
  assumes "plist_rep p xs"
  shows "\<exists>p'. csr_ll_remove_entry p e lk = Some (p', e \<in> set xs) \<and> plist_rep p' (remove1 e xs)"
proof (cases "e \<in> set xs")
  case True
  then obtain as bs where xs: "xs = as @ e # bs" "e \<notin> set as" by (meson split_list_first)
  from assms obtain l where l: "p = Some l" "ll_rep l (as @ e # bs)" by (auto simp: plist_rep_def xs)
  from csr_ll_remove_entry_present [OF l(2), of lk] l(1) xs show ?thesis
    by (auto simp: plist_rep_def remove1_append)
next
  case False
  with assms csr_ll_remove_entry_absent [of _ xs e lk] show ?thesis
    by (auto simp: plist_rep_def remove1_idem)
qed

theorem csr_ll_remove_entry_correct_witness:
  "\<exists>p'. csr_ll_remove_entry (csr_ll_insert_head open_list 7 True) 7 True = Some (p', True) \<and> plist_rep p' []"
  using csr_ll_remove_entry_correct [of "csr_ll_insert_head open_list 7 True" "[7]" 7 True]
    ll.push_head [OF open_list_rep, of 7 True] by (simp add: open_list_fresh)

text \<open>
  purging and closing end. On an open list with any number of elements \<open>csr_ll_purge\<close>
  returns and leaves the list open and empty with count 0; \<open>csr_ll_close\<close> returns with the
  list closed, and it takes and releases the mutex exactly once before destroying it. The closed
  list ignores later insertions and reports itself empty.
\<close>

theorem csr_ll_close_correct:
  assumes "plist_rep p xs"
  shows "(\<exists>p'. csr_ll_purge p lk = Some p' \<and> plist_rep p' []) \<and>
    (\<exists>l l'. p = Some l \<and> csr_ll_close p = Some (Some l') \<and> ll_Flag l' = LIST_FLAG_CLOSE \<and>
       ll_log l' = ll_log l @ [MutexAcquire, MutexRelease, MutexDestroy] \<and>
       csr_ll_insert_tail (Some l') e lk = Some l' \<and> csr_ll_count (Some l') = 0)"
proof -
  from assms obtain l where l: "p = Some l" "ll_rep l xs" by (auto simp: plist_rep_def)
  obtain m where m: "csr_ll_purge (Some l) True = Some (Some m)" "ll_log m = ll_log l @ [MutexAcquire, MutexRelease]"
    using csr_ll_purge_rep [OF l(2), of True] by auto
  then show ?thesis
    using l ll_rep_open [OF l(2)] csr_ll_purge_rep [OF l(2), of lk]
    by (auto simp: csr_ll_close_def plist_rep_def csr_ll_insert_tail_def csr_ll_count_def on_open_def
        LIST_FLAG_OPEN_def LIST_FLAG_CLOSE_def)
qed

theorem csr_ll_close_correct_witness:
  "\<exists>p'. csr_ll_purge (csr_ll_insert_head open_list 7 True) False = Some p' \<and> plist_rep p' []"
  using csr_ll_close_correct [of "csr_ll_insert_head open_list 7 True" "[7]" False]
    ll.push_head [OF open_list_rep, of 7 True] by (simp add: open_list_fresh)

text \<open>
  Traversal. On an open list that holds \<open>as @ d # e # bs\<close>, \<open>csr_ll_next\<close> of \<open>d\<close> is \<open>e\<close> and
  \<open>csr_ll_previous\<close> of \<open>e\<close> is \<open>d\<close>; the walk starts at \<open>csr_ll_peek_head\<close>, which is the first
  element, and ends with the null pointer after the last one. The list is not changed by a
  traversal without the lock.
\<close>

theorem csr_ll_traversal:
  assumes "ll_rep l (as @ d # e # bs)"
  shows "csr_ll_next (Some l) d False = Some (Some l, e) \<and>
    csr_ll_previous (Some l) e False = Some (Some l, d) \<and>
    csr_ll_peek_head (Some l) False = (Some l, hd (as @ [d])) \<and>
    csr_ll_next (Some l) (last (e # bs)) False = Some (Some l, 0)"
proof -
  have 1: "ll_rep l ((as @ [d]) @ e # bs)" using assms by simp
  have 2: "ll_rep l ((as @ d # butlast (e # bs)) @ last (e # bs) # [])"
    using assms by (cases "bs = []") simp_all
  have 3: "fst (csr_ll_peek_head (Some l) False) = Some l"
    using ll_rep_open [OF assms]
    by (simp add: csr_ll_peek_head_def on_open_def interlocked_def ll_lock_if_cases ll_unlock_if_cases)
  have 4: "snd (csr_ll_peek_head (Some l) False) = hd (as @ [d])"
    using csr_ll_peek_head_rep [OF assms, of False] by (cases as) auto
  show ?thesis
    using csr_ll_next_rep [OF assms, of False] csr_ll_previous_rep [OF 1, of False]
      csr_ll_next_rep [OF 2, of False] 3 4
    by (simp add: ll_lock_if_cases ll_unlock_if_cases prod_eq_iff)
qed

theorem csr_ll_traversal_witness:
  "\<exists>l. csr_ll_insert_head (csr_ll_insert_head open_list 7 True) 8 True = Some l \<and>
     csr_ll_next (Some l) 8 False = Some (Some l, 7)"
proof -
  have "plist_rep (csr_ll_insert_head open_list 7 True) [7]"
    using ll.push_head [OF open_list_rep, of 7 True] by (simp add: open_list_fresh)
  moreover obtain o1 where o1: "open_list = Some o1" "ll_rep o1 []"
    using open_list_rep by (auto simp: plist_rep_def)
  moreover have "ListHead o1 = 1" using open_list_fresh [of "[]" "ListHead o1"] o1
    by (auto simp: ll_fresh_def ll_rep_def ring_def)
  ultimately have "plist_rep (csr_ll_insert_head open_list 7 True) [7]"
    "ll_fresh (csr_ll_insert_head open_list 7 True) [7] 8"
    using csr_ll_insert_head_rep [OF o1(2), of 7 True] by (auto simp: ll_fresh_def)
  then obtain l where "csr_ll_insert_head (csr_ll_insert_head open_list 7 True) 8 True = Some l"
    "ll_rep l ([] @ 8 # 7 # [])"
    using ll.push_head [of "csr_ll_insert_head open_list 7 True" "[7]" 8 True]
    by (auto simp: plist_rep_def)
  with csr_ll_traversal [of l "[]" 8 7 "[]"] show ?thesis by simp
qed

end
