(* ===== verification/Mac_Table.thy ===== *)
theory Mac_Table
  imports Prelude
begin

text \<open>
  The contract of a table that files entries under a MAC address and names each entry by
  a key (an association id, a node index). The station table of a session and the
  pre-authentication list of the MAC layer both promise it; the lemmas their clients
  need are proved here once.
\<close>

section \<open>The interface\<close>

locale mac_table =
  fixes invar :: "'t \<Rightarrow> bool"
    and lookup :: "'t \<Rightarrow> mac_addr \<Rightarrow> 'k option"
    and add :: "mac_addr \<Rightarrow> 'k \<Rightarrow> 't \<Rightarrow> 't option"
    and del :: "mac_addr \<Rightarrow> 't \<Rightarrow> 't"
  assumes add_invar: "\<lbrakk>invar t; is_mac a; add a k t = Some t'\<rbrakk> \<Longrightarrow> invar t'"
    and add_lookup: "\<lbrakk>invar t; is_mac a; add a k t = Some t'\<rbrakk> \<Longrightarrow> lookup t' = (lookup t)(a \<mapsto> k)"
    and add_fresh: "\<lbrakk>invar t; is_mac a; add a k t = Some t'\<rbrakk> \<Longrightarrow> lookup t a = None \<and> k \<notin> ran (lookup t)"
    and del_invar: "\<lbrakk>invar t; is_mac a\<rbrakk> \<Longrightarrow> invar (del a t)"
    and del_lookup: "\<lbrakk>invar t; is_mac a\<rbrakk> \<Longrightarrow> lookup (del a t) = (lookup t)(a := None)"
    and lookup_inj: "invar t \<Longrightarrow> inj_on (lookup t) (dom (lookup t))"
begin

lemma lookup_after_add:
  "\<lbrakk>invar t; is_mac a; add a k t = Some t'\<rbrakk> \<Longrightarrow> lookup t' a = Some k"
  by (simp add: add_lookup)

lemma lookup_other_after_add:
  "\<lbrakk>invar t; is_mac a; add a k t = Some t'; b \<noteq> a\<rbrakk> \<Longrightarrow> lookup t' b = lookup t b"
  by (simp add: add_lookup)

lemma del_after_add:
  assumes "invar t" "is_mac a" "add a k t = Some t'"
  shows "lookup (del a t') = lookup t"
proof -
  from assms have "invar t'" by (rule add_invar)
  with assms have "lookup (del a t') = (lookup t')(a := None)" by (simp add: del_lookup)
  also from assms have "\<dots> = lookup t" by (auto simp: add_lookup add_fresh)
  finally show ?thesis .
qed

lemma same_key_same_address:
  assumes "invar t" "lookup t a = Some k" "lookup t b = Some k"
  shows "a = b"
  using lookup_inj [OF assms(1)] assms(2,3) by (auto simp: inj_on_def dom_def)

text \<open>Any interleaving of additions and deletions keeps the table consistent.\<close>

fun run :: "(mac_addr \<times> 'k option) list \<Rightarrow> 't \<Rightarrow> 't" where
  "run [] t = t"
| "run ((a, Some k) # ops) t = run ops (case add a k t of Some t' \<Rightarrow> t' | None \<Rightarrow> t)"
| "run ((a, None) # ops) t = run ops (del a t)"

lemma run_invar:
  "\<lbrakk>invar t; \<forall>(a, k) \<in> set ops. is_mac a\<rbrakk> \<Longrightarrow> invar (run ops t)"
  by (induction ops t rule: run.induct)
    (auto simp: add_invar del_invar split: option.split)

lemma run_keys_unique:
  assumes "invar t" "\<forall>(a, k) \<in> set ops. is_mac a"
    and "lookup (run ops t) a = Some k" "lookup (run ops t) b = Some k"
  shows "a = b"
  using same_key_same_address [OF run_invar [OF assms(1,2)] assms(3,4)] .

end

end
