(* ===== verification/Dph.thy ===== *)
theory Dph
  imports Mac_Table
begin

text \<open>
  The station table of a PE session, \<open>core/mac/src/dph/dph_hash_table.c\<close>: an array of
  station nodes, indexed by association id, threaded into hash chains by MAC address.
  A pointer to a node is the node's index in the array. A function returns \<open>None\<close>
  when the C code would read or write outside the arrays, divide by zero or never
  return.
\<close>

section \<open>State\<close>

text \<open>
  The fields of \<open>tDphHashNode\<close> that this file reads or writes by name, the bytes of all
  the others (which \<open>dph_init_sta_state\<close> clears) and the chain pointer.
\<close>

record dph_node =
  dn_valid :: bool
  dn_added :: bool
  dn_encPolicy :: u8
  dn_fragSize :: u16
  dn_assocId :: u16
  dn_staIndex :: u16
  dn_staAddr :: mac_addr
  dn_disassoc_deauth_in_progress :: u8
  dn_last_assoc_received_time :: u64
  dn_sta_deletion_in_progress :: bool
  dn_rest :: "u8 list"
  dn_next :: "nat option"

record dph_table =
  pHashTable :: "nat option list option"
  pDphNodeArray :: "dph_node list"
  dph_size :: u16

definition STA_INVALID_IDX :: u16 where
  "STA_INVALID_IDX = 0xFF"

definition ENC_POLICY_NULL :: u8 where
  "ENC_POLICY_NULL = 0"

section \<open>Operations\<close>

definition dph_hash_table_class_init :: "dph_table \<Rightarrow> dph_table option" where
  "dph_hash_table_class_init t =
     (let n = unat (dph_size t); nodes = pDphNodeArray t in
      case pHashTable t of
        None \<Rightarrow> (if n = 0 then Some t else None)
      | Some ht \<Rightarrow>
          if length ht < n \<or> length nodes < n then None
          else Some (t\<lparr>pHashTable := Some (replicate n None @ drop n ht),
                       pDphNodeArray :=
                         map (\<lambda>i. (nodes ! i)\<lparr>dn_valid := False, dn_added := False,
                                              dn_assocId := of_nat i\<rparr>) [0..<n]
                         @ drop n nodes\<rparr>))"

definition hash_function :: "mac_addr \<Rightarrow> u16 \<Rightarrow> u16 option" where
  "hash_function staAddr numSta =
     (if numSta = 0 then None
      else Some (foldl (\<lambda>sum i. sum + ucast (staAddr ! i)) 0 [0..<6] mod numSta))"

definition dph_compare_mac_addr :: "mac_addr \<Rightarrow> mac_addr \<Rightarrow> bool" where
  "dph_compare_mac_addr addr1 addr2 \<longleftrightarrow>
     addr1 ! 0 = addr2 ! 0 \<and> addr1 ! 1 = addr2 ! 1 \<and> addr1 ! 2 = addr2 ! 2 \<and>
     addr1 ! 3 = addr2 ! 3 \<and> addr1 ! 4 = addr2 ! 4 \<and> addr1 ! 5 = addr2 ! 5"

text \<open>The chain walk of \<open>dph_lookup_hash_entry\<close>.\<close>

partial_function (option) dph_lookup_walk ::
  "dph_node list \<Rightarrow> mac_addr \<Rightarrow> nat option \<Rightarrow> nat option option" where
  "dph_lookup_walk nodes staAddr ptr =
     (case ptr of
        None \<Rightarrow> Some None
      | Some i \<Rightarrow>
          if i < length nodes
          then if dph_compare_mac_addr staAddr (dn_staAddr (nodes ! i)) then Some (Some i)
               else dph_lookup_walk nodes staAddr (dn_next (nodes ! i))
          else None)"

text \<open>The result pairs the node found with the value stored through \<open>pAssocId\<close>.\<close>

definition dph_lookup_hash_entry ::
  "mac_addr \<Rightarrow> dph_table \<Rightarrow> (nat \<times> u16) option option" where
  "dph_lookup_hash_entry staAddr t =
     do {
       index \<leftarrow> hash_function staAddr (dph_size t);
       (case pHashTable t of
          None \<Rightarrow> Some None
        | Some ht \<Rightarrow>
            if unat index < length ht
            then do {
              p \<leftarrow> dph_lookup_walk (pDphNodeArray t) staAddr (ht ! unat index);
              Some (map_option (\<lambda>i. (i, dn_assocId (pDphNodeArray t ! i))) p)
            }
            else None)
     }"

definition dph_get_hash_entry :: "u16 \<Rightarrow> dph_table \<Rightarrow> nat option option" where
  "dph_get_hash_entry peerIdx t =
     (if peerIdx < dph_size t
      then if unat peerIdx < length (pDphNodeArray t)
           then if dn_added (pDphNodeArray t ! unat peerIdx) then Some (Some (unat peerIdx))
                else Some None
           else None
      else Some None)"

text \<open>\<open>get_node\<close> takes the association id as \<open>uint8_t\<close>.\<close>

definition get_node :: "u8 \<Rightarrow> dph_table \<Rightarrow> nat option" where
  "get_node assocId t = (if unat assocId < length (pDphNodeArray t) then Some (unat assocId) else None)"

definition dph_lookup_assoc_id :: "u16 \<Rightarrow> dph_table \<Rightarrow> nat option option" where
  "dph_lookup_assoc_id staIdx t =
     (let nodes = pDphNodeArray t in
      do {
        r \<leftarrow> scan_u8 (\<lambda>i. length nodes \<le> i \<or>
               (dn_added (nodes ! i) \<and> dn_staIndex (nodes ! i) = staIdx)) (dph_size t) 0;
        (case r of
           None \<Rightarrow> Some None
         | Some i \<Rightarrow> if i < length nodes then Some (Some i) else None)
      })"

text \<open>
  \<open>cfg\<close> is the outcome of reading \<open>WNI_CFG_FRAGMENTATION_THRESHOLD\<close>. The clearing of the
  node zeroes every member but the chain pointer.
\<close>

definition dph_reset_node :: "u32 option \<Rightarrow> mac_addr \<Rightarrow> u16 \<Rightarrow> bool \<Rightarrow> dph_node \<Rightarrow> dph_node" where
  "dph_reset_node cfg staAddr assocId validStaIdx pStaDs =
     \<lparr>dn_valid = True, dn_added = True, dn_encPolicy = ENC_POLICY_NULL,
      dn_fragSize = (case cfg of None \<Rightarrow> 0 | Some val \<Rightarrow> ucast val),
      dn_assocId = assocId,
      dn_staIndex = (if validStaIdx then dn_staIndex pStaDs else STA_INVALID_IDX),
      dn_staAddr = take 6 staAddr,
      dn_disassoc_deauth_in_progress = 0, dn_last_assoc_received_time = 0,
      dn_sta_deletion_in_progress = False,
      dn_rest = replicate (length (dn_rest pStaDs)) 0,
      dn_next = dn_next pStaDs\<rparr>"

definition dph_init_sta_state ::
  "u32 option \<Rightarrow> mac_addr \<Rightarrow> u16 \<Rightarrow> bool \<Rightarrow> dph_table \<Rightarrow> (dph_table \<times> nat option) option" where
  "dph_init_sta_state cfg staAddr assocId validStaIdx t =
     (if dph_size t \<le> assocId then Some (t, None)
      else do {
        i \<leftarrow> get_node (ucast assocId) t;
        Some (t\<lparr>pDphNodeArray := (pDphNodeArray t)
                 [i := dph_reset_node cfg staAddr assocId validStaIdx (pDphNodeArray t ! i)]\<rparr>, Some i)
      })"

datatype add_scan = AddLoop | AddDuplicate nat | AddFree

partial_function (option) dph_add_walk ::
  "dph_node list \<Rightarrow> mac_addr \<Rightarrow> u16 \<Rightarrow> nat option \<Rightarrow> add_scan option" where
  "dph_add_walk nodes staAddr assocId ptr =
     (case ptr of
        None \<Rightarrow> Some AddFree
      | Some i \<Rightarrow>
          if i < length nodes
          then (if dn_next (nodes ! i) = ptr then Some AddLoop
                else if dph_compare_mac_addr staAddr (dn_staAddr (nodes ! i))
                        \<or> dn_assocId (nodes ! i) = assocId then Some (AddDuplicate i)
                else dph_add_walk nodes staAddr assocId (dn_next (nodes ! i)))
          else None)"

definition dph_add_hash_entry ::
  "u32 option \<Rightarrow> mac_addr \<Rightarrow> u16 \<Rightarrow> dph_table \<Rightarrow> (dph_table \<times> nat option) option" where
  "dph_add_hash_entry cfg staAddr assocId t =
     do {
       index \<leftarrow> hash_function staAddr (dph_size t);
       (if dph_size t \<le> assocId then Some (t, None)
        else if length (pDphNodeArray t) \<le> unat assocId then None
        else if dn_added (pDphNodeArray t ! unat assocId) then Some (t, None)
        else case pHashTable t of
          None \<Rightarrow> None
        | Some ht \<Rightarrow>
            if length ht \<le> unat index then None
            else do {
              r \<leftarrow> dph_add_walk (pDphNodeArray t) staAddr assocId (ht ! unat index);
              (case r of
                 AddLoop \<Rightarrow> Some (t, None)
               | AddDuplicate i \<Rightarrow> Some (t, None)
               | AddFree \<Rightarrow>
                   do {
                     (t1, n) \<leftarrow> dph_init_sta_state cfg staAddr assocId False t;
                     (case n of
                        None \<Rightarrow> Some (t1, None)
                      | Some i \<Rightarrow>
                          let nodes = pDphNodeArray t1; a = unat assocId in
                          Some (t1\<lparr>pDphNodeArray := nodes[a := (nodes ! a)\<lparr>dn_next := ht ! unat index\<rparr>],
                                  pHashTable := Some (ht[unat index := Some a])\<rparr>, Some a))
                   })
            })
     }"

datatype del_scan = DelLoop | DelFound "nat option" nat | DelEnd

partial_function (option) dph_delete_walk ::
  "dph_node list \<Rightarrow> mac_addr \<Rightarrow> nat option \<Rightarrow> nat option \<Rightarrow> del_scan option" where
  "dph_delete_walk nodes staAddr prev ptr =
     (case ptr of
        None \<Rightarrow> Some DelEnd
      | Some i \<Rightarrow>
          if i < length nodes
          then if dph_compare_mac_addr staAddr (dn_staAddr (nodes ! i)) then Some (DelFound prev i)
               else if prev = ptr then Some DelLoop
               else dph_delete_walk nodes staAddr (Some i) (dn_next (nodes ! i))
          else None)"

datatype sir_status = eSIR_SUCCESS | eSIR_FAILURE

text \<open>Unlinking and clearing the node \<open>i\<close> found after \<open>prev\<close> in bucket \<open>b\<close>.\<close>

definition dph_unlink :: "nat \<Rightarrow> nat option \<Rightarrow> nat \<Rightarrow> nat option list \<Rightarrow> dph_table \<Rightarrow> dph_table" where
  "dph_unlink b prev i ht t =
     (let nodes = pDphNodeArray t;
          nx = dn_next (nodes ! i);
          nodes1 = (case prev of None \<Rightarrow> nodes | Some p \<Rightarrow> nodes[p := (nodes ! p)\<lparr>dn_next := nx\<rparr>]);
          ht1 = (case prev of None \<Rightarrow> ht[b := nx] | Some p \<Rightarrow> ht);
          n1 = (nodes1 ! i)\<lparr>dn_valid := False, dn_staAddr := replicate 6 0, dn_added := False,
                 dn_disassoc_deauth_in_progress := 0, dn_last_assoc_received_time := 0,
                 dn_sta_deletion_in_progress := False, dn_next := None\<rparr>
      in t\<lparr>pHashTable := Some ht1, pDphNodeArray := nodes1[i := n1]\<rparr>)"

definition dph_delete_hash_entry ::
  "mac_addr \<Rightarrow> u16 \<Rightarrow> dph_table \<Rightarrow> (dph_table \<times> sir_status) option" where
  "dph_delete_hash_entry staAddr assocId t =
     do {
       index \<leftarrow> hash_function staAddr (dph_size t);
       (if dph_size t \<le> assocId then Some (t, eSIR_FAILURE)
        else if length (pDphNodeArray t) \<le> unat assocId then None
        else if \<not> dn_added (pDphNodeArray t ! unat assocId) then Some (t, eSIR_FAILURE)
        else case pHashTable t of
          None \<Rightarrow> None
        | Some ht \<Rightarrow>
            if length ht \<le> unat index then None
            else do {
              r \<leftarrow> dph_delete_walk (pDphNodeArray t) staAddr None (ht ! unat index);
              (case r of
                 DelLoop \<Rightarrow> Some (t, eSIR_FAILURE)
               | DelEnd \<Rightarrow> Some (t, eSIR_FAILURE)
               | DelFound prev i \<Rightarrow> Some (dph_unlink (unat index) prev i ht t, eSIR_SUCCESS))
            })
     }"

section \<open>Chain walks\<close>

definition dph_succ :: "dph_node list \<Rightarrow> nat \<Rightarrow> nat option" where
  "dph_succ nodes i = dn_next (nodes ! i)"

definition dph_matches :: "dph_node list \<Rightarrow> mac_addr \<Rightarrow> nat \<Rightarrow> bool" where
  "dph_matches nodes a i \<longleftrightarrow> dph_compare_mac_addr a (dn_staAddr (nodes ! i))"

lemma dph_matches_self [simp]: "dph_matches nodes (dn_staAddr (nodes ! p)) p"
  by (simp add: dph_matches_def dph_compare_mac_addr_def)

lemma mac_eq_iff_nth:
  assumes "is_mac a" "is_mac b"
  shows "a = b \<longleftrightarrow> (\<forall>i<6. a ! i = b ! i)"
  using assms by (auto simp: is_mac_def list_eq_iff_nth_eq)

lemma less_6_cases: "(\<forall>i<6::nat. P i) \<longleftrightarrow> P 0 \<and> P 1 \<and> P 2 \<and> P 3 \<and> P 4 \<and> P 5"
  by (simp add: eval_nat_numeral All_less_Suc) blast

lemma dph_compare_mac_addr_eq:
  "is_mac a \<Longrightarrow> is_mac b \<Longrightarrow> dph_compare_mac_addr a b \<longleftrightarrow> a = b"
  by (simp add: mac_eq_iff_nth less_6_cases dph_compare_mac_addr_def)

lemma dph_lookup_walk_chain:
  assumes "chain (dph_succ nodes) ptr ps" "\<And>p. p \<in> set ps \<Longrightarrow> p < length nodes"
  shows "dph_lookup_walk nodes a ptr = Some (find (dph_matches nodes a) ps)"
  using assms
proof (induction ps arbitrary: ptr)
  case Nil
  then show ?case by (simp add: dph_lookup_walk.simps)
next
  case (Cons p ps)
  then have "dph_lookup_walk nodes a (dn_next (nodes ! p)) = Some (find (dph_matches nodes a) ps)"
    by (simp add: dph_succ_def)
  with Cons.prems show ?case
    by (auto simp: dph_lookup_walk.simps [of nodes a "Some p"] dph_matches_def [symmetric])
qed

lemma chain_no_self_loop:
  assumes "chain nxt (Some p) (p # ps)"
  shows "nxt p \<noteq> Some p"
proof
  assume "nxt p = Some p"
  with assms obtain qs where "ps = p # qs" by (cases ps) auto
  with chain_distinct [OF assms] show False by simp
qed

lemma dph_add_walk_chain:
  assumes "chain (dph_succ nodes) ptr ps" "\<And>p. p \<in> set ps \<Longrightarrow> p < length nodes"
  shows "dph_add_walk nodes a k ptr =
           Some (case find (\<lambda>i. dph_matches nodes a i \<or> dn_assocId (nodes ! i) = k) ps of
                   None \<Rightarrow> AddFree | Some i \<Rightarrow> AddDuplicate i)"
  using assms
proof (induction ps arbitrary: ptr)
  case Nil
  then show ?case by (simp add: dph_add_walk.simps)
next
  case (Cons p ps)
  then have IH: "dph_add_walk nodes a k (dn_next (nodes ! p)) =
      Some (case find (\<lambda>i. dph_matches nodes a i \<or> dn_assocId (nodes ! i) = k) ps of
              None \<Rightarrow> AddFree | Some i \<Rightarrow> AddDuplicate i)"
    by (simp add: dph_succ_def)
  from Cons.prems have "dn_next (nodes ! p) \<noteq> Some p"
    using chain_no_self_loop [of "dph_succ nodes" p ps] by (simp add: dph_succ_def [symmetric])
  with IH Cons.prems show ?case
    by (auto simp: dph_add_walk.simps [of nodes a k "Some p"] dph_matches_def [symmetric])
qed

lemma dph_delete_walk_miss:
  assumes "chain (dph_succ nodes) ptr ps" "\<And>p. p \<in> set ps \<Longrightarrow> p < length nodes"
    and "prev \<notin> Some ` set ps" "\<forall>p \<in> set ps. \<not> dph_matches nodes a p"
  shows "dph_delete_walk nodes a prev ptr = Some DelEnd"
  using assms
proof (induction ps arbitrary: ptr prev)
  case Nil
  then show ?case by (simp add: dph_delete_walk.simps)
next
  case (Cons p ps)
  from chain_distinct [OF Cons.prems(1)] have "Some p \<notin> Some ` set ps" by auto
  with Cons have "dph_delete_walk nodes a (Some p) (dn_next (nodes ! p)) = Some DelEnd"
    by (simp add: dph_succ_def)
  with Cons.prems show ?case
    by (auto simp: dph_delete_walk.simps [of nodes a prev "Some p"] dph_matches_def [symmetric])
qed

lemma dph_delete_walk_hit:
  assumes "chain (dph_succ nodes) ptr (as @ i # bs)"
    and "\<And>p. p \<in> set (as @ i # bs) \<Longrightarrow> p < length nodes"
    and "prev \<notin> Some ` set (as @ i # bs)"
    and "\<forall>p \<in> set as. \<not> dph_matches nodes a p" "dph_matches nodes a i"
  shows "dph_delete_walk nodes a prev ptr =
           Some (DelFound (if as = [] then prev else Some (last as)) i)"
  using assms
proof (induction as arbitrary: ptr prev)
  case Nil
  then show ?case by (simp add: dph_delete_walk.simps dph_matches_def)
next
  case (Cons p as)
  from chain_distinct [OF Cons.prems(1)] have "Some p \<notin> Some ` set (as @ i # bs)" by auto
  with Cons.prems have "dph_delete_walk nodes a (Some p) (dn_next (nodes ! p)) =
      Some (DelFound (if as = [] then Some p else Some (last as)) i)"
    by (intro Cons.IH) (auto simp: dph_succ_def)
  with Cons.prems show ?case
    by (auto simp: dph_delete_walk.simps [of nodes a prev "Some p"] dph_matches_def [symmetric])
qed

section \<open>Invariant and abstraction\<close>

definition dph_hidx :: "u16 \<Rightarrow> mac_addr \<Rightarrow> nat" where
  "dph_hidx n a = unat (the (hash_function a n))"

lemma hash_function_Some:
  assumes "n \<noteq> 0"
  shows "\<exists>h. hash_function a n = Some h \<and> unat h = dph_hidx n a \<and> dph_hidx n a < unat n"
proof -
  have "0 < unat n" using assms by (simp add: unat_gt_0)
  then show ?thesis using assms
    by (simp add: hash_function_def dph_hidx_def unat_mod_distrib)
qed

text \<open>The nodes filed in bucket \<open>b\<close>.\<close>

definition dph_members :: "dph_table \<Rightarrow> nat \<Rightarrow> nat set" where
  "dph_members t b =
     {p. p < unat (dph_size t) \<and> dn_added (pDphNodeArray t ! p) \<and>
         dph_hidx (dph_size t) (dn_staAddr (pDphNodeArray t ! p)) = b}"

definition dph_buckets_ok :: "dph_table \<Rightarrow> (nat \<Rightarrow> nat list) \<Rightarrow> bool" where
  "dph_buckets_ok t bkt \<longleftrightarrow>
     (\<forall>b < unat (dph_size t).
        chain (dph_succ (pDphNodeArray t)) (the (pHashTable t) ! b) (bkt b) \<and>
        set (bkt b) = dph_members t b)"

definition dph_nodes_ok :: "dph_table \<Rightarrow> bool" where
  "dph_nodes_ok t \<longleftrightarrow>
     (\<forall>p < unat (dph_size t). dn_added (pDphNodeArray t ! p) \<longrightarrow>
        is_mac (dn_staAddr (pDphNodeArray t ! p)) \<and> dn_assocId (pDphNodeArray t ! p) = of_nat p) \<and>
     (\<forall>p < unat (dph_size t). \<forall>q < unat (dph_size t).
        dn_added (pDphNodeArray t ! p) \<longrightarrow> dn_added (pDphNodeArray t ! q) \<longrightarrow>
        dn_staAddr (pDphNodeArray t ! p) = dn_staAddr (pDphNodeArray t ! q) \<longrightarrow> p = q)"

definition dph_shape_ok :: "dph_table \<Rightarrow> bool" where
  "dph_shape_ok t \<longleftrightarrow>
     0 < unat (dph_size t) \<and> unat (dph_size t) \<le> 256 \<and>
     pHashTable t \<noteq> None \<and> length (the (pHashTable t)) = unat (dph_size t) \<and>
     length (pDphNodeArray t) = unat (dph_size t)"

definition dph_wf :: "dph_table \<Rightarrow> bool" where
  "dph_wf t \<longleftrightarrow> dph_shape_ok t \<and> dph_nodes_ok t \<and> (\<exists>bkt. dph_buckets_ok t bkt)"

text \<open>
  What the table means: the partial map from MAC addresses to association ids, read off
  the node array without looking at the chains.
\<close>

definition dph_abs :: "dph_table \<Rightarrow> mac_addr \<Rightarrow> nat option" where
  "dph_abs t a =
     find (\<lambda>p. dn_added (pDphNodeArray t ! p) \<and> dn_staAddr (pDphNodeArray t ! p) = a)
       [0..<unat (dph_size t)]"

lemma dph_abs_Some_iff:
  assumes "dph_nodes_ok t"
  shows "dph_abs t a = Some p \<longleftrightarrow>
    p < unat (dph_size t) \<and> dn_added (pDphNodeArray t ! p) \<and> dn_staAddr (pDphNodeArray t ! p) = a"
  unfolding dph_abs_def
  by (subst find_unique) (use assms in \<open>auto simp: dph_nodes_ok_def\<close>)

lemma dph_abs_None_iff:
  "dph_abs t a = None \<longleftrightarrow>
    (\<forall>p < unat (dph_size t). dn_added (pDphNodeArray t ! p) \<longrightarrow> dn_staAddr (pDphNodeArray t ! p) \<noteq> a)"
  by (auto simp: dph_abs_def find_None_iff)

lemma dph_bucket_in_range:
  "\<lbrakk>dph_buckets_ok t bkt; b < unat (dph_size t); p \<in> set (bkt b); dph_shape_ok t\<rbrakk>
   \<Longrightarrow> p < length (pDphNodeArray t)"
  by (auto simp: dph_buckets_ok_def dph_members_def dph_shape_ok_def)

lemma dph_member_matches:
  assumes "dph_nodes_ok t" "is_mac a" "p \<in> dph_members t b"
  shows "dph_matches (pDphNodeArray t) a p \<longleftrightarrow> dn_staAddr (pDphNodeArray t ! p) = a"
  using assms by (auto simp: dph_matches_def dph_members_def dph_nodes_ok_def dph_compare_mac_addr_eq)

text \<open>In the bucket of an address, the walk finds exactly the node the map names.\<close>

lemma dph_find_in_bucket:
  assumes sh: "dph_shape_ok t" and nd: "dph_nodes_ok t" and bk: "dph_buckets_ok t bkt"
    and a: "is_mac a" and b: "b = dph_hidx (dph_size t) a" "b < unat (dph_size t)"
  shows "find (dph_matches (pDphNodeArray t) a) (bkt b) = dph_abs t a"
proof -
  let ?ns = "pDphNodeArray t"
  from bk b have set: "set (bkt b) = dph_members t b" by (simp add: dph_buckets_ok_def)
  have uniq: "x = y" if "x \<in> set (bkt b)" "y \<in> set (bkt b)"
    "dph_matches ?ns a x" "dph_matches ?ns a y" for x y
    using that nd unfolding set
    by (auto simp: dph_member_matches [OF nd a] dph_nodes_ok_def dph_members_def)
  have "find (dph_matches ?ns a) (bkt b) = Some p \<longleftrightarrow> dph_abs t a = Some p" for p
    unfolding find_unique [of "bkt b" "dph_matches ?ns a", OF uniq, simplified] dph_abs_Some_iff [OF nd]
    using b(1) unfolding set
    by (auto simp: dph_member_matches [OF nd a]) (auto simp: dph_members_def)
  then show ?thesis by (metis option.exhaust)
qed

section \<open>Lookup\<close>

lemma dph_lookup_walks_to_map:
  assumes "dph_wf t" "is_mac a"
  shows "dph_lookup_hash_entry a t = Some (map_option (\<lambda>p. (p, of_nat p)) (dph_abs t a))"
proof -
  from assms obtain bkt where sh: "dph_shape_ok t" and nd: "dph_nodes_ok t"
    and bk: "dph_buckets_ok t bkt" by (auto simp: dph_wf_def)
  from sh have "dph_size t \<noteq> 0" by (auto simp: dph_shape_ok_def)
  then obtain h where h: "hash_function a (dph_size t) = Some h"
    "unat h = dph_hidx (dph_size t) a" "dph_hidx (dph_size t) a < unat (dph_size t)"
    using hash_function_Some by blast
  obtain ht where ht: "pHashTable t = Some ht" "length ht = unat (dph_size t)"
    using sh by (auto simp: dph_shape_ok_def)
  have "dph_lookup_walk (pDphNodeArray t) a (ht ! unat h) =
      Some (find (dph_matches (pDphNodeArray t) a) (bkt (unat h)))"
    using bk ht h sh by (intro dph_lookup_walk_chain)
      (auto simp: dph_buckets_ok_def dph_members_def dph_shape_ok_def)
  also have "find (dph_matches (pDphNodeArray t) a) (bkt (unat h)) = dph_abs t a"
    using h by (intro dph_find_in_bucket [OF sh nd bk assms(2)]) auto
  finally have walk: "dph_lookup_walk (pDphNodeArray t) a (ht ! unat h) = Some (dph_abs t a)" .
  have id: "dph_abs t a = Some p \<Longrightarrow> dn_assocId (pDphNodeArray t ! p) = of_nat p" for p
    using nd by (auto simp: dph_abs_Some_iff [OF nd] dph_nodes_ok_def)
  from walk h ht id show ?thesis
    by (cases "dph_abs t a") (auto simp: dph_lookup_hash_entry_def)
qed

section \<open>Adding a station\<close>

text \<open>The table after a successful insertion.\<close>

definition dph_insert :: "u32 option \<Rightarrow> mac_addr \<Rightarrow> nat \<Rightarrow> dph_table \<Rightarrow> dph_table" where
  "dph_insert cfg a k t =
     (let b = dph_hidx (dph_size t) a; ht = the (pHashTable t); nodes = pDphNodeArray t in
      t\<lparr>pDphNodeArray := nodes[k := (dph_reset_node cfg a (of_nat k) False (nodes ! k))\<lparr>dn_next := ht ! b\<rparr>],
        pHashTable := Some (ht[b := Some k])\<rparr>)"

lemma dph_insert_simps:
  "dph_size (dph_insert cfg a k t) = dph_size t"
  "length (pDphNodeArray (dph_insert cfg a k t)) = length (pDphNodeArray t)"
  "pHashTable (dph_insert cfg a k t) =
     Some ((the (pHashTable t))[dph_hidx (dph_size t) a := Some k])"
  by (simp_all add: dph_insert_def Let_def)

lemma dph_insert_node:
  assumes "p < length (pDphNodeArray t)"
  shows "pDphNodeArray (dph_insert cfg a k t) ! p =
    (if p = k then (dph_reset_node cfg a (of_nat k) False (pDphNodeArray t ! k))
                     \<lparr>dn_next := the (pHashTable t) ! dph_hidx (dph_size t) a\<rparr>
     else pDphNodeArray t ! p)"
  using assms by (auto simp: dph_insert_def Let_def nth_list_update)

lemma dph_insert_fields:
  assumes "p < length (pDphNodeArray t)" "is_mac a"
  shows "dn_added (pDphNodeArray (dph_insert cfg a k t) ! p) \<longleftrightarrow>
           p = k \<or> dn_added (pDphNodeArray t ! p)"
    and "dn_staAddr (pDphNodeArray (dph_insert cfg a k t) ! p) =
           (if p = k then a else dn_staAddr (pDphNodeArray t ! p))"
    and "dn_assocId (pDphNodeArray (dph_insert cfg a k t) ! p) =
           (if p = k then of_nat k else dn_assocId (pDphNodeArray t ! p))"
    and "dn_next (pDphNodeArray (dph_insert cfg a k t) ! p) =
           (if p = k then the (pHashTable t) ! dph_hidx (dph_size t) a
            else dn_next (pDphNodeArray t ! p))"
  using assms(2) by (simp_all add: dph_insert_node [OF assms(1)] dph_reset_node_def is_mac_def)

lemma dph_insert_wf:
  assumes wf: "dph_wf t" and a: "is_mac a" and k: "k < unat (dph_size t)"
    and free: "\<not> dn_added (pDphNodeArray t ! k)" and new: "dph_abs t a = None"
  shows "dph_wf (dph_insert cfg a k t)"
proof -
  let ?t' = "dph_insert cfg a k t" and ?n = "unat (dph_size t)"
  let ?b = "dph_hidx (dph_size t) a"
  from wf obtain bkt where sh: "dph_shape_ok t" and nd: "dph_nodes_ok t"
    and bk: "dph_buckets_ok t bkt" by (auto simp: dph_wf_def)
  from sh have len: "length (pDphNodeArray t) = ?n" and "dph_size t \<noteq> 0"
    by (auto simp: dph_shape_ok_def)
  then have b: "?b < ?n" using hash_function_Some by blast
  note fld = dph_insert_fields [OF _ a, of _ t, unfolded len]
  have sh': "dph_shape_ok ?t'" using sh by (simp add: dph_shape_ok_def dph_insert_simps)
  have nd': "dph_nodes_ok ?t'"
    using nd a new k unfolding dph_nodes_ok_def dph_insert_simps
    by (auto simp: fld dph_abs_None_iff)
  have mem: "dph_members ?t' c = (if c = ?b then insert k (dph_members t c) else dph_members t c)" for c
    using k free by (auto simp: dph_members_def dph_insert_simps fld)
  let ?bkt = "bkt(?b := k # bkt ?b)"
  have ch: "chain (dph_succ (pDphNodeArray ?t')) p (bkt c) = chain (dph_succ (pDphNodeArray t)) p (bkt c)"
    if "c < ?n" for c p
    using that bk free by (intro chain_cong) (auto simp: dph_succ_def dph_buckets_ok_def dph_members_def fld)
  have "dph_buckets_ok ?t' ?bkt"
    using bk b k sh unfolding dph_buckets_ok_def dph_insert_simps mem
    by (auto simp: ch dph_shape_ok_def dph_succ_def fld nth_list_update)
  with sh' nd' show ?thesis by (auto simp: dph_wf_def)
qed

lemma dph_insert_abs:
  assumes wf: "dph_wf t" and a: "is_mac a" and k: "k < unat (dph_size t)"
    and free: "\<not> dn_added (pDphNodeArray t ! k)" and new: "dph_abs t a = None"
  shows "dph_abs (dph_insert cfg a k t) = (dph_abs t)(a \<mapsto> k)"
proof -
  let ?t' = "dph_insert cfg a k t"
  from dph_insert_wf [OF assms] have nd': "dph_nodes_ok ?t'" by (simp add: dph_wf_def)
  from wf have nd: "dph_nodes_ok t" and len: "length (pDphNodeArray t) = unat (dph_size t)"
    by (auto simp: dph_wf_def dph_shape_ok_def)
  have "dph_abs ?t' c = Some p \<longleftrightarrow> ((dph_abs t)(a \<mapsto> k)) c = Some p" for c p
    using new k free by (auto simp: dph_abs_Some_iff [OF nd'] dph_abs_Some_iff [OF nd] dph_abs_None_iff
      dph_insert_simps dph_insert_fields [OF _ a, of _ t, unfolded len] split: if_splits)
  then show ?thesis by (intro ext) (metis option.exhaust)
qed

lemma dph_add_hash_entry_eq:
  assumes wf: "dph_wf t" and a: "is_mac a"
  shows "dph_add_hash_entry cfg a k t =
    Some (if k < dph_size t \<and> \<not> dn_added (pDphNodeArray t ! unat k) \<and> dph_abs t a = None
          then (dph_insert cfg a (unat k) t, Some (unat k)) else (t, None))"
proof -
  from wf obtain bkt where sh: "dph_shape_ok t" and nd: "dph_nodes_ok t"
    and bk: "dph_buckets_ok t bkt" by (auto simp: dph_wf_def)
  from sh have nz: "dph_size t \<noteq> 0" and len: "length (pDphNodeArray t) = unat (dph_size t)"
    by (auto simp: dph_shape_ok_def)
  then obtain h where h: "hash_function a (dph_size t) = Some h"
    "unat h = dph_hidx (dph_size t) a" "dph_hidx (dph_size t) a < unat (dph_size t)"
    using hash_function_Some by blast
  obtain ht where ht: "pHashTable t = Some ht" "length ht = unat (dph_size t)"
    using sh by (auto simp: dph_shape_ok_def)
  let ?b = "dph_hidx (dph_size t) a" and ?ns = "pDphNodeArray t"
  show ?thesis
  proof (cases "k < dph_size t \<and> \<not> dn_added (?ns ! unat k)")
    case False
    then show ?thesis
      using len h by (auto simp: dph_add_hash_entry_def word_le_nat_alt word_less_nat_alt)
  next
    case True
    then have k: "unat k < unat (dph_size t)" and kn: "\<not> dn_added (?ns ! unat k)"
      by (auto simp: word_less_nat_alt)
    have mem: "p \<in> set (bkt ?b) \<longleftrightarrow> p \<in> dph_members t ?b" for p
      using bk h by (simp add: dph_buckets_ok_def)
    have noid: "dn_assocId (?ns ! p) \<noteq> k" if "p \<in> set (bkt ?b)" for p
    proof
      assume "dn_assocId (?ns ! p) = k"
      moreover from that have p: "p < unat (dph_size t)" "dn_added (?ns ! p)"
        by (auto simp: mem dph_members_def)
      ultimately have "k = of_nat p" using nd by (auto simp: dph_nodes_ok_def)
      moreover have "p < 2 ^ LENGTH(16)" using less_trans [OF p(1) unat_u16_less] by simp
      ultimately have "unat k = p" by (simp add: unat_of_nat take_bit_nat_eq_self)
      with p kn show False by simp
    qed
    have "dph_add_walk ?ns a k (ht ! unat h) =
        Some (case find (\<lambda>i. dph_matches ?ns a i \<or> dn_assocId (?ns ! i) = k) (bkt ?b) of
                None \<Rightarrow> AddFree | Some i \<Rightarrow> AddDuplicate i)"
      using bk h ht sh by (intro dph_add_walk_chain)
        (auto simp: dph_buckets_ok_def dph_members_def dph_shape_ok_def)
    also have "find (\<lambda>i. dph_matches ?ns a i \<or> dn_assocId (?ns ! i) = k) (bkt ?b) =
        find (dph_matches ?ns a) (bkt ?b)"
      by (rule find_cong) (auto simp: noid)
    also have "\<dots> = dph_abs t a"
      by (rule dph_find_in_bucket [OF sh nd bk a refl h(3)])
    finally have walk: "dph_add_walk ?ns a k (ht ! unat h) =
        Some (case dph_abs t a of None \<Rightarrow> AddFree | Some i \<Rightarrow> AddDuplicate i)" .
    have "unat k < 256" using k sh by (auto simp: dph_shape_ok_def)
    then have node: "get_node (ucast k) t = Some (unat k)"
      using k len by (simp add: get_node_def unat_ucast_u16_u8)
    show ?thesis
    proof (cases "dph_abs t a")
      case None
      with True walk node h ht k len show ?thesis
        by (simp add: dph_add_hash_entry_def dph_init_sta_state_def dph_insert_def Let_def
            word_le_nat_alt not_le [symmetric])
    next
      case (Some i)
      with True walk h ht k len show ?thesis
        by (simp add: dph_add_hash_entry_def word_le_nat_alt)
    qed
  qed
qed

section \<open>Deleting a station\<close>

lemma dph_unlink_simps:
  assumes "length (pDphNodeArray t) = unat (dph_size t)" "i < unat (dph_size t)"
    and "\<And>q. prev = Some q \<Longrightarrow> q < unat (dph_size t)" "prev \<noteq> Some i"
  shows "dph_size (dph_unlink b prev i ht t) = dph_size t"
    and "length (pDphNodeArray (dph_unlink b prev i ht t)) = length (pDphNodeArray t)"
    and "pHashTable (dph_unlink b prev i ht t) =
           Some (if prev = None then ht[b := dn_next (pDphNodeArray t ! i)] else ht)"
    and "p < unat (dph_size t) \<Longrightarrow> dn_added (pDphNodeArray (dph_unlink b prev i ht t) ! p) \<longleftrightarrow>
           p \<noteq> i \<and> dn_added (pDphNodeArray t ! p)"
    and "p < unat (dph_size t) \<Longrightarrow> p \<noteq> i \<Longrightarrow>
           dn_staAddr (pDphNodeArray (dph_unlink b prev i ht t) ! p) = dn_staAddr (pDphNodeArray t ! p)"
    and "p < unat (dph_size t) \<Longrightarrow> p \<noteq> i \<Longrightarrow>
           dn_assocId (pDphNodeArray (dph_unlink b prev i ht t) ! p) = dn_assocId (pDphNodeArray t ! p)"
    and "p < unat (dph_size t) \<Longrightarrow> p \<noteq> i \<Longrightarrow>
           dn_next (pDphNodeArray (dph_unlink b prev i ht t) ! p) =
             (if prev = Some p then dn_next (pDphNodeArray t ! i) else dn_next (pDphNodeArray t ! p))"
  using assms
  by (auto simp: dph_unlink_def Let_def nth_list_update split: option.splits)

text \<open>Taking the node after \<open>as\<close> out of its chain leaves every other chain alone.\<close>

lemma chain_remove:
  assumes ch: "chain nxt p (as @ i # bs)"
    and nxt': "\<And>q. q \<in> set (as @ bs) \<Longrightarrow>
      nxt' q = (if as \<noteq> [] \<and> q = last as then nxt i else nxt q)"
  shows "chain nxt' (if as = [] then nxt i else p) (as @ bs)"
proof (cases as rule: rev_exhaust)
  case Nil
  with ch have "chain nxt (nxt i) bs" by simp
  then have "chain nxt' (nxt i) bs" using Nil nxt' chain_cong [of bs nxt nxt'] by simp
  with Nil show ?thesis by simp
next
  case (snoc cs c)
  with ch have "chain (nxt(c := nxt i)) p (cs @ c # bs)" by (intro chain_unlink) simp
  also have "chain (nxt(c := nxt i)) p (cs @ c # bs) = chain nxt' p (cs @ c # bs)"
    by (rule chain_cong) (use snoc nxt' in auto)
  finally show ?thesis using snoc by simp
qed

lemma dph_unlink_ok:
  assumes wf: "dph_wf t" and a: "is_mac a" and abs: "dph_abs t a = Some i"
    and bk: "dph_buckets_ok t bkt" and b: "b = dph_hidx (dph_size t) a"
    and split: "bkt b = as @ i # bs" and ht: "pHashTable t = Some ht"
    and prev: "prev = (if as = [] then None else Some (last as))"
  shows "dph_wf (dph_unlink b prev i ht t)"
    and "dph_abs (dph_unlink b prev i ht t) = (dph_abs t)(a := None)"
proof -
  let ?t' = "dph_unlink b prev i ht t" and ?n = "unat (dph_size t)" and ?ns = "pDphNodeArray t"
  from wf have sh: "dph_shape_ok t" and nd: "dph_nodes_ok t" by (auto simp: dph_wf_def)
  from sh have len: "length ?ns = ?n" and "dph_size t \<noteq> 0" by (auto simp: dph_shape_ok_def)
  then have bn: "b < ?n" using hash_function_Some b by blast
  from abs have i: "i < ?n" "dn_added (?ns ! i)" "dn_staAddr (?ns ! i) = a"
    by (auto simp: dph_abs_Some_iff [OF nd])
  have chb: "chain (dph_succ ?ns) (ht ! b) (as @ i # bs)" and setb: "set (as @ i # bs) = dph_members t b"
    using bk bn ht unfolding dph_buckets_ok_def split [symmetric] by auto
  from chain_distinct [OF chb] have dist: "distinct (as @ i # bs)" .
  have range: "q < ?n" if "q \<in> set (as @ i # bs)" for q
    using that unfolding setb by (simp add: dph_members_def)
  have prev_in: "q \<in> set as \<and> q \<in> set (as @ i # bs) \<and> q = last as" if "prev = Some q" for q
    using that unfolding prev by (cases as rule: rev_cases) auto
  then have pr: "q < ?n" if "prev = Some q" for q using that range by blast
  have prq: "prev = Some q \<longleftrightarrow> as \<noteq> [] \<and> q = last as" for q
    unfolding prev by (cases "as = []") auto
  have prn: "prev = None \<longleftrightarrow> as = []" unfolding prev by simp
  have pri: "prev \<noteq> Some i" using prev_in dist by auto
  note fld = dph_unlink_simps [OF len i(1) pr pri, where ht = ht and b = b, simplified]
  have sh': "dph_shape_ok ?t'" using sh ht by (simp add: dph_shape_ok_def fld)
  have nd': "dph_nodes_ok ?t'" using nd unfolding dph_nodes_ok_def fld by (auto simp: fld)
  have mem: "dph_members ?t' c = dph_members t c - {i}" for c
    by (auto simp: dph_members_def fld)
  have disj: "set (bkt c) \<inter> set (as @ i # bs) = {}" if "c < ?n" "c \<noteq> b" for c
    using that bk unfolding setb by (auto simp: dph_buckets_ok_def dph_members_def)
  have others: "i \<notin> set (bkt c) \<and> prev \<notin> Some ` set (bkt c)" if "c < ?n" "c \<noteq> b" for c
    using disj [OF that] prev_in by auto
  have chc: "chain (dph_succ (pDphNodeArray ?t')) p (bkt c) = chain (dph_succ ?ns) p (bkt c)"
    if "c < ?n" "c \<noteq> b" for c p
  proof (rule chain_cong)
    fix q assume q: "q \<in> set (bkt c)"
    with others [OF that] have "q \<noteq> i" "prev \<noteq> Some q" by auto
    moreover from q that bk have "q < ?n" by (auto simp: dph_buckets_ok_def dph_members_def)
    ultimately show "dph_succ (pDphNodeArray ?t') q = dph_succ ?ns q" by (simp add: dph_succ_def fld)
  qed
  have chb': "chain (dph_succ (pDphNodeArray ?t')) (if as = [] then dph_succ ?ns i else ht ! b) (as @ bs)"
  proof (rule chain_remove [OF chb])
    fix q assume "q \<in> set (as @ bs)"
    moreover from this have "q < ?n" "q \<noteq> i" using range dist by auto
    ultimately show "dph_succ (pDphNodeArray ?t') q =
        (if as \<noteq> [] \<and> q = last as then dph_succ ?ns i else dph_succ ?ns q)"
      by (simp add: dph_succ_def fld prq)
  qed
  let ?bkt = "bkt(b := as @ bs)"
  have "dph_buckets_ok ?t' ?bkt"
    unfolding dph_buckets_ok_def
  proof (intro allI impI)
    fix c assume c: "c < unat (dph_size ?t')"
    show "chain (dph_succ (pDphNodeArray ?t')) (the (pHashTable ?t') ! c) (?bkt c) \<and>
        set (?bkt c) = dph_members ?t' c"
    proof (cases "c = b")
      case True
      moreover have "set (as @ bs) = dph_members t b - {i}" using dist unfolding setb [symmetric] by auto
      ultimately show ?thesis
        using chb' bn sh ht by (simp add: fld mem dph_succ_def dph_shape_ok_def prn split: if_splits)
    next
      case False
      with c have cn: "c < ?n" by (simp add: fld)
      have "i \<notin> dph_members t c" using others [OF cn False] bk cn by (auto simp: dph_buckets_ok_def)
      with False cn bk ht show ?thesis
        by (auto simp: fld mem chc dph_buckets_ok_def)
    qed
  qed
  with sh' nd' show "dph_wf ?t'" by (auto simp: dph_wf_def)
  have "dph_abs ?t' c = Some p \<longleftrightarrow> ((dph_abs t)(a := None)) c = Some p" for c p
  proof (cases "p = i")
    case True
    then show ?thesis using i by (auto simp: dph_abs_Some_iff [OF nd'] dph_abs_Some_iff [OF nd] fld)
  next
    case False
    moreover have "dph_abs t a \<noteq> Some p" using abs False by simp
    ultimately show ?thesis
      by (auto simp: dph_abs_Some_iff [OF nd'] dph_abs_Some_iff [OF nd] fld)
  qed
  then show "dph_abs ?t' = (dph_abs t)(a := None)" by (intro ext) (metis option.exhaust)
qed

lemma dph_delete_hash_entry_refused:
  assumes "dph_wf t" "is_mac a"
    and "dph_size t \<le> k \<or> \<not> dn_added (pDphNodeArray t ! unat k)"
  shows "dph_delete_hash_entry a k t = Some (t, eSIR_FAILURE)"
proof -
  from assms(1) have "dph_size t \<noteq> 0" "length (pDphNodeArray t) = unat (dph_size t)"
    by (auto simp: dph_wf_def dph_shape_ok_def)
  moreover from this obtain h where "hash_function a (dph_size t) = Some h"
    using hash_function_Some by blast
  ultimately show ?thesis using assms(3)
    by (auto simp: dph_delete_hash_entry_def word_le_nat_alt)
qed

lemma dph_delete_hash_entry_eq:
  assumes wf: "dph_wf t" and a: "is_mac a"
    and k: "k < dph_size t" "dn_added (pDphNodeArray t ! unat k)"
  shows "dph_abs t a = None \<Longrightarrow> dph_delete_hash_entry a k t = Some (t, eSIR_FAILURE)"
    and "dph_abs t a = Some i \<Longrightarrow> \<exists>t'. dph_delete_hash_entry a k t = Some (t', eSIR_SUCCESS) \<and>
           dph_wf t' \<and> dph_abs t' = (dph_abs t)(a := None)"
proof -
  from wf obtain bkt where sh: "dph_shape_ok t" and nd: "dph_nodes_ok t"
    and bk: "dph_buckets_ok t bkt" by (auto simp: dph_wf_def)
  from sh have nz: "dph_size t \<noteq> 0" and len: "length (pDphNodeArray t) = unat (dph_size t)"
    by (auto simp: dph_shape_ok_def)
  then obtain h where h: "hash_function a (dph_size t) = Some h"
    "unat h = dph_hidx (dph_size t) a" "dph_hidx (dph_size t) a < unat (dph_size t)"
    using hash_function_Some by blast
  obtain ht where ht: "pHashTable t = Some ht" "length ht = unat (dph_size t)"
    using sh by (auto simp: dph_shape_ok_def)
  let ?b = "dph_hidx (dph_size t) a" and ?ns = "pDphNodeArray t"
  have ch: "chain (dph_succ ?ns) (ht ! ?b) (bkt ?b)" and inr: "\<And>p. p \<in> set (bkt ?b) \<Longrightarrow> p < length ?ns"
    using bk h ht sh by (auto simp: dph_buckets_ok_def dph_members_def dph_shape_ok_def)
  have fnd: "find (dph_matches ?ns a) (bkt ?b) = dph_abs t a"
    by (rule dph_find_in_bucket [OF sh nd bk a refl h(3)])
  have del: "dph_delete_hash_entry a k t =
      (do { r \<leftarrow> dph_delete_walk ?ns a None (ht ! ?b);
            (case r of DelLoop \<Rightarrow> Some (t, eSIR_FAILURE) | DelEnd \<Rightarrow> Some (t, eSIR_FAILURE)
             | DelFound prev i \<Rightarrow> Some (dph_unlink ?b prev i ht t, eSIR_SUCCESS)) })"
    using k len h ht by (simp add: dph_delete_hash_entry_def word_le_nat_alt word_less_nat_alt)
  show "dph_abs t a = None \<Longrightarrow> dph_delete_hash_entry a k t = Some (t, eSIR_FAILURE)"
  proof -
    assume "dph_abs t a = None"
    with fnd have "\<forall>p \<in> set (bkt ?b). \<not> dph_matches ?ns a p" by (auto simp: find_None_iff)
    then have "dph_delete_walk ?ns a None (ht ! ?b) = Some DelEnd"
      by (intro dph_delete_walk_miss [OF ch inr]) auto
    with del show ?thesis by simp
  qed
  assume abs: "dph_abs t a = Some i"
  with fnd obtain as bs where sp: "bkt ?b = as @ i # bs"
    and m: "dph_matches ?ns a i" "\<forall>p \<in> set as. \<not> dph_matches ?ns a p"
    by (auto dest: find_split)
  let ?prev = "if as = [] then None else Some (last as)"
  have "dph_delete_walk ?ns a None (ht ! ?b) = Some (DelFound ?prev i)"
    by (rule dph_delete_walk_hit) (use ch inr m in \<open>auto simp: sp\<close>)
  with del have eq: "dph_delete_hash_entry a k t = Some (dph_unlink ?b ?prev i ht t, eSIR_SUCCESS)"
    by simp
  from dph_unlink_ok [OF wf a abs bk refl sp ht(1) refl] eq
  show "\<exists>t'. dph_delete_hash_entry a k t = Some (t', eSIR_SUCCESS) \<and>
      dph_wf t' \<and> dph_abs t' = (dph_abs t)(a := None)" by blast
qed

section \<open>The table contract\<close>

text \<open>
  The station table as its clients see it: lookup by address, addition under a chosen
  association id and deletion of a station under its own id.
\<close>

definition dph_find :: "dph_table \<Rightarrow> mac_addr \<Rightarrow> u16 option" where
  "dph_find t a =
     (if is_mac a
      then case dph_lookup_hash_entry a t of Some (Some (p, k)) \<Rightarrow> Some k | _ \<Rightarrow> None
      else None)"

definition dph_try_add :: "u32 option \<Rightarrow> mac_addr \<Rightarrow> u16 \<Rightarrow> dph_table \<Rightarrow> dph_table option" where
  "dph_try_add cfg a k t =
     (case dph_add_hash_entry cfg a k t of Some (t', Some p) \<Rightarrow> Some t' | _ \<Rightarrow> None)"

definition dph_drop :: "mac_addr \<Rightarrow> dph_table \<Rightarrow> dph_table" where
  "dph_drop a t =
     (case dph_find t a of
        None \<Rightarrow> t
      | Some k \<Rightarrow> (case dph_delete_hash_entry a k t of Some (t', st) \<Rightarrow> t' | None \<Rightarrow> t))"

lemma dph_find_abs:
  "dph_wf t \<Longrightarrow> dph_find t a = (if is_mac a then map_option of_nat (dph_abs t a) else None)"
  by (cases "dph_abs t a") (auto simp: dph_find_def dph_lookup_walks_to_map)

lemma dph_abs_range: "dph_wf t \<Longrightarrow> dph_abs t a = Some p \<Longrightarrow> p < 2 ^ 16 \<and> p < unat (dph_size t)"
  using unat_u16_less [of "dph_size t"] by (auto simp: dph_wf_def dph_abs_Some_iff simp del: unat_u16_less)

lemma dph_abs_is_mac: "dph_wf t \<Longrightarrow> dph_abs t a = Some p \<Longrightarrow> is_mac a"
  by (auto simp: dph_wf_def dph_abs_Some_iff dph_nodes_ok_def)

lemma unat_of_nat_u16: "p < 2 ^ 16 \<Longrightarrow> unat (of_nat p :: u16) = p"
  by (simp add: unat_of_nat take_bit_nat_eq_self)

lemma of_nat_u16_eq_iff:
  "p < 2 ^ 16 \<Longrightarrow> q < 2 ^ 16 \<Longrightarrow> (of_nat p :: u16) = of_nat q \<longleftrightarrow> p = q"
  by (metis unat_of_nat_u16)

lemma dph_try_add_Some:
  assumes "dph_wf t" "is_mac a" "dph_try_add cfg a k t = Some t'"
  shows "t' = dph_insert cfg a (unat k) t" "unat k < unat (dph_size t)"
    "\<not> dn_added (pDphNodeArray t ! unat k)" "dph_abs t a = None"
  using assms(3) dph_add_hash_entry_eq [OF assms(1,2)]
  by (auto simp: dph_try_add_def word_less_nat_alt split: if_splits)

interpretation dph: mac_table dph_wf dph_find "dph_try_add cfg" dph_drop
  for cfg
proof (unfold_locales, goal_cases)
  case (1 t a k t')
  then show ?case using dph_try_add_Some [OF 1] by (auto intro: dph_insert_wf)
next
  case (2 t a k t')
  note add = dph_try_add_Some [OF 2]
  have "dph_wf t'" and "dph_abs t' = (dph_abs t)(a \<mapsto> unat k)"
    using 2 add by (auto intro: dph_insert_wf simp: dph_insert_abs)
  with 2 show ?case by (auto simp: dph_find_abs fun_eq_iff)
next
  case (3 t a k t')
  note add = dph_try_add_Some [OF 3]
  have "dph_abs t b \<noteq> Some (unat k)" for b
    using add 3 by (auto simp: dph_wf_def dph_abs_Some_iff)
  moreover have "dph_abs t b = Some (unat k)" if "dph_find t b = Some k" for b
    using that 3 dph_abs_range [of t b]
    by (auto simp: dph_find_abs unat_of_nat_u16 split: if_splits)
  ultimately have "k \<notin> ran (dph_find t)" by (auto simp: ran_def)
  with add 3 show ?case by (simp add: dph_find_abs)
next
  case (4 t a)
  show ?case
  proof (cases "dph_abs t a")
    case None
    with 4 show ?thesis by (simp add: dph_drop_def dph_find_abs)
  next
    case (Some i)
    with 4 dph_abs_range [OF 4(1) Some] have k: "(of_nat i :: u16) < dph_size t"
      "dn_added (pDphNodeArray t ! unat (of_nat i :: u16))"
      by (auto simp: word_less_nat_alt unat_of_nat_u16 dph_wf_def dph_abs_Some_iff)
    from dph_delete_hash_entry_eq(2) [OF 4 k Some] 4 Some show ?thesis
      by (auto simp: dph_drop_def dph_find_abs)
  qed
next
  case (5 t a)
  show ?case
  proof (cases "dph_abs t a")
    case None
    with 5 show ?thesis by (auto simp: dph_drop_def dph_find_abs fun_eq_iff)
  next
    case (Some i)
    with 5 dph_abs_range [OF 5(1) Some] have k: "(of_nat i :: u16) < dph_size t"
      "dn_added (pDphNodeArray t ! unat (of_nat i :: u16))"
      by (auto simp: word_less_nat_alt unat_of_nat_u16 dph_wf_def dph_abs_Some_iff)
    from dph_delete_hash_entry_eq(2) [OF 5 k Some] obtain t' where
      "dph_delete_hash_entry a (of_nat i) t = Some (t', eSIR_SUCCESS)" "dph_wf t'"
      "dph_abs t' = (dph_abs t)(a := None)" by blast
    with 5 Some show ?thesis by (auto simp: dph_drop_def dph_find_abs fun_eq_iff)
  qed
next
  case (6 t)
  show ?case
  proof (rule inj_onI)
    fix a b assume "a \<in> dom (dph_find t)" "b \<in> dom (dph_find t)" "dph_find t a = dph_find t b"
    with 6 obtain p q where pq: "dph_abs t a = Some p" "dph_abs t b = Some q" "(of_nat p :: u16) = of_nat q"
      by (auto simp: dph_find_abs split: if_splits)
    with dph_abs_range [OF 6 pq(1)] dph_abs_range [OF 6 pq(2)] have "p = q"
      by (metis of_nat_u16_eq_iff)
    with pq 6 show "a = b" by (auto simp: dph_wf_def dph_abs_Some_iff)
  qed
qed

section \<open>Initialisation and lookup by station index\<close>

lemma dph_init_fresh:
  assumes "0 < n" "n \<le> 256" "length ht = n" "length nodes = n"
  shows "\<exists>t'. dph_hash_table_class_init
             \<lparr>pHashTable = Some ht, pDphNodeArray = nodes, dph_size = of_nat n\<rparr> = Some t' \<and>
           dph_wf t' \<and> dph_abs t' = Map.empty \<and> dph_size t' = of_nat n"
proof -
  have n: "unat (of_nat n :: u16) = n" using assms by (simp add: unat_of_nat_u16)
  let ?t' = "\<lparr>pHashTable = Some (replicate n None),
    pDphNodeArray = map (\<lambda>i. (nodes ! i)\<lparr>dn_valid := False, dn_added := False,
                                          dn_assocId := of_nat i\<rparr>) [0..<n],
    dph_size = of_nat n\<rparr> :: dph_table"
  have "dph_buckets_ok ?t' (\<lambda>_. [])"
    by (auto simp: dph_buckets_ok_def dph_members_def n)
  moreover have "dph_shape_ok ?t'" "dph_nodes_ok ?t'"
    using assms by (auto simp: dph_shape_ok_def dph_nodes_ok_def n)
  ultimately have "dph_wf ?t'" by (auto simp: dph_wf_def)
  moreover have "dph_abs ?t' = Map.empty" by (auto simp: fun_eq_iff dph_abs_None_iff n)
  ultimately show ?thesis
    using assms by (simp add: dph_hash_table_class_init_def n)
qed

lemma dph_lookup_assoc_id_scan:
  assumes "length (pDphNodeArray t) = unat (dph_size t)"
  shows "unat (dph_size t) \<le> 255 \<Longrightarrow> dph_lookup_assoc_id s t =
           Some (find (\<lambda>i. dn_added (pDphNodeArray t ! i) \<and> dn_staIndex (pDphNodeArray t ! i) = s)
                   [0..<unat (dph_size t)])"
    and "255 < unat (dph_size t) \<Longrightarrow>
         (\<forall>i<256. \<not> (dn_added (pDphNodeArray t ! i) \<and> dn_staIndex (pDphNodeArray t ! i) = s)) \<Longrightarrow>
         dph_lookup_assoc_id s t = None"
proof -
  let ?ns = "pDphNodeArray t"
  let ?hit = "\<lambda>i. dn_added (?ns ! i) \<and> dn_staIndex (?ns ! i) = s"
  assume small: "unat (dph_size t) \<le> 255"
  have "find (\<lambda>i. length ?ns \<le> i \<or> ?hit i) [0..<unat (dph_size t)] = find ?hit [0..<unat (dph_size t)]"
    by (rule find_cong) (auto simp: assms)
  with small have eq: "dph_lookup_assoc_id s t =
      (case find ?hit [0..<unat (dph_size t)] of
         None \<Rightarrow> Some None | Some i \<Rightarrow> if i < length ?ns then Some (Some i) else None)"
    by (simp add: dph_lookup_assoc_id_def Let_def scan_u8_find)
  show "dph_lookup_assoc_id s t = Some (find ?hit [0..<unat (dph_size t)])"
  proof (cases "find ?hit [0..<unat (dph_size t)]")
    case (Some i)
    then have "i < length ?ns" by (simp add: find_upt_Some_iff assms)
    with Some eq show ?thesis by simp
  qed (simp add: eq)
next
  assume "255 < unat (dph_size t)"
    and "\<forall>i<256. \<not> (dn_added (pDphNodeArray t ! i) \<and> dn_staIndex (pDphNodeArray t ! i) = s)"
  then show "dph_lookup_assoc_id s t = None"
    using assms by (simp add: dph_lookup_assoc_id_def Let_def scan_u8_wraps)
qed

section \<open>Sequences of operations\<close>

text \<open>
  A history of a station table: additions (an address with the id it asks for) and
  deletions. A refused addition leaves the table as it is.
\<close>

fun dph_run :: "u32 option \<Rightarrow> (mac_addr \<times> u16 option) list \<Rightarrow> dph_table \<Rightarrow> dph_table" where
  "dph_run cfg [] t = t"
| "dph_run cfg ((a, Some k) # ops) t =
     dph_run cfg ops (case dph_add_hash_entry cfg a k t of Some (t', r) \<Rightarrow> t' | None \<Rightarrow> t)"
| "dph_run cfg ((a, None) # ops) t = dph_run cfg ops (dph_drop a t)"

lemma dph_run_is_run:
  "\<lbrakk>dph_wf t; \<forall>(a, k) \<in> set ops. is_mac a\<rbrakk> \<Longrightarrow> dph_run cfg ops t = dph.run cfg ops t"
proof (induction cfg ops t rule: dph_run.induct)
  case (1 cfg t)
  then show ?case by simp
next
  case (2 cfg a k ops t)
  have same: "(case dph_add_hash_entry cfg a k t of Some (t', r) \<Rightarrow> t' | None \<Rightarrow> t) =
      (case dph_try_add cfg a k t of Some t' \<Rightarrow> t' | None \<Rightarrow> t)"
    using 2 by (simp add: dph_try_add_def dph_add_hash_entry_eq)
  moreover have "dph_wf (case dph_try_add cfg a k t of Some t' \<Rightarrow> t' | None \<Rightarrow> t)"
    using 2 by (auto split: option.split intro: dph.add_invar)
  ultimately show ?case using 2 by simp
next
  case (3 cfg a ops t)
  then show ?case by (simp add: dph.del_invar)
qed

section \<open>Properties\<close>

text \<open>
  C15: Lookup refines the partial map of the node array. In every well-formed table and for
  every MAC address, \<open>dph_lookup_hash_entry\<close> returns (no endless chain, no access outside the
  arrays) and yields exactly the added station with that address together with its
  association id, or the null pointer when there is none.
\<close>

theorem dph_lookup_refines:
  assumes "dph_wf t" "is_mac a"
  shows "dph_lookup_hash_entry a t = Some (map_option (\<lambda>p. (p, of_nat p)) (dph_abs t a))"
  using assms by (rule dph_lookup_walks_to_map)

text \<open>
  Adding a station. In a well-formed table \<open>dph_add_hash_entry\<close> always returns; it accepts
  exactly when the id is in range, its node is not in use and the address is not filed
  yet; then the map gains that one entry, otherwise the table is unchanged. Either way
  the table stays well-formed.
\<close>

theorem dph_add_correct:
  assumes "dph_wf t" "is_mac a"
  shows "\<exists>t' r. dph_add_hash_entry cfg a k t = Some (t', r) \<and> dph_wf t' \<and>
    (if k < dph_size t \<and> \<not> dn_added (pDphNodeArray t ! unat k) \<and> dph_abs t a = None
     then r = Some (unat k) \<and> dph_abs t' = (dph_abs t)(a \<mapsto> unat k)
     else r = None \<and> t' = t)"
proof (cases "k < dph_size t \<and> \<not> dn_added (pDphNodeArray t ! unat k) \<and> dph_abs t a = None")
  case True
  then have "unat k < unat (dph_size t)" by (simp add: word_less_nat_alt)
  with True assms show ?thesis
    by (simp add: dph_add_hash_entry_eq dph_insert_wf dph_insert_abs)
next
  case False
  with assms show ?thesis by (auto simp: dph_add_hash_entry_eq)
qed

text \<open>
  Deleting a station. \<open>dph_delete_hash_entry\<close> checks that the association id names a node
  in use, then removes the station that is filed under the address, whichever node that
  is: the map loses exactly that address and the table stays well-formed. With no such
  station, or an id out of range or not in use, it reports failure and changes nothing.
\<close>

theorem dph_delete_correct:
  assumes "dph_wf t" "is_mac a"
  shows "\<exists>t' st. dph_delete_hash_entry a k t = Some (t', st) \<and> dph_wf t' \<and>
    (if k < dph_size t \<and> dn_added (pDphNodeArray t ! unat k) \<and> dph_abs t a \<noteq> None
     then st = eSIR_SUCCESS \<and> dph_abs t' = (dph_abs t)(a := None)
     else st = eSIR_FAILURE \<and> t' = t)"
proof (cases "k < dph_size t \<and> dn_added (pDphNodeArray t ! unat k)")
  case True
  then show ?thesis
  proof (cases "dph_abs t a")
    case None
    with True assms show ?thesis by (simp add: dph_delete_hash_entry_eq(1))
  next
    case (Some i)
    with True assms dph_delete_hash_entry_eq(2) [of t a k i] show ?thesis by auto
  qed
next
  case False
  with assms have "dph_delete_hash_entry a k t = Some (t, eSIR_FAILURE)"
    by (intro dph_delete_hash_entry_refused) (auto simp: not_less)
  with False assms show ?thesis by auto
qed

text \<open>
  Whatever sequence of additions and deletions a session performs on a well-formed
  station table, two stations never hold the same association id.
\<close>

theorem dph_association_ids_unique:
  assumes "dph_wf t" "\<forall>(a, k) \<in> set ops. is_mac a"
    and "dph_find (dph_run cfg ops t) a = Some k" "dph_find (dph_run cfg ops t) b = Some k"
  shows "a = b"
  using dph.run_keys_unique [of t ops cfg a k b] assms by (simp add: dph_run_is_run)

text \<open>
  The eight-bit counter of \<open>dph_lookup_assoc_id\<close>. Up to 255 nodes the scan returns the
  first station in use with the given station index; with more nodes than that and no
  such station below 256 the loop never returns.
\<close>

theorem dph_lookup_assoc_id_counter:
  assumes "length (pDphNodeArray t) = unat (dph_size t)"
  shows "(unat (dph_size t) \<le> 255 \<longrightarrow> dph_lookup_assoc_id s t =
           Some (find (\<lambda>i. dn_added (pDphNodeArray t ! i) \<and> dn_staIndex (pDphNodeArray t ! i) = s)
                   [0..<unat (dph_size t)])) \<and>
         (255 < unat (dph_size t) \<longrightarrow>
           (\<forall>i<256. \<not> (dn_added (pDphNodeArray t ! i) \<and> dn_staIndex (pDphNodeArray t ! i) = s)) \<longrightarrow>
           dph_lookup_assoc_id s t = None)"
  using dph_lookup_assoc_id_scan [OF assms] by blast

section \<open>Witnesses\<close>

definition blank_node :: dph_node where
  "blank_node = \<lparr>dn_valid = False, dn_added = False, dn_encPolicy = 0, dn_fragSize = 0,
     dn_assocId = 0, dn_staIndex = 0, dn_staAddr = replicate 6 0,
     dn_disassoc_deauth_in_progress = 0, dn_last_assoc_received_time = 0,
     dn_sta_deletion_in_progress = False, dn_rest = [], dn_next = None\<rparr>"

definition demo_table :: dph_table where
  "demo_table = the (dph_hash_table_class_init
     \<lparr>pHashTable = Some (replicate 4 None), pDphNodeArray = replicate 4 blank_node, dph_size = 4\<rparr>)"

definition demo_a :: mac_addr where
  "demo_a = [2, 0, 0, 0, 0, 1]"

definition demo_b :: mac_addr where
  "demo_b = [2, 0, 0, 0, 4, 1]"

lemma demo_macs [simp]: "is_mac demo_a" "is_mac demo_b"
  by (simp_all add: demo_a_def demo_b_def is_mac_def)

lemma demo_table_wf: "dph_wf demo_table" "dph_abs demo_table = Map.empty" "dph_size demo_table = 4"
  using dph_init_fresh [of 4 "replicate 4 None" "replicate 4 blank_node"]
  by (auto simp: demo_table_def)

lemma demo_table_free: "\<not> dn_added (pDphNodeArray demo_table ! 1)" "length (pDphNodeArray demo_table) = 4"
  using dph_init_fresh [of 4 "replicate 4 None" "replicate 4 blank_node"]
  by (simp_all add: demo_table_def dph_hash_table_class_init_def)

definition demo_one :: dph_table where
  "demo_one = dph_insert None demo_a 1 demo_table"

lemma demo_one_wf: "dph_wf demo_one" "dph_abs demo_one = [demo_a \<mapsto> 1]" "dph_size demo_one = 4"
  using demo_table_wf demo_table_free
  by (auto simp: demo_one_def dph_insert_simps simp del: One_nat_def
      intro!: dph_insert_wf dph_insert_abs [THEN trans])

lemma demo_one_added: "dn_added (pDphNodeArray demo_one ! 1)"
  using demo_one_wf by (metis dph_abs_Some_iff dph_wf_def fun_upd_same)

theorem dph_lookup_refines_witness:
  "dph_wf demo_one \<and> is_mac demo_a \<and> dph_lookup_hash_entry demo_a demo_one = Some (Some (1, 1))"
  using dph_lookup_refines [OF demo_one_wf(1) demo_macs(1)] demo_one_wf by simp

theorem dph_add_correct_witness:
  "dph_wf demo_table \<and> (\<exists>t'. dph_add_hash_entry None demo_a 1 demo_table = Some (t', Some 1) \<and>
     dph_wf t' \<and> dph_abs t' = [demo_a \<mapsto> 1])"
  using dph_add_correct [OF demo_table_wf(1) demo_macs(1), of None 1] demo_table_wf demo_table_free
  by auto

theorem dph_delete_correct_witness:
  "dph_wf demo_one \<and> (\<exists>t'. dph_delete_hash_entry demo_a 1 demo_one = Some (t', eSIR_SUCCESS) \<and>
     dph_abs t' = Map.empty)"
  using dph_delete_correct [OF demo_one_wf(1) demo_macs(1), of 1] demo_one_wf demo_one_added by auto

theorem dph_association_ids_unique_witness:
  "dph_find (dph_run None [(demo_b, Some 1)] demo_one) demo_a = Some 1 \<and> demo_a = demo_a"
proof -
  have found: "dph_find (dph_run None [(demo_b, Some 1)] demo_one) demo_a = Some 1"
    using demo_one_wf demo_one_added by (simp add: dph_add_hash_entry_eq dph_find_abs)
  then show ?thesis
    using dph_association_ids_unique [OF demo_one_wf(1) _ found found] by simp
qed

theorem dph_lookup_assoc_id_counter_witness:
  "length (pDphNodeArray demo_table) = 4 \<and> dph_lookup_assoc_id 7 demo_table = Some None"
proof -
  have "find (\<lambda>i. dn_added (pDphNodeArray demo_table ! i) \<and> dn_staIndex (pDphNodeArray demo_table ! i) = 7)
      [0..<4] = None"
    using demo_table_wf(2) by (auto simp: fun_eq_iff dph_abs_None_iff demo_table_wf(3) find_None_iff)
  then show ?thesis
    using dph_lookup_assoc_id_counter [of demo_table 7] demo_table_free demo_table_wf(3) by simp
qed

end
