(* ===== verification/Tx_Timer.thy ===== *)
theory Tx_Timer
  imports Prelude
begin

text \<open>
  The timers of the MAC layer, \<open>core/mac/src/sys/legacy/src/platform/src/sys_wrapper.c\<close>: a wrapper around the
  timers of the QDF layer. Of a QDF timer the wrapper uses whether it runs; \<open>start_ok\<close> and \<open>init_ok\<close> say whether
  the QDF layer can start and create one. Starting a running timer reports success, stopping a timer
  always leaves it stopped. The expiration function and the name are constants at every call.
\<close>

section \<open>Timers\<close>

datatype tx_status = TX_SUCCESS | TX_TIMER_ERROR | TX_TICK_ERROR

definition TX_AIRGO_TMR_SIGNATURE :: u64 where
  "TX_AIRGO_TMR_SIGNATURE = 0xDEADBEEF"

definition TX_MSECS_IN_1_TICK :: u64 where
  "TX_MSECS_IN_1_TICK = 10"

definition SYS_MS_TO_TICKS :: "u32 \<Rightarrow> u32" where
  "SYS_MS_TO_TICKS x = x div 10"

record tx_timer =
  tmrSignature :: u64
  tt_expireInput :: u32
  tt_init :: u64
  tt_resched :: u64
  tt_sessionId :: u8
  tt_running :: bool

definition tx_timer_activate :: "bool \<Rightarrow> tx_timer \<Rightarrow> tx_status \<times> tx_timer" where
  "tx_timer_activate start_ok t =
     (if TX_AIRGO_TMR_SIGNATURE \<noteq> tmrSignature t then (TX_TIMER_ERROR, t)
      else if tt_running t then (TX_SUCCESS, t)
      else if start_ok then (TX_SUCCESS, t\<lparr>tt_running := True\<rparr>)
      else (TX_TIMER_ERROR, t))"

definition tx_timer_change :: "u64 \<Rightarrow> u64 \<Rightarrow> tx_timer \<Rightarrow> tx_status \<times> tx_timer" where
  "tx_timer_change init resched t =
     (if TX_AIRGO_TMR_SIGNATURE \<noteq> tmrSignature t then (TX_TIMER_ERROR, t)
      else if tt_running t then (TX_TIMER_ERROR, t)
      else (TX_SUCCESS, t\<lparr>tt_init := TX_MSECS_IN_1_TICK * init, tt_resched := TX_MSECS_IN_1_TICK * resched\<rparr>))"

definition tx_timer_change_context :: "u32 \<Rightarrow> tx_timer \<Rightarrow> tx_status \<times> tx_timer" where
  "tx_timer_change_context input t =
     (if TX_AIRGO_TMR_SIGNATURE \<noteq> tmrSignature t then (TX_TIMER_ERROR, t)
      else if tt_running t then (TX_TIMER_ERROR, t)
      else (TX_SUCCESS, t\<lparr>tt_expireInput := input\<rparr>))"

definition tx_timer_create ::
  "bool \<Rightarrow> bool \<Rightarrow> u32 \<Rightarrow> u64 \<Rightarrow> u64 \<Rightarrow> bool \<Rightarrow> tx_timer \<Rightarrow> tx_status \<times> tx_timer" where
  "tx_timer_create init_ok start_ok input init resched auto_activate t =
     (if init = 0 then (TX_TICK_ERROR, t)
      else let t1 = t\<lparr>tt_expireInput := input, tt_init := TX_MSECS_IN_1_TICK * init,
                 tt_resched := TX_MSECS_IN_1_TICK * resched, tmrSignature := TX_AIRGO_TMR_SIGNATURE\<rparr> in
        if \<not> init_ok then (TX_TIMER_ERROR, t1)
        else let t2 = t1\<lparr>tt_running := False\<rparr> in
          (TX_SUCCESS, if auto_activate then snd (tx_timer_activate start_ok t2) else t2))"

definition tx_timer_deactivate :: "tx_timer \<Rightarrow> tx_timer" where
  "tx_timer_deactivate t =
     (if TX_AIRGO_TMR_SIGNATURE \<noteq> tmrSignature t then t else t\<lparr>tt_running := False\<rparr>)"

definition tx_timer_running :: "tx_timer \<Rightarrow> bool" where
  "tx_timer_running t \<longleftrightarrow> tmrSignature t = TX_AIRGO_TMR_SIGNATURE \<and> tt_running t"

text \<open>
  The expiration of a timer: the callback \<open>cb\<close> runs with the input of the timer, and may use the timer
  itself; then a timer with a reschedule time is started again, once.
\<close>

definition tx_main_timer_func :: "(u32 \<Rightarrow> tx_timer \<Rightarrow> tx_timer) \<Rightarrow> bool \<Rightarrow> tx_timer \<Rightarrow> tx_timer" where
  "tx_main_timer_func cb start_ok t =
     (let t1 = cb (tt_expireInput t) (t\<lparr>tt_running := False\<rparr>) in
      if tt_resched t1 \<noteq> 0 then t1\<lparr>tt_running := tt_running t1 \<or> start_ok, tt_resched := 0\<rparr> else t1)"

section \<open>Behaviour\<close>

definition timer_created :: "tx_timer \<Rightarrow> bool" where
  "timer_created t \<longleftrightarrow> tmrSignature t = TX_AIRGO_TMR_SIGNATURE"

lemma timer_create_created: "tx_timer_create i s x n r a t = (TX_SUCCESS, t') \<Longrightarrow> timer_created t'"
  by (auto simp: tx_timer_create_def tx_timer_activate_def timer_created_def Let_def split: if_splits)

lemma timer_deactivate_stopped [simp]: "\<not> tx_timer_running (tx_timer_deactivate t)"
  by (simp add: tx_timer_running_def tx_timer_deactivate_def)

lemma timer_deactivate_created [simp]: "timer_created (tx_timer_deactivate t) = timer_created t"
  by (simp add: timer_created_def tx_timer_deactivate_def)

lemma timer_change_created [simp]:
  "timer_created (snd (tx_timer_change i r t)) = timer_created t"
  "timer_created (snd (tx_timer_change_context c t)) = timer_created t"
  "timer_created (snd (tx_timer_activate b t)) = timer_created t"
  by (simp_all add: timer_created_def tx_timer_change_def tx_timer_change_context_def tx_timer_activate_def)

text \<open>A created timer can be changed exactly when it does not run, so stopping it first is enough.\<close>

lemma timer_change_iff:
  "timer_created t \<Longrightarrow> fst (tx_timer_change i r t) = TX_SUCCESS \<longleftrightarrow> \<not> tx_timer_running t"
  "timer_created t \<Longrightarrow> fst (tx_timer_change_context c t) = TX_SUCCESS \<longleftrightarrow> \<not> tx_timer_running t"
  by (simp_all add: timer_created_def tx_timer_change_def tx_timer_change_context_def tx_timer_running_def)

lemma timer_change_after_deactivate:
  "timer_created t \<Longrightarrow> fst (tx_timer_change i r (tx_timer_deactivate t)) = TX_SUCCESS"
  by (simp add: timer_change_iff)

lemma timer_change_stopped [simp]:
  "tx_timer_running (snd (tx_timer_change i r t)) = tx_timer_running t"
  "tx_timer_running (snd (tx_timer_change_context c t)) = tx_timer_running t"
  by (simp_all add: tx_timer_running_def tx_timer_change_def tx_timer_change_context_def)

text \<open>
  A timer that is created as periodic fires a second time and then stays stopped, unless its callback
  sets it up again.
\<close>

lemma timer_reschedules_once:
  assumes "\<And>x t. tt_resched (cb x t) = tt_resched t" "\<And>x t. tt_running (cb x t) = tt_running t"
  shows "\<not> tt_running (tx_main_timer_func cb ok2 (tx_main_timer_func cb ok1 t))"
proof -
  have "tt_resched (tx_main_timer_func cb ok1 t) = 0"
    using assms by (simp add: tx_main_timer_func_def Let_def)
  then show ?thesis using assms by (simp add: tx_main_timer_func_def [of cb ok2] Let_def)
qed

end
