(* ===== verification/Lim_Types.thy ===== *)
theory Lim_Types
  imports Tx_Timer
begin

text \<open>
  Enumerations of the MAC layer that several components share: the roles and states of
  \<open>core/mac/src/pe/include/lim_global.h\<close> and the authentication types of \<open>core/mac/inc/ani_system_defs.h\<close>.
\<close>

datatype lim_role = eLIM_UNKNOWN_ROLE | eLIM_AP_ROLE | eLIM_STA_IN_IBSS_ROLE | eLIM_STA_ROLE
  | eLIM_P2P_DEVICE_ROLE | eLIM_P2P_DEVICE_GO | eLIM_P2P_DEVICE_CLIENT | eLIM_NDI_ROLE

definition eLIM_MLM_IDLE_STATE :: nat where
  "eLIM_MLM_IDLE_STATE = 1"

definition eLIM_SME_IDLE_STATE :: nat where
  "eLIM_SME_IDLE_STATE = 1"

definition eSIR_OPEN_SYSTEM :: nat where
  "eSIR_OPEN_SYSTEM = 0"

definition eLIM_MLM_WT_AUTH_FRAME3_STATE :: nat where
  "eLIM_MLM_WT_AUTH_FRAME3_STATE = 8"

definition eLIM_MLM_AUTH_RSP_TIMEOUT_STATE :: nat where
  "eLIM_MLM_AUTH_RSP_TIMEOUT_STATE = 10"

definition eLIM_MLM_AUTHENTICATED_STATE :: nat where
  "eLIM_MLM_AUTHENTICATED_STATE = 11"

definition eSIR_SHARED_KEY :: nat where
  "eSIR_SHARED_KEY = 1"

end
