(* ===== verification/Pe_Session.thy ===== *)
theory Pe_Session
  imports Dph Lim_Types
begin

text \<open>
  The session table of the protocol engine: \<open>core/mac/src/pe/lim/lim_session.c\<close>, the queries
  of \<open>lim_session_utils.c\<close> and the parts of \<open>lim_ft.c\<close> and \<open>lim_utils.c\<close> they call. A session
  is a slot of the array \<open>gpSession\<close>; a pointer to a session is the number of its slot.

  Blocks obtained from \<open>qdf_mem_malloc\<close> are numbers; the results of the calls are an argument
  of the model and the blocks given to \<open>qdf_mem_free\<close> are recorded in order in \<open>freed\<close>. Calls on
  timers of the host platform are recorded in \<open>tm_log\<close>. The outer \<open>None\<close> of a result stands
  for an access outside an array, through a null or dangling pointer, or a loop that does not
  return.
\<close>

section \<open>State\<close>

datatype bss_type = eSIR_INFRASTRUCTURE_MODE | eSIR_INFRA_AP_MODE | eSIR_IBSS_MODE
  | eSIR_AUTO_MODE | eSIR_MONITOR_MODE | eSIR_NDI_MODE

datatype chansw_state = eLIM_11H_CHANSW_INIT | eLIM_11H_CHANSW_RUNNING | eLIM_11H_CHANSW_END

text \<open>The session's pointer members that own a heap block, by name.\<close>

datatype pe_buf = PLimStartBssReq | PLimJoinReq | PLimReAssocReq | PLimMlmJoinReq
  | PHashTable | PDphNodeArray | GpLimPeerIdxpool | Beacon | AssocReq | AssocRsp
  | LimAssocResponseData | PLimMlmReassocRetryReq | PLimMlmReassocReq
  | PSchProbeRspTemplate | PSchBeaconFrameBegin | PSchBeaconFrameEnd
  | ProbeRespData_buff | AssocRespData_buff | ProbeRespBCNData_buff | Access_policy_vendor_ie

datatype prot_kind = Prot11b | Prot11a | Prot11g | ProtNonGf | ProtHt20 | ProtLsigTxop | ProtOlbc

datatype overlap_kind = Overlap11g | Overlap11a | OverlapHt20 | OverlapNonGf

record prot_params =
  pp_numSta :: u8
  pp_protectionEnabled :: u8

record beacon_params =
  beaconInterval :: u16
  fShortPreamble :: u8
  llaCoexist :: u8
  llbCoexist :: u8
  llgCoexist :: u8
  ht20Coexist :: u8
  llnNonGFCoexist :: u8
  fRIFSMode :: u8
  fLsigTXOPProtectionFullSupport :: u8
  gHTObssMode :: u8

text \<open>\<open>pFTPreAuthReq\<close> points to a block that may own another one (\<open>pbssDescription\<close>).\<close>

record ft_context =
  pFTPreAuthReq :: "(nat \<times> nat option) option"
  pAddBssReq :: "nat option"
  pAddStaReq :: "nat option"

text \<open>
  An entry of \<open>parsedAssocReq\<close> is a block with the block of its \<open>assocReqFrame\<close>; the member
  itself is the block of the array with its entries.
\<close>

record pe_session =
  s_valid :: bool
  peSessionId :: u16
  smeSessionId :: u8
  bssIdx :: u8
  bssId :: mac_addr
  selfMacAddr :: mac_addr
  limSystemRole :: lim_role
  currentOperChannel :: u8
  dot11hChanSwState :: chansw_state
  limMlmState :: nat
  limSmeState :: nat
  limCurrentAuthType :: nat
  beaconParams :: beacon_params
  protParams :: "prot_kind \<Rightarrow> prot_params"
  is11Rconnection :: bool
  isESEconnection :: bool
  isFastTransitionEnabled :: bool
  isFastRoamIniFeatureEnabled :: bool
  gLimPhyMode :: u32
  htSupportedChannelWidthSet :: u8
  htRecommendedTxWidthSet :: u8
  htSecondaryChannelOffset :: nat
  peerAIDBitmap :: "u32 list"
  tdls_prohibited :: bool
  tdls_chan_swit_prohibited :: bool
  fWaitForProbeRsp :: bool
  fIgnoreCapsChange :: bool
  dphHashTable :: dph_table
  gpLimPeerIdxpool :: "u8 list option"
  freePeerIdxHead :: u8
  freePeerIdxTail :: u8
  gLimNumOfCurrentSTAs :: u16
  bufs :: "pe_buf \<Rightarrow> nat option"
  buf_len :: "pe_buf \<Rightarrow> u32"
  parsedAssocReq :: "(nat \<times> (nat \<times> nat option) option list) option"
  ftPEContext :: ft_context
  old_protection_state :: u16
  pmf_running :: bool
  pmf_sessionID :: u8
  deauthmsgcnt :: u8
  disassocmsgcnt :: u8

definition eSIR_HT_OP_MODE_PURE :: nat where
  "eSIR_HT_OP_MODE_PURE = 0"

definition WNI_CFG_PHY_MODE_11G :: u32 where
  "WNI_CFG_PHY_MODE_11G = 2"

definition SCH_PROTECTION_RESET_TIME :: u32 where
  "SCH_PROTECTION_RESET_TIME = 4000"

datatype pe_timer_event =
    ProtTimerInit nat | ProtTimerStart nat u32 | ProtTimerStop nat | ProtTimerDestroy nat
  | PmfTimerInit nat | PmfTimerStop nat | PmfTimerDestroy nat

record mac_ctx =
  gpSession :: "pe_session list"
  maxBssId :: u16
  maxStation :: u16
  gLimAssocStaLimit :: u16
  gpLimCnfWaitTimer :: "tx_timer list"
  gLimOverlap :: "overlap_kind \<Rightarrow> prot_params"
  gHTOperMode :: nat
  freed :: "nat list"
  tm_log :: "pe_timer_event list"

text \<open>What \<open>qdf_mem_set\<close> with value 0 leaves in a session, and in its parts.\<close>

definition zero_prot :: prot_params where
  "zero_prot = \<lparr>pp_numSta = 0, pp_protectionEnabled = 0\<rparr>"

definition zero_beacon :: beacon_params where
  "zero_beacon = \<lparr>beaconInterval = 0, fShortPreamble = 0, llaCoexist = 0, llbCoexist = 0, llgCoexist = 0,
     ht20Coexist = 0, llnNonGFCoexist = 0, fRIFSMode = 0, fLsigTXOPProtectionFullSupport = 0,
     gHTObssMode = 0\<rparr>"

definition zero_ft :: ft_context where
  "zero_ft = \<lparr>pFTPreAuthReq = None, pAddBssReq = None, pAddStaReq = None\<rparr>"

definition zero_dph :: dph_table where
  "zero_dph = \<lparr>pHashTable = None, pDphNodeArray = [], dph_size = 0\<rparr>"

definition zero_session :: pe_session where
  "zero_session = \<lparr>s_valid = False, peSessionId = 0, smeSessionId = 0, bssIdx = 0,
     bssId = replicate 6 0, selfMacAddr = replicate 6 0, limSystemRole = eLIM_UNKNOWN_ROLE,
     currentOperChannel = 0, dot11hChanSwState = eLIM_11H_CHANSW_INIT, limMlmState = 0,
     limSmeState = 0, limCurrentAuthType = 0, beaconParams = zero_beacon,
     protParams = \<lambda>_. zero_prot, is11Rconnection = False, isESEconnection = False,
     isFastTransitionEnabled = False, isFastRoamIniFeatureEnabled = False, gLimPhyMode = 0,
     htSupportedChannelWidthSet = 0, htRecommendedTxWidthSet = 0, htSecondaryChannelOffset = 0,
     peerAIDBitmap = [0, 0], tdls_prohibited = False, tdls_chan_swit_prohibited = False,
     fWaitForProbeRsp = False, fIgnoreCapsChange = False, dphHashTable = zero_dph,
     gpLimPeerIdxpool = None, freePeerIdxHead = 0, freePeerIdxTail = 0, gLimNumOfCurrentSTAs = 0,
     bufs = \<lambda>_. None, buf_len = \<lambda>_. 0, parsedAssocReq = None, ftPEContext = zero_ft,
     old_protection_state = 0, pmf_running = False, pmf_sessionID = 0, deauthmsgcnt = 0,
     disassocmsgcnt = 0\<rparr>"

section \<open>Creating a session\<close>

definition pe_init_beacon_params :: "pe_session \<Rightarrow> pe_session" where
  "pe_init_beacon_params s =
     s\<lparr>beaconParams := \<lparr>beaconInterval = 0, fShortPreamble = 0, llaCoexist = 0, llbCoexist = 0,
         llgCoexist = 0, ht20Coexist = 0, llnNonGFCoexist = 0, fRIFSMode = 0,
         fLsigTXOPProtectionFullSupport = 0, gHTObssMode = 0\<rparr>,
       protParams := (protParams s)(Prot11b := zero_prot, Prot11a := zero_prot, Prot11g := zero_prot,
         ProtNonGf := zero_prot, ProtHt20 := zero_prot, ProtLsigTxop := zero_prot,
         ProtOlbc := zero_prot)\<rparr>"

definition lim_ft_open :: "pe_session \<Rightarrow> pe_session" where
  "lim_ft_open s = s\<lparr>ftPEContext := zero_ft\<rparr>"

text \<open>
  A scan of the session table with the eight-bit counter of the source. The test of a session
  may itself fail with an invalid access (\<open>None\<close>).
\<close>

definition pe_scan :: "(pe_session \<Rightarrow> bool option) \<Rightarrow> mac_ctx \<Rightarrow> nat option option" where
  "pe_scan tst m =
     (let ss = gpSession m in
      do {
        r \<leftarrow> scan_u8 (\<lambda>i. length ss \<le> i \<or> tst (ss ! i) \<noteq> Some False) (maxBssId m) 0;
        (case r of
           None \<Rightarrow> Some None
         | Some i \<Rightarrow> if i < length ss \<and> tst (ss ! i) = Some True then Some (Some i) else None)
      })"

text \<open>
  What a call of \<open>pe_create_session\<close> gets from the platform: the results of its calls of
  \<open>qdf_mem_malloc\<close> in order, the contents of fresh memory, and the outcome of
  \<open>qdf_mc_timer_init\<close>.
\<close>

record pe_env =
  env_malloc :: "nat \<Rightarrow> nat option"
  env_node :: dph_node
  env_slot :: "nat option"
  env_byte :: u8
  env_timer_ok :: bool

definition mem_free :: "nat option list \<Rightarrow> mac_ctx \<Rightarrow> mac_ctx" where
  "mem_free ps m = m\<lparr>freed := freed m @ List.map_filter id ps\<rparr>"

definition put_session :: "nat \<Rightarrow> pe_session \<Rightarrow> mac_ctx \<Rightarrow> mac_ctx" where
  "put_session i s m = m\<lparr>gpSession := (gpSession m)[i := s]\<rparr>"

definition tm_emit :: "pe_timer_event list \<Rightarrow> mac_ctx \<Rightarrow> mac_ctx" where
  "tm_emit es m = m\<lparr>tm_log := tm_log m @ es\<rparr>"

text \<open>The members that \<open>pe_create_session\<close> sets once the tables are allocated.\<close>

definition pe_session_defaults :: "nat \<Rightarrow> mac_addr \<Rightarrow> bss_type \<Rightarrow> pe_session \<Rightarrow> pe_session" where
  "pe_session_defaults i bssid bssType s =
     (let s1 = s\<lparr>freePeerIdxHead := 0, freePeerIdxTail := 0, gLimNumOfCurrentSTAs := 0,
                bssId := take 6 bssid,
                selfMacAddr := (if bssType = eSIR_MONITOR_MODE then take 6 bssid else selfMacAddr s),
                s_valid := True, limMlmState := eLIM_MLM_IDLE_STATE,
                limSmeState := eLIM_SME_IDLE_STATE, limCurrentAuthType := eSIR_OPEN_SYSTEM\<rparr> in
      (pe_init_beacon_params s1)\<lparr>is11Rconnection := False, isESEconnection := False,
         isFastTransitionEnabled := False, isFastRoamIniFeatureEnabled := False,
         gLimPhyMode := WNI_CFG_PHY_MODE_11G, htSupportedChannelWidthSet := 0,
         htRecommendedTxWidthSet := 0, htSecondaryChannelOffset := 0,
         peerAIDBitmap := map (\<lambda>_. 0) (peerAIDBitmap s1), tdls_prohibited := False,
         tdls_chan_swit_prohibited := False, fWaitForProbeRsp := False,
         fIgnoreCapsChange := False\<rparr>)"

text \<open>The timers set up at the end of \<open>pe_create_session\<close>.\<close>

definition pe_session_timers :: "pe_env \<Rightarrow> nat \<Rightarrow> bss_type \<Rightarrow> pe_session \<Rightarrow> mac_ctx \<Rightarrow> mac_ctx" where
  "pe_session_timers e i bssType s m =
     (let s1 = (if bssType = eSIR_INFRASTRUCTURE_MODE then lim_ft_open s else s);
          s2 = (if bssType = eSIR_MONITOR_MODE then lim_ft_open s1 else s1);
          s3 = (if bssType = eSIR_INFRA_AP_MODE then s2\<lparr>old_protection_state := 0\<rparr> else s2);
          m1 = (if bssType = eSIR_INFRA_AP_MODE
                then tm_emit (ProtTimerInit i #
                       (if env_timer_ok e then [ProtTimerStart i SCH_PROTECTION_RESET_TIME] else [])) m
                else m);
          s4 = s3\<lparr>pmf_sessionID := of_nat i, deauthmsgcnt := 0, disassocmsgcnt := 0\<rparr>
      in put_session i s4 (tm_emit [PmfTimerInit i] m1))"

text \<open>The members that \<open>pe_create_session\<close> resets when a template cannot be allocated.\<close>

definition pe_drop_tables :: "pe_session \<Rightarrow> pe_session" where
  "pe_drop_tables s =
     s\<lparr>dphHashTable := (dphHashTable s)\<lparr>pHashTable := None, pDphNodeArray := []\<rparr>,
       gpLimPeerIdxpool := None,
       bufs := (bufs s)(PHashTable := None, PDphNodeArray := None, GpLimPeerIdxpool := None,
         PSchProbeRspTemplate := None, PSchBeaconFrameBegin := None, PSchBeaconFrameEnd := None)\<rparr>"

definition pe_create_session ::
  "pe_env \<Rightarrow> mac_addr \<Rightarrow> u16 \<Rightarrow> bss_type \<Rightarrow> mac_ctx \<Rightarrow> (mac_ctx \<times> nat option) option" where
  "pe_create_session e bssid numSta bssType m =
     (let n = unat numSta + 1; malloc = env_malloc e in
      do {
        r \<leftarrow> pe_scan (\<lambda>s. Some (\<not> s_valid s)) m;
        (case r of
           None \<Rightarrow> Some (m, None)
         | Some i \<Rightarrow>
           (case malloc 0 of
              None \<Rightarrow> Some (put_session i zero_session m, None)
            | Some hb \<Rightarrow>
           (case malloc 1 of
              None \<Rightarrow> Some (mem_free [Some hb] (put_session i zero_session m), None)
            | Some nb \<Rightarrow>
              do {
                t \<leftarrow> dph_hash_table_class_init
                       \<lparr>pHashTable = Some (replicate n (env_slot e)),
                        pDphNodeArray = replicate n (env_node e), dph_size = numSta + 1\<rparr>;
                (case malloc 2 of
                   None \<Rightarrow>
                     Some (mem_free [Some hb, Some nb]
                       (put_session i (zero_session\<lparr>dphHashTable := t\<lparr>pHashTable := None,
                          pDphNodeArray := []\<rparr>\<rparr>) m), None)
                 | Some pb \<Rightarrow>
                     let s = pe_session_defaults i bssid bssType
                           (zero_session\<lparr>dphHashTable := t,
                              gpLimPeerIdxpool := Some (replicate n (env_byte e)),
                              bufs := (\<lambda>_. None)(PHashTable := Some hb, PDphNodeArray := Some nb,
                                GpLimPeerIdxpool := Some pb)\<rparr>) in
                     if bssType = eSIR_INFRA_AP_MODE \<or> bssType = eSIR_IBSS_MODE
                     then if malloc 3 = None \<or> malloc 4 = None \<or> malloc 5 = None
                          then Some (mem_free [Some hb, Some nb, Some pb, malloc 3, malloc 4, malloc 5]
                                 (put_session i (pe_drop_tables s) m), None)
                          else Some (pe_session_timers e i bssType
                                 (s\<lparr>bufs := (bufs s)(PSchProbeRspTemplate := malloc 3,
                                     PSchBeaconFrameBegin := malloc 4,
                                     PSchBeaconFrameEnd := malloc 5)\<rparr>) m, Some i)
                     else Some (pe_session_timers e i bssType s m, Some i))
              })))
      })"

section \<open>Finding a session\<close>

definition sir_compare_mac_addr :: "mac_addr \<Rightarrow> mac_addr \<Rightarrow> bool" where
  "sir_compare_mac_addr addr1 addr2 \<longleftrightarrow>
     addr1 ! 5 = addr2 ! 5 \<and> addr1 ! 4 = addr2 ! 4 \<and> addr1 ! 3 = addr2 ! 3 \<and>
     addr1 ! 2 = addr2 ! 2 \<and> addr1 ! 1 = addr2 ! 1 \<and> addr1 ! 0 = addr2 ! 0"

definition pe_find_session_by_bssid :: "mac_addr \<Rightarrow> mac_ctx \<Rightarrow> nat option option" where
  "pe_find_session_by_bssid bssid m =
     pe_scan (\<lambda>s. Some (s_valid s \<and> sir_compare_mac_addr (bssId s) bssid)) m"

definition pe_find_session_by_bss_idx :: "u8 \<Rightarrow> mac_ctx \<Rightarrow> nat option option" where
  "pe_find_session_by_bss_idx idx m = pe_scan (\<lambda>s. Some (s_valid s \<and> bssIdx s = idx)) m"

definition pe_find_session_by_session_id :: "u8 \<Rightarrow> mac_ctx \<Rightarrow> nat option option" where
  "pe_find_session_by_session_id sessionId m =
     (if maxBssId m \<le> ucast sessionId then Some None
      else if unat sessionId < length (gpSession m)
      then Some (if s_valid (gpSession m ! unat sessionId) then Some (unat sessionId) else None)
      else None)"

definition pe_find_session_by_sta_id :: "u8 \<Rightarrow> mac_ctx \<Rightarrow> nat option option" where
  "pe_find_session_by_sta_id staid m =
     pe_scan (\<lambda>s. if \<not> s_valid s then Some False
       else let t = dphHashTable s; ns = pDphNodeArray t in
         do {
           r \<leftarrow> scan_u8 (\<lambda>j. length ns \<le> j \<or>
                  (dn_valid (ns ! j) \<and> dn_added (ns ! j) \<and> ucast staid = dn_staIndex (ns ! j)))
                (dph_size t) 0;
           (case r of None \<Rightarrow> Some False | Some j \<Rightarrow> if j < length ns then Some True else None)
         }) m"

definition pe_find_session_by_peer_sta :: "mac_addr \<Rightarrow> mac_ctx \<Rightarrow> nat option option" where
  "pe_find_session_by_peer_sta sa m =
     pe_scan (\<lambda>s. if \<not> s_valid s then Some False
       else map_option (\<lambda>r. r \<noteq> None) (dph_lookup_hash_entry sa (dphHashTable s))) m"

definition pe_find_session_by_sme_session_id :: "u8 \<Rightarrow> mac_ctx \<Rightarrow> nat option option" where
  "pe_find_session_by_sme_session_id sme_session_id m =
     pe_scan (\<lambda>s. Some (s_valid s \<and> smeSessionId s = sme_session_id)) m"

text \<open>
  Loops that run over the whole table; \<open>table_loop\<close> collects the sessions they visit and is
  \<open>None\<close> when the counter wraps before it reaches the bound.
\<close>

definition table_loop :: "mac_ctx \<Rightarrow> pe_session list option" where
  "table_loop m =
     (if 255 < maxBssId m \<or> length (gpSession m) < unat (maxBssId m) then None
      else Some (take (unat (maxBssId m)) (gpSession m)))"

definition pe_get_active_session_count :: "mac_ctx \<Rightarrow> u8 option" where
  "pe_get_active_session_count m =
     do { ss \<leftarrow> table_loop m; Some (foldl (\<lambda>c s. if s_valid s then c + 1 else c) 0 ss) }"

definition pe_get_current_stas_count :: "mac_ctx \<Rightarrow> u8 option" where
  "pe_get_current_stas_count m =
     do { ss \<leftarrow> table_loop m;
          Some (foldl (\<lambda>c s. if s_valid s then ucast (ucast c + gLimNumOfCurrentSTAs s) else c) 0 ss) }"

definition is_lim_session_off_channel :: "u8 \<Rightarrow> mac_ctx \<Rightarrow> bool option" where
  "is_lim_session_off_channel session_id m =
     (let ss = gpSession m in
      if maxBssId m \<le> ucast session_id then Some False
      else if length ss \<le> unat session_id then None
      else do {
        r \<leftarrow> scan_u8 (\<lambda>i. length ss \<le> i \<or>
               (i \<noteq> unat session_id \<and> s_valid (ss ! i) \<and>
                currentOperChannel (ss ! i) \<noteq> currentOperChannel (ss ! unat session_id)))
             (maxBssId m) 0;
        (case r of None \<Rightarrow> Some False | Some i \<Rightarrow> if i < length ss then Some True else None)
      })"

definition lim_is_chan_switch_running :: "mac_ctx \<Rightarrow> bool option" where
  "lim_is_chan_switch_running m =
     map_option (\<lambda>r. r \<noteq> None)
       (pe_scan (\<lambda>s. Some (s_valid s \<and> dot11hChanSwState s = eLIM_11H_CHANSW_RUNNING)) m)"

partial_function (option) mcc_loop :: "pe_session list \<Rightarrow> u16 \<Rightarrow> u8 \<Rightarrow> u8 \<Rightarrow> bool option" where
  "mcc_loop ss bound chan i =
     (if ucast i < bound
      then if unat i < length ss
           then if s_valid (ss ! unat i)
                then if chan = 0 then mcc_loop ss bound (currentOperChannel (ss ! unat i)) (i + 1)
                     else if chan \<noteq> currentOperChannel (ss ! unat i) then Some True
                     else mcc_loop ss bound chan (i + 1)
                else mcc_loop ss bound chan (i + 1)
           else None
      else Some False)"

definition lim_is_in_mcc :: "mac_ctx \<Rightarrow> bool option" where
  "lim_is_in_mcc m = mcc_loop (gpSession m) (maxBssId m) 0 0"

section \<open>Deleting a session\<close>

text \<open>The loop of \<open>pe_delete_session\<close> over the confirmation timers.\<close>

definition pe_stop_cnf_timers :: "u16 \<Rightarrow> mac_ctx \<Rightarrow> mac_ctx option" where
  "pe_stop_cnf_timers sid m =
     (let n = unat (maxStation m) + 1; ts = gpLimCnfWaitTimer m in
      if n = 65536 \<or> length ts < n then None
      else Some (m\<lparr>gpLimCnfWaitTimer :=
        map (\<lambda>t. if sid = ucast (tt_sessionId t) \<and> tx_timer_running t then tx_timer_deactivate t else t)
          (take n ts) @ drop n ts\<rparr>))"

text \<open>
  The freeing steps work on a session together with the list of the blocks freed so far.
\<close>

type_synonym freeing = "pe_session \<times> nat list"

definition lim_ft_cleanup :: "freeing \<Rightarrow> freeing" where
  "lim_ft_cleanup sf =
     (let s = fst sf; c = ftPEContext s in
      if limSystemRole s \<noteq> eLIM_STA_ROLE then sf
      else
        (s\<lparr>ftPEContext := zero_ft\<rparr>,
         snd sf @ (case pFTPreAuthReq c of None \<Rightarrow> [] | Some (b, d) \<Rightarrow> List.map_filter id [d, Some b])
                @ List.map_filter id [pAddBssReq c, pAddStaReq c]))"

text \<open>\<open>if (session->f != NULL) { qdf_mem_free(session->f); session->f = NULL; }\<close>, with the length.\<close>

definition has_len :: "pe_buf \<Rightarrow> bool" where
  "has_len f \<longleftrightarrow> f \<in> {Beacon, AssocReq, AssocRsp, ProbeRespData_buff, AssocRespData_buff, ProbeRespBCNData_buff}"

definition free_field :: "pe_buf \<Rightarrow> freeing \<Rightarrow> freeing" where
  "free_field f sf =
     (case bufs (fst sf) f of
        None \<Rightarrow> sf
      | Some b \<Rightarrow>
          let s = fst sf;
              s1 = s\<lparr>bufs := (bufs s)(f := None),
                    buf_len := (if has_len f then (buf_len s)(f := 0) else buf_len s)\<rparr>;
              s2 = (case f of
                      PHashTable \<Rightarrow> s1\<lparr>dphHashTable := (dphHashTable s)\<lparr>pHashTable := None\<rparr>\<rparr>
                    | PDphNodeArray \<Rightarrow> s1\<lparr>dphHashTable := (dphHashTable s)\<lparr>pDphNodeArray := []\<rparr>\<rparr>
                    | GpLimPeerIdxpool \<Rightarrow> s1\<lparr>gpLimPeerIdxpool := None\<rparr>
                    | _ \<Rightarrow> s1)
          in (s2, snd sf @ [b]))"

fun free_fields :: "pe_buf list \<Rightarrow> freeing \<Rightarrow> freeing" where
  "free_fields [] sf = sf"
| "free_fields (f # fs) sf = free_fields fs (free_field f sf)"

text \<open>The loop over the parsed association requests, then the array itself.\<close>

definition parsed_blocks :: "(nat \<times> nat option) option list \<Rightarrow> nat list" where
  "parsed_blocks es =
     concat (map (\<lambda>e. case e of None \<Rightarrow> [] | Some (b, fr) \<Rightarrow> List.map_filter id [fr, Some b]) es)"

definition free_parsed :: "freeing \<Rightarrow> freeing option" where
  "free_parsed sf =
     (let s = fst sf; n = unat (dph_size (dphHashTable s)) in
      case parsedAssocReq s of
        None \<Rightarrow> Some sf
      | Some (arr, es) \<Rightarrow>
          if length es < n then None
          else Some (s\<lparr>parsedAssocReq := None\<rparr>, snd sf @ parsed_blocks (take n es) @ [arr]))"

definition lim_check_and_reset_protection_params :: "mac_ctx \<Rightarrow> mac_ctx option" where
  "lim_check_and_reset_protection_params m =
     do { c \<leftarrow> pe_get_active_session_count m;
          Some (if c = 0
                then m\<lparr>gLimOverlap := (gLimOverlap m)(Overlap11g := zero_prot, Overlap11a := zero_prot,
                         OverlapHt20 := zero_prot, OverlapNonGf := zero_prot),
                       gHTOperMode := eSIR_HT_OP_MODE_PURE\<rparr>
                else m) }"

definition early_bufs :: "pe_buf list" where
  "early_bufs = [PLimStartBssReq, PLimJoinReq, PLimReAssocReq, PLimMlmJoinReq, PHashTable,
     PDphNodeArray, GpLimPeerIdxpool, Beacon, AssocReq, AssocRsp]"

definition late_bufs :: "pe_buf list" where
  "late_bufs = [LimAssocResponseData, PLimMlmReassocRetryReq, PLimMlmReassocReq,
     PSchProbeRspTemplate, PSchBeaconFrameBegin, PSchBeaconFrameEnd, ProbeRespData_buff,
     AssocRespData_buff, ProbeRespBCNData_buff]"

text \<open>All the freeing of \<open>pe_delete_session\<close>, in the order of the source.\<close>

definition pe_release :: "freeing \<Rightarrow> freeing option" where
  "pe_release sf =
     do {
       sf1 \<leftarrow> free_parsed (free_fields early_bufs (lim_ft_cleanup sf));
       let (s2, fr2) = free_fields late_bufs sf1;
       Some (free_fields [Access_policy_vendor_ie] (s2\<lparr>s_valid := False\<rparr>, fr2))
     }"

definition pe_delete_session :: "nat option \<Rightarrow> mac_ctx \<Rightarrow> mac_ctx option" where
  "pe_delete_session session m =
     (case session of
        None \<Rightarrow> Some m
      | Some i \<Rightarrow>
          if length (gpSession m) \<le> i then None
          else let s = gpSession m ! i in
            if \<not> s_valid s then Some m
            else do {
              m1 \<leftarrow> pe_stop_cnf_timers (peSessionId s) m;
              let m2 = (if limSystemRole s = eLIM_AP_ROLE
                        then tm_emit [ProtTimerStop i, ProtTimerDestroy i] m1 else m1);
              (s3, fr) \<leftarrow> pe_release (s, freed m2);
              let m3 = tm_emit ((if pmf_running s then [PmfTimerStop i] else []) @ [PmfTimerDestroy i]) m2;
              let m4 = put_session i (s3\<lparr>pmf_running := False\<rparr>) (m3\<lparr>freed := fr\<rparr>);
              m5 \<leftarrow> (if limSystemRole s = eLIM_AP_ROLE
                     then lim_check_and_reset_protection_params m4 else Some m4);
              Some (put_session i ((gpSession m5 ! i)\<lparr>deauthmsgcnt := 0, disassocmsgcnt := 0\<rparr>) m5)
            })"

section \<open>The table invariant\<close>

text \<open>
  The array has \<open>maxBssId\<close> slots (\<open>pe_open\<close> allocates it so) and the counters of the scans can
  reach the bound.
\<close>

definition mac_ok :: "mac_ctx \<Rightarrow> bool" where
  "mac_ok m \<longleftrightarrow> length (gpSession m) = unat (maxBssId m) \<and> unat (maxBssId m) \<le> 255"

lemma pe_scan_find:
  assumes "mac_ok m" "\<And>s. s \<in> set (gpSession m) \<Longrightarrow> tst s \<noteq> None"
  shows "pe_scan tst m = Some (find (\<lambda>i. tst (gpSession m ! i) = Some True) [0..<length (gpSession m)])"
proof -
  let ?ss = "gpSession m"
  have b: "unat (maxBssId m) \<le> 255" "unat (maxBssId m) = length ?ss"
    using assms(1) by (auto simp: mac_ok_def)
  have def: "tst (?ss ! i) \<noteq> Some False \<longleftrightarrow> tst (?ss ! i) = Some True" if "i < length ?ss" for i
    using assms(2) [OF nth_mem [OF that]] by auto
  have "find (\<lambda>i. length ?ss \<le> i \<or> tst (?ss ! i) \<noteq> Some False) [0..<length ?ss] =
      find (\<lambda>i. tst (?ss ! i) = Some True) [0..<length ?ss]"
    using def by (intro find_cong) auto
  then have eq: "pe_scan tst m = (case find (\<lambda>i. tst (?ss ! i) = Some True) [0..<length ?ss] of
       None \<Rightarrow> Some None
     | Some i \<Rightarrow> if i < length ?ss \<and> tst (?ss ! i) = Some True then Some (Some i) else None)"
    by (simp add: pe_scan_def Let_def scan_u8_find [OF b(1)] b(2))
  show ?thesis
  proof (cases "find (\<lambda>i. tst (?ss ! i) = Some True) [0..<length ?ss]")
    case (Some i)
    then have "i < length ?ss" "tst (?ss ! i) = Some True" by (auto simp: find_upt_Some_iff)
    with Some show ?thesis by (simp add: eq)
  qed (simp add: eq)
qed

lemma pe_scan_total_test:
  assumes "mac_ok m"
  shows "pe_scan (\<lambda>s. Some (P s)) m = Some (find (\<lambda>i. P (gpSession m ! i)) [0..<length (gpSession m)])"
  using pe_scan_find [OF assms, of "\<lambda>s. Some (P s)"] by simp

lemma put_session_fields [simp]:
  "gpSession (put_session i s m) = (gpSession m)[i := s]" "maxBssId (put_session i s m) = maxBssId m"
  "freed (put_session i s m) = freed m" "tm_log (put_session i s m) = tm_log m"
  "gpLimCnfWaitTimer (put_session i s m) = gpLimCnfWaitTimer m"
  "maxStation (put_session i s m) = maxStation m" "gLimAssocStaLimit (put_session i s m) = gLimAssocStaLimit m"
  by (simp_all add: put_session_def)

lemma tm_emit_fields [simp]:
  "gpSession (tm_emit es m) = gpSession m" "maxBssId (tm_emit es m) = maxBssId m"
  "freed (tm_emit es m) = freed m" "maxStation (tm_emit es m) = maxStation m"
  "gLimAssocStaLimit (tm_emit es m) = gLimAssocStaLimit m"
  by (simp_all add: tm_emit_def)

lemma mem_free_fields [simp]:
  "gpSession (mem_free ps m) = gpSession m" "maxBssId (mem_free ps m) = maxBssId m"
  "gpLimCnfWaitTimer (mem_free ps m) = gpLimCnfWaitTimer m"
  "freed (mem_free ps m) = freed m @ List.map_filter id ps" "maxStation (mem_free ps m) = maxStation m"
  by (simp_all add: mem_free_def)

lemma sir_compare_mac_addr_eq:
  "is_mac a \<Longrightarrow> is_mac b \<Longrightarrow> sir_compare_mac_addr a b \<longleftrightarrow> a = b"
  using dph_compare_mac_addr_eq [of a b] by (auto simp: sir_compare_mac_addr_def dph_compare_mac_addr_def)

section \<open>What a created session looks like\<close>

lemma dph_init_session:
  assumes "unat numSta < 255"
  shows "\<exists>t. dph_hash_table_class_init \<lparr>pHashTable = Some (replicate (unat numSta + 1) x),
      pDphNodeArray = replicate (unat numSta + 1) y, dph_size = numSta + 1\<rparr> = Some t \<and>
    dph_wf t \<and> dph_abs t = Map.empty \<and> dph_size t = numSta + 1"
proof -
  have "numSta + 1 = of_nat (unat numSta + 1)" by simp
  with dph_init_fresh [of "unat numSta + 1" "replicate (unat numSta + 1) x" "replicate (unat numSta + 1) y"] assms
  show ?thesis by (simp add: add.commute)
qed

lemma pe_session_defaults_fields [simp]:
  "s_valid (pe_session_defaults i b ty s)" "bssId (pe_session_defaults i b ty s) = take 6 b"
  "dphHashTable (pe_session_defaults i b ty s) = dphHashTable s"
  "bufs (pe_session_defaults i b ty s) = bufs s"
  "parsedAssocReq (pe_session_defaults i b ty s) = parsedAssocReq s"
  "ftPEContext (pe_session_defaults i b ty s) = ftPEContext s"
  "gpLimPeerIdxpool (pe_session_defaults i b ty s) = gpLimPeerIdxpool s"
  "gLimNumOfCurrentSTAs (pe_session_defaults i b ty s) = 0"
  "limSystemRole (pe_session_defaults i b ty s) = limSystemRole s"
  "freePeerIdxHead (pe_session_defaults i b ty s) = 0"
  by (simp_all add: pe_session_defaults_def Let_def pe_init_beacon_params_def)

lemma pe_session_timers_fields [simp]:
  "freed (pe_session_timers e i ty s m) = freed m" "maxBssId (pe_session_timers e i ty s m) = maxBssId m"
  "maxStation (pe_session_timers e i ty s m) = maxStation m"
  "gpLimCnfWaitTimer (pe_session_timers e i ty s m) = gpLimCnfWaitTimer m"
  by (simp_all add: pe_session_timers_def Let_def tm_emit_def put_session_def)

lemma pe_session_timers_session:
  "i < length (gpSession m) \<Longrightarrow> \<exists>s'. gpSession (pe_session_timers e i ty s m) = (gpSession m)[i := s'] \<and>
     s_valid s' = s_valid s \<and> bssId s' = bssId s \<and> dphHashTable s' = dphHashTable s \<and> bufs s' = bufs s \<and>
     parsedAssocReq s' = parsedAssocReq s \<and> limSystemRole s' = limSystemRole s \<and>
     (ftPEContext s = zero_ft \<longrightarrow> ftPEContext s' = zero_ft) \<and> gpLimPeerIdxpool s' = gpLimPeerIdxpool s"
  by (auto simp: pe_session_timers_def Let_def lim_ft_open_def)

text \<open>The blocks a session owns, member by member.\<close>

definition ft_blocks :: "ft_context \<Rightarrow> nat list" where
  "ft_blocks c = (case pFTPreAuthReq c of None \<Rightarrow> [] | Some (b, d) \<Rightarrow> List.map_filter id [d, Some b])
     @ List.map_filter id [pAddBssReq c, pAddStaReq c]"

definition all_bufs :: "pe_buf list" where
  "all_bufs = early_bufs @ late_bufs @ [Access_policy_vendor_ie]"

definition session_blocks :: "pe_session \<Rightarrow> nat list" where
  "session_blocks s = ft_blocks (ftPEContext s) @ List.map_filter (bufs s) all_bufs
     @ (case parsedAssocReq s of None \<Rightarrow> [] | Some (arr, es) \<Rightarrow> parsed_blocks es @ [arr])"

text \<open>No pointer member is left: what a deleted session must look like.\<close>

definition session_empty :: "pe_session \<Rightarrow> bool" where
  "session_empty s \<longleftrightarrow> ftPEContext s = zero_ft \<and> bufs s = (\<lambda>_. None) \<and> parsedAssocReq s = None"

lemma all_bufs_complete: "f \<in> set all_bufs"
  by (cases f) (simp_all add: all_bufs_def early_bufs_def late_bufs_def)

lemma free_field_fields:
  "bufs (fst (free_field f sf)) = (bufs (fst sf))(f := None)"
  "ftPEContext (fst (free_field f sf)) = ftPEContext (fst sf)"
  "parsedAssocReq (fst (free_field f sf)) = parsedAssocReq (fst sf)"
  "dph_size (dphHashTable (fst (free_field f sf))) = dph_size (dphHashTable (fst sf))"
  "s_valid (fst (free_field f sf)) = s_valid (fst sf)"
  "limSystemRole (fst (free_field f sf)) = limSystemRole (fst sf)"
  "snd (free_field f sf) = snd sf @ List.map_filter id [bufs (fst sf) f]"
  by (cases f; auto simp: free_field_def Let_def map_filter_def split: option.split)+

lemma free_fields_fields:
  "ftPEContext (fst (free_fields fs sf)) = ftPEContext (fst sf)"
  "parsedAssocReq (fst (free_fields fs sf)) = parsedAssocReq (fst sf)"
  "dph_size (dphHashTable (fst (free_fields fs sf))) = dph_size (dphHashTable (fst sf))"
  "s_valid (fst (free_fields fs sf)) = s_valid (fst sf)"
  "limSystemRole (fst (free_fields fs sf)) = limSystemRole (fst sf)"
  by (induction fs arbitrary: sf) (simp_all add: free_field_fields)

lemma free_fields_bufs:
  "bufs (fst (free_fields fs sf)) = (\<lambda>f. if f \<in> set fs then None else bufs (fst sf) f)"
  by (induction fs arbitrary: sf) (auto simp: free_field_fields fun_eq_iff)

lemma free_fields_freed:
  "distinct fs \<Longrightarrow> snd (free_fields fs sf) = snd sf @ List.map_filter (bufs (fst sf)) fs"
proof (induction fs arbitrary: sf)
  case Nil
  then show ?case by (simp add: map_filter_def)
next
  case (Cons f fs)
  have "List.map_filter ((bufs (fst sf))(f := None)) fs = List.map_filter (bufs (fst sf)) fs"
    using Cons.prems by (intro map_filter_eqI) auto
  with Cons show ?case
    by (cases "bufs (fst sf) f") (simp_all add: free_field_fields map_filter_def)
qed

lemma lim_ft_cleanup_fields:
  "bufs (fst (lim_ft_cleanup sf)) = bufs (fst sf)"
  "parsedAssocReq (fst (lim_ft_cleanup sf)) = parsedAssocReq (fst sf)"
  "dphHashTable (fst (lim_ft_cleanup sf)) = dphHashTable (fst sf)"
  by (simp_all add: lim_ft_cleanup_def Let_def)

lemma lim_ft_cleanup_STA:
  assumes "limSystemRole (fst sf) = eLIM_STA_ROLE \<or> ftPEContext (fst sf) = zero_ft"
  shows "ftPEContext (fst (lim_ft_cleanup sf)) = zero_ft"
    "snd (lim_ft_cleanup sf) = snd sf @ ft_blocks (ftPEContext (fst sf))"
  using assms by (auto simp: lim_ft_cleanup_def Let_def ft_blocks_def zero_ft_def map_filter_def)

lemma bufs_distinct: "distinct early_bufs" "distinct late_bufs"
  by (simp_all add: early_bufs_def late_bufs_def)

lemma bufs_disjoint:
  "set early_bufs \<inter> set late_bufs = {}" "Access_policy_vendor_ie \<notin> set early_bufs"
  "Access_policy_vendor_ie \<notin> set late_bufs"
  by (simp_all add: early_bufs_def late_bufs_def)

text \<open>
  A session as the code maintains it: fast-transition data only on a station session, and a
  slot for every station in the array of parsed requests.
\<close>

definition session_ok :: "pe_session \<Rightarrow> bool" where
  "session_ok s \<longleftrightarrow> (limSystemRole s = eLIM_STA_ROLE \<or> ftPEContext s = zero_ft) \<and>
     (\<forall>arr es. parsedAssocReq s = Some (arr, es) \<longrightarrow> length es = unat (dph_size (dphHashTable s)))"

lemma pe_release_correct:
  assumes "session_ok s"
  shows "\<exists>s'. \<exists>fr'. pe_release (s, fr) = Some (s', fr') \<and> session_empty s' \<and> \<not> s_valid s' \<and>
    mset fr' = mset fr + mset (session_blocks s)"
proof -
  let ?a = "lim_ft_cleanup (s, fr)"
  let ?b = "free_fields early_bufs ?a"
  let ?p = "case parsedAssocReq s of None \<Rightarrow> [] | Some (arr, es) \<Rightarrow> parsed_blocks es @ [arr]"
  have a: "ftPEContext (fst ?a) = zero_ft" "snd ?a = fr @ ft_blocks (ftPEContext s)"
    using lim_ft_cleanup_STA [of "(s, fr)"] assms by (auto simp: session_ok_def)
  have b: "snd ?b = snd ?a @ List.map_filter (bufs s) early_bufs"
    by (simp add: free_fields_freed bufs_distinct lim_ft_cleanup_fields)
  have len: "parsedAssocReq s = Some (arr, es) \<Longrightarrow> length es = unat (dph_size (dphHashTable s))" for arr es
    using assms by (auto simp: session_ok_def)
  obtain c where c: "free_parsed ?b = Some c" "parsedAssocReq (fst c) = None" "snd c = snd ?b @ ?p"
    "bufs (fst c) = bufs (fst ?b)" "ftPEContext (fst c) = ftPEContext (fst ?b)"
    using len by (cases "parsedAssocReq s")
      (auto simp: free_parsed_def Let_def free_fields_fields lim_ft_cleanup_fields split: prod.split)
  let ?d = "free_fields late_bufs c"
  let ?e = "free_fields [Access_policy_vendor_ie] ((fst ?d)\<lparr>s_valid := False\<rparr>, snd ?d)"
  have e: "pe_release (s, fr) = Some ?e"
    using c(1) by (simp add: pe_release_def case_prod_unfold Let_def)
  have empty_e: "bufs (fst ?e) = (\<lambda>_. None)"
    using all_bufs_complete
    by (auto simp: fun_eq_iff free_fields_bufs free_field_fields c(4) all_bufs_def lim_ft_cleanup_fields)
  have none_e: "ftPEContext (fst ?e) = zero_ft" "parsedAssocReq (fst ?e) = None" "\<not> s_valid (fst ?e)"
    using a c by (simp_all add: free_fields_fields free_field_fields)
  have c_bufs: "bufs (fst c) f = bufs s f" if "f \<notin> set early_bufs" for f
    using that by (simp add: c(4) free_fields_bufs lim_ft_cleanup_fields)
  have "List.map_filter (bufs (fst c)) late_bufs = List.map_filter (bufs s) late_bufs"
    using c_bufs bufs_disjoint by (intro map_filter_eqI) blast
  then have "snd ?d = snd c @ List.map_filter (bufs s) late_bufs"
    by (simp add: free_fields_freed bufs_distinct)
  moreover have "bufs (fst ?d) Access_policy_vendor_ie = bufs s Access_policy_vendor_ie"
    using bufs_disjoint c_bufs by (simp add: free_fields_bufs)
  ultimately have freed_e: "snd ?e = fr @ ft_blocks (ftPEContext s) @ List.map_filter (bufs s) early_bufs @ ?p
      @ List.map_filter (bufs s) late_bufs @ List.map_filter id [bufs s Access_policy_vendor_ie]"
    by (simp add: free_field_fields c(3) b a)
  have all: "List.map_filter (bufs s) all_bufs = List.map_filter (bufs s) early_bufs
      @ List.map_filter (bufs s) late_bufs @ List.map_filter id [bufs s Access_policy_vendor_ie]"
    by (simp add: all_bufs_def map_filter_def)
  obtain s' fr' where se: "?e = (s', fr')" by (meson surj_pair)
  have "mset fr' = mset fr + mset (session_blocks s)"
    using freed_e unfolding se session_blocks_def all by simp
  then show ?thesis
    using e empty_e none_e unfolding se by (simp add: session_empty_def)
qed

lemma table_loop_ok: "mac_ok m \<Longrightarrow> table_loop m = Some (gpSession m)"
  by (simp add: table_loop_def mac_ok_def word_less_nat_alt)

lemma pe_delete_session_effect:
  assumes "mac_ok m" "i < length (gpSession m)" "s_valid (gpSession m ! i)" "session_ok (gpSession m ! i)"
    and "unat (maxStation m) < 65535" "unat (maxStation m) < length (gpLimCnfWaitTimer m)"
  shows "\<exists>m' s'. pe_delete_session (Some i) m = Some m' \<and> gpSession m' = (gpSession m)[i := s'] \<and>
    session_empty s' \<and> \<not> s_valid s' \<and> mset (freed m') = mset (freed m) + mset (session_blocks (gpSession m ! i)) \<and>
    maxBssId m' = maxBssId m"
proof -
  let ?s = "gpSession m ! i"
  obtain m1 where m1: "pe_stop_cnf_timers (peSessionId ?s) m = Some m1" "gpSession m1 = gpSession m"
    "freed m1 = freed m" "maxBssId m1 = maxBssId m"
    using assms(5,6) by (simp add: pe_stop_cnf_timers_def Let_def)
  define m2 where "m2 = (if limSystemRole ?s = eLIM_AP_ROLE
    then tm_emit [ProtTimerStop i, ProtTimerDestroy i] m1 else m1)"
  have m2: "gpSession m2 = gpSession m" "freed m2 = freed m" "maxBssId m2 = maxBssId m"
    using m1 by (simp_all add: m2_def)
  obtain s3 fr where rel: "pe_release (?s, freed m2) = Some (s3, fr)" "session_empty s3" "\<not> s_valid s3"
    "mset fr = mset (freed m) + mset (session_blocks ?s)"
    using pe_release_correct [OF assms(4), of "freed m2"] m2 by auto
  define m4 where "m4 = put_session i (s3\<lparr>pmf_running := False\<rparr>)
    ((tm_emit ((if pmf_running ?s then [PmfTimerStop i] else []) @ [PmfTimerDestroy i]) m2)\<lparr>freed := fr\<rparr>)"
  have m4: "gpSession m4 = (gpSession m)[i := s3\<lparr>pmf_running := False\<rparr>]" "freed m4 = fr" "maxBssId m4 = maxBssId m"
    using m2 by (simp_all add: m4_def put_session_def tm_emit_def)
  then have "mac_ok m4" using assms(1) by (simp add: mac_ok_def)
  then obtain c where "pe_get_active_session_count m4 = Some c"
    by (simp add: pe_get_active_session_count_def table_loop_ok)
  then obtain m5 where m5: "(if limSystemRole ?s = eLIM_AP_ROLE
        then lim_check_and_reset_protection_params m4 else Some m4) = Some m5"
      "gpSession m5 = gpSession m4" "freed m5 = freed m4" "maxBssId m5 = maxBssId m4"
    by (cases "limSystemRole ?s = eLIM_AP_ROLE") (auto simp: lim_check_and_reset_protection_params_def)
  have gp5: "gpSession m5 = (gpSession m1)[i := s3\<lparr>pmf_running := False\<rparr>]" using m1(2) m4(1) m5(2) by simp
  have "pe_delete_session (Some i) m =
      Some (put_session i ((gpSession m5 ! i)\<lparr>deauthmsgcnt := 0, disassocmsgcnt := 0\<rparr>) m5)"
    using assms(2,3) m1(1) rel(1) m5(1)
    by (cases "limSystemRole ?s = eLIM_AP_ROLE"; cases "pmf_running ?s")
      (simp_all add: pe_delete_session_def Let_def m2_def m4_def gp5)
  with m4 m5 rel assms(2) show ?thesis
    by (auto simp: session_empty_def)
qed


text \<open>
  The calls of \<open>qdf_mem_malloc\<close> a creation makes when all of them succeed, and those made by a
  creation that fails.
\<close>

definition mallocs_needed :: "bss_type \<Rightarrow> nat list" where
  "mallocs_needed bssType =
     (if bssType = eSIR_INFRA_AP_MODE \<or> bssType = eSIR_IBSS_MODE then [0, 1, 2, 3, 4, 5] else [0, 1, 2])"

definition mallocs_made :: "pe_env \<Rightarrow> nat list" where
  "mallocs_made e =
     (if env_malloc e 0 = None then [0] else if env_malloc e 1 = None then [0, 1]
      else if env_malloc e 2 = None then [0, 1, 2] else [0, 1, 2, 3, 4, 5])"

lemma pe_create_session_cases:
  assumes "mac_ok m" "unat numSta < 255"
  shows "\<exists>m' r. pe_create_session e bssid numSta bssType m = Some (m', r) \<and>
    (case find (\<lambda>i. \<not> s_valid (gpSession m ! i)) [0..<length (gpSession m)] of
       None \<Rightarrow> m' = m \<and> r = None
     | Some i \<Rightarrow>
         (r \<noteq> None \<longleftrightarrow> (\<forall>k \<in> set (mallocs_needed bssType). env_malloc e k \<noteq> None)) \<and>
         maxBssId m' = maxBssId m \<and> maxStation m' = maxStation m \<and> gpLimCnfWaitTimer m' = gpLimCnfWaitTimer m \<and>
         (\<exists>s'. gpSession m' = (gpSession m)[i := s'] \<and>
          (r = None \<longrightarrow> freed m' = freed m @ List.map_filter (env_malloc e) (mallocs_made e) \<and>
             session_empty s' \<and> (s_valid s' \<longleftrightarrow> length (mallocs_made e) = 6)) \<and>
          (r \<noteq> None \<longrightarrow> r = Some i \<and> freed m' = freed m \<and> s_valid s' \<and> bssId s' = take 6 bssid \<and>
             dph_wf (dphHashTable s') \<and> dph_abs (dphHashTable s') = Map.empty \<and>
             gpLimPeerIdxpool s' = Some (replicate (unat numSta + 1) (env_byte e)) \<and>
             limSystemRole s' = eLIM_UNKNOWN_ROLE \<and> session_ok s' \<and>
             mset (session_blocks s') = mset (List.map_filter (env_malloc e)
               (mallocs_needed bssType)))))"
proof (cases "find (\<lambda>i. \<not> s_valid (gpSession m ! i)) [0..<length (gpSession m)]")
  case None
  then show ?thesis by (simp add: pe_create_session_def pe_scan_total_test [OF assms(1)])
next
  case (Some i)
  have scan: "pe_scan (\<lambda>s. Some (\<not> s_valid s)) m = Some (Some i)"
    using Some by (simp add: pe_scan_total_test [OF assms(1)])
  have i: "i < length (gpSession m)" using Some by (simp add: find_upt_Some_iff)
  obtain t where t: "dph_hash_table_class_init \<lparr>pHashTable = Some (replicate (unat numSta + 1) (env_slot e)),
      pDphNodeArray = replicate (unat numSta + 1) (env_node e), dph_size = numSta + 1\<rparr> = Some t"
    "dph_wf t" "dph_abs t = Map.empty"
    using dph_init_session [OF assms(2)] by blast
  show ?thesis
  proof (cases "env_malloc e 0 = None \<or> env_malloc e 1 = None \<or> env_malloc e 2 = None")
    case True
    then have need: "(\<forall>k \<in> set (mallocs_needed bssType). \<exists>y. env_malloc e k = Some y) \<longleftrightarrow> False"
      by (auto simp: mallocs_needed_def)
    from True show ?thesis
      using Some t by (cases "env_malloc e 0"; cases "env_malloc e 1"; cases "env_malloc e 2")
        (simp_all add: pe_create_session_def scan mallocs_made_def need map_filter_def session_empty_def,
         (rule exI, rule conjI, rule refl, simp add: zero_session_def)+)
  next
    case False
    then obtain hb nb pb where got: "env_malloc e 0 = Some hb" "env_malloc e 1 = Some nb" "env_malloc e 2 = Some pb"
      by auto
    note got = got got(2) [unfolded One_nat_def]
    define s where "s = pe_session_defaults i bssid bssType (zero_session\<lparr>dphHashTable := t,
      gpLimPeerIdxpool := Some (replicate (unat numSta + 1) (env_byte e)),
      bufs := (\<lambda>_. None)(PHashTable := Some hb, PDphNodeArray := Some nb, GpLimPeerIdxpool := Some pb)\<rparr>)"
    let ?ap = "bssType = eSIR_INFRA_AP_MODE \<or> bssType = eSIR_IBSS_MODE"
    let ?miss = "env_malloc e 3 = None \<or> env_malloc e 4 = None \<or> env_malloc e 5 = None"
    define sf where "sf = (if ?ap then s\<lparr>bufs := (bufs s)(PSchProbeRspTemplate := env_malloc e 3,
      PSchBeaconFrameBegin := env_malloc e 4, PSchBeaconFrameEnd := env_malloc e 5)\<rparr> else s)"
    have run: "pe_create_session e bssid numSta bssType m =
      (if ?ap \<and> ?miss
       then Some (mem_free [Some hb, Some nb, Some pb, env_malloc e 3, env_malloc e 4, env_malloc e 5]
              (put_session i (pe_drop_tables s) m), None)
       else Some (pe_session_timers e i bssType sf m, Some i))"
      using t got by (simp add: pe_create_session_def scan s_def sf_def Let_def)
    show ?thesis
    proof (cases "?ap \<and> ?miss")
      case True
      then have "mallocs_made e = [0, 1, 2, 3, 4, 5]" by (simp add: mallocs_made_def got del: One_nat_def)
      moreover have "bufs (pe_drop_tables s) = (\<lambda>_. None)" "s_valid (pe_drop_tables s)"
        "ftPEContext (pe_drop_tables s) = zero_ft" "parsedAssocReq (pe_drop_tables s) = None"
        by (auto simp: s_def pe_drop_tables_def zero_session_def)
      moreover have "List.map_filter id [Some hb, Some nb, Some pb, env_malloc e 3, env_malloc e 4, env_malloc e 5] =
          List.map_filter (env_malloc e) [0, 1, 2, 3, 4, 5]"
        by (simp add: map_filter_def got)
      ultimately show ?thesis using True Some
        by (simp add: run mallocs_needed_def session_empty_def put_session_def mem_free_def)
          (rule exI, rule conjI, rule refl, simp)
    next
      case False
      obtain s' where s': "gpSession (pe_session_timers e i bssType sf m) = (gpSession m)[i := s']"
        "s_valid s' = s_valid sf" "bssId s' = bssId sf" "dphHashTable s' = dphHashTable sf" "bufs s' = bufs sf"
        "parsedAssocReq s' = parsedAssocReq sf" "limSystemRole s' = limSystemRole sf"
        "ftPEContext sf = zero_ft \<longrightarrow> ftPEContext s' = zero_ft" "gpLimPeerIdxpool s' = gpLimPeerIdxpool sf"
        using pe_session_timers_session [OF i] by metis
      have sf: "s_valid sf" "bssId sf = take 6 bssid" "dphHashTable sf = t" "parsedAssocReq sf = None"
        "limSystemRole sf = eLIM_UNKNOWN_ROLE" "ftPEContext sf = zero_ft"
        "gpLimPeerIdxpool sf = Some (replicate (unat numSta + 1) (env_byte e))"
        by (simp_all add: sf_def s_def zero_session_def)
      have "mset (List.map_filter (bufs sf) all_bufs) = mset (List.map_filter (env_malloc e)
          (mallocs_needed bssType))"
        using False by (auto simp: sf_def s_def all_bufs_def early_bufs_def late_bufs_def map_filter_def got mallocs_needed_def)
      moreover have "ft_blocks zero_ft = []" by (simp add: ft_blocks_def zero_ft_def map_filter_def)
      ultimately have blocks: "mset (session_blocks s') = mset (List.map_filter (env_malloc e)
          (mallocs_needed bssType))"
        using s' sf by (simp add: session_blocks_def)
      have "session_ok s'" using s' sf by (simp add: session_ok_def)
      moreover have "pe_create_session e bssid numSta bssType m = Some (pe_session_timers e i bssType sf m, Some i)"
        using False by (simp only: run if_False)
      moreover have "\<forall>k \<in> set (mallocs_needed bssType). env_malloc e k \<noteq> None"
        using False got by (auto simp: mallocs_needed_def)
      ultimately show ?thesis
        unfolding Some option.case using blocks s' sf t by (intro exI conjI) (assumption | simp)+
    qed
  qed
qed

section \<open>Queries\<close>

lemma foldl_count_valid:
  "foldl (\<lambda>c s. if s_valid s then c + 1 else c) a ss = (a + of_nat (length (filter s_valid ss)) :: u8)"
  by (induction ss arbitrary: a) (auto simp: algebra_simps)

lemma foldl_stas:
  "foldl (\<lambda>c s. if s_valid s then ucast (ucast c + gLimNumOfCurrentSTAs s) else c) (a :: u8) ss =
   a + of_nat (sum_list (map (\<lambda>s. unat (gLimNumOfCurrentSTAs s)) (filter s_valid ss)))"
proof (induction ss arbitrary: a)
  case (Cons s ss)
  have "(ucast (gLimNumOfCurrentSTAs s) :: u8) = of_nat (unat (gLimNumOfCurrentSTAs s))"
    by (simp add: word_unat_eq_iff unsigned_ucast_eq unat_of_nat take_bit_nat_def)
  with Cons show ?case by (simp add: ucast_add_u8 add.assoc)
qed simp


text \<open>
  The channels of the valid sessions decide multi-channel concurrency: channel 0 stands for
  "not known yet" as long as no other channel was seen.
\<close>

fun mcc_spec :: "u8 \<Rightarrow> u8 list \<Rightarrow> bool" where
  "mcc_spec chan [] = False"
| "mcc_spec chan (c # cs) = (if chan = 0 then mcc_spec c cs else chan \<noteq> c \<or> mcc_spec chan cs)"

lemma mcc_loop_spec:
  assumes "length ss \<le> 255" "length ss = unat bound"
  shows "mcc_loop ss bound chan i = Some (mcc_spec chan (map currentOperChannel (filter s_valid (drop (unat i) ss))))"
  using assms
proof (induction "length ss - unat i" arbitrary: i chan rule: less_induct)
  case less
  show ?case
  proof (cases "unat i < length ss")
    case True
    with less.prems have suc: "unat (i + 1) = Suc (unat i)" by (simp add: unat_Suc_u8)
    have IH: "mcc_loop ss bound c (i + 1) =
        Some (mcc_spec c (map currentOperChannel (filter s_valid (drop (Suc (unat i)) ss))))" for c
      using less.hyps [of "i + 1" c] True less.prems by (simp add: suc)
    have "drop (unat i) ss = ss ! unat i # drop (Suc (unat i)) ss"
      using True by (simp add: Cons_nth_drop_Suc)
    with True less.prems IH show ?thesis
      by (simp add: mcc_loop.simps [of ss bound chan i] ucast_u8_less_u16_iff)
  next
    case False
    with less.prems show ?thesis
      by (simp add: mcc_loop.simps [of ss bound chan i] ucast_u8_less_u16_iff)
  qed
qed

lemma mcc_spec_nonzero:
  "\<lbrakk>\<forall>c \<in> set cs. c \<noteq> 0; chan \<noteq> 0\<rbrakk> \<Longrightarrow> mcc_spec chan cs \<longleftrightarrow> (\<exists>c \<in> set cs. c \<noteq> chan)"
  by (induction cs) auto

lemma mcc_spec_distinct:
  "\<forall>c \<in> set cs. c \<noteq> 0 \<Longrightarrow> mcc_spec 0 cs \<longleftrightarrow> (\<exists>c \<in> set cs. \<exists>d \<in> set cs. c \<noteq> d)"
  by (cases cs) (auto simp: mcc_spec_nonzero, metis+)

section \<open>Properties\<close>


text \<open>
  C35: creating a session. When \<open>pe_create_session\<close> returns a session it is the first free slot;
  the slot is marked valid, carries the BSSID and an empty well-formed station table, owns
  exactly the blocks allocated by the call, and nothing was freed. When no valid session had
  the BSSID before, \<open>pe_find_session_by_bssid\<close> and \<open>pe_find_session_by_session_id\<close> now find it,
  and deleting it at once gives every block of the call back.
\<close>

theorem pe_create_session_success:
  assumes "mac_ok m" "unat numSta < 255" "is_mac bssid"
    and "pe_create_session e bssid numSta bssType m = Some (m', Some i)"
    and "\<forall>s \<in> set (gpSession m). s_valid s \<longrightarrow> is_mac (bssId s) \<and> bssId s \<noteq> bssid"
    and "unat (maxStation m) < 65535" "unat (maxStation m) < length (gpLimCnfWaitTimer m)"
  shows "i < length (gpSession m) \<and> \<not> s_valid (gpSession m ! i) \<and> (\<forall>j<i. s_valid (gpSession m ! j)) \<and>
    (\<forall>j<length (gpSession m). j \<noteq> i \<longrightarrow> gpSession m' ! j = gpSession m ! j) \<and>
    dph_wf (dphHashTable (gpSession m' ! i)) \<and> dph_abs (dphHashTable (gpSession m' ! i)) = Map.empty \<and>
    pe_find_session_by_bssid bssid m' = Some (Some i) \<and>
    pe_find_session_by_session_id (of_nat i) m' = Some (Some i) \<and>
    (\<exists>m''. pe_delete_session (Some i) m' = Some m'' \<and>
       mset (freed m'') = mset (freed m) + mset (List.map_filter (env_malloc e)
         (mallocs_needed bssType)))"
proof -
  let ?ss = "gpSession m"
  obtain s' where i: "find (\<lambda>i. \<not> s_valid (?ss ! i)) [0..<length ?ss] = Some i"
    and m': "maxBssId m' = maxBssId m" "maxStation m' = maxStation m" "gpLimCnfWaitTimer m' = gpLimCnfWaitTimer m"
      "gpSession m' = ?ss[i := s']"
    and s': "freed m' = freed m" "s_valid s'" "bssId s' = bssid" "dph_wf (dphHashTable s')"
      "dph_abs (dphHashTable s') = Map.empty" "session_ok s'"
      "mset (session_blocks s') = mset (List.map_filter (env_malloc e)
         (mallocs_needed bssType))"
    using pe_create_session_cases [OF assms(1,2), of e bssid bssType] assms(3,4)
    by (auto simp: is_mac_def split: option.splits)
  have ilt: "i < length ?ss" "\<not> s_valid (?ss ! i)" "\<forall>j<i. s_valid (?ss ! j)"
    using i by (auto simp: find_upt_Some_iff)
  have ok': "mac_ok m'" using assms(1) m' by (simp add: mac_ok_def)
  have "find (\<lambda>j. s_valid (gpSession m' ! j) \<and> sir_compare_mac_addr (bssId (gpSession m' ! j)) bssid)
      [0..<length (gpSession m')] = Some i"
    unfolding find_upt_Some_iff
  proof (intro conjI allI impI)
    fix j assume j: "j < i"
    then have "s_valid (?ss ! j)" "?ss ! j \<in> set ?ss" using ilt by auto
    with assms(5) have "is_mac (bssId (?ss ! j))" "bssId (?ss ! j) \<noteq> bssid" by auto
    with j assms(3) show "\<not> (s_valid (gpSession m' ! j) \<and> sir_compare_mac_addr (bssId (gpSession m' ! j)) bssid)"
      by (simp add: m' sir_compare_mac_addr_eq)
  qed (use ilt m' s' assms(3) in \<open>auto simp: sir_compare_mac_addr_eq\<close>)
  then have 1: "pe_find_session_by_bssid bssid m' = Some (Some i)"
    unfolding pe_find_session_by_bssid_def by (simp add: pe_scan_total_test [OF ok'])
  have "i < 256" using ilt assms(1) by (auto simp: mac_ok_def)
  then have "unat (of_nat i :: u8) = i" by (simp add: unat_of_nat take_bit_nat_def)
  then have 2: "pe_find_session_by_session_id (of_nat i) m' = Some (Some i)"
    using ilt assms(1) s' m' by (simp add: pe_find_session_by_session_id_def mac_ok_def word_le_nat_alt)
  have 3: "\<exists>m''. pe_delete_session (Some i) m' = Some m'' \<and>
      mset (freed m'') = mset (freed m') + mset (session_blocks s')"
    using pe_delete_session_effect [of m' i] ok' ilt m' s' assms(6,7) by auto
  from 1 2 3 ilt m' s' show ?thesis by simp
qed

text \<open>
  a creation that fails leaks no memory but can leak the slot. \<open>pe_create_session\<close> always
  returns, and it returns a session exactly when a slot is free and all its allocations succeed.
  When it reports failure although a slot was free, every block it obtained is given
  back, each once, and no other slot changed. When the failing allocation is one of the beacon or
  probe response templates the slot is nevertheless left marked valid, with null tables.
\<close>

theorem pe_create_session_failure:
  assumes "mac_ok m" "unat numSta < 255"
  shows "\<exists>m' r. pe_create_session e bssid numSta bssType m = Some (m', r) \<and>
    (r \<noteq> None \<longleftrightarrow> (\<exists>s \<in> set (gpSession m). \<not> s_valid s) \<and>
       (\<forall>k \<in> set (mallocs_needed bssType). env_malloc e k \<noteq> None)) \<and>
    (\<forall>i. r = None \<and> find (\<lambda>i. \<not> s_valid (gpSession m ! i)) [0..<length (gpSession m)] = Some i \<longrightarrow>
       freed m' = freed m @ List.map_filter (env_malloc e) (mallocs_made e) \<and>
       (\<exists>s'. gpSession m' = (gpSession m)[i := s'] \<and> session_empty s' \<and>
          (s_valid s' \<longleftrightarrow> length (mallocs_made e) = 6)))"
proof (cases "find (\<lambda>i. \<not> s_valid (gpSession m ! i)) [0..<length (gpSession m)]")
  case None
  then have "\<forall>s \<in> set (gpSession m). s_valid s" by (auto simp: find_upt_None_iff in_set_conv_nth)
  with None pe_create_session_cases [OF assms, of e bssid bssType] show ?thesis by auto
next
  case (Some i)
  then have "\<exists>s \<in> set (gpSession m). \<not> s_valid s" by (auto simp: find_upt_Some_iff)
  with Some pe_create_session_cases [OF assms, of e bssid bssType] show ?thesis by auto
qed

text \<open>
  The counting queries. \<open>pe_get_active_session_count\<close> is the number of valid sessions;
  \<open>pe_get_current_stas_count\<close> is the number of stations of all valid sessions modulo 256, because
  the sum is kept in eight bits.
\<close>

theorem pe_session_counts:
  assumes "mac_ok m"
  shows "pe_get_active_session_count m = Some (of_nat (length (filter s_valid (gpSession m)))) \<and>
    map_option unat (pe_get_current_stas_count m) =
      Some (sum_list (map (\<lambda>s. unat (gLimNumOfCurrentSTAs s)) (filter s_valid (gpSession m))) mod 256)"
  by (simp add: pe_get_active_session_count_def pe_get_current_stas_count_def table_loop_ok [OF assms]
      foldl_count_valid foldl_stas unat_of_nat take_bit_nat_def)

text \<open>
  Concurrency queries. When every valid session has a channel, \<open>lim_is_in_mcc\<close> returns and
  is true exactly when two valid sessions are on different channels, and
  \<open>is_lim_session_off_channel\<close> exactly when another valid session is on a channel other than
  that of the given one.
\<close>

theorem lim_is_in_mcc_correct:
  assumes "mac_ok m" "\<forall>s \<in> set (gpSession m). s_valid s \<longrightarrow> currentOperChannel s \<noteq> 0"
    and "unat sid < length (gpSession m)"
  shows "lim_is_in_mcc m = Some (\<exists>s \<in> set (gpSession m). \<exists>s' \<in> set (gpSession m).
      s_valid s \<and> s_valid s' \<and> currentOperChannel s \<noteq> currentOperChannel s') \<and>
    is_lim_session_off_channel sid m = Some (\<exists>i < length (gpSession m). i \<noteq> unat sid \<and>
      s_valid (gpSession m ! i) \<and> currentOperChannel (gpSession m ! i) \<noteq> currentOperChannel (gpSession m ! unat sid))"
proof
  have len: "length (gpSession m) \<le> 255" "length (gpSession m) = unat (maxBssId m)"
    using assms(1) by (auto simp: mac_ok_def)
  have "\<forall>c \<in> set (map currentOperChannel (filter s_valid (gpSession m))). c \<noteq> 0" using assms(2) by auto
  from mcc_spec_distinct [OF this] show "lim_is_in_mcc m = Some (\<exists>s \<in> set (gpSession m). \<exists>s' \<in> set (gpSession m).
      s_valid s \<and> s_valid s' \<and> currentOperChannel s \<noteq> currentOperChannel s')"
    by (auto simp: lim_is_in_mcc_def mcc_loop_spec [OF len])
  let ?hit = "\<lambda>i. i \<noteq> unat sid \<and> s_valid (gpSession m ! i) \<and>
    currentOperChannel (gpSession m ! i) \<noteq> currentOperChannel (gpSession m ! unat sid)"
  have "find (\<lambda>i. length (gpSession m) \<le> i \<or> ?hit i) [0..<length (gpSession m)] = find ?hit [0..<length (gpSession m)]"
    by (rule find_cong) auto
  then have "is_lim_session_off_channel sid m = (case find ?hit [0..<length (gpSession m)] of
      None \<Rightarrow> Some False | Some i \<Rightarrow> if i < length (gpSession m) then Some True else None)"
    using assms(3) len(1)
    by (simp add: is_lim_session_off_channel_def Let_def scan_u8_find word_le_nat_alt len(2) [symmetric])
  then show "is_lim_session_off_channel sid m = Some (\<exists>i < length (gpSession m). ?hit i)"
    by (cases "find ?hit [0..<length (gpSession m)]") (auto simp: find_upt_Some_iff find_upt_None_iff)
qed

section \<open>Witnesses\<close>

text \<open>A table of two free slots, an allocator that never fails, and one that fails on a template.\<close>

definition demo_timer :: tx_timer where
  "demo_timer = \<lparr>tmrSignature = TX_AIRGO_TMR_SIGNATURE, tt_expireInput = 0, tt_init = 1000, tt_resched = 0,
     tt_sessionId = 0, tt_running = True\<rparr>"

definition demo_mac :: mac_ctx where
  "demo_mac = \<lparr>gpSession = [zero_session, zero_session], maxBssId = 2, maxStation = 1,
     gLimAssocStaLimit = 4, gpLimCnfWaitTimer = [demo_timer, demo_timer], gLimOverlap = \<lambda>_. zero_prot,
     gHTOperMode = 0, freed = [], tm_log = []\<rparr>"

definition demo_env :: pe_env where
  "demo_env = \<lparr>env_malloc = \<lambda>k. Some (100 + k), env_node = blank_node, env_slot = None, env_byte = 0,
     env_timer_ok = True\<rparr>"

definition low_mem_env :: pe_env where
  "low_mem_env = demo_env\<lparr>env_malloc := (env_malloc demo_env)(4 := None)\<rparr>"

definition demo_session :: pe_session where
  "demo_session = zero_session\<lparr>s_valid := True, bssId := demo_a, currentOperChannel := 6,
     gLimNumOfCurrentSTAs := 200, bufs := [Beacon \<mapsto> 7]\<rparr>"

definition two_sessions :: mac_ctx where
  "two_sessions = demo_mac\<lparr>gpSession := [demo_session, demo_session\<lparr>currentOperChannel := 11\<rparr>]\<rparr>"

lemma zero_session_fields [simp]:
  "\<not> s_valid zero_session" "parsedAssocReq zero_session = None" "ftPEContext zero_session = zero_ft"
  "bufs zero_session = (\<lambda>_. None)"
  by (simp_all add: zero_session_def)

lemma demo_mac_ok: "mac_ok demo_mac" "mac_ok two_sessions"
  by (simp_all add: mac_ok_def demo_mac_def two_sessions_def)

lemma demo_mac_slots: "find (\<lambda>i. \<not> s_valid (gpSession demo_mac ! i)) [0..<length (gpSession demo_mac)] = Some 0"
  by (simp add: demo_mac_def upt_rec)


theorem pe_create_session_success_witness:
  "\<exists>m'. pe_create_session demo_env demo_a 3 eSIR_INFRA_AP_MODE demo_mac = Some (m', Some 0) \<and>
     pe_find_session_by_bssid demo_a m' = Some (Some 0)"
proof -
  have "\<forall>k. env_malloc demo_env k \<noteq> None" by (simp add: demo_env_def)
  then obtain m' where "pe_create_session demo_env demo_a 3 eSIR_INFRA_AP_MODE demo_mac = Some (m', Some 0)"
    using pe_create_session_cases [OF demo_mac_ok(1), of 3 demo_env demo_a eSIR_INFRA_AP_MODE]
    unfolding demo_mac_slots option.case by auto
  with pe_create_session_success [OF demo_mac_ok(1) _ demo_macs(1) this] show ?thesis
    by (auto simp: demo_mac_def)
qed

theorem pe_create_session_failure_witness:
  "\<exists>m' s'. pe_create_session low_mem_env demo_a 3 eSIR_INFRA_AP_MODE demo_mac = Some (m', None) \<and>
     gpSession m' = [s', zero_session] \<and> s_valid s' \<and> session_empty s' \<and>
     freed m' = [100, 101, 102, 103, 105]"
proof -
  have "mallocs_made low_mem_env = [0, 1, 2, 3, 4, 5]"
    by (simp add: mallocs_made_def low_mem_env_def demo_env_def)
  moreover have "List.map_filter (env_malloc low_mem_env) [0, 1, 2, 3, 4, 5] = [100, 101, 102, 103, 105]"
    by (simp add: low_mem_env_def demo_env_def map_filter_def)
  moreover have "env_malloc low_mem_env 4 = None" "4 \<in> set (mallocs_needed eSIR_INFRA_AP_MODE)"
    by (simp_all add: low_mem_env_def mallocs_needed_def)
  ultimately show ?thesis
    using pe_create_session_failure [OF demo_mac_ok(1), of 3 low_mem_env demo_a eSIR_INFRA_AP_MODE]
    unfolding demo_mac_slots by (auto simp: demo_mac_def)
qed

theorem pe_session_counts_witness:
  "pe_get_active_session_count two_sessions = Some 2 \<and>
   map_option unat (pe_get_current_stas_count two_sessions) = Some 144"
  using pe_session_counts [OF demo_mac_ok(2)]
  by (simp add: two_sessions_def demo_session_def)

theorem lim_is_in_mcc_correct_witness:
  "lim_is_in_mcc two_sessions = Some True \<and> is_lim_session_off_channel 0 two_sessions = Some True"
  using lim_is_in_mcc_correct [OF demo_mac_ok(2), of 0]
  by (auto simp: two_sessions_def demo_session_def less_Suc_eq)

end
