(* ===== verification/Aid_Pool.thy ===== *)
theory Aid_Pool
  imports Pe_Session
begin

text \<open>
  The pool of peer indices (association ids) of a session,
  \<open>core/mac/src/pe/lim/lim_aid_mgmt.c\<close>: a free list threaded through the byte array
  \<open>gpLimPeerIdxpool\<close>, whose entry \<open>i\<close> is the index that follows \<open>i\<close> (0 ends the list), with
  \<open>freePeerIdxHead\<close> and \<open>freePeerIdxTail\<close>. \<open>None\<close> is an access outside the array.
\<close>

section \<open>Operations\<close>

definition LIM_START_PEER_IDX :: u8 where
  "LIM_START_PEER_IDX = 1"

definition DPH_STA_HASH_INDEX_PEER :: u8 where
  "DPH_STA_HASH_INDEX_PEER = 1"

definition pool_set :: "nat \<Rightarrow> u8 \<Rightarrow> u8 list \<Rightarrow> u8 list option" where
  "pool_set i v pool = (if i < length pool then Some (pool[i := v]) else None)"

text \<open>The loop of \<open>lim_init_peer_idxpool\<close>; the result is the array and the final counter.\<close>

function idx_fill :: "u8 \<Rightarrow> u8 \<Rightarrow> u8 list \<Rightarrow> (u8 list \<times> u8) option" where
  "idx_fill maxAssocSta i pool =
     (if i < maxAssocSta
      then case pool_set (unat i) (i + 1) pool of
             None \<Rightarrow> None
           | Some pool' \<Rightarrow> idx_fill maxAssocSta (i + 1) pool'
      else Some (pool, i))"
  by pat_completeness auto
termination
  by (relation "measure (\<lambda>(m, i, _). unat m - unat i)") (auto simp: unat_Suc_word word_less_nat_alt)

definition lim_init_peer_idxpool :: "u16 \<Rightarrow> pe_session \<Rightarrow> pe_session option" where
  "lim_init_peer_idxpool max_sta s =
     (let maxAssocSta = ucast max_sta :: u8;
          hd_idx = (if limSystemRole s = eLIM_STA_ROLE then DPH_STA_HASH_INDEX_PEER + 1
                    else if limSystemRole s = eLIM_STA_IN_IBSS_ROLE then LIM_START_PEER_IDX
                    else LIM_START_PEER_IDX) in
      do {
        pool0 \<leftarrow> gpLimPeerIdxpool s;
        pool1 \<leftarrow> pool_set 0 0 pool0;
        (pool2, i) \<leftarrow> idx_fill maxAssocSta hd_idx pool1;
        pool3 \<leftarrow> pool_set (unat i) 0 pool2;
        Some (s\<lparr>gpLimPeerIdxpool := Some pool3, freePeerIdxHead := hd_idx, freePeerIdxTail := i\<rparr>)
      })"

text \<open>The part of \<open>lim_assign_peer_idx\<close> below the association limit check.\<close>

definition assign_from_pool :: "pe_session \<Rightarrow> (pe_session \<times> u16) option" where
  "assign_from_pool s =
     (let peerId = freePeerIdxHead s in
      if peerId \<noteq> 0
      then case gpLimPeerIdxpool s of
             None \<Rightarrow> None
           | Some pool \<Rightarrow>
               if unat peerId < length pool
               then let s1 = s\<lparr>freePeerIdxHead := pool ! unat peerId\<rparr>;
                        s2 = (if freePeerIdxHead s1 = 0 then s1\<lparr>freePeerIdxTail := 0\<rparr> else s1) in
                    Some (s2\<lparr>gLimNumOfCurrentSTAs := gLimNumOfCurrentSTAs s2 + 1\<rparr>, ucast peerId)
               else None
      else Some (s, 0))"

definition lim_assign_peer_idx :: "nat \<Rightarrow> mac_ctx \<Rightarrow> (mac_ctx \<times> u16) option" where
  "lim_assign_peer_idx k m =
     do {
       c \<leftarrow> pe_get_current_stas_count m;
       if gLimAssocStaLimit m \<le> ucast c then Some (m, 0)
       else if length (gpSession m) \<le> k then None
       else do {
         (s, peerId) \<leftarrow> assign_from_pool (gpSession m ! k);
         Some (put_session k s m, peerId)
       }
     }"

definition lim_release_peer_idx :: "u16 \<Rightarrow> pe_session \<Rightarrow> pe_session option" where
  "lim_release_peer_idx peerIdx s =
     (let s1 = s\<lparr>gLimNumOfCurrentSTAs := gLimNumOfCurrentSTAs s - 1\<rparr>; idx = ucast peerIdx :: u8 in
      do {
        pool \<leftarrow> gpLimPeerIdxpool s;
        (pool1, h) \<leftarrow> (if freePeerIdxTail s \<noteq> 0
                      then do { p \<leftarrow> pool_set (unat (freePeerIdxTail s)) idx pool;
                                Some (p, freePeerIdxHead s) }
                      else Some (pool, idx));
        pool2 \<leftarrow> pool_set (unat idx) 0 pool1;
        Some (s1\<lparr>gpLimPeerIdxpool := Some pool2, freePeerIdxTail := idx, freePeerIdxHead := h\<rparr>)
      })"

section \<open>The free list\<close>

definition idx_ptr :: "u8 \<Rightarrow> nat option" where
  "idx_ptr w = (if w = 0 then None else Some (unat w))"

text \<open>\<open>idx_rep s free\<close>: the free list of the session holds the indices \<open>free\<close>, in order.\<close>

definition idx_rep :: "pe_session \<Rightarrow> nat list \<Rightarrow> bool" where
  "idx_rep s free \<longleftrightarrow> (\<exists>pool. gpLimPeerIdxpool s = Some pool \<and>
     chain (\<lambda>i. idx_ptr (pool ! i)) (idx_ptr (freePeerIdxHead s)) free \<and>
     (\<forall>i \<in> set free. 0 < i \<and> i < length pool \<and> i < 256) \<and>
     freePeerIdxTail s = (if free = [] then 0 else of_nat (last free)))"

lemma idx_ptr_iff: "idx_ptr w = Some i \<longleftrightarrow> i \<noteq> 0 \<and> unat w = i"
  by (auto simp: idx_ptr_def unat_gt_0)

lemma idx_ptr_None [simp]: "idx_ptr w = None \<longleftrightarrow> w = 0"
  by (simp add: idx_ptr_def)

lemma idx_ptr_0 [simp]: "idx_ptr 0 = None"
  by (simp add: idx_ptr_def)

lemma unat_of_nat_u8: "i < 256 \<Longrightarrow> unat (of_nat i :: u8) = i"
  by (simp add: unat_of_nat take_bit_nat_def)

lemma idx_ptr_of_nat: "i \<noteq> 0 \<Longrightarrow> i < 256 \<Longrightarrow> idx_ptr (of_nat i) = Some i"
  by (simp add: idx_ptr_iff unat_of_nat_u8)

lemma idx_rep_distinct: "idx_rep s free \<Longrightarrow> distinct free"
  by (auto simp: idx_rep_def dest: chain_distinct)

lemma assign_from_pool_Cons:
  assumes "idx_rep s (k # free)"
  shows "\<exists>s'. assign_from_pool s = Some (s', of_nat k) \<and> idx_rep s' free \<and> 0 < k \<and> k < 256 \<and>
    gLimNumOfCurrentSTAs s' = gLimNumOfCurrentSTAs s + 1 \<and> gpLimPeerIdxpool s' = gpLimPeerIdxpool s \<and>
    dphHashTable s' = dphHashTable s \<and> s_valid s' = s_valid s"
proof -
  from assms obtain pool where p: "gpLimPeerIdxpool s = Some pool"
    "chain (\<lambda>i. idx_ptr (pool ! i)) (idx_ptr (freePeerIdxHead s)) (k # free)"
    "\<forall>i \<in> set (k # free). 0 < i \<and> i < length pool \<and> i < 256"
    "freePeerIdxTail s = of_nat (last (k # free))"
    by (auto simp: idx_rep_def)
  then have h: "unat (freePeerIdxHead s) = k" "freePeerIdxHead s \<noteq> 0" by (auto simp: idx_ptr_iff)
  have u: "(ucast (freePeerIdxHead s) :: u16) = of_nat k"
    using h(1) p(3) by (simp add: word_unat_eq_iff unat_of_nat take_bit_nat_def)
  have e: "pool ! k = 0 \<longleftrightarrow> free = []" using p(2) by (cases free) auto
  show ?thesis
    using p h e by (auto simp: assign_from_pool_def Let_def idx_rep_def u)
qed

lemma assign_from_pool_Nil: "idx_rep s [] \<Longrightarrow> assign_from_pool s = Some (s, 0)"
  by (auto simp: idx_rep_def assign_from_pool_def)

lemma chain_append_one:
  assumes "chain nxt p (ps @ [a])" "b \<notin> set (ps @ [a])"
  shows "chain (nxt(a := Some b, b := None)) p (ps @ [a, b])"
proof -
  have d: "distinct (ps @ [a])" using assms(1) by (rule chain_distinct)
  from assms d show ?thesis by (induction ps arbitrary: p) auto
qed

lemma lim_release_peer_idx_rep:
  assumes "idx_rep s free" "k \<notin> set free" "0 < k" "k < 256"
    and "gpLimPeerIdxpool s = Some pool" "k < length pool"
  shows "\<exists>s' pool'. lim_release_peer_idx (of_nat k) s = Some s' \<and> idx_rep s' (free @ [k]) \<and>
    gLimNumOfCurrentSTAs s' = gLimNumOfCurrentSTAs s - 1 \<and> gpLimPeerIdxpool s' = Some pool' \<and>
    length pool' = length pool"
proof -
  have k8: "(ucast (of_nat k :: u16) :: u8) = of_nat k"
    using assms(4) by (simp add: word_unat_eq_iff unsigned_ucast_eq unat_of_nat take_bit_nat_def)
  have ku: "unat (of_nat k :: u8) = k" using assms(4) by (rule unat_of_nat_u8)
  show ?thesis
  proof (cases free rule: rev_cases)
    case Nil
    then show ?thesis
      using assms by (simp add: lim_release_peer_idx_def Let_def k8 ku idx_rep_def pool_set_def idx_ptr_of_nat)
  next
    case (snoc xs a)
    have a: "0 < a" "a < length pool" "a < 256" using assms(1,5) snoc by (auto simp: idx_rep_def)
    have au: "unat (of_nat a :: u8) = a" "(of_nat a :: u8) \<noteq> 0"
      using a unat_of_nat_u8 [of a] by (auto simp: word_unat_eq_iff)
    let ?nxt = "\<lambda>i. idx_ptr (pool ! i)"
    let ?pool = "pool[a := of_nat k, k := 0]"
    have c: "chain ?nxt (idx_ptr (freePeerIdxHead s)) (xs @ [a])"
      using assms(1,5) snoc by (auto simp: idx_rep_def)
    have "chain (?nxt(a := Some k, k := None)) (idx_ptr (freePeerIdxHead s)) (xs @ [a, k])"
      using chain_append_one [OF c] assms(2) snoc by simp
    moreover have "chain (\<lambda>i. idx_ptr (?pool ! i)) p (xs @ [a, k]) =
        chain (?nxt(a := Some k, k := None)) p (xs @ [a, k])" for p
      using assms(2,3,4,6) a snoc by (intro chain_cong) (auto simp: nth_list_update idx_ptr_of_nat)
    ultimately show ?thesis
      using assms a au snoc
      by (auto simp: lim_release_peer_idx_def Let_def k8 ku idx_rep_def pool_set_def)
  qed
qed

section \<open>Initialisation\<close>

lemma idx_fill_spec:
  assumes "i \<le> m" "unat m \<le> length pool"
  shows "\<exists>pool'. idx_fill m i pool = Some (pool', m) \<and> length pool' = length pool \<and>
    (\<forall>j<length pool. pool' ! j = (if unat i \<le> j \<and> j < unat m then of_nat (Suc j) else pool ! j))"
  using assms
proof (induction m i pool rule: idx_fill.induct)
  case (1 m i pool)
  show ?case
  proof (cases "i < m")
    case True
    then have suc: "unat (i + 1) = Suc (unat i)" "i + 1 \<le> m"
      by (auto simp: unat_Suc_word word_le_nat_alt word_less_nat_alt)
    have set: "pool_set (unat i) (i + 1) pool = Some (pool[unat i := i + 1])"
      using True 1(3) by (simp add: pool_set_def word_less_nat_alt)
    have "i + 1 = of_nat (Suc (unat i))" by simp
    obtain pool' where p: "idx_fill m (i + 1) (pool[unat i := i + 1]) = Some (pool', m)"
      "length pool' = length pool"
      "\<forall>j<length pool. pool' ! j = (if Suc (unat i) \<le> j \<and> j < unat m then of_nat (Suc j)
         else pool[unat i := i + 1] ! j)"
      using 1(1) [OF True set] suc 1(3) by auto
    have "idx_fill m i pool = Some (pool', m)"
      using True set p(1) by (simp add: idx_fill.simps [of m i pool] del: idx_fill.simps)
    moreover have "pool' ! j = (if unat i \<le> j \<and> j < unat m then of_nat (Suc j) else pool ! j)"
      if "j < length pool" for j
    proof (cases "j = unat i")
      case True
      with p(3) that \<open>i < m\<close> show ?thesis by (auto simp: word_less_nat_alt)
    next
      case False
      with p(3) that show ?thesis by auto
    qed
    ultimately show ?thesis using p(2) by blast
  next
    case False
    with 1(2) have "i = m" by simp
    then show ?thesis by (intro exI [of _ pool]) (auto simp: idx_fill.simps [of m m pool] simp del: idx_fill.simps)
  qed
qed

lemma chain_upt:
  assumes "\<And>j. h \<le> j \<Longrightarrow> j < m \<Longrightarrow> nxt j = Some (Suc j)" "nxt m = None" "h \<le> m"
  shows "chain nxt (Some h) [h..<Suc m]"
  using assms
proof (induction "m - h" arbitrary: h)
  case 0
  then show ?case by simp
next
  case (Suc d)
  then have "chain nxt (Some (Suc h)) [Suc h..<Suc m]" by (intro Suc.hyps) auto
  moreover have "[h..<Suc m] = h # [Suc h..<Suc m]" using Suc.prems by (simp add: upt_rec)
  moreover have "nxt h = Some (Suc h)" using Suc by auto
  ultimately show ?case by simp
qed

definition first_idx :: "pe_session \<Rightarrow> nat" where
  "first_idx s = (if limSystemRole s = eLIM_STA_ROLE then 2 else 1)"

lemma lim_init_peer_idxpool_rep:
  assumes "gpLimPeerIdxpool s = Some pool" "unat max_sta < length pool" "unat max_sta \<le> 255"
    and "first_idx s \<le> unat max_sta"
  shows "\<exists>s' pool'. lim_init_peer_idxpool max_sta s = Some s' \<and> idx_rep s' [first_idx s..<Suc (unat max_sta)] \<and>
    gpLimPeerIdxpool s' = Some pool' \<and> length pool' = length pool \<and> dphHashTable s' = dphHashTable s"
proof -
  define h :: u8 where "h = (if limSystemRole s = eLIM_STA_ROLE then 2 else 1)"
  let ?m = "ucast max_sta :: u8"
  let ?n = "unat max_sta"
  have m: "unat ?m = ?n" using assms(3) by (simp add: unat_ucast_u16_u8)
  have h: "unat h = first_idx s" "h \<noteq> 0" by (simp_all add: h_def first_idx_def)
  have hm: "h \<le> ?m" using assms(4) h m by (simp add: word_le_nat_alt)
  obtain pool2 where p2: "idx_fill ?m h (pool[0 := 0]) = Some (pool2, ?m)" "length pool2 = length pool"
    "\<forall>j<length pool. pool2 ! j = (if first_idx s \<le> j \<and> j < ?n then of_nat (Suc j) else pool[0 := 0] ! j)"
    using idx_fill_spec [OF hm, of "pool[0 := 0]"] assms(2) by (auto simp: m h)
  let ?pool = "pool2[?n := 0]"
  have nxt: "idx_ptr (?pool ! j) = Some (Suc j)" if "first_idx s \<le> j" "j < ?n" for j
    using that p2 assms(2,3) by (simp add: idx_ptr_of_nat del: of_nat_Suc)
  have "idx_ptr (?pool ! ?n) = None" using p2(2) assms(2) by simp
  with nxt assms(4) have "chain (\<lambda>j. idx_ptr (?pool ! j)) (Some (first_idx s)) [first_idx s..<Suc ?n]"
    by (intro chain_upt) auto
  moreover have "idx_ptr h = Some (first_idx s)" using h by (simp add: idx_ptr_def)
  moreover have "?m = of_nat ?n" using assms(3) by (simp add: word_unat_eq_iff m unat_of_nat_u8)
  moreover have "last [first_idx s..<Suc ?n] = ?n" "[first_idx s..<Suc ?n] \<noteq> []"
    using assms(4) by simp_all
  moreover have "0 < first_idx s" by (simp add: first_idx_def)
  moreover have "lim_init_peer_idxpool max_sta s =
      Some (s\<lparr>gpLimPeerIdxpool := Some ?pool, freePeerIdxHead := h, freePeerIdxTail := ?m\<rparr>)"
  proof -
    have "(if limSystemRole s = eLIM_STA_ROLE then DPH_STA_HASH_INDEX_PEER + 1
       else if limSystemRole s = eLIM_STA_IN_IBSS_ROLE then LIM_START_PEER_IDX else LIM_START_PEER_IDX) = h"
      by (simp add: h_def DPH_STA_HASH_INDEX_PEER_def LIM_START_PEER_IDX_def)
    moreover have "0 < length pool" using assms(2) by linarith
    ultimately show ?thesis
      unfolding lim_init_peer_idxpool_def Let_def
      using assms(1,2) p2(1,2) by (simp add: pool_set_def m del: idx_fill.simps)
  qed
  ultimately show ?thesis using p2(2) assms(2,3) by (auto simp: idx_rep_def)
qed

section \<open>The contract of an index pool\<close>

text \<open>
  A pool hands out indices and takes them back. \<open>rep s free\<close> relates a state to its free
  indices in the order in which they will be handed out; \<open>usable\<close> are the indices it manages.
  A request may be refused, but what is handed out is the head of the free list.
\<close>

datatype pool_op = Take | Give nat

locale free_pool =
  fixes rep :: "'s \<Rightarrow> nat list \<Rightarrow> bool"
    and usable :: "'s \<Rightarrow> nat \<Rightarrow> bool"
    and take_idx :: "'s \<Rightarrow> 's \<times> nat option"
    and give_idx :: "nat \<Rightarrow> 's \<Rightarrow> 's"
  assumes take_cases: "rep s free \<Longrightarrow> take_idx s = (s, None) \<or>
      (\<exists>i rest s'. free = i # rest \<and> take_idx s = (s', Some i) \<and> rep s' rest \<and> usable s' = usable s)"
    and give_rep: "\<lbrakk>rep s free; i \<notin> set free; usable s i\<rbrakk> \<Longrightarrow>
      rep (give_idx i s) (free @ [i]) \<and> usable (give_idx i s) = usable s"
    and free_usable: "\<lbrakk>rep s free; i \<in> set free\<rbrakk> \<Longrightarrow> usable s i"
    and free_distinct: "rep s free \<Longrightarrow> distinct free"
begin

text \<open>A client that gives back only what it holds; \<open>held\<close> are the indices it holds.\<close>

fun serve :: "pool_op list \<Rightarrow> 's \<times> nat list \<Rightarrow> 's \<times> nat list" where
  "serve [] sh = sh"
| "serve (Take # ops) sh =
     serve ops (case take_idx (fst sh) of (s', None) \<Rightarrow> (s', snd sh) | (s', Some i) \<Rightarrow> (s', i # snd sh))"
| "serve (Give i # ops) sh =
     serve ops (if i \<in> set (snd sh) then (give_idx i (fst sh), remove1 i (snd sh)) else sh)"

text \<open>No index is lost, none is held twice, and none is both held and free.\<close>

definition accounted :: "'s \<Rightarrow> nat list \<Rightarrow> nat set \<Rightarrow> bool" where
  "accounted s held all \<longleftrightarrow> (\<exists>free. rep s free \<and> distinct (held @ free) \<and>
     set held \<union> set free = all \<and> (\<forall>i \<in> all. usable s i))"

lemma accounted_start: "rep s free \<Longrightarrow> accounted s [] (set free)"
  by (auto simp: accounted_def free_distinct free_usable)

lemma accounted_take:
  assumes "accounted s held all"
  shows "case take_idx s of (s', None) \<Rightarrow> accounted s' held all | (s', Some i) \<Rightarrow> accounted s' (i # held) all"
proof -
  from assms obtain free where f: "rep s free" "distinct (held @ free)" "set held \<union> set free = all"
    "\<forall>i \<in> all. usable s i" by (auto simp: accounted_def)
  from take_cases [OF f(1)] show ?thesis
  proof
    assume "take_idx s = (s, None)"
    with assms show ?thesis by simp
  next
    assume "\<exists>i rest s'. free = i # rest \<and> take_idx s = (s', Some i) \<and> rep s' rest \<and> usable s' = usable s"
    then obtain i rest s' where r: "free = i # rest" "take_idx s = (s', Some i)" "rep s' rest"
      "usable s' = usable s" by blast
    with f have "accounted s' (i # held) all"
      unfolding accounted_def by (intro exI [of _ rest]) auto
    with r show ?thesis by simp
  qed
qed

lemma accounted_give:
  assumes "accounted s held all" "i \<in> set held"
  shows "accounted (give_idx i s) (remove1 i held) all"
proof -
  from assms(1) obtain free where f: "rep s free" "distinct (held @ free)" "set held \<union> set free = all"
    "\<forall>i \<in> all. usable s i" by (auto simp: accounted_def)
  with assms(2) have g: "rep (give_idx i s) (free @ [i])" "usable (give_idx i s) = usable s"
    using give_rep [of s free i] by auto
  with f assms(2) show ?thesis
    unfolding accounted_def by (intro exI [of _ "free @ [i]"]) (auto simp: set_remove1_eq)
qed

lemma serve_accounted: "accounted s held all \<Longrightarrow> serve ops (s, held) = (s', held') \<Longrightarrow> accounted s' held' all"
proof (induction ops arbitrary: s held)
  case Nil
  then show ?case by simp
next
  case (Cons op ops)
  show ?case
  proof (cases op)
    case Take
    with Cons.prems accounted_take [OF Cons.prems(1)] show ?thesis
      by (auto split: prod.splits option.splits intro: Cons.IH)
  next
    case (Give i)
    with Cons.prems accounted_give [OF Cons.prems(1), of i] show ?thesis
      by (auto split: if_splits intro: Cons.IH)
  qed
qed

lemma serve_distinct:
  "rep s free \<Longrightarrow> serve ops (s, []) = (s', held) \<Longrightarrow> distinct held \<and> set held \<subseteq> set free"
  using serve_accounted [OF accounted_start] by (fastforce simp: accounted_def)

end

section \<open>The pool of a session keeps the contract\<close>

definition pool_rep :: "nat \<Rightarrow> mac_ctx \<Rightarrow> nat list \<Rightarrow> bool" where
  "pool_rep k m free \<longleftrightarrow> mac_ok m \<and> k < length (gpSession m) \<and> idx_rep (gpSession m ! k) free"

definition pool_usable :: "nat \<Rightarrow> mac_ctx \<Rightarrow> nat \<Rightarrow> bool" where
  "pool_usable k m i \<longleftrightarrow> 0 < i \<and> i < 256 \<and>
     (case gpLimPeerIdxpool (gpSession m ! k) of None \<Rightarrow> False | Some pool \<Rightarrow> i < length pool)"

definition pool_take :: "nat \<Rightarrow> mac_ctx \<Rightarrow> mac_ctx \<times> nat option" where
  "pool_take k m =
     (case lim_assign_peer_idx k m of
        None \<Rightarrow> (m, None)
      | Some (m', p) \<Rightarrow> (m', if p = 0 then None else Some (unat p)))"

definition pool_give :: "nat \<Rightarrow> nat \<Rightarrow> mac_ctx \<Rightarrow> mac_ctx" where
  "pool_give k i m =
     (case lim_release_peer_idx (of_nat i) (gpSession m ! k) of
        None \<Rightarrow> m
      | Some s \<Rightarrow> put_session k s m)"

text \<open>Below the association limit, so that a request is served when an index is free.\<close>

definition below_limit :: "mac_ctx \<Rightarrow> bool" where
  "below_limit m \<longleftrightarrow> sum_list (map (\<lambda>s. unat (gLimNumOfCurrentSTAs s)) (filter s_valid (gpSession m))) mod 256
     < unat (gLimAssocStaLimit m)"

lemma stas_count_sum:
  "mac_ok m \<Longrightarrow> pe_get_current_stas_count m =
     Some (of_nat (sum_list (map (\<lambda>s. unat (gLimNumOfCurrentSTAs s)) (filter s_valid (gpSession m)))))"
  by (simp add: pe_get_current_stas_count_def table_loop_ok foldl_stas)

lemma limit_test:
  "(gLimAssocStaLimit m \<le> ucast (of_nat (sum_list (map (\<lambda>s. unat (gLimNumOfCurrentSTAs s))
      (filter s_valid (gpSession m)))) :: u8)) \<longleftrightarrow> \<not> below_limit m"
  by (simp add: below_limit_def word_le_nat_alt unat_of_nat take_bit_nat_def not_less)

lemma lim_assign_cases:
  assumes "pool_rep k m free"
  shows "lim_assign_peer_idx k m =
    (if below_limit m
     then do { (s, p) \<leftarrow> assign_from_pool (gpSession m ! k); Some (put_session k s m, p) }
     else Some (m, 0))"
  using assms by (simp add: lim_assign_peer_idx_def pool_rep_def stas_count_sum limit_test)

lemma pool_rep_put:
  "\<lbrakk>pool_rep k m free; idx_rep s free'\<rbrakk> \<Longrightarrow> pool_rep k (put_session k s m) free'"
  by (simp add: pool_rep_def mac_ok_def)

lemma lim_assign_Cons:
  assumes "pool_rep k m (i # free)" "below_limit m"
  shows "\<exists>s'. lim_assign_peer_idx k m = Some (put_session k s' m, of_nat i) \<and>
    pool_rep k (put_session k s' m) free \<and> 0 < i \<and> i < 256 \<and>
    gLimNumOfCurrentSTAs s' = gLimNumOfCurrentSTAs (gpSession m ! k) + 1 \<and>
    gpLimPeerIdxpool s' = gpLimPeerIdxpool (gpSession m ! k) \<and> dphHashTable s' = dphHashTable (gpSession m ! k)"
proof -
  have "idx_rep (gpSession m ! k) (i # free)" using assms(1) by (simp add: pool_rep_def)
  from assign_from_pool_Cons [OF this] assms show ?thesis
    by (auto simp: lim_assign_cases [OF assms(1)] intro: pool_rep_put)
qed

lemma unat_of_nat_small_u16: "i < 256 \<Longrightarrow> unat (of_nat i :: u16) = i"
  by (simp add: unat_of_nat_u16)

interpretation peer_idx: free_pool "pool_rep k" "pool_usable k" "pool_take k" "pool_give k" for k
proof (unfold_locales, goal_cases)
  case (1 m free)
  show ?case
  proof (cases "below_limit m \<and> free \<noteq> []")
    case True
    then obtain i rest where free: "free = i # rest" by (cases free) auto
    with 1 True obtain s' where s': "lim_assign_peer_idx k m = Some (put_session k s' m, of_nat i)"
      "pool_rep k (put_session k s' m) rest" "0 < i" "i < 256"
      "gpLimPeerIdxpool s' = gpLimPeerIdxpool (gpSession m ! k)"
      using lim_assign_Cons by blast
    then have "(of_nat i :: u16) \<noteq> 0" using unat_of_nat_small_u16 [of i] by (auto simp: word_unat_eq_iff)
    with s' 1 free show ?thesis
      by (auto simp: pool_take_def unat_of_nat_small_u16 pool_usable_def fun_eq_iff pool_rep_def)
  next
    case False
    with 1 have "lim_assign_peer_idx k m = Some (m, 0)"
      by (auto simp: lim_assign_cases [OF 1] assign_from_pool_Nil pool_rep_def put_session_def)
    then show ?thesis by (simp add: pool_take_def)
  qed
next
  case (2 m free i)
  obtain pool where p: "gpLimPeerIdxpool (gpSession m ! k) = Some pool" "0 < i" "i < 256" "i < length pool"
    using 2(3) by (auto simp: pool_usable_def split: option.splits)
  have "idx_rep (gpSession m ! k) free" using 2(1) by (simp add: pool_rep_def)
  from lim_release_peer_idx_rep [OF this 2(2) p(2,3,1,4)] 2 p show ?case
    by (auto simp: pool_give_def pool_usable_def fun_eq_iff pool_rep_def mac_ok_def)
next
  case (3 m free i)
  then show ?case by (auto simp: pool_rep_def idx_rep_def pool_usable_def)
next
  case (4 m free)
  then show ?case by (auto simp: pool_rep_def intro: idx_rep_distinct)
qed

section \<open>Properties\<close>

text \<open>
  A history of the pool of session \<open>k\<close>: requests and returns by a client that returns only
  indices it holds. The second component are the indices held.
\<close>

fun idx_history :: "nat \<Rightarrow> pool_op list \<Rightarrow> mac_ctx \<times> nat list \<Rightarrow> mac_ctx \<times> nat list" where
  "idx_history k [] mh = mh"
| "idx_history k (Take # ops) (m, held) =
     idx_history k ops (case lim_assign_peer_idx k m of
         None \<Rightarrow> (m, held)
       | Some (m', p) \<Rightarrow> (m', if p = 0 then held else unat p # held))"
| "idx_history k (Give i # ops) (m, held) =
     idx_history k ops (if i \<in> set held
       then ((case lim_release_peer_idx (of_nat i) (gpSession m ! k) of
                None \<Rightarrow> m
              | Some s \<Rightarrow> put_session k s m), remove1 i held)
       else (m, held))"

lemma idx_history_take:
  "(case lim_assign_peer_idx k m of
      None \<Rightarrow> (m, held)
    | Some (m', p) \<Rightarrow> (m', if p = 0 then held else unat p # held)) =
   (case pool_take k m of (s', None) \<Rightarrow> (s', held) | (s', Some i) \<Rightarrow> (s', i # held))"
  by (auto simp: pool_take_def split: option.split)

lemma idx_history_serve: "idx_history k ops mh = peer_idx.serve k ops mh"
proof (induction ops arbitrary: mh)
  case Nil
  then show ?case by (cases mh) (simp add: peer_idx.serve.simps)
next
  case (Cons op ops)
  obtain m held where "mh = (m, held)" by (cases mh)
  then show ?case
    by (cases op) (simp_all add: Cons.IH idx_history_take pool_give_def [symmetric] peer_idx.serve.simps)
qed

definition init_pool :: "nat \<Rightarrow> mac_ctx \<Rightarrow> mac_ctx option" where
  "init_pool k m = do { s \<leftarrow> lim_init_peer_idxpool (maxStation m) (gpSession m ! k); Some (put_session k s m) }"

lemma init_pool_rep:
  assumes "mac_ok m" "k < length (gpSession m)" "gpLimPeerIdxpool (gpSession m ! k) = Some pool"
    and "unat (maxStation m) < length pool" "unat (maxStation m) \<le> 255"
    and "first_idx (gpSession m ! k) \<le> unat (maxStation m)"
  shows "\<exists>m1. init_pool k m = Some m1 \<and>
    pool_rep k m1 [first_idx (gpSession m ! k)..<Suc (unat (maxStation m))]"
  using lim_init_peer_idxpool_rep [OF assms(3-6)] assms(1,2)
  by (auto simp: init_pool_def pool_rep_def mac_ok_def)

text \<open>
  C23: association ids are never handed out twice. After \<open>lim_init_peer_idxpool\<close> on a session
  whose array has more than \<open>maxStation\<close> entries, and after any sequence of
  \<open>lim_assign_peer_idx\<close> and \<open>lim_release_peer_idx\<close> calls that returns only indices in use, the
  indices in use are distinct and lie between the first index of the role (1, or 2 for a
  station, which keeps index 1 for its access point) and \<open>maxStation\<close>.
\<close>

theorem lim_peer_idx_unique:
  assumes "mac_ok m" "k < length (gpSession m)" "gpLimPeerIdxpool (gpSession m ! k) = Some pool"
    and "unat (maxStation m) < length pool" "unat (maxStation m) \<le> 255"
    and "first_idx (gpSession m ! k) \<le> unat (maxStation m)"
  shows "\<exists>m1. init_pool k m = Some m1 \<and>
    (let held = snd (idx_history k ops (m1, [])) in
     distinct held \<and> (\<forall>i \<in> set held. first_idx (gpSession m ! k) \<le> i \<and> i \<le> unat (maxStation m)))"
proof -
  obtain m1 where m1: "init_pool k m = Some m1"
    "pool_rep k m1 [first_idx (gpSession m ! k)..<Suc (unat (maxStation m))]"
    using init_pool_rep [OF assms] by blast
  obtain m2 held where "peer_idx.serve k ops (m1, []) = (m2, held)" by fastforce
  with peer_idx.serve_distinct [OF m1(2) this] m1(1) show ?thesis
    by (auto simp: idx_history_serve Let_def)
qed

text \<open>
  the pool does not run dry early. In the same situation, as long as fewer indices are held
  than the pool has and the association limit is not reached, the next call of
  \<open>lim_assign_peer_idx\<close> returns an index that is not in use.
\<close>

theorem lim_assign_peer_idx_serves:
  assumes "mac_ok m" "k < length (gpSession m)" "gpLimPeerIdxpool (gpSession m ! k) = Some pool"
    and "unat (maxStation m) < length pool" "unat (maxStation m) \<le> 255"
    and "first_idx (gpSession m ! k) \<le> unat (maxStation m)" "init_pool k m = Some m1"
    and "idx_history k ops (m1, []) = (m2, held)" "below_limit m2"
    and "length held < Suc (unat (maxStation m)) - first_idx (gpSession m ! k)"
  shows "\<exists>m3 p. lim_assign_peer_idx k m2 = Some (m3, p) \<and> p \<noteq> 0 \<and> unat p \<notin> set held"
proof -
  let ?all = "{first_idx (gpSession m ! k)..<Suc (unat (maxStation m))}"
  have "pool_rep k m1 [first_idx (gpSession m ! k)..<Suc (unat (maxStation m))]"
    using init_pool_rep [OF assms(1-6)] assms(7) by auto
  then have "peer_idx.accounted k m2 held ?all"
    using peer_idx.serve_accounted [OF peer_idx.accounted_start] assms(8)
    by (metis idx_history_serve set_upt)
  then obtain free where f: "pool_rep k m2 free" "distinct (held @ free)" "set held \<union> set free = ?all"
    by (auto simp: peer_idx.accounted_def)
  have "free \<noteq> []"
  proof
    assume "free = []"
    with f have "card (set held) = card ?all" by simp
    with f(2) assms(10) show False by (simp add: distinct_card)
  qed
  then obtain i rest where fr: "free = i # rest" by (cases free) auto
  with lim_assign_Cons [of k m2 i rest] f(1) assms(9) obtain s' where
    "lim_assign_peer_idx k m2 = Some (put_session k s' m2, of_nat i)" "0 < i" "i < 256" by blast
  moreover from this have "unat (of_nat i :: u16) = i" by (simp add: unat_of_nat_small_u16)
  moreover have "i \<notin> set held" using f(2) fr by auto
  ultimately show ?thesis by (intro exI [of _ "put_session k s' m2"] exI [of _ "of_nat i"]) (auto simp: word_unat_eq_iff)
qed

text \<open>
  Refusals. \<open>lim_assign_peer_idx\<close> returns 0 and changes nothing when the stations of all
  sessions (counted modulo 256) have reached \<open>gLimAssocStaLimit\<close> and when no index is free;
  otherwise it returns the index at the head of the free list and counts the station.
\<close>

theorem lim_assign_peer_idx_cases:
  assumes "pool_rep k m free"
  shows "(\<not> below_limit m \<or> free = [] \<longrightarrow> lim_assign_peer_idx k m = Some (m, 0)) \<and>
    (\<forall>i rest. below_limit m \<and> free = i # rest \<longrightarrow>
       (\<exists>m'. lim_assign_peer_idx k m = Some (m', of_nat i) \<and> pool_rep k m' rest \<and>
          gLimNumOfCurrentSTAs (gpSession m' ! k) = gLimNumOfCurrentSTAs (gpSession m ! k) + 1))"
proof (intro conjI allI impI)
  assume "\<not> below_limit m \<or> free = []"
  with assms show "lim_assign_peer_idx k m = Some (m, 0)"
    by (auto simp: lim_assign_cases [OF assms] assign_from_pool_Nil pool_rep_def put_session_def)
next
  fix i rest
  assume "below_limit m \<and> free = i # rest"
  with assms lim_assign_Cons [of k m i rest] show "\<exists>m'. lim_assign_peer_idx k m = Some (m', of_nat i) \<and>
      pool_rep k m' rest \<and> gLimNumOfCurrentSTAs (gpSession m' ! k) = gLimNumOfCurrentSTAs (gpSession m ! k) + 1"
    by (auto simp: pool_rep_def)
qed

section \<open>Witnesses\<close>

text \<open>An access point session with room for three stations.\<close>

definition ap_mac :: mac_ctx where
  "ap_mac = demo_mac\<lparr>maxStation := 3,
     gpSession := [zero_session\<lparr>s_valid := True, limSystemRole := eLIM_AP_ROLE,
                     gpLimPeerIdxpool := Some [9, 9, 9, 9]\<rparr>, zero_session]\<rparr>"

definition ap_ready :: mac_ctx where
  "ap_ready = the (init_pool 0 ap_mac)"

lemma ap_mac_facts:
  "mac_ok ap_mac" "0 < length (gpSession ap_mac)" "gpLimPeerIdxpool (gpSession ap_mac ! 0) = Some [9, 9, 9, 9]"
  "unat (maxStation ap_mac) < length [9, 9, 9, 9 :: u8]" "unat (maxStation ap_mac) \<le> 255"
  "first_idx (gpSession ap_mac ! 0) \<le> unat (maxStation ap_mac)"
  by (simp_all add: ap_mac_def mac_ok_def demo_mac_def first_idx_def)

lemma ap_mac_indices: "[first_idx (gpSession ap_mac ! 0)..<Suc (unat (maxStation ap_mac))] = [1, 2, 3]"
  by (simp add: ap_mac_def first_idx_def upt_rec)

lemma ap_ready_rep: "pool_rep 0 ap_ready [1, 2, 3]" "init_pool 0 ap_mac = Some ap_ready"
  using init_pool_rep [OF ap_mac_facts]
  unfolding ap_mac_indices by (auto simp: ap_ready_def)

lemma lim_init_frame:
  "lim_init_peer_idxpool n s = Some s' \<Longrightarrow>
   gLimNumOfCurrentSTAs s' = gLimNumOfCurrentSTAs s \<and> s_valid s' = s_valid s"
  by (auto simp: lim_init_peer_idxpool_def Let_def split: bind_splits simp del: idx_fill.simps)

lemma ap_ready_below: "below_limit ap_ready"
proof -
  obtain s where s: "lim_init_peer_idxpool (maxStation ap_mac) (gpSession ap_mac ! 0) = Some s"
    "ap_ready = put_session 0 s ap_mac"
    using ap_ready_rep(2) by (auto simp: init_pool_def split: bind_splits)
  have "gLimNumOfCurrentSTAs s = 0" "s_valid s"
    using lim_init_frame [OF s(1)] by (simp_all add: ap_mac_def zero_session_def)
  then show ?thesis
    unfolding s(2) by (simp add: below_limit_def ap_mac_def demo_mac_def)
qed

theorem lim_peer_idx_unique_witness:
  "\<exists>m1. init_pool 0 ap_mac = Some m1 \<and> distinct (snd (idx_history 0 [Take, Take, Give 1, Take] (m1, [])))"
  using lim_peer_idx_unique [OF ap_mac_facts, of "[Take, Take, Give 1, Take]"] by (auto simp: Let_def)

theorem lim_assign_peer_idx_serves_witness:
  "\<exists>m3 p. lim_assign_peer_idx 0 ap_ready = Some (m3, p) \<and> p \<noteq> 0"
  using lim_assign_peer_idx_serves [OF ap_mac_facts ap_ready_rep(2), of "[]" ap_ready "[]"] ap_ready_below
  by (auto simp: ap_mac_def first_idx_def)

theorem lim_assign_peer_idx_cases_witness:
  "\<exists>m'. lim_assign_peer_idx 0 ap_ready = Some (m', 1) \<and> pool_rep 0 m' [2, 3]"
  using lim_assign_peer_idx_cases [OF ap_ready_rep(1)] ap_ready_below by auto

end
