(* ===== verification/Rx_Pn.thy ===== *)
theory Rx_Pn
  imports Prelude
begin

unbundle bit_operations_syntax

text \<open>
  Replay protection of the receive path, \<open>core/dp/txrx/ol_rx_pn.c\<close>, with the list walk
  \<open>ol_rx_mpdu_list_next\<close> of \<open>ol_txrx_internal.h\<close>, the descriptor access \<open>htt_rx_mpdu_desc_pn_ll\<close> of
  \<open>core/dp/htt/htt_rx.c\<close> and the table of PN lengths set up in \<open>ol_txrx.c\<close>.

  Network buffers are addresses; the store \<open>nxt\<close> gives the buffer that follows (\<open>None\<close> ends a
  list) and \<open>desc\<close> what the receive descriptor of a buffer says. \<open>None\<close> as a result stands for a
  null dereference or a walk that does not end.
\<close>

section \<open>Packet numbers\<close>

text \<open>\<open>union htt_rx_pn_t\<close>: the two 64-bit words, of which the shorter views are a part.\<close>

record rx_pn =
  pn_lo :: u64
  pn_hi :: u64

definition pn24 :: "rx_pn \<Rightarrow> u32" where
  "pn24 p = ucast (pn_lo p)"

definition pn48 :: "rx_pn \<Rightarrow> u64" where
  "pn48 p = pn_lo p"

datatype op_mode = wlan_op_mode_ap | wlan_op_mode_sta | wlan_op_mode_ibss | wlan_op_mode_other

type_synonym pn_cmp = "rx_pn \<Rightarrow> rx_pn \<Rightarrow> bool \<Rightarrow> op_mode \<Rightarrow> bool"

definition ol_rx_pn_cmp24 :: pn_cmp where
  "ol_rx_pn_cmp24 new_pn old_pn is_unicast opmode \<longleftrightarrow> pn24 new_pn AND 0xffffff \<le> pn24 old_pn AND 0xffffff"

definition ol_rx_pn_cmp48 :: pn_cmp where
  "ol_rx_pn_cmp48 new_pn old_pn is_unicast opmode \<longleftrightarrow>
     pn48 new_pn AND 0xffffffffffff \<le> pn48 old_pn AND 0xffffffffffff"

definition ol_rx_pn_wapi_cmp :: pn_cmp where
  "ol_rx_pn_wapi_cmp new_pn old_pn is_unicast opmode \<longleftrightarrow>
     (let pn_is_replay = (if pn_hi new_pn = pn_hi old_pn then pn_lo new_pn \<le> pn_lo old_pn
                          else pn_hi new_pn < pn_hi old_pn) in
      if is_unicast
      then if opmode = wlan_op_mode_ap then pn_is_replay \<or> pn_lo new_pn AND 1 \<noteq> 0
           else pn_is_replay \<or> pn_lo new_pn AND 1 \<noteq> 1
      else pn_is_replay)"

text \<open>The table that \<open>ol_txrx_pdev_attach\<close> sets up: PN length in bits and comparison.\<close>

datatype htt_sec_type = htt_sec_type_tkip | htt_sec_type_tkip_nomic | htt_sec_type_aes_ccmp
  | htt_sec_type_wapi | htt_sec_type_other nat

definition rx_pn_table :: "htt_sec_type \<Rightarrow> nat \<times> pn_cmp option" where
  "rx_pn_table t =
     (case t of
        htt_sec_type_tkip \<Rightarrow> (48, Some ol_rx_pn_cmp48)
      | htt_sec_type_tkip_nomic \<Rightarrow> (48, Some ol_rx_pn_cmp48)
      | htt_sec_type_aes_ccmp \<Rightarrow> (48, Some ol_rx_pn_cmp48)
      | htt_sec_type_wapi \<Rightarrow> (128, Some ol_rx_pn_wapi_cmp)
      | htt_sec_type_other _ \<Rightarrow> (0, None))"

section \<open>Descriptors and peers\<close>

record rx_desc =
  completes_mpdu :: bool
  is_encrypted :: bool
  is_wlan_mcast :: bool
  pn_31_0 :: u32
  pn_47_32 :: u16
  ext_wapi_pn_63_48 :: u16
  ext_wapi_pn_95_64 :: u32
  ext_wapi_pn_127_96 :: u32

text \<open>\<open>junk\<close> is what the result variable holds before the call.\<close>

definition htt_rx_mpdu_desc_pn :: "rx_pn \<Rightarrow> nat \<Rightarrow> rx_desc \<Rightarrow> rx_pn" where
  "htt_rx_mpdu_desc_pn junk pn_len_bits d =
     (if pn_len_bits = 24
      then junk\<lparr>pn_lo := (pn_lo junk AND NOT 0xffffffff) OR ucast (pn_31_0 d AND 0xffffff)\<rparr>
      else if pn_len_bits = 48
      then junk\<lparr>pn_lo := ucast (pn_31_0 d) OR push_bit 32 (ucast (pn_47_32 d))\<rparr>
      else if pn_len_bits = 128
      then \<lparr>pn_lo = (ucast (pn_31_0 d) OR push_bit 32 (ucast (pn_47_32 d)))
                      OR push_bit 48 (ucast (ext_wapi_pn_63_48 d)),
            pn_hi = ucast (ext_wapi_pn_95_64 d) OR push_bit 32 (ucast (ext_wapi_pn_127_96 d))\<rparr>
      else junk)"

definition OL_TXRX_NUM_EXT_TIDS :: nat where
  "OL_TXRX_NUM_EXT_TIDS = 19"

record pn_peer =
  fw_pn_check :: bool
  sec_mcast :: htt_sec_type
  sec_ucast :: htt_sec_type
  tids_last_pn :: "rx_pn list"
  tids_last_pn_valid :: "bool list"

section \<open>The check\<close>

type_synonym nstore = "nat \<Rightarrow> nat option"

partial_function (option) mpdu_last :: "nstore \<Rightarrow> (nat \<Rightarrow> rx_desc) \<Rightarrow> nat \<Rightarrow> nat option" where
  "mpdu_last nxt desc msdu =
     (if completes_mpdu (desc msdu) then Some msdu
      else case nxt msdu of None \<Rightarrow> None | Some n \<Rightarrow> mpdu_last nxt desc n)"

definition ol_rx_mpdu_list_next :: "nstore \<Rightarrow> (nat \<Rightarrow> rx_desc) \<Rightarrow> nat \<Rightarrow> (nat \<times> nat option) option" where
  "ol_rx_mpdu_list_next nxt desc mpdu_list =
     do { t \<leftarrow> mpdu_last nxt desc mpdu_list; Some (t, nxt t) }"

text \<open>The loop that frees the buffers of an MPDU up to its last one.\<close>

partial_function (option) free_mpdu :: "nstore \<Rightarrow> nat \<Rightarrow> nat \<Rightarrow> nat list \<Rightarrow> nat list option" where
  "free_mpdu nxt mpdu_tail msdu fr =
     (if msdu = mpdu_tail then Some (fr @ [msdu])
      else case nxt msdu of None \<Rightarrow> None | Some n \<Rightarrow> free_mpdu nxt mpdu_tail n (fr @ [msdu]))"

text \<open>The variables of \<open>ol_rx_pn_check_base\<close>, with the store and the buffers freed so far.\<close>

record pn_state =
  st_next :: nstore
  out_head :: "nat option"
  out_tail :: "nat option"
  last_valid :: bool
  last_pn :: rx_pn
  st_freed :: "nat list"

definition ADD_MPDU_TO_LIST :: "nat \<Rightarrow> nat \<Rightarrow> pn_state \<Rightarrow> pn_state" where
  "ADD_MPDU_TO_LIST mpdu mpdu_tail st =
     (case out_head st of
        None \<Rightarrow> st\<lparr>out_head := Some mpdu, out_tail := Some mpdu_tail\<rparr>
      | Some _ \<Rightarrow>
          st\<lparr>st_next := (case out_tail st of None \<Rightarrow> st_next st | Some t \<Rightarrow> (st_next st)(t := Some mpdu)),
             out_tail := Some mpdu_tail\<rparr>)"

record pn_check_args =
  pa_desc :: "nat \<Rightarrow> rx_desc"
  pa_len :: nat
  pa_cmp :: pn_cmp
  pa_unicast :: bool
  pa_opmode :: op_mode
  pa_junk :: rx_pn

text \<open>One turn of the loop on the MPDU that starts at \<open>mpdu\<close>; the result has the next MPDU.\<close>

definition pn_step :: "pn_check_args \<Rightarrow> pn_state \<Rightarrow> nat \<Rightarrow> (pn_state \<times> nat option) option" where
  "pn_step a st mpdu =
     do {
       (mpdu_tail, next_mpdu) \<leftarrow> ol_rx_mpdu_list_next (st_next st) (pa_desc a) mpdu;
       if \<not> is_encrypted (pa_desc a mpdu)
       then Some (ADD_MPDU_TO_LIST mpdu mpdu_tail st, next_mpdu)
       else
         let new_pn = htt_rx_mpdu_desc_pn (pa_junk a) (pa_len a) (pa_desc a mpdu);
             pn_is_replay = last_valid st \<and> pa_cmp a new_pn (last_pn st) (pa_unicast a) (pa_opmode a);
             st1 = st\<lparr>last_valid := True\<rparr>
         in if pn_is_replay
            then do { fr \<leftarrow> free_mpdu (st_next st) mpdu_tail mpdu (st_freed st);
                      Some (st1\<lparr>st_freed := fr\<rparr>, next_mpdu) }
            else Some ((ADD_MPDU_TO_LIST mpdu mpdu_tail st1)\<lparr>last_pn := new_pn\<rparr>, next_mpdu)
     }"

partial_function (option) pn_loop :: "pn_check_args \<Rightarrow> pn_state \<Rightarrow> nat option \<Rightarrow> pn_state option" where
  "pn_loop a st mpdu =
     (case mpdu of
        None \<Rightarrow> Some st
      | Some b \<Rightarrow> do { r \<leftarrow> pn_step a st b; pn_loop a (fst r) (snd r) })"

text \<open>
  The result: the store, the peer, the list that passed the check and the buffers freed.
\<close>

definition ol_rx_pn_check_base ::
  "op_mode \<Rightarrow> (nat \<Rightarrow> rx_desc) \<Rightarrow> rx_pn \<Rightarrow> pn_peer \<Rightarrow> nat \<Rightarrow> nstore \<Rightarrow> nat \<Rightarrow>
   (nstore \<times> pn_peer \<times> nat option \<times> nat list) option" where
  "ol_rx_pn_check_base opmode desc junk peer tid nxt msdu_list =
     (if fw_pn_check peer \<or> opmode = wlan_op_mode_ibss then Some (nxt, peer, Some msdu_list, [])
      else
        let uni = \<not> is_wlan_mcast (desc msdu_list);
            (pn_len, cmp) = rx_pn_table (if uni then sec_ucast peer else sec_mcast peer)
        in if pn_len = 0 then Some (nxt, peer, Some msdu_list, [])
           else if length (tids_last_pn peer) \<le> tid \<or> length (tids_last_pn_valid peer) \<le> tid then None
           else do {
             c \<leftarrow> cmp;
             st \<leftarrow> pn_loop \<lparr>pa_desc = desc, pa_len = pn_len, pa_cmp = c, pa_unicast = uni,
                              pa_opmode = opmode, pa_junk = junk\<rparr>
                     \<lparr>st_next = nxt, out_head = None, out_tail = None,
                      last_valid = tids_last_pn_valid peer ! tid, last_pn = tids_last_pn peer ! tid,
                      st_freed = []\<rparr> (Some msdu_list);
             Some ((case out_tail st of None \<Rightarrow> st_next st | Some t \<Rightarrow> (st_next st)(t := None)),
                   peer\<lparr>tids_last_pn := (tids_last_pn peer)[tid := last_pn st],
                        tids_last_pn_valid := (tids_last_pn_valid peer)[tid := last_valid st]\<rparr>,
                   out_head st, st_freed st)
           })"

text \<open>Where the two callers pass the list that passed the check.\<close>

datatype handoff = Ol_rx_fwd_check "nat option" | Ol_rx_deliver "nat option"

definition ol_rx_pn_check where
  "ol_rx_pn_check opmode desc junk peer tid nxt msdu_list =
     do { (nxt', peer', h, fr) \<leftarrow> ol_rx_pn_check_base opmode desc junk peer tid nxt msdu_list;
          Some (nxt', peer', Ol_rx_fwd_check h, fr) }"

definition ol_rx_pn_check_only where
  "ol_rx_pn_check_only opmode desc junk peer tid nxt msdu_list =
     do { (nxt', peer', h, fr) \<leftarrow> ol_rx_pn_check_base opmode desc junk peer tid nxt msdu_list;
          Some (nxt', peer', Ol_rx_deliver h, fr) }"

section \<open>The contract of a comparison\<close>

text \<open>
  What the check needs from a comparison: a frame that is not a replay has a larger number. The
  numbers of the frames that pass are then strictly increasing, so none is accepted twice.
\<close>

locale replay_check =
  fixes replay :: "'p \<Rightarrow> 'p \<Rightarrow> bool"
    and num :: "'p \<Rightarrow> nat"
  assumes fresh_is_larger: "\<not> replay new old \<Longrightarrow> num old < num new"
begin

text \<open>The frames that pass, given the last number (if there is one).\<close>

fun accepted :: "'p option \<Rightarrow> 'p list \<Rightarrow> 'p list" where
  "accepted prev [] = []"
| "accepted prev (p # ps) =
     (case prev of
        None \<Rightarrow> p # accepted (Some p) ps
      | Some l \<Rightarrow> if replay p l then accepted (Some l) ps else p # accepted (Some p) ps)"

lemma accepted_above: "p \<in> set (accepted (Some l) ps) \<Longrightarrow> num l < num p"
proof (induction ps arbitrary: l)
  case (Cons q ps)
  show ?case
  proof (cases "replay q l")
    case True
    with Cons show ?thesis by simp
  next
    case False
    then have "num l < num q" by (rule fresh_is_larger)
    with False Cons.prems Cons.IH [of q] show ?thesis by auto
  qed
qed simp

lemma accepted_increasing: "sorted_wrt (\<lambda>p q. num p < num q) (accepted prev ps)"
proof (induction ps arbitrary: prev)
  case (Cons q ps)
  show ?case
    using Cons.IH [of prev] Cons.IH [of "Some q"] accepted_above [of _ q ps] by (cases prev) auto
qed simp

lemma accepted_once: "distinct (map num (accepted prev ps))"
proof -
  have "sorted_wrt (<) (map num (accepted prev ps))"
    using accepted_increasing [of prev ps] by (simp add: sorted_wrt_map)
  then show ?thesis by (simp add: strict_sorted_iff)
qed

end

definition num24 :: "rx_pn \<Rightarrow> nat" where
  "num24 p = unat (pn24 p AND 0xffffff)"

definition num48 :: "rx_pn \<Rightarrow> nat" where
  "num48 p = unat (pn48 p AND 0xffffffffffff)"

definition num128 :: "rx_pn \<Rightarrow> nat" where
  "num128 p = unat (pn_hi p) * 2 ^ 64 + unat (pn_lo p)"

interpretation pn24: replay_check "\<lambda>new old. ol_rx_pn_cmp24 new old uni md" num24 for uni md
  by unfold_locales (simp add: ol_rx_pn_cmp24_def num24_def word_le_nat_alt)

interpretation pn48: replay_check "\<lambda>new old. ol_rx_pn_cmp48 new old uni md" num48 for uni md
  by unfold_locales (simp add: ol_rx_pn_cmp48_def num48_def word_le_nat_alt)

lemma unat_u64_less: "unat (w :: u64) < 2 ^ 64"
  using unsigned_less [of w, where ?'a = nat] by simp

lemma num128_less:
  assumes "if pn_hi new = pn_hi old then pn_lo old < pn_lo new else pn_hi old < pn_hi new"
  shows "num128 old < num128 new"
proof (cases "pn_hi new = pn_hi old")
  case True
  with assms show ?thesis by (simp add: num128_def word_less_nat_alt)
next
  case False
  with assms have "Suc (unat (pn_hi old)) \<le> unat (pn_hi new)" by (simp add: word_less_nat_alt)
  then have "Suc (unat (pn_hi old)) * 2 ^ 64 \<le> unat (pn_hi new) * 2 ^ 64" by (rule mult_le_mono1)
  with unat_u64_less [of "pn_lo old"] show ?thesis by (simp add: num128_def)
qed

interpretation wapi: replay_check "\<lambda>new old. ol_rx_pn_wapi_cmp new old uni md" num128 for uni md
proof
  fix new old
  assume "\<not> ol_rx_pn_wapi_cmp new old uni md"
  then show "num128 old < num128 new"
    by (intro num128_less) (auto simp: ol_rx_pn_wapi_cmp_def Let_def not_le not_less split: if_splits)
qed

section \<open>Reference behaviour on a list of MPDUs\<close>

text \<open>
  A received list seen as MPDUs, each a non-empty list of buffers of which only the last one
  completes the MPDU.
\<close>

definition mpdu_ok :: "(nat \<Rightarrow> rx_desc) \<Rightarrow> nat list \<Rightarrow> bool" where
  "mpdu_ok desc mp \<longleftrightarrow> mp \<noteq> [] \<and> completes_mpdu (desc (last mp)) \<and>
     (\<forall>b \<in> set (butlast mp). \<not> completes_mpdu (desc b))"

text \<open>Accepted and dropped MPDUs, and the last number, computed MPDU by MPDU.\<close>

fun pn_filter :: "pn_check_args \<Rightarrow> bool \<Rightarrow> rx_pn \<Rightarrow> nat list list \<Rightarrow>
    nat list list \<times> nat list list \<times> bool \<times> rx_pn" where
  "pn_filter a v l [] = ([], [], v, l)"
| "pn_filter a v l (mp # mps) =
     (let d = pa_desc a (hd mp); n = htt_rx_mpdu_desc_pn (pa_junk a) (pa_len a) d in
      if \<not> is_encrypted d
      then let (acc, dr, r) = pn_filter a v l mps in (mp # acc, dr, r)
      else if v \<and> pa_cmp a n l (pa_unicast a) (pa_opmode a)
      then let (acc, dr, r) = pn_filter a True l mps in (acc, mp # dr, r)
      else let (acc, dr, r) = pn_filter a True n mps in (mp # acc, dr, r))"

lemma mpdu_last_chain:
  assumes "chain nxt (Some b) (mp @ rest)" "mpdu_ok desc mp"
  shows "mpdu_last nxt desc b = Some (last mp)"
  using assms
proof (induction mp arbitrary: b)
  case Nil
  then show ?case by (simp add: mpdu_ok_def)
next
  case (Cons c mp)
  then have b: "b = c" by simp
  show ?case
  proof (cases mp)
    case Nil
    with Cons.prems b show ?thesis by (simp add: mpdu_last.simps [of nxt desc c] mpdu_ok_def)
  next
    case (Cons e es)
    with Cons.prems b have "\<not> completes_mpdu (desc b)" "nxt b = Some e" "mpdu_ok desc mp"
      "chain nxt (Some e) (mp @ rest)"
      by (auto simp: mpdu_ok_def)
    with Cons.IH [of e] Cons show ?thesis by (simp add: mpdu_last.simps [of nxt desc b])
  qed
qed

lemma chain_next_after:
  assumes "chain nxt (Some b) (mp @ rest)" "mp \<noteq> []"
  shows "chain nxt (nxt (last mp)) rest"
proof -
  have "mp @ rest = butlast mp @ last mp # rest" using assms(2) by simp
  with assms(1) show ?thesis using chain_append_tail by metis
qed

lemma free_mpdu_chain:
  assumes "chain nxt (Some b) (mp @ rest)" "mp \<noteq> []"
  shows "free_mpdu nxt (last mp) b fr = Some (fr @ mp)"
  using assms
proof (induction mp arbitrary: b fr)
  case Nil
  then show ?case by simp
next
  case (Cons c mp)
  have d: "distinct ((c # mp) @ rest)" using Cons.prems(1) by (rule chain_distinct)
  show ?case
  proof (cases mp)
    case Nil
    with Cons.prems show ?thesis by (simp add: free_mpdu.simps [of nxt _ c])
  next
    case (Cons e es)
    have "last mp \<in> set mp" using Cons by simp
    with d have "c \<noteq> last mp" by auto
    moreover have "b = c" "nxt b = Some e" "chain nxt (Some e) (mp @ rest)" "mp \<noteq> []"
      using Cons.prems Cons by auto
    ultimately show ?thesis
      using Cons.IH [of e "fr @ [c]"] by (simp add: free_mpdu.simps [of nxt "last mp" c])
  qed
qed

text \<open>The output list built so far: \<open>outs\<close> from its head, ending in the tail.\<close>

definition out_ok :: "pn_state \<Rightarrow> nat list \<Rightarrow> bool" where
  "out_ok st outs \<longleftrightarrow>
     (if outs = [] then out_head st = None \<and> out_tail st = None
      else out_tail st = Some (last outs) \<and> chain ((st_next st)(last outs := None)) (out_head st) outs)"

lemma chain_cut:
  assumes "chain nxt p (xs @ rest)" "xs \<noteq> []"
  shows "chain (nxt(last xs := None)) p xs"
proof -
  have d: "distinct (xs @ rest)" using assms(1) by (rule chain_distinct)
  from assms d show ?thesis
  proof (induction xs arbitrary: p)
    case (Cons x xs)
    show ?case
    proof (cases "xs = []")
      case False
      then have "x \<noteq> last xs" using Cons.prems(3) by auto
      with Cons False show ?thesis by auto
    qed (use Cons.prems in auto)
  qed simp
qed

lemma ADD_MPDU_simps [simp]:
  "last_valid (ADD_MPDU_TO_LIST m t st) = last_valid st" "last_pn (ADD_MPDU_TO_LIST m t st) = last_pn st"
  "st_freed (ADD_MPDU_TO_LIST m t st) = st_freed st"
  by (simp_all add: ADD_MPDU_TO_LIST_def split: option.split)

lemma ADD_MPDU_ok:
  assumes "out_ok st outs" "chain (st_next st) (Some m) (mp @ rest)" "mp \<noteq> []" "distinct (outs @ mp @ rest)"
  shows "out_ok (ADD_MPDU_TO_LIST m (last mp) st) (outs @ mp)"
    and "chain (st_next (ADD_MPDU_TO_LIST m (last mp) st)) (st_next st (last mp)) rest"
proof -
  have rest: "chain (st_next st) (st_next st (last mp)) rest" using chain_next_after [OF assms(2,3)] .
  have mp: "chain ((st_next st)(last mp := None)) (Some m) mp" using chain_cut [OF assms(2,3)] .
  have "out_ok (ADD_MPDU_TO_LIST m (last mp) st) (outs @ mp) \<and>
    chain (st_next (ADD_MPDU_TO_LIST m (last mp) st)) (st_next st (last mp)) rest"
  proof (cases "outs = []")
    case True
    with assms(1,3) mp rest show ?thesis by (simp add: out_ok_def ADD_MPDU_TO_LIST_def)
  next
    case False
    let ?t = "last outs"
    have t: "?t \<in> set outs" "?t \<notin> set mp" "?t \<notin> set rest" "?t \<noteq> last mp"
      using last_in_set [OF False] last_in_set [OF assms(3)] assms(4) by (auto simp del: last_in_set)
    have o: "out_tail st = Some ?t" "chain ((st_next st)(?t := None)) (out_head st) outs"
      using assms(1) False by (auto simp: out_ok_def)
    then obtain h where h: "out_head st = Some h" using False by (cases outs) auto
    have "last mp \<notin> set outs" using last_in_set [OF assms(3)] assms(4) by (auto simp del: last_in_set)
    with o(2) have "chain (((st_next st)(?t := None))(last mp := None)) (out_head st) outs"
      by (simp add: chain_upd_notin)
    also have "((st_next st)(?t := None))(last mp := None) = ((st_next st)(last mp := None))(?t := None)"
      using t(4) by (rule fun_upd_twist)
    finally have "chain (((st_next st)(last mp := None))(?t := None)) (out_head st) outs" .
    from chain_glue [OF this False mp t(2)]
    have "chain ((st_next st)(?t := Some m, last mp := None)) (out_head st) (outs @ mp)"
      using t(4) by (simp add: fun_upd_twist)
    with o h rest t assms(3) show ?thesis
      by (simp add: out_ok_def ADD_MPDU_TO_LIST_def chain_upd_notin)
  qed
  then show "out_ok (ADD_MPDU_TO_LIST m (last mp) st) (outs @ mp)"
    "chain (st_next (ADD_MPDU_TO_LIST m (last mp) st)) (st_next st (last mp)) rest" by blast+
qed

lemma out_ok_cong [simp]:
  "out_ok (st\<lparr>last_valid := v\<rparr>) outs = out_ok st outs" "out_ok (st\<lparr>last_pn := n\<rparr>) outs = out_ok st outs"
  "out_ok (st\<lparr>st_freed := f\<rparr>) outs = out_ok st outs"
  by (simp_all add: out_ok_def)

lemma ADD_MPDU_last_valid [simp]:
  "ADD_MPDU_TO_LIST m t (st\<lparr>last_valid := v\<rparr>) = (ADD_MPDU_TO_LIST m t st)\<lparr>last_valid := v\<rparr>"
  by (simp add: ADD_MPDU_TO_LIST_def split: option.split)

lemma pn_loop_filter:
  assumes "chain (st_next st) p (concat mps)" "\<forall>mp \<in> set mps. mpdu_ok (pa_desc a) mp"
    and "out_ok st outs" "distinct (outs @ concat mps)"
    and "pn_filter a (last_valid st) (last_pn st) mps = (acc, dr, v', l')"
  shows "\<exists>st'. pn_loop a st p = Some st' \<and> out_ok st' (outs @ concat acc) \<and>
    st_freed st' = st_freed st @ concat dr \<and> last_valid st' = v' \<and> last_pn st' = l'"
  using assms
proof (induction mps arbitrary: st p outs acc dr)
  case Nil
  then show ?case by (simp add: pn_loop.simps)
next
  case (Cons mp mps)
  have ok: "mpdu_ok (pa_desc a) mp" and ne: "mp \<noteq> []" using Cons.prems(2) by (auto simp: mpdu_ok_def)
  then obtain b where p: "p = Some b" "hd mp = b" using Cons.prems(1) by (cases mp) auto
  have ch: "chain (st_next st) (Some b) (mp @ concat mps)" using Cons.prems(1) p by simp
  have nxt: "ol_rx_mpdu_list_next (st_next st) (pa_desc a) b = Some (last mp, st_next st (last mp))"
    using mpdu_last_chain [OF ch ok] by (simp add: ol_rx_mpdu_list_next_def)
  have rest: "chain (st_next st) (st_next st (last mp)) (concat mps)" using chain_next_after [OF ch ne] .
  have dist: "distinct (outs @ mp @ concat mps)" using Cons.prems(4) by simp
  note add = ADD_MPDU_ok [OF Cons.prems(3) ch ne dist]
  let ?d = "pa_desc a b"
  let ?n = "htt_rx_mpdu_desc_pn (pa_junk a) (pa_len a) ?d"
  let ?add = "ADD_MPDU_TO_LIST b (last mp) st"
  have oks: "\<forall>mp \<in> set mps. mpdu_ok (pa_desc a) mp" using Cons.prems(2) by simp
  have dist2: "distinct ((outs @ mp) @ concat mps)" "distinct (outs @ concat mps)" using dist by auto
  consider (plain) "\<not> is_encrypted ?d"
    | (replay) "is_encrypted ?d" "last_valid st \<and> pa_cmp a ?n (last_pn st) (pa_unicast a) (pa_opmode a)"
    | (fresh) "is_encrypted ?d" "\<not> (last_valid st \<and> pa_cmp a ?n (last_pn st) (pa_unicast a) (pa_opmode a))"
    by blast
  then show ?case
  proof cases
    case plain
    obtain acc' dr' v2 l2 where f: "pn_filter a (last_valid st) (last_pn st) mps = (acc', dr', v2, l2)"
      by (metis prod_cases4)
    have r: "acc = mp # acc'" "dr = dr'" "v' = v2" "l' = l2" using Cons.prems(5) plain f p by auto
    from Cons.IH [OF add(2) oks add(1) dist2(1), of acc' dr'] f r show ?thesis
      using plain nxt by (simp add: p pn_loop.simps [of a st] pn_step_def)
  next
    case replay
    obtain acc' dr' v2 l2 where f: "pn_filter a True (last_pn st) mps = (acc', dr', v2, l2)"
      by (metis prod_cases4)
    have r: "acc = acc'" "dr = mp # dr'" "v' = v2" "l' = l2" using Cons.prems(5) replay f p by auto
    let ?st = "st\<lparr>last_valid := True, st_freed := st_freed st @ mp\<rparr>"
    have "out_ok ?st outs" using Cons.prems(3) by simp
    from Cons.IH [of ?st "st_next st (last mp)" outs acc' dr', OF _ oks this dist2(2)] f r rest show ?thesis
      using replay nxt free_mpdu_chain [OF ch ne] by (simp add: p pn_loop.simps [of a st] pn_step_def Let_def)
  next
    case fresh
    obtain acc' dr' v2 l2 where f: "pn_filter a True ?n mps = (acc', dr', v2, l2)"
      by (metis prod_cases4)
    have r: "acc = mp # acc'" "dr = dr'" "v' = v2" "l' = l2" using Cons.prems(5) fresh f p by auto
    let ?st = "?add\<lparr>last_valid := True, last_pn := ?n\<rparr>"
    have "out_ok ?st (outs @ mp)" using add(1) by simp
    from Cons.IH [of ?st "st_next st (last mp)" "outs @ mp" acc' dr', OF _ oks this dist2(1)] f r add(2) show ?thesis
      using fresh nxt by (simp add: p pn_loop.simps [of a st] pn_step_def Let_def del: de_Morgan_conj)
  qed
qed

section \<open>Numbers of the frames that pass\<close>

text \<open>The numbers of the encrypted MPDUs of a list, as the check reads them.\<close>

definition enc_pns :: "pn_check_args \<Rightarrow> nat list list \<Rightarrow> rx_pn list" where
  "enc_pns a mps = map (\<lambda>mp. htt_rx_mpdu_desc_pn (pa_junk a) (pa_len a) (pa_desc a (hd mp)))
     (filter (\<lambda>mp. is_encrypted (pa_desc a (hd mp))) mps)"

locale pn_filtering = replay_check replay num
  for replay :: "rx_pn \<Rightarrow> rx_pn \<Rightarrow> bool" and num :: "rx_pn \<Rightarrow> nat" +
  fixes a :: pn_check_args
  assumes cmp_is: "pa_cmp a n l (pa_unicast a) (pa_opmode a) = replay n l"
begin

lemma filter_accepted:
  "pn_filter a v l mps = (acc, dr, v', l') \<Longrightarrow>
   enc_pns a acc = accepted (if v then Some l else None) (enc_pns a mps)"
proof (induction mps arbitrary: v l acc dr v' l')
  case Nil
  then show ?case by (simp add: enc_pns_def)
next
  case (Cons mp mps)
  let ?n = "htt_rx_mpdu_desc_pn (pa_junk a) (pa_len a) (pa_desc a (hd mp))"
  obtain acc1 dr1 v1 l1 where 1: "pn_filter a v l mps = (acc1, dr1, v1, l1)" by (metis prod_cases4)
  obtain acc2 dr2 v2 l2 where 2: "pn_filter a True l mps = (acc2, dr2, v2, l2)" by (metis prod_cases4)
  obtain acc3 dr3 v3 l3 where 3: "pn_filter a True ?n mps = (acc3, dr3, v3, l3)" by (metis prod_cases4)
  show ?case
    using Cons.prems 1 2 3 Cons.IH [OF 1] Cons.IH [OF 2] Cons.IH [OF 3]
    by (auto simp: Let_def cmp_is enc_pns_def split: if_splits)
qed

text \<open>The number remembered at the end bounds everything accepted, and the number before.\<close>

lemma filter_last:
  "pn_filter a v l mps = (acc, dr, v', l') \<Longrightarrow>
   (\<forall>n \<in> set (enc_pns a acc). v' \<and> num n \<le> num l') \<and> (v \<longrightarrow> v' \<and> num l \<le> num l')"
proof (induction mps arbitrary: v l acc dr v' l')
  case Nil
  then show ?case by (simp add: enc_pns_def)
next
  case (Cons mp mps)
  let ?n = "htt_rx_mpdu_desc_pn (pa_junk a) (pa_len a) (pa_desc a (hd mp))"
  obtain acc1 dr1 v1 l1 where 1: "pn_filter a v l mps = (acc1, dr1, v1, l1)" by (metis prod_cases4)
  obtain acc2 dr2 v2 l2 where 2: "pn_filter a True l mps = (acc2, dr2, v2, l2)" by (metis prod_cases4)
  obtain acc3 dr3 v3 l3 where 3: "pn_filter a True ?n mps = (acc3, dr3, v3, l3)" by (metis prod_cases4)
  have "\<not> replay ?n l \<Longrightarrow> num l \<le> num ?n" using fresh_is_larger [of ?n l] by simp
  then show ?case
    using Cons.prems 1 2 3 Cons.IH [OF 1] Cons.IH [OF 2] Cons.IH [OF 3]
    by (auto simp: Let_def cmp_is enc_pns_def split: if_splits intro: order_trans)
qed

lemma filter_increasing:
  assumes "pn_filter a v l mps = (acc, dr, v', l')"
  shows "sorted_wrt (<) (map num (enc_pns a acc))" "v \<Longrightarrow> n \<in> set (enc_pns a acc) \<Longrightarrow> num l < num n"
  using filter_accepted [OF assms] accepted_increasing accepted_above by (auto simp: sorted_wrt_map)

end

text \<open>The number that counts for a security type.\<close>

definition sec_num :: "htt_sec_type \<Rightarrow> rx_pn \<Rightarrow> nat" where
  "sec_num t = (if t = htt_sec_type_wapi then num128 else num48)"

interpretation f48: pn_filtering "\<lambda>n l. ol_rx_pn_cmp48 n l (pa_unicast a) (pa_opmode a)" num48
  "a\<lparr>pa_cmp := ol_rx_pn_cmp48\<rparr>" for a
  by unfold_locales simp

interpretation f128: pn_filtering "\<lambda>n l. ol_rx_pn_wapi_cmp n l (pa_unicast a) (pa_opmode a)" num128
  "a\<lparr>pa_cmp := ol_rx_pn_wapi_cmp\<rparr>" for a
  by unfold_locales simp

lemma pn_filter_split:
  "pn_filter a v l mps = (acc, dr, v', l') \<Longrightarrow> mset acc + mset dr = mset mps \<and> set acc \<subseteq> set mps"
proof (induction mps arbitrary: v l acc dr v' l')
  case (Cons mp mps)
  let ?n = "htt_rx_mpdu_desc_pn (pa_junk a) (pa_len a) (pa_desc a (hd mp))"
  obtain acc1 dr1 v1 l1 where 1: "pn_filter a v l mps = (acc1, dr1, v1, l1)" by (metis prod_cases4)
  obtain acc2 dr2 v2 l2 where 2: "pn_filter a True l mps = (acc2, dr2, v2, l2)" by (metis prod_cases4)
  obtain acc3 dr3 v3 l3 where 3: "pn_filter a True ?n mps = (acc3, dr3, v3, l3)" by (metis prod_cases4)
  show ?case
    using Cons.prems 1 2 3 Cons.IH [OF 1] Cons.IH [OF 2] Cons.IH [OF 3]
    by (auto simp: Let_def split: if_splits)
qed simp

lemma mset_concat_sum: "mset xs + mset ys = mset zs \<Longrightarrow> mset (concat xs) + mset (concat ys) = mset (concat zs)"
proof -
  assume "mset xs + mset ys = mset zs"
  then have "sum_mset (image_mset mset (mset xs + mset ys)) = sum_mset (image_mset mset (mset zs))" by simp
  then show ?thesis by (simp add: mset_concat flip: mset_map sum_mset_sum_list)
qed

section \<open>Reading the number\<close>

lemma unat_or_shift:
  fixes x :: u64 and y :: u64
  assumes "unat x < 2 ^ n" "unat y < 2 ^ (64 - n)" "n < 64"
  shows "unat (x OR push_bit n y) = unat x + unat y * 2 ^ n"
proof -
  have t: "take_bit n x = x"
    using assms(1) by (simp add: word_unat_eq_iff unsigned_take_bit_eq take_bit_nat_eq_self)
  have "x AND push_bit n y = 0"
    by (subst t [symmetric], rule bit_eqI) (auto simp: bit_simps)
  then have "x OR push_bit n y = x + push_bit n y" by (simp add: disjunctive_add_eq_or)
  moreover have e: "(2 :: nat) ^ 64 = 2 ^ (64 - n) * 2 ^ n" using assms(3) by (simp add: power_add [symmetric])
  moreover have le: "Suc (unat y) * 2 ^ n \<le> 2 ^ (64 - n) * 2 ^ n" using assms(2) by (intro mult_le_mono1) simp
  moreover have p: "unat (push_bit n y) = unat y * 2 ^ n"
  proof -
    have "unat y * 2 ^ n < 2 ^ 64" unfolding e using assms(2) by simp
    then show ?thesis unfolding unsigned_push_bit_eq by (simp add: push_bit_eq_mult take_bit_nat_eq_self)
  qed
  moreover have "unat x + unat y * 2 ^ n < 2 ^ 64" unfolding e using le assms(1) by simp
  ultimately show ?thesis by (simp add: unat_word_ariths)
qed

lemma unat_ucast_u32_u64 [simp]: "unat (ucast (w :: u32) :: u64) = unat w"
  using unsigned_less [of w, where ?'a = nat] by (simp add: unsigned_ucast_eq take_bit_nat_eq_self)

lemma unat_ucast_u16_u64 [simp]: "unat (ucast (w :: u16) :: u64) = unat w"
proof -
  have "unat w < 2 ^ 64" by (rule less_trans [OF unat_u16_less]) simp
  then show ?thesis by (simp add: unsigned_ucast_eq take_bit_nat_eq_self)
qed

lemma unat_u32_less: "unat (w :: u32) < 2 ^ 32"
  using unsigned_less [of w, where ?'a = nat] by simp

lemma unat_u16_le: "unat (w :: u16) \<le> 65535"
  using unat_u16_less [of w] by linarith

lemma lo48: "unat (ucast (pn_31_0 d) OR push_bit 32 (ucast (pn_47_32 d)) :: u64) =
    unat (pn_31_0 d) + unat (pn_47_32 d) * 2 ^ 32"
  by (subst unat_or_shift) (use unat_u32_less [of "pn_31_0 d"] unat_u16_le [of "pn_47_32 d"] in simp_all)

lemma mask48: "w AND 0xffffffffffff = take_bit 48 (w :: u64)"
  by (simp add: take_bit_eq_mask mask_eq_exp_minus_1)

lemma num48_take_bit: "num48 p = take_bit 48 (unat (pn_lo p))"
  by (simp add: num48_def pn48_def mask48 unsigned_take_bit_eq)

lemma desc_pn_48_lo: "unat (pn_lo (htt_rx_mpdu_desc_pn junk 48 d)) = unat (pn_31_0 d) + unat (pn_47_32 d) * 2 ^ 32"
  using lo48 [of d] by (simp add: htt_rx_mpdu_desc_pn_def)

text \<open>
  The number the check compares is the one the hardware reported. For a 48-bit PN (TKIP and
  CCMP) the value compared is the two fields of the descriptor put together, whatever the
  uninitialised result variable held before, and for a 128-bit PN (WAPI) the five fields.
\<close>

theorem htt_rx_mpdu_desc_pn_value:
  "num48 (htt_rx_mpdu_desc_pn junk 48 d) = unat (pn_31_0 d) + 2 ^ 32 * unat (pn_47_32 d) \<and>
   num128 (htt_rx_mpdu_desc_pn junk 128 d) =
     unat (pn_31_0 d) + 2 ^ 32 * unat (pn_47_32 d) + 2 ^ 48 * unat (ext_wapi_pn_63_48 d)
     + 2 ^ 64 * unat (ext_wapi_pn_95_64 d) + 2 ^ 96 * unat (ext_wapi_pn_127_96 d)"
proof
  have b: "unat (pn_31_0 d) + unat (pn_47_32 d) * 2 ^ 32 < 2 ^ 48"
    using unat_u32_less [of "pn_31_0 d"] unat_u16_le [of "pn_47_32 d"] by simp
  show "num48 (htt_rx_mpdu_desc_pn junk 48 d) = unat (pn_31_0 d) + 2 ^ 32 * unat (pn_47_32 d)"
    using b by (simp add: num48_take_bit desc_pn_48_lo take_bit_nat_eq_self)
  have "unat ((ucast (pn_31_0 d) OR push_bit 32 (ucast (pn_47_32 d))) OR push_bit 48 (ucast (ext_wapi_pn_63_48 d)) :: u64)
      = unat (pn_31_0 d) + unat (pn_47_32 d) * 2 ^ 32 + unat (ext_wapi_pn_63_48 d) * 2 ^ 48"
    by (subst unat_or_shift) (use b lo48 [of d] unat_u16_le [of "ext_wapi_pn_63_48 d"] in simp_all)
  moreover have "unat (ucast (ext_wapi_pn_95_64 d) OR push_bit 32 (ucast (ext_wapi_pn_127_96 d)) :: u64)
      = unat (ext_wapi_pn_95_64 d) + unat (ext_wapi_pn_127_96 d) * 2 ^ 32"
    by (subst unat_or_shift)
      (use unat_u32_less [of "ext_wapi_pn_95_64 d"] unat_u32_less [of "ext_wapi_pn_127_96 d"] in simp_all)
  ultimately show "num128 (htt_rx_mpdu_desc_pn junk 128 d) =
     unat (pn_31_0 d) + 2 ^ 32 * unat (pn_47_32 d) + 2 ^ 48 * unat (ext_wapi_pn_63_48 d)
     + 2 ^ 64 * unat (ext_wapi_pn_95_64 d) + 2 ^ 96 * unat (ext_wapi_pn_127_96 d)"
    by (simp add: num128_def htt_rx_mpdu_desc_pn_def)
qed

section \<open>Properties of the check\<close>

text \<open>The arguments of the loop for a list of a peer, and when the check applies.\<close>

definition check_sec :: "(nat \<Rightarrow> rx_desc) \<Rightarrow> pn_peer \<Rightarrow> nat \<Rightarrow> htt_sec_type" where
  "check_sec desc peer b = (if is_wlan_mcast (desc b) then sec_mcast peer else sec_ucast peer)"

definition check_args :: "op_mode \<Rightarrow> (nat \<Rightarrow> rx_desc) \<Rightarrow> rx_pn \<Rightarrow> pn_peer \<Rightarrow> nat \<Rightarrow> pn_check_args" where
  "check_args md desc junk peer b =
     \<lparr>pa_desc = desc, pa_len = fst (rx_pn_table (check_sec desc peer b)),
      pa_cmp = the (snd (rx_pn_table (check_sec desc peer b))), pa_unicast = \<not> is_wlan_mcast (desc b),
      pa_opmode = md, pa_junk = junk\<rparr>"

definition check_applies :: "op_mode \<Rightarrow> (nat \<Rightarrow> rx_desc) \<Rightarrow> pn_peer \<Rightarrow> nat \<Rightarrow> nat \<Rightarrow> bool" where
  "check_applies md desc peer tid b \<longleftrightarrow> \<not> fw_pn_check peer \<and> md \<noteq> wlan_op_mode_ibss \<and>
     fst (rx_pn_table (check_sec desc peer b)) \<noteq> 0 \<and> tid < OL_TXRX_NUM_EXT_TIDS \<and>
     length (tids_last_pn peer) = OL_TXRX_NUM_EXT_TIDS \<and> length (tids_last_pn_valid peer) = OL_TXRX_NUM_EXT_TIDS"

lemma rx_pn_table_cmp: "fst (rx_pn_table t) \<noteq> 0 \<Longrightarrow> \<exists>c. snd (rx_pn_table t) = Some c"
  by (cases t) (auto simp: rx_pn_table_def)

lemma pn_check_base_eq:
  assumes "check_applies md desc peer tid b" "chain nxt (Some b) (concat mps)" "\<forall>mp \<in> set mps. mpdu_ok desc mp"
    and "pn_filter (check_args md desc junk peer b) (tids_last_pn_valid peer ! tid) (tids_last_pn peer ! tid) mps
         = (acc, dr, v', l')"
  shows "\<exists>nxt' h. ol_rx_pn_check_base md desc junk peer tid nxt b =
      Some (nxt', peer\<lparr>tids_last_pn := (tids_last_pn peer)[tid := l'],
                       tids_last_pn_valid := (tids_last_pn_valid peer)[tid := v']\<rparr>, h, concat dr) \<and>
    chain nxt' h (concat acc)"
proof -
  let ?a = "check_args md desc junk peer b"
  let ?st = "\<lparr>st_next = nxt, out_head = None, out_tail = None, last_valid = tids_last_pn_valid peer ! tid,
    last_pn = tids_last_pn peer ! tid, st_freed = []\<rparr>"
  obtain c where c: "snd (rx_pn_table (check_sec desc peer b)) = Some c"
    using assms(1) rx_pn_table_cmp by (auto simp: check_applies_def)
  have d: "distinct ([] @ concat mps)" using chain_distinct [OF assms(2)] by simp
  have out0: "out_ok ?st []" by (simp add: out_ok_def)
  obtain st' where st': "pn_loop ?a ?st (Some b) = Some st'" "out_ok st' (concat acc)" "st_freed st' = concat dr"
    "last_valid st' = v'" "last_pn st' = l'"
    using pn_loop_filter [of ?st "Some b" mps ?a "[]" acc dr v' l'] assms(2-4) d out0
    by (auto simp: check_args_def)
  have "chain (case out_tail st' of None \<Rightarrow> st_next st' | Some t \<Rightarrow> (st_next st')(t := None)) (out_head st') (concat acc)"
    using st'(2) by (auto simp: out_ok_def split: if_splits)
  moreover have "ol_rx_pn_check_base md desc junk peer tid nxt b =
      Some ((case out_tail st' of None \<Rightarrow> st_next st' | Some t \<Rightarrow> (st_next st')(t := None)),
            peer\<lparr>tids_last_pn := (tids_last_pn peer)[tid := l'],
                 tids_last_pn_valid := (tids_last_pn_valid peer)[tid := v']\<rparr>, out_head st', concat dr)"
    using assms(1) st' c
    by (auto simp: ol_rx_pn_check_base_def check_applies_def check_args_def check_sec_def Let_def
        case_prod_unfold OL_TXRX_NUM_EXT_TIDS_def)
  ultimately show ?thesis by blast
qed


lemma check_args_48:
  assumes "fst (rx_pn_table (check_sec desc peer b)) \<noteq> 0" "check_sec desc peer b \<noteq> htt_sec_type_wapi"
  shows "(check_args md desc junk peer b)\<lparr>pa_cmp := ol_rx_pn_cmp48\<rparr> = check_args md desc junk peer b"
  using assms by (cases "check_sec desc peer b") (auto simp: check_args_def rx_pn_table_def)

lemma check_args_128:
  assumes "check_sec desc peer b = htt_sec_type_wapi"
  shows "(check_args md desc junk peer b)\<lparr>pa_cmp := ol_rx_pn_wapi_cmp\<rparr> = check_args md desc junk peer b"
  using assms by (auto simp: check_args_def rx_pn_table_def)

lemma check_numbers:
  fixes peer md junk desc b
  defines "num \<equiv> sec_num (check_sec desc peer b)" and "a \<equiv> check_args md desc junk peer b"
  assumes "fst (rx_pn_table (check_sec desc peer b)) \<noteq> 0" "pn_filter a v l mps = (acc, dr, v', l')"
  shows "sorted_wrt (<) (map num (enc_pns a acc))" "v \<Longrightarrow> n \<in> set (enc_pns a acc) \<Longrightarrow> num l < num n"
    "n \<in> set (enc_pns a acc) \<Longrightarrow> v' \<and> num n \<le> num l'"
proof -
  consider "check_sec desc peer b = htt_sec_type_wapi" | "check_sec desc peer b \<noteq> htt_sec_type_wapi" by blast
  then have "sorted_wrt (<) (map num (enc_pns a acc)) \<and> (v \<longrightarrow> (\<forall>n \<in> set (enc_pns a acc). num l < num n)) \<and>
    (\<forall>n \<in> set (enc_pns a acc). v' \<and> num n \<le> num l')"
  proof cases
    case 1
    have "pn_filter (a\<lparr>pa_cmp := ol_rx_pn_wapi_cmp\<rparr>) v l mps = (acc, dr, v', l')"
      using assms(4) check_args_128 [OF 1] by (simp add: a_def)
    with f128.filter_increasing [OF this] f128.filter_last [OF this] check_args_128 [OF 1] 1 show ?thesis
      by (auto simp: a_def num_def sec_num_def)
  next
    case 2
    have "pn_filter (a\<lparr>pa_cmp := ol_rx_pn_cmp48\<rparr>) v l mps = (acc, dr, v', l')"
      using assms(4) check_args_48 [OF assms(3) 2] by (simp add: a_def)
    with f48.filter_increasing [OF this] f48.filter_last [OF this] check_args_48 [OF assms(3) 2] 2 show ?thesis
      by (auto simp: a_def num_def sec_num_def)
  qed
  then show "sorted_wrt (<) (map num (enc_pns a acc))" "v \<Longrightarrow> n \<in> set (enc_pns a acc) \<Longrightarrow> num l < num n"
    "n \<in> set (enc_pns a acc) \<Longrightarrow> v' \<and> num n \<le> num l'" by blast+
qed


text \<open>
  replay protection across calls. When two lists of the same TID and the same security type
  are checked one after the other, every encrypted MPDU accepted from the second list has a larger
  packet number than every encrypted MPDU accepted from the first, however the second list (and
  the descriptors of its buffers) came about.
\<close>

theorem ol_rx_pn_no_replay_across_calls:
  assumes "check_applies md desc peer tid b" "chain nxt (Some b) (concat mps)" "\<forall>mp \<in> set mps. mpdu_ok desc mp"
    and "ol_rx_pn_check_base md desc junk peer tid nxt b = Some (nxt1, peer1, h1, fr1)"
    and "check_applies md desc2 peer1 tid b2" "chain nxt2 (Some b2) (concat mps2)" "\<forall>mp \<in> set mps2. mpdu_ok desc2 mp"
    and "check_sec desc2 peer1 b2 = check_sec desc peer b"
  shows "\<exists>acc1 acc2 nxt3 peer3 h3 fr3. chain nxt1 h1 (concat acc1) \<and>
    ol_rx_pn_check_base md desc2 junk2 peer1 tid nxt2 b2 = Some (nxt3, peer3, h3, fr3) \<and>
    chain nxt3 h3 (concat acc2) \<and>
    (\<forall>n1 \<in> set (enc_pns (check_args md desc junk peer b) acc1).
     \<forall>n2 \<in> set (enc_pns (check_args md desc2 junk2 peer1 b2) acc2).
       sec_num (check_sec desc peer b) n1 < sec_num (check_sec desc peer b) n2)"
proof -
  obtain acc1 dr1 v1 l1 where f1: "pn_filter (check_args md desc junk peer b) (tids_last_pn_valid peer ! tid)
      (tids_last_pn peer ! tid) mps = (acc1, dr1, v1, l1)"
    by (metis prod_cases4)
  obtain acc2 dr2 v2 l2 where f2: "pn_filter (check_args md desc2 junk2 peer1 b2) (tids_last_pn_valid peer1 ! tid)
      (tids_last_pn peer1 ! tid) mps2 = (acc2, dr2, v2, l2)"
    by (metis prod_cases4)
  have len: "fst (rx_pn_table (check_sec desc peer b)) \<noteq> 0" using assms(1) by (simp add: check_applies_def)
  have c1: "chain nxt1 h1 (concat acc1)" and p1: "tids_last_pn_valid peer1 ! tid = v1" "tids_last_pn peer1 ! tid = l1"
    using pn_check_base_eq [OF assms(1-3) f1] assms(1,4) by (auto simp: check_applies_def)
  have lt: "sec_num (check_sec desc peer b) n1 < sec_num (check_sec desc peer b) n2"
    if "n1 \<in> set (enc_pns (check_args md desc junk peer b) acc1)"
      "n2 \<in> set (enc_pns (check_args md desc2 junk2 peer1 b2) acc2)" for n1 n2
    using check_numbers(3) [OF len f1 that(1)]
      check_numbers(2) [of desc2 peer1 b2, OF _ f2 _ that(2)] len p1 assms(8) by auto
  from pn_check_base_eq [OF assms(5-7) f2] c1 lt show ?thesis by blast
qed

section \<open>Witnesses\<close>

text \<open>
  Two MPDUs, buffers 1 and 2 and buffer 3, both encrypted with PN 5, for a peer whose last
  number was 4.
\<close>

definition demo_desc :: "nat \<Rightarrow> rx_desc" where
  "demo_desc b = \<lparr>completes_mpdu = b \<noteq> 1, is_encrypted = True, is_wlan_mcast = False, pn_31_0 = 5,
     pn_47_32 = 0, ext_wapi_pn_63_48 = 0, ext_wapi_pn_95_64 = 0, ext_wapi_pn_127_96 = 0\<rparr>"

definition demo_pn :: "u64 \<Rightarrow> rx_pn" where
  "demo_pn n = \<lparr>pn_lo = n, pn_hi = 0\<rparr>"

definition demo_peer :: pn_peer where
  "demo_peer = \<lparr>fw_pn_check = False, sec_mcast = htt_sec_type_aes_ccmp, sec_ucast = htt_sec_type_aes_ccmp,
     tids_last_pn = replicate 19 (demo_pn 4), tids_last_pn_valid = replicate 19 True\<rparr>"

definition demo_next :: nstore where
  "demo_next = [1 \<mapsto> 2, 2 \<mapsto> 3]"

lemma demo_applies: "check_applies wlan_op_mode_sta demo_desc demo_peer 0 1"
  by (simp add: check_applies_def demo_peer_def demo_desc_def check_sec_def rx_pn_table_def OL_TXRX_NUM_EXT_TIDS_def)

lemma demo_chain: "chain demo_next (Some 1) (concat [[1, 2], [3]])" "\<forall>mp \<in> set [[1, 2], [3]]. mpdu_ok demo_desc mp"
  by (simp_all add: demo_next_def mpdu_ok_def demo_desc_def)

lemma demo_filter:
  "pn_filter (check_args wlan_op_mode_sta demo_desc (demo_pn 0) demo_peer 1) (tids_last_pn_valid demo_peer ! 0)
     (tids_last_pn demo_peer ! 0) [[1, 2], [3]] = ([[1, 2]], [[3]], True, demo_pn 5)"
  by (simp add: check_args_def check_sec_def demo_desc_def demo_peer_def rx_pn_table_def htt_rx_mpdu_desc_pn_def
      ol_rx_pn_cmp48_def pn48_def demo_pn_def)



theorem ol_rx_pn_no_replay_across_calls_witness:
  "\<exists>nxt1 peer1 h1 fr1 nxt3 peer3 h3 fr3.
     ol_rx_pn_check_base wlan_op_mode_sta demo_desc (demo_pn 0) demo_peer 0 demo_next 1 = Some (nxt1, peer1, h1, fr1) \<and>
     ol_rx_pn_check_base wlan_op_mode_sta demo_desc (demo_pn 0) peer1 0 demo_next 1 = Some (nxt3, peer3, h3, fr3)"
proof -
  from pn_check_base_eq [OF demo_applies demo_chain demo_filter] obtain nxt1 h1 peer1 where
    c: "ol_rx_pn_check_base wlan_op_mode_sta demo_desc (demo_pn 0) demo_peer 0 demo_next 1 = Some (nxt1, peer1, h1, [3])"
    and p: "peer1 = demo_peer\<lparr>tids_last_pn := (tids_last_pn demo_peer)[0 := demo_pn 5],
       tids_last_pn_valid := (tids_last_pn_valid demo_peer)[0 := True]\<rparr>"
    by auto
  have "check_applies wlan_op_mode_sta demo_desc peer1 0 1" "check_sec demo_desc peer1 1 = check_sec demo_desc demo_peer 1"
    using demo_applies by (auto simp: check_applies_def check_sec_def p)
  from ol_rx_pn_no_replay_across_calls [OF demo_applies demo_chain c this(1) demo_chain this(2), of "demo_pn 0"] c
  show ?thesis by blast
qed

end
