(* ===== verification/Rx_Defrag.thy ===== *)
theory Rx_Defrag
  imports Rx_Pn
begin

text \<open>
  The receive reorder state of a physical device and its peers, and the part of it that collects
  fragments: \<open>core/dp/txrx/ol_rx_defrag.c\<close> (fragment list, storing of fragments, wait list). The
  reordering proper (\<open>ol_rx_reorder.c\<close>) works on the same state and is in the next theory.

  Network buffers are addresses with a store of next pointers, as in the replay check. The wait
  list is a BSD tail queue; its elements are the per-TID reorder structures, named by the number of
  the peer and the TID. \<open>None\<close> as a result stands for an invalid access or a loop that does not end.
\<close>

section \<open>State\<close>

text \<open>An element of the reorder array (\<open>ol_rx_reorder_array_elem_t\<close>).\<close>

record slot =
  sl_head :: "nat option"
  sl_tail :: "nat option"

definition empty_slot :: slot where
  "empty_slot = \<lparr>sl_head = None, sl_tail = None\<rparr>"

text \<open>
  \<open>ol_rx_reorder_t\<close>: \<open>r_array\<close> is the array the pointer refers to (\<open>None\<close> for a null pointer) and
  \<open>r_is_base\<close> tells that it is the built-in single element.
\<close>

record reorder =
  win_sz :: u8
  win_sz_mask :: u8
  num_mpdus :: u8
  r_array :: "slot list option"
  r_is_base :: bool
  r_tid :: u16
  defrag_timeout_ms :: u32
  to_active :: bool
  to_stamp :: u32

record ro_peer =
  tids_rx_reorder :: "reorder list"
  tids_last_seq :: "u16 list"
  tids_mcast_last_seq :: "u16 list"
  tids_next_rel_idx :: "u16 list"
  ro_fw_pn_check :: bool

type_synonym ref = "nat \<times> nat"

text \<open>The targets of \<open>tqe_prev\<close> and \<open>tqh_last\<close>: the head's first pointer or an element's next pointer.\<close>

datatype tq_ptr = FirstField | NextField ref

text \<open>Calls that pass a list of buffers on.\<close>

datatype rx_call = Rx_opt_proc nat nat "nat option" | Ol_rx_defrag nat nat "nat option"

record ac_timeout =
  duration_ms :: u32
  timer_list :: "ref list"
  timer_starts :: "u32 list"

record rx_pdev =
  nb_next :: nstore
  rx_peers :: "ro_peer list"
  wl_first :: "ref option"
  wl_last :: tq_ptr
  wl_next :: "ref \<Rightarrow> ref option"
  wl_prev :: "ref \<Rightarrow> tq_ptr option"
  access_cats :: "ac_timeout list"
  defrag_timeout_check :: bool
  defrag_timeout :: u32
  nb_freed :: "nat list"
  rx_calls :: "rx_call list"

text \<open>What the code reads of the header and the descriptor of a buffer.\<close>

record frame_info =
  fi_seq :: u16
  fi_fragno :: u8
  fi_more_frag :: bool
  fi_addr1 :: mac_addr
  fi_addr2 :: mac_addr
  fi_desc_seq :: u16
  fi_desc_tid :: u16
  fi_retry :: bool
  fi_is_frag :: bool

type_synonym frames = "nat \<Rightarrow> frame_info"

text \<open>Access to the reorder structure of a peer and TID, and to a slot of its array.\<close>

definition get_ro :: "nat \<Rightarrow> nat \<Rightarrow> rx_pdev \<Rightarrow> reorder option" where
  "get_ro p tid pd =
     (if p < length (rx_peers pd) \<and> tid < length (tids_rx_reorder (rx_peers pd ! p))
      then Some (tids_rx_reorder (rx_peers pd ! p) ! tid) else None)"

definition upd_peer :: "nat \<Rightarrow> (ro_peer \<Rightarrow> ro_peer) \<Rightarrow> rx_pdev \<Rightarrow> rx_pdev" where
  "upd_peer p f pd = pd\<lparr>rx_peers := (rx_peers pd)[p := f (rx_peers pd ! p)]\<rparr>"

definition put_ro :: "nat \<Rightarrow> nat \<Rightarrow> reorder \<Rightarrow> rx_pdev \<Rightarrow> rx_pdev" where
  "put_ro p tid r pd = upd_peer p (\<lambda>pe. pe\<lparr>tids_rx_reorder := (tids_rx_reorder pe)[tid := r]\<rparr>) pd"

definition get_slot :: "nat \<Rightarrow> reorder \<Rightarrow> slot option" where
  "get_slot i r = (case r_array r of None \<Rightarrow> None | Some a \<Rightarrow> if i < length a then Some (a ! i) else None)"

definition put_slot :: "nat \<Rightarrow> slot \<Rightarrow> reorder \<Rightarrow> reorder" where
  "put_slot i s r = r\<lparr>r_array := map_option (\<lambda>a. a[i := s]) (r_array r)\<rparr>"

section \<open>Freeing a list of frames\<close>

partial_function (option) walk_list :: "nstore \<Rightarrow> nat option \<Rightarrow> nat list \<Rightarrow> nat list option" where
  "walk_list nxt b acc = (case b of None \<Rightarrow> Some acc | Some x \<Rightarrow> walk_list nxt (nxt x) (acc @ [x]))"

definition ol_rx_frames_free :: "nat option \<Rightarrow> rx_pdev \<Rightarrow> rx_pdev option" where
  "ol_rx_frames_free frames pd =
     do { fr \<leftarrow> walk_list (nb_next pd) frames []; Some (pd\<lparr>nb_freed := nb_freed pd @ fr\<rparr>) }"

lemma walk_list_chain: "chain nxt b xs \<Longrightarrow> walk_list nxt b acc = Some (acc @ xs)"
proof (induction xs arbitrary: b acc)
  case Nil
  then show ?case by (simp add: walk_list.simps)
next
  case (Cons x xs)
  then show ?case by (simp add: walk_list.simps [of nxt "Some x"])
qed

section \<open>The wait list\<close>

definition tq_write :: "tq_ptr \<Rightarrow> ref option \<Rightarrow> rx_pdev \<Rightarrow> rx_pdev" where
  "tq_write q v pd =
     (case q of
        FirstField \<Rightarrow> pd\<lparr>wl_first := v\<rparr>
      | NextField r \<Rightarrow> pd\<lparr>wl_next := (wl_next pd)(r := v)\<rparr>)"

definition TAILQ_INSERT_TAIL :: "ref \<Rightarrow> rx_pdev \<Rightarrow> rx_pdev" where
  "TAILQ_INSERT_TAIL e pd =
     (let pd1 = pd\<lparr>wl_next := (wl_next pd)(e := None)\<rparr>;
          pd2 = pd1\<lparr>wl_prev := (wl_prev pd1)(e := Some (wl_last pd1))\<rparr>;
          pd3 = tq_write (wl_last pd2) (Some e) pd2
      in pd3\<lparr>wl_last := NextField e\<rparr>)"

definition TAILQ_REMOVE :: "ref \<Rightarrow> rx_pdev \<Rightarrow> rx_pdev option" where
  "TAILQ_REMOVE e pd =
     (case wl_prev pd e of
        None \<Rightarrow> None
      | Some q \<Rightarrow>
          let pd1 = (case wl_next pd e of
                       Some n \<Rightarrow> pd\<lparr>wl_prev := (wl_prev pd)(n := Some q)\<rparr>
                     | None \<Rightarrow> pd\<lparr>wl_last := q\<rparr>)
          in (case wl_prev pd1 e of
                None \<Rightarrow> None
              | Some q1 \<Rightarrow> Some (tq_write q1 (wl_next pd1 e) pd1)))"

definition ol_rx_defrag_waitlist_add :: "nat \<Rightarrow> nat \<Rightarrow> rx_pdev \<Rightarrow> rx_pdev" where
  "ol_rx_defrag_waitlist_add p tid pd = TAILQ_INSERT_TAIL (p, tid) pd"

text \<open>The second branch of the source repeats the condition of the first and is never taken.\<close>

definition ol_rx_defrag_waitlist_remove :: "nat \<Rightarrow> nat \<Rightarrow> rx_pdev \<Rightarrow> rx_pdev option" where
  "ol_rx_defrag_waitlist_remove p tid pd =
     (let e = (p, tid) in
      if wl_next pd e \<noteq> None
      then do {
        pd1 \<leftarrow> TAILQ_REMOVE e pd;
        Some (pd1\<lparr>wl_next := (wl_next pd1)(e := None), wl_prev := (wl_prev pd1)(e := None)\<rparr>)
      }
      else if wl_next pd e \<noteq> None then Some (pd\<lparr>wl_next := (wl_next pd)(e := None)\<rparr>)
      else Some pd)"

definition ol_rx_reorder_flush_frag :: "nat \<Rightarrow> nat \<Rightarrow> nat \<Rightarrow> rx_pdev \<Rightarrow> rx_pdev option" where
  "ol_rx_reorder_flush_frag p tid seq_num pd =
     do {
       r \<leftarrow> get_ro p tid pd;
       let seq = seq_num AND unat (win_sz_mask r);
       s \<leftarrow> get_slot seq r;
       (case sl_head s of
          None \<Rightarrow> Some pd
        | Some h \<Rightarrow> do {
            pd1 \<leftarrow> ol_rx_frames_free (Some h) pd;
            Some (put_ro p tid (put_slot seq empty_slot r) pd1)
          })
     }"

text \<open>\<open>TAILQ_FOREACH_SAFE\<close>: the successor is read before the body runs.\<close>

partial_function (option) waitlist_flush_loop :: "u32 \<Rightarrow> ref option \<Rightarrow> rx_pdev \<Rightarrow> rx_pdev option" where
  "waitlist_flush_loop now_ms e pd =
     (case e of
        None \<Rightarrow> Some pd
      | Some pt \<Rightarrow>
          do {
            r \<leftarrow> get_ro (fst pt) (snd pt) pd;
            if now_ms < defrag_timeout_ms r then Some pd
            else do {
              let tmp = wl_next pd pt;
              pd1 \<leftarrow> ol_rx_defrag_waitlist_remove (fst pt) (unat (r_tid r)) pd;
              pd2 \<leftarrow> ol_rx_reorder_flush_frag (fst pt) (unat (r_tid r)) 0 pd1;
              waitlist_flush_loop now_ms tmp pd2
            }
          })"

definition ol_rx_defrag_waitlist_flush :: "u32 \<Rightarrow> rx_pdev \<Rightarrow> rx_pdev option" where
  "ol_rx_defrag_waitlist_flush now_ms pd = waitlist_flush_loop now_ms (wl_first pd) pd"

section \<open>The fragment list\<close>

text \<open>The search loop: the number read last, the buffer it was read from, and its successor.\<close>

partial_function (option) frag_walk ::
  "frames \<Rightarrow> nstore \<Rightarrow> u8 \<Rightarrow> nat \<Rightarrow> (u8 \<times> nat \<times> nat option) option" where
  "frag_walk fi nxt fragno cur =
     (if fi_fragno (fi cur) < fragno
      then case nxt cur of None \<Rightarrow> None | Some n \<Rightarrow> frag_walk fi nxt fragno n
      else Some (fi_fragno (fi cur), cur, nxt cur))"

text \<open>The loop that compares the numbers with 1, 2, ...\<close>

partial_function (option) frag_complete :: "frames \<Rightarrow> nstore \<Rightarrow> nat \<Rightarrow> u8 \<Rightarrow> bool option" where
  "frag_complete fi nxt cur cnt =
     (if fi_fragno (fi cur) \<noteq> cnt + 1 then Some False
      else case nxt cur of None \<Rightarrow> Some True | Some n \<Rightarrow> frag_complete fi nxt n (cnt + 1))"

text \<open>
  The result: the store, the slot, the value of \<open>all_frag_present\<close> (unchanged for the first
  fragment) and the buffers freed.
\<close>

definition ol_rx_fraglist_insert ::
  "frames \<Rightarrow> nstore \<Rightarrow> slot \<Rightarrow> nat \<Rightarrow> bool \<Rightarrow> (nstore \<times> slot \<times> bool \<times> nat list) option" where
  "ol_rx_fraglist_insert fi nxt s frag present =
     (let fragno = fi_fragno (fi frag) in
      case sl_head s of
        None \<Rightarrow> Some (nxt(frag := None), \<lparr>sl_head = Some frag, sl_tail = Some frag\<rparr>, present, [])
      | Some h \<Rightarrow>
          do {
            t \<leftarrow> sl_tail s;
            r \<leftarrow> (if fi_fragno (fi t) < fragno
                 then Some (Some (nxt(t := Some frag, frag := None), Some frag))
                 else do {
                   (cur_fragno, prev, cur) \<leftarrow> frag_walk fi nxt fragno h;
                   if fragno = cur_fragno then Some None
                   else Some (Some (nxt(prev := Some frag, frag := cur), Some t))
                 });
            (case r of
               None \<Rightarrow> Some (nxt, s, False, [frag])
             | Some (nxt1, tl1) \<Rightarrow>
                 do {
                   t1 \<leftarrow> tl1;
                   present' \<leftarrow> (if \<not> fi_more_frag (fi t1)
                               then do { n \<leftarrow> nxt1 h; frag_complete fi nxt1 n 0 }
                               else Some False);
                   Some (nxt1, s\<lparr>sl_tail := tl1\<rparr>, present', [])
                 })
          })"

text \<open>The part of the function that drops the fragments of another frame; the mapping covers both.\<close>

definition frag_drop_other :: "frames \<Rightarrow> nat \<Rightarrow> slot \<Rightarrow> rx_pdev \<Rightarrow> (rx_pdev \<times> slot) option" where
  "frag_drop_other fi frag s pd =
     (case sl_head s of
        None \<Rightarrow> Some (pd, s)
      | Some h \<Rightarrow>
          if fi_seq (fi frag) \<noteq> fi_seq (fi h) \<or> fi_addr1 (fi frag) \<noteq> fi_addr1 (fi h) \<or> fi_addr2 (fi frag) \<noteq> fi_addr2 (fi h)
          then do { pd' \<leftarrow> ol_rx_frames_free (Some h) pd; Some (pd', empty_slot) }
          else Some (pd, s))"

definition ol_rx_reorder_store_frag ::
  "frames \<Rightarrow> u32 \<Rightarrow> nat \<Rightarrow> nat \<Rightarrow> u16 \<Rightarrow> nat \<Rightarrow> rx_pdev \<Rightarrow> rx_pdev option" where
  "ol_rx_reorder_store_frag fi now_ms p tid seq_num frag pd =
     do {
       r \<leftarrow> get_ro p tid pd;
       let seq = unat (seq_num AND ucast (win_sz_mask r));
       s \<leftarrow> get_slot seq r;
       let f = fi frag;
       if \<not> fi_more_frag f \<and> fi_fragno f = 0 \<and> sl_head s = None
       then do {
         (nxt1, s1, _, _) \<leftarrow> ol_rx_fraglist_insert fi (nb_next pd) s frag False;
         let pd1 = pd\<lparr>nb_next := nxt1(frag := None), rx_calls := rx_calls pd @ [Ol_rx_defrag p tid (sl_head s1)]\<rparr>;
         Some (put_ro p tid (put_slot seq empty_slot r) pd1)
       }
       else do {
         (pd1, s1) \<leftarrow> frag_drop_other fi frag s pd;
         (nxt2, s2, present, fr) \<leftarrow> ol_rx_fraglist_insert fi (nb_next pd1) s1 frag False;
         let pd2 = put_ro p tid (put_slot seq s2 r) (pd1\<lparr>nb_next := nxt2, nb_freed := nb_freed pd1 @ fr\<rparr>);
         pd3 \<leftarrow> (if defrag_timeout_check pd2 then ol_rx_defrag_waitlist_remove p tid pd2 else Some pd2);
         if present
         then Some (upd_peer p (\<lambda>pe. pe\<lparr>tids_last_seq := (tids_last_seq pe)[tid := seq_num]\<rparr>)
                (put_ro p tid ((put_slot seq empty_slot r)\<lparr>defrag_timeout_ms := 0\<rparr>)
                  (pd3\<lparr>rx_calls := rx_calls pd3 @ [Ol_rx_defrag p tid (sl_head s2)]\<rparr>)))
         else if defrag_timeout_check pd3
         then Some (ol_rx_defrag_waitlist_add p tid
                (put_ro p tid ((put_slot seq s2 r)\<lparr>defrag_timeout_ms := now_ms + defrag_timeout pd3\<rparr>) pd3))
         else Some pd3
       }
     }"

section \<open>Facts on the wait list\<close>

text \<open>\<open>wl_rep pd xs\<close>: the wait list holds the elements \<open>xs\<close>, with all its pointers in place.\<close>

definition wl_rep :: "rx_pdev \<Rightarrow> ref list \<Rightarrow> bool" where
  "wl_rep pd xs \<longleftrightarrow> chain (wl_next pd) (wl_first pd) xs \<and>
     wl_last pd = (if xs = [] then FirstField else NextField (last xs)) \<and>
     (\<forall>as e bs. xs = as @ e # bs \<longrightarrow>
        wl_prev pd e = Some (if as = [] then FirstField else NextField (last as)))"

lemma wl_rep_prev:
  "wl_rep pd (as @ e # bs) \<Longrightarrow> wl_prev pd e = Some (if as = [] then FirstField else NextField (last as))"
  unfolding wl_rep_def by blast

lemma wl_rep_distinct: "wl_rep pd xs \<Longrightarrow> distinct xs"
  unfolding wl_rep_def by (blast dest: chain_distinct)

lemma wl_rep_next_last: "wl_rep pd (xs @ [e]) \<Longrightarrow> wl_next pd e = None"
  using chain_append_tail [of "wl_next pd" "wl_first pd" xs e "[]"] by (simp add: wl_rep_def)

lemma wl_rep_next: "wl_rep pd (as @ e # b # bs) \<Longrightarrow> wl_next pd e = Some b"
  using chain_append_tail [of "wl_next pd" "wl_first pd" as e "b # bs"] by (simp add: wl_rep_def)

lemma chain_snoc:
  assumes "chain nxt p xs" "e \<notin> set xs" "xs \<noteq> []"
  shows "chain (nxt(e := None, last xs := Some e)) p (xs @ [e])"
proof -
  have l: "last xs \<noteq> e" using assms(2,3) by auto
  have "chain (nxt(e := None)) p xs" using assms(1,2) by (simp add: chain_upd_notin)
  moreover have "chain (nxt(e := None)) (Some e) [e]" by simp
  moreover have "chain ((nxt(e := None))(last xs := None)) p xs"
  proof -
    have "nxt (last xs) = None"
      using assms(1,3) chain_append_tail [of nxt p "butlast xs" "last xs" "[]"] by simp
    with l have "(nxt(e := None))(last xs := None) = nxt(e := None)" by (auto simp: fun_eq_iff)
    with calculation(1) show ?thesis by simp
  qed
  ultimately show ?thesis using chain_glue [of "nxt(e := None)" xs p e "[e]"] assms l by simp
qed

lemma snoc_split:
  "xs @ [e] = as @ d # bs \<longleftrightarrow> (bs = [] \<and> as = xs \<and> d = e) \<or> (\<exists>cs. bs = cs @ [e] \<and> xs = as @ d # cs)"
  by (cases bs rule: rev_cases) auto

lemma waitlist_add_rep:
  assumes "wl_rep pd xs" "(p, tid) \<notin> set xs"
  shows "wl_rep (ol_rx_defrag_waitlist_add p tid pd) (xs @ [(p, tid)])"
proof (cases "xs = []")
  case True
  with assms show ?thesis
    by (auto simp: wl_rep_def ol_rx_defrag_waitlist_add_def TAILQ_INSERT_TAIL_def Let_def tq_write_def Cons_eq_append_conv)
next
  case False
  let ?e = "(p, tid)"
  let ?pd = "ol_rx_defrag_waitlist_add p tid pd"
  have f: "wl_next ?pd = (wl_next pd)(?e := None, last xs := Some ?e)" "wl_first ?pd = wl_first pd"
    "wl_last ?pd = NextField ?e" "wl_prev ?pd = (wl_prev pd)(?e := Some (NextField (last xs)))"
    using assms False by (auto simp: wl_rep_def ol_rx_defrag_waitlist_add_def TAILQ_INSERT_TAIL_def Let_def tq_write_def)
  have "chain (wl_next ?pd) (wl_first ?pd) (xs @ [?e])"
    unfolding f using assms False by (intro chain_snoc) (auto simp: wl_rep_def)
  moreover have "wl_prev ?pd d = Some (if as = [] then FirstField else NextField (last as))"
    if "xs @ [?e] = as @ d # bs" for as d bs
  proof -
    from that consider "as = xs" "d = ?e" | cs where "xs = as @ d # cs" unfolding snoc_split by blast
    then show ?thesis
    proof cases
      case 1
      with False show ?thesis by (simp add: f(4))
    next
      case 2
      then have "d \<noteq> ?e" using assms(2) by auto
      with wl_rep_prev [of pd as d cs] assms(1) 2 show ?thesis by (simp add: f(4))
    qed
  qed
  ultimately show ?thesis using f(3) by (simp add: wl_rep_def)
qed

text \<open>Removing an element that is not the last one.\<close>

lemma waitlist_remove_inner:
  assumes "wl_rep pd (as @ (p, tid) # b # bs)"
  shows "\<exists>pd'. ol_rx_defrag_waitlist_remove p tid pd = Some pd' \<and> wl_rep pd' (as @ b # bs)"
proof -
  let ?e = "(p, tid)"
  let ?q = "if as = [] then FirstField else NextField (last as)"
  have d: "distinct (as @ ?e # b # bs)" using assms by (rule wl_rep_distinct)
  have n: "wl_next pd ?e = Some b" using assms by (rule wl_rep_next)
  have pr: "wl_prev pd ?e = Some ?q" using assms by (rule wl_rep_prev)
  define pd1 where "pd1 = tq_write ?q (Some b) (pd\<lparr>wl_prev := (wl_prev pd)(b := Some ?q)\<rparr>)"
  define pd2 where "pd2 = pd1\<lparr>wl_next := (wl_next pd1)(?e := None), wl_prev := (wl_prev pd1)(?e := None)\<rparr>"
  have run: "ol_rx_defrag_waitlist_remove p tid pd = Some pd2"
    using n pr d by (auto simp: ol_rx_defrag_waitlist_remove_def Let_def TAILQ_REMOVE_def pd1_def pd2_def)
  have prev: "wl_prev pd2 = (wl_prev pd)(b := Some ?q, ?e := None)" and lst: "wl_last pd2 = wl_last pd"
    by (auto simp: pd2_def pd1_def tq_write_def)
  have "chain (wl_next pd2) (wl_first pd2) (as @ b # bs)"
  proof (cases as rule: rev_cases)
    case Nil
    then have "chain (wl_next pd) (Some b) (b # bs)" using assms n by (simp add: wl_rep_def)
    then have "chain ((wl_next pd)(?e := None)) (Some b) (b # bs)"
      using d by (subst chain_upd_notin) auto
    with Nil show ?thesis by (simp add: pd2_def pd1_def tq_write_def)
  next
    case (snoc cs a)
    then have "chain (wl_next pd) (wl_first pd) (cs @ a # ?e # b # bs)" using assms by (simp add: wl_rep_def)
    from chain_unlink [OF this] n have "chain ((wl_next pd)(a := Some b)) (wl_first pd) (cs @ a # b # bs)" by simp
    then have "chain ((wl_next pd)(a := Some b, ?e := None)) (wl_first pd) (cs @ a # b # bs)"
      using d snoc by (subst chain_upd_notin) auto
    with snoc show ?thesis by (simp add: pd2_def pd1_def tq_write_def)
  qed
  moreover have "wl_prev pd2 x = Some (if us = [] then FirstField else NextField (last us))"
    if "as @ b # bs = us @ x # vs" for us x vs
  proof -
    from that consider (before) ws where "as = us @ x # ws" | (at) "us = as" "x = b"
      | (after) ws where "us = as @ b # ws" "bs = ws @ x # vs"
      by (auto simp: append_eq_append_conv2 append_eq_Cons_conv Cons_eq_append_conv)
    then show ?thesis
    proof cases
      case before
      then have "wl_rep pd (us @ x # (ws @ ?e # b # bs))" using assms by simp
      from wl_rep_prev [OF this] have "wl_prev pd x = Some (if us = [] then FirstField else NextField (last us))" .
      moreover have "x \<noteq> b" "x \<noteq> ?e" using d before by auto
      ultimately show ?thesis by (simp add: prev)
    next
      case at
      then show ?thesis using d by (auto simp: prev)
    next
      case after
      then have "wl_rep pd ((as @ ?e # b # ws) @ x # vs)" using assms by simp
      from wl_rep_prev [OF this] have "wl_prev pd x = Some (NextField (last (as @ ?e # b # ws)))" by simp
      moreover have "x \<noteq> b" "x \<noteq> ?e" using d after by auto
      ultimately show ?thesis using after by (simp add: prev)
    qed
  qed
  ultimately have "wl_rep pd2 (as @ b # bs)" using assms lst by (simp add: wl_rep_def)
  with run show ?thesis by blast
qed

lemma chain_reaches:
  "chain nxt p (as @ [e]) \<Longrightarrow> chain (nxt(e := v)) p xs \<Longrightarrow> e \<in> set xs"
proof (induction as arbitrary: xs p)
  case Nil
  then show ?case by (cases xs) auto
next
  case (Cons a as)
  then show ?case by (cases xs) (auto split: if_splits)
qed

section \<open>Facts on the fragment list\<close>

definition fragno_of :: "frames \<Rightarrow> nat \<Rightarrow> nat" where
  "fragno_of fi b = unat (fi_fragno (fi b))"

lemma frag_walk_stops:
  assumes "chain nxt p (as @ q # bs)" "p = Some h" "\<forall>a \<in> set as. fi_fragno (fi a) < m" "m \<le> fi_fragno (fi q)"
  shows "frag_walk fi nxt m h = Some (fi_fragno (fi q), q, nxt q)"
  using assms
proof (induction as arbitrary: p h)
  case Nil
  then show ?case by (auto simp: frag_walk.simps [of fi nxt m q] dest: leD)
next
  case (Cons a as)
  then have h: "h = a" and c: "chain nxt (nxt a) (as @ q # bs)" by auto
  then obtain n where n: "nxt a = Some n" by (cases as) auto
  from Cons.IH [OF c n] Cons.prems h n show ?case by (simp add: frag_walk.simps [of fi nxt m a])
qed

text \<open>The completeness loop decides whether the rest of the list is numbered consecutively.\<close>

lemma frag_complete_chain:
  assumes "chain nxt (Some b) xs" "length xs < 256 - unat cnt"
  shows "frag_complete fi nxt b cnt =
    Some (\<forall>i < length xs. fragno_of fi (xs ! i) = Suc (unat cnt) + i)"
  using assms
proof (induction xs arbitrary: b cnt)
  case Nil
  then show ?case by simp
next
  case (Cons x xs)
  have b: "b = x" and c: "chain nxt (nxt x) xs" using Cons.prems(1) by auto
  have suc: "unat (cnt + 1) = Suc (unat cnt)" using Cons.prems(2) by (simp add: unat_Suc_u8)
  have eq: "fi_fragno (fi x) = cnt + 1 \<longleftrightarrow> fragno_of fi x = Suc (unat cnt)"
    by (simp add: fragno_of_def word_unat_eq_iff suc)
  show ?case
  proof (cases xs)
    case Nil
    with c eq b show ?thesis by (simp add: frag_complete.simps [of fi nxt x])
  next
    case (Cons y ys)
    with c have n: "nxt x = Some y" by simp
    with c have "chain nxt (Some y) xs" by simp
    from Cons.IH [OF this, of "cnt + 1"] Cons.prems(2) suc
    have IH: "frag_complete fi nxt y (cnt + 1) = Some (\<forall>i < length xs. fragno_of fi (xs ! i) = Suc (Suc (unat cnt)) + i)"
      by auto
    have "(\<forall>i < length (x # xs). fragno_of fi ((x # xs) ! i) = Suc (unat cnt) + i) \<longleftrightarrow>
        fragno_of fi x = Suc (unat cnt) \<and> (\<forall>i < length xs. fragno_of fi (xs ! i) = Suc (Suc (unat cnt)) + i)"
      by (auto simp: less_Suc_eq_0_disj All_less_Suc2)
    with IH n eq b show ?thesis by (simp add: frag_complete.simps [of fi nxt x])
  qed
qed

text \<open>A slot that holds a null-terminated list of fragments.\<close>

definition frags :: "nstore \<Rightarrow> slot \<Rightarrow> nat list \<Rightarrow> bool" where
  "frags nxt s xs \<longleftrightarrow> chain nxt (sl_head s) xs \<and> (xs \<noteq> [] \<longrightarrow> sl_tail s = Some (last xs))"

lemma chain_hd: "chain nxt p xs \<Longrightarrow> xs \<noteq> [] \<Longrightarrow> p = Some (hd xs)"
  by (cases xs) auto

lemma chain_tl: "chain nxt p xs \<Longrightarrow> tl xs \<noteq> [] \<Longrightarrow> chain nxt (Some (hd (tl xs))) (tl xs)"
  by (cases xs; cases "tl xs") auto

lemma fraglist_append:
  assumes "frags nxt s xs" "xs \<noteq> []" "f \<notin> set xs" "fragno_of fi (last xs) < fragno_of fi f" "length xs < 256"
  shows "\<exists>nxt' s'. ol_rx_fraglist_insert fi nxt s f present =
      Some (nxt', s', \<not> fi_more_frag (fi f) \<and> (\<forall>i < length xs. fragno_of fi ((tl xs @ [f]) ! i) = Suc i), []) \<and>
    frags nxt' s' (xs @ [f])"
proof -
  let ?nxt = "nxt(f := None, last xs := Some f)"
  have l: "last xs \<noteq> f" using assms(2,3) by auto
  have c: "chain ?nxt (sl_head s) (xs @ [f])"
    using assms by (intro chain_snoc) (auto simp: frags_def)
  have h: "sl_head s = Some (hd xs)" "sl_tail s = Some (last xs)"
    using assms(1,2) chain_hd by (auto simp: frags_def)
  have swap: "nxt(last xs := Some f, f := None) = ?nxt" using l by (rule fun_upd_twist)
  have c2: "chain ?nxt (?nxt (hd xs)) (tl xs @ [f])" using c assms(2) by (cases xs) auto
  obtain n where n: "?nxt (hd xs) = Some n" using c2 by (cases "tl xs") auto
  have "frag_complete fi ?nxt n 0 = Some (\<forall>i < length xs. fragno_of fi ((tl xs @ [f]) ! i) = Suc i)"
    using frag_complete_chain [of ?nxt n "tl xs @ [f]" 0 fi] c2 n assms(2,5) by simp
  moreover have "fi_fragno (fi (last xs)) < fi_fragno (fi f)"
    using assms(4) by (simp add: fragno_of_def word_less_nat_alt)
  ultimately have "ol_rx_fraglist_insert fi nxt s f present =
      Some (?nxt, s\<lparr>sl_tail := Some f\<rparr>,
        \<not> fi_more_frag (fi f) \<and> (\<forall>i < length xs. fragno_of fi ((tl xs @ [f]) ! i) = Suc i), [])"
    using h n by (auto simp: ol_rx_fraglist_insert_def Let_def swap)
  moreover have "frags ?nxt (s\<lparr>sl_tail := Some f\<rparr>) (xs @ [f])" using c by (simp add: frags_def)
  ultimately show ?thesis by blast
qed

lemma fraglist_below:
  assumes "frags nxt s (as @ q # bs)" "f \<notin> set (as @ q # bs)"
    and "\<forall>a \<in> set as. fragno_of fi a < fragno_of fi f" "fragno_of fi f < fragno_of fi q"
    and "fragno_of fi f \<le> fragno_of fi (last (q # bs))"
  shows "ol_rx_fraglist_insert fi nxt s f present =
      (if fi_more_frag (fi (last (q # bs)))
       then Some (nxt(q := Some f, f := nxt q), s, False, [])
       else map_option (\<lambda>c. (nxt(q := Some f, f := nxt q), s, c, []))
              (frag_complete fi (nxt(q := Some f, f := nxt q)) (hd (tl (as @ q # f # bs))) 0)) \<and>
    chain (nxt(q := Some f, f := nxt q)) (sl_head s) (as @ q # f # bs)"
proof -
  let ?nxt = "nxt(q := Some f, f := nxt q)"
  have c: "chain nxt (sl_head s) (as @ q # bs)" and t: "sl_tail s = Some (last (q # bs))"
    using assms(1) by (auto simp: frags_def)
  obtain h where h: "sl_head s = Some h" using c by (cases as) auto
  have d: "distinct (as @ q # bs)" using c by (rule chain_distinct)
  have w: "frag_walk fi nxt (fi_fragno (fi f)) h = Some (fi_fragno (fi q), q, nxt q)"
    using frag_walk_stops [OF c h, of fi "fi_fragno (fi f)"] assms(3,4)
    by (auto simp: fragno_of_def word_less_nat_alt word_le_nat_alt)
  have ch: "chain ?nxt (sl_head s) (as @ q # f # bs)"
  proof -
    have "chain ?nxt p (as @ q # f # bs)" if "chain nxt p (as @ q # bs)" "distinct (as @ q # bs)" "f \<notin> set (as @ q # bs)" for p
      using that
    proof (induction as arbitrary: p)
      case Nil
      then have "chain ?nxt (nxt q) bs" by (auto simp: chain_upd_notin)
      with Nil show ?case by (auto simp: fun_upd_def)
    next
      case (Cons a as)
      then show ?case by auto
    qed
    with c d assms(2) show ?thesis by blast
  qed
  have nh: "?nxt h = Some (hd (tl (as @ q # f # bs)))"
  proof (cases as)
    case Nil
    with ch h assms(2) show ?thesis by auto
  next
    case (Cons a as')
    with ch h show ?thesis by (cases as') auto
  qed
  have ne: "fi_fragno (fi f) \<noteq> fi_fragno (fi q)" using assms(4) by (auto simp: fragno_of_def)
  have nt: "\<not> fi_fragno (fi (last (q # bs))) < fi_fragno (fi f)"
    using assms(5) by (simp add: fragno_of_def word_less_nat_alt)
  have tl: "s\<lparr>sl_tail := Some (last (q # bs))\<rparr> = s" using t by simp
  have "ol_rx_fraglist_insert fi nxt s f present =
      (if fi_more_frag (fi (last (q # bs))) then Some (?nxt, s, False, [])
       else map_option (\<lambda>c. (?nxt, s, c, [])) (frag_complete fi ?nxt (hd (tl (as @ q # f # bs))) 0))"
    using h t w ne nt nh tl
    by (auto simp: ol_rx_fraglist_insert_def Let_def simp del: last.simps split: bind_splits)
  with ch show ?thesis by blast
qed

section \<open>Properties\<close>

text \<open>
  fragments that arrive in order. When a slot holds the fragments 0 to k-1 and fragment k
  arrives, \<open>ol_rx_fraglist_insert\<close> appends it, frees nothing, and reports the frame complete
  exactly when the new fragment is the last one (its more-fragments bit is clear).
\<close>

theorem ol_rx_fraglist_in_order:
  assumes "frags nxt s xs" "xs \<noteq> []" "\<forall>i < length xs. fragno_of fi (xs ! i) = i"
    and "fragno_of fi f = length xs" "f \<notin> set xs"
  shows "\<exists>nxt' s'. ol_rx_fraglist_insert fi nxt s f present = Some (nxt', s', \<not> fi_more_frag (fi f), []) \<and>
    frags nxt' s' (xs @ [f])"
proof -
  have "fragno_of fi (last xs) = length xs - 1" using assms(2,3) by (simp add: last_conv_nth)
  then have lt: "fragno_of fi (last xs) < fragno_of fi f" using assms(2,4) by (cases xs) auto
  have "fragno_of fi f < 256" by (simp add: fragno_of_def)
  then have len: "length xs < 256" using assms(4) by simp
  have "fragno_of fi ((tl xs @ [f]) ! i) = Suc i" if "i < length xs" for i
  proof (cases "Suc i < length xs")
    case True
    then have "i < length (tl xs)" by simp
    with True assms(3) show ?thesis by (simp add: nth_append nth_tl)
  next
    case False
    with that have "i = length xs - 1" by simp
    with assms(2,4) show ?thesis by (cases xs) (auto simp: nth_append)
  qed
  with fraglist_append [OF assms(1,2,5) lt len] show ?thesis by simp
qed

text \<open>
  fragments that arrive out of order. When a slot holds fragments with increasing numbers and
  the number of a new one lies below that of the stored fragment \<open>q\<close> and above those before \<open>q\<close>, the
  new fragment is linked behind \<open>q\<close>, not before it: the list no longer has increasing numbers.
\<close>

theorem ol_rx_fraglist_out_of_order:
  assumes "frags nxt s (as @ q # bs)" "sorted_wrt (\<lambda>a b. fragno_of fi a < fragno_of fi b) (as @ q # bs)"
    and "\<forall>a \<in> set as. fragno_of fi a < fragno_of fi f" "fragno_of fi f < fragno_of fi q"
    and "f \<notin> set (as @ q # bs)" "length (as @ q # bs) < 256"
  shows "\<exists>nxt' present'. ol_rx_fraglist_insert fi nxt s f present = Some (nxt', s, present', []) \<and>
    chain nxt' (sl_head s) (as @ q # f # bs) \<and>
    \<not> sorted_wrt (\<lambda>a b. fragno_of fi a < fragno_of fi b) (as @ q # f # bs)"
proof -
  let ?nxt = "nxt(q := Some f, f := nxt q)"
  have "fragno_of fi q \<le> fragno_of fi (last (q # bs))"
    using assms(2) by (cases bs rule: rev_cases) (auto simp: sorted_wrt_append)
  then have le: "fragno_of fi f \<le> fragno_of fi (last (q # bs))" using assms(4) by simp
  note below = fraglist_below [OF assms(1,5,3,4) le]
  have c: "chain ?nxt (sl_head s) (as @ q # f # bs)" using below [THEN conjunct2] .
  have "chain ?nxt (Some (hd (tl (as @ q # f # bs)))) (tl (as @ q # f # bs))"
    using chain_tl [OF c] by (cases as) simp_all
  moreover have "length (tl (as @ q # f # bs)) < 256 - unat (0 :: u8)" using assms(6) by simp
  ultimately obtain b where "frag_complete fi ?nxt (hd (tl (as @ q # f # bs))) 0 = Some b"
    using frag_complete_chain by blast
  then have "\<exists>present'. ol_rx_fraglist_insert fi nxt s f present = Some (?nxt, s, present', [])"
    using below [THEN conjunct1, of present] by auto
  moreover have "\<not> sorted_wrt (\<lambda>a b. fragno_of fi a < fragno_of fi b) (as @ q # f # bs)"
    using assms(4) by (auto simp: sorted_wrt_append)
  ultimately show ?thesis using c by blast
qed

text \<open>
  completeness is not checked for the first fragment of the list. When the only fragment stored
  is the last one of a frame of at least three fragments and fragment 1 arrives next,
  \<open>ol_rx_fraglist_insert\<close> reports that all fragments are present, although fragment 0 is missing, and
  the list has the last fragment first.
\<close>

theorem ol_rx_fraglist_false_complete:
  assumes "frags nxt s [q]" "f \<noteq> q" "fragno_of fi f = 1" "1 < fragno_of fi q" "\<not> fi_more_frag (fi q)"
  shows "\<exists>nxt'. ol_rx_fraglist_insert fi nxt s f present = Some (nxt', s, True, []) \<and>
    chain nxt' (sl_head s) [q, f] \<and> (\<forall>b \<in> set [q, f]. fragno_of fi b \<noteq> 0)"
proof -
  let ?nxt = "nxt(q := Some f, f := nxt q)"
  have b: "ol_rx_fraglist_insert fi nxt s f present =
      map_option (\<lambda>c. (?nxt, s, c, [])) (frag_complete fi ?nxt f 0)" "chain ?nxt (sl_head s) [q, f]"
    using fraglist_below [of nxt s "[]" q "[]" f fi present] assms by auto
  then have "chain ?nxt (Some f) [f]" by auto
  then have "frag_complete fi ?nxt f 0 = Some True"
    using frag_complete_chain [of ?nxt f "[f]" 0 fi] assms(3) by simp
  with b assms show ?thesis by auto
qed

text \<open>
  the wait list. Adding a reorder structure that is not on the list appends it; removing
  one that is on the list and not its last element takes it off and keeps the rest in order. But
  \<open>ol_rx_defrag_waitlist_remove\<close> of the last element does nothing: it stays on the list.
\<close>

theorem ol_rx_defrag_waitlist_correct:
  "(wl_rep pd xs \<and> (p, tid) \<notin> set xs \<longrightarrow> wl_rep (ol_rx_defrag_waitlist_add p tid pd) (xs @ [(p, tid)])) \<and>
   (wl_rep pd (as @ (p, tid) # b # bs) \<longrightarrow>
      (\<exists>pd'. ol_rx_defrag_waitlist_remove p tid pd = Some pd' \<and> wl_rep pd' (as @ b # bs))) \<and>
   (wl_rep pd (as @ [(p, tid)]) \<longrightarrow> ol_rx_defrag_waitlist_remove p tid pd = Some pd)"
proof (intro conjI impI)
  assume "wl_rep pd xs \<and> (p, tid) \<notin> set xs"
  then show "wl_rep (ol_rx_defrag_waitlist_add p tid pd) (xs @ [(p, tid)])" using waitlist_add_rep by blast
next
  assume "wl_rep pd (as @ (p, tid) # b # bs)"
  then show "\<exists>pd'. ol_rx_defrag_waitlist_remove p tid pd = Some pd' \<and> wl_rep pd' (as @ b # bs)"
    by (rule waitlist_remove_inner)
next
  assume "wl_rep pd (as @ [(p, tid)])"
  from wl_rep_next_last [OF this] show "ol_rx_defrag_waitlist_remove p tid pd = Some pd"
    by (simp add: ol_rx_defrag_waitlist_remove_def)
qed

text \<open>
  What follows from it. When a further fragment arrives for the structure at the end of the
  wait list, \<open>ol_rx_reorder_store_frag\<close> removes and adds it; the structure then is its own
  successor and the wait list is a cycle.
\<close>

theorem ol_rx_defrag_waitlist_cycle:
  assumes "wl_rep pd (as @ [(p, tid)])"
  shows "\<exists>pd1. ol_rx_defrag_waitlist_remove p tid pd = Some pd1 \<and>
    wl_next (ol_rx_defrag_waitlist_add p tid pd1) (p, tid) = Some (p, tid) \<and>
    \<not> (\<exists>xs. chain (wl_next (ol_rx_defrag_waitlist_add p tid pd1))
              (wl_first (ol_rx_defrag_waitlist_add p tid pd1)) xs)"
proof -
  let ?e = "(p, tid)"
  let ?pd = "ol_rx_defrag_waitlist_add p tid pd"
  have l: "wl_last pd = NextField ?e" using assms by (simp add: wl_rep_def)
  have f: "wl_next ?pd = (wl_next pd)(?e := Some ?e)" "wl_first ?pd = wl_first pd"
    using l by (simp_all add: ol_rx_defrag_waitlist_add_def TAILQ_INSERT_TAIL_def Let_def tq_write_def)
  have "\<not> chain ((wl_next pd)(?e := Some ?e)) (wl_first pd) xs" for xs
  proof
    assume c: "chain ((wl_next pd)(?e := Some ?e)) (wl_first pd) xs"
    have "chain (wl_next pd) (wl_first pd) (as @ [?e])" using assms by (simp add: wl_rep_def)
    from chain_reaches [OF this c] have "?e \<in> set xs" .
    then obtain us vs where xs: "xs = us @ ?e # vs" by (meson split_list)
    with c have "chain ((wl_next pd)(?e := Some ?e)) (Some ?e) vs"
      using chain_append_tail [of "(wl_next pd)(?e := Some ?e)" "wl_first pd" us ?e vs] by simp
    then have "?e \<in> set vs" by (cases vs) auto
    moreover have "distinct xs" using c by (rule chain_distinct)
    ultimately show False using xs by simp
  qed
  with f wl_rep_next_last [OF assms] show ?thesis by (simp add: ol_rx_defrag_waitlist_remove_def)
qed

section \<open>Witnesses\<close>

text \<open>Buffers 10, 11 and 12 are the fragments 0, 1 and 2 of a frame; 2 is the last one.\<close>

definition demo_frames :: frames where
  "demo_frames b = \<lparr>fi_seq = 7, fi_fragno = of_nat (b - 10), fi_more_frag = (b \<noteq> 12), fi_addr1 = replicate 6 1,
     fi_addr2 = replicate 6 2, fi_desc_seq = 7, fi_desc_tid = 0, fi_retry = False, fi_is_frag = True\<rparr>"

definition demo_pdev :: rx_pdev where
  "demo_pdev = \<lparr>nb_next = (\<lambda>_. None), rx_peers = [], wl_first = None, wl_last = FirstField,
     wl_next = (\<lambda>_. None), wl_prev = (\<lambda>_. None), access_cats = [], defrag_timeout_check = True,
     defrag_timeout = 100, nb_freed = [], rx_calls = []\<rparr>"

theorem ol_rx_fraglist_in_order_witness:
  "\<exists>nxt' s'. ol_rx_fraglist_insert demo_frames (\<lambda>_. None) \<lparr>sl_head = Some 10, sl_tail = Some 10\<rparr> 11 False =
     Some (nxt', s', False, []) \<and> frags nxt' s' [10, 11]"
  using ol_rx_fraglist_in_order [of "\<lambda>_. None" "\<lparr>sl_head = Some 10, sl_tail = Some 10\<rparr>" "[10]" demo_frames 11 False]
  by (simp add: frags_def fragno_of_def demo_frames_def)

theorem ol_rx_fraglist_out_of_order_witness:
  "\<exists>nxt' present'. ol_rx_fraglist_insert demo_frames [10 \<mapsto> 12] \<lparr>sl_head = Some 10, sl_tail = Some 12\<rparr> 11 False =
     Some (nxt', \<lparr>sl_head = Some 10, sl_tail = Some 12\<rparr>, present', []) \<and> chain nxt' (Some 10) [10, 12, 11]"
  using ol_rx_fraglist_out_of_order [of "[10 \<mapsto> 12]" "\<lparr>sl_head = Some 10, sl_tail = Some 12\<rparr>" "[10]" 12 "[]" demo_frames 11 False]
  by (auto simp: frags_def fragno_of_def demo_frames_def)

theorem ol_rx_fraglist_false_complete_witness:
  "\<exists>nxt'. ol_rx_fraglist_insert demo_frames (\<lambda>_. None) \<lparr>sl_head = Some 12, sl_tail = Some 12\<rparr> 11 False =
     Some (nxt', \<lparr>sl_head = Some 12, sl_tail = Some 12\<rparr>, True, []) \<and> chain nxt' (Some 12) [12, 11]"
  using ol_rx_fraglist_false_complete [of "\<lambda>_. None" "\<lparr>sl_head = Some 12, sl_tail = Some 12\<rparr>" 12 11 demo_frames False]
  by (auto simp: frags_def fragno_of_def demo_frames_def)

lemma demo_pdev_rep: "wl_rep demo_pdev []"
  by (simp add: wl_rep_def demo_pdev_def)

theorem ol_rx_defrag_waitlist_correct_witness:
  "wl_rep (ol_rx_defrag_waitlist_add 0 5 demo_pdev) [(0, 5)] \<and>
   ol_rx_defrag_waitlist_remove 0 5 (ol_rx_defrag_waitlist_add 0 5 demo_pdev) =
     Some (ol_rx_defrag_waitlist_add 0 5 demo_pdev)"
  using ol_rx_defrag_waitlist_correct [of demo_pdev "[]" 0 5 "[]"]
    ol_rx_defrag_waitlist_correct [of "ol_rx_defrag_waitlist_add 0 5 demo_pdev" "[]" 0 5 "[]"] demo_pdev_rep
  by simp

theorem ol_rx_defrag_waitlist_cycle_witness:
  "\<exists>pd1. ol_rx_defrag_waitlist_remove 0 5 (ol_rx_defrag_waitlist_add 0 5 demo_pdev) = Some pd1 \<and>
     wl_next (ol_rx_defrag_waitlist_add 0 5 pd1) (0, 5) = Some (0, 5)"
  using ol_rx_defrag_waitlist_cycle [of "ol_rx_defrag_waitlist_add 0 5 demo_pdev" "[]" 0 5]
    waitlist_add_rep [OF demo_pdev_rep, of 0 5] by auto

end
