(* ===== verification/Rx_Reorder.thy ===== *)
theory Rx_Reorder
  imports Rx_Defrag
begin

text \<open>
  Receive reordering, \<open>core/dp/txrx/ol_rx_reorder.c\<close>, and the host-side reorder timeout,
  \<open>ol_rx_reorder_timeout.c\<close>. The build defines \<open>QCA_SUPPORT_OL_RX_REORDER_TIMEOUT\<close>; the counting
  macros of \<open>ol_rx_reorder.c\<close> (\<open>OL_RX_REORDER_MPDU_CNT_INCR\<close> and \<open>_DECR\<close>) and
  \<open>OL_RX_REORDER_IDX_START_SELF_SELECT\<close> are empty, \<open>OL_RX_REORDER_NO_HOLES\<close> and
  \<open>OL_RX_REORDER_IDX_INIT\<close> are 0, and so they are here. A buffer list handed to \<open>rx_opt_proc\<close> is
  recorded in \<open>rx_calls\<close>, a freed buffer in \<open>nb_freed\<close>.
\<close>

section \<open>Sequence numbers\<close>

definition IEEE80211_SEQ_MAX :: u16 where
  "IEEE80211_SEQ_MAX = 4096"

definition OL_RX_MCAST_TID :: nat where
  "OL_RX_MCAST_TID = 18"

datatype htt_rx_status = htt_rx_status_ok | htt_rx_status_err_replay

definition ol_rx_reorder_seq_num_check :: "ro_peer \<Rightarrow> nat \<Rightarrow> u32 \<Rightarrow> htt_rx_status option" where
  "ol_rx_reorder_seq_num_check peer tid seq_num =
     (if length (tids_last_seq peer) \<le> tid then None
      else let last_seq = tids_last_seq peer ! tid in
        if last_seq = IEEE80211_SEQ_MAX then Some htt_rx_status_ok
        else let seq_num_delta = (seq_num - 1 - ucast last_seq) AND (ucast IEEE80211_SEQ_MAX - 1) in
          if drop_bit 1 (ucast IEEE80211_SEQ_MAX) < seq_num_delta then Some htt_rx_status_err_replay
          else Some htt_rx_status_ok)"

definition ol_rx_seq_num_check ::
  "nat \<Rightarrow> frame_info \<Rightarrow> ro_peer \<Rightarrow> (ro_peer \<times> htt_rx_status) option" where
  "ol_rx_seq_num_check tid d peer =
     (let seq_num = fi_desc_seq d in
      if tid = OL_RX_MCAST_TID
      then let pkt_tid = unat (fi_desc_tid d) in
        if OL_TXRX_NUM_EXT_TIDS \<le> pkt_tid then Some (peer, htt_rx_status_ok)
        else if length (tids_mcast_last_seq peer) \<le> pkt_tid then None
        else if fi_retry d \<and> seq_num = tids_mcast_last_seq peer ! pkt_tid
        then Some (peer, htt_rx_status_err_replay)
        else Some (peer\<lparr>tids_mcast_last_seq := (tids_mcast_last_seq peer)[pkt_tid := seq_num]\<rparr>, htt_rx_status_ok)
      else map_option (Pair peer) (ol_rx_reorder_seq_num_check peer tid (ucast seq_num)))"

section \<open>The reorder timeout\<close>

definition TXRX_TID_TO_WMM_AC :: "nat \<Rightarrow> nat" where
  "TXRX_TID_TO_WMM_AC tid =
     (if tid div 2 = 3 then 3 else if tid div 2 = 2 then 2
      else if (tid XOR (tid div 2)) AND 1 \<noteq> 0 then 1 else 0)"

definition upd_ac :: "nat \<Rightarrow> (ac_timeout \<Rightarrow> ac_timeout) \<Rightarrow> rx_pdev \<Rightarrow> rx_pdev" where
  "upd_ac ac f pd = pd\<lparr>access_cats := (access_cats pd)[ac := f (access_cats pd ! ac)]\<rparr>"

definition ol_rx_reorder_timeout_remove :: "nat \<Rightarrow> nat \<Rightarrow> rx_pdev \<Rightarrow> rx_pdev option" where
  "ol_rx_reorder_timeout_remove p tid pd =
     do {
       r \<leftarrow> get_ro p tid pd;
       if \<not> to_active r then Some pd
       else Some (upd_ac (TXRX_TID_TO_WMM_AC tid) (\<lambda>a. a\<lparr>timer_list := remove1 (p, tid) (timer_list a)\<rparr>)
                    (put_ro p tid (r\<lparr>to_active := False\<rparr>) pd))
     }"

text \<open>\<open>qdf_timer_start\<close> is recorded with its duration.\<close>

definition ol_rx_reorder_timeout_start :: "nat \<Rightarrow> u32 \<Rightarrow> rx_pdev \<Rightarrow> rx_pdev option" where
  "ol_rx_reorder_timeout_start ac time_now_ms pd =
     (if length (access_cats pd) \<le> ac then None
      else case timer_list (access_cats pd ! ac) of
        [] \<Rightarrow> None
      | (p, tid) # _ \<Rightarrow>
          do {
            r \<leftarrow> get_ro p tid pd;
            Some (upd_ac ac (\<lambda>a. a\<lparr>timer_starts := timer_starts a @ [to_stamp r - time_now_ms]\<rparr>) pd)
          })"

definition ol_rx_reorder_timeout_add :: "u32 \<Rightarrow> nat \<Rightarrow> nat \<Rightarrow> rx_pdev \<Rightarrow> rx_pdev option" where
  "ol_rx_reorder_timeout_add time_now_ms p tid pd =
     (let ac = TXRX_TID_TO_WMM_AC tid in
      if length (access_cats pd) \<le> ac then None
      else do {
        r \<leftarrow> get_ro p tid pd;
        let a = access_cats pd ! ac;
        let start = (timer_list a = []);
        let pd1 = put_ro p tid (r\<lparr>to_active := True, to_stamp := time_now_ms + duration_ms a\<rparr>) pd;
        let pd2 = upd_ac ac (\<lambda>a. a\<lparr>timer_list := timer_list a @ [(p, tid)]\<rparr>) pd1;
        if start then ol_rx_reorder_timeout_start ac time_now_ms pd2 else Some pd2
      })"

definition ol_rx_reorder_timeout_update :: "u32 \<Rightarrow> nat \<Rightarrow> nat \<Rightarrow> rx_pdev \<Rightarrow> rx_pdev option" where
  "ol_rx_reorder_timeout_update time_now_ms p tid pd =
     do {
       r \<leftarrow> get_ro p tid pd;
       if num_mpdus r = 0 then Some pd
       else if to_active r then Some pd
       else ol_rx_reorder_timeout_add time_now_ms p tid pd
     }"

section \<open>Storing, releasing and flushing\<close>

text \<open>The links of the wait list are part of the structure that is initialised.\<close>

definition ol_rx_reorder_init :: "nat \<Rightarrow> u8 \<Rightarrow> rx_pdev \<Rightarrow> rx_pdev option" where
  "ol_rx_reorder_init p tid pd =
     do {
       r \<leftarrow> get_ro p (unat tid) pd;
       Some ((put_ro p (unat tid)
         (r\<lparr>win_sz := 1, win_sz_mask := 0, r_array := Some [empty_slot], r_is_base := True,
            r_tid := ucast tid, defrag_timeout_ms := 0\<rparr>) pd)
         \<lparr>wl_next := (wl_next pd)((p, unat tid) := None), wl_prev := (wl_prev pd)((p, unat tid) := None)\<rparr>)
     }"

definition ol_rx_reorder_store :: "nat \<Rightarrow> nat \<Rightarrow> nat \<Rightarrow> nat \<Rightarrow> nat \<Rightarrow> rx_pdev \<Rightarrow> rx_pdev option" where
  "ol_rx_reorder_store p tid idx head_msdu tail_msdu pd =
     do {
       r \<leftarrow> get_ro p tid pd;
       let i = idx AND unat (win_sz_mask r);
       s \<leftarrow> get_slot i r;
       (case sl_head s of
          Some h \<Rightarrow>
            do {
              t \<leftarrow> sl_tail s;
              Some (put_ro p tid (put_slot i (s\<lparr>sl_tail := Some tail_msdu\<rparr>) r)
                     (pd\<lparr>nb_next := (nb_next pd)(t := Some head_msdu)\<rparr>))
            }
        | None \<Rightarrow>
            Some (put_ro p tid (put_slot i \<lparr>sl_head = Some head_msdu, sl_tail = Some tail_msdu\<rparr> r) pd))
     }"

text \<open>The variables of the loops that drain slots of the array.\<close>

record drain =
  d_next :: nstore
  d_arr :: "slot list"
  d_head :: "nat option"
  d_tail :: "nat option"

text \<open>
  A loop around the ring of slots, with the index masked after each step:
  \<open>while (idx != idx_end) { step; idx = (idx + 1) & mask; }\<close>.
\<close>

partial_function (option) ring_while ::
  "('st \<Rightarrow> nat \<Rightarrow> 'st option) \<Rightarrow> nat \<Rightarrow> nat \<Rightarrow> 'st \<Rightarrow> nat \<Rightarrow> 'st option" where
  "ring_while step msk idx_end st idx =
     (if idx = idx_end then Some st
      else Option.bind (step st idx) (\<lambda>st'. ring_while step msk idx_end st' ((idx + 1) AND msk)))"

text \<open>The same with the test at the end: \<open>do { ... } while (idx != idx_end)\<close>.\<close>

definition ring_do where
  "ring_do step msk idx_end st idx =
     Option.bind (step st idx) (\<lambda>st'. ring_while step msk idx_end st' ((idx + 1) AND msk))"

definition release_step :: "drain \<Rightarrow> nat \<Rightarrow> drain option" where
  "release_step st idx =
     (if length (d_arr st) \<le> idx then None
      else let e = d_arr st ! idx in
        Some (case sl_head e of
            None \<Rightarrow> st\<lparr>d_arr := (d_arr st)[idx := empty_slot]\<rparr>
          | Some h \<Rightarrow>
              st\<lparr>d_next := (case d_tail st of None \<Rightarrow> d_next st | Some t \<Rightarrow> (d_next st)(t := Some h)),
                 d_tail := sl_tail e, d_arr := (d_arr st)[idx := empty_slot]\<rparr>))"

definition set_last_seq :: "frames \<Rightarrow> nat \<Rightarrow> nat \<Rightarrow> nat \<Rightarrow> rx_pdev \<Rightarrow> rx_pdev" where
  "set_last_seq fi p tid h pd =
     upd_peer p (\<lambda>pe. pe\<lparr>tids_last_seq := (tids_last_seq pe)[tid := fi_desc_seq (fi h)]\<rparr>) pd"

definition set_next_rel :: "nat \<Rightarrow> nat \<Rightarrow> u16 \<Rightarrow> rx_pdev \<Rightarrow> rx_pdev" where
  "set_next_rel p tid v pd =
     upd_peer p (\<lambda>pe. pe\<lparr>tids_next_rel_idx := (tids_next_rel_idx pe)[tid := v]\<rparr>) pd"

definition ol_rx_reorder_release ::
  "frames \<Rightarrow> nat \<Rightarrow> nat \<Rightarrow> nat \<Rightarrow> nat \<Rightarrow> rx_pdev \<Rightarrow> rx_pdev option" where
  "ol_rx_reorder_release fi p tid idx_start idx_end pd =
     do {
       r \<leftarrow> get_ro p tid pd;
       arr \<leftarrow> r_array r;
       let msk = unat (win_sz_mask r);
       let s = idx_start AND msk;
       e \<leftarrow> get_slot s r;
       st \<leftarrow> ring_while release_step msk (idx_end AND msk)
              \<lparr>d_next = nb_next pd, d_arr = arr[s := empty_slot], d_head = sl_head e, d_tail = sl_tail e\<rparr>
              ((s + 1) AND msk);
       let pd1 = put_ro p tid (r\<lparr>r_array := Some (d_arr st)\<rparr>)
                   (set_next_rel p tid (of_nat idx_end) (pd\<lparr>nb_next := d_next st\<rparr>));
       pd2 \<leftarrow> (case d_head st of
           None \<Rightarrow> Some pd1
         | Some h \<Rightarrow>
             do {
               t \<leftarrow> d_tail st;
               Some (set_last_seq fi p tid h
                 (pd1\<lparr>nb_next := (nb_next pd1)(t := None), rx_calls := rx_calls pd1 @ [Rx_opt_proc p tid (Some h)]\<rparr>))
             });
       ol_rx_reorder_timeout_remove p tid pd2
     }"

datatype htt_rx_flush_action = htt_rx_flush_release | htt_rx_flush_discard

definition flush_step :: "drain \<Rightarrow> nat \<Rightarrow> drain option" where
  "flush_step st idx =
     (if length (d_arr st) \<le> idx then None
      else let e = d_arr st ! idx in
        case sl_head e of
          None \<Rightarrow> Some st
        | Some h \<Rightarrow>
            (case d_head st of
               None \<Rightarrow> Some (st\<lparr>d_head := Some h, d_tail := sl_tail e, d_arr := (d_arr st)[idx := empty_slot]\<rparr>)
             | Some _ \<Rightarrow>
                 do {
                   t \<leftarrow> d_tail st;
                   Some (st\<lparr>d_next := (d_next st)(t := Some h), d_tail := sl_tail e,
                            d_arr := (d_arr st)[idx := empty_slot]\<rparr>)
                 }))"

definition ol_rx_reorder_flush ::
  "frames \<Rightarrow> nat \<Rightarrow> nat \<Rightarrow> nat \<Rightarrow> nat \<Rightarrow> htt_rx_flush_action \<Rightarrow> rx_pdev \<Rightarrow> rx_pdev option" where
  "ol_rx_reorder_flush fi p tid idx_start idx_end action pd =
     do {
       r \<leftarrow> get_ro p tid pd;
       arr \<leftarrow> r_array r;
       let msk = unat (win_sz_mask r);
       let ie = (if idx_end = 0xffff then idx_start else idx_end);
       let rel = (if idx_end = 0xffff then 0 else of_nat idx_end);
       st \<leftarrow> ring_do flush_step msk (ie AND msk)
              \<lparr>d_next = nb_next pd, d_arr = arr, d_head = None, d_tail = None\<rparr> (idx_start AND msk);
       let pd1 = put_ro p tid (r\<lparr>r_array := Some (d_arr st)\<rparr>) (set_next_rel p tid rel (pd\<lparr>nb_next := d_next st\<rparr>));
       pd2 \<leftarrow> ol_rx_defrag_waitlist_remove p tid pd1;
       pd3 \<leftarrow> (case d_head st of
           None \<Rightarrow> Some pd2
         | Some h \<Rightarrow>
             do {
               t \<leftarrow> d_tail st;
               let pd' = set_last_seq fi p tid h (pd2\<lparr>nb_next := (nb_next pd2)(t := None)\<rparr>);
               if action = htt_rx_flush_release
               then Some (pd'\<lparr>rx_calls := rx_calls pd' @ [Rx_opt_proc p tid (Some h)]\<rparr>)
               else ol_rx_frames_free (Some h) pd'
             });
       ol_rx_reorder_timeout_remove p tid pd3
     }"

text \<open>The two loops of \<open>ol_rx_reorder_first_hole\<close>: skip empty slots, then filled ones; \<open>idx_start\<close> is 0.\<close>

partial_function (option) skip_slots :: "slot list \<Rightarrow> nat \<Rightarrow> bool \<Rightarrow> nat \<Rightarrow> nat option" where
  "skip_slots arr msk present idx =
     (if idx = 0 then Some idx
      else if length arr \<le> idx then None
      else if (sl_head (arr ! idx) \<noteq> None) = present then skip_slots arr msk present ((idx + 1) AND msk)
      else Some idx)"

definition ol_rx_reorder_first_hole :: "nat \<Rightarrow> nat \<Rightarrow> rx_pdev \<Rightarrow> nat option" where
  "ol_rx_reorder_first_hole p tid pd =
     do {
       r \<leftarrow> get_ro p tid pd;
       arr \<leftarrow> r_array r;
       let msk = unat (win_sz_mask r);
       i1 \<leftarrow> skip_slots arr msk False (1 AND msk);
       skip_slots arr msk True i1
     }"

section \<open>Timeout, peer and block-ack handlers\<close>

text \<open>
  The body of the timer runs over the elements of the virtual timer list; it takes each element off
  before it is handled, so the list is the one at the start.
\<close>

fun timeout_loop :: "frames \<Rightarrow> nat \<Rightarrow> u32 \<Rightarrow> ref list \<Rightarrow> rx_pdev \<Rightarrow> rx_pdev option" where
  "timeout_loop fi ac time_now_ms [] pd = Some pd"
| "timeout_loop fi ac time_now_ms ((p, tid) # es) pd =
     do {
       r \<leftarrow> get_ro p tid pd;
       if time_now_ms < to_stamp r then Some pd
       else do {
         let pd1 = upd_ac ac (\<lambda>a. a\<lparr>timer_list := remove1 (p, tid) (timer_list a)\<rparr>)
                     (put_ro p tid (r\<lparr>to_active := False\<rparr>) pd);
         idx_end \<leftarrow> ol_rx_reorder_first_hole p tid pd1;
         pd2 \<leftarrow> ol_rx_reorder_flush fi p tid 0xffff idx_end htt_rx_flush_release pd1;
         timeout_loop fi ac time_now_ms es pd2
       }
     }"

definition ol_rx_reorder_timeout :: "frames \<Rightarrow> nat \<Rightarrow> u32 \<Rightarrow> rx_pdev \<Rightarrow> rx_pdev option" where
  "ol_rx_reorder_timeout fi ac time_now_ms pd =
     (if length (access_cats pd) \<le> ac then None
      else do {
        pd1 \<leftarrow> timeout_loop fi ac time_now_ms (timer_list (access_cats pd ! ac)) pd;
        if timer_list (access_cats pd1 ! ac) \<noteq> [] then ol_rx_reorder_timeout_start ac time_now_ms pd1
        else Some pd1
      })"

definition ol_rx_reorder_timeout_init :: "rx_pdev \<Rightarrow> rx_pdev" where
  "ol_rx_reorder_timeout_init pd =
     pd\<lparr>access_cats := map (\<lambda>d. \<lparr>duration_ms = d, timer_list = [], timer_starts = []\<rparr>) [100, 100, 100, 40]\<rparr>"

text \<open>A loop over all TIDs.\<close>

fun for_tids :: "(nat \<Rightarrow> rx_pdev \<Rightarrow> rx_pdev option) \<Rightarrow> nat list \<Rightarrow> rx_pdev \<Rightarrow> rx_pdev option" where
  "for_tids f [] pd = Some pd"
| "for_tids f (t # ts) pd = Option.bind (f t pd) (for_tids f ts)"

definition ol_rx_reorder_timeout_peer_cleanup :: "nat \<Rightarrow> rx_pdev \<Rightarrow> rx_pdev option" where
  "ol_rx_reorder_timeout_peer_cleanup p pd =
     for_tids (\<lambda>tid pd. do { r \<leftarrow> get_ro p tid pd;
                              if to_active r then ol_rx_reorder_timeout_remove p tid pd else Some pd })
       [0..<OL_TXRX_NUM_EXT_TIDS] pd"

definition ol_rx_reorder_peer_cleanup :: "frames \<Rightarrow> nat \<Rightarrow> rx_pdev \<Rightarrow> rx_pdev option" where
  "ol_rx_reorder_peer_cleanup fi p pd =
     Option.bind (for_tids (\<lambda>tid. ol_rx_reorder_flush fi p tid 0 0 htt_rx_flush_discard)
                    [0..<OL_TXRX_NUM_EXT_TIDS] pd)
       (ol_rx_reorder_timeout_peer_cleanup p)"

definition g_log2ceil :: "u8 list" where
  "g_log2ceil = [1, 1, 2] @ replicate 2 4 @ replicate 4 8 @ replicate 8 16 @ replicate 16 32 @ replicate 32 64"

text \<open>
  The handlers look up the peer first (\<open>ol_txrx_peer_find_by_id\<close>); \<open>peer\<close> is what was found. \<open>malloc\<close>
  is \<open>qdf_mem_malloc\<close>: the array of \<open>n\<close> slots it returns, or \<open>None\<close>. The notification of the control
  path (\<open>ol_ctrl_rx_addba_complete\<close>) changes nothing of this state and is left out.
\<close>

definition ol_rx_addba_handler ::
  "(nat \<Rightarrow> slot list option) \<Rightarrow> nat option \<Rightarrow> nat \<Rightarrow> u8 \<Rightarrow> bool \<Rightarrow> rx_pdev \<Rightarrow> rx_pdev option" where
  "ol_rx_addba_handler malloc peer tid wsz failed pd =
     (case peer of
        None \<Rightarrow> Some pd
      | Some p \<Rightarrow>
          if failed then Some pd
          else do {
            let pd1 = upd_peer p (\<lambda>pe. pe\<lparr>tids_last_seq := (tids_last_seq pe)[tid := IEEE80211_SEQ_MAX]\<rparr>) pd;
            r \<leftarrow> get_ro p tid pd1;
            if length g_log2ceil \<le> unat wsz then None
            else let round_pwr2_win_sz = g_log2ceil ! unat wsz in
              Some (set_next_rel p tid 0
                (put_ro p tid (r\<lparr>win_sz := wsz, r_array := malloc (unat round_pwr2_win_sz), r_is_base := False,
                                win_sz_mask := round_pwr2_win_sz - 1, num_mpdus := 0\<rparr>) pd1))
          })"

definition ol_rx_delba_handler :: "nat option \<Rightarrow> u8 \<Rightarrow> rx_pdev \<Rightarrow> rx_pdev option" where
  "ol_rx_delba_handler peer tid pd =
     (case peer of
        None \<Rightarrow> Some pd
      | Some p \<Rightarrow>
          ol_rx_reorder_init p tid (set_next_rel p (unat tid) 0xffff pd))"

definition ol_rx_flush_handler ::
  "frames \<Rightarrow> u32 \<Rightarrow> nat option \<Rightarrow> nat \<Rightarrow> nat \<Rightarrow> nat \<Rightarrow> htt_rx_flush_action \<Rightarrow> rx_pdev \<Rightarrow> rx_pdev option" where
  "ol_rx_flush_handler fi now_ms peer tid idx_start idx_end action pd =
     (case peer of
        None \<Rightarrow> Some pd
      | Some p \<Rightarrow>
          do {
            r \<leftarrow> get_ro p tid pd;
            e \<leftarrow> get_slot (idx_start AND unat (win_sz_mask r)) r;
            if (case sl_head e of None \<Rightarrow> False | Some h \<Rightarrow> fi_is_frag (fi h))
            then ol_rx_reorder_flush_frag p tid idx_start pd
            else do {
              pd1 \<leftarrow> ol_rx_reorder_flush fi p tid idx_start idx_end action pd;
              ol_rx_reorder_timeout_update now_ms p tid pd1
            }
          })"

text \<open>The loop of \<open>ol_rx_pn_ind_handler\<close>, with the failed sequence numbers still to come.\<close>

record pn_drain = drain +
  pd_ies :: "u8 list"
  pd_cnt :: u8
  pd_freed :: "nat list"

definition pn_ind_step :: "pn_drain \<Rightarrow> nat \<Rightarrow> pn_drain option" where
  "pn_ind_step st seq_num =
     (if length (d_arr st) \<le> seq_num then None
      else let e = d_arr st ! seq_num in
        case sl_head e of
          None \<Rightarrow> Some st
        | Some h \<Rightarrow>
            do {
              fail \<leftarrow> (if pd_cnt st = 0 then Some False
                      else case pd_ies st of [] \<Rightarrow> None | ie # _ \<Rightarrow> Some (seq_num = unat ie));
              st1 \<leftarrow> (if fail
                     then do {
                       t \<leftarrow> sl_tail e;
                       fr \<leftarrow> free_mpdu (d_next st) t h (pd_freed st);
                       Some (st\<lparr>pd_cnt := pd_cnt st - 1, pd_ies := tl (pd_ies st), pd_freed := fr\<rparr>)
                     }
                     else case d_head st of
                       None \<Rightarrow> Some (st\<lparr>d_head := Some h, d_tail := sl_tail e\<rparr>)
                     | Some _ \<Rightarrow>
                         do { t \<leftarrow> d_tail st;
                              Some (st\<lparr>d_next := (d_next st)(t := Some h), d_tail := sl_tail e\<rparr>) });
              Some (st1\<lparr>d_arr := (d_arr st1)[seq_num := empty_slot]\<rparr>)
            })"

definition ol_rx_pn_ind_handler ::
  "nat option \<Rightarrow> nat \<Rightarrow> nat \<Rightarrow> nat \<Rightarrow> u8 \<Rightarrow> u8 list \<Rightarrow> rx_pdev \<Rightarrow> rx_pdev option" where
  "ol_rx_pn_ind_handler peer tid seq_num_start seq_num_end pn_ie_cnt pn_ie pd =
     (case peer of
        None \<Rightarrow> Some pd
      | Some p \<Rightarrow>
          do {
            let pd0 = upd_peer p (\<lambda>pe. pe\<lparr>ro_fw_pn_check := True\<rparr>) pd;
            r \<leftarrow> get_ro p tid pd0;
            arr \<leftarrow> r_array r;
            let msk = unat (win_sz_mask r);
            st \<leftarrow> ring_do pn_ind_step msk (seq_num_end AND msk)
                   \<lparr>d_next = nb_next pd0, d_arr = arr, d_head = None, d_tail = None,
                    pd_ies = pn_ie, pd_cnt = pn_ie_cnt, pd_freed = nb_freed pd0\<rparr> (seq_num_start AND msk);
            let pd1 = put_ro p tid (r\<lparr>r_array := Some (d_arr st)\<rparr>)
                        (pd0\<lparr>nb_next := d_next st, nb_freed := pd_freed st\<rparr>);
            (case d_head st of
               None \<Rightarrow> Some pd1
             | Some h \<Rightarrow>
                 do { t \<leftarrow> d_tail st;
                      Some (pd1\<lparr>nb_next := (nb_next pd1)(t := None),
                                rx_calls := rx_calls pd1 @ [Rx_opt_proc p tid (Some h)]\<rparr>) })
          })"

section \<open>Loops around the ring\<close>

fun fold_opt :: "('st \<Rightarrow> 'i \<Rightarrow> 'st option) \<Rightarrow> 'i list \<Rightarrow> 'st \<Rightarrow> 'st option" where
  "fold_opt step [] st = Some st"
| "fold_opt step (i # is) st = Option.bind (step st i) (fold_opt step is)"

text \<open>The number of slots from \<open>s\<close> to \<open>e\<close>, the whole ring when they are equal.\<close>

definition ring_dist :: "nat \<Rightarrow> nat \<Rightarrow> nat \<Rightarrow> nat" where
  "ring_dist n s e = (if s < e then e - s else e + n - s)"

lemma and_mask_nat: "x AND (2 ^ k - 1) = x mod (2 ^ k :: nat)"
  by (simp add: take_bit_eq_mod [symmetric] take_bit_eq_mask mask_eq_exp_minus_1)

lemma ring_step_neq:
  fixes s d n :: nat
  assumes "0 < d" "d < n" "s < n"
  shows "(s + d) mod n \<noteq> s"
proof
  assume "(s + d) mod n = s"
  then have "(s + d) mod n = s mod n" using mod_less [OF assms(3)] by simp
  then have "n dvd (s + d) - s" using mod_eq_dvd_iff_nat [of s "s + d" n] by (metis le_add1)
  with assms show False by (auto dest: dvd_imp_le)
qed

lemma ring_while_fold:
  assumes "d < 2 ^ k" "s < 2 ^ k" "(s + d) mod 2 ^ k = e"
  shows "ring_while step (2 ^ k - 1) e st s = fold_opt step (ring_idx (2 ^ k) s d) st"
  using assms
proof (induction d arbitrary: s st)
  case 0
  then show ?case by (simp add: ring_while.simps)
next
  case (Suc d)
  have ne: "s \<noteq> e" using ring_step_neq [of "Suc d" "2 ^ k" s] Suc.prems by auto
  have "(Suc s mod 2 ^ k + d) mod 2 ^ k = e" using Suc.prems(3) by (simp add: mod_add_left_eq)
  then have IH: "ring_while step (2 ^ k - 1) e st' (Suc s mod 2 ^ k) = fold_opt step (ring_idx (2 ^ k) (Suc s mod 2 ^ k) d) st'" for st'
    using Suc.prems by (intro Suc.IH) auto
  have "(s + 1) AND (2 ^ k - 1) = Suc s mod 2 ^ k" using and_mask_nat [of "s + 1" k] by simp
  with ne IH Suc.prems(2) show ?case
    by (subst ring_while.simps) (simp add: ring_idx_Suc)
qed

lemma ring_dist_ok:
  assumes "s < n" "e < n"
  shows "0 < ring_dist n s e" "ring_dist n s e \<le> n" "(s + ring_dist n s e) mod n = e"
  using assms by (auto simp: ring_dist_def)

lemma ring_do_fold:
  assumes "s < 2 ^ k" "e < 2 ^ k"
  shows "ring_do step (2 ^ k - 1) e st s = fold_opt step (ring_idx (2 ^ k) s (ring_dist (2 ^ k) s e)) st"
proof -
  let ?n = "2 ^ k :: nat"
  let ?d = "ring_dist ?n s e"
  note d = ring_dist_ok [OF assms]
  then obtain d' where d': "?d = Suc d'" by (cases ?d) auto
  have "(Suc s mod ?n + d') mod ?n = e" using d(3) d' by (simp add: mod_add_left_eq)
  moreover have "d' < ?n" using d d' by simp
  ultimately have "ring_while step (?n - 1) e st' (Suc s mod ?n) = fold_opt step (ring_idx ?n (Suc s mod ?n) d') st'" for st'
    by (intro ring_while_fold) auto
  moreover have "(s + 1) AND (?n - 1) = Suc s mod ?n" using and_mask_nat [of "s + 1" k] by simp
  ultimately show ?thesis using assms d' by (simp add: ring_do_def ring_idx_Suc)
qed

section \<open>Contents of the array\<close>

text \<open>\<open>arr_rep nxt arr cs\<close>: slot \<open>i\<close> of the array holds the buffers \<open>cs ! i\<close>; no buffer is in two slots.\<close>

definition arr_rep :: "nstore \<Rightarrow> slot list \<Rightarrow> nat list list \<Rightarrow> bool" where
  "arr_rep nxt arr cs \<longleftrightarrow> length cs = length arr \<and> distinct (concat cs) \<and>
     (\<forall>i < length arr. seg nxt (sl_head (arr ! i)) (sl_tail (arr ! i)) (cs ! i) \<and>
        (cs ! i = [] \<longrightarrow> sl_tail (arr ! i) = None))"

text \<open>The same together with the list collected so far.\<close>

definition drain_rep :: "('a) drain_scheme \<Rightarrow> nat list \<Rightarrow> nat list list \<Rightarrow> bool" where
  "drain_rep st acc cs \<longleftrightarrow> seg (d_next st) (d_head st) (d_tail st) acc \<and> arr_rep (d_next st) (d_arr st) cs \<and>
     distinct (acc @ concat cs)"

lemma mset_concat_take:
  "i < length cs \<Longrightarrow> mset (concat cs) = mset (cs ! i) + mset (concat (cs[i := []]))"
proof (induction cs arbitrary: i)
  case (Cons c cs)
  then show ?case by (cases i) (auto simp: ac_simps)
qed simp

lemma distinct_concat_take:
  assumes "distinct (acc @ concat cs)" "i < length cs"
  shows "distinct ((acc @ cs ! i) @ concat (cs[i := []]))"
proof -
  have "mset ((acc @ cs ! i) @ concat (cs[i := []])) = mset (acc @ concat cs)"
    using mset_concat_take [OF assms(2)] by simp
  with assms(1) show ?thesis using mset_eq_imp_distinct_iff by blast
qed

lemma arr_rep_empty_slot:
  assumes "arr_rep nxt arr cs" "i < length arr"
  shows "arr_rep nxt (arr[i := empty_slot]) (cs[i := []])"
proof -
  have "distinct ([] @ concat cs)" using assms(1) by (simp add: arr_rep_def)
  with assms distinct_concat_take [of "[]" cs i] show ?thesis
    by (auto simp: arr_rep_def nth_list_update empty_slot_def)
qed

lemma arr_rep_frame:
  assumes "arr_rep nxt arr cs" "a \<notin> set (concat cs)"
  shows "arr_rep (nxt(a := v)) arr cs"
proof -
  have "seg (nxt(a := v)) (sl_head (arr ! i)) (sl_tail (arr ! i)) (cs ! i)" if "i < length arr" for i
  proof -
    have "a \<notin> set (cs ! i)" using assms that by (auto simp: arr_rep_def)
    with assms(1) that show ?thesis by (simp add: arr_rep_def seg_frame)
  qed
  with assms(1) show ?thesis by (simp add: arr_rep_def)
qed

lemma arr_rep_slot: "arr_rep nxt arr cs \<Longrightarrow> i < length arr \<Longrightarrow> seg nxt (sl_head (arr ! i)) (sl_tail (arr ! i)) (cs ! i)"
  by (simp add: arr_rep_def)

text \<open>Linking slot \<open>i\<close> behind what was collected.\<close>

lemma drain_link:
  assumes "drain_rep st acc cs" "i < length (d_arr st)" "acc \<noteq> []" "cs ! i \<noteq> []"
  shows "seg ((d_next st)(last acc := sl_head (d_arr st ! i))) (d_head st) (sl_tail (d_arr st ! i)) (acc @ cs ! i)"
    "arr_rep ((d_next st)(last acc := v)) ((d_arr st)[i := empty_slot]) (cs[i := []])"
    "distinct ((acc @ cs ! i) @ concat (cs[i := []]))"
proof -
  have r: "seg (d_next st) (d_head st) (d_tail st) acc" "arr_rep (d_next st) (d_arr st) cs" "distinct (acc @ concat cs)"
    using assms(1) by (auto simp: drain_rep_def)
  have i: "i < length cs" using r(2) assms(2) by (simp add: arr_rep_def)
  show d: "distinct ((acc @ cs ! i) @ concat (cs[i := []]))" using r(3) i by (rule distinct_concat_take)
  show "seg ((d_next st)(last acc := sl_head (d_arr st ! i))) (d_head st) (sl_tail (d_arr st ! i)) (acc @ cs ! i)"
    using seg_append [OF r(1) arr_rep_slot [OF r(2) assms(2)] assms(3,4)] d by auto
  have "last acc \<in> set acc" using assms(3) by simp
  then have "last acc \<notin> set (concat (cs[i := []]))" using d by auto
  then show "arr_rep ((d_next st)(last acc := v)) ((d_arr st)[i := empty_slot]) (cs[i := []])"
    using arr_rep_empty_slot [OF r(2) assms(2)] by (intro arr_rep_frame)
qed

lemma drain_skip:
  assumes "drain_rep st acc cs" "i < length (d_arr st)" "sl_head (d_arr st ! i) = None"
  shows "cs ! i = []" "cs[i := []] = cs"
proof -
  have "seg (d_next st) (sl_head (d_arr st ! i)) (sl_tail (d_arr st ! i)) (cs ! i)"
    using assms(1,2) by (simp add: drain_rep_def arr_rep_slot)
  with assms(3) show *: "cs ! i = []" by (simp add: seg_None_iff)
  show "cs[i := []] = cs" using * by (metis list_update_id)
qed

lemma flush_step_rep:
  assumes "drain_rep st acc cs" "i < length (d_arr st)"
  shows "\<exists>st'. flush_step st i = Some st' \<and> drain_rep st' (acc @ cs ! i) (cs[i := []]) \<and>
    length (d_arr st') = length (d_arr st)"
proof -
  have r: "seg (d_next st) (d_head st) (d_tail st) acc" "arr_rep (d_next st) (d_arr st) cs" "distinct (acc @ concat cs)"
    using assms(1) by (auto simp: drain_rep_def)
  note slot = arr_rep_slot [OF r(2) assms(2)]
  show ?thesis
  proof (cases "sl_head (d_arr st ! i)")
    case None
    with drain_skip [OF assms None] assms show ?thesis by (simp add: flush_step_def)
  next
    case (Some h)
    then have ne: "cs ! i \<noteq> []" using slot seg_None_iff by fastforce
    show ?thesis
    proof (cases "acc = []")
      case True
      then have "d_head st = None" using r(1) by (simp add: seg_def)
      with True Some slot arr_rep_empty_slot [OF r(2) assms(2)] distinct_concat_take [OF r(3)] assms(2) r(2) show ?thesis
        by (simp add: flush_step_def drain_rep_def arr_rep_def)
    next
      case False
      then obtain x where "d_head st = Some x" "d_tail st = Some (last acc)"
        using r(1) seg_head [OF r(1)] by (auto simp: seg_def)
      with drain_link(1,3) [OF assms False ne] drain_link(2) [OF assms False ne, of "Some h"] Some assms(2) show ?thesis
        by (simp add: flush_step_def drain_rep_def)
    qed
  qed
qed

lemma fold_flush_rep:
  "\<lbrakk>drain_rep st acc cs; \<forall>i \<in> set is. i < length (d_arr st); distinct is\<rbrakk> \<Longrightarrow>
   \<exists>st'. fold_opt flush_step is st = Some st' \<and>
     drain_rep st' (acc @ concat (map (\<lambda>i. cs ! i) is)) (fold (\<lambda>i cs. cs[i := []]) is cs)"
proof (induction "is" arbitrary: st acc cs)
  case (Cons i "is")
  obtain st1 where st1: "flush_step st i = Some st1" "drain_rep st1 (acc @ cs ! i) (cs[i := []])"
    "length (d_arr st1) = length (d_arr st)"
    using flush_step_rep Cons.prems by (metis list.set_intros(1))
  have "map (\<lambda>j. cs[i := []] ! j) is = map (\<lambda>j. cs ! j) is"
    using Cons.prems(3) by (intro map_cong) (auto intro!: nth_list_update_neq)
  with Cons.IH [OF st1(2)] Cons.prems st1 show ?case by (simp add: append_assoc)
qed simp

lemma release_step_rep:
  assumes "drain_rep st acc cs" "i < length (d_arr st)" "acc \<noteq> []"
  shows "\<exists>st'. release_step st i = Some st' \<and> drain_rep st' (acc @ cs ! i) (cs[i := []]) \<and>
    length (d_arr st') = length (d_arr st)"
proof -
  have r: "seg (d_next st) (d_head st) (d_tail st) acc" "arr_rep (d_next st) (d_arr st) cs"
    using assms(1) by (auto simp: drain_rep_def)
  show ?thesis
  proof (cases "sl_head (d_arr st ! i)")
    case None
    with drain_skip [OF assms(1,2) None] assms arr_rep_empty_slot [OF r(2) assms(2)] show ?thesis
      by (simp add: release_step_def drain_rep_def)
  next
    case (Some h)
    then have ne: "cs ! i \<noteq> []" using arr_rep_slot [OF r(2) assms(2)] seg_None_iff by fastforce
    have "d_tail st = Some (last acc)" using r(1) assms(3) by (simp add: seg_def)
    with drain_link(1,3) [OF assms ne] drain_link(2) [OF assms ne, of "Some h"] Some assms(2) show ?thesis
      by (simp add: release_step_def drain_rep_def)
  qed
qed

lemma fold_release_rep:
  "\<lbrakk>drain_rep st acc cs; \<forall>i \<in> set is. i < length (d_arr st); distinct is; acc \<noteq> []\<rbrakk> \<Longrightarrow>
   \<exists>st'. fold_opt release_step is st = Some st' \<and>
     drain_rep st' (acc @ concat (map (\<lambda>i. cs ! i) is)) (fold (\<lambda>i cs. cs[i := []]) is cs)"
proof (induction "is" arbitrary: st acc cs)
  case (Cons i "is")
  obtain st1 where st1: "release_step st i = Some st1" "drain_rep st1 (acc @ cs ! i) (cs[i := []])"
    "length (d_arr st1) = length (d_arr st)"
    using release_step_rep Cons.prems by (metis list.set_intros(1))
  have "map (\<lambda>j. cs[i := []] ! j) is = map (\<lambda>j. cs ! j) is"
    using Cons.prems(3) by (intro map_cong) (auto intro!: nth_list_update_neq)
  with Cons.IH [OF st1(2)] Cons.prems st1 show ?case by (simp add: append_assoc)
qed simp

text \<open>A release that starts at an empty slot: the head stays null and the slots are emptied.\<close>

definition lost_rep :: "drain \<Rightarrow> nat list list \<Rightarrow> bool" where
  "lost_rep st cs \<longleftrightarrow> d_head st = None \<and> arr_rep (d_next st) (d_arr st) cs \<and>
     (\<forall>t. d_tail st = Some t \<longrightarrow> t \<notin> set (concat cs))"

lemma release_step_lost:
  assumes "lost_rep st cs" "i < length (d_arr st)"
  shows "\<exists>st'. release_step st i = Some st' \<and> lost_rep st' (cs[i := []]) \<and> length (d_arr st') = length (d_arr st)"
proof -
  have r: "d_head st = None" "arr_rep (d_next st) (d_arr st) cs" "\<forall>t. d_tail st = Some t \<longrightarrow> t \<notin> set (concat cs)"
    using assms(1) by (auto simp: lost_rep_def)
  note slot = arr_rep_slot [OF r(2) assms(2)]
  note rest = arr_rep_empty_slot [OF r(2) assms(2)]
  have i: "i < length cs" using r(2) assms(2) by (simp add: arr_rep_def)
  have sub: "set (concat (cs[i := []])) \<subseteq> set (concat cs)"
    using mset_concat_take [OF i] by (metis mset_subset_eq_add_right set_mset_mono set_mset_mset)
  show ?thesis
  proof (cases "sl_head (d_arr st ! i)")
    case None
    with r rest sub assms(2) show ?thesis by (auto simp: release_step_def lost_rep_def)
  next
    case (Some h)
    then have ne: "cs ! i \<noteq> []" using slot seg_None_iff by fastforce
    then have tail: "sl_tail (d_arr st ! i) = Some (last (cs ! i))" using slot by (simp add: seg_def)
    have "distinct (cs ! i @ concat (cs[i := []]))"
      using distinct_concat_take [of "[]" cs i] r(2) i by (simp add: arr_rep_def)
    then have "last (cs ! i) \<notin> set (concat (cs[i := []]))" using last_in_set [OF ne] by auto
    moreover have "arr_rep (case d_tail st of None \<Rightarrow> d_next st | Some t \<Rightarrow> (d_next st)(t := Some h))
        ((d_arr st)[i := empty_slot]) (cs[i := []])"
    proof (cases "d_tail st")
      case (Some t)
      then have "t \<notin> set (concat (cs[i := []]))" using r(3) sub by blast
      with Some rest show ?thesis by (simp add: arr_rep_frame)
    qed (use rest in simp)
    ultimately show ?thesis using Some tail r(1) assms(2) by (simp add: release_step_def lost_rep_def)
  qed
qed

lemma fold_release_lost:
  "\<lbrakk>lost_rep st cs; \<forall>i \<in> set is. i < length (d_arr st)\<rbrakk> \<Longrightarrow>
   \<exists>st'. fold_opt release_step is st = Some st' \<and> lost_rep st' (fold (\<lambda>i cs. cs[i := []]) is cs)"
proof (induction "is" arbitrary: st cs)
  case (Cons i "is")
  obtain st1 where st1: "release_step st i = Some st1" "lost_rep st1 (cs[i := []])"
    "length (d_arr st1) = length (d_arr st)"
    using release_step_lost Cons.prems by (metis list.set_intros(1))
  with Cons.IH [OF st1(2)] Cons.prems show ?case by simp
qed simp

section \<open>Frames of the pointer-level state\<close>

lemma get_ro_put_ro:
  "get_ro p tid pd = Some r0 \<Longrightarrow> get_ro p tid (put_ro p tid r pd) = Some r"
  by (auto simp: get_ro_def put_ro_def upd_peer_def split: if_splits)

lemma get_ro_upd_peer:
  "\<lbrakk>get_ro p tid pd = Some r; \<And>pe. tids_rx_reorder (f pe) = tids_rx_reorder pe\<rbrakk> \<Longrightarrow>
   get_ro p tid (upd_peer p f pd) = Some r"
  by (auto simp: get_ro_def upd_peer_def split: if_splits)

lemma get_ro_cong: "rx_peers pd' = rx_peers pd \<Longrightarrow> get_ro p tid pd' = get_ro p tid pd"
  by (simp add: get_ro_def)

lemma get_ro_fields [simp]:
  "get_ro p tid (pd\<lparr>nb_next := nx\<rparr>) = get_ro p tid pd" "get_ro p tid (pd\<lparr>rx_calls := cl\<rparr>) = get_ro p tid pd"
  "get_ro p tid (pd\<lparr>nb_freed := fr\<rparr>) = get_ro p tid pd"
  by (simp_all add: get_ro_def)

lemma upd_fields [simp]:
  "nb_next (upd_peer p f pd) = nb_next pd" "nb_freed (upd_peer p f pd) = nb_freed pd"
  "rx_calls (upd_peer p f pd) = rx_calls pd" "nb_next (put_ro p tid r pd) = nb_next pd"
  "nb_freed (put_ro p tid r pd) = nb_freed pd" "rx_calls (put_ro p tid r pd) = rx_calls pd"
  "nb_next (upd_ac ac g pd) = nb_next pd" "nb_freed (upd_ac ac g pd) = nb_freed pd"
  "rx_calls (upd_ac ac g pd) = rx_calls pd" "rx_peers (upd_ac ac g pd) = rx_peers pd"
  "nb_next (set_next_rel p tid v pd) = nb_next pd" "nb_freed (set_next_rel p tid v pd) = nb_freed pd"
  "rx_calls (set_next_rel p tid v pd) = rx_calls pd" "nb_next (set_last_seq fi p tid h pd) = nb_next pd"
  "nb_freed (set_last_seq fi p tid h pd) = nb_freed pd" "rx_calls (set_last_seq fi p tid h pd) = rx_calls pd"
  by (simp_all add: upd_peer_def put_ro_def upd_ac_def set_next_rel_def set_last_seq_def)

lemma wl_fields [simp]:
  "wl_next (upd_peer p f pd) = wl_next pd" "wl_next (put_ro p tid r pd) = wl_next pd"
  "wl_prev (upd_peer p f pd) = wl_prev pd" "wl_prev (put_ro p tid r pd) = wl_prev pd"
  "wl_first (upd_peer p f pd) = wl_first pd" "wl_first (put_ro p tid r pd) = wl_first pd"
  "wl_last (upd_peer p f pd) = wl_last pd" "wl_last (put_ro p tid r pd) = wl_last pd"
  by (simp_all add: upd_peer_def put_ro_def)

lemma timeout_remove_frame:
  assumes "get_ro p tid pd = Some r"
  shows "\<exists>pd' r'. ol_rx_reorder_timeout_remove p tid pd = Some pd' \<and> get_ro p tid pd' = Some r' \<and>
    r_array r' = r_array r \<and> win_sz_mask r' = win_sz_mask r \<and> nb_next pd' = nb_next pd \<and>
    nb_freed pd' = nb_freed pd \<and> rx_calls pd' = rx_calls pd"
proof (cases "to_active r")
  case True
  let ?pd = "put_ro p tid (r\<lparr>to_active := False\<rparr>) pd"
  have "get_ro p tid (upd_ac (TXRX_TID_TO_WMM_AC tid) g ?pd) = Some (r\<lparr>to_active := False\<rparr>)" for g
    using get_ro_put_ro [OF assms] get_ro_cong [of "upd_ac (TXRX_TID_TO_WMM_AC tid) g ?pd" ?pd] by simp
  with True assms show ?thesis by (simp add: ol_rx_reorder_timeout_remove_def)
next
  case False
  with assms show ?thesis by (simp add: ol_rx_reorder_timeout_remove_def)
qed

lemma waitlist_remove_frame:
  assumes "wl_rep pd xs" "(p, tid) \<notin> set xs \<Longrightarrow> wl_next pd (p, tid) = None"
  shows "\<exists>pd'. ol_rx_defrag_waitlist_remove p tid pd = Some pd' \<and> rx_peers pd' = rx_peers pd \<and>
    nb_next pd' = nb_next pd \<and> nb_freed pd' = nb_freed pd \<and> rx_calls pd' = rx_calls pd"
proof (cases "wl_next pd (p, tid)")
  case None
  then show ?thesis by (simp add: ol_rx_defrag_waitlist_remove_def)
next
  case (Some n)
  then have "(p, tid) \<in> set xs" using assms(2) by (metis option.distinct(1))
  then obtain as bs where "xs = as @ (p, tid) # bs" by (meson split_list)
  then have "wl_prev pd (p, tid) \<noteq> None" using wl_rep_prev [of pd as "(p, tid)" bs] assms(1) by simp
  then obtain q where q: "wl_prev pd (p, tid) = Some q" by blast
  obtain q1 where "wl_prev (pd\<lparr>wl_prev := (wl_prev pd)(n := Some q)\<rparr>) (p, tid) = Some q1" using q by auto
  with Some q show ?thesis
    by (auto simp: ol_rx_defrag_waitlist_remove_def TAILQ_REMOVE_def Let_def tq_write_def split: tq_ptr.split)
qed

text \<open>
  A TID with a block-ack window of \<open>2 ^ k\<close> slots that hold the buffers \<open>cs\<close>.
\<close>

definition tid_rep :: "nat \<Rightarrow> nat \<Rightarrow> nat \<Rightarrow> rx_pdev \<Rightarrow> nat list list \<Rightarrow> bool" where
  "tid_rep k p tid pd cs \<longleftrightarrow> (\<exists>r arr. get_ro p tid pd = Some r \<and> r_array r = Some arr \<and> length arr = 2 ^ k \<and>
     unat (win_sz_mask r) = 2 ^ k - 1 \<and> arr_rep (nb_next pd) arr cs)"

text \<open>The slots addressed by a start and an end index, in order.\<close>

definition window_slots :: "nat \<Rightarrow> nat \<Rightarrow> nat \<Rightarrow> nat list" where
  "window_slots k idx_start idx_end =
     ring_idx (2 ^ k) (idx_start mod 2 ^ k) (ring_dist (2 ^ k) (idx_start mod 2 ^ k) (idx_end mod 2 ^ k))"

definition clear_slots :: "nat list \<Rightarrow> nat list list \<Rightarrow> nat list list" where
  "clear_slots is cs = fold (\<lambda>i cs. cs[i := []]) is cs"

lemma window_slots_ok: "\<forall>i \<in> set (window_slots k s e). i < 2 ^ k" "distinct (window_slots k s e)"
proof -
  have lt: "s mod 2 ^ k < (2 ^ k :: nat)" "e mod 2 ^ k < (2 ^ k :: nat)" by simp_all
  show "\<forall>i \<in> set (window_slots k s e). i < 2 ^ k"
    using ring_idx_range [of "2 ^ k"] by (auto simp: window_slots_def)
  show "distinct (window_slots k s e)"
    using ring_dist_ok(2) [OF lt] unfolding window_slots_def by (rule ring_idx_distinct)
qed

lemma window_slots_Cons:
  "\<exists>d. window_slots k s e = s mod 2 ^ k # ring_idx (2 ^ k) (Suc (s mod 2 ^ k) mod 2 ^ k) d \<and> d < 2 ^ k \<and>
     (Suc (s mod 2 ^ k) mod 2 ^ k + d) mod 2 ^ k = e mod 2 ^ k"
proof -
  let ?n = "2 ^ k :: nat"
  let ?s = "s mod ?n" and ?e = "e mod ?n"
  have lt: "?s < ?n" "?e < ?n" by simp_all
  note d = ring_dist_ok [OF lt]
  then obtain d' where d': "ring_dist ?n ?s ?e = Suc d'" by (cases "ring_dist ?n ?s ?e") auto
  have "(Suc ?s mod ?n + d') mod ?n = ?e" using d(3) d' by (simp add: mod_add_left_eq)
  moreover have "d' < ?n" using d(2) d' by simp
  ultimately show ?thesis using ring_idx_Suc [OF lt(1)] d' by (auto simp: window_slots_def)
qed

lemma flush_drain:
  assumes "arr_rep nxt arr cs" "length arr = 2 ^ k"
  shows "\<exists>st. ring_do flush_step (2 ^ k - 1) (ie mod 2 ^ k)
      \<lparr>d_next = nxt, d_arr = arr, d_head = None, d_tail = None\<rparr> (s mod 2 ^ k) = Some st \<and>
    drain_rep st (concat (map (\<lambda>i. cs ! i) (window_slots k s ie))) (clear_slots (window_slots k s ie) cs)"
proof -
  let ?st = "\<lparr>d_next = nxt, d_arr = arr, d_head = None, d_tail = None\<rparr>"
  have rep: "drain_rep ?st [] cs"
    unfolding drain_rep_def using assms(1) by (simp add: arr_rep_def seg_Nil)
  have lt: "s mod 2 ^ k < (2 ^ k :: nat)" "ie mod 2 ^ k < (2 ^ k :: nat)" by simp_all
  have "\<forall>i \<in> set (window_slots k s ie). i < length (d_arr ?st)" using window_slots_ok(1) assms(2) by simp
  from fold_flush_rep [OF rep this window_slots_ok(2)]
  show ?thesis unfolding ring_do_fold [OF lt] window_slots_def [symmetric] clear_slots_def by simp
qed

lemma drain_rep_terminate:
  assumes "drain_rep st acc cs" "acc \<noteq> []"
  shows "d_head st = Some (hd acc)" "d_tail st = Some (last acc)"
    "chain ((d_next st)(last acc := None)) (Some (hd acc)) acc"
    "arr_rep ((d_next st)(last acc := None)) (d_arr st) cs"
proof -
  have r: "seg (d_next st) (d_head st) (d_tail st) acc" "arr_rep (d_next st) (d_arr st) cs" "distinct (acc @ concat cs)"
    using assms(1) by (auto simp: drain_rep_def)
  show h: "d_head st = Some (hd acc)" using seg_head [OF r(1)] assms(2) by simp
  show "d_tail st = Some (last acc)" "chain ((d_next st)(last acc := None)) (Some (hd acc)) acc"
    using r(1) assms(2) h by (auto simp: seg_def)
  have "last acc \<notin> set (concat cs)" using last_in_set [OF assms(2)] r(3) by auto
  with r(2) show "arr_rep ((d_next st)(last acc := None)) (d_arr st) cs" by (rule arr_rep_frame)
qed

lemma length_fold_upd [simp]: "length (fold (\<lambda>i cs. cs[i := []]) is cs) = length cs"
  by (induction "is" arbitrary: cs) simp_all

lemma set_next_rel_frame [simp]:
  "wl_next (set_next_rel p tid v pd) = wl_next pd" "wl_prev (set_next_rel p tid v pd) = wl_prev pd"
  "wl_first (set_next_rel p tid v pd) = wl_first pd" "wl_last (set_next_rel p tid v pd) = wl_last pd"
  by (simp_all add: set_next_rel_def)

lemma get_ro_set_next_rel: "get_ro p tid pd = Some r \<Longrightarrow> get_ro p tid (set_next_rel p tid v pd) = Some r"
  unfolding set_next_rel_def by (rule get_ro_upd_peer) simp_all

lemma get_ro_set_last_seq: "get_ro p tid pd = Some r \<Longrightarrow> get_ro p tid (set_last_seq fi p tid h pd) = Some r"
  unfolding set_last_seq_def by (rule get_ro_upd_peer) simp_all

text \<open>The state after the array was drained, before the buffers are passed on.\<close>

lemma drained_state:
  assumes "get_ro p tid pd = Some r"
  shows "get_ro p tid (put_ro p tid r' (set_next_rel p tid v (pd\<lparr>nb_next := nx\<rparr>))) = Some r'"
proof -
  have "get_ro p tid (pd\<lparr>nb_next := nx\<rparr>) = Some r" using assms by simp
  then show ?thesis by (intro get_ro_put_ro get_ro_set_next_rel)
qed

text \<open>Ending with the removal of the timer keeps what the TID holds.\<close>

lemma timeout_remove_tid:
  assumes "get_ro p tid pd = Some r" "r_array r = Some arr" "length arr = 2 ^ k"
    "unat (win_sz_mask r) = 2 ^ k - 1" "arr_rep (nb_next pd) arr cs"
  shows "\<exists>pd'. ol_rx_reorder_timeout_remove p tid pd = Some pd' \<and> tid_rep k p tid pd' cs \<and>
    nb_next pd' = nb_next pd \<and> nb_freed pd' = nb_freed pd \<and> rx_calls pd' = rx_calls pd"
  using timeout_remove_frame [OF assms(1)] assms by (auto simp: tid_rep_def)

text \<open>The two loops with the indices of the window written out.\<close>

lemma flush_unfold:
  assumes "get_ro p tid pd = Some r" "r_array r = Some arr" "unat (win_sz_mask r) = 2 ^ k - 1"
  shows "ol_rx_reorder_flush fi p tid s e action pd =
    do {
      st \<leftarrow> ring_do flush_step (2 ^ k - 1) ((if e = 0xffff then s else e) mod 2 ^ k)
             \<lparr>d_next = nb_next pd, d_arr = arr, d_head = None, d_tail = None\<rparr> (s mod 2 ^ k);
      pd2 \<leftarrow> ol_rx_defrag_waitlist_remove p tid
               (put_ro p tid (r\<lparr>r_array := Some (d_arr st)\<rparr>)
                 (set_next_rel p tid (if e = 0xffff then 0 else of_nat e) (pd\<lparr>nb_next := d_next st\<rparr>)));
      pd3 \<leftarrow> (case d_head st of
          None \<Rightarrow> Some pd2
        | Some h \<Rightarrow>
            do {
              t \<leftarrow> d_tail st;
              let pd' = set_last_seq fi p tid h (pd2\<lparr>nb_next := (nb_next pd2)(t := None)\<rparr>);
              if action = htt_rx_flush_release
              then Some (pd'\<lparr>rx_calls := rx_calls pd' @ [Rx_opt_proc p tid (Some h)]\<rparr>)
              else ol_rx_frames_free (Some h) pd'
            });
      ol_rx_reorder_timeout_remove p tid pd3
    }"
  unfolding ol_rx_reorder_flush_def assms(1) bind.bind_lunit assms(2,3) and_mask_nat Let_def ..

lemma flush_result:
  assumes "tid_rep k p tid pd cs" "wl_rep pd xs" "(p, tid) \<notin> set xs \<Longrightarrow> wl_next pd (p, tid) = None"
    and "ws = window_slots k s (if e = 0xffff then s else e)" "out = concat (map (\<lambda>i. cs ! i) ws)"
  shows "\<exists>pd'. ol_rx_reorder_flush fi p tid s e action pd = Some pd' \<and> tid_rep k p tid pd' (clear_slots ws cs) \<and>
    (if out = [] then rx_calls pd' = rx_calls pd \<and> nb_freed pd' = nb_freed pd
     else if action = htt_rx_flush_release
     then rx_calls pd' = rx_calls pd @ [Rx_opt_proc p tid (Some (hd out))] \<and>
       chain (nb_next pd') (Some (hd out)) out \<and> nb_freed pd' = nb_freed pd
     else rx_calls pd' = rx_calls pd \<and> nb_freed pd' = nb_freed pd @ out)"
proof -
  let ?ie = "if e = 0xffff then s else e"
  let ?rel = "if e = 0xffff then 0 else of_nat e"
  obtain r arr where r: "get_ro p tid pd = Some r" "r_array r = Some arr" "length arr = 2 ^ k"
    "unat (win_sz_mask r) = 2 ^ k - 1" "arr_rep (nb_next pd) arr cs"
    using assms(1) by (auto simp: tid_rep_def)
  obtain st where st: "ring_do flush_step (2 ^ k - 1) (?ie mod 2 ^ k)
      \<lparr>d_next = nb_next pd, d_arr = arr, d_head = None, d_tail = None\<rparr> (s mod 2 ^ k) = Some st"
    and rep: "drain_rep st out (clear_slots ws cs)"
    using flush_drain [OF r(5,3), of ?ie s] assms(4,5) by blast
  have len: "length (d_arr st) = 2 ^ k"
    using rep r(3,5) by (simp add: drain_rep_def arr_rep_def clear_slots_def length_fold_upd)
  let ?r = "r\<lparr>r_array := Some (d_arr st)\<rparr>"
  let ?pd1 = "put_ro p tid ?r (set_next_rel p tid ?rel (pd\<lparr>nb_next := d_next st\<rparr>))"
  have "wl_rep ?pd1 xs" "(p, tid) \<notin> set xs \<Longrightarrow> wl_next ?pd1 (p, tid) = None"
    using assms(2,3) by (simp_all add: wl_rep_def)
  then obtain pd2 where pd2: "ol_rx_defrag_waitlist_remove p tid ?pd1 = Some pd2" "rx_peers pd2 = rx_peers ?pd1"
    "nb_next pd2 = d_next st" "nb_freed pd2 = nb_freed pd" "rx_calls pd2 = rx_calls pd"
    using waitlist_remove_frame [of ?pd1 xs p tid] by auto
  have g2: "get_ro p tid pd2 = Some ?r" using get_ro_cong [OF pd2(2)] drained_state [OF r(1)] by simp
  note head = flush_unfold [OF r(1,2,4), of fi s e action, unfolded st bind.bind_lunit pd2(1)]
  show ?thesis
  proof (cases "out = []")
    case True
    have "arr_rep (nb_next pd2) (d_arr st) (clear_slots ws cs)" using rep pd2(3) by (simp add: drain_rep_def)
    then obtain pd' where "ol_rx_reorder_timeout_remove p tid pd2 = Some pd'" "tid_rep k p tid pd' (clear_slots ws cs)"
      "nb_freed pd' = nb_freed pd" "rx_calls pd' = rx_calls pd"
      using timeout_remove_tid [OF g2, of "d_arr st" k] len r(4) pd2 by auto
    moreover have "d_head st = None" using rep True by (simp add: drain_rep_def seg_def)
    ultimately show ?thesis using True by (simp add: head)
  next
    case False
    note fin = drain_rep_terminate [OF rep False]
    let ?pd3 = "set_last_seq fi p tid (hd out) (pd2\<lparr>nb_next := (nb_next pd2)(last out := None)\<rparr>)"
    have "get_ro p tid (pd2\<lparr>nb_next := (nb_next pd2)(last out := None)\<rparr>) = Some ?r" using g2 by simp
    then have g3: "get_ro p tid ?pd3 = Some ?r" by (rule get_ro_set_last_seq)
    define pd3 where "pd3 = (if action = htt_rx_flush_release
      then ?pd3\<lparr>rx_calls := rx_calls ?pd3 @ [Rx_opt_proc p tid (Some (hd out))]\<rparr>
      else ?pd3\<lparr>nb_freed := nb_freed ?pd3 @ out\<rparr>)"
    have c3: "get_ro p tid pd3 = Some ?r" "nb_next pd3 = (d_next st)(last out := None)"
      using g3 pd2(3) by (simp_all add: pd3_def)
    then obtain pd' where pd': "ol_rx_reorder_timeout_remove p tid pd3 = Some pd'" "tid_rep k p tid pd' (clear_slots ws cs)"
      "nb_next pd' = nb_next pd3" "nb_freed pd' = nb_freed pd3" "rx_calls pd' = rx_calls pd3"
      using timeout_remove_tid [of p tid pd3 ?r "d_arr st" k] len r(4) fin(4) by auto
    have "ol_rx_frames_free (Some (hd out)) ?pd3 = Some (?pd3\<lparr>nb_freed := nb_freed ?pd3 @ out\<rparr>)"
      using walk_list_chain [OF fin(3), of "[]"] pd2(3) by (simp add: ol_rx_frames_free_def)
    then have "ol_rx_reorder_flush fi p tid s e action pd = Some pd'"
      using pd'(1) fin(1,2) unfolding head by (cases action) (simp_all add: Let_def pd3_def)
    with pd' fin(3) c3 False pd2 show ?thesis by (auto simp: pd3_def)
  qed
qed

lemma release_unfold:
  assumes "get_ro p tid pd = Some r" "r_array r = Some arr" "unat (win_sz_mask r) = 2 ^ k - 1" "length arr = 2 ^ k"
  shows "ol_rx_reorder_release fi p tid s e pd =
    do {
      st \<leftarrow> ring_while release_step (2 ^ k - 1) (e mod 2 ^ k)
             \<lparr>d_next = nb_next pd, d_arr = arr[s mod 2 ^ k := empty_slot], d_head = sl_head (arr ! (s mod 2 ^ k)),
              d_tail = sl_tail (arr ! (s mod 2 ^ k))\<rparr> ((s mod 2 ^ k + 1) mod 2 ^ k);
      let pd1 = put_ro p tid (r\<lparr>r_array := Some (d_arr st)\<rparr>)
                   (set_next_rel p tid (of_nat e) (pd\<lparr>nb_next := d_next st\<rparr>));
      pd2 \<leftarrow> (case d_head st of
           None \<Rightarrow> Some pd1
         | Some h \<Rightarrow>
             do {
               t \<leftarrow> d_tail st;
               Some (set_last_seq fi p tid h
                 (pd1\<lparr>nb_next := (nb_next pd1)(t := None), rx_calls := rx_calls pd1 @ [Rx_opt_proc p tid (Some h)]\<rparr>))
             });
      ol_rx_reorder_timeout_remove p tid pd2
    }"
proof -
  have "get_slot (s mod 2 ^ k) r = Some (arr ! (s mod 2 ^ k))" using assms(2,4) by (simp add: get_slot_def)
  then show ?thesis
    unfolding ol_rx_reorder_release_def assms(1) bind.bind_lunit assms(2,3) and_mask_nat Let_def by simp
qed

text \<open>The loop of the release, from a start slot that holds buffers and from an empty one.\<close>

lemma release_drain:
  fixes s e k :: nat
  defines "ws \<equiv> window_slots k s e"
  assumes "arr_rep nxt arr cs" "length arr = 2 ^ k"
    and "st = \<lparr>d_next = nxt, d_arr = arr[s mod 2 ^ k := empty_slot], d_head = sl_head (arr ! (s mod 2 ^ k)),
              d_tail = sl_tail (arr ! (s mod 2 ^ k))\<rparr>"
  shows "\<exists>st'. ring_while release_step (2 ^ k - 1) (e mod 2 ^ k) st ((s mod 2 ^ k + 1) mod 2 ^ k) = Some st' \<and>
    (if cs ! (s mod 2 ^ k) = [] then lost_rep st' (clear_slots ws cs)
     else drain_rep st' (concat (map (\<lambda>i. cs ! i) ws)) (clear_slots ws cs))"
proof -
  let ?n = "2 ^ k :: nat"
  let ?s = "s mod ?n"
  let ?cs = "cs[?s := []]"
  obtain d where d: "ws = ?s # ring_idx ?n (Suc ?s mod ?n) d" "d < ?n" "(Suc ?s mod ?n + d) mod ?n = e mod ?n"
    using window_slots_Cons unfolding ws_def by blast
  let ?is = "ring_idx ?n (Suc ?s mod ?n) d"
  have lt: "?s < length arr" "?s < length cs" using assms(2,3) by (simp_all add: arr_rep_def)
  have run: "ring_while release_step (?n - 1) (e mod ?n) st ((?s + 1) mod ?n) = fold_opt release_step ?is st"
    using ring_while_fold [OF d(2) _ d(3)] by simp
  have arr: "length (d_arr st) = ?n" using assms(3,4) by simp
  note ws = window_slots_ok [of k s e, folded ws_def, unfolded d(1)]
  have ok1: "\<forall>i \<in> set ?is. i < length (d_arr st)"
    unfolding arr using ws(1) by (blast intro: list.set_intros(2))
  have ok2: "?s \<notin> set ?is \<and> distinct ?is" using ws(2) unfolding distinct.simps .
  note ok = ok1 conjunct2 [OF ok2] conjunct1 [OF ok2]
  have rest: "arr_rep nxt (arr[?s := empty_slot]) ?cs" using arr_rep_empty_slot [OF assms(2) lt(1)] .
  have clr: "clear_slots ws cs = fold (\<lambda>i cs. cs[i := []]) ?is ?cs" by (simp add: clear_slots_def d(1))
  have same: "map (\<lambda>i. ?cs ! i) ?is = map (\<lambda>i. cs ! i) ?is"
    using ok(3) by (intro map_cong) (auto intro!: nth_list_update_neq)
  note slot = arr_rep_slot [OF assms(2) lt(1)]
  show ?thesis
  proof (cases "cs ! ?s = []")
    case True
    with slot have "sl_head (arr ! ?s) = None" by (simp add: seg_def)
    moreover have "sl_tail (arr ! ?s) = None" using assms(2) lt(1) True by (simp add: arr_rep_def)
    ultimately have "lost_rep st ?cs" using rest assms(4) by (simp add: lost_rep_def)
    from fold_release_lost [OF this ok(1)] True run clr show ?thesis by simp
  next
    case False
    have "distinct ([] @ concat cs)" using assms(2) by (simp add: arr_rep_def)
    from distinct_concat_take [OF this lt(2)] have "drain_rep st (cs ! ?s) ?cs"
      using slot rest assms(4) by (simp add: drain_rep_def)
    from fold_release_rep [OF this ok(1,2) False] False run clr same d(1) show ?thesis by simp
  qed
qed

lemma release_result:
  assumes "tid_rep k p tid pd cs" "ws = window_slots k s e"
  shows "\<exists>pd'. ol_rx_reorder_release fi p tid s e pd = Some pd' \<and> tid_rep k p tid pd' (clear_slots ws cs) \<and>
    nb_freed pd' = nb_freed pd \<and>
    (if cs ! (s mod 2 ^ k) = [] then rx_calls pd' = rx_calls pd
     else rx_calls pd' = rx_calls pd @ [Rx_opt_proc p tid (Some (hd (cs ! (s mod 2 ^ k))))] \<and>
       chain (nb_next pd') (Some (hd (cs ! (s mod 2 ^ k)))) (concat (map (\<lambda>i. cs ! i) ws)))"
proof -
  let ?s = "s mod 2 ^ k"
  let ?out = "concat (map (\<lambda>i. cs ! i) ws)"
  obtain r arr where r: "get_ro p tid pd = Some r" "r_array r = Some arr" "length arr = 2 ^ k"
    "unat (win_sz_mask r) = 2 ^ k - 1" "arr_rep (nb_next pd) arr cs"
    using assms(1) by (auto simp: tid_rep_def)
  obtain st where st: "ring_while release_step (2 ^ k - 1) (e mod 2 ^ k)
      \<lparr>d_next = nb_next pd, d_arr = arr[?s := empty_slot], d_head = sl_head (arr ! ?s), d_tail = sl_tail (arr ! ?s)\<rparr>
      ((?s + 1) mod 2 ^ k) = Some st"
    and cs: "if cs ! ?s = [] then lost_rep st (clear_slots ws cs) else drain_rep st ?out (clear_slots ws cs)"
    using release_drain [OF r(5,3) refl] assms(2) by blast
  let ?r = "r\<lparr>r_array := Some (d_arr st)\<rparr>"
  let ?pd1 = "put_ro p tid ?r (set_next_rel p tid (of_nat e) (pd\<lparr>nb_next := d_next st\<rparr>))"
  note head = release_unfold [OF r(1,2,4,3), of fi s e, unfolded st bind.bind_lunit Let_def]
  have g1: "get_ro p tid ?pd1 = Some ?r" using r(1) by (rule drained_state)
  have "length cs = 2 ^ k" using r(3,5) by (simp add: arr_rep_def)
  then have len: "length (d_arr st) = 2 ^ k"
    using cs by (auto simp: drain_rep_def lost_rep_def arr_rep_def clear_slots_def split: if_splits)
  show ?thesis
  proof (cases "cs ! ?s = []")
    case True
    then have l: "d_head st = None" "arr_rep (d_next st) (d_arr st) (clear_slots ws cs)"
      using cs by (simp_all add: lost_rep_def)
    then obtain pd' where "ol_rx_reorder_timeout_remove p tid ?pd1 = Some pd'" "tid_rep k p tid pd' (clear_slots ws cs)"
      "nb_freed pd' = nb_freed pd" "rx_calls pd' = rx_calls pd"
      using timeout_remove_tid [OF g1, of "d_arr st" k] len r(4) by auto
    with l(1) True show ?thesis by (simp add: head)
  next
    case False
    obtain zs where zs: "ws = ?s # zs" using window_slots_Cons [of k s e] assms(2) by blast
    with False have ne: "?out \<noteq> []" and hd: "hd ?out = hd (cs ! ?s)" by simp_all
    have "drain_rep st ?out (clear_slots ws cs)" using cs False by simp
    note fin = drain_rep_terminate [OF this ne, unfolded hd]
    let ?pd2 = "set_last_seq fi p tid (hd (cs ! ?s)) (?pd1\<lparr>nb_next := (nb_next ?pd1)(last ?out := None),
      rx_calls := rx_calls ?pd1 @ [Rx_opt_proc p tid (Some (hd (cs ! ?s)))]\<rparr>)"
    have "get_ro p tid ?pd2 = Some ?r" using g1 by (intro get_ro_set_last_seq) simp
    then obtain pd' where "ol_rx_reorder_timeout_remove p tid ?pd2 = Some pd'" "tid_rep k p tid pd' (clear_slots ws cs)"
      "nb_next pd' = nb_next ?pd2" "nb_freed pd' = nb_freed pd" "rx_calls pd' = rx_calls ?pd2"
      using timeout_remove_tid [of p tid ?pd2 ?r "d_arr st" k] len r(4) fin(4) by auto
    with fin(1,2,3) False show ?thesis by (simp add: head)
  qed
qed

section \<open>The host-side timeout\<close>

text \<open>No element is on a virtual timer list, none is active, and no MPDU is counted.\<close>

definition timeout_idle :: "rx_pdev \<Rightarrow> bool" where
  "timeout_idle pd \<longleftrightarrow> list_all (\<lambda>a. timer_list a = []) (access_cats pd) \<and>
     list_all (\<lambda>pe. list_all (\<lambda>r. num_mpdus r = 0 \<and> \<not> to_active r) (tids_rx_reorder pe)) (rx_peers pd)"

text \<open>Everything the receive path does to the reorder state.\<close>

inductive rx_step :: "rx_pdev \<Rightarrow> rx_pdev \<Rightarrow> bool" where
  store: "ol_rx_reorder_store p tid idx h t pd = Some pd' \<Longrightarrow> rx_step pd pd'"
| release: "ol_rx_reorder_release fi p tid s e pd = Some pd' \<Longrightarrow> rx_step pd pd'"
| store_frag: "ol_rx_reorder_store_frag fi now p tid seq frag pd = Some pd' \<Longrightarrow> rx_step pd pd'"
| waitlist_flush: "ol_rx_defrag_waitlist_flush now pd = Some pd' \<Longrightarrow> rx_step pd pd'"
| addba: "ol_rx_addba_handler malloc peer tid wsz failed pd = Some pd' \<Longrightarrow> rx_step pd pd'"
| delba: "ol_rx_delba_handler peer tid8 pd = Some pd' \<Longrightarrow> rx_step pd pd'"
| flush: "ol_rx_flush_handler fi now peer tid s e action pd = Some pd' \<Longrightarrow> rx_step pd pd'"
| pn_ind: "ol_rx_pn_ind_handler peer tid s e cnt ies pd = Some pd' \<Longrightarrow> rx_step pd pd'"
| update: "ol_rx_reorder_timeout_update now p tid pd = Some pd' \<Longrightarrow> rx_step pd pd'"
| expire: "ol_rx_reorder_timeout fi ac now pd = Some pd' \<Longrightarrow> rx_step pd pd'"
| cleanup: "ol_rx_reorder_peer_cleanup fi p pd = Some pd' \<Longrightarrow> rx_step pd pd'"

inductive_cases rx_stepE: "rx_step pd pd'"

lemma timeout_idle_cong:
  "rx_peers pd' = rx_peers pd \<Longrightarrow> access_cats pd' = access_cats pd \<Longrightarrow> timeout_idle pd' = timeout_idle pd"
  by (simp add: timeout_idle_def)

lemma list_all_update:
  assumes "list_all Q xs" "i < length xs \<Longrightarrow> Q (xs ! i) \<Longrightarrow> Q x"
  shows "list_all Q (xs[i := x])"
  using assms by (auto simp: list_all_length nth_list_update_if)

lemma timeout_idle_put_ro [simp]:
  "timeout_idle pd \<Longrightarrow> num_mpdus r = 0 \<Longrightarrow> \<not> to_active r \<Longrightarrow> timeout_idle (put_ro p tid r pd)"
  by (auto simp: timeout_idle_def put_ro_def upd_peer_def intro!: list_all_update)

lemma timeout_idle_upd_peer:
  "timeout_idle pd \<Longrightarrow> (\<And>pe. tids_rx_reorder (f pe) = tids_rx_reorder pe) \<Longrightarrow> timeout_idle (upd_peer p f pd)"
  by (auto simp: timeout_idle_def upd_peer_def intro!: list_all_update)

lemma timeout_idle_get: "timeout_idle pd \<Longrightarrow> get_ro p tid pd = Some r \<Longrightarrow> num_mpdus r = 0 \<and> \<not> to_active r"
  by (auto simp: timeout_idle_def get_ro_def list_all_length split: if_splits)

lemma timeout_idle_set [simp]:
  "timeout_idle pd \<Longrightarrow> timeout_idle (set_next_rel p tid v pd)"
  "timeout_idle pd \<Longrightarrow> timeout_idle (set_last_seq fi p tid h pd)"
  by (simp_all add: set_next_rel_def set_last_seq_def timeout_idle_upd_peer)

lemma timeout_idle_fields [simp]:
  "timeout_idle (pd\<lparr>nb_next := nx\<rparr>) = timeout_idle pd" "timeout_idle (pd\<lparr>rx_calls := cl\<rparr>) = timeout_idle pd"
  "timeout_idle (pd\<lparr>nb_freed := fr\<rparr>) = timeout_idle pd" "timeout_idle (pd\<lparr>wl_next := wn\<rparr>) = timeout_idle pd"
  "timeout_idle (pd\<lparr>wl_prev := wp\<rparr>) = timeout_idle pd" "timeout_idle (pd\<lparr>wl_first := w1\<rparr>) = timeout_idle pd"
  "timeout_idle (pd\<lparr>wl_last := w2\<rparr>) = timeout_idle pd"
  by (simp_all add: timeout_idle_def)

lemma cats_fields [simp]:
  "access_cats (upd_peer p f pd) = access_cats pd" "access_cats (put_ro p tid r pd) = access_cats pd"
  "access_cats (set_next_rel p tid v pd) = access_cats pd" "access_cats (set_last_seq fi p tid h pd) = access_cats pd"
  by (simp_all add: upd_peer_def put_ro_def set_next_rel_def set_last_seq_def)

text \<open>A step that keeps the timers as they are.\<close>

definition quiet :: "rx_pdev \<Rightarrow> rx_pdev \<Rightarrow> bool" where
  "quiet pd pd' \<longleftrightarrow> timeout_idle pd' \<and> access_cats pd' = access_cats pd"

lemma quiet_trans: "quiet pd1 pd2 \<Longrightarrow> quiet pd2 pd3 \<Longrightarrow> quiet pd1 pd3"
  by (simp add: quiet_def)

lemma quietI:
  "timeout_idle pd \<Longrightarrow> rx_peers pd' = rx_peers pd \<Longrightarrow> access_cats pd' = access_cats pd \<Longrightarrow> quiet pd pd'"
  by (metis quiet_def timeout_idle_cong)

lemma quiet_idle: "quiet pd pd' \<Longrightarrow> timeout_idle pd'"
  by (simp add: quiet_def)

lemma idle_timeout_remove:
  assumes "timeout_idle pd"
  shows "ol_rx_reorder_timeout_remove p tid pd = (case get_ro p tid pd of None \<Rightarrow> None | Some _ \<Rightarrow> Some pd)"
  using timeout_idle_get [OF assms, of p tid]
  by (auto simp: ol_rx_reorder_timeout_remove_def split: option.split)

lemma idle_timeout_update:
  assumes "timeout_idle pd"
  shows "ol_rx_reorder_timeout_update now p tid pd = (case get_ro p tid pd of None \<Rightarrow> None | Some _ \<Rightarrow> Some pd)"
  using timeout_idle_get [OF assms, of p tid]
  by (auto simp: ol_rx_reorder_timeout_update_def split: option.split)

lemma idle_timeout_expire:
  assumes "timeout_idle pd" "ol_rx_reorder_timeout fi ac now pd = Some pd'"
  shows "pd' = pd"
proof -
  have ac: "ac < length (access_cats pd)" using assms(2) by (simp add: ol_rx_reorder_timeout_def split: if_splits)
  then have "timer_list (access_cats pd ! ac) = []" using assms(1) by (simp add: timeout_idle_def list_all_length)
  with assms(2) ac show ?thesis by (simp add: ol_rx_reorder_timeout_def)
qed

lemma frames_free_quiet:
  "timeout_idle pd \<Longrightarrow> ol_rx_frames_free b pd = Some pd' \<Longrightarrow> quiet pd pd'"
  by (auto simp: ol_rx_frames_free_def bind_eq_Some_conv intro!: quietI)

lemma waitlist_remove_quiet:
  "timeout_idle pd \<Longrightarrow> ol_rx_defrag_waitlist_remove p tid pd = Some pd' \<Longrightarrow> quiet pd pd'"
  by (auto simp: ol_rx_defrag_waitlist_remove_def TAILQ_REMOVE_def Let_def tq_write_def bind_eq_Some_conv
      intro!: quietI split: option.splits if_splits tq_ptr.splits)

lemma waitlist_add_quiet: "timeout_idle pd \<Longrightarrow> quiet pd (ol_rx_defrag_waitlist_add p tid pd)"
  by (auto simp: ol_rx_defrag_waitlist_add_def TAILQ_INSERT_TAIL_def Let_def tq_write_def
      intro!: quietI split: tq_ptr.splits)

lemma put_slot_keeps [simp]: "num_mpdus (put_slot i s r) = num_mpdus r" "to_active (put_slot i s r) = to_active r"
  by (simp_all add: put_slot_def)

lemma store_quiet:
  assumes "timeout_idle pd" "ol_rx_reorder_store p tid idx h t pd = Some pd'"
  shows "quiet pd pd'"
proof (cases "get_ro p tid pd")
  case (Some r)
  from timeout_idle_get [OF assms(1) Some] assms Some show ?thesis
    by (auto simp: ol_rx_reorder_store_def bind_eq_Some_conv Let_def quiet_def split: option.splits)
qed (use assms in \<open>simp add: ol_rx_reorder_store_def\<close>)

lemma release_quiet:
  assumes "timeout_idle pd" "ol_rx_reorder_release fi p tid s e pd = Some pd'"
  shows "quiet pd pd'"
proof (cases "get_ro p tid pd")
  case (Some r)
  from timeout_idle_get [OF assms(1) Some] assms Some show ?thesis
    by (auto simp: ol_rx_reorder_release_def bind_eq_Some_conv Let_def quiet_def idle_timeout_remove
        split: option.splits)
qed (use assms in \<open>simp add: ol_rx_reorder_release_def\<close>)

lemma flush_quiet:
  assumes "timeout_idle pd" "ol_rx_reorder_flush fi p tid s e action pd = Some pd'"
  shows "quiet pd pd'"
proof (cases "get_ro p tid pd")
  case (Some r)
  note r = timeout_idle_get [OF assms(1) Some]
  from assms(2) Some obtain st :: drain and pd2 pd3 where pd2: "ol_rx_defrag_waitlist_remove p tid
      (put_ro p tid (r\<lparr>r_array := Some (d_arr st)\<rparr>)
        (set_next_rel p tid (if e = 0xffff then 0 else of_nat e) (pd\<lparr>nb_next := d_next st\<rparr>))) = Some pd2"
    and pd3: "(case d_head st of None \<Rightarrow> Some pd2 | Some h \<Rightarrow> Option.bind (d_tail st) (\<lambda>t.
        if action = htt_rx_flush_release
        then Some (set_last_seq fi p tid h (pd2\<lparr>nb_next := (nb_next pd2)(t := None)\<rparr>)
          \<lparr>rx_calls := rx_calls (set_last_seq fi p tid h (pd2\<lparr>nb_next := (nb_next pd2)(t := None)\<rparr>)) @
             [Rx_opt_proc p tid (Some h)]\<rparr>)
        else ol_rx_frames_free (Some h) (set_last_seq fi p tid h (pd2\<lparr>nb_next := (nb_next pd2)(t := None)\<rparr>)))) = Some pd3"
    and pd': "ol_rx_reorder_timeout_remove p tid pd3 = Some pd'"
    unfolding ol_rx_reorder_flush_def Let_def bind_eq_Some_conv by auto
  have q2: "quiet pd pd2" using waitlist_remove_quiet [OF _ pd2] r assms(1) by (simp add: quiet_def)
  from pd3 quiet_idle [OF q2] have q3: "quiet pd2 pd3"
    by (auto simp: bind_eq_Some_conv quiet_def ol_rx_frames_free_def split: option.splits if_splits)
  moreover have "pd' = pd3" using pd' idle_timeout_remove [OF quiet_idle [OF q3]] by (auto split: option.splits)
  ultimately show ?thesis using quiet_trans [OF q2] by simp
qed (use assms in \<open>simp add: ol_rx_reorder_flush_def\<close>)

lemma flush_frag_quiet:
  assumes "timeout_idle pd" "ol_rx_reorder_flush_frag p tid s pd = Some pd'"
  shows "quiet pd pd'"
proof (cases "get_ro p tid pd")
  case (Some r)
  from timeout_idle_get [OF assms(1) Some] assms Some show ?thesis
    by (auto simp: ol_rx_reorder_flush_frag_def bind_eq_Some_conv Let_def quiet_def ol_rx_frames_free_def
        split: option.splits)
qed (use assms in \<open>simp add: ol_rx_reorder_flush_frag_def\<close>)

text \<open>Rules that follow the structure of an operation.\<close>

definition keeps_quiet :: "rx_pdev \<Rightarrow> rx_pdev option \<Rightarrow> bool" where
  "keeps_quiet pd c \<longleftrightarrow> (\<forall>pd'. c = Some pd' \<longrightarrow> quiet pd pd')"

lemma keeps_quiet_rules:
  "(\<And>x. m = Some x \<Longrightarrow> keeps_quiet pd (f x)) \<Longrightarrow> keeps_quiet pd (Option.bind m f)"
  "(b \<Longrightarrow> keeps_quiet pd c) \<Longrightarrow> (\<not> b \<Longrightarrow> keeps_quiet pd d) \<Longrightarrow> keeps_quiet pd (if b then c else d)"
  "quiet pd pd' \<Longrightarrow> keeps_quiet pd (Some pd')"
  "keeps_quiet pd None"
  "(\<And>x y. z = (x, y) \<Longrightarrow> keeps_quiet pd (g x y)) \<Longrightarrow> keeps_quiet pd (case z of (x, y) \<Rightarrow> g x y)"
  by (auto simp: keeps_quiet_def bind_eq_Some_conv split: prod.splits)

lemma frag_drop_quiet:
  "timeout_idle pd \<Longrightarrow> frag_drop_other fi frag s pd = Some (pd1, s1) \<Longrightarrow> quiet pd pd1"
  by (auto simp: frag_drop_other_def bind_eq_Some_conv quiet_def ol_rx_frames_free_def split: option.splits if_splits)

lemma store_frag_finish:
  assumes "timeout_idle pd" "num_mpdus r = 0 \<and> \<not> to_active r"
  shows "quiet pd (upd_peer p (\<lambda>pe. pe\<lparr>tids_last_seq := (tids_last_seq pe)[tid := seq]\<rparr>)
      (put_ro p tid (r\<lparr>defrag_timeout_ms := 0\<rparr>) (pd\<lparr>rx_calls := cl\<rparr>)))"
    "quiet pd (ol_rx_defrag_waitlist_add p tid (put_ro p tid (r\<lparr>defrag_timeout_ms := t\<rparr>) pd))"
proof -
  have "timeout_idle (put_ro p tid (r\<lparr>defrag_timeout_ms := 0\<rparr>) (pd\<lparr>rx_calls := cl\<rparr>))" using assms by simp
  then show "quiet pd (upd_peer p (\<lambda>pe. pe\<lparr>tids_last_seq := (tids_last_seq pe)[tid := seq]\<rparr>)
      (put_ro p tid (r\<lparr>defrag_timeout_ms := 0\<rparr>) (pd\<lparr>rx_calls := cl\<rparr>)))"
    by (simp add: quiet_def timeout_idle_upd_peer)
  have "timeout_idle (put_ro p tid (r\<lparr>defrag_timeout_ms := t\<rparr>) pd)" using assms by simp
  from waitlist_add_quiet [OF this, of p tid]
  show "quiet pd (ol_rx_defrag_waitlist_add p tid (put_ro p tid (r\<lparr>defrag_timeout_ms := t\<rparr>) pd))"
    by (simp add: quiet_def)
qed

lemma store_frag_tail:
  assumes "timeout_idle pd1" "num_mpdus r = 0 \<and> \<not> to_active r"
    and "(if b then ol_rx_defrag_waitlist_remove p tid (put_ro p tid r (pd1\<lparr>nb_next := nx, nb_freed := fr\<rparr>))
          else Some (put_ro p tid r (pd1\<lparr>nb_next := nx, nb_freed := fr\<rparr>))) = Some pd3"
  shows "quiet pd1 pd3"
proof -
  have "timeout_idle (put_ro p tid r (pd1\<lparr>nb_next := nx, nb_freed := fr\<rparr>))" using assms(1,2) by simp
  with waitlist_remove_quiet [OF this] assms(3) show ?thesis by (auto simp: quiet_def split: if_splits)
qed

lemma store_frag_quiet:
  assumes "timeout_idle pd"
  shows "keeps_quiet pd (ol_rx_reorder_store_frag fi now p tid seq frag pd)"
  unfolding ol_rx_reorder_store_frag_def Let_def
proof (rule keeps_quiet_rules(1), rule keeps_quiet_rules(1), rule keeps_quiet_rules(2), goal_cases)
  case (1 r s)
  with timeout_idle_get [OF assms 1(1)] assms show ?case
    by (intro keeps_quiet_rules) (simp add: quiet_def)
next
  case (2 r s)
  note n = timeout_idle_get [OF assms 2(1)]
  show ?case
  proof (intro keeps_quiet_rules(1,5), goal_cases)
    case (1 _ pd1 s1 _ nxt2 _ s2 _ present fr pd3)
    have q1: "quiet pd pd1" using frag_drop_quiet [OF assms] 1(1,2) by simp
    have q3: "quiet pd1 pd3" using store_frag_tail [OF quiet_idle [OF q1] _ 1(7)] n by simp
    note q = quiet_trans [OF q1 q3]
    show ?case
      by (intro keeps_quiet_rules(2,3) quiet_trans [OF q] store_frag_finish quiet_idle [OF q3])
        (use n q in \<open>simp_all add: quiet_def\<close>)
  qed
qed

lemma waitlist_flush_quiet:
  "waitlist_flush_loop now e pd = Some pd' \<Longrightarrow> timeout_idle pd \<longrightarrow> quiet pd pd'"
proof (induction rule: waitlist_flush_loop.raw_induct [rotated 1, consumes 1, case_names step])
  case (step loop now e pd pd')
  show ?case
  proof (cases e)
    case None
    with step(2) show ?thesis by (simp add: quiet_def)
  next
    case (Some pt)
    with step(2) obtain r where r: "get_ro (fst pt) (snd pt) pd = Some r" by (auto simp: bind_eq_Some_conv)
    show ?thesis
    proof (cases "now < defrag_timeout_ms r")
      case True
      with step(2) Some r show ?thesis by (simp add: quiet_def)
    next
      case False
      with step(2) Some r obtain pd1 pd2 where
        1: "ol_rx_defrag_waitlist_remove (fst pt) (unat (r_tid r)) pd = Some pd1"
        and 2: "ol_rx_reorder_flush_frag (fst pt) (unat (r_tid r)) 0 pd1 = Some pd2"
        and 3: "loop now (wl_next pd pt) pd2 = Some pd'"
        by (auto simp: bind_eq_Some_conv Let_def)
      show ?thesis
      proof
        assume "timeout_idle pd"
        then have q1: "quiet pd pd1" using 1 by (rule waitlist_remove_quiet)
        have q2: "quiet pd1 pd2" using quiet_idle [OF q1] 2 by (rule flush_frag_quiet)
        have "quiet pd2 pd'" using step(1) [OF 3] quiet_idle [OF q2] by (rule mp)
        with q1 q2 show "quiet pd pd'" by (blast intro: quiet_trans)
      qed
    qed
  qed
qed

lemma addba_quiet:
  assumes "timeout_idle pd"
  shows "keeps_quiet pd (ol_rx_addba_handler malloc peer tid wsz failed pd)"
proof (cases peer)
  case (Some p)
  have i: "timeout_idle (upd_peer p (\<lambda>pe. pe\<lparr>tids_last_seq := (tids_last_seq pe)[tid := IEEE80211_SEQ_MAX]\<rparr>) pd)"
    using assms by (simp add: timeout_idle_upd_peer)
  show ?thesis
    unfolding ol_rx_addba_handler_def Some option.case Let_def
  proof (intro keeps_quiet_rules, goal_cases)
    case 1
    then show ?case using assms by (simp add: quiet_def)
  next
    case (2 r)
    then show ?case using i timeout_idle_get [OF i 2(2)] by (simp add: quiet_def)
  qed
qed (use assms in \<open>simp add: ol_rx_addba_handler_def keeps_quiet_def quiet_def\<close>)

lemma delba_quiet:
  assumes "timeout_idle pd"
  shows "keeps_quiet pd (ol_rx_delba_handler peer tid pd)"
proof (cases peer)
  case (Some p)
  have i: "timeout_idle (set_next_rel p (unat tid) 0xffff pd)" using assms by simp
  show ?thesis
    unfolding ol_rx_delba_handler_def ol_rx_reorder_init_def Some option.case
  proof (intro keeps_quiet_rules, goal_cases)
    case (1 r)
    then show ?case using i timeout_idle_get [OF i 1] by (simp add: quiet_def)
  qed
qed (use assms in \<open>simp add: ol_rx_delba_handler_def keeps_quiet_def quiet_def\<close>)

lemma flush_handler_quiet:
  assumes "timeout_idle pd"
  shows "keeps_quiet pd (ol_rx_flush_handler fi now peer tid s e action pd)"
proof (cases peer)
  case (Some p)
  show ?thesis
    unfolding ol_rx_flush_handler_def Some option.case
  proof (intro keeps_quiet_rules(1,2), goal_cases)
    case 1
    then show ?case using flush_frag_quiet [OF assms] by (simp add: keeps_quiet_def)
  next
    case (2 _ _ pd1)
    then have "quiet pd pd1" using flush_quiet [OF assms] by blast
    with idle_timeout_update [OF quiet_idle] show ?case by (auto simp: keeps_quiet_def split: option.splits)
  qed
qed (use assms in \<open>simp add: ol_rx_flush_handler_def keeps_quiet_def quiet_def\<close>)

lemma pn_ind_quiet:
  assumes "timeout_idle pd"
  shows "keeps_quiet pd (ol_rx_pn_ind_handler peer tid s e cnt ies pd)"
proof (cases peer)
  case (Some p)
  let ?pd = "upd_peer p (\<lambda>pe. pe\<lparr>ro_fw_pn_check := True\<rparr>) pd"
  have i: "timeout_idle ?pd" using assms by (simp add: timeout_idle_upd_peer)
  show ?thesis
    unfolding ol_rx_pn_ind_handler_def Some option.case Let_def
  proof (intro keeps_quiet_rules(1), goal_cases)
    case (1 r arr st)
    from timeout_idle_get [OF i 1(1)] i show ?case
      by (cases "d_head st") (auto intro!: keeps_quiet_rules simp: quiet_def)
  qed
qed (use assms in \<open>simp add: ol_rx_pn_ind_handler_def keeps_quiet_def quiet_def\<close>)

lemma for_tids_quiet:
  "(\<And>t pd. timeout_idle pd \<Longrightarrow> keeps_quiet pd (f t pd)) \<Longrightarrow> timeout_idle pd \<Longrightarrow> for_tids f ts pd = Some pd' \<Longrightarrow> quiet pd pd'"
proof (induction ts arbitrary: pd)
  case (Cons t ts)
  then obtain pd1 where 1: "f t pd = Some pd1" "for_tids f ts pd1 = Some pd'" by (auto simp: bind_eq_Some_conv)
  then have q: "quiet pd pd1" using Cons.prems(1) [OF Cons.prems(2), of t] by (simp add: keeps_quiet_def)
  from Cons.IH [OF Cons.prems(1) quiet_idle [OF q] 1(2)] q show ?case by (blast intro: quiet_trans)
qed (simp add: quiet_def)

lemma peer_cleanup_quiet:
  assumes "timeout_idle pd"
  shows "keeps_quiet pd (ol_rx_reorder_peer_cleanup fi p pd)"
  unfolding ol_rx_reorder_peer_cleanup_def
proof (rule keeps_quiet_rules(1))
  fix pd1
  assume "for_tids (\<lambda>tid. ol_rx_reorder_flush fi p tid 0 0 htt_rx_flush_discard) [0..<OL_TXRX_NUM_EXT_TIDS] pd = Some pd1"
  then have q: "quiet pd pd1"
    using for_tids_quiet [OF _ assms] flush_quiet by (metis keeps_quiet_def)
  let ?f = "\<lambda>t pd. do { r \<leftarrow> get_ro p t pd; if to_active r then ol_rx_reorder_timeout_remove p t pd else Some pd }"
  have f: "keeps_quiet pd (?f t pd)" if "timeout_idle pd" for t pd
  proof (rule keeps_quiet_rules(1))
    fix r
    assume "get_ro p t pd = Some r"
    from timeout_idle_get [OF that this] that
    show "keeps_quiet pd (if to_active r then ol_rx_reorder_timeout_remove p t pd else Some pd)"
      by (simp add: keeps_quiet_def quiet_def)
  qed
  show "keeps_quiet pd (ol_rx_reorder_timeout_peer_cleanup p pd1)"
    unfolding keeps_quiet_def ol_rx_reorder_timeout_peer_cleanup_def
    using for_tids_quiet [of ?f, OF f quiet_idle [OF q]] quiet_trans [OF q] by blast
qed

lemma rx_step_quiet: "rx_step pd pd' \<Longrightarrow> timeout_idle pd \<Longrightarrow> quiet pd pd'"
proof (induction rule: rx_step.induct)
  case (expire fi ac now pd pd')
  then show ?case using idle_timeout_expire [of pd fi ac now pd'] by (simp add: quiet_def)
next
  case (update now p tid pd pd')
  then show ?case using idle_timeout_update [of pd now p tid] by (auto simp: quiet_def split: option.splits)
next
  case (waitlist_flush now pd pd')
  then show ?case using waitlist_flush_quiet by (auto simp: ol_rx_defrag_waitlist_flush_def)
next
  case (store_frag fi now p tid seq frag pd pd')
  then show ?case using store_frag_quiet by (simp add: keeps_quiet_def)
next
  case (addba malloc peer tid wsz failed pd pd')
  then show ?case using addba_quiet by (simp add: keeps_quiet_def)
next
  case (delba peer tid8 pd pd')
  then show ?case using delba_quiet by (simp add: keeps_quiet_def)
next
  case (flush fi now peer tid s e action pd pd')
  then show ?case using flush_handler_quiet by (simp add: keeps_quiet_def)
next
  case (pn_ind peer tid s e cnt ies pd pd')
  then show ?case using pn_ind_quiet by (simp add: keeps_quiet_def)
next
  case (cleanup fi p pd pd')
  then show ?case using peer_cleanup_quiet by (simp add: keeps_quiet_def)
qed (simp_all add: store_quiet release_quiet)

section \<open>Storing\<close>

lemma mset_concat_put:
  "i < length cs \<Longrightarrow> mset (concat (cs[i := cs ! i @ xs])) = mset (concat cs) + mset xs"
proof (induction cs arbitrary: i)
  case (Cons c cs)
  then show ?case by (cases i) (auto simp: ac_simps)
qed simp

lemma concat_nth_subset: "j < length cs \<Longrightarrow> set (cs ! j) \<subseteq> set (concat cs)"
  using nth_mem [of j cs] by fastforce

lemma store_result:
  assumes "tid_rep k p tid pd cs" "seg (nb_next pd) (Some h) (Some t) xs" "xs \<noteq> []" "set xs \<inter> set (concat cs) = {}"
    and "i = idx mod 2 ^ k"
  shows "\<exists>pd'. ol_rx_reorder_store p tid idx h t pd = Some pd' \<and> tid_rep k p tid pd' (cs[i := cs ! i @ xs]) \<and>
    rx_calls pd' = rx_calls pd \<and> nb_freed pd' = nb_freed pd"
proof -
  obtain r arr where r: "get_ro p tid pd = Some r" "r_array r = Some arr" "length arr = 2 ^ k"
    "unat (win_sz_mask r) = 2 ^ k - 1" and rep: "arr_rep (nb_next pd) arr cs"
    using assms(1) by (auto simp: tid_rep_def)
  have lt: "i < length arr" "i < length cs" using r(3) rep assms(5) by (simp_all add: arr_rep_def)
  have idx: "idx AND unat (win_sz_mask r) = i" unfolding r(4) and_mask_nat assms(5) ..
  have slot: "get_slot i r = Some (arr ! i)" using r(2) lt(1) by (simp add: get_slot_def)
  have "mset (concat (cs[i := cs ! i @ xs])) = mset (concat cs @ xs)" using mset_concat_put [OF lt(2)] by simp
  moreover have "distinct (concat cs @ xs)"
    using rep seg_distinct [OF assms(2)] assms(4) by (auto simp: arr_rep_def)
  ultimately have dist: "distinct (concat (cs[i := cs ! i @ xs]))" using mset_eq_imp_distinct_iff by blast
  have other: "arr_rep nxt (arr[i := s]) (cs[i := cs ! i @ xs])"
    if "\<And>j. j < length arr \<Longrightarrow> j \<noteq> i \<Longrightarrow> seg nxt (sl_head (arr ! j)) (sl_tail (arr ! j)) (cs ! j)"
      "seg nxt (sl_head s) (sl_tail s) (cs ! i @ xs)" for nxt s
    using that rep dist assms(3) lt(2) by (auto simp: arr_rep_def nth_list_update)
  show ?thesis
  proof (cases "sl_head (arr ! i)")
    case None
    then have e: "cs ! i = []" using arr_rep_slot [OF rep lt(1)] by (simp add: seg_None_iff)
    let ?r = "put_slot i \<lparr>sl_head = Some h, sl_tail = Some t\<rparr> r"
    have "arr_rep (nb_next pd) (arr[i := \<lparr>sl_head = Some h, sl_tail = Some t\<rparr>]) (cs[i := cs ! i @ xs])"
      using other [of "nb_next pd"] assms(2) arr_rep_slot [OF rep] e by simp
    moreover have "ol_rx_reorder_store p tid idx h t pd = Some (put_ro p tid ?r pd)"
      using r slot idx None by (simp add: ol_rx_reorder_store_def)
    moreover have "get_ro p tid (put_ro p tid ?r pd) = Some ?r" using r(1) by (rule get_ro_put_ro)
    ultimately show ?thesis using r by (auto simp: tid_rep_def put_slot_def)
  next
    case (Some h0)
    note sg = arr_rep_slot [OF rep lt(1)]
    then have ne: "cs ! i \<noteq> []" using Some seg_None_iff by fastforce
    with sg have tl: "sl_tail (arr ! i) = Some (last (cs ! i))" by (simp add: seg_def)
    let ?s = "(arr ! i)\<lparr>sl_tail := Some t\<rparr>"
    let ?nxt = "(nb_next pd)(last (cs ! i) := Some h)"
    let ?pd = "put_ro p tid (put_slot i ?s r) (pd\<lparr>nb_next := ?nxt\<rparr>)"
    have d: "distinct (cs ! i @ concat (cs[i := []]))"
      using distinct_concat_take [of "[]" cs i] rep lt(2) by (simp add: arr_rep_def)
    have sub: "set (cs ! i) \<subseteq> set (concat cs)" using lt(2) by (rule concat_nth_subset)
    have "distinct (cs ! i @ xs)" using d seg_distinct [OF assms(2)] assms(4) sub by auto
    from seg_append [OF sg assms(2) ne assms(3) this] have "seg ?nxt (sl_head ?s) (sl_tail ?s) (cs ! i @ xs)" by simp
    moreover have "seg ?nxt (sl_head (arr ! j)) (sl_tail (arr ! j)) (cs ! j)" if "j < length arr" "j \<noteq> i" for j
    proof -
      have "j < length cs" using that(1) rep by (simp add: arr_rep_def)
      then have "set (cs ! j) \<subseteq> set (concat (cs[i := []]))"
        using that(2) by (metis concat_nth_subset length_list_update nth_list_update_neq)
      then have "last (cs ! i) \<notin> set (cs ! j)" using d last_in_set [OF ne] by auto
      with arr_rep_slot [OF rep that(1)] show ?thesis by (simp add: seg_frame)
    qed
    ultimately have "arr_rep ?nxt (arr[i := ?s]) (cs[i := cs ! i @ xs])" by (intro other)
    moreover have "ol_rx_reorder_store p tid idx h t pd = Some ?pd"
      using r slot idx Some tl by (simp add: ol_rx_reorder_store_def)
    moreover have "get_ro p tid ?pd = Some (put_slot i ?s r)" using r(1) by (intro get_ro_put_ro) simp
    ultimately show ?thesis using r by (auto simp: tid_rep_def put_slot_def)
  qed
qed

section \<open>The size of the array\<close>

lemma below_power:
  assumes "2 ^ k < w" "j < Suc k"
  shows "2 ^ j < (w :: nat)"
proof -
  have "(2 :: nat) ^ j \<le> 2 ^ k" using assms(2) by (intro power_increasing) simp_all
  then show ?thesis using assms(1) by (rule le_less_trans)
qed

lemma g_log2ceil_power:
  assumes "w \<le> 64"
  shows "\<exists>k. unat (g_log2ceil ! w) = 2 ^ k \<and> w \<le> 2 ^ k \<and> k \<le> 6 \<and> (\<forall>j < k. 2 ^ j < w)"
proof -
  have range: ?thesis if "g_log2ceil ! w = of_nat (2 ^ Suc k)" "2 ^ k < w" "w \<le> 2 ^ Suc k" "k \<le> 5" for k
  proof -
    have "(2 :: nat) ^ Suc k \<le> 2 ^ 6" using that(4) by (intro power_increasing) simp_all
    then have "(2 :: nat) ^ Suc k < 2 ^ LENGTH(8)" by simp
    then have "unat (of_nat (2 ^ Suc k) :: u8) = 2 ^ Suc k"
      by (simp only: unsigned_of_nat take_bit_nat_eq_self of_nat_id)
    with that below_power [OF that(2)] show ?thesis by (intro exI [of _ "Suc k"]) simp
  qed
  consider "w = 0" | "w = 1" | "w = 2" | "2 < w" "w \<le> 4" | "4 < w" "w \<le> 8" | "8 < w" "w \<le> 16" | "16 < w" "w \<le> 32"
    | "32 < w" "w \<le> 64" using assms by linarith
  then show ?thesis
  proof cases
    case 1 then show ?thesis by (intro exI [of _ 0]) (simp add: g_log2ceil_def)
  next
    case 2 then show ?thesis by (intro exI [of _ 0]) (simp add: g_log2ceil_def)
  next
    case 3 then show ?thesis by (intro range [of 0]) (simp_all add: g_log2ceil_def)
  next
    case 4 then show ?thesis by (intro range [of 1]) (simp_all add: g_log2ceil_def nth_append nth_Cons')
  next
    case 5 then show ?thesis by (intro range [of 2]) (auto simp: g_log2ceil_def nth_append nth_Cons')
  next
    case 6 then show ?thesis by (intro range [of 3]) (auto simp: g_log2ceil_def nth_append nth_Cons')
  next
    case 7 then show ?thesis by (intro range [of 4]) (auto simp: g_log2ceil_def nth_append nth_Cons')
  next
    case 8 then show ?thesis by (intro range [of 5]) (auto simp: g_log2ceil_def nth_append nth_Cons')
  qed
qed

section \<open>Properties\<close>

text \<open>
  storing. \<open>ol_rx_reorder_store\<close> appends the MSDUs of an MPDU to the slot of its index modulo the
  window; no other slot changes, and nothing is passed on or freed.
\<close>

theorem ol_rx_reorder_store_correct:
  assumes "tid_rep k p tid pd cs" "seg (nb_next pd) (Some h) (Some t) xs" "xs \<noteq> []" "set xs \<inter> set (concat cs) = {}"
  shows "\<exists>pd'. ol_rx_reorder_store p tid idx h t pd = Some pd' \<and>
    tid_rep k p tid pd' (cs[idx mod 2 ^ k := cs ! (idx mod 2 ^ k) @ xs]) \<and>
    rx_calls pd' = rx_calls pd \<and> nb_freed pd' = nb_freed pd"
  using store_result [OF assms refl] .

text \<open>
  releasing. When the first slot of the range holds buffers, \<open>ol_rx_reorder_release\<close> passes the
  buffers of all slots of the range on, in one call, as one null-terminated list in the order of
  the slots around the ring, and empties exactly these slots. When the first slot is empty, the
  slots of the range are emptied all the same, but nothing is passed on and nothing is freed.
\<close>

theorem ol_rx_reorder_release_correct:
  assumes "tid_rep k p tid pd cs" "first = cs ! (idx_start mod 2 ^ k)" "ws = window_slots k idx_start idx_end"
  shows "\<exists>pd'. ol_rx_reorder_release fi p tid idx_start idx_end pd = Some pd' \<and>
    tid_rep k p tid pd' (clear_slots ws cs) \<and> nb_freed pd' = nb_freed pd \<and>
    (if first = [] then rx_calls pd' = rx_calls pd
     else rx_calls pd' = rx_calls pd @ [Rx_opt_proc p tid (Some (hd first))] \<and>
       chain (nb_next pd') (Some (hd first)) (concat (map (\<lambda>i. cs ! i) ws)))"
  using release_result [OF assms(1,3)] unfolding assms(2) .

text \<open>
  C22: flushing. \<open>ol_rx_reorder_flush\<close> collects the buffers of all slots of the range (of the whole
  window when the end is 0xffff) in the order of the slots and empties these slots. If there are
  any, a releasing flush passes them on as one null-terminated list, and a discarding flush frees
  exactly them, each once.
\<close>

theorem ol_rx_reorder_flush_correct:
  assumes "tid_rep k p tid pd cs" "wl_rep pd xs" "(p, tid) \<notin> set xs \<longrightarrow> wl_next pd (p, tid) = None"
    and "ws = window_slots k idx_start (if idx_end = 0xffff then idx_start else idx_end)"
    and "out = concat (map (\<lambda>i. cs ! i) ws)"
  shows "\<exists>pd'. ol_rx_reorder_flush fi p tid idx_start idx_end action pd = Some pd' \<and>
    tid_rep k p tid pd' (clear_slots ws cs) \<and>
    (if out = [] then rx_calls pd' = rx_calls pd \<and> nb_freed pd' = nb_freed pd
     else if action = htt_rx_flush_release
     then rx_calls pd' = rx_calls pd @ [Rx_opt_proc p tid (Some (hd out))] \<and>
       chain (nb_next pd') (Some (hd out)) out \<and> nb_freed pd' = nb_freed pd
     else rx_calls pd' = rx_calls pd \<and> nb_freed pd' = nb_freed pd @ out)"
  using flush_result [OF assms(1,2) _ assms(4,5)] assms(3) by blast

text \<open>
  duplicate detection. For a TID with a valid last sequence number, the check accepts a frame
  exactly when its number is 1 to 2049 ahead of the last one modulo 4096; in particular it accepts
  the successor and rejects a repetition.
\<close>

theorem ol_rx_reorder_seq_num_check_window:
  assumes "tid < length (tids_last_seq peer)" "tids_last_seq peer ! tid \<noteq> IEEE80211_SEQ_MAX"
  shows "ol_rx_reorder_seq_num_check peer tid seq_num =
    Some (if (uint seq_num - uint (tids_last_seq peer ! tid) - 1) mod 4096 \<le> 2048
          then htt_rx_status_ok else htt_rx_status_err_replay)"
proof -
  let ?l = "tids_last_seq peer ! tid"
  let ?x = "seq_num - 1 - ucast ?l :: u32"
  have and_mask: "?x AND 4095 = take_bit 12 ?x" by (simp add: take_bit_eq_mask mask_numeral)
  have "uint ?x = (uint seq_num - 1 - uint ?l) mod 2 ^ 32"
    by (simp add: uint_word_ariths unsigned_ucast_eq take_bit_eq_mod mod_simps)
  then have "uint (take_bit 12 ?x) = ((uint seq_num - 1 - uint ?l) mod 2 ^ 32) mod 2 ^ 12"
    unfolding unsigned_take_bit_eq by (simp add: take_bit_eq_mod)
  also have "\<dots> = (uint seq_num - 1 - uint ?l) mod 2 ^ 12" by (rule mod_mod_cancel) simp
  finally have u: "uint (take_bit 12 ?x) = (uint seq_num - uint ?l - 1) mod 4096" by (simp add: algebra_simps)
  have "(2048 :: u32) < take_bit 12 ?x \<longleftrightarrow> 2048 < (uint seq_num - uint ?l - 1) mod 4096"
    by (simp add: word_less_def u)
  with assms show ?thesis
    by (simp add: ol_rx_reorder_seq_num_check_def IEEE80211_SEQ_MAX_def Let_def and_mask linorder_not_less)
qed

text \<open>
  setting up block ack. For a window of at most 64, when the allocation returns an array of
  empty slots, \<open>ol_rx_addba_handler\<close> leaves the TID with an empty array whose size is the least power
  of two that is not below the window, a matching index mask, and no last sequence number, so that
  the first frame is accepted whatever its number.
\<close>

theorem ol_rx_addba_handler_correct:
  assumes "get_ro p tid pd = Some r" "tid < length (tids_last_seq (rx_peers pd ! p))" "unat wsz \<le> 64"
    and "\<forall>n \<le> 64. malloc n = Some (replicate n empty_slot)"
  shows "\<exists>pd' k. ol_rx_addba_handler malloc (Some p) tid wsz False pd = Some pd' \<and>
    unat wsz \<le> 2 ^ k \<and> (\<forall>j < k. 2 ^ j < unat wsz) \<and> tid_rep k p tid pd' (replicate (2 ^ k) []) \<and>
    ol_rx_reorder_seq_num_check (rx_peers pd' ! p) tid seq_num = Some htt_rx_status_ok"
proof -
  let ?w = "g_log2ceil ! unat wsz"
  obtain k where k: "unat ?w = 2 ^ k" "unat wsz \<le> 2 ^ k" "k \<le> 6" "\<forall>j < k. 2 ^ j < unat wsz"
    using g_log2ceil_power [OF assms(3)] by blast
  let ?pd1 = "upd_peer p (\<lambda>pe. pe\<lparr>tids_last_seq := (tids_last_seq pe)[tid := IEEE80211_SEQ_MAX]\<rparr>) pd"
  let ?r = "r\<lparr>win_sz := wsz, r_array := malloc (unat ?w), r_is_base := False, win_sz_mask := ?w - 1, num_mpdus := 0\<rparr>"
  let ?pd' = "set_next_rel p tid 0 (put_ro p tid ?r ?pd1)"
  have g1: "get_ro p tid ?pd1 = Some r" using assms(1) by (intro get_ro_upd_peer) simp_all
  then have g': "get_ro p tid ?pd' = Some ?r" by (intro get_ro_set_next_rel get_ro_put_ro)
  have run: "ol_rx_addba_handler malloc (Some p) tid wsz False pd = Some ?pd'"
  proof -
    have "\<not> length g_log2ceil \<le> unat wsz" using assms(3) by (simp add: g_log2ceil_def)
    with g1 show ?thesis by (simp add: ol_rx_addba_handler_def Let_def)
  qed
  have "(2 :: nat) ^ k \<le> 2 ^ 6" using k(3) by (intro power_increasing) simp_all
  then have arr: "r_array ?r = Some (replicate (2 ^ k) empty_slot)" using assms(4) k(1) by simp
  have "1 \<le> ?w" using k(1) by (simp add: word_le_nat_alt)
  from unat_sub [OF this] k(1) have msk: "unat (win_sz_mask ?r) = 2 ^ k - 1" by simp
  have "arr_rep (nb_next ?pd') (replicate (2 ^ k) empty_slot) (replicate (2 ^ k) [])"
    by (simp add: arr_rep_def empty_slot_def seg_def concat_replicate_trivial)
  with g' arr msk have "tid_rep k p tid ?pd' (replicate (2 ^ k) [])" by (auto simp: tid_rep_def)
  moreover have "ol_rx_reorder_seq_num_check (rx_peers ?pd' ! p) tid seq_num = Some htt_rx_status_ok"
  proof -
    have "p < length (rx_peers pd)" using assms(1) by (simp add: get_ro_def split: if_splits)
    then have "tids_last_seq (rx_peers ?pd' ! p) = (tids_last_seq (rx_peers pd ! p))[tid := IEEE80211_SEQ_MAX]"
      by (simp add: set_next_rel_def put_ro_def upd_peer_def)
    with assms(2) show ?thesis by (simp add: ol_rx_reorder_seq_num_check_def)
  qed
  ultimately show ?thesis using run k(2,4) by blast
qed

text \<open>
  the host-side reorder timeout is never armed. The build compiles the timeout in, but no code
  counts the MPDUs that wait in an array. From a state with no counted MPDU and idle timers (as
  after peer creation), no sequence of stores, releases, flushes, fragments, block-ack set-ups and
  tear-downs, replay indications, timer updates, expirations and clean-ups starts a timer or puts
  a TID on a timer list.
\<close>

theorem ol_rx_reorder_timeout_never_armed:
  assumes "rx_step\<^sup>*\<^sup>* pd pd'" "timeout_idle pd"
  shows "timeout_idle pd' \<and> access_cats pd' = access_cats pd"
  using assms
proof (induction rule: rtranclp_induct)
  case (step pd1 pd2)
  then show ?case using rx_step_quiet [of pd1 pd2] by (simp add: quiet_def)
qed simp

section \<open>Witnesses\<close>

text \<open>One peer with one TID and a window of four slots: buffers 10 and 11 in slot 0, 12 in slot 2.\<close>

definition demo_ro :: reorder where
  "demo_ro = \<lparr>win_sz = 4, win_sz_mask = 3, num_mpdus = 0,
     r_array = Some [\<lparr>sl_head = Some 10, sl_tail = Some 11\<rparr>, empty_slot, \<lparr>sl_head = Some 12, sl_tail = Some 12\<rparr>, empty_slot],
     r_is_base = False, r_tid = 0, defrag_timeout_ms = 0, to_active = False, to_stamp = 0\<rparr>"

definition demo_peer :: ro_peer where
  "demo_peer = \<lparr>tids_rx_reorder = [demo_ro], tids_last_seq = [7], tids_mcast_last_seq = [0],
     tids_next_rel_idx = [0], ro_fw_pn_check = False\<rparr>"

definition demo_rx :: rx_pdev where
  "demo_rx = demo_pdev\<lparr>rx_peers := [demo_peer], nb_next := [10 \<mapsto> 11]\<rparr>"

definition demo_cs :: "nat list list" where
  "demo_cs = [[10, 11], [], [12], []]"

lemma demo_tid: "tid_rep 2 0 0 demo_rx demo_cs"
proof -
  let ?arr = "[\<lparr>sl_head = Some 10, sl_tail = Some 11\<rparr>, empty_slot, \<lparr>sl_head = Some 12, sl_tail = Some 12\<rparr>, empty_slot]"
  have "arr_rep [10 \<mapsto> 11] ?arr demo_cs"
    by (simp add: arr_rep_def demo_cs_def All_less_Suc seg_def empty_slot_def)
  then show ?thesis by (simp add: tid_rep_def demo_rx_def demo_peer_def demo_ro_def get_ro_def)
qed

lemma demo_window: "window_slots 2 0 3 = [0, 1, 2]"
  by (simp add: window_slots_def ring_dist_def ring_idx_def upt_conv_Cons)

lemma demo_waitlist: "wl_rep demo_rx []" "wl_next demo_rx (0, 0) = None"
  by (simp_all add: wl_rep_def demo_rx_def demo_pdev_def)

theorem ol_rx_reorder_store_correct_witness:
  "\<exists>pd'. ol_rx_reorder_store 0 0 6 13 13 demo_rx = Some pd' \<and> tid_rep 2 0 0 pd' [[10, 11], [], [12, 13], []]"
proof -
  have "seg (nb_next demo_rx) (Some 13) (Some 13) [13]" by (simp add: seg_def)
  from ol_rx_reorder_store_correct [OF demo_tid this, of 6] show ?thesis by (auto simp: demo_cs_def)
qed

theorem ol_rx_reorder_release_correct_witness:
  "\<exists>pd'. ol_rx_reorder_release demo_frames 0 0 0 3 demo_rx = Some pd' \<and>
     rx_calls pd' = [Rx_opt_proc 0 0 (Some 10)] \<and> chain (nb_next pd') (Some 10) [10, 11, 12]"
  using ol_rx_reorder_release_correct [OF demo_tid refl refl, of demo_frames 0 3]
  by (auto simp: demo_window demo_cs_def) (simp add: demo_rx_def demo_pdev_def)

theorem ol_rx_reorder_flush_correct_witness:
  "\<exists>pd'. ol_rx_reorder_flush demo_frames 0 0 0 3 htt_rx_flush_discard demo_rx = Some pd' \<and> nb_freed pd' = [10, 11, 12]"
  using ol_rx_reorder_flush_correct [OF demo_tid demo_waitlist(1) _ refl refl, of demo_frames 0 3 htt_rx_flush_discard]
    demo_waitlist(2)
  by (auto simp: demo_window demo_cs_def) (simp add: demo_rx_def demo_pdev_def)

theorem ol_rx_reorder_seq_num_check_window_witness:
  "ol_rx_reorder_seq_num_check demo_peer 0 8 = Some htt_rx_status_ok \<and>
   ol_rx_reorder_seq_num_check demo_peer 0 7 = Some htt_rx_status_err_replay"
  using ol_rx_reorder_seq_num_check_window [of 0 demo_peer 8] ol_rx_reorder_seq_num_check_window [of 0 demo_peer 7]
  by (simp add: demo_peer_def IEEE80211_SEQ_MAX_def)

theorem ol_rx_addba_handler_correct_witness:
  "\<exists>pd' k. ol_rx_addba_handler (\<lambda>n. Some (replicate n empty_slot)) (Some 0) 0 6 False demo_rx = Some pd' \<and>
     tid_rep k 0 0 pd' (replicate (2 ^ k) []) \<and> 6 \<le> (2 ^ k :: nat)"
proof -
  have "get_ro 0 0 demo_rx = Some demo_ro" by (simp add: get_ro_def demo_rx_def demo_peer_def)
  moreover have "0 < length (tids_last_seq (rx_peers demo_rx ! 0))" by (simp add: demo_rx_def demo_peer_def)
  ultimately show ?thesis
    using ol_rx_addba_handler_correct [of 0 0 demo_rx demo_ro 6 "\<lambda>n. Some (replicate n empty_slot)" 0] by auto
qed

theorem ol_rx_reorder_timeout_never_armed_witness:
  "\<exists>pd'. rx_step demo_rx pd' \<and> timeout_idle pd'"
proof -
  obtain pd' where "ol_rx_reorder_store 0 0 6 13 13 demo_rx = Some pd'"
    using store_result [OF demo_tid, of 13 13 "[13]" 2 6] by (auto simp: seg_def demo_cs_def)
  then have s: "rx_step demo_rx pd'" by (rule rx_step.store)
  have "timeout_idle demo_rx"
    by (simp add: timeout_idle_def demo_rx_def demo_peer_def demo_ro_def demo_pdev_def)
  with s ol_rx_reorder_timeout_never_armed [of demo_rx pd'] show ?thesis by blast
qed

end
