(* ===== verification/Green_Ap.thy ===== *)
theory Green_Ap
  imports Prelude
begin

text \<open>
  Green AP power saving of the HDD, \<open>core/hdd/src/wlan_hdd_green_ap.c\<close>, whole file, with
  \<open>hdd_get_adapter\<close> of \<open>wlan_hdd_main.c\<close>. The firmware command (\<open>wma_cli_set_command\<close>) is a
  parameter \<open>wma\<close> that gives its result; every command is recorded in \<open>fw_cmds\<close> with the session,
  the value and the result. Starts of the timer are recorded with their duration. The masks and the
  mode numbers of the platform layer are not part of the sources: the mask is a parameter, the
  modes are constructors.
\<close>

unbundle bit_operations_syntax

section \<open>State\<close>

text \<open>The first constructor of each enumeration is the value 0, which has no name in the source.\<close>

datatype hdd_green_ap_ps_state = GREEN_AP_PS_ZERO_STATE | GREEN_AP_PS_IDLE_STATE | GREEN_AP_PS_OFF_STATE
  | GREEN_AP_PS_WAIT_STATE | GREEN_AP_PS_ON_STATE

datatype hdd_green_ap_event = GREEN_AP_PS_ZERO_EVENT | GREEN_AP_PS_START_EVENT | GREEN_AP_PS_STOP_EVENT
  | GREEN_AP_ADD_STA_EVENT | GREEN_AP_DEL_STA_EVENT | GREEN_AP_PS_ON_EVENT | GREEN_AP_PS_WAIT_EVENT

record hdd_green_ap_ctx =
  ps_enable :: u8
  ps_on_time :: u32
  ps_delay_time :: u32
  num_nodes :: u32
  ps_state :: hdd_green_ap_ps_state
  ps_event :: hdd_green_ap_event
  ps_timer_starts :: "u32 list"
  egap_support :: bool

datatype adapter_mode = QDF_STA_MODE | QDF_SAP_MODE | QDF_OTHER_MODE nat

record hdd_adapter =
  device_mode :: adapter_mode
  sessionId :: u8

record hdd_config =
  enable2x2 :: bool
  enableGreenAP :: bool
  enable_egap :: bool
  egap_feature_flag :: u32
  egap_inact_time :: u32
  egap_wait_time :: u32

record hdd_context =
  green_ap_ctx :: "hdd_green_ap_ctx option"
  hdd_cfg :: "hdd_config option"
  hddAdapters :: "hdd_adapter option list"
  concurrency_mode :: u32
  open_sap_sessions :: u8
  fw_cmds :: "(u8 \<times> u8 \<times> int) list"

type_synonym wma_cmd = "u8 \<Rightarrow> u8 \<Rightarrow> int"

datatype qdf_status = QDF_STATUS_SUCCESS | QDF_STATUS_E_NOMEM | QDF_STATUS_E_NOSUPPORT

definition GREEN_AP_PS_ON_TIME :: u32 where
  "GREEN_AP_PS_ON_TIME = 0"

definition GREEN_AP_PS_DELAY_TIME :: u32 where
  "GREEN_AP_PS_DELAY_TIME = 20"

section \<open>Operations\<close>

fun hdd_get_adapter :: "hdd_adapter option list \<Rightarrow> adapter_mode \<Rightarrow> hdd_adapter option" where
  "hdd_get_adapter [] mode = None"
| "hdd_get_adapter (a # as) mode =
     (case a of
        Some ad \<Rightarrow> if mode = device_mode ad then Some ad else hdd_get_adapter as mode
      | None \<Rightarrow> hdd_get_adapter as mode)"

definition hdd_green_ap_update ::
  "hdd_green_ap_ps_state \<Rightarrow> hdd_green_ap_event \<Rightarrow> hdd_green_ap_ctx \<Rightarrow> hdd_green_ap_ctx" where
  "hdd_green_ap_update state event g = g\<lparr>ps_state := state, ps_event := event\<rparr>"

definition hdd_green_ap_enable :: "wma_cmd \<Rightarrow> hdd_adapter \<Rightarrow> u8 \<Rightarrow> hdd_context \<Rightarrow> int \<times> hdd_context" where
  "hdd_green_ap_enable wma adapter enable h =
     (let ret = wma (sessionId adapter) enable
      in (ret, h\<lparr>fw_cmds := fw_cmds h @ [(sessionId adapter, enable, ret)]\<rparr>))"

definition ps_timer_start :: "u32 \<Rightarrow> hdd_green_ap_ctx \<Rightarrow> hdd_green_ap_ctx" where
  "ps_timer_start t g = g\<lparr>ps_timer_starts := ps_timer_starts g @ [t]\<rparr>"

text \<open>The first switch of the state machine: what an event changes.\<close>

definition green_ap_note_event :: "hdd_green_ap_event \<Rightarrow> hdd_green_ap_ctx \<Rightarrow> hdd_green_ap_ctx" where
  "green_ap_note_event event g =
     (case event of
        GREEN_AP_PS_START_EVENT \<Rightarrow> g\<lparr>ps_enable := 1\<rparr>
      | GREEN_AP_PS_STOP_EVENT \<Rightarrow> g\<lparr>ps_enable := 0\<rparr>
      | GREEN_AP_ADD_STA_EVENT \<Rightarrow> g\<lparr>num_nodes := num_nodes g + 1\<rparr>
      | GREEN_AP_DEL_STA_EVENT \<Rightarrow> if num_nodes g \<noteq> 0 then g\<lparr>num_nodes := num_nodes g - 1\<rparr> else g
      | GREEN_AP_PS_ON_EVENT \<Rightarrow> g
      | GREEN_AP_PS_WAIT_EVENT \<Rightarrow> g
      | GREEN_AP_PS_ZERO_EVENT \<Rightarrow> g)"

text \<open>The second switch: the transitions of the power-save state.\<close>

definition green_ap_transition :: "wma_cmd \<Rightarrow> hdd_adapter \<Rightarrow> hdd_green_ap_ctx \<Rightarrow> hdd_context \<Rightarrow> hdd_context" where
  "green_ap_transition wma adapter g h =
     (case ps_state g of
        GREEN_AP_PS_IDLE_STATE \<Rightarrow>
          h\<lparr>green_ap_ctx := Some (hdd_green_ap_update GREEN_AP_PS_OFF_STATE GREEN_AP_PS_WAIT_EVENT g)\<rparr>
      | GREEN_AP_PS_OFF_STATE \<Rightarrow>
          if num_nodes g = 0
          then h\<lparr>green_ap_ctx := Some (ps_timer_start (ps_delay_time g)
                  (hdd_green_ap_update GREEN_AP_PS_WAIT_STATE GREEN_AP_PS_WAIT_EVENT g))\<rparr>
          else h
      | GREEN_AP_PS_WAIT_STATE \<Rightarrow>
          if num_nodes g = 0
          then let g1 = hdd_green_ap_update GREEN_AP_PS_ON_STATE GREEN_AP_PS_WAIT_EVENT g;
                   h1 = snd (hdd_green_ap_enable wma adapter 1 (h\<lparr>green_ap_ctx := Some g1\<rparr>))
               in if ps_on_time g1 \<noteq> 0
                  then h1\<lparr>green_ap_ctx := Some (ps_timer_start (ps_on_time g1)
                         (hdd_green_ap_update GREEN_AP_PS_ZERO_STATE GREEN_AP_PS_WAIT_EVENT g1))\<rparr>
                  else h1
          else h\<lparr>green_ap_ctx := Some (hdd_green_ap_update GREEN_AP_PS_OFF_STATE GREEN_AP_PS_WAIT_EVENT g)\<rparr>
      | GREEN_AP_PS_ON_STATE \<Rightarrow>
          if num_nodes g \<noteq> 0
          then let (ret, h1) = hdd_green_ap_enable wma adapter 0 h
               in if ret \<noteq> 0 then h1
                  else h1\<lparr>green_ap_ctx := Some (hdd_green_ap_update GREEN_AP_PS_OFF_STATE GREEN_AP_PS_WAIT_EVENT g)\<rparr>
          else if ps_event g = GREEN_AP_PS_WAIT_EVENT \<and> ps_on_time g \<noteq> 0
          then let g1 = hdd_green_ap_update GREEN_AP_PS_WAIT_STATE GREEN_AP_PS_ON_EVENT g;
                   (ret, h1) = hdd_green_ap_enable wma adapter 0 (h\<lparr>green_ap_ctx := Some g1\<rparr>)
               in if ret \<noteq> 0 then h1
                  else h1\<lparr>green_ap_ctx := Some (ps_timer_start (ps_delay_time g1) g1)\<rparr>
          else h
      | GREEN_AP_PS_ZERO_STATE \<Rightarrow>
          h\<lparr>green_ap_ctx := Some (hdd_green_ap_update GREEN_AP_PS_OFF_STATE GREEN_AP_PS_WAIT_EVENT g)\<rparr>)"

definition hdd_green_ap_mc :: "wma_cmd \<Rightarrow> hdd_green_ap_event \<Rightarrow> hdd_context \<Rightarrow> hdd_context" where
  "hdd_green_ap_mc wma event h =
     (case green_ap_ctx h of
        None \<Rightarrow> h
      | Some g0 \<Rightarrow>
          let g = green_ap_note_event event g0;
              h1 = h\<lparr>green_ap_ctx := Some g\<rparr>
          in (case hdd_get_adapter (hddAdapters h1) QDF_SAP_MODE of
                None \<Rightarrow> h1
              | Some adapter \<Rightarrow>
                  if ps_enable g = 0
                  then snd (hdd_green_ap_enable wma adapter 0
                         (h1\<lparr>green_ap_ctx := Some (hdd_green_ap_update GREEN_AP_PS_OFF_STATE GREEN_AP_PS_WAIT_EVENT g)\<rparr>))
                  else green_ap_transition wma adapter g h1))"

text \<open>\<open>valid\<close> is the result of \<open>wlan_hdd_validate_context\<close>, 0 for a context that can be used.\<close>

definition hdd_green_ap_timer_fn :: "wma_cmd \<Rightarrow> int \<Rightarrow> hdd_context \<Rightarrow> hdd_context" where
  "hdd_green_ap_timer_fn wma valid h =
     (if valid \<noteq> 0 then h
      else case green_ap_ctx h of None \<Rightarrow> h | Some g \<Rightarrow> hdd_green_ap_mc wma (ps_event g) h)"

text \<open>\<open>mem\<close> is the structure returned by \<open>qdf_mem_malloc\<close>, \<open>None\<close> when there is no memory.\<close>

definition hdd_green_ap_attach :: "hdd_green_ap_ctx option \<Rightarrow> hdd_context \<Rightarrow> hdd_context \<times> qdf_status" where
  "hdd_green_ap_attach mem h =
     (case mem of
        None \<Rightarrow> (h\<lparr>green_ap_ctx := None\<rparr>, QDF_STATUS_E_NOMEM)
      | Some g \<Rightarrow>
          (h\<lparr>green_ap_ctx := Some (g\<lparr>ps_state := GREEN_AP_PS_OFF_STATE, ps_event := GREEN_AP_PS_ZERO_EVENT,
               num_nodes := 0, ps_on_time := GREEN_AP_PS_ON_TIME, ps_delay_time := GREEN_AP_PS_DELAY_TIME\<rparr>)\<rparr>,
           QDF_STATUS_SUCCESS))"

text \<open>Stopping and destroying the timer leaves nothing behind: the structure is freed.\<close>

definition hdd_green_ap_deattach :: "hdd_context \<Rightarrow> hdd_context \<times> qdf_status" where
  "hdd_green_ap_deattach h =
     (case green_ap_ctx h of
        None \<Rightarrow> (h, QDF_STATUS_E_NOSUPPORT)
      | Some g \<Rightarrow> (h\<lparr>green_ap_ctx := None\<rparr>, QDF_STATUS_SUCCESS))"

definition hdd_green_ap_init :: "hdd_green_ap_ctx option \<Rightarrow> hdd_context \<Rightarrow> hdd_context" where
  "hdd_green_ap_init mem h = fst (hdd_green_ap_attach mem h)"

definition hdd_green_ap_deinit :: "hdd_context \<Rightarrow> hdd_context" where
  "hdd_green_ap_deinit h = fst (hdd_green_ap_deattach h)"

definition hdd_is_egap_enabled :: "bool \<Rightarrow> hdd_config \<Rightarrow> bool" where
  "hdd_is_egap_enabled fw_egap_support cfg \<longleftrightarrow>
     (if fw_egap_support \<and> enable_egap cfg \<and> egap_feature_flag cfg \<noteq> 0 then True else False)"

text \<open>
  The result of \<open>hdd_enable_egap\<close>: 0, \<open>-EINVAL\<close> (-22) or \<open>-ENOTSUPP\<close> (-524). \<open>sme\<close> tells whether
  \<open>sme_send_egap_conf_params\<close> succeeded. A context is \<open>None\<close> when the pointer is null.
\<close>

definition hdd_enable_egap ::
  "(bool \<Rightarrow> u32 \<Rightarrow> u32 \<Rightarrow> u32 \<Rightarrow> bool) \<Rightarrow> hdd_context option \<Rightarrow> int" where
  "hdd_enable_egap sme hdd =
     (case hdd of
        None \<Rightarrow> -22
      | Some h \<Rightarrow>
          (case hdd_cfg h of
             None \<Rightarrow> -22
           | Some cfg \<Rightarrow>
               (case green_ap_ctx h of
                  None \<Rightarrow> -22
                | Some g \<Rightarrow>
                    if \<not> hdd_is_egap_enabled (egap_support g) cfg then -524
                    else if \<not> sme (enable_egap cfg) (egap_inact_time cfg) (egap_wait_time cfg) (egap_feature_flag cfg)
                    then -22 else 0)))"

text \<open>The checks that open each notification; \<open>act\<close> is what follows them.\<close>

definition green_ap_guard :: "(hdd_config \<Rightarrow> hdd_context) \<Rightarrow> hdd_context \<Rightarrow> hdd_context" where
  "green_ap_guard act h =
     (case hdd_cfg h of
        None \<Rightarrow> h
      | Some cfg \<Rightarrow>
          (case green_ap_ctx h of
             None \<Rightarrow> h
           | Some g \<Rightarrow> if hdd_is_egap_enabled (egap_support g) cfg then h else act cfg))"

definition hdd_green_ap_start_bss :: "wma_cmd \<Rightarrow> u32 \<Rightarrow> hdd_context \<Rightarrow> hdd_context" where
  "hdd_green_ap_start_bss wma QDF_SAP_MASK h =
     green_ap_guard (\<lambda>cfg.
       if concurrency_mode h AND QDF_SAP_MASK \<noteq> 0 \<and> \<not> (concurrency_mode h AND QDF_SAP_MASK \<noteq> 0) \<and>
          enable2x2 cfg \<and> enableGreenAP cfg
       then hdd_green_ap_mc wma GREEN_AP_PS_START_EVENT h
       else hdd_green_ap_mc wma GREEN_AP_PS_STOP_EVENT h) h"

definition hdd_green_ap_stop_bss :: "wma_cmd \<Rightarrow> hdd_context \<Rightarrow> hdd_context" where
  "hdd_green_ap_stop_bss wma h =
     green_ap_guard (\<lambda>cfg. if open_sap_sessions h = 1 then hdd_green_ap_mc wma GREEN_AP_PS_STOP_EVENT h else h) h"

definition hdd_green_ap_add_sta :: "wma_cmd \<Rightarrow> hdd_context \<Rightarrow> hdd_context" where
  "hdd_green_ap_add_sta wma h = green_ap_guard (\<lambda>cfg. hdd_green_ap_mc wma GREEN_AP_ADD_STA_EVENT h) h"

definition hdd_green_ap_del_sta :: "wma_cmd \<Rightarrow> hdd_context \<Rightarrow> hdd_context" where
  "hdd_green_ap_del_sta wma h = green_ap_guard (\<lambda>cfg. hdd_green_ap_mc wma GREEN_AP_DEL_STA_EVENT h) h"

text \<open>The target configuration writes through the pointer: \<open>None\<close> when it is null.\<close>

definition hdd_green_ap_target_config :: "bool \<Rightarrow> hdd_context \<Rightarrow> hdd_context option" where
  "hdd_green_ap_target_config egap h =
     (case green_ap_ctx h of
        None \<Rightarrow> None
      | Some g \<Rightarrow> Some (h\<lparr>green_ap_ctx := Some (g\<lparr>egap_support := egap\<rparr>)\<rparr>))"

section \<open>Power saving and connected stations\<close>

text \<open>The power-save setting the firmware has: the value of the last command it accepted.\<close>

definition fw_ps :: "hdd_context \<Rightarrow> u8" where
  "fw_ps h = foldl (\<lambda>v (s, e, ret). if ret = 0 then e else v) 0 (fw_cmds h)"

lemma fw_ps_cong [simp]: "fw_ps (h\<lparr>green_ap_ctx := x\<rparr>) = fw_ps h"
  by (simp add: fw_ps_def)

lemma fw_ps_snoc [simp]:
  "fw_ps (h\<lparr>fw_cmds := fw_cmds h @ [(s, e, ret)]\<rparr>) = (if ret = 0 then e else fw_ps h)"
  "fw_ps (h\<lparr>green_ap_ctx := x, fw_cmds := fw_cmds h @ [(s, e, ret)]\<rparr>) = (if ret = 0 then e else fw_ps h)"
  by (simp_all add: fw_ps_def)

text \<open>Events of the state machine while a soft-AP adapter exists.\<close>

inductive green_ap_step :: "wma_cmd \<Rightarrow> hdd_context \<Rightarrow> hdd_context \<Rightarrow> bool" for wma where
  event: "hdd_get_adapter (hddAdapters h) QDF_SAP_MODE \<noteq> None \<Longrightarrow> green_ap_step wma h (hdd_green_ap_mc wma ev h)"

text \<open>Only an enabled machine in its ON state, with no station counted, has power saving on.\<close>

definition green_ap_inv :: "hdd_context \<Rightarrow> bool" where
  "green_ap_inv h \<longleftrightarrow> (\<exists>g. green_ap_ctx h = Some g \<and> ps_on_time g = 0 \<and>
     (fw_ps h \<noteq> 0 \<longrightarrow> ps_state g = GREEN_AP_PS_ON_STATE \<and> ps_enable g \<noteq> 0 \<and> num_nodes g = 0))"

lemmas green_ap_simps = hdd_green_ap_update_def hdd_green_ap_enable_def ps_timer_start_def Let_def

lemma note_event_fields [simp]:
  "ps_on_time (green_ap_note_event ev g) = ps_on_time g" "ps_state (green_ap_note_event ev g) = ps_state g"
  "ps_event (green_ap_note_event ev g) = ps_event g" "ps_delay_time (green_ap_note_event ev g) = ps_delay_time g"
  by (cases ev; simp add: green_ap_note_event_def)+

lemma green_ap_transition_inv:
  assumes "ps_on_time g = 0" "ps_enable g \<noteq> 0" "green_ap_ctx h = Some g" "\<And>s. wma s 0 = 0"
    and "fw_ps h \<noteq> 0 \<longrightarrow> ps_state g = GREEN_AP_PS_ON_STATE"
  shows "green_ap_inv (green_ap_transition wma a g h)"
proof (cases "ps_state g")
  case GREEN_AP_PS_ON_STATE
  with assms show ?thesis by (auto simp: green_ap_transition_def green_ap_inv_def green_ap_simps)
qed (use assms in \<open>auto simp: green_ap_transition_def green_ap_inv_def green_ap_simps\<close>)

lemma green_ap_mc_inv:
  assumes "green_ap_inv h" "hdd_get_adapter (hddAdapters h) QDF_SAP_MODE \<noteq> None" "\<And>s. wma s 0 = 0"
  shows "green_ap_inv (hdd_green_ap_mc wma ev h)"
proof -
  obtain g0 where g0: "green_ap_ctx h = Some g0" "ps_on_time g0 = 0"
    "fw_ps h \<noteq> 0 \<longrightarrow> ps_state g0 = GREEN_AP_PS_ON_STATE"
    using assms(1) by (auto simp: green_ap_inv_def)
  obtain a where a: "hdd_get_adapter (hddAdapters h) QDF_SAP_MODE = Some a" using assms(2) by blast
  let ?g = "green_ap_note_event ev g0"
  show ?thesis
  proof (cases "ps_enable ?g = 0")
    case True
    with g0 a assms(3) show ?thesis by (simp add: hdd_green_ap_mc_def green_ap_inv_def green_ap_simps)
  next
    case False
    have "green_ap_inv (green_ap_transition wma a ?g (h\<lparr>green_ap_ctx := Some ?g\<rparr>))"
      using g0 False assms(3) by (intro green_ap_transition_inv) auto
    with g0 a False show ?thesis by (simp add: hdd_green_ap_mc_def Let_def)
  qed
qed

text \<open>A firmware that accepts the command to switch power saving off.\<close>

locale green_ap_firmware =
  fixes wma :: wma_cmd
  assumes off_accepted: "wma s 0 = 0"

sublocale green_ap_firmware \<subseteq> mc: machine green_ap_inv "green_ap_step wma" green_ap_inv
  by unfold_locales (auto elim!: green_ap_step.cases intro: green_ap_mc_inv off_accepted)

context green_ap_firmware
begin

lemma mc_run_inv: "(green_ap_step wma)\<^sup>*\<^sup>* h h' \<Longrightarrow> green_ap_inv h \<Longrightarrow> green_ap_inv h'"
  by (rule mc.steps_inv)

end

text \<open>A firmware that accepts every command.\<close>

definition accept_all :: wma_cmd where
  "accept_all s v = 0"

interpretation ready: green_ap_firmware accept_all
  by unfold_locales (simp add: accept_all_def)

section \<open>The public operations\<close>

text \<open>
  Everything other code may call, and changes of the rest of the context between the calls.
  \<open>qdf_mem_malloc\<close> returns zeroed memory.
\<close>

inductive green_ap_api :: "wma_cmd \<Rightarrow> u32 \<Rightarrow> hdd_context \<Rightarrow> hdd_context \<Rightarrow> bool" for wma msk where
  init: "(\<And>g. mem = Some g \<Longrightarrow> ps_enable g = 0) \<Longrightarrow> green_ap_api wma msk h (hdd_green_ap_init mem h)"
| deinit: "green_ap_api wma msk h (hdd_green_ap_deinit h)"
| start_bss: "green_ap_api wma msk h (hdd_green_ap_start_bss wma msk h)"
| stop_bss: "green_ap_api wma msk h (hdd_green_ap_stop_bss wma h)"
| add_sta: "green_ap_api wma msk h (hdd_green_ap_add_sta wma h)"
| del_sta: "green_ap_api wma msk h (hdd_green_ap_del_sta wma h)"
| timer: "green_ap_api wma msk h (hdd_green_ap_timer_fn wma valid h)"
| target: "hdd_green_ap_target_config egap h = Some h' \<Longrightarrow> green_ap_api wma msk h h'"
| environment: "green_ap_api wma msk h (h\<lparr>hdd_cfg := cfg, hddAdapters := ads, concurrency_mode := cm, open_sap_sessions := n\<rparr>)"

definition never_on :: "hdd_context \<Rightarrow> bool" where
  "never_on h \<longleftrightarrow> (\<forall>g. green_ap_ctx h = Some g \<longrightarrow> ps_enable g = 0 \<and> ps_event g \<noteq> GREEN_AP_PS_START_EVENT) \<and>
     (\<forall>c \<in> set (fw_cmds h). fst (snd c) = 0)"

lemma mc_never_on:
  assumes "never_on h" "ev \<noteq> GREEN_AP_PS_START_EVENT"
  shows "never_on (hdd_green_ap_mc wma ev h)"
proof (cases "green_ap_ctx h")
  case (Some g)
  with assms have "ps_enable (green_ap_note_event ev g) = 0"
    by (cases ev) (simp_all add: never_on_def green_ap_note_event_def)
  with assms Some show ?thesis
    by (auto simp: hdd_green_ap_mc_def never_on_def green_ap_simps split: option.split)
qed (use assms in \<open>simp add: hdd_green_ap_mc_def\<close>)

lemma guard_never_on: "never_on h \<Longrightarrow> (\<And>cfg. never_on (act cfg)) \<Longrightarrow> never_on (green_ap_guard act h)"
  by (simp add: green_ap_guard_def split: option.split)

lemma start_bss_stops:
  "hdd_green_ap_start_bss wma msk h = green_ap_guard (\<lambda>cfg. hdd_green_ap_mc wma GREEN_AP_PS_STOP_EVENT h) h"
  by (cases "concurrency_mode h AND msk = 0") (simp_all add: hdd_green_ap_start_bss_def)

lemma api_never_on:
  assumes "never_on h" "green_ap_api wma msk h h'"
  shows "never_on h'"
  using assms(2,1)
proof (induction rule: green_ap_api.induct)
  case (timer h valid)
  then show ?case
    by (cases "green_ap_ctx h") (auto simp: hdd_green_ap_timer_fn_def never_on_def intro!: mc_never_on [unfolded never_on_def])
next
  case (target egap h h')
  then show ?case by (auto simp: hdd_green_ap_target_config_def never_on_def split: option.splits)
qed (auto simp: start_bss_stops hdd_green_ap_stop_bss_def hdd_green_ap_add_sta_def hdd_green_ap_del_sta_def
      hdd_green_ap_init_def hdd_green_ap_attach_def hdd_green_ap_deinit_def hdd_green_ap_deattach_def
      intro!: guard_never_on mc_never_on split: option.split, auto simp: never_on_def)

interpretation api: machine never_on "green_ap_api wma msk" never_on for wma msk
  by unfold_locales (blast intro: api_never_on)+

section \<open>Properties\<close>

text \<open>
  no power saving with stations connected. Over every sequence of events handled while a soft-AP
  adapter exists, with a firmware that accepts the command to switch power saving off: whenever a
  station is counted, power saving is off in the firmware; when it is on, the machine is enabled and
  in its ON state.
\<close>

theorem green_ap_no_power_save_with_stations:
  assumes "\<forall>s. wma s 0 = 0" "(green_ap_step wma)\<^sup>*\<^sup>* h h'" "green_ap_ctx h = Some g0" "ps_on_time g0 = GREEN_AP_PS_ON_TIME"
    and "fw_ps h = 0" "green_ap_ctx h' = Some g"
  shows "(num_nodes g \<noteq> 0 \<longrightarrow> fw_ps h' = 0) \<and>
    (fw_ps h' \<noteq> 0 \<longrightarrow> ps_state g = GREEN_AP_PS_ON_STATE \<and> ps_enable g \<noteq> 0)"
proof -
  have fw: "green_ap_firmware wma" using assms(1) by (simp add: green_ap_firmware_def)
  have "green_ap_inv h" using assms(3-5) by (simp add: green_ap_inv_def GREEN_AP_PS_ON_TIME_def)
  from green_ap_firmware.mc_run_inv [OF fw assms(2) this] assms(6) show ?thesis by (auto simp: green_ap_inv_def)
qed

text \<open>
  an enabled soft AP without stations goes to power saving: from the OFF state two timer events
  lead through WAIT to ON, the command to switch power saving on is sent once, and the delay timer
  is started once with the delay time.
\<close>

theorem green_ap_enters_power_save:
  assumes "green_ap_ctx h = Some g" "ps_enable g \<noteq> 0" "num_nodes g = 0" "ps_state g = GREEN_AP_PS_OFF_STATE"
    and "ps_on_time g = GREEN_AP_PS_ON_TIME" "ps_event g = GREEN_AP_PS_WAIT_EVENT"
    and "hdd_get_adapter (hddAdapters h) QDF_SAP_MODE = Some a"
  shows "\<exists>g'. green_ap_ctx (hdd_green_ap_timer_fn wma 0 (hdd_green_ap_timer_fn wma 0 h)) = Some g' \<and>
    ps_state g' = GREEN_AP_PS_ON_STATE \<and> ps_timer_starts g' = ps_timer_starts g @ [ps_delay_time g] \<and>
    fw_cmds (hdd_green_ap_timer_fn wma 0 (hdd_green_ap_timer_fn wma 0 h)) =
      fw_cmds h @ [(sessionId a, 1, wma (sessionId a) 1)]"
  using assms
  by (simp add: hdd_green_ap_timer_fn_def hdd_green_ap_mc_def green_ap_transition_def green_ap_note_event_def
      green_ap_simps GREEN_AP_PS_ON_TIME_def)

text \<open>
  C36: Green AP is never enabled. \<open>hdd_green_ap_start_bss\<close> tests the same concurrency mask for being set
  and for being clear, so it always sends the stop event. Over every sequence of the public
  operations, whatever the configuration, the machine stays disabled and no command to switch power
  saving on is sent.
\<close>

theorem green_ap_never_enabled:
  assumes "(green_ap_api wma msk)\<^sup>*\<^sup>* h h'" "green_ap_ctx h = None" "fw_cmds h = []"
  shows "(\<forall>g. green_ap_ctx h' = Some g \<longrightarrow> ps_enable g = 0) \<and> (\<forall>c \<in> set (fw_cmds h'). fst (snd c) = 0)"
proof -
  have "never_on h" using assms(2,3) by (simp add: never_on_def)
  from api.steps_inv [OF assms(1) this] show ?thesis by (simp add: never_on_def)
qed

section \<open>Witnesses\<close>

definition demo_ga :: hdd_green_ap_ctx where
  "demo_ga = \<lparr>ps_enable = 1, ps_on_time = 0, ps_delay_time = 20, num_nodes = 0, ps_state = GREEN_AP_PS_OFF_STATE,
     ps_event = GREEN_AP_PS_WAIT_EVENT, ps_timer_starts = [], egap_support = False\<rparr>"

definition demo_hdd :: hdd_context where
  "demo_hdd = \<lparr>green_ap_ctx = Some demo_ga, hdd_cfg = None,
     hddAdapters = [None, Some \<lparr>device_mode = QDF_SAP_MODE, sessionId = 1\<rparr>], concurrency_mode = 0,
     open_sap_sessions = 1, fw_cmds = []\<rparr>"

theorem green_ap_no_power_save_with_stations_witness:
  "\<exists>g. green_ap_ctx (hdd_green_ap_mc accept_all GREEN_AP_ADD_STA_EVENT demo_hdd) = Some g \<and> num_nodes g \<noteq> 0 \<and>
     fw_ps (hdd_green_ap_mc accept_all GREEN_AP_ADD_STA_EVENT demo_hdd) = 0"
proof -
  let ?h = "hdd_green_ap_mc accept_all GREEN_AP_ADD_STA_EVENT demo_hdd"
  have "green_ap_step accept_all demo_hdd ?h" by (intro green_ap_step.event) (simp add: demo_hdd_def)
  then have s: "(green_ap_step accept_all)\<^sup>*\<^sup>* demo_hdd ?h" by (rule r_into_rtranclp)
  have g: "\<exists>g. green_ap_ctx ?h = Some g \<and> num_nodes g \<noteq> 0"
    by (simp add: hdd_green_ap_mc_def demo_hdd_def demo_ga_def green_ap_note_event_def green_ap_transition_def)
  have i: "green_ap_ctx demo_hdd = Some demo_ga" "ps_on_time demo_ga = GREEN_AP_PS_ON_TIME" "fw_ps demo_hdd = 0"
    by (simp_all add: demo_hdd_def demo_ga_def GREEN_AP_PS_ON_TIME_def fw_ps_def)
  from g green_ap_no_power_save_with_stations [OF _ s i] show ?thesis by (auto simp: accept_all_def)
qed

theorem green_ap_enters_power_save_witness:
  "\<exists>g'. green_ap_ctx (hdd_green_ap_timer_fn accept_all 0 (hdd_green_ap_timer_fn accept_all 0 demo_hdd)) = Some g' \<and>
     ps_state g' = GREEN_AP_PS_ON_STATE"
proof -
  have "green_ap_ctx demo_hdd = Some demo_ga" "ps_enable demo_ga \<noteq> 0" "num_nodes demo_ga = 0"
    "ps_state demo_ga = GREEN_AP_PS_OFF_STATE" "ps_on_time demo_ga = GREEN_AP_PS_ON_TIME"
    "ps_event demo_ga = GREEN_AP_PS_WAIT_EVENT"
    "hdd_get_adapter (hddAdapters demo_hdd) QDF_SAP_MODE = Some \<lparr>device_mode = QDF_SAP_MODE, sessionId = 1\<rparr>"
    by (simp_all add: demo_hdd_def demo_ga_def GREEN_AP_PS_ON_TIME_def)
  from green_ap_enters_power_save [OF this, of accept_all] show ?thesis by blast
qed

definition demo_off :: hdd_context where
  "demo_off = demo_hdd\<lparr>green_ap_ctx := None\<rparr>"

theorem green_ap_never_enabled_witness:
  "map_option ps_enable (green_ap_ctx (hdd_green_ap_init (Some (demo_ga\<lparr>ps_enable := 0\<rparr>)) demo_off)) = Some 0"
proof -
  let ?h = "hdd_green_ap_init (Some (demo_ga\<lparr>ps_enable := 0\<rparr>)) demo_off"
  have "green_ap_api accept_all 4 demo_off ?h" by (rule green_ap_api.init) simp
  then have s: "(green_ap_api accept_all 4)\<^sup>*\<^sup>* demo_off ?h" by (rule r_into_rtranclp)
  obtain g where "green_ap_ctx ?h = Some g" by (simp add: hdd_green_ap_init_def hdd_green_ap_attach_def)
  with green_ap_never_enabled [OF s] show ?thesis by (simp add: demo_off_def demo_hdd_def)
qed

end
