(* ===== verification/Dfs_Nol.thy ===== *)
theory Dfs_Nol
  imports Prelude
begin

text \<open>
  The non-occupancy list of radar channels, \<open>core/sap/dfs/src/dfs_nol.c\<close>. The linked list is a list
  of its elements in order; \<open>None\<close> for the \<open>ath_dfs\<close> structure is the null pointer the functions
  test for. Tick counts are 64 bits wide; the conversion of ticks to milliseconds
  (\<open>qdf_system_ticks_to_msecs\<close>) is a parameter \<open>to_ms\<close>, the clock reading \<open>now\<close> is an argument and
  does not advance within one call. An armed timer is recorded with its duration. Updates passed to
  the driver (\<open>ic_dfs_clist_update\<close>) are recorded in \<open>clist_updates\<close>.
\<close>

section \<open>State\<close>

record dfs_nolelem =
  nol_freq :: u32
  nol_chwidth :: u32
  nol_start_ticks :: u64
  nol_timeout_ms :: u32
  nol_timer :: "u32 option"

datatype ieee80211_opmode = IEEE80211_M_STA | IEEE80211_M_IBSS | IEEE80211_M_HOSTAP | IEEE80211_M_OTHER

text \<open>An entry of the array for the driver, and of the array of a user request.\<close>

record dfsreq_nolelem =
  rq_freq :: u32
  rq_chwidth :: u32
  rq_start_ticks :: u64
  rq_timeout_ms :: u32

record ath_dfs =
  nol_list :: "dfs_nolelem list"
  dfs_nol_count :: int
  ic_opmode :: ieee80211_opmode
  clist_updates :: "dfsreq_nolelem list list"
  nol_freed :: bool

definition nol_entry :: "dfs_nolelem \<Rightarrow> dfsreq_nolelem" where
  "nol_entry e = \<lparr>rq_freq = nol_freq e, rq_chwidth = nol_chwidth e, rq_start_ticks = nol_start_ticks e,
     rq_timeout_ms = nol_timeout_ms e\<rparr>"

section \<open>Operations\<close>

fun dfs_get_nol :: "ath_dfs option \<Rightarrow> dfsreq_nolelem list" where
  "dfs_get_nol None = []"
| "dfs_get_nol (Some dfs) = map nol_entry (nol_list dfs)"

text \<open>
  The search of \<open>dfs_nol_addchan\<close>: an element for the channel is restarted; at the end of the list a
  new element is appended when both allocations succeed (\<open>mem\<close>). The flag tells that one was added.
\<close>

fun nol_add :: "bool \<Rightarrow> u32 \<Rightarrow> u64 \<Rightarrow> u32 \<Rightarrow> dfs_nolelem list \<Rightarrow> dfs_nolelem list \<times> bool" where
  "nol_add mem freq now timeout [] =
     (if mem
      then ([\<lparr>nol_freq = freq, nol_chwidth = 20, nol_start_ticks = now, nol_timeout_ms = timeout * 1000,
              nol_timer = Some (timeout * 1000)\<rparr>], True)
      else ([], False))"
| "nol_add mem freq now timeout (e # es) =
     (if nol_freq e = freq \<and> nol_chwidth e = 20
      then (e\<lparr>nol_start_ticks := now, nol_timeout_ms := timeout * 1000, nol_timer := Some (timeout * 1000)\<rparr> # es, False)
      else let (es', added) = nol_add mem freq now timeout es in (e # es', added))"

definition dfs_nol_addchan :: "bool \<Rightarrow> u32 \<Rightarrow> u64 \<Rightarrow> u32 \<Rightarrow> ath_dfs option \<Rightarrow> ath_dfs option" where
  "dfs_nol_addchan mem ic_freq now dfs_nol_timeout dfs =
     (case dfs of
        None \<Rightarrow> None
      | Some d \<Rightarrow>
          let (nol, added) = nol_add mem ic_freq now dfs_nol_timeout (nol_list d)
          in Some (d\<lparr>nol_list := nol, dfs_nol_count := (if added then dfs_nol_count d + 1 else dfs_nol_count d)\<rparr>))"

text \<open>The loop of \<open>dfs_nol_delete\<close> with the counter.\<close>

fun nol_delete :: "u16 \<Rightarrow> u16 \<Rightarrow> dfs_nolelem list \<Rightarrow> int \<Rightarrow> dfs_nolelem list \<times> int" where
  "nol_delete delfreq delchwidth [] cnt = ([], cnt)"
| "nol_delete delfreq delchwidth (e # es) cnt =
     (if nol_freq e = ucast delfreq \<and> nol_chwidth e = ucast delchwidth
      then nol_delete delfreq delchwidth es (if cnt - 1 < 0 then 0 else cnt - 1)
      else let (es', cnt') = nol_delete delfreq delchwidth es cnt in (e # es', cnt'))"

definition dfs_nol_delete :: "u16 \<Rightarrow> u16 \<Rightarrow> ath_dfs option \<Rightarrow> ath_dfs option" where
  "dfs_nol_delete delfreq delchwidth dfs =
     (case dfs of
        None \<Rightarrow> None
      | Some d \<Rightarrow>
          let (nol, cnt) = nol_delete delfreq delchwidth (nol_list d) (dfs_nol_count d)
          in Some (d\<lparr>nol_list := nol, dfs_nol_count := cnt\<rparr>))"

text \<open>The loop of \<open>dfs_nol_update\<close> stops at the end of the list or when \<open>dfs_nol_count\<close> entries are filled.\<close>

fun nol_fill :: "dfs_nolelem list \<Rightarrow> int \<Rightarrow> int \<Rightarrow> dfsreq_nolelem list" where
  "nol_fill [] nlen cnt = []"
| "nol_fill (e # es) nlen cnt = (if nlen < cnt then nol_entry e # nol_fill es (nlen + 1) cnt else [])"

definition dfs_nol_update :: "bool \<Rightarrow> ath_dfs \<Rightarrow> ath_dfs" where
  "dfs_nol_update mem d =
     (if mem then d\<lparr>clist_updates := clist_updates d @ [nol_fill (nol_list d) 0 (dfs_nol_count d)]\<rparr> else d)"

text \<open>One round of the loop of \<open>dfs_set_nol\<close>.\<close>

definition set_nol_step :: "bool \<Rightarrow> (u64 \<Rightarrow> u32) \<Rightarrow> u64 \<Rightarrow> dfsreq_nolelem \<Rightarrow> ath_dfs \<Rightarrow> ath_dfs" where
  "set_nol_step mem to_ms now rq d =
     (let nol_time_left_ms = to_ms (now - rq_start_ticks rq) in
      if nol_time_left_ms < rq_timeout_ms rq
      then case dfs_nol_addchan mem (rq_freq rq) now ((rq_timeout_ms rq - nol_time_left_ms) div 1000) (Some d) of
             None \<Rightarrow> d | Some d' \<Rightarrow> d'
      else d)"

definition dfs_set_nol ::
  "bool \<Rightarrow> bool \<Rightarrow> (u64 \<Rightarrow> u32) \<Rightarrow> u64 \<Rightarrow> dfsreq_nolelem list \<Rightarrow> ath_dfs option \<Rightarrow> ath_dfs option" where
  "dfs_set_nol mem umem to_ms now rqs dfs =
     (case dfs of
        None \<Rightarrow> None
      | Some d \<Rightarrow> Some (dfs_nol_update umem (fold (set_nol_step mem to_ms now) rqs d)))"

text \<open>The timer function, with the frequency and the width of the timer's argument.\<close>

definition dfs_remove_from_nol :: "bool \<Rightarrow> u16 \<Rightarrow> u16 \<Rightarrow> ath_dfs \<Rightarrow> ath_dfs" where
  "dfs_remove_from_nol mem delfreq delchwidth d =
     (if ic_opmode d \<noteq> IEEE80211_M_HOSTAP \<and> ic_opmode d \<noteq> IEEE80211_M_IBSS then d
      else case dfs_nol_delete delfreq delchwidth (Some d) of None \<Rightarrow> d | Some d' \<Rightarrow> dfs_nol_update mem d')"

text \<open>The elements are freed; the pointer to the list keeps its value.\<close>

definition dfs_nol_timer_cleanup :: "ath_dfs \<Rightarrow> ath_dfs" where
  "dfs_nol_timer_cleanup d =
     d\<lparr>nol_list := map (\<lambda>e. e\<lparr>nol_timer := None\<rparr>) (nol_list d), nol_freed := (nol_list d \<noteq> [] \<or> nol_freed d)\<rparr>"

section \<open>The abstract list\<close>

text \<open>The channels on the list with their start and timeout.\<close>

type_synonym nol_map = "u32 \<rightharpoonup> u64 \<times> u32"

definition nol_abs :: "ath_dfs \<Rightarrow> nol_map" where
  "nol_abs d = map_of (map (\<lambda>e. (nol_freq e, (nol_start_ticks e, nol_timeout_ms e))) (nol_list d))"

text \<open>Frequencies in MHz fit the 16 bits of the timer's argument.\<close>

definition nol_wf :: "ath_dfs \<Rightarrow> bool" where
  "nol_wf d \<longleftrightarrow> dfs_nol_count d = int (length (nol_list d)) \<and> distinct (map nol_freq (nol_list d)) \<and>
     (\<forall>e \<in> set (nol_list d). nol_chwidth e = 20 \<and> nol_timer e = Some (nol_timeout_ms e) \<and> nol_freq e < 65536)"

lemma nol_add_freqs:
  "\<forall>e \<in> set es. nol_chwidth e = 20 \<Longrightarrow> nol_add mem freq now timeout es = (es', added) \<Longrightarrow>
   map nol_freq es' = (if added then map nol_freq es @ [freq] else map nol_freq es) \<and>
   (added \<longleftrightarrow> mem \<and> freq \<notin> nol_freq ` set es)"
proof (induction es arbitrary: es' added)
  case (Cons e es)
  show ?case
  proof (cases "nol_freq e = freq")
    case False
    obtain es1 added1 where n: "nol_add mem freq now timeout es = (es1, added1)" by (cases "nol_add mem freq now timeout es")
    from Cons.IH [OF _ n] Cons.prems False n show ?thesis by (auto split: if_splits)
  qed (use Cons.prems in auto)
qed (auto split: if_splits)

lemma nol_add_elems:
  "nol_add mem freq now timeout es = (es', added) \<Longrightarrow>
   \<forall>e \<in> set es'. e \<in> set es \<or>
     (nol_freq e = freq \<and> nol_chwidth e = 20 \<and> nol_timeout_ms e = timeout * 1000 \<and> nol_timer e = Some (timeout * 1000))"
proof (induction es arbitrary: es' added)
  case (Cons e es)
  obtain es1 added1 where n: "nol_add mem freq now timeout es = (es1, added1)" by (cases "nol_add mem freq now timeout es")
  from Cons.IH [OF n] Cons.prems n show ?case by (auto split: if_splits)
qed (auto split: if_splits)

lemma nol_add_abs:
  "\<forall>e \<in> set es. nol_chwidth e = 20 \<Longrightarrow> nol_add mem freq now timeout es = (es', added) \<Longrightarrow>
   map_of (map (\<lambda>e. (nol_freq e, (nol_start_ticks e, nol_timeout_ms e))) es') =
     (if mem \<or> freq \<in> nol_freq ` set es
      then (map_of (map (\<lambda>e. (nol_freq e, (nol_start_ticks e, nol_timeout_ms e))) es))(freq \<mapsto> (now, timeout * 1000))
      else map_of (map (\<lambda>e. (nol_freq e, (nol_start_ticks e, nol_timeout_ms e))) es))"
proof (induction es arbitrary: es' added)
  case (Cons e es)
  obtain es1 added1 where n: "nol_add mem freq now timeout es = (es1, added1)" by (cases "nol_add mem freq now timeout es")
  from Cons.IH [OF _ n] Cons.prems n show ?case by (auto simp: fun_upd_twist split: if_splits)
qed (auto split: if_splits)

lemma nol_delete_eq:
  "int (length es) \<le> cnt \<Longrightarrow>
   nol_delete f w es cnt =
     (filter (\<lambda>e. \<not> (nol_freq e = ucast f \<and> nol_chwidth e = ucast w)) es,
      cnt - int (length es) + int (length (filter (\<lambda>e. \<not> (nol_freq e = ucast f \<and> nol_chwidth e = ucast w)) es)))"
  by (induction es arbitrary: cnt) (auto simp: Let_def)

lemma nol_fill_all: "nlen + int (length es) \<le> cnt \<Longrightarrow> nol_fill es nlen cnt = map nol_entry es"
  by (induction es arbitrary: nlen) auto

lemma addchan_wf:
  assumes "nol_wf d" "freq < 65536" "dfs_nol_addchan mem freq now t (Some d) = Some d'"
  shows "nol_wf d'"
proof -
  obtain es added where n: "nol_add mem freq now t (nol_list d) = (es, added)" by fastforce
  have w: "\<forall>e \<in> set (nol_list d). nol_chwidth e = 20" using assms(1) by (simp add: nol_wf_def)
  note fr = nol_add_freqs [OF w n]
  have "length es = (if added then length (nol_list d) + 1 else length (nol_list d))"
    using fr by (metis length_append_singleton length_map add.commute plus_1_eq_Suc)
  moreover have "distinct (map nol_freq es)" using fr assms(1) by (auto simp: nol_wf_def)
  moreover have "\<forall>e \<in> set es. nol_chwidth e = 20 \<and> nol_timer e = Some (nol_timeout_ms e) \<and> nol_freq e < 65536"
    using nol_add_elems [OF n] assms(1,2) by (auto simp: nol_wf_def)
  ultimately show ?thesis using assms(1,3) n by (auto simp: dfs_nol_addchan_def nol_wf_def)
qed

lemma addchan_Some: "\<exists>d'. dfs_nol_addchan mem freq now t (Some d) = Some d' \<and> ic_opmode d' = ic_opmode d"
  by (simp add: dfs_nol_addchan_def split: prod.split)

lemma addchan_abs:
  assumes "nol_wf d" "dfs_nol_addchan mem freq now t (Some d) = Some d'"
  shows "nol_abs d' = (if mem \<or> nol_abs d freq \<noteq> None then (nol_abs d)(freq \<mapsto> (now, t * 1000)) else nol_abs d)"
proof -
  obtain es added where n: "nol_add mem freq now t (nol_list d) = (es, added)" by fastforce
  have w: "\<forall>e \<in> set (nol_list d). nol_chwidth e = 20" using assms(1) by (simp add: nol_wf_def)
  have "nol_abs d freq \<noteq> None \<longleftrightarrow> freq \<in> nol_freq ` set (nol_list d)"
    by (auto simp: nol_abs_def map_of_eq_None_iff image_image)
  with nol_add_abs [OF w n] assms(2) n show ?thesis
    by (auto simp: nol_abs_def dfs_nol_addchan_def)
qed

lemma update_wf [simp]: "nol_wf (dfs_nol_update mem d) = nol_wf d" "nol_abs (dfs_nol_update mem d) = nol_abs d"
  "ic_opmode (dfs_nol_update mem d) = ic_opmode d"
  by (simp_all add: nol_wf_def nol_abs_def dfs_nol_update_def)

lemma delete_wf:
  assumes "nol_wf d"
  shows "\<exists>d'. dfs_nol_delete f 20 (Some d) = Some d' \<and> nol_wf d' \<and> nol_abs d' = (nol_abs d)(ucast f := None) \<and>
    ic_opmode d' = ic_opmode d"
proof -
  let ?k = "\<lambda>e. \<not> (nol_freq e = ucast f \<and> nol_chwidth e = ucast (20 :: u16))"
  let ?es = "filter ?k (nol_list d)"
  have eq: "nol_delete f 20 (nol_list d) (dfs_nol_count d) = (?es, int (length ?es))"
    using nol_delete_eq [of "nol_list d" "dfs_nol_count d" f 20] assms by (simp add: nol_wf_def)
  have "distinct (map nol_freq ?es)" using assms by (simp add: nol_wf_def distinct_map_filter)
  moreover have "map_of (map (\<lambda>e. (nol_freq e, (nol_start_ticks e, nol_timeout_ms e))) ?es) = (nol_abs d)(ucast f := None)"
  proof -
    have "?es = filter (\<lambda>e. nol_freq e \<noteq> ucast f) (nol_list d)"
      using assms by (intro filter_cong) (auto simp: nol_wf_def)
    moreover have "map_of (map (\<lambda>e. (nol_freq e, g e)) (filter (\<lambda>e. nol_freq e \<noteq> k) es)) =
        (map_of (map (\<lambda>e. (nol_freq e, g e)) es))(k := None)" for g :: "dfs_nolelem \<Rightarrow> u64 \<times> u32" and k es
      by (induction es) (auto simp: fun_eq_iff)
    ultimately show ?thesis by (simp add: nol_abs_def)
  qed
  ultimately show ?thesis using assms eq
    by (auto simp: dfs_nol_delete_def nol_wf_def nol_abs_def)
qed

text \<open>A timer that expires is no longer armed when its function runs.\<close>

definition nol_disarm :: "u32 \<Rightarrow> ath_dfs \<Rightarrow> ath_dfs" where
  "nol_disarm f d = d\<lparr>nol_list := map (\<lambda>e. if nol_freq e = f then e\<lparr>nol_timer := None\<rparr> else e) (nol_list d)\<rparr>"

lemma ucast_u32_u16: "(f :: u32) < 65536 \<Longrightarrow> ucast (ucast f :: u16) = f"
proof -
  assume "f < 65536"
  then have "uint f < 65536" by (simp add: word_less_def)
  then have "uint (ucast (ucast f :: u16) :: u32) = uint f"
    by (simp add: unsigned_ucast_eq take_bit_eq_mod uint_mod_distrib)
  then show ?thesis by (simp only: word_uint_eq_iff)
qed

lemma filter_disarm:
  "\<forall>e \<in> set es. nol_chwidth e = 20 \<Longrightarrow>
   filter (\<lambda>e. \<not> (nol_freq e = f \<and> nol_chwidth e = ucast (20 :: u16)))
     (map (\<lambda>e. if nol_freq e = f then e\<lparr>nol_timer := None\<rparr> else e) es) = filter (\<lambda>e. nol_freq e \<noteq> f) es"
  by (induction es) auto

lemma expire_eq:
  assumes "nol_wf d" "f < 65536" "ic_opmode d = IEEE80211_M_HOSTAP"
  shows "dfs_remove_from_nol mem (ucast f) 20 (nol_disarm f d) =
    dfs_nol_update mem (d\<lparr>nol_list := filter (\<lambda>e. nol_freq e \<noteq> f) (nol_list d),
      dfs_nol_count := int (length (filter (\<lambda>e. nol_freq e \<noteq> f) (nol_list d)))\<rparr>)"
proof -
  let ?es = "nol_list d"
  let ?ds = "map (\<lambda>e. if nol_freq e = f then e\<lparr>nol_timer := None\<rparr> else e) ?es"
  have w: "\<forall>e \<in> set ?es. nol_chwidth e = 20" using assms(1) by (simp add: nol_wf_def)
  have "filter (\<lambda>e. \<not> (nol_freq e = ucast (ucast f :: u16) \<and> nol_chwidth e = ucast (20 :: u16))) ?ds =
      filter (\<lambda>e. nol_freq e \<noteq> f) ?es"
    unfolding ucast_u32_u16 [OF assms(2)] using w by (rule filter_disarm)
  then have "nol_delete (ucast f) 20 ?ds (dfs_nol_count d) =
      (filter (\<lambda>e. nol_freq e \<noteq> f) ?es, int (length (filter (\<lambda>e. nol_freq e \<noteq> f) ?es)))"
    using nol_delete_eq [of ?ds "dfs_nol_count d" "ucast f" 20] assms(1) by (simp add: nol_wf_def)
  with assms(3) show ?thesis by (simp add: dfs_remove_from_nol_def nol_disarm_def dfs_nol_delete_def)
qed

lemma expire_wf:
  assumes "nol_wf d" "f < 65536" "ic_opmode d = IEEE80211_M_HOSTAP"
  shows "nol_wf (dfs_remove_from_nol mem (ucast f) 20 (nol_disarm f d))"
  unfolding expire_eq [OF assms] update_wf using assms(1) by (auto simp: nol_wf_def distinct_map_filter)

lemma set_step_wf:
  assumes "nol_wf d" "rq_freq rq < 65536"
  shows "nol_wf (set_nol_step mem to_ms now rq d) \<and> ic_opmode (set_nol_step mem to_ms now rq d) = ic_opmode d"
proof -
  let ?t = "(rq_timeout_ms rq - to_ms (now - rq_start_ticks rq)) div 1000"
  obtain d' where d': "dfs_nol_addchan mem (rq_freq rq) now ?t (Some d) = Some d'" "ic_opmode d' = ic_opmode d"
    using addchan_Some by blast
  have "nol_wf d'" using addchan_wf [OF assms d'(1)] .
  with d' assms show ?thesis by (simp add: set_nol_step_def Let_def)
qed

lemma set_fold_wf:
  "nol_wf d \<Longrightarrow> \<forall>rq \<in> set rqs. rq_freq rq < 65536 \<Longrightarrow>
   nol_wf (fold (set_nol_step mem to_ms now) rqs d) \<and> ic_opmode (fold (set_nol_step mem to_ms now) rqs d) = ic_opmode d"
proof (induction rqs arbitrary: d)
  case (Cons rq rqs)
  then show ?case using set_step_wf [of d rq mem to_ms now] by simp
qed simp

section \<open>Histories\<close>

text \<open>What happens to the list in access-point mode.\<close>

inductive nol_step :: "ath_dfs \<Rightarrow> ath_dfs \<Rightarrow> bool" where
  add: "freq < 65536 \<Longrightarrow> dfs_nol_addchan mem freq now t (Some d) = Some d' \<Longrightarrow> nol_step d d'"
| set: "\<forall>rq \<in> set rqs. rq_freq rq < 65536 \<Longrightarrow> dfs_set_nol mem umem to_ms now rqs (Some d) = Some d' \<Longrightarrow> nol_step d d'"
| expire: "e \<in> set (nol_list d) \<Longrightarrow> nol_timer e \<noteq> None \<Longrightarrow>
    nol_step d (dfs_remove_from_nol mem (ucast (nol_freq e)) (ucast (nol_chwidth e)) (nol_disarm (nol_freq e) d))"

definition nol_ap :: "ath_dfs \<Rightarrow> bool" where
  "nol_ap d \<longleftrightarrow> nol_wf d \<and> ic_opmode d = IEEE80211_M_HOSTAP"

lemma addchan_opmode: "dfs_nol_addchan mem freq now t (Some d) = Some d' \<Longrightarrow> ic_opmode d' = ic_opmode d"
  using addchan_Some [of mem freq now t d] by auto

lemma nol_step_inv: "nol_ap d \<Longrightarrow> nol_step d d' \<Longrightarrow> nol_ap d'"
proof (erule nol_step.cases, goal_cases)
  case 1
  then show ?case using addchan_wf addchan_opmode by (auto simp: nol_ap_def)
next
  case 2
  then show ?case using set_fold_wf by (auto simp: nol_ap_def dfs_set_nol_def)
next
  case (3 e d0 mem)
  then have "nol_wf d" "nol_freq e < 65536" "nol_chwidth e = 20" "ic_opmode d = IEEE80211_M_HOSTAP"
    by (auto simp: nol_ap_def nol_wf_def)
  with 3 expire_wf [of d "nol_freq e" mem] expire_eq [of d "nol_freq e" mem] show ?case by (simp add: nol_ap_def)
qed

interpretation nol: machine nol_ap nol_step nol_ap
  by unfold_locales (blast intro: nol_step_inv)+

section \<open>Restoring\<close>

lemma timeout_seconds:
  fixes left :: u32
  shows "unat (left div 1000 * 1000) = unat left div 1000 * 1000"
proof -
  have "unat left div 1000 * 1000 \<le> unat left" by simp
  also have "\<dots> < 2 ^ 32" using unsigned_less [of left] by simp
  finally show ?thesis by (simp add: unat_word_ariths unat_div_distrib)
qed

lemma set_step_abs:
  assumes "nol_wf d"
  shows "nol_abs (set_nol_step True to_ms now rq d) =
    (if to_ms (now - rq_start_ticks rq) < rq_timeout_ms rq
     then (nol_abs d)(rq_freq rq \<mapsto> (now, (rq_timeout_ms rq - to_ms (now - rq_start_ticks rq)) div 1000 * 1000))
     else nol_abs d)"
proof -
  let ?t = "(rq_timeout_ms rq - to_ms (now - rq_start_ticks rq)) div 1000"
  obtain d' where d': "dfs_nol_addchan True (rq_freq rq) now ?t (Some d) = Some d'" using addchan_Some by blast
  with addchan_abs [OF assms d'] show ?thesis by (simp add: set_nol_step_def Let_def)
qed

lemma set_fold_abs:
  assumes "nol_wf d" "distinct (map rq_freq rqs)" "\<forall>rq \<in> set rqs. rq_freq rq < 65536"
  shows "nol_abs (fold (set_nol_step True to_ms now) rqs d) f =
    (case find (\<lambda>rq. rq_freq rq = f \<and> to_ms (now - rq_start_ticks rq) < rq_timeout_ms rq) rqs of
       Some rq \<Rightarrow> Some (now, (rq_timeout_ms rq - to_ms (now - rq_start_ticks rq)) div 1000 * 1000)
     | None \<Rightarrow> nol_abs d f)"
  using assms
proof (induction rqs arbitrary: d)
  case (Cons rq rqs)
  have wf: "nol_wf (set_nol_step True to_ms now rq d)" using set_step_wf Cons.prems by simp
  have no: "find (\<lambda>r. rq_freq r = rq_freq rq \<and> to_ms (now - rq_start_ticks r) < rq_timeout_ms r) rqs = None"
    using Cons.prems(2) by (auto simp: find_None_iff image_iff)
  have abs: "nol_abs (set_nol_step True to_ms now rq d) f =
      (if rq_freq rq = f \<and> to_ms (now - rq_start_ticks rq) < rq_timeout_ms rq
       then Some (now, (rq_timeout_ms rq - to_ms (now - rq_start_ticks rq)) div 1000 * 1000) else nol_abs d f)"
    using set_step_abs [OF Cons.prems(1), of to_ms now rq] by auto
  show ?case using Cons.IH [OF wf] Cons.prems abs no by (auto split: option.splits)
qed simp

section \<open>Properties\<close>

text \<open>
  C39: the list refines a map from channels to their start time and timeout. On a well-formed list,
  \<open>dfs_nol_addchan\<close> (when memory can be allocated or the channel is listed) sets the channel to the
  current time and the timeout in milliseconds modulo \<open>2 ^ 32\<close>, and leaves the map as it is otherwise;
  \<open>dfs_nol_delete\<close> removes the channel; both keep the list well-formed: no channel twice, a counter
  that equals the length, every element with an armed timer.
\<close>

theorem dfs_nol_refines_map:
  assumes "nol_wf d" "freq < 65536"
  shows "(\<exists>d'. dfs_nol_addchan mem freq now t (Some d) = Some d' \<and> nol_wf d' \<and>
      nol_abs d' = (if mem \<or> nol_abs d freq \<noteq> None then (nol_abs d)(freq \<mapsto> (now, t * 1000)) else nol_abs d)) \<and>
    (\<exists>d'. dfs_nol_delete (ucast freq) 20 (Some d) = Some d' \<and> nol_wf d' \<and> nol_abs d' = (nol_abs d)(freq := None))"
proof
  obtain d' where d': "dfs_nol_addchan mem freq now t (Some d) = Some d'" using addchan_Some by blast
  with addchan_wf [OF assms d'] addchan_abs [OF assms(1) d']
  show "\<exists>d'. dfs_nol_addchan mem freq now t (Some d) = Some d' \<and> nol_wf d' \<and>
      nol_abs d' = (if mem \<or> nol_abs d freq \<noteq> None then (nol_abs d)(freq \<mapsto> (now, t * 1000)) else nol_abs d)" by blast
  show "\<exists>d'. dfs_nol_delete (ucast freq) 20 (Some d) = Some d' \<and> nol_wf d' \<and> nol_abs d' = (nol_abs d)(freq := None)"
    using delete_wf [OF assms(1), of "ucast freq"] ucast_u32_u16 [OF assms(2)] by auto
qed

text \<open>
  in access-point mode, over every sequence of additions, restores and expirations that starts
  with an empty list, the counter equals the number of elements, no channel is listed twice and
  every element has its timer armed with its timeout; so an update that gets its memory hands the
  whole list to the driver.
\<close>

theorem dfs_nol_consistent:
  assumes "nol_step\<^sup>*\<^sup>* d0 d" "nol_list d0 = []" "dfs_nol_count d0 = 0" "ic_opmode d0 = IEEE80211_M_HOSTAP"
  shows "dfs_nol_count d = int (length (nol_list d)) \<and> distinct (map nol_freq (nol_list d)) \<and>
    (\<forall>e \<in> set (nol_list d). nol_timer e = Some (nol_timeout_ms e)) \<and>
    clist_updates (dfs_nol_update True d) = clist_updates d @ [dfs_get_nol (Some d)]"
proof -
  have "nol_ap d0" using assms(2-4) by (simp add: nol_ap_def nol_wf_def)
  from nol.steps_inv [OF assms(1) this] have wf: "nol_wf d" by (simp add: nol_ap_def)
  then have "nol_fill (nol_list d) 0 (dfs_nol_count d) = map nol_entry (nol_list d)"
    by (intro nol_fill_all) (simp add: nol_wf_def)
  with wf show ?thesis by (simp add: nol_wf_def dfs_nol_update_def)
qed

text \<open>
  saving and restoring. When the list read by \<open>dfs_get_nol\<close> is written by \<open>dfs_set_nol\<close> to an empty
  list (memory permitting), exactly the channels whose time has not run out are listed again, from
  the current time, with the remaining time rounded down to whole seconds: never more than what was
  left, and less than a second short of it.
\<close>

theorem dfs_nol_save_restore:
  assumes "nol_wf d" "nol_list d0 = []" "dfs_nol_count d0 = 0" "e \<in> set (nol_list d)"
    and "left = unat (nol_timeout_ms e) - unat (to_ms (now - nol_start_ticks e))"
  shows "\<exists>d'. dfs_set_nol True umem to_ms now (dfs_get_nol (Some d)) (Some d0) = Some d' \<and> nol_wf d' \<and>
    (case nol_abs d' (nol_freq e) of
       None \<Rightarrow> left = 0
     | Some (start, timeout) \<Rightarrow> 0 < left \<and> start = now \<and> unat timeout \<le> left \<and> left < unat timeout + 1000)"
proof -
  let ?rqs = "map nol_entry (nol_list d)"
  let ?ms = "to_ms (now - nol_start_ticks e)"
  let ?d = "fold (set_nol_step True to_ms now) ?rqs d0"
  have wf0: "nol_wf d0" using assms(2,3) by (simp add: nol_wf_def)
  have rq: "distinct (map rq_freq ?rqs)" "\<forall>rq \<in> set ?rqs. rq_freq rq < 65536"
    using assms(1) by (auto simp: nol_wf_def nol_entry_def comp_def)
  have wf: "nol_wf ?d" using set_fold_wf [OF wf0 rq(2)] by simp
  have uniq: "rq = nol_entry e" if m: "rq \<in> set ?rqs" and fq: "rq_freq rq = nol_freq e" for rq
  proof -
    obtain e' where "e' \<in> set (nol_list d)" "rq = nol_entry e'" using m unfolding set_map by blast
    moreover have "inj_on nol_freq (set (nol_list d))" using assms(1) by (simp add: nol_wf_def distinct_map)
    ultimately show ?thesis using fq assms(4) by (auto simp: nol_entry_def dest: inj_onD)
  qed
  have abs: "nol_abs ?d (nol_freq e) =
      (if ?ms < nol_timeout_ms e then Some (now, (nol_timeout_ms e - ?ms) div 1000 * 1000) else None)"
  proof (cases "find (\<lambda>rq. rq_freq rq = nol_freq e \<and> to_ms (now - rq_start_ticks rq) < rq_timeout_ms rq) ?rqs")
    case None
    then have "\<not> ?ms < nol_timeout_ms e" using assms(4) by (auto simp: find_None_iff nol_entry_def)
    with set_fold_abs [OF wf0 rq, of to_ms now "nol_freq e"] None assms(2) show ?thesis by (simp add: nol_abs_def)
  next
    case (Some rq)
    then have q: "rq \<in> set ?rqs" "rq_freq rq = nol_freq e" "to_ms (now - rq_start_ticks rq) < rq_timeout_ms rq"
      by (auto simp: find_Some_iff)
    from uniq [OF q(1,2)] have r: "rq = nol_entry e" .
    with q(3) have "?ms < nol_timeout_ms e" by (simp add: nol_entry_def)
    with r set_fold_abs [OF wf0 rq, of to_ms now "nol_freq e"] Some show ?thesis by (simp add: nol_entry_def)
  qed
  have "case nol_abs ?d (nol_freq e) of
       None \<Rightarrow> left = 0
     | Some (start, timeout) \<Rightarrow> 0 < left \<and> start = now \<and> unat timeout \<le> left \<and> left < unat timeout + 1000"
  proof (cases "?ms < nol_timeout_ms e")
    case True
    then have l: "unat (nol_timeout_ms e - ?ms) = left" "0 < left"
      using assms(5) by (simp_all add: unat_sub word_less_nat_alt word_le_nat_alt)
    have "left div 1000 * 1000 \<le> left \<and> left < left div 1000 * 1000 + 1000"
      using div_mult_mod_eq [of left 1000] mod_less_divisor [of 1000 left] by linarith
    with True l show ?thesis by (simp add: abs timeout_seconds)
  next
    case False
    with assms(5) show ?thesis by (simp add: abs word_less_nat_alt)
  qed
  with wf show ?thesis by (simp add: dfs_set_nol_def)
qed

section \<open>Witnesses\<close>

definition demo_nol :: ath_dfs where
  "demo_nol = \<lparr>nol_list = [], dfs_nol_count = 0, ic_opmode = IEEE80211_M_HOSTAP, clist_updates = [], nol_freed = False\<rparr>"

definition demo_elem :: dfs_nolelem where
  "demo_elem = \<lparr>nol_freq = 5260, nol_chwidth = 20, nol_start_ticks = 100, nol_timeout_ms = 1800000, nol_timer = Some 1800000\<rparr>"

definition demo_listed :: ath_dfs where
  "demo_listed = demo_nol\<lparr>nol_list := [demo_elem], dfs_nol_count := 1\<rparr>"

lemma demo_listed_wf: "nol_wf demo_listed"
  by (simp add: nol_wf_def demo_listed_def demo_nol_def demo_elem_def)

theorem dfs_nol_refines_map_witness:
  "\<exists>d'. dfs_nol_addchan True 5500 7 1800 (Some demo_listed) = Some d' \<and> nol_abs d' 5500 = Some (7, 1800000)"
  using dfs_nol_refines_map [OF demo_listed_wf, of 5500 True 7 1800] by auto

theorem dfs_nol_consistent_witness:
  "\<exists>d. nol_step demo_nol d \<and> dfs_nol_count d = int (length (nol_list d))"
proof -
  obtain d where "dfs_nol_addchan True 5260 100 1800 (Some demo_nol) = Some d" using addchan_Some by blast
  then have s: "nol_step demo_nol d" by (intro nol_step.add) auto
  with dfs_nol_consistent [of demo_nol d] show ?thesis by (auto simp: demo_nol_def)
qed

theorem dfs_nol_save_restore_witness:
  "\<exists>d'. dfs_set_nol True True (\<lambda>t. ucast t) 2600 (dfs_get_nol (Some demo_listed)) (Some demo_nol) = Some d' \<and> nol_wf d'"
  using dfs_nol_save_restore [OF demo_listed_wf, of demo_nol demo_elem _ "\<lambda>t. ucast t" 2600 True]
  by (auto simp: demo_nol_def demo_listed_def)

end
