(* ===== verification/Wep.thy ===== *)
theory Wep
  imports Prelude
begin

text \<open>
  Shared-key authentication, \<open>core/mac/src/pe/lim/lim_security_utils.c\<close>: CRC-32, RC4, and the
  encryption and decryption of the third authentication frame. Buffers are lists of bytes. An
  access outside a buffer is \<open>None\<close>. Bytes that the source reads before it writes them (the first
  three bytes of the seed in the encryption) are arguments, \<open>junk\<close> and \<open>buf\<close>.
\<close>

unbundle bit_operations_syntax

section \<open>CRC-32\<close>

definition LIM_SEED_LENGTH :: nat where
  "LIM_SEED_LENGTH = 16"

definition PTAPS :: u32 where
  "PTAPS = 0xedb88320"

text \<open>One round of the loop of \<open>lim_crc_update\<close>.\<close>

definition crc_bit :: "u32 \<Rightarrow> u32" where
  "crc_bit z = (let fb = z AND 1; z1 = drop_bit 1 z in if fb \<noteq> 0 then z1 XOR PTAPS else z1)"

definition lim_crc_update :: "u32 \<Rightarrow> u8 \<Rightarrow> u32" where
  "lim_crc_update crc x = (crc_bit ^^ 8) (crc XOR ucast x)"

text \<open>The four result bytes, lowest first.\<close>

fun crc_bytes :: "nat \<Rightarrow> u32 \<Rightarrow> u8 list" where
  "crc_bytes 0 crc = []"
| "crc_bytes (Suc n) crc = ucast crc # crc_bytes n (drop_bit 8 crc)"

definition lim_compute_crc32 :: "u8 list \<Rightarrow> u8 \<Rightarrow> u8 list option" where
  "lim_compute_crc32 pSrc len =
     (if length pSrc < unat len then None
      else Some (crc_bytes 4 (NOT (foldl lim_crc_update (NOT 0) (take (unat len) pSrc)))))"

section \<open>RC4\<close>

definition rc4_swap :: "nat \<Rightarrow> nat \<Rightarrow> u8 list \<Rightarrow> u8 list" where
  "rc4_swap i j sbox = (let temp = sbox ! i; sbox1 = sbox[i := sbox ! j] in sbox1[j := temp])"

text \<open>One round of the key schedule: the box, \<open>j\<close> (which stays below 256) and \<open>k\<close>.\<close>

definition ksa_round :: "u8 list \<Rightarrow> nat \<Rightarrow> nat \<Rightarrow> u8 list \<times> u8 \<times> nat \<Rightarrow> u8 list \<times> u8 \<times> nat" where
  "ksa_round seed keyLength i st =
     (case st of (sbox, j, k) \<Rightarrow>
        let j1 = (if k < LIM_SEED_LENGTH then j + sbox ! i + seed ! k else j);
            k1 = (if keyLength \<le> k + 1 then 0 else k + 1)
        in (rc4_swap i (unat j1) sbox, j1, k1))"

definition rc4_ksa :: "u8 list \<Rightarrow> nat \<Rightarrow> u8 list" where
  "rc4_ksa seed keyLength =
     fst (fold (ksa_round seed keyLength) [0..<256] (map of_nat [0..<256], 0, 0))"

text \<open>The generation loop; a null source pointer stands for zero bytes.\<close>

fun rc4_loop :: "nat \<Rightarrow> u8 \<Rightarrow> u8 \<Rightarrow> u8 list \<Rightarrow> u8 list option \<Rightarrow> u8 list option" where
  "rc4_loop 0 i j sbox pSrc = Some []"
| "rc4_loop (Suc len) i j sbox pSrc =
     (let i1 = i + 1;
          temp1 = sbox ! unat i1;
          j1 = j + temp1;
          temp2 = sbox ! unat j1;
          sbox1 = (sbox[unat i1 := temp2])[unat j1 := temp1];
          t = sbox1 ! unat (temp1 + temp2)
      in case pSrc of
           None \<Rightarrow> map_option ((#) (t XOR 0)) (rc4_loop len i1 j1 sbox1 None)
         | Some [] \<Rightarrow> None
         | Some (x # xs) \<Rightarrow> map_option ((#) (t XOR x)) (rc4_loop len i1 j1 sbox1 (Some xs)))"

text \<open>
  The length is cast to eight bits. The seed has \<open>LIM_SEED_LENGTH\<close> bytes.
\<close>

definition lim_rc4 :: "u8 list option \<Rightarrow> u8 list \<Rightarrow> u32 \<Rightarrow> u16 \<Rightarrow> u8 list option" where
  "lim_rc4 pSrc seed keyLength frameLen =
     (if length seed \<noteq> LIM_SEED_LENGTH then None
      else rc4_loop (unat (ucast frameLen :: u8)) 0 0 (rc4_ksa seed (unat keyLength)) pSrc)"

section \<open>The authentication frame\<close>

definition auth_body_len :: nat where
  "auth_body_len = 136"

text \<open>\<open>LIM_ENCR_AUTH_BODY_LEN\<close> is the body with the initialisation vector and the check value.\<close>

definition LIM_ENCR_AUTH_BODY_LEN :: nat where
  "LIM_ENCR_AUTH_BODY_LEN = auth_body_len + 4 + 4"

text \<open>Copying the key to bytes 3 and following of the seed.\<close>

definition seed_with_key :: "u8 list \<Rightarrow> u8 list \<Rightarrow> u32 \<Rightarrow> u8 list option" where
  "seed_with_key seed pKey n =
     (if length pKey < unat n \<or> length seed < 3 + unat n then None
      else Some (take 3 seed @ take (unat n) pKey @ drop (3 + unat n) seed))"

text \<open>The results: the encrypted body and the plain text, which gets the check value appended.\<close>

definition lim_encrypt_auth_frame ::
  "u8 list \<Rightarrow> u8 \<Rightarrow> u8 list \<Rightarrow> u8 list \<Rightarrow> u32 \<Rightarrow> (u8 list \<times> u8 list) option" where
  "lim_encrypt_auth_frame junk keyId pKey pPlainText keyLen =
     (let keyLength = keyLen + 3 in
      if length junk \<noteq> LIM_SEED_LENGTH \<or> length pPlainText < auth_body_len + 4 then None
      else do {
        seed \<leftarrow> seed_with_key junk pKey (keyLength - 3);
        icv \<leftarrow> lim_compute_crc32 pPlainText (of_nat auth_body_len);
        let plain = take auth_body_len pPlainText @ icv @ drop (auth_body_len + 4) pPlainText;
        enc \<leftarrow> lim_rc4 (Some plain) seed keyLength (of_nat (LIM_ENCR_AUTH_BODY_LEN - 4));
        Some ([seed ! 0, seed ! 1, seed ! 2, push_bit 6 keyId] @ enc, plain)
      })"

datatype decrypt_result = eSIR_SUCCESS_DECRYPT | LIM_DECRYPT_ICV_FAIL

text \<open>The loop that compares the computed check value with the received one.\<close>

fun icv_compare :: "u8 list \<Rightarrow> nat \<Rightarrow> u8 list \<Rightarrow> decrypt_result option" where
  "icv_compare plain pos [] = Some eSIR_SUCCESS_DECRYPT"
| "icv_compare plain pos (c # icv) =
     (if length plain \<le> pos then None
      else if c \<noteq> plain ! pos then Some LIM_DECRYPT_ICV_FAIL
      else icv_compare plain (pos + 1) icv)"

text \<open>The result and the plain body; \<open>buf\<close> is what the destination held before.\<close>

definition lim_decrypt_auth_frame ::
  "u8 list \<Rightarrow> u8 list \<Rightarrow> u8 list \<Rightarrow> u8 list \<Rightarrow> u32 \<Rightarrow> u16 \<Rightarrow> (decrypt_result \<times> u8 list) option" where
  "lim_decrypt_auth_frame junk pKey pEncrBody buf keyLen frameLen =
     (let keyLength = keyLen + 3 in
      if length junk \<noteq> LIM_SEED_LENGTH \<or> length pEncrBody < 4 \<or>
         length buf < unat (ucast frameLen :: u8) \<or> frameLen < 4 then None
      else do {
        seed \<leftarrow> seed_with_key (take 3 pEncrBody @ drop 3 junk) pKey (keyLength - 3);
        out \<leftarrow> lim_rc4 (Some (drop 4 pEncrBody)) seed keyLength frameLen;
        let plain = out @ drop (length out) buf;
        icv \<leftarrow> lim_compute_crc32 plain (ucast (frameLen - 4));
        res \<leftarrow> icv_compare plain (unat frameLen - 4) icv;
        Some (res, plain)
      })"

section \<open>The check value\<close>

lemma bit_PTAPS_31: "bit PTAPS 31"
  by (simp add: PTAPS_def)

lemma crc_bit_bit:
  assumes "n < 32"
  shows "bit (crc_bit z) n = (if n = 31 then bit z 0 else bit z (Suc n) \<noteq> (bit z 0 \<and> bit PTAPS n))"
proof -
  have fb: "(z AND 1 \<noteq> 0) = bit z 0" by (simp add: and_one_eq bit_0 mod_2_eq_odd)
  have top: "\<not> bit z 32" using bit_imp_le_length [of z 32] by auto
  show ?thesis
    unfolding crc_bit_def Let_def fb using top bit_PTAPS_31 assms
    by (auto simp: bit_xor_iff bit_drop_bit_eq)
qed

lemma crc_bit_inj: "crc_bit y = crc_bit z \<Longrightarrow> y = z"
proof -
  assume eq: "crc_bit y = crc_bit z"
  then have 0: "bit y 0 = bit z 0" using crc_bit_bit [of 31 y] crc_bit_bit [of 31 z] by simp
  show "y = z"
  proof (rule bit_word_eqI)
    fix n
    assume n: "n < LENGTH(32)"
    show "bit y n = bit z n"
    proof (cases n)
      case (Suc m)
      with n have "m < 32" "m \<noteq> 31" by auto
      with crc_bit_bit [of m y] crc_bit_bit [of m z] eq 0 Suc show ?thesis by auto
    qed (use 0 in simp)
  qed
qed

lemma crc_bits_inj: "(crc_bit ^^ k) y = (crc_bit ^^ k) z \<Longrightarrow> y = z"
  by (induction k) (auto dest: crc_bit_inj)

lemma ucast_u8_u32_inj: "(ucast (x :: u8) :: u32) = ucast y \<Longrightarrow> x = y"
proof (rule bit_word_eqI)
  fix n
  assume eq: "(ucast x :: u32) = ucast y" and n: "n < LENGTH(8)"
  have "bit (ucast x :: u32) n = bit (ucast y :: u32) n" by (simp add: eq)
  with n show "bit x n = bit y n" by (simp add: bit_ucast_iff)
qed

lemma crc_update_inj:
  "lim_crc_update c x = lim_crc_update d x \<Longrightarrow> c = d"
  "lim_crc_update c x = lim_crc_update c y \<Longrightarrow> x = y"
proof -
  assume "lim_crc_update c x = lim_crc_update d x"
  then have "c XOR ucast x = d XOR ucast x" unfolding lim_crc_update_def by (rule crc_bits_inj)
  then have "(c XOR ucast x) XOR ucast x = (d XOR ucast x) XOR ucast x" by simp
  then show "c = d" by (simp only: xor.assoc xor_self_eq xor.right_neutral)
next
  assume "lim_crc_update c x = lim_crc_update c y"
  then have "c XOR ucast x = c XOR ucast y" unfolding lim_crc_update_def by (rule crc_bits_inj)
  then have "c XOR (c XOR ucast x) = c XOR (c XOR ucast y)" by simp
  then have "(ucast x :: u32) = ucast y" by (simp only: xor.assoc [symmetric] xor_self_eq xor.left_neutral)
  then show "x = y" by (rule ucast_u8_u32_inj)
qed

lemma crc_fold_inj: "foldl lim_crc_update c xs = foldl lim_crc_update d xs \<Longrightarrow> c = d"
  by (induction xs arbitrary: c d) (auto dest: crc_update_inj(1))

text \<open>Changing one byte changes the check value.\<close>

lemma crc_fold_change:
  assumes "i < length xs" "y \<noteq> xs ! i"
  shows "foldl lim_crc_update c (xs[i := y]) \<noteq> foldl lim_crc_update c xs"
proof
  let ?c = "foldl lim_crc_update c (take i xs)"
  assume "foldl lim_crc_update c (xs[i := y]) = foldl lim_crc_update c xs"
  then have "foldl lim_crc_update (lim_crc_update ?c y) (drop (Suc i) xs) =
      foldl lim_crc_update (lim_crc_update ?c (xs ! i)) (drop (Suc i) xs)"
    using assms(1) id_take_nth_drop [OF assms(1)] by (simp add: upd_conv_take_nth_drop) (metis foldl_Cons foldl_append)
  then have "lim_crc_update ?c y = lim_crc_update ?c (xs ! i)" by (rule crc_fold_inj)
  then have "y = xs ! i" by (rule crc_update_inj(2))
  with assms(2) show False by simp
qed

lemma crc_bytes_nth: "i < n \<Longrightarrow> crc_bytes n crc ! i = ucast (drop_bit (8 * i) crc)"
proof (induction n arbitrary: crc i)
  case (Suc n)
  then show ?case by (cases i) (simp_all add: drop_bit_drop_bit algebra_simps)
qed simp

lemma crc_bytes_length [simp]: "length (crc_bytes n crc) = n"
  by (induction n arbitrary: crc) simp_all

lemma crc_bytes_inj: "crc_bytes 4 c = crc_bytes 4 d \<Longrightarrow> c = d"
proof (rule bit_word_eqI)
  fix n
  assume eq: "crc_bytes 4 c = crc_bytes 4 d" and n: "n < LENGTH(32)"
  let ?k = "n div 8"
  have k: "?k < 4" using n by simp
  have "(ucast (drop_bit (8 * ?k) c) :: u8) = ucast (drop_bit (8 * ?k) d)"
    using crc_bytes_nth [OF k, of c] crc_bytes_nth [OF k, of d] eq by simp
  then have "bit (ucast (drop_bit (8 * ?k) c) :: u8) (n mod 8) = bit (ucast (drop_bit (8 * ?k) d) :: u8) (n mod 8)"
    by simp
  then show "bit c n = bit d n" by (simp add: bit_ucast_iff bit_drop_bit_eq)
qed

definition crc32 :: "u8 list \<Rightarrow> u8 list" where
  "crc32 xs = crc_bytes 4 (NOT (foldl lim_crc_update (NOT 0) xs))"

lemma crc32_change:
  assumes "i < length xs" "y \<noteq> xs ! i"
  shows "crc32 (xs[i := y]) \<noteq> crc32 xs"
proof
  assume "crc32 (xs[i := y]) = crc32 xs"
  then have "NOT (foldl lim_crc_update (NOT 0) (xs[i := y])) = NOT (foldl lim_crc_update (NOT 0) xs)"
    unfolding crc32_def by (rule crc_bytes_inj)
  then have "foldl lim_crc_update (NOT 0) (xs[i := y]) = foldl lim_crc_update (NOT 0) xs" by (metis bit.double_compl)
  with crc_fold_change [OF assms] show False by simp
qed

lemma compute_crc32_eq: "unat len \<le> length xs \<Longrightarrow> lim_compute_crc32 xs len = Some (crc32 (take (unat len) xs))"
  by (simp add: lim_compute_crc32_def crc32_def)

section \<open>The key stream\<close>

text \<open>The bytes that are combined with the text; they do not depend on it.\<close>

fun rc4_stream :: "u8 list \<Rightarrow> u8 \<Rightarrow> u8 \<Rightarrow> nat \<Rightarrow> u8 list" where
  "rc4_stream sbox i j 0 = []"
| "rc4_stream sbox i j (Suc len) =
     (let i1 = i + 1; temp1 = sbox ! unat i1; j1 = j + temp1; temp2 = sbox ! unat j1;
          sbox1 = (sbox[unat i1 := temp2])[unat j1 := temp1]
      in sbox1 ! unat (temp1 + temp2) # rc4_stream sbox1 i1 j1 len)"

lemma rc4_stream_length: "length (rc4_stream sbox i j n) = n"
  by (induction n arbitrary: sbox i j) (simp_all add: Let_def)

lemma rc4_loop_stream:
  "n \<le> length xs \<Longrightarrow> rc4_loop n i j sbox (Some xs) = Some (map2 (XOR) (rc4_stream sbox i j n) (take n xs))"
proof (induction n arbitrary: i j sbox xs)
  case (Suc n)
  then obtain x ys where xs: "xs = x # ys" "n \<le> length ys" by (cases xs) auto
  from Suc.IH [OF xs(2)] xs(1) show ?case by (simp add: Let_def)
qed simp

lemma rc4_loop_length: "rc4_loop n i j sbox src = Some ys \<Longrightarrow> length ys = n"
proof (induction n arbitrary: i j sbox src ys)
  case (Suc n)
  from Suc.prems show ?case by (auto simp: Let_def split: option.splits list.splits dest: Suc.IH)
qed simp

text \<open>A stream cipher: the text is combined with a key stream by exclusive or.\<close>

locale stream_cipher =
  fixes stream :: "'k \<Rightarrow> nat \<Rightarrow> u8 list" and crypt :: "'k \<Rightarrow> nat \<Rightarrow> u8 list \<Rightarrow> u8 list option"
  assumes stream_length: "length (stream k n) = n"
    and crypt_stream: "n \<le> length xs \<Longrightarrow> crypt k n xs = Some (map2 (XOR) (stream k n) (take n xs))"
begin

lemma crypt_twice:
  assumes "crypt k n xs = Some ys" "n \<le> length xs"
  shows "length ys = n" "crypt k n (ys @ zs) = Some (take n xs)"
proof -
  have ys: "ys = map2 (XOR) (stream k n) (take n xs)" using assms crypt_stream by simp
  with assms(2) show len: "length ys = n" by (simp add: stream_length)
  have "map2 (XOR) (stream k n) ys = take n xs"
  proof (rule nth_equalityI)
    show "length (map2 (XOR) (stream k n) ys) = length (take n xs)" using len assms(2) by (simp add: stream_length)
    fix i
    assume "i < length (map2 (XOR) (stream k n) ys)"
    then have "i < n" by (simp add: len stream_length)
    then have "map2 (XOR) (stream k n) ys ! i = stream k n ! i XOR (stream k n ! i XOR xs ! i)"
      using ys len assms(2) by (simp add: stream_length)
    then show "map2 (XOR) (stream k n) ys ! i = take n xs ! i"
      using \<open>i < n\<close> by (simp add: xor.assoc [symmetric])
  qed
  with len show "crypt k n (ys @ zs) = Some (take n xs)" by (simp add: crypt_stream)
qed

text \<open>A changed byte of the input changes that byte of the output and no other.\<close>

lemma crypt_change:
  assumes "crypt k n xs = Some ys" "n \<le> length xs" "i < n" "b \<noteq> xs ! i"
  shows "\<exists>c. crypt k n (xs[i := b]) = Some (ys[i := c]) \<and> c \<noteq> ys ! i"
proof -
  let ?c = "stream k n ! i XOR b"
  have ys: "ys = map2 (XOR) (stream k n) (take n xs)" using assms crypt_stream by simp
  have "map2 (XOR) (stream k n) (take n (xs[i := b])) = ys[i := ?c]"
    using assms(2,3) by (intro nth_equalityI) (auto simp: ys stream_length nth_list_update)
  moreover have "?c \<noteq> ys ! i"
  proof
    assume "?c = ys ! i"
    then have "stream k n ! i XOR b = stream k n ! i XOR xs ! i" using ys assms(2,3) by (simp add: stream_length)
    then have "stream k n ! i XOR (stream k n ! i XOR b) = stream k n ! i XOR (stream k n ! i XOR xs ! i)" by simp
    then show False using assms(4) by (simp add: xor.assoc [symmetric])
  qed
  ultimately show ?thesis using assms(2) by (auto simp: crypt_stream)
qed

end

definition rc4_crypt :: "u8 list \<Rightarrow> nat \<Rightarrow> u8 list \<Rightarrow> u8 list option" where
  "rc4_crypt sbox n xs = rc4_loop n 0 0 sbox (Some xs)"

interpretation rc4: stream_cipher "\<lambda>sbox. rc4_stream sbox 0 0" rc4_crypt
  by unfold_locales (simp_all add: rc4_stream_length rc4_crypt_def rc4_loop_stream)


section \<open>The key schedule\<close>

text \<open>Only the first \<open>keyLength\<close> bytes of the seed are read.\<close>

lemma ksa_round_cong:
  assumes "take n s = take n t" "n \<le> length s" "n \<le> length t" "k < n"
  shows "ksa_round s n i (sbox, j, k) = ksa_round t n i (sbox, j, k)"
    and "snd (snd (ksa_round s n i (sbox, j, k))) < n"
proof -
  have "s ! k = t ! k" using assms(1,4) nth_take [OF assms(4), of s] nth_take [OF assms(4), of t] by simp
  then show "ksa_round s n i (sbox, j, k) = ksa_round t n i (sbox, j, k)" by (simp add: ksa_round_def)
  show "snd (snd (ksa_round s n i (sbox, j, k))) < n" using assms(4) by (simp add: ksa_round_def Let_def)
qed

lemma ksa_fold_cong:
  assumes "take n s = take n t" "n \<le> length s" "n \<le> length t"
  shows "k < n \<Longrightarrow> fold (ksa_round s n) is (sbox, j, k) = fold (ksa_round t n) is (sbox, j, k)"
proof (induction "is" arbitrary: sbox j k)
  case (Cons i js)
  obtain sbox1 j1 k1 where step: "ksa_round s n i (sbox, j, k) = (sbox1, j1, k1)"
    by (cases "ksa_round s n i (sbox, j, k)") auto
  then have "ksa_round t n i (sbox, j, k) = (sbox1, j1, k1)" "k1 < n"
    using ksa_round_cong [OF assms Cons.prems, of i sbox j] by (metis, metis snd_conv)
  with step Cons.IH show ?case by simp
qed simp

lemma rc4_ksa_cong:
  assumes "take n s = take n t" "n \<le> length s" "n \<le> length t" "0 < n"
  shows "rc4_ksa s n = rc4_ksa t n"
  unfolding rc4_ksa_def using ksa_fold_cong [OF assms(1-3), of 0] assms(4) by simp

text \<open>The box stays a permutation of the bytes, and every index stays inside it.\<close>

lemma rc4_swap_mset: "i < length sbox \<Longrightarrow> j < length sbox \<Longrightarrow> mset (rc4_swap i j sbox) = mset sbox"
  by (simp add: rc4_swap_def Let_def mset_swap)

lemma ksa_fold_mset:
  assumes "\<forall>i \<in> set is. i < 256"
  shows "length sbox = 256 \<Longrightarrow> mset (fst (fold (ksa_round seed n) is (sbox, j, k))) = mset sbox"
  using assms
proof (induction "is" arbitrary: sbox j k)
  case (Cons i js)
  obtain sbox1 j1 k1 where step: "ksa_round seed n i (sbox, j, k) = (sbox1, j1, k1)"
    by (cases "ksa_round seed n i (sbox, j, k)") auto
  have "unat j1 < 256" using unsigned_less [of j1] by simp
  with step Cons.prems have box: "mset sbox1 = mset sbox"
    by (auto simp: ksa_round_def Let_def rc4_swap_mset)
  with Cons.prems have "length sbox1 = 256" by (metis mset_eq_length)
  with box step Cons.prems Cons.IH show ?case by simp
qed simp

lemma rc4_ksa_perm: "mset (rc4_ksa seed n) = mset (map of_nat [0..<256])"
  unfolding rc4_ksa_def by (rule ksa_fold_mset) simp_all

section \<open>The authentication frame\<close>

lemma unat_key_length:
  fixes keyLen :: u32
  assumes "unat keyLen \<le> 13"
  shows "unat (keyLen + 3) = unat keyLen + 3" "keyLen + 3 - 3 = keyLen"
  using assms by (simp_all add: unat_word_ariths)

lemma lim_rc4_eq:
  "length seed = LIM_SEED_LENGTH \<Longrightarrow> unat frameLen \<le> 255 \<Longrightarrow>
   lim_rc4 (Some xs) seed keyLength frameLen = rc4_crypt (rc4_ksa seed (unat keyLength)) (unat frameLen) xs"
  by (simp add: lim_rc4_def rc4_crypt_def unsigned_ucast_eq take_bit_nat_eq_self)

lemma seed_with_key_eq:
  assumes "length seed = 16" "unat n \<le> 13" "unat n \<le> length pKey"
  shows "seed_with_key seed pKey n = Some (take 3 seed @ take (unat n) pKey @ drop (3 + unat n) seed)"
  using assms by (simp add: seed_with_key_def)

text \<open>A 140-byte body: 136 bytes of text and their check value.\<close>

lemma encrypt_eq:
  assumes "unat keyLen \<le> 13" "unat keyLen \<le> length pKey" "length junk = 16" "140 \<le> length pPlain"
  defines "seed \<equiv> take 3 junk @ take (unat keyLen) pKey @ drop (3 + unat keyLen) junk"
    and "plain \<equiv> take 136 pPlain @ crc32 (take 136 pPlain) @ drop 140 pPlain"
  shows "\<exists>enc. rc4_crypt (rc4_ksa seed (unat keyLen + 3)) 140 plain = Some enc \<and>
      lim_encrypt_auth_frame junk keyId pKey pPlain keyLen =
        Some ([seed ! 0, seed ! 1, seed ! 2, push_bit 6 keyId] @ enc, plain)"
proof -
  have seed: "seed_with_key junk pKey keyLen = Some seed"
    unfolding seed_def by (rule seed_with_key_eq) (use assms(1-3) in simp_all)
  have len: "length seed = 16" "length plain \<ge> 140" using assms(1-4) by (simp_all add: seed_def plain_def crc32_def)
  have crc: "lim_compute_crc32 pPlain 136 = Some (crc32 (take 136 pPlain))"
    using compute_crc32_eq [of 136 pPlain] assms(4) by simp
  have rc4: "lim_rc4 (Some plain) seed (keyLen + 3) 140 = rc4_crypt (rc4_ksa seed (unat keyLen + 3)) 140 plain"
    using lim_rc4_eq [of seed 140 plain "keyLen + 3"] len(1) unat_key_length [OF assms(1)]
    by (simp add: LIM_SEED_LENGTH_def)
  obtain enc where enc: "rc4_crypt (rc4_ksa seed (unat keyLen + 3)) 140 plain = Some enc"
    using rc4.crypt_stream [OF len(2)] by auto
  show ?thesis
    using assms(3,4) seed crc rc4 enc unat_key_length(2) [OF assms(1)] plain_def
    by (simp add: lim_encrypt_auth_frame_def LIM_SEED_LENGTH_def LIM_ENCR_AUTH_BODY_LEN_def auth_body_len_def)
qed

text \<open>Decryption of a body of at most 255 bytes, in terms of the cipher and the check value.\<close>

definition decrypt_check :: "nat \<Rightarrow> u8 list \<Rightarrow> decrypt_result" where
  "decrypt_check n plain =
     (if crc32 (take (n - 4) plain) = drop (n - 4) (take n plain) then eSIR_SUCCESS_DECRYPT
      else LIM_DECRYPT_ICV_FAIL)"

lemma icv_compare_eq:
  "pos + length icv \<le> length plain \<Longrightarrow>
   icv_compare plain pos icv =
     Some (if icv = take (length icv) (drop pos plain) then eSIR_SUCCESS_DECRYPT else LIM_DECRYPT_ICV_FAIL)"
proof (induction icv arbitrary: pos)
  case (Cons c icv)
  then have "drop pos plain = plain ! pos # drop (Suc pos) plain" by (simp add: Cons_nth_drop_Suc)
  with Cons show ?case by simp
qed simp

lemma decrypt_eq:
  assumes "unat keyLen \<le> 13" "unat keyLen \<le> length pKey" "length junk = 16" "4 + unat frameLen \<le> length body"
    and "unat frameLen \<le> length buf" "4 \<le> unat frameLen" "unat frameLen \<le> 255"
  defines "seed \<equiv> take 3 body @ take (unat keyLen) pKey @ drop (3 + unat keyLen) junk"
  shows "\<exists>out. rc4_crypt (rc4_ksa seed (unat keyLen + 3)) (unat frameLen) (drop 4 body) = Some out \<and>
      length out = unat frameLen \<and>
      lim_decrypt_auth_frame junk pKey body buf keyLen frameLen =
        Some (decrypt_check (unat frameLen) out, out @ drop (unat frameLen) buf)"
proof -
  have seed: "seed_with_key (take 3 body @ drop 3 junk) pKey keyLen = Some seed"
    using seed_with_key_eq [of "take 3 body @ drop 3 junk" keyLen pKey] assms(1-4) by (simp add: seed_def add.commute)
  have len: "length seed = 16" "unat frameLen \<le> length (drop 4 body)" using assms(1-4) by (simp_all add: seed_def)
  obtain out where out: "rc4_crypt (rc4_ksa seed (unat keyLen + 3)) (unat frameLen) (drop 4 body) = Some out"
    using rc4.crypt_stream [OF len(2)] by auto
  have out_len: "length out = unat frameLen" using rc4.crypt_twice(1) [OF out len(2)] .
  have rc4: "lim_rc4 (Some (drop 4 body)) seed (keyLen + 3) frameLen = Some out"
    using lim_rc4_eq [of seed frameLen "drop 4 body" "keyLen + 3"] len(1) out assms(7) unat_key_length [OF assms(1)]
    by (simp add: LIM_SEED_LENGTH_def)
  have "unat (frameLen - 4) = unat frameLen - 4" using assms(6) by (simp add: unat_sub word_le_nat_alt)
  then have n: "unat (ucast (frameLen - 4) :: u8) = unat frameLen - 4"
    using assms(7) by (simp add: unsigned_ucast_eq take_bit_nat_eq_self)
  have crc: "lim_compute_crc32 (out @ drop (unat frameLen) buf) (ucast (frameLen - 4)) =
      Some (crc32 (take (unat frameLen - 4) out))"
    using compute_crc32_eq [of "ucast (frameLen - 4)" "out @ drop (unat frameLen) buf"] out_len n by simp
  have icv: "icv_compare (out @ drop (unat frameLen) buf) (unat frameLen - 4) (crc32 (take (unat frameLen - 4) out)) =
      Some (decrypt_check (unat frameLen) out)"
    using out_len assms(6)
      icv_compare_eq [of "unat frameLen - 4" "crc32 (take (unat frameLen - 4) out)" "out @ drop (unat frameLen) buf"]
    by (simp add: decrypt_check_def crc32_def)
  have u8: "unat (ucast frameLen :: u8) = unat frameLen"
    using assms(7) by (simp add: unsigned_ucast_eq take_bit_nat_eq_self)
  have "\<not> frameLen < 4" using assms(6) by (simp add: word_less_nat_alt)
  with assms(3,4,5) u8 seed rc4 crc icv out out_len unat_key_length(2) [OF assms(1)] show ?thesis
    by (simp add: lim_decrypt_auth_frame_def LIM_SEED_LENGTH_def)
qed

lemma take_3_nths: "3 \<le> length xs \<Longrightarrow> take 3 ([xs ! 0, xs ! 1, xs ! 2, y] @ ys) = take 3 xs"
  by (cases xs; cases "tl xs"; cases "tl (tl xs)") (auto simp: numeral_3_eq_3)

lemma encrypt_decrypt:
  assumes "unat keyLen \<le> 13" "unat keyLen \<le> length pKey" "length junk = 16" "length junk' = 16"
    and "140 \<le> length pPlain" "140 \<le> length buf"
  shows "\<exists>body icv. length body = 144 \<and>
      lim_encrypt_auth_frame junk keyId pKey pPlain keyLen = Some (body, take 136 pPlain @ icv @ drop 140 pPlain) \<and>
      lim_decrypt_auth_frame junk' pKey body buf keyLen 140 =
        Some (eSIR_SUCCESS_DECRYPT, take 136 pPlain @ icv @ drop 140 buf)"
proof -
  let ?icv = "crc32 (take 136 pPlain)"
  let ?plain = "take 136 pPlain @ ?icv @ drop 140 pPlain"
  let ?seed = "take 3 junk @ take (unat keyLen) pKey @ drop (3 + unat keyLen) junk"
  let ?n = "unat keyLen + 3"
  obtain enc where enc: "rc4_crypt (rc4_ksa ?seed ?n) 140 ?plain = Some enc"
      "lim_encrypt_auth_frame junk keyId pKey pPlain keyLen =
        Some ([?seed ! 0, ?seed ! 1, ?seed ! 2, push_bit 6 keyId] @ enc, ?plain)"
    using encrypt_eq [OF assms(1-3,5)] by blast
  let ?body = "[?seed ! 0, ?seed ! 1, ?seed ! 2, push_bit 6 keyId] @ enc"
  let ?seed' = "take 3 ?body @ take (unat keyLen) pKey @ drop (3 + unat keyLen) junk'"
  have plain_len: "140 \<le> length ?plain" using assms(5) by (simp add: crc32_def)
  note twice = rc4.crypt_twice [OF enc(1) plain_len]
  have "take 3 ?body = take 3 ?seed" by (rule take_3_nths) (simp add: assms(3))
  then have "take 3 ?body = take 3 junk" using assms(3) by simp
  then have "take ?n ?seed = take ?n ?seed'" using assms(1-4) by simp
  then have "rc4_ksa ?seed ?n = rc4_ksa ?seed' ?n"
    by (rule rc4_ksa_cong) (use assms(1-4) in \<open>simp_all add: \<open>take 3 ?body = take 3 junk\<close>\<close>)
  then have dec: "rc4_crypt (rc4_ksa ?seed' ?n) 140 (drop 4 ?body) = Some (take 136 pPlain @ ?icv)"
    using twice(2) [of "[]"] assms(5) by (simp add: crc32_def)
  have check: "decrypt_check 140 (take 136 pPlain @ ?icv) = eSIR_SUCCESS_DECRYPT"
    using assms(5) by (simp add: decrypt_check_def crc32_def)
  have "lim_decrypt_auth_frame junk' pKey ?body buf keyLen 140 =
      Some (eSIR_SUCCESS_DECRYPT, (take 136 pPlain @ ?icv) @ drop 140 buf)"
    using decrypt_eq [OF assms(1,2,4), of 140 ?body buf] twice(1) assms(6) dec check by auto
  with enc(2) twice(1) show ?thesis by (intro exI [of _ ?body] exI [of _ ?icv]) simp
qed

lemma decrypt_check_change:
  assumes "decrypt_check n out = eSIR_SUCCESS_DECRYPT" "length out = n" "4 \<le> n" "i < n" "c \<noteq> out ! i"
  shows "decrypt_check n (out[i := c]) = LIM_DECRYPT_ICV_FAIL"
proof -
  have ok: "crc32 (take (n - 4) out) = drop (n - 4) out"
    using assms(1,2) by (simp add: decrypt_check_def split: if_splits)
  show ?thesis
  proof (cases "i < n - 4")
    case True
    then have "crc32 ((take (n - 4) out)[i := c]) \<noteq> crc32 (take (n - 4) out)"
      using assms(2,5) by (intro crc32_change) simp_all
    with ok True assms(2) show ?thesis by (simp add: decrypt_check_def take_update_swap drop_update_cancel)
  next
    case False
    then have "drop (n - 4) (out[i := c]) ! (i - (n - 4)) \<noteq> drop (n - 4) out ! (i - (n - 4))"
      using assms(2,4,5) by simp
    then have "drop (n - 4) (out[i := c]) \<noteq> crc32 (take (n - 4) out)" using ok by metis
    with False assms(2) show ?thesis by (simp add: decrypt_check_def take_update_cancel)
  qed
qed

text \<open>
  C26: An authentication body of 136 bytes that \<open>lim_encrypt_auth_frame\<close> encrypts with a key of at most
  thirteen bytes is decrypted by \<open>lim_decrypt_auth_frame\<close> with the same key to the same 136 bytes, and
  the check value is accepted, whatever the uninitialised bytes of the seeds are.
\<close>

theorem wep_roundtrip:
  assumes "unat keyLen \<le> 13" "unat keyLen \<le> length pKey" "length junk = 16" "length junk' = 16"
    and "140 \<le> length pPlain" "140 \<le> length buf"
  shows "\<exists>body icv. length body = 144 \<and>
      lim_encrypt_auth_frame junk keyId pKey pPlain keyLen = Some (body, take 136 pPlain @ icv @ drop 140 pPlain) \<and>
      lim_decrypt_auth_frame junk' pKey body buf keyLen 140 =
        Some (eSIR_SUCCESS_DECRYPT, take 136 pPlain @ icv @ drop 140 buf)"
  using encrypt_decrypt [OF assms] .

theorem wep_roundtrip_witness:
  "\<exists>body icv. length body = 144 \<and>
      lim_encrypt_auth_frame (replicate 16 9) 2 [1, 2, 3, 4, 5] (replicate 140 7) 5 =
        Some (body, replicate 136 7 @ icv) \<and>
      lim_decrypt_auth_frame (replicate 16 8) [1, 2, 3, 4, 5] body (replicate 140 0) 5 140 =
        Some (eSIR_SUCCESS_DECRYPT, replicate 136 7 @ icv)"
  using wep_roundtrip [of 5 "[1, 2, 3, 4, 5]" "replicate 16 9" "replicate 16 8" "replicate 140 7" "replicate 140 0" 2]
  by simp

text \<open>
  C20: If \<open>lim_decrypt_auth_frame\<close> accepts a body of at most 255 bytes, it rejects every body that differs
  from it in one byte after the four bytes of the initialisation vector.
\<close>

theorem wep_tamper_detected:
  assumes accepted: "lim_decrypt_auth_frame junk pKey body buf keyLen frameLen = Some (eSIR_SUCCESS_DECRYPT, plain)"
    and key: "unat keyLen \<le> 13" and len: "4 + unat frameLen \<le> length body" "unat frameLen \<le> 255"
    and change: "i < unat frameLen" "b \<noteq> body ! (4 + i)"
  shows "\<exists>plain'. lim_decrypt_auth_frame junk pKey (body[4 + i := b]) buf keyLen frameLen =
    Some (LIM_DECRYPT_ICV_FAIL, plain')"
proof -
  have u8: "unat (ucast frameLen :: u8) = unat frameLen"
    using len(2) by (simp add: unsigned_ucast_eq take_bit_nat_eq_self)
  have bounds: "length junk = 16" "unat keyLen \<le> length pKey" "unat frameLen \<le> length buf" "4 \<le> unat frameLen"
    using accepted u8 unat_key_length(2) [OF key]
    by (auto simp: lim_decrypt_auth_frame_def LIM_SEED_LENGTH_def seed_with_key_def word_less_nat_alt not_less
        Let_def split: if_splits Option.bind_splits)
  let ?box = "rc4_ksa (take 3 body @ take (unat keyLen) pKey @ drop (3 + unat keyLen) junk) (unat keyLen + 3)"
  obtain out where out: "rc4_crypt ?box (unat frameLen) (drop 4 body) = Some out" "length out = unat frameLen"
      "decrypt_check (unat frameLen) out = eSIR_SUCCESS_DECRYPT"
    using decrypt_eq [OF key bounds(2,1) len(1) bounds(3,4) len(2)] accepted by auto
  obtain c where c: "rc4_crypt ?box (unat frameLen) ((drop 4 body)[i := b]) = Some (out[i := c])" "c \<noteq> out ! i"
    using rc4.crypt_change [OF out(1) _ change(1), of b] len(1) change(2) by (fastforce simp: le_diff_conv2)
  have "drop 4 (body[4 + i := b]) = (drop 4 body)[i := b]" "take 3 (body[4 + i := b]) = take 3 body"
    by (simp_all add: drop_update_swap)
  with c(1) decrypt_eq [OF key bounds(2,1) _ bounds(3,4) len(2), of "body[4 + i := b]"] len(1)
    decrypt_check_change [OF out(3,2) bounds(4) change(1) c(2)]
  show ?thesis by auto
qed

theorem wep_tamper_detected_witness:
  "\<exists>body plain plain'.
      lim_decrypt_auth_frame (replicate 16 8) [1, 2, 3, 4, 5] body (replicate 140 0) 5 140 =
        Some (eSIR_SUCCESS_DECRYPT, plain) \<and>
      lim_decrypt_auth_frame (replicate 16 8) [1, 2, 3, 4, 5] (body[4 + 77 := body ! (4 + 77) + 1]) (replicate 140 0) 5 140 =
        Some (LIM_DECRYPT_ICV_FAIL, plain')"
proof -
  let ?dec = "\<lambda>body. lim_decrypt_auth_frame (replicate 16 8) [1, 2, 3, 4, 5] body (replicate 140 0) 5 140"
  obtain body plain where body: "length body = 144" "?dec body = Some (eSIR_SUCCESS_DECRYPT, plain)"
    using encrypt_decrypt [of 5 "[1, 2, 3, 4, 5]" "replicate 16 9" "replicate 16 8" "replicate 140 7" "replicate 140 0" 2]
    by auto
  have "\<exists>plain'. ?dec (body[4 + 77 := body ! (4 + 77) + 1]) = Some (LIM_DECRYPT_ICV_FAIL, plain')"
    by (rule wep_tamper_detected [OF body(2)]) (use body(1) in simp_all)
  with body(2) show ?thesis by blast
qed

text \<open>
  C33: \<open>lim_process_auth_frame\<close> passes a buffer of 256 bytes and the length of the received body. The cipher and
  the check value use the length modulo 256, the comparison the full length: from 260 bytes on, the cipher and the
  check value succeed and the comparison reads outside the buffer.
\<close>

theorem wep_long_body_overread:
  assumes key: "unat keyLen \<le> 13" "unat keyLen \<le> length pKey" and junk: "length junk = 16"
    and body: "260 \<le> unat frameLen" "4 + unat frameLen \<le> length body" and buf: "length buf = 256"
  shows "\<exists>seed out icv. seed_with_key (take 3 body @ drop 3 junk) pKey keyLen = Some seed \<and>
    lim_rc4 (Some (drop 4 body)) seed (keyLen + 3) frameLen = Some out \<and>
    lim_compute_crc32 (out @ drop (length out) buf) (ucast (frameLen - 4)) = Some icv \<and>
    icv_compare (out @ drop (length out) buf) (unat frameLen - 4) icv = None \<and>
    lim_decrypt_auth_frame junk pKey body buf keyLen frameLen = None"
proof -
  let ?n = "unat (ucast frameLen :: u8)"
  let ?seed = "take 3 body @ take (unat keyLen) pKey @ drop (3 + unat keyLen) junk"
  have seed: "seed_with_key (take 3 body @ drop 3 junk) pKey keyLen = Some ?seed"
    using seed_with_key_eq [of "take 3 body @ drop 3 junk" keyLen pKey] key junk body by (simp add: add.commute)
  have n: "?n \<le> 256" using unat_u8_less [of "ucast frameLen"] by linarith
  obtain out where out: "rc4_loop ?n 0 0 (rc4_ksa ?seed (unat (keyLen + 3))) (Some (drop 4 body)) = Some out"
    using rc4_loop_stream [of ?n "drop 4 body"] n body by auto
  have len: "length out = ?n" by (rule rc4_loop_length [OF out])
  have rc4: "lim_rc4 (Some (drop 4 body)) ?seed (keyLen + 3) frameLen = Some out"
    using out key junk body by (simp add: lim_rc4_def LIM_SEED_LENGTH_def)
  let ?plain = "out @ drop (length out) buf"
  have plain: "length ?plain = 256" unfolding length_append length_drop len buf using n by simp
  have "unat (ucast (frameLen - 4) :: u8) \<le> length ?plain" using unat_u8_less [of "ucast (frameLen - 4)"] plain by linarith
  then obtain c icv where icv: "lim_compute_crc32 ?plain (ucast (frameLen - 4)) = Some (c # icv)"
    by (simp add: lim_compute_crc32_def numeral_eq_Suc)
  have cmp: "icv_compare ?plain (unat frameLen - 4) (c # icv) = None"
  proof -
    have "length ?plain \<le> unat frameLen - 4" unfolding plain using body(1) by linarith
    then show ?thesis unfolding icv_compare.simps by (rule if_P)
  qed
  have "lim_decrypt_auth_frame junk pKey body buf keyLen frameLen = None"
    using seed rc4 icv cmp unat_key_length(2) [OF key(1)] by (simp add: lim_decrypt_auth_frame_def Let_def)
  with seed rc4 icv cmp show ?thesis by blast
qed

theorem wep_long_body_overread_witness:
  "lim_decrypt_auth_frame (replicate 16 0) [1, 2, 3, 4, 5] (replicate 300 0) (replicate 256 0) 5 280 = None"
  using wep_long_body_overread [of 5 "[1, 2, 3, 4, 5]" "replicate 16 0" 280 "replicate 300 0" "replicate 256 0"] by auto

end
