(* ===== verification/Pre_Auth.thy ===== *)
theory Pre_Auth
  imports Mac_Table Lim_Types
begin

text \<open>
  The pre-authentication list of the MAC layer (\<open>lim_security_utils.c\<close>, \<open>lim_assoc_utils.c\<close>) and the handlers
  of authentication frames that create and complete its entries (\<open>lim_process_auth_frame.c\<close>). The entries
  are the nodes of a fixed table, linked by \<open>pa_next\<close>; a node is named by its position in the table.
  \<open>None\<close> is an access outside the table or a loop that does not end. Frames that are sent
  are collected in \<open>auth_sent\<close>.
\<close>

unbundle bit_operations_syntax

section \<open>Data\<close>

definition SIR_MAC_AUTH_CHALLENGE_LENGTH :: nat where
  "SIR_MAC_AUTH_CHALLENGE_LENGTH = 128"

record auth_body =
  authAlgoNumber :: u16
  authTransactionSeqNumber :: u16
  authStatusCode :: u16
  ab_type :: u8
  ab_length :: u8
  ab_challengeText :: "u8 list"

record pre_auth_node =
  pa_next :: "nat option"
  peerMacAddr :: mac_addr
  pa_authType :: nat
  pa_mlmState :: nat
  authNodeIdx :: u8
  challengeText :: "u8 list"
  fTimerStarted :: bool
  fSeen :: bool
  fFree :: bool
  pa_timer :: tx_timer
  pa_seq_num :: u16
  pa_timestamp :: u64

record pre_auth =
  pLimPreAuthList :: "nat option"
  gLimNumPreAuthContexts :: u32
  numEntry :: u32
  pTable :: "pre_auth_node list"
  auth_sent :: "(auth_body \<times> mac_addr) list"

record mgmt_hdr =
  hdr_sa :: mac_addr
  hdr_wep :: bool
  seqNumHi :: u8
  seqNumLo :: u8

section \<open>The list\<close>

definition node_upd :: "nat \<Rightarrow> (pre_auth_node \<Rightarrow> pre_auth_node) \<Rightarrow> pre_auth \<Rightarrow> pre_auth" where
  "node_upd n f s = s\<lparr>pTable := (pTable s)[n := f (pTable s ! n)]\<rparr>"

definition lim_init_pre_auth_list :: "pre_auth \<Rightarrow> pre_auth" where
  "lim_init_pre_auth_list s = s\<lparr>pLimPreAuthList := None\<rparr>"

definition lim_release_pre_auth_node :: "nat \<Rightarrow> pre_auth \<Rightarrow> pre_auth option" where
  "lim_release_pre_auth_node n s =
     (if n < length (pTable s)
      then Some ((node_upd n (\<lambda>nd. nd\<lparr>fFree := True, pa_timer := tx_timer_deactivate (pa_timer nd)\<rparr>) s)
             \<lparr>gLimNumPreAuthContexts := gLimNumPreAuthContexts s - 1\<rparr>)
      else None)"

partial_function (option) delete_list_loop :: "nat option \<Rightarrow> pre_auth \<Rightarrow> pre_auth option" where
  "delete_list_loop p s =
     (case p of
        None \<Rightarrow> Some s
      | Some n \<Rightarrow>
          if n < length (pTable s)
          then let nxt = pa_next (pTable s ! n) in
               Option.bind (lim_release_pre_auth_node n s) (\<lambda>s1. delete_list_loop nxt s1)
          else None)"

definition lim_delete_pre_auth_list :: "pre_auth \<Rightarrow> pre_auth option" where
  "lim_delete_pre_auth_list s =
     map_option (\<lambda>s1. s1\<lparr>pLimPreAuthList := None\<rparr>) (delete_list_loop (pLimPreAuthList s) s)"

partial_function (option) search_loop :: "pre_auth_node list \<Rightarrow> mac_addr \<Rightarrow> nat option \<Rightarrow> nat option option" where
  "search_loop tbl macAddr p =
     (case p of
        None \<Rightarrow> Some None
      | Some n \<Rightarrow>
          if n < length tbl
          then if macAddr = peerMacAddr (tbl ! n) then Some (Some n)
               else search_loop tbl macAddr (pa_next (tbl ! n))
          else None)"

definition lim_search_pre_auth_list :: "mac_addr \<Rightarrow> pre_auth \<Rightarrow> nat option option" where
  "lim_search_pre_auth_list macAddr s = search_loop (pTable s) macAddr (pLimPreAuthList s)"

definition LIM_OPENAUTH_TIMEOUT :: u64 where
  "LIM_OPENAUTH_TIMEOUT = 500"

text \<open>The test for a stale node; the clock is read twice.\<close>

definition open_auth_stale :: "u64 \<times> u64 \<Rightarrow> pre_auth_node \<Rightarrow> bool" where
  "open_auth_stale ticks nd \<longleftrightarrow>
     pa_mlmState nd = eLIM_MLM_AUTHENTICATED_STATE \<and> pa_authType nd = eSIR_OPEN_SYSTEM \<and>
     (LIM_OPENAUTH_TIMEOUT + pa_timestamp nd < fst ticks \<or> snd ticks < pa_timestamp nd)"

text \<open>\<open>clk n\<close> are the two readings of the clock for node \<open>n\<close>.\<close>

partial_function (option) delete_open_loop ::
  "(nat \<Rightarrow> u64 \<times> u64) \<Rightarrow> nat option \<Rightarrow> nat option \<Rightarrow> bool \<Rightarrow> pre_auth \<Rightarrow> (bool \<times> pre_auth) option" where
  "delete_open_loop clk prev p found s =
     (case p of
        None \<Rightarrow> Some (found, s)
      | Some n \<Rightarrow>
          if n < length (pTable s)
          then let nxt = pa_next (pTable s ! n) in
               if open_auth_stale (clk n) (pTable s ! n)
               then if pLimPreAuthList s = Some n
                    then Option.bind (lim_release_pre_auth_node n (s\<lparr>pLimPreAuthList := nxt\<rparr>))
                           (\<lambda>s1. delete_open_loop clk nxt nxt True s1)
                    else (case prev of
                        None \<Rightarrow> None
                      | Some q \<Rightarrow>
                          if q < length (pTable s)
                          then Option.bind (lim_release_pre_auth_node n (node_upd q (\<lambda>nd. nd\<lparr>pa_next := nxt\<rparr>) s))
                                 (\<lambda>s1. delete_open_loop clk prev nxt True s1)
                          else None)
               else delete_open_loop clk (Some n) nxt found s
          else None)"

definition lim_delete_open_auth_pre_auth_node ::
  "(nat \<Rightarrow> u64 \<times> u64) \<Rightarrow> pre_auth \<Rightarrow> (bool \<times> pre_auth) option" where
  "lim_delete_open_auth_pre_auth_node clk s =
     delete_open_loop clk (pLimPreAuthList s) (pLimPreAuthList s) False s"

definition lim_add_pre_auth_node :: "nat \<Rightarrow> pre_auth \<Rightarrow> pre_auth" where
  "lim_add_pre_auth_node n s =
     (node_upd n (\<lambda>nd. nd\<lparr>pa_next := pLimPreAuthList s\<rparr>) s)
       \<lparr>gLimNumPreAuthContexts := gLimNumPreAuthContexts s + 1, pLimPreAuthList := Some n\<rparr>"

partial_function (option) delete_node_loop :: "mac_addr \<Rightarrow> nat \<Rightarrow> nat option \<Rightarrow> pre_auth \<Rightarrow> pre_auth option" where
  "delete_node_loop macAddr q p s =
     (case p of
        None \<Rightarrow> Some s
      | Some n \<Rightarrow>
          if n < length (pTable s)
          then let nxt = pa_next (pTable s ! n) in
               if macAddr = peerMacAddr (pTable s ! n)
               then lim_release_pre_auth_node n (node_upd q (\<lambda>nd. nd\<lparr>pa_next := nxt\<rparr>) s)
               else delete_node_loop macAddr n nxt s
          else None)"

definition lim_delete_pre_auth_node :: "mac_addr \<Rightarrow> pre_auth \<Rightarrow> pre_auth option" where
  "lim_delete_pre_auth_node macAddr s =
     (case pLimPreAuthList s of
        None \<Rightarrow> Some s
      | Some n \<Rightarrow>
          if n < length (pTable s)
          then let nxt = pa_next (pTable s ! n) in
               if macAddr = peerMacAddr (pTable s ! n)
               then lim_release_pre_auth_node n (s\<lparr>pLimPreAuthList := nxt\<rparr>)
               else delete_node_loop macAddr n nxt s
          else None)"

section \<open>The table of nodes\<close>

text \<open>
  \<open>create_ok i\<close>: the timer of node \<open>i\<close> can be created. \<open>cfg\<close> is the configured time-out, \<open>None\<close> if it
  cannot be read. The loop stops at the first timer that cannot be created.
\<close>

fun init_nodes :: "(nat \<Rightarrow> bool) \<Rightarrow> u32 \<Rightarrow> nat \<Rightarrow> pre_auth_node list \<Rightarrow> pre_auth_node list" where
  "init_nodes create_ok ticks i [] = []"
| "init_nodes create_ok ticks i (nd # nds) =
     (case tx_timer_create (create_ok i) True (of_nat i) (ucast ticks) 0 False (pa_timer nd) of
        (st, t) \<Rightarrow>
          if st \<noteq> TX_SUCCESS then nd\<lparr>pa_timer := t\<rparr> # nds
          else nd\<lparr>pa_timer := t, authNodeIdx := of_nat i, fFree := True\<rparr> # init_nodes create_ok ticks (i + 1) nds)"

definition lim_init_pre_auth_timer_table :: "(nat \<Rightarrow> bool) \<Rightarrow> u32 option \<Rightarrow> pre_auth \<Rightarrow> pre_auth option" where
  "lim_init_pre_auth_timer_table create_ok cfg s =
     (if length (pTable s) \<noteq> unat (numEntry s) then None
      else Some (case cfg of None \<Rightarrow> s
                 | Some v \<Rightarrow> s\<lparr>pTable := init_nodes create_ok (SYS_MS_TO_TICKS v) 0 (pTable s)\<rparr>))"

definition lim_acquire_free_pre_auth_node :: "pre_auth \<Rightarrow> (nat option \<times> pre_auth) option" where
  "lim_acquire_free_pre_auth_node s =
     (if length (pTable s) \<noteq> unat (numEntry s) then None
      else Some (case find (\<lambda>i. fFree (pTable s ! i)) [0..<unat (numEntry s)] of
                   Some i \<Rightarrow> (Some i, node_upd i (\<lambda>nd. nd\<lparr>fFree := False\<rparr>) s)
                 | None \<Rightarrow> (None, s)))"

definition lim_get_pre_auth_node_from_index :: "u32 \<Rightarrow> pre_auth \<Rightarrow> nat option" where
  "lim_get_pre_auth_node_from_index idx s = (if numEntry s \<le> idx then None else Some (unat idx))"

section \<open>Timers of the nodes\<close>

text \<open>\<open>cfg\<close> is what the local variable holds after the configuration was read.\<close>

definition lim_deactivate_and_change_auth_rsp_timer :: "u32 \<Rightarrow> u16 \<Rightarrow> pre_auth \<Rightarrow> pre_auth option" where
  "lim_deactivate_and_change_auth_rsp_timer cfg staId s =
     (case lim_get_pre_auth_node_from_index (ucast staId) s of
        None \<Rightarrow> Some s
      | Some n \<Rightarrow>
          if n < length (pTable s)
          then Some (node_upd n (\<lambda>nd. nd\<lparr>pa_timer :=
                 snd (tx_timer_change (ucast (SYS_MS_TO_TICKS cfg)) 0 (tx_timer_deactivate (pa_timer nd)))\<rparr>) s)
          else None)"

definition lim_activate_auth_rsp_timer :: "bool \<Rightarrow> nat \<Rightarrow> pre_auth \<Rightarrow> pre_auth" where
  "lim_activate_auth_rsp_timer start_ok n s =
     node_upd n (\<lambda>nd. nd\<lparr>pa_timer := snd (tx_timer_activate start_ok (pa_timer nd))\<rparr>) s"

section \<open>Authentication frames\<close>

definition lim_send_auth_mgmt_frame :: "auth_body \<Rightarrow> mac_addr \<Rightarrow> pre_auth \<Rightarrow> pre_auth" where
  "lim_send_auth_mgmt_frame frame peer s = s\<lparr>auth_sent := auth_sent s @ [(frame, peer)]\<rparr>"

definition hdr_seq_num :: "mgmt_hdr \<Rightarrow> u16" where
  "hdr_seq_num hdr = push_bit 4 (ucast (seqNumHi hdr)) OR ucast (seqNumLo hdr)"

definition auth_reply :: "u16 \<Rightarrow> u16 \<Rightarrow> u16 \<Rightarrow> auth_body \<Rightarrow> auth_body" where
  "auth_reply algo seq status frame =
     frame\<lparr>authAlgoNumber := algo, authTransactionSeqNumber := seq, authStatusCode := status\<rparr>"

definition lim_process_auth_open_system_algo ::
  "u64 \<Rightarrow> mgmt_hdr \<Rightarrow> auth_body \<Rightarrow> auth_body \<Rightarrow> pre_auth \<Rightarrow> pre_auth option" where
  "lim_process_auth_open_system_algo ticks hdr rx frame s =
     do {
       r \<leftarrow> lim_acquire_free_pre_auth_node s;
       case r of
         (None, s1) \<Rightarrow> Some s1
       | (Some n, s1) \<Rightarrow>
           let s2 = node_upd n (\<lambda>nd. nd\<lparr>peerMacAddr := hdr_sa hdr, pa_mlmState := eLIM_MLM_AUTHENTICATED_STATE,
                      pa_authType := unat (authAlgoNumber rx), fSeen := False, fTimerStarted := False,
                      pa_seq_num := hdr_seq_num hdr, pa_timestamp := ticks\<rparr>) s1;
               s3 = lim_add_pre_auth_node n s2
           in Some (lim_send_auth_mgmt_frame
                (auth_reply (authAlgoNumber rx) (authTransactionSeqNumber rx + 1) 0 frame) (hdr_sa hdr) s3)
     }"

text \<open>
  Frame 1 of shared-key authentication. \<open>privacy\<close> is the local variable \<open>val\<close>: the privacy flag of the
  session in the access-point role, otherwise what it holds after the configuration was read. \<open>challenge\<close>
  is the array of the caller after the random bytes were drawn. The size that is copied from it is that
  of a pointer, eight bytes on a 64-bit machine: the array is a parameter of the function.
\<close>

definition sizeof_pointer :: nat where
  "sizeof_pointer = 8"

definition start_challenge :: "bool \<Rightarrow> u8 list \<Rightarrow> nat \<Rightarrow> pre_auth \<Rightarrow> pre_auth" where
  "start_challenge start_ok challenge n s =
     (let s1 = lim_activate_auth_rsp_timer start_ok n s in
      node_upd n (\<lambda>nd. nd\<lparr>fTimerStarted := True,
        challengeText := take sizeof_pointer challenge @ drop sizeof_pointer (challengeText nd)\<rparr>) s1)"

definition lim_process_auth_shared_system_algo ::
  "u64 \<Rightarrow> u32 \<Rightarrow> bool \<Rightarrow> u8 list \<Rightarrow> mgmt_hdr \<Rightarrow> auth_body \<Rightarrow> auth_body \<Rightarrow> pre_auth \<Rightarrow> pre_auth option" where
  "lim_process_auth_shared_system_algo ticks privacy start_ok challenge hdr rx frame s =
     (let reply = (\<lambda>status. auth_reply (authAlgoNumber rx) (authTransactionSeqNumber rx + 1) status frame) in
      if (ucast privacy :: u8) = 0
      then Some (lim_send_auth_mgmt_frame (reply 13) (hdr_sa hdr) s)
      else do {
        r \<leftarrow> lim_acquire_free_pre_auth_node s;
        case r of
          (None, s1) \<Rightarrow> Some s1
        | (Some n, s1) \<Rightarrow>
            let s2 = node_upd n (\<lambda>nd. nd\<lparr>peerMacAddr := hdr_sa hdr, pa_mlmState := eLIM_MLM_WT_AUTH_FRAME3_STATE,
                       pa_authType := unat (authAlgoNumber rx), fSeen := False, fTimerStarted := False,
                       pa_seq_num := hdr_seq_num hdr, pa_timestamp := ticks\<rparr>) s1;
                s3 = lim_add_pre_auth_node n s2;
                tc = tx_timer_change_context (ucast (authNodeIdx (pTable s3 ! n))) (pa_timer (pTable s3 ! n));
                s4 = node_upd n (\<lambda>nd. nd\<lparr>pa_timer := snd tc\<rparr>) s3
            in if fst tc \<noteq> TX_SUCCESS
               then lim_delete_pre_auth_node (hdr_sa hdr) (lim_send_auth_mgmt_frame (reply 1) (hdr_sa hdr) s4)
               else let s5 = start_challenge start_ok challenge n s4 in
                 Some (lim_send_auth_mgmt_frame
                   ((reply 0)\<lparr>ab_type := 16, ab_length := of_nat SIR_MAC_AUTH_CHALLENGE_LENGTH,
                      ab_challengeText := challengeText (pTable s5 ! n)\<rparr>) (hdr_sa hdr) s5)
      })"

text \<open>Frame 3 of shared-key authentication.\<close>

definition lim_process_auth_frame_type3 ::
  "lim_role \<Rightarrow> u32 \<Rightarrow> mgmt_hdr \<Rightarrow> auth_body \<Rightarrow> auth_body \<Rightarrow> pre_auth \<Rightarrow> pre_auth option" where
  "lim_process_auth_frame_type3 role cfg hdr rx frame s =
     (let reject = (\<lambda>status. lim_send_auth_mgmt_frame (auth_reply (of_nat eSIR_SHARED_KEY) 4 status frame) (hdr_sa hdr)) in
      if authAlgoNumber rx \<noteq> of_nat eSIR_SHARED_KEY then Some (reject 14 s)
      else if role = eLIM_AP_ROLE \<or> role = eLIM_STA_IN_IBSS_ROLE then
        if \<not> hdr_wep hdr then Some (reject 15 s)
        else do {
          r \<leftarrow> lim_search_pre_auth_list (hdr_sa hdr) s;
          case r of
            None \<Rightarrow> Some (reject 14 s)
          | Some n \<Rightarrow>
              let nd = pTable s ! n in
              if pa_mlmState nd = eLIM_MLM_AUTH_RSP_TIMEOUT_STATE
              then lim_delete_pre_auth_node (hdr_sa hdr) (reject 16 s)
              else if authStatusCode rx \<noteq> 0 then Some s
              else if take SIR_MAC_AUTH_CHALLENGE_LENGTH (ab_challengeText rx) =
                      take SIR_MAC_AUTH_CHALLENGE_LENGTH (challengeText nd)
              then do {
                s1 \<leftarrow> lim_deactivate_and_change_auth_rsp_timer cfg (ucast (authNodeIdx nd)) s;
                Some (reject 0 (node_upd n (\<lambda>nd. nd\<lparr>fTimerStarted := False,
                  pa_mlmState := eLIM_MLM_AUTHENTICATED_STATE\<rparr>) s1))
              }
              else Some (lim_send_auth_mgmt_frame (auth_reply (authAlgoNumber rx) 4 15 frame) (hdr_sa hdr) s)
        }
      else Some s)"

section \<open>The invariant\<close>

abbreviation pa_nxt :: "pre_auth \<Rightarrow> nat \<Rightarrow> nat option" where
  "pa_nxt s n \<equiv> pa_next (pTable s ! n)"

text \<open>
  A node that has been set up: its timer exists and does not run while the node is free, and it knows
  its position.
\<close>

definition node_ok :: "nat \<Rightarrow> pre_auth_node \<Rightarrow> bool" where
  "node_ok n nd \<longleftrightarrow> timer_created (pa_timer nd) \<and> (fFree nd \<longrightarrow> \<not> tx_timer_running (pa_timer nd)) \<and>
     unat (authNodeIdx nd) = n \<and> length (challengeText nd) = SIR_MAC_AUTH_CHALLENGE_LENGTH"

text \<open>
  \<open>pa_inv s ns\<close>: the list holds the nodes \<open>ns\<close>, in this order; the counter counts them, exactly the
  other nodes of the table are free, and all nodes have been set up.
\<close>

definition pa_inv :: "pre_auth \<Rightarrow> nat list \<Rightarrow> bool" where
  "pa_inv s ns \<longleftrightarrow>
     chain (pa_nxt s) (pLimPreAuthList s) ns \<and> set ns \<subseteq> {..<length (pTable s)} \<and>
     length (pTable s) = unat (numEntry s) \<and> unat (gLimNumPreAuthContexts s) = length ns \<and>
     (\<forall>n < length (pTable s). fFree (pTable s ! n) = (n \<notin> set ns) \<and> node_ok n (pTable s ! n))"

lemma pa_invD:
  assumes "pa_inv s ns"
  shows "chain (pa_nxt s) (pLimPreAuthList s) ns" "n \<in> set ns \<Longrightarrow> n < length (pTable s)"
    "length (pTable s) = unat (numEntry s)" "unat (gLimNumPreAuthContexts s) = length ns" "distinct ns"
    "n < length (pTable s) \<Longrightarrow> fFree (pTable s ! n) = (n \<notin> set ns)"
    "n < length (pTable s) \<Longrightarrow> node_ok n (pTable s ! n)"
  using assms chain_distinct [of "pa_nxt s" "pLimPreAuthList s" ns] by (auto simp: pa_inv_def)

lemma pa_inv_unique: "pa_inv s ns \<Longrightarrow> pa_inv s ms \<Longrightarrow> ns = ms"
  by (auto simp: pa_inv_def intro: chain_unique)

lemma node_upd_simps [simp]:
  "pLimPreAuthList (node_upd n f s) = pLimPreAuthList s" "numEntry (node_upd n f s) = numEntry s"
  "gLimNumPreAuthContexts (node_upd n f s) = gLimNumPreAuthContexts s" "auth_sent (node_upd n f s) = auth_sent s"
  "length (pTable (node_upd n f s)) = length (pTable s)"
  by (simp_all add: node_upd_def)

lemma node_upd_nth:
  "m < length (pTable s) \<Longrightarrow> pTable (node_upd n f s) ! m = (if m = n then f (pTable s ! n) else pTable s ! m)"
  by (simp add: node_upd_def nth_list_update_if)

text \<open>Changing fields of a node other than its link and its free flag keeps the invariant.\<close>

lemma pa_inv_cong:
  assumes "pa_inv s ns" "pLimPreAuthList s' = pLimPreAuthList s" "numEntry s' = numEntry s"
    and "gLimNumPreAuthContexts s' = gLimNumPreAuthContexts s" "length (pTable s') = length (pTable s)"
    and "\<And>n. n < length (pTable s) \<Longrightarrow>
      pa_nxt s' n = pa_nxt s n \<and> fFree (pTable s' ! n) = fFree (pTable s ! n) \<and> node_ok n (pTable s' ! n)"
  shows "pa_inv s' ns"
proof -
  have "chain (pa_nxt s') (pLimPreAuthList s) ns = chain (pa_nxt s) (pLimPreAuthList s) ns"
    by (rule chain_cong) (use assms(1,6) pa_invD(2) in blast)
  with assms show ?thesis by (auto simp: pa_inv_def)
qed

lemma pa_inv_node_upd:
  assumes "pa_inv s ns" "\<And>nd. pa_next (f nd) = pa_next nd" "\<And>nd. fFree (f nd) = fFree nd"
    and "node_ok n (pTable s ! n) \<Longrightarrow> node_ok n (f (pTable s ! n))"
  shows "pa_inv (node_upd n f s) ns"
  by (rule pa_inv_cong [OF assms(1)]) (use assms(2-4) pa_invD(7) [OF assms(1)] in \<open>auto simp: node_upd_nth\<close>)

lemma pa_inv_sent [simp]: "pa_inv (lim_send_auth_mgmt_frame fr a s) ns = pa_inv s ns"
  by (simp add: pa_inv_def lim_send_auth_mgmt_frame_def)

lemma send_simps [simp]:
  "pTable (lim_send_auth_mgmt_frame fr a s) = pTable s"
  "pLimPreAuthList (lim_send_auth_mgmt_frame fr a s) = pLimPreAuthList s"
  "numEntry (lim_send_auth_mgmt_frame fr a s) = numEntry s"
  "gLimNumPreAuthContexts (lim_send_auth_mgmt_frame fr a s) = gLimNumPreAuthContexts s"
  "auth_sent (lim_send_auth_mgmt_frame fr a s) = auth_sent s @ [(fr, a)]"
  by (simp_all add: lim_send_auth_mgmt_frame_def)

section \<open>Unlinking\<close>

text \<open>The state in which the node after \<open>as\<close> is unlinked, as the three deleting functions do it.\<close>

definition unlinked :: "nat list \<Rightarrow> nat \<Rightarrow> pre_auth \<Rightarrow> pre_auth" where
  "unlinked as n s =
     (if as = [] then s\<lparr>pLimPreAuthList := pa_nxt s n\<rparr>
      else node_upd (last as) (\<lambda>nd. nd\<lparr>pa_next := pa_nxt s n\<rparr>) s)"

lemma unlinked_chain:
  assumes "pa_inv s (as @ n # bs)"
  shows "chain (pa_nxt (unlinked as n s)) (pLimPreAuthList (unlinked as n s)) (as @ bs)"
proof (cases as rule: rev_cases)
  case Nil
  then show ?thesis using pa_invD(1) [OF assms] by (simp add: unlinked_def)
next
  case (snoc cs q)
  note c = pa_invD(1) [OF assms]
  have q: "q < length (pTable s)" using pa_invD(2) [OF assms] snoc by simp
  have "chain ((pa_nxt s)(q := pa_nxt s n)) (pLimPreAuthList s) (cs @ q # bs)"
    by (rule chain_unlink) (use c snoc in simp)
  moreover have "chain (pa_nxt (unlinked as n s)) (pLimPreAuthList s) (cs @ q # bs) =
      chain ((pa_nxt s)(q := pa_nxt s n)) (pLimPreAuthList s) (cs @ q # bs)"
    by (rule chain_cong) (use pa_invD(2) [OF assms] snoc q in \<open>auto simp: unlinked_def node_upd_nth\<close>)
  ultimately show ?thesis using snoc by (simp add: unlinked_def)
qed

text \<open>A node without its link.\<close>

definition pa_core :: "pre_auth_node \<Rightarrow> pre_auth_node" where
  "pa_core nd = nd\<lparr>pa_next := None\<rparr>"

lemma pa_core_link [simp]: "pa_core (nd\<lparr>pa_next := p\<rparr>) = pa_core nd"
  by (simp add: pa_core_def)

lemma pa_core_eqD:
  assumes "pa_core nd = pa_core nd'"
  shows "peerMacAddr nd = peerMacAddr nd'" "pa_mlmState nd = pa_mlmState nd'" "challengeText nd = challengeText nd'"
    "fFree nd = fFree nd'" "authNodeIdx nd = authNodeIdx nd'" "pa_timer nd = pa_timer nd'"
    "pa_authType nd = pa_authType nd'"
  using arg_cong [OF assms, of peerMacAddr] arg_cong [OF assms, of pa_mlmState] arg_cong [OF assms, of challengeText]
    arg_cong [OF assms, of fFree] arg_cong [OF assms, of authNodeIdx] arg_cong [OF assms, of pa_timer]
    arg_cong [OF assms, of pa_authType]
  by (simp_all add: pa_core_def)

lemma node_ok_core: "pa_core nd = pa_core nd' \<Longrightarrow> node_ok n nd = node_ok n nd'"
  by (simp add: node_ok_def pa_core_eqD [of nd nd'])

lemma unlinked_nth:
  assumes "m < length (pTable s)"
  shows "pa_core (pTable (unlinked as n s) ! m) = pa_core (pTable s ! m)"
    and "m \<notin> set as \<Longrightarrow> pTable (unlinked as n s) ! m = pTable s ! m"
  using assms by (auto simp: unlinked_def node_upd_nth)

definition released :: "nat \<Rightarrow> pre_auth \<Rightarrow> pre_auth" where
  "released n s = the (lim_release_pre_auth_node n s)"

lemma unlink_release:
  assumes inv: "pa_inv s (as @ n # bs)"
  shows "lim_release_pre_auth_node n (unlinked as n s) = Some (released n (unlinked as n s))"
    and "pa_inv (released n (unlinked as n s)) (as @ bs)"
    and "\<And>m. m < length (pTable s) \<Longrightarrow> m \<noteq> n \<Longrightarrow>
      pa_core (pTable (released n (unlinked as n s)) ! m) = pa_core (pTable s ! m)"
    and "\<And>m. m \<in> set bs \<Longrightarrow> pTable (released n (unlinked as n s)) ! m = pTable s ! m"
    and "length (pTable (released n (unlinked as n s))) = length (pTable s)"
proof -
  let ?u = "unlinked as n s" and ?s = "released n (unlinked as n s)"
  have len [simp]: "length (pTable ?u) = length (pTable s)" "numEntry ?u = numEntry s"
      "gLimNumPreAuthContexts ?u = gLimNumPreAuthContexts s"
    by (simp_all add: unlinked_def)
  have n: "n < length (pTable s)" using pa_invD(2) [OF inv] by simp
  show rel: "lim_release_pre_auth_node n ?u = Some ?s" using n by (simp add: released_def lim_release_pre_auth_node_def)
  have eq: "?s = (node_upd n (\<lambda>nd. nd\<lparr>fFree := True, pa_timer := tx_timer_deactivate (pa_timer nd)\<rparr>) ?u)
      \<lparr>gLimNumPreAuthContexts := gLimNumPreAuthContexts s - 1\<rparr>"
    using n by (simp add: released_def lim_release_pre_auth_node_def)
  show len': "length (pTable ?s) = length (pTable s)" by (simp add: eq)
  have nth: "pTable ?s ! m = pTable ?u ! m" if "m < length (pTable s)" "m \<noteq> n" for m
    using that by (simp add: eq node_upd_nth)
  show other: "pa_core (pTable ?s ! m) = pa_core (pTable s ! m)" if "m < length (pTable s)" "m \<noteq> n" for m
    using that unlinked_nth(1) by (simp add: nth)
  have d: "distinct (as @ n # bs)" using pa_invD(5) [OF inv] .
  show "pTable ?s ! m = pTable s ! m" if m: "m \<in> set bs" for m
  proof -
    have "m \<noteq> n" "m \<notin> set as" "m < length (pTable s)" using m d pa_invD(2) [OF inv, of m] by auto
    then show ?thesis using unlinked_nth(2) nth by simp
  qed
  have nxt: "pa_nxt ?s m = pa_nxt ?u m" if "m < length (pTable s)" for m
    using that n by (cases "m = n") (simp_all add: eq node_upd_nth)
  have "chain (pa_nxt ?s) (pLimPreAuthList ?u) (as @ bs) = chain (pa_nxt ?u) (pLimPreAuthList ?u) (as @ bs)"
    by (rule chain_cong, rule nxt) (use pa_invD(2) [OF inv] in auto)
  then have chain: "chain (pa_nxt ?s) (pLimPreAuthList ?s) (as @ bs)" using unlinked_chain [OF inv] by (simp add: eq)
  have free: "fFree (pTable ?s ! m) = (m \<notin> set (as @ bs))" if m: "m < length (pTable s)" for m
  proof (cases "m = n")
    case True
    then show ?thesis using m d by (simp add: eq node_upd_nth)
  next
    case False
    have "fFree (pTable ?s ! m) = fFree (pTable s ! m)"
      by (rule pa_core_eqD(4) [OF other [OF m False]])
    then show ?thesis using False pa_invD(6) [OF inv m] by simp
  qed
  have ok: "node_ok m (pTable ?s ! m)" if m: "m < length (pTable s)" for m
  proof (cases "m = n")
    case True
    have "node_ok m (pTable ?u ! m)" using node_ok_core [OF unlinked_nth(1) [OF m]] pa_invD(7) [OF inv m] by blast
    with True m show ?thesis by (simp add: eq node_upd_nth node_ok_def)
  next
    case False
    then show ?thesis using node_ok_core [OF other [OF m False]] pa_invD(7) [OF inv m] by simp
  qed
  have "gLimNumPreAuthContexts s \<noteq> 0" using pa_invD(4) [OF inv] by auto
  then have count: "unat (gLimNumPreAuthContexts s - 1) = length (as @ bs)"
    using pa_invD(4) [OF inv] by (simp add: unat_minus_one)
  show "pa_inv ?s (as @ bs)"
    unfolding pa_inv_def using chain free ok count len' pa_invD(2,3) [OF inv] by (auto simp: eq)
qed

section \<open>Search and deletion\<close>

lemma search_loop_find:
  "chain (\<lambda>n. pa_next (tbl ! n)) p ns \<Longrightarrow> set ns \<subseteq> {..<length tbl} \<Longrightarrow>
   search_loop tbl a p = Some (find (\<lambda>n. a = peerMacAddr (tbl ! n)) ns)"
proof (induction ns arbitrary: p)
  case Nil
  then show ?case by (simp add: search_loop.simps [of tbl a None])
next
  case (Cons n ns)
  then show ?case by (simp add: search_loop.simps [of tbl a "Some n"])
qed

lemma search_find:
  "pa_inv s ns \<Longrightarrow> lim_search_pre_auth_list a s = Some (find (\<lambda>n. a = peerMacAddr (pTable s ! n)) ns)"
  unfolding lim_search_pre_auth_list_def by (rule search_loop_find) (auto simp: pa_inv_def)

text \<open>Removing the first element that has a property.\<close>

definition remove_first :: "('a \<Rightarrow> bool) \<Rightarrow> 'a list \<Rightarrow> 'a list" where
  "remove_first P xs = takeWhile (\<lambda>x. \<not> P x) xs @ tl (dropWhile (\<lambda>x. \<not> P x) xs)"

lemma remove_first_simps [simp]:
  "remove_first P [] = []"
  "remove_first P (x # xs) = (if P x then xs else x # remove_first P xs)"
  by (simp_all add: remove_first_def)

lemma remove_first_subset: "set (remove_first P xs) \<subseteq> set xs"
  by (induction xs) auto

lemma remove_first_filter:
  "\<lbrakk>\<And>x y. \<lbrakk>x \<in> set xs; y \<in> set xs; P x; P y\<rbrakk> \<Longrightarrow> x = y; distinct xs\<rbrakk> \<Longrightarrow>
   remove_first P xs = filter (\<lambda>x. \<not> P x) xs"
proof (induction xs)
  case (Cons x xs)
  have "filter (\<lambda>y. \<not> P y) xs = xs" if "P x"
    using that Cons.prems by (intro filter_True) (metis distinct.simps(2) list.set_intros(1,2))
  moreover have "remove_first P xs = filter (\<lambda>y. \<not> P y) xs" using Cons by simp
  ultimately show ?case by simp
qed simp

text \<open>What the deleting functions promise: the nodes that stay are unchanged but for their links.\<close>

definition keeps :: "nat list \<Rightarrow> pre_auth \<Rightarrow> pre_auth \<Rightarrow> bool" where
  "keeps ns s s' \<longleftrightarrow> length (pTable s') = length (pTable s) \<and>
     (\<forall>n \<in> set ns. pa_core (pTable s' ! n) = pa_core (pTable s ! n))"

lemma keeps_refl [simp]: "keeps ns s s"
  by (simp add: keeps_def)

lemma keeps_trans: "\<lbrakk>keeps ns s s'; keeps ns s' s''\<rbrakk> \<Longrightarrow> keeps ns s s''"
  by (simp add: keeps_def)

lemma keeps_subset: "\<lbrakk>keeps ns s s'; set ms \<subseteq> set ns\<rbrakk> \<Longrightarrow> keeps ms s s'"
  by (auto simp: keeps_def)

lemma keeps_core: "keeps ns s s' \<Longrightarrow> n \<in> set ns \<Longrightarrow> pa_core (pTable s' ! n) = pa_core (pTable s ! n)"
  by (simp add: keeps_def)

lemmas keeps_fields = pa_core_eqD [OF keeps_core]

lemma unlink_keeps:
  assumes "pa_inv s (as @ n # bs)"
  shows "keeps (as @ bs) s (released n (unlinked as n s))"
  using unlink_release(3,5) [OF assms] pa_invD(2,5) [OF assms] by (auto simp: keeps_def)

lemma delete_node_loop_correct:
  assumes inv: "pa_inv s (as @ bs)" and as: "as \<noteq> []"
  shows "\<exists>s'. delete_node_loop a (last as) (if bs = [] then None else Some (hd bs)) s = Some s' \<and>
    pa_inv s' (as @ remove_first (\<lambda>n. a = peerMacAddr (pTable s ! n)) bs) \<and>
    keeps (as @ remove_first (\<lambda>n. a = peerMacAddr (pTable s ! n)) bs) s s'"
  using assms
proof (induction bs arbitrary: as)
  case Nil
  then show ?case by (auto simp: delete_node_loop.simps [of a "last as" None])
next
  case (Cons n bs)
  have n: "n < length (pTable s)" using pa_invD(2) [OF Cons.prems(1)] by simp
  have nxt: "pa_nxt s n = (if bs = [] then None else Some (hd bs))"
    using chain_append_tail [OF pa_invD(1) [OF Cons.prems(1)]] by (cases bs) auto
  show ?case
  proof (cases "a = peerMacAddr (pTable s ! n)")
    case True
    then have "delete_node_loop a (last as) (Some n) s = Some (released n (unlinked as n s))"
      using n Cons.prems(2) unlink_release(1) [OF Cons.prems(1)]
      by (subst delete_node_loop.simps) (simp add: unlinked_def)
    with True unlink_release(2) [OF Cons.prems(1)] unlink_keeps [OF Cons.prems(1)] show ?thesis by simp
  next
    case False
    then show ?thesis
      using n Cons.IH [of "as @ [n]"] Cons.prems nxt
      by (simp add: delete_node_loop.simps [of a "last as" "Some n"])
  qed
qed

lemma delete_node_correct:
  assumes inv: "pa_inv s ns"
    and ms_def: "ms = remove_first (\<lambda>n. a = peerMacAddr (pTable s ! n)) ns"
  shows "\<exists>s'. lim_delete_pre_auth_node a s = Some s' \<and> pa_inv s' ms \<and> keeps ms s s'"
proof (cases ns)
  case Nil
  then show ?thesis using inv pa_invD(1) [OF inv] by (simp add: lim_delete_pre_auth_node_def ms_def)
next
  case (Cons n bs)
  have head: "pLimPreAuthList s = Some n" "chain (pa_nxt s) (pa_nxt s n) bs" using pa_invD(1) [OF inv] Cons by auto
  have n: "n < length (pTable s)" using pa_invD(2) [OF inv] Cons by simp
  have nxt: "pa_nxt s n = (if bs = [] then None else Some (hd bs))" using head(2) by (cases bs) auto
  show ?thesis
  proof (cases "a = peerMacAddr (pTable s ! n)")
    case True
    then show ?thesis
      using n head(1) Cons inv unlink_release(1,2) [of s "[]" n bs] unlink_keeps [of s "[]" n bs]
      by (simp add: lim_delete_pre_auth_node_def ms_def unlinked_def)
  next
    case False
    then show ?thesis
      using n head(1) nxt Cons inv delete_node_loop_correct [of s "[n]" bs a]
      by (simp add: lim_delete_pre_auth_node_def ms_def)
  qed
qed

text \<open>Deleting all stale nodes.\<close>

lemma delete_open_loop_correct:
  assumes inv: "pa_inv s (as @ bs)"
    and prev: "prev = (if as = [] then pLimPreAuthList s else Some (last as))"
    and P: "\<And>n. n \<in> set bs \<Longrightarrow> P n = open_auth_stale (clk n) (pTable s ! n)"
  shows "\<exists>s'. delete_open_loop clk prev (if bs = [] then None else Some (hd bs)) found s =
      Some (found \<or> (\<exists>n \<in> set bs. P n), s') \<and>
    pa_inv s' (as @ filter (\<lambda>n. \<not> P n) bs) \<and> keeps (as @ filter (\<lambda>n. \<not> P n) bs) s s'"
  using assms
proof (induction bs arbitrary: as s prev found)
  case Nil
  have "delete_open_loop clk prev None found s = Some (found, s)" by (subst delete_open_loop.simps) simp
  with Nil show ?case by simp
next
  case (Cons n bs)
  note inv = Cons.prems(1)
  have n: "n < length (pTable s)" using pa_invD(2) [OF inv] by simp
  have nxt: "pa_nxt s n = (if bs = [] then None else Some (hd bs))"
    using chain_append_tail [OF pa_invD(1) [OF inv]] by (cases bs) auto
  show ?case
  proof (cases "P n")
    case True
    let ?r = "released n (unlinked as n s)"
    let ?prev = "if as = [] then pa_nxt s n else Some (last as)"
    have stale: "open_auth_stale (clk n) (pTable s ! n)" using True Cons.prems(3) by simp
    have first: "pLimPreAuthList s = Some n \<longleftrightarrow> as = []"
      using pa_invD(1,5) [OF inv] by (cases as) auto
    have last: "as \<noteq> [] \<Longrightarrow> last as < length (pTable s)" using pa_invD(2) [OF inv] by simp
    have step: "delete_open_loop clk prev (Some n) found s = delete_open_loop clk ?prev (pa_nxt s n) True ?r"
      using n stale first last Cons.prems(2) unlink_release(1) [OF inv]
      by (subst delete_open_loop.simps) (auto simp: unlinked_def Let_def)
    have "?prev = (if as = [] then pLimPreAuthList ?r else Some (last as))"
      using pa_invD(1) [OF unlink_release(2) [OF inv]] nxt by (cases bs) auto
    moreover have "P m = open_auth_stale (clk m) (pTable ?r ! m)" if "m \<in> set bs" for m
      using Cons.prems(3) [of m] unlink_release(4) [OF inv that] that by simp
    ultimately obtain s' where s': "delete_open_loop clk ?prev (pa_nxt s n) True ?r = Some (True, s')"
        "pa_inv s' (as @ filter (\<lambda>n. \<not> P n) bs)" "keeps (as @ filter (\<lambda>n. \<not> P n) bs) ?r s'"
      using Cons.IH [OF unlink_release(2) [OF inv], of ?prev True] nxt by auto
    moreover have "keeps (as @ filter (\<lambda>n. \<not> P n) bs) s ?r"
      by (rule keeps_subset [OF unlink_keeps [OF inv]]) auto
    ultimately show ?thesis using True step by (auto intro: keeps_trans)
  next
    case False
    have stale: "\<not> open_auth_stale (clk n) (pTable s ! n)" using False Cons.prems(3) by simp
    have step: "delete_open_loop clk prev (Some n) found s = delete_open_loop clk (Some n) (pa_nxt s n) found s"
      using n stale by (subst delete_open_loop.simps) simp
    show ?thesis using Cons.IH [of s "as @ [n]" "Some n" found] inv Cons.prems(3) False step nxt by simp
  qed
qed

lemma delete_open_correct:
  assumes inv: "pa_inv s ns" and ms: "ms = filter (\<lambda>n. \<not> open_auth_stale (clk n) (pTable s ! n)) ns"
  shows "\<exists>s'. lim_delete_open_auth_pre_auth_node clk s = Some (ms \<noteq> ns, s') \<and> pa_inv s' ms \<and> keeps ms s s'"
proof -
  have head: "pLimPreAuthList s = (if ns = [] then None else Some (hd ns))" using pa_invD(1) [OF inv] by (cases ns) auto
  have "(\<exists>n \<in> set ns. open_auth_stale (clk n) (pTable s ! n)) = (ms \<noteq> ns)"
    unfolding ms by (metis (mono_tags, lifting) filter_True mem_Collect_eq set_filter)
  then show ?thesis
    using delete_open_loop_correct [of s "[]" ns "pLimPreAuthList s" "\<lambda>n. open_auth_stale (clk n) (pTable s ! n)" clk False]
      inv head ms
    by (simp add: lim_delete_open_auth_pre_auth_node_def)
qed

text \<open>Deleting the whole list: every node is released, whatever its link.\<close>

lemma release_tail:
  assumes "pa_inv s (n # ns)"
  shows "pa_inv ((released n s)\<lparr>pLimPreAuthList := pa_nxt s n\<rparr>) ns"
    and "lim_release_pre_auth_node n s = Some (released n s)"
proof -
  have n: "n < length (pTable s)" using pa_invD(2) [OF assms] by simp
  have "released n (unlinked [] n s) = (released n s)\<lparr>pLimPreAuthList := pa_nxt s n\<rparr>"
    using n by (simp add: released_def unlinked_def lim_release_pre_auth_node_def node_upd_def)
  with unlink_release(2) [of s "[]" n ns] assms
  show "pa_inv ((released n s)\<lparr>pLimPreAuthList := pa_nxt s n\<rparr>) ns" by simp
  show "lim_release_pre_auth_node n s = Some (released n s)"
    using n by (simp add: released_def lim_release_pre_auth_node_def)
qed

lemma delete_list_loop_correct:
  "pa_inv (s\<lparr>pLimPreAuthList := p\<rparr>) ns \<Longrightarrow>
   \<exists>s'. delete_list_loop p s = Some s' \<and> pa_inv (s'\<lparr>pLimPreAuthList := None\<rparr>) []"
proof (induction ns arbitrary: s p)
  case Nil
  then have "p = None" using pa_invD(1) by fastforce
  with Nil show ?case by (simp add: delete_list_loop.simps [of None])
next
  case (Cons n ns)
  let ?s = "s\<lparr>pLimPreAuthList := p\<rparr>"
  have p: "p = Some n" "n < length (pTable s)" using pa_invD(1,2) [OF Cons.prems] by auto
  have "released n ?s = (released n s)\<lparr>pLimPreAuthList := p\<rparr>"
    using p(2) by (simp add: released_def lim_release_pre_auth_node_def node_upd_def)
  then have "pa_inv ((released n s)\<lparr>pLimPreAuthList := pa_nxt s n\<rparr>) ns"
    using release_tail(1) [OF Cons.prems] by simp
  from Cons.IH [OF this] obtain s' where s': "delete_list_loop (pa_nxt s n) (released n s) = Some s'"
      "pa_inv (s'\<lparr>pLimPreAuthList := None\<rparr>) []" by blast
  have "lim_release_pre_auth_node n s = Some (released n s)"
    using p(2) by (simp add: released_def lim_release_pre_auth_node_def)
  with s' p show ?case by (simp add: delete_list_loop.simps [of "Some n"])
qed

lemma delete_list_correct: "pa_inv s ns \<Longrightarrow> \<exists>s'. lim_delete_pre_auth_list s = Some s' \<and> pa_inv s' []"
  using delete_list_loop_correct [of "pLimPreAuthList s" s ns] by (auto simp: lim_delete_pre_auth_list_def)

section \<open>Acquiring and adding\<close>

text \<open>A free node is found exactly when the counter is below the number of nodes.\<close>

lemma acquire_cases:
  assumes inv: "pa_inv s ns"
  obtains (full) "lim_acquire_free_pre_auth_node s = Some (None, s)" "gLimNumPreAuthContexts s = numEntry s"
  | (node) n where "lim_acquire_free_pre_auth_node s = Some (Some n, node_upd n (\<lambda>nd. nd\<lparr>fFree := False\<rparr>) s)"
      "n < length (pTable s)" "n \<notin> set ns" "gLimNumPreAuthContexts s < numEntry s"
proof -
  note I = pa_invD [OF inv]
  show thesis
  proof (cases "find (\<lambda>i. fFree (pTable s ! i)) [0..<unat (numEntry s)]")
    case None
    then have "\<forall>i < length (pTable s). i \<in> set ns" using I(3,6) by (auto simp: find_upt_None_iff)
    then have "set ns = {..<length (pTable s)}" using I(2) by auto
    then have "length ns = length (pTable s)" using I(5) by (metis card_lessThan distinct_card)
    then have "gLimNumPreAuthContexts s = numEntry s" using I(3,4) by (simp add: word_unat_eq_iff)
    with None I(3) full show thesis by (simp add: lim_acquire_free_pre_auth_node_def)
  next
    case (Some n)
    then have n: "n < length (pTable s)" "n \<notin> set ns" using I(3,6) by (auto simp: find_upt_Some_iff)
    then have "set ns \<subset> {..<length (pTable s)}" using I(2) by auto
    then have "card (set ns) < length (pTable s)" by (metis card_lessThan finite_lessThan psubset_card_mono)
    then have "gLimNumPreAuthContexts s < numEntry s" using I(3-5) by (simp add: word_less_nat_alt distinct_card)
    with Some I(3) n node show thesis by (simp add: lim_acquire_free_pre_auth_node_def)
  qed
qed

text \<open>Filling in an acquired node and putting it at the front of the list.\<close>

lemma add_acquired:
  assumes inv: "pa_inv s ns" and n: "n < length (pTable s)" "n \<notin> set ns"
    and room: "gLimNumPreAuthContexts s < numEntry s"
    and f: "\<And>nd. fFree (f nd) = fFree nd" "\<And>nd. node_ok n nd \<Longrightarrow> node_ok n (f nd)"
  defines "s' \<equiv> lim_add_pre_auth_node n (node_upd n f (node_upd n (\<lambda>nd. nd\<lparr>fFree := False\<rparr>) s))"
  shows "pa_inv s' (n # ns)"
    and "\<And>m. m < length (pTable s) \<Longrightarrow> m \<noteq> n \<Longrightarrow> pTable s' ! m = pTable s ! m"
    and "pTable s' ! n = (f ((pTable s ! n)\<lparr>fFree := False\<rparr>))\<lparr>pa_next := pLimPreAuthList s\<rparr>"
    and "length (pTable s') = length (pTable s)" "auth_sent s' = auth_sent s" "pLimPreAuthList s' = Some n"
proof -
  show other: "pTable s' ! m = pTable s ! m" if "m < length (pTable s)" "m \<noteq> n" for m
    using that by (simp add: s'_def lim_add_pre_auth_node_def node_upd_nth)
  show self: "pTable s' ! n = (f ((pTable s ! n)\<lparr>fFree := False\<rparr>))\<lparr>pa_next := pLimPreAuthList s\<rparr>"
    using n by (simp add: s'_def lim_add_pre_auth_node_def node_upd_nth)
  show len: "length (pTable s') = length (pTable s)" and "auth_sent s' = auth_sent s" and hd: "pLimPreAuthList s' = Some n"
    by (simp_all add: s'_def lim_add_pre_auth_node_def)
  have "chain (pa_nxt s') (pLimPreAuthList s) ns = chain (pa_nxt s) (pLimPreAuthList s) ns"
    by (rule chain_cong) (use other n(2) pa_invD(2) [OF inv] in metis)
  then have "chain (pa_nxt s') (pLimPreAuthList s') (n # ns)" using pa_invD(1) [OF inv] self hd by simp
  moreover have "unat (gLimNumPreAuthContexts s') = length (n # ns)"
    using unat_Suc_word [OF room] pa_invD(4) [OF inv] by (simp add: s'_def lim_add_pre_auth_node_def)
  moreover have "fFree (pTable s' ! m) = (m \<notin> set (n # ns))" if "m < length (pTable s)" for m
    using that other [of m] self f(1) pa_invD(6) [OF inv that] by (cases "m = n") auto
  moreover have "node_ok m (pTable s' ! m)" if "m < length (pTable s)" for m
  proof (cases "m = n")
    case True
    then have "node_ok n (f ((pTable s ! n)\<lparr>fFree := False\<rparr>))"
      using f(2) pa_invD(7) [OF inv that] by (simp add: node_ok_def)
    with True self show ?thesis by (simp add: node_ok_def)
  qed (use that other [of m] pa_invD(7) [OF inv that] in simp)
  moreover have "numEntry s' = numEntry s" by (simp add: s'_def lim_add_pre_auth_node_def)
  ultimately show "pa_inv s' (n # ns)" using len n pa_invD(2,3) [OF inv] unfolding pa_inv_def by auto
qed

section \<open>The handlers\<close>

text \<open>An open-system request creates an authenticated entry, or does nothing when the table is full.\<close>

definition auth_entry :: "nat \<Rightarrow> nat \<Rightarrow> mgmt_hdr \<Rightarrow> auth_body \<Rightarrow> pre_auth_node \<Rightarrow> bool" where
  "auth_entry n state hdr rx nd \<longleftrightarrow>
     peerMacAddr nd = hdr_sa hdr \<and> pa_mlmState nd = state \<and> pa_authType nd = unat (authAlgoNumber rx) \<and>
     unat (authNodeIdx nd) = n"

lemma open_algo_cases:
  assumes inv: "pa_inv s ns"
  obtains (full) "lim_process_auth_open_system_algo ticks hdr rx frame s = Some s" "gLimNumPreAuthContexts s = numEntry s"
  | (entry) n s' where "lim_process_auth_open_system_algo ticks hdr rx frame s = Some s'" "pa_inv s' (n # ns)" "n \<notin> set ns"
      "gLimNumPreAuthContexts s < numEntry s" "auth_entry n eLIM_MLM_AUTHENTICATED_STATE hdr rx (pTable s' ! n)"
      "\<forall>m < length (pTable s). m \<noteq> n \<longrightarrow> pTable s' ! m = pTable s ! m" "length (pTable s') = length (pTable s)"
      "auth_sent s' = auth_sent s @ [(auth_reply (authAlgoNumber rx) (authTransactionSeqNumber rx + 1) 0 frame, hdr_sa hdr)]"
      "map_option fst (lim_acquire_free_pre_auth_node s) = Some (Some n)"
proof (cases rule: acquire_cases [OF inv])
  case 1
  then show ?thesis using full by (simp add: lim_process_auth_open_system_algo_def)
next
  case (2 n)
  let ?f = "\<lambda>nd. nd\<lparr>peerMacAddr := hdr_sa hdr, pa_mlmState := eLIM_MLM_AUTHENTICATED_STATE,
      pa_authType := unat (authAlgoNumber rx), fSeen := False, fTimerStarted := False,
      pa_seq_num := hdr_seq_num hdr, pa_timestamp := ticks\<rparr>"
  let ?s3 = "lim_add_pre_auth_node n (node_upd n ?f (node_upd n (\<lambda>nd. nd\<lparr>fFree := False\<rparr>) s))"
  let ?s' = "lim_send_auth_mgmt_frame
      (auth_reply (authAlgoNumber rx) (authTransactionSeqNumber rx + 1) 0 frame) (hdr_sa hdr) ?s3"
  have f: "fFree (?f nd) = fFree nd" "node_ok n nd \<Longrightarrow> node_ok n (?f nd)" for nd by (simp_all add: node_ok_def)
  note add = add_acquired [OF inv 2(2-4) f]
  have run: "lim_process_auth_open_system_algo ticks hdr rx frame s = Some ?s'"
    using 2(1) by (simp add: lim_process_auth_open_system_algo_def Let_def)
  have "auth_entry n eLIM_MLM_AUTHENTICATED_STATE hdr rx (pTable ?s' ! n)"
    using add(3) pa_invD(7) [OF inv 2(2)] by (simp add: auth_entry_def node_ok_def)
  moreover have "\<forall>m < length (pTable s). m \<noteq> n \<longrightarrow> pTable ?s' ! m = pTable s ! m" using add(2) by simp
  ultimately show ?thesis using add(1,4,5) 2(1,3,4) by (intro entry [OF run]) simp_all
qed

text \<open>
  A shared-key request is refused without privacy; otherwise it creates an entry that waits for frame 3
  and sends its challenge text, or does nothing when the table is full.
\<close>

lemma change_context_ok:
  assumes "node_ok n nd" "fFree nd"
  shows "fst (tx_timer_change_context c (pa_timer nd)) = TX_SUCCESS"
  using assms by (simp add: node_ok_def timer_change_iff)

lemma start_challenge_correct:
  assumes inv: "pa_inv s (n # ns)" and len: "8 \<le> length challenge"
  shows "pa_inv (start_challenge start_ok challenge n s) (n # ns)"
    and "\<And>m. m < length (pTable s) \<Longrightarrow> m \<noteq> n \<Longrightarrow> pTable (start_challenge start_ok challenge n s) ! m = pTable s ! m"
    and "challengeText (pTable (start_challenge start_ok challenge n s) ! n) =
      take 8 challenge @ drop 8 (challengeText (pTable s ! n))"
    and "auth_entry n st hdr rx (pTable (start_challenge start_ok challenge n s) ! n) = auth_entry n st hdr rx (pTable s ! n)"
    and "auth_sent (start_challenge start_ok challenge n s) = auth_sent s"
    and "length (pTable (start_challenge start_ok challenge n s)) = length (pTable s)"
proof -
  have n: "n < length (pTable s)" "\<not> fFree (pTable s ! n)" using pa_invD(2,6) [OF inv] by simp_all
  have "pa_inv (lim_activate_auth_rsp_timer start_ok n s) (n # ns)"
    unfolding lim_activate_auth_rsp_timer_def
    by (rule pa_inv_node_upd [OF inv]) (use n in \<open>simp_all add: node_ok_def\<close>)
  then show "pa_inv (start_challenge start_ok challenge n s) (n # ns)"
    unfolding start_challenge_def Let_def
    by (rule pa_inv_node_upd) (use len in \<open>simp_all add: node_ok_def sizeof_pointer_def SIR_MAC_AUTH_CHALLENGE_LENGTH_def\<close>)
qed (use pa_invD(2) [OF inv, of n] in
  \<open>simp_all add: start_challenge_def lim_activate_auth_rsp_timer_def node_upd_nth sizeof_pointer_def auth_entry_def\<close>)

lemma shared_algo_cases:
  assumes inv: "pa_inv s ns" and len: "8 \<le> length challenge"
  obtains (refused) "lim_process_auth_shared_system_algo ticks privacy start_ok challenge hdr rx frame s =
        Some (lim_send_auth_mgmt_frame
          (auth_reply (authAlgoNumber rx) (authTransactionSeqNumber rx + 1) 13 frame) (hdr_sa hdr) s)"
      "(ucast privacy :: u8) = 0"
  | (full) "lim_process_auth_shared_system_algo ticks privacy start_ok challenge hdr rx frame s = Some s"
      "(ucast privacy :: u8) \<noteq> 0" "gLimNumPreAuthContexts s = numEntry s"
  | (entry) n s' where "lim_process_auth_shared_system_algo ticks privacy start_ok challenge hdr rx frame s = Some s'"
      "(ucast privacy :: u8) \<noteq> 0" "pa_inv s' (n # ns)" "n \<notin> set ns" "gLimNumPreAuthContexts s < numEntry s"
      "auth_entry n eLIM_MLM_WT_AUTH_FRAME3_STATE hdr rx (pTable s' ! n)"
      "challengeText (pTable s' ! n) = take 8 challenge @ drop 8 (challengeText (pTable s ! n))"
      "\<forall>m < length (pTable s). m \<noteq> n \<longrightarrow> pTable s' ! m = pTable s ! m" "length (pTable s') = length (pTable s)"
      "auth_sent s' = auth_sent s @
        [((auth_reply (authAlgoNumber rx) (authTransactionSeqNumber rx + 1) 0 frame)
            \<lparr>ab_type := 16, ab_length := 128, ab_challengeText := challengeText (pTable s' ! n)\<rparr>, hdr_sa hdr)]"
proof (cases "(ucast privacy :: u8) = 0")
  case True
  then show ?thesis using refused by (simp add: lim_process_auth_shared_system_algo_def)
next
  case priv: False
  show ?thesis
  proof (cases rule: acquire_cases [OF inv])
    case 1
    then show ?thesis using full priv by (simp add: lim_process_auth_shared_system_algo_def)
  next
    case (2 n)
    let ?f = "\<lambda>nd. nd\<lparr>peerMacAddr := hdr_sa hdr, pa_mlmState := eLIM_MLM_WT_AUTH_FRAME3_STATE,
        pa_authType := unat (authAlgoNumber rx), fSeen := False, fTimerStarted := False,
        pa_seq_num := hdr_seq_num hdr, pa_timestamp := ticks\<rparr>"
    let ?s3 = "lim_add_pre_auth_node n (node_upd n ?f (node_upd n (\<lambda>nd. nd\<lparr>fFree := False\<rparr>) s))"
    let ?tc = "tx_timer_change_context (ucast (authNodeIdx (pTable ?s3 ! n))) (pa_timer (pTable ?s3 ! n))"
    let ?s4 = "node_upd n (\<lambda>nd. nd\<lparr>pa_timer := snd ?tc\<rparr>) ?s3"
    let ?s5 = "start_challenge start_ok challenge n ?s4"
    let ?frame = "(auth_reply (authAlgoNumber rx) (authTransactionSeqNumber rx + 1) 0 frame)
      \<lparr>ab_type := 16, ab_length := 128, ab_challengeText := challengeText (pTable ?s5 ! n)\<rparr>"
    have f: "fFree (?f nd) = fFree nd" "node_ok n nd \<Longrightarrow> node_ok n (?f nd)" for nd by (simp_all add: node_ok_def)
    note add = add_acquired [OF inv 2(2-4) f]
    have old: "node_ok n (pTable s ! n)" "fFree (pTable s ! n)" using pa_invD(6,7) [OF inv 2(2)] 2(3) by simp_all
    have tc: "fst ?tc = TX_SUCCESS" using change_context_ok [OF old] add(3) by simp
    have s4: "pa_inv ?s4 (n # ns)"
      by (rule pa_inv_node_upd [OF add(1)]) (use old add(3) in \<open>simp_all add: node_ok_def\<close>)
    note ch = start_challenge_correct [OF s4 len]
    have run: "lim_process_auth_shared_system_algo ticks privacy start_ok challenge hdr rx frame s =
        Some (lim_send_auth_mgmt_frame ?frame (hdr_sa hdr) ?s5)"
      using 2(1) priv tc by (simp add: lim_process_auth_shared_system_algo_def Let_def SIR_MAC_AUTH_CHALLENGE_LENGTH_def)
    have nth: "pTable ?s4 ! n = (pTable ?s3 ! n)\<lparr>pa_timer := snd ?tc\<rparr>" using 2(2) add(4) by (simp add: node_upd_nth)
    have other: "pTable ?s5 ! m = pTable s ! m" if "m < length (pTable s)" "m \<noteq> n" for m
      using ch(2) [of m] add(2,4) that by (simp add: node_upd_nth)
    have entry4: "auth_entry n eLIM_MLM_WT_AUTH_FRAME3_STATE hdr rx (pTable ?s5 ! n)"
      unfolding ch(4) using nth add(3) old by (simp add: auth_entry_def node_ok_def)
    have chal: "challengeText (pTable ?s5 ! n) = take 8 challenge @ drop 8 (challengeText (pTable s ! n))"
      using ch(3) nth add(3) by simp
    show ?thesis
      by (rule entry [OF run priv, of n])
        (use ch(1,5,6) 2(3,4) entry4 chal other add(4,5) in \<open>simp_all only: pa_inv_sent send_simps node_upd_simps, auto\<close>)
  qed
qed

text \<open>The response timer of a listed node is stopped and set up again.\<close>

lemma rsp_timer_correct:
  assumes inv: "pa_inv s ns" and n: "n < length (pTable s)"
  shows "\<exists>s'. lim_deactivate_and_change_auth_rsp_timer cfg (ucast (authNodeIdx (pTable s ! n))) s = Some s' \<and>
    pa_inv s' ns \<and> length (pTable s') = length (pTable s) \<and> auth_sent s' = auth_sent s \<and>
    (\<forall>m < length (pTable s). m \<noteq> n \<longrightarrow> pTable s' ! m = pTable s ! m) \<and>
    (\<exists>t. pTable s' ! n = (pTable s ! n)\<lparr>pa_timer := t\<rparr> \<and> \<not> tx_timer_running t)"
proof -
  let ?i = "ucast (ucast (authNodeIdx (pTable s ! n)) :: u16) :: u32"
  let ?f = "\<lambda>nd. nd\<lparr>pa_timer := snd (tx_timer_change (ucast (SYS_MS_TO_TICKS cfg)) 0 (tx_timer_deactivate (pa_timer nd)))\<rparr>"
  have idx: "unat (authNodeIdx (pTable s ! n)) = n" using pa_invD(7) [OF inv n] by (simp add: node_ok_def)
  have i: "unat ?i = n" using idx by simp
  then have get: "lim_get_pre_auth_node_from_index ?i s = Some n"
    using n pa_invD(3) [OF inv] by (simp add: lim_get_pre_auth_node_from_index_def word_le_nat_alt)
  have "pa_inv (node_upd n ?f s) ns" by (rule pa_inv_node_upd [OF inv]) (simp_all add: node_ok_def)
  with get n show ?thesis
    by (auto simp: lim_deactivate_and_change_auth_rsp_timer_def node_upd_nth intro!: exI)
qed

text \<open>
  Frame 3. The entry of the sender becomes authenticated when the frame is encrypted, has the status
  success and carries the challenge text of the entry.
\<close>

definition frame3_accepted :: "lim_role \<Rightarrow> mgmt_hdr \<Rightarrow> auth_body \<Rightarrow> pre_auth_node \<Rightarrow> bool" where
  "frame3_accepted role hdr rx nd \<longleftrightarrow>
     authAlgoNumber rx = of_nat eSIR_SHARED_KEY \<and> (role = eLIM_AP_ROLE \<or> role = eLIM_STA_IN_IBSS_ROLE) \<and>
     hdr_wep hdr \<and> peerMacAddr nd = hdr_sa hdr \<and> pa_mlmState nd \<noteq> eLIM_MLM_AUTH_RSP_TIMEOUT_STATE \<and>
     authStatusCode rx = 0 \<and>
     take SIR_MAC_AUTH_CHALLENGE_LENGTH (ab_challengeText rx) =
       take SIR_MAC_AUTH_CHALLENGE_LENGTH (challengeText nd)"

lemma frame3_accept:
  assumes inv: "pa_inv s ns" and found: "lim_search_pre_auth_list (hdr_sa hdr) s = Some (Some n)"
    and acc: "frame3_accepted role hdr rx (pTable s ! n)"
  shows "\<exists>s'. lim_process_auth_frame_type3 role cfg hdr rx frame s = Some s' \<and> pa_inv s' ns \<and>
    pa_mlmState (pTable s' ! n) = eLIM_MLM_AUTHENTICATED_STATE \<and> \<not> fTimerStarted (pTable s' ! n) \<and>
    \<not> tx_timer_running (pa_timer (pTable s' ! n)) \<and>
    (\<forall>m < length (pTable s). m \<noteq> n \<longrightarrow> pTable s' ! m = pTable s ! m) \<and>
    auth_sent s' = auth_sent s @ [(auth_reply 1 4 0 frame, hdr_sa hdr)]"
proof -
  have n: "n < length (pTable s)"
    using found search_find [OF inv] pa_invD(2) [OF inv, of n] find_split by fastforce
  let ?g = "\<lambda>nd. nd\<lparr>fTimerStarted := False, pa_mlmState := eLIM_MLM_AUTHENTICATED_STATE\<rparr>"
  obtain s1 t where s1: "lim_deactivate_and_change_auth_rsp_timer cfg (ucast (authNodeIdx (pTable s ! n))) s = Some s1"
      "pa_inv s1 ns" "length (pTable s1) = length (pTable s)" "auth_sent s1 = auth_sent s"
      "\<forall>m < length (pTable s). m \<noteq> n \<longrightarrow> pTable s1 ! m = pTable s ! m"
      "pTable s1 ! n = (pTable s ! n)\<lparr>pa_timer := t\<rparr>" "\<not> tx_timer_running t"
    using rsp_timer_correct [OF inv n] by metis
  have "pa_inv (node_upd n ?g s1) ns" by (rule pa_inv_node_upd [OF s1(2)]) (simp_all add: node_ok_def)
  with s1 n acc found show ?thesis
    by (simp add: lim_process_auth_frame_type3_def frame3_accepted_def Let_def eSIR_SHARED_KEY_def node_upd_nth)
qed

lemma frame3_reject:
  assumes inv: "pa_inv s ns"
    and "\<And>n. lim_search_pre_auth_list (hdr_sa hdr) s = Some (Some n) \<Longrightarrow> \<not> frame3_accepted role hdr rx (pTable s ! n)"
  shows "\<exists>s' ms. lim_process_auth_frame_type3 role cfg hdr rx frame s = Some s' \<and> pa_inv s' ms \<and>
    set ms \<subseteq> set ns \<and> keeps ms s s'"
proof -
  obtain r where r: "lim_search_pre_auth_list (hdr_sa hdr) s = Some r" using search_find [OF inv] by blast
  have same: "\<exists>s' ms. Some (lim_send_auth_mgmt_frame fr a s) = Some s' \<and> pa_inv s' ms \<and> set ms \<subseteq> set ns \<and> keeps ms s s'"
    for fr a
    by (intro exI [of _ "lim_send_auth_mgmt_frame fr a s"] exI [of _ ns]) (simp add: inv keeps_def)
  have id: "\<exists>s' ms. Some s = Some s' \<and> pa_inv s' ms \<and> set ms \<subseteq> set ns \<and> keeps ms s s'" using inv by auto
  have del: "\<exists>s' ms. lim_delete_pre_auth_node (hdr_sa hdr) (lim_send_auth_mgmt_frame fr a s) = Some s' \<and> pa_inv s' ms \<and>
      set ms \<subseteq> set ns \<and> keeps ms s s'" for fr a
  proof -
    have "pa_inv (lim_send_auth_mgmt_frame fr a s) ns" using inv by simp
    from delete_node_correct [OF this refl, of "hdr_sa hdr"] show ?thesis
      using remove_first_subset by (fastforce simp: keeps_def)
  qed
  show ?thesis
    using r assms(2) same id del
    by (cases r) (auto simp: lim_process_auth_frame_type3_def frame3_accepted_def Let_def search_find [OF inv]
        dest: find_split simp del: send_simps)
qed

section \<open>Histories\<close>

lemma init_nodes_correct:
  assumes "ticks \<noteq> 0"
  shows "length (init_nodes (\<lambda>_. True) ticks i nds) = length nds"
    and "\<lbrakk>i + length nds \<le> 256; k < length nds; length (challengeText (nds ! k)) = 128\<rbrakk> \<Longrightarrow>
      node_ok (i + k) (init_nodes (\<lambda>_. True) ticks i nds ! k) \<and> fFree (init_nodes (\<lambda>_. True) ticks i nds ! k)"
proof -
  have 0: "(ucast ticks :: u64) \<noteq> 0"
  proof
    assume "(ucast ticks :: u64) = 0"
    then have "unat (ucast ticks :: u64) = 0" by simp
    then have "unat ticks mod 2 ^ 64 = 0" by (simp add: unsigned_ucast_eq take_bit_eq_mod)
    moreover have "unat ticks < 2 ^ 64" using unsigned_less [of ticks, where ?'a = nat] by simp
    ultimately show False using assms by (simp add: unat_eq_zero)
  qed
  show "length (init_nodes (\<lambda>_. True) ticks i nds) = length nds"
    by (induction nds arbitrary: i) (auto simp: tx_timer_create_def Let_def 0)
  show "\<lbrakk>i + length nds \<le> 256; k < length nds; length (challengeText (nds ! k)) = 128\<rbrakk> \<Longrightarrow>
      node_ok (i + k) (init_nodes (\<lambda>_. True) ticks i nds ! k) \<and> fFree (init_nodes (\<lambda>_. True) ticks i nds ! k)"
  proof (induction nds arbitrary: i k)
    case (Cons nd nds)
    show ?case
    proof (cases k)
      case 0
      with Cons.prems \<open>(ucast ticks :: u64) \<noteq> 0\<close> show ?thesis
        by (simp add: tx_timer_create_def Let_def node_ok_def timer_created_def tx_timer_running_def
            SIR_MAC_AUTH_CHALLENGE_LENGTH_def unat_of_nat)
    next
      case (Suc j)
      with Cons.IH [of "Suc i" j] Cons.prems 0 show ?thesis by (simp add: tx_timer_create_def Let_def)
    qed
  qed simp
qed

text \<open>The table as it is allocated, and after all its timers could be created.\<close>

definition pa_boot :: "pre_auth \<Rightarrow> bool" where
  "pa_boot s \<longleftrightarrow> pLimPreAuthList s = None \<and> gLimNumPreAuthContexts s = 0 \<and>
     length (pTable s) = unat (numEntry s) \<and> numEntry s \<le> 256 \<and> list_all (\<lambda>nd. length (challengeText nd) = 128) (pTable s)"

inductive pa_start :: "pre_auth \<Rightarrow> bool" where
  "\<lbrakk>pa_boot s; 10 \<le> cfg; lim_init_pre_auth_timer_table (\<lambda>_. True) (Some cfg) s = Some s'\<rbrakk> \<Longrightarrow> pa_start s'"

inductive pa_step :: "pre_auth \<Rightarrow> pre_auth \<Rightarrow> bool" where
  open_request: "lim_process_auth_open_system_algo ticks hdr rx frame s = Some s' \<Longrightarrow> pa_step s s'"
| shared_request: "\<lbrakk>length challenge = SIR_MAC_AUTH_CHALLENGE_LENGTH;
    lim_process_auth_shared_system_algo ticks privacy start_ok challenge hdr rx frame s = Some s'\<rbrakk> \<Longrightarrow> pa_step s s'"
| frame3: "lim_process_auth_frame_type3 role cfg hdr rx frame s = Some s' \<Longrightarrow> pa_step s s'"
| delete: "lim_delete_pre_auth_node a s = Some s' \<Longrightarrow> pa_step s s'"
| stale: "lim_delete_open_auth_pre_auth_node clk s = Some (found, s') \<Longrightarrow> pa_step s s'"
| clear: "lim_delete_pre_auth_list s = Some s' \<Longrightarrow> pa_step s s'"

inductive_cases pa_startE: "pa_start s"
inductive_cases pa_stepE: "pa_step s s'"

definition pa_consistent :: "pre_auth \<Rightarrow> bool" where
  "pa_consistent s \<longleftrightarrow> (\<exists>ns. pa_inv s ns)"

lemma boot_consistent:
  assumes "pa_boot s" "10 \<le> cfg" "lim_init_pre_auth_timer_table (\<lambda>_. True) (Some cfg) s = Some s'"
  shows "pa_inv s' []"
proof -
  have "10 \<le> unat cfg" using assms(2) by (simp add: word_le_nat_alt)
  then have "unat (SYS_MS_TO_TICKS cfg) \<noteq> 0" by (simp add: SYS_MS_TO_TICKS_def unat_div div_eq_0_iff)
  then have ticks: "SYS_MS_TO_TICKS cfg \<noteq> 0" by (metis unat_0)
  have s': "s' = s\<lparr>pTable := init_nodes (\<lambda>_. True) (SYS_MS_TO_TICKS cfg) 0 (pTable s)\<rparr>"
    using assms(3) by (auto simp: lim_init_pre_auth_timer_table_def split: if_splits)
  have "length (pTable s) \<le> 256" using assms(1) by (simp add: pa_boot_def word_le_nat_alt)
  then have "node_ok k (pTable s' ! k) \<and> fFree (pTable s' ! k)" if "k < length (pTable s)" for k
    using init_nodes_correct(2) [OF ticks, of 0 "pTable s" k] that assms(1) s' by (simp add: pa_boot_def list_all_length)
  with assms(1) s' init_nodes_correct(1) [OF ticks] show ?thesis by (simp add: pa_inv_def pa_boot_def)
qed

lemma step_consistent:
  assumes "pa_consistent s" "pa_step s s'"
  shows "pa_consistent s'"
proof -
  obtain ns where inv: "pa_inv s ns" using assms(1) by (auto simp: pa_consistent_def)
  from assms(2) show ?thesis
  proof (cases rule: pa_step.cases)
    case (open_request ticks hdr rx frame)
    then show ?thesis
      using inv by (cases rule: open_algo_cases [OF inv, of ticks hdr rx frame]) (auto simp: pa_consistent_def)
  next
    case (shared_request challenge ticks privacy start_ok hdr rx frame)
    then have "8 \<le> length challenge" by (simp add: SIR_MAC_AUTH_CHALLENGE_LENGTH_def)
    then show ?thesis
      using shared_request(2) inv
      by (cases rule: shared_algo_cases [OF inv, of challenge ticks privacy start_ok hdr rx frame])
        (auto simp: pa_consistent_def)
  next
    case (frame3 role cfg hdr rx frame)
    show ?thesis
    proof (cases "\<exists>n. lim_search_pre_auth_list (hdr_sa hdr) s = Some (Some n) \<and> frame3_accepted role hdr rx (pTable s ! n)")
      case True
      then show ?thesis using frame3_accept [OF inv, of hdr _ role rx cfg frame] frame3 by (auto simp: pa_consistent_def)
    next
      case False
      then show ?thesis using frame3_reject [OF inv, of hdr role rx cfg frame] frame3 by (auto simp: pa_consistent_def)
    qed
  next
    case (delete a)
    then show ?thesis using delete_node_correct [OF inv refl, of a] by (auto simp: pa_consistent_def)
  next
    case (stale clk found)
    then show ?thesis using delete_open_correct [OF inv refl, of clk] by (auto simp: pa_consistent_def)
  next
    case clear
    then show ?thesis using delete_list_correct [OF inv] by (auto simp: pa_consistent_def)
  qed
qed

lemma start_consistent: "pa_start s \<Longrightarrow> pa_consistent s"
  by (auto simp: pa_consistent_def intro: boot_consistent elim!: pa_startE)

interpretation pa_machine: machine pa_start pa_step pa_consistent
  by unfold_locales (rule start_consistent, assumption, rule step_consistent)

section \<open>The list as a table of stations\<close>

abbreviation pa_addr :: "pre_auth \<Rightarrow> nat \<Rightarrow> mac_addr" where
  "pa_addr s n \<equiv> peerMacAddr (pTable s ! n)"

definition pa_table :: "pre_auth \<Rightarrow> bool" where
  "pa_table s \<longleftrightarrow> (\<exists>ns. pa_inv s ns \<and> inj_on (pa_addr s) (set ns))"

definition pa_lookup :: "pre_auth \<Rightarrow> mac_addr \<Rightarrow> nat option" where
  "pa_lookup s a = (case lim_search_pre_auth_list a s of Some r \<Rightarrow> r | None \<Rightarrow> None)"

text \<open>An open-system request that is answered with node \<open>k\<close>, from a station that has no entry.\<close>

definition plain_hdr :: "mac_addr \<Rightarrow> mgmt_hdr" where
  "plain_hdr a = \<lparr>hdr_sa = a, hdr_wep = False, seqNumHi = 0, seqNumLo = 0\<rparr>"

definition open_body :: auth_body where
  "open_body = \<lparr>authAlgoNumber = 0, authTransactionSeqNumber = 1, authStatusCode = 0, ab_type = 0, ab_length = 0,
     ab_challengeText = []\<rparr>"

definition pa_request :: "mac_addr \<Rightarrow> nat \<Rightarrow> pre_auth \<Rightarrow> pre_auth option" where
  "pa_request a k s =
     (if pa_lookup s a = None \<and> map_option fst (lim_acquire_free_pre_auth_node s) = Some (Some k)
      then lim_process_auth_open_system_algo 0 (plain_hdr a) open_body open_body s else None)"

definition pa_delete :: "mac_addr \<Rightarrow> pre_auth \<Rightarrow> pre_auth" where
  "pa_delete a s = (case lim_delete_pre_auth_node a s of Some s' \<Rightarrow> s' | None \<Rightarrow> s)"

lemma lookup_iff:
  assumes "pa_inv s ns" "inj_on (pa_addr s) (set ns)"
  shows "pa_lookup s a = Some n \<longleftrightarrow> n \<in> set ns \<and> a = pa_addr s n"
proof -
  have "pa_lookup s a = find (\<lambda>n. a = pa_addr s n) ns" using search_find [OF assms(1)] by (simp add: pa_lookup_def)
  also have "\<dots> = Some n \<longleftrightarrow> n \<in> set ns \<and> a = pa_addr s n"
    by (rule find_unique) (use assms(2) in \<open>auto simp: inj_on_def\<close>)
  finally show ?thesis .
qed

lemma lookup_cong:
  assumes "pa_inv s ns" "inj_on (pa_addr s) (set ns)" "pa_inv s' ms" "inj_on (pa_addr s') (set ms)"
    and "\<And>a n. (n \<in> set ms \<and> a = pa_addr s' n) \<longleftrightarrow> f a = Some n"
  shows "pa_lookup s' = f"
proof
  fix a
  show "pa_lookup s' a = f a"
    using lookup_iff [OF assms(3,4), of a] assms(5) [of _ a] by (cases "f a"; cases "pa_lookup s' a") auto
qed

lemma request_correct:
  assumes inv: "pa_inv s ns" "inj_on (pa_addr s) (set ns)" and req: "pa_request a k s = Some s'"
  shows "pa_inv s' (k # ns)" "inj_on (pa_addr s') (set (k # ns))" "k \<notin> set ns" "pa_addr s' k = a"
    "\<And>m. m \<in> set ns \<Longrightarrow> pa_addr s' m = pa_addr s m" "pa_lookup s a = None"
proof -
  have none: "pa_lookup s a = None" and acq: "map_option fst (lim_acquire_free_pre_auth_node s) = Some (Some k)"
    and run: "lim_process_auth_open_system_algo 0 (plain_hdr a) open_body open_body s = Some s'"
    using req by (auto simp: pa_request_def split: if_splits)
  have all: "pa_inv s' (k # ns) \<and> k \<notin> set ns \<and> pa_addr s' k = a \<and> (\<forall>m \<in> set ns. pa_addr s' m = pa_addr s m)"
  proof (cases rule: open_algo_cases [OF inv(1), of 0 "plain_hdr a" open_body open_body])
    case 1
    then show ?thesis using acq by (cases rule: acquire_cases [OF inv(1)]) auto
  next
    case (2 n t)
    with acq run have eq: "n = k" "t = s'" by simp_all
    with 2 have "pTable s' ! m = pTable s ! m" if "m \<in> set ns" for m using that pa_invD(2) [OF inv(1)] by metis
    with 2 eq show ?thesis by (simp add: auth_entry_def plain_hdr_def)
  qed
  then show "pa_inv s' (k # ns)" "k \<notin> set ns" "pa_addr s' k = a"
      and old: "\<And>m. m \<in> set ns \<Longrightarrow> pa_addr s' m = pa_addr s m" by auto
  show "pa_lookup s a = None" by (rule none)
  have "a \<noteq> pa_addr s m" if "m \<in> set ns" for m using none lookup_iff [OF inv, of a m] that by auto
  with all have "pa_addr s' k \<notin> pa_addr s' ` set ns" by (metis (no_types, lifting) imageE)
  moreover have "inj_on (pa_addr s') (set ns)" using inv(2) old by (simp add: inj_on_def)
  ultimately show "inj_on (pa_addr s') (set (k # ns))" by auto
qed

lemma delete_correct:
  assumes inv: "pa_inv s ns" "inj_on (pa_addr s) (set ns)" and ms: "ms = filter (\<lambda>n. a \<noteq> pa_addr s n) ns"
  shows "lim_delete_pre_auth_node a s = Some (pa_delete a s)" "pa_inv (pa_delete a s) ms"
    "inj_on (pa_addr (pa_delete a s)) (set ms)" "\<And>m. m \<in> set ms \<Longrightarrow> pa_addr (pa_delete a s) m = pa_addr s m"
proof -
  have "remove_first (\<lambda>n. a = pa_addr s n) ns = ms"
    unfolding ms by (rule remove_first_filter) (use inv(2) pa_invD(5) [OF inv(1)] in \<open>auto simp: inj_on_def\<close>)
  then obtain s' where s': "lim_delete_pre_auth_node a s = Some s'" "pa_inv s' ms" "keeps ms s s'"
    using delete_node_correct [OF inv(1) refl, of a] by auto
  then have eq: "pa_delete a s = s'" by (simp add: pa_delete_def)
  show "lim_delete_pre_auth_node a s = Some (pa_delete a s)" "pa_inv (pa_delete a s) ms" using s' eq by simp_all
  show addr: "pa_addr (pa_delete a s) m = pa_addr s m" if "m \<in> set ms" for m
    unfolding eq by (rule keeps_fields(1) [OF s'(3) that])
  show "inj_on (pa_addr (pa_delete a s)) (set ms)"
    using inv(2) addr by (auto simp: inj_on_def ms)
qed

interpretation pa: mac_table pa_table pa_lookup pa_request pa_delete
proof
  fix t t' a k
  assume "pa_table t" and add: "pa_request a k t = Some t'"
  then obtain ns where ns: "pa_inv t ns" "inj_on (pa_addr t) (set ns)" by (auto simp: pa_table_def)
  note r = request_correct [OF ns add]
  show "pa_table t'" using r(1,2) by (auto simp: pa_table_def)
  show "pa_lookup t' = (pa_lookup t)(a \<mapsto> k)"
  proof (rule lookup_cong [OF ns r(1,2)])
    have "a \<noteq> pa_addr t m" if "m \<in> set ns" for m using r(6) lookup_iff [OF ns, of a m] that by auto
    then show "(n \<in> set (k # ns) \<and> b = pa_addr t' n) = (((pa_lookup t)(a \<mapsto> k)) b = Some n)" for b n
      using r(3-5) lookup_iff [OF ns, of b n] by (cases "n = k"; cases "b = a") (simp_all, metis+)
  qed
  show "pa_lookup t a = None \<and> k \<notin> ran (pa_lookup t)" using r(3,6) lookup_iff [OF ns] by (auto simp: ran_def)
next
  fix t a
  assume "pa_table t"
  then obtain ns where ns: "pa_inv t ns" "inj_on (pa_addr t) (set ns)" by (auto simp: pa_table_def)
  note d = delete_correct [OF ns refl, where a = a]
  show "pa_table (pa_delete a t)" using d(2,3) by (auto simp: pa_table_def)
  show "pa_lookup (pa_delete a t) = (pa_lookup t)(a := None)"
    by (rule lookup_cong [OF ns d(2,3)]) (use d(4) lookup_iff [OF ns] in auto)
next
  fix t
  assume "pa_table t"
  then obtain ns where ns: "pa_inv t ns" "inj_on (pa_addr t) (set ns)" by (auto simp: pa_table_def)
  show "inj_on (pa_lookup t) (dom (pa_lookup t))"
    by (rule inj_onI) (metis domD lookup_iff [OF ns])
qed

section \<open>Properties\<close>


definition demo_node :: pre_auth_node where
  "demo_node = \<lparr>pa_next = None, peerMacAddr = replicate 6 0, pa_authType = 0, pa_mlmState = 0, authNodeIdx = 0,
     challengeText = replicate 128 0, fTimerStarted = False, fSeen = False, fFree = False,
     pa_timer = \<lparr>tmrSignature = 0, tt_expireInput = 0, tt_init = 0, tt_resched = 0, tt_sessionId = 0, tt_running = False\<rparr>,
     pa_seq_num = 0, pa_timestamp = 0\<rparr>"

definition demo_boot :: pre_auth where
  "demo_boot = \<lparr>pLimPreAuthList = None, gLimNumPreAuthContexts = 0, numEntry = 2, pTable = [demo_node, demo_node],
     auth_sent = []\<rparr>"

definition demo_pa :: pre_auth where
  "demo_pa = the (lim_init_pre_auth_timer_table (\<lambda>_. True) (Some 1000) demo_boot)"

definition demo_pa1 :: pre_auth where
  "demo_pa1 = the (lim_process_auth_open_system_algo 7 (plain_hdr [2, 0, 0, 0, 0, 1]) open_body open_body demo_pa)"

definition shared_body :: "u8 list \<Rightarrow> auth_body" where
  "shared_body challenge = open_body\<lparr>authAlgoNumber := 1, ab_challengeText := challenge\<rparr>"

lemma demo_start: "pa_start demo_pa"
proof (rule pa_start.intros)
  show "pa_boot demo_boot" by (simp add: pa_boot_def demo_boot_def demo_node_def)
  show "lim_init_pre_auth_timer_table (\<lambda>_. True) (Some 1000) demo_boot = Some demo_pa"
    by (simp add: demo_pa_def lim_init_pre_auth_timer_table_def demo_boot_def)
qed simp

lemma demo_inv: "pa_consistent demo_pa"
  using start_consistent [OF demo_start] .

lemma demo_step1: "lim_process_auth_open_system_algo 7 (plain_hdr [2, 0, 0, 0, 0, 1]) open_body open_body demo_pa = Some demo_pa1"
proof -
  obtain ns where "pa_inv demo_pa ns" using demo_inv by (auto simp: pa_consistent_def)
  then show ?thesis
    by (cases rule: open_algo_cases [of demo_pa ns 7 "plain_hdr [2, 0, 0, 0, 0, 1]" open_body open_body])
      (simp_all add: demo_pa1_def)
qed


lemma table_search: "pa_table s \<Longrightarrow> lim_search_pre_auth_list a s = Some (pa_lookup s a)"
  using search_find by (auto simp: pa_table_def pa_lookup_def)

lemma demo_table: "pa_table demo_pa"
proof -
  have "pLimPreAuthList demo_pa = None"
    by (simp add: demo_pa_def lim_init_pre_auth_timer_table_def demo_boot_def)
  moreover obtain ns where ns: "pa_inv demo_pa ns" using demo_inv by (auto simp: pa_consistent_def)
  ultimately have "ns = []" using pa_invD(1) by fastforce
  with ns show ?thesis by (auto simp: pa_table_def)
qed

text \<open>
  \<open>lim_delete_pre_auth_node\<close> returns on every consistent list with at most one entry for each station,
  removes the entry of the given station if there is one, and changes no other entry.
\<close>

theorem pre_auth_delete_correct:
  assumes "pa_table s" "is_mac a"
  shows "\<exists>s'. lim_delete_pre_auth_node a s = Some s' \<and> pa_table s' \<and>
    lim_search_pre_auth_list b s' = (if b = a then Some None else lim_search_pre_auth_list b s)"
proof -
  obtain ns where ns: "pa_inv s ns" "inj_on (pa_addr s) (set ns)" using assms(1) by (auto simp: pa_table_def)
  show ?thesis
    using delete_correct(1) [OF ns refl, of a] pa.del_invar [OF assms] pa.del_lookup [OF assms] assms(1)
    by (simp add: table_search)
qed

theorem pre_auth_delete_correct_witness:
  "\<exists>s'. lim_delete_pre_auth_node [2, 0, 0, 0, 0, 1] demo_pa = Some s' \<and> pa_table s' \<and>
    lim_search_pre_auth_list [2, 0, 0, 0, 0, 1] s' = Some None"
  using pre_auth_delete_correct [OF demo_table, of "[2, 0, 0, 0, 0, 1]" "[2, 0, 0, 0, 0, 1]"] by (simp add: is_mac_def)

text \<open>
  \<open>lim_delete_open_auth_pre_auth_node\<close> removes exactly the entries that are authenticated by the open
  system and older than the time-out, leaves the others on the list, and returns true exactly when it
  removed one.
\<close>

theorem pre_auth_stale_correct:
  assumes "pa_table s"
  shows "\<exists>s'. lim_delete_open_auth_pre_auth_node clk s =
      Some (\<exists>a n. lim_search_pre_auth_list a s = Some (Some n) \<and> open_auth_stale (clk n) (pTable s ! n), s') \<and>
    pa_table s' \<and>
    (\<forall>a. lim_search_pre_auth_list a s' = map_option (\<lambda>r. case r of
        Some n \<Rightarrow> if open_auth_stale (clk n) (pTable s ! n) then None else Some n | None \<Rightarrow> None)
      (lim_search_pre_auth_list a s))"
proof -
  obtain ns where ns: "pa_inv s ns" "inj_on (pa_addr s) (set ns)" using assms by (auto simp: pa_table_def)
  let ?P = "\<lambda>n. open_auth_stale (clk n) (pTable s ! n)"
  let ?ms = "filter (\<lambda>n. \<not> ?P n) ns"
  let ?f = "\<lambda>a. case pa_lookup s a of Some n \<Rightarrow> if ?P n then None else Some n | None \<Rightarrow> None"
  obtain s' where s': "lim_delete_open_auth_pre_auth_node clk s = Some (?ms \<noteq> ns, s')" "pa_inv s' ?ms" "keeps ?ms s s'"
    using delete_open_correct [OF ns(1) refl, of clk] by blast
  have addr: "pa_addr s' n = pa_addr s n" if "n \<in> set ?ms" for n by (rule keeps_fields(1) [OF s'(3) that])
  have inj: "inj_on (pa_addr s') (set ?ms)" using ns(2) addr by (auto simp: inj_on_def)
  have look: "pa_lookup s' = ?f"
  proof (rule lookup_cong [OF ns s'(2) inj])
    fix a n
    have "?f a = Some n \<longleftrightarrow> pa_lookup s a = Some n \<and> \<not> ?P n" by (auto split: option.split)
    then show "(n \<in> set ?ms \<and> a = pa_addr s' n) = (?f a = Some n)" using lookup_iff [OF ns, of a n] addr [of n] by auto
  qed
  have "(?ms \<noteq> ns) = (\<exists>n \<in> set ns. ?P n)" by (metis (mono_tags, lifting) filter_True mem_Collect_eq set_filter)
  also have "\<dots> = (\<exists>a n. pa_lookup s a = Some n \<and> ?P n)" using lookup_iff [OF ns] by blast
  finally have freed: "(?ms \<noteq> ns) = (\<exists>a n. pa_lookup s a = Some n \<and> ?P n)" .
  have table: "pa_table s'" using s'(2) inj by (auto simp: pa_table_def)
  show ?thesis using s'(1) freed look table assms by (intro exI [of _ s']) (simp add: table_search)
qed

theorem pre_auth_stale_correct_witness:
  "\<exists>freed s'. lim_delete_open_auth_pre_auth_node (\<lambda>_. (1000, 1000)) demo_pa = Some (freed, s') \<and> pa_table s' \<and>
    lim_search_pre_auth_list [2, 0, 0, 0, 0, 1] s' = Some None"
proof -
  have "lim_search_pre_auth_list [2, 0, 0, 0, 0, 1] demo_pa = Some None"
    by (simp add: lim_search_pre_auth_list_def demo_pa_def lim_init_pre_auth_timer_table_def demo_boot_def search_loop.simps)
  with pre_auth_stale_correct [OF demo_table, of "\<lambda>_. (1000, 1000)"] show ?thesis by fastforce
qed

text \<open>
  C21: Shared-key authentication. After a first frame from a station, for which a node is free and privacy
  is on, the access point has sent a challenge text to it. An encrypted third frame of that station with
  the status success makes its entry authenticated if and only if it carries exactly that text.
\<close>

theorem shared_key_handshake:
  assumes s: "pa_consistent s" "gLimNumPreAuthContexts s < numEntry s"
    and req: "(ucast privacy :: u8) \<noteq> 0" "length challenge = SIR_MAC_AUTH_CHALLENGE_LENGTH"
    and rsp: "hdr_sa hdr3 = hdr_sa hdr1" "hdr_wep hdr3" "authAlgoNumber rx3 = 1" "authStatusCode rx3 = 0"
      "length (ab_challengeText rx3) = SIR_MAC_AUTH_CHALLENGE_LENGTH"
  shows "\<exists>s1 s2 n c.
    lim_process_auth_shared_system_algo ticks privacy start_ok challenge hdr1 rx1 frame1 s = Some s1 \<and>
    snd (last (auth_sent s1)) = hdr_sa hdr1 \<and> c = ab_challengeText (fst (last (auth_sent s1))) \<and>
    lim_search_pre_auth_list (hdr_sa hdr1) s1 = Some (Some n) \<and>
    lim_process_auth_frame_type3 eLIM_AP_ROLE cfg hdr3 rx3 frame3 s1 = Some s2 \<and>
    (pa_mlmState (pTable s2 ! n) = eLIM_MLM_AUTHENTICATED_STATE) = (ab_challengeText rx3 = c)"
proof -
  obtain ns where ns: "pa_inv s ns" using s(1) by (auto simp: pa_consistent_def)
  have len: "8 \<le> length challenge" using req(2) by (simp add: SIR_MAC_AUTH_CHALLENGE_LENGTH_def)
  show ?thesis
  proof (cases rule: shared_algo_cases [OF ns len, of ticks privacy start_ok hdr1 rx1 frame1])
    case (3 n s1)
    let ?c = "challengeText (pTable s1 ! n)"
    have n: "n < length (pTable s1)" using pa_invD(2) [OF 3(3), of n] by simp
    have c: "length ?c = SIR_MAC_AUTH_CHALLENGE_LENGTH" using pa_invD(7) [OF 3(3) n] by (simp add: node_ok_def)
    have found: "lim_search_pre_auth_list (hdr_sa hdr1) s1 = Some (Some n)"
      using search_find [OF 3(3), of "hdr_sa hdr1"] 3(6) by (simp add: auth_entry_def)
    have st: "pa_mlmState (pTable s1 ! n) = eLIM_MLM_WT_AUTH_FRAME3_STATE" "peerMacAddr (pTable s1 ! n) = hdr_sa hdr1"
      using 3(6) by (simp_all add: auth_entry_def)
    have acc: "frame3_accepted eLIM_AP_ROLE hdr3 rx3 (pTable s1 ! n) \<longleftrightarrow> ab_challengeText rx3 = ?c"
      using rsp c st by (simp add: frame3_accepted_def eSIR_SHARED_KEY_def eLIM_MLM_WT_AUTH_FRAME3_STATE_def
          eLIM_MLM_AUTH_RSP_TIMEOUT_STATE_def)
    have "\<exists>s2. lim_process_auth_frame_type3 eLIM_AP_ROLE cfg hdr3 rx3 frame3 s1 = Some s2 \<and>
        (pa_mlmState (pTable s2 ! n) = eLIM_MLM_AUTHENTICATED_STATE) = (ab_challengeText rx3 = ?c)"
    proof (cases "ab_challengeText rx3 = ?c")
      case True
      then show ?thesis using frame3_accept [OF 3(3), of hdr3 n eLIM_AP_ROLE rx3 cfg frame3] found acc rsp(1) by auto
    next
      case False
      then show ?thesis
        using found rsp c st
        by (simp add: lim_process_auth_frame_type3_def Let_def eSIR_SHARED_KEY_def eLIM_MLM_WT_AUTH_FRAME3_STATE_def
            eLIM_MLM_AUTH_RSP_TIMEOUT_STATE_def eLIM_MLM_AUTHENTICATED_STATE_def)
    qed
    with 3(1,10) found show ?thesis by auto
  qed (use req(1) s(2) in simp_all)
qed

theorem shared_key_handshake_witness:
  "\<exists>s1 s2 n c.
    lim_process_auth_shared_system_algo 9 1 True (replicate 128 5) (plain_hdr [2, 0, 0, 0, 0, 2]) (shared_body []) open_body demo_pa = Some s1 \<and>
    snd (last (auth_sent s1)) = [2, 0, 0, 0, 0, 2] \<and> c = ab_challengeText (fst (last (auth_sent s1))) \<and>
    lim_search_pre_auth_list [2, 0, 0, 0, 0, 2] s1 = Some (Some n) \<and>
    lim_process_auth_frame_type3 eLIM_AP_ROLE 1000 ((plain_hdr [2, 0, 0, 0, 0, 2])\<lparr>hdr_wep := True\<rparr>)
      (shared_body (replicate 8 5 @ replicate 120 0)) open_body s1 = Some s2 \<and>
    (pa_mlmState (pTable s2 ! n) = eLIM_MLM_AUTHENTICATED_STATE) = (replicate 8 5 @ replicate 120 0 = c)"
proof -
  have room: "gLimNumPreAuthContexts demo_pa < numEntry demo_pa"
    by (simp add: demo_pa_def lim_init_pre_auth_timer_table_def demo_boot_def)
  show ?thesis
    using shared_key_handshake [OF demo_inv room, of 1 "replicate 128 5"
        "(plain_hdr [2, 0, 0, 0, 0, 2])\<lparr>hdr_wep := True\<rparr>" "plain_hdr [2, 0, 0, 0, 0, 2]"
        "shared_body (replicate 8 5 @ replicate 120 0)" 9 True "shared_body []" open_body 1000 open_body]
    by (simp add: SIR_MAC_AUTH_CHALLENGE_LENGTH_def plain_hdr_def shared_body_def open_body_def)
qed

text \<open>
  Only the first eight bytes of the challenge text that is sent are the random ones: the rest is what the
  node held before.
\<close>

theorem challenge_mostly_stale:
  assumes "pa_consistent s" "gLimNumPreAuthContexts s < numEntry s" "(ucast privacy :: u8) \<noteq> 0"
    and "length challenge = SIR_MAC_AUTH_CHALLENGE_LENGTH"
  shows "\<exists>s1 n. lim_process_auth_shared_system_algo ticks privacy start_ok challenge hdr rx frame s = Some s1 \<and>
    n < length (pTable s) \<and>
    ab_challengeText (fst (last (auth_sent s1))) = take 8 challenge @ drop 8 (challengeText (pTable s ! n))"
proof -
  obtain ns where ns: "pa_inv s ns" using assms(1) by (auto simp: pa_consistent_def)
  have len: "8 \<le> length challenge" using assms(4) by (simp add: SIR_MAC_AUTH_CHALLENGE_LENGTH_def)
  show ?thesis
  proof (cases rule: shared_algo_cases [OF ns len, of ticks privacy start_ok hdr rx frame])
    case (3 n s1)
    have "n < length (pTable s)" using pa_invD(2) [OF 3(3), of n] 3(9) by simp
    with 3(1,7,10) show ?thesis by auto
  qed (use assms(2,3) in simp_all)
qed

theorem challenge_mostly_stale_witness:
  "\<exists>s1 n. lim_process_auth_shared_system_algo 9 1 True (replicate 128 5) (plain_hdr [2, 0, 0, 0, 0, 2]) (shared_body [])
      open_body demo_pa = Some s1 \<and> n < length (pTable demo_pa) \<and>
    ab_challengeText (fst (last (auth_sent s1))) = replicate 8 5 @ drop 8 (challengeText (pTable demo_pa ! n))"
proof -
  have room: "gLimNumPreAuthContexts demo_pa < numEntry demo_pa"
    by (simp add: demo_pa_def lim_init_pre_auth_timer_table_def demo_boot_def)
  show ?thesis
    using challenge_mostly_stale [OF demo_inv room, of 1 "replicate 128 5" 9 True "plain_hdr [2, 0, 0, 0, 0, 2]"
        "shared_body []" open_body]
    by (simp add: SIR_MAC_AUTH_CHALLENGE_LENGTH_def)
qed

text \<open>\<open>lim_init_pre_auth_list\<close> forgets a list without releasing its nodes.\<close>

lemma init_list_leaks:
  assumes "pa_inv s ns" "ns \<noteq> []"
  shows "\<not> pa_consistent (lim_init_pre_auth_list s)"
proof
  assume "pa_consistent (lim_init_pre_auth_list s)"
  then obtain ms where ms: "pa_inv (lim_init_pre_auth_list s) ms" by (auto simp: pa_consistent_def)
  then have "ms = []" using pa_invD(1) by (fastforce simp: lim_init_pre_auth_list_def)
  with pa_invD(4) [OF ms] pa_invD(4) [OF assms(1)] assms(2) show False by (simp add: lim_init_pre_auth_list_def)
qed

end
