(* ===== verification/Auth_Timeout.thy ===== *)
theory Auth_Timeout
  imports Pre_Auth Pe_Session
begin

text \<open>
  The time-out of shared-key authentication, \<open>lim_process_auth_rsp_timeout\<close> of
  \<open>core/mac/src/pe/lim/lim_process_mlm_req_messages.c\<close>, where the pre-authentication list meets the session table.
\<close>

section \<open>The handler\<close>

definition lim_process_auth_rsp_timeout :: "u32 \<Rightarrow> u32 \<Rightarrow> mac_ctx \<Rightarrow> pre_auth \<Rightarrow> pre_auth option" where
  "lim_process_auth_rsp_timeout cfg auth_idx m s =
     (case lim_get_pre_auth_node_from_index auth_idx s of
        None \<Rightarrow> Some s
      | Some n \<Rightarrow>
          if length (pTable s) \<le> n then None
          else do {
            r \<leftarrow> pe_find_session_by_bssid (peerMacAddr (pTable s ! n)) m;
            case r of
              None \<Rightarrow> Some s
            | Some k \<Rightarrow>
                if limSystemRole (gpSession m ! k) = eLIM_AP_ROLE \<or> limSystemRole (gpSession m ! k) = eLIM_STA_IN_IBSS_ROLE
                then if pa_mlmState (pTable s ! n) \<noteq> eLIM_MLM_WT_AUTH_FRAME3_STATE then Some s
                     else let s1 = node_upd n (\<lambda>nd. nd\<lparr>pa_mlmState := eLIM_MLM_AUTH_RSP_TIMEOUT_STATE, fTimerStarted := False\<rparr>) s in
                       do {
                         s2 \<leftarrow> lim_deactivate_and_change_auth_rsp_timer cfg (ucast (authNodeIdx (pTable s1 ! n))) s1;
                         lim_delete_pre_auth_node (peerMacAddr (pTable s2 ! n)) s2
                       }
                else Some s
          })"

text \<open>The session that is found for an address is one of an access point or an independent network.\<close>

definition serves_bssid :: "mac_addr \<Rightarrow> mac_ctx \<Rightarrow> bool" where
  "serves_bssid a m \<longleftrightarrow>
     (case pe_find_session_by_bssid a m of
        Some (Some k) \<Rightarrow> limSystemRole (gpSession m ! k) = eLIM_AP_ROLE \<or> limSystemRole (gpSession m ! k) = eLIM_STA_IN_IBSS_ROLE
      | _ \<Rightarrow> False)"

section \<open>Its effect\<close>

lemma find_bssid_returns: "mac_ok m \<Longrightarrow> \<exists>r. pe_find_session_by_bssid a m = Some r"
  unfolding pe_find_session_by_bssid_def by (simp add: pe_scan_total_test)

text \<open>Changing a node other than in its link, address and free flag changes no lookup.\<close>

lemma table_node_upd:
  assumes "pa_table s" "\<And>nd. pa_next (f nd) = pa_next nd" "\<And>nd. fFree (f nd) = fFree nd"
    and "node_ok n (pTable s ! n) \<Longrightarrow> node_ok n (f (pTable s ! n))" "\<And>nd. peerMacAddr (f nd) = peerMacAddr nd"
  shows "pa_table (node_upd n f s)" "pa_lookup (node_upd n f s) = pa_lookup s"
proof -
  obtain ns where ns: "pa_inv s ns" "inj_on (pa_addr s) (set ns)" using assms(1) by (auto simp: pa_table_def)
  have inv: "pa_inv (node_upd n f s) ns" by (rule pa_inv_node_upd [OF ns(1) assms(2-4)])
  have addr: "pa_addr (node_upd n f s) m = pa_addr s m" if "m \<in> set ns" for m
    using pa_invD(2) [OF ns(1) that] assms(5) by (simp add: node_upd_nth)
  have inj: "inj_on (pa_addr (node_upd n f s)) (set ns)" using ns(2) addr by (simp add: inj_on_def)
  show "pa_table (node_upd n f s)" using inv inj by (auto simp: pa_table_def)
  show "pa_lookup (node_upd n f s) = pa_lookup s"
    by (rule lookup_cong [OF ns inv inj]) (use addr lookup_iff [OF ns] in auto)
qed

text \<open>
  C40: The time-out for an entry that waits for the third frame returns. It removes the entry if the session
  that is found for the address of the station, taken as a BSSID, is an access point or an independent network;
  otherwise, and so whenever no session has the address of the station as its BSSID, the entry stays.
\<close>

theorem auth_rsp_timeout_effect:
  assumes "pa_table s" "mac_ok m" "is_mac a"
    and "lim_search_pre_auth_list a s = Some (Some n)" "pa_mlmState (pTable s ! n) = eLIM_MLM_WT_AUTH_FRAME3_STATE"
    and "unat idx = n"
  shows "\<exists>s'. lim_process_auth_rsp_timeout cfg idx m s = Some s' \<and> pa_table s' \<and>
    lim_search_pre_auth_list b s' = (if serves_bssid a m \<and> b = a then Some None else lim_search_pre_auth_list b s)"
proof -
  obtain ns where ns: "pa_inv s ns" "inj_on (pa_addr s) (set ns)" using assms(1) by (auto simp: pa_table_def)
  have n: "n \<in> set ns" "pa_addr s n = a"
    using lookup_iff [OF ns, of a n] table_search [OF assms(1), of a] assms(4) by auto
  have len: "n < length (pTable s)" using pa_invD(2) [OF ns(1) n(1)] .
  have get: "lim_get_pre_auth_node_from_index idx s = Some n"
    using len assms(6) pa_invD(3) [OF ns(1)] by (auto simp: lim_get_pre_auth_node_from_index_def word_le_nat_alt)
  obtain r where r: "pe_find_session_by_bssid a m = Some r" using find_bssid_returns [OF assms(2)] by blast
  show ?thesis
  proof (cases "serves_bssid a m")
    case False
    then have "lim_process_auth_rsp_timeout cfg idx m s = Some s"
      using get len n(2) r assms(5) by (auto simp: lim_process_auth_rsp_timeout_def serves_bssid_def split: option.splits)
    with False assms(1) show ?thesis by simp
  next
    case True
    let ?f = "\<lambda>nd. nd\<lparr>pa_mlmState := eLIM_MLM_AUTH_RSP_TIMEOUT_STATE, fTimerStarted := False\<rparr>"
    let ?g = "\<lambda>nd. nd\<lparr>pa_timer := snd (tx_timer_change (ucast (SYS_MS_TO_TICKS cfg)) 0 (tx_timer_deactivate (pa_timer nd)))\<rparr>"
    let ?s1 = "node_upd n ?f s"
    let ?s2 = "node_upd n ?g ?s1"
    have t1: "pa_table ?s1" "pa_lookup ?s1 = pa_lookup s"
      by (rule table_node_upd [OF assms(1)]; simp add: node_ok_def)+
    have t2: "pa_table ?s2" "pa_lookup ?s2 = pa_lookup s"
      unfolding t1(2) [symmetric] by (rule table_node_upd [OF t1(1)]; simp add: node_ok_def)+
    have "unat (authNodeIdx (pTable s ! n)) = n" using pa_invD(7) [OF ns(1) len] by (simp add: node_ok_def)
    then have timer: "lim_deactivate_and_change_auth_rsp_timer cfg (ucast (authNodeIdx (pTable ?s1 ! n))) ?s1 = Some ?s2"
      using len pa_invD(3) [OF ns(1)]
      by (simp add: lim_deactivate_and_change_auth_rsp_timer_def lim_get_pre_auth_node_from_index_def node_upd_nth
          word_le_nat_alt)
    have addr: "pa_addr ?s2 n = a" using len n(2) by (simp add: node_upd_nth)
    obtain ns2 where ns2: "pa_inv ?s2 ns2" "inj_on (pa_addr ?s2) (set ns2)" using t2(1) by (auto simp: pa_table_def)
    have "lim_process_auth_rsp_timeout cfg idx m s = Some (pa_delete a ?s2)"
      using True get len n(2) assms(5) timer addr delete_correct(1) [OF ns2 refl, of a]
      by (auto simp: lim_process_auth_rsp_timeout_def serves_bssid_def Let_def split: option.splits)
    moreover note pa.del_invar [OF t2(1) assms(3)] pa.del_lookup [OF t2(1) assms(3)]
    ultimately show ?thesis using True t2(2) assms(1) by (simp add: table_search)
  qed
qed

lemma demo_waiting:
  "\<exists>s n. lim_process_auth_shared_system_algo 9 1 True (replicate 128 5) (plain_hdr [2, 0, 0, 0, 0, 2]) (shared_body [])
      open_body demo_pa = Some s \<and> pa_table s \<and> lim_search_pre_auth_list [2, 0, 0, 0, 0, 2] s = Some (Some n) \<and>
    pa_mlmState (pTable s ! n) = eLIM_MLM_WT_AUTH_FRAME3_STATE \<and> n < 2"
proof -
  have empty: "pLimPreAuthList demo_pa = None" "gLimNumPreAuthContexts demo_pa < numEntry demo_pa"
      "numEntry demo_pa = 2"
    by (simp_all add: demo_pa_def lim_init_pre_auth_timer_table_def demo_boot_def)
  obtain ns where ns: "pa_inv demo_pa ns" using demo_inv by (auto simp: pa_consistent_def)
  have nil: "ns = []" using pa_invD(1) [OF ns] empty(1) by simp
  show ?thesis
  proof (cases rule: shared_algo_cases [OF ns, of "replicate 128 5" 9 1 True "plain_hdr [2, 0, 0, 0, 0, 2]" "shared_body []" open_body])
    case (4 n s)
    have "n < length (pTable demo_pa)" using pa_invD(2) [OF 4(3), of n] 4(9) by simp
    then have n: "n < 2" using pa_invD(3) [OF ns] empty(3) by simp
    have addr: "peerMacAddr (pTable s ! n) = [2, 0, 0, 0, 0, 2]" "pa_mlmState (pTable s ! n) = eLIM_MLM_WT_AUTH_FRAME3_STATE"
      using 4(6) by (simp_all add: auth_entry_def plain_hdr_def)
    have "pa_table s" using 4(3) nil by (auto simp: pa_table_def)
    moreover have "lim_search_pre_auth_list [2, 0, 0, 0, 0, 2] s = Some (Some n)"
      using search_find [OF 4(3), of "[2, 0, 0, 0, 0, 2]"] addr(1) by simp
    ultimately show ?thesis using 4(1) addr(2) n by blast
  qed (use empty(2) in simp_all)
qed

theorem auth_rsp_timeout_effect_witness:
  "\<exists>s n s'. lim_search_pre_auth_list [2, 0, 0, 0, 0, 2] s = Some (Some n) \<and>
    lim_process_auth_rsp_timeout 1000 (of_nat n) demo_mac s = Some s' \<and>
    lim_search_pre_auth_list [2, 0, 0, 0, 0, 2] s' =
      (if serves_bssid [2, 0, 0, 0, 0, 2] demo_mac then Some None else Some (Some n))"
proof -
  obtain s n where s: "pa_table s" "lim_search_pre_auth_list [2, 0, 0, 0, 0, 2] s = Some (Some n)"
      "pa_mlmState (pTable s ! n) = eLIM_MLM_WT_AUTH_FRAME3_STATE" "n < 2"
    using demo_waiting by blast
  have m: "mac_ok demo_mac" by (simp add: mac_ok_def demo_mac_def)
  have a: "is_mac [2, 0, 0, 0, 0, 2]" by (simp add: is_mac_def)
  have idx: "unat (of_nat n :: u32) = n" using s(4) by (cases n) auto
  obtain s' where "lim_process_auth_rsp_timeout 1000 (of_nat n) demo_mac s = Some s'"
      "lim_search_pre_auth_list [2, 0, 0, 0, 0, 2] s' =
        (if serves_bssid [2, 0, 0, 0, 0, 2] demo_mac then Some None else lim_search_pre_auth_list [2, 0, 0, 0, 0, 2] s)"
    using auth_rsp_timeout_effect [OF s(1) m a s(2,3) idx, of 1000 "[2, 0, 0, 0, 0, 2]"] by auto
  with s(2) show ?thesis by (intro exI [of _ s] exI [of _ n] exI [of _ s']) simp
qed

end
