(* ===== verification/Peer_Ref.thy ===== *)
theory Peer_Ref
  imports Prelude
begin

text \<open>
  The peers of the data path: \<open>core/dp/txrx/ol_txrx_peer_find.c\<close> and the parts of \<open>ol_txrx.c\<close> that create, count
  references to and delete peer objects. Peers and virtual devices are addresses; \<open>peers\<close> and \<open>vdevs\<close> give
  the object at an address, \<open>None\<close> once it is freed. The tail queues (hash bins, peer lists) are lists.
  A result \<open>None\<close> is an access to a freed object, an index outside an array or the removal of an element that
  is not on its queue. Counters are atomic integers; more than $2^{31}$ references are not modelled. Each function runs under its
  lock and is one step.
\<close>

unbundle bit_operations_syntax

section \<open>State\<close>

definition HTT_INVALID_PEER :: u16 where
  "HTT_INVALID_PEER = 0xffff"

definition MAX_NUM_PEER_ID_PER_PEER :: nat where
  "MAX_NUM_PEER_ID_PER_PEER = 16"

definition OL_TXRX_INVALID_LOCAL_PEER_ID :: u16 where
  "OL_TXRX_INVALID_LOCAL_PEER_ID = 0xffff"

definition OL_TXRX_NUM_LOCAL_PEER_IDS :: nat where
  "OL_TXRX_NUM_LOCAL_PEER_IDS = 34"

record txrx_peer =
  pr_mac :: mac_addr
  pr_vdev :: nat
  ref_cnt :: int
  fw_create_pending :: bool
  peer_ids :: "u16 list"
  pr_valid :: bool
  delete_in_progress :: bool
  local_id :: u16

record txrx_vdev =
  vd_mac :: mac_addr
  peer_list :: "nat list"
  last_real_peer :: "nat option"
  vd_delete_pending :: bool
  wait_on_peer_id :: u16

record id_entry =
  ie_peer :: "nat option"
  peer_id_ref_cnt :: int
  del_peer_id_ref_cnt :: int

text \<open>Calls into other parts of the driver, in order.\<close>

datatype peer_event =
    RxFlush nat | RxCleanup nat | WaitDone nat | UnmapTimerFree nat | UnmapTimerStart nat | VdevFreed nat | TxQueueFree nat
  | ReorderFree nat | PeerFreed nat

record txrx_pdev =
  peers :: "nat \<Rightarrow> txrx_peer option"
  vdevs :: "nat \<Rightarrow> txrx_vdev option"
  hash_mask :: u32
  idx_bits :: nat
  hash_bins :: "nat list list"
  id_map :: "id_entry list"
  lp_freelist :: nat
  lp_pool :: "nat list"
  lp_map :: "nat option list"
  peer_events :: "peer_event list"

definition put_peer :: "nat \<Rightarrow> txrx_peer \<Rightarrow> txrx_pdev \<Rightarrow> txrx_pdev" where
  "put_peer p pr s = s\<lparr>peers := (peers s)(p \<mapsto> pr)\<rparr>"

definition note_event :: "peer_event \<Rightarrow> txrx_pdev \<Rightarrow> txrx_pdev" where
  "note_event e s = s\<lparr>peer_events := peer_events s @ [e]\<rparr>"

section \<open>The hash table\<close>

text \<open>The loop of the logarithm: the number of right shifts until the value is zero.\<close>

fun log2_loop :: "nat \<Rightarrow> int \<Rightarrow> int" where
  "log2_loop tmp log2 = (if tmp = 0 then log2 else log2_loop (tmp div 2) (log2 + 1))"

declare log2_loop.simps [simp del]

definition ol_txrx_log2_ceil :: "nat \<Rightarrow> nat" where
  "ol_txrx_log2_ceil value =
     (if value = 0 then 0
      else let log2 = nat (log2_loop value (-1)) in if 2 ^ log2 \<noteq> value then log2 + 1 else log2)"

definition ol_txrx_peer_find_hash_attach :: "nat \<Rightarrow> txrx_pdev \<Rightarrow> txrx_pdev" where
  "ol_txrx_peer_find_hash_attach max_peer_id s =
     (let log2 = ol_txrx_log2_ceil ((max_peer_id + 1) * 2); hash_elems = 2 ^ log2
      in s\<lparr>hash_mask := of_nat (hash_elems - 1), idx_bits := log2, hash_bins := replicate hash_elems []\<rparr>)"

definition ol_txrx_peer_find_map_attach :: "nat \<Rightarrow> txrx_pdev \<Rightarrow> txrx_pdev" where
  "ol_txrx_peer_find_map_attach max_peer_id s =
     s\<lparr>id_map := replicate (max_peer_id + 1) \<lparr>ie_peer = None, peer_id_ref_cnt = 0, del_peer_id_ref_cnt = 0\<rparr>\<rparr>"

definition ol_txrx_peer_find_attach :: "nat \<Rightarrow> txrx_pdev \<Rightarrow> txrx_pdev" where
  "ol_txrx_peer_find_attach max_peer_id s =
     ol_txrx_peer_find_hash_attach max_peer_id (ol_txrx_peer_find_map_attach max_peer_id s)"

definition ol_txrx_peer_find_mac_addr_cmp :: "mac_addr \<Rightarrow> mac_addr \<Rightarrow> bool" where
  "ol_txrx_peer_find_mac_addr_cmp a b \<longleftrightarrow> \<not> (take 4 a = take 4 b \<and> drop 4 a = drop 4 b)"

text \<open>Two bytes of an address as a 16-bit integer of a little-endian machine.\<close>

definition bytes16 :: "mac_addr \<Rightarrow> nat \<Rightarrow> u32" where
  "bytes16 a i = ucast (a ! i) OR push_bit 8 (ucast (a ! Suc i))"

definition ol_txrx_peer_find_hash_index :: "mac_addr \<Rightarrow> txrx_pdev \<Rightarrow> nat" where
  "ol_txrx_peer_find_hash_index a s =
     (let index = bytes16 a 0 XOR bytes16 a 2 XOR bytes16 a 4;
          index1 = index XOR drop_bit (idx_bits s) index
      in unat (index1 AND hash_mask s))"

definition ol_txrx_peer_find_hash_add :: "nat \<Rightarrow> txrx_pdev \<Rightarrow> txrx_pdev option" where
  "ol_txrx_peer_find_hash_add p s =
     do {
       pr \<leftarrow> peers s p;
       let b = ol_txrx_peer_find_hash_index (pr_mac pr) s;
       if b < length (hash_bins s) then Some (s\<lparr>hash_bins := (hash_bins s)[b := hash_bins s ! b @ [p]]\<rparr>) else None
     }"

text \<open>The first peer of a queue that satisfies a test.\<close>

fun bin_find :: "(nat \<Rightarrow> txrx_peer option) \<Rightarrow> (txrx_peer \<Rightarrow> bool) \<Rightarrow> nat list \<Rightarrow> nat option option" where
  "bin_find ps tst [] = Some None"
| "bin_find ps tst (p # q) =
     (case ps p of None \<Rightarrow> None | Some pr \<Rightarrow> if tst pr then Some (Some p) else bin_find ps tst q)"

definition change_ref_cnt :: "nat \<Rightarrow> int \<Rightarrow> txrx_pdev \<Rightarrow> txrx_pdev option" where
  "change_ref_cnt p change s = map_option (\<lambda>pr. put_peer p (pr\<lparr>ref_cnt := ref_cnt pr + change\<rparr>) s) (peers s p)"

definition find_and_ref :: "mac_addr \<Rightarrow> (txrx_peer \<Rightarrow> bool) \<Rightarrow> txrx_pdev \<Rightarrow> (txrx_pdev \<times> nat option) option" where
  "find_and_ref a tst s =
     (let b = ol_txrx_peer_find_hash_index a s in
      if length (hash_bins s) \<le> b then None
      else do {
        r \<leftarrow> bin_find (peers s) tst (hash_bins s ! b);
        case r of
          None \<Rightarrow> Some (s, None)
        | Some p \<Rightarrow> map_option (\<lambda>s1. (s1, Some p)) (change_ref_cnt p 1 s)
      })"

definition ol_txrx_peer_vdev_find_hash :: "nat \<Rightarrow> mac_addr \<Rightarrow> bool \<Rightarrow> txrx_pdev \<Rightarrow> (txrx_pdev \<times> nat option) option" where
  "ol_txrx_peer_vdev_find_hash vdev a check_valid s =
     find_and_ref a (\<lambda>pr. \<not> ol_txrx_peer_find_mac_addr_cmp a (pr_mac pr) \<and> (\<not> check_valid \<or> pr_valid pr) \<and> pr_vdev pr = vdev) s"

definition ol_txrx_peer_find_hash_find_inc_ref :: "mac_addr \<Rightarrow> bool \<Rightarrow> txrx_pdev \<Rightarrow> (txrx_pdev \<times> nat option) option" where
  "ol_txrx_peer_find_hash_find_inc_ref a check_valid s =
     find_and_ref a (\<lambda>pr. \<not> ol_txrx_peer_find_mac_addr_cmp a (pr_mac pr) \<and> (\<not> check_valid \<or> pr_valid pr)) s"

definition ol_txrx_peer_find_hash_remove :: "nat \<Rightarrow> txrx_pdev \<Rightarrow> txrx_pdev option" where
  "ol_txrx_peer_find_hash_remove p s =
     do {
       pr \<leftarrow> peers s p;
       let b = ol_txrx_peer_find_hash_index (pr_mac pr) s;
       if b < length (hash_bins s) \<and> p \<in> set (hash_bins s ! b)
       then Some (s\<lparr>hash_bins := (hash_bins s)[b := remove1 p (hash_bins s ! b)]\<rparr>) else None
     }"

section \<open>Releasing a reference\<close>

definition ol_txrx_peer_clear_map_peer :: "nat \<Rightarrow> txrx_pdev \<Rightarrow> txrx_pdev" where
  "ol_txrx_peer_clear_map_peer p s =
     s\<lparr>id_map := map (\<lambda>e. if ie_peer e = Some p then e\<lparr>ie_peer := None\<rparr> else e) (id_map s)\<rparr>"

text \<open>The removal from the peer list, and what follows for the virtual device.\<close>

definition vdev_drop_peer :: "nat \<Rightarrow> txrx_peer \<Rightarrow> txrx_pdev \<Rightarrow> txrx_pdev option" where
  "vdev_drop_peer p pr s =
     do {
       vd \<leftarrow> vdevs s (pr_vdev pr);
       if p \<notin> set (peer_list vd) then None
       else
         let vd1 = vd\<lparr>peer_list := remove1 p (peer_list vd)\<rparr>;
             s1 = note_event (RxCleanup p) s;
             wait = local_id pr = wait_on_peer_id vd1;
             vd2 = (if wait then vd1\<lparr>wait_on_peer_id := OL_TXRX_INVALID_LOCAL_PEER_ID\<rparr> else vd1);
             s2 = (if wait then note_event (WaitDone (pr_vdev pr)) s1 else s1);
             s3 = note_event (UnmapTimerFree p) s2
         in Some (if peer_list vd2 = [] \<and> vd_delete_pending vd2
                  then note_event (VdevFreed (pr_vdev pr)) (s3\<lparr>vdevs := (vdevs s3)(pr_vdev pr := None)\<rparr>)
                  else s3\<lparr>vdevs := (vdevs s3)(pr_vdev pr \<mapsto> vd2)\<rparr>)
     }"

definition ol_txrx_peer_unref_delete :: "nat \<Rightarrow> txrx_pdev \<Rightarrow> txrx_pdev option" where
  "ol_txrx_peer_unref_delete p s =
     do {
       pr \<leftarrow> peers s p;
       if ref_cnt pr = 0 then Some s
       else
         let pr1 = pr\<lparr>ref_cnt := ref_cnt pr - 1\<rparr>; s1 = put_peer p pr1 s in
         if ref_cnt pr1 \<noteq> 0 then Some s1
         else do {
           s2 \<leftarrow> ol_txrx_peer_find_hash_remove p s1;
           s3 \<leftarrow> vdev_drop_peer p pr1 s2;
           let s4 = ol_txrx_peer_clear_map_peer p (note_event (TxQueueFree p) s3);
           Some (note_event (PeerFreed p) (note_event (ReorderFree p) (s4\<lparr>peers := (peers s4)(p := None)\<rparr>)))
         }
     }"

section \<open>Messages from the firmware\<close>

definition insert_id :: "u16 \<Rightarrow> u16 list \<Rightarrow> u16 list" where
  "insert_id i ids = (case find (\<lambda>k. ids ! k = HTT_INVALID_PEER) [0..<length ids] of None \<Rightarrow> ids | Some k \<Rightarrow> ids[k := i])"

definition remove_id :: "u16 \<Rightarrow> u16 list \<Rightarrow> u16 list" where
  "remove_id i ids = (case find (\<lambda>k. ids ! k = i) [0..<length ids] of None \<Rightarrow> ids | Some k \<Rightarrow> ids[k := HTT_INVALID_PEER])"

definition map_id :: "u16 \<Rightarrow> nat \<Rightarrow> id_entry \<Rightarrow> id_entry" where
  "map_id i p e =
     (let e1 = (if ie_peer e = None then e\<lparr>ie_peer := Some p, peer_id_ref_cnt := 0\<rparr> else e) in
      e1\<lparr>peer_id_ref_cnt := peer_id_ref_cnt e1 + 1\<rparr>)"

definition ol_txrx_peer_find_add_id :: "mac_addr \<Rightarrow> u16 \<Rightarrow> txrx_pdev \<Rightarrow> txrx_pdev option" where
  "ol_txrx_peer_find_add_id a peer_id s =
     do {
       r \<leftarrow> ol_txrx_peer_find_hash_find_inc_ref a False s;
       case r of
         (s1, None) \<Rightarrow> Some s1
       | (s1, Some p) \<Rightarrow>
           if peer_id = HTT_INVALID_PEER then Some s1
           else if length (id_map s1) \<le> unat peer_id then None
           else do {
             let s2 = s1\<lparr>id_map := (id_map s1)[unat peer_id := map_id peer_id p (id_map s1 ! unat peer_id)]\<rparr>;
             pr \<leftarrow> peers s2 p;
             let pr1 = pr\<lparr>peer_ids := insert_id peer_id (peer_ids pr)\<rparr>;
             if fw_create_pending pr1
             then ol_txrx_peer_unref_delete p (put_peer p (pr1\<lparr>fw_create_pending := False\<rparr>) s2)
             else Some (put_peer p pr1 s2)
           }
     }"

definition ol_rx_peer_map_handler :: "u16 \<Rightarrow> mac_addr \<Rightarrow> txrx_pdev \<Rightarrow> txrx_pdev option" where
  "ol_rx_peer_map_handler peer_id a s = ol_txrx_peer_find_add_id a peer_id s"

definition ol_rx_peer_unmap_handler :: "u16 \<Rightarrow> txrx_pdev \<Rightarrow> txrx_pdev option" where
  "ol_rx_peer_unmap_handler peer_id s =
     (if peer_id = HTT_INVALID_PEER then Some s
      else if length (id_map s) \<le> unat peer_id then None
      else
        let i = unat peer_id; e = id_map s ! i in
        if del_peer_id_ref_cnt e \<noteq> 0
        then Some (s\<lparr>id_map := (id_map s)[i := e\<lparr>del_peer_id_ref_cnt := del_peer_id_ref_cnt e - 1\<rparr>]\<rparr>)
        else case ie_peer e of
          None \<Rightarrow> Some s
        | Some p \<Rightarrow>
            let e1 = e\<lparr>peer_id_ref_cnt := peer_id_ref_cnt e - 1\<rparr> in
            if peer_id_ref_cnt e1 = 0
            then do {
              pr \<leftarrow> peers s p;
              ol_txrx_peer_unref_delete p
                (put_peer p (pr\<lparr>peer_ids := remove_id peer_id (peer_ids pr)\<rparr>)
                  (s\<lparr>id_map := (id_map s)[i := e1\<lparr>ie_peer := None\<rparr>]\<rparr>))
            }
            else ol_txrx_peer_unref_delete p (s\<lparr>id_map := (id_map s)[i := e1]\<rparr>))"

section \<open>Attaching and detaching\<close>

definition ol_txrx_local_peer_id_alloc :: "nat \<Rightarrow> txrx_pdev \<Rightarrow> txrx_pdev option" where
  "ol_txrx_local_peer_id_alloc p s =
     do {
       pr \<leftarrow> peers s p;
       let i = lp_freelist s;
       if length (lp_pool s) \<le> i then None
       else if lp_pool s ! i = i then Some (put_peer p (pr\<lparr>local_id := OL_TXRX_INVALID_LOCAL_PEER_ID\<rparr>) s)
       else if length (lp_map s) \<le> i then None
       else Some ((put_peer p (pr\<lparr>local_id := of_nat i\<rparr>) s)
              \<lparr>lp_freelist := lp_pool s ! i, lp_map := (lp_map s)[i := Some p]\<rparr>)
     }"

definition ol_txrx_local_peer_id_free :: "nat \<Rightarrow> txrx_pdev \<Rightarrow> txrx_pdev option" where
  "ol_txrx_local_peer_id_free p s =
     do {
       pr \<leftarrow> peers s p;
       let i = unat (local_id pr);
       if local_id pr = OL_TXRX_INVALID_LOCAL_PEER_ID \<or> OL_TXRX_NUM_LOCAL_PEER_IDS \<le> i then Some s
       else if length (lp_pool s) \<le> i \<or> length (lp_map s) \<le> i then None
       else Some (s\<lparr>lp_pool := (lp_pool s)[i := lp_freelist s], lp_freelist := i, lp_map := (lp_map s)[i := None]\<rparr>)
     }"

definition ol_txrx_local_peer_id_pool_init :: "txrx_pdev \<Rightarrow> txrx_pdev" where
  "ol_txrx_local_peer_id_pool_init s =
     s\<lparr>lp_freelist := 0,
       lp_pool := map (\<lambda>i. i + 1) [0..<OL_TXRX_NUM_LOCAL_PEER_IDS] @ [OL_TXRX_NUM_LOCAL_PEER_IDS],
       lp_map := replicate OL_TXRX_NUM_LOCAL_PEER_IDS None\<rparr>"

definition new_vdev :: "mac_addr \<Rightarrow> txrx_vdev" where
  "new_vdev a = \<lparr>vd_mac = a, peer_list = [], last_real_peer = None, vd_delete_pending = False,
     wait_on_peer_id = OL_TXRX_INVALID_LOCAL_PEER_ID\<rparr>"

text \<open>Virtual devices; \<open>v\<close> is the address of the new object.\<close>

definition ol_txrx_vdev_attach :: "nat \<Rightarrow> mac_addr \<Rightarrow> txrx_pdev \<Rightarrow> txrx_pdev" where
  "ol_txrx_vdev_attach v a s = s\<lparr>vdevs := (vdevs s)(v \<mapsto> new_vdev a)\<rparr>"

definition ol_txrx_vdev_detach :: "nat \<Rightarrow> txrx_pdev \<Rightarrow> txrx_pdev option" where
  "ol_txrx_vdev_detach v s =
     do {
       vd \<leftarrow> vdevs s v;
       Some (if peer_list vd \<noteq> [] then s\<lparr>vdevs := (vdevs s)(v \<mapsto> vd\<lparr>vd_delete_pending := True\<rparr>)\<rparr>
             else note_event (VdevFreed v) (s\<lparr>vdevs := (vdevs s)(v := None)\<rparr>))
     }"

datatype attach_check = AttachRefused | AttachWait | AttachNew

text \<open>The search for an existing peer with the same address, before the new one is created.\<close>

fun attach_scan :: "(nat \<Rightarrow> txrx_peer option) \<Rightarrow> mac_addr \<Rightarrow> nat list \<Rightarrow> txrx_vdev \<times> attach_check \<Rightarrow> (txrx_vdev \<times> attach_check) option" where
  "attach_scan ps a [] r = Some r"
| "attach_scan ps a (p # q) r =
     (case ps p of
        None \<Rightarrow> None
      | Some pr \<Rightarrow>
          if \<not> ol_txrx_peer_find_mac_addr_cmp (pr_mac pr) a
          then if delete_in_progress pr
               then attach_scan ps a q ((fst r)\<lparr>wait_on_peer_id := local_id pr\<rparr>, AttachWait)
               else Some (fst r, AttachRefused)
          else attach_scan ps a q r)"

definition peer_attach_begin :: "nat \<Rightarrow> mac_addr \<Rightarrow> txrx_pdev \<Rightarrow> (txrx_pdev \<times> attach_check) option" where
  "peer_attach_begin v a s =
     do {
       vd \<leftarrow> vdevs s v;
       r \<leftarrow> attach_scan (peers s) a (peer_list vd) (vd, AttachNew);
       Some (s\<lparr>vdevs := (vdevs s)(v \<mapsto> fst r)\<rparr>, snd r)
     }"

text \<open>The wait for the deletion of the old peer runs out.\<close>

definition peer_attach_timeout :: "nat \<Rightarrow> txrx_pdev \<Rightarrow> txrx_pdev option" where
  "peer_attach_timeout v s =
     map_option (\<lambda>vd. s\<lparr>vdevs := (vdevs s)(v \<mapsto> vd\<lparr>wait_on_peer_id := OL_TXRX_INVALID_LOCAL_PEER_ID\<rparr>)\<rparr>) (vdevs s v)"

text \<open>The creation of a peer at a fresh address \<open>p\<close>.\<close>

definition new_peer :: "nat \<Rightarrow> mac_addr \<Rightarrow> txrx_peer" where
  "new_peer v a = \<lparr>pr_mac = a, pr_vdev = v, ref_cnt = 2, fw_create_pending = True,
     peer_ids = replicate MAX_NUM_PEER_ID_PER_PEER HTT_INVALID_PEER, pr_valid = True, delete_in_progress = False,
     local_id = 0\<rparr>"

definition peer_attach_create :: "nat \<Rightarrow> nat \<Rightarrow> mac_addr \<Rightarrow> txrx_pdev \<Rightarrow> txrx_pdev option" where
  "peer_attach_create p v a s =
     do {
       vd \<leftarrow> vdevs s v;
       let vd1 = vd\<lparr>peer_list := peer_list vd @ [p]\<rparr>;
       let vd2 = (if ol_txrx_peer_find_mac_addr_cmp (vd_mac vd) a then vd1\<lparr>last_real_peer := Some p\<rparr> else vd1);
       s1 \<leftarrow> ol_txrx_peer_find_hash_add p (put_peer p (new_peer v a) (s\<lparr>vdevs := (vdevs s)(v \<mapsto> vd2)\<rparr>));
       ol_txrx_local_peer_id_alloc p s1
     }"

definition ol_txrx_peer_detach :: "bool \<Rightarrow> nat \<Rightarrow> txrx_pdev \<Rightarrow> txrx_pdev option" where
  "ol_txrx_peer_detach is_sta p s =
     do {
       pr \<leftarrow> peers s p;
       let s1 = note_event (RxFlush p) (put_peer p (pr\<lparr>pr_valid := False\<rparr>) s);
       s2 \<leftarrow> ol_txrx_local_peer_id_free p s1;
       vd \<leftarrow> vdevs s2 (pr_vdev pr);
       let s3 = (if last_real_peer vd = Some p
                 then s2\<lparr>vdevs := (vdevs s2)(pr_vdev pr \<mapsto> vd\<lparr>last_real_peer := None\<rparr>)\<rparr> else s2);
       let s4 = put_peer p (pr\<lparr>pr_valid := False, delete_in_progress := True\<rparr>) s3;
       ol_txrx_peer_unref_delete p (if is_sta then note_event (UnmapTimerStart p) s4 else s4)
     }"

text \<open>The loop over the ids of a peer; the last component counts the references that are dropped.\<close>

definition remove_map_step :: "nat \<Rightarrow> nat \<Rightarrow> (id_entry list \<times> u16 list \<times> int) option \<Rightarrow> (id_entry list \<times> u16 list \<times> int) option" where
  "remove_map_step p k st =
     do {
       (es, ids, n) \<leftarrow> st;
       if length ids \<le> k then None
       else
         let peer_id = ids ! k; i = unat peer_id in
         if peer_id = HTT_INVALID_PEER then Some (es, ids, n)
         else if length es \<le> i then None
         else if ie_peer (es ! i) \<noteq> Some p then Some (es, ids, n)
         else let e = es ! i; c = peer_id_ref_cnt e in
           Some (es[i := e\<lparr>del_peer_id_ref_cnt := del_peer_id_ref_cnt e + c, peer_id_ref_cnt := 0, ie_peer := None\<rparr>],
                 ids[k := HTT_INVALID_PEER], n + c)
     }"

fun unref_times :: "nat \<Rightarrow> nat \<Rightarrow> txrx_pdev \<Rightarrow> txrx_pdev option" where
  "unref_times 0 p s = Some s"
| "unref_times (Suc n) p s = Option.bind (ol_txrx_peer_unref_delete p s) (unref_times n p)"

definition ol_txrx_peer_remove_obj_map_entries :: "nat \<Rightarrow> txrx_pdev \<Rightarrow> txrx_pdev option" where
  "ol_txrx_peer_remove_obj_map_entries p s =
     do {
       pr \<leftarrow> peers s p;
       (es, ids, n) \<leftarrow> fold (remove_map_step p) [0..<MAX_NUM_PEER_ID_PER_PEER] (Some (id_map s, peer_ids pr, 0));
       unref_times (nat n) p (put_peer p (pr\<lparr>peer_ids := ids\<rparr>) (s\<lparr>id_map := es\<rparr>))
     }"

definition ol_txrx_peer_detach_force_delete :: "bool \<Rightarrow> nat \<Rightarrow> txrx_pdev \<Rightarrow> txrx_pdev option" where
  "ol_txrx_peer_detach_force_delete is_sta p s =
     Option.bind (ol_txrx_peer_remove_obj_map_entries p s) (ol_txrx_peer_detach is_sta p)"

text \<open>The end of the physical device: every reference is forgotten.\<close>

fun erase_bin :: "nat list \<Rightarrow> txrx_pdev \<Rightarrow> txrx_pdev option" where
  "erase_bin [] s = Some s"
| "erase_bin (p # ps) s =
     do {
       pr \<leftarrow> peers s p;
       s1 \<leftarrow> ol_txrx_peer_unref_delete p (put_peer p (pr\<lparr>ref_cnt := 0 + 1\<rparr>) s);
       erase_bin ps s1
     }"

fun erase_bins :: "nat list \<Rightarrow> txrx_pdev \<Rightarrow> txrx_pdev option" where
  "erase_bins [] s = Some s"
| "erase_bins (b # bs) s =
     (if length (hash_bins s) \<le> b then None else Option.bind (erase_bin (hash_bins s ! b) s) (erase_bins bs))"

definition ol_txrx_peer_find_hash_erase :: "txrx_pdev \<Rightarrow> txrx_pdev option" where
  "ol_txrx_peer_find_hash_erase s = erase_bins [0..<Suc (unat (hash_mask s))] s"

section \<open>Other lookups\<close>

definition ol_txrx_assoc_peer_find :: "nat \<Rightarrow> txrx_pdev \<Rightarrow> (txrx_pdev \<times> nat option) option" where
  "ol_txrx_assoc_peer_find v s =
     do {
       vd \<leftarrow> vdevs s v;
       case last_real_peer vd of
         None \<Rightarrow> Some (s, None)
       | Some p \<Rightarrow>
           do {
             pr \<leftarrow> peers s p;
             if peer_ids pr ! 0 \<noteq> HTT_INVALID_PEER then map_option (\<lambda>s1. (s1, Some p)) (change_ref_cnt p 1 s)
             else Some (s, None)
           }
     }"

definition ol_txrx_peer_find_by_id :: "u16 \<Rightarrow> txrx_pdev \<Rightarrow> nat option option" where
  "ol_txrx_peer_find_by_id peer_id s =
     (if length (id_map s) \<le> unat peer_id then Some None
      else case ie_peer (id_map s ! unat peer_id) of
        None \<Rightarrow> Some None
      | Some p \<Rightarrow> map_option (\<lambda>pr. if pr_valid pr then Some p else None) (peers s p))"

definition ol_txrx_peer_find_by_addr :: "mac_addr \<Rightarrow> txrx_pdev \<Rightarrow> (txrx_pdev \<times> nat option) option" where
  "ol_txrx_peer_find_by_addr a s =
     do {
       r \<leftarrow> ol_txrx_peer_find_hash_find_inc_ref a False s;
       case r of
         (s1, None) \<Rightarrow> Some (s1, None)
       | (s1, Some p) \<Rightarrow> map_option (\<lambda>s2. (s2, Some p)) (ol_txrx_peer_unref_delete p s1)
     }"

definition ol_txrx_find_peer_by_addr_inc_ref :: "mac_addr \<Rightarrow> txrx_pdev \<Rightarrow> (txrx_pdev \<times> (nat \<times> u8) option) option" where
  "ol_txrx_find_peer_by_addr_inc_ref a s =
     do {
       r \<leftarrow> ol_txrx_peer_find_hash_find_inc_ref a True s;
       case r of
         (s1, None) \<Rightarrow> Some (s1, None)
       | (s1, Some p) \<Rightarrow> map_option (\<lambda>pr. (s1, Some (p, ucast (local_id pr)))) (peers s1 p)
     }"

text \<open>The lookups that give the reference back before they return.\<close>

definition find_and_unref :: "(txrx_pdev \<times> nat option) option \<Rightarrow> (txrx_pdev \<times> (nat \<times> u8) option) option" where
  "find_and_unref r =
     do {
       r1 \<leftarrow> r;
       case r1 of
         (s1, None) \<Rightarrow> Some (s1, None)
       | (s1, Some p) \<Rightarrow>
           do {
             pr \<leftarrow> peers s1 p;
             s2 \<leftarrow> ol_txrx_peer_unref_delete p s1;
             Some (s2, Some (p, ucast (local_id pr)))
           }
     }"

definition ol_txrx_find_peer_by_addr :: "mac_addr \<Rightarrow> txrx_pdev \<Rightarrow> (txrx_pdev \<times> (nat \<times> u8) option) option" where
  "ol_txrx_find_peer_by_addr a s = find_and_unref (ol_txrx_peer_find_hash_find_inc_ref a True s)"

definition ol_txrx_find_peer_by_addr_and_vdev ::
  "nat \<Rightarrow> mac_addr \<Rightarrow> txrx_pdev \<Rightarrow> (txrx_pdev \<times> (nat \<times> u8) option) option" where
  "ol_txrx_find_peer_by_addr_and_vdev v a s = find_and_unref (ol_txrx_peer_vdev_find_hash v a True s)"

definition ol_txrx_peer_find_by_local_id :: "u8 \<Rightarrow> txrx_pdev \<Rightarrow> nat option" where
  "ol_txrx_peer_find_by_local_id i s =
     (if OL_TXRX_NUM_LOCAL_PEER_IDS \<le> unat i \<or> length (lp_map s) \<le> unat i then None else lp_map s ! unat i)"

section \<open>Start, and the interface\<close>

text \<open>The state after the start of the physical device.\<close>

definition peers_init :: "nat \<Rightarrow> txrx_pdev" where
  "peers_init max_peer_id = ol_txrx_local_peer_id_pool_init (ol_txrx_peer_find_attach max_peer_id
     \<lparr>peers = (\<lambda>_. None), vdevs = (\<lambda>_. None), hash_mask = 0, idx_bits = 0, hash_bins = [], id_map = [],
      lp_freelist = 0, lp_pool = [], lp_map = [], peer_events = []\<rparr>)"

text \<open>
  The calls of the data path interface. \<open>ReleasePeer\<close> is the release, by its holder, of a reference that a lookup
  gave out.
\<close>

datatype peer_op =
    VdevAttach nat mac_addr | VdevDetach nat | AttachBegin nat mac_addr | AttachTimeout nat | AttachCreate nat nat mac_addr
  | DetachPeer bool nat | ForceDelete bool nat | PeerMap u16 mac_addr | PeerUnmap u16 | FindIncRef mac_addr bool
  | FindInVdev nat mac_addr bool | FindAssoc nat | FindByAddr mac_addr | FindAddr mac_addr | FindAddrVdev nat mac_addr
  | ReleasePeer nat

text \<open>The state after an operation and the peer whose reference it hands to its caller.\<close>

fun peer_call :: "peer_op \<Rightarrow> txrx_pdev \<Rightarrow> (txrx_pdev \<times> nat option) option" where
  "peer_call (VdevAttach v a) s = Some (ol_txrx_vdev_attach v a s, None)"
| "peer_call (VdevDetach v) s = map_option (\<lambda>s1. (s1, None)) (ol_txrx_vdev_detach v s)"
| "peer_call (AttachBegin v a) s = map_option (\<lambda>r. (fst r, None)) (peer_attach_begin v a s)"
| "peer_call (AttachTimeout v) s = map_option (\<lambda>s1. (s1, None)) (peer_attach_timeout v s)"
| "peer_call (AttachCreate p v a) s = map_option (\<lambda>s1. (s1, None)) (peer_attach_create p v a s)"
| "peer_call (DetachPeer sta p) s = map_option (\<lambda>s1. (s1, None)) (ol_txrx_peer_detach sta p s)"
| "peer_call (ForceDelete sta p) s = map_option (\<lambda>s1. (s1, None)) (ol_txrx_peer_detach_force_delete sta p s)"
| "peer_call (PeerMap i a) s = map_option (\<lambda>s1. (s1, None)) (ol_rx_peer_map_handler i a s)"
| "peer_call (PeerUnmap i) s = map_option (\<lambda>s1. (s1, None)) (ol_rx_peer_unmap_handler i s)"
| "peer_call (FindIncRef a c) s = ol_txrx_peer_find_hash_find_inc_ref a c s"
| "peer_call (FindInVdev v a c) s = ol_txrx_peer_vdev_find_hash v a c s"
| "peer_call (FindAssoc v) s = ol_txrx_assoc_peer_find v s"
| "peer_call (FindByAddr a) s = map_option (\<lambda>r. (fst r, None)) (ol_txrx_peer_find_by_addr a s)"
| "peer_call (FindAddr a) s = map_option (\<lambda>r. (fst r, None)) (ol_txrx_find_peer_by_addr a s)"
| "peer_call (FindAddrVdev v a) s = map_option (\<lambda>r. (fst r, None)) (ol_txrx_find_peer_by_addr_and_vdev v a s)"
| "peer_call (ReleasePeer p) s = map_option (\<lambda>s1. (s1, None)) (ol_txrx_peer_unref_delete p s)"

end
