(* ===== verification/Peer_Inv.thy ===== *)
theory Peer_Inv
  imports Peer_Ref
begin

text \<open>
  Reference counting of the data path peers. A reference is held by the attachment of the peer, by the pending creation
  in the firmware, by each count of an entry of the id map and by each caller of a lookup that has not released it yet.
  The attached peers and the callers' references are ghost state beside the model of \<open>Peer_Ref\<close>. The
  invariant equates the counter of every live peer with the number of its references; it follows that no operation
  reaches freed memory.
\<close>

section \<open>Invariant\<close>

definition map_refs :: "id_entry list \<Rightarrow> nat \<Rightarrow> int" where
  "map_refs es p = (\<Sum>e\<leftarrow>es. if ie_peer e = Some p then peer_id_ref_cnt e else 0)"

definition entries_ok :: "id_entry list \<Rightarrow> bool" where
  "entries_ok es \<longleftrightarrow> (\<forall>e \<in> set es. ie_peer e \<noteq> None \<longrightarrow> 0 < peer_id_ref_cnt e)"

definition refs :: "txrx_pdev \<Rightarrow> nat set \<Rightarrow> (nat \<Rightarrow> nat) \<Rightarrow> nat \<Rightarrow> txrx_peer \<Rightarrow> int" where
  "refs s att hld p pr = of_bool (p \<in> att) + of_bool (fw_create_pending pr) + int (hld p) + map_refs (id_map s) p"

definition refs_ok :: "txrx_pdev \<Rightarrow> nat set \<Rightarrow> (nat \<Rightarrow> nat) \<Rightarrow> bool" where
  "refs_ok s att hld \<longleftrightarrow>
     (\<forall>p pr. peers s p = Some pr \<longrightarrow> ref_cnt pr = refs s att hld p pr \<and> 0 < ref_cnt pr) \<and>
     (\<forall>p. peers s p = None \<longrightarrow> p \<notin> att \<and> hld p = 0 \<and> map_refs (id_map s) p = 0) \<and> entries_ok (id_map s)"

text \<open>What of a peer the queues depend on.\<close>

definition keys :: "txrx_pdev \<Rightarrow> nat \<Rightarrow> (mac_addr \<times> nat) option" where
  "keys s p = map_option (\<lambda>pr. (pr_mac pr, pr_vdev pr)) (peers s p)"

definition locals :: "txrx_pdev \<Rightarrow> nat \<Rightarrow> u16 option" where
  "locals s p = map_option local_id (peers s p)"

definition bins_ok :: "(mac_addr \<Rightarrow> nat) \<Rightarrow> (nat \<Rightarrow> (mac_addr \<times> nat) option) \<Rightarrow> nat list list \<Rightarrow> bool" where
  "bins_ok h ks bins \<longleftrightarrow>
     (\<forall>b < length bins. distinct (bins ! b) \<and> (\<forall>p. p \<in> set (bins ! b) \<longleftrightarrow> (\<exists>a v. ks p = Some (a, v) \<and> h a = b)))"

definition lists_ok :: "(nat \<Rightarrow> (mac_addr \<times> nat) option) \<Rightarrow> (nat \<Rightarrow> txrx_vdev option) \<Rightarrow> bool" where
  "lists_ok ks vds \<longleftrightarrow>
     (\<forall>v vd. vds v = Some vd \<longrightarrow> distinct (peer_list vd) \<and> (\<forall>p. p \<in> set (peer_list vd) \<longleftrightarrow> (\<exists>a. ks p = Some (a, v)))) \<and>
     (\<forall>p a v. ks p = Some (a, v) \<longrightarrow> vds v \<noteq> None)"

definition real_ok :: "(nat \<Rightarrow> (mac_addr \<times> nat) option) \<Rightarrow> nat set \<Rightarrow> (nat \<Rightarrow> txrx_vdev option) \<Rightarrow> bool" where
  "real_ok ks att vds \<longleftrightarrow>
     (\<forall>v vd p. vds v = Some vd \<longrightarrow> last_real_peer vd = Some p \<longrightarrow> p \<in> att \<and> (\<exists>a. ks p = Some (a, v)))"

definition table_ok :: "txrx_pdev \<Rightarrow> bool" where
  "table_ok s \<longleftrightarrow> length (hash_bins s) = Suc (unat (hash_mask s)) \<and>
     bins_ok (\<lambda>a. ol_txrx_peer_find_hash_index a s) (keys s) (hash_bins s) \<and> lists_ok (keys s) (vdevs s)"

definition ids_ok :: "txrx_pdev \<Rightarrow> bool" where
  "ids_ok s \<longleftrightarrow>
     (\<forall>p pr. peers s p = Some pr \<longrightarrow> length (peer_ids pr) = MAX_NUM_PEER_ID_PER_PEER \<and>
        (\<forall>i \<in> set (peer_ids pr). i = HTT_INVALID_PEER \<or> unat i < length (id_map s)))"

text \<open>The free list of the local ids, from its head to the end marker.\<close>

fun free_ids :: "nat list \<Rightarrow> nat \<Rightarrow> nat list \<Rightarrow> bool" where
  "free_ids pool i [] \<longleftrightarrow> i = OL_TXRX_NUM_LOCAL_PEER_IDS"
| "free_ids pool i (x # xs) \<longleftrightarrow> x = i \<and> i < OL_TXRX_NUM_LOCAL_PEER_IDS \<and> free_ids pool (pool ! i) xs"

definition pool_ok :: "(nat \<Rightarrow> u16 option) \<Rightarrow> nat set \<Rightarrow> nat \<Rightarrow> nat list \<Rightarrow> nat option list \<Rightarrow> bool" where
  "pool_ok ls att fl pool m \<longleftrightarrow>
     length pool = Suc OL_TXRX_NUM_LOCAL_PEER_IDS \<and> length m = OL_TXRX_NUM_LOCAL_PEER_IDS \<and>
     pool ! OL_TXRX_NUM_LOCAL_PEER_IDS = OL_TXRX_NUM_LOCAL_PEER_IDS \<and>
     (\<exists>free. free_ids pool fl free \<and> distinct free \<and> (\<forall>i < OL_TXRX_NUM_LOCAL_PEER_IDS. i \<in> set free \<longleftrightarrow> m ! i = None)) \<and>
     (\<forall>i < OL_TXRX_NUM_LOCAL_PEER_IDS. \<forall>p. m ! i = Some p \<longleftrightarrow> p \<in> att \<and> ls p = Some (of_nat i)) \<and>
     (\<forall>p \<in> att. \<exists>l. ls p = Some l \<and> (l = OL_TXRX_INVALID_LOCAL_PEER_ID \<or> unat l < OL_TXRX_NUM_LOCAL_PEER_IDS))"

definition peer_inv :: "txrx_pdev \<Rightarrow> nat set \<Rightarrow> (nat \<Rightarrow> nat) \<Rightarrow> bool" where
  "peer_inv s att hld \<longleftrightarrow> refs_ok s att hld \<and> table_ok s \<and> real_ok (keys s) att (vdevs s) \<and> ids_ok s \<and>
     pool_ok (locals s) att (lp_freelist s) (lp_pool s) (lp_map s)"

section \<open>Updates of a single peer\<close>

lemma put_peer_simps [simp]:
  "peers (put_peer p pr s) = (peers s)(p \<mapsto> pr)" "vdevs (put_peer p pr s) = vdevs s"
  "hash_mask (put_peer p pr s) = hash_mask s" "idx_bits (put_peer p pr s) = idx_bits s"
  "hash_bins (put_peer p pr s) = hash_bins s" "id_map (put_peer p pr s) = id_map s"
  "lp_freelist (put_peer p pr s) = lp_freelist s" "lp_pool (put_peer p pr s) = lp_pool s"
  "lp_map (put_peer p pr s) = lp_map s" "peer_events (put_peer p pr s) = peer_events s"
  by (simp_all add: put_peer_def)

lemma note_event_simps [simp]:
  "peers (note_event e s) = peers s" "vdevs (note_event e s) = vdevs s" "hash_mask (note_event e s) = hash_mask s"
  "idx_bits (note_event e s) = idx_bits s" "hash_bins (note_event e s) = hash_bins s"
  "id_map (note_event e s) = id_map s" "lp_freelist (note_event e s) = lp_freelist s"
  "lp_pool (note_event e s) = lp_pool s" "lp_map (note_event e s) = lp_map s"
  by (simp_all add: note_event_def)

lemma hash_index_cong:
  "hash_mask s' = hash_mask s \<Longrightarrow> idx_bits s' = idx_bits s \<Longrightarrow>
   ol_txrx_peer_find_hash_index a s' = ol_txrx_peer_find_hash_index a s"
  by (simp add: ol_txrx_peer_find_hash_index_def)

lemma hash_index_less: "ol_txrx_peer_find_hash_index a s < Suc (unat (hash_mask s))"
proof -
  have "x AND hash_mask s \<le> hash_mask s" for x by (simp add: word_and_le1)
  then show ?thesis
    by (simp add: ol_txrx_peer_find_hash_index_def Let_def less_Suc_eq_le word_le_nat_alt)
qed

lemma table_ok_cong:
  assumes "table_ok s" "keys s' = keys s" "hash_mask s' = hash_mask s" "idx_bits s' = idx_bits s"
    "hash_bins s' = hash_bins s" "vdevs s' = vdevs s"
  shows "table_ok s'"
  using assms by (simp add: table_ok_def hash_index_cong [of s' s])

lemma keys_put: "peers s p = Some pr \<Longrightarrow> pr_mac pr' = pr_mac pr \<Longrightarrow> pr_vdev pr' = pr_vdev pr \<Longrightarrow> keys (put_peer p pr' s) = keys s"
  by (auto simp: keys_def fun_eq_iff)

lemma locals_put: "peers s p = Some pr \<Longrightarrow> local_id pr' = local_id pr \<Longrightarrow> locals (put_peer p pr' s) = locals s"
  by (auto simp: locals_def fun_eq_iff)

section \<open>The id map\<close>

lemma map_refs_Nil [simp]: "map_refs [] p = 0"
  by (simp add: map_refs_def)

lemma map_refs_Cons [simp]: "map_refs (e # es) p = (if ie_peer e = Some p then peer_id_ref_cnt e else 0) + map_refs es p"
  by (simp add: map_refs_def)

lemma map_refs_update:
  "i < length es \<Longrightarrow> map_refs (es[i := e]) p = map_refs es p
     - (if ie_peer (es ! i) = Some p then peer_id_ref_cnt (es ! i) else 0) + (if ie_peer e = Some p then peer_id_ref_cnt e else 0)"
  by (induction es arbitrary: i) (auto split: nat.split)

lemma entries_ok_Cons [simp]: "entries_ok (e # es) \<longleftrightarrow> (ie_peer e \<noteq> None \<longrightarrow> 0 < peer_id_ref_cnt e) \<and> entries_ok es"
  by (simp add: entries_ok_def)

lemma entries_ok_update: "entries_ok es \<Longrightarrow> (ie_peer e \<noteq> None \<longrightarrow> 0 < peer_id_ref_cnt e) \<Longrightarrow> entries_ok (es[i := e])"
  using set_update_subset_insert [of es i e] by (auto simp: entries_ok_def)

lemma entries_ok_nth: "entries_ok es \<Longrightarrow> i < length es \<Longrightarrow> ie_peer (es ! i) = Some p \<Longrightarrow> 0 < peer_id_ref_cnt (es ! i)"
  by (auto simp: entries_ok_def)

lemma map_refs_nonneg: "entries_ok es \<Longrightarrow> 0 \<le> map_refs es p"
  by (induction es) auto

lemma map_refs_ge: "entries_ok es \<Longrightarrow> i < length es \<Longrightarrow> ie_peer (es ! i) = Some p \<Longrightarrow> peer_id_ref_cnt (es ! i) \<le> map_refs es p"
proof (induction es arbitrary: i)
  case (Cons e es)
  show ?case
  proof (cases i)
    case 0
    with Cons.prems map_refs_nonneg [of es p] show ?thesis by simp
  next
    case (Suc n)
    with Cons.prems have "peer_id_ref_cnt (es ! n) \<le> map_refs es p" by (intro Cons.IH) simp_all
    with Suc Cons.prems show ?thesis by auto
  qed
qed simp

lemma map_refs_zero: "entries_ok es \<Longrightarrow> map_refs es p = 0 \<Longrightarrow> e \<in> set es \<Longrightarrow> ie_peer e \<noteq> Some p"
  by (metis entries_ok_nth in_set_conv_nth map_refs_ge linorder_not_less)

section \<open>Removal of a peer\<close>

lemma bins_remove:
  assumes "bins_ok h ks bins" "ks p = Some (a, v)" "h a < length bins"
  shows "bins_ok h (ks(p := None)) (bins[h a := remove1 p (bins ! h a)])"
  unfolding bins_ok_def
proof (intro allI impI)
  fix b assume b: "b < length (bins[h a := remove1 p (bins ! h a)])"
  show "distinct (bins[h a := remove1 p (bins ! h a)] ! b) \<and>
     (\<forall>q. q \<in> set (bins[h a := remove1 p (bins ! h a)] ! b) \<longleftrightarrow> (\<exists>a' v. (ks(p := None)) q = Some (a', v) \<and> h a' = b))"
  proof (cases "b = h a")
    case True
    with assms show ?thesis by (simp add: bins_ok_def)
  next
    case False
    with assms b have "p \<notin> set (bins ! b)" by (auto simp: bins_ok_def)
    with False assms b show ?thesis by (auto simp: bins_ok_def)
  qed
qed

lemma lists_ok_vdev: "lists_ok ks vds \<Longrightarrow> ks p = Some (a, v) \<Longrightarrow> \<exists>vd. vds v = Some vd \<and> p \<in> set (peer_list vd)"
  by (fastforce simp: lists_ok_def)

lemma lists_ok_mem: "lists_ok ks vds \<Longrightarrow> vds v = Some vd \<Longrightarrow> p \<in> set (peer_list vd) \<longleftrightarrow> (\<exists>a. ks p = Some (a, v))"
  by (simp add: lists_ok_def)

lemma lists_okI:
  assumes "\<And>v vd. vds v = Some vd \<Longrightarrow> distinct (peer_list vd)"
    and "\<And>v vd p. vds v = Some vd \<Longrightarrow> p \<in> set (peer_list vd) \<longleftrightarrow> (\<exists>a. ks p = Some (a, v))"
    and "\<And>p a v. ks p = Some (a, v) \<Longrightarrow> vds v \<noteq> None"
  shows "lists_ok ks vds"
  using assms by (simp add: lists_ok_def)

lemma lists_remove:
  assumes ok: "lists_ok ks vds" and p: "ks p = Some (a, v)" and vd: "vds v = Some vd"
    and vd': "peer_list vd' = remove1 p (peer_list vd)"
  shows "lists_ok (ks(p := None)) (vds(v \<mapsto> vd'))"
proof (rule lists_okI)
  fix w wd assume wd: "(vds(v \<mapsto> vd')) w = Some wd"
  show "distinct (peer_list wd)"
    using wd ok vd vd' by (auto simp: lists_ok_def split: if_splits)
  fix q show "q \<in> set (peer_list wd) \<longleftrightarrow> (\<exists>a. (ks(p := None)) q = Some (a, w))"
  proof (cases "w = v")
    case True
    have "distinct (peer_list vd)" using ok vd by (simp add: lists_ok_def)
    with True wd vd' lists_ok_mem [OF ok vd, of q] show ?thesis by auto
  next
    case False
    with wd p lists_ok_mem [OF ok, of w wd q] show ?thesis by auto
  qed
next
  fix q b w assume "(ks(p := None)) q = Some (b, w)"
  then show "(vds(v \<mapsto> vd')) w \<noteq> None" using lists_ok_vdev [OF ok, of q b w] by (auto split: if_splits)
qed

lemma lists_remove_last:
  assumes ok: "lists_ok ks vds" and p: "ks p = Some (a, v)" and vd: "vds v = Some vd"
    and last: "remove1 p (peer_list vd) = []"
  shows "lists_ok (ks(p := None)) (vds(v := None))"
proof -
  have *: "w \<noteq> v" if "(ks(p := None)) q = Some (b, w)" for q b w
  proof
    assume "w = v"
    with that lists_ok_mem [OF ok vd, of q] have "q \<noteq> p" "q \<in> set (peer_list vd)" by (auto split: if_splits)
    then have "q \<in> set (remove1 p (peer_list vd))" by simp
    with last show False by simp
  qed
  have "lists_ok (ks(p := None)) (vds(v \<mapsto> vd\<lparr>peer_list := []\<rparr>))"
    using last by (intro lists_remove [OF ok p vd]) simp
  then show ?thesis using * by (auto simp: lists_ok_def split: if_splits)
qed

lemma vdev_drop_ok:
  assumes "lists_ok (keys s) (vdevs s)" "keys s p = Some (a, pr_vdev pr)"
  obtains s' where "vdev_drop_peer p pr s = Some s'" "lists_ok ((keys s)(p := None)) (vdevs s')"
    "peers s' = peers s" "hash_mask s' = hash_mask s" "idx_bits s' = idx_bits s" "hash_bins s' = hash_bins s"
    "id_map s' = id_map s" "lp_freelist s' = lp_freelist s" "lp_pool s' = lp_pool s" "lp_map s' = lp_map s"
    "\<And>v vd'. vdevs s' v = Some vd' \<Longrightarrow> \<exists>vd. vdevs s v = Some vd \<and> last_real_peer vd' = last_real_peer vd"
proof -
  let ?v = "pr_vdev pr"
  from assms obtain vd where vd: "vdevs s ?v = Some vd" and p: "p \<in> set (peer_list vd)"
    using lists_ok_vdev by blast
  then obtain s' where s': "vdev_drop_peer p pr s = Some s'" by (simp add: vdev_drop_peer_def Let_def)
  have "lists_ok ((keys s)(p := None)) (vdevs s')"
    using s' vd p lists_remove [OF assms vd] lists_remove_last [OF assms vd]
    by (simp add: vdev_drop_peer_def Let_def) (auto split: if_splits)
  moreover have "\<exists>wd. vdevs s v = Some wd \<and> last_real_peer vd' = last_real_peer wd" if "vdevs s' v = Some vd'" for v vd'
    using s' vd p that by (auto simp: vdev_drop_peer_def Let_def split: if_splits)
  ultimately show ?thesis
    using s' vd p by (intro that [OF s']) (auto simp: vdev_drop_peer_def Let_def split: if_splits)
qed

text \<open>Releasing the last reference frees the peer and removes it from every queue and from the id map.\<close>

lemma hash_remove_ok:
  assumes "table_ok s" "peers s p = Some pr"
  shows "ol_txrx_peer_find_hash_remove p s =
    Some (s\<lparr>hash_bins := (hash_bins s)[ol_txrx_peer_find_hash_index (pr_mac pr) s :=
       remove1 p (hash_bins s ! ol_txrx_peer_find_hash_index (pr_mac pr) s)]\<rparr>)"
  using assms hash_index_less [of "pr_mac pr" s]
  by (auto simp: ol_txrx_peer_find_hash_remove_def Let_def table_ok_def bins_ok_def keys_def)

lemma unref_last:
  assumes tab: "table_ok s" and pr: "peers s p = Some pr" and cnt: "ref_cnt pr = 1"
  obtains s' where "ol_txrx_peer_unref_delete p s = Some s'" "table_ok s'" "peers s' = (peers s)(p := None)"
    "id_map s' = map (\<lambda>e. if ie_peer e = Some p then e\<lparr>ie_peer := None\<rparr> else e) (id_map s)"
    "hash_mask s' = hash_mask s" "idx_bits s' = idx_bits s" "lp_freelist s' = lp_freelist s" "lp_pool s' = lp_pool s" "lp_map s' = lp_map s"
    "\<And>v vd'. vdevs s' v = Some vd' \<Longrightarrow> \<exists>vd. vdevs s v = Some vd \<and> last_real_peer vd' = last_real_peer vd"
proof -
  define pr1 where "pr1 = pr\<lparr>ref_cnt := 0\<rparr>"
  define s1 where "s1 = put_peer p pr1 s"
  have k1: "keys s1 = keys s" using pr by (simp add: s1_def pr1_def keys_put)
  have t1: "table_ok s1" by (rule table_ok_cong [OF tab k1]) (simp_all add: s1_def)
  let ?h = "ol_txrx_peer_find_hash_index (pr_mac pr) s1"
  define s2 where "s2 = s1\<lparr>hash_bins := (hash_bins s1)[?h := remove1 p (hash_bins s1 ! ?h)]\<rparr>"
  have p1: "peers s1 p = Some pr1" by (simp add: s1_def)
  have r2: "ol_txrx_peer_find_hash_remove p s1 = Some s2"
    unfolding s2_def using hash_remove_ok [OF t1 p1] by (simp add: pr1_def)
  have k2: "keys s2 = keys s" by (simp add: s2_def keys_def fun_eq_iff k1 [unfolded keys_def fun_eq_iff])
  have kp: "keys s2 p = Some (pr_mac pr, pr_vdev pr1)" unfolding k2 using pr by (simp add: keys_def pr1_def)
  have "lists_ok (keys s2) (vdevs s2)"
    using t1 by (simp add: table_ok_def k1 k2) (simp add: s2_def)
  from vdev_drop_ok [OF this kp] obtain s3 where s3: "vdev_drop_peer p pr1 s2 = Some s3"
    "lists_ok ((keys s2)(p := None)) (vdevs s3)" "peers s3 = peers s2" "hash_mask s3 = hash_mask s2"
    "idx_bits s3 = idx_bits s2" "hash_bins s3 = hash_bins s2" "id_map s3 = id_map s2" "lp_freelist s3 = lp_freelist s2"
    "lp_pool s3 = lp_pool s2" "lp_map s3 = lp_map s2"
    "\<And>v vd'. vdevs s3 v = Some vd' \<Longrightarrow> \<exists>vd. vdevs s2 v = Some vd \<and> last_real_peer vd' = last_real_peer vd"
    by metis
  let ?s4 = "ol_txrx_peer_clear_map_peer p (note_event (TxQueueFree p) s3)"
  let ?s' = "note_event (PeerFreed p) (note_event (ReorderFree p) (?s4\<lparr>peers := (peers ?s4)(p := None)\<rparr>))"
  have eq: "ol_txrx_peer_unref_delete p s = Some ?s'"
    using pr cnt r2 s3(1) by (simp add: ol_txrx_peer_unref_delete_def Let_def s1_def pr1_def)
  have k': "keys ?s' = (keys s2)(p := None)"
    using s3(3) by (auto simp: keys_def fun_eq_iff ol_txrx_peer_clear_map_peer_def)
  have h: "ol_txrx_peer_find_hash_index a ?s' = ol_txrx_peer_find_hash_index a s1" for a
    by (rule hash_index_cong) (simp_all add: s3 ol_txrx_peer_clear_map_peer_def, simp_all add: s2_def)
  have b': "bins_ok (\<lambda>a. ol_txrx_peer_find_hash_index a s1) ((keys s2)(p := None)) (hash_bins s2)"
    unfolding s2_def using t1 kp k2 hash_index_less [of "pr_mac pr" s1]
    by (simp add: k2 [unfolded s2_def] k1 [symmetric] table_ok_def) (rule bins_remove, simp_all)
  have t': "table_ok ?s'"
    unfolding table_ok_def k' h using b' s3(2,4,6) t1
    by (simp add: table_ok_def ol_txrx_peer_clear_map_peer_def) (simp add: s2_def)
  show ?thesis
    by (rule that [OF eq t']) (use s3 in \<open>simp_all add: ol_txrx_peer_clear_map_peer_def s2_def s1_def\<close>)
qed

section \<open>References taken and released\<close>

lemma refs_okD:
  assumes "refs_ok s att hld" "peers s p = Some pr"
  shows "ref_cnt pr = refs s att hld p pr" "0 < ref_cnt pr"
  using assms unfolding refs_ok_def by blast+

lemma refs_okI:
  assumes "\<And>p pr. peers s p = Some pr \<Longrightarrow> ref_cnt pr = refs s att hld p pr \<and> 0 < ref_cnt pr"
    and "\<And>p. peers s p = None \<Longrightarrow> p \<notin> att \<and> hld p = 0 \<and> map_refs (id_map s) p = 0" and "entries_ok (id_map s)"
  shows "refs_ok s att hld"
  using assms unfolding refs_ok_def by blast

lemma refs_ok_dead: "refs_ok s att hld \<Longrightarrow> peers s p = None \<Longrightarrow> p \<notin> att \<and> hld p = 0 \<and> map_refs (id_map s) p = 0"
  unfolding refs_ok_def by blast

lemma peer_inv_entries: "peer_inv s att hld \<Longrightarrow> entries_ok (id_map s)"
  by (simp add: peer_inv_def refs_ok_def)

lemma peer_inv_table: "peer_inv s att hld \<Longrightarrow> table_ok s"
  by (simp add: peer_inv_def)

lemma peer_inv_refs: "peer_inv s att hld \<Longrightarrow> refs_ok s att hld"
  by (simp add: peer_inv_def)

text \<open>The invariant after a change of one peer and of the id map entries that refer to it.\<close>

lemma peer_inv_upd:
  assumes inv: "peer_inv s att hld" and pr: "peers s p = Some pr"
    and same: "pr_mac pr' = pr_mac pr" "pr_vdev pr' = pr_vdev pr" "local_id pr' = local_id pr"
    and ids: "length (peer_ids pr') = MAX_NUM_PEER_ID_PER_PEER"
      "\<And>i. i \<in> set (peer_ids pr') \<Longrightarrow> i = HTT_INVALID_PEER \<or> unat i < length (id_map s)"
    and es: "length es = length (id_map s)" "entries_ok es" "\<And>q. q \<noteq> p \<Longrightarrow> map_refs es q = map_refs (id_map s) q"
    and cnt: "ref_cnt pr' = of_bool (p \<in> att) + of_bool (fw_create_pending pr') + int (hld' p) + map_refs es p" "0 < ref_cnt pr'"
    and hld: "\<And>q. q \<noteq> p \<Longrightarrow> hld' q = hld q"
  shows "peer_inv (put_peer p pr' (s\<lparr>id_map := es\<rparr>)) att hld'"
proof -
  let ?s = "put_peer p pr' (s\<lparr>id_map := es\<rparr>)"
  have k: "keys ?s = keys s" using pr same by (auto simp: keys_def fun_eq_iff)
  have l: "locals ?s = locals s" using pr same by (auto simp: locals_def fun_eq_iff)
  note rok = peer_inv_refs [OF inv]
  have "refs_ok ?s att hld'"
  proof (rule refs_okI)
    fix q qr assume qr: "peers ?s q = Some qr"
    show "ref_cnt qr = refs ?s att hld' q qr \<and> 0 < ref_cnt qr"
    proof (cases "q = p")
      case True
      with qr cnt show ?thesis by (simp add: refs_def)
    next
      case False
      with qr have "peers s q = Some qr" by simp
      from refs_okD [OF rok this] False show ?thesis by (simp add: refs_def hld es(3))
    qed
  next
    fix q assume "peers ?s q = None"
    then have "q \<noteq> p" "peers s q = None" by (auto split: if_splits)
    with refs_ok_dead [OF rok] show "q \<notin> att \<and> hld' q = 0 \<and> map_refs (id_map ?s) q = 0" by (simp add: hld es(3))
  qed (simp add: es)
  moreover have "ids_ok ?s" using inv ids es(1) by (auto simp: peer_inv_def ids_ok_def)
  moreover have "table_ok ?s" by (rule table_ok_cong [OF peer_inv_table [OF inv] k]) simp_all
  ultimately show ?thesis using inv by (simp add: peer_inv_def k l)
qed

lemma put_peer_same_map [simp]: "put_peer p pr (s\<lparr>id_map := id_map s\<rparr>) = put_peer p pr s"
  by (simp add: put_peer_def)

lemma peer_inv_put:
  assumes inv: "peer_inv s att hld" and pr: "peers s p = Some pr"
    and same: "pr_mac pr' = pr_mac pr" "pr_vdev pr' = pr_vdev pr" "local_id pr' = local_id pr" "peer_ids pr' = peer_ids pr"
    and cnt: "ref_cnt pr' = of_bool (p \<in> att) + of_bool (fw_create_pending pr') + int (hld' p) + map_refs (id_map s) p" "0 < ref_cnt pr'"
    and hld: "\<And>q. q \<noteq> p \<Longrightarrow> hld' q = hld q"
  shows "peer_inv (put_peer p pr' s) att hld'"
  using peer_inv_upd [OF inv pr same(1-3) _ _ refl peer_inv_entries [OF inv] refl cnt hld] inv pr same(4)
  by (auto simp: peer_inv_def ids_ok_def)

lemma change_ref_cnt_ok:
  assumes inv: "peer_inv s att hld" and pr: "peers s p = Some pr"
  shows "change_ref_cnt p 1 s = Some (put_peer p (pr\<lparr>ref_cnt := ref_cnt pr + 1\<rparr>) s) \<and>
    peer_inv (put_peer p (pr\<lparr>ref_cnt := ref_cnt pr + 1\<rparr>) s) att (hld(p := Suc (hld p)))"
  using refs_okD [OF peer_inv_refs [OF inv] pr]
  by (auto simp: change_ref_cnt_def pr refs_def intro!: peer_inv_put [OF inv pr])

lemma unref_more:
  "peers s p = Some pr \<Longrightarrow> 1 < ref_cnt pr \<Longrightarrow> ol_txrx_peer_unref_delete p s = Some (put_peer p (pr\<lparr>ref_cnt := ref_cnt pr - 1\<rparr>) s)"
  by (simp add: ol_txrx_peer_unref_delete_def Let_def)

lemma clear_map_nop:
  "entries_ok es \<Longrightarrow> map_refs es p = 0 \<Longrightarrow> map (\<lambda>e. if ie_peer e = Some p then e\<lparr>ie_peer := None\<rparr> else e) es = es"
  using map_refs_zero by (intro map_idI) auto

lemma unref_last_inv:
  assumes inv: "peer_inv s att hld" and pr: "peers s p = Some pr" and hp: "0 < hld p" and cnt: "ref_cnt pr = 1"
  shows "\<exists>s'. ol_txrx_peer_unref_delete p s = Some s' \<and> peer_inv s' att (hld(p := hld p - 1)) \<and> peers s' = (peers s)(p := None)"
proof -
  from inv have rok: "refs_ok s att hld" and eok: "entries_ok (id_map s)"
    by (simp_all add: peer_inv_refs peer_inv_entries)
  from refs_okD [OF rok pr] cnt hp map_refs_nonneg [OF eok, of p]
  have z: "p \<notin> att" "hld p = 1" "map_refs (id_map s) p = 0"
    by (auto simp: refs_def of_bool_def split: if_splits)
  from unref_last [OF peer_inv_table [OF inv] pr cnt] obtain s' where
    s': "ol_txrx_peer_unref_delete p s = Some s'" "table_ok s'" "peers s' = (peers s)(p := None)"
      "id_map s' = id_map s" "lp_freelist s' = lp_freelist s" "lp_pool s' = lp_pool s" "lp_map s' = lp_map s"
    and real: "\<And>v vd'. vdevs s' v = Some vd' \<Longrightarrow> \<exists>vd. vdevs s v = Some vd \<and> last_real_peer vd' = last_real_peer vd"
    unfolding clear_map_nop [OF eok z(3)] by metis
  have k: "keys s' = (keys s)(p := None)" "locals s' = (locals s)(p := None)"
    using s'(3) by (auto simp: keys_def locals_def fun_eq_iff)
  have "refs_ok s' att (hld(p := hld p - 1))"
  proof (rule refs_okI)
    fix q qr assume "peers s' q = Some qr"
    with s'(3) have q: "q \<noteq> p" "peers s q = Some qr" by (auto split: if_splits)
    from refs_okD [OF rok q(2)] q(1) s'(4)
    show "ref_cnt qr = refs s' att (hld(p := hld p - 1)) q qr \<and> 0 < ref_cnt qr" by (simp add: refs_def)
  next
    fix q assume "peers s' q = None"
    then show "q \<notin> att \<and> (hld(p := hld p - 1)) q = 0 \<and> map_refs (id_map s') q = 0"
      using s'(3,4) z refs_ok_dead [OF rok, of q] by (cases "q = p") auto
  qed (simp add: s'(4) eok)
  moreover have "real_ok (keys s') att (vdevs s')"
    unfolding real_ok_def
  proof (intro allI impI)
    fix v vd' q assume vd': "vdevs s' v = Some vd'" "last_real_peer vd' = Some q"
    from real [OF this(1)] this(2) inv have "q \<in> att \<and> (\<exists>a. keys s q = Some (a, v))"
      by (auto simp: peer_inv_def real_ok_def)
    with z(1) k(1) show "q \<in> att \<and> (\<exists>a. keys s' q = Some (a, v))" by auto
  qed
  moreover have "ids_ok s'" using inv s'(3,4) by (simp add: peer_inv_def ids_ok_def)
  moreover have "pool_ok (locals s') att (lp_freelist s') (lp_pool s') (lp_map s')"
  proof -
    have "(q \<in> att \<and> locals s' q = x) = (q \<in> att \<and> locals s q = x)" for q x using z(1) k(2) by auto
    moreover have "\<forall>q \<in> att. locals s' q = locals s q" using z(1) k(2) by auto
    ultimately show ?thesis using inv s' unfolding peer_inv_def pool_ok_def by simp
  qed
  ultimately show ?thesis using s' by (auto simp: peer_inv_def)
qed

text \<open>A held reference can be released, whatever else refers to the peer.\<close>

lemma unref_ok:
  assumes inv: "peer_inv s att hld" and hp: "0 < hld p"
  obtains s' pr where "ol_txrx_peer_unref_delete p s = Some s'" "peer_inv s' att (hld(p := hld p - 1))" "peers s p = Some pr"
    "peers s' = (peers s)(p := if ref_cnt pr = 1 then None else Some (pr\<lparr>ref_cnt := ref_cnt pr - 1\<rparr>))"
proof -
  from inv hp obtain pr where pr: "peers s p = Some pr"
    unfolding peer_inv_def refs_ok_def by (cases "peers s p") auto
  note cnt = refs_okD [OF peer_inv_refs [OF inv] pr]
  show ?thesis
  proof (cases "ref_cnt pr = 1")
    case True
    with unref_last_inv [OF inv pr hp] pr that show ?thesis by auto
  next
    case False
    with cnt have "1 < ref_cnt pr" by simp
    moreover from this have "peer_inv (put_peer p (pr\<lparr>ref_cnt := ref_cnt pr - 1\<rparr>) s) att (hld(p := hld p - 1))"
      using cnt hp by (intro peer_inv_put [OF inv pr]) (simp_all add: refs_def of_nat_diff)
    ultimately show ?thesis using that unref_more [OF pr] pr False by simp
  qed
qed

section \<open>Local ids\<close>

lemma unat_local_id: "i < OL_TXRX_NUM_LOCAL_PEER_IDS \<Longrightarrow> unat (of_nat i :: u16) = i"
  by (simp add: OL_TXRX_NUM_LOCAL_PEER_IDS_def unsigned_of_nat take_bit_nat_eq_self)

lemma invalid_not_local: "i < OL_TXRX_NUM_LOCAL_PEER_IDS \<Longrightarrow> of_nat i \<noteq> OL_TXRX_INVALID_LOCAL_PEER_ID"
  using unat_local_id [of i] by (auto simp: OL_TXRX_INVALID_LOCAL_PEER_ID_def OL_TXRX_NUM_LOCAL_PEER_IDS_def)

lemma free_ids_update: "i \<notin> set xs \<Longrightarrow> free_ids (pool[i := v]) j xs = free_ids pool j xs"
proof (induction xs arbitrary: j)
  case (Cons x xs)
  then have "i \<noteq> x" and IH: "free_ids (pool[i := v]) j xs = free_ids pool j xs" for j by simp_all
  then show ?case by (cases "x = j") (simp_all only: free_ids.simps nth_list_update_neq IH simp_thms)
qed simp

lemma free_ids_less: "free_ids pool i xs \<Longrightarrow> x \<in> set xs \<Longrightarrow> x < OL_TXRX_NUM_LOCAL_PEER_IDS"
  by (induction xs arbitrary: i) auto

lemma pool_free_invalid:
  assumes "pool_ok ls att fl pool m" "ls p = Some OL_TXRX_INVALID_LOCAL_PEER_ID"
  shows "pool_ok ls (att - {p}) fl pool m"
proof -
  have "(q \<in> att - {p} \<and> ls q = Some (of_nat i)) = (q \<in> att \<and> ls q = Some (of_nat i))"
    if "i < OL_TXRX_NUM_LOCAL_PEER_IDS" for q i
    using assms(2) invalid_not_local [OF that] by auto
  then show ?thesis using assms(1) unfolding pool_ok_def by simp
qed

lemma pool_free:
  assumes ok: "pool_ok ls att fl pool m" and p: "p \<in> att" "ls p = Some l" and l: "unat l < OL_TXRX_NUM_LOCAL_PEER_IDS"
  shows "pool_ok ls (att - {p}) (unat l) (pool[unat l := fl]) (m[unat l := None])"
proof -
  let ?i = "unat l" and ?N = OL_TXRX_NUM_LOCAL_PEER_IDS
  from ok have len: "length pool = Suc ?N" "length m = ?N" "pool ! ?N = ?N"
    and own: "\<And>i q. i < ?N \<Longrightarrow> m ! i = Some q \<longleftrightarrow> q \<in> att \<and> ls q = Some (of_nat i)"
    and loc: "\<And>q. q \<in> att \<Longrightarrow> \<exists>l. ls q = Some l \<and> (l = OL_TXRX_INVALID_LOCAL_PEER_ID \<or> unat l < ?N)"
    unfolding pool_ok_def by blast+
  from ok obtain free where free: "free_ids pool fl free" "distinct free" "\<And>i. i < ?N \<Longrightarrow> i \<in> set free \<longleftrightarrow> m ! i = None"
    unfolding pool_ok_def by blast
  have mi: "m ! ?i = Some p" using own [OF l] p by simp
  with free(3) [OF l] have ni: "?i \<notin> set free" by simp
  have "free_ids (pool[?i := fl]) ?i (?i # free)" using free(1) ni l len by (simp add: free_ids_update)
  moreover have "\<forall>j < ?N. j \<in> set (?i # free) \<longleftrightarrow> m[?i := None] ! j = None"
    using free(3) len by (auto simp: nth_list_update_if)
  moreover have "\<forall>j < ?N. \<forall>q. m[?i := None] ! j = Some q \<longleftrightarrow> q \<in> att - {p} \<and> ls q = Some (of_nat j)"
  proof (intro allI impI)
    fix j q assume j: "j < ?N"
    show "m[?i := None] ! j = Some q \<longleftrightarrow> q \<in> att - {p} \<and> ls q = Some (of_nat j)"
    proof (cases "j = ?i")
      case True
      with own [OF j, of q] mi j len show ?thesis by auto
    next
      case False
      with p(2) unat_local_id [OF j] have "ls p \<noteq> Some (of_nat j)" by auto
      with False own [OF j, of q] j len show ?thesis by auto
    qed
  qed
  ultimately show ?thesis
    unfolding pool_ok_def using free(2) ni len l loc by (intro conjI exI [of _ "?i # free"]) auto
qed

lemma pool_alloc:
  assumes ok: "pool_ok ls att fl pool m" and p: "p \<notin> att"
  shows "fl < length pool"
    and "pool ! fl = fl \<Longrightarrow> pool_ok (ls(p \<mapsto> OL_TXRX_INVALID_LOCAL_PEER_ID)) (insert p att) fl pool m"
    and "pool ! fl \<noteq> fl \<Longrightarrow>
      fl < length m \<and> pool_ok (ls(p \<mapsto> of_nat fl)) (insert p att) (pool ! fl) pool (m[fl := Some p])"
proof -
  let ?N = OL_TXRX_NUM_LOCAL_PEER_IDS
  from ok have len: "length pool = Suc ?N" "length m = ?N" "pool ! ?N = ?N"
    and own: "\<And>i q. i < ?N \<Longrightarrow> m ! i = Some q \<longleftrightarrow> q \<in> att \<and> ls q = Some (of_nat i)"
    and loc: "\<And>q. q \<in> att \<Longrightarrow> \<exists>l. ls q = Some l \<and> (l = OL_TXRX_INVALID_LOCAL_PEER_ID \<or> unat l < ?N)"
    unfolding pool_ok_def by blast+
  from ok obtain free where free: "free_ids pool fl free" "distinct free" "\<And>i. i < ?N \<Longrightarrow> i \<in> set free \<longleftrightarrow> m ! i = None"
    unfolding pool_ok_def by blast
  show "fl < length pool" using free(1) len by (cases free) auto
  have other: "(q \<in> insert p att \<and> (ls(p \<mapsto> l)) q = Some (of_nat i)) = (q \<in> att \<and> ls q = Some (of_nat i))"
    if "l \<noteq> of_nat i" for q i l
    using that p by auto
  {
    assume "pool ! fl = fl"
    show "pool_ok (ls(p \<mapsto> OL_TXRX_INVALID_LOCAL_PEER_ID)) (insert p att) fl pool m"
      unfolding pool_ok_def using len own loc free other [OF invalid_not_local [symmetric]] p
      by (intro conjI exI [of _ free]) auto
  next
    assume "pool ! fl \<noteq> fl"
    with free(1) len(3) obtain xs where fr: "free = fl # xs" and fl: "fl < ?N" and xs: "free_ids pool (pool ! fl) xs"
      by (cases free) auto
    have "\<forall>j < ?N. j \<in> set xs \<longleftrightarrow> m[fl := Some p] ! j = None"
      using free(2,3) fr len by (auto simp: nth_list_update_if)
    moreover have "\<forall>j < ?N. \<forall>q. m[fl := Some p] ! j = Some q \<longleftrightarrow> q \<in> insert p att \<and> (ls(p \<mapsto> of_nat fl)) q = Some (of_nat j)"
    proof (intro allI impI)
      fix j q assume j: "j < ?N"
      show "m[fl := Some p] ! j = Some q \<longleftrightarrow> q \<in> insert p att \<and> (ls(p \<mapsto> of_nat fl)) q = Some (of_nat j)"
      proof (cases "j = fl")
        case True
        have "m ! fl = None" using free(3) [OF fl] fr by simp
        with own [OF fl] True len fl show ?thesis by auto
      next
        case False
        then have "(of_nat fl :: u16) \<noteq> of_nat j" by (metis fl j unat_local_id)
        from other [OF this, of q] False own [OF j, of q] j len show ?thesis by auto
      qed
    qed
    ultimately show "fl < length m \<and> pool_ok (ls(p \<mapsto> of_nat fl)) (insert p att) (pool ! fl) pool (m[fl := Some p])"
      unfolding pool_ok_def using free(2) fr xs len fl loc unat_local_id [OF fl] by (intro conjI exI [of _ xs]) auto
  }
qed

section \<open>Lookups\<close>

text \<open>The first peer of a queue that satisfies a test, on live peers.\<close>

definition passes :: "(nat \<Rightarrow> txrx_peer option) \<Rightarrow> (txrx_peer \<Rightarrow> bool) \<Rightarrow> nat \<Rightarrow> bool" where
  "passes ps tst p \<longleftrightarrow> (case ps p of None \<Rightarrow> False | Some pr \<Rightarrow> tst pr)"

lemma bin_find_eq: "\<forall>p \<in> set q. ps p \<noteq> None \<Longrightarrow> bin_find ps tst q = Some (find (passes ps tst) q)"
  by (induction q) (auto simp: passes_def)

lemma bin_live:
  assumes "table_ok s" "b < length (hash_bins s)" "p \<in> set (hash_bins s ! b)"
  shows "\<exists>pr. peers s p = Some pr \<and> ol_txrx_peer_find_hash_index (pr_mac pr) s = b"
  using assms by (auto simp: table_ok_def bins_ok_def keys_def)

lemma find_and_ref_eq:
  assumes tab: "table_ok s"
  shows "find_and_ref a tst s =
    (case find (passes (peers s) tst) (hash_bins s ! ol_txrx_peer_find_hash_index a s) of
       None \<Rightarrow> Some (s, None) | Some p \<Rightarrow> map_option (\<lambda>s1. (s1, Some p)) (change_ref_cnt p 1 s))"
proof -
  let ?b = "ol_txrx_peer_find_hash_index a s"
  have b: "?b < length (hash_bins s)" using tab hash_index_less [of a s] by (simp add: table_ok_def)
  have "\<forall>p \<in> set (hash_bins s ! ?b). peers s p \<noteq> None" using bin_live [OF tab b] by blast
  with b show ?thesis by (simp add: find_and_ref_def Let_def bin_find_eq split: option.split)
qed

lemma find_and_ref_ok:
  assumes inv: "peer_inv s att hld"
  obtains (none) "find_and_ref a tst s = Some (s, None)"
      "\<And>p pr. \<lbrakk>peers s p = Some pr; pr_mac pr = a\<rbrakk> \<Longrightarrow> \<not> tst pr"
  | (found) p pr where "find_and_ref a tst s = Some (put_peer p (pr\<lparr>ref_cnt := ref_cnt pr + 1\<rparr>) s, Some p)"
      "peers s p = Some pr" "tst pr" "peer_inv (put_peer p (pr\<lparr>ref_cnt := ref_cnt pr + 1\<rparr>) s) att (hld(p := Suc (hld p)))"
proof (cases "find (passes (peers s) tst) (hash_bins s ! ol_txrx_peer_find_hash_index a s)")
  case None
  have *: "\<not> tst pr" if "peers s p = Some pr" "pr_mac pr = a" for p pr
  proof -
    from that hash_index_less [of a s] peer_inv_table [OF inv]
    have "p \<in> set (hash_bins s ! ol_txrx_peer_find_hash_index a s)"
      by (auto simp: table_ok_def bins_ok_def keys_def)
    with None that show ?thesis by (auto simp: find_None_iff passes_def)
  qed
  show ?thesis by (rule none [OF _ *]) (simp_all add: find_and_ref_eq [OF peer_inv_table [OF inv]] None)
next
  case (Some p)
  then have "passes (peers s) tst p" by (auto dest: find_split)
  then obtain pr where pr: "peers s p = Some pr" "tst pr" by (auto simp: passes_def split: option.splits)
  with change_ref_cnt_ok [OF inv pr(1)] Some show ?thesis
    by (intro found [OF _ pr]) (simp_all add: find_and_ref_eq [OF peer_inv_table [OF inv]])
qed

text \<open>The outcome of a lookup: the state is unchanged, or the peer that is found has one more reference.\<close>

definition held_result :: "txrx_pdev \<times> nat option \<Rightarrow> (nat \<Rightarrow> nat) \<Rightarrow> nat \<Rightarrow> nat" where
  "held_result r hld = (case snd r of None \<Rightarrow> hld | Some p \<Rightarrow> hld(p := Suc (hld p)))"

lemma find_and_ref_inv:
  assumes inv: "peer_inv s att hld"
  obtains r where "find_and_ref a tst s = Some r" "peer_inv (fst r) att (held_result r hld)"
  using inv by (cases rule: find_and_ref_ok [OF inv, of a tst]) (auto simp: held_result_def)

lemma assoc_find_inv:
  assumes inv: "peer_inv s att hld" and v: "vdevs s v \<noteq> None"
  obtains r where "ol_txrx_assoc_peer_find v s = Some r" "peer_inv (fst r) att (held_result r hld)"
proof -
  from v obtain vd where vd: "vdevs s v = Some vd" by auto
  show ?thesis
  proof (cases "last_real_peer vd")
    case None
    with vd inv show ?thesis by (intro that [of "(s, None)"]) (simp_all add: ol_txrx_assoc_peer_find_def held_result_def)
  next
    case (Some p)
    with inv vd obtain pr where pr: "peers s p = Some pr"
      by (fastforce simp: peer_inv_def real_ok_def keys_def)
    note c = change_ref_cnt_ok [OF inv pr]
    show ?thesis
    proof (cases "peer_ids pr ! 0 \<noteq> HTT_INVALID_PEER")
      case True
      with vd Some pr c show ?thesis
        by (intro that [of "(put_peer p (pr\<lparr>ref_cnt := ref_cnt pr + 1\<rparr>) s, Some p)"])
          (simp_all add: ol_txrx_assoc_peer_find_def held_result_def)
    next
      case False
      with vd Some pr inv show ?thesis
        by (intro that [of "(s, None)"]) (simp_all add: ol_txrx_assoc_peer_find_def held_result_def)
    qed
  qed
qed

text \<open>A lookup that gives its reference back keeps the invariant and frees nothing.\<close>

lemma find_and_unref_inv:
  assumes inv: "peer_inv s att hld"
  obtains r where "find_and_unref (find_and_ref a tst s) = Some r" "peer_inv (fst r) att hld" "peers (fst r) = peers s"
  using inv
proof (cases rule: find_and_ref_ok [where a = a and tst = tst, consumes 1, case_names none found])
  case none
  with inv show ?thesis by (intro that [of "(s, None)"]) (simp_all add: find_and_unref_def)
next
  case (found p pr)
  let ?s = "put_peer p (pr\<lparr>ref_cnt := ref_cnt pr + 1\<rparr>) s"
  from refs_okD [OF peer_inv_refs [OF inv] found(2)] have "0 < ref_cnt pr" by simp
  moreover obtain s' pr' where s': "ol_txrx_peer_unref_delete p ?s = Some s'"
    "peer_inv s' att ((hld(p := Suc (hld p)))(p := (hld(p := Suc (hld p))) p - 1))" "peers ?s p = Some pr'"
    "peers s' = (peers ?s)(p := if ref_cnt pr' = 1 then None else Some (pr'\<lparr>ref_cnt := ref_cnt pr' - 1\<rparr>))"
    by (rule unref_ok [OF found(4), of p]) auto
  ultimately show ?thesis
    using found by (intro that [of "(s', Some (p, ucast (local_id pr)))"]) (auto simp: find_and_unref_def fun_eq_iff)
qed

lemma find_by_addr_eq:
  "ol_txrx_peer_find_by_addr a s = map_option (apsnd (map_option fst)) (find_and_unref (ol_txrx_peer_find_hash_find_inc_ref a False s))"
  by (cases "ol_txrx_peer_find_hash_find_inc_ref a False s")
    (auto simp: ol_txrx_peer_find_by_addr_def find_and_unref_def ol_txrx_peer_unref_delete_def Let_def
      split: option.splits bind_splits)

end
