(* ===== verification/Peer_Safety.thy ===== *)
theory Peer_Safety
  imports Peer_Inv
begin

text \<open>
  Every operation of the peer interface keeps the invariant of \<open>Peer_Inv\<close>, under the obligations of its caller and of
  the firmware that \<open>peer_op_ok\<close> lists. Consequences: no interleaving of the operations reaches freed memory, the
  counters are exact and nothing refers to a freed peer.
\<close>

section \<open>Map and unmap messages\<close>

lemma insert_id_props [simp]:
  "length (insert_id i ids) = length ids" "x \<in> set (insert_id i ids) \<Longrightarrow> x = i \<or> x \<in> set ids"
  using set_update_subset_insert [of ids] by (auto simp: insert_id_def split: option.splits)

lemma remove_id_props [simp]:
  "length (remove_id i ids) = length ids" "x \<in> set (remove_id i ids) \<Longrightarrow> x = HTT_INVALID_PEER \<or> x \<in> set ids"
  using set_update_subset_insert [of ids] by (auto simp: remove_id_def split: option.splits)

lemma map_id_props:
  assumes "entries_ok es" "i < length es" "ie_peer (es ! i) = None \<or> ie_peer (es ! i) = Some p"
  shows "entries_ok (es[i := map_id j p (es ! i)])"
    and "map_refs (es[i := map_id j p (es ! i)]) q = map_refs es q + of_bool (q = p)"
proof -
  have "ie_peer (map_id j p (es ! i)) = Some p" "0 < peer_id_ref_cnt (map_id j p (es ! i))"
    "peer_id_ref_cnt (map_id j p (es ! i)) = (if ie_peer (es ! i) = None then 1 else peer_id_ref_cnt (es ! i) + 1)"
    using assms entries_ok_nth [OF assms(1,2)] by (force simp: map_id_def Let_def)+
  then show "entries_ok (es[i := map_id j p (es ! i)])" "map_refs (es[i := map_id j p (es ! i)]) q = map_refs es q + of_bool (q = p)"
    using assms by (auto simp: entries_ok_update map_refs_update)
qed

text \<open>
  The id of a map message is a valid index, and the entry is free or already belongs to the peer that the message
  names; or it is the invalid id.
\<close>

definition map_msg_ok :: "u16 \<Rightarrow> mac_addr \<Rightarrow> txrx_pdev \<Rightarrow> bool" where
  "map_msg_ok i a s \<longleftrightarrow> i = HTT_INVALID_PEER \<or> unat i < length (id_map s) \<and>
     (case ol_txrx_peer_find_hash_find_inc_ref a False s of
        Some (_, Some p) \<Rightarrow> ie_peer (id_map s ! unat i) = None \<or> ie_peer (id_map s ! unat i) = Some p
      | _ \<Rightarrow> True)"

text \<open>The reference of a map message with the invalid id is never released.\<close>

definition map_held :: "u16 \<Rightarrow> mac_addr \<Rightarrow> txrx_pdev \<Rightarrow> (nat \<Rightarrow> nat) \<Rightarrow> nat \<Rightarrow> nat" where
  "map_held i a s hld =
     (if i = HTT_INVALID_PEER
      then case ol_txrx_peer_find_hash_find_inc_ref a False s of Some r \<Rightarrow> held_result r hld | None \<Rightarrow> hld
      else hld)"

lemma map_new_id:
  assumes inv: "peer_inv s att hld" and pr: "peers s p = Some pr" and i: "i \<noteq> HTT_INVALID_PEER" "unat i < length (id_map s)"
    and e: "ie_peer (id_map s ! unat i) = None \<or> ie_peer (id_map s ! unat i) = Some p"
    and pr': "pr' = pr\<lparr>ref_cnt := ref_cnt pr + 1, peer_ids := insert_id i (peer_ids pr)\<rparr>"
    and s': "s' = s\<lparr>id_map := (id_map s)[unat i := map_id i p (id_map s ! unat i)]\<rparr>"
  shows "peer_inv (put_peer p pr' s') att hld"
    and "fw_create_pending pr \<Longrightarrow> peer_inv (put_peer p (pr'\<lparr>fw_create_pending := False\<rparr>) s') att (hld(p := Suc (hld p)))"
    and "fw_create_pending pr \<Longrightarrow> 1 < ref_cnt pr'"
proof -
  note es = map_id_props [OF peer_inv_entries [OF inv] i(2) e, of i]
  note cnt = refs_okD [OF peer_inv_refs [OF inv] pr]
  have ids: "length (peer_ids pr) = MAX_NUM_PEER_ID_PER_PEER"
    "\<And>x. x \<in> set (insert_id i (peer_ids pr)) \<Longrightarrow> x = HTT_INVALID_PEER \<or> unat x < length (id_map s)"
    using inv pr i(2) by (auto simp: peer_inv_def ids_ok_def dest!: insert_id_props(2))
  show "peer_inv (put_peer p pr' s') att hld"
    unfolding s' by (rule peer_inv_upd [OF inv pr]) (use ids es cnt in \<open>simp_all add: pr' refs_def\<close>)
  show "peer_inv (put_peer p (pr'\<lparr>fw_create_pending := False\<rparr>) s') att (hld(p := Suc (hld p)))" if "fw_create_pending pr"
    unfolding s' by (rule peer_inv_upd [OF inv pr]) (use ids es cnt that in \<open>simp_all add: pr' refs_def\<close>)
  show "1 < ref_cnt pr'" using cnt by (simp add: pr')
qed

lemma map_handler_inv:
  assumes inv: "peer_inv s att hld" and ok: "map_msg_ok i a s"
  obtains s' where "ol_rx_peer_map_handler i a s = Some s'" "peer_inv s' att (map_held i a s hld)"
    "\<And>p. peers s' p = None \<longleftrightarrow> peers s p = None"
  using inv
proof (cases rule: find_and_ref_ok [where a = a and tst = "\<lambda>pr. \<not> ol_txrx_peer_find_mac_addr_cmp a (pr_mac pr)",
      consumes 1, case_names none found])
  case none
  with inv show ?thesis
    by (intro that [of s]) (simp_all add: ol_rx_peer_map_handler_def ol_txrx_peer_find_add_id_def map_held_def
        ol_txrx_peer_find_hash_find_inc_ref_def held_result_def)
next
  case (found p pr)
  let ?s1 = "put_peer p (pr\<lparr>ref_cnt := ref_cnt pr + 1\<rparr>) s"
  have f: "ol_txrx_peer_find_hash_find_inc_ref a False s = Some (?s1, Some p)"
    using found(1) by (simp add: ol_txrx_peer_find_hash_find_inc_ref_def)
  show ?thesis
  proof (cases "i = HTT_INVALID_PEER")
    case True
    with f found(2,4) show ?thesis
      by (intro that [of ?s1]) (auto simp: ol_rx_peer_map_handler_def ol_txrx_peer_find_add_id_def map_held_def held_result_def)
  next
    case False
    with ok f have i: "unat i < length (id_map s)"
      and e: "ie_peer (id_map s ! unat i) = None \<or> ie_peer (id_map s ! unat i) = Some p"
      by (auto simp: map_msg_ok_def)
    define pr' where "pr' = pr\<lparr>ref_cnt := ref_cnt pr + 1, peer_ids := insert_id i (peer_ids pr)\<rparr>"
    define s2 where "s2 = s\<lparr>id_map := (id_map s)[unat i := map_id i p (id_map s ! unat i)]\<rparr>"
    note new = map_new_id [OF inv found(2) False i e pr'_def s2_def]
    have put: "put_peer p x (?s1\<lparr>id_map := es\<rparr>) = put_peer p x (s\<lparr>id_map := es\<rparr>)" for x es
      by (simp add: put_peer_def)
    show ?thesis
    proof (cases "fw_create_pending pr")
      case True
      let ?s3 = "put_peer p (pr'\<lparr>fw_create_pending := False\<rparr>) s2"
      have "peers ?s3 p = Some (pr'\<lparr>fw_create_pending := False\<rparr>)" by simp
      from unref_more [OF this] new(3) [OF True]
      have u: "ol_txrx_peer_unref_delete p ?s3 =
          Some (put_peer p (pr'\<lparr>fw_create_pending := False, ref_cnt := ref_cnt pr' - 1\<rparr>) ?s3)" (is "_ = Some ?s4") by simp
      from unref_ok [OF new(2) [OF True], of p] u have "peer_inv ?s4 att hld" by auto
      with True u f False i show ?thesis
        by (intro that [of ?s4]) (simp_all add: ol_rx_peer_map_handler_def ol_txrx_peer_find_add_id_def map_held_def Let_def put
            pr'_def s2_def found(2))
    next
      case nop: False
      with new(1) f False i show ?thesis
        by (intro that [of "put_peer p pr' s2"]) (simp_all add: ol_rx_peer_map_handler_def ol_txrx_peer_find_add_id_def
            map_held_def Let_def put pr'_def s2_def found(2))
    qed
  qed
qed

lemma put_peer_id: "peers s p = Some pr \<Longrightarrow> put_peer p pr (s\<lparr>id_map := es\<rparr>) = s\<lparr>id_map := es\<rparr>"
  by (simp add: put_peer_def fun_upd_idem)

lemma peer_inv_map:
  assumes "peer_inv s att hld" "length es = length (id_map s)" "entries_ok es" "\<And>q. map_refs es q = map_refs (id_map s) q"
  shows "peer_inv (s\<lparr>id_map := es\<rparr>) att hld"
proof -
  have k: "keys (s\<lparr>id_map := es\<rparr>) = keys s" "locals (s\<lparr>id_map := es\<rparr>) = locals s"
    by (auto simp: keys_def locals_def)
  have "table_ok (s\<lparr>id_map := es\<rparr>)" by (rule table_ok_cong [OF peer_inv_table [OF assms(1)] k(1)]) simp_all
  moreover have "refs_ok (s\<lparr>id_map := es\<rparr>) att hld"
    by (rule refs_okI) (use assms(3,4) refs_okD [OF peer_inv_refs [OF assms(1)]] refs_ok_dead [OF peer_inv_refs [OF assms(1)]]
        in \<open>simp_all add: refs_def\<close>)
  ultimately show ?thesis using assms(1,2) k by (simp add: peer_inv_def ids_ok_def)
qed

lemma unmap_entry:
  assumes inv: "peer_inv s att hld" and i: "i < length (id_map s)" and e: "e = id_map s ! i" and p: "ie_peer e = Some p"
    and pr: "peers s p = Some pr" and e': "e' = e\<lparr>peer_id_ref_cnt := peer_id_ref_cnt e - 1\<rparr>"
  shows "peer_id_ref_cnt e' = 0 \<Longrightarrow>
      peer_inv (put_peer p (pr\<lparr>peer_ids := remove_id j (peer_ids pr)\<rparr>) (s\<lparr>id_map := (id_map s)[i := e'\<lparr>ie_peer := None\<rparr>]\<rparr>))
        att (hld(p := Suc (hld p)))"
    and "peer_id_ref_cnt e' \<noteq> 0 \<Longrightarrow> peer_inv (s\<lparr>id_map := (id_map s)[i := e']\<rparr>) att (hld(p := Suc (hld p)))"
proof -
  note ent = peer_inv_entries [OF inv] and cnt = refs_okD [OF peer_inv_refs [OF inv] pr]
  have pos: "0 < peer_id_ref_cnt e" using entries_ok_nth [OF ent i] p e by simp
  have ids: "length (peer_ids pr) = MAX_NUM_PEER_ID_PER_PEER"
    "\<And>x. x \<in> set (peer_ids pr) \<Longrightarrow> x = HTT_INVALID_PEER \<or> unat x < length (id_map s)"
    "\<And>x. x \<in> set (remove_id j (peer_ids pr)) \<Longrightarrow> x = HTT_INVALID_PEER \<or> unat x < length (id_map s)"
    using inv pr by (auto simp: peer_inv_def ids_ok_def dest!: remove_id_props(2))
  show "peer_inv (put_peer p (pr\<lparr>peer_ids := remove_id j (peer_ids pr)\<rparr>) (s\<lparr>id_map := (id_map s)[i := e'\<lparr>ie_peer := None\<rparr>]\<rparr>))
        att (hld(p := Suc (hld p)))" if "peer_id_ref_cnt e' = 0"
    by (rule peer_inv_upd [OF inv pr])
      (use ids ent cnt i p that in \<open>simp_all add: e' e refs_def map_refs_update entries_ok_update\<close>)
  have "peer_inv (put_peer p pr (s\<lparr>id_map := (id_map s)[i := e']\<rparr>)) att (hld(p := Suc (hld p)))" if "peer_id_ref_cnt e' \<noteq> 0"
    by (rule peer_inv_upd [OF inv pr])
      (use ids ent cnt i p that pos in \<open>simp_all add: e' e refs_def map_refs_update entries_ok_update\<close>)
  then show "peer_id_ref_cnt e' \<noteq> 0 \<Longrightarrow> peer_inv (s\<lparr>id_map := (id_map s)[i := e']\<rparr>) att (hld(p := Suc (hld p)))"
    by (simp add: put_peer_id [OF pr])
qed

lemma map_entry_live:
  assumes inv: "peer_inv s att hld" and i: "i < length (id_map s)" and p: "ie_peer (id_map s ! i) = Some p"
  shows "\<exists>pr. peers s p = Some pr"
proof (rule ccontr)
  assume "\<nexists>pr. peers s p = Some pr"
  then have "map_refs (id_map s) p = 0" using refs_ok_dead [OF peer_inv_refs [OF inv]] by simp
  with map_refs_zero [OF peer_inv_entries [OF inv]] i p show False by (metis nth_mem)
qed

lemma unref_held:
  assumes "peer_inv s att (hld(p := Suc (hld p)))"
  obtains s' where "ol_txrx_peer_unref_delete p s = Some s'" "peer_inv s' att hld"
  by (rule unref_ok [OF assms, of p]) auto

lemma unmap_handler_inv:
  assumes inv: "peer_inv s att hld" and ok: "i = HTT_INVALID_PEER \<or> unat i < length (id_map s)"
  obtains s' where "ol_rx_peer_unmap_handler i s = Some s'" "peer_inv s' att hld"
proof (cases "i = HTT_INVALID_PEER")
  case True
  with inv that show ?thesis by (simp add: ol_rx_peer_unmap_handler_def)
next
  case False
  with ok have i: "unat i < length (id_map s)" by simp
  define e where "e = id_map s ! unat i"
  note ent = peer_inv_entries [OF inv]
  consider (del) "del_peer_id_ref_cnt e \<noteq> 0" | (empty) "del_peer_id_ref_cnt e = 0" "ie_peer e = None"
    | (peer) p where "del_peer_id_ref_cnt e = 0" "ie_peer e = Some p" by fastforce
  then show ?thesis
  proof cases
    case del
    have "peer_inv (s\<lparr>id_map := (id_map s)[unat i := e\<lparr>del_peer_id_ref_cnt := del_peer_id_ref_cnt e - 1\<rparr>]\<rparr>) att hld"
      using i ent entries_ok_nth [OF ent i] by (intro peer_inv_map [OF inv]) (auto simp: e_def map_refs_update intro!: entries_ok_update)
    with del i False that show ?thesis by (simp add: ol_rx_peer_unmap_handler_def e_def Let_def)
  next
    case empty
    with inv i False that show ?thesis by (simp add: ol_rx_peer_unmap_handler_def e_def)
  next
    case (peer p)
    then obtain pr where pr: "peers s p = Some pr" using map_entry_live [OF inv i] by (auto simp: e_def)
    define e' where "e' = e\<lparr>peer_id_ref_cnt := peer_id_ref_cnt e - 1\<rparr>"
    note u = unmap_entry [OF inv i e_def peer(2) pr e'_def]
    have run: "ol_rx_peer_unmap_handler i s =
      (if peer_id_ref_cnt e' = 0
       then ol_txrx_peer_unref_delete p (put_peer p (pr\<lparr>peer_ids := remove_id i (peer_ids pr)\<rparr>)
              (s\<lparr>id_map := (id_map s)[unat i := e'\<lparr>ie_peer := None\<rparr>]\<rparr>))
       else ol_txrx_peer_unref_delete p (s\<lparr>id_map := (id_map s)[unat i := e']\<rparr>))"
      using peer i False pr by (simp add: ol_rx_peer_unmap_handler_def Let_def e'_def flip: e_def)
    show ?thesis
    proof (cases "peer_id_ref_cnt e' = 0")
      case True
      from u(1) [OF this] run True that show ?thesis by (auto elim: unref_held)
    next
      case nz: False
      from u(2) [OF this] run nz that show ?thesis by (auto elim: unref_held)
    qed
  qed
qed

section \<open>Detaching a peer\<close>

text \<open>The loop over the ids of a peer moves the references of the id map to the caller.\<close>

definition moved :: "id_entry list \<Rightarrow> nat \<Rightarrow> id_entry list \<times> u16 list \<times> int \<Rightarrow> bool" where
  "moved es0 p st \<longleftrightarrow>
     (case st of (es, ids, n) \<Rightarrow> length es = length es0 \<and> entries_ok es \<and> length ids = MAX_NUM_PEER_ID_PER_PEER \<and>
        (\<forall>i \<in> set ids. i = HTT_INVALID_PEER \<or> unat i < length es0) \<and>
        (\<forall>q. q \<noteq> p \<longrightarrow> map_refs es q = map_refs es0 q) \<and> map_refs es p + n = map_refs es0 p \<and> 0 \<le> n)"

lemma remove_map_step_moved:
  assumes "moved es0 p st" "k < MAX_NUM_PEER_ID_PER_PEER"
  shows "\<exists>st'. remove_map_step p k (Some st) = Some st' \<and> moved es0 p st'"
proof -
  obtain es ids n where st: "st = (es, ids, n)" by (cases st)
  from assms st have k: "k < length ids" and ent: "entries_ok es"
    and i: "ids ! k = HTT_INVALID_PEER \<or> unat (ids ! k) < length es"
    by (auto simp: moved_def)
  show ?thesis
  proof (cases "ids ! k = HTT_INVALID_PEER \<or> ie_peer (es ! unat (ids ! k)) \<noteq> Some p")
    case True
    with assms st k i show ?thesis by (auto simp: remove_map_step_def Let_def)
  next
    case False
    with i have il: "unat (ids ! k) < length es" by simp
    let ?e = "es ! unat (ids ! k)"
    let ?st = "(es[unat (ids ! k) := ?e\<lparr>del_peer_id_ref_cnt := del_peer_id_ref_cnt ?e + peer_id_ref_cnt ?e,
        peer_id_ref_cnt := 0, ie_peer := None\<rparr>], ids[k := HTT_INVALID_PEER], n + peer_id_ref_cnt ?e)"
    have "remove_map_step p k (Some st) = Some ?st"
      using False k il st by (simp add: remove_map_step_def Let_def)
    moreover have "moved es0 p ?st"
      using assms(1) st False il entries_ok_nth [OF ent il, of p] set_update_subset_insert [of ids k HTT_INVALID_PEER]
      by (auto simp: moved_def map_refs_update entries_ok_update)
    ultimately show ?thesis by blast
  qed
qed

lemma fold_moved:
  "moved es0 p st \<Longrightarrow> \<forall>k \<in> set ks. k < MAX_NUM_PEER_ID_PER_PEER \<Longrightarrow>
   \<exists>st'. fold (remove_map_step p) ks (Some st) = Some st' \<and> moved es0 p st'"
proof (induction ks arbitrary: st)
  case (Cons k ks)
  from remove_map_step_moved [OF Cons.prems(1), of k] Cons.prems(2)
  obtain st' where "remove_map_step p k (Some st) = Some st'" "moved es0 p st'" by auto
  with Cons.IH [of st'] Cons.prems(2) show ?case by simp
qed simp

lemma unref_times_inv:
  assumes "peer_inv s att (hld(p := hld p + n))"
  shows "\<exists>s'. unref_times n p s = Some s' \<and> peer_inv s' att hld"
  using assms
proof (induction n arbitrary: s)
  case (Suc n)
  have "(hld(p := hld p + n))(p := Suc ((hld(p := hld p + n)) p)) = hld(p := hld p + Suc n)" by simp
  with Suc.prems have "peer_inv s att ((hld(p := hld p + n))(p := Suc ((hld(p := hld p + n)) p)))" by (simp only:)
  then obtain s1 where s1: "ol_txrx_peer_unref_delete p s = Some s1" "peer_inv s1 att (hld(p := hld p + n))"
    by (rule unref_held) auto
  from Suc.IH [OF s1(2)] s1(1) show ?case by simp
qed simp

lemma remove_obj_map_inv:
  assumes inv: "peer_inv s att hld" and p: "p \<in> att"
  shows "\<exists>s'. ol_txrx_peer_remove_obj_map_entries p s = Some s' \<and> peer_inv s' att hld"
proof -
  from inv p obtain pr where pr: "peers s p = Some pr"
    using refs_ok_dead [OF peer_inv_refs [OF inv], of p] by (cases "peers s p") auto
  have "moved (id_map s) p (id_map s, peer_ids pr, 0)"
    using inv pr by (auto simp: moved_def peer_inv_entries peer_inv_def ids_ok_def refs_ok_def)
  from fold_moved [OF this, of "[0..<MAX_NUM_PEER_ID_PER_PEER]"] obtain es ids n where
    f: "fold (remove_map_step p) [0..<MAX_NUM_PEER_ID_PER_PEER] (Some (id_map s, peer_ids pr, 0)) = Some (es, ids, n)"
    and m: "moved (id_map s) p (es, ids, n)" by auto
  note cnt = refs_okD [OF peer_inv_refs [OF inv] pr]
  have "peer_inv (put_peer p (pr\<lparr>peer_ids := ids\<rparr>) (s\<lparr>id_map := es\<rparr>)) att (hld(p := hld p + nat n))"
    by (rule peer_inv_upd [OF inv pr]) (use m cnt in \<open>auto simp: moved_def refs_def\<close>)
  from unref_times_inv [OF this] pr f show ?thesis by (simp add: ol_txrx_peer_remove_obj_map_entries_def)
qed

lemma attached_live: "peer_inv s att hld \<Longrightarrow> p \<in> att \<Longrightarrow> \<exists>pr. peers s p = Some pr"
  using refs_ok_dead [OF peer_inv_refs, of s att hld p] by (cases "peers s p") auto

lemma lists_ok_same:
  assumes "lists_ok ks vds" "vds v = Some vd" "peer_list vd' = peer_list vd"
  shows "lists_ok ks (vds(v \<mapsto> vd'))"
  using assms by (auto simp: lists_ok_def)

lemma local_id_free_ok:
  assumes pool: "pool_ok (locals s) att (lp_freelist s) (lp_pool s) (lp_map s)" and p: "p \<in> att" and pr: "peers s p = Some pr"
  shows "\<exists>s2. ol_txrx_local_peer_id_free p s = Some s2 \<and> peers s2 = peers s \<and> vdevs s2 = vdevs s \<and> id_map s2 = id_map s \<and>
      hash_mask s2 = hash_mask s \<and> idx_bits s2 = idx_bits s \<and> hash_bins s2 = hash_bins s \<and>
      pool_ok (locals s) (att - {p}) (lp_freelist s2) (lp_pool s2) (lp_map s2)"
proof (cases "local_id pr = OL_TXRX_INVALID_LOCAL_PEER_ID")
  case True
  with pool_free_invalid [OF pool, of p] pr show ?thesis by (simp add: ol_txrx_local_peer_id_free_def Let_def locals_def)
next
  case False
  have lp: "locals s p = Some (local_id pr)" using pr by (simp add: locals_def)
  with False pool p have l: "unat (local_id pr) < OL_TXRX_NUM_LOCAL_PEER_IDS" by (fastforce simp: pool_ok_def)
  with False pool_free [OF pool p lp l] pool pr show ?thesis
    by (auto simp: ol_txrx_local_peer_id_free_def Let_def pool_ok_def)
qed

text \<open>The reference of the attachment becomes a reference of the caller.\<close>

lemma refs_detach:
  assumes rok: "refs_ok s att hld" and p: "p \<in> att" and pr: "peers s p = Some pr"
    and s': "peers s' = (peers s)(p \<mapsto> pr')" "id_map s' = id_map s"
    and pr': "ref_cnt pr' = ref_cnt pr" "fw_create_pending pr' = fw_create_pending pr"
  shows "refs_ok s' (att - {p}) (hld(p := Suc (hld p)))"
proof (rule refs_okI)
  fix q qr assume q: "peers s' q = Some qr"
  show "ref_cnt qr = refs s' (att - {p}) (hld(p := Suc (hld p))) q qr \<and> 0 < ref_cnt qr"
    using q refs_okD [OF rok, of q] refs_okD [OF rok pr] p s' pr' by (cases "q = p") (auto simp: refs_def)
next
  fix q assume "peers s' q = None"
  then show "q \<notin> att - {p} \<and> (hld(p := Suc (hld p))) q = 0 \<and> map_refs (id_map s') q = 0"
    using refs_ok_dead [OF rok, of q] s' by (auto split: if_splits)
qed (use rok s' in \<open>simp add: refs_ok_def\<close>)

lemma detach_inv:
  assumes inv: "peer_inv s att hld" and p: "p \<in> att"
  obtains s' where "ol_txrx_peer_detach sta p s = Some s'" "peer_inv s' (att - {p}) hld"
proof -
  from attached_live [OF inv p] obtain pr where pr: "peers s p = Some pr" by blast
  from inv have rok: "refs_ok s att hld" and tab: "table_ok s" and real: "real_ok (keys s) att (vdevs s)"
    and pool: "pool_ok (locals s) att (lp_freelist s) (lp_pool s) (lp_map s)" by (simp_all add: peer_inv_def)
  have kp: "keys s p = Some (pr_mac pr, pr_vdev pr)" using pr by (simp add: keys_def)
  from tab kp obtain vd where vd: "vdevs s (pr_vdev pr) = Some vd"
    by (auto simp: table_ok_def dest: lists_ok_vdev)
  define s1 where "s1 = note_event (RxFlush p) (put_peer p (pr\<lparr>pr_valid := False\<rparr>) s)"
  have f1: "peers s1 = (peers s)(p \<mapsto> pr\<lparr>pr_valid := False\<rparr>)" "vdevs s1 = vdevs s" "id_map s1 = id_map s"
    "hash_mask s1 = hash_mask s" "idx_bits s1 = idx_bits s" "hash_bins s1 = hash_bins s"
    "lp_freelist s1 = lp_freelist s" "lp_pool s1 = lp_pool s" "lp_map s1 = lp_map s" by (simp_all add: s1_def)
  have l1: "locals s1 = locals s" using pr by (auto simp: locals_def f1 fun_eq_iff)
  have "pool_ok (locals s1) att (lp_freelist s1) (lp_pool s1) (lp_map s1)" using pool f1 l1 by simp
  from local_id_free_ok [OF this p, of "pr\<lparr>pr_valid := False\<rparr>"] f1 l1
  obtain s2 where s2: "ol_txrx_local_peer_id_free p s1 = Some s2" "peers s2 = peers s1" "vdevs s2 = vdevs s"
    "id_map s2 = id_map s" "hash_mask s2 = hash_mask s" "idx_bits s2 = idx_bits s" "hash_bins s2 = hash_bins s"
    "pool_ok (locals s) (att - {p}) (lp_freelist s2) (lp_pool s2) (lp_map s2)" by auto
  define vd' where "vd' = (if last_real_peer vd = Some p then vd\<lparr>last_real_peer := None\<rparr> else vd)"
  define s3 where "s3 = s2\<lparr>vdevs := (vdevs s2)(pr_vdev pr \<mapsto> vd')\<rparr>"
  have s3': "(if last_real_peer vd = Some p
      then s2\<lparr>vdevs := (vdevs s2)(pr_vdev pr \<mapsto> vd\<lparr>last_real_peer := None\<rparr>)\<rparr> else s2) = s3"
    using vd s2(3) by (auto simp: s3_def vd'_def fun_upd_idem)
  define s4 where "s4 = put_peer p (pr\<lparr>pr_valid := False, delete_in_progress := True\<rparr>) s3"
  define s5 where "s5 = (if sta then note_event (UnmapTimerStart p) s4 else s4)"
  have f5: "peers s5 = (peers s)(p \<mapsto> pr\<lparr>pr_valid := False, delete_in_progress := True\<rparr>)"
    "vdevs s5 = (vdevs s)(pr_vdev pr \<mapsto> vd')" "id_map s5 = id_map s"
    "hash_mask s5 = hash_mask s" "idx_bits s5 = idx_bits s" "hash_bins s5 = hash_bins s"
    "lp_freelist s5 = lp_freelist s2" "lp_pool s5 = lp_pool s2" "lp_map s5 = lp_map s2"
    using s2 f1 by (auto simp: s5_def s4_def s3_def)
  have k5: "keys s5 = keys s" "locals s5 = locals s" using pr by (auto simp: keys_def locals_def f5 fun_eq_iff)
  have "refs_ok s5 (att - {p}) (hld(p := Suc (hld p)))"
    by (rule refs_detach [OF rok p pr f5(1,3)]) simp_all
  moreover have "table_ok s5"
    using tab vd lists_ok_same [of "keys s" "vdevs s" "pr_vdev pr" vd vd']
    by (simp add: table_ok_def k5 f5 hash_index_cong [of s5 s] vd'_def)
  moreover have "real_ok (keys s5) (att - {p}) (vdevs s5)"
    using real vd kp unfolding k5 f5 by (fastforce simp: real_ok_def vd'_def split: if_splits)
  moreover have "ids_ok s5" using inv pr by (auto simp: peer_inv_def ids_ok_def f5)
  ultimately have "peer_inv s5 (att - {p}) (hld(p := Suc (hld p)))" using s2(8) by (simp add: peer_inv_def k5 f5)
  then obtain s' where s': "ol_txrx_peer_unref_delete p s5 = Some s'" "peer_inv s' (att - {p}) hld" by (rule unref_held)
  have "ol_txrx_peer_detach sta p s = Some s'"
    using pr s2(1) s'(1) s2(3) vd unfolding ol_txrx_peer_detach_def s5_def s4_def s3' [symmetric] s1_def by (simp add: Let_def)
  then show ?thesis using that s'(2) by blast
qed

section \<open>Creating a peer\<close>

lemma bins_add:
  assumes ok: "bins_ok h ks bins" and p: "ks p = None" and ha: "h a < length bins"
  shows "bins_ok h (ks(p \<mapsto> (a, v))) (bins[h a := bins ! h a @ [p]])"
  unfolding bins_ok_def
proof (intro allI impI)
  fix b assume b: "b < length (bins[h a := bins ! h a @ [p]])"
  with ok p have np: "p \<notin> set (bins ! b)" by (auto simp: bins_ok_def)
  show "distinct (bins[h a := bins ! h a @ [p]] ! b) \<and>
     (\<forall>q. q \<in> set (bins[h a := bins ! h a @ [p]] ! b) \<longleftrightarrow> (\<exists>a' w. (ks(p \<mapsto> (a, v))) q = Some (a', w) \<and> h a' = b))"
    using ok b np ha p by (cases "b = h a") (auto simp: bins_ok_def)
qed

lemma lists_add:
  assumes ok: "lists_ok ks vds" and p: "ks p = None" and vd: "vds v = Some vd" and vd': "peer_list vd' = peer_list vd @ [p]"
  shows "lists_ok (ks(p \<mapsto> (a, v))) (vds(v \<mapsto> vd'))"
proof (rule lists_okI)
  fix w wd assume wd: "(vds(v \<mapsto> vd')) w = Some wd"
  have np: "p \<notin> set (peer_list vd)" using lists_ok_mem [OF ok vd, of p] p by simp
  show "distinct (peer_list wd)"
    using wd ok vd vd' np by (auto simp: lists_ok_def split: if_splits)
  fix q show "q \<in> set (peer_list wd) \<longleftrightarrow> (\<exists>b. (ks(p \<mapsto> (a, v))) q = Some (b, w))"
  proof (cases "w = v")
    case True
    with wd vd' lists_ok_mem [OF ok vd, of q] show ?thesis by auto
  next
    case False
    with wd p lists_ok_mem [OF ok, of w wd q] show ?thesis by auto
  qed
next
  fix q b w assume "(ks(p \<mapsto> (a, v))) q = Some (b, w)"
  then show "(vds(v \<mapsto> vd')) w \<noteq> None" using lists_ok_vdev [OF ok, of q b w] by (auto split: if_splits)
qed

lemma refs_create:
  assumes rok: "refs_ok s att hld" and p: "peers s p = None"
    and s': "peers s' = (peers s)(p \<mapsto> pr)" "id_map s' = id_map s" "ref_cnt pr = 2" "fw_create_pending pr"
  shows "refs_ok s' (insert p att) hld"
proof (rule refs_okI)
  note dead = refs_ok_dead [OF rok p]
  fix q qr assume q: "peers s' q = Some qr"
  show "ref_cnt qr = refs s' (insert p att) hld q qr \<and> 0 < ref_cnt qr"
    using q refs_okD [OF rok, of q] dead s' by (cases "q = p") (auto simp: refs_def)
next
  fix q assume "peers s' q = None"
  then show "q \<notin> insert p att \<and> hld q = 0 \<and> map_refs (id_map s') q = 0"
    using refs_ok_dead [OF rok, of q] s' by (auto split: if_splits)
qed (use rok s' in \<open>simp add: refs_ok_def\<close>)

lemma local_id_alloc_ok:
  assumes pool: "pool_ok ls att (lp_freelist s) (lp_pool s) (lp_map s)" and p: "p \<notin> att" and pr: "peers s p = Some pr"
  shows "\<exists>s2 l. ol_txrx_local_peer_id_alloc p s = Some s2 \<and> peers s2 = (peers s)(p \<mapsto> pr\<lparr>local_id := l\<rparr>) \<and> vdevs s2 = vdevs s \<and>
      id_map s2 = id_map s \<and> hash_mask s2 = hash_mask s \<and> idx_bits s2 = idx_bits s \<and> hash_bins s2 = hash_bins s \<and>
      pool_ok (ls(p \<mapsto> l)) (insert p att) (lp_freelist s2) (lp_pool s2) (lp_map s2)"
proof (cases "lp_pool s ! lp_freelist s = lp_freelist s")
  case True
  with pool_alloc(1,2) [OF pool p] pr show ?thesis
    by (intro exI [of _ "put_peer p (pr\<lparr>local_id := OL_TXRX_INVALID_LOCAL_PEER_ID\<rparr>) s"]
        exI [of _ OL_TXRX_INVALID_LOCAL_PEER_ID]) (simp add: ol_txrx_local_peer_id_alloc_def Let_def)
next
  case False
  with pool_alloc(1,3) [OF pool p] pr show ?thesis
    by (intro exI [of _ "(put_peer p (pr\<lparr>local_id := of_nat (lp_freelist s)\<rparr>) s)\<lparr>lp_freelist := lp_pool s ! lp_freelist s,
        lp_map := (lp_map s)[lp_freelist s := Some p]\<rparr>"] exI [of _ "of_nat (lp_freelist s)"])
      (simp add: ol_txrx_local_peer_id_alloc_def Let_def)
qed

lemma create_inv:
  assumes inv: "peer_inv s att hld" and p: "peers s p = None" and v: "vdevs s v \<noteq> None"
  obtains s' where "peer_attach_create p v a s = Some s'" "peer_inv s' (insert p att) hld"
proof -
  from v obtain vd where vd: "vdevs s v = Some vd" by auto
  from inv have rok: "refs_ok s att hld" and tab: "table_ok s" and real: "real_ok (keys s) att (vdevs s)"
    and pool: "pool_ok (locals s) att (lp_freelist s) (lp_pool s) (lp_map s)" by (simp_all add: peer_inv_def)
  have np: "p \<notin> att" using refs_ok_dead [OF rok p] by simp
  define vd' where "vd' = (if ol_txrx_peer_find_mac_addr_cmp (vd_mac vd) a
    then vd\<lparr>peer_list := peer_list vd @ [p], last_real_peer := Some p\<rparr> else vd\<lparr>peer_list := peer_list vd @ [p]\<rparr>)"
  define s0 where "s0 = put_peer p (new_peer v a) (s\<lparr>vdevs := (vdevs s)(v \<mapsto> vd')\<rparr>)"
  let ?h = "ol_txrx_peer_find_hash_index a s"
  define s1 where "s1 = s0\<lparr>hash_bins := (hash_bins s)[?h := hash_bins s ! ?h @ [p]]\<rparr>"
  have h: "?h < length (hash_bins s)" using tab hash_index_less [of a s] by (simp add: table_ok_def)
  have add: "ol_txrx_peer_find_hash_add p s0 = Some s1"
    using h by (simp add: ol_txrx_peer_find_hash_add_def s1_def s0_def new_peer_def hash_index_cong [of "put_peer p _ _" s] Let_def)
  have "pool_ok (locals s) att (lp_freelist s1) (lp_pool s1) (lp_map s1)" "peers s1 p = Some (new_peer v a)"
    using pool by (simp_all add: s1_def s0_def)
  from local_id_alloc_ok [OF this(1) np this(2)] obtain s2 l where al: "ol_txrx_local_peer_id_alloc p s1 = Some s2"
    and s2: "peers s2 = (peers s)(p \<mapsto> (new_peer v a)\<lparr>local_id := l\<rparr>)" "vdevs s2 = (vdevs s)(v \<mapsto> vd')" "id_map s2 = id_map s"
      "hash_mask s2 = hash_mask s" "idx_bits s2 = idx_bits s" "hash_bins s2 = (hash_bins s)[?h := hash_bins s ! ?h @ [p]]"
      "pool_ok ((locals s)(p \<mapsto> l)) (insert p att) (lp_freelist s2) (lp_pool s2) (lp_map s2)"
    by (auto simp: s1_def s0_def)
  have k2: "keys s2 = (keys s)(p \<mapsto> (a, v))" "locals s2 = (locals s)(p \<mapsto> l)" "keys s p = None"
    using p by (auto simp: keys_def locals_def s2 new_peer_def fun_eq_iff)
  have "refs_ok s2 (insert p att) hld" by (rule refs_create [OF rok p s2(1,3)]) (simp_all add: new_peer_def)
  moreover have "table_ok s2"
    unfolding table_ok_def k2(1) s2(2,4,6) hash_index_cong [OF s2(4,5)]
    using tab h k2(3) vd by (auto simp: table_ok_def vd'_def intro!: bins_add lists_add)
  moreover have "real_ok (keys s2) (insert p att) (vdevs s2)"
    using real k2(3) vd unfolding k2(1) s2(2) by (fastforce simp: real_ok_def vd'_def split: if_splits)
  moreover have "ids_ok s2" using inv by (auto simp: peer_inv_def ids_ok_def s2 new_peer_def)
  ultimately have "peer_inv s2 (insert p att) hld" using s2(7) k2(2) by (simp add: peer_inv_def)
  moreover have "peer_attach_create p v a s = Some s2"
    using vd add al unfolding s0_def by (simp add: peer_attach_create_def Let_def vd'_def cong: if_cong)
  ultimately show ?thesis using that by blast
qed

section \<open>Virtual devices\<close>

lemma refs_ok_cong: "peers s' = peers s \<Longrightarrow> id_map s' = id_map s \<Longrightarrow> refs_ok s' att hld = refs_ok s att hld"
  unfolding refs_ok_def refs_def by (simp only:)

lemma peer_inv_vdevs:
  assumes inv: "peer_inv s att hld"
    and l: "lists_ok (keys s) vds" and r: "real_ok (keys s) att vds"
  shows "peer_inv (s\<lparr>vdevs := vds\<rparr>) att hld"
proof -
  have k: "keys (s\<lparr>vdevs := vds\<rparr>) = keys s" "locals (s\<lparr>vdevs := vds\<rparr>) = locals s"
    by (auto simp: keys_def locals_def)
  from inv l r show ?thesis
    by (simp add: peer_inv_def table_ok_def k hash_index_cong [of "s\<lparr>vdevs := vds\<rparr>" s] ids_ok_def
        refs_ok_cong [of "s\<lparr>vdevs := vds\<rparr>" s])
qed

lemma peer_inv_vdev_same:
  assumes inv: "peer_inv s att hld" and vd: "vdevs s v = Some vd"
    and vd': "peer_list vd' = peer_list vd" "last_real_peer vd' = last_real_peer vd"
  shows "peer_inv (s\<lparr>vdevs := (vdevs s)(v \<mapsto> vd')\<rparr>) att hld"
  using inv vd vd' by (intro peer_inv_vdevs [OF inv] lists_ok_same) (auto simp: peer_inv_def table_ok_def real_ok_def)

lemma attach_scan_ok:
  "\<forall>p \<in> set ps. peers s p \<noteq> None \<Longrightarrow>
   \<exists>vd' c. attach_scan (peers s) a ps (vd, c0) = Some (vd', c) \<and> peer_list vd' = peer_list vd \<and> last_real_peer vd' = last_real_peer vd"
proof (induction ps arbitrary: vd c0)
  case (Cons p ps)
  then obtain pr where pr: "peers s p = Some pr" by auto
  from Cons.IH [of vd c0] Cons.IH [of "vd\<lparr>wait_on_peer_id := local_id pr\<rparr>" AttachWait] Cons.prems pr show ?case
    by auto
qed simp

lemma attach_begin_inv:
  assumes inv: "peer_inv s att hld" and v: "vdevs s v \<noteq> None"
  obtains s' c where "peer_attach_begin v a s = Some (s', c)" "peer_inv s' att hld"
proof -
  from v obtain vd where vd: "vdevs s v = Some vd" by auto
  have "\<forall>p \<in> set (peer_list vd). peers s p \<noteq> None"
    using lists_ok_mem [of "keys s" "vdevs s" v vd] vd peer_inv_table [OF inv] by (auto simp: table_ok_def keys_def)
  from attach_scan_ok [OF this, of a vd AttachNew] obtain vd' c where
    sc: "attach_scan (peers s) a (peer_list vd) (vd, AttachNew) = Some (vd', c)"
    and vd': "peer_list vd' = peer_list vd" "last_real_peer vd' = last_real_peer vd" by blast
  from sc vd that [OF _ peer_inv_vdev_same [OF inv vd vd'], of c] show ?thesis by (simp add: peer_attach_begin_def)
qed

lemma vdev_attach_inv:
  assumes inv: "peer_inv s att hld" and v: "vdevs s v = None"
  shows "peer_inv (ol_txrx_vdev_attach v a s) att hld"
proof -
  have l: "lists_ok (keys s) (vdevs s)" using peer_inv_table [OF inv] by (simp add: table_ok_def)
  with v have "keys s p \<noteq> Some (b, v)" for p b by (auto dest: lists_ok_vdev)
  with l have "lists_ok (keys s) ((vdevs s)(v \<mapsto> new_vdev a))" by (auto simp: lists_ok_def new_vdev_def)
  moreover have "real_ok (keys s) att ((vdevs s)(v \<mapsto> new_vdev a))"
    using inv by (auto simp: peer_inv_def real_ok_def new_vdev_def)
  ultimately show ?thesis unfolding ol_txrx_vdev_attach_def by (rule peer_inv_vdevs [OF inv])
qed

lemma peer_inv_event [simp]: "peer_inv (note_event e s) att hld = peer_inv s att hld"
proof -
  have "keys (note_event e s) = keys s" "locals (note_event e s) = locals s" by (auto simp: keys_def locals_def)
  then show ?thesis
    by (simp add: peer_inv_def table_ok_def ids_ok_def refs_ok_cong [of "note_event e s" s] hash_index_cong [of "note_event e s" s])
qed

lemma vdev_detach_inv:
  assumes inv: "peer_inv s att hld" and v: "vdevs s v \<noteq> None"
  obtains s' where "ol_txrx_vdev_detach v s = Some s'" "peer_inv s' att hld"
proof -
  from v obtain vd where vd: "vdevs s v = Some vd" by auto
  have l: "lists_ok (keys s) (vdevs s)" using peer_inv_table [OF inv] by (simp add: table_ok_def)
  show ?thesis
  proof (cases "peer_list vd = []")
    case True
    have "keys s p \<noteq> Some (b, v)" for p b using lists_ok_mem [OF l vd, of p] True by auto
    with l have "lists_ok (keys s) ((vdevs s)(v := None))" by (auto simp: lists_ok_def)
    moreover have "real_ok (keys s) att ((vdevs s)(v := None))" using inv by (auto simp: peer_inv_def real_ok_def)
    ultimately have "peer_inv (s\<lparr>vdevs := (vdevs s)(v := None)\<rparr>) att hld" by (rule peer_inv_vdevs [OF inv])
    with True vd that show ?thesis by (simp add: ol_txrx_vdev_detach_def)
  next
    case False
    with vd that peer_inv_vdev_same [OF inv vd, of "vd\<lparr>vd_delete_pending := True\<rparr>"] show ?thesis
      by (simp add: ol_txrx_vdev_detach_def)
  qed
qed

section \<open>The initial state\<close>

lemma log2_loop_floor: "0 < v \<Longrightarrow> \<exists>k. log2_loop v c = c + 1 + int k \<and> 2 ^ k \<le> v \<and> v < 2 ^ Suc k"
proof (induction v c rule: log2_loop.induct)
  case (1 v c)
  show ?case
  proof (cases "v div 2 = 0")
    case True
    with 1 have "v = 1" by simp
    then show ?thesis by (intro exI [of _ 0]) (simp add: log2_loop.simps)
  next
    case False
    with 1 obtain k where k: "log2_loop (v div 2) (c + 1) = c + 1 + 1 + int k" "2 ^ k \<le> v div 2" "v div 2 < 2 ^ Suc k" by auto
    then have "2 ^ Suc k \<le> v \<and> v < 2 ^ Suc (Suc k)" by simp linarith
    with k(1) 1(2) show ?thesis by (intro exI [of _ "Suc k"]) (simp add: log2_loop.simps [of v])
  qed
qed

lemma log2_ceil_least:
  assumes "0 < v"
  shows "v \<le> 2 ^ ol_txrx_log2_ceil v" "v \<le> 2 ^ k \<Longrightarrow> ol_txrx_log2_ceil v \<le> k"
proof -
  from log2_loop_floor [OF assms, of "- 1"] obtain j where j: "log2_loop v (- 1) = int j" "2 ^ j \<le> v" "v < 2 ^ Suc j" by auto
  have c: "ol_txrx_log2_ceil v = (if 2 ^ j \<noteq> v then j + 1 else j)"
    using assms j(1) by (simp add: ol_txrx_log2_ceil_def Let_def)
  show "v \<le> 2 ^ ol_txrx_log2_ceil v" using j by (auto simp: c)
  assume k: "v \<le> 2 ^ k"
  have "2 ^ j \<le> (2::nat) ^ k" using j(2) k by linarith
  then have jk: "j \<le> k" by simp
  show "ol_txrx_log2_ceil v \<le> k"
  proof (cases "2 ^ j = v")
    case False
    then have "(2::nat) ^ j < 2 ^ k" using j(2) k by linarith
    then show ?thesis by (simp add: c False Suc_le_eq)
  qed (simp add: c jk)
qed

lemma free_ids_init:
  assumes "\<And>j. j < OL_TXRX_NUM_LOCAL_PEER_IDS \<Longrightarrow> pool ! j = j + 1" "k \<le> OL_TXRX_NUM_LOCAL_PEER_IDS"
  shows "free_ids pool (OL_TXRX_NUM_LOCAL_PEER_IDS - k) [OL_TXRX_NUM_LOCAL_PEER_IDS - k..<OL_TXRX_NUM_LOCAL_PEER_IDS]"
  using assms(2)
proof (induction k)
  case (Suc k)
  let ?i = "OL_TXRX_NUM_LOCAL_PEER_IDS - Suc k"
  from Suc.prems have "[?i..<OL_TXRX_NUM_LOCAL_PEER_IDS] = ?i # [OL_TXRX_NUM_LOCAL_PEER_IDS - k..<OL_TXRX_NUM_LOCAL_PEER_IDS]"
    by (simp add: upt_conv_Cons Suc_diff_Suc)
  with Suc assms(1) [of ?i] show ?case by (simp add: Suc_diff_Suc)
qed simp

lemma pool_init_ok:
  "pool_ok (\<lambda>_. None) {} 0 (map (\<lambda>i. i + 1) [0..<OL_TXRX_NUM_LOCAL_PEER_IDS] @ [OL_TXRX_NUM_LOCAL_PEER_IDS])
     (replicate OL_TXRX_NUM_LOCAL_PEER_IDS None)"
proof -
  let ?pool = "map (\<lambda>i. i + 1) [0..<OL_TXRX_NUM_LOCAL_PEER_IDS] @ [OL_TXRX_NUM_LOCAL_PEER_IDS]"
  have "free_ids ?pool 0 [0..<OL_TXRX_NUM_LOCAL_PEER_IDS]"
    using free_ids_init [of ?pool OL_TXRX_NUM_LOCAL_PEER_IDS] by (simp add: nth_append)
  then show ?thesis
    unfolding pool_ok_def by (intro conjI exI [of _ "[0..<OL_TXRX_NUM_LOCAL_PEER_IDS]"]) (simp_all add: nth_append)
qed

lemma peers_init_inv:
  assumes "max_peer_id < 65536"
  shows "peer_inv (peers_init max_peer_id) {} (\<lambda>_. 0)"
proof -
  let ?s = "peers_init max_peer_id"
  let ?k = "ol_txrx_log2_ceil ((max_peer_id + 1) * 2)"
  have "?k \<le> 17" using assms by (intro log2_ceil_least(2)) simp_all
  then have "(2::nat) ^ ?k \<le> 2 ^ 17" by (rule power_increasing) simp
  then obtain n where n: "2 ^ ?k = Suc n" "n < 2 ^ 17" by (cases "(2::nat) ^ ?k") auto
  have h: "hash_mask ?s = of_nat (2 ^ ?k - 1)" "length (hash_bins ?s) = 2 ^ ?k"
    by (simp_all add: peers_init_def ol_txrx_local_peer_id_pool_init_def ol_txrx_peer_find_attach_def
        ol_txrx_peer_find_hash_attach_def Let_def)
  have m: "length (hash_bins ?s) = Suc (unat (hash_mask ?s))"
    using h n(2) unfolding n(1) by (simp add: unsigned_of_nat take_bit_nat_eq_self)
  have f: "peers ?s = (\<lambda>_. None)" "vdevs ?s = (\<lambda>_. None)" "hash_bins ?s = replicate (2 ^ ?k) []"
    "id_map ?s = replicate (max_peer_id + 1) \<lparr>ie_peer = None, peer_id_ref_cnt = 0, del_peer_id_ref_cnt = 0\<rparr>" "lp_freelist ?s = 0"
    "lp_pool ?s = map (\<lambda>i. i + 1) [0..<OL_TXRX_NUM_LOCAL_PEER_IDS] @ [OL_TXRX_NUM_LOCAL_PEER_IDS]"
    "lp_map ?s = replicate OL_TXRX_NUM_LOCAL_PEER_IDS None"
    by (simp_all add: peers_init_def ol_txrx_local_peer_id_pool_init_def ol_txrx_peer_find_attach_def
        ol_txrx_peer_find_hash_attach_def ol_txrx_peer_find_map_attach_def Let_def)
  have k: "keys ?s = (\<lambda>_. None)" "locals ?s = (\<lambda>_. None)" by (simp_all add: keys_def locals_def f fun_eq_iff)
  have "map_refs (replicate n \<lparr>ie_peer = None, peer_id_ref_cnt = 0, del_peer_id_ref_cnt = 0\<rparr>) p = 0" for n p
    by (induction n) simp_all
  then have "refs_ok ?s {} (\<lambda>_. 0)" by (simp add: refs_ok_def entries_ok_def f del: replicate.simps)
  moreover have "bins_ok (\<lambda>a. ol_txrx_peer_find_hash_index a ?s) (keys ?s) (hash_bins ?s)"
    unfolding k f by (simp add: bins_ok_def)
  then have "table_ok ?s" using m by (simp add: table_ok_def lists_ok_def k f(2))
  ultimately show ?thesis using pool_init_ok by (simp add: peer_inv_def real_ok_def ids_ok_def k f)
qed

section \<open>Interleavings of the operations\<close>

text \<open>Ghost state: the attached peers and the references in the hands of callers.\<close>

record peer_world =
  w_pdev :: txrx_pdev
  w_attached :: "nat set"
  w_held :: "nat \<Rightarrow> nat"

definition peer_start :: "nat \<Rightarrow> peer_world" where
  "peer_start max_peer_id = \<lparr>w_pdev = peers_init max_peer_id, w_attached = {}, w_held = (\<lambda>_. 0)\<rparr>"

text \<open>
  What callers owe: new objects are at unused addresses, virtual devices exist, a peer is detached by the holder of
  its attachment and once, and only held references are released. The firmware sends ids below the size of the map and maps
  an id to one peer at a time.
\<close>

fun peer_op_ok :: "peer_op \<Rightarrow> peer_world \<Rightarrow> bool" where
  "peer_op_ok (VdevAttach v a) w \<longleftrightarrow> vdevs (w_pdev w) v = None"
| "peer_op_ok (VdevDetach v) w \<longleftrightarrow> vdevs (w_pdev w) v \<noteq> None"
| "peer_op_ok (AttachBegin v a) w \<longleftrightarrow> vdevs (w_pdev w) v \<noteq> None"
| "peer_op_ok (AttachTimeout v) w \<longleftrightarrow> vdevs (w_pdev w) v \<noteq> None"
| "peer_op_ok (AttachCreate p v a) w \<longleftrightarrow> peers (w_pdev w) p = None \<and> vdevs (w_pdev w) v \<noteq> None"
| "peer_op_ok (DetachPeer sta p) w \<longleftrightarrow> p \<in> w_attached w"
| "peer_op_ok (ForceDelete sta p) w \<longleftrightarrow> p \<in> w_attached w"
| "peer_op_ok (PeerMap i a) w \<longleftrightarrow> map_msg_ok i a (w_pdev w)"
| "peer_op_ok (PeerUnmap i) w \<longleftrightarrow> i = HTT_INVALID_PEER \<or> unat i < length (id_map (w_pdev w))"
| "peer_op_ok (FindAssoc v) w \<longleftrightarrow> vdevs (w_pdev w) v \<noteq> None"
| "peer_op_ok (ReleasePeer p) w \<longleftrightarrow> 0 < w_held w p"
| "peer_op_ok _ w \<longleftrightarrow> True"

fun attached_after :: "peer_op \<Rightarrow> nat set \<Rightarrow> nat set" where
  "attached_after (AttachCreate p v a) att = insert p att"
| "attached_after (DetachPeer sta p) att = att - {p}"
| "attached_after (ForceDelete sta p) att = att - {p}"
| "attached_after _ att = att"

fun held_after :: "peer_op \<Rightarrow> txrx_pdev \<Rightarrow> txrx_pdev \<times> nat option \<Rightarrow> (nat \<Rightarrow> nat) \<Rightarrow> nat \<Rightarrow> nat" where
  "held_after (ReleasePeer p) s r hld = hld(p := hld p - 1)"
| "held_after (PeerMap i a) s r hld = map_held i a s hld"
| "held_after _ s r hld = held_result r hld"

definition peer_next :: "peer_op \<Rightarrow> peer_world \<Rightarrow> peer_world option" where
  "peer_next op w = map_option (\<lambda>r. \<lparr>w_pdev = fst r, w_attached = attached_after op (w_attached w),
     w_held = held_after op (w_pdev w) r (w_held w)\<rparr>) (peer_call op (w_pdev w))"

definition world_inv :: "peer_world \<Rightarrow> bool" where
  "world_inv w \<longleftrightarrow> peer_inv (w_pdev w) (w_attached w) (w_held w)"

inductive peer_step :: "peer_world \<Rightarrow> peer_world \<Rightarrow> bool" where
  "peer_op_ok op w \<Longrightarrow> peer_next op w = Some w' \<Longrightarrow> peer_step w w'"

lemma held_result_None [simp]: "held_result (s, None) hld = hld"
  by (simp add: held_result_def)

lemma force_delete_inv:
  assumes "peer_inv s att hld" "p \<in> att"
  obtains s' where "ol_txrx_peer_detach_force_delete sta p s = Some s'" "peer_inv s' (att - {p}) hld"
proof -
  from remove_obj_map_inv [OF assms] obtain s1 where "ol_txrx_peer_remove_obj_map_entries p s = Some s1" "peer_inv s1 att hld" by blast
  with detach_inv [OF this(2) assms(2), of sta] that show ?thesis by (auto simp: ol_txrx_peer_detach_force_delete_def)
qed

lemma attach_timeout_inv:
  assumes inv: "peer_inv s att hld" and v: "vdevs s v \<noteq> None"
  obtains s' where "peer_attach_timeout v s = Some s'" "peer_inv s' att hld"
proof -
  from v obtain vd where vd: "vdevs s v = Some vd" by auto
  with peer_inv_vdev_same [OF inv vd, of "vd\<lparr>wait_on_peer_id := OL_TXRX_INVALID_LOCAL_PEER_ID\<rparr>"] that show ?thesis
    by (simp add: peer_attach_timeout_def)
qed

lemmas find_defs = ol_txrx_peer_find_hash_find_inc_ref_def ol_txrx_peer_vdev_find_hash_def ol_txrx_find_peer_by_addr_def
  ol_txrx_find_peer_by_addr_and_vdev_def find_by_addr_eq

lemma peer_call_inv:
  assumes inv: "peer_inv s att hld" and ok: "peer_op_ok op \<lparr>w_pdev = s, w_attached = att, w_held = hld\<rparr>"
  shows "\<exists>r. peer_call op s = Some r \<and> peer_inv (fst r) (attached_after op att) (held_after op s r hld)"
proof -
  have fr: "\<exists>r. find_and_ref a tst s = Some r \<and> peer_inv (fst r) att (held_result r hld)" for a tst
    by (rule find_and_ref_inv [OF inv]) blast
  have fu: "\<exists>r. find_and_unref (find_and_ref a tst s) = Some r \<and> peer_inv (fst r) att hld" for a tst
    by (rule find_and_unref_inv [OF inv]) blast
  show ?thesis
  proof (cases op)
    case (VdevAttach v a)
    with ok vdev_attach_inv [OF inv, of v a] show ?thesis by simp
  next
    case (VdevDetach v)
    with ok vdev_detach_inv [OF inv, of v] show ?thesis by (auto intro: vdev_detach_inv [OF inv])
  next
    case (AttachBegin v a)
    with ok show ?thesis by (auto intro: attach_begin_inv [OF inv, of v a])
  next
    case (AttachTimeout v)
    with ok show ?thesis by (auto intro: attach_timeout_inv [OF inv, of v])
  next
    case (AttachCreate p v a)
    with ok show ?thesis by (auto intro: create_inv [OF inv, of p v a])
  next
    case (DetachPeer sta p)
    with ok show ?thesis by (auto intro: detach_inv [OF inv, of p sta])
  next
    case (ForceDelete sta p)
    with ok show ?thesis by (auto intro: force_delete_inv [OF inv, of p sta])
  next
    case (PeerMap i a)
    with ok show ?thesis by (auto intro: map_handler_inv [OF inv, of i a])
  next
    case (PeerUnmap i)
    with ok show ?thesis by (auto intro: unmap_handler_inv [OF inv, of i])
  next
    case (FindIncRef a c)
    then show ?thesis by (simp only: peer_call.simps attached_after.simps held_after.simps find_defs fr)
  next
    case (FindInVdev v a c)
    then show ?thesis by (simp only: peer_call.simps attached_after.simps held_after.simps find_defs fr)
  next
    case (FindAssoc v)
    with ok show ?thesis by (auto intro: assoc_find_inv [OF inv, of v])
  next
    case (FindByAddr a)
    then show ?thesis using fu by (fastforce simp: find_defs)
  next
    case (FindAddr a)
    then show ?thesis using fu by (fastforce simp: find_defs)
  next
    case (FindAddrVdev v a)
    then show ?thesis using fu by (fastforce simp: find_defs)
  next
    case (ReleasePeer p)
    with ok show ?thesis by (auto intro: unref_ok [OF inv, of p])
  qed
qed

lemma peer_next_inv:
  assumes "world_inv w" "peer_op_ok op w"
  shows "\<exists>w'. peer_next op w = Some w' \<and> world_inv w'"
proof -
  have "peer_op_ok op \<lparr>w_pdev = w_pdev w, w_attached = w_attached w, w_held = w_held w\<rparr>" using assms(2) by (cases w) simp
  from peer_call_inv [OF assms(1) [unfolded world_inv_def] this] show ?thesis by (auto simp: peer_next_def world_inv_def)
qed

interpretation pw: machine "\<lambda>w. \<exists>m < 65536. w = peer_start m" peer_step world_inv
proof
  show "world_inv s" if "\<exists>m < 65536. s = peer_start m" for s
    using that peers_init_inv by (auto simp: world_inv_def peer_start_def)
  show "world_inv w'" if "world_inv w" "peer_step w w'" for w w'
  proof -
    from that(2) obtain op where "peer_op_ok op w" "peer_next op w = Some w'" by (auto elim: peer_step.cases)
    with peer_next_inv [OF that(1), of op] show ?thesis by auto
  qed
qed

lemma reachable_world: "m < 65536 \<Longrightarrow> peer_step\<^sup>*\<^sup>* (peer_start m) w \<Longrightarrow> peer_inv (w_pdev w) (w_attached w) (w_held w)"
  using pw.reachable_inv [of "peer_start m" w] by (auto simp: world_inv_def)

text \<open>A run of the operations, each of which its caller may issue.\<close>

fun peer_exec :: "peer_op list \<Rightarrow> peer_world \<Rightarrow> peer_world option" where
  "peer_exec [] w = Some w"
| "peer_exec (op # ops) w = (if peer_op_ok op w then Option.bind (peer_next op w) (peer_exec ops) else None)"

lemma peer_exec_steps: "peer_exec ops w = Some w' \<Longrightarrow> peer_step\<^sup>*\<^sup>* w w'"
proof (induction ops arbitrary: w)
  case (Cons op ops)
  then obtain w1 where "peer_step w w1" "peer_exec ops w1 = Some w'"
    by (auto split: if_splits bind_splits intro: peer_step.intros)
  with Cons.IH show ?case by (meson converse_rtranclp_into_rtranclp)
qed simp

text \<open>A station is attached, mapped twice, looked up and detached.\<close>

definition peer_scenario :: "peer_op list" where
  "peer_scenario = [VdevAttach 1 [2, 0, 0, 0, 0, 1], AttachBegin 1 [4, 0, 0, 0, 0, 9], AttachCreate 7 1 [4, 0, 0, 0, 0, 9],
     PeerMap 2 [4, 0, 0, 0, 0, 9], PeerMap 3 [4, 0, 0, 0, 0, 9], FindIncRef [4, 0, 0, 0, 0, 9] True, DetachPeer True 7, PeerUnmap 2]"

lemma map_entry_refs: "entries_ok es \<Longrightarrow> map_refs es p = 0 \<longleftrightarrow> (\<forall>e \<in> set es. ie_peer e \<noteq> Some p)"
proof
  show "map_refs es p = 0" if "\<forall>e \<in> set es. ie_peer e \<noteq> Some p" using that by (induction es) auto
qed (auto dest: map_refs_zero)

text \<open>Nothing refers to a freed peer.\<close>

definition unreferenced :: "txrx_pdev \<Rightarrow> nat \<Rightarrow> bool" where
  "unreferenced s p \<longleftrightarrow> (\<forall>b \<in> set (hash_bins s). p \<notin> set b) \<and> (\<forall>e \<in> set (id_map s). ie_peer e \<noteq> Some p) \<and> Some p \<notin> set (lp_map s) \<and>
     (\<forall>v vd. vdevs s v = Some vd \<longrightarrow> p \<notin> set (peer_list vd) \<and> last_real_peer vd \<noteq> Some p)"

lemma dead_unreferenced:
  assumes inv: "peer_inv s att hld" and p: "peers s p = None"
  shows "unreferenced s p"
proof -
  from refs_ok_dead [OF peer_inv_refs [OF inv] p] have z: "p \<notin> att" "map_refs (id_map s) p = 0" by simp_all
  have k: "keys s p = None" using p by (simp add: keys_def)
  from inv have parts: "bins_ok (\<lambda>a. ol_txrx_peer_find_hash_index a s) (keys s) (hash_bins s)" "lists_ok (keys s) (vdevs s)"
    "real_ok (keys s) att (vdevs s)" "pool_ok (locals s) att (lp_freelist s) (lp_pool s) (lp_map s)"
    by (simp_all add: peer_inv_def table_ok_def)
  have "\<forall>b \<in> set (hash_bins s). p \<notin> set b"
  proof
    fix b assume "b \<in> set (hash_bins s)"
    then obtain i where "i < length (hash_bins s)" "b = hash_bins s ! i" by (auto simp: in_set_conv_nth)
    with parts(1) k show "p \<notin> set b" by (simp add: bins_ok_def)
  qed
  moreover have "\<forall>e \<in> set (id_map s). ie_peer e \<noteq> Some p" using z(2) map_entry_refs [OF peer_inv_entries [OF inv]] by simp
  moreover have "Some p \<notin> set (lp_map s)"
  proof
    assume "Some p \<in> set (lp_map s)"
    then obtain i where "i < length (lp_map s)" "lp_map s ! i = Some p" by (auto simp: in_set_conv_nth)
    with parts(4) z(1) show False unfolding pool_ok_def by metis
  qed
  moreover have "p \<notin> set (peer_list vd) \<and> last_real_peer vd \<noteq> Some p" if "vdevs s v = Some vd" for v vd
    using that parts(3) k lists_ok_mem [OF parts(2) that, of p] by (fastforce simp: real_ok_def)
  ultimately show ?thesis by (auto simp: unreferenced_def)
qed

section \<open>Erasing the hash table\<close>

text \<open>The id map mentions only live peers.\<close>

definition map_live :: "txrx_pdev \<Rightarrow> bool" where
  "map_live s \<longleftrightarrow> (\<forall>e \<in> set (id_map s). \<forall>p. ie_peer e = Some p \<longrightarrow> peers s p \<noteq> None)"

text \<open>The peers \<open>D\<close> are gone from the table.\<close>

definition erased :: "nat set \<Rightarrow> txrx_pdev \<Rightarrow> txrx_pdev \<Rightarrow> bool" where
  "erased D s s' \<longleftrightarrow> table_ok s' \<and> map_live s' \<and> peers s' = (\<lambda>p. if p \<in> D then None else peers s p) \<and>
     hash_mask s' = hash_mask s \<and> idx_bits s' = idx_bits s"

lemma erase_peer:
  assumes tab: "table_ok s" and live: "map_live s" and pr: "peers s p = Some pr"
  shows "\<exists>s'. ol_txrx_peer_unref_delete p (put_peer p (pr\<lparr>ref_cnt := 0 + 1\<rparr>) s) = Some s' \<and> erased {p} s s'"
proof -
  let ?s = "put_peer p (pr\<lparr>ref_cnt := 0 + 1\<rparr>) s"
  have t1: "table_ok ?s" by (rule table_ok_cong [OF tab]) (use pr in \<open>simp_all add: keys_put\<close>)
  obtain s' where s': "ol_txrx_peer_unref_delete p ?s = Some s'" "table_ok s'"
    "peers s' = (peers ?s)(p := None)" "hash_mask s' = hash_mask ?s" "idx_bits s' = idx_bits ?s"
    "id_map s' = map (\<lambda>e. if ie_peer e = Some p then e\<lparr>ie_peer := None\<rparr> else e) (id_map ?s)"
    by (rule unref_last [OF t1, of p "pr\<lparr>ref_cnt := 0 + 1\<rparr>"]) simp_all
  have "map_live s'" using live s'(3,6) by (auto simp: map_live_def split: if_splits)
  with s' show ?thesis by (auto simp: erased_def fun_eq_iff)
qed

lemma erase_bin_ok:
  "table_ok s \<Longrightarrow> map_live s \<Longrightarrow> distinct ps \<Longrightarrow> \<forall>p \<in> set ps. peers s p \<noteq> None \<Longrightarrow>
   \<exists>s'. erase_bin ps s = Some s' \<and> erased (set ps) s s'"
proof (induction ps arbitrary: s)
  case Nil
  then show ?case by (simp add: erased_def)
next
  case (Cons p ps)
  then obtain pr where pr: "peers s p = Some pr" by auto
  from erase_peer [OF Cons.prems(1,2) pr] obtain s1 where
    s1: "ol_txrx_peer_unref_delete p (put_peer p (pr\<lparr>ref_cnt := 0 + 1\<rparr>) s) = Some s1" "erased {p} s s1" by blast
  then have "table_ok s1" "map_live s1" "\<forall>q \<in> set ps. peers s1 q \<noteq> None" using Cons.prems by (auto simp: erased_def)
  with Cons.IH [of s1] Cons.prems(3) obtain s' where "erase_bin ps s1 = Some s'" "erased (set ps) s1 s'" by auto
  with s1 pr show ?case by (auto simp: erased_def fun_eq_iff)
qed

text \<open>The live peers whose hash is one of \<open>bs\<close>.\<close>

definition hashed :: "nat set \<Rightarrow> txrx_pdev \<Rightarrow> nat set" where
  "hashed B s = {p. \<exists>pr. peers s p = Some pr \<and> ol_txrx_peer_find_hash_index (pr_mac pr) s \<in> B}"

lemma bin_hashed: "table_ok s \<Longrightarrow> b < length (hash_bins s) \<Longrightarrow> set (hash_bins s ! b) = hashed {b} s"
  by (auto simp: table_ok_def bins_ok_def keys_def hashed_def)

lemma erase_bins_ok:
  "table_ok s \<Longrightarrow> map_live s \<Longrightarrow> \<forall>b \<in> set bs. b \<le> unat (hash_mask s) \<Longrightarrow>
   \<exists>s'. erase_bins bs s = Some s' \<and> erased (hashed (set bs) s) s s'"
proof (induction bs arbitrary: s)
  case Nil
  then show ?case by (simp add: erased_def hashed_def)
next
  case (Cons b bs)
  then have b: "b < length (hash_bins s)" by (simp add: table_ok_def less_Suc_eq_le)
  have "distinct (hash_bins s ! b)" using Cons.prems(1) b by (simp add: table_ok_def bins_ok_def)
  moreover have "\<forall>p \<in> set (hash_bins s ! b). peers s p \<noteq> None" using bin_live [OF Cons.prems(1) b] by blast
  ultimately
  obtain s1 where
    s1: "erase_bin (hash_bins s ! b) s = Some s1" "erased (hashed {b} s) s s1"
    using erase_bin_ok [OF Cons.prems(1,2), of "hash_bins s ! b"] by (auto simp: bin_hashed [OF Cons.prems(1) b])
  then obtain s' where s': "erase_bins bs s1 = Some s'" "erased (hashed (set bs) s1) s1 s'"
    using Cons.IH [of s1] Cons.prems(3) by (auto simp: erased_def)
  have h: "ol_txrx_peer_find_hash_index a s1 = ol_txrx_peer_find_hash_index a s" for a
    using s1(2) by (intro hash_index_cong) (simp_all add: erased_def)
  have "p \<in> hashed (set (b # bs)) s \<longleftrightarrow> p \<in> hashed {b} s \<or> p \<in> hashed (set bs) s1" for p
    using s1(2) by (auto simp: hashed_def erased_def h)
  with s1 s' have "erased (hashed (set (b # bs)) s) s s'" by (auto simp: erased_def fun_eq_iff)
  with s1(1) s'(1) b show ?case by auto
qed

section \<open>Properties\<close>



text \<open>
  C3: The counter of a live peer is exactly the number of its references: the attachment, the creation that is
  pending in the firmware, the references in the hands of callers and the counts of its entries of the id map; it is
  positive. A freed peer has no reference left: no hash bin, peer list, id map entry, local id or last-peer pointer mentions it.
  A peer object is so freed exactly when its last reference is released.
\<close>

theorem peer_ref_count_exact:
  assumes "max_peer_id < 65536" and "peer_step\<^sup>*\<^sup>* (peer_start max_peer_id) w"
  shows "case peers (w_pdev w) p of
      Some pr \<Rightarrow> 0 < ref_cnt pr \<and> ref_cnt pr = of_bool (p \<in> w_attached w) + of_bool (fw_create_pending pr) + int (w_held w p) +
        (\<Sum>e\<leftarrow>id_map (w_pdev w). if ie_peer e = Some p then peer_id_ref_cnt e else 0)
    | None \<Rightarrow> p \<notin> w_attached w \<and> w_held w p = 0 \<and> unreferenced (w_pdev w) p"
proof -
  note inv = reachable_world [OF assms]
  show ?thesis
  proof (cases "peers (w_pdev w) p")
    case None
    with refs_ok_dead [OF peer_inv_refs [OF inv] None] dead_unreferenced [OF inv None] show ?thesis by simp
  next
    case (Some pr)
    with refs_okD [OF peer_inv_refs [OF inv] Some] show ?thesis by (simp add: refs_def map_refs_def)
  qed
qed

theorem peer_ref_count_exact_witness:
  "\<exists>w. peer_exec (peer_scenario @ [ReleasePeer 7, PeerUnmap 3]) (peer_start 3) = Some w \<and> unreferenced (w_pdev w) 7"
proof -
  have "case peer_exec (peer_scenario @ [ReleasePeer 7, PeerUnmap 3]) (peer_start 3) of
      None \<Rightarrow> False | Some w \<Rightarrow> Option.is_none (peers (w_pdev w) 7)" by code_simp
  then obtain w where w: "peer_exec (peer_scenario @ [ReleasePeer 7, PeerUnmap 3]) (peer_start 3) = Some w" "peers (w_pdev w) 7 = None"
    by (auto split: option.splits simp: Option.is_none_def)
  with peer_ref_count_exact [of 3 w 7, OF _ peer_exec_steps [OF w(1)]] show ?thesis by simp
qed

lemma mac_addr_cmp_eq: "\<not> ol_txrx_peer_find_mac_addr_cmp a b \<longleftrightarrow> a = b"
  by (metis append_take_drop_id ol_txrx_peer_find_mac_addr_cmp_def)

text \<open>
  The lookup by address is exact: it finds a live peer with the address (and a valid one when validity is asked for)
  if there is one, takes one reference on it and changes nothing else; otherwise it changes nothing. The comparison of the
  address in two words is equality.
\<close>

theorem peer_find_hash_correct:
  assumes "max_peer_id < 65536" and "peer_step\<^sup>*\<^sup>* (peer_start max_peer_id) w" and s: "s = w_pdev w"
  shows "case ol_txrx_peer_find_hash_find_inc_ref a check_valid s of
      None \<Rightarrow> False
    | Some (s', None) \<Rightarrow> s' = s \<and> (\<forall>p pr. peers s p = Some pr \<longrightarrow> pr_mac pr = a \<longrightarrow> check_valid \<and> \<not> pr_valid pr)
    | Some (s', Some p) \<Rightarrow> (\<exists>pr. peers s p = Some pr \<and> pr_mac pr = a \<and> (check_valid \<longrightarrow> pr_valid pr) \<and>
        s' = s\<lparr>peers := (peers s)(p \<mapsto> pr\<lparr>ref_cnt := ref_cnt pr + 1\<rparr>)\<rparr>)"
proof -
  from reachable_world [OF assms(1,2)] have "peer_inv s (w_attached w) (w_held w)" unfolding s .
  then show ?thesis
  proof (cases rule: find_and_ref_ok [where a = a and
        tst = "\<lambda>pr. \<not> ol_txrx_peer_find_mac_addr_cmp a (pr_mac pr) \<and> (\<not> check_valid \<or> pr_valid pr)", consumes 1, case_names none found])
    case none
    then show ?thesis by (fastforce simp: ol_txrx_peer_find_hash_find_inc_ref_def mac_addr_cmp_eq)
  next
    case (found p pr)
    then show ?thesis by (auto simp: ol_txrx_peer_find_hash_find_inc_ref_def mac_addr_cmp_eq put_peer_def)
  qed
qed

theorem peer_find_hash_correct_witness:
  "\<exists>w s' pr. peer_exec peer_scenario (peer_start 3) = Some w \<and>
     ol_txrx_peer_find_hash_find_inc_ref [4, 0, 0, 0, 0, 9] False (w_pdev w) = Some (s', Some 7) \<and>
     peers (w_pdev w) 7 = Some pr \<and> pr_mac pr = [4, 0, 0, 0, 0, 9]"
proof -
  have "case peer_exec peer_scenario (peer_start 3) of None \<Rightarrow> False
    | Some w \<Rightarrow> (case ol_txrx_peer_find_hash_find_inc_ref [4, 0, 0, 0, 0, 9] False (w_pdev w) of Some (_, Some p) \<Rightarrow> p = 7 | _ \<Rightarrow> False)"
    by code_simp
  then obtain w s' where w: "peer_exec peer_scenario (peer_start 3) = Some w"
    "ol_txrx_peer_find_hash_find_inc_ref [4, 0, 0, 0, 0, 9] False (w_pdev w) = Some (s', Some 7)"
    by (auto split: option.splits)
  from peer_find_hash_correct [of 3, OF _ peer_exec_steps [OF w(1)] refl, of "[4, 0, 0, 0, 0, 9]" False] w show ?thesis by auto
qed

text \<open>
  A map message never frees a peer: the reference that it drops when the firmware confirms the creation of the peer
  is not the last one. (It is dropped with the lock of the id map held, which freeing a peer would take again.)
\<close>

theorem peer_map_never_frees:
  assumes "max_peer_id < 65536" and "peer_step\<^sup>*\<^sup>* (peer_start max_peer_id) w" and "map_msg_ok i a (w_pdev w)"
  shows "\<exists>s'. ol_rx_peer_map_handler i a (w_pdev w) = Some s' \<and> (\<forall>p. peers s' p = None \<longleftrightarrow> peers (w_pdev w) p = None)"
  by (rule map_handler_inv [OF reachable_world [OF assms(1,2)] assms(3)]) blast

theorem peer_map_never_frees_witness:
  "\<exists>w s'. peer_exec (take 3 peer_scenario) (peer_start 3) = Some w \<and> ol_rx_peer_map_handler 2 [4, 0, 0, 0, 0, 9] (w_pdev w) = Some s' \<and>
     (peers s' 7 = None \<longleftrightarrow> peers (w_pdev w) 7 = None)"
proof -
  have "case peer_exec (take 3 peer_scenario) (peer_start 3) of None \<Rightarrow> False | Some w \<Rightarrow> map_msg_ok 2 [4, 0, 0, 0, 0, 9] (w_pdev w)"
    by code_simp
  then obtain w where w: "peer_exec (take 3 peer_scenario) (peer_start 3) = Some w" "map_msg_ok 2 [4, 0, 0, 0, 0, 9] (w_pdev w)"
    by (auto split: option.splits)
  from peer_map_never_frees [of 3, OF _ peer_exec_steps [OF w(1)] w(2)] w(1) show ?thesis by auto
qed

text \<open>
  Two attached peers never share a local id, and the lookup by a local id finds the attached peer that
  owns it.
\<close>

theorem local_peer_ids_unique:
  assumes "max_peer_id < 65536" and "peer_step\<^sup>*\<^sup>* (peer_start max_peer_id) w"
    and "p \<in> w_attached w" and "peers (w_pdev w) p = Some pr" and "local_id pr \<noteq> OL_TXRX_INVALID_LOCAL_PEER_ID"
  shows "ol_txrx_peer_find_by_local_id (ucast (local_id pr)) (w_pdev w) = Some p \<and>
    (\<forall>q \<in> w_attached w. \<forall>qr. peers (w_pdev w) q = Some qr \<longrightarrow> local_id qr = local_id pr \<longrightarrow> q = p)"
proof -
  let ?s = "w_pdev w"
  have pool: "pool_ok (locals ?s) (w_attached w) (lp_freelist ?s) (lp_pool ?s) (lp_map ?s)"
    using reachable_world [OF assms(1,2)] by (simp add: peer_inv_def)
  then have own: "i < OL_TXRX_NUM_LOCAL_PEER_IDS \<Longrightarrow> lp_map ?s ! i = Some q \<longleftrightarrow> q \<in> w_attached w \<and> locals ?s q = Some (of_nat i)"
    and len: "length (lp_map ?s) = OL_TXRX_NUM_LOCAL_PEER_IDS" for i q
    unfolding pool_ok_def by blast+
  have l: "unat (local_id pr) < OL_TXRX_NUM_LOCAL_PEER_IDS"
    using pool assms(3-5) by (fastforce simp: pool_ok_def locals_def)
  have m: "lp_map ?s ! unat (local_id pr) = Some p" using own [OF l, of p] assms(3,4) by (simp add: locals_def)
  have "unat (ucast (local_id pr) :: u8) = unat (local_id pr)"
    using l by (intro unat_ucast_u16_u8) (simp add: OL_TXRX_NUM_LOCAL_PEER_IDS_def)
  with l len m have "ol_txrx_peer_find_by_local_id (ucast (local_id pr)) ?s = Some p"
    by (simp add: ol_txrx_peer_find_by_local_id_def)
  moreover have "q = p" if "q \<in> w_attached w" "peers ?s q = Some qr" "local_id qr = local_id pr" for q qr
    using that own [OF l, of q] m by (simp add: locals_def)
  ultimately show ?thesis by blast
qed

theorem local_peer_ids_unique_witness:
  "\<exists>w. peer_exec (take 3 peer_scenario @ [AttachCreate 8 1 [4, 0, 0, 0, 0, 10]]) (peer_start 3) = Some w \<and>
     ol_txrx_peer_find_by_local_id 1 (w_pdev w) = Some 8"
proof -
  let ?ops = "take 3 peer_scenario @ [AttachCreate 8 1 [4, 0, 0, 0, 0, 10]]"
  have "case peer_exec ?ops (peer_start 3) of None \<Rightarrow> False
    | Some w \<Rightarrow> 8 \<in> w_attached w \<and> (case peers (w_pdev w) 8 of None \<Rightarrow> False | Some pr \<Rightarrow> local_id pr = 1)" by code_simp
  then obtain w pr where w: "peer_exec ?ops (peer_start 3) = Some w" "8 \<in> w_attached w" "peers (w_pdev w) 8 = Some pr" "local_id pr = 1"
    by (auto split: option.splits)
  from local_peer_ids_unique [of 3, OF _ peer_exec_steps [OF w(1)] w(2,3)] w(4)
  have "ol_txrx_peer_find_by_local_id 1 (w_pdev w) = Some 8" by (simp add: OL_TXRX_INVALID_LOCAL_PEER_ID_def)
  with w(1) show ?thesis by blast
qed

text \<open>
  Erasing the hash table at the end of the device frees every peer, whatever its counter, and leaves no reference to a
  peer in the bins, in the id map and in the lists of the virtual devices.
\<close>

theorem peer_erase_complete:
  assumes "max_peer_id < 65536" and "peer_step\<^sup>*\<^sup>* (peer_start max_peer_id) w"
  shows "\<exists>s'. ol_txrx_peer_find_hash_erase (w_pdev w) = Some s' \<and> peers s' = (\<lambda>p. None) \<and> (\<forall>b \<in> set (hash_bins s'). b = []) \<and>
    (\<forall>e \<in> set (id_map s'). ie_peer e = None) \<and> (\<forall>v vd. vdevs s' v = Some vd \<longrightarrow> peer_list vd = [])"
proof -
  let ?s = "w_pdev w"
  note inv = reachable_world [OF assms]
  have "map_live ?s"
    using dead_unreferenced [OF inv] by (fastforce simp: map_live_def unreferenced_def)
  from erase_bins_ok [OF peer_inv_table [OF inv] this, of "[0..<Suc (unat (hash_mask ?s))]"] obtain s' where
    s': "ol_txrx_peer_find_hash_erase ?s = Some s'" "erased (hashed {0..<Suc (unat (hash_mask ?s))} ?s) ?s s'"
    by (auto simp: ol_txrx_peer_find_hash_erase_def less_Suc_eq_le simp del: upt_Suc)
  have none: "peers s' = (\<lambda>p. None)"
  proof
    fix p show "peers s' p = None"
      using s'(2) hash_index_less [of _ ?s] by (cases "peers ?s p") (auto simp: erased_def hashed_def)
  qed
  have tab: "table_ok s'" and live: "map_live s'" using s'(2) by (simp_all add: erased_def)
  have "\<forall>b \<in> set (hash_bins s'). b = []"
  proof
    fix b assume "b \<in> set (hash_bins s')"
    then obtain i where i: "i < length (hash_bins s')" "b = hash_bins s' ! i" by (auto simp: in_set_conv_nth)
    with bin_hashed [OF tab i(1)] none show "b = []" by (simp add: hashed_def)
  qed
  moreover have "\<forall>e \<in> set (id_map s'). ie_peer e = None" using live none by (auto simp: map_live_def)
  moreover have "peer_list vd = []" if "vdevs s' v = Some vd" for v vd
  proof -
    have "p \<notin> set (peer_list vd)" for p
      using lists_ok_mem [of "keys s'" "vdevs s'" v vd p] that tab none by (simp add: table_ok_def keys_def)
    then show ?thesis by (metis last_in_set)
  qed
  ultimately show ?thesis using s'(1) none by blast
qed

theorem peer_erase_complete_witness:
  "\<exists>w s'. peer_exec (take 5 peer_scenario) (peer_start 3) = Some w \<and> ol_txrx_peer_find_hash_erase (w_pdev w) = Some s' \<and> peers s' 7 = None"
proof -
  have "\<not> Option.is_none (peer_exec (take 5 peer_scenario) (peer_start 3))" by code_simp
  then obtain w where w: "peer_exec (take 5 peer_scenario) (peer_start 3) = Some w" by (auto simp: Option.is_none_def)
  from peer_erase_complete [of 3, OF _ peer_exec_steps [OF w]] w show ?thesis by auto
qed

text \<open>
  The hash table is well sized: the number of bins is the least power of two that is at least twice the number of peer
  ids, and the hash of every address is the index of a bin.
\<close>

theorem peer_hash_sized:
  assumes "max_peer_id < 65536"
  shows "\<exists>k. length (hash_bins (peers_init max_peer_id)) = 2 ^ k \<and> 2 * (max_peer_id + 1) \<le> 2 ^ k \<and>
      (\<forall>j. 2 * (max_peer_id + 1) \<le> 2 ^ j \<longrightarrow> k \<le> j) \<and>
      (\<forall>a. ol_txrx_peer_find_hash_index a (peers_init max_peer_id) < 2 ^ k)"
proof -
  let ?s = "peers_init max_peer_id" and ?k = "ol_txrx_log2_ceil (2 * (max_peer_id + 1))"
  have len: "length (hash_bins ?s) = 2 ^ ?k"
    by (simp add: peers_init_def ol_txrx_local_peer_id_pool_init_def ol_txrx_peer_find_attach_def
        ol_txrx_peer_find_hash_attach_def ol_txrx_peer_find_map_attach_def Let_def mult.commute)
  moreover have "length (hash_bins ?s) = Suc (unat (hash_mask ?s))"
    using peer_inv_table [OF peers_init_inv [OF assms]] by (simp add: table_ok_def)
  ultimately show ?thesis
    using hash_index_less [of _ ?s] log2_ceil_least [of "2 * (max_peer_id + 1)"] by (intro exI [of _ ?k]) auto
qed

theorem peer_hash_sized_witness: "\<exists>k. length (hash_bins (peers_init 31)) = 2 ^ k \<and> 64 \<le> (2::nat) ^ k"
  using peer_hash_sized [of 31] by auto

text \<open>
  A map message with the invalid peer id for the address of a live peer takes a reference that nothing
  releases: the counter of a peer goes up and the id map is unchanged, so no later unmap message can give the reference back.
\<close>

theorem peer_map_invalid_leaks:
  assumes "max_peer_id < 65536" and "peer_step\<^sup>*\<^sup>* (peer_start max_peer_id) w"
    and "peers (w_pdev w) q = Some qr" and "pr_mac qr = a"
  shows "\<exists>p pr s'. ol_rx_peer_map_handler HTT_INVALID_PEER a (w_pdev w) = Some s' \<and> peers (w_pdev w) p = Some pr \<and> pr_mac pr = a \<and>
    peers s' p = Some (pr\<lparr>ref_cnt := ref_cnt pr + 1\<rparr>) \<and> id_map s' = id_map (w_pdev w) \<and> peer_events s' = peer_events (w_pdev w)"
  using reachable_world [OF assms(1,2)]
proof (cases rule: find_and_ref_ok [where a = a and tst = "\<lambda>pr. \<not> ol_txrx_peer_find_mac_addr_cmp a (pr_mac pr)",
      consumes 1, case_names none found])
  case none
  from none(2) [OF assms(3,4)] assms(4) show ?thesis by (simp add: mac_addr_cmp_eq)
next
  case (found p pr)
  then show ?thesis
    by (intro exI [of _ p] exI [of _ pr]) (simp add: ol_rx_peer_map_handler_def ol_txrx_peer_find_add_id_def
        ol_txrx_peer_find_hash_find_inc_ref_def mac_addr_cmp_eq)
qed

theorem peer_map_invalid_leaks_witness:
  "\<exists>w pr s'. peer_exec (take 5 peer_scenario) (peer_start 3) = Some w \<and> peers (w_pdev w) 7 = Some pr \<and> pr_mac pr = [4, 0, 0, 0, 0, 9] \<and>
     ol_rx_peer_map_handler HTT_INVALID_PEER [4, 0, 0, 0, 0, 9] (w_pdev w) = Some s' \<and> id_map s' = id_map (w_pdev w)"
proof -
  have "case peer_exec (take 5 peer_scenario) (peer_start 3) of None \<Rightarrow> False
    | Some w \<Rightarrow> (case peers (w_pdev w) 7 of None \<Rightarrow> False | Some pr \<Rightarrow> pr_mac pr = [4, 0, 0, 0, 0, 9])" by code_simp
  then obtain w pr where w: "peer_exec (take 5 peer_scenario) (peer_start 3) = Some w" "peers (w_pdev w) 7 = Some pr"
    "pr_mac pr = [4, 0, 0, 0, 0, 9]" by (auto split: option.splits)
  from peer_map_invalid_leaks [of 3, OF _ peer_exec_steps [OF w(1)] w(2,3)] w show ?thesis by auto
qed

end
