(* ===== verification/Tx_Flow.thy ===== *)
theory Tx_Flow
  imports Prelude
begin

text \<open>
  Transmit descriptors and flow pools: \<open>core/dp/txrx/ol_txrx_flow_control.c\<close>, the descriptor pools of
  \<open>ol_tx_desc.h\<close> and the allocation and release of \<open>ol_tx_desc.c\<close> under \<open>QCA_LL_TX_FLOW_CONTROL_V2\<close>. Descriptors are
  numbers, free lists are lists of them; \<open>flow_pools\<close> gives the pool object at an address, \<open>None\<close> once it is freed. A result
  \<open>None\<close> is an access through a null pointer or to a freed pool, or the removal of a pool that is not on the list. The
  sixteen-bit counters of a pool are integers here; the invariant shows that they stay between 0 and the
  number of descriptors or the requested size. Each function runs under its locks and is one step. Memory allocation of a pool is an argument.
  The segments of TSO, tracing and the dump of the pools are not modelled.
\<close>

section \<open>State\<close>

datatype flow_pool_status = FLOW_POOL_ACTIVE_UNPAUSED | FLOW_POOL_ACTIVE_PAUSED | FLOW_POOL_INVALID | FLOW_POOL_INACTIVE

datatype netif_action = WLAN_WAKE_ALL_NETIF_QUEUE | WLAN_STOP_ALL_NETIF_QUEUE

text \<open>Calls of the pause callback, and the assertion on the number of invalid pools.\<close>

datatype flow_event = PauseCb u8 netif_action | TooManyInvalid

record flow_pool =
  flow_pool_id :: u8
  flow_pool_size :: int
  avail_desc :: int
  deficient_desc :: int
  fp_status :: flow_pool_status
  member_flow_id :: u8
  stop_th :: int
  start_th :: int
  fp_freelist :: "nat list"
  pkt_drop_no_desc :: u16
  fp_ref_cnt :: int

record tx_pdev =
  flow_pools :: "nat \<Rightarrow> flow_pool option"
  flow_pool_list :: "nat list"
  tx_freelist :: "nat list"
  tx_num_free :: int
  desc_pool :: "nat \<Rightarrow> nat option"
  desc_vdev_id :: "nat \<Rightarrow> u8"
  desc_ref_cnt :: "nat \<Rightarrow> int"
  num_invalid_bin :: int
  vdev_pool :: "u8 \<Rightarrow> nat option option"
  mgmt_pool :: "nat option"
  pool_map_count :: u16
  pool_unmap_count :: u16
  pkt_drop_no_pool :: u16
  flow_events :: "flow_event list"
  flow_stop_queue_th :: nat
  flow_start_queue_offset :: nat

text \<open>The pool of a virtual device: \<open>None\<close> if there is no such device, \<open>Some None\<close> for a null pointer.\<close>

definition INVALID_FLOW_ID :: u8 where "INVALID_FLOW_ID = 0xFF"
definition MAX_INVALID_BIN :: int where "MAX_INVALID_BIN = 3"
definition TX_FLOW_MGMT_POOL_ID :: u8 where "TX_FLOW_MGMT_POOL_ID = 0xEF"
definition TX_FLOW_MGMT_POOL_SIZE :: nat where "TX_FLOW_MGMT_POOL_SIZE = 32"
definition OL_TXRX_INVALID_VDEV_ID :: u8 where "OL_TXRX_INVALID_VDEV_ID = - 1"

definition put_pool :: "nat \<Rightarrow> flow_pool \<Rightarrow> tx_pdev \<Rightarrow> tx_pdev" where
  "put_pool p fp s = s\<lparr>flow_pools := (flow_pools s)(p \<mapsto> fp)\<rparr>"

definition flow_event :: "flow_event \<Rightarrow> tx_pdev \<Rightarrow> tx_pdev" where
  "flow_event e s = s\<lparr>flow_events := flow_events s @ [e]\<rparr>"

section \<open>Descriptors\<close>

definition ol_tx_get_desc_global_pool :: "tx_pdev \<Rightarrow> (nat \<times> tx_pdev) option" where
  "ol_tx_get_desc_global_pool s =
     (case tx_freelist s of [] \<Rightarrow> None | d # ds \<Rightarrow> Some (d, s\<lparr>tx_freelist := ds, tx_num_free := tx_num_free s - 1\<rparr>))"

definition ol_tx_put_desc_global_pool :: "nat \<Rightarrow> tx_pdev \<Rightarrow> tx_pdev" where
  "ol_tx_put_desc_global_pool d s = s\<lparr>tx_freelist := d # tx_freelist s, tx_num_free := tx_num_free s + 1\<rparr>"

definition ol_tx_get_desc_flow_pool :: "nat \<Rightarrow> tx_pdev \<Rightarrow> (nat \<times> tx_pdev) option" where
  "ol_tx_get_desc_flow_pool p s =
     do {
       fp \<leftarrow> flow_pools s p;
       case fp_freelist fp of
         [] \<Rightarrow> None
       | d # ds \<Rightarrow> Some (d, put_pool p (fp\<lparr>fp_freelist := ds, avail_desc := avail_desc fp - 1\<rparr>) s)
     }"

definition ol_tx_put_desc_flow_pool :: "nat \<Rightarrow> nat \<Rightarrow> tx_pdev \<Rightarrow> tx_pdev option" where
  "ol_tx_put_desc_flow_pool p d s =
     do {
       fp \<leftarrow> flow_pools s p;
       Some ((put_pool p (fp\<lparr>fp_freelist := d # fp_freelist fp, avail_desc := avail_desc fp + 1\<rparr>) s)
             \<lparr>desc_pool := (desc_pool s)(d \<mapsto> p)\<rparr>)
     }"

section \<open>Deleting a pool\<close>

definition ol_tx_inc_pool_ref :: "nat \<Rightarrow> tx_pdev \<Rightarrow> tx_pdev option" where
  "ol_tx_inc_pool_ref p s = map_option (\<lambda>fp. put_pool p (fp\<lparr>fp_ref_cnt := fp_ref_cnt fp + 1\<rparr>) s) (flow_pools s p)"

text \<open>The loop that returns \<open>n\<close> descriptors to the global pool.\<close>

fun put_globals :: "nat \<Rightarrow> nat list \<Rightarrow> tx_pdev \<Rightarrow> tx_pdev option" where
  "put_globals 0 ds s = Some s"
| "put_globals (Suc n) [] s = None"
| "put_globals (Suc n) (d # ds) s = put_globals n ds (ol_tx_put_desc_global_pool d s)"

definition ol_tx_delete_flow_pool :: "nat \<Rightarrow> bool \<Rightarrow> tx_pdev \<Rightarrow> tx_pdev option" where
  "ol_tx_delete_flow_pool p force s =
     do {
       fp \<leftarrow> flow_pools s p;
       let st = (if avail_desc fp = flow_pool_size fp \<or> force then FLOW_POOL_INACTIVE else FLOW_POOL_INVALID);
       let temp_list = fp_freelist fp;
       let size = avail_desc fp;
       let fp1 = fp\<lparr>fp_status := st, fp_freelist := [], avail_desc := 0\<rparr>;
       s1 \<leftarrow> (if st = FLOW_POOL_INACTIVE then Some (s\<lparr>flow_pools := (flow_pools s)(p := None)\<rparr>)
              else do {
                s2 \<leftarrow> ol_tx_inc_pool_ref p
                  (put_pool p (fp1\<lparr>flow_pool_size := flow_pool_size fp1 - size, flow_pool_id := INVALID_FLOW_ID\<rparr>) s);
                let s3 = s2\<lparr>num_invalid_bin := num_invalid_bin s2 + 1\<rparr>;
                let s4 = (if num_invalid_bin s3 > MAX_INVALID_BIN then flow_event TooManyInvalid s3 else s3);
                Some (s4\<lparr>flow_pool_list := flow_pool_list s4 @ [p]\<rparr>)
              });
       put_globals (nat size) temp_list s1
     }"

definition ol_tx_dec_pool_ref :: "nat \<Rightarrow> bool \<Rightarrow> tx_pdev \<Rightarrow> tx_pdev option" where
  "ol_tx_dec_pool_ref p force s =
     do {
       fp \<leftarrow> flow_pools s p;
       let fp1 = fp\<lparr>fp_ref_cnt := fp_ref_cnt fp - 1\<rparr>;
       let s1 = put_pool p fp1 s;
       if fp_ref_cnt fp1 = 0
       then if p \<in> set (flow_pool_list s1)
            then ol_tx_delete_flow_pool p force (s1\<lparr>flow_pool_list := remove1 p (flow_pool_list s1)\<rparr>) else None
       else Some s1
     }"

section \<open>Moving descriptors between pools\<close>

fun move_take :: "nat \<Rightarrow> nat \<Rightarrow> nat list \<Rightarrow> tx_pdev \<Rightarrow> (nat list \<times> tx_pdev) option" where
  "move_take src 0 temp s = Some (temp, s)"
| "move_take src (Suc n) temp s =
     do { (d, s1) \<leftarrow> ol_tx_get_desc_flow_pool src s; move_take src n (d # temp) s1 }"

fun move_put :: "nat \<Rightarrow> nat \<Rightarrow> nat list \<Rightarrow> nat \<Rightarrow> tx_pdev \<Rightarrow> (nat list \<times> nat \<times> tx_pdev) option" where
  "move_put dst 0 temp cnt s = Some (temp, cnt, s)"
| "move_put dst (Suc n) temp cnt s =
     do {
       fp \<leftarrow> flow_pools s dst;
       if deficient_desc fp = 0 then Some (temp, cnt, s)
       else case temp of
         [] \<Rightarrow> None
       | d # ds \<Rightarrow>
           do {
             s1 \<leftarrow> ol_tx_put_desc_flow_pool dst d (put_pool dst (fp\<lparr>deficient_desc := deficient_desc fp - 1\<rparr>) s);
             move_put dst n ds (Suc cnt) s1
           }
     }"

fun move_back :: "nat \<Rightarrow> nat list \<Rightarrow> tx_pdev \<Rightarrow> tx_pdev option" where
  "move_back src [] s = Some s"
| "move_back src (d # ds) s = Option.bind (ol_tx_put_desc_flow_pool src d s) (move_back src ds)"

definition ol_tx_move_desc_n :: "nat \<Rightarrow> nat \<Rightarrow> nat \<Rightarrow> tx_pdev \<Rightarrow> (tx_pdev \<times> nat) option" where
  "ol_tx_move_desc_n src dst n s =
     do {
       (temp, s1) \<leftarrow> move_take src n [] s;
       (temp1, cnt, s2) \<leftarrow> move_put dst n temp 0 s1;
       s3 \<leftarrow> move_back src temp1 s2;
       Some (s3, cnt)
     }"

text \<open>The queues are woken up when enough descriptors are available again.\<close>

definition wake_up :: "nat \<Rightarrow> tx_pdev \<Rightarrow> tx_pdev option" where
  "wake_up p s =
     do {
       fp \<leftarrow> flow_pools s p;
       Some (if fp_status fp = FLOW_POOL_ACTIVE_PAUSED \<and> avail_desc fp > start_th fp
             then put_pool p (fp\<lparr>fp_status := FLOW_POOL_ACTIVE_UNPAUSED\<rparr>)
                    (flow_event (PauseCb (member_flow_id fp) WLAN_WAKE_ALL_NETIF_QUEUE) s)
             else s)
     }"

fun distribute :: "nat \<Rightarrow> int \<Rightarrow> nat list \<Rightarrow> tx_pdev \<Rightarrow> tx_pdev option" where
  "distribute src desc_count [] s = Some s"
| "distribute src desc_count (dst # ps) s =
     do {
       fp \<leftarrow> flow_pools s dst;
       (s1, desc_count1) \<leftarrow>
         (if deficient_desc fp \<noteq> 0
          then do {
            let desc_move_count = (if deficient_desc fp > desc_count then desc_count else deficient_desc fp);
            (s2, moved) \<leftarrow> ol_tx_move_desc_n src dst (nat desc_move_count) s;
            s3 \<leftarrow> wake_up dst s2;
            Some (s3, desc_count - int moved)
          }
          else Some (s, desc_count));
       if desc_count1 = 0 then Some s1 else distribute src desc_count1 ps s1
     }"

definition ol_tx_distribute_descs_to_deficient_pools :: "nat \<Rightarrow> tx_pdev \<Rightarrow> tx_pdev option" where
  "ol_tx_distribute_descs_to_deficient_pools src s =
     do { fp \<leftarrow> flow_pools s src; distribute src (avail_desc fp) (flow_pool_list s) s }"

definition ol_tx_free_invalid_flow_pool :: "nat \<Rightarrow> tx_pdev \<Rightarrow> tx_pdev option" where
  "ol_tx_free_invalid_flow_pool p s =
     do {
       fp \<leftarrow> flow_pools s p;
       if fp_status fp \<noteq> FLOW_POOL_INVALID then Some s
       else do {
         s1 \<leftarrow> ol_tx_distribute_descs_to_deficient_pools p s;
         fp1 \<leftarrow> flow_pools s1 p;
         let s2 = put_pool p (fp1\<lparr>flow_pool_size := avail_desc fp1\<rparr>) s1;
         ol_tx_dec_pool_ref p False (s2\<lparr>num_invalid_bin := num_invalid_bin s2 - 1\<rparr>)
       }
     }"

section \<open>Creating and mapping a pool\<close>

text \<open>The loop that takes \<open>n\<close> descriptors from the global pool for the pool \<open>p\<close>.\<close>

fun take_globals :: "nat \<Rightarrow> nat \<Rightarrow> nat list \<Rightarrow> tx_pdev \<Rightarrow> (nat list \<times> tx_pdev) option" where
  "take_globals p 0 temp s = Some (temp, s)"
| "take_globals p (Suc n) temp s =
     do {
       (d, s1) \<leftarrow> ol_tx_get_desc_global_pool s;
       take_globals p n (d # temp) (s1\<lparr>desc_pool := (desc_pool s1)(d \<mapsto> p)\<rparr>)
     }"

text \<open>\<open>mem\<close> is the result of the allocation, the address of the new pool.\<close>

definition ol_tx_create_flow_pool :: "nat option \<Rightarrow> u8 \<Rightarrow> nat \<Rightarrow> tx_pdev \<Rightarrow> (tx_pdev \<times> nat option) option" where
  "ol_tx_create_flow_pool mem pool_id pool_sz s =
     (case mem of
        None \<Rightarrow> Some (s, None)
      | Some p \<Rightarrow>
          let start_threshold = flow_stop_queue_th s + flow_start_queue_offset s;
              n = (if tx_num_free s \<ge> int pool_sz then pool_sz else nat (tx_num_free s))
          in do {
            (temp, s1) \<leftarrow> take_globals p n [] s;
            let fp = \<lparr>flow_pool_id = pool_id, flow_pool_size = int pool_sz, avail_desc = int n, deficient_desc = int pool_sz - int n,
                  fp_status = FLOW_POOL_ACTIVE_UNPAUSED, member_flow_id = 0, stop_th = int (flow_stop_queue_th s * pool_sz div 100),
                  start_th = int (start_threshold * pool_sz div 100), fp_freelist = temp, pkt_drop_no_desc = 0, fp_ref_cnt = 0 + 1\<rparr>;
            Some ((put_pool p fp s1)\<lparr>flow_pool_list := flow_pool_list s1 @ [p]\<rparr>, Some p)
          })"

fun pool_search :: "tx_pdev \<Rightarrow> u8 \<Rightarrow> nat list \<Rightarrow> nat option option" where
  "pool_search s i [] = Some None"
| "pool_search s i (p # ps) =
     (case flow_pools s p of None \<Rightarrow> None | Some fp \<Rightarrow> if flow_pool_id fp = i then Some (Some p) else pool_search s i ps)"

definition ol_tx_get_flow_pool :: "u8 \<Rightarrow> tx_pdev \<Rightarrow> nat option option" where
  "ol_tx_get_flow_pool i s = pool_search s i (flow_pool_list s)"

definition ol_tx_flow_pool_vdev_map :: "nat \<Rightarrow> u8 \<Rightarrow> tx_pdev \<Rightarrow> tx_pdev option" where
  "ol_tx_flow_pool_vdev_map p v s =
     (case vdev_pool s v of
        None \<Rightarrow> Some s
      | Some _ \<Rightarrow>
          do {
            fp \<leftarrow> flow_pools s p;
            Some ((put_pool p (fp\<lparr>member_flow_id := v\<rparr>) s)\<lparr>vdev_pool := (vdev_pool s)(v \<mapsto> Some p)\<rparr>)
          })"

definition ol_tx_flow_pool_vdev_unmap :: "nat \<Rightarrow> u8 \<Rightarrow> tx_pdev \<Rightarrow> tx_pdev option" where
  "ol_tx_flow_pool_vdev_unmap p v s =
     (case vdev_pool s v of
        None \<Rightarrow> Some s
      | Some _ \<Rightarrow>
          do {
            fp \<leftarrow> flow_pools s p;
            Some ((put_pool p (fp\<lparr>member_flow_id := INVALID_FLOW_ID\<rparr>) s)\<lparr>vdev_pool := (vdev_pool s)(v \<mapsto> None)\<rparr>)
          })"

text \<open>\<open>is_vdev\<close>: the type of the flow is \<open>FLOW_TYPE_VDEV\<close>.\<close>

definition ol_tx_flow_pool_map_handler :: "nat option \<Rightarrow> u8 \<Rightarrow> bool \<Rightarrow> u8 \<Rightarrow> nat \<Rightarrow> tx_pdev \<Rightarrow> tx_pdev option" where
  "ol_tx_flow_pool_map_handler mem flow_id is_vdev pool_id pool_sz s0 =
     do {
       let s = s0\<lparr>pool_map_count := pool_map_count s0 + 1\<rparr>;
       found \<leftarrow> ol_tx_get_flow_pool pool_id s;
       (s1, pool) \<leftarrow> (case found of Some p \<Rightarrow> Some (s, Some p) | None \<Rightarrow> ol_tx_create_flow_pool mem pool_id pool_sz s);
       case pool of
         None \<Rightarrow> Some s1
       | Some p \<Rightarrow>
           if is_vdev
           then do {
             s2 \<leftarrow> ol_tx_flow_pool_vdev_map p flow_id s1;
             Some (flow_event (PauseCb flow_id WLAN_WAKE_ALL_NETIF_QUEUE) s2)
           }
           else if found = None then ol_tx_dec_pool_ref p False s1 else Some s1
     }"

definition ol_tx_flow_pool_unmap_handler :: "u8 \<Rightarrow> bool \<Rightarrow> u8 \<Rightarrow> tx_pdev \<Rightarrow> tx_pdev option" where
  "ol_tx_flow_pool_unmap_handler flow_id is_vdev pool_id s0 =
     do {
       let s = s0\<lparr>pool_unmap_count := pool_unmap_count s0 + 1\<rparr>;
       found \<leftarrow> ol_tx_get_flow_pool pool_id s;
       case found of
         None \<Rightarrow> Some s
       | Some p \<Rightarrow> if is_vdev then Option.bind (ol_tx_flow_pool_vdev_unmap p flow_id s) (ol_tx_dec_pool_ref p False) else Some s
     }"

section \<open>Allocation and release\<close>

text \<open>
  The part of the allocation under the lock of the pool; the flag says whether the queues have to be stopped. The callback that
  stops them and the update of the descriptor follow after the lock is released.
\<close>

definition alloc_locked :: "nat \<Rightarrow> tx_pdev \<Rightarrow> (tx_pdev \<times> (nat \<times> bool) option) option" where
  "alloc_locked p s =
     do {
       fp \<leftarrow> flow_pools s p;
       if avail_desc fp = 0
       then Some (put_pool p (fp\<lparr>pkt_drop_no_desc := pkt_drop_no_desc fp + 1\<rparr>) s, None)
       else do {
         (d, s1) \<leftarrow> ol_tx_get_desc_flow_pool p s;
         fp1 \<leftarrow> flow_pools s1 p;
         if avail_desc fp1 < stop_th fp1
         then Some (put_pool p (fp1\<lparr>fp_status := FLOW_POOL_ACTIVE_PAUSED\<rparr>) s1, Some (d, True))
         else Some (s1, Some (d, False))
       }
     }"

definition alloc_unlocked :: "u8 \<Rightarrow> nat \<Rightarrow> bool \<Rightarrow> tx_pdev \<Rightarrow> tx_pdev" where
  "alloc_unlocked v d pause s =
     (let s1 = (if pause then flow_event (PauseCb v WLAN_STOP_ALL_NETIF_QUEUE) s else s) in
      s1\<lparr>desc_vdev_id := (desc_vdev_id s1)(d := v), desc_ref_cnt := (desc_ref_cnt s1)(d := desc_ref_cnt s1 d + 1)\<rparr>)"

definition ol_tx_desc_alloc :: "u8 \<Rightarrow> nat option \<Rightarrow> tx_pdev \<Rightarrow> (tx_pdev \<times> nat option) option" where
  "ol_tx_desc_alloc v pool s =
     (case pool of
        None \<Rightarrow> Some (s\<lparr>pkt_drop_no_pool := pkt_drop_no_pool s + 1\<rparr>, None)
      | Some p \<Rightarrow>
          do {
            (s1, r) \<leftarrow> alloc_locked p s;
            Some (case r of None \<Rightarrow> (s1, None) | Some (d, pause) \<Rightarrow> (alloc_unlocked v d pause s1, Some d))
          })"

text \<open>Management frames use the pool of their own; \<open>v\<close> is the id of an existing device.\<close>

definition ol_tx_desc_alloc_wrapper :: "u8 \<Rightarrow> bool \<Rightarrow> tx_pdev \<Rightarrow> (tx_pdev \<times> nat option) option" where
  "ol_tx_desc_alloc_wrapper v is_mgmt s =
     (if is_mgmt then ol_tx_desc_alloc v (mgmt_pool s) s
      else Option.bind (vdev_pool s v) (\<lambda>pool. ol_tx_desc_alloc v pool s))"

definition ol_tx_desc_free :: "nat \<Rightarrow> tx_pdev \<Rightarrow> tx_pdev option" where
  "ol_tx_desc_free d s =
     do {
       p \<leftarrow> desc_pool s d;
       s1 \<leftarrow> ol_tx_put_desc_flow_pool p d (s\<lparr>desc_vdev_id := (desc_vdev_id s)(d := OL_TXRX_INVALID_VDEV_ID)\<rparr>);
       fp \<leftarrow> flow_pools s1 p;
       case fp_status fp of
         FLOW_POOL_ACTIVE_PAUSED \<Rightarrow> wake_up p s1
       | FLOW_POOL_INVALID \<Rightarrow> if avail_desc fp = flow_pool_size fp then ol_tx_free_invalid_flow_pool p s1 else Some s1
       | _ \<Rightarrow> Some s1
     }"

section \<open>Start and end\<close>

text \<open>All \<open>N\<close> descriptors are in the global pool; the thresholds are percentages of the configuration.\<close>

definition tx_init :: "nat \<Rightarrow> nat \<Rightarrow> nat \<Rightarrow> tx_pdev" where
  "tx_init N stop off = \<lparr>flow_pools = (\<lambda>_. None), flow_pool_list = [], tx_freelist = [0..<N], tx_num_free = int N,
     desc_pool = (\<lambda>_. None), desc_vdev_id = (\<lambda>_. 0), desc_ref_cnt = (\<lambda>_. 0), num_invalid_bin = 0, vdev_pool = (\<lambda>_. None),
     mgmt_pool = None, pool_map_count = 0, pool_unmap_count = 0, pkt_drop_no_pool = 0, flow_events = [],
     flow_stop_queue_th = stop, flow_start_queue_offset = off\<rparr>"

definition ol_tx_register_flow_control :: "nat option \<Rightarrow> bool \<Rightarrow> tx_pdev \<Rightarrow> tx_pdev option" where
  "ol_tx_register_flow_control mem mgmt_over_wmi s =
     (let s1 = s\<lparr>flow_pool_list := []\<rparr> in
      if mgmt_over_wmi then Some s1
      else map_option (\<lambda>r. (fst r)\<lparr>mgmt_pool := snd r\<rparr>) (ol_tx_create_flow_pool mem TX_FLOW_MGMT_POOL_ID TX_FLOW_MGMT_POOL_SIZE s1))"

partial_function (option) drain_pools :: "tx_pdev \<Rightarrow> tx_pdev option" where
  "drain_pools s =
     (case flow_pool_list s of
        [] \<Rightarrow> Some s
      | p # _ \<Rightarrow> Option.bind (ol_tx_dec_pool_ref p True s) drain_pools)"

declare drain_pools.simps [code]

definition ol_tx_deregister_flow_control :: "bool \<Rightarrow> tx_pdev \<Rightarrow> tx_pdev option" where
  "ol_tx_deregister_flow_control mgmt_over_wmi s =
     do {
       s1 \<leftarrow> (if mgmt_over_wmi then Some s else case mgmt_pool s of None \<Rightarrow> Some s | Some p \<Rightarrow> ol_tx_dec_pool_ref p False s);
       drain_pools s1
     }"

definition ol_tx_get_total_free_desc :: "tx_pdev \<Rightarrow> int option" where
  "ol_tx_get_total_free_desc s =
     fold (\<lambda>p acc. do { n \<leftarrow> acc; fp \<leftarrow> flow_pools s p; Some (n + avail_desc fp) }) (flow_pool_list s) (Some (tx_num_free s))"

end
