(* ===== verification/Tx_Flow_Inv.thy ===== *)
theory Tx_Flow_Inv
  imports Tx_Flow
begin

text \<open>
  The invariant of the flow pools. The descriptors in flight (taken by \<open>ol_tx_desc_alloc\<close> and not yet released) are ghost
  state. Every descriptor is in exactly one place: the global pool, the free list of one pool or in flight. For each
  pool, the available descriptors, the ones in flight and the deficit add up to the size of the pool.
\<close>

section \<open>Invariant\<close>

definition free_of :: "tx_pdev \<Rightarrow> nat \<Rightarrow> nat list" where
  "free_of s p = (case flow_pools s p of None \<Rightarrow> [] | Some fp \<Rightarrow> fp_freelist fp)"

definition all_descs :: "tx_pdev \<Rightarrow> nat set \<Rightarrow> nat multiset" where
  "all_descs s infl = mset (tx_freelist s) + (\<Sum>p \<in> set (flow_pool_list s). mset (free_of s p)) + mset_set infl"

definition infl_of :: "tx_pdev \<Rightarrow> nat set \<Rightarrow> nat \<Rightarrow> nat set" where
  "infl_of s infl p = {d \<in> infl. desc_pool s d = Some p}"

definition fpool_ok :: "tx_pdev \<Rightarrow> nat \<Rightarrow> flow_pool \<Rightarrow> bool" where
  "fpool_ok s p fp \<longleftrightarrow> avail_desc fp = int (length (fp_freelist fp)) \<and> (\<forall>d \<in> set (fp_freelist fp). desc_pool s d = Some p) \<and>
     0 \<le> deficient_desc fp \<and> fp_ref_cnt fp = 1 \<and> fp_status fp \<noteq> FLOW_POOL_INACTIVE \<and> 0 \<le> stop_th fp \<and> stop_th fp \<le> start_th fp \<and>
     (fp_status fp \<noteq> FLOW_POOL_INVALID \<longrightarrow> 100 * start_th fp \<le> 80 * flow_pool_size fp) \<and>
     (fp_status fp = FLOW_POOL_INVALID \<longleftrightarrow> flow_pool_id fp = INVALID_FLOW_ID)"

text \<open>The queues are stopped only while few descriptors are available.\<close>

definition paused_ok :: "flow_pool \<Rightarrow> bool" where
  "paused_ok fp \<longleftrightarrow> (fp_status fp = FLOW_POOL_ACTIVE_PAUSED \<longrightarrow> avail_desc fp \<le> start_th fp)"

definition count_ok :: "tx_pdev \<Rightarrow> nat set \<Rightarrow> nat \<Rightarrow> flow_pool \<Rightarrow> bool" where
  "count_ok s infl p fp \<longleftrightarrow> avail_desc fp + int (card (infl_of s infl p)) + deficient_desc fp = flow_pool_size fp"

definition invalid_pool :: "tx_pdev \<Rightarrow> nat \<Rightarrow> bool" where
  "invalid_pool s p \<longleftrightarrow> (\<exists>fp. flow_pools s p = Some fp \<and> fp_status fp = FLOW_POOL_INVALID)"

definition active_pool :: "tx_pdev \<Rightarrow> nat \<Rightarrow> bool" where
  "active_pool s p \<longleftrightarrow> (\<exists>fp. flow_pools s p = Some fp \<and> fp_status fp \<noteq> FLOW_POOL_INVALID)"

definition list_ok :: "tx_pdev \<Rightarrow> bool" where
  "list_ok s \<longleftrightarrow> distinct (flow_pool_list s) \<and> (\<forall>p. p \<in> set (flow_pool_list s) \<longleftrightarrow> flow_pools s p \<noteq> None)"

definition refs_active :: "tx_pdev \<Rightarrow> bool" where
  "refs_active s \<longleftrightarrow> (\<forall>v p. vdev_pool s v = Some (Some p) \<longrightarrow> active_pool s p) \<and> (\<forall>p. mgmt_pool s = Some p \<longrightarrow> active_pool s p)"

definition flow_base :: "nat \<Rightarrow> tx_pdev \<Rightarrow> nat set \<Rightarrow> bool" where
  "flow_base N s infl \<longleftrightarrow> list_ok s \<and> (\<forall>p fp. flow_pools s p = Some fp \<longrightarrow> fpool_ok s p fp) \<and> finite infl \<and>
     tx_num_free s = int (length (tx_freelist s)) \<and> all_descs s infl = mset_set {..<N} \<and>
     (\<forall>d \<in> infl. \<exists>p. desc_pool s d = Some p \<and> flow_pools s p \<noteq> None) \<and>
     num_invalid_bin s = int (card {p. invalid_pool s p}) \<and> refs_active s \<and> flow_stop_queue_th s + flow_start_queue_offset s \<le> 80"

definition flow_inv :: "nat \<Rightarrow> tx_pdev \<Rightarrow> nat set \<Rightarrow> bool" where
  "flow_inv N s infl \<longleftrightarrow> flow_base N s infl \<and> (\<forall>p fp. flow_pools s p = Some fp \<longrightarrow> count_ok s infl p fp \<and> paused_ok fp)"

section \<open>Frames\<close>

lemma put_pool_simps [simp]:
  "flow_pools (put_pool p fp s) = (flow_pools s)(p \<mapsto> fp)" "flow_pool_list (put_pool p fp s) = flow_pool_list s"
  "tx_freelist (put_pool p fp s) = tx_freelist s" "tx_num_free (put_pool p fp s) = tx_num_free s"
  "desc_pool (put_pool p fp s) = desc_pool s" "num_invalid_bin (put_pool p fp s) = num_invalid_bin s"
  "vdev_pool (put_pool p fp s) = vdev_pool s" "mgmt_pool (put_pool p fp s) = mgmt_pool s"
  "desc_vdev_id (put_pool p fp s) = desc_vdev_id s" "desc_ref_cnt (put_pool p fp s) = desc_ref_cnt s"
  "flow_events (put_pool p fp s) = flow_events s" "flow_stop_queue_th (put_pool p fp s) = flow_stop_queue_th s"
  "flow_start_queue_offset (put_pool p fp s) = flow_start_queue_offset s"
  by (simp_all add: put_pool_def)

lemma flow_event_simps [simp]:
  "flow_pools (flow_event e s) = flow_pools s" "flow_pool_list (flow_event e s) = flow_pool_list s"
  "tx_freelist (flow_event e s) = tx_freelist s" "tx_num_free (flow_event e s) = tx_num_free s"
  "desc_pool (flow_event e s) = desc_pool s" "num_invalid_bin (flow_event e s) = num_invalid_bin s"
  "vdev_pool (flow_event e s) = vdev_pool s" "mgmt_pool (flow_event e s) = mgmt_pool s"
  "flow_stop_queue_th (flow_event e s) = flow_stop_queue_th s" "flow_start_queue_offset (flow_event e s) = flow_start_queue_offset s"
  by (simp_all add: flow_event_def)

text \<open>The invariant depends on these members only.\<close>

definition same_core :: "tx_pdev \<Rightarrow> tx_pdev \<Rightarrow> bool" where
  "same_core s s' \<longleftrightarrow> flow_pools s' = flow_pools s \<and> flow_pool_list s' = flow_pool_list s \<and> tx_freelist s' = tx_freelist s \<and>
     tx_num_free s' = tx_num_free s \<and> desc_pool s' = desc_pool s \<and> num_invalid_bin s' = num_invalid_bin s \<and>
     vdev_pool s' = vdev_pool s \<and> mgmt_pool s' = mgmt_pool s \<and> flow_stop_queue_th s' = flow_stop_queue_th s \<and>
     flow_start_queue_offset s' = flow_start_queue_offset s"

lemma flow_inv_cong:
  assumes "same_core s s'"
  shows "flow_base N s' infl = flow_base N s infl" "flow_inv N s' infl = flow_inv N s infl" "infl_of s' infl = infl_of s infl"
  using assms
  by (simp_all add: same_core_def flow_inv_def flow_base_def list_ok_def fpool_ok_def all_descs_def free_of_def
      invalid_pool_def refs_active_def active_pool_def count_ok_def infl_of_def fun_eq_iff)

section \<open>Every descriptor is in one place\<close>

lemma in_pool_sum:
  assumes "p \<in> set (flow_pool_list s)"
  shows "(\<Sum>q \<in> set (flow_pool_list s). mset (free_of s q)) = mset (free_of s p) + (\<Sum>q \<in> set (flow_pool_list s) - {p}. mset (free_of s q))"
  using assms by (simp add: sum.remove)

lemma two_places:
  assumes "A + B = mset_set X" "x \<in># A"
  shows "x \<notin># B"
proof
  assume "x \<in># B"
  with assms(2) have "0 < count A x" "0 < count B x" by simp_all
  moreover have "count A x + count B x = count (mset_set X) x" using assms(1) by (metis count_union)
  moreover have "count (mset_set X) x \<le> 1" by (simp add: count_mset_set')
  ultimately show False by linarith
qed

lemma distinct_part: "mset xs + B = mset_set X \<Longrightarrow> distinct xs"
proof (induction xs arbitrary: B)
  case (Cons x xs)
  then have "mset xs + add_mset x B = mset_set X" by simp
  with Cons.IH have "distinct xs" by blast
  moreover have "{#x#} + (mset xs + B) = mset_set X" using Cons.prems by simp
  then have "x \<notin># mset xs + B" by (rule two_places) simp
  ultimately show ?case by simp
qed simp

lemma pool_desc_alone:
  assumes all: "all_descs s infl = mset_set {..<N}" and p: "p \<in> set (flow_pool_list s)" and fin: "finite infl"
  shows "distinct (free_of s p)" and "d \<in> set (free_of s p) \<Longrightarrow> d \<notin> infl" "d \<in> set (free_of s p) \<Longrightarrow> d \<notin> set (tx_freelist s)"
    "\<lbrakk>d \<in> set (free_of s p); q \<in> set (flow_pool_list s); q \<noteq> p\<rbrakk> \<Longrightarrow> d \<notin> set (free_of s q)"
proof -
  let ?rest = "\<Sum>q \<in> set (flow_pool_list s) - {p}. mset (free_of s q)"
  have eq: "mset (free_of s p) + (mset (tx_freelist s) + ?rest + mset_set infl) = mset_set {..<N}"
    using all by (simp add: all_descs_def in_pool_sum [OF p] ac_simps)
  show "distinct (free_of s p)" by (rule distinct_part [OF eq])
  assume d: "d \<in> set (free_of s p)"
  have no: "d \<notin># mset (tx_freelist s) + ?rest + mset_set infl" by (rule two_places [OF eq]) (simp add: d)
  then show "d \<notin> infl" "d \<notin> set (tx_freelist s)" using fin by auto
  assume q: "q \<in> set (flow_pool_list s)" "q \<noteq> p"
  then have "?rest = mset (free_of s q) + (\<Sum>q \<in> set (flow_pool_list s) - {p} - {q}. mset (free_of s q))"
    by (simp add: sum.remove)
  with no show "d \<notin> set (free_of s q)" by simp
qed

lemma global_desc_alone:
  assumes all: "all_descs s infl = mset_set {..<N}" and fin: "finite infl"
  shows "distinct (tx_freelist s)" and "d \<in> set (tx_freelist s) \<Longrightarrow> d \<notin> infl"
    "\<lbrakk>d \<in> set (tx_freelist s); p \<in> set (flow_pool_list s)\<rbrakk> \<Longrightarrow> d \<notin> set (free_of s p)"
proof -
  have eq: "mset (tx_freelist s) + ((\<Sum>q \<in> set (flow_pool_list s). mset (free_of s q)) + mset_set infl) = mset_set {..<N}"
    using all by (simp add: all_descs_def ac_simps)
  show "distinct (tx_freelist s)" by (rule distinct_part [OF eq])
  assume d: "d \<in> set (tx_freelist s)"
  have "d \<notin># (\<Sum>q \<in> set (flow_pool_list s). mset (free_of s q)) + mset_set infl" by (rule two_places [OF eq]) (simp add: d)
  then show "d \<notin> infl" using fin by simp
  show "p \<in> set (flow_pool_list s) \<Longrightarrow> d \<notin> set (free_of s p)" using pool_desc_alone(3) [OF all _ fin] d by blast
qed

lemma infl_desc_alone:
  assumes all: "all_descs s infl = mset_set {..<N}" and fin: "finite infl" and d: "d \<in> infl"
  shows "d \<notin> set (tx_freelist s)" "p \<in> set (flow_pool_list s) \<Longrightarrow> d \<notin> set (free_of s p)" "d < N"
proof -
  show "d \<notin> set (tx_freelist s)" "p \<in> set (flow_pool_list s) \<Longrightarrow> d \<notin> set (free_of s p)"
    using global_desc_alone(2) [OF all fin] pool_desc_alone(2) [OF all _ fin] d by blast+
  have "d \<in># mset_set {..<N}" unfolding all [symmetric] using d fin by (simp add: all_descs_def)
  then show "d < N" by simp
qed

section \<open>Access to the parts of the invariant\<close>

lemma flow_baseD:
  assumes "flow_base N s infl"
  shows "distinct (flow_pool_list s)" "p \<in> set (flow_pool_list s) \<longleftrightarrow> flow_pools s p \<noteq> None" "finite infl"
    "flow_pools s p = Some fp \<Longrightarrow> fpool_ok s p fp" "tx_num_free s = int (length (tx_freelist s))"
    "all_descs s infl = mset_set {..<N}" "d \<in> infl \<Longrightarrow> \<exists>p. desc_pool s d = Some p \<and> flow_pools s p \<noteq> None"
    "num_invalid_bin s = int (card {p. invalid_pool s p})" "refs_active s" "flow_stop_queue_th s + flow_start_queue_offset s \<le> 80"
  using assms unfolding flow_base_def list_ok_def by blast+

lemma flow_invD:
  assumes "flow_inv N s infl"
  shows "flow_base N s infl" "flow_pools s p = Some fp \<Longrightarrow> count_ok s infl p fp" "flow_pools s p = Some fp \<Longrightarrow> paused_ok fp"
  using assms unfolding flow_inv_def by blast+

lemma free_of_Some [simp]: "flow_pools s p = Some fp \<Longrightarrow> free_of s p = fp_freelist fp"
  by (simp add: free_of_def)

lemma invalid_finite:
  assumes "flow_base N s infl" shows "finite {p. invalid_pool s p}"
proof (rule finite_subset)
  show "{p. invalid_pool s p} \<subseteq> set (flow_pool_list s)"
    using flow_baseD(2) [OF assms] by (auto simp: invalid_pool_def)
qed simp

lemma flow_baseI:
  assumes "list_ok s" "\<And>p fp. flow_pools s p = Some fp \<Longrightarrow> fpool_ok s p fp" "finite infl"
    "tx_num_free s = int (length (tx_freelist s))" "all_descs s infl = mset_set {..<N}"
    "\<And>d. d \<in> infl \<Longrightarrow> \<exists>p. desc_pool s d = Some p \<and> flow_pools s p \<noteq> None"
    "num_invalid_bin s = int (card {p. invalid_pool s p})" "refs_active s" "flow_stop_queue_th s + flow_start_queue_offset s \<le> 80"
  shows "flow_base N s infl"
  using assms unfolding flow_base_def by blast

lemma infl_live:
  assumes "flow_base N s infl" "d \<in> infl" "desc_pool s' d = desc_pool s d" "\<And>q. flow_pools s q \<noteq> None \<Longrightarrow> flow_pools s' q \<noteq> None"
  shows "\<exists>p. desc_pool s' d = Some p \<and> flow_pools s' p \<noteq> None"
  using flow_baseD(7) [OF assms(1,2)] assms(3,4) by auto

definition other_descs :: "tx_pdev \<Rightarrow> nat \<Rightarrow> nat multiset" where
  "other_descs s p = (\<Sum>q \<in> set (flow_pool_list s) - {p}. mset (free_of s q))"

lemma all_descs_at:
  "p \<in> set (flow_pool_list s) \<Longrightarrow> all_descs s infl = mset (tx_freelist s) + mset (free_of s p) + other_descs s p + mset_set infl"
  by (simp add: all_descs_def other_descs_def in_pool_sum ac_simps)

lemma other_descs_cong:
  assumes "set (flow_pool_list s') - {p} = set (flow_pool_list s) - {p}" "\<And>q. q \<noteq> p \<Longrightarrow> flow_pools s' q = flow_pools s q"
  shows "other_descs s' p = other_descs s p"
  unfolding other_descs_def assms(1) by (rule sum.cong) (auto simp: free_of_def assms(2))

text \<open>A change of one pool that keeps its free list.\<close>

lemma flow_base_put:
  assumes base: "flow_base N s infl" and fp: "flow_pools s p = Some fp" and fp': "fpool_ok s p fp'"
    and same: "fp_freelist fp' = fp_freelist fp" "fp_status fp' = FLOW_POOL_INVALID \<longleftrightarrow> fp_status fp = FLOW_POOL_INVALID"
  shows "flow_base N (put_pool p fp' s) infl"
proof (rule flow_baseI)
  let ?s = "put_pool p fp' s"
  note D = flow_baseD [OF base]
  have l: "p \<in> set (flow_pool_list s)" using D(2) fp by simp
  show "list_ok ?s" using D(1,2) l by (auto simp: list_ok_def)
  have inv: "invalid_pool ?s = invalid_pool s" "active_pool ?s = active_pool s"
    using fp same(2) by (auto simp: invalid_pool_def active_pool_def fun_eq_iff)
  show "num_invalid_bin ?s = int (card {p. invalid_pool ?s p})" using D(8) inv by simp
  show "refs_active ?s" using D(9) inv by (simp add: refs_active_def)
  have "other_descs ?s p = other_descs s p" by (rule other_descs_cong) simp_all
  then show "all_descs ?s infl = mset_set {..<N}" using D(6) all_descs_at [OF l, of infl] all_descs_at [of p ?s infl] l fp same(1) by simp
  show "fpool_ok ?s q fq" if "flow_pools ?s q = Some fq" for q fq
    using that D(4) fp' by (auto simp: fpool_ok_def split: if_splits)
  show "\<exists>p. desc_pool ?s d = Some p \<and> flow_pools ?s p \<noteq> None" if "d \<in> infl" for d
    by (rule infl_live [OF base that]) simp_all
qed (simp_all add: flow_baseD [OF base])

section \<open>Single descriptors\<close>

lemma get_desc_base:
  assumes base: "flow_base N s infl" and fp: "flow_pools s p = Some fp" and ds: "fp_freelist fp = d # ds"
    and fp': "fp' = fp\<lparr>fp_freelist := ds, avail_desc := avail_desc fp - 1\<rparr>"
  shows "ol_tx_get_desc_flow_pool p s = Some (d, put_pool p fp' s)" "flow_base N (put_pool p fp' s) (insert d infl)"
    "d \<notin> infl" "desc_pool s d = Some p"
proof -
  let ?s = "put_pool p fp' s"
  note D = flow_baseD [OF base]
  show "ol_tx_get_desc_flow_pool p s = Some (d, ?s)" using fp ds fp' by (simp add: ol_tx_get_desc_flow_pool_def)
  have l: "p \<in> set (flow_pool_list s)" using D(2) fp by simp
  show d: "d \<notin> infl" using pool_desc_alone(2) [OF D(6) l D(3)] fp ds by simp
  show dp: "desc_pool s d = Some p" using D(4) [OF fp] ds by (simp add: fpool_ok_def)
  show "flow_base N ?s (insert d infl)"
  proof (rule flow_baseI)
    show "list_ok ?s" using D(1,2) l by (auto simp: list_ok_def)
    have inv: "invalid_pool ?s = invalid_pool s" "active_pool ?s = active_pool s"
      using fp fp' by (auto simp: invalid_pool_def active_pool_def fun_eq_iff)
    show "num_invalid_bin ?s = int (card {p. invalid_pool ?s p})" using D(8) inv by simp
    show "refs_active ?s" using D(9) inv by (simp add: refs_active_def)
    have "other_descs ?s p = other_descs s p" by (rule other_descs_cong) simp_all
    then show "all_descs ?s (insert d infl) = mset_set {..<N}"
      using D(3,6) all_descs_at [OF l, of infl] all_descs_at [of p ?s "insert d infl"] l fp fp' ds d by simp
    show "fpool_ok ?s q fq" if "flow_pools ?s q = Some fq" for q fq
      using that D(4) [OF fp] D(4) [of q fq] fp' ds by (auto simp: fpool_ok_def split: if_splits)
    show "\<exists>p. desc_pool ?s e = Some p \<and> flow_pools ?s p \<noteq> None" if "e \<in> insert d infl" for e
    proof (cases "e = d")
      case False
      with that have "e \<in> infl" by simp
      then show ?thesis by (rule infl_live [OF base]) simp_all
    qed (simp add: dp)
  qed (simp_all add: D)
qed

lemma put_desc_base:
  assumes base: "flow_base N s infl" and fp: "flow_pools s p = Some fp" and d: "d \<in> infl"
    and fp': "fp' = fp\<lparr>fp_freelist := d # fp_freelist fp, avail_desc := avail_desc fp + 1\<rparr>"
    and s': "s' = (put_pool p fp' s)\<lparr>desc_pool := (desc_pool s)(d \<mapsto> p)\<rparr>"
  shows "ol_tx_put_desc_flow_pool p d s = Some s'" "flow_base N s' (infl - {d})"
proof -
  note D = flow_baseD [OF base]
  show "ol_tx_put_desc_flow_pool p d s = Some s'" using fp fp' s' by (simp add: ol_tx_put_desc_flow_pool_def)
  have l: "p \<in> set (flow_pool_list s)" using D(2) fp by simp
  note alone = infl_desc_alone [OF D(6,3) d]
  have inv: "invalid_pool s' = invalid_pool s" "active_pool s' = active_pool s"
    using fp fp' s' by (auto simp: invalid_pool_def active_pool_def fun_eq_iff)
  show "flow_base N s' (infl - {d})"
  proof (rule flow_baseI)
    show "list_ok s'" using D(1,2) l s' by (auto simp: list_ok_def)
    show "num_invalid_bin s' = int (card {p. invalid_pool s' p})" using D(8) inv s' by simp
    show "refs_active s'" using D(9) inv s' by (simp add: refs_active_def)
    have "other_descs s' p = other_descs s p" by (rule other_descs_cong) (simp_all add: s')
    moreover have "mset_set infl = add_mset d (mset_set (infl - {d}))" using d D(3) by (simp add: mset_set.remove)
    ultimately show "all_descs s' (infl - {d}) = mset_set {..<N}"
      using D(6) all_descs_at [OF l, of infl] all_descs_at [of p s' "infl - {d}"] l fp fp' s' by simp
    show "fpool_ok s' q fq" if q: "flow_pools s' q = Some fq" for q fq
    proof (cases "q = p")
      case True
      with q D(4) [OF fp] fp' s' show ?thesis by (auto simp: fpool_ok_def)
    next
      case False
      with q s' have q': "flow_pools s q = Some fq" by simp
      have "d \<notin> set (fp_freelist fq)" using alone(2) [of q] D(2) [of q] q' by simp
      with D(4) [OF q'] s' show ?thesis by (auto simp: fpool_ok_def)
    qed
    show "\<exists>p. desc_pool s' e = Some p \<and> flow_pools s' p \<noteq> None" if "e \<in> infl - {d}" for e
      by (rule infl_live [OF base, of e]) (use that in \<open>simp_all add: s'\<close>)
  qed (simp_all add: D s')
qed

section \<open>Moving descriptors\<close>

lemma put_pool_idem: "flow_pools s p = Some fp \<Longrightarrow> put_pool p fp s = s"
  by (simp add: put_pool_def fun_upd_idem)

lemma put_pool_twice [simp]: "put_pool p fp (put_pool p fp' s) = put_pool p fp s"
  by (simp add: put_pool_def)

lemma move_take_base:
  assumes "flow_base N s infl" "flow_pools s src = Some fp" "n \<le> length (fp_freelist fp)"
  shows "move_take src n temp s = Some (rev (take n (fp_freelist fp)) @ temp,
      put_pool src (fp\<lparr>fp_freelist := drop n (fp_freelist fp), avail_desc := avail_desc fp - int n\<rparr>) s) \<and>
    flow_base N (put_pool src (fp\<lparr>fp_freelist := drop n (fp_freelist fp), avail_desc := avail_desc fp - int n\<rparr>) s)
      (infl \<union> set (take n (fp_freelist fp)))"
  using assms
proof (induction n arbitrary: s infl fp temp)
  case 0
  then show ?case by (simp add: put_pool_idem)
next
  case (Suc n)
  then obtain d ds where ds: "fp_freelist fp = d # ds" by (cases "fp_freelist fp") auto
  let ?fp = "fp\<lparr>fp_freelist := ds, avail_desc := avail_desc fp - 1\<rparr>"
  note g = get_desc_base [OF Suc.prems(1,2) ds refl]
  have "n \<le> length (fp_freelist ?fp)" using Suc.prems(3) ds by simp
  from Suc.IH [OF g(2) _ this, of "d # temp"] g(1) ds show ?case by (simp add: diff_diff_eq)
qed

lemma move_put_base:
  assumes "flow_base N s infl" "flow_pools s dst = Some fp" "set temp \<subseteq> infl" "distinct temp" "int (length temp) \<le> deficient_desc fp"
  shows "\<exists>s'. move_put dst (length temp) temp c s = Some ([], c + length temp, s') \<and> flow_base N s' (infl - set temp) \<and>
    flow_pools s' = (flow_pools s)(dst \<mapsto> fp\<lparr>fp_freelist := rev temp @ fp_freelist fp, avail_desc := avail_desc fp + int (length temp),
      deficient_desc := deficient_desc fp - int (length temp)\<rparr>) \<and>
    desc_pool s' = (\<lambda>d. if d \<in> set temp then Some dst else desc_pool s d) \<and> flow_pool_list s' = flow_pool_list s"
  using assms
proof (induction temp arbitrary: s infl fp c)
  case Nil
  then show ?case by (intro exI [of _ s]) (auto simp: fun_upd_idem)
next
  case (Cons d ds)
  let ?fp = "fp\<lparr>deficient_desc := deficient_desc fp - 1\<rparr>"
  let ?fp' = "?fp\<lparr>fp_freelist := d # fp_freelist fp, avail_desc := avail_desc fp + 1\<rparr>"
  let ?s = "(put_pool dst ?fp' s)\<lparr>desc_pool := (desc_pool s)(d \<mapsto> dst)\<rparr>"
  have "fpool_ok s dst ?fp" using flow_baseD(4) [OF Cons.prems(1,2)] Cons.prems(5) by (simp add: fpool_ok_def)
  then have b: "flow_base N (put_pool dst ?fp s) infl" by (rule flow_base_put [OF Cons.prems(1,2)]) simp_all
  have "ol_tx_put_desc_flow_pool dst d (put_pool dst ?fp s) = Some ?s \<and> flow_base N ?s (infl - {d})"
    using put_desc_base [OF b, of dst ?fp d ?fp' ?s] Cons.prems(3) by simp
  then have p: "ol_tx_put_desc_flow_pool dst d (put_pool dst ?fp s) = Some ?s" "flow_base N ?s (infl - {d})" by auto
  have "flow_pools ?s dst = Some ?fp'" "set ds \<subseteq> infl - {d}" "distinct ds" "int (length ds) \<le> deficient_desc ?fp'"
    using Cons.prems by auto
  from Cons.IH [OF p(2) this, of "Suc c"] obtain s' where
    s': "move_put dst (length ds) ds (Suc c) ?s = Some ([], Suc c + length ds, s')" "flow_base N s' (infl - {d} - set ds)"
      "flow_pools s' = (flow_pools ?s)(dst \<mapsto> ?fp'\<lparr>fp_freelist := rev ds @ fp_freelist ?fp', avail_desc := avail_desc ?fp' + int (length ds),
        deficient_desc := deficient_desc ?fp' - int (length ds)\<rparr>)"
      "desc_pool s' = (\<lambda>e. if e \<in> set ds then Some dst else desc_pool ?s e)" "flow_pool_list s' = flow_pool_list ?s" by blast
  have "infl - {d} - set ds = infl - set (d # ds)" by auto
  with s' p(1) Cons.prems(2,5) show ?case
    by (intro exI [of _ s']) (auto simp: fun_eq_iff)
qed

lemma move_base:
  assumes base: "flow_base N s infl" and src: "flow_pools s src = Some a" and dst: "flow_pools s dst = Some b" and ne: "src \<noteq> dst"
    and n: "n \<le> length (fp_freelist a)" "int n \<le> deficient_desc b"
  shows "\<exists>s'. ol_tx_move_desc_n src dst n s = Some (s', n) \<and> flow_base N s' infl \<and>
    flow_pools s' = (flow_pools s)(src \<mapsto> a\<lparr>fp_freelist := drop n (fp_freelist a), avail_desc := avail_desc a - int n\<rparr>,
      dst \<mapsto> b\<lparr>fp_freelist := take n (fp_freelist a) @ fp_freelist b, avail_desc := avail_desc b + int n,
        deficient_desc := deficient_desc b - int n\<rparr>) \<and>
    infl_of s' infl = infl_of s infl \<and> flow_pool_list s' = flow_pool_list s"
proof -
  let ?xs = "take n (fp_freelist a)"
  let ?s1 = "put_pool src (a\<lparr>fp_freelist := drop n (fp_freelist a), avail_desc := avail_desc a - int n\<rparr>) s"
  note D = flow_baseD [OF base]
  have l: "src \<in> set (flow_pool_list s)" using D(2) src by simp
  have dist: "distinct (fp_freelist a)" using pool_desc_alone(1) [OF D(6) l D(3)] src by simp
  have disj: "set ?xs \<inter> infl = {}"
    using pool_desc_alone(2) [OF D(6) l D(3)] src by (auto dest: in_set_takeD)
  from move_take_base [OF base src n(1), of "[]"] have
    t: "move_take src n [] s = Some (rev ?xs, ?s1)" "flow_base N ?s1 (infl \<union> set ?xs)" by simp_all
  have len: "length (rev ?xs) = n" using n(1) by simp
  have "\<exists>s'. move_put dst (length (rev ?xs)) (rev ?xs) 0 ?s1 = Some ([], 0 + length (rev ?xs), s') \<and> flow_base N s' (infl \<union> set ?xs - set (rev ?xs)) \<and>
    flow_pools s' = (flow_pools ?s1)(dst \<mapsto> b\<lparr>fp_freelist := rev (rev ?xs) @ fp_freelist b, avail_desc := avail_desc b + int (length (rev ?xs)),
      deficient_desc := deficient_desc b - int (length (rev ?xs))\<rparr>) \<and>
    desc_pool s' = (\<lambda>d. if d \<in> set (rev ?xs) then Some dst else desc_pool ?s1 d) \<and> flow_pool_list s' = flow_pool_list ?s1"
    by (rule move_put_base [OF t(2)]) (use dst ne dist n len in auto)
  then obtain s' where s': "move_put dst n (rev ?xs) 0 ?s1 = Some ([], n, s')" "flow_base N s' (infl \<union> set ?xs - set ?xs)"
    "flow_pools s' = (flow_pools ?s1)(dst \<mapsto> b\<lparr>fp_freelist := ?xs @ fp_freelist b, avail_desc := avail_desc b + int n,
      deficient_desc := deficient_desc b - int n\<rparr>)"
    "desc_pool s' = (\<lambda>d. if d \<in> set ?xs then Some dst else desc_pool ?s1 d)" "flow_pool_list s' = flow_pool_list s"
    using n(1) by auto
  have "infl \<union> set ?xs - set ?xs = infl" using disj by auto
  moreover have "infl_of s' infl = infl_of s infl" using disj by (auto simp: infl_of_def s'(4) fun_eq_iff)
  moreover have "ol_tx_move_desc_n src dst n s = Some (s', n)" using t(1) s'(1) by (simp add: ol_tx_move_desc_n_def)
  ultimately show ?thesis using s' by auto
qed

lemma wake_up_base:
  assumes base: "flow_base N s infl" and fp: "flow_pools s p = Some fp"
  obtains s' fp' where "wake_up p s = Some s'" "flow_base N s' infl" "flow_pools s' = (flow_pools s)(p \<mapsto> fp')" "paused_ok fp'"
    "fp' = fp \<or> fp' = fp\<lparr>fp_status := FLOW_POOL_ACTIVE_UNPAUSED\<rparr> \<and> fp_status fp = FLOW_POOL_ACTIVE_PAUSED" "desc_pool s' = desc_pool s"
    "flow_pool_list s' = flow_pool_list s"
proof (cases "fp_status fp = FLOW_POOL_ACTIVE_PAUSED \<and> avail_desc fp > start_th fp")
  case True
  let ?fp = "fp\<lparr>fp_status := FLOW_POOL_ACTIVE_UNPAUSED\<rparr>"
  let ?s = "flow_event (PauseCb (member_flow_id fp) WLAN_WAKE_ALL_NETIF_QUEUE) s"
  have b: "flow_base N ?s infl" using base flow_inv_cong(1) [of s ?s] by (simp add: same_core_def)
  have f: "fpool_ok ?s p ?fp" using flow_baseD(4) [OF base fp] True by (auto simp: fpool_ok_def)
  have "flow_base N (put_pool p ?fp ?s) infl" by (rule flow_base_put [OF b _ f]) (use fp True in auto)
  with True fp show ?thesis by (intro that [of "put_pool p ?fp ?s" ?fp]) (simp_all add: wake_up_def paused_ok_def)
next
  case False
  with base fp show ?thesis by (intro that [of s fp]) (auto simp: wake_up_def paused_ok_def fun_upd_idem)
qed

text \<open>While the descriptors of an invalid pool \<open>src\<close> are given away, the other pools stay in order.\<close>

definition giving :: "nat \<Rightarrow> nat \<Rightarrow> nat set \<Rightarrow> tx_pdev \<Rightarrow> bool" where
  "giving N src infl s \<longleftrightarrow> flow_base N s infl \<and>
     (\<exists>a. flow_pools s src = Some a \<and> fp_status a = FLOW_POOL_INVALID \<and> deficient_desc a = 0) \<and>
     (\<forall>q fq. q \<noteq> src \<longrightarrow> flow_pools s q = Some fq \<longrightarrow> count_ok s infl q fq \<and> paused_ok fq)"

lemma give_step:
  assumes g: "giving N src infl s" and a: "flow_pools s src = Some a" and dst: "flow_pools s dst = Some b" and ne: "src \<noteq> dst"
    and n: "n \<le> length (fp_freelist a)" "int n \<le> deficient_desc b"
  obtains s2 s' where "ol_tx_move_desc_n src dst n s = Some (s2, n)" "wake_up dst s2 = Some s'" "giving N src infl s'"
    "flow_pools s' src = Some (a\<lparr>fp_freelist := drop n (fp_freelist a), avail_desc := avail_desc a - int n\<rparr>)"
    "infl_of s' infl = infl_of s infl" "flow_pool_list s' = flow_pool_list s"
proof -
  have base: "flow_base N s infl" using g by (simp add: giving_def)
  let ?a = "a\<lparr>fp_freelist := drop n (fp_freelist a), avail_desc := avail_desc a - int n\<rparr>"
  let ?b = "b\<lparr>fp_freelist := take n (fp_freelist a) @ fp_freelist b, avail_desc := avail_desc b + int n,
      deficient_desc := deficient_desc b - int n\<rparr>"
  from move_base [OF base a dst ne n] obtain s2 where s2: "ol_tx_move_desc_n src dst n s = Some (s2, n)" "flow_base N s2 infl"
    "flow_pools s2 = (flow_pools s)(src \<mapsto> ?a, dst \<mapsto> ?b)" "infl_of s2 infl = infl_of s infl" "flow_pool_list s2 = flow_pool_list s" by blast
  have d2: "flow_pools s2 dst = Some ?b" by (simp add: s2(3))
  obtain s' b' where s': "wake_up dst s2 = Some s'" "flow_base N s' infl"
    "flow_pools s' = (flow_pools s2)(dst \<mapsto> b')" "paused_ok b'" "b' = ?b \<or> b' = ?b\<lparr>fp_status := FLOW_POOL_ACTIVE_UNPAUSED\<rparr>"
    "desc_pool s' = desc_pool s2" "flow_pool_list s' = flow_pool_list s2"
    by (rule wake_up_base [OF s2(2) d2]) auto
  have i: "infl_of s' infl = infl_of s infl" using s'(6) s2(4) by (simp add: infl_of_def fun_eq_iff)
  have "count_ok s infl dst b" using g dst ne by (auto simp: giving_def)
  then have "count_ok s' infl dst b'" using s'(5) i by (auto simp: count_ok_def)
  then have "count_ok s' infl q fq \<and> paused_ok fq" if "q \<noteq> src" "flow_pools s' q = Some fq" for q fq
    using that s'(3,4) s2(3) g i by (auto simp: giving_def count_ok_def split: if_splits)
  then have "giving N src infl s'" using s'(2,3) s2(3) g a ne by (auto simp: giving_def)
  with s2(1) s'(1) i s'(3,7) s2(3,5) ne show ?thesis by (intro that [of s2 s']) simp_all
qed

lemma distribute_ok:
  assumes "giving N src infl s" "flow_pools s src = Some a" "set ps \<subseteq> set (flow_pool_list s)" "dc = avail_desc a"
  shows "\<exists>s'. distribute src dc ps s = Some s' \<and> giving N src infl s' \<and> infl_of s' infl = infl_of s infl \<and>
    flow_pool_list s' = flow_pool_list s"
  using assms
proof (induction ps arbitrary: s a dc)
  case (Cons dst ps)
  have base: "flow_base N s infl" using Cons.prems(1) by (simp add: giving_def)
  obtain b where b: "flow_pools s dst = Some b" using flow_baseD(2) [OF base] Cons.prems(3) by auto
  have av: "dc = int (length (fp_freelist a))" using flow_baseD(4) [OF base Cons.prems(2)] Cons.prems(4) by (simp add: fpool_ok_def)
  show ?case
  proof (cases "deficient_desc b = 0")
    case True
    show ?thesis
    proof (cases "dc = 0")
      case False
      from Cons.IH [OF Cons.prems(1,2) _ Cons.prems(4)] Cons.prems(3) True False b show ?thesis by simp
    qed (use True b Cons.prems in simp)
  next
    case False
    with Cons.prems(1,2) b have ne: "src \<noteq> dst" by (auto simp: giving_def)
    let ?m = "if deficient_desc b > dc then dc else deficient_desc b"
    have "0 \<le> deficient_desc b" using flow_baseD(4) [OF base b] by (simp add: fpool_ok_def)
    then have m: "nat ?m \<le> length (fp_freelist a)" "int (nat ?m) \<le> deficient_desc b" "0 \<le> ?m" using av by auto
    obtain s2 s' where s: "ol_tx_move_desc_n src dst (nat ?m) s = Some (s2, nat ?m)" "wake_up dst s2 = Some s'"
      "giving N src infl s'"
      "flow_pools s' src = Some (a\<lparr>fp_freelist := drop (nat ?m) (fp_freelist a), avail_desc := avail_desc a - int (nat ?m)\<rparr>)"
      "infl_of s' infl = infl_of s infl" "flow_pool_list s' = flow_pool_list s"
      by (rule give_step [OF Cons.prems(1,2) b ne m(1,2)])
    have run: "distribute src dc (dst # ps) s =
        (if dc - int (nat ?m) = 0 then Some s' else distribute src (dc - int (nat ?m)) ps s')"
      using b False s(1,2) by (simp add: Let_def)
    show ?thesis
    proof (cases "dc - int (nat ?m) = 0")
      case True
      with run s show ?thesis by auto
    next
      case nz: False
      have "set ps \<subseteq> set (flow_pool_list s')" "dc - int (nat ?m) = avail_desc
          (a\<lparr>fp_freelist := drop (nat ?m) (fp_freelist a), avail_desc := avail_desc a - int (nat ?m)\<rparr>)"
        using Cons.prems(3,4) s(6) by simp_all
      from Cons.IH [OF s(3,4) this] run nz s(5,6) show ?thesis by simp
    qed
  qed
qed simp

section \<open>Removing a pool\<close>

lemma put_globals_all:
  "put_globals (length ds) ds s = Some (s\<lparr>tx_freelist := rev ds @ tx_freelist s, tx_num_free := tx_num_free s + int (length ds)\<rparr>)"
  by (induction ds arbitrary: s) (simp_all add: ol_tx_put_desc_global_pool_def)

definition no_refs :: "tx_pdev \<Rightarrow> nat \<Rightarrow> bool" where
  "no_refs s p \<longleftrightarrow> (\<forall>v. vdev_pool s v \<noteq> Some (Some p)) \<and> mgmt_pool s \<noteq> Some p"

text \<open>A pool with no descriptor in flight is freed; its descriptors go to the global pool.\<close>

definition without_pool :: "nat \<Rightarrow> flow_pool \<Rightarrow> tx_pdev \<Rightarrow> tx_pdev" where
  "without_pool p fp s = s\<lparr>flow_pools := (flow_pools s)(p := None), flow_pool_list := remove1 p (flow_pool_list s),
     tx_freelist := rev (fp_freelist fp) @ tx_freelist s, tx_num_free := tx_num_free s + int (length (fp_freelist fp)),
     num_invalid_bin := num_invalid_bin s - of_bool (fp_status fp = FLOW_POOL_INVALID)\<rparr>"

lemma without_pool_inv:
  assumes base: "flow_base N s infl" and fp: "flow_pools s p = Some fp" and none: "infl_of s infl p = {}" and nr: "no_refs s p"
    and cnt: "\<And>q fq. q \<noteq> p \<Longrightarrow> flow_pools s q = Some fq \<Longrightarrow> count_ok s infl q fq \<and> paused_ok fq"
  shows "flow_inv N (without_pool p fp s) infl"
proof -
  let ?s = "without_pool p fp s"
  note D = flow_baseD [OF base]
  have l: "p \<in> set (flow_pool_list s)" using D(2) fp by simp
  have "flow_base N ?s infl"
  proof (rule flow_baseI)
    show "list_ok ?s" using D(1,2) by (auto simp: list_ok_def without_pool_def)
    have "other_descs ?s p = other_descs s p"
      by (rule other_descs_cong) (use D(1) in \<open>auto simp: without_pool_def\<close>)
    moreover have "(\<Sum>q \<in> set (flow_pool_list ?s). mset (free_of ?s q)) = other_descs ?s p"
      using D(1) by (simp add: other_descs_def without_pool_def)
    ultimately have "all_descs ?s infl = mset (tx_freelist ?s) + other_descs s p + mset_set infl" by (simp add: all_descs_def)
    then show "all_descs ?s infl = mset_set {..<N}" using D(6) all_descs_at [OF l, of infl] fp by (simp add: without_pool_def ac_simps)
    have i: "{q. invalid_pool ?s q} = {q. invalid_pool s q} - {p}" "p \<in> {q. invalid_pool s q} \<longleftrightarrow> fp_status fp = FLOW_POOL_INVALID"
      using fp by (auto simp: invalid_pool_def without_pool_def)
    show "num_invalid_bin ?s = int (card {q. invalid_pool ?s q})"
    proof (cases "fp_status fp = FLOW_POOL_INVALID")
      case True
      from card_Suc_Diff1 [OF invalid_finite [OF base], of p] i(2) True
      have "card {q. invalid_pool s q} = Suc (card ({q. invalid_pool s q} - {p}))" by simp
      with True D(8) show ?thesis unfolding i(1) by (simp add: without_pool_def)
    next
      case False
      with i(2) have "{q. invalid_pool s q} - {p} = {q. invalid_pool s q}" by blast
      with False D(8) show ?thesis unfolding i(1) by (simp add: without_pool_def)
    qed
    show "refs_active ?s" using D(9) nr by (auto simp: refs_active_def no_refs_def active_pool_def without_pool_def)
    show "\<exists>q. desc_pool ?s d = Some q \<and> flow_pools ?s q \<noteq> None" if "d \<in> infl" for d
      using D(7) [OF that] that none by (auto simp: without_pool_def infl_of_def)
    show "fpool_ok ?s q fq" if "flow_pools ?s q = Some fq" for q fq
      using that D(4) [of q fq] by (auto simp: fpool_ok_def without_pool_def split: if_splits)
  qed (simp_all add: D without_pool_def)
  moreover have "infl_of ?s infl = infl_of s infl" by (auto simp: infl_of_def without_pool_def fun_eq_iff)
  ultimately show ?thesis using cnt by (auto simp: flow_inv_def count_ok_def without_pool_def split: if_splits)
qed

text \<open>A pool with descriptors in flight, or with a deficit, becomes invalid.\<close>

definition invalidated :: "nat \<Rightarrow> flow_pool \<Rightarrow> tx_pdev \<Rightarrow> tx_pdev" where
  "invalidated p fp s = s\<lparr>flow_pools := (flow_pools s)(p \<mapsto> fp\<lparr>fp_status := FLOW_POOL_INVALID, fp_freelist := [], avail_desc := 0,
        flow_pool_size := flow_pool_size fp - avail_desc fp, flow_pool_id := INVALID_FLOW_ID\<rparr>),
     flow_pool_list := remove1 p (flow_pool_list s) @ [p], tx_freelist := rev (fp_freelist fp) @ tx_freelist s,
     tx_num_free := tx_num_free s + int (length (fp_freelist fp)), num_invalid_bin := num_invalid_bin s + 1\<rparr>"

lemma invalidated_inv:
  assumes inv: "flow_inv N s infl" and fp: "flow_pools s p = Some fp" and act: "fp_status fp \<noteq> FLOW_POOL_INVALID" and nr: "no_refs s p"
  shows "flow_inv N (invalidated p fp s) infl"
proof -
  let ?s = "invalidated p fp s"
  note base = flow_invD(1) [OF inv]
  note D = flow_baseD [OF base]
  have l: "p \<in> set (flow_pool_list s)" "p \<in> set (flow_pool_list ?s)" using D(2) fp by (simp_all add: invalidated_def)
  have "flow_base N ?s infl"
  proof (rule flow_baseI)
    show "list_ok ?s" using D(1,2) l by (auto simp: list_ok_def invalidated_def)
    have "other_descs ?s p = other_descs s p"
      by (rule other_descs_cong) (use D(1) in \<open>auto simp: invalidated_def\<close>)
    moreover have "free_of ?s p = []" by (simp add: invalidated_def free_of_def)
    ultimately show "all_descs ?s infl = mset_set {..<N}"
      using D(6) all_descs_at [OF l(1), of infl] all_descs_at [OF l(2), of infl] fp by (simp add: invalidated_def ac_simps)
    have i: "{q. invalid_pool ?s q} = insert p {q. invalid_pool s q}" "p \<notin> {q. invalid_pool s q}"
      using fp act by (auto simp: invalid_pool_def invalidated_def)
    show "num_invalid_bin ?s = int (card {q. invalid_pool ?s q})"
      using D(8) i invalid_finite [OF base] by (simp add: invalidated_def)
    show "refs_active ?s" using D(9) nr by (auto simp: refs_active_def no_refs_def active_pool_def invalidated_def)
    show "\<exists>q. desc_pool ?s d = Some q \<and> flow_pools ?s q \<noteq> None" if "d \<in> infl" for d
      by (rule infl_live [OF base that]) (simp_all add: invalidated_def)
    show "fpool_ok ?s q fq" if "flow_pools ?s q = Some fq" for q fq
      using that D(4) [of q fq] D(4) [OF fp] by (auto simp: fpool_ok_def invalidated_def split: if_splits)
  qed (simp_all add: D invalidated_def)
  moreover have "infl_of ?s infl = infl_of s infl" by (auto simp: infl_of_def invalidated_def fun_eq_iff)
  ultimately show ?thesis
    using flow_invD(2,3) [OF inv] fp by (fastforce simp: flow_inv_def count_ok_def paused_ok_def invalidated_def split: if_splits)
qed

section \<open>The operations on pools\<close>

lemma dec_ref_free:
  assumes fp: "flow_pools s p = Some fp" and ref: "fp_ref_cnt fp = 1" and l: "p \<in> set (flow_pool_list s)"
    and av: "avail_desc fp = int (length (fp_freelist fp))" and full: "avail_desc fp = flow_pool_size fp \<or> force"
  shows "ol_tx_dec_pool_ref p force s = Some ((without_pool p fp s)\<lparr>num_invalid_bin := num_invalid_bin s\<rparr>)"
  using assms
  by (simp add: ol_tx_dec_pool_ref_def ol_tx_delete_flow_pool_def Let_def put_globals_all without_pool_def put_pool_def)

lemma dec_ref_keep:
  assumes fp: "flow_pools s p = Some fp" and ref: "fp_ref_cnt fp = 1" and l: "p \<in> set (flow_pool_list s)"
    and av: "avail_desc fp = int (length (fp_freelist fp))" and part: "avail_desc fp \<noteq> flow_pool_size fp"
  shows "\<exists>s'. ol_tx_dec_pool_ref p False s = Some s' \<and> same_core (invalidated p fp s) s'"
  using assms
  by (simp add: ol_tx_dec_pool_ref_def ol_tx_delete_flow_pool_def ol_tx_inc_pool_ref_def Let_def put_globals_all
      same_core_def invalidated_def put_pool_def flow_event_def) (cases fp, simp)

lemma infl_of_finite: "finite infl \<Longrightarrow> finite (infl_of s infl p)"
  by (simp add: infl_of_def)

lemma dec_ref_inv:
  assumes inv: "flow_inv N s infl" and fp: "flow_pools s p = Some fp" and act: "fp_status fp \<noteq> FLOW_POOL_INVALID" and nr: "no_refs s p"
  obtains s' where "ol_tx_dec_pool_ref p False s = Some s'" "flow_inv N s' infl"
proof -
  note base = flow_invD(1) [OF inv]
  note D = flow_baseD [OF base] and ok = flow_baseD(4) [OF base fp]
  have l: "p \<in> set (flow_pool_list s)" and ref: "fp_ref_cnt fp = 1" and av: "avail_desc fp = int (length (fp_freelist fp))"
    and def: "0 \<le> deficient_desc fp"
    using D(2) fp ok by (simp_all add: fpool_ok_def)
  show ?thesis
  proof (cases "avail_desc fp = flow_pool_size fp")
    case True
    with flow_invD(2) [OF inv fp] def have "card (infl_of s infl p) = 0" by (simp add: count_ok_def)
    then have none: "infl_of s infl p = {}" using infl_of_finite [OF D(3)] by simp
    have "(without_pool p fp s)\<lparr>num_invalid_bin := num_invalid_bin s\<rparr> = without_pool p fp s"
      using act by (simp add: without_pool_def)
    with dec_ref_free [OF fp ref l av, of False] True without_pool_inv [OF base fp none nr] flow_invD(2,3) [OF inv]
    show ?thesis by (intro that) auto
  next
    case False
    from dec_ref_keep [OF fp ref l av False] invalidated_inv [OF inv fp act nr] flow_inv_cong(2) that show ?thesis by blast
  qed
qed

lemma free_invalid_inv:
  assumes inv: "flow_inv N s infl" and fp: "flow_pools s p = Some fp" and st: "fp_status fp = FLOW_POOL_INVALID"
    and full: "avail_desc fp = flow_pool_size fp"
  obtains s' where "ol_tx_free_invalid_flow_pool p s = Some s'" "flow_inv N s' infl"
proof -
  note base = flow_invD(1) [OF inv]
  note D = flow_baseD [OF base] and ok = flow_baseD(4) [OF base fp]
  have def: "0 \<le> deficient_desc fp" using ok by (simp add: fpool_ok_def)
  with full flow_invD(2) [OF inv fp] have "card (infl_of s infl p) = 0" "deficient_desc fp = 0" by (simp_all add: count_ok_def)
  then have none: "infl_of s infl p = {}" and d0: "deficient_desc fp = 0" using infl_of_finite [OF D(3)] by simp_all
  have "giving N p infl s" using base fp st d0 flow_invD(2,3) [OF inv] by (auto simp: giving_def)
  from distribute_ok [OF this fp subset_refl refl] obtain s1 where
    s1: "distribute p (avail_desc fp) (flow_pool_list s) s = Some s1" "giving N p infl s1" "infl_of s1 infl = infl_of s infl" by auto
  from s1(2) obtain a where base1: "flow_base N s1 infl" and a: "flow_pools s1 p = Some a" "fp_status a = FLOW_POOL_INVALID"
    and cnt: "\<And>q fq. q \<noteq> p \<Longrightarrow> flow_pools s1 q = Some fq \<Longrightarrow> count_ok s1 infl q fq \<and> paused_ok fq"
    unfolding giving_def by blast
  let ?a = "a\<lparr>flow_pool_size := avail_desc a\<rparr>"
  let ?s2 = "(put_pool p ?a s1)\<lparr>num_invalid_bin := num_invalid_bin s1 - 1\<rparr>"
  note ok1 = flow_baseD(4) [OF base1 a(1)]
  have "\<not> active_pool s1 p" using a by (simp add: active_pool_def)
  then have nr: "no_refs s1 p" using flow_baseD(9) [OF base1] by (auto simp: refs_active_def no_refs_def)
  have "ol_tx_dec_pool_ref p False ?s2 = Some ((without_pool p ?a ?s2)\<lparr>num_invalid_bin := num_invalid_bin ?s2\<rparr>)"
    by (rule dec_ref_free) (use a ok1 flow_baseD(2) [OF base1, of p] in \<open>simp_all add: fpool_ok_def\<close>)
  moreover have "same_core (without_pool p a s1) ((without_pool p ?a ?s2)\<lparr>num_invalid_bin := num_invalid_bin ?s2\<rparr>)"
    using a(2) by (simp add: same_core_def without_pool_def put_pool_def)
  moreover have "flow_inv N (without_pool p a s1) infl"
    by (rule without_pool_inv [OF base1 a(1) _ nr cnt]) (simp_all add: none s1(3))
  ultimately show ?thesis
    using that fp st s1(1) a(1) flow_inv_cong(2)
    by (simp add: ol_tx_free_invalid_flow_pool_def ol_tx_distribute_descs_to_deficient_pools_def)
qed

end
