(* ===== verification/Tx_Flow_Safety.thy ===== *)
theory Tx_Flow_Safety
  imports Tx_Flow_Inv
begin

text \<open>
  The flow pools over all sequences of map and unmap messages, allocations and releases: no operation fails, no
  descriptor is lost or in two places, and what follows for the pausing of the network queues and for the
  deletion of pools.
\<close>

section \<open>Creating a pool\<close>

lemma take_globals_all:
  assumes "n \<le> length (tx_freelist s)"
  shows "take_globals p n temp s = Some (rev (take n (tx_freelist s)) @ temp,
    s\<lparr>tx_freelist := drop n (tx_freelist s), tx_num_free := tx_num_free s - int n,
      desc_pool := \<lambda>d. if d \<in> set (take n (tx_freelist s)) then Some p else desc_pool s d\<rparr>)"
  using assms
proof (induction n arbitrary: s temp)
  case 0
  then show ?case by simp
next
  case (Suc n)
  then obtain d ds where ds: "tx_freelist s = d # ds" by (cases "tx_freelist s") auto
  let ?s = "s\<lparr>tx_freelist := ds, tx_num_free := tx_num_free s - 1, desc_pool := (desc_pool s)(d \<mapsto> p)\<rparr>"
  have f: "(\<lambda>e. if e \<in> set (take n ds) then Some p else desc_pool ?s e) =
      (\<lambda>e. if e = d \<or> e \<in> set (take n ds) then Some p else desc_pool s e)" by (auto simp: fun_eq_iff)
  have "n \<le> length (tx_freelist ?s)" using Suc.prems ds by simp
  from Suc.IH [OF this, of "d # temp"] ds show ?case by (simp add: ol_tx_get_desc_global_pool_def diff_diff_eq f)
qed

text \<open>A new pool \<open>fp\<close> at the address \<open>p\<close> that has the first \<open>n\<close> descriptors of the global pool.\<close>

definition with_pool :: "nat \<Rightarrow> nat \<Rightarrow> flow_pool \<Rightarrow> tx_pdev \<Rightarrow> tx_pdev" where
  "with_pool n p fp s = s\<lparr>flow_pools := (flow_pools s)(p \<mapsto> fp), flow_pool_list := flow_pool_list s @ [p],
     tx_freelist := drop n (tx_freelist s), tx_num_free := tx_num_free s - int n,
     desc_pool := \<lambda>d. if d \<in> set (take n (tx_freelist s)) then Some p else desc_pool s d\<rparr>"

lemma with_pool_inv:
  assumes inv: "flow_inv N s infl" and p: "flow_pools s p = None" and n: "n \<le> length (tx_freelist s)"
    and fp: "mset (fp_freelist fp) = mset (take n (tx_freelist s))" "avail_desc fp = int n" "deficient_desc fp = flow_pool_size fp - int n"
      "int n \<le> flow_pool_size fp" "fp_ref_cnt fp = 1" "fp_status fp = FLOW_POOL_ACTIVE_UNPAUSED" "0 \<le> stop_th fp" "stop_th fp \<le> start_th fp"
      "100 * start_th fp \<le> 80 * flow_pool_size fp" "flow_pool_id fp \<noteq> INVALID_FLOW_ID"
  shows "flow_inv N (with_pool n p fp s) infl"
proof -
  let ?s = "with_pool n p fp s" and ?xs = "take n (tx_freelist s)"
  note base = flow_invD(1) [OF inv]
  note D = flow_baseD [OF base]
  have np: "p \<notin> set (flow_pool_list s)" using D(2) p by simp
  have set: "set (fp_freelist fp) = set ?xs" and len: "length (fp_freelist fp) = n"
    using mset_eq_setD [OF fp(1)] mset_eq_length [OF fp(1)] n by simp_all
  have noinfl: "d \<in> set ?xs \<Longrightarrow> d \<notin> infl" for d
    using global_desc_alone(2) [OF D(6,3)] by (auto dest: in_set_takeD)
  have act: "{q. invalid_pool ?s q} = {q. invalid_pool s q}" "active_pool s q \<Longrightarrow> active_pool ?s q" for q
    using p fp(6) by (auto simp: invalid_pool_def active_pool_def with_pool_def)
  have "flow_base N ?s infl"
  proof (rule flow_baseI)
    show "list_ok ?s" using D(1,2) np by (auto simp: list_ok_def with_pool_def)
    have "(\<Sum>q \<in> set (flow_pool_list ?s). mset (free_of ?s q)) = mset ?xs + (\<Sum>q \<in> set (flow_pool_list s). mset (free_of ?s q))"
      using np fp(1) by (simp add: with_pool_def free_of_def)
    also have "(\<Sum>q \<in> set (flow_pool_list s). mset (free_of ?s q)) = (\<Sum>q \<in> set (flow_pool_list s). mset (free_of s q))"
      by (rule sum.cong) (use np in \<open>auto simp: with_pool_def free_of_def\<close>)
    finally have "all_descs ?s infl = (mset ?xs + mset (drop n (tx_freelist s))) + (\<Sum>q \<in> set (flow_pool_list s). mset (free_of s q)) + mset_set infl"
      by (simp add: all_descs_def with_pool_def)
    also have "mset ?xs + mset (drop n (tx_freelist s)) = mset (tx_freelist s)" by (simp flip: mset_append)
    finally show "all_descs ?s infl = mset_set {..<N}" using D(6) by (simp add: all_descs_def)
    show "num_invalid_bin ?s = int (card {q. invalid_pool ?s q})" using D(8) by (simp add: act(1)) (simp add: with_pool_def)
    show "refs_active ?s" using D(9) act(2) by (simp add: refs_active_def with_pool_def)
    show "\<exists>q. desc_pool ?s d = Some q \<and> flow_pools ?s q \<noteq> None" if "d \<in> infl" for d
      by (rule infl_live [OF base that]) (use noinfl that in \<open>auto simp: with_pool_def\<close>)
    show "fpool_ok ?s q fq" if q: "flow_pools ?s q = Some fq" for q fq
    proof (cases "q = p")
      case True
      with q fp set len show ?thesis by (simp add: fpool_ok_def with_pool_def)
    next
      case False
      with q have q': "flow_pools s q = Some fq" by (simp add: with_pool_def)
      have "d \<notin> set ?xs" if "d \<in> set (fp_freelist fq)" for d
        using pool_desc_alone(3) [OF D(6) _ D(3), of q d] D(2) [of q] q' that by (auto dest: in_set_takeD)
      with D(4) [OF q'] show ?thesis by (auto simp: fpool_ok_def with_pool_def)
    qed
  qed (use D n in \<open>simp_all add: with_pool_def\<close>)
  moreover have i: "infl_of ?s infl = infl_of s infl" using noinfl by (auto simp: infl_of_def with_pool_def fun_eq_iff)
  moreover have "infl_of s infl p = {}" using D(7) p by (fastforce simp: infl_of_def)
  ultimately show ?thesis
    using flow_invD(2,3) [OF inv] fp by (auto simp: flow_inv_def count_ok_def paused_ok_def with_pool_def split: if_splits)
qed

lemma create_flow_pool_inv:
  assumes inv: "flow_inv N s infl" and mem: "\<And>p. mem = Some p \<Longrightarrow> flow_pools s p = None" and id: "pool_id \<noteq> INVALID_FLOW_ID"
  obtains s' fp where "ol_tx_create_flow_pool mem pool_id sz s = Some (s', mem)" "flow_inv N s' infl"
    "vdev_pool s' = vdev_pool s" "mgmt_pool s' = mgmt_pool s"
    "\<And>p. mem = Some p \<Longrightarrow> flow_pools s' p = Some fp \<and> fp_status fp = FLOW_POOL_ACTIVE_UNPAUSED"
proof (cases mem)
  case None
  with inv that show ?thesis by (simp add: ol_tx_create_flow_pool_def)
next
  case (Some p)
  note D = flow_baseD [OF flow_invD(1) [OF inv]]
  define n where "n = (if tx_num_free s \<ge> int sz then sz else nat (tx_num_free s))"
  have n: "n \<le> length (tx_freelist s)" "n \<le> sz" using D(5) by (auto simp: n_def)
  let ?st = "flow_stop_queue_th s" and ?off = "flow_start_queue_offset s"
  define fp where "fp = \<lparr>flow_pool_id = pool_id, flow_pool_size = int sz, avail_desc = int n, deficient_desc = int sz - int n,
     fp_status = FLOW_POOL_ACTIVE_UNPAUSED, member_flow_id = 0, stop_th = int (?st * sz div 100),
     start_th = int ((?st + ?off) * sz div 100), fp_freelist = rev (take n (tx_freelist s)), pkt_drop_no_desc = 0, fp_ref_cnt = 0 + 1\<rparr>"
  have "100 * ((?st + ?off) * sz div 100) \<le> (?st + ?off) * sz" by simp
  also have "\<dots> \<le> 80 * sz" using D(10) by (rule mult_le_mono1)
  finally have "100 * start_th fp \<le> 80 * flow_pool_size fp" by (simp add: fp_def)
  moreover have "stop_th fp \<le> start_th fp" by (simp add: fp_def div_le_mono algebra_simps)
  ultimately have "flow_inv N (with_pool n p fp s) infl"
    using id n mem [OF Some] by (intro with_pool_inv [OF inv]) (simp_all add: fp_def)
  moreover have "ol_tx_create_flow_pool mem pool_id sz s = Some (with_pool n p fp s, mem)"
    using Some take_globals_all [OF n(1), of p "[]"]
    by (simp add: ol_tx_create_flow_pool_def Let_def flip: n_def) (simp add: fp_def with_pool_def put_pool_def)
  ultimately show ?thesis using Some by (intro that [of "with_pool n p fp s" fp]) (auto simp: with_pool_def fp_def)
qed

section \<open>Map and unmap messages\<close>

lemma flow_inv_core: "flow_inv N s infl \<Longrightarrow> same_core s s' \<Longrightarrow> flow_inv N s' infl"
  by (simp add: flow_inv_cong(2))

lemma pool_search_ok:
  "\<forall>p \<in> set ps. flow_pools s p \<noteq> None \<Longrightarrow>
   \<exists>r. pool_search s i ps = Some r \<and> (\<forall>p. r = Some p \<longrightarrow> p \<in> set ps \<and> (\<exists>fp. flow_pools s p = Some fp \<and> flow_pool_id fp = i))"
  by (induction ps) auto

lemma get_flow_pool_ok:
  assumes "flow_base N s infl" and "i \<noteq> INVALID_FLOW_ID"
  obtains "ol_tx_get_flow_pool i s = Some None"
  | p fp where "ol_tx_get_flow_pool i s = Some (Some p)" "flow_pools s p = Some fp" "fp_status fp \<noteq> FLOW_POOL_INVALID" "flow_pool_id fp = i"
proof -
  have "\<forall>p \<in> set (flow_pool_list s). flow_pools s p \<noteq> None" using flow_baseD(2) [OF assms(1)] by blast
  from pool_search_ok [OF this, of i] obtain r where r: "ol_tx_get_flow_pool i s = Some r"
    "\<And>p. r = Some p \<Longrightarrow> \<exists>fp. flow_pools s p = Some fp \<and> flow_pool_id fp = i" by (auto simp: ol_tx_get_flow_pool_def)
  show ?thesis
  proof (cases r)
    case (Some p)
    with r(2) obtain fp where fp: "flow_pools s p = Some fp" "flow_pool_id fp = i" by blast
    with flow_baseD(4) [OF assms(1) fp(1)] assms(2) have "fp_status fp \<noteq> FLOW_POOL_INVALID" by (auto simp: fpool_ok_def)
    with fp r(1) Some that(2) show ?thesis by blast
  qed (use r(1) that(1) in simp)
qed

text \<open>A change of the pointers to pools, and of the device a pool belongs to.\<close>

lemma flow_inv_ptrs:
  assumes inv: "flow_inv N s infl" and ref: "refs_active (s\<lparr>vdev_pool := vp, mgmt_pool := mp\<rparr>)"
  shows "flow_inv N (s\<lparr>vdev_pool := vp, mgmt_pool := mp\<rparr>) infl"
proof -
  let ?s = "s\<lparr>vdev_pool := vp, mgmt_pool := mp\<rparr>"
  have "fpool_ok ?s = fpool_ok s" "all_descs ?s = all_descs s" "count_ok ?s = count_ok s" "invalid_pool ?s = invalid_pool s"
    "list_ok ?s = list_ok s"
    by (simp_all add: fun_eq_iff fpool_ok_def all_descs_def free_of_def count_ok_def infl_of_def invalid_pool_def list_ok_def)
  with inv ref show ?thesis by (simp add: flow_inv_def flow_base_def)
qed

lemma flow_inv_refs:
  "flow_inv N s infl \<Longrightarrow> refs_active (s\<lparr>vdev_pool := vp\<rparr>) \<Longrightarrow> flow_inv N (s\<lparr>vdev_pool := vp\<rparr>) infl"
  using flow_inv_ptrs [of N s infl "mgmt_pool s" vp] by (cases s) simp

lemma flow_inv_mgmt:
  "flow_inv N s infl \<Longrightarrow> refs_active (s\<lparr>mgmt_pool := mp\<rparr>) \<Longrightarrow> flow_inv N (s\<lparr>mgmt_pool := mp\<rparr>) infl"
  using flow_inv_ptrs [of N s infl mp "vdev_pool s"] by (cases s) simp

lemma flow_inv_put:
  assumes inv: "flow_inv N s infl" and fp: "flow_pools s p = Some fp" and fp': "fpool_ok s p fp'"
    and same: "fp_freelist fp' = fp_freelist fp" "fp_status fp' = FLOW_POOL_INVALID \<longleftrightarrow> fp_status fp = FLOW_POOL_INVALID"
      "avail_desc fp' = avail_desc fp" "deficient_desc fp' = deficient_desc fp" "flow_pool_size fp' = flow_pool_size fp" "paused_ok fp'"
  shows "flow_inv N (put_pool p fp' s) infl"
proof -
  have i: "infl_of (put_pool p fp' s) infl = infl_of s infl" by (auto simp: infl_of_def fun_eq_iff)
  show ?thesis
    using flow_base_put [OF flow_invD(1) [OF inv] fp fp' same(1,2)] flow_invD(2,3) [OF inv] fp same(3-6)
    by (auto simp: flow_inv_def count_ok_def i split: if_splits)
qed

lemma member_inv:
  assumes inv: "flow_inv N s infl" and fp: "flow_pools s p = Some fp"
  shows "flow_inv N (put_pool p (fp\<lparr>member_flow_id := v\<rparr>) s) infl"
  by (rule flow_inv_put [OF inv fp])
    (use flow_baseD(4) [OF flow_invD(1) [OF inv] fp] flow_invD(3) [OF inv fp] in \<open>simp_all add: fpool_ok_def paused_ok_def\<close>)

lemma vdev_map_inv:
  assumes inv: "flow_inv N s infl" and fp: "flow_pools s p = Some fp" and act: "fp_status fp \<noteq> FLOW_POOL_INVALID"
  obtains s' where "ol_tx_flow_pool_vdev_map p v s = Some s'" "flow_inv N s' infl"
proof (cases "vdev_pool s v")
  case None
  with inv that show ?thesis by (simp add: ol_tx_flow_pool_vdev_map_def)
next
  case (Some x)
  let ?s = "put_pool p (fp\<lparr>member_flow_id := v\<rparr>) s"
  note m = member_inv [OF inv fp, of v]
  have "active_pool ?s p" using act by (simp add: active_pool_def)
  with flow_baseD(9) [OF flow_invD(1) [OF m]] have "refs_active (?s\<lparr>vdev_pool := (vdev_pool s)(v \<mapsto> Some p)\<rparr>)"
    by (auto simp: refs_active_def active_pool_def)
  from flow_inv_refs [OF m this] Some fp that show ?thesis by (simp add: ol_tx_flow_pool_vdev_map_def)
qed

lemma vdev_unmap_inv:
  assumes inv: "flow_inv N s infl" and fp: "flow_pools s p = Some fp" and act: "fp_status fp \<noteq> FLOW_POOL_INVALID"
    and only: "\<And>v'. vdev_pool s v' = Some (Some p) \<Longrightarrow> v' = v" "mgmt_pool s \<noteq> Some p"
  obtains s' fp' where "ol_tx_flow_pool_vdev_unmap p v s = Some s'" "flow_inv N s' infl" "no_refs s' p"
    "flow_pools s' p = Some fp'" "fp_status fp' \<noteq> FLOW_POOL_INVALID" "fp_freelist fp' = fp_freelist fp" "avail_desc fp' = avail_desc fp"
    "flow_pool_size fp' = flow_pool_size fp" "deficient_desc fp' = deficient_desc fp" "desc_pool s' = desc_pool s"
    "flow_pool_list s' = flow_pool_list s" "tx_freelist s' = tx_freelist s"
proof (cases "vdev_pool s v")
  case None
  with only have "no_refs s p" by (auto simp: no_refs_def)
  with None inv fp act show ?thesis by (intro that [of s fp]) (simp_all add: ol_tx_flow_pool_vdev_unmap_def)
next
  case (Some x)
  let ?fp = "fp\<lparr>member_flow_id := INVALID_FLOW_ID\<rparr>"
  let ?s = "put_pool p ?fp s"
  let ?s' = "?s\<lparr>vdev_pool := (vdev_pool s)(v \<mapsto> None)\<rparr>"
  note m = member_inv [OF inv fp, of INVALID_FLOW_ID]
  from flow_baseD(9) [OF flow_invD(1) [OF m]] have "refs_active ?s'"
    by (auto simp: refs_active_def active_pool_def)
  from flow_inv_refs [OF m this] have "flow_inv N ?s' infl" .
  moreover have "no_refs ?s' p" using only by (auto simp: no_refs_def)
  ultimately show ?thesis using Some fp act by (intro that [of ?s' ?fp]) (simp_all add: ol_tx_flow_pool_vdev_unmap_def)
qed

lemma flow_map_inv:
  assumes inv: "flow_inv N s infl" and mem: "\<And>p. mem = Some p \<Longrightarrow> flow_pools s p = None" and id: "pool_id \<noteq> INVALID_FLOW_ID"
  obtains s' where "ol_tx_flow_pool_map_handler mem v is_vdev pool_id sz s = Some s'" "flow_inv N s' infl"
proof -
  let ?s = "s\<lparr>pool_map_count := pool_map_count s + 1\<rparr>"
  have inv0: "flow_inv N ?s infl" by (rule flow_inv_core [OF inv]) (simp add: same_core_def)
  have wake: "flow_inv N (flow_event e t) infl" if "flow_inv N t infl" for e t
    by (rule flow_inv_core [OF that]) (simp add: same_core_def)
  show ?thesis
    using flow_invD(1) [OF inv0] id
  proof (cases rule: get_flow_pool_ok [consumes 2, case_names none found])
    case none
    obtain s1 fp where s1: "ol_tx_create_flow_pool mem pool_id sz ?s = Some (s1, mem)" "flow_inv N s1 infl"
      "vdev_pool s1 = vdev_pool ?s" "mgmt_pool s1 = mgmt_pool ?s"
      "\<And>p. mem = Some p \<Longrightarrow> flow_pools s1 p = Some fp \<and> fp_status fp = FLOW_POOL_ACTIVE_UNPAUSED"
      by (rule create_flow_pool_inv [OF inv0 _ id, of mem sz]) (use mem in auto)
    show ?thesis
    proof (cases mem)
      case None
      with none s1 that show ?thesis by (simp add: ol_tx_flow_pool_map_handler_def)
    next
      case (Some p)
      from s1(5) [OF Some] have fp: "flow_pools s1 p = Some fp" "fp_status fp \<noteq> FLOW_POOL_INVALID" by auto
      have "\<not> active_pool s p" using mem [OF Some] by (simp add: active_pool_def)
      then have nr: "no_refs s1 p"
        using flow_baseD(9) [OF flow_invD(1) [OF inv]] s1(3,4) by (auto simp: refs_active_def no_refs_def)
      show ?thesis
      proof (cases is_vdev)
        case True
        obtain s2 where s2: "ol_tx_flow_pool_vdev_map p v s1 = Some s2" "flow_inv N s2 infl"
          by (rule vdev_map_inv [OF s1(2) fp, of v])
        with none s1(1) Some True that [OF _ wake [OF s2(2)]] show ?thesis by (simp add: ol_tx_flow_pool_map_handler_def)
      next
        case False
        obtain s2 where "ol_tx_dec_pool_ref p False s1 = Some s2" "flow_inv N s2 infl" by (rule dec_ref_inv [OF s1(2) fp nr])
        with none s1(1) Some False that show ?thesis by (simp add: ol_tx_flow_pool_map_handler_def)
      qed
    qed
  next
    case (found p fp)
    obtain s2 where s2: "ol_tx_flow_pool_vdev_map p v ?s = Some s2" "flow_inv N s2 infl"
      by (rule vdev_map_inv [OF inv0 found(2,3), of v])
    with found(1) that [OF _ wake [OF s2(2)]] that [OF _ inv0] show ?thesis
      by (cases is_vdev) (simp_all add: ol_tx_flow_pool_map_handler_def)
  qed
qed

text \<open>A pool that is unmapped belongs to no other device and is not the one for management frames.\<close>

definition unmap_ok :: "u8 \<Rightarrow> u8 \<Rightarrow> tx_pdev \<Rightarrow> bool" where
  "unmap_ok v pool_id s \<longleftrightarrow>
     (case ol_tx_get_flow_pool pool_id s of
        Some (Some p) \<Rightarrow> mgmt_pool s \<noteq> Some p \<and> list_all (\<lambda>i. vdev_pool s (of_nat i) = Some (Some p) \<longrightarrow> of_nat i = v) [0..<256]
      | _ \<Rightarrow> True)"

lemma unmap_okD:
  assumes "unmap_ok v pool_id s" "ol_tx_get_flow_pool pool_id s = Some (Some p)"
  shows "mgmt_pool s \<noteq> Some p" "vdev_pool s v' = Some (Some p) \<Longrightarrow> v' = v"
proof -
  show "mgmt_pool s \<noteq> Some p" using assms by (simp add: unmap_ok_def)
  have all: "\<forall>i < 256. vdev_pool s (of_nat i) = Some (Some p) \<longrightarrow> of_nat i = v"
    using assms by (simp add: unmap_ok_def list_all_iff)
  have "vdev_pool s (of_nat (unat v')) = Some (Some p) \<longrightarrow> of_nat (unat v') = v"
    by (rule all [rule_format, THEN impI]) simp_all
  then show "vdev_pool s v' = Some (Some p) \<Longrightarrow> v' = v" by simp
qed

lemma flow_unmap_inv:
  assumes inv: "flow_inv N s infl" and id: "pool_id \<noteq> INVALID_FLOW_ID" and ok: "unmap_ok v pool_id s"
  obtains s' where "ol_tx_flow_pool_unmap_handler v is_vdev pool_id s = Some s'" "flow_inv N s' infl"
proof -
  let ?s = "s\<lparr>pool_unmap_count := pool_unmap_count s + 1\<rparr>"
  have inv0: "flow_inv N ?s infl" by (rule flow_inv_core [OF inv]) (simp add: same_core_def)
  have search: "pool_search ?s i ps = pool_search s i ps" for i ps by (induction ps) (auto split: option.split)
  have get: "ol_tx_get_flow_pool i ?s = ol_tx_get_flow_pool i s" for i by (simp add: ol_tx_get_flow_pool_def search)
  show ?thesis
    using flow_invD(1) [OF inv0] id
  proof (cases rule: get_flow_pool_ok [consumes 2, case_names none found])
    case none
    with inv0 that show ?thesis by (simp add: ol_tx_flow_pool_unmap_handler_def)
  next
    case (found p fp)
    note only = unmap_okD [OF ok found(1) [unfolded get]]
    show ?thesis
    proof (cases is_vdev)
      case True
      obtain s1 fp' where s1: "ol_tx_flow_pool_vdev_unmap p v ?s = Some s1" "flow_inv N s1 infl" "no_refs s1 p" "flow_pools s1 p = Some fp'"
        "fp_status fp' \<noteq> FLOW_POOL_INVALID"
        by (rule vdev_unmap_inv [OF inv0 found(2,3), of v]) (use only in auto)
      from dec_ref_inv [OF s1(2,4,5,3)] obtain s' where "ol_tx_dec_pool_ref p False s1 = Some s'" "flow_inv N s' infl" .
      with True found(1) s1(1) that show ?thesis by (simp add: ol_tx_flow_pool_unmap_handler_def)
    next
      case False
      with found(1) inv0 that show ?thesis by (simp add: ol_tx_flow_pool_unmap_handler_def)
    qed
  qed
qed

section \<open>Allocation and release\<close>

definition taken :: "nat option \<Rightarrow> nat set \<Rightarrow> nat set" where
  "taken r infl = (case r of None \<Rightarrow> infl | Some d \<Rightarrow> insert d infl)"

lemma get_desc_inv:
  assumes inv: "flow_inv N s infl" and fp: "flow_pools s p = Some fp" and ds: "fp_freelist fp = d # ds"
    and fp': "fp' = fp\<lparr>fp_freelist := ds, avail_desc := avail_desc fp - 1\<rparr>"
  shows "flow_inv N (put_pool p fp' s) (insert d infl)"
proof -
  note base = flow_invD(1) [OF inv] and g = get_desc_base [OF flow_invD(1) [OF inv] fp ds fp']
  have i: "infl_of (put_pool p fp' s) (insert d infl) q = (if q = p then insert d (infl_of s infl p) else infl_of s infl q)" for q
    using g(4) by (auto simp: infl_of_def)
  have "d \<notin> infl_of s infl p" using g(3) by (simp add: infl_of_def)
  then have c: "card (insert d (infl_of s infl p)) = Suc (card (infl_of s infl p))"
    using infl_of_finite [OF flow_baseD(3) [OF base]] by simp
  have f: "avail_desc fp' = avail_desc fp - 1" "deficient_desc fp' = deficient_desc fp" "flow_pool_size fp' = flow_pool_size fp"
    "fp_status fp' = fp_status fp" "start_th fp' = start_th fp" by (simp_all add: fp')
  have "count_ok s infl p fp" "paused_ok fp" using flow_invD(2,3) [OF inv fp] by simp_all
  with g(2) flow_invD(2,3) [OF inv] c show ?thesis
    by (auto simp: flow_inv_def count_ok_def paused_ok_def i f split: if_splits)
qed

lemma alloc_unlocked_core: "same_core s (alloc_unlocked v d pause s)"
  by (simp add: same_core_def alloc_unlocked_def Let_def)

lemma alloc_inv:
  assumes inv: "flow_inv N s infl" and pool: "\<And>p. pool = Some p \<Longrightarrow> active_pool s p"
  obtains s' r where "ol_tx_desc_alloc v pool s = Some (s', r)" "flow_inv N s' (taken r infl)"
proof (cases pool)
  case None
  have "flow_inv N (s\<lparr>pkt_drop_no_pool := pkt_drop_no_pool s + 1\<rparr>) infl" by (rule flow_inv_core [OF inv]) (simp add: same_core_def)
  with None that show ?thesis by (simp add: ol_tx_desc_alloc_def taken_def)
next
  case (Some p)
  with pool obtain fp where fp: "flow_pools s p = Some fp" and act: "fp_status fp \<noteq> FLOW_POOL_INVALID" by (auto simp: active_pool_def)
  note ok = flow_baseD(4) [OF flow_invD(1) [OF inv] fp]
  show ?thesis
  proof (cases "avail_desc fp = 0")
    case True
    have "flow_inv N (put_pool p (fp\<lparr>pkt_drop_no_desc := pkt_drop_no_desc fp + 1\<rparr>) s) infl"
      by (rule flow_inv_put [OF inv fp]) (use ok flow_invD(3) [OF inv fp] in \<open>simp_all add: fpool_ok_def paused_ok_def\<close>)
    with Some fp True that show ?thesis by (simp add: ol_tx_desc_alloc_def alloc_locked_def taken_def)
  next
    case False
    with ok obtain d ds where ds: "fp_freelist fp = d # ds" by (cases "fp_freelist fp") (auto simp: fpool_ok_def)
    let ?fp = "fp\<lparr>fp_freelist := ds, avail_desc := avail_desc fp - 1\<rparr>"
    let ?s1 = "put_pool p ?fp s"
    have get: "ol_tx_get_desc_flow_pool p s = Some (d, ?s1)" by (rule get_desc_base(1) [OF flow_invD(1) [OF inv] fp ds refl])
    have inv1: "flow_inv N ?s1 (insert d infl)" by (rule get_desc_inv [OF inv fp ds refl])
    let ?s2 = "if avail_desc ?fp < stop_th ?fp then put_pool p (?fp\<lparr>fp_status := FLOW_POOL_ACTIVE_PAUSED\<rparr>) ?s1 else ?s1"
    let ?pause = "avail_desc ?fp < stop_th ?fp"
    have paused: "flow_inv N (put_pool p (?fp\<lparr>fp_status := FLOW_POOL_ACTIVE_PAUSED\<rparr>) ?s1) (insert d infl)" if "avail_desc ?fp < stop_th ?fp"
      by (rule flow_inv_put [OF inv1, of p ?fp])
        (use that act flow_baseD(4) [OF flow_invD(1) [OF inv1], of p ?fp] in \<open>auto simp: fpool_ok_def paused_ok_def\<close>)
    have "flow_inv N ?s2 (insert d infl)"
      using inv1 paused by (cases "avail_desc ?fp < stop_th ?fp") (simp_all only: if_True if_False)
    then have "flow_inv N (alloc_unlocked v d ?pause ?s2) (insert d infl)" by (rule flow_inv_core [OF _ alloc_unlocked_core])
    moreover have "alloc_locked p s = Some (?s2, Some (d, ?pause))" using fp False get by (simp add: alloc_locked_def)
    ultimately show ?thesis using Some by (intro that [of _ "Some d"]) (auto simp: taken_def ol_tx_desc_alloc_def)
  qed
qed

lemma free_inv:
  assumes inv: "flow_inv N s infl" and d: "d \<in> infl"
  obtains s' where "ol_tx_desc_free d s = Some s'" "flow_inv N s' (infl - {d})"
proof -
  note base = flow_invD(1) [OF inv]
  from flow_baseD(7) [OF base d] obtain p fp where dp: "desc_pool s d = Some p" and fp: "flow_pools s p = Some fp" by auto
  let ?s0 = "s\<lparr>desc_vdev_id := (desc_vdev_id s)(d := OL_TXRX_INVALID_VDEV_ID)\<rparr>"
  have inv0: "flow_inv N ?s0 infl" by (rule flow_inv_core [OF inv]) (simp add: same_core_def)
  let ?fp = "fp\<lparr>fp_freelist := d # fp_freelist fp, avail_desc := avail_desc fp + 1\<rparr>"
  define s1 where "s1 = (put_pool p ?fp ?s0)\<lparr>desc_pool := (desc_pool ?s0)(d \<mapsto> p)\<rparr>"
  have s1: "flow_pools s1 = (flow_pools s)(p \<mapsto> ?fp)" by (simp add: s1_def)
  have fp0: "flow_pools ?s0 p = Some fp" using fp by simp
  note put = put_desc_base [OF flow_invD(1) [OF inv0] fp0 d refl s1_def]
  have i: "infl_of s1 (infl - {d}) q = infl_of s infl q - {d}" for q using dp by (auto simp: infl_of_def s1_def)
  have "card (infl_of s infl p) = Suc (card (infl_of s infl p - {d}))"
    using d dp infl_of_finite [OF flow_baseD(3) [OF base], of s p] by (simp add: infl_of_def card_Suc_Diff1 del: card_Diff_insert)
  then have c: "count_ok s1 (infl - {d}) p ?fp" using flow_invD(2) [OF inv fp] by (simp add: count_ok_def i)
  have oc: "count_ok s1 (infl - {d}) q fq \<and> paused_ok fq" if "q \<noteq> p" "flow_pools s1 q = Some fq" for q fq
  proof -
    have "infl_of s infl q - {d} = infl_of s infl q" using dp that(1) by (auto simp: infl_of_def)
    with that flow_invD(2,3) [OF inv, of q fq] show ?thesis by (simp add: count_ok_def i s1)
  qed
  have inv1: "flow_inv N s1 (infl - {d})" if "paused_ok ?fp"
    using put(2) c oc that by (fastforce simp: flow_inv_def s1 split: if_splits)
  have run: "ol_tx_desc_free d s = (case fp_status fp of FLOW_POOL_ACTIVE_PAUSED \<Rightarrow> wake_up p s1
      | FLOW_POOL_INVALID \<Rightarrow> if avail_desc ?fp = flow_pool_size fp then ol_tx_free_invalid_flow_pool p s1 else Some s1
      | _ \<Rightarrow> Some s1)"
    using dp put(1) by (simp add: ol_tx_desc_free_def s1 split: flow_pool_status.split)
  show ?thesis
  proof (cases "fp_status fp = FLOW_POOL_ACTIVE_PAUSED")
    case True
    obtain s' fp' where s': "wake_up p s1 = Some s'" "flow_base N s' (infl - {d})" "flow_pools s' = (flow_pools s1)(p \<mapsto> fp')"
      "paused_ok fp'" "fp' = ?fp \<or> fp' = ?fp\<lparr>fp_status := FLOW_POOL_ACTIVE_UNPAUSED\<rparr>" "desc_pool s' = desc_pool s1"
      by (rule wake_up_base [OF put(2), of p ?fp]) (auto simp: s1)
    have "infl_of s' (infl - {d}) = infl_of s1 (infl - {d})" using s'(6) by (auto simp: infl_of_def fun_eq_iff)
    then have "flow_inv N s' (infl - {d})" using s' c oc by (auto simp: flow_inv_def count_ok_def s1 split: if_splits)
    with True run s'(1) that show ?thesis by simp
  next
    case False
    then have inv1': "flow_inv N s1 (infl - {d})" by (intro inv1) (simp add: paused_ok_def)
    show ?thesis
    proof (cases "fp_status fp = FLOW_POOL_INVALID \<and> avail_desc ?fp = flow_pool_size fp")
      case True
      obtain s' where "ol_tx_free_invalid_flow_pool p s1 = Some s'" "flow_inv N s' (infl - {d})"
        by (rule free_invalid_inv [OF inv1', of p ?fp]) (use True in \<open>auto simp: s1\<close>)
      with True run that show ?thesis by simp
    next
      case no: False
      with False run inv1' that show ?thesis by (cases "fp_status fp") auto
    qed
  qed
qed

end
