(* ===== verification/Tx_Flow_Run.thy ===== *)
theory Tx_Flow_Run
  imports Tx_Flow_Safety
begin

text \<open>
  Interleavings of the map and unmap messages of the firmware, of allocations and releases and of the life of the virtual
  devices, and the properties of the flow pools (\<open>ol_txrx_flow_control.c\<close>, \<open>ol_tx_desc.c\<close>).
\<close>

section \<open>Operations and steps\<close>

datatype flow_op = FlowMap "nat option" u8 bool u8 nat | FlowUnmap u8 bool u8 | TxAlloc u8 bool | TxFree nat | VdevUp u8 | VdevDown u8

fun flow_call :: "flow_op \<Rightarrow> tx_pdev \<Rightarrow> (tx_pdev \<times> nat option) option" where
  "flow_call (FlowMap mem v is_vdev i sz) s = map_option (\<lambda>t. (t, None)) (ol_tx_flow_pool_map_handler mem v is_vdev i sz s)"
| "flow_call (FlowUnmap v is_vdev i) s = map_option (\<lambda>t. (t, None)) (ol_tx_flow_pool_unmap_handler v is_vdev i s)"
| "flow_call (TxAlloc v is_mgmt) s = ol_tx_desc_alloc_wrapper v is_mgmt s"
| "flow_call (TxFree d) s = map_option (\<lambda>t. (t, None)) (ol_tx_desc_free d s)"
| "flow_call (VdevUp v) s = Some (s\<lparr>vdev_pool := (vdev_pool s)(v \<mapsto> None)\<rparr>, None)"
| "flow_call (VdevDown v) s = Some (s\<lparr>vdev_pool := (vdev_pool s)(v := None)\<rparr>, None)"

text \<open>Ghost state: the descriptors in flight.\<close>

record flow_world =
  fw_pdev :: tx_pdev
  in_flight :: "nat set"

text \<open>
  What callers owe: a new pool is at an unused address, ids of pools are valid, a pool is unmapped by its only device, virtual
  devices exist when they send, and only descriptors in flight are released.
\<close>

fun flow_op_ok :: "flow_op \<Rightarrow> flow_world \<Rightarrow> bool" where
  "flow_op_ok (FlowMap mem v is_vdev i sz) w \<longleftrightarrow> i \<noteq> INVALID_FLOW_ID \<and> (case mem of None \<Rightarrow> True | Some p \<Rightarrow> flow_pools (fw_pdev w) p = None)"
| "flow_op_ok (FlowUnmap v is_vdev i) w \<longleftrightarrow> i \<noteq> INVALID_FLOW_ID \<and> unmap_ok v i (fw_pdev w)"
| "flow_op_ok (TxAlloc v is_mgmt) w \<longleftrightarrow> is_mgmt \<or> vdev_pool (fw_pdev w) v \<noteq> None"
| "flow_op_ok (TxFree d) w \<longleftrightarrow> d \<in> in_flight w"
| "flow_op_ok (VdevUp v) w \<longleftrightarrow> vdev_pool (fw_pdev w) v = None"
| "flow_op_ok (VdevDown v) w \<longleftrightarrow> True"

fun flight_after :: "flow_op \<Rightarrow> nat option \<Rightarrow> nat set \<Rightarrow> nat set" where
  "flight_after (TxFree d) r infl = infl - {d}"
| "flight_after _ r infl = taken r infl"

definition flow_next :: "flow_op \<Rightarrow> flow_world \<Rightarrow> flow_world option" where
  "flow_next op w = map_option (\<lambda>r. \<lparr>fw_pdev = fst r, in_flight = flight_after op (snd r) (in_flight w)\<rparr>) (flow_call op (fw_pdev w))"

inductive flow_step :: "flow_world \<Rightarrow> flow_world \<Rightarrow> bool" where
  "flow_op_ok op w \<Longrightarrow> flow_next op w = Some w' \<Longrightarrow> flow_step w w'"

fun flow_exec :: "flow_op list \<Rightarrow> flow_world \<Rightarrow> flow_world option" where
  "flow_exec [] w = Some w"
| "flow_exec (op # ops) w = (if flow_op_ok op w then Option.bind (flow_next op w) (flow_exec ops) else None)"

text \<open>The start of a device; the configuration limits the thresholds to 50 and 30 percent.\<close>

definition flow_start :: "nat \<Rightarrow> nat \<Rightarrow> nat \<Rightarrow> nat option \<Rightarrow> bool \<Rightarrow> flow_world option" where
  "flow_start N stop off mem mgmt_over_wmi =
     map_option (\<lambda>s. \<lparr>fw_pdev = s, in_flight = {}\<rparr>) (ol_tx_register_flow_control mem mgmt_over_wmi (tx_init N stop off))"

definition flow_world_inv :: "nat \<Rightarrow> flow_world \<Rightarrow> bool" where
  "flow_world_inv N w \<longleftrightarrow> flow_inv N (fw_pdev w) (in_flight w)"

definition flow_started :: "nat \<Rightarrow> flow_world \<Rightarrow> bool" where
  "flow_started N w \<longleftrightarrow> (\<exists>stop off mem wmi. stop \<le> 50 \<and> off \<le> 30 \<and> flow_start N stop off mem wmi = Some w)"

lemma tx_init_inv:
  assumes "stop + off \<le> 80" shows "flow_inv N (tx_init N stop off) {}"
proof -
  have "mset [0..<N] = mset_set {..<N}" by (metis atLeast_upt mset_set_set distinct_upt)
  then show ?thesis
    using assms by (simp add: flow_inv_def flow_base_def list_ok_def all_descs_def tx_init_def refs_active_def invalid_pool_def)
qed

lemma flow_start_inv:
  assumes "stop + off \<le> 80"
  shows "\<exists>w. flow_start N stop off mem wmi = Some w \<and> flow_world_inv N w"
proof -
  let ?s = "(tx_init N stop off)\<lparr>flow_pool_list := []\<rparr>"
  have inv: "flow_inv N ?s {}" using tx_init_inv [OF assms] by (simp add: tx_init_def)
  have id: "TX_FLOW_MGMT_POOL_ID \<noteq> INVALID_FLOW_ID" by (simp add: TX_FLOW_MGMT_POOL_ID_def INVALID_FLOW_ID_def)
  obtain s1 fp where s1: "ol_tx_create_flow_pool mem TX_FLOW_MGMT_POOL_ID TX_FLOW_MGMT_POOL_SIZE ?s = Some (s1, mem)" "flow_inv N s1 {}"
    "\<And>p. mem = Some p \<Longrightarrow> flow_pools s1 p = Some fp \<and> fp_status fp = FLOW_POOL_ACTIVE_UNPAUSED"
    by (rule create_flow_pool_inv [OF inv _ id, of mem TX_FLOW_MGMT_POOL_SIZE]) (auto simp: tx_init_def)
  have "refs_active (s1\<lparr>mgmt_pool := mem\<rparr>)"
    using flow_baseD(9) [OF flow_invD(1) [OF s1(2)]] s1(3) by (auto simp: refs_active_def active_pool_def)
  from flow_inv_mgmt [OF s1(2) this] have "flow_inv N (s1\<lparr>mgmt_pool := mem\<rparr>) {}" .
  with s1(1) inv show ?thesis
    by (cases wmi) (auto simp: flow_start_def flow_world_inv_def ol_tx_register_flow_control_def Let_def)
qed

lemma wrapper_inv:
  assumes inv: "flow_inv N s infl" and ok: "is_mgmt \<or> vdev_pool s v \<noteq> None"
  shows "\<exists>r. ol_tx_desc_alloc_wrapper v is_mgmt s = Some r \<and> flow_inv N (fst r) (taken (snd r) infl)"
proof -
  from flow_baseD(9) [OF flow_invD(1) [OF inv]]
  have ref: "vdev_pool s v = Some (Some p) \<Longrightarrow> active_pool s p" "mgmt_pool s = Some p \<Longrightarrow> active_pool s p" for p
    by (simp_all add: refs_active_def)
  have run: "\<exists>r. ol_tx_desc_alloc v pool s = Some r \<and> flow_inv N (fst r) (taken (snd r) infl)" if "\<And>p. pool = Some p \<Longrightarrow> active_pool s p" for pool
    by (rule alloc_inv [OF inv that, of pool v]) auto
  show ?thesis
  proof (cases is_mgmt)
    case True
    with run [of "mgmt_pool s"] ref show ?thesis by (simp add: ol_tx_desc_alloc_wrapper_def)
  next
    case False
    with ok obtain pool where "vdev_pool s v = Some pool" by auto
    with False run [of pool] ref(1) show ?thesis by (simp add: ol_tx_desc_alloc_wrapper_def)
  qed
qed

lemma vdev_pool_inv:
  assumes "flow_inv N s infl" "x = None \<or> x = Some None"
  shows "flow_inv N (s\<lparr>vdev_pool := (vdev_pool s)(v := x)\<rparr>) infl"
  using flow_baseD(9) [OF flow_invD(1) [OF assms(1)]] assms(2)
  by (intro flow_inv_refs [OF assms(1)]) (auto simp: refs_active_def active_pool_def)

lemma taken_None [simp]: "taken None infl = infl"
  by (simp add: taken_def)

lemma flow_call_inv:
  assumes inv: "flow_inv N s infl" and ok: "flow_op_ok op \<lparr>fw_pdev = s, in_flight = infl\<rparr>"
  shows "\<exists>r. flow_call op s = Some r \<and> flow_inv N (fst r) (flight_after op (snd r) infl)"
proof (cases op)
  case (FlowMap mem v is_vdev i sz)
  with ok show ?thesis by (auto intro: flow_map_inv [OF inv, of mem i v is_vdev sz] split: option.splits)
next
  case (FlowUnmap v is_vdev i)
  with ok show ?thesis by (auto intro: flow_unmap_inv [OF inv, of i v is_vdev])
next
  case (TxAlloc v is_mgmt)
  with ok wrapper_inv [OF inv, of is_mgmt v] show ?thesis by simp
next
  case (TxFree d)
  with ok show ?thesis by (auto intro: free_inv [OF inv, of d])
next
  case (VdevUp v)
  then show ?thesis using vdev_pool_inv [OF inv, of "Some None" v] by simp
next
  case (VdevDown v)
  then show ?thesis using vdev_pool_inv [OF inv, of None v] by simp
qed

lemma flow_next_inv:
  assumes "flow_world_inv N w" "flow_op_ok op w"
  shows "\<exists>w'. flow_next op w = Some w' \<and> flow_world_inv N w'"
proof -
  have "flow_op_ok op \<lparr>fw_pdev = fw_pdev w, in_flight = in_flight w\<rparr>" using assms(2) by (cases w) simp
  from flow_call_inv [OF assms(1) [unfolded flow_world_inv_def] this] show ?thesis by (auto simp: flow_next_def flow_world_inv_def)
qed

interpretation fw: machine "flow_started N" flow_step "flow_world_inv N" for N
proof
  show "flow_world_inv N w" if "flow_started N w" for w
  proof -
    from that obtain stop off mem wmi where "stop \<le> 50" "off \<le> 30" "flow_start N stop off mem wmi = Some w" by (auto simp: flow_started_def)
    with flow_start_inv [of stop off N mem wmi] show ?thesis by auto
  qed
  show "flow_world_inv N w'" if "flow_world_inv N w" "flow_step w w'" for w w'
  proof -
    from that(2) obtain op where "flow_op_ok op w" "flow_next op w = Some w'" by (auto elim: flow_step.cases)
    with flow_next_inv [OF that(1), of op] show ?thesis by auto
  qed
qed

lemma flow_exec_steps: "flow_exec ops w = Some w' \<Longrightarrow> flow_step\<^sup>*\<^sup>* w w'"
proof (induction ops arbitrary: w)
  case (Cons op ops)
  then obtain w1 where "flow_step w w1" "flow_exec ops w1 = Some w'"
    by (auto split: if_splits bind_splits intro: flow_step.intros)
  with Cons.IH show ?case by (meson converse_rtranclp_into_rtranclp)
qed simp

lemma flow_startedI: "flow_start N stop off mem wmi = Some w \<Longrightarrow> stop \<le> 50 \<Longrightarrow> off \<le> 30 \<Longrightarrow> flow_started N w"
  unfolding flow_started_def by blast

lemma flow_reachable: "flow_started N w0 \<Longrightarrow> flow_step\<^sup>*\<^sup>* w0 w \<Longrightarrow> flow_inv N (fw_pdev w) (in_flight w)"
  using fw.reachable_inv [of N w0 w] by (simp add: flow_world_inv_def)

section \<open>Counting the descriptors\<close>

lemma total_free:
  assumes "\<And>p. p \<in> set ps \<Longrightarrow> \<exists>fp. flow_pools s p = Some fp \<and> avail_desc fp = int (length (fp_freelist fp))"
  shows "fold (\<lambda>p acc. do { n \<leftarrow> acc; fp \<leftarrow> flow_pools s p; Some (n + avail_desc fp) }) ps (Some n) =
    Some (n + int (length (concat (map (free_of s) ps))))"
  using assms
proof (induction ps arbitrary: n)
  case (Cons p ps)
  then obtain fp where "flow_pools s p = Some fp" "avail_desc fp = int (length (fp_freelist fp))" by auto
  with Cons show ?case by simp
qed simp

definition free_descs :: "tx_pdev \<Rightarrow> nat list" where
  "free_descs s = tx_freelist s @ concat (map (free_of s) (flow_pool_list s))"

lemma free_descs_all: "distinct (flow_pool_list s) \<Longrightarrow> all_descs s infl = mset (free_descs s) + mset_set infl"
  by (simp add: all_descs_def free_descs_def mset_concat sum_mset_sum_list sum_list_distinct_conv_sum_set comp_def)

lemma free_descs_once:
  assumes base: "flow_base N s infl"
  shows "distinct (free_descs s)" "set (free_descs s) = {..<N} - infl" "infl \<subseteq> {..<N}" "length (free_descs s) + card infl = N"
proof -
  note D = flow_baseD [OF base]
  have eq: "mset (free_descs s) + mset_set infl = mset_set {..<N}" using D(6) free_descs_all [OF D(1)] by simp
  show "distinct (free_descs s)" by (rule distinct_part [OF eq])
  have un: "set (free_descs s) \<union> infl = {..<N}" using arg_cong [OF eq, of set_mset] D(3) by simp
  then show "infl \<subseteq> {..<N}" by blast
  have "d \<notin> infl" if "d \<in> set (free_descs s)" for d using two_places [OF eq, of d] that D(3) by simp
  with un show "set (free_descs s) = {..<N} - infl" by auto
  show "length (free_descs s) + card infl = N" using arg_cong [OF eq, of size] by simp
qed

lemma total_free_base:
  assumes base: "flow_base N s infl"
  shows "ol_tx_get_total_free_desc s = Some (int N - int (card infl))"
proof -
  note D = flow_baseD [OF base]
  have "\<exists>fp. flow_pools s p = Some fp \<and> avail_desc fp = int (length (fp_freelist fp))" if "p \<in> set (flow_pool_list s)" for p
    using that D(2) D(4) by (fastforce simp: fpool_ok_def)
  then have "ol_tx_get_total_free_desc s = Some (tx_num_free s + int (length (concat (map (free_of s) (flow_pool_list s)))))"
    unfolding ol_tx_get_total_free_desc_def by (rule total_free)
  also have "tx_num_free s + int (length (concat (map (free_of s) (flow_pool_list s)))) = int (length (free_descs s))"
    using D(5) by (simp add: free_descs_def)
  finally show ?thesis using free_descs_once(4) [OF base] by simp
qed

lemma pool_bounds:
  assumes inv: "flow_inv N s infl" and fp: "flow_pools s p = Some fp"
  shows "0 \<le> avail_desc fp" "avail_desc fp \<le> int N" "0 \<le> deficient_desc fp" "avail_desc fp + deficient_desc fp \<le> flow_pool_size fp"
proof -
  note D = flow_baseD [OF flow_invD(1) [OF inv]] and ok = flow_baseD(4) [OF flow_invD(1) [OF inv] fp]
  have p: "p \<in> set (flow_pool_list s)" using D(2) fp by simp
  have "length (fp_freelist fp) = card (set (fp_freelist fp))"
    using pool_desc_alone(1) [OF D(6) p D(3)] fp by (simp add: distinct_card)
  also have "set (fp_freelist fp) \<subseteq> {..<N}"
    using free_descs_once(2) [OF flow_invD(1) [OF inv]] p fp by (force simp: free_descs_def)
  then have "card (set (fp_freelist fp)) \<le> N" using card_mono [of "{..<N}"] by fastforce
  finally show "avail_desc fp \<le> int N" using ok by (simp add: fpool_ok_def)
  show "0 \<le> avail_desc fp" "0 \<le> deficient_desc fp" using ok by (simp_all add: fpool_ok_def)
  show "avail_desc fp + deficient_desc fp \<le> flow_pool_size fp" using flow_invD(2) [OF inv fp] by (simp add: count_ok_def)
qed

section \<open>Waking up\<close>

lemma free_active:
  assumes inv: "flow_inv N s infl" and d: "d \<in> infl" "desc_pool s d = Some p" and fp: "flow_pools s p = Some fp"
    and act: "fp_status fp \<noteq> FLOW_POOL_INVALID"
  obtains s' fp' where "ol_tx_desc_free d s = Some s'" "flow_inv N s' (infl - {d})" "flow_pools s' p = Some fp'"
    "fp_status fp' \<noteq> FLOW_POOL_INVALID" "flow_pool_size fp' = flow_pool_size fp" "deficient_desc fp' = deficient_desc fp"
    "desc_pool s' = desc_pool s"
proof -
  obtain s' where s': "ol_tx_desc_free d s = Some s'" "flow_inv N s' (infl - {d})" by (rule free_inv [OF inv d(1)])
  have "fp_status fp \<noteq> FLOW_POOL_INACTIVE" using flow_baseD(4) [OF flow_invD(1) [OF inv] fp] by (simp add: fpool_ok_def)
  with s'(1) d(2) fp act have "\<exists>fp'. flow_pools s' p = Some fp' \<and> fp_status fp' \<noteq> FLOW_POOL_INVALID \<and> flow_pool_size fp' = flow_pool_size fp \<and>
      deficient_desc fp' = deficient_desc fp \<and> desc_pool s' = desc_pool s"
    by (cases "fp_status fp")
      (auto simp: ol_tx_desc_free_def ol_tx_put_desc_flow_pool_def wake_up_def fun_upd_idem split: if_splits)
  with s' that show ?thesis by blast
qed

text \<open>The release of a list of descriptors.\<close>

fun free_all :: "nat list \<Rightarrow> tx_pdev \<Rightarrow> tx_pdev option" where
  "free_all [] s = Some s"
| "free_all (d # ds) s = Option.bind (ol_tx_desc_free d s) (free_all ds)"

lemma free_all_active:
  assumes "flow_inv N s infl" "set ds \<subseteq> infl_of s infl p" "distinct ds" "flow_pools s p = Some fp" "fp_status fp \<noteq> FLOW_POOL_INVALID"
  shows "\<exists>s' fp'. free_all ds s = Some s' \<and> flow_inv N s' (infl - set ds) \<and> flow_pools s' p = Some fp' \<and>
    fp_status fp' \<noteq> FLOW_POOL_INVALID \<and> flow_pool_size fp' = flow_pool_size fp \<and> deficient_desc fp' = deficient_desc fp \<and>
    desc_pool s' = desc_pool s"
  using assms
proof (induction ds arbitrary: s infl fp)
  case (Cons d ds)
  then have d: "d \<in> infl" "desc_pool s d = Some p" by (auto simp: infl_of_def)
  obtain s1 fp1 where s1: "ol_tx_desc_free d s = Some s1" "flow_inv N s1 (infl - {d})" "flow_pools s1 p = Some fp1"
    "fp_status fp1 \<noteq> FLOW_POOL_INVALID" "flow_pool_size fp1 = flow_pool_size fp" "deficient_desc fp1 = deficient_desc fp" "desc_pool s1 = desc_pool s"
    by (rule free_active [OF Cons.prems(1) d Cons.prems(4,5)])
  have "set ds \<subseteq> infl_of s1 (infl - {d}) p" "distinct ds" using Cons.prems(2,3) s1(7) by (auto simp: infl_of_def)
  from Cons.IH [OF s1(2) this s1(3,4)] s1 show ?case by (auto simp: Diff_insert2 [symmetric])
qed auto

text \<open>A pool with a size, without a deficit and with all its descriptors back is not paused.\<close>

lemma all_back_unpaused:
  assumes inv: "flow_inv N s infl" and fp: "flow_pools s p = Some fp" and none: "infl_of s infl p = {}"
    and act: "fp_status fp \<noteq> FLOW_POOL_INVALID" "deficient_desc fp = 0" "0 < flow_pool_size fp"
  shows "fp_status fp = FLOW_POOL_ACTIVE_UNPAUSED"
proof (cases "fp_status fp")
  case FLOW_POOL_ACTIVE_PAUSED
  have "avail_desc fp = flow_pool_size fp" using flow_invD(2) [OF inv fp] none act(2) by (simp add: count_ok_def)
  moreover have "avail_desc fp \<le> start_th fp" using flow_invD(3) [OF inv fp] FLOW_POOL_ACTIVE_PAUSED by (simp add: paused_ok_def)
  moreover have "100 * start_th fp \<le> 80 * flow_pool_size fp" using flow_baseD(4) [OF flow_invD(1) [OF inv] fp] act(1) by (simp add: fpool_ok_def)
  ultimately show ?thesis using act(3) by linarith
qed (use flow_baseD(4) [OF flow_invD(1) [OF inv] fp] act in \<open>simp_all add: fpool_ok_def\<close>)

section \<open>Draining\<close>

definition drain_ok :: "tx_pdev \<Rightarrow> bool" where
  "drain_ok s \<longleftrightarrow> distinct (flow_pool_list s) \<and> (\<forall>p. p \<in> set (flow_pool_list s) \<longleftrightarrow> flow_pools s p \<noteq> None) \<and>
     (\<forall>p fp. flow_pools s p = Some fp \<longrightarrow> fp_ref_cnt fp = 1 \<and> avail_desc fp = int (length (fp_freelist fp)))"

lemma free_descs_remove:
  assumes "p \<in> set (flow_pool_list s)" "flow_pools s p = Some fp"
  shows "mset (concat (map (free_of s) (flow_pool_list s))) = mset (fp_freelist fp) + mset (concat (map (free_of s) (remove1 p (flow_pool_list s))))"
  using assms by (simp add: mset_concat sum_mset_sum_list sum_list_map_remove1 [OF assms(1)] comp_def)

lemma free_of_remove:
  assumes "distinct (flow_pool_list s)" "\<And>q. q \<noteq> p \<Longrightarrow> flow_pools s' q = flow_pools s q"
  shows "map (free_of s') (remove1 p (flow_pool_list s)) = map (free_of s) (remove1 p (flow_pool_list s))"
  using assms by (auto simp: free_of_def set_remove1_eq)

lemma dec_drain:
  assumes ok: "drain_ok s" and fp: "flow_pools s p = Some fp"
  shows "\<exists>s'. ol_tx_dec_pool_ref p force s = Some s' \<and> drain_ok s' \<and> mset (free_descs s') = mset (free_descs s) \<and>
    (force \<longrightarrow> flow_pool_list s' = remove1 p (flow_pool_list s))"
proof -
  from ok fp have o: "fp_ref_cnt fp = 1" "avail_desc fp = int (length (fp_freelist fp))" "p \<in> set (flow_pool_list s)" "distinct (flow_pool_list s)"
    by (auto simp: drain_ok_def)
  note run = ol_tx_dec_pool_ref_def ol_tx_delete_flow_pool_def put_globals_all put_pool_def Let_def
  show ?thesis
  proof (cases "avail_desc fp = flow_pool_size fp \<or> force")
    case True
    define s' where "s' = s\<lparr>flow_pools := (flow_pools s)(p := None), flow_pool_list := remove1 p (flow_pool_list s),
      tx_freelist := rev (fp_freelist fp) @ tx_freelist s, tx_num_free := tx_num_free s + int (length (fp_freelist fp))\<rparr>"
    have "ol_tx_dec_pool_ref p force s = Some s'" using o fp True by (auto simp: run s'_def)
    moreover have "drain_ok s'" using ok o(4) by (auto simp: drain_ok_def s'_def set_remove1_eq split: if_splits)
    moreover have "mset (free_descs s') = mset (free_descs s)"
      using free_of_remove [OF o(4), of p s'] free_descs_remove [OF o(3) fp] by (simp add: free_descs_def s'_def del: map_eq_conv)
    ultimately show ?thesis by (simp add: s'_def)
  next
    case False
    let ?fp = "fp\<lparr>fp_status := FLOW_POOL_INVALID, fp_freelist := [], avail_desc := 0, flow_pool_size := flow_pool_size fp - avail_desc fp,
      flow_pool_id := INVALID_FLOW_ID, fp_ref_cnt := 1\<rparr>"
    define s1 where "s1 = s\<lparr>flow_pools := (flow_pools s)(p \<mapsto> ?fp), flow_pool_list := remove1 p (flow_pool_list s) @ [p],
      num_invalid_bin := num_invalid_bin s + 1,
      flow_events := flow_events s @ (if num_invalid_bin s + 1 > MAX_INVALID_BIN then [TooManyInvalid] else [])\<rparr>"
    define s' where "s' = s1\<lparr>tx_freelist := rev (fp_freelist fp) @ tx_freelist s, tx_num_free := tx_num_free s + int (length (fp_freelist fp))\<rparr>"
    have "ol_tx_dec_pool_ref p force s = Some s'"
      using o fp False by (auto simp: run ol_tx_inc_pool_ref_def flow_event_def s'_def s1_def)
    moreover have "drain_ok s'" using ok o by (auto simp: drain_ok_def s'_def s1_def set_remove1_eq split: if_splits)
    moreover have "mset (free_descs s') = mset (free_descs s)"
      using free_of_remove [OF o(4), of p s'] free_descs_remove [OF o(3) fp] by (simp add: free_descs_def s'_def s1_def free_of_def del: map_eq_conv)
    ultimately show ?thesis using False by blast
  qed
qed

lemma drain_pools_empty:
  assumes "drain_ok s"
  shows "\<exists>s'. drain_pools s = Some s' \<and> flow_pool_list s' = [] \<and> drain_ok s' \<and> mset (free_descs s') = mset (free_descs s)"
  using assms
proof (induction "flow_pool_list s" arbitrary: s)
  case Nil
  then show ?case by (subst drain_pools.simps) (simp flip: Nil(1))
next
  case (Cons p ps)
  then obtain fp where fp: "flow_pools s p = Some fp" by (auto simp: drain_ok_def) (metis list.set_intros(1) option.exhaust)
  from dec_drain [OF Cons.prems fp, of True] obtain s1 where s1: "ol_tx_dec_pool_ref p True s = Some s1" "drain_ok s1"
    "flow_pool_list s1 = remove1 p (flow_pool_list s)" "mset (free_descs s1) = mset (free_descs s)" by blast
  have "ps = flow_pool_list s1" using s1(3) Cons.hyps(2) [symmetric] by simp
  from Cons.hyps(1) [OF this s1(2)] s1(4) obtain s' where "drain_pools s1 = Some s'" "flow_pool_list s' = []" "drain_ok s'"
    "mset (free_descs s') = mset (free_descs s)" by auto
  moreover have "drain_pools s = drain_pools s1" by (subst drain_pools.simps) (simp add: s1(1) flip: Cons.hyps(2))
  ultimately show ?case by simp
qed

lemma deregister_empty:
  assumes ok: "drain_ok s" and mgmt: "\<And>p. mgmt_pool s = Some p \<Longrightarrow> flow_pools s p \<noteq> None"
  shows "\<exists>s'. ol_tx_deregister_flow_control wmi s = Some s' \<and> flow_pool_list s' = [] \<and> drain_ok s' \<and> mset (free_descs s') = mset (free_descs s)"
proof -
  have "\<exists>s1. (if wmi then Some s else case mgmt_pool s of None \<Rightarrow> Some s | Some p \<Rightarrow> ol_tx_dec_pool_ref p False s) = Some s1 \<and>
    drain_ok s1 \<and> mset (free_descs s1) = mset (free_descs s)"
  proof (cases "\<not> wmi \<and> mgmt_pool s \<noteq> None")
    case True
    then obtain p where p: "mgmt_pool s = Some p" by auto
    with mgmt obtain fp where "flow_pools s p = Some fp" by auto
    from dec_drain [OF ok this, of False] p True show ?thesis by auto
  next
    case False
    with ok show ?thesis by auto
  qed
  then obtain s1 where s1: "(if wmi then Some s else case mgmt_pool s of None \<Rightarrow> Some s | Some p \<Rightarrow> ol_tx_dec_pool_ref p False s) = Some s1"
    "drain_ok s1" "mset (free_descs s1) = mset (free_descs s)" by blast
  from drain_pools_empty [OF s1(2)] s1(1,3) show ?thesis by (auto simp: ol_tx_deregister_flow_control_def)
qed

lemma flow_inv_drain: "flow_inv N s infl \<Longrightarrow> drain_ok s"
  using flow_baseD(1,2,4) [OF flow_invD(1)] by (fastforce simp: drain_ok_def fpool_ok_def)

section \<open>Unmapping\<close>

lemma unmap_result:
  assumes inv: "flow_inv N s infl" and id: "pool_id \<noteq> INVALID_FLOW_ID" and ok: "unmap_ok v pool_id s"
    and found: "ol_tx_get_flow_pool pool_id s = Some (Some p)" and fp: "flow_pools s p = Some fp"
  shows "\<exists>s'. ol_tx_flow_pool_unmap_handler v True pool_id s = Some s' \<and>
    (if infl_of s infl p = {} \<and> deficient_desc fp = 0 then flow_pools s' p = None
     else \<exists>fp'. flow_pools s' p = Some fp' \<and> fp_status fp' = FLOW_POOL_INVALID \<and>
       flow_pool_size fp' = int (card (infl_of s infl p)) + deficient_desc fp \<and> avail_desc fp' = 0)"
proof -
  let ?s = "s\<lparr>pool_unmap_count := pool_unmap_count s + 1\<rparr>"
  have inv0: "flow_inv N ?s infl" by (rule flow_inv_core [OF inv]) (simp add: same_core_def)
  have search: "pool_search ?s i ps = pool_search s i ps" for i ps by (induction ps) (auto split: option.split)
  then have found0: "ol_tx_get_flow_pool pool_id ?s = Some (Some p)" using found by (simp add: ol_tx_get_flow_pool_def)
  have act: "fp_status fp \<noteq> FLOW_POOL_INVALID"
    using flow_invD(1) [OF inv0] id by (cases rule: get_flow_pool_ok [consumes 2, case_names none found]) (use found0 fp in auto)
  have fp0: "flow_pools ?s p = Some fp" using fp by simp
  obtain s1 fp1 where s1: "ol_tx_flow_pool_vdev_unmap p v ?s = Some s1" "flow_inv N s1 infl" "flow_pools s1 p = Some fp1" "desc_pool s1 = desc_pool ?s"
    "flow_pool_size fp1 = flow_pool_size fp" "deficient_desc fp1 = deficient_desc fp" "avail_desc fp1 = avail_desc fp"
    by (rule vdev_unmap_inv [OF inv0 fp0 act, of v]) (use unmap_okD [OF ok found] in auto)
  have run: "ol_tx_flow_pool_unmap_handler v True pool_id s = ol_tx_dec_pool_ref p False s1"
    using found0 s1(1) by (simp add: ol_tx_flow_pool_unmap_handler_def)
  note ok1 = flow_baseD(4) [OF flow_invD(1) [OF s1(2)] s1(3)]
  have o: "fp_ref_cnt fp1 = 1" "avail_desc fp1 = int (length (fp_freelist fp1))" "p \<in> set (flow_pool_list s1)" "0 \<le> deficient_desc fp"
    using ok1 flow_baseD(2) [OF flow_invD(1) [OF s1(2)], of p] s1(3,6) by (auto simp: fpool_ok_def)
  have cnt: "avail_desc fp + int (card (infl_of s infl p)) + deficient_desc fp = flow_pool_size fp" using flow_invD(2) [OF inv fp] by (simp add: count_ok_def)
  have "finite (infl_of s infl p)" using infl_of_finite flow_baseD(3) [OF flow_invD(1) [OF inv]] by blast
  then have full: "infl_of s infl p = {} \<and> deficient_desc fp = 0 \<longleftrightarrow> avail_desc fp1 = flow_pool_size fp1"
    using cnt s1(5,7) o(4) by (auto simp: card_gt_0_iff simp flip: card_0_eq)
  show ?thesis
  proof (cases "avail_desc fp1 = flow_pool_size fp1")
    case True
    from dec_ref_free [OF s1(3) o(1,3,2), of False] True have "ol_tx_dec_pool_ref p False s1 = Some ((without_pool p fp1 s1)\<lparr>num_invalid_bin := num_invalid_bin s1\<rparr>)"
      by simp
    with True full run show ?thesis by (simp add: without_pool_def)
  next
    case False
    from dec_ref_keep [OF s1(3) o(1,3,2) False] obtain s' where s': "ol_tx_dec_pool_ref p False s1 = Some s'" "same_core (invalidated p fp1 s1) s'"
      by blast
    from s'(2) have "flow_pools s' p = flow_pools (invalidated p fp1 s1) p" by (simp add: same_core_def)
    with s'(1) False full run cnt s1(5,7) show ?thesis by (auto simp: invalidated_def)
  qed
qed

section \<open>Properties\<close>


text \<open>A run of a device without a pool for management frames and with the largest thresholds.\<close>

definition flow_run :: "nat \<Rightarrow> flow_op list \<Rightarrow> flow_world option" where
  "flow_run N ops = Option.bind (flow_start N 50 30 None True) (flow_exec ops)"

text \<open>A pool of four descriptors is mapped; three of them are sent and the pool pauses.\<close>

definition flow_scenario :: "flow_op list" where
  "flow_scenario = [VdevUp 1, FlowMap (Some 2) 1 True 5 4, TxAlloc 1 False, TxAlloc 1 False, TxAlloc 1 False]"

lemma flow_runE:
  assumes "flow_run N ops = Some w"
  obtains w0 where "flow_started N w0" "flow_step\<^sup>*\<^sup>* w0 w"
proof -
  from assms obtain w0 where "flow_start N 50 30 None True = Some w0" "flow_exec ops w0 = Some w"
    by (auto simp: flow_run_def split: bind_splits)
  with flow_startedI flow_exec_steps show ?thesis by (intro that [of w0]) auto
qed

lemma flow_run_case:
  assumes "case flow_run N ops of None \<Rightarrow> False | Some w \<Rightarrow> P w"
  obtains w w0 where "flow_run N ops = Some w" "P w" "flow_started N w0" "flow_step\<^sup>*\<^sup>* w0 w"
proof -
  from assms obtain w where w: "flow_run N ops = Some w" "P w" by (auto split: option.splits)
  obtain w0 where "flow_started N w0" "flow_step\<^sup>*\<^sup>* w0 w" by (rule flow_runE [OF w(1)])
  with w that show ?thesis by blast
qed


text \<open>
  C5: Descriptors are neither lost nor duplicated: in every reachable state the free lists of the global pool and of all
  flow pools together hold each descriptor that is not in flight exactly once, and \<open>ol_tx_get_total_free_desc\<close> returns the
  number of descriptors that are not in flight. The counters of the pools do not leave their range: \<open>num_free\<close> and \<open>avail_desc\<close> lie between 0 and the
  number of descriptors, \<open>avail_desc\<close> is the length of the free list, and \<open>deficient_desc\<close> is not negative and together with \<open>avail_desc\<close> at most the size of the pool.
\<close>

theorem flow_descs_conserved:
  assumes "flow_started N w0" and "flow_step\<^sup>*\<^sup>* w0 w"
  shows "let s = fw_pdev w; free = tx_freelist s @ concat (map (\<lambda>p. fp_freelist (the (flow_pools s p))) (flow_pool_list s)) in
    distinct free \<and> set free = {..<N} - in_flight w \<and> in_flight w \<subseteq> {..<N} \<and>
    ol_tx_get_total_free_desc s = Some (int N - int (card (in_flight w))) \<and> 0 \<le> tx_num_free s \<and> tx_num_free s \<le> int N \<and>
    (\<forall>p fp. flow_pools s p = Some fp \<longrightarrow> avail_desc fp = int (length (fp_freelist fp)) \<and> avail_desc fp \<le> int N \<and>
       0 \<le> deficient_desc fp \<and> avail_desc fp + deficient_desc fp \<le> flow_pool_size fp)"
proof -
  define s where "s = fw_pdev w"
  have inv: "flow_inv N s (in_flight w)" using flow_reachable [OF assms] by (simp add: s_def)
  note base = flow_invD(1) [OF inv] and D = flow_baseD [OF flow_invD(1) [OF inv]]
  have "map (\<lambda>p. fp_freelist (the (flow_pools s p))) (flow_pool_list s) = map (free_of s) (flow_pool_list s)"
    using D(2) by auto
  then have free: "tx_freelist s @ concat (map (\<lambda>p. fp_freelist (the (flow_pools s p))) (flow_pool_list s)) = free_descs s"
    by (simp add: free_descs_def del: map_eq_conv)
  have "length (tx_freelist s) \<le> N" using free_descs_once(4) [OF base] by (simp add: free_descs_def)
  then have g: "0 \<le> tx_num_free s" "tx_num_free s \<le> int N" using D(5) by simp_all
  have "\<forall>p fp. flow_pools s p = Some fp \<longrightarrow> avail_desc fp = int (length (fp_freelist fp)) \<and> avail_desc fp \<le> int N \<and>
       0 \<le> deficient_desc fp \<and> avail_desc fp + deficient_desc fp \<le> flow_pool_size fp"
    using pool_bounds [OF inv] D(4) by (simp add: fpool_ok_def)
  with free_descs_once [OF base] total_free_base [OF base] g show ?thesis by (simp only: Let_def s_def [symmetric] free simp_thms)
qed

theorem flow_descs_conserved_witness:
  "\<exists>w. flow_run 5 flow_scenario = Some w \<and> in_flight w \<subseteq> {..<5} \<and> ol_tx_get_total_free_desc (fw_pdev w) = Some 2"
proof -
  have "case flow_run 5 flow_scenario of None \<Rightarrow> False | Some w \<Rightarrow> in_flight w = {1, 2, 3}" by code_simp
  then obtain w w0 where w: "flow_run 5 flow_scenario = Some w" "in_flight w = {1, 2, 3}" "flow_started 5 w0" "flow_step\<^sup>*\<^sup>* w0 w"
    by (rule flow_run_case)
  from flow_descs_conserved [OF w(3,4)] w(1,2) show ?thesis by (auto simp: Let_def)
qed

text \<open>
  C37: Stopped queues are woken up: if an active pool without a deficit and with a size gets all its descriptors back, in any order, then
  every release succeeds and the pool is unpaused at the end.
\<close>

theorem flow_wakes_up:
  assumes "flow_started N w0" and "flow_step\<^sup>*\<^sup>* w0 w" and "flow_pools (fw_pdev w) p = Some fp"
    and "fp_status fp \<noteq> FLOW_POOL_INVALID" and "deficient_desc fp = 0" and "0 < flow_pool_size fp"
    and "distinct ds" and "set ds = {d \<in> in_flight w. desc_pool (fw_pdev w) d = Some p}"
  shows "\<exists>s' fp'. free_all ds (fw_pdev w) = Some s' \<and> flow_pools s' p = Some fp' \<and> fp_status fp' = FLOW_POOL_ACTIVE_UNPAUSED"
proof -
  let ?s = "fw_pdev w"
  have ds: "set ds = infl_of ?s (in_flight w) p" using assms(8) by (simp add: infl_of_def)
  from free_all_active [OF flow_reachable [OF assms(1,2)] eq_refl [OF ds] assms(7,3,4)]
  obtain s' fp' where s': "free_all ds ?s = Some s'" "flow_inv N s' (in_flight w - set ds)" "flow_pools s' p = Some fp'"
    "fp_status fp' \<noteq> FLOW_POOL_INVALID" "flow_pool_size fp' = flow_pool_size fp" "deficient_desc fp' = deficient_desc fp" "desc_pool s' = desc_pool ?s"
    by blast
  have "infl_of s' (in_flight w - set ds) p = {}" using ds s'(7) by (auto simp: infl_of_def)
  from all_back_unpaused [OF s'(2,3) this s'(4)] s' assms(5,6) show ?thesis by auto
qed

theorem flow_wakes_up_witness:
  "\<exists>w s' fp fp'. flow_run 5 flow_scenario = Some w \<and> flow_pools (fw_pdev w) 2 = Some fp \<and> fp_status fp = FLOW_POOL_ACTIVE_PAUSED \<and>
    free_all [2, 3, 1] (fw_pdev w) = Some s' \<and> flow_pools s' 2 = Some fp' \<and> fp_status fp' = FLOW_POOL_ACTIVE_UNPAUSED"
proof -
  have "case flow_run 5 flow_scenario of None \<Rightarrow> False | Some w \<Rightarrow> in_flight w = {1, 2, 3} \<and> list_all (\<lambda>d. desc_pool (fw_pdev w) d = Some 2) [1, 2, 3] \<and>
    (case flow_pools (fw_pdev w) 2 of None \<Rightarrow> False | Some fp \<Rightarrow> fp_status fp = FLOW_POOL_ACTIVE_PAUSED \<and> deficient_desc fp = 0 \<and> flow_pool_size fp = 4)"
    by code_simp
  then obtain w w0 where w: "flow_run 5 flow_scenario = Some w" "flow_started 5 w0" "flow_step\<^sup>*\<^sup>* w0 w" "in_flight w = {1, 2, 3}"
    "list_all (\<lambda>d. desc_pool (fw_pdev w) d = Some 2) [1, 2, 3]"
    "case flow_pools (fw_pdev w) 2 of None \<Rightarrow> False | Some fp \<Rightarrow> fp_status fp = FLOW_POOL_ACTIVE_PAUSED \<and> deficient_desc fp = 0 \<and> flow_pool_size fp = 4"
    by (auto elim: flow_run_case)
  from w(6) obtain fp where fp: "flow_pools (fw_pdev w) 2 = Some fp" "fp_status fp = FLOW_POOL_ACTIVE_PAUSED" "deficient_desc fp = 0" "flow_pool_size fp = 4"
    by (auto split: option.splits)
  have "set [2, 3, 1] = {d \<in> in_flight w. desc_pool (fw_pdev w) d = Some 2}" using w(4,5) by auto
  from flow_wakes_up [OF w(2,3) fp(1) _ fp(3) _ _ this] fp(1,2,4) w(1) show ?thesis by auto
qed

text \<open>
  C38: The loop of \<open>ol_tx_deregister_flow_control\<close> ends, with and without a pool for management frames: every pool is freed and the list
  is empty, and every descriptor that is not in flight is back in the global pool, once.
\<close>

theorem flow_deregister_terminates:
  assumes "flow_started N w0" and "flow_step\<^sup>*\<^sup>* w0 w"
  shows "\<exists>s'. ol_tx_deregister_flow_control wmi (fw_pdev w) = Some s' \<and> flow_pool_list s' = [] \<and> flow_pools s' = Map.empty \<and>
    distinct (tx_freelist s') \<and> set (tx_freelist s') = {..<N} - in_flight w"
proof -
  note inv = flow_reachable [OF assms]
  note base = flow_invD(1) [OF inv]
  have "mgmt_pool (fw_pdev w) = Some p \<Longrightarrow> flow_pools (fw_pdev w) p \<noteq> None" for p
    using flow_baseD(9) [OF base] by (auto simp: refs_active_def active_pool_def)
  from deregister_empty [OF flow_inv_drain [OF inv] this, of wmi]
  obtain s' where s': "ol_tx_deregister_flow_control wmi (fw_pdev w) = Some s'" "flow_pool_list s' = []" "drain_ok s'"
    "mset (free_descs s') = mset (free_descs (fw_pdev w))" by auto
  have eq: "mset (tx_freelist s') = mset (free_descs (fw_pdev w))" using s'(2,4) by (simp add: free_descs_def)
  from s'(2,3) have "flow_pools s' = Map.empty" by (auto simp: drain_ok_def)
  moreover have "distinct (tx_freelist s')" using free_descs_once(1) [OF base] mset_eq_imp_distinct_iff [OF eq] by simp
  moreover have "set (tx_freelist s') = {..<N} - in_flight w" using mset_eq_setD [OF eq] free_descs_once(2) [OF base] by simp
  ultimately show ?thesis using s'(1,2) by blast
qed

theorem flow_deregister_terminates_witness:
  "\<exists>w s'. flow_run 5 flow_scenario = Some w \<and> ol_tx_deregister_flow_control True (fw_pdev w) = Some s' \<and> set (tx_freelist s') = {0, 4}"
proof -
  have "case flow_run 5 flow_scenario of None \<Rightarrow> False | Some w \<Rightarrow> in_flight w = {1, 2, 3}" by code_simp
  then obtain w w0 where w: "flow_run 5 flow_scenario = Some w" "in_flight w = {1, 2, 3}" "flow_started 5 w0" "flow_step\<^sup>*\<^sup>* w0 w"
    by (rule flow_run_case)
  from flow_deregister_terminates [OF w(3,4), of True] obtain s' where s': "ol_tx_deregister_flow_control True (fw_pdev w) = Some s'"
    "set (tx_freelist s') = {..<5} - in_flight w" by blast
  have "{..<5} - {1, 2, 3} = {0, 4::nat}" by (auto simp: numeral_eq_Suc less_Suc_eq)
  with s' w(1,2) show ?thesis by (intro exI [of _ w] exI [of _ s']) simp
qed

text \<open>
  Unmapping a pool from its device frees the pool exactly if none of its descriptors is in flight and it has no deficit.
  Otherwise the pool becomes invalid and waits for as many descriptors as are in flight plus its deficit: an idle pool
  that got fewer descriptors than requested is not freed, although all its descriptors are back.
\<close>

theorem flow_unmap_outcome:
  assumes "flow_started N w0" and "flow_step\<^sup>*\<^sup>* w0 w" and "flow_op_ok (FlowUnmap v True pool_id) w"
    and "ol_tx_get_flow_pool pool_id (fw_pdev w) = Some (Some p)" and "flow_pools (fw_pdev w) p = Some fp"
  shows "\<exists>s'. ol_tx_flow_pool_unmap_handler v True pool_id (fw_pdev w) = Some s' \<and>
    (let flying = {d \<in> in_flight w. desc_pool (fw_pdev w) d = Some p} in
     if flying = {} \<and> deficient_desc fp = 0 then flow_pools s' p = None
     else \<exists>fp'. flow_pools s' p = Some fp' \<and> fp_status fp' = FLOW_POOL_INVALID \<and>
       flow_pool_size fp' = int (card flying) + deficient_desc fp \<and> avail_desc fp' = 0)"
  using unmap_result [OF flow_reachable [OF assms(1,2)] _ _ assms(4,5)] assms(3) unfolding Let_def infl_of_def by simp

text \<open>A pool of size four gets the two descriptors of the device.\<close>

definition deficit_scenario :: "flow_op list" where
  "deficit_scenario = [VdevUp 1, FlowMap (Some 2) 1 True 5 4]"

theorem flow_unmap_outcome_witness:
  "\<exists>w s' fp'. flow_run 2 deficit_scenario = Some w \<and> in_flight w = {} \<and> ol_tx_flow_pool_unmap_handler 1 True 5 (fw_pdev w) = Some s' \<and>
    flow_pools s' 2 = Some fp' \<and> fp_status fp' = FLOW_POOL_INVALID \<and> flow_pool_size fp' = 2"
proof -
  have "case flow_run 2 deficit_scenario of None \<Rightarrow> False | Some w \<Rightarrow> in_flight w = {} \<and> flow_op_ok (FlowUnmap 1 True 5) w \<and>
    ol_tx_get_flow_pool 5 (fw_pdev w) = Some (Some 2) \<and> (case flow_pools (fw_pdev w) 2 of None \<Rightarrow> False | Some fp \<Rightarrow> deficient_desc fp = 2)"
    by code_simp
  then obtain w w0 where w: "flow_run 2 deficit_scenario = Some w" "flow_started 2 w0" "flow_step\<^sup>*\<^sup>* w0 w" "in_flight w = {}"
    "flow_op_ok (FlowUnmap 1 True 5) w" "ol_tx_get_flow_pool 5 (fw_pdev w) = Some (Some 2)"
    "case flow_pools (fw_pdev w) 2 of None \<Rightarrow> False | Some fp \<Rightarrow> deficient_desc fp = 2"
    by (auto elim: flow_run_case)
  from w(7) obtain fp where fp: "flow_pools (fw_pdev w) 2 = Some fp" "deficient_desc fp = 2" by (auto split: option.splits)
  from flow_unmap_outcome [OF w(2,3,5,6) fp(1)] fp(2) w(1,4) show ?thesis by (auto simp: Let_def)
qed

text \<open>
  Without a single transmission, four pools that got fewer descriptors than requested and were unmapped exceed the limit
  of invalid pools and raise the assertion of \<open>ol_tx_delete_flow_pool\<close>.
\<close>

theorem flow_deficit_asserts:
  "case flow_run 1 (concat (map (\<lambda>p. [FlowMap (Some p) 1 True 5 4, FlowUnmap 1 True 5]) [1, 2, 3, 4])) of
     None \<Rightarrow> False | Some w \<Rightarrow> in_flight w = {} \<and> TooManyInvalid \<in> set (flow_events (fw_pdev w))"
  by code_simp

text \<open>
  The thresholds are fractions of the requested size: a pool of size four that got two descriptors pauses at the first transmission, and
  stays paused when nothing is in flight.
\<close>

theorem flow_deficit_stalls:
  "case flow_run 2 (deficit_scenario @ [TxAlloc 1 False, TxFree 1]) of
     None \<Rightarrow> False | Some w \<Rightarrow> in_flight w = {} \<and> map_option fp_status (flow_pools (fw_pdev w) 2) = Some FLOW_POOL_ACTIVE_PAUSED"
  by code_simp

section \<open>The callback after the lock\<close>

lemma free_unpaused:
  assumes "ol_tx_desc_free d s = Some s'" "desc_pool s d = Some p" "flow_pools s p = Some fp" "fp_status fp = FLOW_POOL_ACTIVE_UNPAUSED"
  obtains fp' where "flow_pools s' p = Some fp'" "fp_status fp' = FLOW_POOL_ACTIVE_UNPAUSED" "flow_events s' = flow_events s" "desc_pool s' = desc_pool s"
  using assms by (auto simp: ol_tx_desc_free_def ol_tx_put_desc_flow_pool_def fun_upd_idem)

lemma free_all_unpaused:
  assumes "free_all ds s = Some s'" "\<forall>d \<in> set ds. desc_pool s d = Some p" "flow_pools s p = Some fp" "fp_status fp = FLOW_POOL_ACTIVE_UNPAUSED"
  shows "flow_events s' = flow_events s \<and> (\<exists>fp'. flow_pools s' p = Some fp' \<and> fp_status fp' = FLOW_POOL_ACTIVE_UNPAUSED)"
  using assms
proof (induction ds arbitrary: s fp)
  case (Cons d ds)
  then obtain s1 where s1: "ol_tx_desc_free d s = Some s1" "free_all ds s1 = Some s'" by (auto split: bind_splits)
  obtain fp1 where "flow_pools s1 p = Some fp1" "fp_status fp1 = FLOW_POOL_ACTIVE_UNPAUSED" "flow_events s1 = flow_events s" "desc_pool s1 = desc_pool s"
    by (rule free_unpaused [OF s1(1) _ Cons.prems(3,4)]) (use Cons.prems(2) in auto)
  with Cons.IH [OF s1(2), of fp1] Cons.prems(2) show ?case by auto
qed auto

text \<open>
  The queues can stay stopped although the pool is unpaused. \<open>ol_tx_desc_alloc\<close> marks the pool as paused under its lock and stops the queues after
  it has released the lock. If releases of other descriptors unpause the pool in between, the callback that stops the queues comes last, and no later
  release of a descriptor of the pool wakes them up, however many descriptors return.
\<close>

theorem flow_stop_after_wake:
  assumes "alloc_locked p s = Some (s1, Some (d, True))" and "free_all ds s1 = Some s2"
    and "flow_pools s2 p = Some fp2" and "fp_status fp2 = FLOW_POOL_ACTIVE_UNPAUSED"
    and "\<forall>d \<in> set later. desc_pool s2 d = Some p" and "free_all later (alloc_unlocked v d True s2) = Some s3"
  shows "last (flow_events s3) = PauseCb v WLAN_STOP_ALL_NETIF_QUEUE \<and> map_option fp_status (flow_pools s3 p) = Some FLOW_POOL_ACTIVE_UNPAUSED"
proof -
  let ?s = "alloc_unlocked v d True s2"
  have "flow_events ?s = flow_events s2 @ [PauseCb v WLAN_STOP_ALL_NETIF_QUEUE]" "flow_pools ?s = flow_pools s2" "desc_pool ?s = desc_pool s2"
    by (simp_all add: alloc_unlocked_def flow_event_def)
  with free_all_unpaused [OF assms(6), of p fp2] assms(3,4,5) show ?thesis by auto
qed

lemma case_some_iff: "(case x of None \<Rightarrow> False | Some y \<Rightarrow> P y) \<longleftrightarrow> (\<exists>y. x = Some y \<and> P y)"
  by (cases x) simp_all

text \<open>Three descriptors of four are sent; the other two return while the third one is allocated.\<close>

definition race_start :: "flow_world option" where
  "race_start = Option.bind (flow_start 4 50 0 None True)
     (flow_exec [VdevUp 1, FlowMap (Some 2) 1 True 5 4, TxAlloc 1 False, TxAlloc 1 False])"

theorem flow_stop_after_wake_witness:
  "\<exists>w s1 s2 s3. race_start = Some w \<and> alloc_locked 2 (fw_pdev w) = Some (s1, Some (1, True)) \<and> free_all [3, 2] s1 = Some s2 \<and>
    free_all [1] (alloc_unlocked 1 1 True s2) = Some s3 \<and> last (flow_events s3) = PauseCb 1 WLAN_STOP_ALL_NETIF_QUEUE \<and>
    map_option fp_status (flow_pools s3 2) = Some FLOW_POOL_ACTIVE_UNPAUSED"
proof -
  have "case race_start of None \<Rightarrow> False | Some w \<Rightarrow> (case alloc_locked 2 (fw_pdev w) of None \<Rightarrow> False | Some (s1, r) \<Rightarrow> r = Some (1, True) \<and>
    (case free_all [3, 2] s1 of None \<Rightarrow> False | Some s2 \<Rightarrow> desc_pool s2 1 = Some 2 \<and>
      (case flow_pools s2 2 of None \<Rightarrow> False | Some fp2 \<Rightarrow> fp_status fp2 = FLOW_POOL_ACTIVE_UNPAUSED) \<and>
      free_all [1] (alloc_unlocked 1 1 True s2) \<noteq> None))" by code_simp
  then obtain w s1 s2 fp2 s3 where *: "race_start = Some w" "alloc_locked 2 (fw_pdev w) = Some (s1, Some (1, True))" "free_all [3, 2] s1 = Some s2"
    "flow_pools s2 2 = Some fp2" "fp_status fp2 = FLOW_POOL_ACTIVE_UNPAUSED" "desc_pool s2 1 = Some 2"
    "free_all [1] (alloc_unlocked 1 1 True s2) = Some s3"
    by (auto simp: case_some_iff simp del: free_all.simps One_nat_def)
  from flow_stop_after_wake [OF *(2-5) _ *(7)] *(6) show ?thesis using *(1-3,7) by auto
qed

end
