(* ===== verification/Arrays.thy ===== *)
theory Arrays
  imports Prelude
begin

text \<open>
  Arrays as lists, with every access checked: reading, writing and copying outside an array is \<open>None\<close>. Shared by the concurrency
  policy and the configuration store.
\<close>

text \<open>An access to an array, \<open>None\<close> outside it.\<close>

definition entry :: "'a list \<Rightarrow> nat \<Rightarrow> 'a option" where
  "entry xs i = (if i < length xs then Some (xs ! i) else None)"

section \<open>Access and copies\<close>

text \<open>\<open>qdf_mem_copy(&dst[off], src, n)\<close>, \<open>qdf_mem_set(dst, n, v)\<close> and \<open>dst[i] = v\<close>.\<close>

definition mem_copy :: "'a list \<Rightarrow> nat \<Rightarrow> 'a list \<Rightarrow> nat \<Rightarrow> 'a list option" where
  "mem_copy dst off src n =
     (if off + n \<le> length dst \<and> n \<le> length src then Some (take off dst @ take n src @ drop (off + n) dst) else None)"

definition mem_set :: "'a list \<Rightarrow> nat \<Rightarrow> 'a \<Rightarrow> 'a list option" where
  "mem_set dst n v = (if n \<le> length dst then Some (replicate n v @ drop n dst) else None)"

definition put :: "'a list \<Rightarrow> nat \<Rightarrow> 'a \<Rightarrow> 'a list option" where
  "put dst i v = (if i < length dst then Some (dst[i := v]) else None)"

text \<open>\<open>n\<close> entries from \<open>i\<close> on are set to \<open>v\<close>.\<close>

fun fill :: "nat \<Rightarrow> nat \<Rightarrow> 'a \<Rightarrow> 'a list \<Rightarrow> 'a list option" where
  "fill i 0 v a = Some a"
| "fill i (Suc n) v a = Option.bind (put a i v) (fill (Suc i) n v)"

text \<open>The bytes \<open>src[off .. off + n - 1]\<close>.\<close>

definition mem_read :: "'a list \<Rightarrow> nat \<Rightarrow> nat \<Rightarrow> 'a list option" where
  "mem_read src off n = (if off + n \<le> length src then Some (take n (drop off src)) else None)"

section \<open>A part of an array\<close>

lemma entry_Some [simp]: "i < length xs \<Longrightarrow> entry xs i = Some (xs ! i)"
  by (simp add: entry_def)

lemma put_Some [simp]: "i < length xs \<Longrightarrow> put xs i v = Some (xs[i := v])"
  by (simp add: put_def)

lemma mem_read_Some [simp]: "off + n \<le> length src \<Longrightarrow> mem_read src off n = Some (take n (drop off src))"
  by (simp add: mem_read_def)

lemma slice_eqI:
  "\<lbrakk>off + n \<le> length a; length b = n; \<And>i. i < n \<Longrightarrow> a ! (off + i) = b ! i\<rbrakk> \<Longrightarrow> take n (drop off a) = b"
  by (rule nth_equalityI) auto

lemma slice_cong:
  "\<lbrakk>length a = length b; off + n \<le> length a; \<And>i. \<lbrakk>off \<le> i; i < off + n\<rbrakk> \<Longrightarrow> a ! i = b ! i\<rbrakk> \<Longrightarrow> take n (drop off a) = take n (drop off b)"
  by (rule nth_equalityI) auto

end
