(* ===== verification/Conc_Tables.thy ===== *)
theory Conc_Tables
  imports Arrays
begin

text \<open>
  The tables of the concurrency policy, \<open>core/cds/src/cds_concurrency.c\<close>, and the enumerations they are indexed with
  (\<open>core/cds/inc/cds_concurrency.h\<close>). A row of a table of preferred channel lists gives for each mode of the new connection, in the order of
  \<open>cds_con_mode\<close>, the list for each system preference. Rows are transcribed entry by entry; a table lists its rows as
  the designated initialisers of the source. An entry that C would read outside a table is \<open>None\<close>.
\<close>

section \<open>Enumerations\<close>

datatype cds_con_mode =
  CDS_STA_MODE | CDS_SAP_MODE | CDS_P2P_CLIENT_MODE | CDS_P2P_GO_MODE | CDS_IBSS_MODE | CDS_MAX_NUM_OF_MODE

datatype cds_pcl_type =
  CDS_NONE | CDS_24G | CDS_5G | CDS_SCC_CH | CDS_MCC_CH | CDS_SCC_CH_24G | CDS_SCC_CH_5G | CDS_24G_SCC_CH | CDS_5G_SCC_CH
  | CDS_SCC_ON_5_SCC_ON_24_24G | CDS_SCC_ON_5_SCC_ON_24_5G | CDS_SCC_ON_24_SCC_ON_5_24G | CDS_SCC_ON_24_SCC_ON_5_5G
  | CDS_SCC_ON_5_SCC_ON_24 | CDS_SCC_ON_24_SCC_ON_5 | CDS_MCC_CH_24G | CDS_MCC_CH_5G | CDS_24G_MCC_CH | CDS_5G_MCC_CH | CDS_MAX_PCL_TYPE

datatype cds_one_connection_mode =
  CDS_STA_24_1x1 | CDS_STA_24_2x2 | CDS_STA_5_1x1 | CDS_STA_5_2x2 | CDS_P2P_CLI_24_1x1 | CDS_P2P_CLI_24_2x2 | CDS_P2P_CLI_5_1x1
  | CDS_P2P_CLI_5_2x2 | CDS_P2P_GO_24_1x1 | CDS_P2P_GO_24_2x2 | CDS_P2P_GO_5_1x1 | CDS_P2P_GO_5_2x2 | CDS_SAP_24_1x1 | CDS_SAP_24_2x2
  | CDS_SAP_5_1x1 | CDS_SAP_5_2x2 | CDS_IBSS_24_1x1 | CDS_IBSS_24_2x2 | CDS_IBSS_5_1x1 | CDS_IBSS_5_2x2 | CDS_MAX_ONE_CONNECTION_MODE

text \<open>The 67 modes of two connections are numbers, as in C.\<close>

type_synonym cds_two_connection_mode = nat

abbreviation (input) CDS_STA_SAP_SCC_24_1x1 :: cds_two_connection_mode where "CDS_STA_SAP_SCC_24_1x1 \<equiv> 0"
abbreviation (input) CDS_STA_SAP_SCC_24_2x2 :: cds_two_connection_mode where "CDS_STA_SAP_SCC_24_2x2 \<equiv> 1"
abbreviation (input) CDS_STA_SAP_MCC_24_1x1 :: cds_two_connection_mode where "CDS_STA_SAP_MCC_24_1x1 \<equiv> 2"
abbreviation (input) CDS_STA_SAP_MCC_24_2x2 :: cds_two_connection_mode where "CDS_STA_SAP_MCC_24_2x2 \<equiv> 3"
abbreviation (input) CDS_STA_SAP_SCC_5_1x1 :: cds_two_connection_mode where "CDS_STA_SAP_SCC_5_1x1 \<equiv> 4"
abbreviation (input) CDS_STA_SAP_SCC_5_2x2 :: cds_two_connection_mode where "CDS_STA_SAP_SCC_5_2x2 \<equiv> 5"
abbreviation (input) CDS_STA_SAP_MCC_5_1x1 :: cds_two_connection_mode where "CDS_STA_SAP_MCC_5_1x1 \<equiv> 6"
abbreviation (input) CDS_STA_SAP_MCC_5_2x2 :: cds_two_connection_mode where "CDS_STA_SAP_MCC_5_2x2 \<equiv> 7"
abbreviation (input) CDS_STA_SAP_MCC_24_5_1x1 :: cds_two_connection_mode where "CDS_STA_SAP_MCC_24_5_1x1 \<equiv> 8"
abbreviation (input) CDS_STA_SAP_MCC_24_5_2x2 :: cds_two_connection_mode where "CDS_STA_SAP_MCC_24_5_2x2 \<equiv> 9"
abbreviation (input) CDS_STA_SAP_DBS_1x1 :: cds_two_connection_mode where "CDS_STA_SAP_DBS_1x1 \<equiv> 10"
abbreviation (input) CDS_STA_P2P_GO_SCC_24_1x1 :: cds_two_connection_mode where "CDS_STA_P2P_GO_SCC_24_1x1 \<equiv> 11"
abbreviation (input) CDS_STA_P2P_GO_SCC_24_2x2 :: cds_two_connection_mode where "CDS_STA_P2P_GO_SCC_24_2x2 \<equiv> 12"
abbreviation (input) CDS_STA_P2P_GO_MCC_24_1x1 :: cds_two_connection_mode where "CDS_STA_P2P_GO_MCC_24_1x1 \<equiv> 13"
abbreviation (input) CDS_STA_P2P_GO_MCC_24_2x2 :: cds_two_connection_mode where "CDS_STA_P2P_GO_MCC_24_2x2 \<equiv> 14"
abbreviation (input) CDS_STA_P2P_GO_SCC_5_1x1 :: cds_two_connection_mode where "CDS_STA_P2P_GO_SCC_5_1x1 \<equiv> 15"
abbreviation (input) CDS_STA_P2P_GO_SCC_5_2x2 :: cds_two_connection_mode where "CDS_STA_P2P_GO_SCC_5_2x2 \<equiv> 16"
abbreviation (input) CDS_STA_P2P_GO_MCC_5_1x1 :: cds_two_connection_mode where "CDS_STA_P2P_GO_MCC_5_1x1 \<equiv> 17"
abbreviation (input) CDS_STA_P2P_GO_MCC_5_2x2 :: cds_two_connection_mode where "CDS_STA_P2P_GO_MCC_5_2x2 \<equiv> 18"
abbreviation (input) CDS_STA_P2P_GO_MCC_24_5_1x1 :: cds_two_connection_mode where "CDS_STA_P2P_GO_MCC_24_5_1x1 \<equiv> 19"
abbreviation (input) CDS_STA_P2P_GO_MCC_24_5_2x2 :: cds_two_connection_mode where "CDS_STA_P2P_GO_MCC_24_5_2x2 \<equiv> 20"
abbreviation (input) CDS_STA_P2P_GO_DBS_1x1 :: cds_two_connection_mode where "CDS_STA_P2P_GO_DBS_1x1 \<equiv> 21"
abbreviation (input) CDS_STA_P2P_CLI_SCC_24_1x1 :: cds_two_connection_mode where "CDS_STA_P2P_CLI_SCC_24_1x1 \<equiv> 22"
abbreviation (input) CDS_STA_P2P_CLI_SCC_24_2x2 :: cds_two_connection_mode where "CDS_STA_P2P_CLI_SCC_24_2x2 \<equiv> 23"
abbreviation (input) CDS_STA_P2P_CLI_MCC_24_1x1 :: cds_two_connection_mode where "CDS_STA_P2P_CLI_MCC_24_1x1 \<equiv> 24"
abbreviation (input) CDS_STA_P2P_CLI_MCC_24_2x2 :: cds_two_connection_mode where "CDS_STA_P2P_CLI_MCC_24_2x2 \<equiv> 25"
abbreviation (input) CDS_STA_P2P_CLI_SCC_5_1x1 :: cds_two_connection_mode where "CDS_STA_P2P_CLI_SCC_5_1x1 \<equiv> 26"
abbreviation (input) CDS_STA_P2P_CLI_SCC_5_2x2 :: cds_two_connection_mode where "CDS_STA_P2P_CLI_SCC_5_2x2 \<equiv> 27"
abbreviation (input) CDS_STA_P2P_CLI_MCC_5_1x1 :: cds_two_connection_mode where "CDS_STA_P2P_CLI_MCC_5_1x1 \<equiv> 28"
abbreviation (input) CDS_STA_P2P_CLI_MCC_5_2x2 :: cds_two_connection_mode where "CDS_STA_P2P_CLI_MCC_5_2x2 \<equiv> 29"
abbreviation (input) CDS_STA_P2P_CLI_MCC_24_5_1x1 :: cds_two_connection_mode where "CDS_STA_P2P_CLI_MCC_24_5_1x1 \<equiv> 30"
abbreviation (input) CDS_STA_P2P_CLI_MCC_24_5_2x2 :: cds_two_connection_mode where "CDS_STA_P2P_CLI_MCC_24_5_2x2 \<equiv> 31"
abbreviation (input) CDS_STA_P2P_CLI_DBS_1x1 :: cds_two_connection_mode where "CDS_STA_P2P_CLI_DBS_1x1 \<equiv> 32"
abbreviation (input) CDS_P2P_GO_P2P_CLI_SCC_24_1x1 :: cds_two_connection_mode where "CDS_P2P_GO_P2P_CLI_SCC_24_1x1 \<equiv> 33"
abbreviation (input) CDS_P2P_GO_P2P_CLI_SCC_24_2x2 :: cds_two_connection_mode where "CDS_P2P_GO_P2P_CLI_SCC_24_2x2 \<equiv> 34"
abbreviation (input) CDS_P2P_GO_P2P_CLI_MCC_24_1x1 :: cds_two_connection_mode where "CDS_P2P_GO_P2P_CLI_MCC_24_1x1 \<equiv> 35"
abbreviation (input) CDS_P2P_GO_P2P_CLI_MCC_24_2x2 :: cds_two_connection_mode where "CDS_P2P_GO_P2P_CLI_MCC_24_2x2 \<equiv> 36"
abbreviation (input) CDS_P2P_GO_P2P_CLI_SCC_5_1x1 :: cds_two_connection_mode where "CDS_P2P_GO_P2P_CLI_SCC_5_1x1 \<equiv> 37"
abbreviation (input) CDS_P2P_GO_P2P_CLI_SCC_5_2x2 :: cds_two_connection_mode where "CDS_P2P_GO_P2P_CLI_SCC_5_2x2 \<equiv> 38"
abbreviation (input) CDS_P2P_GO_P2P_CLI_MCC_5_1x1 :: cds_two_connection_mode where "CDS_P2P_GO_P2P_CLI_MCC_5_1x1 \<equiv> 39"
abbreviation (input) CDS_P2P_GO_P2P_CLI_MCC_5_2x2 :: cds_two_connection_mode where "CDS_P2P_GO_P2P_CLI_MCC_5_2x2 \<equiv> 40"
abbreviation (input) CDS_P2P_GO_P2P_CLI_MCC_24_5_1x1 :: cds_two_connection_mode where "CDS_P2P_GO_P2P_CLI_MCC_24_5_1x1 \<equiv> 41"
abbreviation (input) CDS_P2P_GO_P2P_CLI_MCC_24_5_2x2 :: cds_two_connection_mode where "CDS_P2P_GO_P2P_CLI_MCC_24_5_2x2 \<equiv> 42"
abbreviation (input) CDS_P2P_GO_P2P_CLI_DBS_1x1 :: cds_two_connection_mode where "CDS_P2P_GO_P2P_CLI_DBS_1x1 \<equiv> 43"
abbreviation (input) CDS_P2P_GO_SAP_SCC_24_1x1 :: cds_two_connection_mode where "CDS_P2P_GO_SAP_SCC_24_1x1 \<equiv> 44"
abbreviation (input) CDS_P2P_GO_SAP_SCC_24_2x2 :: cds_two_connection_mode where "CDS_P2P_GO_SAP_SCC_24_2x2 \<equiv> 45"
abbreviation (input) CDS_P2P_GO_SAP_MCC_24_1x1 :: cds_two_connection_mode where "CDS_P2P_GO_SAP_MCC_24_1x1 \<equiv> 46"
abbreviation (input) CDS_P2P_GO_SAP_MCC_24_2x2 :: cds_two_connection_mode where "CDS_P2P_GO_SAP_MCC_24_2x2 \<equiv> 47"
abbreviation (input) CDS_P2P_GO_SAP_SCC_5_1x1 :: cds_two_connection_mode where "CDS_P2P_GO_SAP_SCC_5_1x1 \<equiv> 48"
abbreviation (input) CDS_P2P_GO_SAP_SCC_5_2x2 :: cds_two_connection_mode where "CDS_P2P_GO_SAP_SCC_5_2x2 \<equiv> 49"
abbreviation (input) CDS_P2P_GO_SAP_MCC_5_1x1 :: cds_two_connection_mode where "CDS_P2P_GO_SAP_MCC_5_1x1 \<equiv> 50"
abbreviation (input) CDS_P2P_GO_SAP_MCC_5_2x2 :: cds_two_connection_mode where "CDS_P2P_GO_SAP_MCC_5_2x2 \<equiv> 51"
abbreviation (input) CDS_P2P_GO_SAP_MCC_24_5_1x1 :: cds_two_connection_mode where "CDS_P2P_GO_SAP_MCC_24_5_1x1 \<equiv> 52"
abbreviation (input) CDS_P2P_GO_SAP_MCC_24_5_2x2 :: cds_two_connection_mode where "CDS_P2P_GO_SAP_MCC_24_5_2x2 \<equiv> 53"
abbreviation (input) CDS_P2P_GO_SAP_DBS_1x1 :: cds_two_connection_mode where "CDS_P2P_GO_SAP_DBS_1x1 \<equiv> 54"
abbreviation (input) CDS_P2P_CLI_SAP_SCC_24_1x1 :: cds_two_connection_mode where "CDS_P2P_CLI_SAP_SCC_24_1x1 \<equiv> 55"
abbreviation (input) CDS_P2P_CLI_SAP_SCC_24_2x2 :: cds_two_connection_mode where "CDS_P2P_CLI_SAP_SCC_24_2x2 \<equiv> 56"
abbreviation (input) CDS_P2P_CLI_SAP_MCC_24_1x1 :: cds_two_connection_mode where "CDS_P2P_CLI_SAP_MCC_24_1x1 \<equiv> 57"
abbreviation (input) CDS_P2P_CLI_SAP_MCC_24_2x2 :: cds_two_connection_mode where "CDS_P2P_CLI_SAP_MCC_24_2x2 \<equiv> 58"
abbreviation (input) CDS_P2P_CLI_SAP_SCC_5_1x1 :: cds_two_connection_mode where "CDS_P2P_CLI_SAP_SCC_5_1x1 \<equiv> 59"
abbreviation (input) CDS_P2P_CLI_SAP_SCC_5_2x2 :: cds_two_connection_mode where "CDS_P2P_CLI_SAP_SCC_5_2x2 \<equiv> 60"
abbreviation (input) CDS_P2P_CLI_SAP_MCC_5_1x1 :: cds_two_connection_mode where "CDS_P2P_CLI_SAP_MCC_5_1x1 \<equiv> 61"
abbreviation (input) CDS_P2P_CLI_SAP_MCC_5_2x2 :: cds_two_connection_mode where "CDS_P2P_CLI_SAP_MCC_5_2x2 \<equiv> 62"
abbreviation (input) CDS_P2P_CLI_SAP_MCC_24_5_1x1 :: cds_two_connection_mode where "CDS_P2P_CLI_SAP_MCC_24_5_1x1 \<equiv> 63"
abbreviation (input) CDS_P2P_CLI_SAP_MCC_24_5_2x2 :: cds_two_connection_mode where "CDS_P2P_CLI_SAP_MCC_24_5_2x2 \<equiv> 64"
abbreviation (input) CDS_P2P_CLI_SAP_DBS_1x1 :: cds_two_connection_mode where "CDS_P2P_CLI_SAP_DBS_1x1 \<equiv> 65"
abbreviation (input) CDS_MAX_TWO_CONNECTION_MODE :: cds_two_connection_mode where "CDS_MAX_TWO_CONNECTION_MODE \<equiv> 66"

datatype cds_conc_next_action =
  CDS_NOP | CDS_DBS | CDS_DBS_DOWNGRADE | CDS_SINGLE_MAC | CDS_SINGLE_MAC_UPGRADE

datatype cds_conc_priority_mode =
  CDS_THROUGHPUT | CDS_POWERSAVE | CDS_LATENCY | CDS_MAX_CONC_PRIORITY_MODE

datatype cds_band =
  CDS_BAND_24 | CDS_BAND_5

datatype cds_chain_mode =
  CDS_ONE_ONE | CDS_TWO_TWO

type_synonym pcl_row = "cds_pcl_type list list"

fun mode_num :: "cds_con_mode \<Rightarrow> nat" where
  "mode_num CDS_STA_MODE = 0"
| "mode_num CDS_SAP_MODE = 1"
| "mode_num CDS_P2P_CLIENT_MODE = 2"
| "mode_num CDS_P2P_GO_MODE = 3"
| "mode_num CDS_IBSS_MODE = 4"
| "mode_num CDS_MAX_NUM_OF_MODE = 5"

fun pref_num :: "cds_conc_priority_mode \<Rightarrow> nat" where
  "pref_num CDS_THROUGHPUT = 0"
| "pref_num CDS_POWERSAVE = 1"
| "pref_num CDS_LATENCY = 2"
| "pref_num CDS_MAX_CONC_PRIORITY_MODE = 3"

fun band_num :: "cds_band \<Rightarrow> nat" where
  "band_num CDS_BAND_24 = 0"
| "band_num CDS_BAND_5 = 1"

definition pcl_entry :: "pcl_row \<Rightarrow> cds_con_mode \<Rightarrow> cds_conc_priority_mode \<Rightarrow> cds_pcl_type option" where
  "pcl_entry row mode pref = Option.bind (entry row (mode_num mode)) (\<lambda>cs. entry cs (pref_num pref))"

section \<open>The first and the second connection\<close>

definition first_connection_pcl_table :: pcl_row where
  "first_connection_pcl_table =
     [[CDS_NONE, CDS_NONE, CDS_NONE], [CDS_5G, CDS_5G, CDS_5G], [CDS_5G, CDS_5G, CDS_5G], [CDS_5G, CDS_5G, CDS_5G],
      [CDS_NONE, CDS_NONE, CDS_NONE]]"

definition second_connection_pcl_dbs_table :: "(cds_one_connection_mode \<times> pcl_row) list" where
  "second_connection_pcl_dbs_table =
    [(CDS_STA_24_1x1,
       [[CDS_5G_SCC_CH, CDS_5G_SCC_CH, CDS_5G_SCC_CH], [CDS_5G_SCC_CH, CDS_5G_SCC_CH, CDS_5G_SCC_CH],
        [CDS_5G_SCC_CH, CDS_5G_SCC_CH, CDS_5G_SCC_CH], [CDS_5G_SCC_CH, CDS_5G_SCC_CH, CDS_5G_SCC_CH], [CDS_5G, CDS_5G, CDS_5G]]),
     (CDS_STA_24_2x2,
       [[CDS_5G_SCC_CH, CDS_5G_SCC_CH, CDS_5G_SCC_CH], [CDS_5G_SCC_CH, CDS_5G_SCC_CH, CDS_5G_SCC_CH],
        [CDS_5G_SCC_CH, CDS_5G_SCC_CH, CDS_5G_SCC_CH], [CDS_5G_SCC_CH, CDS_5G_SCC_CH, CDS_5G_SCC_CH], [CDS_5G, CDS_5G, CDS_5G]]),
     (CDS_STA_5_1x1,
       [[CDS_SCC_CH_24G, CDS_24G_SCC_CH, CDS_SCC_CH_24G], [CDS_SCC_CH_24G, CDS_24G_SCC_CH, CDS_SCC_CH_24G],
        [CDS_SCC_CH_24G, CDS_24G_SCC_CH, CDS_SCC_CH_24G], [CDS_SCC_CH_24G, CDS_24G_SCC_CH, CDS_SCC_CH_24G], [CDS_24G, CDS_24G, CDS_24G]]),
     (CDS_STA_5_2x2,
       [[CDS_SCC_CH_24G, CDS_24G_SCC_CH, CDS_SCC_CH_24G], [CDS_SCC_CH_24G, CDS_24G_SCC_CH, CDS_SCC_CH_24G],
        [CDS_SCC_CH_24G, CDS_24G_SCC_CH, CDS_SCC_CH_24G], [CDS_SCC_CH_24G, CDS_24G_SCC_CH, CDS_SCC_CH_24G], [CDS_24G, CDS_24G, CDS_24G]]),
     (CDS_P2P_CLI_24_1x1,
       [[CDS_5G_SCC_CH, CDS_5G_SCC_CH, CDS_5G_SCC_CH], [CDS_5G_SCC_CH, CDS_5G_SCC_CH, CDS_5G_SCC_CH],
        [CDS_5G_SCC_CH, CDS_5G_SCC_CH, CDS_5G_SCC_CH], [CDS_5G_SCC_CH, CDS_5G_SCC_CH, CDS_5G_SCC_CH],
        [CDS_MAX_PCL_TYPE, CDS_MAX_PCL_TYPE, CDS_MAX_PCL_TYPE]]),
     (CDS_P2P_CLI_24_2x2,
       [[CDS_5G_SCC_CH, CDS_5G_SCC_CH, CDS_5G_SCC_CH], [CDS_5G_SCC_CH, CDS_5G_SCC_CH, CDS_5G_SCC_CH],
        [CDS_5G_SCC_CH, CDS_5G_SCC_CH, CDS_5G_SCC_CH], [CDS_5G_SCC_CH, CDS_5G_SCC_CH, CDS_5G_SCC_CH],
        [CDS_MAX_PCL_TYPE, CDS_MAX_PCL_TYPE, CDS_MAX_PCL_TYPE]]),
     (CDS_P2P_CLI_5_1x1,
       [[CDS_SCC_CH_24G, CDS_24G_SCC_CH, CDS_SCC_CH_24G], [CDS_SCC_CH_24G, CDS_24G_SCC_CH, CDS_SCC_CH_24G],
        [CDS_SCC_CH_24G, CDS_24G_SCC_CH, CDS_SCC_CH_24G], [CDS_SCC_CH_24G, CDS_24G_SCC_CH, CDS_SCC_CH_24G],
        [CDS_MAX_PCL_TYPE, CDS_MAX_PCL_TYPE, CDS_MAX_PCL_TYPE]]),
     (CDS_P2P_CLI_5_2x2,
       [[CDS_SCC_CH_24G, CDS_24G_SCC_CH, CDS_SCC_CH_24G], [CDS_SCC_CH_24G, CDS_24G_SCC_CH, CDS_SCC_CH_24G],
        [CDS_SCC_CH_24G, CDS_24G_SCC_CH, CDS_SCC_CH_24G], [CDS_SCC_CH_24G, CDS_24G_SCC_CH, CDS_SCC_CH_24G],
        [CDS_MAX_PCL_TYPE, CDS_MAX_PCL_TYPE, CDS_MAX_PCL_TYPE]]),
     (CDS_P2P_GO_24_1x1,
       [[CDS_5G_SCC_CH, CDS_5G_SCC_CH, CDS_5G_SCC_CH], [CDS_5G_SCC_CH, CDS_5G_SCC_CH, CDS_5G_SCC_CH],
        [CDS_5G_SCC_CH, CDS_5G_SCC_CH, CDS_5G_SCC_CH], [CDS_5G, CDS_5G, CDS_5G], [CDS_MAX_PCL_TYPE, CDS_MAX_PCL_TYPE, CDS_MAX_PCL_TYPE]]),
     (CDS_P2P_GO_24_2x2,
       [[CDS_5G_SCC_CH, CDS_5G_SCC_CH, CDS_5G_SCC_CH], [CDS_5G_SCC_CH, CDS_5G_SCC_CH, CDS_5G_SCC_CH],
        [CDS_5G_SCC_CH, CDS_5G_SCC_CH, CDS_5G_SCC_CH], [CDS_5G, CDS_5G, CDS_5G], [CDS_MAX_PCL_TYPE, CDS_MAX_PCL_TYPE, CDS_MAX_PCL_TYPE]]),
     (CDS_P2P_GO_5_1x1,
       [[CDS_SCC_CH_24G, CDS_SCC_CH_24G, CDS_SCC_CH_24G], [CDS_SCC_CH_24G, CDS_SCC_CH_24G, CDS_SCC_CH_24G],
        [CDS_SCC_CH_24G, CDS_24G_SCC_CH, CDS_SCC_CH_24G], [CDS_24G, CDS_24G, CDS_24G],
        [CDS_MAX_PCL_TYPE, CDS_MAX_PCL_TYPE, CDS_MAX_PCL_TYPE]]),
     (CDS_P2P_GO_5_2x2,
       [[CDS_SCC_CH_24G, CDS_SCC_CH_24G, CDS_SCC_CH_24G], [CDS_SCC_CH_24G, CDS_SCC_CH_24G, CDS_SCC_CH_24G],
        [CDS_SCC_CH_24G, CDS_24G_SCC_CH, CDS_SCC_CH_24G], [CDS_24G, CDS_24G, CDS_24G],
        [CDS_MAX_PCL_TYPE, CDS_MAX_PCL_TYPE, CDS_MAX_PCL_TYPE]]),
     (CDS_SAP_24_1x1,
       [[CDS_5G_SCC_CH, CDS_5G_SCC_CH, CDS_5G_SCC_CH], [CDS_5G_SCC_CH, CDS_5G_SCC_CH, CDS_5G_SCC_CH],
        [CDS_5G_SCC_CH, CDS_5G_SCC_CH, CDS_5G_SCC_CH], [CDS_5G_SCC_CH, CDS_5G_SCC_CH, CDS_5G_SCC_CH],
        [CDS_MAX_PCL_TYPE, CDS_MAX_PCL_TYPE, CDS_MAX_PCL_TYPE]]),
     (CDS_SAP_24_2x2,
       [[CDS_5G_SCC_CH, CDS_5G_SCC_CH, CDS_5G_SCC_CH], [CDS_5G_SCC_CH, CDS_5G_SCC_CH, CDS_5G_SCC_CH],
        [CDS_5G_SCC_CH, CDS_5G_SCC_CH, CDS_5G_SCC_CH], [CDS_5G_SCC_CH, CDS_5G_SCC_CH, CDS_5G_SCC_CH],
        [CDS_MAX_PCL_TYPE, CDS_MAX_PCL_TYPE, CDS_MAX_PCL_TYPE]]),
     (CDS_SAP_5_1x1,
       [[CDS_SCC_CH_24G, CDS_SCC_CH_24G, CDS_SCC_CH_24G], [CDS_SCC_CH_24G, CDS_SCC_CH_24G, CDS_SCC_CH_24G],
        [CDS_SCC_CH_24G, CDS_24G_SCC_CH, CDS_SCC_CH_24G], [CDS_SCC_CH_24G, CDS_SCC_CH_24G, CDS_SCC_CH_24G],
        [CDS_MAX_PCL_TYPE, CDS_MAX_PCL_TYPE, CDS_MAX_PCL_TYPE]]),
     (CDS_SAP_5_2x2,
       [[CDS_SCC_CH_24G, CDS_SCC_CH_24G, CDS_SCC_CH_24G], [CDS_SCC_CH_24G, CDS_SCC_CH_24G, CDS_SCC_CH_24G],
        [CDS_SCC_CH_24G, CDS_24G_SCC_CH, CDS_SCC_CH_24G], [CDS_SCC_CH_24G, CDS_SCC_CH_24G, CDS_SCC_CH_24G],
        [CDS_MAX_PCL_TYPE, CDS_MAX_PCL_TYPE, CDS_MAX_PCL_TYPE]]),
     (CDS_IBSS_24_1x1,
       [[CDS_5G_SCC_CH, CDS_5G_SCC_CH, CDS_5G_SCC_CH], [CDS_MAX_PCL_TYPE, CDS_MAX_PCL_TYPE, CDS_MAX_PCL_TYPE],
        [CDS_MAX_PCL_TYPE, CDS_MAX_PCL_TYPE, CDS_MAX_PCL_TYPE], [CDS_MAX_PCL_TYPE, CDS_MAX_PCL_TYPE, CDS_MAX_PCL_TYPE],
        [CDS_MAX_PCL_TYPE, CDS_MAX_PCL_TYPE, CDS_MAX_PCL_TYPE]]),
     (CDS_IBSS_24_2x2,
       [[CDS_5G_SCC_CH, CDS_5G_SCC_CH, CDS_5G_SCC_CH], [CDS_MAX_PCL_TYPE, CDS_MAX_PCL_TYPE, CDS_MAX_PCL_TYPE],
        [CDS_MAX_PCL_TYPE, CDS_MAX_PCL_TYPE, CDS_MAX_PCL_TYPE], [CDS_MAX_PCL_TYPE, CDS_MAX_PCL_TYPE, CDS_MAX_PCL_TYPE],
        [CDS_MAX_PCL_TYPE, CDS_MAX_PCL_TYPE, CDS_MAX_PCL_TYPE]]),
     (CDS_IBSS_5_1x1,
       [[CDS_24G_SCC_CH, CDS_24G_SCC_CH, CDS_24G_SCC_CH], [CDS_MAX_PCL_TYPE, CDS_MAX_PCL_TYPE, CDS_MAX_PCL_TYPE],
        [CDS_MAX_PCL_TYPE, CDS_MAX_PCL_TYPE, CDS_MAX_PCL_TYPE], [CDS_MAX_PCL_TYPE, CDS_MAX_PCL_TYPE, CDS_MAX_PCL_TYPE],
        [CDS_MAX_PCL_TYPE, CDS_MAX_PCL_TYPE, CDS_MAX_PCL_TYPE]]),
     (CDS_IBSS_5_2x2,
       [[CDS_24G_SCC_CH, CDS_24G_SCC_CH, CDS_24G_SCC_CH], [CDS_MAX_PCL_TYPE, CDS_MAX_PCL_TYPE, CDS_MAX_PCL_TYPE],
        [CDS_MAX_PCL_TYPE, CDS_MAX_PCL_TYPE, CDS_MAX_PCL_TYPE], [CDS_MAX_PCL_TYPE, CDS_MAX_PCL_TYPE, CDS_MAX_PCL_TYPE],
        [CDS_MAX_PCL_TYPE, CDS_MAX_PCL_TYPE, CDS_MAX_PCL_TYPE]])]"

definition second_connection_pcl_nodbs_table :: "(cds_one_connection_mode \<times> pcl_row) list" where
  "second_connection_pcl_nodbs_table =
    [(CDS_STA_24_1x1,
       [[CDS_5G, CDS_SCC_CH, CDS_SCC_CH], [CDS_5G, CDS_SCC_CH, CDS_SCC_CH_5G], [CDS_5G, CDS_SCC_CH, CDS_SCC_CH_5G],
        [CDS_5G, CDS_SCC_CH, CDS_SCC_CH_5G], [CDS_MAX_PCL_TYPE, CDS_MAX_PCL_TYPE, CDS_MAX_PCL_TYPE]]),
     (CDS_STA_24_2x2,
       [[CDS_5G, CDS_SCC_CH, CDS_SCC_CH], [CDS_5G, CDS_SCC_CH, CDS_SCC_CH_5G], [CDS_5G, CDS_SCC_CH, CDS_SCC_CH_5G],
        [CDS_5G, CDS_SCC_CH, CDS_SCC_CH_5G], [CDS_MAX_PCL_TYPE, CDS_MAX_PCL_TYPE, CDS_MAX_PCL_TYPE]]),
     (CDS_STA_5_1x1,
       [[CDS_SCC_CH_5G, CDS_SCC_CH, CDS_SCC_CH_5G], [CDS_SCC_CH_5G, CDS_SCC_CH, CDS_SCC_CH], [CDS_SCC_CH_5G, CDS_SCC_CH, CDS_SCC_CH],
        [CDS_SCC_CH_5G, CDS_SCC_CH, CDS_SCC_CH], [CDS_MAX_PCL_TYPE, CDS_MAX_PCL_TYPE, CDS_MAX_PCL_TYPE]]),
     (CDS_STA_5_2x2,
       [[CDS_SCC_CH_5G, CDS_SCC_CH, CDS_SCC_CH_5G], [CDS_SCC_CH_5G, CDS_SCC_CH, CDS_SCC_CH], [CDS_SCC_CH_5G, CDS_SCC_CH, CDS_SCC_CH],
        [CDS_SCC_CH_5G, CDS_SCC_CH, CDS_SCC_CH], [CDS_MAX_PCL_TYPE, CDS_MAX_PCL_TYPE, CDS_MAX_PCL_TYPE]]),
     (CDS_P2P_CLI_24_1x1,
       [[CDS_5G, CDS_SCC_CH, CDS_SCC_CH], [CDS_5G, CDS_SCC_CH, CDS_SCC_CH_5G], [CDS_5G, CDS_SCC_CH, CDS_SCC_CH_5G],
        [CDS_5G, CDS_SCC_CH, CDS_SCC_CH_5G], [CDS_MAX_PCL_TYPE, CDS_MAX_PCL_TYPE, CDS_MAX_PCL_TYPE]]),
     (CDS_P2P_CLI_24_2x2,
       [[CDS_5G, CDS_SCC_CH, CDS_SCC_CH], [CDS_5G, CDS_SCC_CH, CDS_SCC_CH_5G], [CDS_5G, CDS_SCC_CH, CDS_SCC_CH_5G],
        [CDS_5G, CDS_SCC_CH, CDS_SCC_CH_5G], [CDS_MAX_PCL_TYPE, CDS_MAX_PCL_TYPE, CDS_MAX_PCL_TYPE]]),
     (CDS_P2P_CLI_5_1x1,
       [[CDS_SCC_CH_5G, CDS_SCC_CH, CDS_SCC_CH_5G], [CDS_SCC_CH_5G, CDS_SCC_CH, CDS_SCC_CH], [CDS_SCC_CH_5G, CDS_SCC_CH, CDS_SCC_CH],
        [CDS_SCC_CH_5G, CDS_SCC_CH, CDS_SCC_CH], [CDS_MAX_PCL_TYPE, CDS_MAX_PCL_TYPE, CDS_MAX_PCL_TYPE]]),
     (CDS_P2P_CLI_5_2x2,
       [[CDS_SCC_CH_5G, CDS_SCC_CH, CDS_SCC_CH_5G], [CDS_SCC_CH_5G, CDS_SCC_CH, CDS_SCC_CH], [CDS_SCC_CH_5G, CDS_SCC_CH, CDS_SCC_CH],
        [CDS_SCC_CH_5G, CDS_SCC_CH, CDS_SCC_CH], [CDS_MAX_PCL_TYPE, CDS_MAX_PCL_TYPE, CDS_MAX_PCL_TYPE]]),
     (CDS_P2P_GO_24_1x1,
       [[CDS_SCC_CH, CDS_SCC_CH, CDS_SCC_CH], [CDS_SCC_CH, CDS_SCC_CH, CDS_SCC_CH], [CDS_SCC_CH, CDS_SCC_CH, CDS_SCC_CH],
        [CDS_SCC_CH, CDS_SCC_CH, CDS_SCC_CH], [CDS_MAX_PCL_TYPE, CDS_MAX_PCL_TYPE, CDS_MAX_PCL_TYPE]]),
     (CDS_P2P_GO_24_2x2,
       [[CDS_SCC_CH, CDS_SCC_CH, CDS_SCC_CH], [CDS_SCC_CH, CDS_SCC_CH, CDS_SCC_CH], [CDS_SCC_CH, CDS_SCC_CH, CDS_SCC_CH],
        [CDS_SCC_CH, CDS_SCC_CH, CDS_SCC_CH], [CDS_MAX_PCL_TYPE, CDS_MAX_PCL_TYPE, CDS_MAX_PCL_TYPE]]),
     (CDS_P2P_GO_5_1x1,
       [[CDS_SCC_CH_5G, CDS_SCC_CH, CDS_SCC_CH], [CDS_SCC_CH, CDS_SCC_CH, CDS_SCC_CH], [CDS_SCC_CH, CDS_SCC_CH, CDS_SCC_CH],
        [CDS_SCC_CH, CDS_SCC_CH, CDS_SCC_CH], [CDS_MAX_PCL_TYPE, CDS_MAX_PCL_TYPE, CDS_MAX_PCL_TYPE]]),
     (CDS_P2P_GO_5_2x2,
       [[CDS_SCC_CH_5G, CDS_SCC_CH, CDS_SCC_CH], [CDS_SCC_CH, CDS_SCC_CH, CDS_SCC_CH], [CDS_SCC_CH, CDS_SCC_CH, CDS_SCC_CH],
        [CDS_SCC_CH, CDS_SCC_CH, CDS_SCC_CH], [CDS_MAX_PCL_TYPE, CDS_MAX_PCL_TYPE, CDS_MAX_PCL_TYPE]]),
     (CDS_SAP_24_1x1,
       [[CDS_SCC_CH, CDS_SCC_CH, CDS_SCC_CH], [CDS_SCC_CH, CDS_SCC_CH, CDS_SCC_CH], [CDS_SCC_CH, CDS_SCC_CH, CDS_SCC_CH],
        [CDS_SCC_CH, CDS_SCC_CH, CDS_SCC_CH], [CDS_MAX_PCL_TYPE, CDS_MAX_PCL_TYPE, CDS_MAX_PCL_TYPE]]),
     (CDS_SAP_24_2x2,
       [[CDS_SCC_CH, CDS_SCC_CH, CDS_SCC_CH], [CDS_SCC_CH, CDS_SCC_CH, CDS_SCC_CH], [CDS_SCC_CH, CDS_SCC_CH, CDS_SCC_CH],
        [CDS_SCC_CH, CDS_SCC_CH, CDS_SCC_CH], [CDS_MAX_PCL_TYPE, CDS_MAX_PCL_TYPE, CDS_MAX_PCL_TYPE]]),
     (CDS_SAP_5_1x1,
       [[CDS_SCC_CH_5G, CDS_SCC_CH, CDS_SCC_CH], [CDS_SCC_CH, CDS_SCC_CH, CDS_SCC_CH], [CDS_SCC_CH, CDS_SCC_CH, CDS_SCC_CH],
        [CDS_SCC_CH, CDS_SCC_CH, CDS_SCC_CH], [CDS_MAX_PCL_TYPE, CDS_MAX_PCL_TYPE, CDS_MAX_PCL_TYPE]]),
     (CDS_SAP_5_2x2,
       [[CDS_SCC_CH_5G, CDS_SCC_CH, CDS_SCC_CH], [CDS_SCC_CH, CDS_SCC_CH, CDS_SCC_CH], [CDS_SCC_CH, CDS_SCC_CH, CDS_SCC_CH],
        [CDS_SCC_CH, CDS_SCC_CH, CDS_SCC_CH], [CDS_MAX_PCL_TYPE, CDS_MAX_PCL_TYPE, CDS_MAX_PCL_TYPE]]),
     (CDS_IBSS_24_1x1,
       [[CDS_MAX_PCL_TYPE, CDS_MAX_PCL_TYPE, CDS_MAX_PCL_TYPE], [CDS_MAX_PCL_TYPE, CDS_MAX_PCL_TYPE, CDS_MAX_PCL_TYPE],
        [CDS_MAX_PCL_TYPE, CDS_MAX_PCL_TYPE, CDS_MAX_PCL_TYPE], [CDS_MAX_PCL_TYPE, CDS_MAX_PCL_TYPE, CDS_MAX_PCL_TYPE],
        [CDS_MAX_PCL_TYPE, CDS_MAX_PCL_TYPE, CDS_MAX_PCL_TYPE]]),
     (CDS_IBSS_24_2x2,
       [[CDS_MAX_PCL_TYPE, CDS_MAX_PCL_TYPE, CDS_MAX_PCL_TYPE], [CDS_MAX_PCL_TYPE, CDS_MAX_PCL_TYPE, CDS_MAX_PCL_TYPE],
        [CDS_MAX_PCL_TYPE, CDS_MAX_PCL_TYPE, CDS_MAX_PCL_TYPE], [CDS_MAX_PCL_TYPE, CDS_MAX_PCL_TYPE, CDS_MAX_PCL_TYPE],
        [CDS_MAX_PCL_TYPE, CDS_MAX_PCL_TYPE, CDS_MAX_PCL_TYPE]]),
     (CDS_IBSS_5_1x1,
       [[CDS_MAX_PCL_TYPE, CDS_MAX_PCL_TYPE, CDS_MAX_PCL_TYPE], [CDS_MAX_PCL_TYPE, CDS_MAX_PCL_TYPE, CDS_MAX_PCL_TYPE],
        [CDS_MAX_PCL_TYPE, CDS_MAX_PCL_TYPE, CDS_MAX_PCL_TYPE], [CDS_MAX_PCL_TYPE, CDS_MAX_PCL_TYPE, CDS_MAX_PCL_TYPE],
        [CDS_MAX_PCL_TYPE, CDS_MAX_PCL_TYPE, CDS_MAX_PCL_TYPE]]),
     (CDS_IBSS_5_2x2,
       [[CDS_MAX_PCL_TYPE, CDS_MAX_PCL_TYPE, CDS_MAX_PCL_TYPE], [CDS_MAX_PCL_TYPE, CDS_MAX_PCL_TYPE, CDS_MAX_PCL_TYPE],
        [CDS_MAX_PCL_TYPE, CDS_MAX_PCL_TYPE, CDS_MAX_PCL_TYPE], [CDS_MAX_PCL_TYPE, CDS_MAX_PCL_TYPE, CDS_MAX_PCL_TYPE],
        [CDS_MAX_PCL_TYPE, CDS_MAX_PCL_TYPE, CDS_MAX_PCL_TYPE]])]"

section \<open>The third connection\<close>

definition third_dbs_sta_sap :: "(cds_two_connection_mode \<times> pcl_row) list" where
  "third_dbs_sta_sap =
    [(CDS_STA_SAP_SCC_24_1x1,
       [[CDS_5G_SCC_CH, CDS_5G_SCC_CH, CDS_5G_SCC_CH], [CDS_5G_SCC_CH, CDS_5G_SCC_CH, CDS_5G_SCC_CH],
        [CDS_MAX_PCL_TYPE, CDS_MAX_PCL_TYPE, CDS_MAX_PCL_TYPE], [CDS_MAX_PCL_TYPE, CDS_MAX_PCL_TYPE, CDS_MAX_PCL_TYPE],
        [CDS_MAX_PCL_TYPE, CDS_MAX_PCL_TYPE, CDS_MAX_PCL_TYPE]]),
     (CDS_STA_SAP_SCC_24_2x2,
       [[CDS_5G_SCC_CH, CDS_5G_SCC_CH, CDS_5G_SCC_CH], [CDS_5G_SCC_CH, CDS_5G_SCC_CH, CDS_5G_SCC_CH],
        [CDS_MAX_PCL_TYPE, CDS_MAX_PCL_TYPE, CDS_MAX_PCL_TYPE], [CDS_MAX_PCL_TYPE, CDS_MAX_PCL_TYPE, CDS_MAX_PCL_TYPE],
        [CDS_MAX_PCL_TYPE, CDS_MAX_PCL_TYPE, CDS_MAX_PCL_TYPE]]),
     (CDS_STA_SAP_MCC_24_1x1,
       [[CDS_5G_MCC_CH, CDS_5G, CDS_5G_MCC_CH], [CDS_5G_MCC_CH, CDS_5G, CDS_5G_MCC_CH],
        [CDS_MAX_PCL_TYPE, CDS_MAX_PCL_TYPE, CDS_MAX_PCL_TYPE], [CDS_MAX_PCL_TYPE, CDS_MAX_PCL_TYPE, CDS_MAX_PCL_TYPE],
        [CDS_MAX_PCL_TYPE, CDS_MAX_PCL_TYPE, CDS_MAX_PCL_TYPE]]),
     (CDS_STA_SAP_MCC_24_2x2,
       [[CDS_5G_MCC_CH, CDS_5G, CDS_5G_MCC_CH], [CDS_5G_MCC_CH, CDS_5G, CDS_5G_MCC_CH],
        [CDS_MAX_PCL_TYPE, CDS_MAX_PCL_TYPE, CDS_MAX_PCL_TYPE], [CDS_MAX_PCL_TYPE, CDS_MAX_PCL_TYPE, CDS_MAX_PCL_TYPE],
        [CDS_MAX_PCL_TYPE, CDS_MAX_PCL_TYPE, CDS_MAX_PCL_TYPE]]),
     (CDS_STA_SAP_SCC_5_1x1,
       [[CDS_SCC_CH_24G, CDS_24G_SCC_CH, CDS_SCC_CH_24G], [CDS_SCC_CH_24G, CDS_24G_SCC_CH, CDS_SCC_CH_24G],
        [CDS_MAX_PCL_TYPE, CDS_MAX_PCL_TYPE, CDS_MAX_PCL_TYPE], [CDS_MAX_PCL_TYPE, CDS_MAX_PCL_TYPE, CDS_MAX_PCL_TYPE],
        [CDS_MAX_PCL_TYPE, CDS_MAX_PCL_TYPE, CDS_MAX_PCL_TYPE]]),
     (CDS_STA_SAP_SCC_5_2x2,
       [[CDS_SCC_CH_24G, CDS_24G_SCC_CH, CDS_SCC_CH_24G], [CDS_SCC_CH_24G, CDS_24G_SCC_CH, CDS_SCC_CH_24G],
        [CDS_MAX_PCL_TYPE, CDS_MAX_PCL_TYPE, CDS_MAX_PCL_TYPE], [CDS_MAX_PCL_TYPE, CDS_MAX_PCL_TYPE, CDS_MAX_PCL_TYPE],
        [CDS_MAX_PCL_TYPE, CDS_MAX_PCL_TYPE, CDS_MAX_PCL_TYPE]]),
     (CDS_STA_SAP_MCC_5_1x1,
       [[CDS_MCC_CH_24G, CDS_24G, CDS_24G], [CDS_24G, CDS_24G, CDS_24G], [CDS_MAX_PCL_TYPE, CDS_MAX_PCL_TYPE, CDS_MAX_PCL_TYPE],
        [CDS_MAX_PCL_TYPE, CDS_MAX_PCL_TYPE, CDS_MAX_PCL_TYPE], [CDS_MAX_PCL_TYPE, CDS_MAX_PCL_TYPE, CDS_MAX_PCL_TYPE]]),
     (CDS_STA_SAP_MCC_5_2x2,
       [[CDS_MCC_CH_24G, CDS_24G, CDS_24G], [CDS_24G, CDS_24G, CDS_24G], [CDS_MAX_PCL_TYPE, CDS_MAX_PCL_TYPE, CDS_MAX_PCL_TYPE],
        [CDS_MAX_PCL_TYPE, CDS_MAX_PCL_TYPE, CDS_MAX_PCL_TYPE], [CDS_MAX_PCL_TYPE, CDS_MAX_PCL_TYPE, CDS_MAX_PCL_TYPE]]),
     (CDS_STA_SAP_MCC_24_5_1x1,
       [[CDS_MCC_CH_5G, CDS_5G, CDS_5G], [CDS_24G, CDS_24G, CDS_24G], [CDS_MAX_PCL_TYPE, CDS_MAX_PCL_TYPE, CDS_MAX_PCL_TYPE],
        [CDS_MAX_PCL_TYPE, CDS_MAX_PCL_TYPE, CDS_MAX_PCL_TYPE], [CDS_MAX_PCL_TYPE, CDS_MAX_PCL_TYPE, CDS_MAX_PCL_TYPE]]),
     (CDS_STA_SAP_MCC_24_5_2x2,
       [[CDS_MCC_CH_5G, CDS_5G, CDS_5G], [CDS_24G, CDS_24G, CDS_24G], [CDS_MAX_PCL_TYPE, CDS_MAX_PCL_TYPE, CDS_MAX_PCL_TYPE],
        [CDS_MAX_PCL_TYPE, CDS_MAX_PCL_TYPE, CDS_MAX_PCL_TYPE], [CDS_MAX_PCL_TYPE, CDS_MAX_PCL_TYPE, CDS_MAX_PCL_TYPE]]),
     (CDS_STA_SAP_DBS_1x1,
       [[CDS_SCC_ON_5_SCC_ON_24_5G, CDS_NONE, CDS_SCC_ON_5_SCC_ON_24], [CDS_SCC_ON_5_SCC_ON_24_5G, CDS_NONE, CDS_SCC_ON_5_SCC_ON_24],
        [CDS_MAX_PCL_TYPE, CDS_MAX_PCL_TYPE, CDS_MAX_PCL_TYPE], [CDS_MAX_PCL_TYPE, CDS_MAX_PCL_TYPE, CDS_MAX_PCL_TYPE],
        [CDS_MAX_PCL_TYPE, CDS_MAX_PCL_TYPE, CDS_MAX_PCL_TYPE]])]"

definition third_dbs_sta_go :: "(cds_two_connection_mode \<times> pcl_row) list" where
  "third_dbs_sta_go =
    [(CDS_STA_P2P_GO_SCC_24_1x1,
       [[CDS_5G_SCC_CH, CDS_5G_SCC_CH, CDS_5G_SCC_CH], [CDS_MAX_PCL_TYPE, CDS_MAX_PCL_TYPE, CDS_MAX_PCL_TYPE],
        [CDS_5G_SCC_CH, CDS_5G_SCC_CH, CDS_5G_SCC_CH], [CDS_5G_SCC_CH, CDS_5G_SCC_CH, CDS_5G_SCC_CH],
        [CDS_MAX_PCL_TYPE, CDS_MAX_PCL_TYPE, CDS_MAX_PCL_TYPE]]),
     (CDS_STA_P2P_GO_SCC_24_2x2,
       [[CDS_5G_SCC_CH, CDS_5G_SCC_CH, CDS_5G_SCC_CH], [CDS_MAX_PCL_TYPE, CDS_MAX_PCL_TYPE, CDS_MAX_PCL_TYPE],
        [CDS_5G_SCC_CH, CDS_5G_SCC_CH, CDS_5G_SCC_CH], [CDS_5G_SCC_CH, CDS_5G_SCC_CH, CDS_5G_SCC_CH],
        [CDS_MAX_PCL_TYPE, CDS_MAX_PCL_TYPE, CDS_MAX_PCL_TYPE]]),
     (CDS_STA_P2P_GO_MCC_24_1x1,
       [[CDS_5G_MCC_CH, CDS_5G, CDS_5G_MCC_CH], [CDS_MAX_PCL_TYPE, CDS_MAX_PCL_TYPE, CDS_MAX_PCL_TYPE],
        [CDS_5G_MCC_CH, CDS_5G, CDS_5G_MCC_CH], [CDS_5G_MCC_CH, CDS_5G, CDS_5G_MCC_CH],
        [CDS_MAX_PCL_TYPE, CDS_MAX_PCL_TYPE, CDS_MAX_PCL_TYPE]]),
     (CDS_STA_P2P_GO_MCC_24_2x2,
       [[CDS_5G_MCC_CH, CDS_5G, CDS_5G_MCC_CH], [CDS_MAX_PCL_TYPE, CDS_MAX_PCL_TYPE, CDS_MAX_PCL_TYPE],
        [CDS_5G_MCC_CH, CDS_5G, CDS_5G_MCC_CH], [CDS_5G_MCC_CH, CDS_5G, CDS_5G_MCC_CH],
        [CDS_MAX_PCL_TYPE, CDS_MAX_PCL_TYPE, CDS_MAX_PCL_TYPE]]),
     (CDS_STA_P2P_GO_SCC_5_1x1,
       [[CDS_SCC_CH_24G, CDS_24G_SCC_CH, CDS_SCC_CH_24G], [CDS_MAX_PCL_TYPE, CDS_MAX_PCL_TYPE, CDS_MAX_PCL_TYPE],
        [CDS_SCC_CH_24G, CDS_24G_SCC_CH, CDS_SCC_CH_24G], [CDS_SCC_CH_24G, CDS_24G_SCC_CH, CDS_SCC_CH_24G],
        [CDS_MAX_PCL_TYPE, CDS_MAX_PCL_TYPE, CDS_MAX_PCL_TYPE]]),
     (CDS_STA_P2P_GO_SCC_5_2x2,
       [[CDS_SCC_CH_24G, CDS_24G_SCC_CH, CDS_SCC_CH_24G], [CDS_MAX_PCL_TYPE, CDS_MAX_PCL_TYPE, CDS_MAX_PCL_TYPE],
        [CDS_SCC_CH_24G, CDS_24G_SCC_CH, CDS_SCC_CH_24G], [CDS_SCC_CH_24G, CDS_24G_SCC_CH, CDS_SCC_CH_24G],
        [CDS_MAX_PCL_TYPE, CDS_MAX_PCL_TYPE, CDS_MAX_PCL_TYPE]]),
     (CDS_STA_P2P_GO_MCC_5_1x1,
       [[CDS_MCC_CH_24G, CDS_24G, CDS_24G], [CDS_MAX_PCL_TYPE, CDS_MAX_PCL_TYPE, CDS_MAX_PCL_TYPE], [CDS_MCC_CH_24G, CDS_24G, CDS_24G],
        [CDS_MCC_CH_24G, CDS_24G, CDS_24G], [CDS_MAX_PCL_TYPE, CDS_MAX_PCL_TYPE, CDS_MAX_PCL_TYPE]]),
     (CDS_STA_P2P_GO_MCC_5_2x2,
       [[CDS_MCC_CH_24G, CDS_24G, CDS_24G], [CDS_MAX_PCL_TYPE, CDS_MAX_PCL_TYPE, CDS_MAX_PCL_TYPE], [CDS_MCC_CH_24G, CDS_24G, CDS_24G],
        [CDS_MCC_CH_24G, CDS_24G, CDS_24G], [CDS_MAX_PCL_TYPE, CDS_MAX_PCL_TYPE, CDS_MAX_PCL_TYPE]]),
     (CDS_STA_P2P_GO_MCC_24_5_1x1,
       [[CDS_MCC_CH_5G, CDS_5G, CDS_5G], [CDS_MAX_PCL_TYPE, CDS_MAX_PCL_TYPE, CDS_MAX_PCL_TYPE], [CDS_MCC_CH_24G, CDS_24G, CDS_24G],
        [CDS_MCC_CH_24G, CDS_24G, CDS_24G], [CDS_MAX_PCL_TYPE, CDS_MAX_PCL_TYPE, CDS_MAX_PCL_TYPE]]),
     (CDS_STA_P2P_GO_MCC_24_5_2x2,
       [[CDS_MCC_CH_5G, CDS_5G, CDS_5G], [CDS_MAX_PCL_TYPE, CDS_MAX_PCL_TYPE, CDS_MAX_PCL_TYPE], [CDS_MCC_CH_24G, CDS_24G, CDS_24G],
        [CDS_MCC_CH_24G, CDS_24G, CDS_24G], [CDS_MAX_PCL_TYPE, CDS_MAX_PCL_TYPE, CDS_MAX_PCL_TYPE]]),
     (CDS_STA_P2P_GO_DBS_1x1,
       [[CDS_SCC_ON_5_SCC_ON_24_5G, CDS_NONE, CDS_SCC_ON_5_SCC_ON_24], [CDS_MAX_PCL_TYPE, CDS_MAX_PCL_TYPE, CDS_MAX_PCL_TYPE],
        [CDS_SCC_ON_5_SCC_ON_24_5G, CDS_NONE, CDS_SCC_ON_5_SCC_ON_24], [CDS_SCC_ON_5_SCC_ON_24_5G, CDS_NONE, CDS_SCC_ON_5_SCC_ON_24],
        [CDS_MAX_PCL_TYPE, CDS_MAX_PCL_TYPE, CDS_MAX_PCL_TYPE]])]"

definition third_dbs_sta_cli :: "(cds_two_connection_mode \<times> pcl_row) list" where
  "third_dbs_sta_cli =
    [(CDS_STA_P2P_CLI_SCC_24_1x1,
       [[CDS_MAX_PCL_TYPE, CDS_MAX_PCL_TYPE, CDS_MAX_PCL_TYPE], [CDS_MAX_PCL_TYPE, CDS_MAX_PCL_TYPE, CDS_MAX_PCL_TYPE],
        [CDS_5G_SCC_CH, CDS_5G_SCC_CH, CDS_5G_SCC_CH], [CDS_5G_SCC_CH, CDS_5G_SCC_CH, CDS_5G_SCC_CH],
        [CDS_MAX_PCL_TYPE, CDS_MAX_PCL_TYPE, CDS_MAX_PCL_TYPE]]),
     (CDS_STA_P2P_CLI_SCC_24_2x2,
       [[CDS_MAX_PCL_TYPE, CDS_MAX_PCL_TYPE, CDS_MAX_PCL_TYPE], [CDS_MAX_PCL_TYPE, CDS_MAX_PCL_TYPE, CDS_MAX_PCL_TYPE],
        [CDS_5G_SCC_CH, CDS_5G_SCC_CH, CDS_5G_SCC_CH], [CDS_5G_SCC_CH, CDS_5G_SCC_CH, CDS_5G_SCC_CH],
        [CDS_MAX_PCL_TYPE, CDS_MAX_PCL_TYPE, CDS_MAX_PCL_TYPE]]),
     (CDS_STA_P2P_CLI_MCC_24_1x1,
       [[CDS_MAX_PCL_TYPE, CDS_MAX_PCL_TYPE, CDS_MAX_PCL_TYPE], [CDS_MAX_PCL_TYPE, CDS_MAX_PCL_TYPE, CDS_MAX_PCL_TYPE],
        [CDS_5G_MCC_CH, CDS_5G, CDS_5G_MCC_CH], [CDS_5G_MCC_CH, CDS_5G, CDS_5G_MCC_CH],
        [CDS_MAX_PCL_TYPE, CDS_MAX_PCL_TYPE, CDS_MAX_PCL_TYPE]]),
     (CDS_STA_P2P_CLI_MCC_24_2x2,
       [[CDS_MAX_PCL_TYPE, CDS_MAX_PCL_TYPE, CDS_MAX_PCL_TYPE], [CDS_MAX_PCL_TYPE, CDS_MAX_PCL_TYPE, CDS_MAX_PCL_TYPE],
        [CDS_5G_MCC_CH, CDS_5G, CDS_5G_MCC_CH], [CDS_5G_MCC_CH, CDS_5G, CDS_5G_MCC_CH],
        [CDS_MAX_PCL_TYPE, CDS_MAX_PCL_TYPE, CDS_MAX_PCL_TYPE]]),
     (CDS_STA_P2P_CLI_SCC_5_1x1,
       [[CDS_MAX_PCL_TYPE, CDS_MAX_PCL_TYPE, CDS_MAX_PCL_TYPE], [CDS_MAX_PCL_TYPE, CDS_MAX_PCL_TYPE, CDS_MAX_PCL_TYPE],
        [CDS_SCC_CH_24G, CDS_24G_SCC_CH, CDS_SCC_CH_24G], [CDS_SCC_CH_24G, CDS_24G_SCC_CH, CDS_SCC_CH_24G],
        [CDS_MAX_PCL_TYPE, CDS_MAX_PCL_TYPE, CDS_MAX_PCL_TYPE]]),
     (CDS_STA_P2P_CLI_SCC_5_2x2,
       [[CDS_MAX_PCL_TYPE, CDS_MAX_PCL_TYPE, CDS_MAX_PCL_TYPE], [CDS_MAX_PCL_TYPE, CDS_MAX_PCL_TYPE, CDS_MAX_PCL_TYPE],
        [CDS_SCC_CH_24G, CDS_24G_SCC_CH, CDS_SCC_CH_24G], [CDS_SCC_CH_24G, CDS_24G_SCC_CH, CDS_SCC_CH_24G],
        [CDS_MAX_PCL_TYPE, CDS_MAX_PCL_TYPE, CDS_MAX_PCL_TYPE]]),
     (CDS_STA_P2P_CLI_MCC_5_1x1,
       [[CDS_MAX_PCL_TYPE, CDS_MAX_PCL_TYPE, CDS_MAX_PCL_TYPE], [CDS_MAX_PCL_TYPE, CDS_MAX_PCL_TYPE, CDS_MAX_PCL_TYPE],
        [CDS_MCC_CH_24G, CDS_24G, CDS_MCC_CH_24G], [CDS_MCC_CH_24G, CDS_24G, CDS_MCC_CH_24G],
        [CDS_MAX_PCL_TYPE, CDS_MAX_PCL_TYPE, CDS_MAX_PCL_TYPE]]),
     (CDS_STA_P2P_CLI_MCC_5_2x2,
       [[CDS_MAX_PCL_TYPE, CDS_MAX_PCL_TYPE, CDS_MAX_PCL_TYPE], [CDS_MAX_PCL_TYPE, CDS_MAX_PCL_TYPE, CDS_MAX_PCL_TYPE],
        [CDS_MCC_CH_24G, CDS_24G, CDS_MCC_CH_24G], [CDS_MCC_CH_24G, CDS_24G, CDS_MCC_CH_24G], [CDS_NONE, CDS_NONE, CDS_NONE]]),
     (CDS_STA_P2P_CLI_MCC_24_5_1x1,
       [[CDS_MAX_PCL_TYPE, CDS_MAX_PCL_TYPE, CDS_MAX_PCL_TYPE], [CDS_MAX_PCL_TYPE, CDS_MAX_PCL_TYPE, CDS_MAX_PCL_TYPE],
        [CDS_MCC_CH_24G, CDS_24G, CDS_MCC_CH_24G], [CDS_MCC_CH_24G, CDS_24G, CDS_MCC_CH_24G],
        [CDS_MAX_PCL_TYPE, CDS_MAX_PCL_TYPE, CDS_MAX_PCL_TYPE]]),
     (CDS_STA_P2P_CLI_MCC_24_5_2x2,
       [[CDS_MAX_PCL_TYPE, CDS_MAX_PCL_TYPE, CDS_MAX_PCL_TYPE], [CDS_MAX_PCL_TYPE, CDS_MAX_PCL_TYPE, CDS_MAX_PCL_TYPE],
        [CDS_MCC_CH_24G, CDS_24G, CDS_MCC_CH_24G], [CDS_MCC_CH_24G, CDS_24G, CDS_MCC_CH_24G],
        [CDS_MAX_PCL_TYPE, CDS_MAX_PCL_TYPE, CDS_MAX_PCL_TYPE]]),
     (CDS_STA_P2P_CLI_DBS_1x1,
       [[CDS_MAX_PCL_TYPE, CDS_MAX_PCL_TYPE, CDS_MAX_PCL_TYPE], [CDS_MAX_PCL_TYPE, CDS_MAX_PCL_TYPE, CDS_MAX_PCL_TYPE],
        [CDS_SCC_ON_5_SCC_ON_24_5G, CDS_NONE, CDS_SCC_ON_5_SCC_ON_24], [CDS_SCC_ON_5_SCC_ON_24_5G, CDS_NONE, CDS_SCC_ON_5_SCC_ON_24],
        [CDS_MAX_PCL_TYPE, CDS_MAX_PCL_TYPE, CDS_MAX_PCL_TYPE]])]"

definition third_dbs_go_cli :: "(cds_two_connection_mode \<times> pcl_row) list" where
  "third_dbs_go_cli =
    [(CDS_P2P_GO_P2P_CLI_SCC_24_1x1,
       [[CDS_5G_SCC_CH, CDS_5G_SCC_CH, CDS_5G_SCC_CH], [CDS_5G_SCC_CH, CDS_5G_SCC_CH, CDS_5G_SCC_CH],
        [CDS_5G_SCC_CH, CDS_5G_SCC_CH, CDS_5G_SCC_CH], [CDS_5G_SCC_CH, CDS_5G_SCC_CH, CDS_5G_SCC_CH],
        [CDS_MAX_PCL_TYPE, CDS_MAX_PCL_TYPE, CDS_MAX_PCL_TYPE]]),
     (CDS_P2P_GO_P2P_CLI_SCC_24_2x2,
       [[CDS_5G_SCC_CH, CDS_5G_SCC_CH, CDS_5G_SCC_CH], [CDS_5G_SCC_CH, CDS_5G_SCC_CH, CDS_5G_SCC_CH],
        [CDS_5G_SCC_CH, CDS_5G_SCC_CH, CDS_5G_SCC_CH], [CDS_5G_SCC_CH, CDS_5G_SCC_CH, CDS_5G_SCC_CH],
        [CDS_MAX_PCL_TYPE, CDS_MAX_PCL_TYPE, CDS_MAX_PCL_TYPE]]),
     (CDS_P2P_GO_P2P_CLI_MCC_24_1x1,
       [[CDS_5G_MCC_CH, CDS_5G, CDS_5G_MCC_CH], [CDS_5G_MCC_CH, CDS_5G, CDS_5G_MCC_CH], [CDS_5G_MCC_CH, CDS_5G, CDS_5G_MCC_CH],
        [CDS_5G_MCC_CH, CDS_5G, CDS_5G_MCC_CH], [CDS_MAX_PCL_TYPE, CDS_MAX_PCL_TYPE, CDS_MAX_PCL_TYPE]]),
     (CDS_P2P_GO_P2P_CLI_MCC_24_2x2,
       [[CDS_5G_MCC_CH, CDS_5G, CDS_5G_MCC_CH], [CDS_5G_MCC_CH, CDS_5G, CDS_5G_MCC_CH], [CDS_5G_MCC_CH, CDS_5G, CDS_5G_MCC_CH],
        [CDS_5G_MCC_CH, CDS_5G, CDS_5G_MCC_CH], [CDS_MAX_PCL_TYPE, CDS_MAX_PCL_TYPE, CDS_MAX_PCL_TYPE]]),
     (CDS_P2P_GO_P2P_CLI_SCC_5_1x1,
       [[CDS_SCC_CH_24G, CDS_24G_SCC_CH, CDS_SCC_CH_24G], [CDS_SCC_CH_24G, CDS_24G_SCC_CH, CDS_SCC_CH_24G],
        [CDS_SCC_CH_24G, CDS_24G_SCC_CH, CDS_SCC_CH_24G], [CDS_SCC_CH_24G, CDS_24G_SCC_CH, CDS_SCC_CH_24G],
        [CDS_MAX_PCL_TYPE, CDS_MAX_PCL_TYPE, CDS_MAX_PCL_TYPE]]),
     (CDS_P2P_GO_P2P_CLI_SCC_5_2x2,
       [[CDS_SCC_CH_24G, CDS_24G_SCC_CH, CDS_SCC_CH_24G], [CDS_SCC_CH_24G, CDS_24G_SCC_CH, CDS_SCC_CH_24G],
        [CDS_SCC_CH_24G, CDS_24G_SCC_CH, CDS_SCC_CH_24G], [CDS_SCC_CH_24G, CDS_24G_SCC_CH, CDS_SCC_CH_24G],
        [CDS_MAX_PCL_TYPE, CDS_MAX_PCL_TYPE, CDS_MAX_PCL_TYPE]]),
     (CDS_P2P_GO_P2P_CLI_MCC_5_1x1,
       [[CDS_MCC_CH_24G, CDS_24G, CDS_24G], [CDS_24G, CDS_24G, CDS_24G], [CDS_MCC_CH_24G, CDS_24G, CDS_24G],
        [CDS_MCC_CH_24G, CDS_24G, CDS_24G], [CDS_MAX_PCL_TYPE, CDS_MAX_PCL_TYPE, CDS_MAX_PCL_TYPE]]),
     (CDS_P2P_GO_P2P_CLI_MCC_5_2x2,
       [[CDS_MCC_CH_24G, CDS_24G, CDS_24G], [CDS_24G, CDS_24G, CDS_24G], [CDS_MCC_CH_24G, CDS_24G, CDS_24G],
        [CDS_MCC_CH_24G, CDS_24G, CDS_24G], [CDS_MAX_PCL_TYPE, CDS_MAX_PCL_TYPE, CDS_MAX_PCL_TYPE]]),
     (CDS_P2P_GO_P2P_CLI_MCC_24_5_1x1,
       [[CDS_MCC_CH_5G, CDS_5G, CDS_5G], [CDS_24G, CDS_24G, CDS_24G], [CDS_MCC_CH_24G, CDS_24G, CDS_24G],
        [CDS_MCC_CH_24G, CDS_24G, CDS_24G], [CDS_MAX_PCL_TYPE, CDS_MAX_PCL_TYPE, CDS_MAX_PCL_TYPE]]),
     (CDS_P2P_GO_P2P_CLI_MCC_24_5_2x2,
       [[CDS_MCC_CH_5G, CDS_5G, CDS_5G], [CDS_24G, CDS_24G, CDS_24G], [CDS_MCC_CH_24G, CDS_24G, CDS_24G],
        [CDS_MCC_CH_24G, CDS_24G, CDS_24G], [CDS_MAX_PCL_TYPE, CDS_MAX_PCL_TYPE, CDS_MAX_PCL_TYPE]]),
     (CDS_P2P_GO_P2P_CLI_DBS_1x1,
       [[CDS_SCC_ON_5_SCC_ON_24_5G, CDS_NONE, CDS_SCC_ON_5_SCC_ON_24], [CDS_SCC_ON_5_SCC_ON_24_5G, CDS_NONE, CDS_SCC_ON_5_SCC_ON_24],
        [CDS_SCC_ON_5_SCC_ON_24_5G, CDS_NONE, CDS_SCC_ON_5_SCC_ON_24], [CDS_SCC_ON_5_SCC_ON_24_5G, CDS_NONE, CDS_SCC_ON_5_SCC_ON_24],
        [CDS_MAX_PCL_TYPE, CDS_MAX_PCL_TYPE, CDS_MAX_PCL_TYPE]])]"

definition third_dbs_go_sap :: "(cds_two_connection_mode \<times> pcl_row) list" where
  "third_dbs_go_sap =
    [(CDS_P2P_GO_SAP_SCC_24_1x1,
       [[CDS_MAX_PCL_TYPE, CDS_MAX_PCL_TYPE, CDS_MAX_PCL_TYPE], [CDS_MAX_PCL_TYPE, CDS_MAX_PCL_TYPE, CDS_MAX_PCL_TYPE],
        [CDS_MAX_PCL_TYPE, CDS_MAX_PCL_TYPE, CDS_MAX_PCL_TYPE], [CDS_MAX_PCL_TYPE, CDS_MAX_PCL_TYPE, CDS_MAX_PCL_TYPE],
        [CDS_MAX_PCL_TYPE, CDS_MAX_PCL_TYPE, CDS_MAX_PCL_TYPE]]),
     (CDS_P2P_GO_SAP_SCC_24_2x2,
       [[CDS_MAX_PCL_TYPE, CDS_MAX_PCL_TYPE, CDS_MAX_PCL_TYPE], [CDS_MAX_PCL_TYPE, CDS_MAX_PCL_TYPE, CDS_MAX_PCL_TYPE],
        [CDS_MAX_PCL_TYPE, CDS_MAX_PCL_TYPE, CDS_MAX_PCL_TYPE], [CDS_MAX_PCL_TYPE, CDS_MAX_PCL_TYPE, CDS_MAX_PCL_TYPE],
        [CDS_MAX_PCL_TYPE, CDS_MAX_PCL_TYPE, CDS_MAX_PCL_TYPE]]),
     (CDS_P2P_GO_SAP_MCC_24_1x1,
       [[CDS_MAX_PCL_TYPE, CDS_MAX_PCL_TYPE, CDS_MAX_PCL_TYPE], [CDS_MAX_PCL_TYPE, CDS_MAX_PCL_TYPE, CDS_MAX_PCL_TYPE],
        [CDS_MAX_PCL_TYPE, CDS_MAX_PCL_TYPE, CDS_MAX_PCL_TYPE], [CDS_MAX_PCL_TYPE, CDS_MAX_PCL_TYPE, CDS_MAX_PCL_TYPE],
        [CDS_MAX_PCL_TYPE, CDS_MAX_PCL_TYPE, CDS_MAX_PCL_TYPE]]),
     (CDS_P2P_GO_SAP_MCC_24_2x2,
       [[CDS_MAX_PCL_TYPE, CDS_MAX_PCL_TYPE, CDS_MAX_PCL_TYPE], [CDS_MAX_PCL_TYPE, CDS_MAX_PCL_TYPE, CDS_MAX_PCL_TYPE],
        [CDS_MAX_PCL_TYPE, CDS_MAX_PCL_TYPE, CDS_MAX_PCL_TYPE], [CDS_MAX_PCL_TYPE, CDS_MAX_PCL_TYPE, CDS_MAX_PCL_TYPE],
        [CDS_MAX_PCL_TYPE, CDS_MAX_PCL_TYPE, CDS_MAX_PCL_TYPE]]),
     (CDS_P2P_GO_SAP_SCC_5_1x1,
       [[CDS_MAX_PCL_TYPE, CDS_MAX_PCL_TYPE, CDS_MAX_PCL_TYPE], [CDS_MAX_PCL_TYPE, CDS_MAX_PCL_TYPE, CDS_MAX_PCL_TYPE],
        [CDS_MAX_PCL_TYPE, CDS_MAX_PCL_TYPE, CDS_MAX_PCL_TYPE], [CDS_MAX_PCL_TYPE, CDS_MAX_PCL_TYPE, CDS_MAX_PCL_TYPE],
        [CDS_MAX_PCL_TYPE, CDS_MAX_PCL_TYPE, CDS_MAX_PCL_TYPE]]),
     (CDS_P2P_GO_SAP_SCC_5_2x2,
       [[CDS_MAX_PCL_TYPE, CDS_MAX_PCL_TYPE, CDS_MAX_PCL_TYPE], [CDS_MAX_PCL_TYPE, CDS_MAX_PCL_TYPE, CDS_MAX_PCL_TYPE],
        [CDS_MAX_PCL_TYPE, CDS_MAX_PCL_TYPE, CDS_MAX_PCL_TYPE], [CDS_MAX_PCL_TYPE, CDS_MAX_PCL_TYPE, CDS_MAX_PCL_TYPE],
        [CDS_MAX_PCL_TYPE, CDS_MAX_PCL_TYPE, CDS_MAX_PCL_TYPE]]),
     (CDS_P2P_GO_SAP_MCC_5_1x1,
       [[CDS_MAX_PCL_TYPE, CDS_MAX_PCL_TYPE, CDS_MAX_PCL_TYPE], [CDS_MAX_PCL_TYPE, CDS_MAX_PCL_TYPE, CDS_MAX_PCL_TYPE],
        [CDS_MAX_PCL_TYPE, CDS_MAX_PCL_TYPE, CDS_MAX_PCL_TYPE], [CDS_MAX_PCL_TYPE, CDS_MAX_PCL_TYPE, CDS_MAX_PCL_TYPE],
        [CDS_MAX_PCL_TYPE, CDS_MAX_PCL_TYPE, CDS_MAX_PCL_TYPE]]),
     (CDS_P2P_GO_SAP_MCC_5_2x2,
       [[CDS_MAX_PCL_TYPE, CDS_MAX_PCL_TYPE, CDS_MAX_PCL_TYPE], [CDS_MAX_PCL_TYPE, CDS_MAX_PCL_TYPE, CDS_MAX_PCL_TYPE],
        [CDS_MAX_PCL_TYPE, CDS_MAX_PCL_TYPE, CDS_MAX_PCL_TYPE], [CDS_MAX_PCL_TYPE, CDS_MAX_PCL_TYPE, CDS_MAX_PCL_TYPE],
        [CDS_MAX_PCL_TYPE, CDS_MAX_PCL_TYPE, CDS_MAX_PCL_TYPE]]),
     (CDS_P2P_GO_SAP_MCC_24_5_1x1,
       [[CDS_MAX_PCL_TYPE, CDS_MAX_PCL_TYPE, CDS_MAX_PCL_TYPE], [CDS_MAX_PCL_TYPE, CDS_MAX_PCL_TYPE, CDS_MAX_PCL_TYPE],
        [CDS_MAX_PCL_TYPE, CDS_MAX_PCL_TYPE, CDS_MAX_PCL_TYPE], [CDS_MAX_PCL_TYPE, CDS_MAX_PCL_TYPE, CDS_MAX_PCL_TYPE],
        [CDS_MAX_PCL_TYPE, CDS_MAX_PCL_TYPE, CDS_MAX_PCL_TYPE]]),
     (CDS_P2P_GO_SAP_MCC_24_5_2x2,
       [[CDS_MAX_PCL_TYPE, CDS_MAX_PCL_TYPE, CDS_MAX_PCL_TYPE], [CDS_MAX_PCL_TYPE, CDS_MAX_PCL_TYPE, CDS_MAX_PCL_TYPE],
        [CDS_MAX_PCL_TYPE, CDS_MAX_PCL_TYPE, CDS_MAX_PCL_TYPE], [CDS_MAX_PCL_TYPE, CDS_MAX_PCL_TYPE, CDS_MAX_PCL_TYPE],
        [CDS_MAX_PCL_TYPE, CDS_MAX_PCL_TYPE, CDS_MAX_PCL_TYPE]]),
     (CDS_P2P_GO_SAP_DBS_1x1,
       [[CDS_MAX_PCL_TYPE, CDS_MAX_PCL_TYPE, CDS_MAX_PCL_TYPE], [CDS_MAX_PCL_TYPE, CDS_MAX_PCL_TYPE, CDS_MAX_PCL_TYPE],
        [CDS_MAX_PCL_TYPE, CDS_MAX_PCL_TYPE, CDS_MAX_PCL_TYPE], [CDS_MAX_PCL_TYPE, CDS_MAX_PCL_TYPE, CDS_MAX_PCL_TYPE],
        [CDS_MAX_PCL_TYPE, CDS_MAX_PCL_TYPE, CDS_MAX_PCL_TYPE]])]"

definition third_dbs_cli_sap :: "(cds_two_connection_mode \<times> pcl_row) list" where
  "third_dbs_cli_sap =
    [(CDS_P2P_CLI_SAP_SCC_24_1x1,
       [[CDS_MAX_PCL_TYPE, CDS_MAX_PCL_TYPE, CDS_MAX_PCL_TYPE], [CDS_MAX_PCL_TYPE, CDS_MAX_PCL_TYPE, CDS_MAX_PCL_TYPE],
        [CDS_MAX_PCL_TYPE, CDS_MAX_PCL_TYPE, CDS_MAX_PCL_TYPE], [CDS_MAX_PCL_TYPE, CDS_MAX_PCL_TYPE, CDS_MAX_PCL_TYPE],
        [CDS_MAX_PCL_TYPE, CDS_MAX_PCL_TYPE, CDS_MAX_PCL_TYPE]]),
     (CDS_P2P_CLI_SAP_SCC_24_2x2,
       [[CDS_MAX_PCL_TYPE, CDS_MAX_PCL_TYPE, CDS_MAX_PCL_TYPE], [CDS_MAX_PCL_TYPE, CDS_MAX_PCL_TYPE, CDS_MAX_PCL_TYPE],
        [CDS_MAX_PCL_TYPE, CDS_MAX_PCL_TYPE, CDS_MAX_PCL_TYPE], [CDS_MAX_PCL_TYPE, CDS_MAX_PCL_TYPE, CDS_MAX_PCL_TYPE],
        [CDS_MAX_PCL_TYPE, CDS_MAX_PCL_TYPE, CDS_MAX_PCL_TYPE]]),
     (CDS_P2P_CLI_SAP_MCC_24_1x1,
       [[CDS_MAX_PCL_TYPE, CDS_MAX_PCL_TYPE, CDS_MAX_PCL_TYPE], [CDS_MAX_PCL_TYPE, CDS_MAX_PCL_TYPE, CDS_MAX_PCL_TYPE],
        [CDS_MAX_PCL_TYPE, CDS_MAX_PCL_TYPE, CDS_MAX_PCL_TYPE], [CDS_MAX_PCL_TYPE, CDS_MAX_PCL_TYPE, CDS_MAX_PCL_TYPE],
        [CDS_MAX_PCL_TYPE, CDS_MAX_PCL_TYPE, CDS_MAX_PCL_TYPE]]),
     (CDS_P2P_CLI_SAP_MCC_24_2x2,
       [[CDS_MAX_PCL_TYPE, CDS_MAX_PCL_TYPE, CDS_MAX_PCL_TYPE], [CDS_MAX_PCL_TYPE, CDS_MAX_PCL_TYPE, CDS_MAX_PCL_TYPE],
        [CDS_MAX_PCL_TYPE, CDS_MAX_PCL_TYPE, CDS_MAX_PCL_TYPE], [CDS_MAX_PCL_TYPE, CDS_MAX_PCL_TYPE, CDS_MAX_PCL_TYPE],
        [CDS_MAX_PCL_TYPE, CDS_MAX_PCL_TYPE, CDS_MAX_PCL_TYPE]]),
     (CDS_P2P_CLI_SAP_SCC_5_1x1,
       [[CDS_MAX_PCL_TYPE, CDS_MAX_PCL_TYPE, CDS_MAX_PCL_TYPE], [CDS_MAX_PCL_TYPE, CDS_MAX_PCL_TYPE, CDS_MAX_PCL_TYPE],
        [CDS_MAX_PCL_TYPE, CDS_MAX_PCL_TYPE, CDS_MAX_PCL_TYPE], [CDS_MAX_PCL_TYPE, CDS_MAX_PCL_TYPE, CDS_MAX_PCL_TYPE],
        [CDS_MAX_PCL_TYPE, CDS_MAX_PCL_TYPE, CDS_MAX_PCL_TYPE]]),
     (CDS_P2P_CLI_SAP_SCC_5_2x2,
       [[CDS_MAX_PCL_TYPE, CDS_MAX_PCL_TYPE, CDS_MAX_PCL_TYPE], [CDS_MAX_PCL_TYPE, CDS_MAX_PCL_TYPE, CDS_MAX_PCL_TYPE],
        [CDS_MAX_PCL_TYPE, CDS_MAX_PCL_TYPE, CDS_MAX_PCL_TYPE], [CDS_MAX_PCL_TYPE, CDS_MAX_PCL_TYPE, CDS_MAX_PCL_TYPE],
        [CDS_MAX_PCL_TYPE, CDS_MAX_PCL_TYPE, CDS_MAX_PCL_TYPE]]),
     (CDS_P2P_CLI_SAP_MCC_5_1x1,
       [[CDS_MAX_PCL_TYPE, CDS_MAX_PCL_TYPE, CDS_MAX_PCL_TYPE], [CDS_MAX_PCL_TYPE, CDS_MAX_PCL_TYPE, CDS_MAX_PCL_TYPE],
        [CDS_MAX_PCL_TYPE, CDS_MAX_PCL_TYPE, CDS_MAX_PCL_TYPE], [CDS_MAX_PCL_TYPE, CDS_MAX_PCL_TYPE, CDS_MAX_PCL_TYPE],
        [CDS_MAX_PCL_TYPE, CDS_MAX_PCL_TYPE, CDS_MAX_PCL_TYPE]]),
     (CDS_P2P_CLI_SAP_MCC_5_2x2,
       [[CDS_MAX_PCL_TYPE, CDS_MAX_PCL_TYPE, CDS_MAX_PCL_TYPE], [CDS_MAX_PCL_TYPE, CDS_MAX_PCL_TYPE, CDS_MAX_PCL_TYPE],
        [CDS_MAX_PCL_TYPE, CDS_MAX_PCL_TYPE, CDS_MAX_PCL_TYPE], [CDS_MAX_PCL_TYPE, CDS_MAX_PCL_TYPE, CDS_MAX_PCL_TYPE],
        [CDS_MAX_PCL_TYPE, CDS_MAX_PCL_TYPE, CDS_MAX_PCL_TYPE]]),
     (CDS_P2P_CLI_SAP_MCC_24_5_1x1,
       [[CDS_MAX_PCL_TYPE, CDS_MAX_PCL_TYPE, CDS_MAX_PCL_TYPE], [CDS_MAX_PCL_TYPE, CDS_MAX_PCL_TYPE, CDS_MAX_PCL_TYPE],
        [CDS_MAX_PCL_TYPE, CDS_MAX_PCL_TYPE, CDS_MAX_PCL_TYPE], [CDS_MAX_PCL_TYPE, CDS_MAX_PCL_TYPE, CDS_MAX_PCL_TYPE],
        [CDS_MAX_PCL_TYPE, CDS_MAX_PCL_TYPE, CDS_MAX_PCL_TYPE]]),
     (CDS_P2P_CLI_SAP_MCC_24_5_2x2,
       [[CDS_MAX_PCL_TYPE, CDS_MAX_PCL_TYPE, CDS_MAX_PCL_TYPE], [CDS_MAX_PCL_TYPE, CDS_MAX_PCL_TYPE, CDS_MAX_PCL_TYPE],
        [CDS_MAX_PCL_TYPE, CDS_MAX_PCL_TYPE, CDS_MAX_PCL_TYPE], [CDS_MAX_PCL_TYPE, CDS_MAX_PCL_TYPE, CDS_MAX_PCL_TYPE],
        [CDS_MAX_PCL_TYPE, CDS_MAX_PCL_TYPE, CDS_MAX_PCL_TYPE]]),
     (CDS_P2P_CLI_SAP_DBS_1x1,
       [[CDS_MAX_PCL_TYPE, CDS_MAX_PCL_TYPE, CDS_MAX_PCL_TYPE], [CDS_MAX_PCL_TYPE, CDS_MAX_PCL_TYPE, CDS_MAX_PCL_TYPE],
        [CDS_MAX_PCL_TYPE, CDS_MAX_PCL_TYPE, CDS_MAX_PCL_TYPE], [CDS_MAX_PCL_TYPE, CDS_MAX_PCL_TYPE, CDS_MAX_PCL_TYPE],
        [CDS_MAX_PCL_TYPE, CDS_MAX_PCL_TYPE, CDS_MAX_PCL_TYPE]])]"

definition third_connection_pcl_dbs_table :: "(cds_two_connection_mode \<times> pcl_row) list" where
  "third_connection_pcl_dbs_table =
     third_dbs_sta_sap @ third_dbs_sta_go @ third_dbs_sta_cli @ third_dbs_go_cli @ third_dbs_go_sap @ third_dbs_cli_sap"

definition third_nodbs_sta_sap :: "(cds_two_connection_mode \<times> pcl_row) list" where
  "third_nodbs_sta_sap =
    [(CDS_STA_SAP_SCC_24_1x1,
       [[CDS_5G, CDS_SCC_CH, CDS_SCC_CH], [CDS_SCC_CH_5G, CDS_SCC_CH, CDS_SCC_CH], [CDS_MAX_PCL_TYPE, CDS_MAX_PCL_TYPE, CDS_MAX_PCL_TYPE],
        [CDS_MAX_PCL_TYPE, CDS_MAX_PCL_TYPE, CDS_MAX_PCL_TYPE], [CDS_MAX_PCL_TYPE, CDS_MAX_PCL_TYPE, CDS_MAX_PCL_TYPE]]),
     (CDS_STA_SAP_SCC_24_2x2,
       [[CDS_5G, CDS_SCC_CH, CDS_SCC_CH], [CDS_SCC_CH_5G, CDS_SCC_CH, CDS_SCC_CH], [CDS_MAX_PCL_TYPE, CDS_MAX_PCL_TYPE, CDS_MAX_PCL_TYPE],
        [CDS_MAX_PCL_TYPE, CDS_MAX_PCL_TYPE, CDS_MAX_PCL_TYPE], [CDS_MAX_PCL_TYPE, CDS_MAX_PCL_TYPE, CDS_MAX_PCL_TYPE]]),
     (CDS_STA_SAP_MCC_24_1x1,
       [[CDS_5G_MCC_CH, CDS_MCC_CH, CDS_MCC_CH], [CDS_5G_MCC_CH, CDS_MCC_CH, CDS_MCC_CH],
        [CDS_MAX_PCL_TYPE, CDS_MAX_PCL_TYPE, CDS_MAX_PCL_TYPE], [CDS_MAX_PCL_TYPE, CDS_MAX_PCL_TYPE, CDS_MAX_PCL_TYPE],
        [CDS_MAX_PCL_TYPE, CDS_MAX_PCL_TYPE, CDS_MAX_PCL_TYPE]]),
     (CDS_STA_SAP_MCC_24_2x2,
       [[CDS_5G_MCC_CH, CDS_MCC_CH, CDS_MCC_CH], [CDS_5G_MCC_CH, CDS_MCC_CH, CDS_MCC_CH],
        [CDS_MAX_PCL_TYPE, CDS_MAX_PCL_TYPE, CDS_MAX_PCL_TYPE], [CDS_MAX_PCL_TYPE, CDS_MAX_PCL_TYPE, CDS_MAX_PCL_TYPE],
        [CDS_MAX_PCL_TYPE, CDS_MAX_PCL_TYPE, CDS_MAX_PCL_TYPE]]),
     (CDS_STA_SAP_SCC_5_1x1,
       [[CDS_SCC_CH, CDS_SCC_CH, CDS_SCC_CH], [CDS_SCC_CH, CDS_SCC_CH, CDS_SCC_CH], [CDS_MAX_PCL_TYPE, CDS_MAX_PCL_TYPE, CDS_MAX_PCL_TYPE],
        [CDS_MAX_PCL_TYPE, CDS_MAX_PCL_TYPE, CDS_MAX_PCL_TYPE], [CDS_MAX_PCL_TYPE, CDS_MAX_PCL_TYPE, CDS_MAX_PCL_TYPE]]),
     (CDS_STA_SAP_SCC_5_2x2,
       [[CDS_SCC_CH, CDS_SCC_CH, CDS_SCC_CH], [CDS_SCC_CH, CDS_SCC_CH, CDS_SCC_CH], [CDS_MAX_PCL_TYPE, CDS_MAX_PCL_TYPE, CDS_MAX_PCL_TYPE],
        [CDS_MAX_PCL_TYPE, CDS_MAX_PCL_TYPE, CDS_MAX_PCL_TYPE], [CDS_MAX_PCL_TYPE, CDS_MAX_PCL_TYPE, CDS_MAX_PCL_TYPE]]),
     (CDS_STA_SAP_MCC_5_1x1,
       [[CDS_MCC_CH, CDS_MCC_CH, CDS_MCC_CH], [CDS_MCC_CH, CDS_MCC_CH, CDS_MCC_CH], [CDS_MAX_PCL_TYPE, CDS_MAX_PCL_TYPE, CDS_MAX_PCL_TYPE],
        [CDS_MAX_PCL_TYPE, CDS_MAX_PCL_TYPE, CDS_MAX_PCL_TYPE], [CDS_MAX_PCL_TYPE, CDS_MAX_PCL_TYPE, CDS_MAX_PCL_TYPE]]),
     (CDS_STA_SAP_MCC_5_2x2,
       [[CDS_MCC_CH, CDS_MCC_CH, CDS_MCC_CH], [CDS_MCC_CH, CDS_MCC_CH, CDS_MCC_CH], [CDS_MAX_PCL_TYPE, CDS_MAX_PCL_TYPE, CDS_MAX_PCL_TYPE],
        [CDS_MAX_PCL_TYPE, CDS_MAX_PCL_TYPE, CDS_MAX_PCL_TYPE], [CDS_MAX_PCL_TYPE, CDS_MAX_PCL_TYPE, CDS_MAX_PCL_TYPE]]),
     (CDS_STA_SAP_MCC_24_5_1x1,
       [[CDS_MCC_CH, CDS_MCC_CH, CDS_MCC_CH], [CDS_MCC_CH, CDS_MCC_CH, CDS_MCC_CH], [CDS_MAX_PCL_TYPE, CDS_MAX_PCL_TYPE, CDS_MAX_PCL_TYPE],
        [CDS_MAX_PCL_TYPE, CDS_MAX_PCL_TYPE, CDS_MAX_PCL_TYPE], [CDS_MAX_PCL_TYPE, CDS_MAX_PCL_TYPE, CDS_MAX_PCL_TYPE]]),
     (CDS_STA_SAP_MCC_24_5_2x2,
       [[CDS_MCC_CH, CDS_MCC_CH, CDS_MCC_CH], [CDS_MCC_CH, CDS_MCC_CH, CDS_MCC_CH], [CDS_MAX_PCL_TYPE, CDS_MAX_PCL_TYPE, CDS_MAX_PCL_TYPE],
        [CDS_MAX_PCL_TYPE, CDS_MAX_PCL_TYPE, CDS_MAX_PCL_TYPE], [CDS_MAX_PCL_TYPE, CDS_MAX_PCL_TYPE, CDS_MAX_PCL_TYPE]]),
     (CDS_STA_SAP_DBS_1x1,
       [[CDS_MAX_PCL_TYPE, CDS_MAX_PCL_TYPE, CDS_MAX_PCL_TYPE], [CDS_MAX_PCL_TYPE, CDS_MAX_PCL_TYPE, CDS_MAX_PCL_TYPE],
        [CDS_MAX_PCL_TYPE, CDS_MAX_PCL_TYPE, CDS_MAX_PCL_TYPE], [CDS_MAX_PCL_TYPE, CDS_MAX_PCL_TYPE, CDS_MAX_PCL_TYPE],
        [CDS_MAX_PCL_TYPE, CDS_MAX_PCL_TYPE, CDS_MAX_PCL_TYPE]])]"

definition third_nodbs_sta_go :: "(cds_two_connection_mode \<times> pcl_row) list" where
  "third_nodbs_sta_go =
    [(CDS_STA_P2P_GO_SCC_24_1x1,
       [[CDS_5G, CDS_SCC_CH, CDS_SCC_CH], [CDS_MAX_PCL_TYPE, CDS_MAX_PCL_TYPE, CDS_MAX_PCL_TYPE], [CDS_5G, CDS_SCC_CH, CDS_SCC_CH],
        [CDS_5G_SCC_CH, CDS_SCC_CH, CDS_SCC_CH], [CDS_MAX_PCL_TYPE, CDS_MAX_PCL_TYPE, CDS_MAX_PCL_TYPE]]),
     (CDS_STA_P2P_GO_SCC_24_2x2,
       [[CDS_5G, CDS_SCC_CH, CDS_SCC_CH], [CDS_MAX_PCL_TYPE, CDS_MAX_PCL_TYPE, CDS_MAX_PCL_TYPE], [CDS_5G, CDS_SCC_CH, CDS_SCC_CH],
        [CDS_5G_SCC_CH, CDS_SCC_CH, CDS_SCC_CH], [CDS_MAX_PCL_TYPE, CDS_MAX_PCL_TYPE, CDS_MAX_PCL_TYPE]]),
     (CDS_STA_P2P_GO_MCC_24_1x1,
       [[CDS_5G_MCC_CH, CDS_MCC_CH, CDS_MCC_CH], [CDS_MAX_PCL_TYPE, CDS_MAX_PCL_TYPE, CDS_MAX_PCL_TYPE],
        [CDS_5G_MCC_CH, CDS_MCC_CH, CDS_MCC_CH], [CDS_5G_MCC_CH, CDS_MCC_CH, CDS_MCC_CH],
        [CDS_MAX_PCL_TYPE, CDS_MAX_PCL_TYPE, CDS_MAX_PCL_TYPE]]),
     (CDS_STA_P2P_GO_MCC_24_2x2,
       [[CDS_5G_MCC_CH, CDS_MCC_CH, CDS_MCC_CH], [CDS_MAX_PCL_TYPE, CDS_MAX_PCL_TYPE, CDS_MAX_PCL_TYPE],
        [CDS_5G_MCC_CH, CDS_MCC_CH, CDS_MCC_CH], [CDS_5G_MCC_CH, CDS_MCC_CH, CDS_MCC_CH],
        [CDS_MAX_PCL_TYPE, CDS_MAX_PCL_TYPE, CDS_MAX_PCL_TYPE]]),
     (CDS_STA_P2P_GO_SCC_5_1x1,
       [[CDS_SCC_CH, CDS_SCC_CH, CDS_SCC_CH], [CDS_MAX_PCL_TYPE, CDS_MAX_PCL_TYPE, CDS_MAX_PCL_TYPE], [CDS_SCC_CH, CDS_SCC_CH, CDS_SCC_CH],
        [CDS_SCC_CH, CDS_SCC_CH, CDS_SCC_CH], [CDS_MAX_PCL_TYPE, CDS_MAX_PCL_TYPE, CDS_MAX_PCL_TYPE]]),
     (CDS_STA_P2P_GO_SCC_5_2x2,
       [[CDS_SCC_CH, CDS_SCC_CH, CDS_SCC_CH], [CDS_MAX_PCL_TYPE, CDS_MAX_PCL_TYPE, CDS_MAX_PCL_TYPE], [CDS_SCC_CH, CDS_SCC_CH, CDS_SCC_CH],
        [CDS_SCC_CH, CDS_SCC_CH, CDS_SCC_CH], [CDS_MAX_PCL_TYPE, CDS_MAX_PCL_TYPE, CDS_MAX_PCL_TYPE]]),
     (CDS_STA_P2P_GO_MCC_5_1x1,
       [[CDS_MCC_CH, CDS_MCC_CH, CDS_MCC_CH], [CDS_MAX_PCL_TYPE, CDS_MAX_PCL_TYPE, CDS_MAX_PCL_TYPE], [CDS_MCC_CH, CDS_MCC_CH, CDS_MCC_CH],
        [CDS_MCC_CH, CDS_MCC_CH, CDS_MCC_CH], [CDS_MAX_PCL_TYPE, CDS_MAX_PCL_TYPE, CDS_MAX_PCL_TYPE]]),
     (CDS_STA_P2P_GO_MCC_5_2x2,
       [[CDS_MCC_CH, CDS_MCC_CH, CDS_MCC_CH], [CDS_MAX_PCL_TYPE, CDS_MAX_PCL_TYPE, CDS_MAX_PCL_TYPE], [CDS_MCC_CH, CDS_MCC_CH, CDS_MCC_CH],
        [CDS_MCC_CH, CDS_MCC_CH, CDS_MCC_CH], [CDS_MAX_PCL_TYPE, CDS_MAX_PCL_TYPE, CDS_MAX_PCL_TYPE]]),
     (CDS_STA_P2P_GO_MCC_24_5_1x1,
       [[CDS_MCC_CH, CDS_MCC_CH, CDS_MCC_CH], [CDS_MAX_PCL_TYPE, CDS_MAX_PCL_TYPE, CDS_MAX_PCL_TYPE], [CDS_MCC_CH, CDS_MCC_CH, CDS_MCC_CH],
        [CDS_MCC_CH, CDS_MCC_CH, CDS_MCC_CH], [CDS_MAX_PCL_TYPE, CDS_MAX_PCL_TYPE, CDS_MAX_PCL_TYPE]]),
     (CDS_STA_P2P_GO_MCC_24_5_2x2,
       [[CDS_MCC_CH, CDS_MCC_CH, CDS_MCC_CH], [CDS_MAX_PCL_TYPE, CDS_MAX_PCL_TYPE, CDS_MAX_PCL_TYPE], [CDS_MCC_CH, CDS_MCC_CH, CDS_MCC_CH],
        [CDS_MCC_CH, CDS_MCC_CH, CDS_MCC_CH], [CDS_MAX_PCL_TYPE, CDS_MAX_PCL_TYPE, CDS_MAX_PCL_TYPE]]),
     (CDS_STA_P2P_GO_DBS_1x1,
       [[CDS_MAX_PCL_TYPE, CDS_MAX_PCL_TYPE, CDS_MAX_PCL_TYPE], [CDS_MAX_PCL_TYPE, CDS_MAX_PCL_TYPE, CDS_MAX_PCL_TYPE],
        [CDS_MAX_PCL_TYPE, CDS_MAX_PCL_TYPE, CDS_MAX_PCL_TYPE], [CDS_MAX_PCL_TYPE, CDS_MAX_PCL_TYPE, CDS_MAX_PCL_TYPE],
        [CDS_MAX_PCL_TYPE, CDS_MAX_PCL_TYPE, CDS_MAX_PCL_TYPE]])]"

definition third_nodbs_sta_cli :: "(cds_two_connection_mode \<times> pcl_row) list" where
  "third_nodbs_sta_cli =
    [(CDS_STA_P2P_CLI_SCC_24_1x1,
       [[CDS_MAX_PCL_TYPE, CDS_MAX_PCL_TYPE, CDS_MAX_PCL_TYPE], [CDS_MAX_PCL_TYPE, CDS_MAX_PCL_TYPE, CDS_MAX_PCL_TYPE],
        [CDS_5G_SCC_CH, CDS_SCC_CH, CDS_SCC_CH], [CDS_5G_SCC_CH, CDS_SCC_CH, CDS_SCC_CH],
        [CDS_MAX_PCL_TYPE, CDS_MAX_PCL_TYPE, CDS_MAX_PCL_TYPE]]),
     (CDS_STA_P2P_CLI_SCC_24_2x2,
       [[CDS_MAX_PCL_TYPE, CDS_MAX_PCL_TYPE, CDS_MAX_PCL_TYPE], [CDS_MAX_PCL_TYPE, CDS_MAX_PCL_TYPE, CDS_MAX_PCL_TYPE],
        [CDS_5G_SCC_CH, CDS_SCC_CH, CDS_SCC_CH], [CDS_5G_SCC_CH, CDS_SCC_CH, CDS_SCC_CH],
        [CDS_MAX_PCL_TYPE, CDS_MAX_PCL_TYPE, CDS_MAX_PCL_TYPE]]),
     (CDS_STA_P2P_CLI_MCC_24_1x1,
       [[CDS_MAX_PCL_TYPE, CDS_MAX_PCL_TYPE, CDS_MAX_PCL_TYPE], [CDS_MAX_PCL_TYPE, CDS_MAX_PCL_TYPE, CDS_MAX_PCL_TYPE],
        [CDS_5G_MCC_CH, CDS_MCC_CH, CDS_MCC_CH], [CDS_5G_MCC_CH, CDS_MCC_CH, CDS_MCC_CH],
        [CDS_MAX_PCL_TYPE, CDS_MAX_PCL_TYPE, CDS_MAX_PCL_TYPE]]),
     (CDS_STA_P2P_CLI_MCC_24_2x2,
       [[CDS_MAX_PCL_TYPE, CDS_MAX_PCL_TYPE, CDS_MAX_PCL_TYPE], [CDS_MAX_PCL_TYPE, CDS_MAX_PCL_TYPE, CDS_MAX_PCL_TYPE],
        [CDS_5G_MCC_CH, CDS_MCC_CH, CDS_MCC_CH], [CDS_5G_MCC_CH, CDS_MCC_CH, CDS_MCC_CH],
        [CDS_MAX_PCL_TYPE, CDS_MAX_PCL_TYPE, CDS_MAX_PCL_TYPE]]),
     (CDS_STA_P2P_CLI_SCC_5_1x1,
       [[CDS_MAX_PCL_TYPE, CDS_MAX_PCL_TYPE, CDS_MAX_PCL_TYPE], [CDS_MAX_PCL_TYPE, CDS_MAX_PCL_TYPE, CDS_MAX_PCL_TYPE],
        [CDS_SCC_CH, CDS_SCC_CH, CDS_SCC_CH], [CDS_SCC_CH, CDS_SCC_CH, CDS_SCC_CH], [CDS_MAX_PCL_TYPE, CDS_MAX_PCL_TYPE, CDS_MAX_PCL_TYPE]]),
     (CDS_STA_P2P_CLI_SCC_5_2x2,
       [[CDS_MAX_PCL_TYPE, CDS_MAX_PCL_TYPE, CDS_MAX_PCL_TYPE], [CDS_MAX_PCL_TYPE, CDS_MAX_PCL_TYPE, CDS_MAX_PCL_TYPE],
        [CDS_SCC_CH, CDS_SCC_CH, CDS_SCC_CH], [CDS_SCC_CH, CDS_SCC_CH, CDS_SCC_CH], [CDS_MAX_PCL_TYPE, CDS_MAX_PCL_TYPE, CDS_MAX_PCL_TYPE]]),
     (CDS_STA_P2P_CLI_MCC_5_1x1,
       [[CDS_MAX_PCL_TYPE, CDS_MAX_PCL_TYPE, CDS_MAX_PCL_TYPE], [CDS_MAX_PCL_TYPE, CDS_MAX_PCL_TYPE, CDS_MAX_PCL_TYPE],
        [CDS_MCC_CH, CDS_MCC_CH, CDS_MCC_CH], [CDS_MCC_CH, CDS_MCC_CH, CDS_MCC_CH], [CDS_MAX_PCL_TYPE, CDS_MAX_PCL_TYPE, CDS_MAX_PCL_TYPE]]),
     (CDS_STA_P2P_CLI_MCC_5_2x2,
       [[CDS_MAX_PCL_TYPE, CDS_MAX_PCL_TYPE, CDS_MAX_PCL_TYPE], [CDS_MAX_PCL_TYPE, CDS_MAX_PCL_TYPE, CDS_MAX_PCL_TYPE],
        [CDS_MCC_CH, CDS_MCC_CH, CDS_MCC_CH], [CDS_MCC_CH, CDS_MCC_CH, CDS_MCC_CH], [CDS_MAX_PCL_TYPE, CDS_MAX_PCL_TYPE, CDS_MAX_PCL_TYPE]]),
     (CDS_STA_P2P_CLI_MCC_24_5_1x1,
       [[CDS_MAX_PCL_TYPE, CDS_MAX_PCL_TYPE, CDS_MAX_PCL_TYPE], [CDS_MAX_PCL_TYPE, CDS_MAX_PCL_TYPE, CDS_MAX_PCL_TYPE],
        [CDS_MCC_CH, CDS_MCC_CH, CDS_MCC_CH], [CDS_MCC_CH, CDS_MCC_CH, CDS_MCC_CH], [CDS_MAX_PCL_TYPE, CDS_MAX_PCL_TYPE, CDS_MAX_PCL_TYPE]]),
     (CDS_STA_P2P_CLI_MCC_24_5_2x2,
       [[CDS_MAX_PCL_TYPE, CDS_MAX_PCL_TYPE, CDS_MAX_PCL_TYPE], [CDS_MAX_PCL_TYPE, CDS_MAX_PCL_TYPE, CDS_MAX_PCL_TYPE],
        [CDS_MCC_CH, CDS_MCC_CH, CDS_MCC_CH], [CDS_MCC_CH, CDS_MCC_CH, CDS_MCC_CH], [CDS_MAX_PCL_TYPE, CDS_MAX_PCL_TYPE, CDS_MAX_PCL_TYPE]]),
     (CDS_STA_P2P_CLI_DBS_1x1,
       [[CDS_MAX_PCL_TYPE, CDS_MAX_PCL_TYPE, CDS_MAX_PCL_TYPE], [CDS_MAX_PCL_TYPE, CDS_MAX_PCL_TYPE, CDS_MAX_PCL_TYPE],
        [CDS_MAX_PCL_TYPE, CDS_MAX_PCL_TYPE, CDS_MAX_PCL_TYPE], [CDS_MAX_PCL_TYPE, CDS_MAX_PCL_TYPE, CDS_MAX_PCL_TYPE],
        [CDS_MAX_PCL_TYPE, CDS_MAX_PCL_TYPE, CDS_MAX_PCL_TYPE]])]"

definition third_nodbs_go_cli :: "(cds_two_connection_mode \<times> pcl_row) list" where
  "third_nodbs_go_cli =
    [(CDS_P2P_GO_P2P_CLI_SCC_24_1x1,
       [[CDS_5G, CDS_SCC_CH, CDS_SCC_CH], [CDS_SCC_CH_5G, CDS_SCC_CH, CDS_SCC_CH], [CDS_5G, CDS_SCC_CH, CDS_SCC_CH],
        [CDS_5G_SCC_CH, CDS_SCC_CH, CDS_SCC_CH], [CDS_MAX_PCL_TYPE, CDS_MAX_PCL_TYPE, CDS_MAX_PCL_TYPE]]),
     (CDS_P2P_GO_P2P_CLI_SCC_24_2x2,
       [[CDS_5G, CDS_SCC_CH, CDS_SCC_CH], [CDS_SCC_CH_5G, CDS_SCC_CH, CDS_SCC_CH], [CDS_5G, CDS_SCC_CH, CDS_SCC_CH],
        [CDS_5G_SCC_CH, CDS_SCC_CH, CDS_SCC_CH], [CDS_MAX_PCL_TYPE, CDS_MAX_PCL_TYPE, CDS_MAX_PCL_TYPE]]),
     (CDS_P2P_GO_P2P_CLI_MCC_24_1x1,
       [[CDS_5G_MCC_CH, CDS_MCC_CH, CDS_MCC_CH], [CDS_5G_MCC_CH, CDS_MCC_CH, CDS_MCC_CH], [CDS_5G_MCC_CH, CDS_MCC_CH, CDS_MCC_CH],
        [CDS_5G_MCC_CH, CDS_MCC_CH, CDS_MCC_CH], [CDS_MAX_PCL_TYPE, CDS_MAX_PCL_TYPE, CDS_MAX_PCL_TYPE]]),
     (CDS_P2P_GO_P2P_CLI_MCC_24_2x2,
       [[CDS_5G_MCC_CH, CDS_MCC_CH, CDS_MCC_CH], [CDS_5G_MCC_CH, CDS_MCC_CH, CDS_MCC_CH], [CDS_5G_MCC_CH, CDS_MCC_CH, CDS_MCC_CH],
        [CDS_5G_MCC_CH, CDS_MCC_CH, CDS_MCC_CH], [CDS_MAX_PCL_TYPE, CDS_MAX_PCL_TYPE, CDS_MAX_PCL_TYPE]]),
     (CDS_P2P_GO_P2P_CLI_SCC_5_1x1,
       [[CDS_SCC_CH, CDS_SCC_CH, CDS_SCC_CH], [CDS_SCC_CH, CDS_SCC_CH, CDS_SCC_CH], [CDS_SCC_CH, CDS_SCC_CH, CDS_SCC_CH],
        [CDS_SCC_CH, CDS_SCC_CH, CDS_SCC_CH], [CDS_MAX_PCL_TYPE, CDS_MAX_PCL_TYPE, CDS_MAX_PCL_TYPE]]),
     (CDS_P2P_GO_P2P_CLI_SCC_5_2x2,
       [[CDS_SCC_CH, CDS_SCC_CH, CDS_SCC_CH], [CDS_SCC_CH, CDS_SCC_CH, CDS_SCC_CH], [CDS_SCC_CH, CDS_SCC_CH, CDS_SCC_CH],
        [CDS_SCC_CH, CDS_SCC_CH, CDS_SCC_CH], [CDS_MAX_PCL_TYPE, CDS_MAX_PCL_TYPE, CDS_MAX_PCL_TYPE]]),
     (CDS_P2P_GO_P2P_CLI_MCC_5_1x1,
       [[CDS_MCC_CH, CDS_MCC_CH, CDS_MCC_CH], [CDS_MCC_CH, CDS_MCC_CH, CDS_MCC_CH], [CDS_MCC_CH, CDS_MCC_CH, CDS_MCC_CH],
        [CDS_MCC_CH, CDS_MCC_CH, CDS_MCC_CH], [CDS_MAX_PCL_TYPE, CDS_MAX_PCL_TYPE, CDS_MAX_PCL_TYPE]]),
     (CDS_P2P_GO_P2P_CLI_MCC_5_2x2,
       [[CDS_MCC_CH, CDS_MCC_CH, CDS_MCC_CH], [CDS_MCC_CH, CDS_MCC_CH, CDS_MCC_CH], [CDS_MCC_CH, CDS_MCC_CH, CDS_MCC_CH],
        [CDS_MCC_CH, CDS_MCC_CH, CDS_MCC_CH], [CDS_MAX_PCL_TYPE, CDS_MAX_PCL_TYPE, CDS_MAX_PCL_TYPE]]),
     (CDS_P2P_GO_P2P_CLI_MCC_24_5_1x1,
       [[CDS_MCC_CH, CDS_MCC_CH, CDS_MCC_CH], [CDS_MCC_CH, CDS_MCC_CH, CDS_MCC_CH], [CDS_MCC_CH, CDS_MCC_CH, CDS_MCC_CH],
        [CDS_MCC_CH, CDS_MCC_CH, CDS_MCC_CH], [CDS_MAX_PCL_TYPE, CDS_MAX_PCL_TYPE, CDS_MAX_PCL_TYPE]]),
     (CDS_P2P_GO_P2P_CLI_MCC_24_5_2x2,
       [[CDS_MCC_CH, CDS_MCC_CH, CDS_MCC_CH], [CDS_MCC_CH, CDS_MCC_CH, CDS_MCC_CH], [CDS_MCC_CH, CDS_MCC_CH, CDS_MCC_CH],
        [CDS_MCC_CH, CDS_MCC_CH, CDS_MCC_CH], [CDS_MAX_PCL_TYPE, CDS_MAX_PCL_TYPE, CDS_MAX_PCL_TYPE]]),
     (CDS_P2P_GO_P2P_CLI_DBS_1x1,
       [[CDS_MAX_PCL_TYPE, CDS_MAX_PCL_TYPE, CDS_MAX_PCL_TYPE], [CDS_MAX_PCL_TYPE, CDS_MAX_PCL_TYPE, CDS_MAX_PCL_TYPE],
        [CDS_MAX_PCL_TYPE, CDS_MAX_PCL_TYPE, CDS_MAX_PCL_TYPE], [CDS_MAX_PCL_TYPE, CDS_MAX_PCL_TYPE, CDS_MAX_PCL_TYPE],
        [CDS_MAX_PCL_TYPE, CDS_MAX_PCL_TYPE, CDS_MAX_PCL_TYPE]])]"

definition third_nodbs_go_sap :: "(cds_two_connection_mode \<times> pcl_row) list" where
  "third_nodbs_go_sap =
    [(CDS_P2P_GO_SAP_SCC_24_1x1,
       [[CDS_MAX_PCL_TYPE, CDS_MAX_PCL_TYPE, CDS_MAX_PCL_TYPE], [CDS_MAX_PCL_TYPE, CDS_MAX_PCL_TYPE, CDS_MAX_PCL_TYPE],
        [CDS_MAX_PCL_TYPE, CDS_MAX_PCL_TYPE, CDS_MAX_PCL_TYPE], [CDS_MAX_PCL_TYPE, CDS_MAX_PCL_TYPE, CDS_MAX_PCL_TYPE],
        [CDS_MAX_PCL_TYPE, CDS_MAX_PCL_TYPE, CDS_MAX_PCL_TYPE]]),
     (CDS_P2P_GO_SAP_SCC_24_2x2,
       [[CDS_MAX_PCL_TYPE, CDS_MAX_PCL_TYPE, CDS_MAX_PCL_TYPE], [CDS_MAX_PCL_TYPE, CDS_MAX_PCL_TYPE, CDS_MAX_PCL_TYPE],
        [CDS_MAX_PCL_TYPE, CDS_MAX_PCL_TYPE, CDS_MAX_PCL_TYPE], [CDS_MAX_PCL_TYPE, CDS_MAX_PCL_TYPE, CDS_MAX_PCL_TYPE],
        [CDS_MAX_PCL_TYPE, CDS_MAX_PCL_TYPE, CDS_MAX_PCL_TYPE]]),
     (CDS_P2P_GO_SAP_MCC_24_1x1,
       [[CDS_MAX_PCL_TYPE, CDS_MAX_PCL_TYPE, CDS_MAX_PCL_TYPE], [CDS_MAX_PCL_TYPE, CDS_MAX_PCL_TYPE, CDS_MAX_PCL_TYPE],
        [CDS_MAX_PCL_TYPE, CDS_MAX_PCL_TYPE, CDS_MAX_PCL_TYPE], [CDS_MAX_PCL_TYPE, CDS_MAX_PCL_TYPE, CDS_MAX_PCL_TYPE],
        [CDS_MAX_PCL_TYPE, CDS_MAX_PCL_TYPE, CDS_MAX_PCL_TYPE]]),
     (CDS_P2P_GO_SAP_MCC_24_2x2,
       [[CDS_MAX_PCL_TYPE, CDS_MAX_PCL_TYPE, CDS_MAX_PCL_TYPE], [CDS_MAX_PCL_TYPE, CDS_MAX_PCL_TYPE, CDS_MAX_PCL_TYPE],
        [CDS_MAX_PCL_TYPE, CDS_MAX_PCL_TYPE, CDS_MAX_PCL_TYPE], [CDS_MAX_PCL_TYPE, CDS_MAX_PCL_TYPE, CDS_MAX_PCL_TYPE],
        [CDS_MAX_PCL_TYPE, CDS_MAX_PCL_TYPE, CDS_MAX_PCL_TYPE]]),
     (CDS_P2P_GO_SAP_SCC_5_1x1,
       [[CDS_MAX_PCL_TYPE, CDS_MAX_PCL_TYPE, CDS_MAX_PCL_TYPE], [CDS_MAX_PCL_TYPE, CDS_MAX_PCL_TYPE, CDS_MAX_PCL_TYPE],
        [CDS_MAX_PCL_TYPE, CDS_MAX_PCL_TYPE, CDS_MAX_PCL_TYPE], [CDS_MAX_PCL_TYPE, CDS_MAX_PCL_TYPE, CDS_MAX_PCL_TYPE],
        [CDS_MAX_PCL_TYPE, CDS_MAX_PCL_TYPE, CDS_MAX_PCL_TYPE]]),
     (CDS_P2P_GO_SAP_SCC_5_2x2,
       [[CDS_MAX_PCL_TYPE, CDS_MAX_PCL_TYPE, CDS_MAX_PCL_TYPE], [CDS_MAX_PCL_TYPE, CDS_MAX_PCL_TYPE, CDS_MAX_PCL_TYPE],
        [CDS_MAX_PCL_TYPE, CDS_MAX_PCL_TYPE, CDS_MAX_PCL_TYPE], [CDS_MAX_PCL_TYPE, CDS_MAX_PCL_TYPE, CDS_MAX_PCL_TYPE],
        [CDS_MAX_PCL_TYPE, CDS_MAX_PCL_TYPE, CDS_MAX_PCL_TYPE]]),
     (CDS_P2P_GO_SAP_MCC_5_1x1,
       [[CDS_MAX_PCL_TYPE, CDS_MAX_PCL_TYPE, CDS_MAX_PCL_TYPE], [CDS_MAX_PCL_TYPE, CDS_MAX_PCL_TYPE, CDS_MAX_PCL_TYPE],
        [CDS_MAX_PCL_TYPE, CDS_MAX_PCL_TYPE, CDS_MAX_PCL_TYPE], [CDS_MAX_PCL_TYPE, CDS_MAX_PCL_TYPE, CDS_MAX_PCL_TYPE],
        [CDS_MAX_PCL_TYPE, CDS_MAX_PCL_TYPE, CDS_MAX_PCL_TYPE]]),
     (CDS_P2P_GO_SAP_MCC_5_2x2,
       [[CDS_MAX_PCL_TYPE, CDS_MAX_PCL_TYPE, CDS_MAX_PCL_TYPE], [CDS_MAX_PCL_TYPE, CDS_MAX_PCL_TYPE, CDS_MAX_PCL_TYPE],
        [CDS_MAX_PCL_TYPE, CDS_MAX_PCL_TYPE, CDS_MAX_PCL_TYPE], [CDS_MAX_PCL_TYPE, CDS_MAX_PCL_TYPE, CDS_MAX_PCL_TYPE],
        [CDS_MAX_PCL_TYPE, CDS_MAX_PCL_TYPE, CDS_MAX_PCL_TYPE]]),
     (CDS_P2P_GO_SAP_MCC_24_5_1x1,
       [[CDS_MAX_PCL_TYPE, CDS_MAX_PCL_TYPE, CDS_MAX_PCL_TYPE], [CDS_MAX_PCL_TYPE, CDS_MAX_PCL_TYPE, CDS_MAX_PCL_TYPE],
        [CDS_MAX_PCL_TYPE, CDS_MAX_PCL_TYPE, CDS_MAX_PCL_TYPE], [CDS_MAX_PCL_TYPE, CDS_MAX_PCL_TYPE, CDS_MAX_PCL_TYPE],
        [CDS_MAX_PCL_TYPE, CDS_MAX_PCL_TYPE, CDS_MAX_PCL_TYPE]]),
     (CDS_P2P_GO_SAP_MCC_24_5_2x2,
       [[CDS_MAX_PCL_TYPE, CDS_MAX_PCL_TYPE, CDS_MAX_PCL_TYPE], [CDS_MAX_PCL_TYPE, CDS_MAX_PCL_TYPE, CDS_MAX_PCL_TYPE],
        [CDS_MAX_PCL_TYPE, CDS_MAX_PCL_TYPE, CDS_MAX_PCL_TYPE], [CDS_MAX_PCL_TYPE, CDS_MAX_PCL_TYPE, CDS_MAX_PCL_TYPE],
        [CDS_MAX_PCL_TYPE, CDS_MAX_PCL_TYPE, CDS_MAX_PCL_TYPE]]),
     (CDS_P2P_GO_SAP_DBS_1x1,
       [[CDS_MAX_PCL_TYPE, CDS_MAX_PCL_TYPE, CDS_MAX_PCL_TYPE], [CDS_MAX_PCL_TYPE, CDS_MAX_PCL_TYPE, CDS_MAX_PCL_TYPE],
        [CDS_MAX_PCL_TYPE, CDS_MAX_PCL_TYPE, CDS_MAX_PCL_TYPE], [CDS_MAX_PCL_TYPE, CDS_MAX_PCL_TYPE, CDS_MAX_PCL_TYPE],
        [CDS_MAX_PCL_TYPE, CDS_MAX_PCL_TYPE, CDS_MAX_PCL_TYPE]])]"

definition third_nodbs_cli_sap :: "(cds_two_connection_mode \<times> pcl_row) list" where
  "third_nodbs_cli_sap =
    [(CDS_P2P_CLI_SAP_SCC_24_1x1,
       [[CDS_MAX_PCL_TYPE, CDS_MAX_PCL_TYPE, CDS_MAX_PCL_TYPE], [CDS_MAX_PCL_TYPE, CDS_MAX_PCL_TYPE, CDS_MAX_PCL_TYPE],
        [CDS_MAX_PCL_TYPE, CDS_MAX_PCL_TYPE, CDS_MAX_PCL_TYPE], [CDS_MAX_PCL_TYPE, CDS_MAX_PCL_TYPE, CDS_MAX_PCL_TYPE],
        [CDS_MAX_PCL_TYPE, CDS_MAX_PCL_TYPE, CDS_MAX_PCL_TYPE]]),
     (CDS_P2P_CLI_SAP_SCC_24_2x2,
       [[CDS_MAX_PCL_TYPE, CDS_MAX_PCL_TYPE, CDS_MAX_PCL_TYPE], [CDS_MAX_PCL_TYPE, CDS_MAX_PCL_TYPE, CDS_MAX_PCL_TYPE],
        [CDS_MAX_PCL_TYPE, CDS_MAX_PCL_TYPE, CDS_MAX_PCL_TYPE], [CDS_MAX_PCL_TYPE, CDS_MAX_PCL_TYPE, CDS_MAX_PCL_TYPE],
        [CDS_MAX_PCL_TYPE, CDS_MAX_PCL_TYPE, CDS_MAX_PCL_TYPE]]),
     (CDS_P2P_CLI_SAP_MCC_24_1x1,
       [[CDS_MAX_PCL_TYPE, CDS_MAX_PCL_TYPE, CDS_MAX_PCL_TYPE], [CDS_MAX_PCL_TYPE, CDS_MAX_PCL_TYPE, CDS_MAX_PCL_TYPE],
        [CDS_MAX_PCL_TYPE, CDS_MAX_PCL_TYPE, CDS_MAX_PCL_TYPE], [CDS_MAX_PCL_TYPE, CDS_MAX_PCL_TYPE, CDS_MAX_PCL_TYPE],
        [CDS_MAX_PCL_TYPE, CDS_MAX_PCL_TYPE, CDS_MAX_PCL_TYPE]]),
     (CDS_P2P_CLI_SAP_MCC_24_2x2,
       [[CDS_MAX_PCL_TYPE, CDS_MAX_PCL_TYPE, CDS_MAX_PCL_TYPE], [CDS_MAX_PCL_TYPE, CDS_MAX_PCL_TYPE, CDS_MAX_PCL_TYPE],
        [CDS_MAX_PCL_TYPE, CDS_MAX_PCL_TYPE, CDS_MAX_PCL_TYPE], [CDS_MAX_PCL_TYPE, CDS_MAX_PCL_TYPE, CDS_MAX_PCL_TYPE],
        [CDS_MAX_PCL_TYPE, CDS_MAX_PCL_TYPE, CDS_MAX_PCL_TYPE]]),
     (CDS_P2P_CLI_SAP_SCC_5_1x1,
       [[CDS_MAX_PCL_TYPE, CDS_MAX_PCL_TYPE, CDS_MAX_PCL_TYPE], [CDS_MAX_PCL_TYPE, CDS_MAX_PCL_TYPE, CDS_MAX_PCL_TYPE],
        [CDS_MAX_PCL_TYPE, CDS_MAX_PCL_TYPE, CDS_MAX_PCL_TYPE], [CDS_MAX_PCL_TYPE, CDS_MAX_PCL_TYPE, CDS_MAX_PCL_TYPE],
        [CDS_MAX_PCL_TYPE, CDS_MAX_PCL_TYPE, CDS_MAX_PCL_TYPE]]),
     (CDS_P2P_CLI_SAP_SCC_5_2x2,
       [[CDS_MAX_PCL_TYPE, CDS_MAX_PCL_TYPE, CDS_MAX_PCL_TYPE], [CDS_MAX_PCL_TYPE, CDS_MAX_PCL_TYPE, CDS_MAX_PCL_TYPE],
        [CDS_MAX_PCL_TYPE, CDS_MAX_PCL_TYPE, CDS_MAX_PCL_TYPE], [CDS_MAX_PCL_TYPE, CDS_MAX_PCL_TYPE, CDS_MAX_PCL_TYPE],
        [CDS_MAX_PCL_TYPE, CDS_MAX_PCL_TYPE, CDS_MAX_PCL_TYPE]]),
     (CDS_P2P_CLI_SAP_MCC_5_1x1,
       [[CDS_MAX_PCL_TYPE, CDS_MAX_PCL_TYPE, CDS_MAX_PCL_TYPE], [CDS_MAX_PCL_TYPE, CDS_MAX_PCL_TYPE, CDS_MAX_PCL_TYPE],
        [CDS_MAX_PCL_TYPE, CDS_MAX_PCL_TYPE, CDS_MAX_PCL_TYPE], [CDS_MAX_PCL_TYPE, CDS_MAX_PCL_TYPE, CDS_MAX_PCL_TYPE],
        [CDS_MAX_PCL_TYPE, CDS_MAX_PCL_TYPE, CDS_MAX_PCL_TYPE]]),
     (CDS_P2P_CLI_SAP_MCC_5_2x2,
       [[CDS_MAX_PCL_TYPE, CDS_MAX_PCL_TYPE, CDS_MAX_PCL_TYPE], [CDS_MAX_PCL_TYPE, CDS_MAX_PCL_TYPE, CDS_MAX_PCL_TYPE],
        [CDS_MAX_PCL_TYPE, CDS_MAX_PCL_TYPE, CDS_MAX_PCL_TYPE], [CDS_MAX_PCL_TYPE, CDS_MAX_PCL_TYPE, CDS_MAX_PCL_TYPE],
        [CDS_MAX_PCL_TYPE, CDS_MAX_PCL_TYPE, CDS_MAX_PCL_TYPE]]),
     (CDS_P2P_CLI_SAP_MCC_24_5_1x1,
       [[CDS_MAX_PCL_TYPE, CDS_MAX_PCL_TYPE, CDS_MAX_PCL_TYPE], [CDS_MAX_PCL_TYPE, CDS_MAX_PCL_TYPE, CDS_MAX_PCL_TYPE],
        [CDS_MAX_PCL_TYPE, CDS_MAX_PCL_TYPE, CDS_MAX_PCL_TYPE], [CDS_MAX_PCL_TYPE, CDS_MAX_PCL_TYPE, CDS_MAX_PCL_TYPE],
        [CDS_MAX_PCL_TYPE, CDS_MAX_PCL_TYPE, CDS_MAX_PCL_TYPE]]),
     (CDS_P2P_CLI_SAP_MCC_24_5_2x2,
       [[CDS_MAX_PCL_TYPE, CDS_MAX_PCL_TYPE, CDS_MAX_PCL_TYPE], [CDS_MAX_PCL_TYPE, CDS_MAX_PCL_TYPE, CDS_MAX_PCL_TYPE],
        [CDS_MAX_PCL_TYPE, CDS_MAX_PCL_TYPE, CDS_MAX_PCL_TYPE], [CDS_MAX_PCL_TYPE, CDS_MAX_PCL_TYPE, CDS_MAX_PCL_TYPE],
        [CDS_MAX_PCL_TYPE, CDS_MAX_PCL_TYPE, CDS_MAX_PCL_TYPE]]),
     (CDS_P2P_CLI_SAP_DBS_1x1,
       [[CDS_MAX_PCL_TYPE, CDS_MAX_PCL_TYPE, CDS_MAX_PCL_TYPE], [CDS_MAX_PCL_TYPE, CDS_MAX_PCL_TYPE, CDS_MAX_PCL_TYPE],
        [CDS_MAX_PCL_TYPE, CDS_MAX_PCL_TYPE, CDS_MAX_PCL_TYPE], [CDS_MAX_PCL_TYPE, CDS_MAX_PCL_TYPE, CDS_MAX_PCL_TYPE],
        [CDS_MAX_PCL_TYPE, CDS_MAX_PCL_TYPE, CDS_MAX_PCL_TYPE]])]"

definition third_connection_pcl_nodbs_table :: "(cds_two_connection_mode \<times> pcl_row) list" where
  "third_connection_pcl_nodbs_table =
     third_nodbs_sta_sap @ third_nodbs_sta_go @ third_nodbs_sta_cli @ third_nodbs_go_cli @ third_nodbs_go_sap @ third_nodbs_cli_sap"

section \<open>Next actions\<close>

definition next_action_two_connection_table :: "(cds_one_connection_mode \<times> cds_conc_next_action list) list" where
  "next_action_two_connection_table =
    [(CDS_STA_24_1x1, [CDS_NOP, CDS_DBS]),
     (CDS_STA_24_2x2, [CDS_NOP, CDS_DBS_DOWNGRADE]),
     (CDS_STA_5_1x1, [CDS_DBS, CDS_NOP]),
     (CDS_STA_5_2x2, [CDS_DBS_DOWNGRADE, CDS_NOP]),
     (CDS_P2P_CLI_24_1x1, [CDS_NOP, CDS_DBS]),
     (CDS_P2P_CLI_24_2x2, [CDS_NOP, CDS_DBS_DOWNGRADE]),
     (CDS_P2P_CLI_5_1x1, [CDS_DBS, CDS_NOP]),
     (CDS_P2P_CLI_5_2x2, [CDS_DBS_DOWNGRADE, CDS_NOP]),
     (CDS_P2P_GO_24_1x1, [CDS_NOP, CDS_DBS]),
     (CDS_P2P_GO_24_2x2, [CDS_NOP, CDS_DBS_DOWNGRADE]),
     (CDS_P2P_GO_5_1x1, [CDS_DBS, CDS_NOP]),
     (CDS_P2P_GO_5_2x2, [CDS_DBS_DOWNGRADE, CDS_NOP]),
     (CDS_SAP_24_1x1, [CDS_NOP, CDS_DBS]),
     (CDS_SAP_24_2x2, [CDS_NOP, CDS_DBS_DOWNGRADE]),
     (CDS_SAP_5_1x1, [CDS_DBS, CDS_NOP]),
     (CDS_SAP_5_2x2, [CDS_DBS_DOWNGRADE, CDS_NOP]),
     (CDS_IBSS_24_1x1, [CDS_NOP, CDS_DBS]),
     (CDS_IBSS_24_2x2, [CDS_NOP, CDS_DBS_DOWNGRADE]),
     (CDS_IBSS_5_1x1, [CDS_DBS, CDS_NOP]),
     (CDS_IBSS_5_2x2, [CDS_DBS_DOWNGRADE, CDS_NOP])]"

definition next_action_three_connection_table :: "(cds_two_connection_mode \<times> cds_conc_next_action list) list" where
  "next_action_three_connection_table =
    [(CDS_STA_SAP_SCC_24_1x1, [CDS_NOP, CDS_DBS]),
     (CDS_STA_SAP_SCC_24_2x2, [CDS_NOP, CDS_DBS_DOWNGRADE]),
     (CDS_STA_SAP_MCC_24_1x1, [CDS_NOP, CDS_DBS]),
     (CDS_STA_SAP_MCC_24_2x2, [CDS_NOP, CDS_DBS_DOWNGRADE]),
     (CDS_STA_SAP_SCC_5_1x1, [CDS_DBS, CDS_NOP]),
     (CDS_STA_SAP_SCC_5_2x2, [CDS_DBS_DOWNGRADE, CDS_NOP]),
     (CDS_STA_SAP_MCC_5_1x1, [CDS_DBS, CDS_NOP]),
     (CDS_STA_SAP_MCC_5_2x2, [CDS_DBS_DOWNGRADE, CDS_NOP]),
     (CDS_STA_SAP_MCC_24_5_1x1, [CDS_DBS, CDS_DBS]),
     (CDS_STA_SAP_MCC_24_5_2x2, [CDS_DBS_DOWNGRADE, CDS_DBS_DOWNGRADE]),
     (CDS_STA_SAP_DBS_1x1, [CDS_NOP, CDS_NOP]),
     (CDS_STA_P2P_GO_SCC_24_1x1, [CDS_NOP, CDS_DBS]),
     (CDS_STA_P2P_GO_SCC_24_2x2, [CDS_NOP, CDS_DBS_DOWNGRADE]),
     (CDS_STA_P2P_GO_MCC_24_1x1, [CDS_NOP, CDS_DBS]),
     (CDS_STA_P2P_GO_MCC_24_2x2, [CDS_NOP, CDS_DBS_DOWNGRADE]),
     (CDS_STA_P2P_GO_SCC_5_1x1, [CDS_DBS, CDS_NOP]),
     (CDS_STA_P2P_GO_SCC_5_2x2, [CDS_DBS_DOWNGRADE, CDS_NOP]),
     (CDS_STA_P2P_GO_MCC_5_1x1, [CDS_DBS, CDS_NOP]),
     (CDS_STA_P2P_GO_MCC_5_2x2, [CDS_DBS_DOWNGRADE, CDS_NOP]),
     (CDS_STA_P2P_GO_MCC_24_5_1x1, [CDS_DBS, CDS_DBS]),
     (CDS_STA_P2P_GO_MCC_24_5_2x2, [CDS_DBS_DOWNGRADE, CDS_DBS_DOWNGRADE]),
     (CDS_STA_P2P_GO_DBS_1x1, [CDS_NOP, CDS_NOP]),
     (CDS_STA_P2P_CLI_SCC_24_1x1, [CDS_NOP, CDS_DBS]),
     (CDS_STA_P2P_CLI_SCC_24_2x2, [CDS_NOP, CDS_DBS_DOWNGRADE]),
     (CDS_STA_P2P_CLI_MCC_24_1x1, [CDS_NOP, CDS_DBS]),
     (CDS_STA_P2P_CLI_MCC_24_2x2, [CDS_NOP, CDS_DBS_DOWNGRADE]),
     (CDS_STA_P2P_CLI_SCC_5_1x1, [CDS_DBS, CDS_NOP]),
     (CDS_STA_P2P_CLI_SCC_5_2x2, [CDS_DBS_DOWNGRADE, CDS_NOP]),
     (CDS_STA_P2P_CLI_MCC_5_1x1, [CDS_DBS, CDS_NOP]),
     (CDS_STA_P2P_CLI_MCC_5_2x2, [CDS_DBS_DOWNGRADE, CDS_NOP]),
     (CDS_STA_P2P_CLI_MCC_24_5_1x1, [CDS_DBS, CDS_DBS]),
     (CDS_STA_P2P_CLI_MCC_24_5_2x2, [CDS_DBS_DOWNGRADE, CDS_DBS_DOWNGRADE]),
     (CDS_STA_P2P_CLI_DBS_1x1, [CDS_NOP, CDS_NOP]),
     (CDS_P2P_GO_P2P_CLI_SCC_24_1x1, [CDS_NOP, CDS_DBS]),
     (CDS_P2P_GO_P2P_CLI_SCC_24_2x2, [CDS_NOP, CDS_DBS_DOWNGRADE]),
     (CDS_P2P_GO_P2P_CLI_MCC_24_1x1, [CDS_NOP, CDS_DBS]),
     (CDS_P2P_GO_P2P_CLI_MCC_24_2x2, [CDS_NOP, CDS_DBS_DOWNGRADE]),
     (CDS_P2P_GO_P2P_CLI_SCC_5_1x1, [CDS_DBS, CDS_NOP]),
     (CDS_P2P_GO_P2P_CLI_SCC_5_2x2, [CDS_DBS_DOWNGRADE, CDS_NOP]),
     (CDS_P2P_GO_P2P_CLI_MCC_5_1x1, [CDS_DBS, CDS_NOP]),
     (CDS_P2P_GO_P2P_CLI_MCC_5_2x2, [CDS_DBS_DOWNGRADE, CDS_NOP]),
     (CDS_P2P_GO_P2P_CLI_MCC_24_5_1x1, [CDS_DBS, CDS_DBS]),
     (CDS_P2P_GO_P2P_CLI_MCC_24_5_2x2, [CDS_DBS_DOWNGRADE, CDS_DBS_DOWNGRADE]),
     (CDS_P2P_GO_P2P_CLI_DBS_1x1, [CDS_NOP, CDS_NOP]),
     (CDS_P2P_GO_SAP_SCC_24_1x1, [CDS_NOP, CDS_DBS]),
     (CDS_P2P_GO_SAP_SCC_24_2x2, [CDS_NOP, CDS_DBS_DOWNGRADE]),
     (CDS_P2P_GO_SAP_MCC_24_1x1, [CDS_NOP, CDS_DBS]),
     (CDS_P2P_GO_SAP_MCC_24_2x2, [CDS_NOP, CDS_DBS_DOWNGRADE]),
     (CDS_P2P_GO_SAP_SCC_5_1x1, [CDS_DBS, CDS_NOP]),
     (CDS_P2P_GO_SAP_SCC_5_2x2, [CDS_DBS_DOWNGRADE, CDS_NOP]),
     (CDS_P2P_GO_SAP_MCC_5_1x1, [CDS_DBS, CDS_NOP]),
     (CDS_P2P_GO_SAP_MCC_5_2x2, [CDS_DBS_DOWNGRADE, CDS_NOP]),
     (CDS_P2P_GO_SAP_MCC_24_5_1x1, [CDS_DBS, CDS_DBS]),
     (CDS_P2P_GO_SAP_MCC_24_5_2x2, [CDS_DBS_DOWNGRADE, CDS_DBS_DOWNGRADE]),
     (CDS_P2P_GO_SAP_DBS_1x1, [CDS_NOP, CDS_NOP]),
     (CDS_P2P_CLI_SAP_SCC_24_1x1, [CDS_NOP, CDS_DBS]),
     (CDS_P2P_CLI_SAP_SCC_24_2x2, [CDS_NOP, CDS_DBS_DOWNGRADE]),
     (CDS_P2P_CLI_SAP_MCC_24_1x1, [CDS_NOP, CDS_DBS]),
     (CDS_P2P_CLI_SAP_MCC_24_2x2, [CDS_NOP, CDS_DBS_DOWNGRADE]),
     (CDS_P2P_CLI_SAP_SCC_5_1x1, [CDS_DBS, CDS_NOP]),
     (CDS_P2P_CLI_SAP_SCC_5_2x2, [CDS_DBS_DOWNGRADE, CDS_NOP]),
     (CDS_P2P_CLI_SAP_MCC_5_1x1, [CDS_DBS, CDS_NOP]),
     (CDS_P2P_CLI_SAP_MCC_5_2x2, [CDS_DBS_DOWNGRADE, CDS_NOP]),
     (CDS_P2P_CLI_SAP_MCC_24_5_1x1, [CDS_DBS, CDS_DBS]),
     (CDS_P2P_CLI_SAP_MCC_24_5_2x2, [CDS_DBS_DOWNGRADE, CDS_DBS_DOWNGRADE]),
     (CDS_P2P_CLI_SAP_DBS_1x1, [CDS_NOP, CDS_NOP])]"

end
