(* ===== verification/Conc_List.thy ===== *)
theory Conc_List
  imports Conc_Tables
begin

text \<open>
  The table of concurrent connections of the concurrency policy (\<open>conc_connection_list\<close> of
  \<open>core/cds/src/cds_concurrency.c\<close>): what is recorded of a connection, how the table is searched, and how an entry is added,
  updated, moved to another MAC, removed, and taken out for a while. The table has three entries; the theory shows that the
  operations are the operations of a list of at most three connections. The contexts of the driver exist, so the checks for a
  missing context are not modelled; the log messages are not modelled either.
\<close>

section \<open>State\<close>

datatype qdf_mode =
  QDF_STA_MODE | QDF_SAP_MODE | QDF_P2P_CLIENT_MODE | QDF_P2P_GO_MODE | QDF_MONITOR_MODE | QDF_IBSS_MODE | QDF_OTHER_MODE

datatype hw_mode_bandwidth =
  HW_MODE_BW_NONE | HW_MODE_5_MHZ | HW_MODE_10_MHZ | HW_MODE_20_MHZ | HW_MODE_40_MHZ | HW_MODE_80_MHZ | HW_MODE_80_PLUS_80_MHZ
  | HW_MODE_160_MHZ | HW_MODE_MAX_BANDWIDTH

datatype phy_ch_width =
  CH_WIDTH_20MHZ | CH_WIDTH_40MHZ | CH_WIDTH_80MHZ | CH_WIDTH_160MHZ | CH_WIDTH_80P80MHZ | CH_WIDTH_5MHZ | CH_WIDTH_10MHZ
  | CH_WIDTH_INVALID | CH_WIDTH_MAX

datatype conc_status = CDS_SUCCESS | CDS_E_FAILURE | CDS_E_NOSUPPORT | CDS_E_ALREADY

record cds_conc_connection_info =
  c_mode :: cds_con_mode
  c_chan :: nat
  c_bw :: hw_mode_bandwidth
  c_mac :: nat
  c_chain_mask :: cds_chain_mode
  c_original_nss :: nat
  c_vdev_id :: nat
  c_in_use :: bool

text \<open>An entry of zeros: the first constant of each enumeration.\<close>

definition zero_conn :: cds_conc_connection_info where
  "zero_conn = \<lparr>c_mode = CDS_STA_MODE, c_chan = 0, c_bw = HW_MODE_BW_NONE, c_mac = 0, c_chain_mask = CDS_ONE_ONE,
     c_original_nss = 0, c_vdev_id = 0, c_in_use = False\<rparr>"

definition MAX_NUMBER_OF_CONC_CONNECTIONS :: nat where
  "MAX_NUMBER_OF_CONC_CONNECTIONS = 3"

type_synonym conc_list = "cds_conc_connection_info list"

text \<open>\<open>cds_init_policy_mgr\<close> zeroes the table.\<close>

definition init_conc_list :: conc_list where
  "init_conc_list = replicate MAX_NUMBER_OF_CONC_CONNECTIONS zero_conn"

section \<open>Searching the table\<close>

definition valid_index :: "conc_list \<Rightarrow> nat \<Rightarrow> bool" where
  "valid_index l i \<longleftrightarrow> MAX_NUMBER_OF_CONC_CONNECTIONS > i \<and> c_in_use (l ! i)"

definition cds_get_connection_count :: "conc_list \<Rightarrow> nat" where
  "cds_get_connection_count l = length (filter (\<lambda>i. c_in_use (l ! i)) [0..<MAX_NUMBER_OF_CONC_CONNECTIONS])"

text \<open>The indices \<open>cds_mode_specific_connection_count\<close> writes to its list; it returns their number.\<close>

definition mode_indices :: "cds_con_mode \<Rightarrow> conc_list \<Rightarrow> nat list" where
  "mode_indices mode l = filter (\<lambda>i. c_mode (l ! i) = mode \<and> c_in_use (l ! i)) [0..<MAX_NUMBER_OF_CONC_CONNECTIONS]"

definition cds_mode_specific_connection_count :: "cds_con_mode \<Rightarrow> conc_list \<Rightarrow> nat" where
  "cds_mode_specific_connection_count mode l = length (mode_indices mode l)"

definition cds_get_connection_for_vdev_id :: "nat \<Rightarrow> conc_list \<Rightarrow> nat" where
  "cds_get_connection_for_vdev_id v l =
     (case find (\<lambda>i. c_vdev_id (l ! i) = v \<and> c_in_use (l ! i)) [0..<MAX_NUMBER_OF_CONC_CONNECTIONS] of
        Some i \<Rightarrow> i | None \<Rightarrow> MAX_NUMBER_OF_CONC_CONNECTIONS)"

text \<open>The loop that looks for an entry while the index is valid.\<close>

function conc_find :: "(cds_conc_connection_info \<Rightarrow> bool) \<Rightarrow> conc_list \<Rightarrow> nat \<Rightarrow> nat option" where
  "conc_find P l i = (if valid_index l i then if P (l ! i) then Some i else conc_find P l (Suc i) else None)"
  by pat_completeness auto
termination by (relation "measure (\<lambda>(P, l, i). MAX_NUMBER_OF_CONC_CONNECTIONS - i)") (auto simp: valid_index_def)

declare conc_find.simps [simp del]

section \<open>Channels and vdevs\<close>

text \<open>Channels of the regulatory tables (\<open>cds_reg_service.c\<close>); a channel is known by its number.\<close>

definition chan_mapping :: "nat list" where
  "chan_mapping = [1, 2, 3, 4, 5, 6, 7, 8, 9, 10, 11, 12, 13, 36, 40, 44, 48, 52, 56, 60, 64, 100, 104, 108, 112, 116, 120, 124, 128,
     132, 136, 140, 144, 149, 153, 157, 161, 165, 170, 171, 172, 173, 174, 175, 176, 177, 178, 179, 180, 181, 182, 183, 184]"

definition cds_get_channel_enum :: "nat \<Rightarrow> nat option" where
  "cds_get_channel_enum chan_num = find (\<lambda>loop. chan_mapping ! loop = chan_num) [0..<length chan_mapping]"

datatype channel_state = CHANNEL_STATE_DISABLE | CHANNEL_STATE_DFS | CHANNEL_STATE_ENABLE | CHANNEL_STATE_INVALID

definition CDS_IS_CHANNEL_24GHZ :: "nat \<Rightarrow> bool" where
  "CDS_IS_CHANNEL_24GHZ chan_num \<longleftrightarrow> chan_num \<ge> 1 \<and> chan_num \<le> 13"

definition CDS_IS_CHANNEL_5GHZ :: "nat \<Rightarrow> bool" where
  "CDS_IS_CHANNEL_5GHZ chan_num \<longleftrightarrow> chan_num \<ge> 36 \<and> chan_num \<le> 184"

definition CDS_IS_SAME_BAND_CHANNELS :: "nat \<Rightarrow> nat \<Rightarrow> bool" where
  "CDS_IS_SAME_BAND_CHANNELS c1 c2 \<longleftrightarrow> c1 \<noteq> 0 \<and> c2 \<noteq> 0 \<and> CDS_IS_CHANNEL_5GHZ c1 = CDS_IS_CHANNEL_5GHZ c2"

text \<open>Frequencies are 32-bit; the channel is truncated to 8 bits.\<close>

definition cds_freq_to_chan :: "u32 \<Rightarrow> nat" where
  "cds_freq_to_chan freq =
     unat (ucast (if freq > 2407 \<and> freq < 2484 then (freq - 2407) div 5
                  else if freq = 2484 then 14
                  else if freq > 2407 \<and> freq < 5000 then (freq - 2512) div 20 + 15
                  else (freq - 5000) div 5) :: u8)"

text \<open>
  Constants of the firmware interface, whose values the driver does not use: the types and subtypes of an interface.
\<close>

datatype wmi_vdev_type = WMI_VDEV_TYPE_AP | WMI_VDEV_TYPE_STA | WMI_VDEV_TYPE_IBSS | WMI_VDEV_TYPE_OTHER

datatype wmi_vdev_subtype = VDEV_SUBTYPE_0 | VDEV_SUBTYPE_P2P_GO | VDEV_SUBTYPE_P2P_CLIENT | VDEV_SUBTYPE_OTHER

text \<open>The fields of \<open>struct wma_txrx_node\<close> the policy reads; the number of the MAC and that of an interface are narrowed to 8 bits.\<close>

record wma_txrx_node =
  wma_type :: wmi_vdev_type
  wma_sub_type :: wmi_vdev_subtype
  wma_mhz :: u32
  wma_chan_width :: phy_ch_width
  wma_mac_id :: nat

fun cds_get_mode :: "wmi_vdev_type \<Rightarrow> wmi_vdev_subtype \<Rightarrow> cds_con_mode" where
  "cds_get_mode WMI_VDEV_TYPE_AP subtype =
     (case subtype of VDEV_SUBTYPE_0 \<Rightarrow> CDS_SAP_MODE | VDEV_SUBTYPE_P2P_GO \<Rightarrow> CDS_P2P_GO_MODE | _ \<Rightarrow> CDS_MAX_NUM_OF_MODE)"
| "cds_get_mode WMI_VDEV_TYPE_STA subtype =
     (case subtype of VDEV_SUBTYPE_0 \<Rightarrow> CDS_STA_MODE | VDEV_SUBTYPE_P2P_CLIENT \<Rightarrow> CDS_P2P_CLIENT_MODE | _ \<Rightarrow> CDS_MAX_NUM_OF_MODE)"
| "cds_get_mode WMI_VDEV_TYPE_IBSS subtype = CDS_IBSS_MODE"
| "cds_get_mode WMI_VDEV_TYPE_OTHER subtype = CDS_MAX_NUM_OF_MODE"

fun cds_get_bw :: "phy_ch_width \<Rightarrow> hw_mode_bandwidth" where
  "cds_get_bw CH_WIDTH_20MHZ = HW_MODE_20_MHZ"
| "cds_get_bw CH_WIDTH_40MHZ = HW_MODE_40_MHZ"
| "cds_get_bw CH_WIDTH_80MHZ = HW_MODE_80_MHZ"
| "cds_get_bw CH_WIDTH_160MHZ = HW_MODE_160_MHZ"
| "cds_get_bw CH_WIDTH_80P80MHZ = HW_MODE_80_PLUS_80_MHZ"
| "cds_get_bw CH_WIDTH_5MHZ = HW_MODE_5_MHZ"
| "cds_get_bw CH_WIDTH_10MHZ = HW_MODE_10_MHZ"
| "cds_get_bw _ = HW_MODE_BW_NONE"

text \<open>
  What the policy reads of the rest of the driver: the capability and the current mode of the hardware (\<open>wma_is_hw_dbs_capable\<close>,
  \<open>wma_get_current_hw_mode\<close>: its \<open>dbs_cap\<close>), the configuration, the regulatory state of a channel, the valid channels of SME,
  the unsafe channels of the platform, the streams of a device mode and the interfaces of WMA. \<open>max_num_chan\<close> is
  \<open>QDF_MAX_NUM_CHAN\<close>, a constant of the \<open>qdf\<close> library.
\<close>

record conc_env =
  hw_dbs_capable :: bool
  current_hw_mode :: "bool option"
  conc_system_pref :: nat
  gMaxConcurrentActiveSessions :: nat
  sub_20_mhz_enabled :: bool
  reg_channel_state :: "nat \<Rightarrow> channel_state"
  sme_valid_channels :: "nat list option"
  wlan_unsafe_channels :: "nat list"
  sme_nss_for_vdev :: "qdf_mode \<Rightarrow> nat \<times> nat"
  wma_interface :: "nat \<Rightarrow> wma_txrx_node option"
  max_num_chan :: nat

definition cds_get_channel_state :: "conc_env \<Rightarrow> nat \<Rightarrow> channel_state" where
  "cds_get_channel_state e chan_num =
     (case cds_get_channel_enum chan_num of None \<Rightarrow> CHANNEL_STATE_INVALID | Some c \<Rightarrow> reg_channel_state e c)"

definition CDS_IS_DFS_CH :: "conc_env \<Rightarrow> nat \<Rightarrow> bool" where
  "CDS_IS_DFS_CH e chan_num \<longleftrightarrow> cds_get_channel_state e chan_num = CHANNEL_STATE_DFS"

definition CDS_IS_PASSIVE_OR_DISABLE_CH :: "conc_env \<Rightarrow> nat \<Rightarrow> bool" where
  "CDS_IS_PASSIVE_OR_DISABLE_CH e chan_num \<longleftrightarrow> cds_get_channel_state e chan_num \<noteq> CHANNEL_STATE_ENABLE"

fun con_dev_mode :: "cds_con_mode \<Rightarrow> qdf_mode option" where
  "con_dev_mode CDS_STA_MODE = Some QDF_STA_MODE"
| "con_dev_mode CDS_SAP_MODE = Some QDF_SAP_MODE"
| "con_dev_mode CDS_P2P_CLIENT_MODE = Some QDF_P2P_CLIENT_MODE"
| "con_dev_mode CDS_P2P_GO_MODE = Some QDF_P2P_GO_MODE"
| "con_dev_mode CDS_IBSS_MODE = Some QDF_IBSS_MODE"
| "con_dev_mode CDS_MAX_NUM_OF_MODE = None"

definition cds_get_nss_for_vdev :: "conc_env \<Rightarrow> cds_con_mode \<Rightarrow> (nat \<times> nat) option" where
  "cds_get_nss_for_vdev e mode = map_option (sme_nss_for_vdev e) (con_dev_mode mode)"

section \<open>Changing the table\<close>

definition cds_update_conc_list :: "nat \<Rightarrow> cds_conc_connection_info \<Rightarrow> conc_list \<Rightarrow> conc_list" where
  "cds_update_conc_list conn_index c l = (if conn_index \<ge> MAX_NUMBER_OF_CONC_CONNECTIONS then l else l[conn_index := c])"

text \<open>The entry \<open>cds_incr_connection_count\<close> and \<open>cds_update_connection_info\<close> make for an interface.\<close>

definition conn_of_node :: "conc_env \<Rightarrow> nat \<Rightarrow> wma_txrx_node \<Rightarrow> cds_conc_connection_info" where
  "conn_of_node e vdev_id node =
     (let mode = cds_get_mode (wma_type node) (wma_sub_type node);
          chan = cds_freq_to_chan (wma_mhz node);
          (chain_mask, nss) =
            (case cds_get_nss_for_vdev e mode of
               Some (nss_2g, nss_5g) \<Rightarrow>
                 (if CDS_IS_CHANNEL_24GHZ chan \<and> nss_2g > 1 \<or> CDS_IS_CHANNEL_5GHZ chan \<and> nss_5g > 1 then CDS_TWO_TWO else CDS_ONE_ONE,
                  if CDS_IS_CHANNEL_24GHZ chan then nss_2g else nss_5g)
             | None \<Rightarrow> (CDS_ONE_ONE, 0))
      in \<lparr>c_mode = mode, c_chan = chan, c_bw = cds_get_bw (wma_chan_width node), c_mac = wma_mac_id node mod 256, c_chain_mask = chain_mask,
          c_original_nss = nss, c_vdev_id = vdev_id, c_in_use = True\<rparr>)"

definition cds_incr_connection_count :: "conc_env \<Rightarrow> nat \<Rightarrow> conc_list \<Rightarrow> conc_list \<times> conc_status" where
  "cds_incr_connection_count e vdev_id l =
     (let conn_index = cds_get_connection_count l in
      if gMaxConcurrentActiveSessions e < conn_index then (l, CDS_E_FAILURE)
      else case wma_interface e (vdev_id mod 256) of
        None \<Rightarrow> (l, CDS_E_FAILURE)
      | Some node \<Rightarrow> (cds_update_conc_list conn_index (conn_of_node e vdev_id node) l, CDS_SUCCESS))"

definition cds_update_connection_info :: "conc_env \<Rightarrow> nat \<Rightarrow> conc_list \<Rightarrow> conc_list \<times> conc_status" where
  "cds_update_connection_info e vdev_id l =
     (case conc_find (\<lambda>c. c_vdev_id c = vdev_id) l 0 of
        None \<Rightarrow> (l, CDS_E_FAILURE)
      | Some conn_index \<Rightarrow>
          (case wma_interface e (vdev_id mod 256) of
             None \<Rightarrow> (l, CDS_E_FAILURE)
           | Some node \<Rightarrow> (cds_update_conc_list conn_index (conn_of_node e vdev_id node) l, CDS_SUCCESS)))"

text \<open>The entries behind a removed one move up while they are in use; the last one moved is zeroed.\<close>

function shift_up :: "conc_list \<Rightarrow> nat \<Rightarrow> nat \<Rightarrow> conc_list" where
  "shift_up l conn_index next_conn_index =
     (if valid_index l next_conn_index
      then shift_up (l[conn_index := l ! next_conn_index]) (Suc conn_index) (Suc next_conn_index)
      else l[next_conn_index - 1 := zero_conn])"
  by pat_completeness auto
termination by (relation "measure (\<lambda>(l, i, j). MAX_NUMBER_OF_CONC_CONNECTIONS - j)") (auto simp: valid_index_def)

declare shift_up.simps [simp del]

definition cds_decr_connection_count :: "nat \<Rightarrow> conc_list \<Rightarrow> conc_list \<times> conc_status" where
  "cds_decr_connection_count vdev_id l =
     (case conc_find (\<lambda>c. c_vdev_id c = vdev_id) l 0 of
        None \<Rightarrow> (l, CDS_E_FAILURE)
      | Some conn_index \<Rightarrow> (shift_up l conn_index (conn_index + 1), CDS_SUCCESS))"

definition cds_store_and_del_conn_info :: "cds_con_mode \<Rightarrow> conc_list \<Rightarrow> conc_list \<times> cds_conc_connection_info" where
  "cds_store_and_del_conn_info mode l =
     (case conc_find (\<lambda>c. c_mode c = mode) l 0 of
        None \<Rightarrow> (l, zero_conn)
      | Some conn_index \<Rightarrow> (fst (cds_decr_connection_count (c_vdev_id (l ! conn_index)) l), l ! conn_index))"

definition cds_restore_deleted_conn_info :: "cds_conc_connection_info \<Rightarrow> conc_list \<Rightarrow> conc_list" where
  "cds_restore_deleted_conn_info info l =
     (let conn_index = cds_get_connection_count l in
      if MAX_NUMBER_OF_CONC_CONNECTIONS \<le> conn_index then l else l[conn_index := info])"

text \<open>The map of vdevs to MACs the firmware reports with a new hardware mode.\<close>

definition set_vdev_mac :: "nat \<times> nat \<Rightarrow> conc_list \<Rightarrow> conc_list" where
  "set_vdev_mac m l =
     (case conc_find (\<lambda>c. fst m = c_vdev_id c) l 0 of
        None \<Rightarrow> l | Some conn_index \<Rightarrow> l[conn_index := (l ! conn_index)\<lparr>c_mac := snd m mod 256\<rparr>])"

definition cds_update_hw_mode_conn_info :: "(nat \<times> nat) list \<Rightarrow> conc_list \<Rightarrow> conc_list" where
  "cds_update_hw_mode_conn_info vdev_mac_map l = fold set_vdev_mac vdev_mac_map l"


section \<open>The table is a list of at most three connections\<close>

definition active :: "conc_list \<Rightarrow> cds_conc_connection_info list" where
  "active l = takeWhile c_in_use l"

definition conc_repr :: "cds_conc_connection_info list \<Rightarrow> conc_list" where
  "conc_repr cs = cs @ replicate (MAX_NUMBER_OF_CONC_CONNECTIONS - length cs) zero_conn"

definition conc_ok :: "cds_conc_connection_info list \<Rightarrow> bool" where
  "conc_ok cs \<longleftrightarrow> length cs \<le> MAX_NUMBER_OF_CONC_CONNECTIONS \<and> (\<forall>c \<in> set cs. c_in_use c)"

definition conc_wf :: "conc_list \<Rightarrow> bool" where
  "conc_wf l \<longleftrightarrow> conc_ok (active l) \<and> l = conc_repr (active l)"

text \<open>The operations on the list: the first connection that satisfies a condition is changed or removed.\<close>

fun update_first :: "('a \<Rightarrow> bool) \<Rightarrow> ('a \<Rightarrow> 'a) \<Rightarrow> 'a list \<Rightarrow> 'a list" where
  "update_first P f [] = []"
| "update_first P f (x # xs) = (if P x then f x # xs else x # update_first P f xs)"

fun delete_first :: "('a \<Rightarrow> bool) \<Rightarrow> 'a list \<Rightarrow> 'a list" where
  "delete_first P [] = []"
| "delete_first P (x # xs) = (if P x then xs else x # delete_first P xs)"

fun index_of :: "('a \<Rightarrow> bool) \<Rightarrow> 'a list \<Rightarrow> nat option" where
  "index_of P [] = None"
| "index_of P (x # xs) = (if P x then Some 0 else map_option Suc (index_of P xs))"

lemma not_zero_in_use [simp]: "\<not> c_in_use zero_conn"
  by (simp add: zero_conn_def)

lemma active_repr [simp]: "conc_ok cs \<Longrightarrow> active (conc_repr cs) = cs"
  by (simp add: active_def conc_repr_def conc_ok_def takeWhile_append takeWhile_replicate)

lemma conc_wf_repr [simp]: "conc_ok cs \<Longrightarrow> conc_wf (conc_repr cs)"
  by (simp add: conc_wf_def)

lemma conc_wfE: assumes "conc_wf l" obtains cs where "conc_ok cs" "l = conc_repr cs"
  using assms by (auto simp: conc_wf_def)

lemma conc_ok_Nil [simp]: "conc_ok []"
  by (simp add: conc_ok_def)

lemma repr_length [simp]: "conc_ok cs \<Longrightarrow> length (conc_repr cs) = MAX_NUMBER_OF_CONC_CONNECTIONS"
  by (simp add: conc_repr_def conc_ok_def)

lemma repr_nth [simp]: "i < length cs \<Longrightarrow> conc_repr cs ! i = cs ! i"
  by (simp add: conc_repr_def nth_append)

lemma repr_nth_zero: "length cs \<le> i \<Longrightarrow> i < MAX_NUMBER_OF_CONC_CONNECTIONS \<Longrightarrow> conc_repr cs ! i = zero_conn"
  by (simp add: conc_repr_def nth_append)

lemma valid_repr: "conc_ok cs \<Longrightarrow> valid_index (conc_repr cs) i \<longleftrightarrow> i < length cs"
  using repr_nth_zero [of cs i] by (cases "i < length cs") (auto simp: valid_index_def conc_ok_def)

lemma init_repr: "init_conc_list = conc_repr []"
  by (simp add: init_conc_list_def conc_repr_def)

lemma find_repr: "conc_ok cs \<Longrightarrow> i \<le> length cs \<Longrightarrow> conc_find P (conc_repr cs) i = map_option ((+) i) (index_of P (drop i cs))"
proof (induction "length cs - i" arbitrary: i)
  case 0
  then show ?case by (simp add: conc_find.simps [of P "conc_repr cs" i] valid_repr)
next
  case (Suc n)
  then have "i < length cs" by simp
  with Suc.prems have e: "valid_index (conc_repr cs) i" "conc_repr cs ! i = cs ! i" "drop i cs = cs ! i # drop (Suc i) cs"
    by (simp_all add: valid_repr Cons_nth_drop_Suc)
  have "conc_find P (conc_repr cs) (Suc i) = map_option ((+) (Suc i)) (index_of P (drop (Suc i) cs))"
    using Suc \<open>i < length cs\<close> by (intro Suc.hyps(1)) auto
  moreover have "(+) (Suc i) = (+) i \<circ> Suc" by auto
  ultimately show ?case using e by (simp add: conc_find.simps [of P "conc_repr cs" i] option.map_comp)
qed

lemmas find_repr_0 = find_repr [of _ 0, simplified, folded id_def, unfolded option.map_id id_apply]

lemma index_of_Some: "index_of P cs = Some i \<Longrightarrow> i < length cs \<and> P (cs ! i)"
  by (induction cs arbitrary: i) (auto split: if_splits)

lemma index_of_None: "index_of P cs = None \<longleftrightarrow> (\<forall>c \<in> set cs. \<not> P c)"
  by (induction cs) auto

lemma update_first_index:
  "update_first P f cs = (case index_of P cs of None \<Rightarrow> cs | Some i \<Rightarrow> cs[i := f (cs ! i)])"
  by (induction cs) (auto split: option.splits)

lemma delete_first_index:
  "delete_first P cs = (case index_of P cs of None \<Rightarrow> cs | Some i \<Rightarrow> take i cs @ drop (Suc i) cs)"
  by (induction cs) (auto split: option.splits)

lemma set_delete_first: "set (delete_first P cs) \<subseteq> set cs"
  by (induction cs) auto

lemma length_delete_first: "length (delete_first P cs) \<le> length cs"
  by (induction cs) auto

lemma mset_delete_first:
  "index_of P cs = Some i \<Longrightarrow> add_mset (cs ! i) (mset (delete_first P cs)) = mset cs"
  by (induction cs arbitrary: i) (auto split: if_splits)

lemma conc_ok_remove: "conc_ok cs \<Longrightarrow> conc_ok (delete_first P cs)"
  using set_delete_first [of P cs] length_delete_first [of P cs] by (auto simp: conc_ok_def)

lemma conc_ok_update:
  assumes "conc_ok cs" "\<And>c. c_in_use c \<Longrightarrow> c_in_use (f c)"
  shows "conc_ok (update_first P f cs)"
proof -
  have "length (update_first P f cs) = length cs" by (induction cs) auto
  moreover have "\<forall>c \<in> set cs. c_in_use c \<Longrightarrow> \<forall>c \<in> set (update_first P f cs). c_in_use c"
    using assms(2) by (induction cs) auto
  ultimately show ?thesis using assms(1) by (simp add: conc_ok_def)
qed

lemma filter_upt_less: "k \<le> n \<Longrightarrow> filter (\<lambda>i. i < k) [0..<n] = [0..<k]"
  by (induction n) (auto simp: le_Suc_eq)

lemma count_repr: "conc_ok cs \<Longrightarrow> cds_get_connection_count (conc_repr cs) = length cs"
proof -
  assume ok: "conc_ok cs"
  have "filter (\<lambda>i. c_in_use (conc_repr cs ! i)) [0..<MAX_NUMBER_OF_CONC_CONNECTIONS] = filter (\<lambda>i. i < length cs) [0..<MAX_NUMBER_OF_CONC_CONNECTIONS]"
    using valid_repr [OF ok] by (intro filter_cong) (auto simp: valid_index_def)
  also have "\<dots> = [0..<length cs]"
    using ok by (intro filter_upt_less) (simp add: conc_ok_def)
  finally show ?thesis by (simp add: cds_get_connection_count_def)
qed

lemma repr_append:
  assumes "conc_ok cs" "length cs < MAX_NUMBER_OF_CONC_CONNECTIONS"
  shows "(conc_repr cs)[length cs := c] = conc_repr (cs @ [c])"
  using assms by (cases "MAX_NUMBER_OF_CONC_CONNECTIONS - length cs") (auto simp: conc_repr_def)

lemma repr_update: "i < length cs \<Longrightarrow> (conc_repr cs)[i := c] = conc_repr (cs[i := c])"
  by (simp add: conc_repr_def list_update_append)


lemma shift_repr:
  "conc_ok (xs @ c # ys) \<Longrightarrow> shift_up (conc_repr (xs @ c # ys)) (length xs) (Suc (length xs)) = conc_repr (xs @ ys)"
proof (induction ys arbitrary: xs c)
  case Nil
  from Nil.prems have n: "length xs < MAX_NUMBER_OF_CONC_CONNECTIONS" by (simp add: conc_ok_def)
  have "(conc_repr (xs @ [c]))[length xs := zero_conn] = xs @ zero_conn # replicate (MAX_NUMBER_OF_CONC_CONNECTIONS - Suc (length xs)) zero_conn"
    by (simp add: conc_repr_def)
  also have "\<dots> = conc_repr xs"
    using n by (simp add: conc_repr_def Suc_diff_Suc flip: replicate_Suc)
  finally show ?case using Nil.prems by (simp add: shift_up.simps [of _ "length xs"] valid_repr)
next
  case (Cons y ys)
  have "conc_repr (xs @ c # y # ys) ! Suc (length xs) = y" by (simp add: nth_append)
  moreover have "(conc_repr (xs @ c # y # ys))[length xs := y] = conc_repr ((xs @ [y]) @ y # ys)"
    by (simp add: repr_update list_update_append)
  moreover have "shift_up (conc_repr ((xs @ [y]) @ y # ys)) (length (xs @ [y])) (Suc (length (xs @ [y]))) = conc_repr ((xs @ [y]) @ ys)"
    using Cons.prems by (intro Cons.IH) (auto simp: conc_ok_def)
  ultimately show ?case
    using Cons.prems by (simp add: shift_up.simps [of "conc_repr (xs @ c # y # ys)"] valid_repr)
qed

section \<open>The operations on the list\<close>

lemma conn_of_node_in_use [simp]: "c_in_use (conn_of_node e v node)" "c_vdev_id (conn_of_node e v node) = v"
  by (simp_all add: conn_of_node_def Let_def split: prod.splits)

lemma incr_repr:
  assumes ok: "conc_ok cs"
  shows "cds_incr_connection_count e v (conc_repr cs) =
    (case wma_interface e (v mod 256) of
       Some node \<Rightarrow>
         if gMaxConcurrentActiveSessions e < length cs then (conc_repr cs, CDS_E_FAILURE)
         else (conc_repr (if length cs < MAX_NUMBER_OF_CONC_CONNECTIONS then cs @ [conn_of_node e v node] else cs), CDS_SUCCESS)
     | None \<Rightarrow> (conc_repr cs, CDS_E_FAILURE))"
  using ok by (auto simp: cds_incr_connection_count_def count_repr cds_update_conc_list_def repr_append Let_def split: option.splits)

lemma conc_ok_snoc: "conc_ok cs \<Longrightarrow> length cs < MAX_NUMBER_OF_CONC_CONNECTIONS \<Longrightarrow> c_in_use c \<Longrightarrow> conc_ok (cs @ [c])"
  by (simp add: conc_ok_def)

lemma update_repr:
  assumes ok: "conc_ok cs"
  shows "fst (cds_update_connection_info e v (conc_repr cs)) =
    conc_repr (case wma_interface e (v mod 256) of None \<Rightarrow> cs
      | Some node \<Rightarrow> update_first (\<lambda>c. c_vdev_id c = v) (\<lambda>_. conn_of_node e v node) cs)"
proof (cases "index_of (\<lambda>c. c_vdev_id c = v) cs")
  case None
  with ok show ?thesis by (auto simp: cds_update_connection_info_def find_repr_0 update_first_index split: option.splits)
next
  case (Some i)
  then have "i < length cs" by (auto dest: index_of_Some)
  with ok have "i < length cs" "\<not> MAX_NUMBER_OF_CONC_CONNECTIONS \<le> i" by (simp_all add: conc_ok_def)
  with ok Some show ?thesis
    by (auto simp: cds_update_connection_info_def find_repr_0 update_first_index cds_update_conc_list_def repr_update split: option.splits)
qed

lemma decr_repr:
  assumes ok: "conc_ok cs"
  shows "fst (cds_decr_connection_count v (conc_repr cs)) = conc_repr (delete_first (\<lambda>c. c_vdev_id c = v) cs)"
proof (cases "index_of (\<lambda>c. c_vdev_id c = v) cs")
  case None
  with ok show ?thesis by (simp add: cds_decr_connection_count_def find_repr_0 delete_first_index)
next
  case (Some i)
  then have i: "i < length cs" by (auto dest: index_of_Some)
  then have split: "cs = take i cs @ cs ! i # drop (Suc i) cs" by (rule id_take_nth_drop)
  have "shift_up (conc_repr (take i cs @ cs ! i # drop (Suc i) cs)) (length (take i cs)) (Suc (length (take i cs)))
      = conc_repr (take i cs @ drop (Suc i) cs)"
    using ok split by (intro shift_repr) simp
  with i Some ok split show ?thesis by (simp add: cds_decr_connection_count_def find_repr_0 delete_first_index)
qed

lemma restore_repr:
  assumes ok: "conc_ok cs"
  shows "cds_restore_deleted_conn_info c (conc_repr cs) = conc_repr (if length cs < MAX_NUMBER_OF_CONC_CONNECTIONS then cs @ [c] else cs)"
  using ok by (auto simp: cds_restore_deleted_conn_info_def count_repr repr_append)

lemma set_mac_repr:
  assumes ok: "conc_ok cs"
  shows "set_vdev_mac m (conc_repr cs) = conc_repr (update_first (\<lambda>c. c_vdev_id c = fst m) (\<lambda>c. c\<lparr>c_mac := snd m mod 256\<rparr>) cs)"
  using ok by (auto simp: set_vdev_mac_def find_repr_0 update_first_index repr_update eq_commute [of "fst m"]
      dest: index_of_Some split: option.splits)

lemma store_repr:
  assumes ok: "conc_ok cs"
  shows "cds_store_and_del_conn_info mode (conc_repr cs) =
    (case index_of (\<lambda>c. c_mode c = mode) cs of
       None \<Rightarrow> (conc_repr cs, zero_conn)
     | Some i \<Rightarrow> (conc_repr (delete_first (\<lambda>c. c_vdev_id c = c_vdev_id (cs ! i)) cs), cs ! i))"
  using ok by (auto simp: cds_store_and_del_conn_info_def find_repr_0 decr_repr dest: index_of_Some split: option.splits)


section \<open>Runs of the operations\<close>

datatype conc_op = ConnUp nat | ConnUpdate nat | ConnDown nat | HwModeReport "(nat \<times> nat) list" | RefreshPcl cds_con_mode

fun conc_call :: "conc_env \<Rightarrow> conc_op \<Rightarrow> conc_list \<Rightarrow> conc_list" where
  "conc_call e (ConnUp v) l = fst (cds_incr_connection_count e v l)"
| "conc_call e (ConnUpdate v) l = fst (cds_update_connection_info e v l)"
| "conc_call e (ConnDown v) l = fst (cds_decr_connection_count v l)"
| "conc_call e (HwModeReport m) l = cds_update_hw_mode_conn_info m l"
| "conc_call e (RefreshPcl mode) l =
     (if cds_mode_specific_connection_count mode l > 0
      then case cds_store_and_del_conn_info mode l of (l', info) \<Rightarrow> cds_restore_deleted_conn_info info l' else l)"

text \<open>The same operations on the list of connections.\<close>

fun conn_spec :: "conc_env \<Rightarrow> conc_op \<Rightarrow> cds_conc_connection_info list \<Rightarrow> cds_conc_connection_info list" where
  "conn_spec e (ConnUp v) cs =
     (case wma_interface e (v mod 256) of
        Some node \<Rightarrow> if length cs \<le> gMaxConcurrentActiveSessions e \<and> length cs < MAX_NUMBER_OF_CONC_CONNECTIONS
                     then cs @ [conn_of_node e v node] else cs
      | None \<Rightarrow> cs)"
| "conn_spec e (ConnUpdate v) cs =
     (case wma_interface e (v mod 256) of
        Some node \<Rightarrow> update_first (\<lambda>c. c_vdev_id c = v) (\<lambda>_. conn_of_node e v node) cs
      | None \<Rightarrow> cs)"
| "conn_spec e (ConnDown v) cs = delete_first (\<lambda>c. c_vdev_id c = v) cs"
| "conn_spec e (HwModeReport m) cs = fold (\<lambda>m. update_first (\<lambda>c. c_vdev_id c = fst m) (\<lambda>c. c\<lparr>c_mac := snd m mod 256\<rparr>)) m cs"
| "conn_spec e (RefreshPcl mode) cs =
     (case index_of (\<lambda>c. c_mode c = mode) cs of
        None \<Rightarrow> cs
      | Some i \<Rightarrow> delete_first (\<lambda>c. c_vdev_id c = c_vdev_id (cs ! i)) cs @ [cs ! i])"

lemma mode_indices_repr:
  assumes ok: "conc_ok cs"
  shows "mode_indices mode (conc_repr cs) = filter (\<lambda>i. c_mode (cs ! i) = mode) [0..<length cs]"
proof -
  have "mode_indices mode (conc_repr cs) = filter (\<lambda>i. i < length cs \<and> c_mode (conc_repr cs ! i) = mode) [0..<MAX_NUMBER_OF_CONC_CONNECTIONS]"
    unfolding mode_indices_def using valid_repr [OF ok] by (intro filter_cong) (auto simp: valid_index_def)
  also have "\<dots> = filter (\<lambda>i. c_mode (conc_repr cs ! i) = mode) (filter (\<lambda>i. i < length cs) [0..<MAX_NUMBER_OF_CONC_CONNECTIONS])"
    by (simp add: conj_commute)
  also have "\<dots> = filter (\<lambda>i. c_mode (conc_repr cs ! i) = mode) [0..<length cs]"
    using ok by (simp add: filter_upt_less conc_ok_def)
  also have "\<dots> = filter (\<lambda>i. c_mode (cs ! i) = mode) [0..<length cs]"
    by (intro filter_cong) auto
  finally show ?thesis .
qed

lemma mode_count_repr:
  assumes ok: "conc_ok cs"
  shows "cds_mode_specific_connection_count mode (conc_repr cs) = length (filter (\<lambda>c. c_mode c = mode) cs)"
proof -
  have "length (filter (\<lambda>i. c_mode (cs ! i) = mode) [0..<length cs]) = length (filter (\<lambda>c. c_mode c = mode) (map ((!) cs) [0..<length cs]))"
    by (simp add: filter_map comp_def)
  then show ?thesis by (simp add: cds_mode_specific_connection_count_def mode_indices_repr [OF ok] map_nth)
qed

lemma fold_mac_repr:
  "conc_ok cs \<Longrightarrow> fold set_vdev_mac m (conc_repr cs) =
     conc_repr (fold (\<lambda>m. update_first (\<lambda>c. c_vdev_id c = fst m) (\<lambda>c. c\<lparr>c_mac := snd m mod 256\<rparr>)) m cs) \<and>
     conc_ok (fold (\<lambda>m. update_first (\<lambda>c. c_vdev_id c = fst m) (\<lambda>c. c\<lparr>c_mac := snd m mod 256\<rparr>)) m cs)"
  by (induction m arbitrary: cs) (auto simp: set_mac_repr conc_ok_update)

lemma remove_index_shorter: "index_of P cs = Some i \<Longrightarrow> Suc (length (delete_first P cs)) = length cs"
  by (induction cs arbitrary: i) (auto split: if_splits)

lemma same_vdev_found: "i < length cs \<Longrightarrow> \<exists>j. index_of (\<lambda>c. c_vdev_id c = c_vdev_id (cs ! i)) cs = Some j"
  using index_of_None [of "\<lambda>c. c_vdev_id c = c_vdev_id (cs ! i)" cs] by (cases "index_of (\<lambda>c. c_vdev_id c = c_vdev_id (cs ! i)) cs") auto

lemma conc_call_repr:
  assumes ok: "conc_ok cs"
  shows "conc_call e op (conc_repr cs) = conc_repr (conn_spec e op cs) \<and> conc_ok (conn_spec e op cs)"
proof (cases op)
  case (ConnUp v)
  with ok show ?thesis by (auto simp: incr_repr conc_ok_snoc split: option.splits)
next
  case (ConnUpdate v)
  with ok show ?thesis by (auto simp: update_repr conc_ok_update split: option.splits)
next
  case (ConnDown v)
  with ok show ?thesis by (simp add: decr_repr conc_ok_remove)
next
  case (HwModeReport m)
  with ok fold_mac_repr [OF ok, of m] show ?thesis by (simp add: cds_update_hw_mode_conn_info_def)
next
  case (RefreshPcl mode)
  show ?thesis
  proof (cases "index_of (\<lambda>c. c_mode c = mode) cs")
    case None
    then have "filter (\<lambda>c. c_mode c = mode) cs = []" by (simp add: index_of_None filter_empty_conv)
    with RefreshPcl ok None show ?thesis by (simp add: mode_count_repr)
  next
    case (Some i)
    let ?P = "\<lambda>c. c_vdev_id c = c_vdev_id (cs ! i)"
    from Some have i: "i < length cs" "c_mode (cs ! i) = mode" by (auto dest: index_of_Some)
    then have "filter (\<lambda>c. c_mode c = mode) cs \<noteq> []" by (auto simp: filter_empty_conv)
    then have pos: "cds_mode_specific_connection_count mode (conc_repr cs) > 0" by (simp add: mode_count_repr [OF ok])
    from same_vdev_found [OF i(1)] obtain j where "index_of ?P cs = Some j" by blast
    from remove_index_shorter [OF this] have len: "length (delete_first ?P cs) < MAX_NUMBER_OF_CONC_CONNECTIONS"
      using ok by (simp add: conc_ok_def)
    from conc_ok_remove [OF ok] len i(1) have "conc_ok (delete_first ?P cs @ [cs ! i])"
      using ok by (intro conc_ok_snoc) (auto simp: conc_ok_def)
    with RefreshPcl Some pos len conc_ok_remove [OF ok, of ?P] show ?thesis by (simp add: store_repr [OF ok] restore_repr)
  qed
qed


lemma conc_list_refine: "conc_wf l \<Longrightarrow> conc_wf (conc_call e op l) \<and> active (conc_call e op l) = conn_spec e op (active l)"
  by (elim conc_wfE) (simp add: conc_call_repr)

text \<open>
  C16: The operations on the table of three entries (\<open>cds_incr_connection_count\<close>, \<open>cds_update_connection_info\<close>,
  \<open>cds_decr_connection_count\<close>, \<open>cds_update_hw_mode_conn_info\<close> and the removal and return of an entry around a request for a
  preferred channel list) are the operations of a list of at most three connections: append, change or remove the first
  entry of a vdev, move an entry to the end. The entries in use stay in front and the others stay zeroed.
\<close>

theorem conc_list_refines:
  assumes "conc_wf l"
  shows "conc_wf (conc_call e op l) \<and> active (conc_call e op l) = conn_spec e op (active l)"
  using assms by (rule conc_list_refine)

definition sta_node :: "u32 \<Rightarrow> wma_txrx_node" where
  "sta_node mhz = \<lparr>wma_type = WMI_VDEV_TYPE_STA, wma_sub_type = VDEV_SUBTYPE_0, wma_mhz = mhz, wma_chan_width = CH_WIDTH_20MHZ, wma_mac_id = 0\<rparr>"

definition ap_node :: "u32 \<Rightarrow> wma_txrx_node" where
  "ap_node mhz = \<lparr>wma_type = WMI_VDEV_TYPE_AP, wma_sub_type = VDEV_SUBTYPE_0, wma_mhz = mhz, wma_chan_width = CH_WIDTH_20MHZ, wma_mac_id = 0\<rparr>"

text \<open>An environment with a station on channel 36, vdev 0, and access points on channel 6.\<close>

definition demo_conc_env :: conc_env where
  "demo_conc_env = \<lparr>hw_dbs_capable = False, current_hw_mode = Some False, conc_system_pref = 0, gMaxConcurrentActiveSessions = 1,
     sub_20_mhz_enabled = False, reg_channel_state = (\<lambda>_. CHANNEL_STATE_ENABLE), sme_valid_channels = Some [1, 6, 11, 36, 40],
     wlan_unsafe_channels = [], sme_nss_for_vdev = (\<lambda>_. (2, 2)),
     wma_interface = (\<lambda>v. if v = 0 then Some (sta_node 5180) else Some (ap_node 2437)), max_num_chan = 128\<rparr>"

lemma demo_conc_env_simps [simp]:
  "wma_interface demo_conc_env 0 = Some (sta_node 5180)" "wma_interface demo_conc_env (Suc 0) = Some (ap_node 2437)"
  "gMaxConcurrentActiveSessions demo_conc_env = 1" "hw_dbs_capable demo_conc_env = False" "sub_20_mhz_enabled demo_conc_env = False"
  by (simp_all add: demo_conc_env_def)

theorem conc_list_refines_witness:
  "conc_wf (conc_call demo_conc_env (ConnUp 0) init_conc_list) \<and>
   active (conc_call demo_conc_env (ConnUp 0) init_conc_list) = [conn_of_node demo_conc_env 0 (sta_node 5180)]"
  using conc_list_refines [of init_conc_list demo_conc_env "ConnUp 0"] by (simp add: init_repr MAX_NUMBER_OF_CONC_CONNECTIONS_def)

text \<open>The driver in one environment: the number of connections is limited by the configuration.\<close>

inductive conc_step :: "conc_env \<Rightarrow> conc_list \<Rightarrow> conc_list \<Rightarrow> bool" for e where
  "conc_step e l (conc_call e op l)"

definition conc_inv :: "conc_env \<Rightarrow> conc_list \<Rightarrow> bool" where
  "conc_inv e l \<longleftrightarrow> conc_wf l \<and> length (active l) \<le> Suc (gMaxConcurrentActiveSessions e)"

lemma length_update_first [simp]: "length (update_first P f xs) = length xs"
  by (induction xs) auto

lemma length_fold_update: "length (fold (\<lambda>m. update_first (P m) (f m)) ms xs) = length xs"
  by (induction ms arbitrary: xs) auto

lemma conn_spec_length:
  assumes "length cs \<le> Suc (gMaxConcurrentActiveSessions e)"
  shows "length (conn_spec e op cs) \<le> Suc (gMaxConcurrentActiveSessions e)"
proof (cases op)
  case (ConnUp v)
  with assms show ?thesis by (simp split: option.splits)
next
  case (ConnUpdate v)
  with assms show ?thesis by (simp split: option.splits)
next
  case (ConnDown v)
  with assms le_trans [OF length_delete_first] show ?thesis by simp
next
  case (HwModeReport m)
  with assms show ?thesis by (simp add: length_fold_update)
next
  case (RefreshPcl mode)
  show ?thesis
  proof (cases "index_of (\<lambda>c. c_mode c = mode) cs")
    case None
    with assms RefreshPcl show ?thesis by simp
  next
    case (Some i)
    then obtain j where "index_of (\<lambda>c. c_vdev_id c = c_vdev_id (cs ! i)) cs = Some j"
      using same_vdev_found [of i cs] by (auto dest: index_of_Some)
    from remove_index_shorter [OF this] RefreshPcl Some assms show ?thesis by simp
  qed
qed

interpretation cl: machine "\<lambda>l. l = init_conc_list" "conc_step e" "conc_inv e" for e
  by unfold_locales (auto simp: conc_inv_def init_repr conc_list_refine conn_spec_length elim!: conc_step.cases)

text \<open>
  However the operations are interleaved, the entries in use are the first ones and every search that stops at the first
  unused entry sees all of them; there are at most three connections, and at most one more than the configured maximum, which
  the test in \<open>cds_incr_connection_count\<close> admits (the witness: two connections where one is configured).
\<close>

theorem conc_table_reachable:
  assumes "(conc_step e)\<^sup>*\<^sup>* init_conc_list l"
  shows "(valid_index l i \<longleftrightarrow> i < cds_get_connection_count l) \<and> cds_get_connection_count l \<le> 3 \<and>
    cds_get_connection_count l \<le> Suc (gMaxConcurrentActiveSessions e)"
proof -
  have "conc_inv e l" by (rule cl.reachable_inv [OF refl assms])
  then obtain cs where "conc_ok cs" "l = conc_repr cs" "length cs \<le> Suc (gMaxConcurrentActiveSessions e)"
    by (auto simp: conc_inv_def elim!: conc_wfE)
  moreover from this(1) have "length cs \<le> 3" by (simp add: conc_ok_def MAX_NUMBER_OF_CONC_CONNECTIONS_def)
  ultimately show ?thesis by (simp add: count_repr valid_repr)
qed

definition two_conns :: "cds_conc_connection_info list" where
  "two_conns = [conn_of_node demo_conc_env 0 (sta_node 5180), conn_of_node demo_conc_env 1 (ap_node 2437)]"

definition two_up :: conc_list where
  "two_up = conc_call demo_conc_env (ConnUp 1) (conc_call demo_conc_env (ConnUp 0) init_conc_list)"

lemma two_conns_ok [simp]: "conc_ok two_conns" "length two_conns = 2" "map c_vdev_id two_conns = [0, 1]"
  by (simp_all add: two_conns_def conc_ok_def MAX_NUMBER_OF_CONC_CONNECTIONS_def)

lemma two_up_repr: "two_up = conc_repr two_conns"
proof -
  have "conc_ok [conn_of_node demo_conc_env 0 (sta_node 5180)]" by (simp add: conc_ok_def MAX_NUMBER_OF_CONC_CONNECTIONS_def)
  then show ?thesis
    by (simp add: two_up_def two_conns_def init_repr incr_repr MAX_NUMBER_OF_CONC_CONNECTIONS_def)
qed

lemma two_up_reached: "(conc_step demo_conc_env)\<^sup>*\<^sup>* init_conc_list two_up"
proof -
  have "conc_step demo_conc_env init_conc_list (conc_call demo_conc_env (ConnUp 0) init_conc_list)"
    "conc_step demo_conc_env (conc_call demo_conc_env (ConnUp 0) init_conc_list) two_up"
    unfolding two_up_def by (rule conc_step.intros)+
  then show ?thesis by (rule converse_rtranclp_into_rtranclp [OF _ r_into_rtranclp])
qed

theorem conc_table_reachable_witness:
  "cds_get_connection_count two_up = 2 \<and> gMaxConcurrentActiveSessions demo_conc_env = 1 \<and> (valid_index two_up 1 \<longleftrightarrow> 1 < cds_get_connection_count two_up)"
  using conc_table_reachable [OF two_up_reached, of 1] count_repr [OF two_conns_ok(1)] by (simp add: two_up_repr)

lemma refresh_mset:
  assumes "conc_wf l" "distinct (map c_vdev_id (active l))"
  shows "mset (active (conc_call e (RefreshPcl mode) l)) = mset (active l) \<and>
    (cds_mode_specific_connection_count mode l > 0 \<longrightarrow> c_mode (last (active (conc_call e (RefreshPcl mode) l))) = mode)"
proof -
  from assms(1) obtain cs where cs: "conc_ok cs" "l = conc_repr cs" by (rule conc_wfE)
  have act: "active (conc_call e (RefreshPcl mode) l) = conn_spec e (RefreshPcl mode) cs"
    using conc_list_refine [OF assms(1), of e "RefreshPcl mode"] cs by simp
  show ?thesis
  proof (cases "index_of (\<lambda>c. c_mode c = mode) cs")
    case None
    then have "filter (\<lambda>c. c_mode c = mode) cs = []" by (simp add: index_of_None filter_empty_conv)
    with None act cs show ?thesis by (simp add: mode_count_repr)
  next
    case (Some i)
    let ?P = "\<lambda>c. c_vdev_id c = c_vdev_id (cs ! i)"
    from Some have i: "i < length cs" "c_mode (cs ! i) = mode" by (auto dest: index_of_Some)
    from same_vdev_found [OF i(1)] obtain j where j: "index_of ?P cs = Some j" by blast
    with i(1) assms(2) cs have "j = i" by (auto dest!: index_of_Some simp: distinct_conv_nth)
    with mset_delete_first [OF j] Some act cs i(2) show ?thesis by (simp del: conc_call.simps)
  qed
qed

text \<open>
  Taking the connection of a mode out of the table and putting it back (\<open>cds_store_and_del_conn_info\<close>,
  \<open>cds_restore_deleted_conn_info\<close>) loses no connection and changes none, when vdevs have one entry each; the connection is
  the last one afterwards.
\<close>

theorem conc_refresh_keeps:
  assumes "conc_wf l" "distinct (map c_vdev_id (active l))"
  shows "mset (active (conc_call e (RefreshPcl mode) l)) = mset (active l) \<and>
    (cds_mode_specific_connection_count mode l > 0 \<longrightarrow> c_mode (last (active (conc_call e (RefreshPcl mode) l))) = mode)"
  using assms by (rule refresh_mset)

theorem conc_refresh_keeps_witness:
  "map c_vdev_id (active (conc_call demo_conc_env (RefreshPcl CDS_STA_MODE) two_up)) = [1, 0] \<and>
   mset (active (conc_call demo_conc_env (RefreshPcl CDS_STA_MODE) two_up)) = mset (active two_up)"
proof -
  have "c_mode (conn_of_node demo_conc_env 0 (sta_node 5180)) = CDS_STA_MODE"
    by (simp add: conn_of_node_def sta_node_def Let_def split: prod.splits)
  then have ix: "index_of (\<lambda>c. c_mode c = CDS_STA_MODE) two_conns = Some 0" by (simp add: two_conns_def)
  have wf: "conc_wf two_up" "active two_up = two_conns" by (simp_all add: two_up_repr)
  then have "distinct (map c_vdev_id (active two_up))" by simp
  note conc_refresh_keeps [OF wf(1) this, of demo_conc_env CDS_STA_MODE]
  moreover have "map c_vdev_id (active (conc_call demo_conc_env (RefreshPcl CDS_STA_MODE) two_up)) = [1, 0]"
    using conc_list_refine [OF wf(1), of demo_conc_env "RefreshPcl CDS_STA_MODE"] wf(2) ix by (simp add: two_conns_def)
  ultimately show ?thesis by blast
qed

end
