(* ===== verification/Conc_Pcl.thy ===== *)
theory Conc_Pcl
  imports Conc_List
begin

text \<open>
  The preferred channel list (PCL) a new connection is given (\<open>cds_get_pcl\<close> of \<open>core/cds/src/cds_concurrency.c\<close>): the index
  of the connections in the tables, the expansion of a table entry to channels with weights, and the filters on the result.
  The lists are arrays of fixed size; an access outside an array is \<open>None\<close>.
\<close>

section \<open>The index of the connections in the tables\<close>

definition cds_get_first_connection_pcl_table_index :: "conc_env \<Rightarrow> cds_conc_priority_mode" where
  "cds_get_first_connection_pcl_table_index e =
     (if conc_system_pref e \<ge> 3 then CDS_THROUGHPUT
      else [CDS_THROUGHPUT, CDS_POWERSAVE, CDS_LATENCY] ! conc_system_pref e)"

definition cds_get_second_connection_pcl_table_index :: "conc_list \<Rightarrow> cds_one_connection_mode" where
  "cds_get_second_connection_pcl_table_index l =
     (let c = l ! 0; one_one = (c_chain_mask c = CDS_ONE_ONE) in
      if c_mode c = CDS_STA_MODE then
        if CDS_IS_CHANNEL_24GHZ (c_chan c) then if one_one then CDS_STA_24_1x1 else CDS_STA_24_2x2
        else if one_one then CDS_STA_5_1x1 else CDS_STA_5_2x2
      else
      if c_mode c = CDS_SAP_MODE then
        if CDS_IS_CHANNEL_24GHZ (c_chan c) then if one_one then CDS_SAP_24_1x1 else CDS_SAP_24_2x2
        else if one_one then CDS_SAP_5_1x1 else CDS_SAP_5_2x2
      else
      if c_mode c = CDS_P2P_CLIENT_MODE then
        if CDS_IS_CHANNEL_24GHZ (c_chan c) then if one_one then CDS_P2P_CLI_24_1x1 else CDS_P2P_CLI_24_2x2
        else if one_one then CDS_P2P_CLI_5_1x1 else CDS_P2P_CLI_5_2x2
      else
      if c_mode c = CDS_P2P_GO_MODE then
        if CDS_IS_CHANNEL_24GHZ (c_chan c) then if one_one then CDS_P2P_GO_24_1x1 else CDS_P2P_GO_24_2x2
        else if one_one then CDS_P2P_GO_5_1x1 else CDS_P2P_GO_5_2x2
      else
      if c_mode c = CDS_IBSS_MODE then
        if CDS_IS_CHANNEL_24GHZ (c_chan c) then if one_one then CDS_IBSS_24_1x1 else CDS_IBSS_24_2x2
        else if one_one then CDS_IBSS_5_1x1 else CDS_IBSS_5_2x2
      else
      CDS_MAX_ONE_CONNECTION_MODE)"

definition cds_get_third_connection_pcl_table_index :: "conc_list \<Rightarrow> cds_two_connection_mode" where
  "cds_get_third_connection_pcl_table_index l =
     (let c0 = l ! 0; c1 = l ! 1; one_one = (c_chain_mask c0 = CDS_ONE_ONE) in
      if c_mode c0 = CDS_P2P_CLIENT_MODE \<and> c_mode c1 = CDS_SAP_MODE \<or> c_mode c0 = CDS_SAP_MODE \<and> c_mode c1 = CDS_P2P_CLIENT_MODE then
        if c_chan c0 = c_chan c1 then
          if CDS_IS_CHANNEL_24GHZ (c_chan c0) then if one_one then CDS_P2P_CLI_SAP_SCC_24_1x1 else CDS_P2P_CLI_SAP_SCC_24_2x2
          else if one_one then CDS_P2P_CLI_SAP_SCC_5_1x1 else CDS_P2P_CLI_SAP_SCC_5_2x2
        else if c_mac c0 = c_mac c1 then
          if CDS_IS_CHANNEL_24GHZ (c_chan c0) \<and> CDS_IS_CHANNEL_24GHZ (c_chan c1)
          then if one_one then CDS_P2P_CLI_SAP_MCC_24_1x1 else CDS_P2P_CLI_SAP_MCC_24_2x2
          else if CDS_IS_CHANNEL_5GHZ (c_chan c0) \<and> CDS_IS_CHANNEL_5GHZ (c_chan c1)
          then if one_one then CDS_P2P_CLI_SAP_MCC_5_1x1 else CDS_P2P_CLI_SAP_MCC_5_2x2
          else if one_one then CDS_P2P_CLI_SAP_MCC_24_5_1x1 else CDS_P2P_CLI_SAP_MCC_24_5_2x2
        else CDS_P2P_CLI_SAP_DBS_1x1
      else
      if c_mode c0 = CDS_STA_MODE \<and> c_mode c1 = CDS_SAP_MODE \<or> c_mode c0 = CDS_SAP_MODE \<and> c_mode c1 = CDS_STA_MODE then
        if c_chan c0 = c_chan c1 then
          if CDS_IS_CHANNEL_24GHZ (c_chan c0) then if one_one then CDS_STA_SAP_SCC_24_1x1 else CDS_STA_SAP_SCC_24_2x2
          else if one_one then CDS_STA_SAP_SCC_5_1x1 else CDS_STA_SAP_SCC_5_2x2
        else if c_mac c0 = c_mac c1 then
          if CDS_IS_CHANNEL_24GHZ (c_chan c0) \<and> CDS_IS_CHANNEL_24GHZ (c_chan c1)
          then if one_one then CDS_STA_SAP_MCC_24_1x1 else CDS_STA_SAP_MCC_24_2x2
          else if CDS_IS_CHANNEL_5GHZ (c_chan c0) \<and> CDS_IS_CHANNEL_5GHZ (c_chan c1)
          then if one_one then CDS_STA_SAP_MCC_5_1x1 else CDS_STA_SAP_MCC_5_2x2
          else if one_one then CDS_STA_SAP_MCC_24_5_1x1 else CDS_STA_SAP_MCC_24_5_2x2
        else CDS_STA_SAP_DBS_1x1
      else
      if c_mode c0 = CDS_STA_MODE \<and> c_mode c1 = CDS_P2P_GO_MODE \<or> c_mode c0 = CDS_P2P_GO_MODE \<and> c_mode c1 = CDS_STA_MODE then
        if c_chan c0 = c_chan c1 then
          if CDS_IS_CHANNEL_24GHZ (c_chan c0) then if one_one then CDS_STA_P2P_GO_SCC_24_1x1 else CDS_STA_P2P_GO_SCC_24_2x2
          else if one_one then CDS_STA_P2P_GO_SCC_5_1x1 else CDS_STA_P2P_GO_SCC_5_2x2
        else if c_mac c0 = c_mac c1 then
          if CDS_IS_CHANNEL_24GHZ (c_chan c0) \<and> CDS_IS_CHANNEL_24GHZ (c_chan c1)
          then if one_one then CDS_STA_P2P_GO_MCC_24_1x1 else CDS_STA_P2P_GO_MCC_24_2x2
          else if CDS_IS_CHANNEL_5GHZ (c_chan c0) \<and> CDS_IS_CHANNEL_5GHZ (c_chan c1)
          then if one_one then CDS_STA_P2P_GO_MCC_5_1x1 else CDS_STA_P2P_GO_MCC_5_2x2
          else if one_one then CDS_STA_P2P_GO_MCC_24_5_1x1 else CDS_STA_P2P_GO_MCC_24_5_2x2
        else CDS_STA_P2P_GO_DBS_1x1
      else
      if c_mode c0 = CDS_STA_MODE \<and> c_mode c1 = CDS_P2P_CLIENT_MODE \<or> c_mode c0 = CDS_P2P_CLIENT_MODE \<and> c_mode c1 = CDS_STA_MODE then
        if c_chan c0 = c_chan c1 then
          if CDS_IS_CHANNEL_24GHZ (c_chan c0) then if one_one then CDS_STA_P2P_CLI_SCC_24_1x1 else CDS_STA_P2P_CLI_SCC_24_2x2
          else if one_one then CDS_STA_P2P_CLI_SCC_5_1x1 else CDS_STA_P2P_CLI_SCC_5_2x2
        else if c_mac c0 = c_mac c1 then
          if CDS_IS_CHANNEL_24GHZ (c_chan c0) \<and> CDS_IS_CHANNEL_24GHZ (c_chan c1)
          then if one_one then CDS_STA_P2P_CLI_MCC_24_1x1 else CDS_STA_P2P_CLI_MCC_24_2x2
          else if CDS_IS_CHANNEL_5GHZ (c_chan c0) \<and> CDS_IS_CHANNEL_5GHZ (c_chan c1)
          then if one_one then CDS_STA_P2P_CLI_MCC_5_1x1 else CDS_STA_P2P_CLI_MCC_5_2x2
          else if one_one then CDS_STA_P2P_CLI_MCC_24_5_1x1 else CDS_STA_P2P_CLI_MCC_24_5_2x2
        else CDS_STA_P2P_CLI_DBS_1x1
      else
      if c_mode c0 = CDS_P2P_GO_MODE \<and> c_mode c1 = CDS_P2P_CLIENT_MODE \<or> c_mode c0 = CDS_P2P_CLIENT_MODE \<and> c_mode c1 = CDS_P2P_GO_MODE then
        if c_chan c0 = c_chan c1 then
          if CDS_IS_CHANNEL_24GHZ (c_chan c0) then if one_one then CDS_P2P_GO_P2P_CLI_SCC_24_1x1 else CDS_P2P_GO_P2P_CLI_SCC_24_2x2
          else if one_one then CDS_P2P_GO_P2P_CLI_SCC_5_1x1 else CDS_P2P_GO_P2P_CLI_SCC_5_2x2
        else if c_mac c0 = c_mac c1 then
          if CDS_IS_CHANNEL_24GHZ (c_chan c0) \<and> CDS_IS_CHANNEL_24GHZ (c_chan c1)
          then if one_one then CDS_P2P_GO_P2P_CLI_MCC_24_1x1 else CDS_P2P_GO_P2P_CLI_MCC_24_2x2
          else if CDS_IS_CHANNEL_5GHZ (c_chan c0) \<and> CDS_IS_CHANNEL_5GHZ (c_chan c1)
          then if one_one then CDS_P2P_GO_P2P_CLI_MCC_5_1x1 else CDS_P2P_GO_P2P_CLI_MCC_5_2x2
          else if one_one then CDS_P2P_GO_P2P_CLI_MCC_24_5_1x1 else CDS_P2P_GO_P2P_CLI_MCC_24_5_2x2
        else CDS_P2P_GO_P2P_CLI_DBS_1x1
      else
      if c_mode c0 = CDS_SAP_MODE \<and> c_mode c1 = CDS_P2P_GO_MODE \<or> c_mode c0 = CDS_P2P_GO_MODE \<and> c_mode c1 = CDS_SAP_MODE then
        if c_chan c0 = c_chan c1 then
          if CDS_IS_CHANNEL_24GHZ (c_chan c0) then if one_one then CDS_P2P_GO_SAP_SCC_24_1x1 else CDS_P2P_GO_SAP_SCC_24_2x2
          else if one_one then CDS_P2P_GO_SAP_SCC_5_1x1 else CDS_P2P_GO_SAP_SCC_5_2x2
        else if c_mac c0 = c_mac c1 then
          if CDS_IS_CHANNEL_24GHZ (c_chan c0) \<and> CDS_IS_CHANNEL_24GHZ (c_chan c1)
          then if one_one then CDS_P2P_GO_SAP_MCC_24_1x1 else CDS_P2P_GO_SAP_MCC_24_2x2
          else if CDS_IS_CHANNEL_5GHZ (c_chan c0) \<and> CDS_IS_CHANNEL_5GHZ (c_chan c1)
          then if one_one then CDS_P2P_GO_SAP_MCC_5_1x1 else CDS_P2P_GO_SAP_MCC_5_2x2
          else if one_one then CDS_P2P_GO_SAP_MCC_24_5_1x1 else CDS_P2P_GO_SAP_MCC_24_5_2x2
        else CDS_P2P_GO_SAP_DBS_1x1
      else
      CDS_MAX_TWO_CONNECTION_MODE)"

section \<open>Channels with weights\<close>

datatype cds_pcl_group_id = CDS_PCL_GROUP_ID1_ID2 | CDS_PCL_GROUP_ID2_ID3

datatype cds_pcl_channel_order = CDS_PCL_ORDER_NONE | CDS_PCL_ORDER_24G_THEN_5G | CDS_PCL_ORDER_5G_THEN_2G

definition WEIGHT_OF_GROUP1_PCL_CHANNELS :: nat where "WEIGHT_OF_GROUP1_PCL_CHANNELS = 255"
definition WEIGHT_OF_GROUP2_PCL_CHANNELS :: nat where "WEIGHT_OF_GROUP2_PCL_CHANNELS = 235"
definition WEIGHT_OF_GROUP3_PCL_CHANNELS :: nat where "WEIGHT_OF_GROUP3_PCL_CHANNELS = 215"

text \<open>A channel list, its weights and its length (\<open>struct sir_pcl_list\<close>, or the three arguments of \<open>cds_get_pcl\<close>).\<close>

record pcl_buf =
  p_chans :: "nat list"
  p_weights :: "nat list"
  p_len :: nat

text \<open>
  One pass of \<open>cds_get_connection_channels\<close> over the connections: the channels that satisfy a condition are appended, with a
  weight, while there is room for weights. The state: channels, their number, weights, the number of weights.
\<close>

type_synonym pass_state = "nat list \<times> nat \<times> nat list \<times> nat"

function conn_pass :: "(nat \<Rightarrow> bool) \<Rightarrow> nat \<Rightarrow> nat \<Rightarrow> conc_list \<Rightarrow> nat \<Rightarrow> pass_state \<Rightarrow> pass_state option" where
  "conn_pass accept w weight_len l conn_index (channels, num, weights, index) =
     (if valid_index l conn_index then
        if accept (c_chan (l ! conn_index)) \<and> index < weight_len then
          do { channels \<leftarrow> put channels num (c_chan (l ! conn_index));
               weights \<leftarrow> put weights index w;
               conn_pass accept w weight_len l (Suc conn_index) (channels, Suc num, weights, Suc index) }
        else conn_pass accept w weight_len l (Suc conn_index) (channels, num, weights, index)
      else Some (channels, num, weights, index))"
  by pat_completeness auto
termination by (relation "measure (\<lambda>(accept, w, wl, l, i, s). MAX_NUMBER_OF_CONC_CONNECTIONS - i)") (auto simp: valid_index_def)

declare conn_pass.simps [simp del]

definition cds_get_connection_channels ::
    "conc_env \<Rightarrow> conc_list \<Rightarrow> cds_pcl_channel_order \<Rightarrow> bool \<Rightarrow> nat \<Rightarrow> cds_pcl_group_id \<Rightarrow> nat list \<Rightarrow> nat list \<Rightarrow> nat \<Rightarrow> pass_state option" where
  "cds_get_connection_channels e l order skip_dfs_channel weight_len group_id channels weights index =
     (let (weight1, weight2) = (if group_id = CDS_PCL_GROUP_ID1_ID2
            then (WEIGHT_OF_GROUP1_PCL_CHANNELS, WEIGHT_OF_GROUP2_PCL_CHANNELS)
            else (WEIGHT_OF_GROUP2_PCL_CHANNELS, WEIGHT_OF_GROUP3_PCL_CHANNELS));
          not_skipped = (\<lambda>c. \<not> (skip_dfs_channel \<and> CDS_IS_DFS_CH e c));
          on_5 = (\<lambda>c. not_skipped c \<and> CDS_IS_CHANNEL_5GHZ c);
          start = (channels, 0, weights, index)
      in case order of
           CDS_PCL_ORDER_NONE \<Rightarrow> conn_pass not_skipped weight1 weight_len l 0 start
         | CDS_PCL_ORDER_24G_THEN_5G \<Rightarrow>
             Option.bind (conn_pass CDS_IS_CHANNEL_24GHZ weight1 weight_len l 0 start) (conn_pass on_5 weight2 weight_len l 0)
         | CDS_PCL_ORDER_5G_THEN_2G \<Rightarrow>
             Option.bind (conn_pass on_5 weight1 weight_len l 0 start) (conn_pass CDS_IS_CHANNEL_24GHZ weight2 weight_len l 0))"

text \<open>
  The list of the valid channels is an array of zeros with the channels in front. \<open>split_24\<close> is the number of entries taken for
  the 2.4 GHz list: the first ones up to 11, then 12, 13 and 14 if they follow.
\<close>

definition split_24 :: "nat list \<Rightarrow> nat" where
  "split_24 a =
     (let n = length (takeWhile (\<lambda>c. c \<le> 11) a) in
      if n < length a \<and> a ! n = 12 then
        if n + 1 < length a \<and> a ! (n + 1) = 13 then
          if n + 2 < length a \<and> a ! (n + 2) = 14 then n + 3 else n + 2
        else n + 1
      else n)"

text \<open>The parts the lists of channels are made of. The state: channels, weights, length, number of weights.\<close>

type_synonym fill_state = "nat list \<times> nat list \<times> nat \<times> nat"

definition put_band_first :: "nat \<Rightarrow> nat list \<Rightarrow> fill_state \<Rightarrow> fill_state option" where
  "put_band_first weight_len chans = (\<lambda>(pc, pw, len, i).
     let n = min (length chans) weight_len in
     do { pc \<leftarrow> mem_copy pc 0 chans n; pw \<leftarrow> fill 0 n WEIGHT_OF_GROUP1_PCL_CHANNELS pw; Some (pc, pw, n, n) })"

definition put_band_after :: "nat \<Rightarrow> nat list \<Rightarrow> nat \<Rightarrow> fill_state \<Rightarrow> fill_state option" where
  "put_band_after weight_len chans w = (\<lambda>(pc, pw, len, i).
     let n = min (len + length chans) weight_len - len in
     do { pc \<leftarrow> mem_copy pc len chans n; pw \<leftarrow> fill i n w pw; Some (pc, pw, len + n, i + n) })"

definition put_connections ::
    "conc_env \<Rightarrow> conc_list \<Rightarrow> bool \<Rightarrow> nat \<Rightarrow> nat list \<Rightarrow> cds_pcl_channel_order \<Rightarrow> cds_pcl_group_id \<Rightarrow> fill_state \<Rightarrow> fill_state option" where
  "put_connections e l skip weight_len channel_list order group_id = (\<lambda>(pc, pw, len, i).
     do { (channels, num, pw, i) \<leftarrow> cds_get_connection_channels e l order skip weight_len group_id channel_list pw i;
          pc \<leftarrow> mem_copy pc len channels num;
          Some (pc, pw, len + num, i) })"

text \<open>The \<open>switch\<close> of \<open>cds_get_channel_list\<close>; \<open>CDS_NONE\<close> and \<open>CDS_MAX_PCL_TYPE\<close> do not get there.\<close>

definition fill_channel_list ::
    "conc_env \<Rightarrow> conc_list \<Rightarrow> bool \<Rightarrow> nat \<Rightarrow> nat list \<Rightarrow> nat list \<Rightarrow> nat list \<Rightarrow> cds_pcl_type \<Rightarrow> fill_state \<Rightarrow> fill_state option" where
  "fill_channel_list e l skip weight_len channel_list channel_list_24 channel_list_5 pcl s =
     (let first = put_band_first weight_len;
          conns = put_connections e l skip weight_len channel_list;
          after = put_band_after weight_len
      in case pcl of
           CDS_24G \<Rightarrow> first channel_list_24 s
         | CDS_5G \<Rightarrow> first channel_list_5 s
         | CDS_SCC_CH \<Rightarrow> conns CDS_PCL_ORDER_NONE CDS_PCL_GROUP_ID1_ID2 s
         | CDS_MCC_CH \<Rightarrow> conns CDS_PCL_ORDER_NONE CDS_PCL_GROUP_ID1_ID2 s
         | CDS_SCC_CH_24G \<Rightarrow> Option.bind (conns CDS_PCL_ORDER_NONE CDS_PCL_GROUP_ID1_ID2 s) (after channel_list_24 WEIGHT_OF_GROUP2_PCL_CHANNELS)
         | CDS_MCC_CH_24G \<Rightarrow> Option.bind (conns CDS_PCL_ORDER_NONE CDS_PCL_GROUP_ID1_ID2 s) (after channel_list_24 WEIGHT_OF_GROUP2_PCL_CHANNELS)
         | CDS_SCC_CH_5G \<Rightarrow> Option.bind (conns CDS_PCL_ORDER_NONE CDS_PCL_GROUP_ID1_ID2 s) (after channel_list_5 WEIGHT_OF_GROUP2_PCL_CHANNELS)
         | CDS_MCC_CH_5G \<Rightarrow> Option.bind (conns CDS_PCL_ORDER_NONE CDS_PCL_GROUP_ID1_ID2 s) (after channel_list_5 WEIGHT_OF_GROUP2_PCL_CHANNELS)
         | CDS_24G_SCC_CH \<Rightarrow> Option.bind (first channel_list_24 s) (conns CDS_PCL_ORDER_NONE CDS_PCL_GROUP_ID2_ID3)
         | CDS_24G_MCC_CH \<Rightarrow> Option.bind (first channel_list_24 s) (conns CDS_PCL_ORDER_NONE CDS_PCL_GROUP_ID2_ID3)
         | CDS_5G_SCC_CH \<Rightarrow> Option.bind (first channel_list_5 s) (conns CDS_PCL_ORDER_NONE CDS_PCL_GROUP_ID2_ID3)
         | CDS_5G_MCC_CH \<Rightarrow> Option.bind (first channel_list_5 s) (conns CDS_PCL_ORDER_NONE CDS_PCL_GROUP_ID2_ID3)
         | CDS_SCC_ON_24_SCC_ON_5 \<Rightarrow> conns CDS_PCL_ORDER_24G_THEN_5G CDS_PCL_GROUP_ID1_ID2 s
         | CDS_SCC_ON_5_SCC_ON_24 \<Rightarrow> conns CDS_PCL_ORDER_5G_THEN_2G CDS_PCL_GROUP_ID1_ID2 s
         | CDS_SCC_ON_24_SCC_ON_5_24G \<Rightarrow>
             Option.bind (conns CDS_PCL_ORDER_24G_THEN_5G CDS_PCL_GROUP_ID1_ID2 s) (after channel_list_24 WEIGHT_OF_GROUP3_PCL_CHANNELS)
         | CDS_SCC_ON_24_SCC_ON_5_5G \<Rightarrow>
             Option.bind (conns CDS_PCL_ORDER_24G_THEN_5G CDS_PCL_GROUP_ID1_ID2 s) (after channel_list_5 WEIGHT_OF_GROUP3_PCL_CHANNELS)
         | CDS_SCC_ON_5_SCC_ON_24_24G \<Rightarrow>
             Option.bind (conns CDS_PCL_ORDER_5G_THEN_2G CDS_PCL_GROUP_ID1_ID2 s) (after channel_list_24 WEIGHT_OF_GROUP3_PCL_CHANNELS)
         | CDS_SCC_ON_5_SCC_ON_24_5G \<Rightarrow>
             Option.bind (conns CDS_PCL_ORDER_5G_THEN_2G CDS_PCL_GROUP_ID1_ID2 s) (after channel_list_5 WEIGHT_OF_GROUP3_PCL_CHANNELS)
         | _ \<Rightarrow> None)"


text \<open>
  \<open>cds_update_with_safe_channel_list\<close>. The loop over the entries of the list, with the weights they had. Its counter has eight
  bits, which is enough for lists of at most 255 channels.
\<close>

fun safe_loop :: "nat list \<Rightarrow> nat \<Rightarrow> (nat \<times> nat) list \<Rightarrow> nat \<Rightarrow> nat list \<Rightarrow> nat list \<Rightarrow> (nat list \<times> nat list \<times> nat) option" where
  "safe_loop unsafe weight_len [] safe pc pw = Some (pc, pw, safe)"
| "safe_loop unsafe weight_len ((c, w) # rest) safe pc pw =
     (if c \<in> set unsafe then safe_loop unsafe weight_len rest safe pc pw
      else do { pc \<leftarrow> put pc safe c;
                pw \<leftarrow> (if safe < weight_len then put pw safe w else Some pw);
                safe_loop unsafe weight_len rest (Suc safe) pc pw })"

definition cds_update_with_safe_channel_list :: "conc_env \<Rightarrow> nat \<Rightarrow> pcl_buf \<Rightarrow> pcl_buf option" where
  "cds_update_with_safe_channel_list e weight_len p =
     (let current_channel_count = min (p_len p) (max_num_chan e) in
      if wlan_unsafe_channels e = [] then Some p
      else do { current \<leftarrow> mem_copy (replicate (max_num_chan e) 0) 0 (p_chans p) current_channel_count;
                pc \<leftarrow> mem_set (p_chans p) current_channel_count 0;
                org \<leftarrow> mem_copy (replicate (max_num_chan e) 0) 0 (p_weights p) (max_num_chan e);
                pw \<leftarrow> mem_set (p_weights p) weight_len 0;
                (pc, pw, safe) \<leftarrow> safe_loop (wlan_unsafe_channels e) weight_len (take current_channel_count (zip current org)) 0 pc pw;
                Some \<lparr>p_chans = pc, p_weights = pw, p_len = safe\<rparr> })"

text \<open>\<open>cds_get_channel_list\<close>; when it gives no list the caller's one is as it was.\<close>

definition cds_get_channel_list ::
    "conc_env \<Rightarrow> conc_list \<Rightarrow> cds_pcl_type \<Rightarrow> cds_con_mode \<Rightarrow> nat \<Rightarrow> pcl_buf \<Rightarrow> (conc_status \<times> pcl_buf) option" where
  "cds_get_channel_list e l pcl mode weight_len p =
     (if pcl = CDS_MAX_PCL_TYPE then Some (CDS_E_FAILURE, p)
      else if pcl = CDS_NONE then Some (CDS_SUCCESS, p)
      else case sme_valid_channels e of
        None \<Rightarrow> Some (CDS_E_FAILURE, p)
      | Some valid \<Rightarrow>
          let num_channels = length valid;
              skip_dfs_channel = ((mode = CDS_SAP_MODE \<or> mode = CDS_P2P_GO_MODE) \<and> cds_mode_specific_connection_count CDS_STA_MODE l > 0)
          in do { channel_list \<leftarrow> mem_copy (replicate (max_num_chan e) 0) 0 valid num_channels;
                  let k = split_24 channel_list;
                  let channel_list_24 = take k channel_list;
                  let channel_list_5 = filter (\<lambda>c. \<not> (skip_dfs_channel \<and> CDS_IS_DFS_CH e c)) (drop k (take num_channels channel_list));
                  (pc, pw, len, i) \<leftarrow> fill_channel_list e l skip_dfs_channel weight_len channel_list channel_list_24 channel_list_5 pcl
                                        (p_chans p, p_weights p, 0, 0);
                  p \<leftarrow> cds_update_with_safe_channel_list e weight_len \<lparr>p_chans = pc, p_weights = pw, p_len = len\<rparr>;
                  Some (CDS_SUCCESS, p) })"

section \<open>Filters\<close>

definition cds_list_has_24GHz_channel :: "nat list \<Rightarrow> bool" where
  "cds_list_has_24GHz_channel channel_list \<longleftrightarrow> list_ex CDS_IS_CHANNEL_24GHZ channel_list"

text \<open>
  The mandatory channels of an access point: the part of the array \<open>sap_mandatory_channels\<close> that is in use.
\<close>

definition cds_set_sap_mandatory_channels :: "conc_env \<Rightarrow> nat list \<Rightarrow> nat list \<Rightarrow> (nat list \<times> conc_status) option" where
  "cds_set_sap_mandatory_channels e channels mandatory =
     (if channels = [] \<or> \<not> cds_list_has_24GHz_channel channels then Some (mandatory, CDS_E_FAILURE)
      else if length channels \<le> max_num_chan e then Some (channels, CDS_SUCCESS) else None)"

definition cds_reset_sap_mandatory_channels :: "nat list \<Rightarrow> nat list" where
  "cds_reset_sap_mandatory_channels mandatory = []"

text \<open>
  The entries of a list that are kept, through arrays of \<open>QDF_MAX_NUM_CHAN\<close> entries. \<open>QDF_ARRAY_SIZE\<close> of a pointer to bytes is the
  size of a pointer: \<open>n\<close> entries are zeroed before the result is copied back.
\<close>

definition keep_channels :: "nat \<Rightarrow> nat \<Rightarrow> (nat \<Rightarrow> bool) \<Rightarrow> pcl_buf \<Rightarrow> pcl_buf option" where
  "keep_channels max_chan n keep p =
     (if p_len p \<le> length (p_chans p) \<and> p_len p \<le> length (p_weights p) then
        let kept = filter (\<lambda>(c, w). keep c) (zip (take (p_len p) (p_chans p)) (take (p_len p) (p_weights p))) in
        do { pcl_list \<leftarrow> mem_copy (replicate max_chan 0) 0 (map fst kept) (length kept);
             weight_list \<leftarrow> mem_copy (replicate max_chan 0) 0 (map snd kept) (length kept);
             pc \<leftarrow> mem_set (p_chans p) n 0;
             pw \<leftarrow> mem_set (p_weights p) n 0;
             pc \<leftarrow> mem_copy pc 0 pcl_list (length kept);
             pw \<leftarrow> mem_copy pw 0 weight_list (length kept);
             Some \<lparr>p_chans = pc, p_weights = pw, p_len = length kept\<rparr> }
      else None)"

text \<open>The size of a pointer on the 64-bit platforms of the driver.\<close>

definition ptr_size :: nat where "ptr_size = 8"

definition cds_modify_sap_pcl_based_on_mandatory_channel :: "conc_env \<Rightarrow> nat list \<Rightarrow> pcl_buf \<Rightarrow> (conc_status \<times> pcl_buf) option" where
  "cds_modify_sap_pcl_based_on_mandatory_channel e mandatory p =
     (if mandatory = [] then Some (CDS_SUCCESS, p)
      else if \<not> cds_list_has_24GHz_channel mandatory then Some (CDS_E_FAILURE, p)
      else map_option (Pair CDS_SUCCESS) (keep_channels (max_num_chan e) ptr_size (\<lambda>c. c \<in> set mandatory) p))"

definition cds_modify_pcl_based_on_enabled_channels :: "conc_env \<Rightarrow> pcl_buf \<Rightarrow> pcl_buf option" where
  "cds_modify_pcl_based_on_enabled_channels e p =
     keep_channels (max_num_chan e) ptr_size (\<lambda>c. \<not> CDS_IS_PASSIVE_OR_DISABLE_CH e c) p"

section \<open>The list for a new connection\<close>

text \<open>The entry of the tables: \<open>Inl\<close> when the connections have no index, \<open>None\<close> when the index is outside the table.\<close>

definition system_pref :: "conc_env \<Rightarrow> cds_conc_priority_mode" where
  "system_pref e = (if conc_system_pref e = 1 then CDS_POWERSAVE else if conc_system_pref e = 2 then CDS_LATENCY else CDS_THROUGHPUT)"

definition pcl_of_tables :: "conc_env \<Rightarrow> conc_list \<Rightarrow> cds_con_mode \<Rightarrow> (conc_status + cds_pcl_type) option" where
  "pcl_of_tables e l mode =
     (let num_connections = cds_get_connection_count l in
      if num_connections = 0 then
        map_option Inr (pcl_entry first_connection_pcl_table mode (cds_get_first_connection_pcl_table_index e))
      else if num_connections = 1 then
        let second_index = cds_get_second_connection_pcl_table_index l in
        if second_index = CDS_MAX_ONE_CONNECTION_MODE then Some (Inl CDS_E_FAILURE)
        else do { row \<leftarrow> map_of (if hw_dbs_capable e then second_connection_pcl_dbs_table else second_connection_pcl_nodbs_table) second_index;
                  map_option Inr (pcl_entry row mode (system_pref e)) }
      else if num_connections = 2 then
        let third_index = cds_get_third_connection_pcl_table_index l in
        if third_index = CDS_MAX_TWO_CONNECTION_MODE then Some (Inl CDS_E_FAILURE)
        else do { row \<leftarrow> map_of (if hw_dbs_capable e then third_connection_pcl_dbs_table else third_connection_pcl_nodbs_table) third_index;
                  map_option Inr (pcl_entry row mode (system_pref e)) }
      else Some (Inr CDS_NONE))"

definition cds_get_pcl ::
    "conc_env \<Rightarrow> nat list \<Rightarrow> conc_list \<Rightarrow> cds_con_mode \<Rightarrow> nat \<Rightarrow> pcl_buf \<Rightarrow> (conc_status \<times> pcl_buf) option" where
  "cds_get_pcl e mandatory l mode weight_len p =
     do { t \<leftarrow> pcl_of_tables e l mode;
          case t of
            Inl st \<Rightarrow> Some (st, p)
          | Inr pcl \<Rightarrow>
              do { (st, p) \<leftarrow> cds_get_channel_list e l pcl mode weight_len p;
                   if st \<noteq> CDS_SUCCESS then Some (st, p)
                   else do {
                     (st, p) \<leftarrow> (if mode = CDS_SAP_MODE \<and> mandatory \<noteq> []
                                 then cds_modify_sap_pcl_based_on_mandatory_channel e mandatory p else Some (CDS_SUCCESS, p));
                     if st \<noteq> CDS_SUCCESS then Some (st, p)
                     else do {
                       p \<leftarrow> (if mode = CDS_P2P_GO_MODE then cds_modify_pcl_based_on_enabled_channels e p else Some p);
                       Some (CDS_SUCCESS, p) } } } }"

definition cds_get_pcl_for_existing_conn ::
    "conc_env \<Rightarrow> nat list \<Rightarrow> conc_list \<Rightarrow> cds_con_mode \<Rightarrow> nat \<Rightarrow> pcl_buf \<Rightarrow> (conc_list \<times> conc_status \<times> pcl_buf) option" where
  "cds_get_pcl_for_existing_conn e mandatory l mode weight_len p =
     (if cds_mode_specific_connection_count mode l > 0 then
        case cds_store_and_del_conn_info mode l of (l', info) \<Rightarrow>
          map_option (\<lambda>(st, p). (cds_restore_deleted_conn_info info l', st, p)) (cds_get_pcl e mandatory l' mode weight_len p)
      else Some (l, CDS_SUCCESS, p))"

text \<open>A list as \<open>qdf_mem_zero\<close> leaves it, with room for \<open>n\<close> channels.\<close>

definition empty_pcl :: "nat \<Rightarrow> pcl_buf" where
  "empty_pcl n = \<lparr>p_chans = replicate n 0, p_weights = replicate n 0, p_len = 0\<rparr>"

definition cds_get_sap_mandatory_channel :: "conc_env \<Rightarrow> nat list \<Rightarrow> nat \<Rightarrow> conc_list \<Rightarrow> (conc_list \<times> (conc_status + nat)) option" where
  "cds_get_sap_mandatory_channel e mandatory n l =
     do { (l, st, p) \<leftarrow> cds_get_pcl_for_existing_conn e mandatory l CDS_SAP_MODE n (empty_pcl n);
          if st \<noteq> CDS_SUCCESS then Some (l, Inl st)
          else do {
            (st, p) \<leftarrow> (if p_len p = 0 then cds_get_pcl e mandatory l CDS_SAP_MODE n p else Some (CDS_SUCCESS, p));
            if st \<noteq> CDS_SUCCESS then Some (l, Inl st)
            else do {
              (st, p) \<leftarrow> cds_modify_sap_pcl_based_on_mandatory_channel e mandatory p;
              if st \<noteq> CDS_SUCCESS then Some (l, Inl st)
              else do { c \<leftarrow> entry (p_chans p) 0; Some (l, Inr c) } } } }"

end
