(* ===== verification/Conc_Matrix.thy ===== *)
theory Conc_Matrix
  imports Conc_Pcl
begin

text \<open>
  The tables of the concurrency policy and their indices: the index of two connections against a direct formula, the rows of the
  tables, and the combinations of modes the tables admit.
\<close>

section \<open>The index of two connections\<close>

text \<open>The pairs of modes in the order of the rows; eleven rows for each pair.\<close>

definition mode_pairs :: "(cds_con_mode \<times> cds_con_mode) list" where
  "mode_pairs = [(CDS_STA_MODE, CDS_SAP_MODE), (CDS_STA_MODE, CDS_P2P_GO_MODE), (CDS_STA_MODE, CDS_P2P_CLIENT_MODE),
     (CDS_P2P_GO_MODE, CDS_P2P_CLIENT_MODE), (CDS_P2P_GO_MODE, CDS_SAP_MODE), (CDS_P2P_CLIENT_MODE, CDS_SAP_MODE)]"

definition pair_no :: "cds_con_mode \<Rightarrow> cds_con_mode \<Rightarrow> nat option" where
  "pair_no a b = index_of (\<lambda>p. p = (a, b) \<or> p = (b, a)) mode_pairs"

text \<open>
  The row within a pair: the same channel (2.4 GHz or not), different channels on one MAC (both 2.4 GHz, both 5 GHz, or neither),
  different MACs; each row but the last for one and for two chains.
\<close>

definition pair_kind :: "cds_conc_connection_info \<Rightarrow> cds_conc_connection_info \<Rightarrow> nat" where
  "pair_kind c d =
     (let chains = (if c_chain_mask c = CDS_ONE_ONE then 0 else 1) in
      if c_chan c = c_chan d then (if CDS_IS_CHANNEL_24GHZ (c_chan c) then 0 else 4) + chains
      else if c_mac c = c_mac d then
        (if CDS_IS_CHANNEL_24GHZ (c_chan c) \<and> CDS_IS_CHANNEL_24GHZ (c_chan d) then 2
         else if CDS_IS_CHANNEL_5GHZ (c_chan c) \<and> CDS_IS_CHANNEL_5GHZ (c_chan d) then 6 else 8) + chains
      else 10)"

definition pair_index :: "cds_conc_connection_info \<Rightarrow> cds_conc_connection_info \<Rightarrow> nat" where
  "pair_index c d = (case pair_no (c_mode c) (c_mode d) of Some p \<Rightarrow> 11 * p + pair_kind c d | None \<Rightarrow> 66)"

lemma pair_kind_bound: "pair_kind c d \<le> 10"
  by (simp add: pair_kind_def Let_def)

lemma pair_no_bound: "pair_no a b = Some p \<Longrightarrow> p < 6"
  unfolding pair_no_def by (drule index_of_Some) (simp add: mode_pairs_def)

lemma index_third: "cds_get_third_connection_pcl_table_index l = pair_index (l ! 0) (l ! 1)"
proof -
  define c d where cd: "c = l ! 0" "d = l ! 1"
  show ?thesis
    unfolding cds_get_third_connection_pcl_table_index_def pair_index_def Let_def cd [symmetric]
    by (cases "c_mode c"; cases "c_mode d"; simp add: pair_no_def mode_pairs_def pair_kind_def Let_def)
qed

lemma pair_no_commute: "pair_no a b = pair_no b a"
  by (simp add: pair_no_def disj_commute)

lemma pair_kind_commute: "c_chain_mask c = c_chain_mask d \<Longrightarrow> pair_kind c d = pair_kind d c"
  by (auto simp: pair_kind_def Let_def)

text \<open>
  The nested conditions of \<open>cds_get_third_connection_pcl_table_index\<close> compute the number of the row as eleven times the
  number of the pair of modes plus the number of the relation between the channels and MACs; without such a pair it is the
  constant that says so. The order of the connections does not matter when they have the same chains.
\<close>

theorem third_index_formula:
  "cds_get_third_connection_pcl_table_index l =
     (case pair_no (c_mode (l ! 0)) (c_mode (l ! 1)) of
        Some p \<Rightarrow> 11 * p + pair_kind (l ! 0) (l ! 1) | None \<Rightarrow> CDS_MAX_TWO_CONNECTION_MODE) \<and>
   (c_chain_mask c = c_chain_mask d \<longrightarrow>
      cds_get_third_connection_pcl_table_index (c # d # rest) = cds_get_third_connection_pcl_table_index (d # c # rest))"
  by (auto simp: index_third pair_index_def pair_no_commute [of "c_mode d"] pair_kind_commute [of c d] split: option.split)

definition sta_36 :: cds_conc_connection_info where
  "sta_36 = \<lparr>c_mode = CDS_STA_MODE, c_chan = 36, c_bw = HW_MODE_80_MHZ, c_mac = 0, c_chain_mask = CDS_TWO_TWO, c_original_nss = 2,
     c_vdev_id = 0, c_in_use = True\<rparr>"

definition sap_6 :: cds_conc_connection_info where
  "sap_6 = \<lparr>c_mode = CDS_SAP_MODE, c_chan = 6, c_bw = HW_MODE_20_MHZ, c_mac = 0, c_chain_mask = CDS_TWO_TWO, c_original_nss = 2,
     c_vdev_id = 1, c_in_use = True\<rparr>"

theorem third_index_formula_witness:
  "cds_get_third_connection_pcl_table_index [sap_6, sta_36] = CDS_STA_SAP_MCC_24_5_2x2 \<and>
   cds_get_third_connection_pcl_table_index [sta_36, sap_6] = CDS_STA_SAP_MCC_24_5_2x2"
proof -
  have "pair_no (c_mode sta_36) (c_mode sap_6) = Some 0" "pair_kind sta_36 sap_6 = 9" "c_chain_mask sta_36 = c_chain_mask sap_6"
    by code_simp+
  with third_index_formula [of "[sta_36, sap_6]" sta_36 sap_6 "[]"] show ?thesis by simp
qed

section \<open>The rows of the tables\<close>

definition row_ok :: "pcl_row \<Rightarrow> bool" where
  "row_ok row \<longleftrightarrow> length row = 5 \<and> list_all (\<lambda>cs. length cs = 3) row"

text \<open>Is an entry of a row the value that refuses the mode? All three preferences agree.\<close>

definition refuses :: "pcl_row \<Rightarrow> nat \<Rightarrow> bool" where
  "refuses row m = list_all (\<lambda>p. p = CDS_MAX_PCL_TYPE) (row ! m)"

definition admits :: "pcl_row \<Rightarrow> nat \<Rightarrow> bool" where
  "admits row m = list_all (\<lambda>p. p \<noteq> CDS_MAX_PCL_TYPE) (row ! m)"

text \<open>The modes that may join a pair: the tables.\<close>

definition third_modes :: "nat \<Rightarrow> cds_con_mode list" where
  "third_modes p = [[CDS_STA_MODE, CDS_SAP_MODE], [CDS_STA_MODE, CDS_P2P_CLIENT_MODE, CDS_P2P_GO_MODE],
     [CDS_P2P_CLIENT_MODE, CDS_P2P_GO_MODE], [CDS_STA_MODE, CDS_SAP_MODE, CDS_P2P_CLIENT_MODE, CDS_P2P_GO_MODE], [], []] ! p"

definition third_row_ok :: "bool \<Rightarrow> nat \<Rightarrow> pcl_row \<Rightarrow> bool" where
  "third_row_ok dbs i row \<longleftrightarrow> row_ok row \<and>
     list_all (\<lambda>m. if m \<in> set (third_modes (i div 11)) \<and> (dbs \<or> i mod 11 \<noteq> 10) then admits row (mode_num m) else refuses row (mode_num m))
       [CDS_STA_MODE, CDS_SAP_MODE, CDS_P2P_CLIENT_MODE, CDS_P2P_GO_MODE]"

lemma third_dbs_rows:
  "map fst third_connection_pcl_dbs_table = [0..<66] \<and> list_all (\<lambda>(i, row). third_row_ok True i row) third_connection_pcl_dbs_table"
  by code_simp

lemma third_nodbs_rows:
  "map fst third_connection_pcl_nodbs_table = [0..<66] \<and> list_all (\<lambda>(i, row). third_row_ok False i row) third_connection_pcl_nodbs_table"
  by code_simp


definition second_row_ok :: "bool \<Rightarrow> cds_one_connection_mode \<Rightarrow> pcl_row \<Rightarrow> bool" where
  "second_row_ok dbs i row \<longleftrightarrow> row_ok row \<and>
     (let ibss = (i \<in> {CDS_IBSS_24_1x1, CDS_IBSS_24_2x2, CDS_IBSS_5_1x1, CDS_IBSS_5_2x2});
          sta = (i \<in> {CDS_STA_24_1x1, CDS_STA_24_2x2, CDS_STA_5_1x1, CDS_STA_5_2x2})
      in list_all (\<lambda>m. if (if m = CDS_IBSS_MODE then dbs \<and> sta else \<not> ibss \<or> dbs \<and> m = CDS_STA_MODE)
                       then admits row (mode_num m) else refuses row (mode_num m))
           [CDS_STA_MODE, CDS_SAP_MODE, CDS_P2P_CLIENT_MODE, CDS_P2P_GO_MODE, CDS_IBSS_MODE])"

definition one_connection_modes :: "cds_one_connection_mode list" where
  "one_connection_modes =
     [CDS_STA_24_1x1, CDS_STA_24_2x2, CDS_STA_5_1x1, CDS_STA_5_2x2, CDS_P2P_CLI_24_1x1, CDS_P2P_CLI_24_2x2, CDS_P2P_CLI_5_1x1,
      CDS_P2P_CLI_5_2x2, CDS_P2P_GO_24_1x1, CDS_P2P_GO_24_2x2, CDS_P2P_GO_5_1x1, CDS_P2P_GO_5_2x2, CDS_SAP_24_1x1, CDS_SAP_24_2x2,
      CDS_SAP_5_1x1, CDS_SAP_5_2x2, CDS_IBSS_24_1x1, CDS_IBSS_24_2x2, CDS_IBSS_5_1x1, CDS_IBSS_5_2x2]"

lemma second_dbs_rows:
  "map fst second_connection_pcl_dbs_table = one_connection_modes \<and> list_all (\<lambda>(i, row). second_row_ok True i row) second_connection_pcl_dbs_table"
  by code_simp

lemma second_nodbs_rows:
  "map fst second_connection_pcl_nodbs_table = one_connection_modes \<and> list_all (\<lambda>(i, row). second_row_ok False i row) second_connection_pcl_nodbs_table"
  by code_simp

lemma first_row: "row_ok first_connection_pcl_table \<and> list_all (\<lambda>m. admits first_connection_pcl_table m) [0..<5]"
  by code_simp


lemma mode_num_less: "mode \<noteq> CDS_MAX_NUM_OF_MODE \<Longrightarrow> mode_num mode < 5"
  by (cases mode) auto

lemma pref_num_less: "pref_num (system_pref e) < 3" "pref_num (cds_get_first_connection_pcl_table_index e) < 3"
  by (auto simp: system_pref_def cds_get_first_connection_pcl_table_index_def nth_Cons' split: if_splits)

lemma row_entry:
  assumes "row_ok row" "mode \<noteq> CDS_MAX_NUM_OF_MODE" "pref_num pref < 3"
  shows "pcl_entry row mode pref = Some (row ! mode_num mode ! pref_num pref)"
  using assms mode_num_less [OF assms(2)] by (auto simp: row_ok_def list_all_length pcl_entry_def entry_def)

lemma row_entry_max:
  assumes "row_ok row" "mode \<noteq> CDS_MAX_NUM_OF_MODE" "pref_num pref < 3"
  shows "admits row (mode_num mode) \<Longrightarrow> pcl_entry row mode pref \<noteq> Some CDS_MAX_PCL_TYPE"
    "refuses row (mode_num mode) \<Longrightarrow> pcl_entry row mode pref = Some CDS_MAX_PCL_TYPE"
  using row_entry [OF assms] assms mode_num_less [OF assms(2)]
  by (auto simp: row_ok_def admits_def refuses_def list_all_length)

lemma table_row:
  assumes "map fst t = ks" "list_all (\<lambda>(i, row). P i row) t" "k \<in> set ks"
  obtains row where "map_of t k = Some row" "P k row"
proof -
  from assms(1,3) have "map_of t k \<noteq> None" by (auto simp: map_of_eq_None_iff)
  then obtain row where r: "map_of t k = Some row" by blast
  then have "(k, row) \<in> set t" by (rule map_of_SomeD)
  with assms(2) have "P k row" by (auto simp: list_all_iff)
  with r that show ?thesis by blast
qed

lemma third_row:
  assumes "i < 66"
  obtains row where "map_of (if dbs then third_connection_pcl_dbs_table else third_connection_pcl_nodbs_table) i = Some row" "third_row_ok dbs i row"
proof (cases dbs)
  case True
  from assms obtain row where "map_of third_connection_pcl_dbs_table i = Some row" "third_row_ok True i row"
    by (rule_tac table_row [of third_connection_pcl_dbs_table "[0..<66]" "third_row_ok True" i]) (use third_dbs_rows in auto)
  with True that show ?thesis by simp
next
  case False
  from assms obtain row where "map_of third_connection_pcl_nodbs_table i = Some row" "third_row_ok False i row"
    by (rule_tac table_row [of third_connection_pcl_nodbs_table "[0..<66]" "third_row_ok False" i]) (use third_nodbs_rows in auto)
  with False that show ?thesis by simp
qed

lemma second_row:
  assumes "i \<noteq> CDS_MAX_ONE_CONNECTION_MODE"
  obtains row where "map_of (if dbs then second_connection_pcl_dbs_table else second_connection_pcl_nodbs_table) i = Some row" "second_row_ok dbs i row"
proof -
  have i: "i \<in> set one_connection_modes" using assms by (cases i) (auto simp: one_connection_modes_def)
  show ?thesis
  proof (cases dbs)
    case True
    from i obtain row where "map_of second_connection_pcl_dbs_table i = Some row" "second_row_ok True i row"
      by (rule_tac table_row [of second_connection_pcl_dbs_table one_connection_modes "second_row_ok True" i]) (use second_dbs_rows in auto)
    with True that show ?thesis by simp
  next
    case False
    from i obtain row where "map_of second_connection_pcl_nodbs_table i = Some row" "second_row_ok False i row"
      by (rule_tac table_row [of second_connection_pcl_nodbs_table one_connection_modes "second_row_ok False" i]) (use second_nodbs_rows in auto)
    with False that show ?thesis by simp
  qed
qed


section \<open>The modes the tables admit\<close>

text \<open>The combinations, for each number of connections. The third connection in IBSS mode is left to \<open>cds_allow_concurrency\<close>.\<close>

fun table_admits :: "bool \<Rightarrow> cds_conc_connection_info list \<Rightarrow> cds_con_mode \<Rightarrow> bool" where
  "table_admits dbs [] mode \<longleftrightarrow> True"
| "table_admits dbs [c] mode \<longleftrightarrow>
     (if mode = CDS_IBSS_MODE then dbs \<and> c_mode c = CDS_STA_MODE else c_mode c \<noteq> CDS_IBSS_MODE \<or> dbs \<and> mode = CDS_STA_MODE)"
| "table_admits dbs (c # d # _) mode \<longleftrightarrow>
     (case pair_no (c_mode c) (c_mode d) of None \<Rightarrow> False | Some p \<Rightarrow> mode \<in> set (third_modes p) \<and> (dbs \<or> pair_kind c d \<noteq> 10))"

text \<open>The answers that refuse the mode: no index for the connections, or the invalid list type.\<close>

definition refused :: "(conc_status + cds_pcl_type) option \<Rightarrow> bool" where
  "refused r \<longleftrightarrow> r = Some (Inl CDS_E_FAILURE) \<or> r = Some (Inr CDS_MAX_PCL_TYPE)"

lemma second_index_mode:
  fixes l defines "i \<equiv> cds_get_second_connection_pcl_table_index l"
  shows "i = CDS_MAX_ONE_CONNECTION_MODE \<longleftrightarrow> c_mode (l ! 0) = CDS_MAX_NUM_OF_MODE"
    "i \<in> {CDS_IBSS_24_1x1, CDS_IBSS_24_2x2, CDS_IBSS_5_1x1, CDS_IBSS_5_2x2} \<longleftrightarrow> c_mode (l ! 0) = CDS_IBSS_MODE"
    "i \<in> {CDS_STA_24_1x1, CDS_STA_24_2x2, CDS_STA_5_1x1, CDS_STA_5_2x2} \<longleftrightarrow> c_mode (l ! 0) = CDS_STA_MODE"
  unfolding i_def cds_get_second_connection_pcl_table_index_def Let_def by (cases "c_mode (l ! 0)"; simp)+

lemma second_row_modes:
  assumes row: "second_row_ok dbs (cds_get_second_connection_pcl_table_index l) row" and mode: "mode \<noteq> CDS_MAX_NUM_OF_MODE"
  shows "if (if mode = CDS_IBSS_MODE then dbs \<and> c_mode (l ! 0) = CDS_STA_MODE else c_mode (l ! 0) \<noteq> CDS_IBSS_MODE \<or> dbs \<and> mode = CDS_STA_MODE)
    then admits row (mode_num mode) else refuses row (mode_num mode)"
proof -
  have "mode \<in> set [CDS_STA_MODE, CDS_SAP_MODE, CDS_P2P_CLIENT_MODE, CDS_P2P_GO_MODE, CDS_IBSS_MODE]" using mode by (cases mode) auto
  with row show ?thesis unfolding second_row_ok_def Let_def second_index_mode list_all_iff by blast
qed

lemma tables_one:
  assumes n: "cds_get_connection_count l = 1" and mode: "mode \<noteq> CDS_MAX_NUM_OF_MODE" and known: "c_mode (l ! 0) \<noteq> CDS_MAX_NUM_OF_MODE"
  shows "\<exists>r. pcl_of_tables e l mode = Some r \<and> (refused (Some r) \<longleftrightarrow> \<not> table_admits (hw_dbs_capable e) [l ! 0] mode)"
proof -
  let ?i = "cds_get_second_connection_pcl_table_index l" and ?dbs = "hw_dbs_capable e"
  have i: "?i \<noteq> CDS_MAX_ONE_CONNECTION_MODE" using known by (simp add: second_index_mode)
  obtain row where row: "map_of (if ?dbs then second_connection_pcl_dbs_table else second_connection_pcl_nodbs_table) ?i = Some row" "second_row_ok ?dbs ?i row"
    by (rule second_row [OF i])
  from row(2) have ok: "row_ok row" by (simp add: second_row_ok_def)
  let ?t = "row ! mode_num mode ! pref_num (system_pref e)"
  have t: "pcl_of_tables e l mode = Some (Inr ?t)" "pcl_entry row mode (system_pref e) = Some ?t"
    using n i row(1) row_entry [OF ok mode pref_num_less(1)] by (simp_all add: pcl_of_tables_def Let_def del: One_nat_def)
  with second_row_modes [OF row(2) mode] row_entry_max [OF ok mode pref_num_less(1)[of e]] show ?thesis
    by (auto simp: refused_def split: if_splits)
qed

lemma tables_two:
  assumes n: "cds_get_connection_count l = 2" and mode: "mode \<noteq> CDS_MAX_NUM_OF_MODE" "mode \<noteq> CDS_IBSS_MODE"
  shows "\<exists>r. pcl_of_tables e l mode = Some r \<and> (refused (Some r) \<longleftrightarrow> \<not> table_admits (hw_dbs_capable e) [l ! 0, l ! 1] mode)"
proof (cases "pair_no (c_mode (l ! 0)) (c_mode (l ! 1))")
  case None
  then have "pcl_of_tables e l mode = Some (Inl CDS_E_FAILURE)"
    using n by (simp add: pcl_of_tables_def Let_def index_third pair_index_def)
  with None show ?thesis by (simp add: refused_def)
next
  case (Some p)
  let ?dbs = "hw_dbs_capable e" and ?k = "pair_kind (l ! 0) (l ! 1)"
  have i: "cds_get_third_connection_pcl_table_index l = 11 * p + ?k" "11 * p + ?k < 66" "(11 * p + ?k) div 11 = p" "(11 * p + ?k) mod 11 = ?k"
    using Some pair_no_bound [OF Some] pair_kind_bound [of "l ! 0" "l ! 1"] by (simp_all add: index_third pair_index_def)
  obtain row where row: "map_of (if ?dbs then third_connection_pcl_dbs_table else third_connection_pcl_nodbs_table) (11 * p + ?k) = Some row"
      "third_row_ok ?dbs (11 * p + ?k) row"
    by (rule third_row [OF i(2)])
  from row(2) have ok: "row_ok row" by (simp add: third_row_ok_def)
  have "mode \<in> set [CDS_STA_MODE, CDS_SAP_MODE, CDS_P2P_CLIENT_MODE, CDS_P2P_GO_MODE]" using mode by (cases mode) auto
  with row(2) have m: "if mode \<in> set (third_modes p) \<and> (?dbs \<or> ?k \<noteq> 10) then admits row (mode_num mode) else refuses row (mode_num mode)"
    unfolding third_row_ok_def i list_all_iff by blast
  let ?t = "row ! mode_num mode ! pref_num (system_pref e)"
  have t: "pcl_of_tables e l mode = Some (Inr ?t)" "pcl_entry row mode (system_pref e) = Some ?t"
    using n i row(1) row_entry [OF ok mode(1) pref_num_less(1)] by (simp_all add: pcl_of_tables_def Let_def)
  with m Some row_entry_max [OF ok mode(1) pref_num_less(1)[of e]] show ?thesis
    by (auto simp: refused_def split: if_splits)
qed


lemma wf_cases:
  assumes "conc_wf l"
  obtains "cds_get_connection_count l = 0" "active l = []"
  | "cds_get_connection_count l = 1" "active l = [l ! 0]"
  | "cds_get_connection_count l = 2" "active l = [l ! 0, l ! 1]"
  | "cds_get_connection_count l = 3" "length (active l) = 3"
proof -
  from assms obtain cs where cs: "conc_ok cs" "l = conc_repr cs" by (rule conc_wfE)
  then have n: "cds_get_connection_count l = length cs" "active l = cs" "\<And>i. i < length cs \<Longrightarrow> l ! i = cs ! i" "length cs \<le> 3"
    by (simp_all add: count_repr) (simp add: conc_ok_def MAX_NUMBER_OF_CONC_CONNECTIONS_def)
  then consider "length cs = 0" | "length cs = 1" | "length cs = 2" | "length cs = 3" by linarith
  then show ?thesis
  proof cases
    case 1
    with n(1,2) show ?thesis using that(1) by simp
  next
    case 2
    then obtain a where a: "cs = [a]" by (auto simp: length_Suc_conv)
    with n(3) [of 0] have "l ! 0 = a" by simp
    with a n(1,2) show ?thesis using that(2) by simp
  next
    case 3
    then obtain a b where a: "cs = [a, b]" by (auto simp: length_Suc_conv numeral_2_eq_2)
    with n(3) [of 0] n(3) [of 1] have "l ! 0 = a" "l ! 1 = b" by simp_all
    with a n(1,2) show ?thesis using that(3) by simp
  next
    case 4
    with n(1,2) show ?thesis using that(4) by simp
  qed
qed

lemma tables_none:
  assumes "cds_get_connection_count l = 0" "mode \<noteq> CDS_MAX_NUM_OF_MODE"
  shows "\<exists>r. pcl_of_tables e l mode = Some r \<and> \<not> refused (Some r)"
proof -
  from first_row have row: "row_ok first_connection_pcl_table" by simp
  have "mode_num mode \<in> set [0..<5]" using mode_num_less [OF assms(2)] by simp
  with conjunct2 [OF first_row] have "admits first_connection_pcl_table (mode_num mode)" unfolding list_all_iff by (rule bspec)
  from row_entry [OF row assms(2) pref_num_less(2), of e] row_entry_max(1) [OF row assms(2) pref_num_less(2) this, of e]
  show ?thesis using assms(1) by (simp add: pcl_of_tables_def Let_def refused_def del: cds_pcl_type.distinct)
qed

lemma tables_two_total:
  assumes n: "cds_get_connection_count l = 2" and mode: "mode \<noteq> CDS_MAX_NUM_OF_MODE"
  shows "pcl_of_tables e l mode \<noteq> None"
proof (cases "pair_index (l ! 0) (l ! 1) = 66")
  case True
  with n show ?thesis by (simp add: pcl_of_tables_def Let_def index_third)
next
  case False
  let ?dbs = "hw_dbs_capable e"
  from False have "pair_index (l ! 0) (l ! 1) < 66"
    using pair_no_bound pair_kind_bound [of "l ! 0" "l ! 1"] by (fastforce simp: pair_index_def split: option.splits)
  from third_row [OF this, of ?dbs] obtain row where
    "map_of (if ?dbs then third_connection_pcl_dbs_table else third_connection_pcl_nodbs_table) (pair_index (l ! 0) (l ! 1)) = Some row"
    "third_row_ok ?dbs (pair_index (l ! 0) (l ! 1)) row" by blast
  with n False row_entry [OF _ mode pref_num_less(1), of row e] show ?thesis
    by (simp add: pcl_of_tables_def Let_def index_third third_row_ok_def)
qed

lemma tables_total:
  assumes "conc_wf l" "mode \<noteq> CDS_MAX_NUM_OF_MODE"
  shows "pcl_of_tables e l mode \<noteq> None"
  using assms(1)
proof (cases rule: wf_cases)
  case 1
  from tables_none [OF this(1) assms(2), of e] show ?thesis by auto
next
  case 2
  show ?thesis
  proof (cases "c_mode (l ! 0) = CDS_MAX_NUM_OF_MODE")
    case True
    with 2 show ?thesis by (simp add: pcl_of_tables_def Let_def second_index_mode)
  next
    case False
    from tables_one [OF 2(1) assms(2) False, of e] show ?thesis by auto
  qed
next
  case 3
  from tables_two_total [OF this(1) assms(2), of e] show ?thesis .
next
  case 4
  then show ?thesis by (simp add: pcl_of_tables_def Let_def)
qed

text \<open>
  C32: Every look-up of \<open>cds_get_pcl\<close> in the tables stays inside them: for each mode, each state of the connections, each
  preference and both capabilities of the hardware there is an entry, or the index says that there is none.
\<close>

theorem pcl_tables_total:
  assumes "conc_wf l" "mode \<noteq> CDS_MAX_NUM_OF_MODE"
  shows "pcl_of_tables e l mode \<noteq> None"
  using assms by (rule tables_total)

theorem pcl_tables_total_witness:
  "pcl_of_tables demo_conc_env (conc_repr [sta_36, sap_6]) CDS_IBSS_MODE = Some (Inr CDS_MAX_PCL_TYPE) \<and>
   pcl_of_tables demo_conc_env (conc_repr [sta_36, sap_6]) CDS_STA_MODE \<noteq> None"
proof -
  have "conc_wf (conc_repr [sta_36, sap_6])" by code_simp
  from pcl_tables_total [OF this, of CDS_STA_MODE demo_conc_env]
  have "pcl_of_tables demo_conc_env (conc_repr [sta_36, sap_6]) CDS_STA_MODE \<noteq> None" by simp
  moreover have "pcl_of_tables demo_conc_env (conc_repr [sta_36, sap_6]) CDS_IBSS_MODE = Some (Inr CDS_MAX_PCL_TYPE)" by code_simp
  ultimately show ?thesis by blast
qed

lemma matrix_active:
  assumes "conc_wf l" "length (active l) < 3" "\<forall>c \<in> set (active l). c_mode c \<noteq> CDS_MAX_NUM_OF_MODE"
    "mode \<noteq> CDS_MAX_NUM_OF_MODE" "mode = CDS_IBSS_MODE \<longrightarrow> length (active l) < 2"
  shows "refused (pcl_of_tables e l mode) \<longleftrightarrow> \<not> table_admits (hw_dbs_capable e) (active l) mode"
  using assms(1)
proof (cases rule: wf_cases)
  case 1
  from tables_none [OF this(1) assms(4), of e] this show ?thesis by auto
next
  case 2
  with assms(3) have "c_mode (l ! 0) \<noteq> CDS_MAX_NUM_OF_MODE" by simp
  from tables_one [OF 2(1) assms(4) this, of e] 2 show ?thesis by auto
next
  case 3
  with assms(5) have "mode \<noteq> CDS_IBSS_MODE" by auto
  from tables_two [OF 3(1) assms(4) this, of e] 3 show ?thesis by auto
next
  case 4
  with assms(2) show ?thesis by simp
qed



end
