(* ===== verification/Conc_Policy.thy ===== *)
theory Conc_Policy
  imports Conc_Matrix
begin

text \<open>
  The questions the rest of the driver asks the concurrency policy (\<open>core/cds/src/cds_concurrency.c\<close>): may a connection come up on
  a channel, which channels weigh how much, which channel or MAC a connection uses, and which change of the hardware mode the
  connections ask for.
\<close>

section \<open>Sessions\<close>

text \<open>
  The counters of sessions have eight bits; \<open>concurrency_mode\<close> is the set of the bits that are set. \<open>QDF_OTHER_MODE\<close> stands for the
  device modes whose counters are never changed.
\<close>

record cds_sessions =
  no_of_active_sessions :: "qdf_mode \<Rightarrow> u8"
  no_of_open_sessions :: "qdf_mode \<Rightarrow> u8"
  concurrency_mode :: "qdf_mode set"

definition qdf_modes :: "qdf_mode list" where
  "qdf_modes = [QDF_STA_MODE, QDF_SAP_MODE, QDF_P2P_CLIENT_MODE, QDF_P2P_GO_MODE, QDF_MONITOR_MODE, QDF_IBSS_MODE, QDF_OTHER_MODE]"

definition cds_set_concurrency_mode :: "qdf_mode \<Rightarrow> cds_sessions \<Rightarrow> cds_sessions" where
  "cds_set_concurrency_mode mode s =
     (if mode \<in> {QDF_STA_MODE, QDF_P2P_CLIENT_MODE, QDF_P2P_GO_MODE, QDF_SAP_MODE, QDF_IBSS_MODE, QDF_MONITOR_MODE}
      then s\<lparr>concurrency_mode := insert mode (concurrency_mode s),
             no_of_open_sessions := (no_of_open_sessions s)(mode := no_of_open_sessions s mode + 1)\<rparr>
      else s)"

definition cds_clear_concurrency_mode :: "qdf_mode \<Rightarrow> cds_sessions \<Rightarrow> cds_sessions" where
  "cds_clear_concurrency_mode mode s =
     (if mode \<in> {QDF_STA_MODE, QDF_P2P_CLIENT_MODE, QDF_P2P_GO_MODE, QDF_SAP_MODE, QDF_MONITOR_MODE}
      then let s = s\<lparr>no_of_open_sessions := (no_of_open_sessions s)(mode := no_of_open_sessions s mode - 1)\<rparr>
           in if no_of_open_sessions s mode = 0 then s\<lparr>concurrency_mode := concurrency_mode s - {mode}\<rparr> else s
      else s)"

definition cds_max_concurrent_connections_reached :: "conc_env \<Rightarrow> cds_sessions \<Rightarrow> bool" where
  "cds_max_concurrent_connections_reached e s \<longleftrightarrow>
     int (unat (sum_list (map (no_of_active_sessions s) qdf_modes))) > int (gMaxConcurrentActiveSessions e) - 1"

definition cds_clear_concurrent_session_count :: "cds_sessions \<Rightarrow> cds_sessions" where
  "cds_clear_concurrent_session_count s = s\<lparr>no_of_active_sessions := (\<lambda>_. 0)\<rparr>"

section \<open>May a connection come up?\<close>

text \<open>A loop over the valid entries that asks whether some entry has a property.\<close>

definition any_conn :: "(cds_conc_connection_info \<Rightarrow> bool) \<Rightarrow> conc_list \<Rightarrow> bool" where
  "any_conn P l \<longleftrightarrow> conc_find P l 0 \<noteq> None"

definition cds_disallow_mcc :: "conc_env \<Rightarrow> conc_list \<Rightarrow> nat \<Rightarrow> bool" where
  "cds_disallow_mcc e l channel \<longleftrightarrow>
     any_conn (\<lambda>c. if \<not> hw_dbs_capable e then c_chan c \<noteq> channel else CDS_IS_CHANNEL_5GHZ (c_chan c) \<and> c_chan c \<noteq> channel) l"

definition cds_allow_new_home_channel :: "conc_env \<Rightarrow> conc_list \<Rightarrow> nat \<Rightarrow> nat \<Rightarrow> bool" where
  "cds_allow_new_home_channel e l channel num_connections \<longleftrightarrow>
     (let c0 = c_chan (l ! 0); c1 = c_chan (l ! 1) in
      if num_connections = 2 \<and> c0 \<noteq> c1 \<and> c_mac (l ! 0) = c_mac (l ! 1) then
        if \<not> hw_dbs_capable e then \<not> (channel \<noteq> c0 \<and> channel \<noteq> c1)
        else \<not> (CDS_IS_CHANNEL_24GHZ channel \<and> CDS_IS_CHANNEL_24GHZ c0 \<and> CDS_IS_CHANNEL_24GHZ c1 \<or>
                CDS_IS_CHANNEL_5GHZ channel \<and> CDS_IS_CHANNEL_5GHZ c0 \<and> CDS_IS_CHANNEL_5GHZ c1)
      else True)"

definition cds_is_5g_channel_allowed :: "conc_env \<Rightarrow> conc_list \<Rightarrow> nat \<Rightarrow> cds_con_mode \<Rightarrow> bool" where
  "cds_is_5g_channel_allowed e l channel mode \<longleftrightarrow>
     \<not> list_ex (\<lambda>i. CDS_IS_DFS_CH e (c_chan (l ! i)) \<and> CDS_IS_CHANNEL_5GHZ channel \<and> channel \<noteq> c_chan (l ! i)) (mode_indices mode l)"

text \<open>The parts of \<open>cds_allow_concurrency\<close>: the channel, a new IBSS connection, a station beside IBSS, group owners on one band.\<close>

definition channel_allowed :: "conc_env \<Rightarrow> conc_list \<Rightarrow> cds_con_mode \<Rightarrow> nat \<Rightarrow> bool" where
  "channel_allowed e l mode channel \<longleftrightarrow>
     cds_allow_new_home_channel e l channel (cds_get_connection_count l) \<and>
     cds_is_5g_channel_allowed e l channel CDS_P2P_GO_MODE \<and>
     cds_is_5g_channel_allowed e l channel CDS_SAP_MODE \<and>
     \<not> ((mode = CDS_P2P_GO_MODE \<or> mode = CDS_SAP_MODE) \<and> CDS_IS_DFS_CH e channel \<and> cds_disallow_mcc e l channel)"

definition ibss_allowed :: "conc_env \<Rightarrow> conc_list \<Rightarrow> nat \<Rightarrow> bool" where
  "ibss_allowed e l channel \<longleftrightarrow>
     (let count = cds_mode_specific_connection_count CDS_STA_MODE l; num_connections = cds_get_connection_count l in
      if cds_mode_specific_connection_count CDS_IBSS_MODE l \<noteq> 0 \<and> count \<noteq> 0 then False
      else if CDS_IS_DFS_CH e channel \<and> count \<noteq> 0 then False
      else if hw_dbs_capable e then
        if num_connections > 1 then False
        else if CDS_STA_MODE \<noteq> c_mode (l ! 0) then False
        else \<not> (channel \<noteq> 0 \<and> c_chan (l ! 0) \<noteq> channel \<and> CDS_IS_SAME_BAND_CHANNELS (c_chan (l ! 0)) channel)
      else num_connections = 0)"

definition sta_beside_ibss_allowed :: "conc_env \<Rightarrow> conc_list \<Rightarrow> nat \<Rightarrow> bool" where
  "sta_beside_ibss_allowed e l channel \<longleftrightarrow>
     (let count = cds_mode_specific_connection_count CDS_STA_MODE l; num_connections = cds_get_connection_count l in
      if cds_mode_specific_connection_count CDS_IBSS_MODE l \<noteq> 0 then
        if count \<noteq> 0 then False
        else if hw_dbs_capable e then
          if num_connections > 1 then False
          else if channel \<noteq> 0 \<and> CDS_IS_DFS_CH e (c_chan (l ! 0)) \<and> CDS_IS_CHANNEL_5GHZ channel then False
          else \<not> (c_chan (l ! 0) \<noteq> channel \<and> CDS_IS_SAME_BAND_CHANNELS (c_chan (l ! 0)) channel)
        else False
      else True)"

definition go_allowed :: "conc_list \<Rightarrow> nat \<Rightarrow> bool" where
  "go_allowed l channel \<longleftrightarrow>
     \<not> list_ex (\<lambda>i. CDS_IS_SAME_BAND_CHANNELS channel (c_chan (l ! i))) (mode_indices CDS_P2P_GO_MODE l)"

text \<open>The lists of \<open>struct sir_pcl_list\<close> have 128 entries.\<close>

definition SIR_PCL_SIZE :: nat where "SIR_PCL_SIZE = 128"

definition cds_allow_concurrency ::
    "conc_env \<Rightarrow> nat list \<Rightarrow> cds_sessions \<Rightarrow> conc_list \<Rightarrow> cds_con_mode \<Rightarrow> nat \<Rightarrow> hw_mode_bandwidth \<Rightarrow> bool option" where
  "cds_allow_concurrency e mandatory s l mode channel bw =
     do { (ret, p) \<leftarrow> cds_get_pcl e mandatory l mode SIR_PCL_SIZE (empty_pcl SIR_PCL_SIZE);
          Some (if ret \<noteq> CDS_SUCCESS then False
                else if cds_get_connection_count l \<noteq> 0 \<and> sub_20_mhz_enabled e then False
                else if cds_max_concurrent_connections_reached e s then False
                else if channel \<noteq> 0 \<and> \<not> channel_allowed e l mode channel then False
                else if mode = CDS_IBSS_MODE \<and> \<not> ibss_allowed e l channel then False
                else if mode = CDS_STA_MODE \<and> \<not> sta_beside_ibss_allowed e l channel then False
                else if channel \<noteq> 0 \<and> mode = CDS_P2P_GO_MODE \<and> cds_get_connection_count l \<noteq> 0 \<and> \<not> go_allowed l channel then False
                else True) }"

section \<open>Questions about the connections\<close>

definition cds_current_concurrency_is_mcc :: "conc_list \<Rightarrow> bool" where
  "cds_current_concurrency_is_mcc l \<longleftrightarrow>
     (let n = cds_get_connection_count l in
      if n = 2 then c_chan (l ! 0) \<noteq> c_chan (l ! 1) \<and> c_mac (l ! 0) = c_mac (l ! 1)
      else if n = 3 then c_chan (l ! 0) \<noteq> c_chan (l ! 1) \<or> c_chan (l ! 0) \<noteq> c_chan (l ! 2) \<or> c_chan (l ! 1) \<noteq> c_chan (l ! 2)
      else False)"

definition cds_get_channel :: "conc_list \<Rightarrow> cds_con_mode \<Rightarrow> nat option \<Rightarrow> nat" where
  "cds_get_channel l mode vdev_id =
     (if mode = CDS_MAX_NUM_OF_MODE then 0
      else case find (\<lambda>i. c_mode (l ! i) = mode \<and> (vdev_id = None \<or> vdev_id = Some (c_vdev_id (l ! i))) \<and> c_in_use (l ! i))
                  [0..<MAX_NUMBER_OF_CONC_CONNECTIONS] of
             Some i \<Rightarrow> c_chan (l ! i) | None \<Rightarrow> 0)"

definition cds_is_ibss_conn_exist :: "conc_list \<Rightarrow> nat option" where
  "cds_is_ibss_conn_exist l = (case mode_indices CDS_IBSS_MODE l of [] \<Rightarrow> None | i # _ \<Rightarrow> Some (c_chan (l ! i)))"

text \<open>The last entry found: the loops do not stop at the first one.\<close>

definition cds_is_any_nondfs_chnl_present :: "conc_env \<Rightarrow> conc_list \<Rightarrow> nat option" where
  "cds_is_any_nondfs_chnl_present e l =
     fold (\<lambda>i r. if c_in_use (l ! i) \<and> \<not> CDS_IS_DFS_CH e (c_chan (l ! i)) then Some (c_chan (l ! i)) else r)
       [0..<MAX_NUMBER_OF_CONC_CONNECTIONS] None"

definition cds_is_any_dfs_beaconing_session_present :: "conc_env \<Rightarrow> conc_list \<Rightarrow> nat option" where
  "cds_is_any_dfs_beaconing_session_present e l =
     fold (\<lambda>i r. if c_in_use (l ! i) \<and> CDS_IS_DFS_CH e (c_chan (l ! i)) \<and> (c_mode (l ! i) = CDS_SAP_MODE \<or> c_mode (l ! i) = CDS_P2P_GO_MODE)
                 then Some (c_chan (l ! i)) else r)
       [0..<MAX_NUMBER_OF_CONC_CONNECTIONS] None"

text \<open>
  The lists and the length of \<open>cds_get_nondfs_preferred_channel\<close> are not initialised: \<open>garbage\<close> is what is on the stack.
\<close>

definition first_nondfs :: "conc_env \<Rightarrow> pcl_buf \<Rightarrow> nat option" where
  "first_nondfs e p =
     (if p_len p \<le> length (p_chans p)
      then Some (case find (\<lambda>c. \<not> CDS_IS_DFS_CH e c) (take (p_len p) (p_chans p)) of Some c \<Rightarrow> c | None \<Rightarrow> 6) else None)"

definition cds_get_nondfs_preferred_channel ::
    "conc_env \<Rightarrow> nat list \<Rightarrow> pcl_buf \<Rightarrow> conc_list \<Rightarrow> cds_con_mode \<Rightarrow> bool \<Rightarrow> (conc_list \<times> nat) option" where
  "cds_get_nondfs_preferred_channel e mandatory garbage l mode for_existing_conn =
     (if for_existing_conn then
        case cds_is_any_nondfs_chnl_present e l of
          Some c \<Rightarrow> Some (l, c)
        | None \<Rightarrow> do { (l, st, p) \<leftarrow> cds_get_pcl_for_existing_conn e mandatory l mode (max_num_chan e) garbage;
                     if st \<noteq> CDS_SUCCESS then Some (l, 6) else map_option (Pair l) (first_nondfs e p) }
      else do { (st, p) \<leftarrow> cds_get_pcl e mandatory l mode (max_num_chan e) garbage;
                if st \<noteq> CDS_SUCCESS then Some (l, 6) else map_option (Pair l) (first_nondfs e p) })"

definition cds_is_any_mode_active_on_band_along_with_session :: "conc_list \<Rightarrow> nat \<Rightarrow> cds_band \<Rightarrow> bool" where
  "cds_is_any_mode_active_on_band_along_with_session l session_id band \<longleftrightarrow>
     list_ex (\<lambda>i. c_vdev_id (l ! i) \<noteq> session_id \<and> c_in_use (l ! i) \<and>
         (case band of CDS_BAND_24 \<Rightarrow> CDS_IS_CHANNEL_24GHZ (c_chan (l ! i)) | CDS_BAND_5 \<Rightarrow> CDS_IS_CHANNEL_5GHZ (c_chan (l ! i))))
       [0..<MAX_NUMBER_OF_CONC_CONNECTIONS]"

definition cds_get_mac_id_by_session_id :: "conc_list \<Rightarrow> nat \<Rightarrow> nat option" where
  "cds_get_mac_id_by_session_id l session_id =
     map_option (\<lambda>i. c_mac (l ! i)) (find (\<lambda>i. c_vdev_id (l ! i) = session_id \<and> c_in_use (l ! i)) [0..<MAX_NUMBER_OF_CONC_CONNECTIONS])"

text \<open>The table is indexed with the session id; \<open>None\<close> outside the table, \<open>Some None\<close> when there is no such session.\<close>

definition cds_get_mcc_session_id_on_mac :: "conc_list \<Rightarrow> nat \<Rightarrow> nat \<Rightarrow> nat option option" where
  "cds_get_mcc_session_id_on_mac l mac_id session_id =
     do { c \<leftarrow> entry l session_id;
          Some (map_option (\<lambda>i. c_vdev_id (l ! i) mod 256)
            (find (\<lambda>i. c_mac (l ! i) = mac_id \<and> c_vdev_id (l ! i) \<noteq> session_id \<and> c_chan (l ! i) \<noteq> c_chan c \<and> c_in_use (l ! i))
               [0..<MAX_NUMBER_OF_CONC_CONNECTIONS])) }"

definition cds_get_mcc_operating_channel :: "conc_list \<Rightarrow> nat \<Rightarrow> nat option" where
  "cds_get_mcc_operating_channel l session_id =
     (case cds_get_mac_id_by_session_id l session_id of
        None \<Rightarrow> Some 0
      | Some mac_id \<Rightarrow>
          do { r \<leftarrow> cds_get_mcc_session_id_on_mac l mac_id session_id;
               case r of None \<Rightarrow> Some 0 | Some mcc_session_id \<Rightarrow> map_option c_chan (entry l mcc_session_id) })"

section \<open>The weights of the valid channels\<close>

definition WEIGHT_OF_NON_PCL_CHANNELS :: nat where "WEIGHT_OF_NON_PCL_CHANNELS = 1"
definition WEIGHT_OF_DISALLOWED_CHANNELS :: nat where "WEIGHT_OF_DISALLOWED_CHANNELS = 0"

text \<open>\<open>struct sir_pcl_chan_weights\<close>: the list with its weights, and the channels that are to be weighed.\<close>

record chan_weights =
  cw_pcl :: "(nat \<times> nat) list"
  saved_chan_list :: "nat list"

fun allowed_weights ::
    "conc_env \<Rightarrow> nat list \<Rightarrow> cds_sessions \<Rightarrow> conc_list \<Rightarrow> nat list \<Rightarrow> nat list option" where
  "allowed_weights e mandatory s l [] = Some []"
| "allowed_weights e mandatory s l (c # cs) =
     do { ok \<leftarrow> cds_allow_concurrency e mandatory s l CDS_STA_MODE c HW_MODE_20_MHZ;
          ws \<leftarrow> allowed_weights e mandatory s l cs;
          Some ((if ok then WEIGHT_OF_NON_PCL_CHANNELS else WEIGHT_OF_DISALLOWED_CHANNELS) # ws) }"

definition pcl_weight :: "(nat \<times> nat) list \<Rightarrow> nat \<Rightarrow> nat \<Rightarrow> nat" where
  "pcl_weight pcl c w = (case find (\<lambda>(d, v). c = d) pcl of Some (d, v) \<Rightarrow> v | None \<Rightarrow> w)"

definition cds_get_valid_chan_weights ::
    "conc_env \<Rightarrow> nat list \<Rightarrow> cds_sessions \<Rightarrow> conc_list \<Rightarrow> chan_weights \<Rightarrow> (conc_list \<times> nat list) option" where
  "cds_get_valid_chan_weights e mandatory s l w =
     do { (l, ws) \<leftarrow>
            (if cds_mode_specific_connection_count CDS_STA_MODE l > 0 then
               case cds_store_and_del_conn_info CDS_STA_MODE l of (l', info) \<Rightarrow>
                 do { ws \<leftarrow> allowed_weights e mandatory s l' (saved_chan_list w); Some (cds_restore_deleted_conn_info info l', ws) }
             else Some (l, replicate (length (saved_chan_list w)) WEIGHT_OF_DISALLOWED_CHANNELS));
          Some (l, map2 (pcl_weight (cw_pcl w)) (saved_chan_list w) ws) }"

end

