(* ===== verification/Conc_Hw.thy ===== *)
theory Conc_Hw
  imports Conc_Policy Conc_Matrix
begin

text \<open>
  The hardware mode (\<open>core/cds/src/cds_concurrency.c\<close>): the action a new connection asks for, the commands to the firmware, the
  return to a single MAC when it is possible, and the events that count sessions and send preferred channel lists. Commands and
  messages are recorded in the order in which they are sent.
\<close>

section \<open>State\<close>

datatype hw_mode_ss = HW_MODE_SS_0x0 | HW_MODE_SS_1x1 | HW_MODE_SS_2x2

datatype conn_update_reason =
  SIR_UPDATE_REASON_SET_OPER_CHAN | SIR_UPDATE_REASON_JOIN_IBSS | SIR_UPDATE_REASON_UT | SIR_UPDATE_REASON_START_AP
  | SIR_UPDATE_REASON_NORMAL_STA | SIR_UPDATE_REASON_HIDDEN_STA | SIR_UPDATE_REASON_OPPORTUNISTIC | SIR_UPDATE_REASON_NSS_UPDATE
  | SIR_UPDATE_REASON_CHANNEL_SWITCH | SIR_UPDATE_REASON_CHANNEL_SWITCH_STA | SIR_UPDATE_REASON_PRE_CAC

text \<open>
  The messages: a hardware mode (its index, the session, the reason), a change of the streams of a vdev with the action that follows,
  a preferred channel list, and the calls for LRO and RPS.
\<close>

datatype conc_event =
  SetHwMode int nat conn_update_reason
  | NssUpdate nat nat cds_conc_next_action conn_update_reason
  | SetPcl "(nat \<times> nat) list"
  | DisableLro | EnableLro | SetRps bool

text \<open>
  What SME and WMA answer: the index of a hardware mode (streams and width of the two MACs, and whether it is a dual one; negative if
  there is none), and the status of the messages. \<open>has_sap_adapter\<close> says whether HDD finds an adapter of an access point.
\<close>

record conc_api =
  enable2x2 :: bool
  hw_mode_idx :: "hw_mode_ss \<Rightarrow> hw_mode_bandwidth \<Rightarrow> hw_mode_ss \<Rightarrow> hw_mode_bandwidth \<Rightarrow> bool \<Rightarrow> int"
  sme_set_hw_mode_ok :: "int \<Rightarrow> bool"
  sme_nss_update_ok :: "nat \<Rightarrow> bool"
  has_sap_adapter :: bool

section \<open>Commands\<close>

definition cds_pdev_set_hw_mode ::
    "conc_api \<Rightarrow> nat \<Rightarrow> hw_mode_ss \<Rightarrow> hw_mode_bandwidth \<Rightarrow> hw_mode_ss \<Rightarrow> hw_mode_bandwidth \<Rightarrow> bool \<Rightarrow> conn_update_reason \<Rightarrow>
     conc_status \<times> conc_event list" where
  "cds_pdev_set_hw_mode h session_id mac0_ss mac0_bw mac1_ss mac1_bw dbs reason =
     (let mac0_ss = (if mac0_ss = HW_MODE_SS_2x2 \<and> \<not> enable2x2 h then HW_MODE_SS_1x1 else mac0_ss);
          mac1_ss = (if mac1_ss = HW_MODE_SS_2x2 \<and> \<not> enable2x2 h then HW_MODE_SS_1x1 else mac1_ss);
          hw_mode_index = hw_mode_idx h mac0_ss mac0_bw mac1_ss mac1_bw dbs
      in if hw_mode_index < 0 then (CDS_E_FAILURE, [])
         else (if sme_set_hw_mode_ok h hw_mode_index then CDS_SUCCESS else CDS_E_FAILURE, [SetHwMode hw_mode_index session_id reason]))"

text \<open>
  The loops of \<open>cds_complete_action\<close>: an update for each beaconing connection that had two streams. The status is that of the last
  update.
\<close>

fun nss_updates ::
    "conc_api \<Rightarrow> conc_list \<Rightarrow> nat \<Rightarrow> cds_conc_next_action \<Rightarrow> conn_update_reason \<Rightarrow> nat list \<Rightarrow> conc_status \<Rightarrow> conc_status \<times> conc_event list" where
  "nss_updates h l new_nss next_action reason [] status = (status, [])"
| "nss_updates h l new_nss next_action reason (i # is) status =
     (let vdev_id = c_vdev_id (l ! i) in
      if cds_get_connection_for_vdev_id vdev_id l = MAX_NUMBER_OF_CONC_CONNECTIONS
      then nss_updates h l new_nss next_action reason is status
      else if c_original_nss (l ! i) = 2 then
        (let status = (if sme_nss_update_ok h vdev_id then CDS_SUCCESS else CDS_E_FAILURE);
             (st, ev) = nss_updates h l new_nss next_action reason is status
         in (st, NssUpdate vdev_id new_nss next_action reason # ev))
      else nss_updates h l new_nss next_action reason is status)"

fun action_rank :: "cds_conc_next_action \<Rightarrow> nat" where
  "action_rank CDS_DBS_DOWNGRADE = 2"
| "action_rank CDS_SINGLE_MAC_UPGRADE = 2"
| "action_rank _ = 0"

text \<open>The two functions call each other; the actions they pass on end after one round.\<close>

function (sequential) cds_next_actions :: "conc_env \<Rightarrow> conc_api \<Rightarrow> conc_list \<Rightarrow> nat \<Rightarrow> cds_conc_next_action \<Rightarrow> conn_update_reason \<Rightarrow> conc_status \<times> conc_event list" and
  cds_complete_action :: "conc_env \<Rightarrow> conc_api \<Rightarrow> conc_list \<Rightarrow> nat \<Rightarrow> cds_conc_next_action \<Rightarrow> conn_update_reason \<Rightarrow> nat \<Rightarrow> conc_status \<times> conc_event list" where
  "cds_next_actions e h l session_id action reason =
     (if \<not> hw_dbs_capable e then (CDS_E_NOSUPPORT, [])
      else case current_hw_mode e of
        None \<Rightarrow> (CDS_E_FAILURE, [])
      | Some dbs_cap \<Rightarrow>
          if (action = CDS_DBS_DOWNGRADE \<or> action = CDS_DBS) \<and> dbs_cap then (CDS_E_ALREADY, [])
          else if action = CDS_DBS_DOWNGRADE then cds_complete_action e h l 1 CDS_DBS reason session_id
          else if action = CDS_DBS then
            cds_pdev_set_hw_mode h session_id HW_MODE_SS_1x1 HW_MODE_80_MHZ HW_MODE_SS_1x1 HW_MODE_40_MHZ True reason
          else if action = CDS_SINGLE_MAC_UPGRADE then
            (let (status, ev) = cds_pdev_set_hw_mode h session_id HW_MODE_SS_2x2 HW_MODE_80_MHZ HW_MODE_SS_0x0 HW_MODE_BW_NONE False reason;
                 (status, ev') = cds_complete_action e h l 2 CDS_SINGLE_MAC reason session_id
             in (status, ev @ ev'))
          else if action = CDS_SINGLE_MAC then
            cds_pdev_set_hw_mode h session_id HW_MODE_SS_2x2 HW_MODE_80_MHZ HW_MODE_SS_0x0 HW_MODE_BW_NONE False reason
          else (CDS_E_FAILURE, []))"
| "cds_complete_action e h l new_nss next_action reason session_id =
     (if \<not> hw_dbs_capable e then (CDS_E_NOSUPPORT, [])
      else let (status, ev) = nss_updates h l new_nss next_action reason (mode_indices CDS_P2P_GO_MODE l) CDS_E_FAILURE;
               (status, ev') = nss_updates h l new_nss next_action reason (mode_indices CDS_SAP_MODE l) status
           in if status \<noteq> CDS_SUCCESS then
                (let (status, ev'') = cds_next_actions e h l session_id next_action reason in (status, ev @ ev' @ ev''))
              else (status, ev @ ev'))"
  by pat_completeness auto
termination
  by (relation "measure (case_sum (\<lambda>(e, h, l, s, a, r). action_rank a) (\<lambda>(e, h, l, n, a, r, s). Suc (action_rank a)))") auto

declare cds_next_actions.simps [simp del] cds_complete_action.simps [simp del]

text \<open>SME confirms an update of the streams.\<close>

definition cds_nss_update_cb :: "conc_env \<Rightarrow> conc_api \<Rightarrow> conc_list \<Rightarrow> nat \<Rightarrow> cds_conc_next_action \<Rightarrow> conn_update_reason \<Rightarrow> conc_event list" where
  "cds_nss_update_cb e h l vdev_id next_action reason =
     (if cds_get_connection_for_vdev_id vdev_id l = MAX_NUMBER_OF_CONC_CONNECTIONS then []
      else snd (cds_next_actions e h l vdev_id next_action reason))"

section \<open>The action for a new connection\<close>

definition next_action_of_tables :: "conc_list \<Rightarrow> nat \<Rightarrow> cds_conc_next_action option option" where
  "next_action_of_tables l channel =
     (let band = (if CDS_IS_CHANNEL_24GHZ channel then CDS_BAND_24 else CDS_BAND_5);
          num_connections = cds_get_connection_count l
      in if num_connections = 1 then
           let second_index = cds_get_second_connection_pcl_table_index l in
           if second_index = CDS_MAX_ONE_CONNECTION_MODE then Some None
           else do { row \<leftarrow> map_of next_action_two_connection_table second_index; map_option Some (entry row (band_num band)) }
         else if num_connections = 2 then
           let third_index = cds_get_third_connection_pcl_table_index l in
           if third_index = CDS_MAX_TWO_CONNECTION_MODE then Some None
           else do { row \<leftarrow> map_of next_action_three_connection_table third_index; map_option Some (entry row (band_num band)) }
         else Some (Some CDS_NOP))"

definition cds_current_connections_update ::
    "conc_env \<Rightarrow> conc_api \<Rightarrow> conc_list \<Rightarrow> nat \<Rightarrow> nat \<Rightarrow> conn_update_reason \<Rightarrow> (conc_status \<times> conc_event list) option" where
  "cds_current_connections_update e h l session_id channel reason =
     (if \<not> hw_dbs_capable e then Some (CDS_E_NOSUPPORT, [])
      else do { a \<leftarrow> next_action_of_tables l channel;
                Some (case a of
                        None \<Rightarrow> (CDS_E_FAILURE, [])
                      | Some next_action \<Rightarrow>
                          if next_action \<noteq> CDS_NOP then cds_next_actions e h l session_id next_action reason else (CDS_E_NOSUPPORT, [])) })"

section \<open>The return to a single MAC\<close>

text \<open>The loop over the entries stops when it has seen both MACs.\<close>

fun both_macs :: "conc_list \<Rightarrow> nat list \<Rightarrow> bool \<Rightarrow> bool \<Rightarrow> bool" where
  "both_macs l [] m0 m1 = False"
| "both_macs l (i # is) m0 m1 =
     (if c_mac (l ! i) = 0 \<and> c_in_use (l ! i) then if m1 then True else both_macs l is True m1
      else if c_mac (l ! i) = 1 \<and> c_in_use (l ! i) then if m0 then True else both_macs l is m0 True
      else both_macs l is m0 m1)"

definition cds_need_opportunistic_upgrade :: "conc_env \<Rightarrow> conc_list \<Rightarrow> cds_conc_next_action" where
  "cds_need_opportunistic_upgrade e l =
     (if \<not> hw_dbs_capable e then CDS_NOP
      else if current_hw_mode e \<noteq> Some True then CDS_NOP
      else if both_macs l [0..<MAX_NUMBER_OF_CONC_CONNECTIONS] False False then CDS_NOP
      else if list_ex (\<lambda>i. c_original_nss (l ! i) = 2 \<and> c_in_use (l ! i)) [0..<MAX_NUMBER_OF_CONC_CONNECTIONS] then CDS_SINGLE_MAC_UPGRADE
      else CDS_SINGLE_MAC)"

definition cds_dbs_opportunistic_timer_handler :: "conc_env \<Rightarrow> conc_api \<Rightarrow> conc_list \<Rightarrow> conc_event list" where
  "cds_dbs_opportunistic_timer_handler e h l =
     (let action = cds_need_opportunistic_upgrade e l in
      if action \<noteq> CDS_NOP then snd (cds_next_actions e h l 0 action SIR_UPDATE_REASON_OPPORTUNISTIC) else [])"

text \<open>The state of the timer that tries the upgrade is whether it runs; the second component of the result.\<close>

definition cds_checkn_update_hw_mode_single_mac_mode :: "conc_env \<Rightarrow> conc_api \<Rightarrow> conc_list \<Rightarrow> bool \<Rightarrow> nat \<Rightarrow> conc_event list \<times> bool" where
  "cds_checkn_update_hw_mode_single_mac_mode e h l timer_running channel =
     (if list_ex (\<lambda>i. c_in_use (l ! i) \<and> \<not> CDS_IS_SAME_BAND_CHANNELS channel (c_chan (l ! i))) [0..<MAX_NUMBER_OF_CONC_CONNECTIONS]
      then ([], timer_running)
      else (cds_dbs_opportunistic_timer_handler e h l, False))"

datatype cds_band_type = CDS_BAND_ALL | CDS_BAND_2GHZ | CDS_BAND_5GHZ

definition cds_chan_to_band :: "nat \<Rightarrow> cds_band_type" where
  "cds_chan_to_band chan = (if chan \<le> 14 then CDS_BAND_2GHZ else CDS_BAND_5GHZ)"

definition cds_get_current_pref_hw_mode :: "conc_env \<Rightarrow> conc_list \<Rightarrow> cds_conc_next_action" where
  "cds_get_current_pref_hw_mode e l =
     (case current_hw_mode e of
        None \<Rightarrow> CDS_NOP
      | Some dbs_cap \<Rightarrow>
          let n = cds_get_connection_count l;
              b1 = cds_chan_to_band (c_chan (l ! 0)); b2 = cds_chan_to_band (c_chan (l ! 1)); b3 = cds_chan_to_band (c_chan (l ! 2))
          in if n = 2 then
               if b1 = b2 \<and> dbs_cap then CDS_SINGLE_MAC_UPGRADE
               else if b1 \<noteq> b2 \<and> \<not> dbs_cap then CDS_DBS_DOWNGRADE else CDS_NOP
             else if n = 3 then
               if b1 = b2 \<and> b2 = b3 \<and> dbs_cap then CDS_SINGLE_MAC_UPGRADE
               else if (b1 \<noteq> b2 \<or> b2 \<noteq> b3 \<or> b1 \<noteq> b3) \<and> \<not> dbs_cap then CDS_DBS_DOWNGRADE else CDS_NOP
             else CDS_NOP)"

text \<open>A channel switch; the timer is restarted for an upgrade. The result: the status, the messages, whether the timer runs.\<close>

definition cds_set_hw_mode_on_channel_switch ::
    "conc_env \<Rightarrow> conc_api \<Rightarrow> conc_list \<Rightarrow> nat \<Rightarrow> bool \<Rightarrow> conc_status \<times> conc_event list \<times> bool" where
  "cds_set_hw_mode_on_channel_switch e h l session_id timer_running =
     (if \<not> hw_dbs_capable e then (CDS_E_FAILURE, [], timer_running)
      else let action = cds_get_current_pref_hw_mode e l in
           if action \<noteq> CDS_DBS_DOWNGRADE \<and> action \<noteq> CDS_SINGLE_MAC_UPGRADE then (CDS_SUCCESS, [], timer_running)
           else if action = CDS_SINGLE_MAC_UPGRADE then (CDS_E_FAILURE, [], True)
           else let (st, ev) = cds_next_actions e h l session_id action SIR_UPDATE_REASON_CHANNEL_SWITCH in (st, ev, timer_running))"


section \<open>The order of the commands\<close>

text \<open>The beaconing connections with two streams, group owners first.\<close>

definition two_stream_beacons :: "conc_list \<Rightarrow> nat list" where
  "two_stream_beacons l = map (\<lambda>i. c_vdev_id (l ! i))
     (filter (\<lambda>i. c_original_nss (l ! i) = 2) (mode_indices CDS_P2P_GO_MODE l @ mode_indices CDS_SAP_MODE l))"

lemma vdev_found: "i < MAX_NUMBER_OF_CONC_CONNECTIONS \<Longrightarrow> c_in_use (l ! i) \<Longrightarrow>
   cds_get_connection_for_vdev_id (c_vdev_id (l ! i)) l < MAX_NUMBER_OF_CONC_CONNECTIONS"
  using find_upt_None_iff [of "\<lambda>j. c_vdev_id (l ! j) = c_vdev_id (l ! i) \<and> c_in_use (l ! j)" MAX_NUMBER_OF_CONC_CONNECTIONS]
    find_upt_Some_iff [of "\<lambda>j. c_vdev_id (l ! j) = c_vdev_id (l ! i) \<and> c_in_use (l ! j)" MAX_NUMBER_OF_CONC_CONNECTIONS]
  by (auto simp: cds_get_connection_for_vdev_id_def split: option.splits)

lemma nss_updates_form:
  assumes "\<forall>i \<in> set is. i < MAX_NUMBER_OF_CONC_CONNECTIONS \<and> c_in_use (l ! i)"
  shows "nss_updates h l n a r is st =
    (let vs = map (\<lambda>i. c_vdev_id (l ! i)) (filter (\<lambda>i. c_original_nss (l ! i) = 2) is)
     in (if vs = [] then st else if sme_nss_update_ok h (last vs) then CDS_SUCCESS else CDS_E_FAILURE, map (\<lambda>v. NssUpdate v n a r) vs))"
  using assms
proof (induction "is" arbitrary: st)
  case (Cons i "is")
  from Cons.prems have "cds_get_connection_for_vdev_id (c_vdev_id (l ! i)) l < MAX_NUMBER_OF_CONC_CONNECTIONS" by (simp add: vdev_found)
  with Cons show ?case by (auto simp: Let_def)
qed simp

lemma mode_indices_in_use: "\<forall>i \<in> set (mode_indices m l). i < MAX_NUMBER_OF_CONC_CONNECTIONS \<and> c_in_use (l ! i)"
  by (simp add: mode_indices_def)

lemma complete_action_form:
  assumes "hw_dbs_capable e"
  shows "cds_complete_action e h l n a r s =
    (let vs = two_stream_beacons l; ups = map (\<lambda>v. NssUpdate v n a r) vs
     in if vs \<noteq> [] \<and> sme_nss_update_ok h (last vs) then (CDS_SUCCESS, ups)
        else (let (st, ev) = cds_next_actions e h l s a r in (st, ups @ ev)))"
  using assms
  by (auto simp: cds_complete_action.simps two_stream_beacons_def Let_def nss_updates_form [OF mode_indices_in_use] split: prod.splits)

text \<open>The commands for two MACs with one stream each and for one MAC.\<close>

definition dual_mac :: "conc_api \<Rightarrow> nat \<Rightarrow> conn_update_reason \<Rightarrow> conc_event list" where
  "dual_mac h s r = snd (cds_pdev_set_hw_mode h s HW_MODE_SS_1x1 HW_MODE_80_MHZ HW_MODE_SS_1x1 HW_MODE_40_MHZ True r)"

definition single_mac :: "conc_api \<Rightarrow> nat \<Rightarrow> conn_update_reason \<Rightarrow> conc_event list" where
  "single_mac h s r = snd (cds_pdev_set_hw_mode h s HW_MODE_SS_2x2 HW_MODE_80_MHZ HW_MODE_SS_0x0 HW_MODE_BW_NONE False r)"

text \<open>
  The messages a change of the hardware mode sends (\<open>cds_next_actions\<close>, \<open>cds_complete_action\<close>). Before the hardware is split, each
  beaconing connection with two streams is told to use one; the command for two MACs follows at once only when there is no such
  connection or the last one could not be told, otherwise when SME confirms (\<open>cds_nss_update_cb\<close>). The return to one MAC sends the
  command first, then tells the connections, and sends the command a second time when there is no connection to tell.
\<close>

theorem hw_mode_sequence:
  assumes "hw_dbs_capable e" "current_hw_mode e = Some False"
  shows "snd (cds_next_actions e h l s CDS_DBS_DOWNGRADE r) =
      map (\<lambda>v. NssUpdate v 1 CDS_DBS r) (two_stream_beacons l) @
      (if two_stream_beacons l \<noteq> [] \<and> sme_nss_update_ok h (last (two_stream_beacons l)) then [] else dual_mac h s r) \<and>
    snd (cds_next_actions e h l s CDS_SINGLE_MAC_UPGRADE r) =
      single_mac h s r @ map (\<lambda>v. NssUpdate v 2 CDS_SINGLE_MAC r) (two_stream_beacons l) @
      (if two_stream_beacons l \<noteq> [] \<and> sme_nss_update_ok h (last (two_stream_beacons l)) then [] else single_mac h s r) \<and>
    (v \<in> set (two_stream_beacons l) \<longrightarrow> cds_nss_update_cb e h l v CDS_DBS r = dual_mac h v r)"
proof (intro conjI impI)
  show "snd (cds_next_actions e h l s CDS_DBS_DOWNGRADE r) = map (\<lambda>v. NssUpdate v 1 CDS_DBS r) (two_stream_beacons l) @
      (if two_stream_beacons l \<noteq> [] \<and> sme_nss_update_ok h (last (two_stream_beacons l)) then [] else dual_mac h s r)"
    using assms
    by (simp add: cds_next_actions.simps [of e h l s CDS_DBS_DOWNGRADE] cds_next_actions.simps [of e h l s CDS_DBS] complete_action_form
        Let_def dual_mac_def split: prod.split)
  show "snd (cds_next_actions e h l s CDS_SINGLE_MAC_UPGRADE r) = single_mac h s r @ map (\<lambda>v. NssUpdate v 2 CDS_SINGLE_MAC r) (two_stream_beacons l) @
      (if two_stream_beacons l \<noteq> [] \<and> sme_nss_update_ok h (last (two_stream_beacons l)) then [] else single_mac h s r)"
    using assms
    by (simp add: cds_next_actions.simps [of e h l s CDS_SINGLE_MAC_UPGRADE] cds_next_actions.simps [of e h l s CDS_SINGLE_MAC] complete_action_form
        Let_def single_mac_def split: prod.split)
  assume "v \<in> set (two_stream_beacons l)"
  then have "cds_get_connection_for_vdev_id v l < MAX_NUMBER_OF_CONC_CONNECTIONS"
    using mode_indices_in_use [of CDS_P2P_GO_MODE l] mode_indices_in_use [of CDS_SAP_MODE l] vdev_found
    by (auto simp: two_stream_beacons_def)
  then show "cds_nss_update_cb e h l v CDS_DBS r = dual_mac h v r"
    using assms by (simp add: cds_nss_update_cb_def cds_next_actions.simps [of e h l v CDS_DBS] dual_mac_def)
qed


definition one_mac_env :: conc_env where
  "one_mac_env = demo_conc_env\<lparr>hw_dbs_capable := True, current_hw_mode := Some False\<rparr>"

definition demo_api :: conc_api where
  "demo_api = \<lparr>enable2x2 = True, hw_mode_idx = (\<lambda>_ _ _ _ dbs. if dbs then 2 else 0), sme_set_hw_mode_ok = (\<lambda>_. True),
     sme_nss_update_ok = (\<lambda>_. True), has_sap_adapter = True\<rparr>"

theorem hw_mode_sequence_witness:
  "snd (cds_next_actions one_mac_env demo_api (conc_repr [sap_6]) 0 CDS_DBS_DOWNGRADE SIR_UPDATE_REASON_NORMAL_STA)
     = [NssUpdate 1 1 CDS_DBS SIR_UPDATE_REASON_NORMAL_STA] \<and>
   cds_nss_update_cb one_mac_env demo_api (conc_repr [sap_6]) 1 CDS_DBS SIR_UPDATE_REASON_NORMAL_STA = [SetHwMode 2 1 SIR_UPDATE_REASON_NORMAL_STA]"
proof -
  have "hw_dbs_capable one_mac_env" "current_hw_mode one_mac_env = Some False" by (simp_all add: one_mac_env_def)
  note hw_mode_sequence [OF this, of demo_api "conc_repr [sap_6]" 0 SIR_UPDATE_REASON_NORMAL_STA 1]
  moreover have "two_stream_beacons (conc_repr [sap_6]) = [1]" "dual_mac demo_api 1 SIR_UPDATE_REASON_NORMAL_STA = [SetHwMode 2 1 SIR_UPDATE_REASON_NORMAL_STA]"
    "sme_nss_update_ok demo_api 1" by code_simp+
  ultimately show ?thesis by simp
qed

section \<open>The tables of next actions\<close>

text \<open>The action for connections on one band and a new one on the other: by the chains of the first connection.\<close>

definition dbs_action :: "cds_chain_mode \<Rightarrow> cds_conc_next_action" where
  "dbs_action cm = (if cm = CDS_ONE_ONE then CDS_DBS else CDS_DBS_DOWNGRADE)"

definition on_24_rows :: "cds_one_connection_mode set" where
  "on_24_rows = {CDS_STA_24_1x1, CDS_STA_24_2x2, CDS_P2P_CLI_24_1x1, CDS_P2P_CLI_24_2x2, CDS_P2P_GO_24_1x1, CDS_P2P_GO_24_2x2,
     CDS_SAP_24_1x1, CDS_SAP_24_2x2, CDS_IBSS_24_1x1, CDS_IBSS_24_2x2}"

definition one_chain_rows :: "cds_one_connection_mode set" where
  "one_chain_rows = {CDS_STA_24_1x1, CDS_STA_5_1x1, CDS_P2P_CLI_24_1x1, CDS_P2P_CLI_5_1x1, CDS_P2P_GO_24_1x1, CDS_P2P_GO_5_1x1,
     CDS_SAP_24_1x1, CDS_SAP_5_1x1, CDS_IBSS_24_1x1, CDS_IBSS_5_1x1}"

definition action_row2 :: "cds_one_connection_mode \<Rightarrow> cds_conc_next_action list" where
  "action_row2 i = (let a = dbs_action (if i \<in> one_chain_rows then CDS_ONE_ONE else CDS_TWO_TWO) in
     if i \<in> on_24_rows then [CDS_NOP, a] else [a, CDS_NOP])"

lemma two_connection_rows:
  "map fst next_action_two_connection_table = one_connection_modes \<and> list_all (\<lambda>(i, row). row = action_row2 i) next_action_two_connection_table"
  by code_simp

definition action_row3 :: "nat \<Rightarrow> cds_conc_next_action list" where
  "action_row3 k = (let a = dbs_action (if k mod 2 = 0 then CDS_ONE_ONE else CDS_TWO_TWO) in
     if k < 4 then [CDS_NOP, a] else if k < 8 then [a, CDS_NOP] else if k < 10 then [a, a] else [CDS_NOP, CDS_NOP])"

lemma three_connection_rows:
  "map fst next_action_three_connection_table = [0..<66] \<and> list_all (\<lambda>(i, row). row = action_row3 (i mod 11)) next_action_three_connection_table"
  by code_simp

lemma second_index_rows:
  fixes l defines "i \<equiv> cds_get_second_connection_pcl_table_index l"
  assumes "c_mode (l ! 0) \<noteq> CDS_MAX_NUM_OF_MODE"
  shows "i \<in> on_24_rows \<longleftrightarrow> CDS_IS_CHANNEL_24GHZ (c_chan (l ! 0))" "i \<in> one_chain_rows \<longleftrightarrow> c_chain_mask (l ! 0) = CDS_ONE_ONE"
  using assms(2) unfolding i_def cds_get_second_connection_pcl_table_index_def Let_def on_24_rows_def one_chain_rows_def
  by (cases "c_mode (l ! 0)"; simp)+

lemma action_one:
  assumes n: "cds_get_connection_count l = 1" and known: "c_mode (l ! 0) \<noteq> CDS_MAX_NUM_OF_MODE"
  shows "next_action_of_tables l channel = Some (Some (if CDS_IS_CHANNEL_24GHZ (c_chan (l ! 0)) = CDS_IS_CHANNEL_24GHZ channel then CDS_NOP
    else dbs_action (c_chain_mask (l ! 0))))"
proof -
  let ?i = "cds_get_second_connection_pcl_table_index l"
  have i: "?i \<noteq> CDS_MAX_ONE_CONNECTION_MODE" using known by (simp add: second_index_mode)
  then have "?i \<in> set one_connection_modes" by (cases ?i) (auto simp: one_connection_modes_def)
  with two_connection_rows obtain row where "map_of next_action_two_connection_table ?i = Some row" "row = action_row2 ?i"
    using table_row [of next_action_two_connection_table one_connection_modes "\<lambda>i row. row = action_row2 i" ?i] by auto
  moreover have "c_chain_mask (l ! 0) = (if c_chain_mask (l ! 0) = CDS_ONE_ONE then CDS_ONE_ONE else CDS_TWO_TWO)"
    by (cases "c_chain_mask (l ! 0)") auto
  ultimately show ?thesis
    using n i second_index_rows [OF known] by (auto simp: next_action_of_tables_def Let_def action_row2_def entry_def dbs_action_def)
qed

definition band_known :: "nat \<Rightarrow> bool" where
  "band_known c \<longleftrightarrow> CDS_IS_CHANNEL_24GHZ c \<or> CDS_IS_CHANNEL_5GHZ c"

lemma bands_disjoint: "CDS_IS_CHANNEL_24GHZ c \<Longrightarrow> \<not> CDS_IS_CHANNEL_5GHZ c"
  by (simp add: CDS_IS_CHANNEL_24GHZ_def CDS_IS_CHANNEL_5GHZ_def)

lemma kind_row:
  assumes "band_known (c_chan c)" "band_known (c_chan d)"
  shows "action_row3 (pair_kind c d) ! (if five then 1 else 0) =
    (if c_chan c \<noteq> c_chan d \<and> c_mac c \<noteq> c_mac d then CDS_NOP
     else if CDS_IS_CHANNEL_24GHZ (c_chan c) = (\<not> five) \<and> CDS_IS_CHANNEL_24GHZ (c_chan d) = (\<not> five) then CDS_NOP else dbs_action (c_chain_mask c))"
  using assms bands_disjoint [of "c_chan c"] bands_disjoint [of "c_chan d"]
  by (cases "c_chain_mask c") (auto simp: action_row3_def pair_kind_def band_known_def dbs_action_def Let_def)

lemma action_two:
  assumes n: "cds_get_connection_count l = 2" and pair: "pair_no (c_mode (l ! 0)) (c_mode (l ! 1)) \<noteq> None"
    and band: "band_known (c_chan (l ! 0))" "band_known (c_chan (l ! 1))"
  shows "next_action_of_tables l channel = Some (Some (
    if c_chan (l ! 0) \<noteq> c_chan (l ! 1) \<and> c_mac (l ! 0) \<noteq> c_mac (l ! 1) then CDS_NOP
    else if CDS_IS_CHANNEL_24GHZ (c_chan (l ! 0)) = CDS_IS_CHANNEL_24GHZ channel \<and> CDS_IS_CHANNEL_24GHZ (c_chan (l ! 1)) = CDS_IS_CHANNEL_24GHZ channel
    then CDS_NOP else dbs_action (c_chain_mask (l ! 0))))"
proof -
  let ?k = "pair_kind (l ! 0) (l ! 1)" and ?five = "\<not> CDS_IS_CHANNEL_24GHZ channel"
  from pair obtain p where p: "pair_no (c_mode (l ! 0)) (c_mode (l ! 1)) = Some p" by blast
  have i: "cds_get_third_connection_pcl_table_index l = 11 * p + ?k" "11 * p + ?k < 66" "(11 * p + ?k) mod 11 = ?k"
    using p pair_no_bound [OF p] pair_kind_bound [of "l ! 0" "l ! 1"] by (simp_all add: index_third pair_index_def)
  with three_connection_rows obtain row where "map_of next_action_three_connection_table (11 * p + ?k) = Some row" "row = action_row3 ?k"
    using table_row [of next_action_three_connection_table "[0..<66]" "\<lambda>i row. row = action_row3 (i mod 11)" "11 * p + ?k"] by auto
  moreover have "length (action_row3 ?k) = 2" by (simp add: action_row3_def Let_def)
  moreover have "band_num (if CDS_IS_CHANNEL_24GHZ channel then CDS_BAND_24 else CDS_BAND_5) = (if ?five then 1 else 0)" by simp
  ultimately have "next_action_of_tables l channel = Some (Some (action_row3 ?k ! (if ?five then 1 else 0)))"
    using n i by (simp add: next_action_of_tables_def Let_def entry_def)
  then show ?thesis using kind_row [OF band, of ?five] by simp
qed


text \<open>Two connections on different channels and different MACs.\<close>

definition split_macs :: "cds_conc_connection_info list \<Rightarrow> bool" where
  "split_macs cs \<longleftrightarrow> (case cs of [c, d] \<Rightarrow> c_chan c \<noteq> c_chan d \<and> c_mac c \<noteq> c_mac d | _ \<Rightarrow> False)"

text \<open>
  The action the tables give for a connection on a new channel (\<open>cds_current_connections_update\<close>): none when the hardware is
  already split or all connections are on the band of the new channel; otherwise the split into two MACs, by way of fewer streams if
  the first connection uses two chains. The look-ups stay inside the tables.
\<close>

theorem next_action_formula:
  assumes "conc_wf l" "active l \<noteq> []" "length (active l) < 3" "\<forall>c \<in> set (active l). c_mode c \<noteq> CDS_MAX_NUM_OF_MODE \<and> band_known (c_chan c)"
    "length (active l) = 2 \<longrightarrow> pair_no (c_mode (active l ! 0)) (c_mode (active l ! 1)) \<noteq> None"
  shows "next_action_of_tables l channel = Some (Some (
    if split_macs (active l) \<or> (\<forall>c \<in> set (active l). CDS_IS_CHANNEL_24GHZ (c_chan c) = CDS_IS_CHANNEL_24GHZ channel) then CDS_NOP
    else dbs_action (c_chain_mask (hd (active l)))))"
  using assms(1)
proof (cases rule: wf_cases)
  case 1
  with assms(2) show ?thesis by simp
next
  case 2
  with assms(4) action_one [OF 2(1), of channel] show ?thesis by (simp add: split_macs_def)
next
  case 3
  define c d where cd: "c = l ! 0" "d = l ! 1"
  with 3 have act: "active l = [c, d]" by simp
  with assms(4,5) cd have "pair_no (c_mode (l ! 0)) (c_mode (l ! 1)) \<noteq> None" "band_known (c_chan (l ! 0))" "band_known (c_chan (l ! 1))" by simp_all
  from action_two [OF 3(1) this, of channel, folded cd] act show ?thesis by (simp add: split_macs_def)
next
  case 4
  with assms(3) show ?thesis by simp
qed

theorem next_action_formula_witness:
  "next_action_of_tables (conc_repr [sta_36]) 6 = Some (Some CDS_DBS_DOWNGRADE) \<and> next_action_of_tables (conc_repr [sta_36]) 40 = Some (Some CDS_NOP)"
proof -
  have "conc_wf (conc_repr [sta_36])" "active (conc_repr [sta_36]) = [sta_36]" "c_mode sta_36 \<noteq> CDS_MAX_NUM_OF_MODE" "band_known (c_chan sta_36)"
    by code_simp+
  with next_action_formula [of "conc_repr [sta_36]" 6] next_action_formula [of "conc_repr [sta_36]" 40]
  show ?thesis by (simp add: split_macs_def sta_36_def dbs_action_def CDS_IS_CHANNEL_24GHZ_def)
qed

end
