(* ===== verification/Conc_Pcl_Spec.thy ===== *)
theory Conc_Pcl_Spec
  imports Conc_Matrix
begin

text \<open>
  What the preferred channel list consists of: the groups of channels each type of list asks for, with their weights, cut at the
  size of the list, without unsafe channels and without the channels the mode of the connection excludes. The theory shows that the
  code with its arrays computes this list and never leaves the arrays.
\<close>

section \<open>Arrays\<close>

lemma mem_copy_Some:
  "off + n \<le> length dst \<Longrightarrow> n \<le> length src \<Longrightarrow> mem_copy dst off src n = Some (take off dst @ take n src @ drop (off + n) dst)"
  by (simp add: mem_copy_def)

lemma mem_set_Some: "n \<le> length dst \<Longrightarrow> mem_set dst n v = Some (replicate n v @ drop n dst)"
  by (simp add: mem_set_def)

lemma fill_Some:
  "i + n \<le> length a \<Longrightarrow> fill i n v a = Some (take i a @ replicate n v @ drop (i + n) a)"
proof (induction n arbitrary: i a)
  case (Suc n)
  have "take (Suc i) (a[i := v]) = take i a @ [v]"
    using Suc.prems by (simp add: take_Suc_conv_app_nth)
  with Suc.IH [of "Suc i" "a[i := v]"] Suc.prems show ?case by (simp add: put_Some)
qed simp

section \<open>Lists with weights\<close>

definition tag :: "nat \<Rightarrow> nat list \<Rightarrow> (nat \<times> nat) list" where
  "tag w cs = map (\<lambda>c. (c, w)) cs"

lemma tag_simps [simp]: "length (tag w cs) = length cs" "map fst (tag w cs) = cs" "map snd (tag w cs) = replicate (length cs) w"
  "take n (tag w cs) = tag w (take n cs)" "tag w [] = []" "tag w (c # cs) = (c, w) # tag w cs"
  by (simp_all add: tag_def comp_def take_map map_replicate_const)

text \<open>A list with weights as the first entries of two arrays of size \<open>N\<close>.\<close>

definition holds :: "nat \<Rightarrow> (nat \<times> nat) list \<Rightarrow> fill_state \<Rightarrow> bool" where
  "holds N X = (\<lambda>(pc, pw, len, i). length pc = N \<and> length pw = N \<and> len = length X \<and> i = length X \<and> length X \<le> N \<and>
     take (length X) pc = map fst X \<and> take (length X) pw = map snd X)"

lemma holds_Nil: "length pc = N \<Longrightarrow> length pw = N \<Longrightarrow> holds N [] (pc, pw, 0, 0)"
  by (simp add: holds_def)

lemma band_first_holds:
  assumes "holds N X s"
  shows "\<exists>s'. put_band_first N chans s = Some s' \<and> holds N (take N (tag WEIGHT_OF_GROUP1_PCL_CHANNELS chans)) s'"
proof -
  obtain pc pw len i where s: "s = (pc, pw, len, i)" by (cases s)
  let ?n = "min (length chans) N"
  have "take ?n chans = take N chans" by (cases "length chans \<le> N") auto
  with assms s show ?thesis
    by (auto simp: put_band_first_def holds_def Let_def mem_copy_Some fill_Some min.commute)
qed

lemma band_after_holds:
  assumes "holds N X s"
  shows "\<exists>s'. put_band_after N chans w s = Some s' \<and> holds N (take N (X @ tag w chans)) s'"
proof -
  from assms obtain pc pw where s: "s = (pc, pw, length X, length X)" and pc: "length pc = N" "take (length X) pc = map fst X"
      and pw: "length pw = N" "take (length X) pw = map snd X" and X: "length X \<le> N"
    by (cases s) (auto simp: holds_def)
  define n where "n = min (length X + length chans) N - length X"
  have n: "length X + n \<le> N" "n \<le> length chans" "take N (X @ tag w chans) = X @ tag w (take n chans)"
    using X by (cases "length X + length chans \<le> N"; simp add: n_def)+
  have "mem_copy pc (length X) chans n = Some (map fst X @ take n chans @ drop (length X + n) pc)"
    "fill (length X) n w pw = Some (map snd X @ replicate n w @ drop (length X + n) pw)"
    using n pc pw by (simp_all add: mem_copy_Some fill_Some)
  then have "put_band_after N chans w s =
      Some (map fst X @ take n chans @ drop (length X + n) pc, map snd X @ replicate n w @ drop (length X + n) pw, length X + n, length X + n)"
    by (simp add: put_band_after_def s n_def [symmetric] Let_def)
  moreover have "holds N (X @ tag w (take n chans))
      (map fst X @ take n chans @ drop (length X + n) pc, map snd X @ replicate n w @ drop (length X + n) pw, length X + n, length X + n)"
    using n pc pw by (simp add: holds_def)
  ultimately show ?thesis using n(3) by auto
qed

text \<open>A pass over the connections.\<close>

definition pass_holds :: "nat \<Rightarrow> (nat \<times> nat) list \<Rightarrow> (nat \<times> nat) list \<Rightarrow> pass_state \<Rightarrow> bool" where
  "pass_holds N X Y = (\<lambda>(channels, num, weights, index). length channels = N \<and> length weights = N \<and> num = length Y \<and>
     index = length X + length Y \<and> length X + length Y \<le> N \<and> take (length Y) channels = map fst Y \<and>
     take (length X + length Y) weights = map snd (X @ Y))"

lemma conn_pass_holds:
  assumes "conc_ok cs" "ci \<le> length cs" "pass_holds N X Y s"
  shows "\<exists>s' Y'. conn_pass accept w N (conc_repr cs) ci s = Some s' \<and> pass_holds N X Y' s' \<and>
    Y' = take (N - length X) (Y @ tag w (filter accept (map c_chan (drop ci cs))))"
  using assms(2,3)
proof (induction "length cs - ci" arbitrary: ci Y s)
  case 0
  obtain ch num pw ix where s: "s = (ch, num, pw, ix)" by (cases s)
  from 0 assms(1) s show ?case
    by (auto simp: conn_pass.simps [of accept w N "conc_repr cs" ci] valid_repr pass_holds_def)
next
  case (Suc n)
  obtain ch num pw ix where s: "s = (ch, num, pw, ix)" by (cases s)
  from Suc.hyps(2) have ci: "ci < length cs" and n: "n = length cs - Suc ci" and ci': "Suc ci \<le> length cs" by simp_all
  then have d: "drop ci cs = cs ! ci # drop (Suc ci) cs" by (simp add: Cons_nth_drop_Suc)
  have step: "conn_pass accept w N (conc_repr cs) ci s =
    (if accept (c_chan (cs ! ci)) \<and> ix < N then
       do { channels \<leftarrow> put ch num (c_chan (cs ! ci)); weights \<leftarrow> put pw ix w;
            conn_pass accept w N (conc_repr cs) (Suc ci) (channels, Suc num, weights, Suc ix) }
     else conn_pass accept w N (conc_repr cs) (Suc ci) s)"
    using ci assms(1) s by (simp add: conn_pass.simps [of accept w N "conc_repr cs" ci] valid_repr)
  show ?case
  proof (cases "accept (c_chan (cs ! ci)) \<and> ix < N")
    case True
    let ?s = "(ch[num := c_chan (cs ! ci)], Suc num, pw[ix := w], Suc ix)" and ?Y = "Y @ [(c_chan (cs ! ci), w)]"
    from Suc.prems(2) s True have "pass_holds N X ?Y ?s"
      by (auto simp: pass_holds_def take_Suc_conv_app_nth)
    from Suc.hyps(1) [OF n ci' this] obtain s' Y' where "conn_pass accept w N (conc_repr cs) (Suc ci) ?s = Some s'" "pass_holds N X Y' s'"
      "Y' = take (N - length X) (?Y @ tag w (filter accept (map c_chan (drop (Suc ci) cs))))" by blast
    moreover have "num < length ch" "ix < length pw" using Suc.prems(2) s True by (auto simp: pass_holds_def)
    ultimately show ?thesis using True step d by (simp add: put_Some)
  next
    case False
    from Suc.hyps(1) [OF n ci' Suc.prems(2)] obtain s' Y' where r: "conn_pass accept w N (conc_repr cs) (Suc ci) s = Some s'" "pass_holds N X Y' s'"
      "Y' = take (N - length X) (Y @ tag w (filter accept (map c_chan (drop (Suc ci) cs))))" by blast
    have "Y' = take (N - length X) (Y @ tag w (filter accept (map c_chan (drop ci cs))))"
    proof (cases "accept (c_chan (cs ! ci))")
      case True
      with False Suc.prems(2) s have "length Y = N - length X" by (auto simp: pass_holds_def)
      with r(3) show ?thesis by simp
    next
      case False
      with r(3) d show ?thesis by simp
    qed
    moreover have "conn_pass accept w N (conc_repr cs) ci s = Some s'" using r(1) False step by auto
    ultimately show ?thesis using r(2) by blast
  qed
qed


text \<open>The channels of the connections, in the orders of \<open>cds_get_connection_channels\<close>, with the weights of the groups.\<close>

definition group_weights :: "cds_pcl_group_id \<Rightarrow> nat \<times> nat" where
  "group_weights g = (if g = CDS_PCL_GROUP_ID1_ID2 then (WEIGHT_OF_GROUP1_PCL_CHANNELS, WEIGHT_OF_GROUP2_PCL_CHANNELS)
     else (WEIGHT_OF_GROUP2_PCL_CHANNELS, WEIGHT_OF_GROUP3_PCL_CHANNELS))"

definition conn_group ::
    "(nat \<Rightarrow> bool) \<Rightarrow> nat list \<Rightarrow> cds_pcl_channel_order \<Rightarrow> cds_pcl_group_id \<Rightarrow> (nat \<times> nat) list" where
  "conn_group skipped chans order g =
     (let (w1, w2) = group_weights g;
          on_24 = filter CDS_IS_CHANNEL_24GHZ chans;
          on_5 = filter (\<lambda>c. \<not> skipped c \<and> CDS_IS_CHANNEL_5GHZ c) chans
      in case order of
           CDS_PCL_ORDER_NONE \<Rightarrow> tag w1 (filter (\<lambda>c. \<not> skipped c) chans)
         | CDS_PCL_ORDER_24G_THEN_5G \<Rightarrow> tag w1 on_24 @ tag w2 on_5
         | CDS_PCL_ORDER_5G_THEN_2G \<Rightarrow> tag w1 on_5 @ tag w2 on_24)"

lemma two_passes:
  assumes ok: "conc_ok cs" and s: "pass_holds N X [] s"
  shows "\<exists>s' Y. Option.bind (conn_pass a w1 N (conc_repr cs) 0 s) (conn_pass b w2 N (conc_repr cs) 0) = Some s' \<and> pass_holds N X Y s' \<and>
    Y = take (N - length X) (tag w1 (filter a (map c_chan cs)) @ tag w2 (filter b (map c_chan cs)))"
proof -
  from conn_pass_holds [OF ok _ s, of 0 a w1] obtain s1 Y1 where s1:
    "conn_pass a w1 N (conc_repr cs) 0 s = Some s1" "pass_holds N X Y1 s1" "Y1 = take (N - length X) (tag w1 (filter a (map c_chan cs)))"
    by (auto simp del: tag_simps)
  from conn_pass_holds [OF ok _ s1(2), of 0 b w2] obtain s2 Y2 where s2:
    "conn_pass b w2 N (conc_repr cs) 0 s1 = Some s2" "pass_holds N X Y2 s2" "Y2 = take (N - length X) (Y1 @ tag w2 (filter b (map c_chan cs)))"
    by (auto simp del: tag_simps)
  have t: "take n (take n A @ B) = take n (A @ B)" for n and A B :: "(nat \<times> nat) list"
    by (cases "n \<le> length A") auto
  have "Y2 = take (N - length X) (tag w1 (filter a (map c_chan cs)) @ tag w2 (filter b (map c_chan cs)))"
    unfolding s2(3) s1(3) by (rule t)
  with s1(1) s2(1,2) show ?thesis by auto
qed

lemma connection_channels_holds:
  assumes ok: "conc_ok cs" and s: "pass_holds N X [] (channels, 0, weights, index)"
  shows "\<exists>s' Y. cds_get_connection_channels e (conc_repr cs) order skip N g channels weights index = Some s' \<and> pass_holds N X Y s' \<and>
    Y = take (N - length X) (conn_group (\<lambda>c. skip \<and> CDS_IS_DFS_CH e c) (map c_chan cs) order g)"
proof (cases order)
  case CDS_PCL_ORDER_NONE
  with conn_pass_holds [OF ok _ s, of 0 "\<lambda>c. \<not> (skip \<and> CDS_IS_DFS_CH e c)"] show ?thesis
    by (simp add: cds_get_connection_channels_def conn_group_def group_weights_def Let_def)
next
  case CDS_PCL_ORDER_24G_THEN_5G
  with two_passes [OF ok s, of CDS_IS_CHANNEL_24GHZ _ "\<lambda>c. \<not> (skip \<and> CDS_IS_DFS_CH e c) \<and> CDS_IS_CHANNEL_5GHZ c"] show ?thesis
    by (simp add: cds_get_connection_channels_def conn_group_def group_weights_def Let_def)
next
  case CDS_PCL_ORDER_5G_THEN_2G
  with two_passes [OF ok s, of "\<lambda>c. \<not> (skip \<and> CDS_IS_DFS_CH e c) \<and> CDS_IS_CHANNEL_5GHZ c" _ CDS_IS_CHANNEL_24GHZ] show ?thesis
    by (simp add: cds_get_connection_channels_def conn_group_def group_weights_def Let_def)
qed

lemma connections_holds:
  assumes ok: "conc_ok cs" and len: "length channel_list = N" and s: "holds N X s"
  shows "\<exists>s'. put_connections e (conc_repr cs) skip N channel_list order g s = Some s' \<and>
    holds N (take N (X @ conn_group (\<lambda>c. skip \<and> CDS_IS_DFS_CH e c) (map c_chan cs) order g)) s'"
proof -
  from s obtain pc pw where st: "s = (pc, pw, length X, length X)" and pc: "length pc = N" "take (length X) pc = map fst X"
      and pw: "length pw = N" "take (length X) pw = map snd X" and X: "length X \<le> N"
    by (cases s) (auto simp: holds_def)
  let ?G = "conn_group (\<lambda>c. skip \<and> CDS_IS_DFS_CH e c) (map c_chan cs) order g"
  have "pass_holds N X [] (channel_list, 0, pw, length X)" using len pw X by (simp add: pass_holds_def)
  from connection_channels_holds [OF ok this, of e order skip g] obtain ch' pw' Y where
    r: "cds_get_connection_channels e (conc_repr cs) order skip N g channel_list pw (length X) = Some (ch', length Y, pw', length X + length Y)"
    and Y: "pass_holds N X Y (ch', length Y, pw', length X + length Y)" "Y = take (N - length X) ?G"
    by (auto simp: pass_holds_def)
  from Y(1) have m: "mem_copy pc (length X) ch' (length Y) = Some (map fst X @ map fst Y @ drop (length X + length Y) pc)"
    using pc by (simp add: mem_copy_Some pass_holds_def)
  have XY: "take N (X @ ?G) = X @ Y" using X Y(2) by simp
  have "put_connections e (conc_repr cs) skip N channel_list order g s =
      Some (map fst X @ map fst Y @ drop (length X + length Y) pc, pw', length X + length Y, length X + length Y)"
    by (simp add: put_connections_def st r m)
  moreover have "holds N (X @ Y) (map fst X @ map fst Y @ drop (length X + length Y) pc, pw', length X + length Y, length X + length Y)"
    using Y(1) pc by (simp add: holds_def pass_holds_def)
  ultimately show ?thesis unfolding XY by blast
qed


section \<open>The list of each type\<close>

definition pcl_groups :: "cds_pcl_type \<Rightarrow> (cds_pcl_channel_order \<Rightarrow> cds_pcl_group_id \<Rightarrow> (nat \<times> nat) list) \<Rightarrow> nat list \<Rightarrow> nat list \<Rightarrow> (nat \<times> nat) list" where
  "pcl_groups pcl conns c24 c5 =
     (let scc = conns CDS_PCL_ORDER_NONE CDS_PCL_GROUP_ID1_ID2; scc' = conns CDS_PCL_ORDER_NONE CDS_PCL_GROUP_ID2_ID3;
          scc_24_5 = conns CDS_PCL_ORDER_24G_THEN_5G CDS_PCL_GROUP_ID1_ID2; scc_5_24 = conns CDS_PCL_ORDER_5G_THEN_2G CDS_PCL_GROUP_ID1_ID2;
          w1 = WEIGHT_OF_GROUP1_PCL_CHANNELS; w2 = WEIGHT_OF_GROUP2_PCL_CHANNELS; w3 = WEIGHT_OF_GROUP3_PCL_CHANNELS
      in case pcl of
           CDS_NONE \<Rightarrow> [] | CDS_MAX_PCL_TYPE \<Rightarrow> []
         | CDS_24G \<Rightarrow> tag w1 c24 | CDS_5G \<Rightarrow> tag w1 c5
         | CDS_SCC_CH \<Rightarrow> scc | CDS_MCC_CH \<Rightarrow> scc
         | CDS_SCC_CH_24G \<Rightarrow> scc @ tag w2 c24 | CDS_MCC_CH_24G \<Rightarrow> scc @ tag w2 c24
         | CDS_SCC_CH_5G \<Rightarrow> scc @ tag w2 c5 | CDS_MCC_CH_5G \<Rightarrow> scc @ tag w2 c5
         | CDS_24G_SCC_CH \<Rightarrow> tag w1 c24 @ scc' | CDS_24G_MCC_CH \<Rightarrow> tag w1 c24 @ scc'
         | CDS_5G_SCC_CH \<Rightarrow> tag w1 c5 @ scc' | CDS_5G_MCC_CH \<Rightarrow> tag w1 c5 @ scc'
         | CDS_SCC_ON_24_SCC_ON_5 \<Rightarrow> scc_24_5 | CDS_SCC_ON_5_SCC_ON_24 \<Rightarrow> scc_5_24
         | CDS_SCC_ON_24_SCC_ON_5_24G \<Rightarrow> scc_24_5 @ tag w3 c24 | CDS_SCC_ON_24_SCC_ON_5_5G \<Rightarrow> scc_24_5 @ tag w3 c5
         | CDS_SCC_ON_5_SCC_ON_24_24G \<Rightarrow> scc_5_24 @ tag w3 c24 | CDS_SCC_ON_5_SCC_ON_24_5G \<Rightarrow> scc_5_24 @ tag w3 c5)"

lemma take_take_append: "take n (take n A @ B) = take n (A @ B)"
  by (cases "n \<le> length A") auto

lemma bind_holds:
  assumes "\<exists>s'. f s = Some s' \<and> holds N (take N A) s'" "\<And>s'. holds N (take N A) s' \<Longrightarrow> \<exists>t. g s' = Some t \<and> holds N (take N (take N A @ B)) t"
  shows "\<exists>t. Option.bind (f s) g = Some t \<and> holds N (take N (A @ B)) t"
  using assms unfolding take_take_append by fastforce

lemma fill_channel_list_holds:
  assumes ok: "conc_ok cs" and len: "length channel_list = N" and s: "holds N [] s" and pcl: "pcl \<noteq> CDS_NONE" "pcl \<noteq> CDS_MAX_PCL_TYPE"
  shows "\<exists>s'. fill_channel_list e (conc_repr cs) skip N channel_list c24 c5 pcl s = Some s' \<and>
    holds N (take N (pcl_groups pcl (conn_group (\<lambda>c. skip \<and> CDS_IS_DFS_CH e c) (map c_chan cs)) c24 c5)) s'"
proof -
  have first: "\<exists>s'. put_band_first N ch s = Some s' \<and> holds N (take N (tag WEIGHT_OF_GROUP1_PCL_CHANNELS ch)) s'" for ch
    by (rule band_first_holds [OF s])
  have conns: "\<exists>s'. put_connections e (conc_repr cs) skip N channel_list order g s = Some s' \<and>
      holds N (take N (conn_group (\<lambda>c. skip \<and> CDS_IS_DFS_CH e c) (map c_chan cs) order g)) s'" for order g
    using connections_holds [OF ok len s, of e skip order g] by simp
  have ca: "\<exists>t. Option.bind (put_connections e (conc_repr cs) skip N channel_list order g s) (put_band_after N ch w) = Some t \<and>
      holds N (take N (conn_group (\<lambda>c. skip \<and> CDS_IS_DFS_CH e c) (map c_chan cs) order g @ tag w ch)) t" for order g ch w
    by (rule bind_holds [where f = "put_connections e (conc_repr cs) skip N channel_list order g"]) (rule conns, rule band_after_holds)
  have bc: "\<exists>t. Option.bind (put_band_first N ch s) (put_connections e (conc_repr cs) skip N channel_list order g) = Some t \<and>
      holds N (take N (tag WEIGHT_OF_GROUP1_PCL_CHANNELS ch @ conn_group (\<lambda>c. skip \<and> CDS_IS_DFS_CH e c) (map c_chan cs) order g)) t" for order g ch
    by (rule bind_holds [where f = "put_band_first N ch"]) (rule first, rule connections_holds [OF ok len])
  show ?thesis
    using pcl unfolding fill_channel_list_def pcl_groups_def Let_def
    by (cases pcl) (simp_all only: cds_pcl_type.case first conns ca bc simp_thms cds_pcl_type.distinct)
qed


section \<open>The filters\<close>

definition pcl_holds :: "nat \<Rightarrow> (nat \<times> nat) list \<Rightarrow> pcl_buf \<Rightarrow> bool" where
  "pcl_holds N X p \<longleftrightarrow> holds N X (p_chans p, p_weights p, p_len p, p_len p)"

lemma safe_loop_holds:
  assumes "holds N X (pc, pw, length X, length X)" "length X + length ps \<le> N"
  shows "\<exists>pc' pw'. safe_loop unsafe N ps (length X) pc pw = Some (pc', pw', length (X @ filter (\<lambda>(c, w). c \<notin> set unsafe) ps)) \<and>
    pcl_holds N (X @ filter (\<lambda>(c, w). c \<notin> set unsafe) ps) \<lparr>p_chans = pc', p_weights = pw', p_len = length (X @ filter (\<lambda>(c, w). c \<notin> set unsafe) ps)\<rparr>"
  using assms
proof (induction ps arbitrary: X pc pw)
  case Nil
  then show ?case by (simp add: pcl_holds_def)
next
  case (Cons p ps)
  obtain c w where p: "p = (c, w)" by (cases p)
  show ?case
  proof (cases "c \<in> set unsafe")
    case True
    with p Cons show ?thesis by simp
  next
    case False
    from Cons.prems have l: "length X < length pc" "length X < length pw" "length X < N" by (auto simp: holds_def)
    from Cons.prems have "holds N (X @ [(c, w)]) (pc[length X := c], pw[length X := w], length (X @ [(c, w)]), length (X @ [(c, w)]))"
      by (auto simp: holds_def take_Suc_conv_app_nth)
    from Cons.IH [OF this] Cons.prems(2) p False l show ?thesis by (simp add: put_Some)
  qed
qed

lemma zip_takes: "length X \<le> n \<Longrightarrow> take (length X) xs = map fst X \<Longrightarrow> take (length X) ys = map snd X \<Longrightarrow> take (length X) (zip xs ys) = X"
  by (simp add: take_zip zip_map_fst_snd)

lemma safe_list_holds:
  assumes "pcl_holds N X p" "max_num_chan e = N"
  shows "\<exists>p'. cds_update_with_safe_channel_list e N p = Some p' \<and> pcl_holds N (filter (\<lambda>(c, w). c \<notin> set (wlan_unsafe_channels e)) X) p'"
proof (cases "wlan_unsafe_channels e = []")
  case True
  with assms show ?thesis by (simp add: cds_update_with_safe_channel_list_def)
next
  case False
  from assms(1) have p: "length (p_chans p) = N" "length (p_weights p) = N" "p_len p = length X" "length X \<le> N"
      "take (length X) (p_chans p) = map fst X" "take (length X) (p_weights p) = map snd X"
    by (simp_all add: pcl_holds_def holds_def)
  let ?pc = "replicate (length X) 0 @ drop (length X) (p_chans p)" and ?pw = "replicate N 0 :: nat list"
  let ?cur = "take (length X) (p_chans p) @ replicate (N - length X) 0"
  have m: "mem_copy (replicate N 0) 0 (p_chans p) (length X) = Some ?cur" "mem_copy (replicate N 0) 0 (p_weights p) N = Some (p_weights p)"
      "mem_set (p_chans p) (length X) 0 = Some ?pc" "mem_set (p_weights p) N 0 = Some ?pw"
    using p by (simp_all add: mem_copy_Some mem_set_Some)
  have z: "take (length X) (zip ?cur (p_weights p)) = X" using p by (intro zip_takes) auto
  have "holds N [] (?pc, ?pw, length ([] :: (nat \<times> nat) list), length ([] :: (nat \<times> nat) list))" using p by (simp add: holds_def)
  from safe_loop_holds [OF this, of X "wlan_unsafe_channels e"] p(4) obtain pc' pw' where
    "safe_loop (wlan_unsafe_channels e) N X 0 ?pc ?pw = Some (pc', pw', length (filter (\<lambda>(c, w). c \<notin> set (wlan_unsafe_channels e)) X))"
    "pcl_holds N (filter (\<lambda>(c, w). c \<notin> set (wlan_unsafe_channels e)) X)
       \<lparr>p_chans = pc', p_weights = pw', p_len = length (filter (\<lambda>(c, w). c \<notin> set (wlan_unsafe_channels e)) X)\<rparr>" by auto
  with False p(3,4) m z assms(2) show ?thesis
    by (simp add: cds_update_with_safe_channel_list_def Let_def min_absorb1)
qed

lemma keep_channels_holds:
  assumes "pcl_holds N X p" "n \<le> N"
  shows "\<exists>p'. keep_channels N n keep p = Some p' \<and> pcl_holds N (filter (\<lambda>(c, w). keep c) X) p'"
proof -
  from assms(1) have p: "length (p_chans p) = N" "length (p_weights p) = N" "p_len p = length X" "length X \<le> N"
      "take (length X) (p_chans p) = map fst X" "take (length X) (p_weights p) = map snd X"
    by (simp_all add: pcl_holds_def holds_def)
  let ?K = "filter (\<lambda>(c, w). keep c) X"
  have K: "length ?K \<le> N" by (rule le_trans [OF length_filter_le p(4)])
  have z: "zip (take (p_len p) (p_chans p)) (take (p_len p) (p_weights p)) = X" using p by (simp add: zip_map_fst_snd)
  show ?thesis
    using p(1-4) K z assms(2) by (simp add: keep_channels_def Let_def mem_copy_Some mem_set_Some pcl_holds_def holds_def)
qed


section \<open>The list for a new connection\<close>

text \<open>The 2.4 GHz and the other channels of the valid ones; the first list is taken from the array with its trailing zeros.\<close>

definition valid_24 :: "nat \<Rightarrow> nat list \<Rightarrow> nat list" where
  "valid_24 N v = (let a = v @ replicate (N - length v) 0 in take (split_24 a) a)"

definition valid_5 :: "nat \<Rightarrow> nat list \<Rightarrow> nat list" where
  "valid_5 N v = drop (split_24 (v @ replicate (N - length v) 0)) v"

definition skip_dfs :: "cds_con_mode \<Rightarrow> cds_conc_connection_info list \<Rightarrow> bool" where
  "skip_dfs mode cs \<longleftrightarrow> (mode = CDS_SAP_MODE \<or> mode = CDS_P2P_GO_MODE) \<and> (\<exists>c \<in> set cs. c_mode c = CDS_STA_MODE)"

definition pcl_list_spec :: "conc_env \<Rightarrow> cds_conc_connection_info list \<Rightarrow> cds_con_mode \<Rightarrow> cds_pcl_type \<Rightarrow> nat list \<Rightarrow> (nat \<times> nat) list" where
  "pcl_list_spec e cs mode pcl v =
     (let N = max_num_chan e; skipped = (\<lambda>c. skip_dfs mode cs \<and> CDS_IS_DFS_CH e c) in
      filter (\<lambda>(c, w). c \<notin> set (wlan_unsafe_channels e))
        (take N (pcl_groups pcl (conn_group skipped (map c_chan cs)) (valid_24 N v) (filter (\<lambda>c. \<not> skipped c) (valid_5 N v)))))"

definition mode_channel :: "conc_env \<Rightarrow> nat list \<Rightarrow> cds_con_mode \<Rightarrow> nat \<Rightarrow> bool" where
  "mode_channel e mandatory mode c \<longleftrightarrow> (mode = CDS_SAP_MODE \<and> mandatory \<noteq> [] \<longrightarrow> c \<in> set mandatory) \<and>
     (mode = CDS_P2P_GO_MODE \<longrightarrow> cds_get_channel_state e c = CHANNEL_STATE_ENABLE)"

lemma channel_list_holds:
  assumes ok: "conc_ok cs" and pcl: "pcl \<noteq> CDS_NONE" "pcl \<noteq> CDS_MAX_PCL_TYPE" and v: "sme_valid_channels e = Some v" "length v \<le> max_num_chan e"
    and p: "length (p_chans p) = max_num_chan e" "length (p_weights p) = max_num_chan e"
  shows "\<exists>p'. cds_get_channel_list e (conc_repr cs) pcl mode (max_num_chan e) p = Some (CDS_SUCCESS, p') \<and>
    pcl_holds (max_num_chan e) (pcl_list_spec e cs mode pcl v) p'"
proof -
  let ?N = "max_num_chan e"
  define a where "a = v @ replicate (?N - length v) 0"
  have la: "length a = ?N" using v(2) by (simp add: a_def)
  have mc: "mem_copy (replicate ?N 0) 0 v (length v) = Some a" using v(2) by (simp add: mem_copy_Some a_def)
  have ta: "take (length v) a = v" by (simp add: a_def)
  define skip where "skip = ((mode = CDS_SAP_MODE \<or> mode = CDS_P2P_GO_MODE) \<and> cds_mode_specific_connection_count CDS_STA_MODE (conc_repr cs) > 0)"
  have skip: "skip = skip_dfs mode cs"
    by (auto simp: skip_def skip_dfs_def mode_count_repr [OF ok] filter_empty_conv)
  let ?c5 = "filter (\<lambda>c. \<not> (skip \<and> CDS_IS_DFS_CH e c)) (drop (split_24 a) v)"
  have "holds ?N [] (p_chans p, p_weights p, 0, 0)" using p by (simp add: holds_Nil)
  from fill_channel_list_holds [OF ok la this pcl, of e skip "take (split_24 a) a" ?c5] obtain pc pw len i where
    f: "fill_channel_list e (conc_repr cs) skip ?N a (take (split_24 a) a) ?c5 pcl (p_chans p, p_weights p, 0, 0) = Some (pc, pw, len, i)"
    and h: "holds ?N (take ?N (pcl_groups pcl (conn_group (\<lambda>c. skip \<and> CDS_IS_DFS_CH e c) (map c_chan cs)) (take (split_24 a) a) ?c5)) (pc, pw, len, i)"
    by auto
  from h have "pcl_holds ?N (take ?N (pcl_groups pcl (conn_group (\<lambda>c. skip \<and> CDS_IS_DFS_CH e c) (map c_chan cs)) (take (split_24 a) a) ?c5))
      \<lparr>p_chans = pc, p_weights = pw, p_len = len\<rparr>" by (simp add: pcl_holds_def holds_def)
  from safe_list_holds [OF this refl] obtain p' where
    "cds_update_with_safe_channel_list e ?N \<lparr>p_chans = pc, p_weights = pw, p_len = len\<rparr> = Some p'"
    "pcl_holds ?N (pcl_list_spec e cs mode pcl v) p'"
    by (auto simp: pcl_list_spec_def Let_def valid_24_def valid_5_def skip a_def)
  with pcl v(1) mc ta f show ?thesis
    by (simp add: cds_get_channel_list_def Let_def skip_def [symmetric])
qed

lemma get_pcl_holds:
  assumes "conc_wf l" "pcl_of_tables e l mode = Some (Inr pcl)" "pcl \<noteq> CDS_NONE" "pcl \<noteq> CDS_MAX_PCL_TYPE"
    "sme_valid_channels e = Some v" "length v \<le> max_num_chan e" "8 \<le> max_num_chan e"
    "length (p_chans p) = max_num_chan e" "length (p_weights p) = max_num_chan e"
    "mandatory = [] \<or> cds_list_has_24GHz_channel mandatory"
  shows "\<exists>p'. cds_get_pcl e mandatory l mode (max_num_chan e) p = Some (CDS_SUCCESS, p') \<and>
    pcl_holds (max_num_chan e) (filter (\<lambda>(c, w). mode_channel e mandatory mode c) (pcl_list_spec e (active l) mode pcl v)) p'"
proof -
  from assms(1) obtain cs where cs: "conc_ok cs" "l = conc_repr cs" by (rule conc_wfE)
  from channel_list_holds [OF cs(1) assms(3-6,8,9), of mode] cs obtain p1 where
    p1: "cds_get_channel_list e l pcl mode (max_num_chan e) p = Some (CDS_SUCCESS, p1)" "pcl_holds (max_num_chan e) (pcl_list_spec e cs mode pcl v) p1"
    by auto
  have n: "ptr_size \<le> max_num_chan e" using assms(7) by (simp add: ptr_size_def)
  from keep_channels_holds [OF p1(2) n, of "\<lambda>c. c \<in> set mandatory"] keep_channels_holds [OF p1(2) n, of "\<lambda>c. \<not> CDS_IS_PASSIVE_OR_DISABLE_CH e c"]
  obtain ps pg where
    "keep_channels (max_num_chan e) ptr_size (\<lambda>c. c \<in> set mandatory) p1 = Some ps"
    "pcl_holds (max_num_chan e) (filter (\<lambda>(c, w). c \<in> set mandatory) (pcl_list_spec e cs mode pcl v)) ps"
    "keep_channels (max_num_chan e) ptr_size (\<lambda>c. \<not> CDS_IS_PASSIVE_OR_DISABLE_CH e c) p1 = Some pg"
    "pcl_holds (max_num_chan e) (filter (\<lambda>(c, w). \<not> CDS_IS_PASSIVE_OR_DISABLE_CH e c) (pcl_list_spec e cs mode pcl v)) pg" by blast
  moreover have "filter (\<lambda>(c, w). True) xs = xs" for xs :: "(nat \<times> nat) list" by (induction xs) auto
  ultimately show ?thesis
    using assms(2,10) p1 cs
    by (cases mode) (auto simp: cds_get_pcl_def mode_channel_def cds_modify_sap_pcl_based_on_mandatory_channel_def
        cds_modify_pcl_based_on_enabled_channels_def CDS_IS_PASSIVE_OR_DISABLE_CH_def)
qed


lemma get_pcl_total:
  assumes "conc_wf l" "mode \<noteq> CDS_MAX_NUM_OF_MODE" "\<And>v. sme_valid_channels e = Some v \<Longrightarrow> length v \<le> max_num_chan e" "8 \<le> max_num_chan e"
    "pcl_holds (max_num_chan e) X p" "mandatory = [] \<or> cds_list_has_24GHz_channel mandatory"
  shows "\<exists>st p'. cds_get_pcl e mandatory l mode (max_num_chan e) p = Some (st, p')"
proof -
  obtain t where t: "pcl_of_tables e l mode = Some t" using tables_total [OF assms(1,2), of e] by auto
  show ?thesis
  proof (cases t)
    case (Inl st)
    with t show ?thesis by (simp add: cds_get_pcl_def)
  next
    case (Inr pcl)
    have n: "ptr_size \<le> max_num_chan e" using assms(4) by (simp add: ptr_size_def)
    consider "pcl = CDS_MAX_PCL_TYPE \<or> pcl \<noteq> CDS_NONE \<and> sme_valid_channels e = None" | "pcl = CDS_NONE"
      | v where "pcl \<noteq> CDS_NONE" "pcl \<noteq> CDS_MAX_PCL_TYPE" "sme_valid_channels e = Some v"
      by (cases "sme_valid_channels e") auto
    then show ?thesis
    proof cases
      case 1
      with t Inr show ?thesis by (auto simp: cds_get_pcl_def cds_get_channel_list_def)
    next
      case 2
      from keep_channels_holds [OF assms(5) n, of "\<lambda>c. c \<in> set mandatory"] keep_channels_holds [OF assms(5) n, of "\<lambda>c. \<not> CDS_IS_PASSIVE_OR_DISABLE_CH e c"]
      obtain ps pg where "keep_channels (max_num_chan e) ptr_size (\<lambda>c. c \<in> set mandatory) p = Some ps"
        "keep_channels (max_num_chan e) ptr_size (\<lambda>c. \<not> CDS_IS_PASSIVE_OR_DISABLE_CH e c) p = Some pg" by blast
      with 2 t Inr assms(6) show ?thesis
        by (auto simp: cds_get_pcl_def cds_get_channel_list_def cds_modify_sap_pcl_based_on_mandatory_channel_def cds_modify_pcl_based_on_enabled_channels_def)
    next
      case 3
      from assms(5) have "length (p_chans p) = max_num_chan e" "length (p_weights p) = max_num_chan e" by (simp_all add: pcl_holds_def holds_def)
      from get_pcl_holds [OF assms(1) t [unfolded Inr] 3 assms(3) [OF 3(3)] assms(4) this assms(6)] show ?thesis by auto
    qed
  qed
qed

text \<open>
  C14: The preferred channel list \<open>cds_get_pcl\<close> computes for a new connection: the groups of channels of the type that the tables
  give (\<open>pcl_groups\<close>: the channels of the connections, the valid channels of a band), each with the weight of its group, cut at the
  size of the list, without the unsafe channels and, for an access point or a group owner, with the channels it may use only. No
  array is accessed outside its bounds and each channel has its weight. The lists have \<open>QDF_MAX_NUM_CHAN\<close> entries, as those of the
  callers, which is at least the size of a pointer; SME gives at most as many valid channels.
\<close>

theorem get_pcl_exact:
  assumes "conc_wf l" "pcl_of_tables e l mode = Some (Inr pcl)" "pcl \<noteq> CDS_NONE" "pcl \<noteq> CDS_MAX_PCL_TYPE"
    "sme_valid_channels e = Some v" "length v \<le> max_num_chan e" "8 \<le> max_num_chan e"
    "length (p_chans p) = max_num_chan e" "length (p_weights p) = max_num_chan e"
    "mandatory = [] \<or> cds_list_has_24GHz_channel mandatory"
  shows "\<exists>p'. cds_get_pcl e mandatory l mode (max_num_chan e) p = Some (CDS_SUCCESS, p') \<and>
    pcl_holds (max_num_chan e) (filter (\<lambda>(c, w). mode_channel e mandatory mode c) (pcl_list_spec e (active l) mode pcl v)) p'"
  using assms by (rule get_pcl_holds)

definition small_env :: conc_env where
  "small_env = demo_conc_env\<lparr>max_num_chan := 8, sme_valid_channels := Some [1, 6, 36, 40], wlan_unsafe_channels := [40]\<rparr>"

text \<open>
  A station is on channel 36 and an access point comes up: it may share the channel, or use another channel of 5 GHz, but 40 is
  unsafe. Channel 36 is in both groups.
\<close>

theorem get_pcl_exact_witness:
  "\<exists>p'. cds_get_pcl small_env [] (conc_repr [sta_36]) CDS_SAP_MODE 8 (empty_pcl 8) = Some (CDS_SUCCESS, p') \<and>
    pcl_holds 8 [(36, 255), (36, 235)] p'"
proof -
  have "conc_wf (conc_repr [sta_36])" "active (conc_repr [sta_36]) = [sta_36]" by code_simp+
  moreover have "pcl_of_tables small_env (conc_repr [sta_36]) CDS_SAP_MODE = Some (Inr CDS_SCC_CH_5G)" by code_simp
  moreover have "filter (\<lambda>(c, w). mode_channel small_env [] CDS_SAP_MODE c) (pcl_list_spec small_env [sta_36] CDS_SAP_MODE CDS_SCC_CH_5G [1, 6, 36, 40])
      = [(36, 255), (36, 235)]" by code_simp
  moreover have "max_num_chan small_env = 8" "sme_valid_channels small_env = Some [1, 6, 36, 40]" by (simp_all add: small_env_def)
  ultimately show ?thesis
    using get_pcl_exact [of "conc_repr [sta_36]" small_env CDS_SAP_MODE CDS_SCC_CH_5G "[1, 6, 36, 40]" "empty_pcl 8" "[]"]
    by (simp add: empty_pcl_def)
qed

text \<open>
  When SME gives channels of 2.4 GHz up to 11 only, the loop that collects them runs on into the zeros behind them: the list is
  filled up with channel 0.
\<close>

lemma pcl_channel_zero:
  "map_option (\<lambda>(st, p). take (p_len p) (p_chans p))
     (cds_get_pcl (small_env\<lparr>hw_dbs_capable := True, sme_valid_channels := Some [1, 6]\<rparr>) [] (conc_repr [sta_36]) CDS_SAP_MODE 8 (empty_pcl 8))
   = Some [36, 1, 6, 0, 0, 0, 0, 0]"
  by code_simp

end
