(* ===== verification/Conc_Safety.thy ===== *)
theory Conc_Safety
  imports Conc_Policy Conc_Pcl_Spec
begin

text \<open>
  What \<open>cds_allow_concurrency\<close> guarantees of the connections that come up after it has agreed, whatever goes down in between,
  and the weights of the valid channels.
\<close>

section \<open>The guarantees\<close>

definition beaconing :: "cds_conc_connection_info \<Rightarrow> bool" where
  "beaconing c \<longleftrightarrow> c_mode c = CDS_SAP_MODE \<or> c_mode c = CDS_P2P_GO_MODE"

text \<open>Hardware with one MAC serves at most two channels.\<close>

definition home_ok :: "conc_env \<Rightarrow> cds_conc_connection_info list \<Rightarrow> bool" where
  "home_ok e cs \<longleftrightarrow> \<not> hw_dbs_capable e \<longrightarrow> (\<forall>c \<in> set cs. c_mac c = 0) \<and> card (c_chan ` set cs) \<le> 2"

text \<open>While an access point or group owner is on a DFS channel, all connections on 5 GHz are on this channel.\<close>

definition dfs_ok :: "conc_env \<Rightarrow> cds_conc_connection_info list \<Rightarrow> bool" where
  "dfs_ok e cs \<longleftrightarrow> (\<forall>c \<in> set cs. \<forall>d \<in> set cs.
     beaconing c \<and> CDS_IS_DFS_CH e (c_chan c) \<and> CDS_IS_CHANNEL_5GHZ (c_chan d) \<longrightarrow> c_chan d = c_chan c)"

text \<open>At most one group owner on each band.\<close>

definition go_on :: "bool \<Rightarrow> cds_conc_connection_info \<Rightarrow> bool" where
  "go_on five c \<longleftrightarrow> c_mode c = CDS_P2P_GO_MODE \<and> c_chan c \<noteq> 0 \<and> CDS_IS_CHANNEL_5GHZ (c_chan c) = five"

definition go_ok :: "cds_conc_connection_info list \<Rightarrow> bool" where
  "go_ok cs \<longleftrightarrow> (\<forall>five. length (filter (go_on five) cs) \<le> 1)"

text \<open>
  An IBSS connection is alone, or beside one station on hardware with two MACs; the two do not share a band on different channels.
\<close>

definition ibss_ok :: "conc_env \<Rightarrow> cds_conc_connection_info list \<Rightarrow> bool" where
  "ibss_ok e cs \<longleftrightarrow> (\<exists>c \<in> set cs. c_mode c = CDS_IBSS_MODE) \<longrightarrow>
     length cs \<le> 1 \<or> hw_dbs_capable e \<and> (\<exists>c d. (cs = [c, d] \<or> cs = [d, c]) \<and> c_mode c = CDS_IBSS_MODE \<and> c_mode d = CDS_STA_MODE \<and>
       (c_chan c = c_chan d \<or> \<not> CDS_IS_SAME_BAND_CHANNELS (c_chan c) (c_chan d)))"

definition policy_ok :: "conc_env \<Rightarrow> cds_conc_connection_info list \<Rightarrow> bool" where
  "policy_ok e cs \<longleftrightarrow> (\<forall>c \<in> set cs. c_mode c \<noteq> CDS_MAX_NUM_OF_MODE) \<and> home_ok e cs \<and> dfs_ok e cs \<and> go_ok cs \<and> ibss_ok e cs"

lemma same_band_commute: "CDS_IS_SAME_BAND_CHANNELS a b = CDS_IS_SAME_BAND_CHANNELS b a"
  by (auto simp: CDS_IS_SAME_BAND_CHANNELS_def)

section \<open>What an agreement means\<close>

lemma refused_pcl:
  assumes "refused (pcl_of_tables e l mode)"
  shows "cds_get_pcl e mandatory l mode n p = Some (CDS_E_FAILURE, p)"
  using assms by (auto simp: refused_def cds_get_pcl_def cds_get_channel_list_def)

lemma allowE:
  assumes "cds_allow_concurrency e mandatory s l mode channel bw = Some True"
  obtains "\<not> refused (pcl_of_tables e l mode)" "channel \<noteq> 0 \<Longrightarrow> channel_allowed e l mode channel"
    "mode = CDS_IBSS_MODE \<Longrightarrow> ibss_allowed e l channel" "mode = CDS_STA_MODE \<Longrightarrow> sta_beside_ibss_allowed e l channel"
    "channel \<noteq> 0 \<Longrightarrow> mode = CDS_P2P_GO_MODE \<Longrightarrow> cds_get_connection_count l \<noteq> 0 \<Longrightarrow> go_allowed l channel"
    "\<not> cds_max_concurrent_connections_reached e s" "sub_20_mhz_enabled e \<Longrightarrow> cds_get_connection_count l = 0"
proof -
  from assms obtain p where p: "cds_get_pcl e mandatory l mode SIR_PCL_SIZE (empty_pcl SIR_PCL_SIZE) = Some (CDS_SUCCESS, p)"
    by (auto simp: cds_allow_concurrency_def split: bind_splits if_splits)
  then have "\<not> refused (pcl_of_tables e l mode)" using refused_pcl [of e l mode mandatory] by auto
  moreover note assms p
  ultimately show ?thesis by (intro that) (auto simp: cds_allow_concurrency_def split: if_splits)
qed

lemma any_conn_repr: "conc_ok cs \<Longrightarrow> any_conn P (conc_repr cs) \<longleftrightarrow> (\<exists>c \<in> set cs. P c)"
  using index_of_None [of P cs] by (cases "index_of P cs") (auto simp: any_conn_def find_repr_0)

lemma any_conn_active: "conc_wf l \<Longrightarrow> any_conn P l \<longleftrightarrow> (\<exists>c \<in> set (active l). P c)"
  by (elim conc_wfE) (simp add: any_conn_repr)

lemma mode_indices_active:
  assumes "conc_wf l" shows "list_ex (\<lambda>i. P (l ! i)) (mode_indices mode l) \<longleftrightarrow> (\<exists>c \<in> set (active l). c_mode c = mode \<and> P c)"
proof -
  from assms obtain cs where "conc_ok cs" "l = conc_repr cs" by (rule conc_wfE)
  then show ?thesis by (fastforce simp: mode_indices_repr list_ex_iff in_set_conv_nth)
qed

lemma mode_count_active: "conc_wf l \<Longrightarrow> cds_mode_specific_connection_count mode l = 0 \<longleftrightarrow> (\<forall>c \<in> set (active l). c_mode c \<noteq> mode)"
  by (elim conc_wfE) (simp add: mode_count_repr filter_empty_conv)

lemma count_active: "conc_wf l \<Longrightarrow> cds_get_connection_count l = length (active l)"
  by (elim conc_wfE) (simp add: count_repr)

section \<open>A new connection keeps the guarantees\<close>

lemma home_ok_snoc:
  assumes wf: "conc_wf l" and ok: "home_ok e (active l)" and new: "cds_allow_new_home_channel e l (c_chan c) (cds_get_connection_count l)"
    and mac: "\<not> hw_dbs_capable e \<Longrightarrow> c_mac c = 0" and len: "length (active l) < 3"
  shows "home_ok e (active l @ [c])"
proof (cases "hw_dbs_capable e")
  case True
  then show ?thesis by (simp add: home_ok_def)
next
  case False
  from wf show ?thesis
  proof (cases rule: wf_cases)
    case 1
    with False mac show ?thesis by (simp add: home_ok_def)
  next
    case 2
    have "card {a, b} \<le> 2" for a b :: nat by (simp add: card_insert_if)
    with 2 False mac ok show ?thesis by (simp add: home_ok_def insert_commute)
  next
    case 3
    with ok False have m: "c_mac (l ! 0) = 0" "c_mac (l ! 1) = 0" by (simp_all add: home_ok_def)
    with new 3 False have "c_chan (l ! 0) = c_chan (l ! 1) \<or> c_chan c = c_chan (l ! 0) \<or> c_chan c = c_chan (l ! 1)"
      by (auto simp: cds_allow_new_home_channel_def Let_def split: if_splits)
    then have "card {c_chan (l ! 0), c_chan (l ! 1), c_chan c} \<le> 2" by (auto simp: card_insert_if)
    with 3 False mac m show ?thesis by (simp add: home_ok_def insert_commute)
  next
    case 4
    with len show ?thesis by simp
  qed
qed

lemma dfs_ok_snoc:
  assumes wf: "conc_wf l" and ok: "dfs_ok e (active l)" and new: "channel_allowed e l (c_mode c) (c_chan c)"
  shows "dfs_ok e (active l @ [c])"
proof -
  from new have five: "\<not> (\<exists>d \<in> set (active l). c_mode d = mode \<and> CDS_IS_DFS_CH e (c_chan d) \<and> CDS_IS_CHANNEL_5GHZ (c_chan c) \<and> c_chan c \<noteq> c_chan d)"
    if "mode = CDS_P2P_GO_MODE \<or> mode = CDS_SAP_MODE" for mode
    using that mode_indices_active [OF wf, of "\<lambda>d. CDS_IS_DFS_CH e (c_chan d) \<and> CDS_IS_CHANNEL_5GHZ (c_chan c) \<and> c_chan c \<noteq> c_chan d" mode]
    by (auto simp: channel_allowed_def cds_is_5g_channel_allowed_def)
  from new have mcc: "beaconing c \<Longrightarrow> CDS_IS_DFS_CH e (c_chan c) \<Longrightarrow>
      \<not> (\<exists>d \<in> set (active l). if \<not> hw_dbs_capable e then c_chan d \<noteq> c_chan c else CDS_IS_CHANNEL_5GHZ (c_chan d) \<and> c_chan d \<noteq> c_chan c)"
    using any_conn_active [OF wf] by (auto simp: channel_allowed_def cds_disallow_mcc_def beaconing_def)
  show ?thesis
    using ok five [of CDS_SAP_MODE] five [of CDS_P2P_GO_MODE] mcc unfolding dfs_ok_def
    by (auto simp: beaconing_def split: if_splits)
qed

lemma go_ok_snoc:
  assumes wf: "conc_wf l" and ok: "go_ok (active l)"
    and new: "c_mode c = CDS_P2P_GO_MODE \<Longrightarrow> active l \<noteq> [] \<Longrightarrow> go_allowed l (c_chan c)"
  shows "go_ok (active l @ [c])"
proof -
  have "filter (go_on five) (active l) = []" if "go_on five c" for five
  proof -
    from that have "c_mode c = CDS_P2P_GO_MODE" by (simp add: go_on_def)
    from new [OF this] mode_indices_active [OF wf, of "\<lambda>d. CDS_IS_SAME_BAND_CHANNELS (c_chan c) (c_chan d)" CDS_P2P_GO_MODE] that
    show ?thesis by (cases "active l = []") (auto simp: go_allowed_def go_on_def filter_empty_conv CDS_IS_SAME_BAND_CHANNELS_def)
  qed
  with ok show ?thesis by (auto simp: go_ok_def)
qed

lemma ibss_pair_ok:
  assumes "hw_dbs_capable e" "c_mode c = CDS_IBSS_MODE" "c_mode d = CDS_STA_MODE"
    "c_chan c = c_chan d \<or> \<not> CDS_IS_SAME_BAND_CHANNELS (c_chan c) (c_chan d)"
  shows "ibss_ok e [c, d] \<and> ibss_ok e [d, c]"
  using assms unfolding ibss_ok_def by blast

lemma ibss_ok_snoc:
  assumes wf: "conc_wf l" and known: "\<forall>c \<in> set (active l). c_mode c \<noteq> CDS_MAX_NUM_OF_MODE" "c_mode n \<noteq> CDS_MAX_NUM_OF_MODE"
    and len: "length (active l) < 3" and ok: "ibss_ok e (active l)"
    and tab: "\<not> refused (pcl_of_tables e l (c_mode n))"
    and ibss: "c_mode n = CDS_IBSS_MODE \<Longrightarrow> ibss_allowed e l (c_chan n)"
    and sta: "c_mode n = CDS_STA_MODE \<Longrightarrow> sta_beside_ibss_allowed e l (c_chan n)" and ch: "c_chan n \<noteq> 0"
  shows "ibss_ok e (active l @ [n])"
proof (cases "c_mode n = CDS_IBSS_MODE")
  case True
  from ibss [OF True] have a: "ibss_allowed e l (c_chan n)" .
  from wf show ?thesis
  proof (cases rule: wf_cases)
    case 1
    then show ?thesis by (simp add: ibss_ok_def)
  next
    case 2
    with a ch have "hw_dbs_capable e" "c_mode (l ! 0) = CDS_STA_MODE"
      "c_chan (l ! 0) = c_chan n \<or> \<not> CDS_IS_SAME_BAND_CHANNELS (c_chan (l ! 0)) (c_chan n)"
      by (auto simp: ibss_allowed_def Let_def split: if_splits)
    with True same_band_commute [of "c_chan (l ! 0)" "c_chan n"] ibss_pair_ok [of e n "l ! 0"] have "ibss_ok e [l ! 0, n]" by auto
    with 2 show ?thesis by simp
  next
    case 3
    with a show ?thesis by (simp add: ibss_allowed_def Let_def split: if_splits)
  next
    case 4
    with len show ?thesis by simp
  qed
next
  case False
  with tab matrix_active [OF wf len known(1,2)] have t: "table_admits (hw_dbs_capable e) (active l) (c_mode n)" by simp
  from wf show ?thesis
  proof (cases rule: wf_cases)
    case 1
    then show ?thesis by (simp add: ibss_ok_def)
  next
    case 2
    show ?thesis
    proof (cases "c_mode (l ! 0) = CDS_IBSS_MODE")
      case True
      with t 2 False have d: "hw_dbs_capable e" "c_mode n = CDS_STA_MODE" by simp_all
      have "cds_mode_specific_connection_count CDS_IBSS_MODE l \<noteq> 0"
        using mode_count_active [OF wf, of CDS_IBSS_MODE] 2 True by simp
      with sta [OF d(2)] have "c_chan (l ! 0) = c_chan n \<or> \<not> CDS_IS_SAME_BAND_CHANNELS (c_chan (l ! 0)) (c_chan n)"
        by (auto simp: sta_beside_ibss_allowed_def Let_def split: if_splits)
      with True d ibss_pair_ok [of e "l ! 0" n] have "ibss_ok e [l ! 0, n]" by auto
      with 2 show ?thesis by simp
    next
      case nope: False
      with 2 False show ?thesis by (simp add: ibss_ok_def)
    qed
  next
    case 3
    from t 3 have "pair_no (c_mode (l ! 0)) (c_mode (l ! 1)) \<noteq> None" by (auto split: option.splits)
    then have "c_mode (l ! 0) \<noteq> CDS_IBSS_MODE" "c_mode (l ! 1) \<noteq> CDS_IBSS_MODE"
      by (auto simp: pair_no_def mode_pairs_def)
    with 3 False show ?thesis by (simp add: ibss_ok_def)
  next
    case 4
    with len show ?thesis by simp
  qed
qed

lemma allowed_connection_ok:
  assumes wf: "conc_wf l" and ok: "policy_ok e (active l)"
    and allow: "cds_allow_concurrency e mandatory s l (c_mode n) (c_chan n) bw = Some True"
    and n: "c_mode n \<noteq> CDS_MAX_NUM_OF_MODE" "c_chan n \<noteq> 0" "\<not> hw_dbs_capable e \<Longrightarrow> c_mac n = 0" and len: "length (active l) < 3"
  shows "policy_ok e (active l @ [n])"
proof -
  from allow obtain a: "\<not> refused (pcl_of_tables e l (c_mode n))" "channel_allowed e l (c_mode n) (c_chan n)"
    "c_mode n = CDS_IBSS_MODE \<Longrightarrow> ibss_allowed e l (c_chan n)" "c_mode n = CDS_STA_MODE \<Longrightarrow> sta_beside_ibss_allowed e l (c_chan n)"
    "c_mode n = CDS_P2P_GO_MODE \<Longrightarrow> cds_get_connection_count l \<noteq> 0 \<Longrightarrow> go_allowed l (c_chan n)"
    by (rule allowE) (use n in auto)
  from ok have o: "\<forall>c \<in> set (active l). c_mode c \<noteq> CDS_MAX_NUM_OF_MODE" "home_ok e (active l)" "dfs_ok e (active l)" "go_ok (active l)" "ibss_ok e (active l)"
    by (simp_all add: policy_ok_def)
  have "home_ok e (active l @ [n])" using a(2) by (intro home_ok_snoc [OF wf o(2) _ n(3) len]) (simp add: channel_allowed_def)
  moreover have "dfs_ok e (active l @ [n])" by (rule dfs_ok_snoc [OF wf o(3) a(2)])
  moreover have "go_ok (active l @ [n])" using a(5) count_active [OF wf] by (intro go_ok_snoc [OF wf o(4)]) simp
  moreover have "ibss_ok e (active l @ [n])" by (rule ibss_ok_snoc [OF wf o(1) n(1) len o(5) a(1) a(3,4) n(2)])
  ultimately show ?thesis using o(1) n(1) by (simp add: policy_ok_def)
qed


section \<open>The guarantees over time\<close>

text \<open>
  Connections come up after an agreement for their mode and channel, go down, and are taken out and put back around requests for a
  preferred channel list, in any order. The sessions are counted elsewhere; a connection on hardware with one MAC is on MAC 0.
\<close>

inductive policy_step :: "conc_env \<Rightarrow> conc_list \<Rightarrow> conc_list \<Rightarrow> bool" for e where
  conn_up: "cds_allow_concurrency e mandatory s l (c_mode (conn_of_node e v node)) (c_chan (conn_of_node e v node)) bw = Some True \<Longrightarrow>
     wma_interface e (v mod 256) = Some node \<Longrightarrow> c_mode (conn_of_node e v node) \<noteq> CDS_MAX_NUM_OF_MODE \<Longrightarrow>
     c_chan (conn_of_node e v node) \<noteq> 0 \<Longrightarrow> hw_dbs_capable e \<or> wma_mac_id node = 0 \<Longrightarrow> policy_step e l (conc_call e (ConnUp v) l)"
| conn_down: "policy_step e l (conc_call e (ConnDown v) l)"
| refresh: "distinct (map c_vdev_id (active l)) \<Longrightarrow> policy_step e l (conc_call e (RefreshPcl mode) l)"

text \<open>The guarantees do not depend on the order of the connections, and a part of the connections has them.\<close>

lemma policy_ok_sub:
  assumes "policy_ok e cs" "mset ds \<subseteq># mset cs" shows "policy_ok e ds"
proof -
  from assms(2) have sub: "set ds \<subseteq> set cs" by (metis set_mset_mono set_mset_mset)
  then have "card (c_chan ` set ds) \<le> card (c_chan ` set cs)" by (intro card_mono) auto
  with assms(1) sub have "home_ok e ds" "\<forall>c \<in> set ds. c_mode c \<noteq> CDS_MAX_NUM_OF_MODE"
    by (auto simp: policy_ok_def home_ok_def)
  moreover have "dfs_ok e ds" using assms(1) sub unfolding policy_ok_def dfs_ok_def by blast
  moreover have "go_ok ds"
  proof -
    have "length (filter (go_on five) ds) \<le> length (filter (go_on five) cs)" for five
      using size_mset_mono [OF multiset_filter_mono [OF assms(2), of "go_on five"]] by (simp flip: size_mset)
    with assms(1) show ?thesis by (auto simp: policy_ok_def go_ok_def intro: le_trans)
  qed
  moreover have "ibss_ok e ds"
  proof (cases "\<exists>c \<in> set ds. c_mode c = CDS_IBSS_MODE")
    case True
    with sub assms(1) have c: "length cs \<le> 1 \<or> hw_dbs_capable e \<and> (\<exists>c d. (cs = [c, d] \<or> cs = [d, c]) \<and> c_mode c = CDS_IBSS_MODE \<and>
        c_mode d = CDS_STA_MODE \<and> (c_chan c = c_chan d \<or> \<not> CDS_IS_SAME_BAND_CHANNELS (c_chan c) (c_chan d)))"
      by (auto simp: policy_ok_def ibss_ok_def)
    have len: "length ds \<le> length cs" using size_mset_mono [OF assms(2)] by simp
    show ?thesis
    proof (cases "length ds \<le> 1")
      case False
      with c len obtain a b where ab: "cs = [a, b] \<or> cs = [b, a]" "hw_dbs_capable e" "c_mode a = CDS_IBSS_MODE" "c_mode b = CDS_STA_MODE"
        "c_chan a = c_chan b \<or> \<not> CDS_IS_SAME_BAND_CHANNELS (c_chan a) (c_chan b)" by auto
      with False len have "length ds = length cs" by auto
      with assms(2) have "mset ds = mset cs" by (metis mset_subset_size size_mset subset_mset.le_imp_less_or_eq nat_neq_iff)
      then have "ds = [a, b] \<or> ds = [b, a]" using ab(1) by (cases ds; cases "tl ds") (auto simp: add_eq_conv_ex)
      with ibss_pair_ok [OF ab(2-5)] show ?thesis by auto
    qed (simp add: ibss_ok_def)
  qed (simp add: ibss_ok_def)
  ultimately show ?thesis by (simp add: policy_ok_def)
qed


definition policy_inv :: "conc_env \<Rightarrow> conc_list \<Rightarrow> bool" where
  "policy_inv e l \<longleftrightarrow> conc_wf l \<and> policy_ok e (active l)"

lemma mset_remove_sub: "mset (delete_first P cs) \<subseteq># mset cs"
  by (induction cs) (simp_all add: subseteq_mset_def)

lemma policy_step_inv:
  assumes "policy_inv e l" "policy_step e l l'" shows "policy_inv e l'"
  using assms(2)
proof cases
  case (conn_up mandatory s v node bw)
  from assms(1) have wf: "conc_wf l" "policy_ok e (active l)" by (simp_all add: policy_inv_def)
  from conc_list_refine [OF wf(1), of e "ConnUp v"] conn_up
  have act: "conc_wf l'" "active l' = active l \<or> length (active l) < 3 \<and> active l' = active l @ [conn_of_node e v node]"
    by (auto simp: MAX_NUMBER_OF_CONC_CONNECTIONS_def split: if_splits)
  have mac: "\<not> hw_dbs_capable e \<Longrightarrow> c_mac (conn_of_node e v node) = 0"
    using conn_up(6) by (simp add: conn_of_node_def Let_def split: prod.splits)
  from act(2) show ?thesis
  proof
    assume "active l' = active l"
    with act(1) wf(2) show ?thesis by (simp add: policy_inv_def)
  next
    assume new: "length (active l) < 3 \<and> active l' = active l @ [conn_of_node e v node]"
    with allowed_connection_ok [OF wf conn_up(2) conn_up(4,5) mac] act(1) show ?thesis by (simp add: policy_inv_def)
  qed
next
  case (conn_down v)
  from assms(1) have "conc_wf l" "policy_ok e (active l)" by (simp_all add: policy_inv_def)
  with conc_list_refine [of l e "ConnDown v"] conn_down policy_ok_sub [OF _ mset_remove_sub] show ?thesis
    by (simp add: policy_inv_def)
next
  case (refresh mode)
  from assms(1) have wf: "conc_wf l" "policy_ok e (active l)" by (simp_all add: policy_inv_def)
  from refresh_mset [OF wf(1) refresh(2), of e mode] policy_ok_sub [OF wf(2), of "active l'"] conc_list_refine [OF wf(1), of e "RefreshPcl mode"] refresh(1)
  show ?thesis by (simp add: policy_inv_def del: conc_call.simps)
qed

lemma policy_inv_init: "policy_inv e init_conc_list"
  by (simp add: policy_inv_def init_repr policy_ok_def home_ok_def dfs_ok_def go_ok_def ibss_ok_def)

interpretation pol: machine "\<lambda>l. l = init_conc_list" "policy_step e" "policy_inv e" for e
  by unfold_locales (auto intro: policy_inv_init policy_step_inv)


definition no_sessions :: cds_sessions where
  "no_sessions = \<lparr>no_of_active_sessions = (\<lambda>_. 0), no_of_open_sessions = (\<lambda>_. 0), concurrency_mode = {}\<rparr>"

lemma demo_allowed:
  "cds_allow_concurrency demo_conc_env [] no_sessions init_conc_list CDS_STA_MODE 36 HW_MODE_20_MHZ = Some True"
  "cds_allow_concurrency demo_conc_env [] no_sessions (conc_repr [conn_of_node demo_conc_env 0 (sta_node 5180)]) CDS_SAP_MODE 6 HW_MODE_20_MHZ = Some True"
  by code_simp+


lemma node_macs: "wma_mac_id (sta_node f) = 0" "wma_mac_id (ap_node f) = 0"
  by (simp_all add: sta_node_def ap_node_def)



section \<open>The weights of the valid channels\<close>

text \<open>The lists of the driver have 128 entries; SME gives at most as many channels.\<close>

definition env_ok :: "conc_env \<Rightarrow> nat list \<Rightarrow> bool" where
  "env_ok e mandatory \<longleftrightarrow> max_num_chan e = SIR_PCL_SIZE \<and> (case sme_valid_channels e of None \<Rightarrow> True | Some v \<Rightarrow> length v \<le> SIR_PCL_SIZE) \<and>
     (mandatory = [] \<or> cds_list_has_24GHz_channel mandatory)"

lemma allow_total:
  assumes "conc_wf l" "mode \<noteq> CDS_MAX_NUM_OF_MODE" "env_ok e mandatory"
  shows "\<exists>b. cds_allow_concurrency e mandatory s l mode channel bw = Some b"
proof -
  have "pcl_holds (max_num_chan e) [] (empty_pcl SIR_PCL_SIZE)" using assms(3) by (simp add: env_ok_def pcl_holds_def holds_def empty_pcl_def)
  moreover have "length v \<le> max_num_chan e" if "sme_valid_channels e = Some v" for v using assms(3) that by (simp add: env_ok_def)
  moreover have "8 \<le> max_num_chan e" "max_num_chan e = SIR_PCL_SIZE" "mandatory = [] \<or> cds_list_has_24GHz_channel mandatory"
    using assms(3) by (simp_all add: env_ok_def SIR_PCL_SIZE_def)
  ultimately obtain st p where "cds_get_pcl e mandatory l mode SIR_PCL_SIZE (empty_pcl SIR_PCL_SIZE) = Some (st, p)"
    using get_pcl_total [OF assms(1,2), of e "[]" "empty_pcl SIR_PCL_SIZE" mandatory] by auto
  then show ?thesis by (auto simp: cds_allow_concurrency_def)
qed

definition sta_allowed :: "conc_env \<Rightarrow> nat list \<Rightarrow> cds_sessions \<Rightarrow> conc_list \<Rightarrow> nat \<Rightarrow> bool" where
  "sta_allowed e mandatory s l c \<longleftrightarrow> cds_allow_concurrency e mandatory s l CDS_STA_MODE c HW_MODE_20_MHZ = Some True"

lemma allowed_weights_Some:
  assumes "conc_wf l" "env_ok e mandatory"
  shows "allowed_weights e mandatory s l cs = Some (map (\<lambda>c. if sta_allowed e mandatory s l c then 1 else 0) cs)"
proof (induction cs)
  case (Cons c cs)
  obtain b where "cds_allow_concurrency e mandatory s l CDS_STA_MODE c HW_MODE_20_MHZ = Some b"
    using allow_total [OF assms(1) _ assms(2)] by blast
  with Cons show ?case by (simp add: sta_allowed_def WEIGHT_OF_NON_PCL_CHANNELS_def WEIGHT_OF_DISALLOWED_CHANNELS_def)
qed simp

text \<open>The weight of one channel, for the connections without the station.\<close>

definition weight_spec :: "conc_env \<Rightarrow> nat list \<Rightarrow> cds_sessions \<Rightarrow> conc_list \<Rightarrow> (nat \<times> nat) list \<Rightarrow> nat \<Rightarrow> nat" where
  "weight_spec e mandatory s l pcl c =
     (case map_of pcl c of
        Some w \<Rightarrow> w
      | None \<Rightarrow> if cds_mode_specific_connection_count CDS_STA_MODE l > 0 \<and>
                   sta_allowed e mandatory s (fst (cds_store_and_del_conn_info CDS_STA_MODE l)) c then 1 else 0)"

lemma pcl_weight_map_of: "pcl_weight pcl c w = (case map_of pcl c of Some v \<Rightarrow> v | None \<Rightarrow> w)"
  by (induction pcl) (auto simp: pcl_weight_def)

lemma store_wf: "conc_wf l \<Longrightarrow> conc_wf (fst (cds_store_and_del_conn_info mode l))"
  by (elim conc_wfE) (auto simp: store_repr conc_ok_remove split: option.splits)

text \<open>
  The weight of each channel of the firmware's list (\<open>cds_get_valid_chan_weights\<close>): the weight of its first entry in the preferred
  channel list; otherwise 1 if a station is connected and might connect on it as things are without the station, and 0 if not.
  The other connections and the station stay in the table.
\<close>

theorem valid_chan_weights:
  assumes "conc_wf l" "env_ok e mandatory"
  shows "cds_get_valid_chan_weights e mandatory s l w =
    Some (conc_call e (RefreshPcl CDS_STA_MODE) l, map (weight_spec e mandatory s l (cw_pcl w)) (saved_chan_list w))"
proof -
  let ?l = "fst (cds_store_and_del_conn_info CDS_STA_MODE l)"
  have m: "map2 (pcl_weight (cw_pcl w)) cs (map f cs) = map (\<lambda>c. pcl_weight (cw_pcl w) c (f c)) cs" for f cs
    by (induction cs) auto
  have z: "replicate (length cs) (0 :: nat) = map (\<lambda>_. 0) cs" for cs :: "nat list" by (simp add: map_replicate_const)
  show ?thesis
  proof (cases "cds_mode_specific_connection_count CDS_STA_MODE l > 0")
    case True
    obtain l' info where st: "cds_store_and_del_conn_info CDS_STA_MODE l = (l', info)" by (cases "cds_store_and_del_conn_info CDS_STA_MODE l")
    have "allowed_weights e mandatory s l' (saved_chan_list w) = Some (map (\<lambda>c. if sta_allowed e mandatory s l' c then 1 else 0) (saved_chan_list w))"
      using allowed_weights_Some [OF store_wf [OF assms(1), of CDS_STA_MODE] assms(2)] st by simp
    with True st show ?thesis
      by (simp add: cds_get_valid_chan_weights_def m del: One_nat_def) (simp add: pcl_weight_map_of weight_spec_def del: One_nat_def)
  next
    case False
    then show ?thesis
      by (simp add: cds_get_valid_chan_weights_def WEIGHT_OF_DISALLOWED_CHANNELS_def z m) (simp add: pcl_weight_map_of weight_spec_def)
  qed
qed

text \<open>
  The sessions still count the station that was taken out: when the configured number of sessions is reached, every channel outside
  the preferred channel list is disallowed.
\<close>

lemma weights_at_maximum:
  assumes "cds_max_concurrent_connections_reached e s" "map_of pcl c = None"
  shows "weight_spec e mandatory s l pcl c = 0"
  using assms by (auto simp: weight_spec_def sta_allowed_def elim!: allowE)

theorem valid_chan_weights_witness:
  "map_option snd (cds_get_valid_chan_weights demo_conc_env [] no_sessions (conc_repr [sta_36]) \<lparr>cw_pcl = [(36, 255)], saved_chan_list = [1, 36]\<rparr>)
   = Some [1, 255]"
proof -
  have "conc_wf (conc_repr [sta_36])" "env_ok demo_conc_env []" by code_simp+
  note valid_chan_weights [OF this, of no_sessions "\<lparr>cw_pcl = [(36, 255)], saved_chan_list = [1, 36]\<rparr>"]
  moreover have "weight_spec demo_conc_env [] no_sessions (conc_repr [sta_36]) [(36, 255)] 1 = 1" by code_simp
  ultimately show ?thesis by (simp add: weight_spec_def)
qed

end
