(* ===== verification/Conc_Session.thy ===== *)
theory Conc_Session
  imports Conc_Hw Conc_Safety
begin

text \<open>
  Sessions that come up and go down (\<open>core/cds/src/cds_concurrency.c\<close>): the counters, the table of connections, the preferred channel
  list a station gets before it is counted and after every other change, LRO, RPS and the timer of the hardware mode. The callbacks
  of HDD are registered; the state of TDLS is not modelled.
\<close>

section \<open>Operations\<close>

record conc_sys =
  sys_conns :: conc_list
  sys_sessions :: cds_sessions
  sys_timer :: bool

fun cds_map_concurrency_mode :: "qdf_mode \<Rightarrow> cds_con_mode \<times> bool" where
  "cds_map_concurrency_mode QDF_STA_MODE = (CDS_STA_MODE, True)"
| "cds_map_concurrency_mode QDF_SAP_MODE = (CDS_SAP_MODE, True)"
| "cds_map_concurrency_mode QDF_P2P_CLIENT_MODE = (CDS_P2P_CLIENT_MODE, True)"
| "cds_map_concurrency_mode QDF_P2P_GO_MODE = (CDS_P2P_GO_MODE, True)"
| "cds_map_concurrency_mode QDF_IBSS_MODE = (CDS_IBSS_MODE, True)"
| "cds_map_concurrency_mode _ = (CDS_MAX_NUM_OF_MODE, False)"

text \<open>\<open>garbage\<close> is what the lists on the stack hold before; the message has their used part.\<close>

definition pcl_message :: "pcl_buf \<Rightarrow> conc_event" where
  "pcl_message p = SetPcl (zip (take (p_len p) (p_chans p)) (take (p_len p) (p_weights p)))"

definition cds_pdev_set_pcl :: "conc_env \<Rightarrow> nat list \<Rightarrow> pcl_buf \<Rightarrow> conc_list \<Rightarrow> qdf_mode \<Rightarrow> conc_event list option" where
  "cds_pdev_set_pcl e mandatory garbage l mode =
     (case cds_map_concurrency_mode mode of (con_mode, known) \<Rightarrow>
        if \<not> known then Some []
        else do { (st, p) \<leftarrow> cds_get_pcl e mandatory l con_mode SIR_PCL_SIZE (garbage\<lparr>p_len := 0\<rparr>);
                  Some (if st \<noteq> CDS_SUCCESS then [] else [pcl_message p]) })"

definition cds_set_pcl_for_existing_combo ::
    "conc_env \<Rightarrow> nat list \<Rightarrow> pcl_buf \<Rightarrow> cds_con_mode \<Rightarrow> conc_list \<Rightarrow> (conc_list \<times> conc_event list) option" where
  "cds_set_pcl_for_existing_combo e mandatory garbage mode l =
     (case con_dev_mode mode of
        None \<Rightarrow> Some (l, [])
      | Some pcl_mode \<Rightarrow>
          if cds_mode_specific_connection_count mode l > 0 then
            case cds_store_and_del_conn_info mode l of (l', info) \<Rightarrow>
              do { ev \<leftarrow> cds_pdev_set_pcl e mandatory garbage l' pcl_mode; Some (cds_restore_deleted_conn_info info l', ev) }
          else Some (l, []))"

definition counted_modes :: "qdf_mode set" where
  "counted_modes = {QDF_STA_MODE, QDF_P2P_CLIENT_MODE, QDF_P2P_GO_MODE, QDF_SAP_MODE, QDF_IBSS_MODE}"

definition cds_incr_active_session ::
    "conc_env \<Rightarrow> conc_api \<Rightarrow> nat list \<Rightarrow> pcl_buf \<Rightarrow> qdf_mode \<Rightarrow> nat \<Rightarrow> conc_sys \<Rightarrow> (conc_sys \<times> conc_event list) option" where
  "cds_incr_active_session e h mandatory garbage mode session_id s =
     (let act = no_of_active_sessions (sys_sessions s);
          sess = (if mode \<in> counted_modes then (sys_sessions s)\<lparr>no_of_active_sessions := act(mode := act mode + 1)\<rparr> else sys_sessions s);
          l = sys_conns s
      in do { ev1 \<leftarrow> (if mode = QDF_STA_MODE then cds_pdev_set_pcl e mandatory garbage l mode else Some []);
              let l = fst (cds_incr_connection_count e session_id l);
              (l, ev2) \<leftarrow> (if cds_mode_specific_connection_count CDS_STA_MODE l > 0 \<and> mode \<noteq> QDF_STA_MODE
                           then cds_set_pcl_for_existing_combo e mandatory garbage CDS_STA_MODE l else Some (l, []));
              let count = (\<lambda>m. cds_mode_specific_connection_count m l);
              let ev3 = (if count CDS_STA_MODE > 1 \<or> count CDS_SAP_MODE > 0 \<or> count CDS_P2P_CLIENT_MODE > 0 \<or>
                            count CDS_P2P_GO_MODE > 0 \<or> count CDS_IBSS_MODE > 0 then [DisableLro] else []);
              let ev4 = (if count CDS_SAP_MODE = 1 \<and> has_sap_adapter h then [SetRps True] else []);
              Some (s\<lparr>sys_conns := l, sys_sessions := sess\<rparr>, ev1 @ ev2 @ ev3 @ ev4) })"

definition cds_decr_active_session :: "conc_api \<Rightarrow> qdf_mode \<Rightarrow> nat \<Rightarrow> conc_sys \<Rightarrow> conc_sys \<times> conc_event list" where
  "cds_decr_active_session h mode session_id s =
     (let act = no_of_active_sessions (sys_sessions s);
          sess = (if mode \<in> counted_modes \<and> act mode \<noteq> 0
                  then (sys_sessions s)\<lparr>no_of_active_sessions := act(mode := act mode - 1)\<rparr> else sys_sessions s);
          l = fst (cds_decr_connection_count session_id (sys_conns s));
          count = (\<lambda>m. cds_mode_specific_connection_count m l);
          ev1 = (if count CDS_STA_MODE = 1 \<and> count CDS_SAP_MODE = 0 \<and> count CDS_P2P_CLIENT_MODE = 0 \<and>
                    count CDS_P2P_GO_MODE = 0 \<and> count CDS_IBSS_MODE = 0 then [EnableLro] else []);
          ev2 = (if count CDS_SAP_MODE = 0 \<and> has_sap_adapter h then [SetRps False] else [])
      in (s\<lparr>sys_conns := l, sys_sessions := sess\<rparr>, ev1 @ ev2))"

definition cds_decr_session_set_pcl ::
    "conc_env \<Rightarrow> conc_api \<Rightarrow> nat list \<Rightarrow> pcl_buf \<Rightarrow> qdf_mode \<Rightarrow> nat \<Rightarrow> conc_sys \<Rightarrow> (conc_sys \<times> conc_event list) option" where
  "cds_decr_session_set_pcl e h mandatory garbage mode session_id s =
     (case cds_decr_active_session h mode session_id s of (s, ev1) \<Rightarrow>
        do { (l, ev2) \<leftarrow> cds_set_pcl_for_existing_combo e mandatory garbage CDS_STA_MODE (sys_conns s);
             let timer = (if cds_need_opportunistic_upgrade e l \<noteq> CDS_NOP then True else sys_timer s);
             Some (s\<lparr>sys_conns := l, sys_timer := timer\<rparr>, ev1 @ ev2) })"

section \<open>Sessions keep the table\<close>

text \<open>The garbage lists have the size of the array.\<close>

definition buf_ok :: "pcl_buf \<Rightarrow> bool" where
  "buf_ok p \<longleftrightarrow> length (p_chans p) = SIR_PCL_SIZE \<and> length (p_weights p) = SIR_PCL_SIZE"

lemma pdev_set_pcl_total:
  assumes "conc_wf l" "env_ok e mandatory" "buf_ok garbage"
  shows "\<exists>ev. cds_pdev_set_pcl e mandatory garbage l mode = Some ev \<and> length ev \<le> 1"
proof (cases "snd (cds_map_concurrency_mode mode)")
  case False
  then show ?thesis by (cases "cds_map_concurrency_mode mode") (simp add: cds_pdev_set_pcl_def)
next
  case True
  then obtain m where m: "cds_map_concurrency_mode mode = (m, True)" "m \<noteq> CDS_MAX_NUM_OF_MODE" by (cases mode) auto
  have N: "max_num_chan e = SIR_PCL_SIZE" "\<And>v. sme_valid_channels e = Some v \<Longrightarrow> length v \<le> max_num_chan e"
    "mandatory = [] \<or> cds_list_has_24GHz_channel mandatory" using assms(2) by (auto simp: env_ok_def)
  have h: "pcl_holds (max_num_chan e) [] (garbage\<lparr>p_len := 0\<rparr>)" using assms(3) N(1) by (simp add: buf_ok_def pcl_holds_def holds_def)
  have "8 \<le> max_num_chan e" by (simp add: N(1) SIR_PCL_SIZE_def)
  from get_pcl_total [OF assms(1) m(2) N(2) this h N(3)] obtain st p where
    "cds_get_pcl e mandatory l m SIR_PCL_SIZE (garbage\<lparr>p_len := 0\<rparr>) = Some (st, p)" using N(1) by auto
  with m show ?thesis by (simp add: cds_pdev_set_pcl_def)
qed

lemma refresh_total:
  assumes "conc_wf l" "env_ok e mandatory" "buf_ok garbage" "mode \<noteq> CDS_MAX_NUM_OF_MODE"
  shows "\<exists>ev. cds_set_pcl_for_existing_combo e mandatory garbage mode l = Some (conc_call e (RefreshPcl mode) l, ev) \<and> length ev \<le> 1"
proof -
  obtain m where m: "con_dev_mode mode = Some m" using assms(4) by (cases mode) auto
  obtain l' info where st: "cds_store_and_del_conn_info mode l = (l', info)" by (cases "cds_store_and_del_conn_info mode l")
  with store_wf [OF assms(1), of mode] have "conc_wf l'" by simp
  from pdev_set_pcl_total [OF this assms(2,3), of m] obtain ev where "cds_pdev_set_pcl e mandatory garbage l' m = Some ev" "length ev \<le> 1" by blast
  with m st show ?thesis by (simp add: cds_set_pcl_for_existing_combo_def)
qed

text \<open>A connection that leaves or is put back leaves the same connections but that one.\<close>

lemma refresh_conns:
  assumes "conc_wf l" "distinct (map c_vdev_id (active l))"
  shows "conc_wf (conc_call e (RefreshPcl mode) l)" "mset (active (conc_call e (RefreshPcl mode) l)) = mset (active l)"
  using conc_list_refine [OF assms(1), of e "RefreshPcl mode"] refresh_mset [OF assms, of e mode] by (simp_all del: conc_call.simps)

section \<open>LRO and concurrency\<close>

text \<open>
  Large receive offload is on or off; the calls of the two operations switch it. It may be on while there is at most one station and
  no connection of another mode.
\<close>

fun lro_after :: "conc_event list \<Rightarrow> bool \<Rightarrow> bool" where
  "lro_after [] on = on"
| "lro_after (DisableLro # ev) on = lro_after ev False"
| "lro_after (EnableLro # ev) on = lro_after ev True"
| "lro_after (_ # ev) on = lro_after ev on"

definition lone_sta :: "cds_conc_connection_info list \<Rightarrow> bool" where
  "lone_sta cs \<longleftrightarrow> (\<forall>c \<in> set cs. c_mode c \<in> {CDS_STA_MODE, CDS_MAX_NUM_OF_MODE}) \<and> length (filter (\<lambda>c. c_mode c = CDS_STA_MODE) cs) \<le> 1"

definition pcl_only :: "conc_event list \<Rightarrow> bool" where
  "pcl_only ev \<longleftrightarrow> (\<forall>x \<in> set ev. \<exists>l. x = SetPcl l)"

lemma lro_pcl: "pcl_only ev \<Longrightarrow> lro_after (ev @ ev') on = lro_after ev' on"
  by (induction ev) (auto simp: pcl_only_def)

lemma pdev_pcl_only: "cds_pdev_set_pcl e mandatory garbage l mode = Some ev \<Longrightarrow> pcl_only ev"
  by (auto simp: cds_pdev_set_pcl_def pcl_message_def pcl_only_def split: prod.splits if_splits Option.bind_splits)

lemma combo_pcl_only: "cds_set_pcl_for_existing_combo e mandatory garbage mode l = Some (l', ev) \<Longrightarrow> pcl_only ev"
  by (auto simp: cds_set_pcl_for_existing_combo_def pcl_only_def split: option.splits if_splits prod.splits Option.bind_splits
      dest!: pdev_pcl_only)

lemma lone_sta_sub: "\<lbrakk>lone_sta cs; mset ds \<subseteq># mset cs\<rbrakk> \<Longrightarrow> lone_sta ds"
  using size_mset_mono [OF multiset_filter_mono, of "mset ds" "mset cs" "\<lambda>c. c_mode c = CDS_STA_MODE"]
  using set_mset_mono [of "mset ds" "mset cs"] by (simp add: lone_sta_def subset_iff flip: size_mset)

lemma mode_count_length: "conc_wf l \<Longrightarrow> cds_mode_specific_connection_count mode l = length (filter (\<lambda>c. c_mode c = mode) (active l))"
  by (elim conc_wfE) (simp add: mode_count_repr)

text \<open>The tests of the two operations on the counts of the modes.\<close>

lemma lone_sta_counts:
  assumes "conc_wf l"
  shows "lone_sta (active l) \<longleftrightarrow> \<not> (cds_mode_specific_connection_count CDS_STA_MODE l > 1 \<or> cds_mode_specific_connection_count CDS_SAP_MODE l > 0 \<or>
    cds_mode_specific_connection_count CDS_P2P_CLIENT_MODE l > 0 \<or> cds_mode_specific_connection_count CDS_P2P_GO_MODE l > 0 \<or>
    cds_mode_specific_connection_count CDS_IBSS_MODE l > 0)"
proof -
  have "m \<in> {CDS_STA_MODE, CDS_MAX_NUM_OF_MODE} \<longleftrightarrow> m \<notin> {CDS_SAP_MODE, CDS_P2P_CLIENT_MODE, CDS_P2P_GO_MODE, CDS_IBSS_MODE}" for m
    by (cases m) auto
  then show ?thesis using assms by (auto simp: lone_sta_def mode_count_length filter_empty_conv)
qed

text \<open>A session comes up: the operation succeeds, and LRO is off afterwards if there is a concurrency.\<close>

lemma session_up:
  assumes wf: "conc_wf (sys_conns s)" and env: "env_ok e mandatory" "buf_ok garbage"
  obtains s' ev l where "cds_incr_active_session e h mandatory garbage mode v s = Some (s', ev)"
    "l = conc_call e (ConnUp v) (sys_conns s)" "sys_conns s' = l \<or> sys_conns s' = conc_call e (RefreshPcl CDS_STA_MODE) l"
    "conc_wf (sys_conns s')" "lro_after ev on = (on \<and> lone_sta (active (sys_conns s')))"
proof -
  define l where "l = conc_call e (ConnUp v) (sys_conns s)"
  have lw: "conc_wf l" using conc_list_refine [OF wf, of e "ConnUp v"] by (simp add: l_def)
  obtain ev1 where ev1: "(if mode = QDF_STA_MODE then cds_pdev_set_pcl e mandatory garbage (sys_conns s) mode else Some []) = Some ev1" "pcl_only ev1"
    using pdev_set_pcl_total [OF wf env, of mode] pdev_pcl_only by (cases "mode = QDF_STA_MODE") (auto simp: pcl_only_def)
  obtain l' ev2 where l': "(if cds_mode_specific_connection_count CDS_STA_MODE l > 0 \<and> mode \<noteq> QDF_STA_MODE
      then cds_set_pcl_for_existing_combo e mandatory garbage CDS_STA_MODE l else Some (l, [])) = Some (l', ev2)" "pcl_only ev2"
    "l' = l \<or> l' = conc_call e (RefreshPcl CDS_STA_MODE) l"
    using refresh_total [OF lw env, of CDS_STA_MODE] combo_pcl_only
    by (cases "cds_mode_specific_connection_count CDS_STA_MODE l > 0 \<and> mode \<noteq> QDF_STA_MODE") (auto simp: pcl_only_def simp del: conc_call.simps)
  have w': "conc_wf l'" using l'(3) lw conc_list_refine [OF lw, of e "RefreshPcl CDS_STA_MODE"] by auto
  define ev3 where "ev3 = (if lone_sta (active l') then [] else [DisableLro])"
  define ev4 where "ev4 = (if cds_mode_specific_connection_count CDS_SAP_MODE l' = 1 \<and> has_sap_adapter h then [SetRps True] else [])"
  obtain s' where run: "cds_incr_active_session e h mandatory garbage mode v s = Some (s', ev1 @ ev2 @ ev3 @ ev4)" "sys_conns s' = l'"
    using ev1(1) l'(1) unfolding cds_incr_active_session_def Let_def l_def conc_call.simps
    by (simp add: ev3_def ev4_def lone_sta_counts [OF w'])
  have "lro_after (ev1 @ ev2 @ ev3 @ ev4) on = (on \<and> lone_sta (active (sys_conns s')))"
    using lro_pcl [OF ev1(2)] lro_pcl [OF l'(2)] by (simp add: ev3_def ev4_def run(2))
  with run l'(3) w' show thesis by (intro that [OF _ l_def]) auto
qed

lemma lro_on: "lro_after ev on \<Longrightarrow> on \<or> EnableLro \<in> set ev"
  by (induction ev on rule: lro_after.induct) auto

lemma decr_lro:
  assumes "cds_decr_active_session h mode v s = (s1, ev)" "conc_wf (sys_conns s1)" "EnableLro \<in> set ev"
  shows "lone_sta (active (sys_conns s1))"
proof -
  from assms(1) have l: "sys_conns s1 = fst (cds_decr_connection_count v (sys_conns s))" by (auto simp: cds_decr_active_session_def Let_def)
  show ?thesis unfolding lone_sta_counts [OF assms(2)] unfolding l
    using assms(1,3) unfolding cds_decr_active_session_def Let_def by (simp split: if_split_asm) force+
qed

text \<open>A session goes down: the operation succeeds, and LRO is switched on only for a station that is alone.\<close>

lemma session_down:
  assumes wf: "conc_wf (sys_conns s)" and env: "env_ok e mandatory" "buf_ok garbage"
  obtains s' ev l where "cds_decr_session_set_pcl e h mandatory garbage mode v s = Some (s', ev)"
    "l = conc_call e (ConnDown v) (sys_conns s)" "sys_conns s' = conc_call e (RefreshPcl CDS_STA_MODE) l"
    "conc_wf l" "lro_after ev on \<longrightarrow> on \<or> lone_sta (active l)"
proof -
  define l where "l = conc_call e (ConnDown v) (sys_conns s)"
  have lw: "conc_wf l" using conc_list_refine [OF wf, of e "ConnDown v"] by (simp add: l_def)
  obtain ev2 where ev2: "cds_set_pcl_for_existing_combo e mandatory garbage CDS_STA_MODE l = Some (conc_call e (RefreshPcl CDS_STA_MODE) l, ev2)"
    using refresh_total [OF lw env, of CDS_STA_MODE] by auto
  obtain s1 ev1 where dec: "cds_decr_active_session h mode v s = (s1, ev1)" by (cases "cds_decr_active_session h mode v s")
  then have s1: "sys_conns s1 = l" by (auto simp: cds_decr_active_session_def Let_def l_def)
  have ev1: "lro_after (ev1 @ ev2) on \<longrightarrow> on \<or> lone_sta (active l)"
    using lro_on [of "ev1 @ ev2" on] decr_lro [OF dec] combo_pcl_only [OF ev2] s1 lw by (auto simp: pcl_only_def)
  from dec s1 ev2 obtain s' where "cds_decr_session_set_pcl e h mandatory garbage mode v s = Some (s', ev1 @ ev2)"
    "sys_conns s' = conc_call e (RefreshPcl CDS_STA_MODE) l"
    by (auto simp: cds_decr_session_set_pcl_def simp del: conc_call.simps)
  then show thesis by (rule that [OF _ l_def _ lw ev1])
qed

text \<open>
  Sessions come up for vdevs that have no connection yet and go down, in any order; the environment may answer differently each time.
\<close>

inductive session_step :: "conc_sys \<times> bool \<Rightarrow> conc_sys \<times> bool \<Rightarrow> bool" where
  up: "\<lbrakk>env_ok e mandatory; buf_ok garbage; v \<notin> c_vdev_id ` set (active (sys_conns s));
        cds_incr_active_session e h mandatory garbage mode v s = Some (s', ev)\<rbrakk> \<Longrightarrow> session_step (s, on) (s', lro_after ev on)"
| down: "\<lbrakk>env_ok e mandatory; buf_ok garbage; cds_decr_session_set_pcl e h mandatory garbage mode v s = Some (s', ev)\<rbrakk>
        \<Longrightarrow> session_step (s, on) (s', lro_after ev on)"

inductive_cases session_stepE: "session_step x y"

definition session_inv :: "conc_sys \<times> bool \<Rightarrow> bool" where
  "session_inv x \<longleftrightarrow> (case x of (s, on) \<Rightarrow> conc_wf (sys_conns s) \<and> distinct (map c_vdev_id (active (sys_conns s))) \<and>
     (on \<longrightarrow> lone_sta (active (sys_conns s))))"

lemma distinct_mset: "mset xs = mset ys \<Longrightarrow> distinct (map f xs) = distinct (map f ys)"
  by (metis distinct_count_atmost_1 mset_map set_mset_mset)

lemma distinct_delete_first: "distinct (map f cs) \<Longrightarrow> distinct (map f (delete_first P cs))"
  using set_delete_first by (induction cs) fastforce+

lemma session_step_inv:
  assumes "session_inv x" "session_step x y" shows "session_inv y"
  using assms(2)
proof cases
  case (up e mandatory garbage v s h mode s' ev on)
  with assms(1) have i: "conc_wf (sys_conns s)" "distinct (map c_vdev_id (active (sys_conns s)))" by (simp_all add: session_inv_def)
  obtain l where l: "l = conc_call e (ConnUp v) (sys_conns s)" "sys_conns s' = l \<or> sys_conns s' = conc_call e (RefreshPcl CDS_STA_MODE) l"
    "conc_wf (sys_conns s')" "lro_after ev on = (on \<and> lone_sta (active (sys_conns s')))"
    using session_up [OF i(1) up(3,4), of h mode v on] up(6) by (metis option.inject prod.inject)
  note ref = conc_list_refine [OF i(1), of e "ConnUp v", folded l(1)]
  then have d: "distinct (map c_vdev_id (active l))" using i(2) up(5) by (auto split: option.splits)
  have "distinct (map c_vdev_id (active (sys_conns s')))"
    using l(2) d distinct_mset [OF refresh_conns(2) [OF conjunct1 [OF ref] d], of c_vdev_id e CDS_STA_MODE] by (elim disjE) simp_all
  with l up show ?thesis by (simp add: session_inv_def)
next
  case (down e mandatory garbage h mode v s s' ev on)
  with assms(1) have i: "conc_wf (sys_conns s)" "distinct (map c_vdev_id (active (sys_conns s)))" "on \<longrightarrow> lone_sta (active (sys_conns s))"
    by (simp_all add: session_inv_def)
  obtain l where l: "l = conc_call e (ConnDown v) (sys_conns s)" "sys_conns s' = conc_call e (RefreshPcl CDS_STA_MODE) l"
    "conc_wf l" "lro_after ev on \<longrightarrow> on \<or> lone_sta (active l)"
    using session_down [OF i(1) down(3,4), of h mode v on] down(5) by (metis option.inject prod.inject)
  have act: "active l = delete_first (\<lambda>c. c_vdev_id c = v) (active (sys_conns s))"
    using conc_list_refine [OF i(1), of e "ConnDown v", folded l(1)] by simp
  then have d: "distinct (map c_vdev_id (active l))" using i(2) by (simp add: distinct_delete_first)
  note re = refresh_conns [OF l(3) d, of e CDS_STA_MODE, folded l(2)]
  have "lro_after ev on \<longrightarrow> lone_sta (active (sys_conns s'))"
    using l(4) i(3) lone_sta_sub [OF _ mset_remove_sub, of "active (sys_conns s)"] act re(2)
      lone_sta_sub [of "active l" "active (sys_conns s')"] by auto
  with re d distinct_mset [OF re(2), of c_vdev_id] down show ?thesis by (simp add: session_inv_def)
qed

interpretation ses: machine "\<lambda>(s, on). sys_conns s = init_conc_list \<and> on" session_step session_inv
proof unfold_locales
  fix x :: "conc_sys \<times> bool"
  assume "case x of (s, on) \<Rightarrow> sys_conns s = init_conc_list \<and> on"
  then show "session_inv x" by (auto simp: session_inv_def init_repr lone_sta_def)
qed (rule session_step_inv)

text \<open>
  C18: However sessions come up and go down, LRO is on only while there is at most one station and no connection of another mode, and
  \<open>cds_incr_active_session\<close> and \<open>cds_decr_session_set_pcl\<close> never leave an array: with the lists for preferred channels they pass
  on, every request for a list returns.
\<close>

theorem lro_never_in_concurrency:
  assumes "session_step\<^sup>*\<^sup>* (s0, True) (s, on)" "sys_conns s0 = init_conc_list" "env_ok e mandatory" "buf_ok garbage"
  shows "(on \<longrightarrow> lone_sta (active (sys_conns s))) \<and> cds_incr_active_session e h mandatory garbage mode v s \<noteq> None \<and>
    cds_decr_session_set_pcl e h mandatory garbage mode v s \<noteq> None"
proof -
  have inv: "session_inv (s, on)" using assms(2) by (intro ses.reachable_inv [OF _ assms(1)]) simp
  then have wf: "conc_wf (sys_conns s)" by (simp add: session_inv_def)
  have "cds_incr_active_session e h mandatory garbage mode v s \<noteq> None" by (rule session_up [OF wf assms(3,4), of h mode v on]) simp
  moreover have "cds_decr_session_set_pcl e h mandatory garbage mode v s \<noteq> None"
    by (rule session_down [OF wf assms(3,4), of h mode v on]) simp
  ultimately show ?thesis using inv by (simp add: session_inv_def)
qed

definition demo_start :: conc_sys where
  "demo_start = \<lparr>sys_conns = init_conc_list, sys_sessions = no_sessions, sys_timer = False\<rparr>"

lemma demo_sta_up:
  "map_option (\<lambda>(s, ev). (map c_chan (active (sys_conns s)), lro_after ev True))
     (cds_incr_active_session demo_conc_env demo_api [] (empty_pcl SIR_PCL_SIZE) QDF_STA_MODE 0 demo_start) = Some ([36], True)"
  by code_simp

text \<open>A station connects on channel 36; an access point may follow.\<close>

theorem lro_never_in_concurrency_witness:
  "\<exists>s. session_step\<^sup>*\<^sup>* (demo_start, True) (s, True) \<and> map c_chan (active (sys_conns s)) = [36] \<and> lone_sta (active (sys_conns s)) \<and>
     cds_incr_active_session demo_conc_env demo_api [] (empty_pcl SIR_PCL_SIZE) QDF_SAP_MODE 1 s \<noteq> None"
proof -
  have ok: "env_ok demo_conc_env []" "buf_ok (empty_pcl SIR_PCL_SIZE)" by code_simp+
  from demo_sta_up obtain s ev where s: "cds_incr_active_session demo_conc_env demo_api [] (empty_pcl SIR_PCL_SIZE) QDF_STA_MODE 0 demo_start = Some (s, ev)"
    "map c_chan (active (sys_conns s)) = [36]" "lro_after ev True" by auto
  have start: "sys_conns demo_start = init_conc_list" by (simp add: demo_start_def)
  then have "session_step (demo_start, True) (s, lro_after ev True)"
    by (intro up [OF ok _ s(1)]) (simp add: init_repr)
  with s(3) have r: "session_step\<^sup>*\<^sup>* (demo_start, True) (s, True)" by simp
  from lro_never_in_concurrency [OF r start ok, of demo_api QDF_SAP_MODE 1] r s(2) show ?thesis by auto
qed

end
