(* ===== verification/Cfg_Tables.thy ===== *)
theory Cfg_Tables
  imports Prelude
begin

text \<open>
  The tables of the configuration store: the parameters with their flags, ranges and defaults and the default strings, from
  \<open>core/mac/src/cfg/cfg_proc_msg.c\<close>, with the constants of \<open>core/mac/inc/wni_cfg.h\<close> and \<open>core/mac/src/cfg/cfg_def.h\<close>.
\<close>

unbundle bit_operations_syntax

section \<open>Flags\<close>

abbreviation (input) CFG_CTL_VALID :: u32 where "CFG_CTL_VALID \<equiv> 0x00010000"
abbreviation (input) CFG_CTL_RE :: u32 where "CFG_CTL_RE \<equiv> 0x00020000"
abbreviation (input) CFG_CTL_WE :: u32 where "CFG_CTL_WE \<equiv> 0x00040000"
abbreviation (input) CFG_CTL_INT :: u32 where "CFG_CTL_INT \<equiv> 0x00080000"
abbreviation (input) CFG_CTL_SAVE :: u32 where "CFG_CTL_SAVE \<equiv> 0x00100000"
abbreviation (input) CFG_CTL_RESTART :: u32 where "CFG_CTL_RESTART \<equiv> 0x00200000"
abbreviation (input) CFG_CTL_RELOAD :: u32 where "CFG_CTL_RELOAD \<equiv> 0x00400000"
abbreviation (input) CFG_CTL_NTF_PHY :: u32 where "CFG_CTL_NTF_PHY \<equiv> 0x00800000"
abbreviation (input) CFG_CTL_NTF_MAC :: u32 where "CFG_CTL_NTF_MAC \<equiv> 0x01000000"
abbreviation (input) CFG_CTL_NTF_LOG :: u32 where "CFG_CTL_NTF_LOG \<equiv> 0x02000000"
abbreviation (input) CFG_CTL_NTF_HAL :: u32 where "CFG_CTL_NTF_HAL \<equiv> 0x04000000"
abbreviation (input) CFG_CTL_NTF_DPH :: u32 where "CFG_CTL_NTF_DPH \<equiv> 0x08000000"
abbreviation (input) CFG_CTL_NTF_ARQ :: u32 where "CFG_CTL_NTF_ARQ \<equiv> 0x10000000"
abbreviation (input) CFG_CTL_NTF_SCH :: u32 where "CFG_CTL_NTF_SCH \<equiv> 0x20000000"
abbreviation (input) CFG_CTL_NTF_LIM :: u32 where "CFG_CTL_NTF_LIM \<equiv> 0x40000000"
abbreviation (input) CFG_CTL_NTF_HDD :: u32 where "CFG_CTL_NTF_HDD \<equiv> 0x80000000"
abbreviation (input) CFG_CTL_NTF_MASK :: u32 where "CFG_CTL_NTF_MASK \<equiv> 0xFFE00000"
abbreviation (input) CFG_CTL_NTF_HW :: u32 where "CFG_CTL_NTF_HW \<equiv> CFG_CTL_NTF_MAC OR CFG_CTL_NTF_PHY"
abbreviation (input) CFG_BUF_INDX_MASK :: u32 where "CFG_BUF_INDX_MASK \<equiv> 0x00000fff"

section \<open>Parameters\<close>

text \<open>The enumeration of the parameters; the strings also have their maximal lengths as constants.\<close>

abbreviation (input) WNI_CFG_STA_ID :: nat where "WNI_CFG_STA_ID \<equiv> 0"
abbreviation (input) WNI_CFG_CFP_PERIOD :: nat where "WNI_CFG_CFP_PERIOD \<equiv> 1"
abbreviation (input) WNI_CFG_CFP_MAX_DURATION :: nat where "WNI_CFG_CFP_MAX_DURATION \<equiv> 2"
abbreviation (input) WNI_CFG_SSID :: nat where "WNI_CFG_SSID \<equiv> 3"
abbreviation (input) WNI_CFG_BEACON_INTERVAL :: nat where "WNI_CFG_BEACON_INTERVAL \<equiv> 4"
abbreviation (input) WNI_CFG_DTIM_PERIOD :: nat where "WNI_CFG_DTIM_PERIOD \<equiv> 5"
abbreviation (input) WNI_CFG_WEP_KEY_LENGTH :: nat where "WNI_CFG_WEP_KEY_LENGTH \<equiv> 6"
abbreviation (input) WNI_CFG_WEP_DEFAULT_KEY_1 :: nat where "WNI_CFG_WEP_DEFAULT_KEY_1 \<equiv> 7"
abbreviation (input) WNI_CFG_WEP_DEFAULT_KEY_2 :: nat where "WNI_CFG_WEP_DEFAULT_KEY_2 \<equiv> 8"
abbreviation (input) WNI_CFG_WEP_DEFAULT_KEY_3 :: nat where "WNI_CFG_WEP_DEFAULT_KEY_3 \<equiv> 9"
abbreviation (input) WNI_CFG_WEP_DEFAULT_KEY_4 :: nat where "WNI_CFG_WEP_DEFAULT_KEY_4 \<equiv> 10"
abbreviation (input) WNI_CFG_WEP_DEFAULT_KEYID :: nat where "WNI_CFG_WEP_DEFAULT_KEYID \<equiv> 11"
abbreviation (input) WNI_CFG_EXCLUDE_UNENCRYPTED :: nat where "WNI_CFG_EXCLUDE_UNENCRYPTED \<equiv> 12"
abbreviation (input) WNI_CFG_RTS_THRESHOLD :: nat where "WNI_CFG_RTS_THRESHOLD \<equiv> 13"
abbreviation (input) WNI_CFG_SHORT_RETRY_LIMIT :: nat where "WNI_CFG_SHORT_RETRY_LIMIT \<equiv> 14"
abbreviation (input) WNI_CFG_LONG_RETRY_LIMIT :: nat where "WNI_CFG_LONG_RETRY_LIMIT \<equiv> 15"
abbreviation (input) WNI_CFG_FRAGMENTATION_THRESHOLD :: nat where "WNI_CFG_FRAGMENTATION_THRESHOLD \<equiv> 16"
abbreviation (input) WNI_CFG_ACTIVE_MINIMUM_CHANNEL_TIME :: nat where "WNI_CFG_ACTIVE_MINIMUM_CHANNEL_TIME \<equiv> 17"
abbreviation (input) WNI_CFG_ACTIVE_MAXIMUM_CHANNEL_TIME :: nat where "WNI_CFG_ACTIVE_MAXIMUM_CHANNEL_TIME \<equiv> 18"
abbreviation (input) WNI_CFG_PASSIVE_MINIMUM_CHANNEL_TIME :: nat where "WNI_CFG_PASSIVE_MINIMUM_CHANNEL_TIME \<equiv> 19"
abbreviation (input) WNI_CFG_PASSIVE_MAXIMUM_CHANNEL_TIME :: nat where "WNI_CFG_PASSIVE_MAXIMUM_CHANNEL_TIME \<equiv> 20"
abbreviation (input) WNI_CFG_JOIN_FAILURE_TIMEOUT :: nat where "WNI_CFG_JOIN_FAILURE_TIMEOUT \<equiv> 21"
abbreviation (input) WNI_CFG_AUTHENTICATE_FAILURE_TIMEOUT :: nat where "WNI_CFG_AUTHENTICATE_FAILURE_TIMEOUT \<equiv> 22"
abbreviation (input) WNI_CFG_AUTHENTICATE_RSP_TIMEOUT :: nat where "WNI_CFG_AUTHENTICATE_RSP_TIMEOUT \<equiv> 23"
abbreviation (input) WNI_CFG_ASSOCIATION_FAILURE_TIMEOUT :: nat where "WNI_CFG_ASSOCIATION_FAILURE_TIMEOUT \<equiv> 24"
abbreviation (input) WNI_CFG_REASSOCIATION_FAILURE_TIMEOUT :: nat where "WNI_CFG_REASSOCIATION_FAILURE_TIMEOUT \<equiv> 25"
abbreviation (input) WNI_CFG_PS_ENABLE_BCN_FILTER :: nat where "WNI_CFG_PS_ENABLE_BCN_FILTER \<equiv> 26"
abbreviation (input) WNI_CFG_PS_ENABLE_HEART_BEAT :: nat where "WNI_CFG_PS_ENABLE_HEART_BEAT \<equiv> 27"
abbreviation (input) WNI_CFG_PS_ENABLE_RSSI_MONITOR :: nat where "WNI_CFG_PS_ENABLE_RSSI_MONITOR \<equiv> 28"
abbreviation (input) WNI_CFG_PS_DATA_INACTIVITY_TIMEOUT :: nat where "WNI_CFG_PS_DATA_INACTIVITY_TIMEOUT \<equiv> 29"
abbreviation (input) WNI_CFG_RF_SETTLING_TIME_CLK :: nat where "WNI_CFG_RF_SETTLING_TIME_CLK \<equiv> 30"
abbreviation (input) WNI_CFG_SUPPORTED_RATES_11B :: nat where "WNI_CFG_SUPPORTED_RATES_11B \<equiv> 31"
abbreviation (input) WNI_CFG_SUPPORTED_RATES_11A :: nat where "WNI_CFG_SUPPORTED_RATES_11A \<equiv> 32"
abbreviation (input) WNI_CFG_PHY_MODE :: nat where "WNI_CFG_PHY_MODE \<equiv> 33"
abbreviation (input) WNI_CFG_DOT11_MODE :: nat where "WNI_CFG_DOT11_MODE \<equiv> 34"
abbreviation (input) WNI_CFG_OPERATIONAL_RATE_SET :: nat where "WNI_CFG_OPERATIONAL_RATE_SET \<equiv> 35"
abbreviation (input) WNI_CFG_EXTENDED_OPERATIONAL_RATE_SET :: nat where "WNI_CFG_EXTENDED_OPERATIONAL_RATE_SET \<equiv> 36"
abbreviation (input) WNI_CFG_PROPRIETARY_OPERATIONAL_RATE_SET :: nat where "WNI_CFG_PROPRIETARY_OPERATIONAL_RATE_SET \<equiv> 37"
abbreviation (input) WNI_CFG_LISTEN_INTERVAL :: nat where "WNI_CFG_LISTEN_INTERVAL \<equiv> 38"
abbreviation (input) WNI_CFG_VALID_CHANNEL_LIST :: nat where "WNI_CFG_VALID_CHANNEL_LIST \<equiv> 39"
abbreviation (input) WNI_CFG_CURRENT_CHANNEL :: nat where "WNI_CFG_CURRENT_CHANNEL \<equiv> 40"
abbreviation (input) WNI_CFG_DEFAULT_RATE_INDEX_24GHZ :: nat where "WNI_CFG_DEFAULT_RATE_INDEX_24GHZ \<equiv> 41"
abbreviation (input) WNI_CFG_FIXED_RATE :: nat where "WNI_CFG_FIXED_RATE \<equiv> 42"
abbreviation (input) WNI_CFG_APSD_ENABLED :: nat where "WNI_CFG_APSD_ENABLED \<equiv> 43"
abbreviation (input) WNI_CFG_SHARED_KEY_AUTH_ENABLE :: nat where "WNI_CFG_SHARED_KEY_AUTH_ENABLE \<equiv> 44"
abbreviation (input) WNI_CFG_OPEN_SYSTEM_AUTH_ENABLE :: nat where "WNI_CFG_OPEN_SYSTEM_AUTH_ENABLE \<equiv> 45"
abbreviation (input) WNI_CFG_AUTHENTICATION_TYPE :: nat where "WNI_CFG_AUTHENTICATION_TYPE \<equiv> 46"
abbreviation (input) WNI_CFG_PRIVACY_ENABLED :: nat where "WNI_CFG_PRIVACY_ENABLED \<equiv> 47"
abbreviation (input) WNI_CFG_SHORT_PREAMBLE :: nat where "WNI_CFG_SHORT_PREAMBLE \<equiv> 48"
abbreviation (input) WNI_CFG_ACCEPT_SHORT_SLOT_ASSOC_ONLY :: nat where "WNI_CFG_ACCEPT_SHORT_SLOT_ASSOC_ONLY \<equiv> 49"
abbreviation (input) WNI_CFG_QOS_ENABLED :: nat where "WNI_CFG_QOS_ENABLED \<equiv> 50"
abbreviation (input) WNI_CFG_HCF_ENABLED :: nat where "WNI_CFG_HCF_ENABLED \<equiv> 51"
abbreviation (input) WNI_CFG_RSN_ENABLED :: nat where "WNI_CFG_RSN_ENABLED \<equiv> 52"
abbreviation (input) WNI_CFG_MAX_NUM_PRE_AUTH :: nat where "WNI_CFG_MAX_NUM_PRE_AUTH \<equiv> 53"
abbreviation (input) WNI_CFG_HEART_BEAT_THRESHOLD :: nat where "WNI_CFG_HEART_BEAT_THRESHOLD \<equiv> 54"
abbreviation (input) WNI_CFG_PROBE_AFTER_HB_FAIL_TIMEOUT :: nat where "WNI_CFG_PROBE_AFTER_HB_FAIL_TIMEOUT \<equiv> 55"
abbreviation (input) WNI_CFG_MANUFACTURER_NAME :: nat where "WNI_CFG_MANUFACTURER_NAME \<equiv> 56"
abbreviation (input) WNI_CFG_MODEL_NUMBER :: nat where "WNI_CFG_MODEL_NUMBER \<equiv> 57"
abbreviation (input) WNI_CFG_MODEL_NAME :: nat where "WNI_CFG_MODEL_NAME \<equiv> 58"
abbreviation (input) WNI_CFG_MANUFACTURER_PRODUCT_NAME :: nat where "WNI_CFG_MANUFACTURER_PRODUCT_NAME \<equiv> 59"
abbreviation (input) WNI_CFG_MANUFACTURER_PRODUCT_VERSION :: nat where "WNI_CFG_MANUFACTURER_PRODUCT_VERSION \<equiv> 60"
abbreviation (input) WNI_CFG_11D_ENABLED :: nat where "WNI_CFG_11D_ENABLED \<equiv> 61"
abbreviation (input) WNI_CFG_MAX_TX_POWER_2_4 :: nat where "WNI_CFG_MAX_TX_POWER_2_4 \<equiv> 62"
abbreviation (input) WNI_CFG_MAX_TX_POWER_5 :: nat where "WNI_CFG_MAX_TX_POWER_5 \<equiv> 63"
abbreviation (input) WNI_CFG_CURRENT_TX_POWER_LEVEL :: nat where "WNI_CFG_CURRENT_TX_POWER_LEVEL \<equiv> 64"
abbreviation (input) WNI_CFG_NEW_BSS_FOUND_IND :: nat where "WNI_CFG_NEW_BSS_FOUND_IND \<equiv> 65"
abbreviation (input) WNI_CFG_COUNTRY_CODE :: nat where "WNI_CFG_COUNTRY_CODE \<equiv> 66"
abbreviation (input) WNI_CFG_11H_ENABLED :: nat where "WNI_CFG_11H_ENABLED \<equiv> 67"
abbreviation (input) WNI_CFG_WT_CNF_TIMEOUT :: nat where "WNI_CFG_WT_CNF_TIMEOUT \<equiv> 68"
abbreviation (input) WNI_CFG_LOG_LEVEL :: nat where "WNI_CFG_LOG_LEVEL \<equiv> 69"
abbreviation (input) WNI_CFG_OLBC_DETECT_TIMEOUT :: nat where "WNI_CFG_OLBC_DETECT_TIMEOUT \<equiv> 70"
abbreviation (input) WNI_CFG_PROTECTION_ENABLED :: nat where "WNI_CFG_PROTECTION_ENABLED \<equiv> 71"
abbreviation (input) WNI_CFG_11G_PROTECTION_ALWAYS :: nat where "WNI_CFG_11G_PROTECTION_ALWAYS \<equiv> 72"
abbreviation (input) WNI_CFG_FORCE_POLICY_PROTECTION :: nat where "WNI_CFG_FORCE_POLICY_PROTECTION \<equiv> 73"
abbreviation (input) WNI_CFG_11G_SHORT_PREAMBLE_ENABLED :: nat where "WNI_CFG_11G_SHORT_PREAMBLE_ENABLED \<equiv> 74"
abbreviation (input) WNI_CFG_11G_SHORT_SLOT_TIME_ENABLED :: nat where "WNI_CFG_11G_SHORT_SLOT_TIME_ENABLED \<equiv> 75"
abbreviation (input) WNI_CFG_11G_ONLY_POLICY :: nat where "WNI_CFG_11G_ONLY_POLICY \<equiv> 76"
abbreviation (input) WNI_CFG_WME_ENABLED :: nat where "WNI_CFG_WME_ENABLED \<equiv> 77"
abbreviation (input) WNI_CFG_ADDTS_RSP_TIMEOUT :: nat where "WNI_CFG_ADDTS_RSP_TIMEOUT \<equiv> 78"
abbreviation (input) WNI_CFG_MAX_SP_LENGTH :: nat where "WNI_CFG_MAX_SP_LENGTH \<equiv> 79"
abbreviation (input) WNI_CFG_WSM_ENABLED :: nat where "WNI_CFG_WSM_ENABLED \<equiv> 80"
abbreviation (input) WNI_CFG_EDCA_PROFILE :: nat where "WNI_CFG_EDCA_PROFILE \<equiv> 81"
abbreviation (input) WNI_CFG_EDCA_ANI_ACBK_LOCAL :: nat where "WNI_CFG_EDCA_ANI_ACBK_LOCAL \<equiv> 82"
abbreviation (input) WNI_CFG_EDCA_ANI_ACBE_LOCAL :: nat where "WNI_CFG_EDCA_ANI_ACBE_LOCAL \<equiv> 83"
abbreviation (input) WNI_CFG_EDCA_ANI_ACVI_LOCAL :: nat where "WNI_CFG_EDCA_ANI_ACVI_LOCAL \<equiv> 84"
abbreviation (input) WNI_CFG_EDCA_ANI_ACVO_LOCAL :: nat where "WNI_CFG_EDCA_ANI_ACVO_LOCAL \<equiv> 85"
abbreviation (input) WNI_CFG_EDCA_ANI_ACBK :: nat where "WNI_CFG_EDCA_ANI_ACBK \<equiv> 86"
abbreviation (input) WNI_CFG_EDCA_ANI_ACBE :: nat where "WNI_CFG_EDCA_ANI_ACBE \<equiv> 87"
abbreviation (input) WNI_CFG_EDCA_ANI_ACVI :: nat where "WNI_CFG_EDCA_ANI_ACVI \<equiv> 88"
abbreviation (input) WNI_CFG_EDCA_ANI_ACVO :: nat where "WNI_CFG_EDCA_ANI_ACVO \<equiv> 89"
abbreviation (input) WNI_CFG_EDCA_WME_ACBK_LOCAL :: nat where "WNI_CFG_EDCA_WME_ACBK_LOCAL \<equiv> 90"
abbreviation (input) WNI_CFG_EDCA_WME_ACBE_LOCAL :: nat where "WNI_CFG_EDCA_WME_ACBE_LOCAL \<equiv> 91"
abbreviation (input) WNI_CFG_EDCA_WME_ACVI_LOCAL :: nat where "WNI_CFG_EDCA_WME_ACVI_LOCAL \<equiv> 92"
abbreviation (input) WNI_CFG_EDCA_WME_ACVO_LOCAL :: nat where "WNI_CFG_EDCA_WME_ACVO_LOCAL \<equiv> 93"
abbreviation (input) WNI_CFG_EDCA_WME_ACBK :: nat where "WNI_CFG_EDCA_WME_ACBK \<equiv> 94"
abbreviation (input) WNI_CFG_EDCA_WME_ACBE :: nat where "WNI_CFG_EDCA_WME_ACBE \<equiv> 95"
abbreviation (input) WNI_CFG_EDCA_WME_ACVI :: nat where "WNI_CFG_EDCA_WME_ACVI \<equiv> 96"
abbreviation (input) WNI_CFG_EDCA_WME_ACVO :: nat where "WNI_CFG_EDCA_WME_ACVO \<equiv> 97"
abbreviation (input) WNI_CFG_LOCAL_POWER_CONSTRAINT :: nat where "WNI_CFG_LOCAL_POWER_CONSTRAINT \<equiv> 98"
abbreviation (input) WNI_CFG_ADMIT_POLICY :: nat where "WNI_CFG_ADMIT_POLICY \<equiv> 99"
abbreviation (input) WNI_CFG_ADMIT_BWFACTOR :: nat where "WNI_CFG_ADMIT_BWFACTOR \<equiv> 100"
abbreviation (input) WNI_CFG_CHANNEL_BONDING_MODE :: nat where "WNI_CFG_CHANNEL_BONDING_MODE \<equiv> 101"
abbreviation (input) WNI_CFG_DYNAMIC_THRESHOLD_ZERO :: nat where "WNI_CFG_DYNAMIC_THRESHOLD_ZERO \<equiv> 102"
abbreviation (input) WNI_CFG_DYNAMIC_THRESHOLD_ONE :: nat where "WNI_CFG_DYNAMIC_THRESHOLD_ONE \<equiv> 103"
abbreviation (input) WNI_CFG_DYNAMIC_THRESHOLD_TWO :: nat where "WNI_CFG_DYNAMIC_THRESHOLD_TWO \<equiv> 104"
abbreviation (input) WNI_CFG_SCAN_CONTROL_LIST :: nat where "WNI_CFG_SCAN_CONTROL_LIST \<equiv> 105"
abbreviation (input) WNI_CFG_BLOCK_ACK_ENABLED :: nat where "WNI_CFG_BLOCK_ACK_ENABLED \<equiv> 106"
abbreviation (input) WNI_CFG_HT_CAP_INFO :: nat where "WNI_CFG_HT_CAP_INFO \<equiv> 107"
abbreviation (input) WNI_CFG_HT_AMPDU_PARAMS :: nat where "WNI_CFG_HT_AMPDU_PARAMS \<equiv> 108"
abbreviation (input) WNI_CFG_SUPPORTED_MCS_SET :: nat where "WNI_CFG_SUPPORTED_MCS_SET \<equiv> 109"
abbreviation (input) WNI_CFG_EXT_HT_CAP_INFO :: nat where "WNI_CFG_EXT_HT_CAP_INFO \<equiv> 110"
abbreviation (input) WNI_CFG_TX_BF_CAP :: nat where "WNI_CFG_TX_BF_CAP \<equiv> 111"
abbreviation (input) WNI_CFG_AS_CAP :: nat where "WNI_CFG_AS_CAP \<equiv> 112"
abbreviation (input) WNI_CFG_HT_INFO_FIELD1 :: nat where "WNI_CFG_HT_INFO_FIELD1 \<equiv> 113"
abbreviation (input) WNI_CFG_HT_INFO_FIELD2 :: nat where "WNI_CFG_HT_INFO_FIELD2 \<equiv> 114"
abbreviation (input) WNI_CFG_HT_INFO_FIELD3 :: nat where "WNI_CFG_HT_INFO_FIELD3 \<equiv> 115"
abbreviation (input) WNI_CFG_BASIC_MCS_SET :: nat where "WNI_CFG_BASIC_MCS_SET \<equiv> 116"
abbreviation (input) WNI_CFG_CURRENT_MCS_SET :: nat where "WNI_CFG_CURRENT_MCS_SET \<equiv> 117"
abbreviation (input) WNI_CFG_VHT_MAX_MPDU_LENGTH :: nat where "WNI_CFG_VHT_MAX_MPDU_LENGTH \<equiv> 118"
abbreviation (input) WNI_CFG_VHT_SUPPORTED_CHAN_WIDTH_SET :: nat where "WNI_CFG_VHT_SUPPORTED_CHAN_WIDTH_SET \<equiv> 119"
abbreviation (input) WNI_CFG_VHT_LDPC_CODING_CAP :: nat where "WNI_CFG_VHT_LDPC_CODING_CAP \<equiv> 120"
abbreviation (input) WNI_CFG_VHT_SHORT_GI_80MHZ :: nat where "WNI_CFG_VHT_SHORT_GI_80MHZ \<equiv> 121"
abbreviation (input) WNI_CFG_VHT_SHORT_GI_160_AND_80_PLUS_80MHZ :: nat where "WNI_CFG_VHT_SHORT_GI_160_AND_80_PLUS_80MHZ \<equiv> 122"
abbreviation (input) WNI_CFG_VHT_TXSTBC :: nat where "WNI_CFG_VHT_TXSTBC \<equiv> 123"
abbreviation (input) WNI_CFG_VHT_RXSTBC :: nat where "WNI_CFG_VHT_RXSTBC \<equiv> 124"
abbreviation (input) WNI_CFG_VHT_SU_BEAMFORMER_CAP :: nat where "WNI_CFG_VHT_SU_BEAMFORMER_CAP \<equiv> 125"
abbreviation (input) WNI_CFG_VHT_SU_BEAMFORMEE_CAP :: nat where "WNI_CFG_VHT_SU_BEAMFORMEE_CAP \<equiv> 126"
abbreviation (input) WNI_CFG_VHT_CSN_BEAMFORMEE_ANT_SUPPORTED :: nat where "WNI_CFG_VHT_CSN_BEAMFORMEE_ANT_SUPPORTED \<equiv> 127"
abbreviation (input) WNI_CFG_VHT_NUM_SOUNDING_DIMENSIONS :: nat where "WNI_CFG_VHT_NUM_SOUNDING_DIMENSIONS \<equiv> 128"
abbreviation (input) WNI_CFG_VHT_MU_BEAMFORMER_CAP :: nat where "WNI_CFG_VHT_MU_BEAMFORMER_CAP \<equiv> 129"
abbreviation (input) WNI_CFG_VHT_MU_BEAMFORMEE_CAP :: nat where "WNI_CFG_VHT_MU_BEAMFORMEE_CAP \<equiv> 130"
abbreviation (input) WNI_CFG_VHT_TXOP_PS :: nat where "WNI_CFG_VHT_TXOP_PS \<equiv> 131"
abbreviation (input) WNI_CFG_VHT_HTC_VHTC_CAP :: nat where "WNI_CFG_VHT_HTC_VHTC_CAP \<equiv> 132"
abbreviation (input) WNI_CFG_VHT_AMPDU_LEN_EXPONENT :: nat where "WNI_CFG_VHT_AMPDU_LEN_EXPONENT \<equiv> 133"
abbreviation (input) WNI_CFG_VHT_LINK_ADAPTATION_CAP :: nat where "WNI_CFG_VHT_LINK_ADAPTATION_CAP \<equiv> 134"
abbreviation (input) WNI_CFG_VHT_RX_ANT_PATTERN :: nat where "WNI_CFG_VHT_RX_ANT_PATTERN \<equiv> 135"
abbreviation (input) WNI_CFG_VHT_TX_ANT_PATTERN :: nat where "WNI_CFG_VHT_TX_ANT_PATTERN \<equiv> 136"
abbreviation (input) WNI_CFG_VHT_RX_MCS_MAP :: nat where "WNI_CFG_VHT_RX_MCS_MAP \<equiv> 137"
abbreviation (input) WNI_CFG_VHT_TX_MCS_MAP :: nat where "WNI_CFG_VHT_TX_MCS_MAP \<equiv> 138"
abbreviation (input) WNI_CFG_VHT_RX_HIGHEST_SUPPORTED_DATA_RATE :: nat where "WNI_CFG_VHT_RX_HIGHEST_SUPPORTED_DATA_RATE \<equiv> 139"
abbreviation (input) WNI_CFG_VHT_TX_HIGHEST_SUPPORTED_DATA_RATE :: nat where "WNI_CFG_VHT_TX_HIGHEST_SUPPORTED_DATA_RATE \<equiv> 140"
abbreviation (input) WNI_CFG_VHT_BASIC_MCS_SET :: nat where "WNI_CFG_VHT_BASIC_MCS_SET \<equiv> 141"
abbreviation (input) WNI_CFG_VHT_MU_MIMO_CAP_STA_COUNT :: nat where "WNI_CFG_VHT_MU_MIMO_CAP_STA_COUNT \<equiv> 142"
abbreviation (input) WNI_CFG_VHT_SS_UNDER_UTIL :: nat where "WNI_CFG_VHT_SS_UNDER_UTIL \<equiv> 143"
abbreviation (input) WNI_CFG_VHT_40MHZ_UTILIZATION :: nat where "WNI_CFG_VHT_40MHZ_UTILIZATION \<equiv> 144"
abbreviation (input) WNI_CFG_VHT_80MHZ_UTILIZATION :: nat where "WNI_CFG_VHT_80MHZ_UTILIZATION \<equiv> 145"
abbreviation (input) WNI_CFG_VHT_160MHZ_UTILIZATION :: nat where "WNI_CFG_VHT_160MHZ_UTILIZATION \<equiv> 146"
abbreviation (input) WNI_CFG_MPDU_DENSITY :: nat where "WNI_CFG_MPDU_DENSITY \<equiv> 147"
abbreviation (input) WNI_CFG_MAX_RX_AMPDU_FACTOR :: nat where "WNI_CFG_MAX_RX_AMPDU_FACTOR \<equiv> 148"
abbreviation (input) WNI_CFG_MAX_PS_POLL :: nat where "WNI_CFG_MAX_PS_POLL \<equiv> 149"
abbreviation (input) WNI_CFG_RSSI_FILTER_PERIOD :: nat where "WNI_CFG_RSSI_FILTER_PERIOD \<equiv> 150"
abbreviation (input) WNI_CFG_SCAN_IN_POWERSAVE :: nat where "WNI_CFG_SCAN_IN_POWERSAVE \<equiv> 151"
abbreviation (input) WNI_CFG_IGNORE_DTIM :: nat where "WNI_CFG_IGNORE_DTIM \<equiv> 152"
abbreviation (input) WNI_CFG_WOWLAN_UCAST_PATTERN_FILTER_ENABLE :: nat where "WNI_CFG_WOWLAN_UCAST_PATTERN_FILTER_ENABLE \<equiv> 153"
abbreviation (input) WNI_CFG_WOWLAN_CHANNEL_SWITCH_ENABLE :: nat where "WNI_CFG_WOWLAN_CHANNEL_SWITCH_ENABLE \<equiv> 154"
abbreviation (input) WNI_CFG_WOWLAN_DEAUTH_ENABLE :: nat where "WNI_CFG_WOWLAN_DEAUTH_ENABLE \<equiv> 155"
abbreviation (input) WNI_CFG_WOWLAN_DISASSOC_ENABLE :: nat where "WNI_CFG_WOWLAN_DISASSOC_ENABLE \<equiv> 156"
abbreviation (input) WNI_CFG_WOWLAN_MAX_MISSED_BEACON :: nat where "WNI_CFG_WOWLAN_MAX_MISSED_BEACON \<equiv> 157"
abbreviation (input) WNI_CFG_WOWLAN_MAX_SLEEP_PERIOD :: nat where "WNI_CFG_WOWLAN_MAX_SLEEP_PERIOD \<equiv> 158"
abbreviation (input) WNI_CFG_MAX_MEDIUM_TIME :: nat where "WNI_CFG_MAX_MEDIUM_TIME \<equiv> 159"
abbreviation (input) WNI_CFG_IBSS_AUTO_BSSID :: nat where "WNI_CFG_IBSS_AUTO_BSSID \<equiv> 160"
abbreviation (input) WNI_CFG_PROBE_RSP_BCN_ADDNIE_FLAG :: nat where "WNI_CFG_PROBE_RSP_BCN_ADDNIE_FLAG \<equiv> 161"
abbreviation (input) WNI_CFG_WPS_ENABLE :: nat where "WNI_CFG_WPS_ENABLE \<equiv> 162"
abbreviation (input) WNI_CFG_WPS_STATE :: nat where "WNI_CFG_WPS_STATE \<equiv> 163"
abbreviation (input) WNI_CFG_WPS_VERSION :: nat where "WNI_CFG_WPS_VERSION \<equiv> 164"
abbreviation (input) WNI_CFG_WPS_CFG_METHOD :: nat where "WNI_CFG_WPS_CFG_METHOD \<equiv> 165"
abbreviation (input) WNI_CFG_WPS_UUID :: nat where "WNI_CFG_WPS_UUID \<equiv> 166"
abbreviation (input) WNI_CFG_WPS_PRIMARY_DEVICE_CATEGORY :: nat where "WNI_CFG_WPS_PRIMARY_DEVICE_CATEGORY \<equiv> 167"
abbreviation (input) WNI_CFG_WPS_PIMARY_DEVICE_OUI :: nat where "WNI_CFG_WPS_PIMARY_DEVICE_OUI \<equiv> 168"
abbreviation (input) WNI_CFG_WPS_DEVICE_SUB_CATEGORY :: nat where "WNI_CFG_WPS_DEVICE_SUB_CATEGORY \<equiv> 169"
abbreviation (input) WNI_CFG_WPS_DEVICE_PASSWORD_ID :: nat where "WNI_CFG_WPS_DEVICE_PASSWORD_ID \<equiv> 170"
abbreviation (input) WNI_CFG_LOW_GAIN_OVERRIDE :: nat where "WNI_CFG_LOW_GAIN_OVERRIDE \<equiv> 171"
abbreviation (input) WNI_CFG_SINGLE_TID_RC :: nat where "WNI_CFG_SINGLE_TID_RC \<equiv> 172"
abbreviation (input) WNI_CFG_MCAST_BCAST_FILTER_SETTING :: nat where "WNI_CFG_MCAST_BCAST_FILTER_SETTING \<equiv> 173"
abbreviation (input) WNI_CFG_DYNAMIC_PS_POLL_VALUE :: nat where "WNI_CFG_DYNAMIC_PS_POLL_VALUE \<equiv> 174"
abbreviation (input) WNI_CFG_PS_NULLDATA_AP_RESP_TIMEOUT :: nat where "WNI_CFG_PS_NULLDATA_AP_RESP_TIMEOUT \<equiv> 175"
abbreviation (input) WNI_CFG_TELE_BCN_WAKEUP_EN :: nat where "WNI_CFG_TELE_BCN_WAKEUP_EN \<equiv> 176"
abbreviation (input) WNI_CFG_TELE_BCN_TRANS_LI :: nat where "WNI_CFG_TELE_BCN_TRANS_LI \<equiv> 177"
abbreviation (input) WNI_CFG_TELE_BCN_TRANS_LI_IDLE_BCNS :: nat where "WNI_CFG_TELE_BCN_TRANS_LI_IDLE_BCNS \<equiv> 178"
abbreviation (input) WNI_CFG_TELE_BCN_MAX_LI :: nat where "WNI_CFG_TELE_BCN_MAX_LI \<equiv> 179"
abbreviation (input) WNI_CFG_TELE_BCN_MAX_LI_IDLE_BCNS :: nat where "WNI_CFG_TELE_BCN_MAX_LI_IDLE_BCNS \<equiv> 180"
abbreviation (input) WNI_CFG_INFRA_STA_KEEP_ALIVE_PERIOD :: nat where "WNI_CFG_INFRA_STA_KEEP_ALIVE_PERIOD \<equiv> 181"
abbreviation (input) WNI_CFG_ASSOC_STA_LIMIT :: nat where "WNI_CFG_ASSOC_STA_LIMIT \<equiv> 182"
abbreviation (input) WNI_CFG_AP_DATA_AVAIL_POLL_PERIOD :: nat where "WNI_CFG_AP_DATA_AVAIL_POLL_PERIOD \<equiv> 183"
abbreviation (input) WNI_CFG_ENABLE_LTE_COEX :: nat where "WNI_CFG_ENABLE_LTE_COEX \<equiv> 184"
abbreviation (input) WNI_CFG_AP_KEEP_ALIVE_TIMEOUT :: nat where "WNI_CFG_AP_KEEP_ALIVE_TIMEOUT \<equiv> 185"
abbreviation (input) WNI_CFG_GO_KEEP_ALIVE_TIMEOUT :: nat where "WNI_CFG_GO_KEEP_ALIVE_TIMEOUT \<equiv> 186"
abbreviation (input) WNI_CFG_ENABLE_MC_ADDR_LIST :: nat where "WNI_CFG_ENABLE_MC_ADDR_LIST \<equiv> 187"
abbreviation (input) WNI_CFG_ENABLE_LPWR_IMG_TRANSITION :: nat where "WNI_CFG_ENABLE_LPWR_IMG_TRANSITION \<equiv> 188"
abbreviation (input) WNI_CFG_ENABLE_MCC_ADAPTIVE_SCHED :: nat where "WNI_CFG_ENABLE_MCC_ADAPTIVE_SCHED \<equiv> 189"
abbreviation (input) WNI_CFG_DISABLE_LDPC_WITH_TXBF_AP :: nat where "WNI_CFG_DISABLE_LDPC_WITH_TXBF_AP \<equiv> 190"
abbreviation (input) WNI_CFG_AP_LINK_MONITOR_TIMEOUT :: nat where "WNI_CFG_AP_LINK_MONITOR_TIMEOUT \<equiv> 191"
abbreviation (input) WNI_CFG_TDLS_QOS_WMM_UAPSD_MASK :: nat where "WNI_CFG_TDLS_QOS_WMM_UAPSD_MASK \<equiv> 192"
abbreviation (input) WNI_CFG_TDLS_BUF_STA_ENABLED :: nat where "WNI_CFG_TDLS_BUF_STA_ENABLED \<equiv> 193"
abbreviation (input) WNI_CFG_TDLS_PUAPSD_INACT_TIME :: nat where "WNI_CFG_TDLS_PUAPSD_INACT_TIME \<equiv> 194"
abbreviation (input) WNI_CFG_TDLS_RX_FRAME_THRESHOLD :: nat where "WNI_CFG_TDLS_RX_FRAME_THRESHOLD \<equiv> 195"
abbreviation (input) WNI_CFG_PMF_SA_QUERY_MAX_RETRIES :: nat where "WNI_CFG_PMF_SA_QUERY_MAX_RETRIES \<equiv> 196"
abbreviation (input) WNI_CFG_PMF_SA_QUERY_RETRY_INTERVAL :: nat where "WNI_CFG_PMF_SA_QUERY_RETRY_INTERVAL \<equiv> 197"
abbreviation (input) WNI_CFG_ENABLE_ADAPT_RX_DRAIN :: nat where "WNI_CFG_ENABLE_ADAPT_RX_DRAIN \<equiv> 198"
abbreviation (input) WNI_CFG_ANTENNA_DIVESITY :: nat where "WNI_CFG_ANTENNA_DIVESITY \<equiv> 199"
abbreviation (input) WNI_CFG_GO_LINK_MONITOR_TIMEOUT :: nat where "WNI_CFG_GO_LINK_MONITOR_TIMEOUT \<equiv> 200"
abbreviation (input) WNI_CFG_RMC_ACTION_PERIOD_FREQUENCY :: nat where "WNI_CFG_RMC_ACTION_PERIOD_FREQUENCY \<equiv> 201"
abbreviation (input) WNI_CFG_CURRENT_RSSI :: nat where "WNI_CFG_CURRENT_RSSI \<equiv> 202"
abbreviation (input) WNI_CFG_RTT3_ENABLE :: nat where "WNI_CFG_RTT3_ENABLE \<equiv> 203"
abbreviation (input) WNI_CFG_DEBUG_P2P_REMAIN_ON_CHANNEL :: nat where "WNI_CFG_DEBUG_P2P_REMAIN_ON_CHANNEL \<equiv> 204"
abbreviation (input) WNI_CFG_TDLS_OFF_CHANNEL_ENABLED :: nat where "WNI_CFG_TDLS_OFF_CHANNEL_ENABLED \<equiv> 205"
abbreviation (input) WNI_CFG_IBSS_ATIM_WIN_SIZE :: nat where "WNI_CFG_IBSS_ATIM_WIN_SIZE \<equiv> 206"
abbreviation (input) WNI_CFG_DFS_MASTER_ENABLED :: nat where "WNI_CFG_DFS_MASTER_ENABLED \<equiv> 207"
abbreviation (input) WNI_CFG_VHT_ENABLE_TXBF_20MHZ :: nat where "WNI_CFG_VHT_ENABLE_TXBF_20MHZ \<equiv> 208"
abbreviation (input) WNI_CFG_TDLS_WMM_MODE_ENABLED :: nat where "WNI_CFG_TDLS_WMM_MODE_ENABLED \<equiv> 209"
abbreviation (input) WNI_CFG_OBSS_HT40_SCAN_PASSIVE_DWELL_TIME :: nat where "WNI_CFG_OBSS_HT40_SCAN_PASSIVE_DWELL_TIME \<equiv> 210"
abbreviation (input) WNI_CFG_OBSS_HT40_SCAN_ACTIVE_DWELL_TIME :: nat where "WNI_CFG_OBSS_HT40_SCAN_ACTIVE_DWELL_TIME \<equiv> 211"
abbreviation (input) WNI_CFG_OBSS_HT40_SCAN_WIDTH_TRIGGER_INTERVAL :: nat where "WNI_CFG_OBSS_HT40_SCAN_WIDTH_TRIGGER_INTERVAL \<equiv> 212"
abbreviation (input) WNI_CFG_OBSS_HT40_SCAN_PASSIVE_TOTAL_PER_CHANNEL :: nat where "WNI_CFG_OBSS_HT40_SCAN_PASSIVE_TOTAL_PER_CHANNEL \<equiv> 213"
abbreviation (input) WNI_CFG_OBSS_HT40_SCAN_ACTIVE_TOTAL_PER_CHANNEL :: nat where "WNI_CFG_OBSS_HT40_SCAN_ACTIVE_TOTAL_PER_CHANNEL \<equiv> 214"
abbreviation (input) WNI_CFG_OBSS_HT40_WIDTH_CH_TRANSITION_DELAY :: nat where "WNI_CFG_OBSS_HT40_WIDTH_CH_TRANSITION_DELAY \<equiv> 215"
abbreviation (input) WNI_CFG_OBSS_HT40_SCAN_ACTIVITY_THRESHOLD :: nat where "WNI_CFG_OBSS_HT40_SCAN_ACTIVITY_THRESHOLD \<equiv> 216"
abbreviation (input) WNI_CFG_TGT_GTX_USR_CFG :: nat where "WNI_CFG_TGT_GTX_USR_CFG \<equiv> 217"
abbreviation (input) WNI_CFG_MAX_HT_MCS_TX_DATA :: nat where "WNI_CFG_MAX_HT_MCS_TX_DATA \<equiv> 218"
abbreviation (input) WNI_CFG_DISABLE_ABG_RATE_FOR_TX_DATA :: nat where "WNI_CFG_DISABLE_ABG_RATE_FOR_TX_DATA \<equiv> 219"
abbreviation (input) WNI_CFG_RATE_FOR_TX_MGMT :: nat where "WNI_CFG_RATE_FOR_TX_MGMT \<equiv> 220"
abbreviation (input) WNI_CFG_PS_WOW_DATA_INACTIVITY_TIMEOUT :: nat where "WNI_CFG_PS_WOW_DATA_INACTIVITY_TIMEOUT \<equiv> 221"
abbreviation (input) CFG_PARAM_MAX_NUM :: nat where "CFG_PARAM_MAX_NUM \<equiv> 222"

section \<open>The table of the parameters\<close>

text \<open>\<open>cgstatic\<close>: number, flags, minimum, maximum and default. \<open>pStrData\<close> is part of the state. The values are those of \<open>wni_cfg.h\<close>.\<close>

datatype cgstatic = Cgstatic (cs_cfgId: nat) (cs_control: u32) (cfgIMin: u32) (cfgIMax: u32) (cfgIVal: u32)

definition cfg_static_1 :: "cgstatic list" where
  "cfg_static_1 =
    [Cgstatic WNI_CFG_STA_ID (CFG_CTL_VALID OR CFG_CTL_RE OR CFG_CTL_WE OR CFG_CTL_RELOAD OR CFG_CTL_NTF_HAL) 0 255 1,
     Cgstatic WNI_CFG_CFP_PERIOD (CFG_CTL_VALID OR CFG_CTL_RE OR CFG_CTL_INT) 0 255 1,
     Cgstatic WNI_CFG_CFP_MAX_DURATION (CFG_CTL_VALID OR CFG_CTL_RE OR CFG_CTL_INT) 0 65535 30000,
     Cgstatic WNI_CFG_SSID (CFG_CTL_VALID OR CFG_CTL_RE OR CFG_CTL_WE OR CFG_CTL_RESTART) 0 255 6,
     Cgstatic WNI_CFG_BEACON_INTERVAL (CFG_CTL_VALID OR CFG_CTL_RE OR CFG_CTL_WE OR CFG_CTL_INT OR CFG_CTL_NTF_SCH) 0 65535 100,
     Cgstatic WNI_CFG_DTIM_PERIOD (CFG_CTL_VALID OR CFG_CTL_RE OR CFG_CTL_INT) 0 65535 1,
     Cgstatic WNI_CFG_WEP_KEY_LENGTH (CFG_CTL_VALID OR CFG_CTL_RE OR CFG_CTL_WE OR CFG_CTL_INT OR CFG_CTL_RESTART) 5 13 5,
     Cgstatic WNI_CFG_WEP_DEFAULT_KEY_1 (CFG_CTL_VALID OR CFG_CTL_WE OR CFG_CTL_RESTART) 0 65535 0,
     Cgstatic WNI_CFG_WEP_DEFAULT_KEY_2 (CFG_CTL_VALID OR CFG_CTL_WE OR CFG_CTL_RESTART) 1 1 1,
     Cgstatic WNI_CFG_WEP_DEFAULT_KEY_3 (CFG_CTL_VALID OR CFG_CTL_WE OR CFG_CTL_RESTART) 0 5 5,
     Cgstatic WNI_CFG_WEP_DEFAULT_KEY_4 (CFG_CTL_VALID OR CFG_CTL_WE OR CFG_CTL_RESTART) 0 1 0,
     Cgstatic WNI_CFG_WEP_DEFAULT_KEYID (CFG_CTL_VALID OR CFG_CTL_RE OR CFG_CTL_WE OR CFG_CTL_INT OR CFG_CTL_NTF_LIM) 0 3 0,
     Cgstatic WNI_CFG_EXCLUDE_UNENCRYPTED (CFG_CTL_VALID OR CFG_CTL_RE OR CFG_CTL_WE OR CFG_CTL_INT OR CFG_CTL_NTF_LIM) 0 1 0,
     Cgstatic WNI_CFG_RTS_THRESHOLD (CFG_CTL_VALID OR CFG_CTL_RE OR CFG_CTL_WE OR CFG_CTL_INT OR CFG_CTL_NTF_HAL) 0 1048576 2347,
     Cgstatic WNI_CFG_SHORT_RETRY_LIMIT (CFG_CTL_VALID OR CFG_CTL_RE OR CFG_CTL_WE OR CFG_CTL_INT OR CFG_CTL_NTF_HAL) 0 255 6,
     Cgstatic WNI_CFG_LONG_RETRY_LIMIT (CFG_CTL_VALID OR CFG_CTL_RE OR CFG_CTL_WE OR CFG_CTL_INT OR CFG_CTL_NTF_HAL) 0 255 6,
     Cgstatic WNI_CFG_FRAGMENTATION_THRESHOLD (CFG_CTL_VALID OR CFG_CTL_RE OR CFG_CTL_WE OR CFG_CTL_INT OR CFG_CTL_NTF_HAL) 256 8000 8000,
     Cgstatic WNI_CFG_ACTIVE_MINIMUM_CHANNEL_TIME (CFG_CTL_VALID OR CFG_CTL_RE OR CFG_CTL_WE OR CFG_CTL_INT) 0 65535 20,
     Cgstatic WNI_CFG_ACTIVE_MAXIMUM_CHANNEL_TIME (CFG_CTL_VALID OR CFG_CTL_RE OR CFG_CTL_WE OR CFG_CTL_INT) 0 65535 40,
     Cgstatic WNI_CFG_PASSIVE_MINIMUM_CHANNEL_TIME (CFG_CTL_VALID OR CFG_CTL_RE OR CFG_CTL_WE OR CFG_CTL_INT) 0 65535 60,
     Cgstatic WNI_CFG_PASSIVE_MAXIMUM_CHANNEL_TIME (CFG_CTL_VALID OR CFG_CTL_RE OR CFG_CTL_WE OR CFG_CTL_INT) 0 65535 110,
     Cgstatic WNI_CFG_JOIN_FAILURE_TIMEOUT (CFG_CTL_VALID OR CFG_CTL_RE OR CFG_CTL_WE OR CFG_CTL_INT) 0 65535 3000,
     Cgstatic WNI_CFG_AUTHENTICATE_FAILURE_TIMEOUT (CFG_CTL_VALID OR CFG_CTL_RE OR CFG_CTL_WE OR CFG_CTL_INT) 0 65535 1000,
     Cgstatic WNI_CFG_AUTHENTICATE_RSP_TIMEOUT (CFG_CTL_VALID OR CFG_CTL_RE OR CFG_CTL_WE OR CFG_CTL_INT) 0 65535 1000,
     Cgstatic WNI_CFG_ASSOCIATION_FAILURE_TIMEOUT (CFG_CTL_VALID OR CFG_CTL_RE OR CFG_CTL_WE OR CFG_CTL_INT OR CFG_CTL_NTF_LIM) 0 65535 2000,
     Cgstatic WNI_CFG_REASSOCIATION_FAILURE_TIMEOUT (CFG_CTL_VALID OR CFG_CTL_RE OR CFG_CTL_WE OR CFG_CTL_INT) 0 65535 1000,
     Cgstatic WNI_CFG_PS_ENABLE_BCN_FILTER (CFG_CTL_VALID OR CFG_CTL_RE OR CFG_CTL_WE OR CFG_CTL_INT OR CFG_CTL_NTF_HAL) 0 1 1,
     Cgstatic WNI_CFG_PS_ENABLE_HEART_BEAT (CFG_CTL_VALID OR CFG_CTL_RE OR CFG_CTL_WE OR CFG_CTL_INT OR CFG_CTL_NTF_HAL) 0 1 1,
     Cgstatic WNI_CFG_PS_ENABLE_RSSI_MONITOR (CFG_CTL_VALID OR CFG_CTL_RE OR CFG_CTL_WE OR CFG_CTL_INT OR CFG_CTL_NTF_HAL) 0 1 0]"

definition cfg_static_2 :: "cgstatic list" where
  "cfg_static_2 =
    [Cgstatic WNI_CFG_PS_DATA_INACTIVITY_TIMEOUT (CFG_CTL_VALID OR CFG_CTL_RE OR CFG_CTL_WE OR CFG_CTL_INT OR CFG_CTL_NTF_HAL) 1 255 200,
     Cgstatic WNI_CFG_RF_SETTLING_TIME_CLK (CFG_CTL_VALID OR CFG_CTL_RE OR CFG_CTL_WE OR CFG_CTL_INT OR CFG_CTL_NTF_HAL) 0 60000 1500,
     Cgstatic WNI_CFG_SUPPORTED_RATES_11B (CFG_CTL_VALID OR CFG_CTL_RE) 0 3 1,
     Cgstatic WNI_CFG_SUPPORTED_RATES_11A (CFG_CTL_VALID OR CFG_CTL_RE) 0 255 15,
     Cgstatic WNI_CFG_PHY_MODE (CFG_CTL_VALID OR CFG_CTL_RE OR CFG_CTL_WE OR CFG_CTL_INT OR CFG_CTL_RESTART) 0 3 0,
     Cgstatic WNI_CFG_DOT11_MODE (CFG_CTL_VALID OR CFG_CTL_RE OR CFG_CTL_WE OR CFG_CTL_INT OR CFG_CTL_RESTART OR CFG_CTL_NTF_LIM) 0 11 0,
     Cgstatic WNI_CFG_OPERATIONAL_RATE_SET (CFG_CTL_VALID OR CFG_CTL_RE OR CFG_CTL_WE OR CFG_CTL_RESTART) 0 1 1,
     Cgstatic WNI_CFG_EXTENDED_OPERATIONAL_RATE_SET (CFG_CTL_VALID OR CFG_CTL_RE OR CFG_CTL_WE OR CFG_CTL_RESTART) 0 65535 65534,
     Cgstatic WNI_CFG_PROPRIETARY_OPERATIONAL_RATE_SET (CFG_CTL_VALID OR CFG_CTL_RE OR CFG_CTL_WE OR CFG_CTL_RESTART) 0 0 0,
     Cgstatic WNI_CFG_LISTEN_INTERVAL (CFG_CTL_VALID OR CFG_CTL_RE OR CFG_CTL_WE OR CFG_CTL_INT OR CFG_CTL_RESTART) 0 65535 1,
     Cgstatic WNI_CFG_VALID_CHANNEL_LIST (CFG_CTL_VALID OR CFG_CTL_RE OR CFG_CTL_WE OR CFG_CTL_RESTART OR CFG_CTL_NTF_LIM) 0 1 1,
     Cgstatic WNI_CFG_CURRENT_CHANNEL (CFG_CTL_VALID OR CFG_CTL_RE OR CFG_CTL_INT) 0 165 1,
     Cgstatic WNI_CFG_DEFAULT_RATE_INDEX_24GHZ (CFG_CTL_VALID OR CFG_CTL_RE OR CFG_CTL_WE OR CFG_CTL_INT) 0 31 1,
     Cgstatic WNI_CFG_FIXED_RATE (CFG_CTL_VALID OR CFG_CTL_RE OR CFG_CTL_WE OR CFG_CTL_INT OR CFG_CTL_NTF_HAL) 0 44 0,
     Cgstatic WNI_CFG_APSD_ENABLED (CFG_CTL_VALID OR CFG_CTL_RE OR CFG_CTL_WE OR CFG_CTL_INT) 0 1 0,
     Cgstatic WNI_CFG_SHARED_KEY_AUTH_ENABLE (CFG_CTL_VALID OR CFG_CTL_RE OR CFG_CTL_WE OR CFG_CTL_INT) 0 1 1,
     Cgstatic WNI_CFG_OPEN_SYSTEM_AUTH_ENABLE (CFG_CTL_VALID OR CFG_CTL_RE OR CFG_CTL_WE OR CFG_CTL_INT) 0 1 1,
     Cgstatic WNI_CFG_AUTHENTICATION_TYPE (CFG_CTL_VALID OR CFG_CTL_RE OR CFG_CTL_WE OR CFG_CTL_INT OR CFG_CTL_RESTART) 0 65535 0,
     Cgstatic WNI_CFG_PRIVACY_ENABLED (CFG_CTL_VALID OR CFG_CTL_RE OR CFG_CTL_WE OR CFG_CTL_INT OR CFG_CTL_RESTART) 0 1 0,
     Cgstatic WNI_CFG_SHORT_PREAMBLE (CFG_CTL_VALID OR CFG_CTL_RE OR CFG_CTL_WE OR CFG_CTL_INT OR CFG_CTL_RESTART) 0 1 1,
     Cgstatic WNI_CFG_ACCEPT_SHORT_SLOT_ASSOC_ONLY (CFG_CTL_VALID OR CFG_CTL_RE OR CFG_CTL_WE OR CFG_CTL_INT OR CFG_CTL_RESTART) 0 1 0,
     Cgstatic WNI_CFG_QOS_ENABLED (CFG_CTL_VALID OR CFG_CTL_RE OR CFG_CTL_WE OR CFG_CTL_INT OR CFG_CTL_RESTART) 0 1 0,
     Cgstatic WNI_CFG_HCF_ENABLED (CFG_CTL_VALID OR CFG_CTL_RE OR CFG_CTL_WE OR CFG_CTL_INT OR CFG_CTL_RESTART) 0 1 0,
     Cgstatic WNI_CFG_RSN_ENABLED (CFG_CTL_VALID OR CFG_CTL_RE OR CFG_CTL_WE OR CFG_CTL_INT OR CFG_CTL_RESTART) 0 1 0,
     Cgstatic WNI_CFG_MAX_NUM_PRE_AUTH (CFG_CTL_VALID OR CFG_CTL_RE OR CFG_CTL_WE OR CFG_CTL_INT OR CFG_CTL_RESTART) 0 256 64,
     Cgstatic WNI_CFG_HEART_BEAT_THRESHOLD (CFG_CTL_VALID OR CFG_CTL_RE OR CFG_CTL_WE OR CFG_CTL_INT OR CFG_CTL_NTF_LIM) 0 65535 40,
     Cgstatic WNI_CFG_PROBE_AFTER_HB_FAIL_TIMEOUT (CFG_CTL_VALID OR CFG_CTL_RE OR CFG_CTL_WE OR CFG_CTL_INT) 10 10000 40,
     Cgstatic WNI_CFG_MANUFACTURER_NAME (CFG_CTL_VALID OR CFG_CTL_RE) 0 0 0,
     Cgstatic WNI_CFG_MODEL_NUMBER (CFG_CTL_VALID OR CFG_CTL_RE) 0 0 0]"

definition cfg_static_3 :: "cgstatic list" where
  "cfg_static_3 =
    [Cgstatic WNI_CFG_MODEL_NAME (CFG_CTL_VALID OR CFG_CTL_RE) 0 0 0,
     Cgstatic WNI_CFG_MANUFACTURER_PRODUCT_NAME (CFG_CTL_VALID OR CFG_CTL_RE) 0 0 0,
     Cgstatic WNI_CFG_MANUFACTURER_PRODUCT_VERSION (CFG_CTL_VALID OR CFG_CTL_RE) 0 0 0,
     Cgstatic WNI_CFG_11D_ENABLED (CFG_CTL_VALID OR CFG_CTL_RE OR CFG_CTL_WE OR CFG_CTL_INT OR CFG_CTL_RESTART) 0 1 1,
     Cgstatic WNI_CFG_MAX_TX_POWER_2_4 (CFG_CTL_VALID OR CFG_CTL_RE OR CFG_CTL_WE) 0 0 0,
     Cgstatic WNI_CFG_MAX_TX_POWER_5 (CFG_CTL_VALID OR CFG_CTL_RE OR CFG_CTL_WE) 0 0 0,
     Cgstatic WNI_CFG_CURRENT_TX_POWER_LEVEL (CFG_CTL_VALID OR CFG_CTL_RE OR CFG_CTL_WE OR CFG_CTL_INT) 0 128 27,
     Cgstatic WNI_CFG_NEW_BSS_FOUND_IND (CFG_CTL_VALID OR CFG_CTL_RE OR CFG_CTL_WE OR CFG_CTL_INT) 0 1 0,
     Cgstatic WNI_CFG_COUNTRY_CODE (CFG_CTL_VALID OR CFG_CTL_RE OR CFG_CTL_WE) 0 0 0,
     Cgstatic WNI_CFG_11H_ENABLED (CFG_CTL_VALID OR CFG_CTL_RE OR CFG_CTL_WE OR CFG_CTL_INT OR CFG_CTL_RESTART) 0 1 1,
     Cgstatic WNI_CFG_WT_CNF_TIMEOUT (CFG_CTL_VALID OR CFG_CTL_RE OR CFG_CTL_WE OR CFG_CTL_INT) 10 3000 1000,
     Cgstatic WNI_CFG_LOG_LEVEL (CFG_CTL_VALID OR CFG_CTL_RE OR CFG_CTL_WE OR CFG_CTL_INT) 0 7 4,
     Cgstatic WNI_CFG_OLBC_DETECT_TIMEOUT (CFG_CTL_VALID OR CFG_CTL_RE OR CFG_CTL_WE OR CFG_CTL_INT) 1000 30000 10000,
     Cgstatic WNI_CFG_PROTECTION_ENABLED (CFG_CTL_VALID OR CFG_CTL_RE OR CFG_CTL_WE OR CFG_CTL_INT OR CFG_CTL_RESTART OR CFG_CTL_NTF_LIM) 0 65535 65535,
     Cgstatic WNI_CFG_11G_PROTECTION_ALWAYS (CFG_CTL_VALID OR CFG_CTL_RE OR CFG_CTL_WE OR CFG_CTL_INT OR CFG_CTL_RESTART) 0 1 0,
     Cgstatic WNI_CFG_FORCE_POLICY_PROTECTION (CFG_CTL_VALID OR CFG_CTL_RE OR CFG_CTL_WE OR CFG_CTL_INT OR CFG_CTL_RESTART OR CFG_CTL_NTF_HAL) 0 5 5,
     Cgstatic WNI_CFG_11G_SHORT_PREAMBLE_ENABLED (CFG_CTL_VALID OR CFG_CTL_RE OR CFG_CTL_WE OR CFG_CTL_INT OR CFG_CTL_RESTART) 0 1 0,
     Cgstatic WNI_CFG_11G_SHORT_SLOT_TIME_ENABLED (CFG_CTL_VALID OR CFG_CTL_RE OR CFG_CTL_WE OR CFG_CTL_INT OR CFG_CTL_RESTART) 0 1 1,
     Cgstatic WNI_CFG_11G_ONLY_POLICY (CFG_CTL_VALID OR CFG_CTL_RE OR CFG_CTL_WE OR CFG_CTL_INT) 0 1 0,
     Cgstatic WNI_CFG_WME_ENABLED (CFG_CTL_VALID OR CFG_CTL_RE OR CFG_CTL_WE OR CFG_CTL_INT OR CFG_CTL_RESTART) 0 1 1,
     Cgstatic WNI_CFG_ADDTS_RSP_TIMEOUT (CFG_CTL_VALID OR CFG_CTL_RE OR CFG_CTL_WE OR CFG_CTL_INT) 0 65535 1000,
     Cgstatic WNI_CFG_MAX_SP_LENGTH (CFG_CTL_VALID OR CFG_CTL_RE OR CFG_CTL_WE OR CFG_CTL_INT) 0 3 0,
     Cgstatic WNI_CFG_WSM_ENABLED (CFG_CTL_VALID OR CFG_CTL_RE OR CFG_CTL_WE OR CFG_CTL_INT) 0 1 0,
     Cgstatic WNI_CFG_EDCA_PROFILE (CFG_CTL_VALID OR CFG_CTL_RE OR CFG_CTL_WE OR CFG_CTL_INT OR CFG_CTL_NTF_SCH) 0 255 1,
     Cgstatic WNI_CFG_EDCA_ANI_ACBK_LOCAL (CFG_CTL_VALID OR CFG_CTL_RE OR CFG_CTL_WE OR CFG_CTL_RESTART) 0 0 0,
     Cgstatic WNI_CFG_EDCA_ANI_ACBE_LOCAL (CFG_CTL_VALID OR CFG_CTL_RE OR CFG_CTL_WE OR CFG_CTL_RESTART) 0 0 0,
     Cgstatic WNI_CFG_EDCA_ANI_ACVI_LOCAL (CFG_CTL_VALID OR CFG_CTL_RE OR CFG_CTL_WE OR CFG_CTL_RESTART) 0 0 0,
     Cgstatic WNI_CFG_EDCA_ANI_ACVO_LOCAL (CFG_CTL_VALID OR CFG_CTL_RE OR CFG_CTL_WE OR CFG_CTL_RESTART) 0 0 0,
     Cgstatic WNI_CFG_EDCA_ANI_ACBK (CFG_CTL_VALID OR CFG_CTL_RE OR CFG_CTL_WE OR CFG_CTL_RESTART) 0 0 0,
     Cgstatic WNI_CFG_EDCA_ANI_ACBE (CFG_CTL_VALID OR CFG_CTL_RE OR CFG_CTL_WE OR CFG_CTL_RESTART) 0 0 0,
     Cgstatic WNI_CFG_EDCA_ANI_ACVI (CFG_CTL_VALID OR CFG_CTL_RE OR CFG_CTL_WE OR CFG_CTL_RESTART) 0 0 0,
     Cgstatic WNI_CFG_EDCA_ANI_ACVO (CFG_CTL_VALID OR CFG_CTL_RE OR CFG_CTL_WE OR CFG_CTL_RESTART) 0 0 0,
     Cgstatic WNI_CFG_EDCA_WME_ACBK_LOCAL (CFG_CTL_VALID OR CFG_CTL_RE OR CFG_CTL_WE OR CFG_CTL_RESTART) 0 0 0]"

definition cfg_static_4 :: "cgstatic list" where
  "cfg_static_4 =
    [Cgstatic WNI_CFG_EDCA_WME_ACBE_LOCAL (CFG_CTL_VALID OR CFG_CTL_RE OR CFG_CTL_WE OR CFG_CTL_RESTART) 0 0 0,
     Cgstatic WNI_CFG_EDCA_WME_ACVI_LOCAL (CFG_CTL_VALID OR CFG_CTL_RE OR CFG_CTL_WE OR CFG_CTL_RESTART) 0 0 0,
     Cgstatic WNI_CFG_EDCA_WME_ACVO_LOCAL (CFG_CTL_VALID OR CFG_CTL_RE OR CFG_CTL_WE OR CFG_CTL_RESTART) 0 0 0,
     Cgstatic WNI_CFG_EDCA_WME_ACBK (CFG_CTL_VALID OR CFG_CTL_RE OR CFG_CTL_WE OR CFG_CTL_RESTART) 0 0 0,
     Cgstatic WNI_CFG_EDCA_WME_ACBE (CFG_CTL_VALID OR CFG_CTL_RE OR CFG_CTL_WE OR CFG_CTL_RESTART) 0 0 0,
     Cgstatic WNI_CFG_EDCA_WME_ACVI (CFG_CTL_VALID OR CFG_CTL_RE OR CFG_CTL_WE OR CFG_CTL_RESTART) 0 0 0,
     Cgstatic WNI_CFG_EDCA_WME_ACVO (CFG_CTL_VALID OR CFG_CTL_RE OR CFG_CTL_WE OR CFG_CTL_RESTART) 0 0 0,
     Cgstatic WNI_CFG_LOCAL_POWER_CONSTRAINT (CFG_CTL_VALID OR CFG_CTL_RE OR CFG_CTL_WE OR CFG_CTL_INT OR CFG_CTL_RESTART) 0 255 0,
     Cgstatic WNI_CFG_ADMIT_POLICY (CFG_CTL_VALID OR CFG_CTL_RE OR CFG_CTL_WE OR CFG_CTL_INT OR CFG_CTL_RESTART) 0 2 0,
     Cgstatic WNI_CFG_ADMIT_BWFACTOR (CFG_CTL_VALID OR CFG_CTL_RE OR CFG_CTL_WE OR CFG_CTL_INT OR CFG_CTL_RESTART) 0 100 20,
     Cgstatic WNI_CFG_CHANNEL_BONDING_MODE (CFG_CTL_VALID OR CFG_CTL_RE OR CFG_CTL_WE OR CFG_CTL_INT OR CFG_CTL_RESTART OR CFG_CTL_NTF_LIM) 0 10 0,
     Cgstatic WNI_CFG_DYNAMIC_THRESHOLD_ZERO (CFG_CTL_VALID OR CFG_CTL_RE OR CFG_CTL_WE OR CFG_CTL_INT OR CFG_CTL_NTF_HAL) 0 255 2,
     Cgstatic WNI_CFG_DYNAMIC_THRESHOLD_ONE (CFG_CTL_VALID OR CFG_CTL_RE OR CFG_CTL_WE OR CFG_CTL_INT OR CFG_CTL_NTF_HAL) 0 255 4,
     Cgstatic WNI_CFG_DYNAMIC_THRESHOLD_TWO (CFG_CTL_VALID OR CFG_CTL_RE OR CFG_CTL_WE OR CFG_CTL_INT OR CFG_CTL_NTF_HAL) 0 255 6,
     Cgstatic WNI_CFG_SCAN_CONTROL_LIST (CFG_CTL_VALID OR CFG_CTL_RE OR CFG_CTL_WE OR CFG_CTL_RESTART OR CFG_CTL_NTF_LIM) 0 0 0,
     Cgstatic WNI_CFG_BLOCK_ACK_ENABLED (CFG_CTL_VALID OR CFG_CTL_RE OR CFG_CTL_WE OR CFG_CTL_INT OR CFG_CTL_RESTART OR CFG_CTL_NTF_LIM) 0 3 0,
     Cgstatic WNI_CFG_HT_CAP_INFO (CFG_CTL_VALID OR CFG_CTL_RE OR CFG_CTL_WE OR CFG_CTL_INT OR CFG_CTL_RESTART OR CFG_CTL_NTF_LIM) 0 65535 364,
     Cgstatic WNI_CFG_HT_AMPDU_PARAMS (CFG_CTL_VALID OR CFG_CTL_RE OR CFG_CTL_WE OR CFG_CTL_INT OR CFG_CTL_RESTART OR CFG_CTL_NTF_LIM) 0 255 0,
     Cgstatic WNI_CFG_SUPPORTED_MCS_SET (CFG_CTL_VALID OR CFG_CTL_RE OR CFG_CTL_WE OR CFG_CTL_SAVE OR CFG_CTL_RESTART OR CFG_CTL_NTF_LIM) 0 0 0,
     Cgstatic WNI_CFG_EXT_HT_CAP_INFO (CFG_CTL_VALID OR CFG_CTL_RE OR CFG_CTL_WE OR CFG_CTL_INT OR CFG_CTL_SAVE OR CFG_CTL_RESTART OR CFG_CTL_NTF_LIM) 0 65535 1024,
     Cgstatic WNI_CFG_TX_BF_CAP (CFG_CTL_VALID OR CFG_CTL_RE OR CFG_CTL_INT OR CFG_CTL_RESTART OR CFG_CTL_NTF_LIM) 0 4294967295 0,
     Cgstatic WNI_CFG_AS_CAP (CFG_CTL_VALID OR CFG_CTL_RE OR CFG_CTL_WE OR CFG_CTL_INT OR CFG_CTL_SAVE OR CFG_CTL_RESTART OR CFG_CTL_NTF_LIM) 0 255 0,
     Cgstatic WNI_CFG_HT_INFO_FIELD1 (CFG_CTL_VALID OR CFG_CTL_RE OR CFG_CTL_WE OR CFG_CTL_INT OR CFG_CTL_RESTART OR CFG_CTL_NTF_LIM) 0 255 15,
     Cgstatic WNI_CFG_HT_INFO_FIELD2 (CFG_CTL_VALID OR CFG_CTL_RE OR CFG_CTL_WE OR CFG_CTL_INT OR CFG_CTL_SAVE OR CFG_CTL_NTF_LIM) 0 65535 0,
     Cgstatic WNI_CFG_HT_INFO_FIELD3 (CFG_CTL_VALID OR CFG_CTL_RE OR CFG_CTL_WE OR CFG_CTL_INT OR CFG_CTL_SAVE OR CFG_CTL_NTF_LIM) 0 65535 0,
     Cgstatic WNI_CFG_BASIC_MCS_SET (CFG_CTL_VALID OR CFG_CTL_RE OR CFG_CTL_WE OR CFG_CTL_SAVE OR CFG_CTL_RESTART OR CFG_CTL_NTF_LIM) 0 0 0,
     Cgstatic WNI_CFG_CURRENT_MCS_SET (CFG_CTL_VALID OR CFG_CTL_RE OR CFG_CTL_WE OR CFG_CTL_SAVE OR CFG_CTL_RESTART OR CFG_CTL_NTF_LIM) 0 0 0,
     Cgstatic WNI_CFG_VHT_MAX_MPDU_LENGTH (CFG_CTL_VALID OR CFG_CTL_RE OR CFG_CTL_WE OR CFG_CTL_INT OR CFG_CTL_NTF_LIM) 0 2 0,
     Cgstatic WNI_CFG_VHT_SUPPORTED_CHAN_WIDTH_SET (CFG_CTL_VALID OR CFG_CTL_RE OR CFG_CTL_WE OR CFG_CTL_INT OR CFG_CTL_NTF_LIM) 0 2 2]"

definition cfg_static_5 :: "cgstatic list" where
  "cfg_static_5 =
    [Cgstatic WNI_CFG_VHT_LDPC_CODING_CAP (CFG_CTL_VALID OR CFG_CTL_RE OR CFG_CTL_WE OR CFG_CTL_INT OR CFG_CTL_NTF_LIM) 0 1 0,
     Cgstatic WNI_CFG_VHT_SHORT_GI_80MHZ (CFG_CTL_VALID OR CFG_CTL_RE OR CFG_CTL_WE OR CFG_CTL_INT OR CFG_CTL_NTF_LIM) 0 1 1,
     Cgstatic WNI_CFG_VHT_SHORT_GI_160_AND_80_PLUS_80MHZ (CFG_CTL_VALID OR CFG_CTL_RE OR CFG_CTL_WE OR CFG_CTL_INT OR CFG_CTL_NTF_LIM) 0 1 1,
     Cgstatic WNI_CFG_VHT_TXSTBC (CFG_CTL_VALID OR CFG_CTL_RE OR CFG_CTL_WE OR CFG_CTL_INT OR CFG_CTL_NTF_LIM) 0 1 0,
     Cgstatic WNI_CFG_VHT_RXSTBC (CFG_CTL_VALID OR CFG_CTL_RE OR CFG_CTL_WE OR CFG_CTL_INT OR CFG_CTL_NTF_LIM) 0 1 1,
     Cgstatic WNI_CFG_VHT_SU_BEAMFORMER_CAP (CFG_CTL_VALID OR CFG_CTL_RE OR CFG_CTL_WE OR CFG_CTL_INT OR CFG_CTL_NTF_LIM) 0 1 0,
     Cgstatic WNI_CFG_VHT_SU_BEAMFORMEE_CAP (CFG_CTL_VALID OR CFG_CTL_RE OR CFG_CTL_WE OR CFG_CTL_INT OR CFG_CTL_NTF_LIM) 0 1 1,
     Cgstatic WNI_CFG_VHT_CSN_BEAMFORMEE_ANT_SUPPORTED (CFG_CTL_VALID OR CFG_CTL_RE OR CFG_CTL_WE OR CFG_CTL_INT OR CFG_CTL_NTF_LIM) 0 4 0,
     Cgstatic WNI_CFG_VHT_NUM_SOUNDING_DIMENSIONS (CFG_CTL_VALID OR CFG_CTL_RE OR CFG_CTL_WE OR CFG_CTL_INT OR CFG_CTL_NTF_LIM) 0 3 0,
     Cgstatic WNI_CFG_VHT_MU_BEAMFORMER_CAP (CFG_CTL_VALID OR CFG_CTL_RE OR CFG_CTL_WE OR CFG_CTL_INT OR CFG_CTL_NTF_LIM) 0 1 0,
     Cgstatic WNI_CFG_VHT_MU_BEAMFORMEE_CAP (CFG_CTL_VALID OR CFG_CTL_RE OR CFG_CTL_WE OR CFG_CTL_INT OR CFG_CTL_NTF_LIM) 0 1 0,
     Cgstatic WNI_CFG_VHT_TXOP_PS (CFG_CTL_VALID OR CFG_CTL_RE OR CFG_CTL_WE OR CFG_CTL_INT OR CFG_CTL_NTF_LIM) 0 1 0,
     Cgstatic WNI_CFG_VHT_HTC_VHTC_CAP (CFG_CTL_VALID OR CFG_CTL_RE OR CFG_CTL_WE OR CFG_CTL_INT OR CFG_CTL_NTF_LIM) 0 1 0,
     Cgstatic WNI_CFG_VHT_AMPDU_LEN_EXPONENT (CFG_CTL_VALID OR CFG_CTL_RE OR CFG_CTL_WE OR CFG_CTL_INT OR CFG_CTL_NTF_LIM) 0 7 3,
     Cgstatic WNI_CFG_VHT_LINK_ADAPTATION_CAP (CFG_CTL_VALID OR CFG_CTL_RE OR CFG_CTL_WE OR CFG_CTL_INT OR CFG_CTL_NTF_LIM) 0 3 0,
     Cgstatic WNI_CFG_VHT_RX_ANT_PATTERN (CFG_CTL_VALID OR CFG_CTL_RE OR CFG_CTL_WE OR CFG_CTL_INT OR CFG_CTL_NTF_LIM) 0 1 1,
     Cgstatic WNI_CFG_VHT_TX_ANT_PATTERN (CFG_CTL_VALID OR CFG_CTL_RE OR CFG_CTL_WE OR CFG_CTL_INT OR CFG_CTL_NTF_LIM) 0 1 1,
     Cgstatic WNI_CFG_VHT_RX_MCS_MAP (CFG_CTL_VALID OR CFG_CTL_RE OR CFG_CTL_WE OR CFG_CTL_INT OR CFG_CTL_NTF_LIM) 0 65535 65534,
     Cgstatic WNI_CFG_VHT_TX_MCS_MAP (CFG_CTL_VALID OR CFG_CTL_RE OR CFG_CTL_WE OR CFG_CTL_INT OR CFG_CTL_NTF_LIM) 0 65535 65534,
     Cgstatic WNI_CFG_VHT_RX_HIGHEST_SUPPORTED_DATA_RATE (CFG_CTL_VALID OR CFG_CTL_RE OR CFG_CTL_WE OR CFG_CTL_INT OR CFG_CTL_NTF_LIM) 0 780 780,
     Cgstatic WNI_CFG_VHT_TX_HIGHEST_SUPPORTED_DATA_RATE (CFG_CTL_VALID OR CFG_CTL_RE OR CFG_CTL_WE OR CFG_CTL_INT OR CFG_CTL_NTF_LIM) 0 780 780,
     Cgstatic WNI_CFG_VHT_BASIC_MCS_SET (CFG_CTL_VALID OR CFG_CTL_RE OR CFG_CTL_WE OR CFG_CTL_INT OR CFG_CTL_NTF_LIM) 0 65535 65534,
     Cgstatic WNI_CFG_VHT_MU_MIMO_CAP_STA_COUNT (CFG_CTL_VALID OR CFG_CTL_RE OR CFG_CTL_WE OR CFG_CTL_INT OR CFG_CTL_NTF_LIM) 0 4 0,
     Cgstatic WNI_CFG_VHT_SS_UNDER_UTIL (CFG_CTL_VALID OR CFG_CTL_RE OR CFG_CTL_WE OR CFG_CTL_INT OR CFG_CTL_NTF_LIM) 0 0 0]"

definition cfg_static_6 :: "cgstatic list" where
  "cfg_static_6 =
    [Cgstatic WNI_CFG_VHT_40MHZ_UTILIZATION (CFG_CTL_VALID OR CFG_CTL_RE OR CFG_CTL_WE OR CFG_CTL_INT OR CFG_CTL_NTF_LIM) 0 0 0,
     Cgstatic WNI_CFG_VHT_80MHZ_UTILIZATION (CFG_CTL_VALID OR CFG_CTL_RE OR CFG_CTL_WE OR CFG_CTL_INT OR CFG_CTL_NTF_LIM) 0 0 0,
     Cgstatic WNI_CFG_VHT_160MHZ_UTILIZATION (CFG_CTL_VALID OR CFG_CTL_RE OR CFG_CTL_WE OR CFG_CTL_INT OR CFG_CTL_NTF_LIM) 0 0 0,
     Cgstatic WNI_CFG_MPDU_DENSITY (CFG_CTL_VALID OR CFG_CTL_RE OR CFG_CTL_WE OR CFG_CTL_INT OR CFG_CTL_RESTART OR CFG_CTL_NTF_LIM) 0 7 7,
     Cgstatic WNI_CFG_MAX_RX_AMPDU_FACTOR (CFG_CTL_VALID OR CFG_CTL_RE OR CFG_CTL_WE OR CFG_CTL_INT OR CFG_CTL_RESTART OR CFG_CTL_NTF_LIM) 0 3 3,
     Cgstatic WNI_CFG_MAX_PS_POLL (CFG_CTL_VALID OR CFG_CTL_RE OR CFG_CTL_WE OR CFG_CTL_INT OR CFG_CTL_NTF_LIM) 0 255 0,
     Cgstatic WNI_CFG_RSSI_FILTER_PERIOD (CFG_CTL_VALID OR CFG_CTL_RE OR CFG_CTL_WE OR CFG_CTL_INT OR CFG_CTL_NTF_LIM) 0 255 5,
     Cgstatic WNI_CFG_SCAN_IN_POWERSAVE (CFG_CTL_VALID OR CFG_CTL_RE OR CFG_CTL_WE OR CFG_CTL_INT OR CFG_CTL_NTF_LIM) 0 1 1,
     Cgstatic WNI_CFG_IGNORE_DTIM (CFG_CTL_VALID OR CFG_CTL_RE OR CFG_CTL_WE OR CFG_CTL_INT) 0 1 0,
     Cgstatic WNI_CFG_WOWLAN_UCAST_PATTERN_FILTER_ENABLE (CFG_CTL_VALID OR CFG_CTL_RE OR CFG_CTL_WE OR CFG_CTL_INT) 0 1 1,
     Cgstatic WNI_CFG_WOWLAN_CHANNEL_SWITCH_ENABLE (CFG_CTL_VALID OR CFG_CTL_RE OR CFG_CTL_WE OR CFG_CTL_INT) 0 1 1,
     Cgstatic WNI_CFG_WOWLAN_DEAUTH_ENABLE (CFG_CTL_VALID OR CFG_CTL_RE OR CFG_CTL_WE OR CFG_CTL_INT) 0 1 1,
     Cgstatic WNI_CFG_WOWLAN_DISASSOC_ENABLE (CFG_CTL_VALID OR CFG_CTL_RE OR CFG_CTL_WE OR CFG_CTL_INT) 0 1 1,
     Cgstatic WNI_CFG_WOWLAN_MAX_MISSED_BEACON (CFG_CTL_VALID OR CFG_CTL_RE OR CFG_CTL_WE OR CFG_CTL_INT) 0 65535 40,
     Cgstatic WNI_CFG_WOWLAN_MAX_SLEEP_PERIOD (CFG_CTL_VALID OR CFG_CTL_RE OR CFG_CTL_WE OR CFG_CTL_INT) 0 65535 65535,
     Cgstatic WNI_CFG_MAX_MEDIUM_TIME (CFG_CTL_VALID OR CFG_CTL_RE OR CFG_CTL_WE OR CFG_CTL_INT OR CFG_CTL_NTF_HAL) 0 65535 2048,
     Cgstatic WNI_CFG_IBSS_AUTO_BSSID (CFG_CTL_VALID OR CFG_CTL_RE OR CFG_CTL_WE OR CFG_CTL_INT) 0 1 1,
     Cgstatic WNI_CFG_PROBE_RSP_BCN_ADDNIE_FLAG (CFG_CTL_VALID OR CFG_CTL_RE OR CFG_CTL_WE OR CFG_CTL_INT OR CFG_CTL_NTF_LIM) 0 1 0,
     Cgstatic WNI_CFG_WPS_ENABLE (CFG_CTL_VALID OR CFG_CTL_RE OR CFG_CTL_WE OR CFG_CTL_INT OR CFG_CTL_NTF_LIM) 0 255 0,
     Cgstatic WNI_CFG_WPS_STATE (CFG_CTL_VALID OR CFG_CTL_RE OR CFG_CTL_WE OR CFG_CTL_INT OR CFG_CTL_NTF_LIM) 0 255 1,
     Cgstatic WNI_CFG_WPS_VERSION (CFG_CTL_VALID OR CFG_CTL_RE OR CFG_CTL_WE OR CFG_CTL_INT OR CFG_CTL_NTF_LIM) 0 255 16,
     Cgstatic WNI_CFG_WPS_CFG_METHOD (CFG_CTL_VALID OR CFG_CTL_RE OR CFG_CTL_WE OR CFG_CTL_INT OR CFG_CTL_NTF_LIM) 0 4294967295 8,
     Cgstatic WNI_CFG_WPS_UUID (CFG_CTL_VALID OR CFG_CTL_RE OR CFG_CTL_WE OR CFG_CTL_NTF_LIM) 0 0 0,
     Cgstatic WNI_CFG_WPS_PRIMARY_DEVICE_CATEGORY (CFG_CTL_VALID OR CFG_CTL_RE OR CFG_CTL_WE OR CFG_CTL_INT OR CFG_CTL_NTF_LIM) 0 65535 1,
     Cgstatic WNI_CFG_WPS_PIMARY_DEVICE_OUI (CFG_CTL_VALID OR CFG_CTL_RE OR CFG_CTL_WE OR CFG_CTL_INT OR CFG_CTL_NTF_LIM) 0 4294967295 5304836,
     Cgstatic WNI_CFG_WPS_DEVICE_SUB_CATEGORY (CFG_CTL_VALID OR CFG_CTL_RE OR CFG_CTL_WE OR CFG_CTL_INT OR CFG_CTL_NTF_LIM) 0 65535 1]"

definition cfg_static_7 :: "cgstatic list" where
  "cfg_static_7 =
    [Cgstatic WNI_CFG_WPS_DEVICE_PASSWORD_ID (CFG_CTL_VALID OR CFG_CTL_RE OR CFG_CTL_WE OR CFG_CTL_INT OR CFG_CTL_NTF_LIM) 0 4294967295 0,
     Cgstatic WNI_CFG_LOW_GAIN_OVERRIDE (CFG_CTL_VALID OR CFG_CTL_RE OR CFG_CTL_WE OR CFG_CTL_INT OR CFG_CTL_NTF_HAL) 0 1 0,
     Cgstatic WNI_CFG_SINGLE_TID_RC (CFG_CTL_VALID OR CFG_CTL_RE OR CFG_CTL_WE OR CFG_CTL_INT) 0 1 1,
     Cgstatic WNI_CFG_MCAST_BCAST_FILTER_SETTING (CFG_CTL_VALID OR CFG_CTL_RE OR CFG_CTL_WE OR CFG_CTL_INT OR CFG_CTL_NTF_HAL) 0 3 0,
     Cgstatic WNI_CFG_DYNAMIC_PS_POLL_VALUE (CFG_CTL_VALID OR CFG_CTL_RE OR CFG_CTL_WE OR CFG_CTL_INT OR CFG_CTL_NTF_HAL) 0 255 0,
     Cgstatic WNI_CFG_PS_NULLDATA_AP_RESP_TIMEOUT (CFG_CTL_VALID OR CFG_CTL_RE OR CFG_CTL_WE OR CFG_CTL_INT OR CFG_CTL_NTF_HAL) 0 80 0,
     Cgstatic WNI_CFG_TELE_BCN_WAKEUP_EN (CFG_CTL_VALID OR CFG_CTL_RE OR CFG_CTL_WE OR CFG_CTL_INT OR CFG_CTL_NTF_HAL) 0 1 0,
     Cgstatic WNI_CFG_TELE_BCN_TRANS_LI (CFG_CTL_VALID OR CFG_CTL_RE OR CFG_CTL_WE OR CFG_CTL_INT OR CFG_CTL_NTF_HAL) 0 7 3,
     Cgstatic WNI_CFG_TELE_BCN_TRANS_LI_IDLE_BCNS (CFG_CTL_VALID OR CFG_CTL_RE OR CFG_CTL_WE OR CFG_CTL_INT OR CFG_CTL_NTF_HAL) 5 255 10,
     Cgstatic WNI_CFG_TELE_BCN_MAX_LI (CFG_CTL_VALID OR CFG_CTL_RE OR CFG_CTL_WE OR CFG_CTL_INT OR CFG_CTL_NTF_HAL) 0 7 5,
     Cgstatic WNI_CFG_TELE_BCN_MAX_LI_IDLE_BCNS (CFG_CTL_VALID OR CFG_CTL_RE OR CFG_CTL_WE OR CFG_CTL_INT OR CFG_CTL_NTF_HAL) 5 255 15,
     Cgstatic WNI_CFG_INFRA_STA_KEEP_ALIVE_PERIOD (CFG_CTL_VALID OR CFG_CTL_RE OR CFG_CTL_WE OR CFG_CTL_INT OR CFG_CTL_NTF_HAL) 0 1000 0,
     Cgstatic WNI_CFG_ASSOC_STA_LIMIT (CFG_CTL_VALID OR CFG_CTL_RE OR CFG_CTL_WE OR CFG_CTL_INT OR CFG_CTL_NTF_LIM) 1 32 10,
     Cgstatic WNI_CFG_AP_DATA_AVAIL_POLL_PERIOD (CFG_CTL_VALID OR CFG_CTL_RE OR CFG_CTL_WE OR CFG_CTL_INT) 0 65535 5,
     Cgstatic WNI_CFG_ENABLE_LTE_COEX (CFG_CTL_VALID OR CFG_CTL_RE OR CFG_CTL_WE OR CFG_CTL_INT) 0 1 0,
     Cgstatic WNI_CFG_AP_KEEP_ALIVE_TIMEOUT (CFG_CTL_VALID OR CFG_CTL_RE OR CFG_CTL_WE OR CFG_CTL_INT OR CFG_CTL_NTF_HAL) 1 65535 20,
     Cgstatic WNI_CFG_GO_KEEP_ALIVE_TIMEOUT (CFG_CTL_VALID OR CFG_CTL_RE OR CFG_CTL_WE OR CFG_CTL_INT OR CFG_CTL_NTF_HAL) 1 65535 20,
     Cgstatic WNI_CFG_ENABLE_MC_ADDR_LIST (CFG_CTL_VALID OR CFG_CTL_RE OR CFG_CTL_WE OR CFG_CTL_INT OR CFG_CTL_NTF_HAL) 0 1 0,
     Cgstatic WNI_CFG_ENABLE_LPWR_IMG_TRANSITION (CFG_CTL_VALID OR CFG_CTL_RE OR CFG_CTL_WE OR CFG_CTL_INT) 0 1 0,
     Cgstatic WNI_CFG_ENABLE_MCC_ADAPTIVE_SCHED (CFG_CTL_VALID OR CFG_CTL_RE OR CFG_CTL_WE OR CFG_CTL_INT) 0 1 0,
     Cgstatic WNI_CFG_DISABLE_LDPC_WITH_TXBF_AP (CFG_CTL_VALID OR CFG_CTL_RE OR CFG_CTL_WE OR CFG_CTL_INT) 0 1 0,
     Cgstatic WNI_CFG_AP_LINK_MONITOR_TIMEOUT (CFG_CTL_VALID OR CFG_CTL_RE OR CFG_CTL_WE OR CFG_CTL_INT OR CFG_CTL_NTF_HAL) 1 255 3,
     Cgstatic WNI_CFG_TDLS_QOS_WMM_UAPSD_MASK (CFG_CTL_VALID OR CFG_CTL_RE OR CFG_CTL_WE OR CFG_CTL_INT OR CFG_CTL_NTF_LIM) 0 15 0,
     Cgstatic WNI_CFG_TDLS_BUF_STA_ENABLED (CFG_CTL_VALID OR CFG_CTL_RE OR CFG_CTL_WE OR CFG_CTL_INT OR CFG_CTL_NTF_LIM) 0 1 0,
     Cgstatic WNI_CFG_TDLS_PUAPSD_INACT_TIME (CFG_CTL_VALID OR CFG_CTL_RE OR CFG_CTL_WE OR CFG_CTL_INT OR CFG_CTL_NTF_LIM) 0 10 0]"

definition cfg_static_8 :: "cgstatic list" where
  "cfg_static_8 =
    [Cgstatic WNI_CFG_TDLS_RX_FRAME_THRESHOLD (CFG_CTL_VALID OR CFG_CTL_RE OR CFG_CTL_WE OR CFG_CTL_INT OR CFG_CTL_NTF_LIM) 10 20 10,
     Cgstatic WNI_CFG_PMF_SA_QUERY_MAX_RETRIES (CFG_CTL_VALID OR CFG_CTL_RE OR CFG_CTL_WE OR CFG_CTL_INT OR CFG_CTL_RESTART) 0 20 5,
     Cgstatic WNI_CFG_PMF_SA_QUERY_RETRY_INTERVAL (CFG_CTL_VALID OR CFG_CTL_RE OR CFG_CTL_WE OR CFG_CTL_INT OR CFG_CTL_RESTART) 10 2000 200,
     Cgstatic WNI_CFG_ENABLE_ADAPT_RX_DRAIN (CFG_CTL_VALID OR CFG_CTL_RE OR CFG_CTL_WE OR CFG_CTL_INT OR CFG_CTL_NTF_HAL) 0 1 1,
     Cgstatic WNI_CFG_ANTENNA_DIVESITY (CFG_CTL_VALID OR CFG_CTL_RE OR CFG_CTL_WE OR CFG_CTL_INT OR CFG_CTL_NTF_HAL) 0 3 0,
     Cgstatic WNI_CFG_GO_LINK_MONITOR_TIMEOUT (CFG_CTL_VALID OR CFG_CTL_RE OR CFG_CTL_WE OR CFG_CTL_INT OR CFG_CTL_NTF_HAL) 3 50 10,
     Cgstatic WNI_CFG_RMC_ACTION_PERIOD_FREQUENCY (CFG_CTL_VALID OR CFG_CTL_RE OR CFG_CTL_WE OR CFG_CTL_INT OR CFG_CTL_NTF_HAL) 100 1000 300,
     Cgstatic WNI_CFG_CURRENT_RSSI (CFG_CTL_VALID OR CFG_CTL_RE OR CFG_CTL_WE OR CFG_CTL_INT) 0 127 0,
     Cgstatic WNI_CFG_RTT3_ENABLE (CFG_CTL_VALID OR CFG_CTL_RE OR CFG_CTL_WE OR CFG_CTL_INT) 0 1 1,
     Cgstatic WNI_CFG_DEBUG_P2P_REMAIN_ON_CHANNEL (CFG_CTL_VALID OR CFG_CTL_RE OR CFG_CTL_WE OR CFG_CTL_INT) 0 1 0,
     Cgstatic WNI_CFG_TDLS_OFF_CHANNEL_ENABLED (CFG_CTL_VALID OR CFG_CTL_RE OR CFG_CTL_WE OR CFG_CTL_INT OR CFG_CTL_NTF_LIM) 0 1 0,
     Cgstatic WNI_CFG_IBSS_ATIM_WIN_SIZE (CFG_CTL_VALID OR CFG_CTL_RE OR CFG_CTL_WE OR CFG_CTL_INT) 0 100 0,
     Cgstatic WNI_CFG_DFS_MASTER_ENABLED (CFG_CTL_VALID OR CFG_CTL_RE OR CFG_CTL_WE OR CFG_CTL_INT) 0 1 0,
     Cgstatic WNI_CFG_VHT_ENABLE_TXBF_20MHZ (CFG_CTL_VALID OR CFG_CTL_RE OR CFG_CTL_WE OR CFG_CTL_INT) 0 1 0,
     Cgstatic WNI_CFG_TDLS_WMM_MODE_ENABLED (CFG_CTL_VALID OR CFG_CTL_RE OR CFG_CTL_WE OR CFG_CTL_INT OR CFG_CTL_NTF_LIM) 0 1 0,
     Cgstatic WNI_CFG_OBSS_HT40_SCAN_PASSIVE_DWELL_TIME (CFG_CTL_VALID OR CFG_CTL_RE OR CFG_CTL_WE OR CFG_CTL_INT OR CFG_CTL_NTF_LIM) 5 1000 20,
     Cgstatic WNI_CFG_OBSS_HT40_SCAN_ACTIVE_DWELL_TIME (CFG_CTL_VALID OR CFG_CTL_RE OR CFG_CTL_WE OR CFG_CTL_INT OR CFG_CTL_NTF_LIM) 10 1000 10,
     Cgstatic WNI_CFG_OBSS_HT40_SCAN_WIDTH_TRIGGER_INTERVAL (CFG_CTL_VALID OR CFG_CTL_RE OR CFG_CTL_WE OR CFG_CTL_INT OR CFG_CTL_NTF_LIM) 10 900 200,
     Cgstatic WNI_CFG_OBSS_HT40_SCAN_PASSIVE_TOTAL_PER_CHANNEL (CFG_CTL_VALID OR CFG_CTL_RE OR CFG_CTL_WE OR CFG_CTL_INT OR CFG_CTL_NTF_LIM) 200 10000 200,
     Cgstatic WNI_CFG_OBSS_HT40_SCAN_ACTIVE_TOTAL_PER_CHANNEL (CFG_CTL_VALID OR CFG_CTL_RE OR CFG_CTL_WE OR CFG_CTL_INT OR CFG_CTL_NTF_LIM) 20 10000 20,
     Cgstatic WNI_CFG_OBSS_HT40_WIDTH_CH_TRANSITION_DELAY (CFG_CTL_VALID OR CFG_CTL_RE OR CFG_CTL_WE OR CFG_CTL_INT OR CFG_CTL_NTF_LIM) 5 100 5,
     Cgstatic WNI_CFG_OBSS_HT40_SCAN_ACTIVITY_THRESHOLD (CFG_CTL_VALID OR CFG_CTL_RE OR CFG_CTL_WE OR CFG_CTL_INT OR CFG_CTL_NTF_LIM) 0 100 25,
     Cgstatic WNI_CFG_TGT_GTX_USR_CFG (CFG_CTL_VALID OR CFG_CTL_RE OR CFG_CTL_WE OR CFG_CTL_INT) 0 32 32,
     Cgstatic WNI_CFG_MAX_HT_MCS_TX_DATA (CFG_CTL_VALID OR CFG_CTL_RE OR CFG_CTL_WE OR CFG_CTL_INT) 0 383 0,
     Cgstatic WNI_CFG_DISABLE_ABG_RATE_FOR_TX_DATA (CFG_CTL_VALID OR CFG_CTL_RE OR CFG_CTL_WE OR CFG_CTL_INT) 0 1 0,
     Cgstatic WNI_CFG_RATE_FOR_TX_MGMT (CFG_CTL_VALID OR CFG_CTL_RE OR CFG_CTL_WE OR CFG_CTL_INT) 0 255 255]"

definition cfg_static_9 :: "cgstatic list" where
  "cfg_static_9 =
    [Cgstatic WNI_CFG_PS_WOW_DATA_INACTIVITY_TIMEOUT (CFG_CTL_VALID OR CFG_CTL_RE OR CFG_CTL_WE OR CFG_CTL_INT OR CFG_CTL_NTF_HAL) 1 255 50]"

definition cfg_static :: "cgstatic list" where
  "cfg_static = cfg_static_1 @ cfg_static_2 @ cfg_static_3 @ cfg_static_4 @ cfg_static_5 @ cfg_static_6 @ cfg_static_7 @ cfg_static_8 @ cfg_static_9"

section \<open>The default strings\<close>

text \<open>\<open>cfgstatic_string\<close>: number, maximal length, length and bytes; the bytes after the given ones are zero. The entries of the
  array of 70 that have no initialiser are zero.\<close>

datatype cfgstatic_string = Cfgstatic_string (ss_cfgId: nat) (ss_maxLen: u8) (ss_length: u8) (ss_data: "u8 list")

definition cfg_static_string_1 :: "cfgstatic_string list" where
  "cfg_static_string_1 =
    [Cfgstatic_string WNI_CFG_STA_ID 6 6
       [34, 34, 68, 68, 51, 51],
     Cfgstatic_string WNI_CFG_SSID 32 10
       [1, 2, 3, 4, 5, 6, 7, 8, 9, 0],
     Cfgstatic_string WNI_CFG_WEP_DEFAULT_KEY_1 13 0
       [0],
     Cfgstatic_string WNI_CFG_WEP_DEFAULT_KEY_2 13 0
       [0],
     Cfgstatic_string WNI_CFG_WEP_DEFAULT_KEY_3 13 0
       [0],
     Cfgstatic_string WNI_CFG_WEP_DEFAULT_KEY_4 13 0
       [0],
     Cfgstatic_string WNI_CFG_SUPPORTED_RATES_11B 4 4
       [2, 4, 11, 22],
     Cfgstatic_string WNI_CFG_SUPPORTED_RATES_11A 8 8
       [12, 18, 24, 36, 48, 72, 96, 108],
     Cfgstatic_string WNI_CFG_OPERATIONAL_RATE_SET 12 0
       [0],
     Cfgstatic_string WNI_CFG_EXTENDED_OPERATIONAL_RATE_SET 8 0
       [0],
     Cfgstatic_string WNI_CFG_PROPRIETARY_OPERATIONAL_RATE_SET 4 4
       [1, 3, 5, 7],
     Cfgstatic_string WNI_CFG_VALID_CHANNEL_LIST 100 55
       [36, 40, 44, 48, 52, 56, 60, 64, 1, 6, 11, 34, 38, 42, 46, 2, 3, 4, 5, 7, 8, 9, 10, 12, 13, 14, 100, 104, 108, 112, 116, 120, 124, 128, 132, 136, 140, 149, 151, 153, 155, 157, 159, 161, 50, 54, 58, 62, 240, 242, 244, 246, 248, 250, 252],
     Cfgstatic_string WNI_CFG_MANUFACTURER_NAME 64 8
       [81, 117, 97, 108, 99, 111, 109, 109],
     Cfgstatic_string WNI_CFG_MODEL_NUMBER 32 6
       [77, 78, 49, 50, 51, 52],
     Cfgstatic_string WNI_CFG_MODEL_NAME 32 7
       [87, 70, 82, 52, 48, 51, 49],
     Cfgstatic_string WNI_CFG_MANUFACTURER_PRODUCT_NAME 32 6
       [49, 49, 110, 45, 65, 80],
     Cfgstatic_string WNI_CFG_MANUFACTURER_PRODUCT_VERSION 32 6
       [83, 78, 49, 50, 51, 52],
     Cfgstatic_string WNI_CFG_MAX_TX_POWER_2_4 128 3
       [1, 14, 20],
     Cfgstatic_string WNI_CFG_MAX_TX_POWER_5 128 3
       [36, 126, 20],
     Cfgstatic_string WNI_CFG_COUNTRY_CODE 3 0
       [0],
     Cfgstatic_string WNI_CFG_EDCA_ANI_ACBK_LOCAL 20 17
       [0, 7, 0, 15, 3, 255, 0, 0, 31, 3, 255, 0, 0, 15, 3, 255, 0],
     Cfgstatic_string WNI_CFG_EDCA_ANI_ACBE_LOCAL 20 17
       [0, 2, 0, 15, 3, 255, 100, 0, 31, 3, 255, 100, 0, 15, 3, 255, 100],
     Cfgstatic_string WNI_CFG_EDCA_ANI_ACVI_LOCAL 20 17
       [0, 2, 0, 7, 0, 15, 200, 0, 15, 0, 31, 188, 0, 7, 0, 15, 200],
     Cfgstatic_string WNI_CFG_EDCA_ANI_ACVO_LOCAL 20 17
       [0, 2, 0, 3, 0, 7, 100, 0, 7, 0, 15, 102, 0, 3, 0, 7, 100],
     Cfgstatic_string WNI_CFG_EDCA_ANI_ACBK 20 17
       [0, 7, 0, 15, 3, 255, 0, 0, 31, 3, 255, 0, 0, 15, 3, 255, 0],
     Cfgstatic_string WNI_CFG_EDCA_ANI_ACBE 20 17
       [0, 2, 0, 15, 3, 255, 100, 0, 31, 3, 255, 100, 0, 15, 3, 255, 100],
     Cfgstatic_string WNI_CFG_EDCA_ANI_ACVI 20 17
       [0, 2, 0, 7, 0, 15, 200, 0, 15, 0, 31, 188, 0, 7, 0, 15, 200],
     Cfgstatic_string WNI_CFG_EDCA_ANI_ACVO 20 17
       [0, 2, 0, 3, 0, 7, 100, 0, 7, 0, 15, 102, 0, 3, 0, 7, 100],
     Cfgstatic_string WNI_CFG_EDCA_WME_ACBK_LOCAL 20 17
       [0, 7, 0, 15, 3, 255, 0, 0, 31, 3, 255, 0, 0, 15, 3, 255, 0],
     Cfgstatic_string WNI_CFG_EDCA_WME_ACBE_LOCAL 20 17
       [0, 3, 0, 15, 0, 63, 0, 0, 31, 3, 255, 0, 0, 15, 0, 63, 0],
     Cfgstatic_string WNI_CFG_EDCA_WME_ACVI_LOCAL 20 17
       [0, 1, 0, 7, 0, 15, 94, 0, 7, 0, 15, 188, 0, 7, 0, 15, 94],
     Cfgstatic_string WNI_CFG_EDCA_WME_ACVO_LOCAL 20 17
       [0, 1, 0, 3, 0, 7, 47, 0, 3, 0, 7, 102, 0, 3, 0, 7, 47],
     Cfgstatic_string WNI_CFG_EDCA_WME_ACBK 20 17
       [0, 7, 0, 15, 3, 255, 0, 0, 15, 3, 255, 0, 0, 15, 3, 255, 0]]"

definition cfg_static_string_2 :: "cfgstatic_string list" where
  "cfg_static_string_2 =
    [Cfgstatic_string WNI_CFG_EDCA_WME_ACBE 20 17
       [0, 3, 0, 15, 3, 255, 0, 0, 15, 3, 255, 0, 0, 15, 3, 255, 0],
     Cfgstatic_string WNI_CFG_EDCA_WME_ACVI 20 17
       [0, 2, 0, 7, 0, 15, 94, 0, 7, 0, 15, 188, 0, 7, 0, 15, 94],
     Cfgstatic_string WNI_CFG_EDCA_WME_ACVO 20 17
       [0, 2, 0, 3, 0, 7, 47, 0, 3, 0, 7, 102, 0, 3, 0, 7, 47],
     Cfgstatic_string WNI_CFG_SCAN_CONTROL_LIST 128 114
       [1, 1, 2, 1, 3, 1, 4, 1, 5, 1, 6, 1, 7, 1, 8, 1, 9, 1, 10, 1, 11, 1, 12, 1, 13, 1, 14, 1, 34, 1, 36, 1, 38, 1, 40, 1, 42, 1, 44, 1, 46, 1, 48, 1, 50, 1, 52, 0, 54, 0, 56, 0, 58, 0, 60, 0, 62, 0, 64, 0, 100, 0, 104, 0, 108, 0, 112, 0, 116, 0, 120, 0, 124, 0, 128, 0, 132, 0, 136, 0, 140, 0, 144, 0, 149, 1, 151, 1, 153, 1, 155, 1, 157, 1, 159, 1, 161, 1, 165, 1, 240, 1, 242, 1, 244, 1, 246, 1, 248, 1, 250, 1, 252, 1],
     Cfgstatic_string WNI_CFG_SUPPORTED_MCS_SET 16 16
       [255, 0, 0, 0, 0, 0, 0, 0, 0, 0, 0, 0, 0, 0, 0, 0],
     Cfgstatic_string WNI_CFG_BASIC_MCS_SET 16 16
       [0, 0, 0, 0, 0, 0, 0, 0, 0, 0, 0, 0, 0, 0, 0, 0],
     Cfgstatic_string WNI_CFG_CURRENT_MCS_SET 16 16
       [0, 0, 0, 0, 0, 0, 0, 0, 0, 0, 0, 0, 0, 0, 0, 0],
     Cfgstatic_string WNI_CFG_WPS_UUID 16 6
       [10, 11, 12, 13, 14, 15]]"

definition CFG_MAX_STATIC_STRING :: nat where "CFG_MAX_STATIC_STRING = 70"

definition cfg_static_string :: "cfgstatic_string list" where
  "cfg_static_string = (let given = cfg_static_string_1 @ cfg_static_string_2 in
     given @ replicate (CFG_MAX_STATIC_STRING - length given) (Cfgstatic_string 0 0 0 []))"

end
