(* ===== verification/Cfg_Store.thy ===== *)
theory Cfg_Store
  imports Cfg_Tables Arrays
begin

text \<open>
  The configuration store of the MAC layer, \<open>core/mac/src/cfg/cfg_api.c\<close>, with its download from the built-in tables
  (\<open>process_cfg_download_req\<close> of \<open>cfg_proc_msg.c\<close>). The integers are in one array, with arrays of minima and maxima; the strings
  follow one another in a byte array, each as its maximal length, its length and its bytes. An access outside an array is \<open>None\<close>;
  the four arrays are parts of one block of memory in the code.
\<close>

unbundle bit_operations_syntax

section \<open>State\<close>

datatype cfg_status = CFG_INCOMPLETE | CFG_SUCCESS | CFG_FAILURE

text \<open>Of \<open>tSirRetStatus\<close>; \<open>eSIR_CFG_OK\<close> is \<open>eSIR_SUCCESS\<close>.\<close>

datatype cfg_ret = eSIR_CFG_OK | eSIR_CFG_INVALID_ID | eSIR_CFG_INVALID_LEN | eSIR_MEM_ALLOC_FAILED

text \<open>
  What the store sends: the update of a parameter to the scheduler, LIM and WMA, a message to the host (its type, its length, its parameters and
  its data), and the end of a download to WMA.
\<close>

datatype cfg_event =
  PostSch nat | PostLim nat | PostWma nat | HostMsg nat u16 "u32 list" "u32 list" | DownloadComplete

text \<open>
  \<open>struct sAniSirCfg\<close>. \<open>cfg_entry\<close> and \<open>s_buffer\<close> are the static arrays that \<open>gCfgEntry\<close> and \<open>gSBuffer\<close> point to once \<open>attached\<close>
  holds; \<open>pStrData\<close> gives for each parameter its entry in the array of strings. \<open>gCfgLogLevel\<close> is the value the entries of both log
  level arrays have.
\<close>

record cfg_state =
  gCfgStatus :: cfg_status
  attached :: bool
  cfg_entry :: "u32 list"
  s_buffer :: "u8 list"
  pStrData :: "nat option list"
  gCfgSBuf :: "u8 list"
  gCfgIBuf :: "u32 list"
  gCfgIBufMin :: "u32 list"
  gCfgIBufMax :: "u32 list"
  gCfgMaxIBufSize :: u16
  gCfgMaxSBufSize :: u16
  gCfgLogLevel :: u32
  cfg_sent :: "cfg_event list"

definition CFG_MAX_STR_LEN :: nat where "CFG_MAX_STR_LEN = 256"

section \<open>Creation\<close>

definition cfg_get_strindex :: "nat \<Rightarrow> nat option" where
  "cfg_get_strindex cfgId = find (\<lambda>i. cfgId = ss_cfgId (cfg_static_string ! i)) [0..<CFG_MAX_STATIC_STRING]"

text \<open>The two counts of \<open>cfg_init\<close>.\<close>

fun count_params :: "nat option list \<Rightarrow> nat list \<Rightarrow> u32 \<times> u32 \<Rightarrow> u32 \<times> u32" where
  "count_params strs [] (max_i, max_s) = (max_i, max_s)"
| "count_params strs (i # is) (max_i, max_s) =
     (if cs_control (cfg_static ! i) AND CFG_CTL_INT \<noteq> 0 then count_params strs is (max_i + 1, max_s)
      else case strs ! i of
        None \<Rightarrow> count_params strs is (max_i, max_s)
      | Some k \<Rightarrow> count_params strs is (max_i, max_s + ucast (ss_maxLen (cfg_static_string ! k)) + 2))"

text \<open>\<open>mem\<close>: the four arrays in the block that is allocated, or \<open>None\<close>. \<open>page_size\<close> is a constant of the kernel.\<close>

definition cfg_init ::
    "nat \<Rightarrow> (nat \<Rightarrow> nat \<Rightarrow> (u8 list \<times> u32 list \<times> u32 list \<times> u32 list) option) \<Rightarrow> cfg_state \<Rightarrow> cfg_state \<times> cfg_ret" where
  "cfg_init page_size mem st =
     (let strs = map (\<lambda>i. if cs_control (cfg_static ! i) AND CFG_CTL_INT = 0 then cfg_get_strindex i else None) [0..<CFG_PARAM_MAX_NUM];
          (max_i, max_s) = count_params strs [0..<CFG_PARAM_MAX_NUM] (0, 0);
          st = st\<lparr>attached := True, pStrData := strs, gCfgMaxIBufSize := ucast max_i, gCfgMaxSBufSize := ucast max_s\<rparr>;
          combined_buff_size = (ucast (max_s + 3 * 4 * max_i) :: u16)
      in if unat combined_buff_size > 4 * page_size then (st, eSIR_MEM_ALLOC_FAILED)
         else case mem (unat max_s) (unat max_i) of
           None \<Rightarrow> (st\<lparr>gCfgSBuf := []\<rparr>, eSIR_MEM_ALLOC_FAILED)
         | Some (sbuf, ibuf, imin, imax) \<Rightarrow>
             (st\<lparr>gCfgSBuf := sbuf, gCfgIBuf := ibuf, gCfgIBufMin := imin, gCfgIBufMax := imax\<rparr>, eSIR_CFG_OK))"

definition cfg_de_init :: "cfg_state \<Rightarrow> cfg_state" where
  "cfg_de_init st = st\<lparr>attached := False, gCfgSBuf := [], gCfgIBuf := [], gCfgIBufMin := [], gCfgIBufMax := []\<rparr>"

definition cfg_cleanup :: "cfg_state \<Rightarrow> cfg_state" where
  "cfg_cleanup st = st\<lparr>gCfgStatus := CFG_INCOMPLETE\<rparr>"

section \<open>Access\<close>

definition cfg_check_valid :: "nat \<Rightarrow> cfg_state \<Rightarrow> cfg_ret + nat" where
  "cfg_check_valid cfgId st =
     (if cfgId \<ge> CFG_PARAM_MAX_NUM then Inl eSIR_CFG_INVALID_ID
      else if \<not> attached st then Inl eSIR_CFG_INVALID_ID
      else let control = cfg_entry st ! cfgId in
        if control AND CFG_CTL_VALID = 0 then Inl eSIR_CFG_INVALID_ID
        else let index = unat (control AND CFG_BUF_INDX_MASK) in
          if index \<ge> unat (gCfgMaxSBufSize st) then Inl eSIR_CFG_INVALID_ID else Inr index)"

definition cfg_need_restart :: "nat \<Rightarrow> cfg_state \<Rightarrow> bool option" where
  "cfg_need_restart cfgId st =
     (if \<not> attached st then Some False else map_option (\<lambda>control. control AND CFG_CTL_RESTART \<noteq> 0) (entry (cfg_entry st) cfgId))"

definition cfg_need_reload :: "nat \<Rightarrow> cfg_state \<Rightarrow> bool option" where
  "cfg_need_reload cfgId st =
     (if \<not> attached st then Some False else map_option (\<lambda>control. control AND CFG_CTL_RELOAD \<noteq> 0) (entry (cfg_entry st) cfgId))"

definition cfg_notify :: "nat \<Rightarrow> u32 \<Rightarrow> cfg_state \<Rightarrow> cfg_state" where
  "cfg_notify cfgId ntfMask st = st\<lparr>cfg_sent := cfg_sent st @
     (if ntfMask AND CFG_CTL_NTF_SCH \<noteq> 0 then [PostSch cfgId] else []) @
     (if ntfMask AND CFG_CTL_NTF_LIM \<noteq> 0 then [PostLim cfgId] else []) @
     (if ntfMask AND CFG_CTL_NTF_HAL \<noteq> 0 then [PostWma cfgId] else [])\<rparr>"

definition cfg_set_int :: "nat \<Rightarrow> u32 \<Rightarrow> cfg_state \<Rightarrow> (cfg_state \<times> cfg_ret) option" where
  "cfg_set_int cfgId val st =
     (case cfg_check_valid cfgId st of
        Inl e \<Rightarrow> Some (st, e)
      | Inr index \<Rightarrow>
          do { lo \<leftarrow> entry (gCfgIBufMin st) index;
               if lo > val then Some (st, eSIR_CFG_INVALID_ID)
               else do { hi \<leftarrow> entry (gCfgIBufMax st) index;
                 if hi < val then Some (st, eSIR_CFG_INVALID_ID)
                 else do { ibuf \<leftarrow> put (gCfgIBuf st) index val;
                   let st = st\<lparr>gCfgIBuf := ibuf\<rparr>;
                   let mask = (cfg_entry st ! cfgId) AND CFG_CTL_NTF_MASK;
                   Some (if mask AND CFG_CTL_NTF_MASK \<noteq> 0 then cfg_notify cfgId mask st else st, eSIR_CFG_OK) } } })"

definition wlan_cfg_get_int :: "nat \<Rightarrow> cfg_state \<Rightarrow> (cfg_ret + u32) option" where
  "wlan_cfg_get_int cfgId st =
     (case cfg_check_valid cfgId st of
        Inl e \<Rightarrow> Some (Inl e)
      | Inr index \<Rightarrow> map_option Inr (entry (gCfgIBuf st) index))"

text \<open>\<open>bytes\<close> is the memory the caller passes, of which \<open>len\<close> bytes are stored.\<close>

definition cfg_set_str_notify :: "nat \<Rightarrow> u8 list \<Rightarrow> nat \<Rightarrow> bool \<Rightarrow> cfg_state \<Rightarrow> (cfg_state \<times> cfg_ret) option" where
  "cfg_set_str_notify cfgId bytes len notifyMod st =
     (case cfg_check_valid cfgId st of
        Inl e \<Rightarrow> Some (st, e)
      | Inr index \<Rightarrow>
          do { paramLen \<leftarrow> entry (gCfgSBuf st) index;
               if len > unat paramLen then Some (st, eSIR_CFG_INVALID_LEN)
               else do { sbuf \<leftarrow> put (gCfgSBuf st) (index + 1) (of_nat len);
                 sbuf \<leftarrow> mem_copy sbuf (index + 2) bytes len;
                 let st = st\<lparr>gCfgSBuf := sbuf\<rparr>;
                 let mask = (cfg_entry st ! cfgId) AND CFG_CTL_NTF_MASK;
                 Some (if notifyMod \<and> mask AND CFG_CTL_NTF_MASK \<noteq> 0 then cfg_notify cfgId mask st else st, eSIR_CFG_OK) } })"

definition cfg_set_str :: "nat \<Rightarrow> u8 list \<Rightarrow> nat \<Rightarrow> cfg_state \<Rightarrow> (cfg_state \<times> cfg_ret) option" where
  "cfg_set_str cfgId bytes len st = cfg_set_str_notify cfgId bytes len True st"

text \<open>The bytes written to the buffer of the caller, which has room for \<open>pLength\<close>.\<close>

definition wlan_cfg_get_str :: "nat \<Rightarrow> nat \<Rightarrow> cfg_state \<Rightarrow> (cfg_ret + u8 list) option" where
  "wlan_cfg_get_str cfgId pLength st =
     (case cfg_check_valid cfgId st of
        Inl e \<Rightarrow> Some (Inl e)
      | Inr index \<Rightarrow>
          do { cur \<leftarrow> entry (gCfgSBuf st) (index + 1);
               if pLength < unat cur then Some (Inl eSIR_CFG_INVALID_LEN)
               else map_option Inr (mem_read (gCfgSBuf st) (index + 2) (unat cur)) })"

definition wlan_cfg_get_str_max_len :: "nat \<Rightarrow> cfg_state \<Rightarrow> (cfg_ret + nat) option" where
  "wlan_cfg_get_str_max_len cfgId st =
     (case cfg_check_valid cfgId st of
        Inl e \<Rightarrow> Some (Inl e)
      | Inr index \<Rightarrow> map_option (\<lambda>b. Inr (unat b)) (entry (gCfgSBuf st) index))"

definition wlan_cfg_get_str_len :: "nat \<Rightarrow> cfg_state \<Rightarrow> (cfg_ret + nat) option" where
  "wlan_cfg_get_str_len cfgId st =
     (case cfg_check_valid cfgId st of
        Inl e \<Rightarrow> Some (Inl e)
      | Inr index \<Rightarrow> map_option (\<lambda>b. Inr (unat b)) (entry (gCfgSBuf st) (index + 1)))"

section \<open>The download of the built-in tables\<close>

text \<open>The first loop: the flags of a parameter with its index. The counters have 32 bits.\<close>

fun dnld_entries :: "nat option list \<Rightarrow> nat list \<Rightarrow> u32 \<Rightarrow> u32 \<Rightarrow> u32 list \<Rightarrow> u32 list option" where
  "dnld_entries strs [] iCount sCount ctl = Some ctl"
| "dnld_entries strs (i # is) iCount sCount ctl =
     (let control = cs_control (cfg_static ! i) in
      if control AND CFG_CTL_VALID \<noteq> 0 then
        if control AND CFG_CTL_INT = 0 then
          case strs ! i of
            None \<Rightarrow> dnld_entries strs is iCount sCount ctl
          | Some k \<Rightarrow>
              do { ctl \<leftarrow> put ctl i (control OR (sCount AND CFG_BUF_INDX_MASK));
                   dnld_entries strs is iCount (sCount + ucast (ss_maxLen (cfg_static_string ! k)) + 1 + 1) ctl }
        else do { ctl \<leftarrow> put ctl i (control OR (iCount AND CFG_BUF_INDX_MASK));
                  dnld_entries strs is (iCount + 1) sCount ctl }
      else do { ctl \<leftarrow> put ctl i control; dnld_entries strs is iCount sCount ctl })"

text \<open>The second loop, from the last parameter to the first: the maximal lengths of the strings.\<close>

fun dnld_max_lens :: "u32 list \<Rightarrow> nat list \<Rightarrow> u32 \<Rightarrow> u8 list \<Rightarrow> u8 list option" where
  "dnld_max_lens ctl [] bufEnd sbuf = Some sbuf"
| "dnld_max_lens ctl (i # is) bufEnd sbuf =
     (if (ctl ! i) AND CFG_CTL_INT \<noteq> 0 then dnld_max_lens ctl is bufEnd sbuf
      else if (ctl ! i) AND CFG_CTL_VALID = 0 then dnld_max_lens ctl is bufEnd sbuf
      else let bufStart = (ctl ! i) AND CFG_BUF_INDX_MASK in
        do { sbuf \<leftarrow> put sbuf (unat bufStart) (ucast (bufEnd - bufStart - 2)); dnld_max_lens ctl is bufStart sbuf })"

text \<open>The third loop: ranges and defaults.\<close>

definition dnld_default :: "nat \<Rightarrow> cfg_state \<Rightarrow> cfg_state option" where
  "dnld_default i st =
     (let control = cfg_entry st ! i; index = unat (control AND CFG_BUF_INDX_MASK) in
      if control AND CFG_CTL_INT \<noteq> 0 then
        do { imin \<leftarrow> put (gCfgIBufMin st) index (cfgIMin (cfg_static ! i));
             imax \<leftarrow> put (gCfgIBufMax st) index (cfgIMax (cfg_static ! i));
             ibuf \<leftarrow> put (gCfgIBuf st) index (cfgIVal (cfg_static ! i));
             Some (st\<lparr>gCfgIBufMin := imin, gCfgIBufMax := imax, gCfgIBuf := ibuf\<rparr>) }
      else if control AND CFG_CTL_VALID = 0 then Some st
      else if index \<ge> unat (gCfgMaxSBufSize st) then Some st
      else case pStrData st ! i of
        None \<Rightarrow> Some st
      | Some k \<Rightarrow>
          let pStrCfg = cfg_static_string ! k; len = unat (ss_length pStrCfg) in
          do { maxSavedLen \<leftarrow> entry (gCfgSBuf st) index;
               if len > unat maxSavedLen then Some st
               else do { sbuf \<leftarrow> put (gCfgSBuf st) index (ss_maxLen pStrCfg);
                         sbuf \<leftarrow> put sbuf (index + 1) (ss_length pStrCfg);
                         sbuf \<leftarrow> mem_copy sbuf (index + 2) (ss_data pStrCfg) len;
                         Some (st\<lparr>gCfgSBuf := sbuf\<rparr>) } })"

fun dnld_defaults :: "nat list \<Rightarrow> cfg_state \<Rightarrow> cfg_state option" where
  "dnld_defaults [] st = Some st"
| "dnld_defaults (i # is) st = Option.bind (dnld_default i st) (dnld_defaults is)"

text \<open>\<open>stack\<close> is what the variable for the log level holds before.\<close>

definition process_cfg_download_req :: "u32 \<Rightarrow> cfg_state \<Rightarrow> cfg_state option" where
  "process_cfg_download_req stack st =
     (if \<not> attached st then None
      else do { ctl \<leftarrow> dnld_entries (pStrData st) [0..<CFG_PARAM_MAX_NUM] 0 0 (cfg_entry st);
                sbuf \<leftarrow> dnld_max_lens ctl (rev [0..<CFG_PARAM_MAX_NUM]) (ucast (gCfgMaxSBufSize st)) (gCfgSBuf st);
                st \<leftarrow> dnld_defaults [0..<CFG_PARAM_MAX_NUM] (st\<lparr>cfg_entry := ctl, gCfgSBuf := sbuf\<rparr>);
                r \<leftarrow> wlan_cfg_get_int WNI_CFG_LOG_LEVEL st;
                Some (st\<lparr>gCfgLogLevel := (case r of Inl _ \<Rightarrow> stack | Inr logLevel \<Rightarrow> logLevel), gCfgStatus := CFG_SUCCESS\<rparr>) })"

end
