(* ===== verification/Cfg_Layout.thy ===== *)
theory Cfg_Layout
  imports Cfg_Store
begin

text \<open>
  The layout of the configuration store: the index of a parameter, and what the tables have to satisfy. Integers are numbered in the
  order of the parameters, and so are the strings, which follow one another without gaps.
\<close>

unbundle bit_operations_syntax

section \<open>Indices\<close>

definition is_int :: "nat \<Rightarrow> bool" where
  "is_int i \<longleftrightarrow> cs_control (cfg_static ! i) AND CFG_CTL_INT \<noteq> 0"

primrec int_no :: "nat \<Rightarrow> nat" where
  "int_no 0 = 0"
| "int_no (Suc i) = (if is_int i then Suc (int_no i) else int_no i)"

text \<open>The number of a string parameter among the strings, which is also its position in \<open>cfg_static_string\<close>.\<close>

primrec str_no :: "nat \<Rightarrow> nat" where
  "str_no 0 = 0"
| "str_no (Suc i) = (if is_int i then str_no i else Suc (str_no i))"

abbreviation str_row :: "nat \<Rightarrow> cfgstatic_string" where
  "str_row i \<equiv> cfg_static_string ! str_no i"

definition str_max :: "nat \<Rightarrow> nat" where
  "str_max i = unat (ss_maxLen (str_row i))"

primrec str_base :: "nat \<Rightarrow> nat" where
  "str_base 0 = 0"
| "str_base (Suc i) = (if is_int i then str_base i else str_base i + str_max i + 2)"

definition cfg_index :: "nat \<Rightarrow> nat" where
  "cfg_index i = (if is_int i then int_no i else str_base i)"

definition INT_NUM :: nat where "INT_NUM = 181"
definition STR_NUM :: nat where "STR_NUM = 41"
definition STR_SIZE :: nat where "STR_SIZE = 1271"

section \<open>The tables\<close>

definition row_ok :: "cgstatic \<Rightarrow> bool" where
  "row_ok r \<longleftrightarrow> cs_control r AND CFG_CTL_VALID \<noteq> 0 \<and> cs_control r AND CFG_BUF_INDX_MASK = 0 \<and>
     (cs_control r AND CFG_CTL_INT \<noteq> 0 \<longrightarrow> cfgIMin r \<le> cfgIVal r \<and> cfgIVal r \<le> cfgIMax r)"

definition string_ok :: "cfgstatic_string \<Rightarrow> bool" where
  "string_ok s \<longleftrightarrow> ss_length s \<le> ss_maxLen s \<and> unat (ss_length s) \<le> length (ss_data s)"

text \<open>The string parameters.\<close>

definition str_ids :: "nat list" where
  "str_ids = [0, 3, 7, 8, 9, 10, 31, 32, 35, 36, 37, 39, 56, 57, 58, 59, 60, 62, 63, 66, 82, 83, 84, 85,
     86, 87, 88, 89, 90, 91, 92, 93, 94, 95, 96, 97, 105, 109, 116, 117, 166]"

lemma rows_1:
  "list_all row_ok cfg_static_1" "map cs_cfgId cfg_static_1 = [0..<29]"
  "map (\<lambda>r. cs_control r AND CFG_CTL_INT \<noteq> 0) cfg_static_1 = map (\<lambda>i. i \<notin> set str_ids) [0..<29]"
  by code_simp+

lemma rows_2:
  "list_all row_ok cfg_static_2" "map cs_cfgId cfg_static_2 = [29..<58]"
  "map (\<lambda>r. cs_control r AND CFG_CTL_INT \<noteq> 0) cfg_static_2 = map (\<lambda>i. i \<notin> set str_ids) [29..<58]"
  by code_simp+

lemma rows_3:
  "list_all row_ok cfg_static_3" "map cs_cfgId cfg_static_3 = [58..<91]"
  "map (\<lambda>r. cs_control r AND CFG_CTL_INT \<noteq> 0) cfg_static_3 = map (\<lambda>i. i \<notin> set str_ids) [58..<91]"
  by code_simp+

lemma rows_4:
  "list_all row_ok cfg_static_4" "map cs_cfgId cfg_static_4 = [91..<120]"
  "map (\<lambda>r. cs_control r AND CFG_CTL_INT \<noteq> 0) cfg_static_4 = map (\<lambda>i. i \<notin> set str_ids) [91..<120]"
  by code_simp+

lemma rows_5:
  "list_all row_ok cfg_static_5" "map cs_cfgId cfg_static_5 = [120..<144]"
  "map (\<lambda>r. cs_control r AND CFG_CTL_INT \<noteq> 0) cfg_static_5 = map (\<lambda>i. i \<notin> set str_ids) [120..<144]"
  by code_simp+

lemma rows_6:
  "list_all row_ok cfg_static_6" "map cs_cfgId cfg_static_6 = [144..<170]"
  "map (\<lambda>r. cs_control r AND CFG_CTL_INT \<noteq> 0) cfg_static_6 = map (\<lambda>i. i \<notin> set str_ids) [144..<170]"
  by code_simp+

lemma rows_7:
  "list_all row_ok cfg_static_7" "map cs_cfgId cfg_static_7 = [170..<195]"
  "map (\<lambda>r. cs_control r AND CFG_CTL_INT \<noteq> 0) cfg_static_7 = map (\<lambda>i. i \<notin> set str_ids) [170..<195]"
  by code_simp+

lemma rows_8:
  "list_all row_ok cfg_static_8" "map cs_cfgId cfg_static_8 = [195..<221]"
  "map (\<lambda>r. cs_control r AND CFG_CTL_INT \<noteq> 0) cfg_static_8 = map (\<lambda>i. i \<notin> set str_ids) [195..<221]"
  by code_simp+

lemma rows_9:
  "list_all row_ok cfg_static_9" "map cs_cfgId cfg_static_9 = [221..<222]"
  "map (\<lambda>r. cs_control r AND CFG_CTL_INT \<noteq> 0) cfg_static_9 = map (\<lambda>i. i \<notin> set str_ids) [221..<222]"
  by code_simp+

lemma rows:
  "list_all row_ok cfg_static" "map cs_cfgId cfg_static = [0..<CFG_PARAM_MAX_NUM]"
  "map (\<lambda>r. cs_control r AND CFG_CTL_INT \<noteq> 0) cfg_static = map (\<lambda>i. i \<notin> set str_ids) [0..<CFG_PARAM_MAX_NUM]"
  unfolding cfg_static_def list_all_append map_append
  by (simp_all only: rows_1 rows_2 rows_3 rows_4 rows_5 rows_6 rows_7 rows_8 rows_9 append.simps simp_thms) code_simp+

lemma strings_1:
  "list_all string_ok cfg_static_string_1"
  "map ss_cfgId cfg_static_string_1 = [0, 3, 7, 8, 9, 10, 31, 32, 35, 36, 37, 39, 56, 57, 58, 59, 60, 62, 63, 66, 82, 83, 84, 85,
     86, 87, 88, 89, 90, 91, 92, 93, 94]"
  "map (\<lambda>s. unat (ss_maxLen s)) cfg_static_string_1 = [6, 32, 13, 13, 13, 13, 4, 8, 12, 8, 4, 100, 64, 32, 32, 32, 32, 128, 128, 3, 20, 20, 20, 20,
     20, 20, 20, 20, 20, 20, 20, 20, 20]"
  by code_simp+

lemma strings_2:
  "list_all string_ok cfg_static_string_2"
  "map ss_cfgId cfg_static_string_2 = [95, 96, 97, 105, 109, 116, 117, 166]"
  "map (\<lambda>s. unat (ss_maxLen s)) cfg_static_string_2 = [20, 20, 20, 128, 16, 16, 16, 16]"
  by code_simp+

definition str_maxes :: "nat list" where
  "str_maxes = [6, 32, 13, 13, 13, 13, 4, 8, 12, 8, 4, 100, 64, 32, 32, 32, 32, 128, 128, 3, 20, 20, 20, 20,
     20, 20, 20, 20, 20, 20, 20, 20, 20, 20, 20, 20, 128, 16, 16, 16, 16]"

section \<open>Look-ups in the tables\<close>

lemma cfg_static_length [simp]: "length cfg_static = CFG_PARAM_MAX_NUM"
  using arg_cong [OF rows(2), of length] by simp

lemma row_ok_nth: "i < CFG_PARAM_MAX_NUM \<Longrightarrow> row_ok (cfg_static ! i) \<and> cs_cfgId (cfg_static ! i) = i"
  using rows(1) nth_map [of i cfg_static cs_cfgId] by (simp add: rows(2) list_all_length)

lemma is_int_ids: "i < CFG_PARAM_MAX_NUM \<Longrightarrow> is_int i \<longleftrightarrow> i \<notin> set str_ids"
  using arg_cong [OF rows(3), of "\<lambda>xs. xs ! i"] by (simp add: is_int_def)

lemma given_strings: "cfg_static_string = (cfg_static_string_1 @ cfg_static_string_2) @ replicate 29 (Cfgstatic_string 0 0 0 [])"
  "length (cfg_static_string_1 @ cfg_static_string_2) = STR_NUM"
proof -
  show len: "length (cfg_static_string_1 @ cfg_static_string_2) = STR_NUM"
    using arg_cong [OF strings_1(2), of length] arg_cong [OF strings_2(2), of length] by (simp add: STR_NUM_def)
  then show "cfg_static_string = (cfg_static_string_1 @ cfg_static_string_2) @ replicate 29 (Cfgstatic_string 0 0 0 [])"
    by (simp add: cfg_static_string_def CFG_MAX_STATIC_STRING_def STR_NUM_def Let_def)
qed

lemma string_nth: "k < STR_NUM \<Longrightarrow> cfg_static_string ! k = (cfg_static_string_1 @ cfg_static_string_2) ! k"
  unfolding given_strings(1) by (simp only: nth_append given_strings(2) if_True)

lemma string_rows:
  assumes "k < STR_NUM"
  shows "string_ok (cfg_static_string ! k)" "ss_cfgId (cfg_static_string ! k) = str_ids ! k"
    "unat (ss_maxLen (cfg_static_string ! k)) = str_maxes ! k"
proof -
  let ?S = "cfg_static_string_1 @ cfg_static_string_2"
  have "list_all string_ok ?S" using strings_1(1) strings_2(1) by simp
  then show "string_ok (cfg_static_string ! k)" using assms given_strings(2) by (simp add: string_nth list_all_length)
  have "map ss_cfgId ?S = str_ids" "map (\<lambda>s. unat (ss_maxLen s)) ?S = str_maxes"
    unfolding map_append strings_1 strings_2 str_ids_def str_maxes_def by simp_all
  then show "ss_cfgId (cfg_static_string ! k) = str_ids ! k" "unat (ss_maxLen (cfg_static_string ! k)) = str_maxes ! k"
    using assms given_strings(2) nth_map [of k ?S ss_cfgId] nth_map [of k ?S "\<lambda>s. unat (ss_maxLen s)"] by (simp_all add: string_nth)
qed

section \<open>Strings in the order of the parameters\<close>

lemma str_ids_eq: "filter (\<lambda>i. i \<in> set str_ids) [0..<CFG_PARAM_MAX_NUM] = str_ids"
  by code_simp

lemma str_no_filter: "length (filter (\<lambda>i. \<not> is_int i) [0..<n]) = str_no n"
  by (induction n) simp_all

lemma int_str_no: "int_no n + str_no n = n"
  by (induction n) simp_all

lemma str_ids_filter: "filter (\<lambda>i. \<not> is_int i) [0..<CFG_PARAM_MAX_NUM] = str_ids"
proof -
  have "filter (\<lambda>i. \<not> is_int i) [0..<CFG_PARAM_MAX_NUM] = filter (\<lambda>i. i \<in> set str_ids) [0..<CFG_PARAM_MAX_NUM]"
    by (rule filter_cong) (simp_all add: is_int_ids)
  then show ?thesis by (simp only: str_ids_eq)
qed

lemma str_ids_nth:
  assumes "i < CFG_PARAM_MAX_NUM" "\<not> is_int i"
  shows "str_no i < STR_NUM" "str_ids ! str_no i = i" "j < str_no i \<Longrightarrow> str_ids ! j \<noteq> i"
proof -
  let ?f = "\<lambda>i. \<not> is_int i"
  have "[0..<CFG_PARAM_MAX_NUM] = [0..<i] @ i # [Suc i..<CFG_PARAM_MAX_NUM]"
    using assms(1) by (metis less_imp_le_nat upt_add_eq_append upt_conv_Cons zero_le le_add_diff_inverse)
  with assms(2) have split: "str_ids = filter ?f [0..<i] @ i # filter ?f [Suc i..<CFG_PARAM_MAX_NUM]"
    unfolding str_ids_filter [symmetric] by simp
  have "length str_ids = STR_NUM" by (simp add: str_ids_def STR_NUM_def)
  with arg_cong [OF split, of length] show "str_no i < STR_NUM" by (simp flip: str_no_filter)
  show "str_ids ! str_no i = i" unfolding split by (simp add: nth_append flip: str_no_filter)
  show "str_ids ! j \<noteq> i" if "j < str_no i"
  proof -
    from that have "filter ?f [0..<i] ! j \<in> set (filter ?f [0..<i])" by (intro nth_mem) (simp only: str_no_filter)
    moreover from that have "str_ids ! j = filter ?f [0..<i] ! j" unfolding split by (simp add: nth_append flip: str_no_filter)
    ultimately show ?thesis by auto
  qed
qed

lemma strindex: "\<lbrakk>i < CFG_PARAM_MAX_NUM; \<not> is_int i\<rbrakk> \<Longrightarrow> cfg_get_strindex i = Some (str_no i)"
  using str_ids_nth [of i] string_rows(2)
  by (auto simp: cfg_get_strindex_def find_upt_Some_iff CFG_MAX_STATIC_STRING_def STR_NUM_def)

lemma str_row_ok: "\<lbrakk>i < CFG_PARAM_MAX_NUM; \<not> is_int i\<rbrakk> \<Longrightarrow> string_ok (str_row i)"
  by (simp add: string_rows(1) str_ids_nth(1))

lemma str_max_nth: "\<lbrakk>i < CFG_PARAM_MAX_NUM; \<not> is_int i\<rbrakk> \<Longrightarrow> str_max i = str_maxes ! str_no i"
  by (simp add: str_max_def string_rows(3) str_ids_nth(1))

section \<open>Sizes\<close>

lemma str_no_ids:
  assumes "n \<le> CFG_PARAM_MAX_NUM"
  shows "str_no n = length (filter (\<lambda>i. i < n) str_ids)"
proof -
  have "[0..<CFG_PARAM_MAX_NUM] = [0..<n] @ [n..<CFG_PARAM_MAX_NUM]" using assms by (metis le_add_diff_inverse upt_add_eq_append zero_le)
  then have "filter (\<lambda>i. i < n) str_ids = filter (\<lambda>i. \<not> is_int i) [0..<n]"
    unfolding str_ids_filter [symmetric] by (auto simp: filter_empty_conv intro: filter_cong)
  then show ?thesis by (simp add: str_no_filter)
qed

lemma int_total: "int_no CFG_PARAM_MAX_NUM = INT_NUM"
proof -
  have "length (filter (\<lambda>i. i < CFG_PARAM_MAX_NUM) str_ids) = 41" by (simp add: str_ids_def)
  then show ?thesis using int_str_no [of CFG_PARAM_MAX_NUM] str_no_ids [of CFG_PARAM_MAX_NUM] by (simp add: INT_NUM_def)
qed

lemma str_base_sum: "n \<le> CFG_PARAM_MAX_NUM \<Longrightarrow> str_base n = sum_list (map (\<lambda>m. m + 2) (take (str_no n) str_maxes))"
proof (induction n)
  case (Suc n)
  have "length str_maxes = STR_NUM" by (simp add: str_maxes_def STR_NUM_def)
  with Suc str_ids_nth(1) [of n] show ?case by (simp add: take_Suc_conv_app_nth str_max_nth)
qed simp

lemma str_total: "str_base CFG_PARAM_MAX_NUM = STR_SIZE"
proof -
  have "str_no CFG_PARAM_MAX_NUM = STR_NUM" using int_total int_str_no [of CFG_PARAM_MAX_NUM] by (simp add: INT_NUM_def STR_NUM_def)
  moreover have "sum_list (map (\<lambda>m. m + 2) (take STR_NUM str_maxes)) = STR_SIZE" by code_simp
  ultimately show ?thesis using str_base_sum [of CFG_PARAM_MAX_NUM] by (simp del: int_no.simps str_no.simps str_base.simps)
qed

lemma int_no_mono: "i \<le> j \<Longrightarrow> int_no i \<le> int_no j"
  by (induction j) (auto simp: le_Suc_eq)

lemma str_base_mono: "i \<le> j \<Longrightarrow> str_base i \<le> str_base j"
  by (induction j) (auto simp: le_Suc_eq)

lemma int_no_less: "\<lbrakk>i < j; is_int i\<rbrakk> \<Longrightarrow> int_no i < int_no j"
  using int_no_mono [of "Suc i" j] by simp

lemma str_base_less: "\<lbrakk>i < j; \<not> is_int i\<rbrakk> \<Longrightarrow> str_base i + str_max i + 2 \<le> str_base j"
  using str_base_mono [of "Suc i" j] by simp

lemma int_no_bound: "\<lbrakk>i < CFG_PARAM_MAX_NUM; is_int i\<rbrakk> \<Longrightarrow> int_no i < INT_NUM"
  using int_no_less int_total by metis

lemma str_base_bound: "\<lbrakk>i < CFG_PARAM_MAX_NUM; \<not> is_int i\<rbrakk> \<Longrightarrow> str_base i + str_max i + 2 \<le> STR_SIZE"
  using str_base_less str_total by metis

lemma index_bound: "i < CFG_PARAM_MAX_NUM \<Longrightarrow> cfg_index i < STR_SIZE"
  using int_no_bound [of i] str_base_bound [of i] by (auto simp: cfg_index_def INT_NUM_def STR_SIZE_def)

lemma int_no_inj: "\<lbrakk>is_int i; is_int j; int_no i = int_no j\<rbrakk> \<Longrightarrow> i = j"
  using int_no_less by (metis less_irrefl_nat linorder_neqE_nat)

text \<open>The strings of two parameters do not overlap.\<close>

lemma str_disjoint:
  "\<lbrakk>\<not> is_int i; \<not> is_int j; i \<noteq> j\<rbrakk> \<Longrightarrow> str_base i + str_max i + 2 \<le> str_base j \<or> str_base j + str_max j + 2 \<le> str_base i"
  using str_base_less by (metis linorder_neqE_nat)

section \<open>Flags and index in one word\<close>

definition cfg_control :: "nat \<Rightarrow> u32" where
  "cfg_control i = cs_control (cfg_static ! i) OR of_nat (cfg_index i)"

lemma low_bits: "n < 4096 \<Longrightarrow> (of_nat n :: u32) AND CFG_BUF_INDX_MASK = of_nat n"
proof -
  assume "n < 4096"
  then have "take_bit 12 (of_nat n :: u32) = of_nat n" by (simp add: take_bit_of_nat take_bit_nat_eq_self)
  moreover have "CFG_BUF_INDX_MASK = mask 12" by (simp add: mask_eq_exp_minus_1)
  ultimately show ?thesis by (simp add: take_bit_eq_mask)
qed

lemma control_flags:
  assumes "i < CFG_PARAM_MAX_NUM" "f AND CFG_BUF_INDX_MASK = 0"
  shows "cfg_control i AND f = cs_control (cfg_static ! i) AND f"
proof -
  let ?x = "of_nat (cfg_index i) :: u32"
  have "?x = ?x AND CFG_BUF_INDX_MASK" using index_bound [OF assms(1)] by (simp add: low_bits STR_SIZE_def)
  then have "?x AND f = ?x AND (CFG_BUF_INDX_MASK AND f)" by (metis and.assoc)
  also have "\<dots> = 0" using assms(2) by (simp add: and.commute)
  finally show ?thesis by (simp add: cfg_control_def bit.conj_disj_distrib2)
qed

lemma control_index: "i < CFG_PARAM_MAX_NUM \<Longrightarrow> unat (cfg_control i AND CFG_BUF_INDX_MASK) = cfg_index i"
proof -
  assume i: "i < CFG_PARAM_MAX_NUM"
  have "cs_control (cfg_static ! i) AND CFG_BUF_INDX_MASK = 0" using row_ok_nth [OF i] by (simp add: row_ok_def)
  then have "cfg_control i AND CFG_BUF_INDX_MASK = of_nat (cfg_index i)"
    using index_bound [OF i] by (simp add: cfg_control_def bit.conj_disj_distrib2 low_bits STR_SIZE_def)
  then show ?thesis using index_bound [OF i] by (simp add: STR_SIZE_def unat_of_nat take_bit_nat_eq_self)
qed

end
