(* ===== verification/Cfg_Inv.thy ===== *)
theory Cfg_Inv
  imports Cfg_Layout
begin

text \<open>
  The well-formed states of the configuration store, the map of parameters to values a state stands for, and each operation in terms
  of it.
\<close>

unbundle bit_operations_syntax

section \<open>Well-formed states\<close>

definition int_ok :: "nat \<Rightarrow> u32 \<Rightarrow> bool" where
  "int_ok i n \<longleftrightarrow> cfgIMin (cfg_static ! i) \<le> n \<and> n \<le> cfgIMax (cfg_static ! i)"

text \<open>The arrays and what the download of the tables fixes of them.\<close>

definition cfg_shape :: "cfg_state \<Rightarrow> bool" where
  "cfg_shape st \<longleftrightarrow> attached st \<and> cfg_entry st = map cfg_control [0..<CFG_PARAM_MAX_NUM] \<and>
     length (gCfgSBuf st) = STR_SIZE \<and> length (gCfgIBuf st) = INT_NUM \<and> length (gCfgIBufMin st) = INT_NUM \<and>
     length (gCfgIBufMax st) = INT_NUM \<and> gCfgMaxSBufSize st = of_nat STR_SIZE \<and>
     (\<forall>i < CFG_PARAM_MAX_NUM. \<not> is_int i \<longrightarrow> gCfgSBuf st ! str_base i = ss_maxLen (str_row i))"

definition cfg_wf :: "cfg_state \<Rightarrow> bool" where
  "cfg_wf st \<longleftrightarrow> cfg_shape st \<and>
     (\<forall>i < CFG_PARAM_MAX_NUM. is_int i \<longrightarrow> gCfgIBufMin st ! int_no i = cfgIMin (cfg_static ! i) \<and>
        gCfgIBufMax st ! int_no i = cfgIMax (cfg_static ! i) \<and> int_ok i (gCfgIBuf st ! int_no i)) \<and>
     (\<forall>i < CFG_PARAM_MAX_NUM. \<not> is_int i \<longrightarrow> unat (gCfgSBuf st ! (str_base i + 1)) \<le> str_max i)"

lemma cfg_wf_shape [simp]: "cfg_wf st \<Longrightarrow> cfg_shape st"
  by (simp add: cfg_wf_def)

text \<open>The value of a parameter.\<close>

datatype cfg_val = IntVal u32 | StrVal "u8 list"

definition str_val :: "nat \<Rightarrow> cfg_state \<Rightarrow> u8 list" where
  "str_val i st = take (unat (gCfgSBuf st ! (str_base i + 1))) (drop (str_base i + 2) (gCfgSBuf st))"

definition cfg_abs :: "cfg_state \<Rightarrow> nat \<Rightarrow> cfg_val option" where
  "cfg_abs st i =
     (if i \<ge> CFG_PARAM_MAX_NUM then None
      else if is_int i then Some (IntVal (gCfgIBuf st ! int_no i)) else Some (StrVal (str_val i st)))"

lemma cfg_shape_simps:
  assumes "cfg_shape st"
  shows "attached st" "cfg_entry st = map cfg_control [0..<CFG_PARAM_MAX_NUM]" "length (gCfgSBuf st) = STR_SIZE"
    "length (gCfgIBuf st) = INT_NUM" "length (gCfgIBufMin st) = INT_NUM" "length (gCfgIBufMax st) = INT_NUM"
    "gCfgMaxSBufSize st = of_nat STR_SIZE"
  using assms by (simp_all add: cfg_shape_def)

lemmas cfg_wf_simps = cfg_shape_simps [OF cfg_wf_shape]

lemma shape_str: "\<lbrakk>cfg_shape st; i < CFG_PARAM_MAX_NUM; \<not> is_int i\<rbrakk> \<Longrightarrow> gCfgSBuf st ! str_base i = ss_maxLen (str_row i)"
  by (simp add: cfg_shape_def)

lemma cfg_wf_int:
  assumes "cfg_wf st" "i < CFG_PARAM_MAX_NUM" "is_int i"
  shows "gCfgIBufMin st ! int_no i = cfgIMin (cfg_static ! i)" "gCfgIBufMax st ! int_no i = cfgIMax (cfg_static ! i)"
    "int_ok i (gCfgIBuf st ! int_no i)"
  using assms by (simp_all add: cfg_wf_def)

lemma cfg_wf_str:
  assumes "cfg_wf st" "i < CFG_PARAM_MAX_NUM" "\<not> is_int i"
  shows "gCfgSBuf st ! str_base i = ss_maxLen (str_row i)" "unat (gCfgSBuf st ! (str_base i + 1)) \<le> str_max i"
  using assms by (simp_all add: cfg_wf_def shape_str)

lemma str_val_length:
  "\<lbrakk>cfg_wf st; i < CFG_PARAM_MAX_NUM; \<not> is_int i\<rbrakk> \<Longrightarrow> length (str_val i st) = unat (gCfgSBuf st ! (str_base i + 1))"
  using str_base_bound [of i] cfg_wf_str(2) [of st i] by (simp add: str_val_def cfg_wf_simps(3))

section \<open>Access to a well-formed store\<close>

lemma cfg_index_int: "is_int i \<Longrightarrow> cfg_index i = int_no i"
  by (simp add: cfg_index_def)

lemma control_valid: "i < CFG_PARAM_MAX_NUM \<Longrightarrow> cfg_control i AND CFG_CTL_VALID \<noteq> 0"
  using row_ok_nth [of i] by (simp add: control_flags row_ok_def)

lemma control_int: "i < CFG_PARAM_MAX_NUM \<Longrightarrow> cfg_control i AND CFG_CTL_INT \<noteq> 0 \<longleftrightarrow> is_int i"
  by (simp add: control_flags is_int_def)

lemma check_valid:
  assumes "cfg_shape st"
  shows "cfg_check_valid i st = (if i < CFG_PARAM_MAX_NUM then Inr (cfg_index i) else Inl eSIR_CFG_INVALID_ID)"
proof (cases "i < CFG_PARAM_MAX_NUM")
  case True
  then show ?thesis
    using control_valid [OF True] control_index [OF True] index_bound [OF True] cfg_shape_simps [OF assms]
    by (simp add: cfg_check_valid_def Let_def STR_SIZE_def)
qed (simp add: cfg_check_valid_def)

lemma notify_simps [simp]:
  "cfg_shape (cfg_notify i m st) = cfg_shape st" "cfg_wf (cfg_notify i m st) = cfg_wf st" "cfg_abs (cfg_notify i m st) = cfg_abs st" "s_buffer (cfg_notify i m st) = s_buffer st"
  "gCfgStatus (cfg_notify i m st) = gCfgStatus st"
  by (simp_all add: cfg_notify_def cfg_wf_def cfg_shape_def cfg_abs_def str_val_def fun_eq_iff)

lemma get_int:
  assumes "cfg_wf st" "i < CFG_PARAM_MAX_NUM" "is_int i"
  shows "wlan_cfg_get_int i st = Some (Inr (gCfgIBuf st ! int_no i))"
  using assms int_no_bound [of i] by (simp add: wlan_cfg_get_int_def check_valid cfg_index_def cfg_wf_simps)

lemma get_str:
  assumes "cfg_wf st" "i < CFG_PARAM_MAX_NUM" "\<not> is_int i"
  shows "wlan_cfg_get_str i n st = Some (if n < length (str_val i st) then Inl eSIR_CFG_INVALID_LEN else Inr (str_val i st))"
    "wlan_cfg_get_str_len i st = Some (Inr (length (str_val i st)))"
    "wlan_cfg_get_str_max_len i st = Some (Inr (str_max i))"
  using assms str_base_bound [of i] cfg_wf_str [OF assms] str_val_length [OF assms]
  by (simp_all add: wlan_cfg_get_str_def wlan_cfg_get_str_len_def wlan_cfg_get_str_max_len_def check_valid cfg_index_def cfg_wf_simps str_val_def str_max_def)

definition stored_int :: "nat \<Rightarrow> u32 \<Rightarrow> cfg_state \<Rightarrow> cfg_state" where
  "stored_int i n st = st\<lparr>gCfgIBuf := (gCfgIBuf st)[int_no i := n]\<rparr>"

definition notify_changed :: "nat \<Rightarrow> cfg_state \<Rightarrow> cfg_state" where
  "notify_changed i st = (let mask = cfg_control i AND CFG_CTL_NTF_MASK in if mask AND CFG_CTL_NTF_MASK \<noteq> 0 then cfg_notify i mask st else st)"

lemma notify_changed_simps [simp]:
  "cfg_shape (notify_changed i st) = cfg_shape st" "cfg_wf (notify_changed i st) = cfg_wf st" "cfg_abs (notify_changed i st) = cfg_abs st" "s_buffer (notify_changed i st) = s_buffer st"
  "gCfgStatus (notify_changed i st) = gCfgStatus st"
  by (simp_all add: notify_changed_def Let_def)

text \<open>\<open>cfg_set_int\<close> for the parameter \<open>i\<close> writes the integer at its index, that of \<open>j\<close>.\<close>

lemma set_int_index:
  assumes "cfg_wf st" "i < CFG_PARAM_MAX_NUM" "cfg_index i = int_no j" "j < CFG_PARAM_MAX_NUM" "is_int j"
  shows "cfg_set_int i n st = Some (if int_ok j n then (notify_changed i (stored_int j n st), eSIR_CFG_OK) else (st, eSIR_CFG_INVALID_ID))"
  using assms int_no_bound [of j] cfg_wf_int [OF assms(1,4,5)]
  by (auto simp: cfg_set_int_def check_valid cfg_wf_simps int_ok_def stored_int_def notify_changed_def Let_def not_le not_less)

lemma set_int:
  assumes "cfg_wf st" "i < CFG_PARAM_MAX_NUM" "is_int i"
  shows "cfg_set_int i n st = Some (if int_ok i n then (notify_changed i (stored_int i n st), eSIR_CFG_OK) else (st, eSIR_CFG_INVALID_ID))"
  using set_int_index [OF assms(1,2) cfg_index_int [OF assms(3)] assms(2,3)] .

lemma stored_int_wf:
  assumes "cfg_wf st" "i < CFG_PARAM_MAX_NUM" "is_int i" "int_ok i n"
  shows "cfg_wf (stored_int i n st)" "cfg_abs (stored_int i n st) = (cfg_abs st)(i \<mapsto> IntVal n)"
proof -
  have nth: "j < CFG_PARAM_MAX_NUM \<Longrightarrow> is_int j \<Longrightarrow> (gCfgIBuf st)[int_no i := n] ! int_no j = (if j = i then n else gCfgIBuf st ! int_no j)" for j
    using int_no_bound [of j] int_no_inj [OF assms(3), of j] cfg_wf_simps(4) [OF assms(1)] by (auto simp: nth_list_update_if)
  then show "cfg_wf (stored_int i n st)" using assms by (auto simp: cfg_wf_def cfg_shape_def stored_int_def)
  show "cfg_abs (stored_int i n st) = (cfg_abs st)(i \<mapsto> IntVal n)"
    using assms nth by (auto simp: cfg_abs_def stored_int_def str_val_def fun_eq_iff)
qed

definition stored_str :: "nat \<Rightarrow> u8 list \<Rightarrow> cfg_state \<Rightarrow> cfg_state" where
  "stored_str i s st = st\<lparr>gCfgSBuf := take (str_base i + 1) (gCfgSBuf st) @ of_nat (length s) # s @
     drop (str_base i + 2 + length s) (gCfgSBuf st)\<rparr>"

lemma stored_str_nth:
  assumes "length (gCfgSBuf st) = STR_SIZE" "i < CFG_PARAM_MAX_NUM" "\<not> is_int i" "length s \<le> str_max i" "k < STR_SIZE"
  shows "gCfgSBuf (stored_str i s st) ! k =
    (if k = str_base i + 1 then of_nat (length s)
     else if str_base i + 2 \<le> k \<and> k < str_base i + 2 + length s then s ! (k - (str_base i + 2)) else gCfgSBuf st ! k)"
    "length (gCfgSBuf (stored_str i s st)) = STR_SIZE"
proof -
  have b: "str_base i + str_max i + 2 \<le> STR_SIZE" using str_base_bound [OF assms(2,3)] .
  show "length (gCfgSBuf (stored_str i s st)) = STR_SIZE" using b assms(1,4) by (simp add: stored_str_def)
  consider "k \<le> str_base i" | "k = str_base i + 1" | n where "k = str_base i + 2 + n" "n < length s" | n where "k = str_base i + 2 + length s + n"
    by (metis le_add_diff_inverse less_add_one linorder_not_le add_less_cancel_left Suc_eq_plus1 Suc_leI add_2_eq_Suc' le_neq_implies_less)
  then show "gCfgSBuf (stored_str i s st) ! k =
    (if k = str_base i + 1 then of_nat (length s)
     else if str_base i + 2 \<le> k \<and> k < str_base i + 2 + length s then s ! (k - (str_base i + 2)) else gCfgSBuf st ! k)"
    using b assms(1,4,5) by cases (auto simp: stored_str_def nth_append nth_Cons' min_def)
qed

lemma mem_copy_stored:
  assumes "length (gCfgSBuf st) = STR_SIZE" "i < CFG_PARAM_MAX_NUM" "\<not> is_int i" "n \<le> length s" "n \<le> str_max i"
  shows "mem_copy ((gCfgSBuf st)[Suc (str_base i) := of_nat n]) (Suc (Suc (str_base i))) s n = Some (gCfgSBuf (stored_str i (take n s) st))"
  using str_base_bound [OF assms(2,3)] assms by (simp add: mem_copy_def stored_str_def take_Suc_conv_app_nth min_def ac_simps)

lemma set_str:
  assumes "cfg_shape st" "i < CFG_PARAM_MAX_NUM" "\<not> is_int i" "n \<le> length s"
  shows "cfg_set_str i s n st =
    Some (if n \<le> str_max i then (notify_changed i (stored_str i (take n s) st), eSIR_CFG_OK) else (st, eSIR_CFG_INVALID_LEN))"
proof -
  have b: "str_base i + str_max i + 2 \<le> length (gCfgSBuf st)" using str_base_bound [OF assms(2,3)] cfg_shape_simps(3) [OF assms(1)] by simp
  have max: "unat (gCfgSBuf st ! str_base i) = str_max i" using shape_str [OF assms(1-3)] by (simp add: str_max_def)
  note copy = mem_copy_stored [OF cfg_shape_simps(3) [OF assms(1)] assms(2-4)]
  then show ?thesis
    using assms b max cfg_shape_simps(2) [OF assms(1)]
    by (auto simp: cfg_set_str_def cfg_set_str_notify_def check_valid cfg_index_def notify_changed_def Let_def not_less stored_str_def)
qed

lemma stored_str_simps [simp]:
  "attached (stored_str i s st) = attached st" "cfg_entry (stored_str i s st) = cfg_entry st" "pStrData (stored_str i s st) = pStrData st"
  "gCfgIBuf (stored_str i s st) = gCfgIBuf st" "gCfgIBufMin (stored_str i s st) = gCfgIBufMin st" "gCfgIBufMax (stored_str i s st) = gCfgIBufMax st"
  "gCfgMaxSBufSize (stored_str i s st) = gCfgMaxSBufSize st" "s_buffer (stored_str i s st) = s_buffer st" "gCfgStatus (stored_str i s st) = gCfgStatus st"
  by (simp_all add: stored_str_def)

text \<open>Storing a string changes the length and the bytes of that string only.\<close>

lemma stored_str_frame:
  assumes "length (gCfgSBuf st) = STR_SIZE" "i < CFG_PARAM_MAX_NUM" "\<not> is_int i" "length s \<le> str_max i"
  shows "length (gCfgSBuf (stored_str i s st)) = STR_SIZE"
    "j < CFG_PARAM_MAX_NUM \<Longrightarrow> \<not> is_int j \<Longrightarrow> gCfgSBuf (stored_str i s st) ! str_base j = gCfgSBuf st ! str_base j"
    "unat (gCfgSBuf (stored_str i s st) ! Suc (str_base i)) = length s"
    "j < CFG_PARAM_MAX_NUM \<Longrightarrow> \<not> is_int j \<Longrightarrow> j \<noteq> i \<Longrightarrow> gCfgSBuf (stored_str i s st) ! Suc (str_base j) = gCfgSBuf st ! Suc (str_base j)"
    "str_val i (stored_str i s st) = s"
    "\<lbrakk>j < CFG_PARAM_MAX_NUM; \<not> is_int j; j \<noteq> i; unat (gCfgSBuf st ! Suc (str_base j)) \<le> str_max j\<rbrakk> \<Longrightarrow> str_val j (stored_str i s st) = str_val j st"
proof -
  note nth = stored_str_nth [OF assms]
  have "0 < STR_SIZE" by (simp add: STR_SIZE_def)
  then show len: "length (gCfgSBuf (stored_str i s st)) = STR_SIZE" by (rule nth(2))
  have "str_max i < 256" by (simp add: str_max_def)
  then have l: "unat (of_nat (length s) :: u8) = length s" using assms(4) by (simp add: unat_of_nat take_bit_nat_eq_self)
  have other: "gCfgSBuf (stored_str i s st) ! k = gCfgSBuf st ! k"
    if "j < CFG_PARAM_MAX_NUM" "\<not> is_int j" "j \<noteq> i" "str_base j \<le> k" "k < str_base j + str_max j + 2" for j k
    using that str_disjoint [OF assms(3) that(2)] str_base_bound [OF that(1,2)] assms(4) nth(1) [of k] by auto
  have same: "gCfgSBuf (stored_str i s st) ! str_base i = gCfgSBuf st ! str_base i" "gCfgSBuf (stored_str i s st) ! Suc (str_base i) = of_nat (length s)"
    using str_base_bound [OF assms(2,3)] nth(1) [of "str_base i"] nth(1) [of "str_base i + 1"] by simp_all
  then show "unat (gCfgSBuf (stored_str i s st) ! Suc (str_base i)) = length s" using l by simp
  show "gCfgSBuf (stored_str i s st) ! str_base j = gCfgSBuf st ! str_base j" if "j < CFG_PARAM_MAX_NUM" "\<not> is_int j"
    using same(1) other [OF that, of "str_base j"] by (cases "j = i") auto
  show changed: "gCfgSBuf (stored_str i s st) ! Suc (str_base j) = gCfgSBuf st ! Suc (str_base j)" if "j < CFG_PARAM_MAX_NUM" "\<not> is_int j" "j \<noteq> i"
    using other [OF that, of "Suc (str_base j)"] by simp
  show "str_val i (stored_str i s st) = s"
    unfolding str_val_def using same(2) l str_base_bound [OF assms(2,3)] assms(4) len nth(1) by (intro slice_eqI) auto
  show "str_val j (stored_str i s st) = str_val j st"
    if "j < CFG_PARAM_MAX_NUM" "\<not> is_int j" "j \<noteq> i" "unat (gCfgSBuf st ! Suc (str_base j)) \<le> str_max j"
    unfolding str_val_def using changed [OF that(1-3)] that(4) str_base_bound [OF that(1,2)] len assms(1) other [OF that(1-3)]
    by (auto intro!: slice_cong)
qed

lemma stored_str_wf:
  assumes "cfg_wf st" "i < CFG_PARAM_MAX_NUM" "\<not> is_int i" "length s \<le> str_max i"
  shows "cfg_wf (stored_str i s st)" "cfg_abs (stored_str i s st) = (cfg_abs st)(i \<mapsto> StrVal s)"
proof -
  note frame = stored_str_frame [OF cfg_wf_simps(3) [OF assms(1)] assms(2-4)]
  have "unat (gCfgSBuf (stored_str i s st) ! Suc (str_base j)) \<le> str_max j" if "j < CFG_PARAM_MAX_NUM" "\<not> is_int j" for j
    using that assms frame(3,4) cfg_wf_str(2) [OF assms(1) that] by (cases "j = i") simp_all
  then show "cfg_wf (stored_str i s st)" using assms(1) frame(1,2) by (simp add: cfg_wf_def cfg_shape_def)
  have "str_val j (stored_str i s st) = (if j = i then s else str_val j st)" if "j < CFG_PARAM_MAX_NUM" "\<not> is_int j" for j
    using that frame(5,6) cfg_wf_str(2) [OF assms(1) that] by simp
  then show "cfg_abs (stored_str i s st) = (cfg_abs st)(i \<mapsto> StrVal s)"
    using assms by (auto simp: cfg_abs_def fun_eq_iff)
qed

end
