(* ===== verification/Cfg_Download.thy ===== *)
theory Cfg_Download
  imports Cfg_Inv
begin

text \<open>
  Creation of the store and download of the built-in tables: every loop of \<open>process_cfg_download_req\<close> as a closed form, and the state the
  store is in afterwards.
\<close>

unbundle bit_operations_syntax

section \<open>Creation\<close>

definition str_data :: "nat option list" where
  "str_data = map (\<lambda>i. if cs_control (cfg_static ! i) AND CFG_CTL_INT = 0 then cfg_get_strindex i else None) [0..<CFG_PARAM_MAX_NUM]"

lemma str_data_nth: "i < CFG_PARAM_MAX_NUM \<Longrightarrow> str_data ! i = (if is_int i then None else Some (str_no i))"
  by (simp add: str_data_def is_int_def strindex)

lemma str_max_word: "of_nat (str_max i) = (ucast (ss_maxLen (str_row i)) :: u32)"
  by (simp add: str_max_def)

lemma count_params:
  "n \<le> CFG_PARAM_MAX_NUM \<Longrightarrow> count_params str_data [n..<CFG_PARAM_MAX_NUM] (of_nat (int_no n), of_nat (str_base n)) = (of_nat INT_NUM, of_nat STR_SIZE)"
proof (induction "CFG_PARAM_MAX_NUM - n" arbitrary: n)
  case 0
  then show ?case using int_total str_total by simp
next
  case (Suc d)
  then have n: "n < CFG_PARAM_MAX_NUM" by simp
  then have upt: "[n..<CFG_PARAM_MAX_NUM] = n # [Suc n..<CFG_PARAM_MAX_NUM]" by (simp add: upt_conv_Cons)
  have "count_params str_data [Suc n..<CFG_PARAM_MAX_NUM] (of_nat (int_no (Suc n)), of_nat (str_base (Suc n))) = (of_nat INT_NUM, of_nat STR_SIZE)"
    using Suc n by (intro Suc.hyps(1)) simp_all
  then show ?case unfolding upt
    by (cases "is_int n") (simp_all add: str_data_nth [OF n] str_max_word is_int_def ac_simps)
qed

section \<open>The three loops\<close>

lemma entries:
  "\<lbrakk>n \<le> CFG_PARAM_MAX_NUM; length ctl = CFG_PARAM_MAX_NUM\<rbrakk> \<Longrightarrow>
   dnld_entries str_data [n..<CFG_PARAM_MAX_NUM] (of_nat (int_no n)) (of_nat (str_base n)) ctl = Some (take n ctl @ map cfg_control [n..<CFG_PARAM_MAX_NUM])"
proof (induction "CFG_PARAM_MAX_NUM - n" arbitrary: n ctl)
  case (Suc d)
  then have n: "n < CFG_PARAM_MAX_NUM" by simp
  then have upt: "[n..<CFG_PARAM_MAX_NUM] = n # [Suc n..<CFG_PARAM_MAX_NUM]" by (simp add: upt_conv_Cons)
  have valid: "cs_control (cfg_static ! n) AND CFG_CTL_VALID \<noteq> 0" using row_ok_nth [OF n] by (simp add: row_ok_def)
  have take: "take (Suc n) (ctl[n := cfg_control n]) = take n ctl @ [cfg_control n]"
    using Suc n by (simp add: take_Suc_conv_app_nth)
  have control: "cs_control (cfg_static ! n) OR (of_nat (cfg_index n) AND CFG_BUF_INDX_MASK) = cfg_control n"
    using index_bound [OF n] by (simp add: cfg_control_def low_bits STR_SIZE_def)
  have IH: "dnld_entries str_data [Suc n..<CFG_PARAM_MAX_NUM] (of_nat (int_no (Suc n))) (of_nat (str_base (Suc n))) (ctl[n := cfg_control n]) =
      Some (take (Suc n) (ctl[n := cfg_control n]) @ map cfg_control [Suc n..<CFG_PARAM_MAX_NUM])"
    using Suc n by (intro Suc.hyps(1)) simp_all
  show ?case
  proof (cases "is_int n")
    case True
    with control have "cs_control (cfg_static ! n) OR (of_nat (int_no n) AND CFG_BUF_INDX_MASK) = cfg_control n" by (simp add: cfg_index_def)
    with True IH n take valid Suc.prems show ?thesis unfolding upt
      by (simp add: Let_def is_int_def [symmetric] add.commute) (simp add: is_int_def add.commute)
  next
    case False
    with control have "cs_control (cfg_static ! n) OR (of_nat (str_base n) AND CFG_BUF_INDX_MASK) = cfg_control n" by (simp add: cfg_index_def)
    with False IH n take valid Suc.prems show ?thesis unfolding upt
      by (simp add: Let_def str_data_nth) (simp add: is_int_def str_max_word ac_simps)
  qed
qed simp

lemma max_lens:
  assumes "n \<le> CFG_PARAM_MAX_NUM" "length sbuf = STR_SIZE"
  shows "\<exists>sbuf'. dnld_max_lens (map cfg_control [0..<CFG_PARAM_MAX_NUM]) (rev [0..<n]) (of_nat (str_base n)) sbuf = Some sbuf' \<and>
    length sbuf' = STR_SIZE \<and> (\<forall>i < n. \<not> is_int i \<longrightarrow> sbuf' ! str_base i = ss_maxLen (str_row i)) \<and> (\<forall>k \<ge> str_base n. sbuf' ! k = sbuf ! k)"
  using assms
proof (induction n arbitrary: sbuf)
  case (Suc n)
  let ?ctl = "map cfg_control [0..<CFG_PARAM_MAX_NUM]"
  have n: "n < CFG_PARAM_MAX_NUM" using Suc.prems(1) by simp
  have nth: "?ctl ! n = cfg_control n" using n by simp
  show ?case
  proof (cases "is_int n")
    case True
    then show ?thesis using Suc.IH [of sbuf] Suc.prems control_int [OF n] nth by (auto simp: less_Suc_eq)
  next
    case False
    let ?sbuf = "sbuf[str_base n := ss_maxLen (str_row n)]"
    have b: "str_base n + str_max n + 2 \<le> STR_SIZE" using str_base_bound [OF n False] .
    have start: "cfg_control n AND CFG_BUF_INDX_MASK = (of_nat (str_base n) :: u32)"
      using arg_cong [OF control_index [OF n], of "of_nat :: nat \<Rightarrow> u32"] False by (simp add: cfg_index_def)
    have "unat (of_nat (str_base n) :: u32) = str_base n" using b by (simp add: STR_SIZE_def unat_of_nat take_bit_nat_eq_self)
    moreover have "(of_nat (str_base (Suc n)) :: u32) - of_nat (str_base n) - 2 = of_nat (str_max n)" using False by simp
    moreover have "(ucast (of_nat (str_max n) :: u32) :: u8) = ss_maxLen (str_row n)" by (simp add: str_max_def ucast_up_ucast_id is_up)
    ultimately have step: "dnld_max_lens ?ctl (rev [0..<Suc n]) (of_nat (str_base (Suc n))) sbuf = dnld_max_lens ?ctl (rev [0..<n]) (of_nat (str_base n)) ?sbuf"
      using False control_int [OF n] control_valid [OF n] nth start Suc.prems(2) b by simp
    obtain sbuf' where sbuf': "dnld_max_lens ?ctl (rev [0..<n]) (of_nat (str_base n)) ?sbuf = Some sbuf'" "length sbuf' = STR_SIZE"
      "\<forall>i < n. \<not> is_int i \<longrightarrow> sbuf' ! str_base i = ss_maxLen (str_row i)" "\<forall>k \<ge> str_base n. sbuf' ! k = ?sbuf ! k"
      using Suc.IH [of ?sbuf] Suc.prems by auto
    then show ?thesis unfolding step using False Suc.prems(2) b by (auto simp: less_Suc_eq)
  qed
qed simp

section \<open>Defaults\<close>

definition default_val :: "nat \<Rightarrow> cfg_val" where
  "default_val i = (if is_int i then IntVal (cfgIVal (cfg_static ! i)) else StrVal (take (unat (ss_length (str_row i))) (ss_data (str_row i))))"

text \<open>The third loop has dealt with the parameters below \<open>n\<close>.\<close>

definition dnld_done :: "nat \<Rightarrow> cfg_state \<Rightarrow> bool" where
  "dnld_done n st \<longleftrightarrow> attached st \<and> cfg_entry st = map cfg_control [0..<CFG_PARAM_MAX_NUM] \<and> pStrData st = str_data \<and>
     length (gCfgSBuf st) = STR_SIZE \<and> length (gCfgIBuf st) = INT_NUM \<and> length (gCfgIBufMin st) = INT_NUM \<and>
     length (gCfgIBufMax st) = INT_NUM \<and> gCfgMaxSBufSize st = of_nat STR_SIZE \<and>
     (\<forall>i < n. is_int i \<longrightarrow> gCfgIBufMin st ! int_no i = cfgIMin (cfg_static ! i) \<and>
        gCfgIBufMax st ! int_no i = cfgIMax (cfg_static ! i) \<and> gCfgIBuf st ! int_no i = cfgIVal (cfg_static ! i)) \<and>
     (\<forall>i < CFG_PARAM_MAX_NUM. \<not> is_int i \<longrightarrow> gCfgSBuf st ! str_base i = ss_maxLen (str_row i)) \<and>
     (\<forall>i < n. \<not> is_int i \<longrightarrow> unat (gCfgSBuf st ! (str_base i + 1)) \<le> str_max i \<and> default_val i = StrVal (str_val i st))"

lemma dnld_default_step:
  assumes "dnld_done n st" "n < CFG_PARAM_MAX_NUM"
  shows "\<exists>st'. dnld_default n st = Some st' \<and> dnld_done (Suc n) st'"
proof (cases "is_int n")
  case True
  let ?st = "st\<lparr>gCfgIBufMin := (gCfgIBufMin st)[int_no n := cfgIMin (cfg_static ! n)],
    gCfgIBufMax := (gCfgIBufMax st)[int_no n := cfgIMax (cfg_static ! n)], gCfgIBuf := (gCfgIBuf st)[int_no n := cfgIVal (cfg_static ! n)]\<rparr>"
  have b: "int_no n < INT_NUM" using int_no_bound [OF assms(2) True] .
  have less: "i < n \<Longrightarrow> is_int i \<Longrightarrow> int_no n \<noteq> int_no i" for i using int_no_less [of i n] by simp
  have "dnld_default n st = Some ?st"
    using assms True b control_int [of n] control_index [of n] by (simp add: dnld_default_def dnld_done_def cfg_index_def Let_def)
  moreover have "dnld_done (Suc n) ?st"
    using assms True b less unfolding dnld_done_def by (auto simp: less_Suc_eq str_val_def)
  ultimately show ?thesis by blast
next
  case False
  let ?s = "take (unat (ss_length (str_row n))) (ss_data (str_row n))"
  have b: "str_base n + str_max n + 2 \<le> STR_SIZE" using str_base_bound [OF assms(2) False] .
  have ok: "ss_length (str_row n) \<le> ss_maxLen (str_row n)" "unat (ss_length (str_row n)) \<le> length (ss_data (str_row n))"
    using str_row_ok [OF assms(2) False] by (simp_all add: string_ok_def)
  then have le: "unat (ss_length (str_row n)) \<le> str_max n" by (simp add: str_max_def word_le_nat_alt)
  have len: "length (gCfgSBuf st) = STR_SIZE" and max: "gCfgSBuf st ! str_base n = ss_maxLen (str_row n)"
    using assms False by (simp_all add: dnld_done_def)
  have ls: "length ?s = unat (ss_length (str_row n))" using ok(2) by simp
  have same: "(gCfgSBuf st)[str_base n := ss_maxLen (str_row n)] = gCfgSBuf st" by (simp flip: max)
  have copy: "mem_copy ((gCfgSBuf st)[Suc (str_base n) := ss_length (str_row n)]) (Suc (Suc (str_base n))) (ss_data (str_row n)) (unat (ss_length (str_row n))) =
    Some (gCfgSBuf (stored_str n ?s st))"
    using mem_copy_stored [OF len assms(2) False ok(2) le] by simp
  have "dnld_default n st = Some (stored_str n ?s st)"
    using assms False b le copy max len same control_int [of n] control_valid [of n] control_index [of n] str_data_nth [of n]
    by (simp add: dnld_default_def dnld_done_def cfg_index_def Let_def str_max_def STR_SIZE_def stored_str_def not_less)
  moreover have "dnld_done (Suc n) (stored_str n ?s st)"
    using stored_str_frame [OF len assms(2) False, of ?s] assms False le ls unfolding dnld_done_def
    by (auto simp: less_Suc_eq default_val_def stored_str_simps)
  ultimately show ?thesis by blast
qed

lemma dnld_defaults_append: "dnld_defaults (is @ js) st = Option.bind (dnld_defaults is st) (dnld_defaults js)"
  by (induction "is" arbitrary: st) (simp_all split: bind_split)

lemma dnld_defaults_done:
  "\<lbrakk>dnld_done 0 st; n \<le> CFG_PARAM_MAX_NUM\<rbrakk> \<Longrightarrow> \<exists>st'. dnld_defaults [0..<n] st = Some st' \<and> dnld_done n st'"
proof (induction n)
  case (Suc n)
  then obtain st' where "dnld_defaults [0..<n] st = Some st'" "dnld_done n st'" by auto
  with dnld_default_step [of n st'] Suc.prems(2) show ?case by (auto simp: dnld_defaults_append)
qed simp

lemma dnld_done_wf:
  assumes "dnld_done CFG_PARAM_MAX_NUM st"
  shows "cfg_wf st" "i < CFG_PARAM_MAX_NUM \<Longrightarrow> cfg_abs st i = Some (default_val i)"
proof -
  show "cfg_wf st" using assms row_ok_nth unfolding cfg_wf_def cfg_shape_def dnld_done_def
    by (auto simp: int_ok_def row_ok_def is_int_def)
  show "cfg_abs st i = Some (default_val i)" if "i < CFG_PARAM_MAX_NUM"
    using that assms by (auto simp: cfg_abs_def dnld_done_def default_val_def)
qed

section \<open>A store after creation and download\<close>

lemma cfg_init_ok:
  assumes "1024 \<le> page_size" "mem STR_SIZE INT_NUM = Some (sbuf, ibuf, imin, imax)"
  shows "cfg_init page_size mem st = (st\<lparr>attached := True, pStrData := str_data, gCfgMaxIBufSize := of_nat INT_NUM, gCfgMaxSBufSize := of_nat STR_SIZE,
    gCfgSBuf := sbuf, gCfgIBuf := ibuf, gCfgIBufMin := imin, gCfgIBufMax := imax\<rparr>, eSIR_CFG_OK)"
  using assms count_params [of 0] unfolding cfg_init_def str_data_def [symmetric]
  by (simp add: Let_def INT_NUM_def STR_SIZE_def)

text \<open>A store after \<open>cfg_init\<close>.\<close>

definition created :: "cfg_state \<Rightarrow> bool" where
  "created st \<longleftrightarrow> attached st \<and> pStrData st = str_data \<and> length (cfg_entry st) = CFG_PARAM_MAX_NUM \<and> length (gCfgSBuf st) = STR_SIZE \<and>
     length (gCfgIBuf st) = INT_NUM \<and> length (gCfgIBufMin st) = INT_NUM \<and> length (gCfgIBufMax st) = INT_NUM \<and>
     gCfgMaxIBufSize st = of_nat INT_NUM \<and> gCfgMaxSBufSize st = of_nat STR_SIZE"

lemma cfg_init_created:
  assumes "1024 \<le> page_size" "mem 1271 181 = Some (sbuf, ibuf, imin, imax)" "length sbuf = 1271" "length ibuf = 181" "length imin = 181"
    "length imax = 181" "length (cfg_entry st) = CFG_PARAM_MAX_NUM"
  shows "\<exists>st0. cfg_init page_size mem st = (st0, eSIR_CFG_OK) \<and> created st0 \<and> cfg_sent st0 = cfg_sent st \<and> s_buffer st0 = s_buffer st"
  using assms cfg_init_ok [of page_size mem sbuf ibuf imin imax st] by (simp add: created_def INT_NUM_def STR_SIZE_def)

lemma log_level_int: "is_int WNI_CFG_LOG_LEVEL"
  by code_simp

lemma dnld_default_s_buffer: "dnld_default i st = Some st' \<Longrightarrow> s_buffer st' = s_buffer st"
  by (auto simp: dnld_default_def Let_def split: if_splits option.splits bind_splits)

lemma dnld_defaults_s_buffer: "dnld_defaults is st = Some st' \<Longrightarrow> s_buffer st' = s_buffer st"
  by (induction "is" arbitrary: st) (auto simp: dnld_default_s_buffer split: bind_splits)

lemma download_ok:
  assumes "created st"
  shows "\<exists>st'. process_cfg_download_req stack st = Some st' \<and> cfg_wf st' \<and> gCfgStatus st' = CFG_SUCCESS \<and>
    (\<forall>i < CFG_PARAM_MAX_NUM. cfg_abs st' i = Some (default_val i)) \<and> gCfgLogLevel st' = cfgIVal (cfg_static ! WNI_CFG_LOG_LEVEL) \<and>
    s_buffer st' = s_buffer st"
proof -
  have ctl: "dnld_entries (pStrData st) [0..<CFG_PARAM_MAX_NUM] 0 0 (cfg_entry st) = Some (map cfg_control [0..<CFG_PARAM_MAX_NUM])"
    using entries [of 0 "cfg_entry st"] assms by (simp add: created_def)
  have bufEnd: "(of_nat (str_base CFG_PARAM_MAX_NUM) :: u32) = ucast (gCfgMaxSBufSize st)"
    using assms unfolding str_total by (simp add: created_def STR_SIZE_def)
  obtain sbuf where sbuf: "dnld_max_lens (map cfg_control [0..<CFG_PARAM_MAX_NUM]) (rev [0..<CFG_PARAM_MAX_NUM]) (ucast (gCfgMaxSBufSize st)) (gCfgSBuf st) = Some sbuf"
    "length sbuf = STR_SIZE" "\<forall>i < CFG_PARAM_MAX_NUM. \<not> is_int i \<longrightarrow> sbuf ! str_base i = ss_maxLen (str_row i)"
    using max_lens [of CFG_PARAM_MAX_NUM "gCfgSBuf st"] assms unfolding bufEnd by (auto simp: created_def)
  let ?st = "st\<lparr>cfg_entry := map cfg_control [0..<CFG_PARAM_MAX_NUM], gCfgSBuf := sbuf\<rparr>"
  have "dnld_done 0 ?st" using assms sbuf by (simp add: dnld_done_def created_def)
  then obtain st' where st': "dnld_defaults [0..<CFG_PARAM_MAX_NUM] ?st = Some st'" "dnld_done CFG_PARAM_MAX_NUM st'"
    using dnld_defaults_done by blast
  note wf = dnld_done_wf [OF st'(2)]
  let ?st' = "st'\<lparr>gCfgLogLevel := cfgIVal (cfg_static ! WNI_CFG_LOG_LEVEL), gCfgStatus := CFG_SUCCESS\<rparr>"
  have "wlan_cfg_get_int WNI_CFG_LOG_LEVEL st' = Some (Inr (cfgIVal (cfg_static ! WNI_CFG_LOG_LEVEL)))"
    using get_int [OF wf(1), of WNI_CFG_LOG_LEVEL] wf(2) [of WNI_CFG_LOG_LEVEL] log_level_int by (simp add: cfg_abs_def default_val_def)
  then have "process_cfg_download_req stack st = Some ?st'"
    using assms ctl sbuf(1) st'(1) by (simp add: process_cfg_download_req_def created_def)
  moreover have "cfg_wf ?st'" "cfg_abs ?st' = cfg_abs st'" using wf(1) by (simp_all add: cfg_wf_def cfg_shape_def cfg_abs_def str_val_def fun_eq_iff)
  ultimately show ?thesis using wf(2) dnld_defaults_s_buffer [OF st'(1)] by auto
qed

text \<open>
  C7: After \<open>cfg_init\<close>, whose four arrays the allocator returns with any contents, \<open>process_cfg_download_req\<close> ends without an access outside
  an array and the store is ready: every integer parameter of \<open>cfg_static\<close> reads as its default, which is within its range, every
  string parameter as the default bytes of its entry in \<open>cfg_static_string\<close> with that entry's maximal length, and every other
  identifier is refused.
\<close>

theorem cfg_download_defaults:
  assumes "1024 \<le> page_size" "mem 1271 181 = Some (sbuf, ibuf, imin, imax)" "length sbuf = 1271" "length ibuf = 181" "length imin = 181"
    "length imax = 181" "length (cfg_entry st) = CFG_PARAM_MAX_NUM"
  shows "\<exists>st1 st2. cfg_init page_size mem st = (st1, eSIR_CFG_OK) \<and> process_cfg_download_req stack st1 = Some st2 \<and> gCfgStatus st2 = CFG_SUCCESS \<and>
    (\<forall>i. if i \<ge> CFG_PARAM_MAX_NUM then wlan_cfg_get_int i st2 = Some (Inl eSIR_CFG_INVALID_ID)
      else if is_int i then wlan_cfg_get_int i st2 = Some (Inr (cfgIVal (cfg_static ! i))) \<and>
        cfgIMin (cfg_static ! i) \<le> cfgIVal (cfg_static ! i) \<and> cfgIVal (cfg_static ! i) \<le> cfgIMax (cfg_static ! i)
      else \<exists>k. cfg_get_strindex i = Some k \<and>
        wlan_cfg_get_str i (unat (ss_maxLen (cfg_static_string ! k))) st2 =
          Some (Inr (take (unat (ss_length (cfg_static_string ! k))) (ss_data (cfg_static_string ! k)))) \<and>
        wlan_cfg_get_str_max_len i st2 = Some (Inr (unat (ss_maxLen (cfg_static_string ! k)))))"
proof -
  obtain st1 where st1: "cfg_init page_size mem st = (st1, eSIR_CFG_OK)" "created st1" using cfg_init_created [of page_size mem, OF assms] by auto
  obtain st2 where st2: "process_cfg_download_req stack st1 = Some st2" "cfg_wf st2" "gCfgStatus st2 = CFG_SUCCESS"
    "\<forall>i < CFG_PARAM_MAX_NUM. cfg_abs st2 i = Some (default_val i)" using download_ok [OF st1(2)] by blast
  have int: "wlan_cfg_get_int i st2 = Some (Inr (cfgIVal (cfg_static ! i)))" "cfgIMin (cfg_static ! i) \<le> cfgIVal (cfg_static ! i)"
    "cfgIVal (cfg_static ! i) \<le> cfgIMax (cfg_static ! i)" if "i < CFG_PARAM_MAX_NUM" "is_int i" for i
    using that st2 get_int [OF st2(2) that] row_ok_nth [OF that(1)] by (auto simp: cfg_abs_def default_val_def row_ok_def is_int_def)
  have str: "wlan_cfg_get_str i (str_max i) st2 = Some (Inr (take (unat (ss_length (str_row i))) (ss_data (str_row i))))"
    "wlan_cfg_get_str_max_len i st2 = Some (Inr (str_max i))" if "i < CFG_PARAM_MAX_NUM" "\<not> is_int i" for i
    using that st2 get_str [OF st2(2) that] str_row_ok [OF that]
    by (auto simp: cfg_abs_def default_val_def string_ok_def str_max_def word_le_nat_alt not_less)
  have none: "wlan_cfg_get_int i st2 = Some (Inl eSIR_CFG_INVALID_ID)" if "i \<ge> CFG_PARAM_MAX_NUM" for i
    using that check_valid [OF cfg_wf_shape [OF st2(2)], of i] by (simp add: wlan_cfg_get_int_def)
  show ?thesis
    by (rule exI [of _ st1], rule exI [of _ st2], intro conjI allI st1(1) st2)
      (use int str none strindex in \<open>auto simp: str_max_def\<close>)
qed

section \<open>A store for examples\<close>

definition sample_mem :: "nat \<Rightarrow> nat \<Rightarrow> (u8 list \<times> u32 list \<times> u32 list \<times> u32 list) option" where
  "sample_mem s i = Some (replicate s 0, replicate i 0, replicate i 0, replicate i 0)"

definition sample_start :: cfg_state where
  "sample_start = \<lparr>gCfgStatus = CFG_INCOMPLETE, attached = False, cfg_entry = replicate CFG_PARAM_MAX_NUM 0, s_buffer = replicate CFG_MAX_STR_LEN 0,
     pStrData = [], gCfgSBuf = [], gCfgIBuf = [], gCfgIBufMin = [], gCfgIBufMax = [], gCfgMaxIBufSize = 0, gCfgMaxSBufSize = 0,
     gCfgLogLevel = 0, cfg_sent = []\<rparr>"

definition sample_store :: cfg_state where
  "sample_store = the (process_cfg_download_req 0 (fst (cfg_init 4096 sample_mem sample_start)))"

lemma sample_mem: "sample_mem 1271 181 = Some (replicate 1271 0, replicate 181 0, replicate 181 0, replicate 181 0)"
  by (simp add: sample_mem_def)

lemma sample_store: "cfg_wf sample_store" "gCfgStatus sample_store = CFG_SUCCESS" "length (s_buffer sample_store) = CFG_MAX_STR_LEN"
proof -
  obtain st1 where st1: "cfg_init 4096 sample_mem sample_start = (st1, eSIR_CFG_OK)" "created st1" "s_buffer st1 = s_buffer sample_start"
    using cfg_init_created [of 4096 sample_mem, OF _ sample_mem, of sample_start] by (auto simp: sample_start_def)
  with download_ok [OF st1(2), of 0] show "cfg_wf sample_store" "gCfgStatus sample_store = CFG_SUCCESS" "length (s_buffer sample_store) = CFG_MAX_STR_LEN"
    by (auto simp: sample_store_def sample_start_def)
qed

lemma cfg_download_defaults_witness:
  "\<exists>st1 st2. cfg_init 4096 sample_mem sample_start = (st1, eSIR_CFG_OK) \<and> process_cfg_download_req 0 st1 = Some st2 \<and>
    wlan_cfg_get_int WNI_CFG_BEACON_INTERVAL st2 = Some (Inr 100) \<and> wlan_cfg_get_int 222 st2 = Some (Inl eSIR_CFG_INVALID_ID)"
proof -
  obtain st1 st2 where st: "cfg_init 4096 sample_mem sample_start = (st1, eSIR_CFG_OK)" "process_cfg_download_req 0 st1 = Some st2"
    "\<forall>i. if i \<ge> CFG_PARAM_MAX_NUM then wlan_cfg_get_int i st2 = Some (Inl eSIR_CFG_INVALID_ID)
      else if is_int i then wlan_cfg_get_int i st2 = Some (Inr (cfgIVal (cfg_static ! i))) \<and>
        cfgIMin (cfg_static ! i) \<le> cfgIVal (cfg_static ! i) \<and> cfgIVal (cfg_static ! i) \<le> cfgIMax (cfg_static ! i)
      else \<exists>k. cfg_get_strindex i = Some k \<and>
        wlan_cfg_get_str i (unat (ss_maxLen (cfg_static_string ! k))) st2 =
          Some (Inr (take (unat (ss_length (cfg_static_string ! k))) (ss_data (cfg_static_string ! k)))) \<and>
        wlan_cfg_get_str_max_len i st2 = Some (Inr (unat (ss_maxLen (cfg_static_string ! k))))"
    using cfg_download_defaults [of 4096 sample_mem, OF _ sample_mem, of sample_start 0] by (auto simp: sample_start_def)
  have "is_int WNI_CFG_BEACON_INTERVAL" "cfgIVal (cfg_static ! WNI_CFG_BEACON_INTERVAL) = 100" by code_simp+
  with st(1,2) spec [OF st(3), of WNI_CFG_BEACON_INTERVAL] spec [OF st(3), of 222] show ?thesis by auto
qed

end
