(* ===== verification/Cfg_Refine.thy ===== *)
theory Cfg_Refine
  imports Cfg_Download
begin

text \<open>
  A store of parameters as an interface, proved of the configuration store: writes that fit update a map, others are refused and change
  nothing. What happens when an access of the wrong kind is made to a parameter.
\<close>

section \<open>The interface\<close>

locale param_store =
  fixes inv :: "'s \<Rightarrow> bool" and abs :: "'s \<Rightarrow> 'k \<Rightarrow> 'v option" and well :: "'c \<Rightarrow> bool" and fits :: "'c \<Rightarrow> bool"
    and key :: "'c \<Rightarrow> 'k" and val :: "'c \<Rightarrow> 'v" and step :: "'c \<Rightarrow> 's \<Rightarrow> ('s \<times> bool) option"
  assumes step_fits: "\<lbrakk>inv st; well c; fits c\<rbrakk> \<Longrightarrow> \<exists>st'. step c st = Some (st', True) \<and> inv st' \<and> abs st' = (abs st)(key c \<mapsto> val c)"
    and step_refused: "\<lbrakk>inv st; well c; \<not> fits c\<rbrakk> \<Longrightarrow> step c st = Some (st, False)"
begin

primrec steps :: "'c list \<Rightarrow> 's \<Rightarrow> ('s \<times> bool list) option" where
  "steps [] st = Some (st, [])"
| "steps (c # cs) st = Option.bind (step c st) (\<lambda>(st, b). map_option (\<lambda>(st, bs). (st, b # bs)) (steps cs st))"

lemma steps_refine:
  "\<lbrakk>inv st; list_all well cs\<rbrakk> \<Longrightarrow>
   \<exists>st'. steps cs st = Some (st', map fits cs) \<and> inv st' \<and> abs st' = fold (\<lambda>c m. m(key c \<mapsto> val c)) (filter fits cs) (abs st)"
proof (induction cs arbitrary: st)
  case (Cons c cs)
  show ?case
  proof (cases "fits c")
    case True
    then obtain st1 where st1: "step c st = Some (st1, True)" "inv st1" "abs st1 = (abs st)(key c \<mapsto> val c)"
      using step_fits [of st c] Cons.prems by auto
    with Cons.IH [of st1] Cons.prems(2) True show ?thesis by auto
  next
    case False
    then have "step c st = Some (st, False)" using step_refused [of st c] Cons.prems by simp
    with Cons.IH [of st] Cons.prems False show ?thesis by auto
  qed
qed simp

end

section \<open>Writes of the configuration store\<close>

text \<open>A call of \<open>cfg_set_int\<close> or \<open>cfg_set_str\<close>, whose length is that of the bytes passed.\<close>

datatype cfg_write = SetInt nat u32 | SetStr nat "u8 list"

primrec write_key :: "cfg_write \<Rightarrow> nat" where
  "write_key (SetInt i n) = i"
| "write_key (SetStr i s) = i"

primrec write_val :: "cfg_write \<Rightarrow> cfg_val" where
  "write_val (SetInt i n) = IntVal n"
| "write_val (SetStr i s) = StrVal s"

text \<open>A map after writes.\<close>

definition cfg_updates :: "cfg_write list \<Rightarrow> (nat \<Rightarrow> cfg_val option) \<Rightarrow> nat \<Rightarrow> cfg_val option" where
  "cfg_updates cs m = fold (\<lambda>c m. m(write_key c \<mapsto> write_val c)) cs m"

text \<open>The call is made to a parameter of its kind, or to no parameter.\<close>

primrec well_kinded :: "cfg_write \<Rightarrow> bool" where
  "well_kinded (SetInt i n) = (i \<ge> CFG_PARAM_MAX_NUM \<or> is_int i)"
| "well_kinded (SetStr i s) = (i \<ge> CFG_PARAM_MAX_NUM \<or> \<not> is_int i)"

primrec write_fits :: "cfg_write \<Rightarrow> bool" where
  "write_fits (SetInt i n) = (i < CFG_PARAM_MAX_NUM \<and> int_ok i n)"
| "write_fits (SetStr i s) = (i < CFG_PARAM_MAX_NUM \<and> length s \<le> str_max i)"

primrec write_call :: "cfg_write \<Rightarrow> cfg_state \<Rightarrow> (cfg_state \<times> bool) option" where
  "write_call (SetInt i n) st = map_option (\<lambda>(st, r). (st, r = eSIR_CFG_OK)) (cfg_set_int i n st)"
| "write_call (SetStr i s) st = map_option (\<lambda>(st, r). (st, r = eSIR_CFG_OK)) (cfg_set_str i s (length s) st)"

lemma set_unknown:
  assumes "cfg_wf st" "i \<ge> CFG_PARAM_MAX_NUM"
  shows "cfg_set_int i n st = Some (st, eSIR_CFG_INVALID_ID)" "cfg_set_str i s len st = Some (st, eSIR_CFG_INVALID_ID)"
  using assms by (simp_all add: cfg_set_int_def cfg_set_str_def cfg_set_str_notify_def check_valid)

lemma write_call_fits:
  assumes "cfg_wf st" "well_kinded c" "write_fits c"
  shows "\<exists>st'. write_call c st = Some (st', True) \<and> cfg_wf st' \<and> cfg_abs st' = (cfg_abs st)(write_key c \<mapsto> write_val c)"
  using assms by (cases c) (auto simp: set_int set_str stored_int_wf stored_str_wf)

lemma write_call_refused:
  assumes "cfg_wf st" "well_kinded c" "\<not> write_fits c"
  shows "write_call c st = Some (st, False)"
  using assms by (cases c; cases "write_key c < CFG_PARAM_MAX_NUM") (auto simp: set_int set_str set_unknown)

interpretation store: param_store cfg_wf cfg_abs well_kinded write_fits write_key write_val write_call
  using write_call_fits write_call_refused by unfold_locales auto

text \<open>A sequence of calls, with what each returned.\<close>

primrec cfg_writes :: "cfg_write list \<Rightarrow> cfg_state \<Rightarrow> (cfg_state \<times> bool list) option" where
  "cfg_writes [] st = Some (st, [])"
| "cfg_writes (c # cs) st = Option.bind (write_call c st) (\<lambda>(st, b). map_option (\<lambda>(st, bs). (st, b # bs)) (cfg_writes cs st))"

lemma cfg_writes_steps: "cfg_writes cs st = store.steps cs st"
  by (induction cs arbitrary: st) (simp_all split: bind_split)

text \<open>
  C8: The configuration store refines a map from identifiers to values. Any sequence of \<open>cfg_set_int\<close> and \<open>cfg_set_str\<close> calls, each made
  to a parameter of its kind or to an identifier out of range, runs without an access outside an array; it succeeds exactly for the
  values in the range of the parameter and the strings within its maximal length, the map is updated by the successful calls in their
  order and by nothing else, and \<open>wlan_cfg_get_int\<close> and \<open>wlan_cfg_get_str\<close> read that map.
\<close>

theorem cfg_store_refines:
  assumes "cfg_wf st" "list_all well_kinded cs"
  shows "\<exists>st'. cfg_writes cs st = Some (st', map write_fits cs) \<and> cfg_wf st' \<and>
    cfg_abs st' = cfg_updates (filter write_fits cs) (cfg_abs st) \<and>
    (\<forall>i n. cfg_abs st' i = Some (IntVal n) \<longrightarrow> wlan_cfg_get_int i st' = Some (Inr n)) \<and>
    (\<forall>i s. cfg_abs st' i = Some (StrVal s) \<longrightarrow> wlan_cfg_get_str i (length s) st' = Some (Inr s) \<and> wlan_cfg_get_str_len i st' = Some (Inr (length s)))"
proof -
  obtain st' where st': "cfg_writes cs st = Some (st', map write_fits cs)" "cfg_wf st'"
    "cfg_abs st' = cfg_updates (filter write_fits cs) (cfg_abs st)"
    using store.steps_refine [OF assms] by (auto simp: cfg_writes_steps cfg_updates_def)
  then show ?thesis
    using get_int [OF st'(2)] get_str [OF st'(2)] by (auto simp: cfg_abs_def split: if_splits)
qed

lemma cfg_store_refines_witness:
  "\<exists>st'. cfg_writes [SetInt WNI_CFG_BEACON_INTERVAL 200, SetInt WNI_CFG_BEACON_INTERVAL 70000, SetStr WNI_CFG_SSID [119, 108], SetInt 300 1] sample_store =
      Some (st', [True, False, True, False]) \<and>
    wlan_cfg_get_int WNI_CFG_BEACON_INTERVAL st' = Some (Inr 200) \<and> wlan_cfg_get_str WNI_CFG_SSID 2 st' = Some (Inr [119, 108])"
proof -
  let ?cs = "[SetInt WNI_CFG_BEACON_INTERVAL 200, SetInt WNI_CFG_BEACON_INTERVAL 70000, SetStr WNI_CFG_SSID [119, 108], SetInt 300 1]"
  have fits: "list_all well_kinded ?cs" "map write_fits ?cs = [True, False, True, False]" by code_simp+
  then have "filter write_fits ?cs = [SetInt WNI_CFG_BEACON_INTERVAL 200, SetStr WNI_CFG_SSID [119, 108]]" by simp
  then obtain st' where st': "cfg_writes ?cs sample_store = Some (st', [True, False, True, False])"
    "cfg_abs st' = (cfg_abs sample_store)(WNI_CFG_BEACON_INTERVAL \<mapsto> IntVal 200, WNI_CFG_SSID \<mapsto> StrVal [119, 108])"
    "\<forall>i n. cfg_abs st' i = Some (IntVal n) \<longrightarrow> wlan_cfg_get_int i st' = Some (Inr n)"
    "\<forall>i s. cfg_abs st' i = Some (StrVal s) \<longrightarrow> wlan_cfg_get_str i (length s) st' = Some (Inr s) \<and> wlan_cfg_get_str_len i st' = Some (Inr (length s))"
    using cfg_store_refines [OF sample_store(1) fits(1)] unfolding fits(2) by (auto simp: cfg_updates_def simp del: write_fits.simps cfg_writes.simps)
  from st'(3) have "cfg_abs st' 4 = Some (IntVal 200) \<longrightarrow> wlan_cfg_get_int 4 st' = Some (Inr 200)" by blast
  moreover from st'(4) have "cfg_abs st' 3 = Some (StrVal [119, 108]) \<longrightarrow> wlan_cfg_get_str 3 (length [119 :: u8, 108]) st' = Some (Inr [119, 108])" by blast
  ultimately show ?thesis using st'(1,2) by (auto simp: numeral_2_eq_2)
qed

section \<open>Access of the wrong kind\<close>

text \<open>
  C31: The kind of a parameter is not checked. \<open>wlan_cfg_get_int\<close> and \<open>cfg_set_int\<close> on a string parameter use the offset of the string
  as an index of the integer arrays: from 181 on this is outside them, and below it is the value of another parameter, which
  \<open>cfg_set_int\<close> overwrites when the value is within the range of that parameter.
\<close>

theorem cfg_int_access_of_string:
  assumes "cfg_wf st" "i < CFG_PARAM_MAX_NUM" "\<not> is_int i"
  shows "(181 \<le> str_base i \<longrightarrow> wlan_cfg_get_int i st = None \<and> cfg_set_int i n st = None) \<and>
    (\<forall>j < CFG_PARAM_MAX_NUM. is_int j \<and> int_no j = str_base i \<longrightarrow>
      wlan_cfg_get_int i st = wlan_cfg_get_int j st \<and>
      map_option (\<lambda>(st', r). (cfg_abs st', r)) (cfg_set_int i n st) = map_option (\<lambda>(st', r). (cfg_abs st', r)) (cfg_set_int j n st))"
proof (intro conjI allI impI; (elim conjE)?)
  have i: "cfg_check_valid i st = Inr (str_base i)" using assms by (simp add: check_valid cfg_index_def)
  show "wlan_cfg_get_int i st = None" "cfg_set_int i n st = None" if "181 \<le> str_base i"
    using that assms by (simp_all add: wlan_cfg_get_int_def cfg_set_int_def i entry_def cfg_wf_simps INT_NUM_def)
  fix j assume j: "j < CFG_PARAM_MAX_NUM" "is_int j" "int_no j = str_base i"
  then have b: "str_base i < INT_NUM" using int_no_bound [of j] by simp
  show "wlan_cfg_get_int i st = wlan_cfg_get_int j st"
    using j assms(1) b by (simp add: get_int wlan_cfg_get_int_def [of i] i cfg_wf_simps)
  show "map_option (\<lambda>(st', r). (cfg_abs st', r)) (cfg_set_int i n st) = map_option (\<lambda>(st', r). (cfg_abs st', r)) (cfg_set_int j n st)"
    using j assms by (simp add: set_int set_int_index [OF assms(1,2), of j] cfg_index_def)
qed


lemma cfg_int_access_of_string_witness:
  "wlan_cfg_get_int 56 sample_store = None \<and>
    wlan_cfg_get_int WNI_CFG_STA_ID sample_store = wlan_cfg_get_int WNI_CFG_CFP_PERIOD sample_store"
proof -
  have "str_no 56 = 12" by (simp add: str_no_ids str_ids_def)
  then have base: "181 \<le> str_base 56" by (simp add: str_base_sum str_maxes_def)
  have kinds: "\<not> is_int 56" "\<not> is_int 0" "is_int 1" by (simp_all add: is_int_ids str_ids_def)
  show ?thesis
    using cfg_int_access_of_string [OF sample_store(1), of 56] cfg_int_access_of_string [OF sample_store(1), of 0] kinds base by auto
qed

end
