(* ===== verification/Cfg_Msg.thy ===== *)
theory Cfg_Msg
  imports Cfg_Store
begin

text \<open>
  The messages of the host to the configuration store, \<open>core/mac/src/cfg/cfg_proc_msg.c\<close>, and the answers, \<open>cfg_send_msg.c\<close>. A message
  is the words after its header: a read beyond them is \<open>None\<close>, as is a write outside the buffer \<open>gSBuffer\<close>. The machine is little
  endian. \<open>gParamList\<close> is the list of parameters passed to \<open>cfg_send_host_msg\<close>: all that is sent of it is written just before. It is
  \<open>NULL\<close> when the store is not \<open>attached\<close>.
\<close>

unbundle bit_operations_syntax

section \<open>Constants\<close>

abbreviation (input) WNI_CFG_SUCCESS :: u32 where "WNI_CFG_SUCCESS \<equiv> 1"
abbreviation (input) WNI_CFG_NOT_READY :: u32 where "WNI_CFG_NOT_READY \<equiv> 2"
abbreviation (input) WNI_CFG_INVALID_PID :: u32 where "WNI_CFG_INVALID_PID \<equiv> 3"
abbreviation (input) WNI_CFG_INVALID_LEN :: u32 where "WNI_CFG_INVALID_LEN \<equiv> 4"
abbreviation (input) WNI_CFG_RO_PARAM :: u32 where "WNI_CFG_RO_PARAM \<equiv> 5"
abbreviation (input) WNI_CFG_WO_PARAM :: u32 where "WNI_CFG_WO_PARAM \<equiv> 6"
abbreviation (input) WNI_CFG_OTHER_ERROR :: u32 where "WNI_CFG_OTHER_ERROR \<equiv> 8"
abbreviation (input) WNI_CFG_NEED_RESTART :: u32 where "WNI_CFG_NEED_RESTART \<equiv> 9"
abbreviation (input) WNI_CFG_NEED_RELOAD :: u32 where "WNI_CFG_NEED_RELOAD \<equiv> 10"

abbreviation (input) WNI_CFG_PARAM_UPDATE_IND :: nat where "WNI_CFG_PARAM_UPDATE_IND \<equiv> 0x1200"
abbreviation (input) WNI_CFG_DNLD_REQ :: nat where "WNI_CFG_DNLD_REQ \<equiv> 0x1201"
abbreviation (input) WNI_CFG_DNLD_CNF :: nat where "WNI_CFG_DNLD_CNF \<equiv> 0x1202"
abbreviation (input) WNI_CFG_GET_RSP :: nat where "WNI_CFG_GET_RSP \<equiv> 0x1203"
abbreviation (input) WNI_CFG_SET_CNF :: nat where "WNI_CFG_SET_CNF \<equiv> 0x1204"

abbreviation (input) WNI_CFG_MB_HDR_LEN :: nat where "WNI_CFG_MB_HDR_LEN \<equiv> 4"
abbreviation (input) WNI_CFG_DNLD_CNF_NUM :: nat where "WNI_CFG_DNLD_CNF_NUM \<equiv> 1"
abbreviation (input) WNI_CFG_DNLD_CNF_LEN :: nat where "WNI_CFG_DNLD_CNF_LEN \<equiv> 8"
abbreviation (input) WNI_CFG_GET_RSP_NUM :: nat where "WNI_CFG_GET_RSP_NUM \<equiv> 3"
abbreviation (input) WNI_CFG_GET_RSP_PARTIAL_LEN :: nat where "WNI_CFG_GET_RSP_PARTIAL_LEN \<equiv> 16"
abbreviation (input) WNI_CFG_SET_CNF_NUM :: nat where "WNI_CFG_SET_CNF_NUM \<equiv> 2"
abbreviation (input) WNI_CFG_SET_CNF_LEN :: nat where "WNI_CFG_SET_CNF_LEN \<equiv> 12"
abbreviation (input) CFG_STA_MAGIC_DWORD :: u32 where "CFG_STA_MAGIC_DWORD \<equiv> 0xbeefbeef"

section \<open>Bytes and words\<close>

definition word_bytes :: "u32 \<Rightarrow> u8 list" where
  "word_bytes w = [ucast w, ucast (drop_bit 8 w), ucast (drop_bit 16 w), ucast (drop_bit 24 w)]"

definition bytes_word :: "u8 \<Rightarrow> u8 \<Rightarrow> u8 \<Rightarrow> u8 \<Rightarrow> u32" where
  "bytes_word a b c d = ucast a OR push_bit 8 (ucast b) OR push_bit 16 (ucast c) OR push_bit 24 (ucast d)"

definition mem_bytes :: "u32 list \<Rightarrow> u8 list" where
  "mem_bytes ws = concat (map word_bytes ws)"

fun mem_words :: "u8 list \<Rightarrow> u32 list" where
  "mem_words (a # b # c # d # bs) = bytes_word a b c d # mem_words bs"
| "mem_words bs = []"

definition sir_read_u32_n :: "u32 \<Rightarrow> u32" where
  "sir_read_u32_n w = (case word_bytes w of [a, b, c, d] \<Rightarrow> bytes_word d c b a | _ \<Rightarrow> 0)"

definition round_up_4 :: "nat \<Rightarrow> nat" where
  "round_up_4 n = (n + 3) div 4 * 4"

section \<open>Answers\<close>

text \<open>
  \<open>alloc\<close>: whether an allocation of that many bytes succeeds. A data pointer is \<open>None\<close> for \<open>NULL\<close>, or the words it points to.
\<close>

definition cfg_send_host_msg ::
    "(cfg_state \<Rightarrow> nat \<Rightarrow> bool) \<Rightarrow> nat \<Rightarrow> nat \<Rightarrow> nat \<Rightarrow> u32 list \<Rightarrow> nat \<Rightarrow> u32 list option \<Rightarrow> cfg_state \<Rightarrow> cfg_state option" where
  "cfg_send_host_msg alloc msgType msgLen paramNum pParamList dataLen pData st =
     (if dataLen > 0 \<and> pData = None then Some st
      else if \<not> alloc st msgLen then Some st
      else if msgType \<in> {WNI_CFG_GET_RSP, WNI_CFG_PARAM_UPDATE_IND, WNI_CFG_DNLD_REQ, WNI_CFG_DNLD_CNF, WNI_CFG_SET_CNF} then
        do { params \<leftarrow> mem_read pParamList 0 paramNum;
             data \<leftarrow> (case pData of None \<Rightarrow> Some [] | Some ws \<Rightarrow> mem_read ws 0 (dataLen div 4));
             if 4 + 4 * length params + 4 * length data \<le> msgLen
             then Some (st\<lparr>cfg_sent := cfg_sent st @ [HostMsg msgType (of_nat msgLen) params data]\<rparr>) else None }
      else Some st)"

section \<open>Requests\<close>

definition check_param :: "nat \<Rightarrow> u32 \<Rightarrow> u32 \<Rightarrow> cfg_state \<Rightarrow> (u32 + unit) option" where
  "check_param cfgId flag failedResult st =
     (if cfgId \<ge> CFG_PARAM_MAX_NUM then Some (Inl WNI_CFG_INVALID_PID)
      else if \<not> attached st then None
      else do { control \<leftarrow> entry (cfg_entry st) cfgId;
                Some (if control AND CFG_CTL_VALID = 0 then Inl WNI_CFG_INVALID_PID
                      else if control AND flag = 0 then Inl failedResult else Inr ()) })"

text \<open>
  One identifier of a get request: the result, \<open>valueLen\<close> and \<open>pValue\<close>, with the store, whose \<open>s_buffer\<close> a string is read into. \<open>ptr_size\<close> is
  \<open>sizeof(pMac->cfg.gSBuffer)\<close>, and \<open>stack\<close> what the variable \<open>value\<close> holds before.
\<close>

definition get_param :: "nat \<Rightarrow> u32 \<Rightarrow> nat \<Rightarrow> cfg_state \<Rightarrow> (u32 \<times> nat \<times> u32 list option \<times> cfg_state) option" where
  "get_param ptr_size stack cfgId st =
     do { r \<leftarrow> check_param cfgId CFG_CTL_RE WNI_CFG_WO_PARAM st;
          case r of
            Inl _ \<Rightarrow> Some (WNI_CFG_INVALID_LEN, 0, None, st)
          | Inr _ \<Rightarrow>
              if (cfg_entry st ! cfgId) AND CFG_CTL_INT \<noteq> 0 then
                do { r \<leftarrow> wlan_cfg_get_int cfgId st;
                     Some (case r of Inr value \<Rightarrow> (WNI_CFG_SUCCESS, 4, Some [value], st) | Inl _ \<Rightarrow> (WNI_CFG_OTHER_ERROR, 4, Some [stack], st)) }
              else do { r \<leftarrow> wlan_cfg_get_str cfgId ptr_size st;
                case r of
                  Inl _ \<Rightarrow> Some (WNI_CFG_OTHER_ERROR, ptr_size, Some (mem_words (s_buffer st)), st)
                | Inr bytes \<Rightarrow>
                    do { buf \<leftarrow> mem_copy (s_buffer st) 0 bytes (length bytes);
                         Some (WNI_CFG_SUCCESS, length bytes, Some (mem_words buf), st\<lparr>s_buffer := buf\<rparr>) } } }"

definition get_rsp :: "(cfg_state \<Rightarrow> nat \<Rightarrow> bool) \<Rightarrow> nat \<Rightarrow> u32 \<times> nat \<times> u32 list option \<times> cfg_state \<Rightarrow> cfg_state option" where
  "get_rsp alloc cfgId = (\<lambda>(result, valueLen, pValue, st).
     if \<not> attached st then None else cfg_send_host_msg alloc WNI_CFG_GET_RSP (WNI_CFG_GET_RSP_PARTIAL_LEN + round_up_4 valueLen) WNI_CFG_GET_RSP_NUM
       [result, of_nat cfgId, of_nat valueLen] (round_up_4 valueLen) pValue st)"

function get_params :: "(cfg_state \<Rightarrow> nat \<Rightarrow> bool) \<Rightarrow> nat \<Rightarrow> u32 \<Rightarrow> nat \<Rightarrow> u32 list \<Rightarrow> cfg_state \<Rightarrow> cfg_state option" where
  "get_params alloc ptr_size stack len pParam st =
     (if len < 4 then Some st
      else case pParam of
        [] \<Rightarrow> None
      | w # ws \<Rightarrow>
          let cfgId = unat (ucast w :: u16) in
          do { r \<leftarrow> get_param ptr_size stack cfgId st;
               st \<leftarrow> get_rsp alloc cfgId r;
               get_params alloc ptr_size stack (len - 4) ws st })"
  by pat_completeness auto
termination by (relation "measure (\<lambda>(alloc, ptr_size, stack, len, pParam, st). len)") auto

definition proc_get_req :: "(cfg_state \<Rightarrow> nat \<Rightarrow> bool) \<Rightarrow> nat \<Rightarrow> u32 \<Rightarrow> u16 \<Rightarrow> u32 list \<Rightarrow> cfg_state \<Rightarrow> cfg_state option" where
  "proc_get_req alloc ptr_size stack len pParam st =
     (if gCfgStatus st = CFG_INCOMPLETE then
        if \<not> attached st then None
        else do { w \<leftarrow> entry pParam 0;
             cfg_send_host_msg alloc WNI_CFG_GET_RSP WNI_CFG_GET_RSP_PARTIAL_LEN WNI_CFG_GET_RSP_NUM
               [WNI_CFG_NOT_READY, ucast (ucast (sir_read_u32_n w) :: u16), 0] 0 None st }
      else get_params alloc ptr_size stack (unat len) pParam st)"

text \<open>The result of a write that succeeded.\<close>

definition set_result :: "nat \<Rightarrow> cfg_ret \<Rightarrow> cfg_state \<Rightarrow> u32 option" where
  "set_result cfgId r st =
     (if r \<noteq> eSIR_CFG_OK then Some WNI_CFG_OTHER_ERROR
      else do { restart \<leftarrow> cfg_need_restart cfgId st;
                if restart then Some WNI_CFG_NEED_RESTART
                else do { reload \<leftarrow> cfg_need_reload cfgId st;
                          Some (if reload then WNI_CFG_NEED_RELOAD else WNI_CFG_SUCCESS) } })"

text \<open>One TLV of a set request, whose value starts at \<open>pParam\<close>; \<open>len\<close> bytes of the message are left.\<close>

definition set_param :: "nat \<Rightarrow> nat \<Rightarrow> nat \<Rightarrow> u32 list \<Rightarrow> cfg_state \<Rightarrow> (u32 \<times> cfg_state) option" where
  "set_param cfgId valueLen len pParam st =
     do { r \<leftarrow> check_param cfgId CFG_CTL_WE WNI_CFG_RO_PARAM st;
          case r of
            Inl _ \<Rightarrow> Some (WNI_CFG_INVALID_LEN, st)
          | Inr _ \<Rightarrow>
              if (cfg_entry st ! cfgId) AND CFG_CTL_INT \<noteq> 0 then
                if valueLen \<noteq> 4 then Some (WNI_CFG_INVALID_LEN, st)
                else do { value \<leftarrow> entry pParam 0;
                          (st, r) \<leftarrow> cfg_set_int cfgId value st;
                          result \<leftarrow> set_result cfgId r st;
                          Some (result, st) }
              else if round_up_4 valueLen mod 2 ^ 16 > len then Some (WNI_CFG_INVALID_LEN, st)
              else do { buf \<leftarrow> mem_copy (s_buffer st) 0 (mem_bytes pParam) valueLen;
                        (st, r) \<leftarrow> cfg_set_str cfgId buf valueLen (st\<lparr>s_buffer := buf\<rparr>);
                        result \<leftarrow> set_result cfgId r st;
                        Some (result, st) } }"

definition set_cnf :: "(cfg_state \<Rightarrow> nat \<Rightarrow> bool) \<Rightarrow> bool \<Rightarrow> nat \<Rightarrow> u32 \<times> cfg_state \<Rightarrow> cfg_state option" where
  "set_cnf alloc fRsp cfgId = (\<lambda>(result, st).
     if \<not> attached st then None
     else if fRsp then cfg_send_host_msg alloc WNI_CFG_SET_CNF WNI_CFG_SET_CNF_LEN WNI_CFG_SET_CNF_NUM [result, of_nat cfgId] 0 None st else Some st)"

function set_params :: "(cfg_state \<Rightarrow> nat \<Rightarrow> bool) \<Rightarrow> bool \<Rightarrow> nat \<Rightarrow> u32 list \<Rightarrow> cfg_state \<Rightarrow> cfg_state option" where
  "set_params alloc fRsp len pParam st =
     (if len < 8 then Some st
      else case pParam of
        w # v # ws \<Rightarrow>
          let cfgId = unat (ucast w :: u16); valueLen = unat (ucast v :: u16); rounded = round_up_4 valueLen mod 2 ^ 16 in
          do { r \<leftarrow> set_param cfgId valueLen (len - 8) ws st;
               st \<leftarrow> set_cnf alloc fRsp cfgId r;
               if rounded > len - 8 then Some st else set_params alloc fRsp (len - 8 - rounded) (drop (rounded div 4) ws) st }
      | _ \<Rightarrow> None)"
  by pat_completeness auto
termination by (relation "measure (\<lambda>(alloc, fRsp, len, pParam, st). len)") auto

definition proc_set_req_internal :: "(cfg_state \<Rightarrow> nat \<Rightarrow> bool) \<Rightarrow> u16 \<Rightarrow> u32 list \<Rightarrow> bool \<Rightarrow> cfg_state \<Rightarrow> cfg_state option" where
  "proc_set_req_internal alloc len pParam fRsp st =
     (if gCfgStatus st = CFG_INCOMPLETE then
        if \<not> attached st then None
        else do { w \<leftarrow> entry pParam 0;
             if fRsp then cfg_send_host_msg alloc WNI_CFG_SET_CNF WNI_CFG_SET_CNF_LEN WNI_CFG_SET_CNF_NUM
                 [WNI_CFG_NOT_READY, ucast (ucast (sir_read_u32_n w) :: u16)] 0 None st
             else Some st }
      else set_params alloc fRsp (unat len) pParam st)"

definition proc_set_req where "proc_set_req alloc len pParam st = proc_set_req_internal alloc len pParam True st"
definition proc_set_req_no_rsp where "proc_set_req_no_rsp alloc len pParam st = proc_set_req_internal alloc len pParam False st"

section \<open>The download of an image\<close>

definition be_bytes :: "u32 \<Rightarrow> u8 list" where
  "be_bytes w = [ucast (drop_bit 24 w), ucast (drop_bit 16 w), ucast (drop_bit 8 w), ucast w]"

text \<open>The strings of the image.\<close>

function dnld_strings :: "nat \<Rightarrow> u32 list \<Rightarrow> cfg_state \<Rightarrow> (u32 \<times> cfg_state) option" where
  "dnld_strings strSize pSrc st =
     (if strSize = 0 then Some (WNI_CFG_SUCCESS, st)
      else if strSize < 4 then Some (WNI_CFG_INVALID_LEN, st)
      else case pSrc of
        [] \<Rightarrow> None
      | w # ws \<Rightarrow>
          let paramId = unat (drop_bit 16 w); paramLen = unat (w AND 0xff); paramLenCeil4 = (paramLen + 3) div 4 in
          if strSize - 4 < 4 * paramLenCeil4 then Some (WNI_CFG_INVALID_LEN, st)
          else do { data \<leftarrow> mem_read ws 0 paramLenCeil4;
                    (st, r) \<leftarrow> cfg_set_str paramId (concat (map be_bytes data)) paramLen st;
                    if r \<noteq> eSIR_CFG_OK then Some (WNI_CFG_INVALID_LEN, st)
                    else dnld_strings (strSize - 4 - 4 * paramLenCeil4) (drop paramLenCeil4 ws) st })"
  by pat_completeness auto
termination by (relation "measure (\<lambda>(strSize, pSrc, st). strSize)") auto

text \<open>The image after the magic word, of which \<open>len\<close> bytes are in the message. The result is \<open>retVal\<close>.\<close>

definition dnld_image :: "u32 \<Rightarrow> u16 \<Rightarrow> u32 list \<Rightarrow> cfg_state \<Rightarrow> (u32 \<times> cfg_state) option" where
  "dnld_image stack len pParam st =
     do { hdr \<leftarrow> mem_read pParam 0 4;
          let controlSize = hdr ! 1; iBufSize = hdr ! 2; sBufSize = hdr ! 3; pSrc = drop 4 pParam; n = unat (gCfgMaxIBufSize st);
              expLen = (of_nat ((CFG_PARAM_MAX_NUM + 3 * n) * 4) + sBufSize + 16 :: u32) in
          if ucast len \<noteq> expLen then Some (WNI_CFG_INVALID_LEN, st)
          else if controlSize \<noteq> of_nat CFG_PARAM_MAX_NUM then Some (WNI_CFG_INVALID_LEN, st)
          else if iBufSize \<noteq> ucast (gCfgMaxIBufSize st) then Some (WNI_CFG_INVALID_LEN, st)
          else if \<not> attached st then None
          else do { ctl \<leftarrow> mem_copy (cfg_entry st) 0 pSrc CFG_PARAM_MAX_NUM;
                    ibuf \<leftarrow> mem_copy (gCfgIBuf st) 0 (drop CFG_PARAM_MAX_NUM pSrc) n;
                    imin \<leftarrow> mem_copy (gCfgIBufMin st) 0 (drop (CFG_PARAM_MAX_NUM + n) pSrc) n;
                    imax \<leftarrow> mem_copy (gCfgIBufMax st) 0 (drop (CFG_PARAM_MAX_NUM + 2 * n) pSrc) n;
                    sbuf \<leftarrow> dnld_max_lens ctl (rev [0..<CFG_PARAM_MAX_NUM]) (ucast (gCfgMaxSBufSize st)) (gCfgSBuf st);
                    (retVal, st) \<leftarrow> dnld_strings (unat sBufSize) (drop (CFG_PARAM_MAX_NUM + 3 * n) pSrc)
                      (st\<lparr>cfg_entry := ctl, gCfgIBuf := ibuf, gCfgIBufMin := imin, gCfgIBufMax := imax, gCfgSBuf := sbuf\<rparr>);
                    if retVal \<noteq> WNI_CFG_SUCCESS then Some (retVal, st)
                    else do { r \<leftarrow> wlan_cfg_get_int WNI_CFG_LOG_LEVEL st;
                              Some (WNI_CFG_SUCCESS, st\<lparr>gCfgLogLevel := (case r of Inl _ \<Rightarrow> stack | Inr logLevel \<Rightarrow> logLevel),
                                gCfgStatus := CFG_SUCCESS\<rparr>) } } }"

definition proc_dnld_rsp :: "(cfg_state \<Rightarrow> nat \<Rightarrow> bool) \<Rightarrow> u32 \<Rightarrow> u16 \<Rightarrow> u32 list \<Rightarrow> cfg_state \<Rightarrow> cfg_state option" where
  "proc_dnld_rsp alloc stack len pParam st =
     do { magic \<leftarrow> entry pParam 0;
          (retVal, st) \<leftarrow> (if magic = CFG_STA_MAGIC_DWORD then dnld_image stack (len - 4) (drop 1 pParam) st else Some (WNI_CFG_INVALID_LEN, st));
          let st = (if retVal \<noteq> WNI_CFG_SUCCESS then st\<lparr>gCfgStatus := CFG_FAILURE\<rparr> else st) in
          if \<not> attached st then None
          else do { st \<leftarrow> cfg_send_host_msg alloc WNI_CFG_DNLD_CNF WNI_CFG_DNLD_CNF_LEN WNI_CFG_DNLD_CNF_NUM [retVal] 0 None st;
                    Some (st\<lparr>cfg_sent := cfg_sent st @ [DownloadComplete]\<rparr>) } }"

section \<open>Dispatch\<close>

definition cfg_process_mb_msg ::
    "(cfg_state \<Rightarrow> nat \<Rightarrow> bool) \<Rightarrow> nat \<Rightarrow> u32 \<Rightarrow> u16 \<Rightarrow> u16 \<Rightarrow> u32 list \<Rightarrow> cfg_state \<Rightarrow> cfg_state option" where
  "cfg_process_mb_msg alloc ptr_size stack msgType msgLen pParam st =
     (let index = msgType AND 0x7f; len = msgLen - of_nat WNI_CFG_MB_HDR_LEN in
      if index \<ge> 4 then Some st
      else if index = 0 then proc_dnld_rsp alloc stack len pParam st
      else if index = 1 then proc_get_req alloc ptr_size stack len pParam st
      else if index = 2 then proc_set_req alloc len pParam st
      else proc_set_req_no_rsp alloc len pParam st)"

declare get_params.simps [simp del] set_params.simps [simp del] dnld_strings.simps [simp del]

end
