(* ===== verification/Cfg_Set.thy ===== *)
theory Cfg_Set
  imports Cfg_Refine Cfg_Msg
begin

text \<open>
  Requests of the host: what a well-formed set request does to the store and what it is answered; the requests whose lengths are not
  checked.
\<close>

unbundle bit_operations_syntax

section \<open>Bytes and words\<close>

lemma word_bytes_word [simp]: "word_bytes (bytes_word a b c d) = [a, b, c, d]"
  unfolding word_bytes_def bytes_word_def list.inject
  by (intro conjI refl; rule bit_word_eqI; auto simp: bit_simps dest: bit_imp_le_length)

lemma mem_bytes_words: "length bs mod 4 = 0 \<Longrightarrow> mem_bytes (mem_words bs) = bs"
  by (induction bs rule: mem_words.induct) (auto simp: mem_bytes_def)

lemma mem_words_length: "length (mem_words bs) = length bs div 4"
  by (induction bs rule: mem_words.induct) auto

lemma round_up_4_ge: "n \<le> round_up_4 n" "round_up_4 n mod 4 = 0" "round_up_4 n < n + 4"
  by (auto simp: round_up_4_def)

section \<open>Well-formed requests\<close>

text \<open>The TLV of a write: a string is padded with zeros.\<close>

definition padded :: "u8 list \<Rightarrow> u8 list" where
  "padded s = s @ replicate (round_up_4 (length s) - length s) 0"

primrec tlv_value :: "cfg_write \<Rightarrow> u32 list" where
  "tlv_value (SetInt i n) = [n]"
| "tlv_value (SetStr i s) = mem_words (padded s)"

primrec tlv_len :: "cfg_write \<Rightarrow> nat" where
  "tlv_len (SetInt i n) = 4"
| "tlv_len (SetStr i s) = length s"

definition tlv :: "cfg_write \<Rightarrow> u32 list" where
  "tlv c = of_nat (write_key c) # of_nat (tlv_len c) # tlv_value c"

definition req_ok :: "cfg_write \<Rightarrow> bool" where
  "req_ok c \<longleftrightarrow> well_kinded c \<and> write_key c < 2 ^ 16 \<and> tlv_len c \<le> CFG_MAX_STR_LEN"

definition writable :: "nat \<Rightarrow> bool" where
  "writable i \<longleftrightarrow> i < CFG_PARAM_MAX_NUM \<and> cs_control (cfg_static ! i) AND CFG_CTL_WE \<noteq> 0"

definition accepted :: "cfg_write \<Rightarrow> bool" where
  "accepted c \<longleftrightarrow> writable (write_key c) \<and> write_fits c"

definition set_answer :: "cfg_write \<Rightarrow> u32" where
  "set_answer c =
     (let control = cs_control (cfg_static ! write_key c) in
      if \<not> writable (write_key c) then WNI_CFG_INVALID_LEN
      else if \<not> write_fits c then WNI_CFG_OTHER_ERROR
      else if control AND CFG_CTL_RESTART \<noteq> 0 then WNI_CFG_NEED_RESTART
      else if control AND CFG_CTL_RELOAD \<noteq> 0 then WNI_CFG_NEED_RELOAD else WNI_CFG_SUCCESS)"

primrec to_host :: "cfg_event \<Rightarrow> bool" where
  "to_host (PostSch i) = False"
| "to_host (PostLim i) = False"
| "to_host (PostWma i) = False"
| "to_host (HostMsg t l p d) = True"
| "to_host DownloadComplete = False"

definition answers :: "cfg_state \<Rightarrow> cfg_event list" where
  "answers st = filter to_host (cfg_sent st)"

section \<open>One TLV\<close>

lemma tlv_value_bytes: "mem_bytes (tlv_value (SetStr i s)) = padded s"
  using round_up_4_ge [of "length s"] by (simp add: padded_def mem_bytes_words)

lemma tlv_value_length: "length (tlv_value c) = round_up_4 (tlv_len c) div 4"
  by (cases c) (simp_all add: mem_words_length padded_def round_up_4_ge round_up_4_def)

lemma mem_bytes_append [simp]: "mem_bytes (ws @ ws') = mem_bytes ws @ mem_bytes ws'"
  by (simp add: mem_bytes_def)

lemma check_param_wf:
  assumes "cfg_wf st" "f AND CFG_BUF_INDX_MASK = 0"
  shows "check_param i f e st = Some (if i \<ge> CFG_PARAM_MAX_NUM then Inl WNI_CFG_INVALID_PID
    else if cs_control (cfg_static ! i) AND f = 0 then Inl e else Inr ())"
proof (cases "i < CFG_PARAM_MAX_NUM")
  case True
  then show ?thesis using assms control_valid [OF True] by (simp add: check_param_def cfg_wf_simps control_flags)
qed (simp add: check_param_def)

lemma set_result_wf:
  assumes "cfg_wf st" "i < CFG_PARAM_MAX_NUM"
  shows "set_result i eSIR_CFG_OK st = Some (let control = cs_control (cfg_static ! i) in
    if control AND CFG_CTL_RESTART \<noteq> 0 then WNI_CFG_NEED_RESTART else if control AND CFG_CTL_RELOAD \<noteq> 0 then WNI_CFG_NEED_RELOAD else WNI_CFG_SUCCESS)"
  using assms by (simp add: set_result_def cfg_need_restart_def cfg_need_reload_def cfg_wf_simps control_flags Let_def)

lemma answers_simps [simp]:
  "answers (notify_changed i st) = answers st" "answers (stored_int i n st) = answers st" "answers (stored_str i s st) = answers st"
  "answers (st\<lparr>s_buffer := buf\<rparr>) = answers st"
  by (simp_all add: answers_def notify_changed_def cfg_notify_def stored_int_def stored_str_def Let_def)

lemma stored_int_simps [simp]: "s_buffer (stored_int i n st) = s_buffer st" "gCfgStatus (stored_int i n st) = gCfgStatus st"
  by (simp_all add: stored_int_def)

lemma s_buffer_simps [simp]: "cfg_wf (st\<lparr>s_buffer := buf\<rparr>) = cfg_wf st" "cfg_abs (st\<lparr>s_buffer := buf\<rparr>) = cfg_abs st"
  by (simp_all add: cfg_wf_def cfg_shape_def cfg_abs_def str_val_def fun_eq_iff)

text \<open>The state after one TLV, seen by the host and the readers of parameters.\<close>

definition set_rel :: "cfg_write \<Rightarrow> cfg_state \<Rightarrow> cfg_state \<Rightarrow> bool" where
  "set_rel c st st' \<longleftrightarrow> cfg_wf st' \<and> length (s_buffer st') = length (s_buffer st) \<and> gCfgStatus st' = gCfgStatus st \<and> answers st' = answers st \<and>
     cfg_abs st' = (if accepted c then (cfg_abs st)(write_key c \<mapsto> write_val c) else cfg_abs st)"

lemma set_param_refused:
  assumes "cfg_wf st" "\<not> writable (write_key c)"
  shows "set_param (write_key c) v len ws st = Some (set_answer c, st)"
  using assms by (auto simp: set_param_def check_param_wf writable_def set_answer_def)

lemma set_param_int:
  assumes "cfg_wf st" "is_int i" "writable i"
  shows "\<exists>st'. set_param i 4 len (n # ws) st = Some (set_answer (SetInt i n), st') \<and> set_rel (SetInt i n) st st'"
proof -
  have i: "i < CFG_PARAM_MAX_NUM" "cs_control (cfg_static ! i) AND CFG_CTL_WE \<noteq> 0" using assms(3) by (simp_all add: writable_def)
  note wf = stored_int_wf [OF assms(1) i(1) assms(2)]
  have r: "set_result i eSIR_CFG_INVALID_ID st' = Some WNI_CFG_OTHER_ERROR" for st' by (simp add: set_result_def)
  show ?thesis
    using assms i wf set_int [OF assms(1) i(1) assms(2)] control_int [OF i(1)] r
    by (auto simp: set_param_def check_param_wf cfg_wf_simps set_answer_def set_rel_def accepted_def set_result_wf Let_def)
qed

lemma set_param_str:
  assumes "cfg_wf st" "\<not> is_int i" "writable i" "length s \<le> length (s_buffer st)" "round_up_4 (length s) mod 2 ^ 16 \<le> len"
  shows "\<exists>st'. set_param i (length s) len (tlv_value (SetStr i s) @ ws) st = Some (set_answer (SetStr i s), st') \<and> set_rel (SetStr i s) st st'"
proof -
  have i: "i < CFG_PARAM_MAX_NUM" "cs_control (cfg_static ! i) AND CFG_CTL_WE \<noteq> 0" using assms(3) by (simp_all add: writable_def)
  let ?buf = "s @ drop (length s) (s_buffer st)"
  let ?st = "st\<lparr>s_buffer := ?buf\<rparr>"
  have copy: "mem_copy (s_buffer st) 0 (mem_bytes (tlv_value (SetStr i s) @ ws)) (length s) = Some ?buf"
    unfolding mem_bytes_append tlv_value_bytes using assms(4) by (simp add: mem_copy_def padded_def)
  have wf: "cfg_wf ?st" using assms(1) by simp
  note set = set_str [OF cfg_wf_shape [OF wf] i(1) assms(2), of "length s" ?buf] stored_str_wf [OF wf i(1) assms(2), of s]
  have r: "set_result i eSIR_CFG_INVALID_LEN st' = Some WNI_CFG_OTHER_ERROR" for st' by (simp add: set_result_def)
  show ?thesis
    using assms i wf copy set control_int [OF i(1)] r
    by (auto simp: set_param_def check_param_wf cfg_wf_simps set_answer_def set_rel_def accepted_def set_result_wf Let_def
        simp del: tlv_value.simps)
qed

lemma set_param_write:
  assumes "cfg_wf st" "length (s_buffer st) = CFG_MAX_STR_LEN" "req_ok c" "round_up_4 (tlv_len c) \<le> len"
  shows "\<exists>st'. set_param (write_key c) (tlv_len c) len (tlv_value c @ ws) st = Some (set_answer c, st') \<and> set_rel c st st'"
proof (cases "writable (write_key c)")
  case False
  then show ?thesis using set_param_refused [OF assms(1) False] assms(1) by (auto simp: set_rel_def accepted_def)
next
  case True
  have "round_up_4 (tlv_len c) mod 2 ^ 16 \<le> len" using assms(4) by (meson le_trans mod_less_eq_dividend)
  with True assms show ?thesis
    using set_param_int [of st "write_key c"] set_param_str [of st "write_key c"] by (cases c) (auto simp: req_ok_def writable_def simp del: tlv_value.simps(2))
qed

section \<open>A set request\<close>

definition cnf :: "cfg_write \<Rightarrow> cfg_event" where
  "cnf c = HostMsg WNI_CFG_SET_CNF (of_nat WNI_CFG_SET_CNF_LEN) [set_answer c, of_nat (write_key c)] []"

lemma set_cnf_sent:
  assumes "attached st" "\<forall>st n. alloc st n"
  shows "\<exists>st'. set_cnf alloc fRsp (write_key c) (set_answer c, st) = Some st' \<and> answers st' = answers st @ (if fRsp then [cnf c] else []) \<and>
    cfg_wf st' = cfg_wf st \<and> cfg_abs st' = cfg_abs st \<and> s_buffer st' = s_buffer st \<and> gCfgStatus st' = gCfgStatus st"
  using assms by (auto simp: set_cnf_def cfg_send_host_msg_def answers_def cnf_def cfg_wf_def cfg_shape_def cfg_abs_def str_val_def fun_eq_iff)

lemma tlv_words:
  assumes "req_ok c"
  shows "unat (ucast (of_nat (write_key c) :: u32) :: u16) = write_key c" "unat (ucast (of_nat (tlv_len c) :: u32) :: u16) = tlv_len c"
    "round_up_4 (tlv_len c) mod 2 ^ 16 = 4 * length (tlv_value c)" "round_up_4 (tlv_len c) = 4 * length (tlv_value c)"
proof -
  have "tlv_len c \<le> 256" "write_key c < 65536" using assms by (simp_all add: req_ok_def CFG_MAX_STR_LEN_def)
  then show "unat (ucast (of_nat (write_key c) :: u32) :: u16) = write_key c" "unat (ucast (of_nat (tlv_len c) :: u32) :: u16) = tlv_len c"
    by (simp_all add: unsigned_ucast_eq unsigned_of_nat take_bit_nat_eq_self take_bit_take_bit)
  show len: "round_up_4 (tlv_len c) = 4 * length (tlv_value c)" by (simp add: tlv_value_length round_up_4_def)
  then show "round_up_4 (tlv_len c) mod 2 ^ 16 = 4 * length (tlv_value c)" using \<open>tlv_len c \<le> 256\<close> by (simp add: round_up_4_def)
qed

lemma set_params_writes:
  assumes "cfg_wf st" "length (s_buffer st) = CFG_MAX_STR_LEN" "list_all req_ok cs" "\<forall>st n. alloc st n"
  shows "\<exists>st'. set_params alloc fRsp (4 * length (concat (map tlv cs))) (concat (map tlv cs)) st = Some st' \<and> cfg_wf st' \<and>
    cfg_abs st' = cfg_updates (filter accepted cs) (cfg_abs st) \<and>
    answers st' = answers st @ (if fRsp then map cnf cs else [])"
  using assms(1-3)
proof (induction cs arbitrary: st)
  case (Cons c cs)
  let ?ws = "concat (map tlv cs)"
  have ok: "req_ok c" using Cons.prems(3) by simp
  note words = tlv_words [OF ok]
  obtain st1 where st1: "set_param (write_key c) (tlv_len c) (4 * length (tlv_value c @ ?ws)) (tlv_value c @ ?ws) st = Some (set_answer c, st1)" "set_rel c st st1"
    using set_param_write [OF Cons.prems(1,2) ok, of "4 * length (tlv_value c @ ?ws)" ?ws] words by auto
  then have "attached st1" by (simp add: set_rel_def cfg_wf_simps)
  then obtain st2 where st2: "set_cnf alloc fRsp (write_key c) (set_answer c, st1) = Some st2" "answers st2 = answers st1 @ (if fRsp then [cnf c] else [])"
    "cfg_wf st2 = cfg_wf st1" "cfg_abs st2 = cfg_abs st1" "s_buffer st2 = s_buffer st1" using set_cnf_sent [OF _ assms(4)] by blast
  obtain st' where st': "set_params alloc fRsp (4 * length ?ws) ?ws st2 = Some st'" "cfg_wf st'"
    "cfg_abs st' = cfg_updates (filter accepted cs) (cfg_abs st2)"
    "answers st' = answers st2 @ (if fRsp then map cnf cs else [])"
    using Cons.IH [of st2] Cons.prems st1(2) st2 by (auto simp: set_rel_def)
  have "set_params alloc fRsp (4 * length (concat (map tlv (c # cs)))) (concat (map tlv (c # cs))) st = set_params alloc fRsp (4 * length ?ws) ?ws st2"
    using st1(1) st2(1) words by (subst set_params.simps) (simp add: tlv_def Let_def)
  moreover have "cfg_updates (filter accepted (c # cs)) (cfg_abs st) = cfg_updates (filter accepted cs) (cfg_abs st1)"
    using st1(2) by (simp add: set_rel_def cfg_updates_def)
  ultimately show ?case using st' st1(2) st2 by (simp add: set_rel_def)
qed (simp add: set_params.simps cfg_updates_def)

text \<open>
  C9: A set request of the host. The message is the TLVs of any writes, each to a parameter of its kind or to an identifier out of range,
  with strings of at most 256 bytes. On a ready store \<open>proc_set_req_internal\<close> ends without an access outside an array. Exactly the
  writes to writable parameters that fit are carried out, in their order, and the store stays well-formed. With \<open>fRsp\<close> the host gets
  one confirmation for each write, in their order, with the restart or reload the parameter needs. What \<open>check_param\<close> found wrong is
  not told: an identifier out of range and a read-only parameter are both answered with \<open>WNI_CFG_INVALID_LEN\<close>.
\<close>

theorem cfg_set_req_carried_out:
  assumes "cfg_wf st" "gCfgStatus st \<noteq> CFG_INCOMPLETE" "length (s_buffer st) = CFG_MAX_STR_LEN" "list_all req_ok cs"
    "4 * length (concat (map tlv cs)) < 2 ^ 16" "\<forall>st n. alloc st n"
  shows "\<exists>st'. proc_set_req_internal alloc (of_nat (4 * length (concat (map tlv cs)))) (concat (map tlv cs)) fRsp st = Some st' \<and> cfg_wf st' \<and>
    cfg_abs st' = cfg_updates (filter accepted cs) (cfg_abs st) \<and>
    answers st' = answers st @ (if fRsp then map cnf cs else [])"
proof -
  have "unat (of_nat (4 * length (concat (map tlv cs))) :: u16) = 4 * length (concat (map tlv cs))"
    using assms(5) by (subst unsigned_of_nat, subst take_bit_nat_eq_self) simp_all
  with set_params_writes [OF assms(1,3,4,6), of fRsp] assms(2) show ?thesis by (simp only: proc_set_req_internal_def if_False)
qed

lemma cfg_set_req_carried_out_witness:
  "\<exists>st'. proc_set_req_internal (\<lambda>st n. True) 24 (concat (map tlv [SetInt WNI_CFG_BEACON_INTERVAL 200, SetStr WNI_CFG_SSID [119, 108]])) True sample_store = Some st' \<and>
    cfg_abs st' WNI_CFG_BEACON_INTERVAL = Some (IntVal 200) \<and>
    answers st' = answers sample_store @ [HostMsg WNI_CFG_SET_CNF 12 [WNI_CFG_SUCCESS, 4] [], HostMsg WNI_CFG_SET_CNF 12 [WNI_CFG_NEED_RESTART, 3] []]"
proof -
  let ?cs = "[SetInt WNI_CFG_BEACON_INTERVAL 200, SetStr WNI_CFG_SSID [119, 108]]"
  have kinds: "is_int WNI_CFG_BEACON_INTERVAL" "\<not> is_int WNI_CFG_SSID" by code_simp+
  have answer: "map set_answer ?cs = [WNI_CFG_SUCCESS, WNI_CFG_NEED_RESTART]" by code_simp
  have run: "filter accepted ?cs = ?cs" "length (concat (map tlv ?cs)) = 6" by code_simp+
  have ok: "list_all req_ok ?cs" using kinds by (simp add: req_ok_def CFG_MAX_STR_LEN_def)
  have cnfs: "map cnf ?cs = [HostMsg WNI_CFG_SET_CNF 12 [WNI_CFG_SUCCESS, 4] [], HostMsg WNI_CFG_SET_CNF 12 [WNI_CFG_NEED_RESTART, 3] []]"
    using answer by (simp add: cnf_def)
  show ?thesis
    using cfg_set_req_carried_out [OF sample_store(1) _ sample_store(3) ok, of "\<lambda>st n. True" True] unfolding run cnfs by (auto simp: sample_store(2) cfg_updates_def)
qed

section \<open>Lengths that are not checked\<close>

text \<open>
  C30: The length of a string in a set request is compared with the length of the message only. A value of more than 256 bytes, which
  the message has room for, is copied to the 256 bytes of \<open>gSBuffer\<close> before \<open>cfg_set_str\<close> compares its length with that of the
  parameter: the handler writes outside the buffer. The length rounded up to words has 16 bits and is 0 for 65533 to 65535, which then
  pass the comparison in any message.
\<close>

theorem cfg_set_req_overflow:
  assumes "cfg_wf st" "gCfgStatus st \<noteq> CFG_INCOMPLETE" "length (s_buffer st) = CFG_MAX_STR_LEN" "writable i" "\<not> is_int i"
    "CFG_MAX_STR_LEN < v" "v < 2 ^ 16" "round_up_4 v mod 2 ^ 16 \<le> unat len - 8" "8 \<le> len"
  shows "proc_set_req_internal alloc len (of_nat i # of_nat v # ws) fRsp st = None"
proof -
  have i: "i < CFG_PARAM_MAX_NUM" "cs_control (cfg_static ! i) AND CFG_CTL_WE \<noteq> 0" using assms(4) by (simp_all add: writable_def)
  then have id: "unat (ucast (of_nat i :: u32) :: u16) = i" by (simp add: unsigned_ucast_eq unsigned_of_nat take_bit_nat_eq_self take_bit_take_bit)
  have len: "unat (ucast (of_nat v :: u32) :: u16) = v" using assms(7) by (simp add: unsigned_ucast_eq unsigned_of_nat take_bit_nat_eq_self take_bit_take_bit)
  have "8 \<le> unat len" using assms(9) by (simp add: word_le_nat_alt)
  moreover have "mem_copy (s_buffer st) 0 (mem_bytes ws) v = None" using assms(3,6) by (simp add: mem_copy_def)
  then have "set_param i v (unat len - 8) ws st = None"
    using assms i control_int [OF i(1)] by (simp add: set_param_def check_param_wf cfg_wf_simps not_less)
  ultimately show ?thesis using assms(2) by (simp add: proc_set_req_internal_def set_params.simps [of _ _ "unat len"] id len Let_def not_less)
qed

lemma cfg_set_req_overflow_witness:
  "proc_set_req_internal (\<lambda>st n. True) 272 (of_nat WNI_CFG_SSID # of_nat 257 # replicate 66 0) True sample_store = None \<and>
    proc_set_req_internal (\<lambda>st n. True) 8 [of_nat WNI_CFG_SSID, of_nat 65533] True sample_store = None"
proof -
  have ssid: "writable WNI_CFG_SSID" "\<not> is_int WNI_CFG_SSID" by code_simp+
  have status: "gCfgStatus sample_store \<noteq> CFG_INCOMPLETE" by (simp add: sample_store(2))
  note overflow = cfg_set_req_overflow [OF sample_store(1) status sample_store(3) ssid]
  show ?thesis
    using overflow [of 257 272 "\<lambda>st n. True" "replicate 66 0" True] overflow [of 65533 8 "\<lambda>st n. True" "[]" True]
    by (simp add: CFG_MAX_STR_LEN_def round_up_4_def)
qed

end
