(* ===== verification/Cfg_Image.thy ===== *)
theory Cfg_Image
  imports Cfg_Set
begin

text \<open>
  The download of an image by the host: the image of the built-in tables, and that its download leaves the same parameters as the
  download of the tables themselves.
\<close>

unbundle bit_operations_syntax

section \<open>The image of the tables\<close>

fun be_words :: "u8 list \<Rightarrow> u32 list" where
  "be_words (a # b # c # d # bs) = bytes_word d c b a # be_words bs"
| "be_words bs = []"

definition default_str :: "nat \<Rightarrow> u8 list" where
  "default_str i = take (unat (ss_length (str_row i))) (ss_data (str_row i))"

definition string_item :: "nat \<Rightarrow> u32 list" where
  "string_item i = (if is_int i then [] else of_nat (i * 2 ^ 16 + length (default_str i)) # be_words (padded (default_str i)))"

definition int_params :: "nat list" where
  "int_params = filter is_int [0..<CFG_PARAM_MAX_NUM]"

definition image_strings :: "nat \<Rightarrow> u32 list" where
  "image_strings n = concat (map string_item [n..<CFG_PARAM_MAX_NUM])"

definition cfg_image :: "u32 list" where
  "cfg_image = CFG_STA_MAGIC_DWORD # [0, of_nat CFG_PARAM_MAX_NUM, of_nat INT_NUM, of_nat (4 * length (image_strings 0))] @
     map cfg_control [0..<CFG_PARAM_MAX_NUM] @ map (\<lambda>i. cfgIVal (cfg_static ! i)) int_params @
     map (\<lambda>i. cfgIMin (cfg_static ! i)) int_params @ map (\<lambda>i. cfgIMax (cfg_static ! i)) int_params @ image_strings 0"

section \<open>Sizes\<close>

lemma be_bytes_words: "length bs mod 4 = 0 \<Longrightarrow> concat (map be_bytes (be_words bs)) = bs"
proof (induction bs rule: be_words.induct)
  case (1 a b c d bs)
  have "be_bytes w = rev (word_bytes w)" for w by (simp add: be_bytes_def word_bytes_def)
  with 1 show ?case by simp
qed auto

lemma be_words_length: "length (be_words bs) = length bs div 4"
  by (induction bs rule: be_words.induct) auto

lemma padded_length: "length (padded s) = round_up_4 (length s)"
  using round_up_4_ge [of "length s"] by (simp add: padded_def)

lemma filter_upt_nth: "\<lbrakk>P i; i < n\<rbrakk> \<Longrightarrow> filter P [0..<n] ! length (filter P [0..<i]) = i \<and> length (filter P [0..<i]) < length (filter P [0..<n])"
proof (induction n)
  case (Suc n)
  then show ?case by (cases "i = n") (auto simp: nth_append less_Suc_eq)
qed simp

lemma int_no_filter: "length (filter is_int [0..<n]) = int_no n"
  by (induction n) simp_all

lemma int_params: "length int_params = INT_NUM" "\<lbrakk>i < CFG_PARAM_MAX_NUM; is_int i\<rbrakk> \<Longrightarrow> int_params ! int_no i = i"
  using int_no_filter [of CFG_PARAM_MAX_NUM] int_total filter_upt_nth [of is_int i CFG_PARAM_MAX_NUM] unfolding int_params_def
  by (simp_all only: int_no_filter)

lemma default_str_length: "\<lbrakk>i < CFG_PARAM_MAX_NUM; \<not> is_int i\<rbrakk> \<Longrightarrow> length (default_str i) \<le> str_max i" "length (default_str i) < 256"
proof -
  show "\<lbrakk>i < CFG_PARAM_MAX_NUM; \<not> is_int i\<rbrakk> \<Longrightarrow> length (default_str i) \<le> str_max i"
    using str_row_ok [of i] by (auto simp: default_str_def string_ok_def str_max_def word_le_nat_alt min_def)
  have "unat (ss_length (str_row i)) < 2 ^ LENGTH(8)" by (rule unsigned_less)
  then show "length (default_str i) < 256" by (simp add: default_str_def min_less_iff_disj)
qed

lemma image_strings_step: "n < CFG_PARAM_MAX_NUM \<Longrightarrow> image_strings n = string_item n @ image_strings (Suc n)"
  by (simp add: image_strings_def upt_conv_Cons)

lemma string_item_length: "length (string_item i) \<le> 65"
proof -
  have "(length (default_str i) + 3) div 4 \<le> 64" using default_str_length(2) [of i] by linarith
  then show ?thesis by (simp add: string_item_def be_words_length padded_length round_up_4_def)
qed

lemma image_strings_length: "length (image_strings n) \<le> 65 * (CFG_PARAM_MAX_NUM - n)"
proof (induction "CFG_PARAM_MAX_NUM - n" arbitrary: n)
  case (Suc d)
  then have n: "n < CFG_PARAM_MAX_NUM" by simp
  have "length (image_strings (Suc n)) \<le> 65 * (CFG_PARAM_MAX_NUM - Suc n)" using Suc by (intro Suc.hyps(1)) simp
  then show ?case using n string_item_length [of n] unfolding image_strings_step [OF n] by simp
qed (simp add: image_strings_def)

section \<open>The strings\<close>

definition image_done :: "nat \<Rightarrow> cfg_state \<Rightarrow> bool" where
  "image_done n st \<longleftrightarrow> cfg_shape st \<and>
     (\<forall>i < n. \<not> is_int i \<longrightarrow> unat (gCfgSBuf st ! Suc (str_base i)) \<le> str_max i \<and> str_val i st = default_str i)"

lemma stored_str_shape:
  assumes "cfg_shape st" "i < CFG_PARAM_MAX_NUM" "\<not> is_int i" "length s \<le> str_max i"
  shows "cfg_shape (stored_str i s st)"
  using stored_str_frame(1,2) [OF cfg_shape_simps(3) [OF assms(1)] assms(2-4)] assms(1) by (simp add: cfg_shape_def)

lemma notify_changed_sbuf [simp]: "gCfgSBuf (notify_changed i st) = gCfgSBuf st" "gCfgIBuf (notify_changed i st) = gCfgIBuf st"
  "gCfgIBufMin (notify_changed i st) = gCfgIBufMin st" "gCfgIBufMax (notify_changed i st) = gCfgIBufMax st" "str_val j (notify_changed i st) = str_val j st"
  by (simp_all add: notify_changed_def cfg_notify_def str_val_def Let_def)

lemma image_done_step:
  assumes "image_done n st" "n < CFG_PARAM_MAX_NUM" "\<not> is_int n"
  shows "image_done (Suc n) (notify_changed n (stored_str n (default_str n) st))"
proof -
  have shape: "cfg_shape st" using assms(1) by (simp add: image_done_def)
  note len = default_str_length(1) [OF assms(2,3)]
  note frame = stored_str_frame [OF cfg_shape_simps(3) [OF shape] assms(2,3) len]
  show ?thesis using assms stored_str_shape [OF shape assms(2,3) len] frame(3-6) len by (auto simp: image_done_def less_Suc_eq)
qed

lemma item_word:
  assumes "i < CFG_PARAM_MAX_NUM" "n < 256"
  shows "unat (drop_bit 16 (of_nat (i * 2 ^ 16 + n) :: u32)) = i" "unat (of_nat (i * 2 ^ 16 + n) AND 0xff :: u32) = n"
proof -
  have u: "unat (of_nat (i * 2 ^ 16 + n) :: u32) = i * 2 ^ 16 + n" using assms by (subst unsigned_of_nat, subst take_bit_nat_eq_self) simp_all
  have high: "unat (drop_bit 16 w) = unat w div 2 ^ 16" for w :: u32
  proof -
    have "unat w < 2 ^ LENGTH(32)" by (rule unsigned_less)
    then show ?thesis by (simp only: unsigned_drop_bit_eq) (simp add: drop_bit_eq_div take_bit_nat_eq_self)
  qed
  show "unat (drop_bit 16 (of_nat (i * 2 ^ 16 + n) :: u32)) = i" unfolding high u using assms(2) by simp
  have "(0xff :: u32) = mask 8" by (simp add: mask_eq_exp_minus_1)
  moreover have "unat (take_bit 8 (of_nat (i * 2 ^ 16 + n) :: u32)) = n"
  proof -
    have "i * 2 ^ 16 + n = n + i * 2 ^ 8 * 2 ^ 8" by simp
    then have "(i * 2 ^ 16 + n) mod 2 ^ 8 = n mod 2 ^ 8" by (simp only: mod_mult_self1)
    with assms(2) have "(i * 2 ^ 16 + n) mod 2 ^ 8 = n" by simp
    then show ?thesis unfolding unsigned_take_bit_eq u by (simp add: take_bit_eq_mod)
  qed
  ultimately show "unat (of_nat (i * 2 ^ 16 + n) AND 0xff :: u32) = n" by (simp add: take_bit_eq_mask)
qed

lemma image_strings_item:
  assumes "n < CFG_PARAM_MAX_NUM" "\<not> is_int n" "image_done n st"
  shows "dnld_strings (4 * length (image_strings n)) (image_strings n) st =
    dnld_strings (4 * length (image_strings (Suc n))) (image_strings (Suc n)) (notify_changed n (stored_str n (default_str n) st))"
proof -
  let ?s = "default_str n" and ?ws = "be_words (padded (default_str n))" and ?rest = "image_strings (Suc n)"
  note len = default_str_length(1) [OF assms(1,2)] default_str_length(2) [of n]
  have shape: "cfg_shape st" using assms(3) by (simp add: image_done_def)
  have strs: "image_strings n = of_nat (n * 2 ^ 16 + length ?s) # ?ws @ ?rest"
    using assms(1,2) by (simp add: image_strings_step string_item_def)
  note item = item_word [OF assms(1) len(2)]
  have l: "length ?ws = (length ?s + 3) div 4" by (simp add: be_words_length padded_length round_up_4_def)
  have bytes: "concat (map be_bytes ?ws) = padded ?s" using round_up_4_ge(2) by (simp add: be_bytes_words padded_length)
  have "take (length ?s) (padded ?s) = ?s" by (simp add: padded_def)
  then have set: "cfg_set_str n (padded ?s) (length ?s) st = Some (notify_changed n (stored_str n ?s st), eSIR_CFG_OK)"
    using set_str [OF shape assms(1,2), of "length ?s" "padded ?s"] len(1) by (simp add: padded_length round_up_4_ge)
  show ?thesis unfolding strs
    by (subst dnld_strings.simps) (simp add: item [simplified] l [symmetric] bytes set Let_def)
qed

lemma image_strings_run:
  "\<lbrakk>n \<le> CFG_PARAM_MAX_NUM; image_done n st\<rbrakk> \<Longrightarrow>
   \<exists>st'. dnld_strings (4 * length (image_strings n)) (image_strings n) st = Some (WNI_CFG_SUCCESS, st') \<and> image_done CFG_PARAM_MAX_NUM st' \<and>
     gCfgIBuf st' = gCfgIBuf st \<and> gCfgIBufMin st' = gCfgIBufMin st \<and> gCfgIBufMax st' = gCfgIBufMax st \<and> answers st' = answers st"
proof (induction "CFG_PARAM_MAX_NUM - n" arbitrary: n st)
  case 0
  then show ?case by (simp add: image_strings_def dnld_strings.simps)
next
  case (Suc d)
  then have n: "n < CFG_PARAM_MAX_NUM" by simp
  show ?case
  proof (cases "is_int n")
    case True
    then have "image_strings n = image_strings (Suc n)" "image_done (Suc n) st"
      using n Suc.prems by (auto simp: image_strings_step string_item_def image_done_def less_Suc_eq)
    then show ?thesis using Suc.hyps(1) [of "Suc n" st] Suc.hyps(2) n by simp
  next
    case False
    show ?thesis using Suc.hyps(1) [OF _ _ image_done_step [OF Suc.prems(2) n False]] Suc.hyps(2) n
      unfolding image_strings_item [OF n False Suc.prems(2)] by simp
  qed
qed

section \<open>The image\<close>

lemma image_done_wf:
  assumes "image_done CFG_PARAM_MAX_NUM st" "gCfgIBuf st = map (\<lambda>i. cfgIVal (cfg_static ! i)) int_params"
    "gCfgIBufMin st = map (\<lambda>i. cfgIMin (cfg_static ! i)) int_params" "gCfgIBufMax st = map (\<lambda>i. cfgIMax (cfg_static ! i)) int_params"
  shows "cfg_wf st" "i < CFG_PARAM_MAX_NUM \<Longrightarrow> cfg_abs st i = Some (default_val i)"
proof -
  have int: "is_int i \<Longrightarrow> int_ok i (cfgIVal (cfg_static ! i))" if "i < CFG_PARAM_MAX_NUM" for i
    using row_ok_nth [OF that] by (simp add: int_ok_def row_ok_def is_int_def)
  show "cfg_wf st" using assms int int_params int_no_bound by (auto simp: cfg_wf_def image_done_def)
  show "cfg_abs st i = Some (default_val i)" if "i < CFG_PARAM_MAX_NUM"
    using that assms int_params int_no_bound by (auto simp: cfg_abs_def image_done_def default_val_def default_str_def)
qed

lemma mem_copy_all: "\<lbrakk>length dst = n; n \<le> length src\<rbrakk> \<Longrightarrow> mem_copy dst 0 src n = Some (take n src)"
  by (simp add: mem_copy_def)

lemma image_length: "length cfg_image = 770 + length (image_strings 0)" "length (image_strings 0) \<le> 14430"
  using image_strings_length [of 0] by (simp_all add: cfg_image_def int_params(1) INT_NUM_def)

lemma image_len_word:
  assumes "L = 770 + S" "S \<le> 14430"
  shows "ucast (of_nat (4 * L) - 4 :: u16) = (of_nat (4 * 765) + of_nat (4 * S) + 16 :: u32)" "unat (of_nat (4 * S) :: u32) = 4 * S"
proof -
  have "(of_nat (4 * L) - 4 :: u16) = of_nat (4 * S + 3076)" using assms(1) by simp
  moreover have "(ucast (of_nat (4 * S + 3076) :: u16) :: u32) = of_nat (4 * S + 3076)"
    using assms(2) by (simp only: unsigned_of_nat) (subst take_bit_nat_eq_self, simp_all)
  ultimately show "ucast (of_nat (4 * L) - 4 :: u16) = (of_nat (4 * 765) + of_nat (4 * S) + 16 :: u32)" by (simp add: ac_simps)
  show "unat (of_nat (4 * S) :: u32) = 4 * S" using assms(2) by (subst unsigned_of_nat, subst take_bit_nat_eq_self) simp_all
qed

lemma image_downloaded:
  assumes "created st"
  shows "\<exists>st'. dnld_image stack (of_nat (4 * length cfg_image) - 4) (drop 1 cfg_image) st = Some (WNI_CFG_SUCCESS, st') \<and> cfg_wf st' \<and>
    gCfgStatus st' = CFG_SUCCESS \<and> (\<forall>i < CFG_PARAM_MAX_NUM. cfg_abs st' i = Some (default_val i)) \<and>
    gCfgLogLevel st' = cfgIVal (cfg_static ! WNI_CFG_LOG_LEVEL) \<and> answers st' = answers st"
proof -
  let ?S = "image_strings 0"
  let ?vals = "map (\<lambda>i. cfgIVal (cfg_static ! i)) int_params" and ?mins = "map (\<lambda>i. cfgIMin (cfg_static ! i)) int_params"
    and ?maxs = "map (\<lambda>i. cfgIMax (cfg_static ! i)) int_params" and ?ctl = "map cfg_control [0..<CFG_PARAM_MAX_NUM]"
  have n: "unat (of_nat INT_NUM :: u16) = 181" "INT_NUM = 181" by (simp_all add: INT_NUM_def)
  have len: "length int_params = 181" by (simp add: int_params(1) INT_NUM_def)
  note word = image_len_word [OF image_length]
  have src: "drop 1 cfg_image = [0, of_nat CFG_PARAM_MAX_NUM, of_nat INT_NUM, of_nat (4 * length ?S)] @ ?ctl @ ?vals @ ?mins @ ?maxs @ ?S"
    by (simp add: cfg_image_def)
  have "(of_nat (str_base CFG_PARAM_MAX_NUM) :: u32) = ucast (gCfgMaxSBufSize st)"
    using assms unfolding str_total by (simp add: created_def STR_SIZE_def)
  then obtain sbuf where sbuf: "dnld_max_lens ?ctl (rev [0..<CFG_PARAM_MAX_NUM]) (ucast (gCfgMaxSBufSize st)) (gCfgSBuf st) = Some sbuf"
    "length sbuf = STR_SIZE" "\<forall>i < CFG_PARAM_MAX_NUM. \<not> is_int i \<longrightarrow> sbuf ! str_base i = ss_maxLen (str_row i)"
    using max_lens [of CFG_PARAM_MAX_NUM "gCfgSBuf st"] assms by (auto simp: created_def)
  let ?st = "st\<lparr>cfg_entry := ?ctl, gCfgIBuf := ?vals, gCfgIBufMin := ?mins, gCfgIBufMax := ?maxs, gCfgSBuf := sbuf\<rparr>"
  have "image_done 0 ?st" using assms sbuf len by (simp add: image_done_def cfg_shape_def created_def INT_NUM_def)
  then obtain st' where st': "dnld_strings (4 * length ?S) ?S ?st = Some (WNI_CFG_SUCCESS, st')" "image_done CFG_PARAM_MAX_NUM st'"
    "gCfgIBuf st' = ?vals" "gCfgIBufMin st' = ?mins" "gCfgIBufMax st' = ?maxs" "answers st' = answers st"
    using image_strings_run [of 0 ?st] by (auto simp: answers_def)
  note wf = image_done_wf [OF st'(2-5)]
  let ?st' = "st'\<lparr>gCfgLogLevel := cfgIVal (cfg_static ! WNI_CFG_LOG_LEVEL), gCfgStatus := CFG_SUCCESS\<rparr>"
  have "wlan_cfg_get_int WNI_CFG_LOG_LEVEL st' = Some (Inr (cfgIVal (cfg_static ! WNI_CFG_LOG_LEVEL)))"
    using get_int [OF wf(1), of WNI_CFG_LOG_LEVEL] wf(2) [of WNI_CFG_LOG_LEVEL] log_level_int by (simp add: cfg_abs_def default_val_def)
  then have "dnld_image stack (of_nat (4 * length cfg_image) - 4) (drop 1 cfg_image) st = Some (WNI_CFG_SUCCESS, ?st')"
    using assms st'(1) sbuf(1) word(2) unfolding dnld_image_def src word(1)
    by (simp add: created_def n len mem_copy_all Let_def)
  moreover have "cfg_wf ?st'" "cfg_abs ?st' = cfg_abs st'" "answers ?st' = answers st'"
    using wf(1) by (simp_all add: cfg_wf_def cfg_shape_def cfg_abs_def str_val_def answers_def fun_eq_iff)
  ultimately show ?thesis using wf(2) st'(6) by auto
qed

text \<open>
  C10: Both downloads give the same store. After \<open>cfg_init\<close>, the built-in download and the download of \<open>cfg_image\<close>, the message with the
  image of the built-in tables, end without an access outside an array with well-formed stores that are ready, have the same value of
  every parameter and the same log level; the host is told of the success of the image.
\<close>

theorem cfg_downloads_agree:
  assumes "1024 \<le> page_size" "mem 1271 181 = Some (sbuf, ibuf, imin, imax)" "length sbuf = 1271" "length ibuf = 181" "length imin = 181"
    "length imax = 181" "length (cfg_entry st) = CFG_PARAM_MAX_NUM" "\<forall>st n. alloc st n"
  shows "\<exists>st0 st1 st2. cfg_init page_size mem st = (st0, eSIR_CFG_OK) \<and> process_cfg_download_req stack st0 = Some st1 \<and>
    proc_dnld_rsp alloc stack (of_nat (4 * length cfg_image)) cfg_image st0 = Some st2 \<and> cfg_wf st1 \<and> cfg_wf st2 \<and>
    gCfgStatus st1 = CFG_SUCCESS \<and> gCfgStatus st2 = CFG_SUCCESS \<and> cfg_abs st1 = cfg_abs st2 \<and> gCfgLogLevel st1 = gCfgLogLevel st2 \<and>
    answers st2 = answers st @ [HostMsg WNI_CFG_DNLD_CNF (of_nat WNI_CFG_DNLD_CNF_LEN) [WNI_CFG_SUCCESS] []]"
proof -
  obtain st0 where st0: "cfg_init page_size mem st = (st0, eSIR_CFG_OK)" "created st0" "answers st0 = answers st"
    using cfg_init_created [of page_size mem, OF assms(1-7)] by (auto simp: answers_def)
  obtain st1 where st1: "process_cfg_download_req stack st0 = Some st1" "cfg_wf st1" "gCfgStatus st1 = CFG_SUCCESS"
    "\<forall>i < CFG_PARAM_MAX_NUM. cfg_abs st1 i = Some (default_val i)" "gCfgLogLevel st1 = cfgIVal (cfg_static ! WNI_CFG_LOG_LEVEL)"
    using download_ok [OF st0(2)] by blast
  obtain st2 where st2: "dnld_image stack (of_nat (4 * length cfg_image) - 4) (drop 1 cfg_image) st0 = Some (WNI_CFG_SUCCESS, st2)" "cfg_wf st2"
    "gCfgStatus st2 = CFG_SUCCESS" "\<forall>i < CFG_PARAM_MAX_NUM. cfg_abs st2 i = Some (default_val i)"
    "gCfgLogLevel st2 = cfgIVal (cfg_static ! WNI_CFG_LOG_LEVEL)" "answers st2 = answers st0"
    using image_downloaded [OF st0(2)] by blast
  let ?st2 = "st2\<lparr>cfg_sent := cfg_sent st2 @ [HostMsg WNI_CFG_DNLD_CNF (of_nat WNI_CFG_DNLD_CNF_LEN) [WNI_CFG_SUCCESS] [], DownloadComplete]\<rparr>"
  have magic: "entry cfg_image 0 = Some CFG_STA_MAGIC_DWORD" by (simp add: cfg_image_def entry_def)
  have "proc_dnld_rsp alloc stack (of_nat (4 * length cfg_image)) cfg_image st0 = Some ?st2"
    using st2(1) assms(8) cfg_wf_simps(1) [OF st2(2)] by (simp add: proc_dnld_rsp_def magic cfg_send_host_msg_def)
  moreover have "cfg_wf ?st2" "cfg_abs ?st2 = cfg_abs st2" using st2(2) by (simp_all add: cfg_wf_def cfg_shape_def cfg_abs_def str_val_def fun_eq_iff)
  moreover have "cfg_abs st1 i = cfg_abs st2 i" for i
  proof (cases "i < CFG_PARAM_MAX_NUM")
    case True
    with st1(4) st2(4) show ?thesis by simp
  qed (simp add: cfg_abs_def)
  moreover have "answers ?st2 = answers st @ [HostMsg WNI_CFG_DNLD_CNF (of_nat WNI_CFG_DNLD_CNF_LEN) [WNI_CFG_SUCCESS] []]"
    using st0(3) st2(6) by (simp add: answers_def)
  ultimately show ?thesis using st0(1) st1 st2 by (intro exI [of _ st0] exI [of _ st1] exI [of _ ?st2]) (simp add: fun_eq_iff)
qed

lemma cfg_downloads_agree_witness:
  "\<exists>st0 st1 st2. cfg_init 4096 sample_mem sample_start = (st0, eSIR_CFG_OK) \<and> process_cfg_download_req 0 st0 = Some st1 \<and>
    proc_dnld_rsp (\<lambda>st n. True) 0 (of_nat (4 * length cfg_image)) cfg_image st0 = Some st2 \<and> cfg_abs st1 = cfg_abs st2"
  using cfg_downloads_agree [of 4096 sample_mem, OF _ sample_mem, of sample_start "\<lambda>st n. True" 0] by (auto simp: sample_start_def)

end
