(* ===== verification/Cfg_Caps.thy ===== *)
theory Cfg_Caps
  imports Cfg_Refine Lim_Types
begin

text \<open>
  The readers of several parameters in \<open>core/mac/src/cfg/cfg_api.c\<close>: the regulatory transmit power of a channel and the capability
  information of a session; and the search for a vendor element in the same file.
\<close>

unbundle bit_operations_syntax

section \<open>Transmit power\<close>

definition WMA_MAX_TXPOWER_INVALID :: int where "WMA_MAX_TXPOWER_INVALID = 127"

text \<open>
  The loop over the triples of first channel, number of channels and power in \<open>pCountryInfo\<close>. A read beyond the buffer is \<open>None\<close>: the
  buffer has 128 bytes, so the counter of 8 bits does not wrap around before. The bound is the unsigned \<open>cfgLength - 3\<close>.
\<close>

function country_loop :: "u8 list \<Rightarrow> u32 \<Rightarrow> u8 \<Rightarrow> nat \<Rightarrow> int \<Rightarrow> int option" where
  "country_loop buf bound channel cnt maxTxPwr =
     (if cnt > unat bound then Some maxTxPwr
      else if cnt + 2 \<ge> length buf then None
      else let firstChannel = unat (buf ! cnt); maxChannels = unat (buf ! (cnt + 1)); maxTxPwr = sint (buf ! (cnt + 2)) in
        if unat channel \<ge> firstChannel \<and> unat channel < firstChannel + maxChannels then Some maxTxPwr
        else country_loop buf bound channel (cnt + 3) maxTxPwr)"
  by pat_completeness auto
termination by (relation "measure (\<lambda>(buf, bound, channel, cnt, maxTxPwr). length buf - cnt)") auto

declare country_loop.simps [simp del]

text \<open>\<open>heap\<close>: the contents of the memory an allocation of that many bytes returns.\<close>

definition cfg_get_dot11d_transmit_power :: "(nat \<Rightarrow> u8 list option) \<Rightarrow> nat \<Rightarrow> nat \<Rightarrow> u8 \<Rightarrow> cfg_state \<Rightarrow> int option" where
  "cfg_get_dot11d_transmit_power heap cfgId cfgLength channel st =
     (if cfgLength < 3 then Some WMA_MAX_TXPOWER_INVALID
      else case heap cfgLength of
        None \<Rightarrow> Some WMA_MAX_TXPOWER_INVALID
      | Some buf \<Rightarrow>
          do { r \<leftarrow> wlan_cfg_get_str cfgId cfgLength st;
               case r of
                 Inl _ \<Rightarrow> Some WMA_MAX_TXPOWER_INVALID
               | Inr bytes \<Rightarrow>
                   do { buf \<leftarrow> mem_copy buf 0 bytes (length bytes);
                        country_loop buf (of_nat (length bytes) - 3) channel 0 WMA_MAX_TXPOWER_INVALID } })"

definition cfg_get_regulatory_max_transmit_power :: "(nat \<Rightarrow> u8 list option) \<Rightarrow> u8 \<Rightarrow> cfg_state \<Rightarrow> int option" where
  "cfg_get_regulatory_max_transmit_power heap channel st =
     (if channel \<ge> 34 \<and> channel \<le> 165
      then cfg_get_dot11d_transmit_power heap WNI_CFG_MAX_TX_POWER_5 128 channel st
      else cfg_get_dot11d_transmit_power heap WNI_CFG_MAX_TX_POWER_2_4 128 channel st)"

section \<open>Capability information\<close>

definition WNI_CFG_DOT11_MODE_11B :: u8 where "WNI_CFG_DOT11_MODE_11B = 2"

text \<open>What the function reads of the session and of \<open>pMac->rrm\<close>.\<close>

record cap_session =
  ca_limSystemRole :: lim_role
  ca_privacy :: u8
  ca_dot11mode :: u8
  ca_shortSlotTimeSupported :: u8
  ca_lim11hEnable :: u32
  ca_rrm_enabled :: u8

text \<open>An assignment to a bit field of one bit: the lowest bit of the value.\<close>

definition put_field :: "nat \<Rightarrow> u32 \<Rightarrow> u16 \<Rightarrow> u16" where
  "put_field n v cap = (if bit v 0 then set_bit n cap else unset_bit n cap)"

text \<open>A field that is set when the parameter is not 0; the result is \<open>None\<close> within when the parameter cannot be read.\<close>

definition cap_from_cfg :: "nat \<Rightarrow> (u32 \<Rightarrow> u16 \<Rightarrow> u16) \<Rightarrow> cfg_state \<Rightarrow> u16 \<Rightarrow> (u16 \<times> bool) option" where
  "cap_from_cfg cfgId upd st cap =
     do { r \<leftarrow> wlan_cfg_get_int cfgId st;
          Some (case r of Inl _ \<Rightarrow> (cap, False) | Inr val \<Rightarrow> (upd val cap, True)) }"

definition set_if :: "nat \<Rightarrow> u32 \<Rightarrow> u16 \<Rightarrow> u16" where
  "set_if n val cap = (if val \<noteq> 0 then put_field n 1 cap else cap)"

text \<open>Steps until one fails, which is \<open>eSIR_FAILURE\<close>, or the function returns.\<close>

fun cap_steps :: "(u16 \<Rightarrow> (u16 \<times> bool) option) list \<Rightarrow> u16 \<Rightarrow> (u16 \<times> bool) option" where
  "cap_steps [] cap = Some (cap, True)"
| "cap_steps (f # fs) cap = do { (cap, ok) \<leftarrow> f cap; if ok then cap_steps fs cap else Some (cap, False) }"

definition cap_role :: "cap_session \<Rightarrow> u16 \<Rightarrow> u16" where
  "cap_role s cap =
     (case ca_limSystemRole s of
        eLIM_STA_IN_IBSS_ROLE \<Rightarrow> put_field 1 1 cap
      | eLIM_AP_ROLE \<Rightarrow> put_field 0 1 cap
      | eLIM_STA_ROLE \<Rightarrow> put_field 0 1 cap
      | eLIM_P2P_DEVICE_ROLE \<Rightarrow> put_field 1 0 (put_field 0 0 cap)
      | eLIM_NDI_ROLE \<Rightarrow> put_field 1 0 (put_field 0 0 cap)
      | _ \<Rightarrow> cap)"

text \<open>The fields that are set in all modes, then those of the modes other than 11b. The result tells \<open>eSIR_SUCCESS\<close>.\<close>

definition cap_common :: "cap_session \<Rightarrow> cfg_state \<Rightarrow> (u16 \<Rightarrow> (u16 \<times> bool) option) list" where
  "cap_common s st =
     [\<lambda>cap. Some (cap_role s cap, True),
      \<lambda>cap. if ca_limSystemRole s = eLIM_AP_ROLE then Some (set_if 4 (ucast (ca_privacy s)) cap, True)
        else cap_from_cfg WNI_CFG_PRIVACY_ENABLED (set_if 4) st cap,
      \<lambda>cap. cap_from_cfg WNI_CFG_SHORT_PREAMBLE (set_if 5) st cap,
      \<lambda>cap. Some (put_field 7 0 (put_field 6 0 cap), True)]"

definition cap_modern :: "cap_session \<Rightarrow> cfg_state \<Rightarrow> (u16 \<Rightarrow> (u16 \<times> bool) option) list" where
  "cap_modern s st =
     [\<lambda>cap. if ca_limSystemRole s = eLIM_AP_ROLE then Some (put_field 10 (ucast (ca_shortSlotTimeSupported s)) cap, True)
        else cap_from_cfg WNI_CFG_11G_SHORT_SLOT_TIME_ENABLED
          (\<lambda>val cap. if val \<noteq> 0 then put_field 10 (ucast (ca_shortSlotTimeSupported s)) cap else cap) st cap,
      \<lambda>cap. if ca_limSystemRole s \<noteq> eLIM_STA_IN_IBSS_ROLE \<and> ca_lim11hEnable s \<noteq> 0
        then cap_from_cfg WNI_CFG_11H_ENABLED (set_if 8) st cap else Some (cap, True),
      \<lambda>cap. cap_from_cfg WNI_CFG_QOS_ENABLED (set_if 9) st cap,
      \<lambda>cap. cap_from_cfg WNI_CFG_APSD_ENABLED (set_if 11) st cap,
      \<lambda>cap. Some (put_field 12 (ucast (ca_rrm_enabled s)) cap, True),
      \<lambda>cap. cap_from_cfg WNI_CFG_BLOCK_ACK_ENABLED
        (\<lambda>val cap. put_field 15 (drop_bit 1 val AND 1) (put_field 14 (drop_bit 0 val AND 1) cap)) st cap]"

definition cfg_get_capability_info :: "cap_session \<Rightarrow> cfg_state \<Rightarrow> (u16 \<times> bool) option" where
  "cfg_get_capability_info s st =
     cap_steps (cap_common s st @ (if ca_dot11mode s = WNI_CFG_DOT11_MODE_11B then [] else cap_modern s st)) 0"

section \<open>Vendor elements\<close>

definition SIR_MAC_EID_VENDOR :: u8 where "SIR_MAC_EID_VENDOR = 221"

text \<open>
  \<open>mem\<close> is the memory from \<open>ie\<close> on; the result is the offset of the element. \<open>memcmp\<close> reads all its bytes: a read beyond the memory is
  \<open>None\<close>.
\<close>

function vendor_loop :: "u8 list \<Rightarrow> u8 list \<Rightarrow> nat \<Rightarrow> nat \<Rightarrow> nat option option" where
  "vendor_loop mem oui left ptr =
     (if left < 2 then Some None
      else do { elem_id \<leftarrow> entry mem ptr;
                elem_len \<leftarrow> map_option unat (entry mem (ptr + 1));
                if elem_len > left - 2 then Some None
                else do { found \<leftarrow> (if elem_id = SIR_MAC_EID_VENDOR then map_option (\<lambda>bytes. bytes = oui) (mem_read mem (ptr + 2) (length oui))
                                else Some False);
                          if found then Some (Some ptr) else vendor_loop mem oui (left - 2 - elem_len) (ptr + elem_len + 2) } })"
  by pat_completeness auto
termination by (relation "measure (\<lambda>(mem, oui, left, ptr). left)") auto

declare vendor_loop.simps [simp del]

definition cfg_get_vendor_ie_ptr_from_oui :: "u8 list \<Rightarrow> u8 list \<Rightarrow> u16 \<Rightarrow> nat option option" where
  "cfg_get_vendor_ie_ptr_from_oui oui mem ie_len = vendor_loop mem oui (unat ie_len) 0"

end
