(* ===== verification/Cfg_Readers.thy ===== *)
theory Cfg_Readers
  imports Cfg_Caps
begin

text \<open>
  The readers of several parameters, each against what it is to compute: the power of the first triple with the channel, the bits of the
  capability information, and the first element with the identifier of a vendor.
\<close>

unbundle bit_operations_syntax

section \<open>Transmit power\<close>

fun triples :: "u8 list \<Rightarrow> (nat \<times> nat \<times> int) list" where
  "triples (a # b # c # bs) = (unat a, unat b, sint c) # triples bs"
| "triples bs = []"

text \<open>The power of the first triple with the channel, of the last triple when there is none.\<close>

fun triple_power :: "nat \<Rightarrow> int \<Rightarrow> (nat \<times> nat \<times> int) list \<Rightarrow> int" where
  "triple_power channel d [] = d"
| "triple_power channel d ((first, num, pwr) # ts) = (if first \<le> channel \<and> channel < first + num then pwr else triple_power channel pwr ts)"

lemma country_loop_triples:
  "\<lbrakk>3 \<le> length bs; cnt \<le> length bs; unat bound = length bs - 3\<rbrakk> \<Longrightarrow>
   country_loop (bs @ rest) bound channel cnt d = Some (triple_power (unat channel) d (triples (drop cnt bs)))"
proof (induction "length bs - cnt" arbitrary: cnt d rule: less_induct)
  case less
  show ?case
  proof (cases "cnt + 2 < length bs")
    case False
    then have "triples (drop cnt bs) = []" by (cases "drop cnt bs" rule: triples.cases) (auto dest: arg_cong [of _ _ length])
    moreover have "length bs - 3 < cnt" using False less.prems by linarith
    ultimately show ?thesis using less.prems by (simp add: country_loop.simps [of _ _ _ cnt])
  next
    case True
    then have "drop cnt bs = bs ! cnt # bs ! (cnt + 1) # bs ! (cnt + 2) # drop (cnt + 3) bs"
      by (simp add: Cons_nth_drop_Suc numeral_eq_Suc)
    moreover have "\<not> length bs - 3 < cnt" using True by linarith
    ultimately show ?thesis using True less.prems less.hyps [of "cnt + 3"]
      by (simp add: country_loop.simps [of _ _ _ cnt] nth_append Let_def)
  qed
qed

lemma power_max: "str_max WNI_CFG_MAX_TX_POWER_2_4 = 128" "str_max WNI_CFG_MAX_TX_POWER_5 = 128"
proof -
  have "str_no 62 = 17" "str_no 63 = 18" by (simp_all add: str_no_ids str_ids_def)
  then show "str_max WNI_CFG_MAX_TX_POWER_2_4 = 128" "str_max WNI_CFG_MAX_TX_POWER_5 = 128"
    by (simp_all add: str_max_nth is_int_ids str_ids_def str_maxes_def)
qed

text \<open>
  The transmit power of a channel. When the string of the band (\<open>WNI_CFG_MAX_TX_POWER_5\<close> for the channels 34 to 165,
  \<open>WNI_CFG_MAX_TX_POWER_2_4\<close> for the others) has at least 3 bytes, the result is the power of the first triple whose channels hold the
  channel, and no byte outside the string is read. When no triple does, the result is the power of the last triple.
\<close>

theorem cfg_transmit_power:
  assumes "cfg_wf st" "heap 128 = Some buf" "length buf = 128"
    "i = (if 34 \<le> channel \<and> channel \<le> 165 then WNI_CFG_MAX_TX_POWER_5 else WNI_CFG_MAX_TX_POWER_2_4)"
    "cfg_abs st i = Some (StrVal s)" "3 \<le> length s"
  shows "cfg_get_regulatory_max_transmit_power heap channel st = Some (triple_power (unat channel) WMA_MAX_TXPOWER_INVALID (triples s))"
proof -
  have kinds: "\<not> is_int WNI_CFG_MAX_TX_POWER_5" "\<not> is_int WNI_CFG_MAX_TX_POWER_2_4" by (simp_all add: is_int_ids str_ids_def)
  then have i: "i < CFG_PARAM_MAX_NUM" "\<not> is_int i" using assms(4) by (auto split: if_splits)
  have max: "str_max i = 128" using power_max assms(4) by (simp split: if_splits)
  have s: "s = str_val i st" "length s \<le> 128"
    using assms(5) i max cfg_wf_str(2) [OF assms(1) i] str_val_length [OF assms(1) i] by (simp_all add: cfg_abs_def)
  have get: "wlan_cfg_get_str i 128 st = Some (Inr s)" using get_str(1) [OF assms(1) i, of 128] s by simp
  have copy: "mem_copy buf 0 s (length s) = Some (s @ drop (length s) buf)" using s(2) assms(3) by (simp add: mem_copy_def)
  have "unat (of_nat (length s) - 3 :: u32) = length s - 3"
  proof -
    have "(of_nat (length s) - 3 :: u32) = of_nat (length s - 3)" using assms(6) by (simp add: of_nat_diff)
    then show ?thesis using s(2) by (simp only: unsigned_of_nat) (simp add: take_bit_nat_eq_self)
  qed
  then have "cfg_get_dot11d_transmit_power heap i 128 channel st = Some (triple_power (unat channel) WMA_MAX_TXPOWER_INVALID (triples s))"
    using assms(2,6) get copy country_loop_triples [of s 0 "of_nat (length s) - 3" "drop (length s) buf" channel]
    by (simp add: cfg_get_dot11d_transmit_power_def)
  then show ?thesis using assms(4) by (auto simp: cfg_get_regulatory_max_transmit_power_def split: if_splits)
qed

lemma sample_val: "i < CFG_PARAM_MAX_NUM \<Longrightarrow> cfg_abs sample_store i = Some (default_val i)"
proof -
  obtain st1 where st1: "cfg_init 4096 sample_mem sample_start = (st1, eSIR_CFG_OK)" "created st1"
    using cfg_init_created [of 4096 sample_mem, OF _ sample_mem, of sample_start] by (auto simp: sample_start_def)
  with download_ok [OF st1(2), of 0] show "i < CFG_PARAM_MAX_NUM \<Longrightarrow> cfg_abs sample_store i = Some (default_val i)"
    by (auto simp: sample_store_def sample_start_def)
qed

lemma power_default: "default_val WNI_CFG_MAX_TX_POWER_2_4 = StrVal [1, 14, 20]" "default_val WNI_CFG_MAX_TX_POWER_5 = StrVal [36, 126, 20]"
proof -
  have rows: "str_no 62 = 17" "str_no 63 = 18" by (simp_all add: str_no_ids str_ids_def)
  have kinds: "\<not> is_int WNI_CFG_MAX_TX_POWER_5" "\<not> is_int WNI_CFG_MAX_TX_POWER_2_4" by (simp_all add: is_int_ids str_ids_def)
  have "take (unat (ss_length (cfg_static_string ! 17))) (ss_data (cfg_static_string ! 17)) = [1, 14, 20]"
    "take (unat (ss_length (cfg_static_string ! 18))) (ss_data (cfg_static_string ! 18)) = [36, 126, 20]" by code_simp+
  with rows kinds show "default_val WNI_CFG_MAX_TX_POWER_2_4 = StrVal [1, 14, 20]" "default_val WNI_CFG_MAX_TX_POWER_5 = StrVal [36, 126, 20]"
    by (simp_all add: default_val_def)
qed

lemma cfg_transmit_power_witness:
  "cfg_get_regulatory_max_transmit_power (\<lambda>n. Some (replicate n 0)) 11 sample_store = Some 20 \<and>
    cfg_get_regulatory_max_transmit_power (\<lambda>n. Some (replicate n 0)) 165 sample_store = Some 20"
proof -
  have abs: "cfg_abs sample_store WNI_CFG_MAX_TX_POWER_2_4 = Some (StrVal [1, 14, 20])" "cfg_abs sample_store WNI_CFG_MAX_TX_POWER_5 = Some (StrVal [36, 126, 20])"
    using sample_val [of WNI_CFG_MAX_TX_POWER_2_4] sample_val [of WNI_CFG_MAX_TX_POWER_5] by (simp_all add: power_default)
  show ?thesis
    using cfg_transmit_power [OF sample_store(1) _ _ _ abs(1), of "\<lambda>n. Some (replicate n 0)" "replicate 128 0" 11]
      cfg_transmit_power [OF sample_store(1) _ _ _ abs(2), of "\<lambda>n. Some (replicate n 0)" "replicate 128 0" 165] by simp
qed

text \<open>A string of less than 3 bytes: the bound of the loop wraps around, and the loop runs beyond the buffer.\<close>

lemma country_loop_beyond:
  "\<lbrakk>length buf < unat bound; cnt \<le> length buf; \<forall>k. k + 2 < length buf \<longrightarrow> buf ! (k + 1) = 0\<rbrakk> \<Longrightarrow> country_loop buf bound channel cnt d = None"
proof (induction "length buf - cnt" arbitrary: cnt d rule: less_induct)
  case less
  then show ?case
  proof (cases "cnt + 2 < length buf")
    case True
    with less.prems less.hyps [of "cnt + 3"] show ?thesis by (simp add: country_loop.simps [of _ _ _ cnt] Let_def)
  qed (auto simp: country_loop.simps [of _ _ _ cnt])
qed

section \<open>Capability information\<close>

definition param_int :: "cfg_state \<Rightarrow> nat \<Rightarrow> u32" where
  "param_int st i = (case cfg_abs st i of Some (IntVal n) \<Rightarrow> n | _ \<Rightarrow> 0)"

text \<open>The bits of the capability information, for the values \<open>v\<close> of the parameters.\<close>

definition cap_bit :: "cap_session \<Rightarrow> (nat \<Rightarrow> u32) \<Rightarrow> nat \<Rightarrow> bool" where
  "cap_bit s v n =
     (let ap = (ca_limSystemRole s = eLIM_AP_ROLE); ibss = (ca_limSystemRole s = eLIM_STA_IN_IBSS_ROLE) in
      if n = 0 then ap \<or> ca_limSystemRole s = eLIM_STA_ROLE
      else if n = 1 then ibss
      else if n = 4 then (if ap then ca_privacy s \<noteq> 0 else v WNI_CFG_PRIVACY_ENABLED \<noteq> 0)
      else if n = 5 then v WNI_CFG_SHORT_PREAMBLE \<noteq> 0
      else if ca_dot11mode s = WNI_CFG_DOT11_MODE_11B then False
      else if n = 8 then \<not> ibss \<and> ca_lim11hEnable s \<noteq> 0 \<and> v WNI_CFG_11H_ENABLED \<noteq> 0
      else if n = 9 then v WNI_CFG_QOS_ENABLED \<noteq> 0
      else if n = 10 then (ap \<or> v WNI_CFG_11G_SHORT_SLOT_TIME_ENABLED \<noteq> 0) \<and> bit (ca_shortSlotTimeSupported s) 0
      else if n = 11 then v WNI_CFG_APSD_ENABLED \<noteq> 0
      else if n = 12 then bit (ca_rrm_enabled s) 0
      else if n = 14 then bit (v WNI_CFG_BLOCK_ACK_ENABLED) 0
      else n = 15 \<and> bit (v WNI_CFG_BLOCK_ACK_ENABLED) 1)"

lemma bit_put_field: "bit (put_field n v cap) m = (if m = n then n < 16 \<and> bit v 0 else bit cap m)"
  by (auto simp: put_field_def bit_set_bit_iff bit_unset_bit_iff dest: bit_imp_le_length)

lemma bit_set_if: "bit (set_if n v cap) m = (if m = n \<and> v \<noteq> 0 then n < 16 else bit cap m)"
  by (auto simp: set_if_def bit_put_field)

lemma cap_from_cfg_wf: "\<lbrakk>cfg_wf st; i < CFG_PARAM_MAX_NUM; is_int i\<rbrakk> \<Longrightarrow> cap_from_cfg i upd st cap = Some (upd (param_int st i) cap, True)"
  by (simp add: cap_from_cfg_def get_int param_int_def cfg_abs_def)

lemma bit_if: "bit (if b then x else y) m = (if b then bit x m else bit y m)"
  by simp

lemma some_if: "(if b then Some (x, True) else Some (y, True)) = Some (if b then x else y, True)"
  by simp

text \<open>The value in one expression.\<close>

definition cap_value :: "cap_session \<Rightarrow> (nat \<Rightarrow> u32) \<Rightarrow> u16" where
  "cap_value s v =
     (let ap = (ca_limSystemRole s = eLIM_AP_ROLE);
          c = put_field 7 0 (put_field 6 0 (set_if 5 (v WNI_CFG_SHORT_PREAMBLE)
            (if ap then set_if 4 (ucast (ca_privacy s)) (cap_role s 0) else set_if 4 (v WNI_CFG_PRIVACY_ENABLED) (cap_role s 0))));
          slot = put_field 10 (ucast (ca_shortSlotTimeSupported s)) c;
          c1 = (if ap then slot else if v WNI_CFG_11G_SHORT_SLOT_TIME_ENABLED \<noteq> 0 then slot else c);
          c2 = (if ca_limSystemRole s \<noteq> eLIM_STA_IN_IBSS_ROLE \<and> ca_lim11hEnable s \<noteq> 0 then set_if 8 (v WNI_CFG_11H_ENABLED) c1 else c1);
          c3 = put_field 12 (ucast (ca_rrm_enabled s)) (set_if 11 (v WNI_CFG_APSD_ENABLED) (set_if 9 (v WNI_CFG_QOS_ENABLED) c2)) in
      if ca_dot11mode s = WNI_CFG_DOT11_MODE_11B then c
      else put_field 15 (drop_bit 1 (v WNI_CFG_BLOCK_ACK_ENABLED) AND 1) (put_field 14 (drop_bit 0 (v WNI_CFG_BLOCK_ACK_ENABLED) AND 1) c3))"

lemma ucast_eq_0: "(ucast (x :: u8) :: u32) = 0 \<longleftrightarrow> x = 0"
proof
  assume "(ucast x :: u32) = 0"
  then have "(ucast (ucast x :: u32) :: u8) = 0" by simp
  then show "x = 0" by (simp add: ucast_up_ucast_id is_up)
qed simp

lemma cap_kinds: "is_int WNI_CFG_PRIVACY_ENABLED" "is_int WNI_CFG_SHORT_PREAMBLE" "is_int WNI_CFG_11G_SHORT_SLOT_TIME_ENABLED"
  "is_int WNI_CFG_11H_ENABLED" "is_int WNI_CFG_QOS_ENABLED" "is_int WNI_CFG_APSD_ENABLED" "is_int WNI_CFG_BLOCK_ACK_ENABLED"
  by (simp_all add: is_int_ids str_ids_def)

lemma bit_cap_role: "bit (cap_role s 0) n =
    (n = 0 \<and> ca_limSystemRole s \<in> {eLIM_AP_ROLE, eLIM_STA_ROLE} \<or> n = 1 \<and> ca_limSystemRole s = eLIM_STA_IN_IBSS_ROLE)"
  by (cases "ca_limSystemRole s") (auto simp: cap_role_def bit_put_field)

lemma cap_info_value: "cfg_wf st \<Longrightarrow> \<exists>cap. cfg_get_capability_info s st = Some (cap, True) \<and> (\<forall>n. bit cap n = bit (cap_value s (param_int st)) n)"
  by (simp add: cfg_get_capability_info_def cap_common_def cap_modern_def cap_from_cfg_wf cap_kinds some_if cap_value_def Let_def)

lemma low_bit: "bit (ucast (x :: u8) :: u32) 0 = bit x 0" "bit (y AND 1 :: u32) 0 = bit y 0" "bit (drop_bit (Suc 0) y :: u32) 0 = bit y (Suc 0)"
  by (simp_all add: bit_simps)

text \<open>
  The capability information. On a well-formed store \<open>cfg_get_capability_info\<close> succeeds, and each of the 16 bits is what the role,
  the mode and the fields of the session and the parameters say: ESS for access points and stations, IBSS in an independent network
  and never both, privacy from the session of an access point and from the store otherwise, and nothing above bit 5 in 11b mode.
\<close>

theorem cfg_capability_bits:
  assumes "cfg_wf st"
  shows "\<exists>cap. cfg_get_capability_info s st = Some (cap, True) \<and> (\<forall>n < 16. bit cap n = cap_bit s (param_int st) n)"
proof -
  obtain cap where cap: "cfg_get_capability_info s st = Some (cap, True)" and bits: "\<And>n. bit cap n = bit (cap_value s (param_int st)) n"
    using cap_info_value [OF assms] by blast
  have "bit cap n = cap_bit s (param_int st) n" if "n < 16" for n
  proof -
    have "n \<in> {0, 1, 2, 3, 4, 5, 6, 7, 8, 9, 10, 11, 12, 13, 14, 15}"
      using that by (simp add: numeral_eq_Suc less_Suc_eq disj_commute) blast
    then show ?thesis unfolding bits
      by (elim insertE emptyE) (simp_all add: cap_value_def cap_bit_def bit_if bit_put_field bit_set_if bit_cap_role ucast_eq_0 low_bit Let_def)
  qed
  with cap show ?thesis by blast
qed

text \<open>A session of an access point in a mode other than 11b.\<close>

definition sample_session :: cap_session where
  "sample_session = \<lparr>ca_limSystemRole = eLIM_AP_ROLE, ca_privacy = 1, ca_dot11mode = 0, ca_shortSlotTimeSupported = 1, ca_lim11hEnable = 1, ca_rrm_enabled = 0\<rparr>"

lemma cfg_capability_bits_witness:
  "\<exists>cap. cfg_get_capability_info sample_session sample_store = Some (cap, True) \<and> bit cap 0 \<and> \<not> bit cap 1 \<and> bit cap 4 \<and> bit cap 10 \<and> \<not> bit cap 12"
proof -
  obtain cap where cap: "cfg_get_capability_info sample_session sample_store = Some (cap, True)"
    "\<And>n. n < 16 \<Longrightarrow> bit cap n = cap_bit sample_session (param_int sample_store) n"
    using cfg_capability_bits [OF sample_store(1), of sample_session] by blast
  then show ?thesis using cap(2) [of 0] cap(2) [of 1] cap(2) [of 4] cap(2) [of 10] cap(2) [of 12]
    by (simp add: cap_bit_def sample_session_def WNI_CFG_DOT11_MODE_11B_def Let_def)
qed

section \<open>Vendor elements\<close>

text \<open>The elements of a buffer, each with its offset, up to the first that is longer than what is left.\<close>

fun elements :: "nat \<Rightarrow> u8 list \<Rightarrow> (nat \<times> u8 \<times> u8 list) list" where
  "elements off (i # l # bs) =
     (if unat l > length bs then [] else (off, i, take (unat l) bs) # elements (off + unat l + 2) (drop (unat l) bs))"
| "elements off bs = []"

definition vendor_of :: "u8 list \<Rightarrow> nat \<times> u8 \<times> u8 list \<Rightarrow> bool" where
  "vendor_of oui = (\<lambda>(off, i, body). i = SIR_MAC_EID_VENDOR \<and> take (length oui) body = oui)"

definition holds_oui :: "u8 list \<Rightarrow> nat \<times> u8 \<times> u8 list \<Rightarrow> bool" where
  "holds_oui oui = (\<lambda>(off, i, body). i = SIR_MAC_EID_VENDOR \<longrightarrow> length oui \<le> length body)"

lemma elements_at:
  assumes "ptr + left \<le> length mem" "2 \<le> left"
  shows "elements off (take left (drop ptr mem)) =
    (let l = unat (mem ! (ptr + 1)) in if l > left - 2 then []
     else (off, mem ! ptr, take l (drop (ptr + 2) mem)) # elements (off + l + 2) (take (left - 2 - l) (drop (ptr + l + 2) mem)))"
proof -
  have "drop ptr mem = mem ! ptr # mem ! (ptr + 1) # drop (ptr + 2) mem" using assms by (simp add: Cons_nth_drop_Suc)
  moreover obtain k where "left = Suc (Suc k)" using assms(2) by (metis add_2_eq_Suc le_Suc_ex)
  moreover from this have "min (length mem - Suc (Suc ptr)) k = k" using assms(1) by simp
  ultimately show ?thesis using assms(1) by (simp add: Let_def drop_take min.commute ac_simps)
qed

lemma elements_short: "length bs < 2 \<Longrightarrow> elements off bs = []"
  by (cases "(off, bs)" rule: elements.cases) auto

lemma vendor_loop_elements:
  assumes "ptr + left \<le> length mem" "list_all (holds_oui oui) (elements ptr (take left (drop ptr mem)))"
  shows "vendor_loop mem oui left ptr = Some (map_option fst (find (vendor_of oui) (elements ptr (take left (drop ptr mem)))))"
  using assms
proof (induction left arbitrary: ptr rule: less_induct)
  case (less left)
  let ?l = "unat (mem ! (ptr + 1))"
  show ?case
  proof (cases "2 \<le> left \<and> ?l \<le> left - 2")
    case False
    have short: "elements ptr (take left (drop ptr mem)) = []" if "left < 2"
      using that by (simp add: elements_short)
    show ?thesis
    proof (cases "left < 2")
      case True
      with short show ?thesis by (simp add: vendor_loop.simps)
    next
      case long: False
      with False elements_at [OF less.prems(1), of ptr] less.prems(1) show ?thesis
        by (simp add: vendor_loop.simps [of _ _ left] Let_def split: bind_split)
    qed
  next
    case True
    let ?body = "take ?l (drop (ptr + 2) mem)" and ?rest = "elements (ptr + ?l + 2) (take (left - 2 - ?l) (drop (ptr + ?l + 2) mem))"
    have es: "elements ptr (take left (drop ptr mem)) = (ptr, mem ! ptr, ?body) # ?rest"
      using True elements_at [OF less.prems(1), of ptr] by (simp add: Let_def)
    have "ptr + 2 + ?l \<le> length mem" using True less.prems(1) by linarith
    then have body: "length ?body = ?l" by simp
    have oui: "mem ! ptr = SIR_MAC_EID_VENDOR \<Longrightarrow> mem_read mem (ptr + 2) (length oui) = Some (take (length oui) ?body)"
    proof -
      assume "mem ! ptr = SIR_MAC_EID_VENDOR"
      then have len: "length oui \<le> ?l" using less.prems(2) body unfolding es by (simp add: holds_oui_def)
      then have "ptr + 2 + length oui \<le> length mem" using \<open>ptr + 2 + ?l \<le> length mem\<close> by linarith
      with len show ?thesis by (simp add: min_absorb1)
    qed
    have IH: "vendor_loop mem oui (left - 2 - ?l) (ptr + ?l + 2) = Some (map_option fst (find (vendor_of oui) ?rest))"
      using True less.prems unfolding es by (intro less.IH) auto
    show ?thesis unfolding es using True less.prems(1) oui IH
      by (simp add: vendor_loop.simps [of _ _ left] vendor_of_def)
  qed
qed

text \<open>
  The search for a vendor element. When every vendor element of the buffer has room for the identifier, the search reads nothing
  outside the buffer and returns the first vendor element that starts with the identifier, and nothing when there is none or an
  element longer than what is left comes first.
\<close>

theorem cfg_vendor_ie_first:
  assumes "unat ie_len \<le> length mem" "list_all (holds_oui oui) (elements 0 (take (unat ie_len) mem))"
  shows "cfg_get_vendor_ie_ptr_from_oui oui mem ie_len = Some (map_option fst (find (vendor_of oui) (elements 0 (take (unat ie_len) mem))))"
  using assms vendor_loop_elements [of 0 "unat ie_len" mem oui] by (simp add: cfg_get_vendor_ie_ptr_from_oui_def)

lemma cfg_vendor_ie_first_witness:
  "cfg_get_vendor_ie_ptr_from_oui [0, 80, 242] [0, 1, 65, 221, 3, 0, 16, 24, 221, 4, 0, 80, 242, 2] 14 = Some (Some 8)"
  using cfg_vendor_ie_first [of 14 "[0, 1, 65, 221, 3, 0, 16, 24, 221, 4, 0, 80, 242, 2]" "[0, 80, 242]"]
  by (simp add: holds_oui_def vendor_of_def SIR_MAC_EID_VENDOR_def)

text \<open>A vendor element shorter than the identifier: the comparison runs into the next element, or out of the buffer.\<close>

lemma cfg_vendor_ie_short:
  "cfg_get_vendor_ie_ptr_from_oui [0, 80, 242] [221, 0, 0, 80, 242] 5 = Some (Some 0)"
  "cfg_get_vendor_ie_ptr_from_oui [0, 80, 242] [221, 0] 2 = None"
  by (simp_all add: cfg_get_vendor_ie_ptr_from_oui_def vendor_loop.simps entry_def mem_read_def SIR_MAC_EID_VENDOR_def)

end
