(* ===== verification/Cds_Sched.thy ===== *)
theory Cds_Sched
  imports Prelude
begin

text \<open>
  The message queues and the main controller thread of the driver: \<open>core/cds/src/cds_mq.c\<close>, \<open>cds_sched.c\<close>, the posting of messages in
  \<open>cds_api.c\<close>, and the hand-shake that suspends the thread in \<open>core/hdd/src/wlan_hdd_power.c\<close>. The threads are step functions over one
  state: a step is what is done under one lock or with one atomic operation, and a step that waits is \<open>None\<close>. The spin locks, which
  protect one list each, are therefore implicit.
\<close>

section \<open>State\<close>

datatype cds_mq_id = CDS_MQ_ID_SME | CDS_MQ_ID_PE | CDS_MQ_ID_WMA | CDS_MQ_ID_SYS

record cds_msg =
  msg_type :: u16
  msg_reserved :: u16
  msg_bodyptr :: "nat option"
  msg_bodyval :: u32
  msg_callback :: "nat option"

definition CDS_CORE_MAX_MESSAGES :: nat where "CDS_CORE_MAX_MESSAGES = 8000"
definition CDS_WRAPPER_MAX_FAIL_COUNT :: u32 where "CDS_WRAPPER_MAX_FAIL_COUNT = of_nat (CDS_CORE_MAX_MESSAGES * 3)"

text \<open>
  Where \<open>cds_mc_thread\<close> is: waiting for an event, woken up, at the top of the inner loop, in the shutdown branch, at a queue (looking,
  getting, with a message, giving the wrapper back), in the suspend branch.
\<close>

datatype mc_pc =
  McWait | McWoken | McTop | McShut | McShutClear | McShutTell | McExiting | McExit
  | McCheck cds_mq_id | McGet cds_mq_id | McHandle cds_mq_id nat | McReturn nat
  | McCheckSus | McSusClear | McSusInit | McSusTell | McSuspended

text \<open>A call of \<open>cds_mq_post_message_by_priority\<close> after its checks.\<close>

datatype post_pc = PostGet | PostPut nat | PostSignal
datatype posting = Posting cds_mq_id cds_msg bool post_pc

datatype close_pc =
  CloseIdle | CloseShut | ClosePost | CloseWait | CloseThread | CloseFlush cds_mq_id | CloseReturn cds_mq_id nat | CloseCtx | CloseDone

datatype req_pc = ReqIdle | ReqWait | ReqTimeout

text \<open>
  A wrapper is its index in \<open>aMsgWrappers\<close>, and \<open>aMsgBuffers\<close> has its message. A completion is its count. \<open>posted\<close>, \<open>taken\<close>, \<open>handled\<close>,
  \<open>dropped\<close> and \<open>flushed\<close> record the messages that were put into a queue, got from it by the thread, passed to a module, given up because the
  module is not ready, and got from a queue by \<open>cds_sched_flush_mc_mqs\<close>.
\<close>

record mc_state =
  aMsgBuffers :: "nat \<Rightarrow> cds_msg"
  freeVosMq :: "nat list"
  mcMq :: "cds_mq_id \<Rightarrow> nat list"
  mc_post_event :: bool
  mc_suspend_event :: bool
  mc_shutdown_event :: bool
  gp_cds_sched_context :: bool
  McThread :: bool
  McShutdown :: nat
  ResumeMcEvent :: nat
  mc_sus_event_var :: nat
  isMcThreadSuspended :: bool
  cds_wrapper_empty_count :: u32
  mc_bug :: bool
  mc_assert :: bool
  mc_thread :: mc_pc
  postings :: "posting list"
  closing :: close_pc
  suspending :: req_pc
  posted :: "(cds_mq_id \<times> cds_msg \<times> bool) list"
  taken :: "(cds_mq_id \<times> cds_msg) list"
  handled :: "(cds_mq_id \<times> cds_msg) list"
  dropped :: "(cds_mq_id \<times> cds_msg) list"
  flushed :: "(cds_mq_id \<times> cds_msg) list"

section \<open>Queues\<close>

definition cds_mq_put :: "nat list \<Rightarrow> nat \<Rightarrow> nat list" where
  "cds_mq_put mq w = mq @ [w]"

definition cds_mq_put_front :: "nat list \<Rightarrow> nat \<Rightarrow> nat list" where
  "cds_mq_put_front mq w = w # mq"

fun cds_mq_get :: "nat list \<Rightarrow> nat option \<times> nat list" where
  "cds_mq_get [] = (None, [])"
| "cds_mq_get (w # mq) = (Some w, mq)"

definition cds_is_mq_empty :: "nat list \<Rightarrow> bool" where
  "cds_is_mq_empty mq \<longleftrightarrow> mq = []"

definition put_mq :: "cds_mq_id \<Rightarrow> nat list \<Rightarrow> mc_state \<Rightarrow> mc_state" where
  "put_mq q ws s = s\<lparr>mcMq := (mcMq s)(q := ws)\<rparr>"

definition cds_core_return_msg :: "nat \<Rightarrow> mc_state \<Rightarrow> mc_state" where
  "cds_core_return_msg w s = s\<lparr>freeVosMq := cds_mq_put (freeVosMq s) w\<rparr>"

section \<open>Posting\<close>

text \<open>The checks of \<open>cds_mq_post_message_by_priority\<close>, which may refuse the message.\<close>

definition post_begin :: "cds_mq_id \<Rightarrow> cds_msg \<Rightarrow> bool \<Rightarrow> mc_state \<Rightarrow> mc_state" where
  "post_begin q msg high s =
     (if \<not> gp_cds_sched_context s \<or> \<not> McThread s then s else s\<lparr>postings := postings s @ [Posting q msg high PostGet]\<rparr>)"

text \<open>The next step of the \<open>k\<close>-th call.\<close>

definition post_step :: "nat \<Rightarrow> mc_state \<Rightarrow> mc_state option" where
  "post_step k s =
     (if k \<ge> length (postings s) then None
      else case postings s ! k of Posting q msg high pc \<Rightarrow>
        (case pc of
           PostGet \<Rightarrow>
             (case cds_mq_get (freeVosMq s) of
                (None, _) \<Rightarrow>
                  let n = cds_wrapper_empty_count s + 1 in
                  Some (s\<lparr>cds_wrapper_empty_count := n, mc_bug := mc_bug s \<or> n = CDS_WRAPPER_MAX_FAIL_COUNT,
                    postings := take k (postings s) @ drop (Suc k) (postings s)\<rparr>)
              | (Some w, free) \<Rightarrow>
                  Some (s\<lparr>freeVosMq := free, cds_wrapper_empty_count := 0, aMsgBuffers := (aMsgBuffers s)(w := msg),
                    postings := (postings s)[k := Posting q msg high (PostPut w)]\<rparr>))
         | PostPut w \<Rightarrow>
             Some ((put_mq q (if high then cds_mq_put_front (mcMq s q) w else cds_mq_put (mcMq s q) w) s)
               \<lparr>posted := posted s @ [(q, msg, high)], postings := (postings s)[k := Posting q msg high PostSignal]\<rparr>)
         | PostSignal \<Rightarrow>
             Some (s\<lparr>mc_post_event := True, postings := take k (postings s) @ drop (Suc k) (postings s)\<rparr>)))"

section \<open>The main controller thread\<close>

fun next_queue :: "cds_mq_id \<Rightarrow> cds_mq_id option" where
  "next_queue CDS_MQ_ID_SYS = Some CDS_MQ_ID_WMA"
| "next_queue CDS_MQ_ID_WMA = Some CDS_MQ_ID_PE"
| "next_queue CDS_MQ_ID_PE = Some CDS_MQ_ID_SME"
| "next_queue CDS_MQ_ID_SME = None"

text \<open>
  One step of \<open>cds_mc_thread\<close>. \<open>ready\<close>: the context of the PE or SME module is there. The messages that a module posts while it handles
  one are calls of their own.
\<close>

definition cds_mc_thread :: "bool \<Rightarrow> mc_state \<Rightarrow> mc_state option" where
  "cds_mc_thread ready s =
     (case mc_thread s of
        McWait \<Rightarrow> if mc_post_event s \<or> mc_suspend_event s then Some (s\<lparr>mc_thread := McWoken\<rparr>) else None
      | McWoken \<Rightarrow> Some (s\<lparr>mc_post_event := False, mc_thread := McTop\<rparr>)
      | McTop \<Rightarrow> Some (s\<lparr>mc_thread := if mc_shutdown_event s then McShut else McCheck CDS_MQ_ID_SYS\<rparr>)
      | McShut \<Rightarrow> Some (s\<lparr>mc_thread := if mc_suspend_event s then McShutClear else McExiting\<rparr>)
      | McShutClear \<Rightarrow> Some (s\<lparr>mc_suspend_event := False, mc_thread := McShutTell\<rparr>)
      | McShutTell \<Rightarrow> Some (s\<lparr>mc_sus_event_var := mc_sus_event_var s + 1, mc_thread := McExiting\<rparr>)
      | McExiting \<Rightarrow> Some (s\<lparr>McShutdown := McShutdown s + 1, mc_thread := McExit\<rparr>)
      | McExit \<Rightarrow> None
      | McCheck q \<Rightarrow>
          Some (s\<lparr>mc_thread := if \<not> cds_is_mq_empty (mcMq s q) then McGet q
                               else case next_queue q of Some q' \<Rightarrow> McCheck q' | None \<Rightarrow> McCheckSus\<rparr>)
      | McGet q \<Rightarrow>
          (case cds_mq_get (mcMq s q) of
             (None, _) \<Rightarrow> Some (s\<lparr>mc_assert := True, mc_thread := McWait\<rparr>)
           | (Some w, ws) \<Rightarrow> Some ((put_mq q ws s)\<lparr>taken := taken s @ [(q, aMsgBuffers s w)], mc_thread := McHandle q w\<rparr>))
      | McHandle q w \<Rightarrow>
          Some (if q \<in> {CDS_MQ_ID_PE, CDS_MQ_ID_SME} \<and> \<not> ready
                then s\<lparr>dropped := dropped s @ [(q, aMsgBuffers s w)], mc_thread := McReturn w\<rparr>
                else s\<lparr>handled := handled s @ [(q, aMsgBuffers s w)], mc_thread := McReturn w\<rparr>)
      | McReturn w \<Rightarrow> Some ((cds_core_return_msg w s)\<lparr>mc_thread := McTop\<rparr>)
      | McCheckSus \<Rightarrow> Some (s\<lparr>mc_thread := if mc_suspend_event s then McSusClear else McWait\<rparr>)
      | McSusClear \<Rightarrow> Some (s\<lparr>mc_suspend_event := False, mc_thread := McSusInit\<rparr>)
      | McSusInit \<Rightarrow> Some (s\<lparr>ResumeMcEvent := 0, mc_thread := McSusTell\<rparr>)
      | McSusTell \<Rightarrow> Some (s\<lparr>mc_sus_event_var := mc_sus_event_var s + 1, mc_thread := McSuspended\<rparr>)
      | McSuspended \<Rightarrow> if ResumeMcEvent s > 0 then Some (s\<lparr>ResumeMcEvent := ResumeMcEvent s - 1, mc_thread := McWait\<rparr>) else None)"

section \<open>Closing\<close>

text \<open>
  One step of \<open>cds_sched_flush_mc_mqs\<close>, which gets the next message of queue \<open>q\<close> and frees what it refers to, or goes on to the next queue.
\<close>

definition cds_sched_flush_mc_mqs :: "cds_mq_id \<Rightarrow> mc_state \<Rightarrow> mc_state" where
  "cds_sched_flush_mc_mqs q s =
     (case cds_mq_get (mcMq s q) of
        (None, _) \<Rightarrow> s\<lparr>closing := case next_queue q of Some q' \<Rightarrow> CloseFlush q' | None \<Rightarrow> CloseCtx\<rparr>
      | (Some w, ws) \<Rightarrow> (put_mq q ws s)\<lparr>flushed := flushed s @ [(q, aMsgBuffers s w)], closing := CloseReturn q w\<rparr>)"

text \<open>\<open>cds_sched_close\<close>. What is done for the receive thread has a theory of its own.\<close>

definition cds_sched_close :: "mc_state \<Rightarrow> mc_state option" where
  "cds_sched_close s =
     (case closing s of
        CloseIdle \<Rightarrow> if gp_cds_sched_context s \<and> McThread s then Some (s\<lparr>closing := CloseShut\<rparr>) else None
      | CloseShut \<Rightarrow> Some (s\<lparr>mc_shutdown_event := True, closing := ClosePost\<rparr>)
      | ClosePost \<Rightarrow> Some (s\<lparr>mc_post_event := True, closing := CloseWait\<rparr>)
      | CloseWait \<Rightarrow> if McShutdown s > 0 then Some (s\<lparr>McShutdown := McShutdown s - 1, closing := CloseThread\<rparr>) else None
      | CloseThread \<Rightarrow> Some (s\<lparr>McThread := False, closing := CloseFlush CDS_MQ_ID_SYS\<rparr>)
      | CloseFlush q \<Rightarrow> Some (cds_sched_flush_mc_mqs q s)
      | CloseReturn q w \<Rightarrow> Some ((cds_core_return_msg w s)\<lparr>closing := CloseFlush q\<rparr>)
      | CloseCtx \<Rightarrow> Some (s\<lparr>gp_cds_sched_context := False, closing := CloseDone\<rparr>)
      | CloseDone \<Rightarrow> None)"

section \<open>Suspending\<close>

text \<open>
  The part of \<open>__wlan_hdd_cfg80211_suspend_wlan\<close> that suspends the thread: the request, the end of the wait with or without the
  completion, and the withdrawal of the request after a time-out. The kernel suspends a device only while it is not suspended. \<open>resume_mc\<close> is the part of \<open>__wlan_hdd_cfg80211_resume_wlan\<close>.
\<close>

definition suspend_request :: "mc_state \<Rightarrow> mc_state option" where
  "suspend_request s =
     (if suspending s = ReqIdle \<and> \<not> isMcThreadSuspended s then Some (s\<lparr>mc_suspend_event := True, suspending := ReqWait\<rparr>) else None)"

definition suspend_complete :: "mc_state \<Rightarrow> mc_state option" where
  "suspend_complete s =
     (if suspending s = ReqWait \<and> mc_sus_event_var s > 0
      then Some (s\<lparr>mc_sus_event_var := mc_sus_event_var s - 1, isMcThreadSuspended := True, suspending := ReqIdle\<rparr>) else None)"

definition suspend_timeout :: "mc_state \<Rightarrow> mc_state option" where
  "suspend_timeout s = (if suspending s = ReqWait \<and> mc_sus_event_var s = 0 then Some (s\<lparr>suspending := ReqTimeout\<rparr>) else None)"

definition suspend_withdraw :: "mc_state \<Rightarrow> mc_state option" where
  "suspend_withdraw s = (if suspending s = ReqTimeout then Some (s\<lparr>mc_suspend_event := False, suspending := ReqIdle\<rparr>) else None)"

definition resume_mc :: "mc_state \<Rightarrow> mc_state option" where
  "resume_mc s =
     (if suspending s = ReqIdle \<and> isMcThreadSuspended s
      then Some (s\<lparr>ResumeMcEvent := ResumeMcEvent s + 1, isMcThreadSuspended := False\<rparr>) else None)"

section \<open>Interleavings\<close>

datatype mc_action =
  Mc bool | PostBegin cds_mq_id cds_msg bool | Post nat | Close | SuspendRequest | SuspendComplete | SuspendTimeout | SuspendWithdraw | ResumeMc

fun sched_step :: "mc_action \<Rightarrow> mc_state \<Rightarrow> mc_state option" where
  "sched_step (Mc ready) s = cds_mc_thread ready s"
| "sched_step (PostBegin q msg high) s = Some (post_begin q msg high s)"
| "sched_step (Post k) s = post_step k s"
| "sched_step Close s = cds_sched_close s"
| "sched_step SuspendRequest s = suspend_request s"
| "sched_step SuspendComplete s = suspend_complete s"
| "sched_step SuspendTimeout s = suspend_timeout s"
| "sched_step SuspendWithdraw s = suspend_withdraw s"
| "sched_step ResumeMc s = resume_mc s"

fun sched_run :: "mc_action list \<Rightarrow> mc_state \<Rightarrow> mc_state option" where
  "sched_run [] s = Some s"
| "sched_run (a # as) s = Option.bind (sched_step a s) (sched_run as)"

text \<open>After \<open>cds_open\<close> and \<open>cds_sched_open\<close>, with the thread before its first wait; \<open>bufs\<close> is what the message buffers hold.\<close>

definition cds_open_queues :: "(nat \<Rightarrow> cds_msg) \<Rightarrow> mc_state" where
  "cds_open_queues bufs = \<lparr>aMsgBuffers = bufs, freeVosMq = foldl cds_mq_put [] [0..<CDS_CORE_MAX_MESSAGES], mcMq = (\<lambda>q. []),
     mc_post_event = False, mc_suspend_event = False, mc_shutdown_event = False, gp_cds_sched_context = True, McThread = True,
     McShutdown = 0, ResumeMcEvent = 0, mc_sus_event_var = 0, isMcThreadSuspended = False, cds_wrapper_empty_count = 0,
     mc_bug = False, mc_assert = False, mc_thread = McWait, postings = [], closing = CloseIdle, suspending = ReqIdle,
     posted = [], taken = [], handled = [], dropped = [], flushed = []\<rparr>"

definition cds_msg_zero :: cds_msg where
  "cds_msg_zero = \<lparr>msg_type = 0, msg_reserved = 0, msg_bodyptr = None, msg_bodyval = 0, msg_callback = None\<rparr>"

inductive sched_next :: "mc_state \<Rightarrow> mc_state \<Rightarrow> bool" where
  step: "sched_step a s = Some s' \<Longrightarrow> sched_next s s'"

inductive_cases sched_nextE: "sched_next s s'"

end
