(* ===== verification/Cds_Sched_Safe.thy ===== *)
theory Cds_Sched_Safe
  imports Cds_Sched_Inv
begin

text \<open>
  What the controller thread and the closing of the driver may assume of each other, the contents of the message buffers, and where every
  message that was posted is.
\<close>

section \<open>The steps of a posting\<close>

lemma post_stepE:
  assumes "post_step k s = Some s'"
  obtains (empty) q msg high where "k < length (postings s)" "postings s ! k = Posting q msg high PostGet" "freeVosMq s = []"
      "mcMq s' = mcMq s" "mc_thread s' = mc_thread s" "set (postings s') \<subseteq> set (postings s)" "aMsgBuffers s' = aMsgBuffers s"
      "posted s' = posted s" "mc_post_event s' = mc_post_event s" "closing s' = closing s" "McShutdown s' = McShutdown s"
      "\<And>p. p \<in> set (postings s) \<Longrightarrow> p \<noteq> Posting q msg high PostGet \<Longrightarrow> p \<in> set (postings s')"
  | (get) q msg high w where "k < length (postings s)" "postings s ! k = Posting q msg high PostGet" "w \<in> set (freeVosMq s)"
      "mcMq s' = mcMq s" "mc_thread s' = mc_thread s" "set (postings s') \<subseteq> insert (Posting q msg high (PostPut w)) (set (postings s))"
      "aMsgBuffers s' = (aMsgBuffers s)(w := msg)" "posted s' = posted s" "mc_post_event s' = mc_post_event s" "closing s' = closing s" "McShutdown s' = McShutdown s"
      "\<And>p. p \<in> set (postings s) \<Longrightarrow> p \<noteq> Posting q msg high PostGet \<Longrightarrow> p \<in> set (postings s')"
  | (put) q msg high w where "k < length (postings s)" "postings s ! k = Posting q msg high (PostPut w)"
      "mcMq s' = (mcMq s)(q := if high then w # mcMq s q else mcMq s q @ [w])" "mc_thread s' = mc_thread s"
      "set (postings s') \<subseteq> insert (Posting q msg high PostSignal) (set (postings s))" "Posting q msg high PostSignal \<in> set (postings s')"
      "aMsgBuffers s' = aMsgBuffers s" "posted s' = posted s @ [(q, msg, high)]" "mc_post_event s' = mc_post_event s" "closing s' = closing s" "McShutdown s' = McShutdown s"
      "\<And>p. p \<in> set (postings s) \<Longrightarrow> p \<noteq> Posting q msg high (PostPut w) \<Longrightarrow> p \<in> set (postings s')"
  | (signal) q msg high where "k < length (postings s)" "postings s ! k = Posting q msg high PostSignal"
      "mcMq s' = mcMq s" "mc_thread s' = mc_thread s" "set (postings s') \<subseteq> set (postings s)" "aMsgBuffers s' = aMsgBuffers s"
      "posted s' = posted s" "mc_post_event s'" "closing s' = closing s" "McShutdown s' = McShutdown s"
proof -
  obtain q msg high pc where k: "k < length (postings s)" "postings s ! k = Posting q msg high pc"
    using assms by (cases "postings s ! k") (auto simp: post_step_def split: if_splits)
  have split: "postings s = take k (postings s) @ Posting q msg high pc # drop (Suc k) (postings s)"
    using id_take_nth_drop [OF k(1)] k(2) by simp
  have removed: "set (take k (postings s) @ drop (Suc k) (postings s)) \<subseteq> set (postings s)"
    by (auto dest: in_set_takeD in_set_dropD)
  have stay: "p \<in> set (take k (postings s) @ x # drop (Suc k) (postings s))" "p \<in> set (take k (postings s) @ drop (Suc k) (postings s))"
    if "p \<in> set (postings s)" "p \<noteq> Posting q msg high pc" for p x using that split by (metis Un_iff set_append set_ConsD list.set_intros(2))+
  show ?thesis
  proof (cases pc)
    case PostGet
    show ?thesis
    proof (cases "freeVosMq s")
      case Nil
      show ?thesis by (rule empty [of q msg high]) (use assms k PostGet Nil removed stay in \<open>auto simp: post_step_def Let_def\<close>)
    next
      case (Cons w free)
      show ?thesis
        by (rule get [of q msg high w])
          (use assms k PostGet Cons removed stay in \<open>auto simp: post_step_def upd_conv_take_nth_drop\<close>)
    qed
  next
    case (PostPut w)
    show ?thesis
      by (rule put [of q msg high w])
        (use assms k PostPut removed stay in
          \<open>auto simp: post_step_def put_mq_def cds_mq_put_def cds_mq_put_front_def upd_conv_take_nth_drop\<close>)
  next
    case PostSignal
    show ?thesis by (rule signal [of q msg high]) (use assms k PostSignal removed in \<open>auto simp: post_step_def\<close>)
  qed
qed

lemma post_step_frame:
  assumes "post_step k s = Some s'"
  shows "taken s' = taken s" "handled s' = handled s" "dropped s' = dropped s" "flushed s' = flushed s" "mc_assert s' = mc_assert s"
    "mc_shutdown_event s' = mc_shutdown_event s" "mc_suspend_event s' = mc_suspend_event s" "suspending s' = suspending s"
    "mc_sus_event_var s' = mc_sus_event_var s" "ResumeMcEvent s' = ResumeMcEvent s" "isMcThreadSuspended s' = isMcThreadSuspended s"
  using assms by (auto simp: post_step_def put_mq_def Let_def split: if_splits posting.splits post_pc.splits prod.splits option.splits)

section \<open>Control\<close>

fun past_wait :: "close_pc \<Rightarrow> bool" where
  "past_wait CloseIdle = False"
| "past_wait CloseShut = False"
| "past_wait ClosePost = False"
| "past_wait CloseWait = False"
| "past_wait c = True"

text \<open>Queues are emptied by the thread only, until it has gone; then by the closing only.\<close>

definition control_ok :: "mc_state \<Rightarrow> bool" where
  "control_ok s \<longleftrightarrow>
     (McShutdown s > 0 \<or> past_wait (closing s) \<longrightarrow> mc_thread s = McExit) \<and> (\<forall>q. mc_thread s = McGet q \<longrightarrow> mcMq s q \<noteq> []) \<and>
     \<not> mc_assert s \<and> (\<not> past_wait (closing s) \<longrightarrow> flushed s = [])"

lemma control_post:
  assumes "control_ok s" "post_step k s = Some s'"
  shows "control_ok s'"
proof -
  have "mc_thread s' = mc_thread s" "closing s' = closing s" "McShutdown s' = McShutdown s" and "mcMq s q \<noteq> [] \<Longrightarrow> mcMq s' q \<noteq> []" for q
    using assms(2) by (cases rule: post_stepE; simp)+
  then show ?thesis using assms(1) post_step_frame [OF assms(2)] by (simp add: control_ok_def)
qed

lemma control_mc:
  assumes "control_ok s" "cds_mc_thread ready s = Some s'"
  shows "control_ok s'"
proof (cases "mc_thread s")
  case (McGet q)
  then obtain w ws where "mcMq s q = w # ws" using assms(1) by (cases "mcMq s q") (auto simp: control_ok_def)
  then show ?thesis using assms McGet by (auto simp: control_ok_def cds_mc_thread_def put_mq_def)
qed (use assms in \<open>auto simp: control_ok_def cds_mc_thread_def cds_core_return_msg_def cds_is_mq_empty_def split: if_splits option.splits\<close>)

lemma control_close:
  assumes "control_ok s" "cds_sched_close s = Some s'"
  shows "control_ok s'"
proof (cases "closing s")
  case (CloseFlush q)
  then show ?thesis using assms by (cases "mcMq s q") (auto simp: control_ok_def cds_sched_close_def cds_sched_flush_mc_mqs_def put_mq_def split: option.splits)
qed (use assms in \<open>auto simp: control_ok_def cds_sched_close_def cds_sched_flush_mc_mqs_def cds_core_return_msg_def split: if_splits\<close>)

lemma control_suspend:
  "control_ok s \<Longrightarrow> a \<in> {SuspendRequest, SuspendComplete, SuspendTimeout, SuspendWithdraw, ResumeMc} \<Longrightarrow> sched_step a s = Some s' \<Longrightarrow> control_ok s'"
  by (auto simp: suspend_defs control_ok_def split: if_splits)

lemma control_begin: "control_ok s \<Longrightarrow> control_ok (post_begin q msg high s)"
  by (simp add: post_begin_def control_ok_def)

lemma control_step: "control_ok s \<Longrightarrow> sched_step a s = Some s' \<Longrightarrow> control_ok s'"
  by (cases a) (auto intro: control_post control_mc control_close control_begin dest: control_suspend)

section \<open>Messages\<close>

text \<open>A wrapper that is about to be queued holds the message that is posted.\<close>

definition buffers_ok :: "mc_state \<Rightarrow> bool" where
  "buffers_ok s \<longleftrightarrow> (\<forall>q msg high w. Posting q msg high (PostPut w) \<in> set (postings s) \<longrightarrow> aMsgBuffers s w = msg)"

lemma buffers_post:
  assumes "wrappers_ok s" "buffers_ok s" "post_step k s = Some s'"
  shows "buffers_ok s'"
  using assms(3)
proof (cases rule: post_stepE)
  case (get q msg high w)
  then show ?thesis using assms(2) free_nowhere(2) [OF assms(1) get(3)] unfolding buffers_ok_def
    by (metis fun_upd_apply insert_iff posting.inject post_pc.inject subsetD)
qed (use assms(2) in \<open>fastforce simp: buffers_ok_def\<close>)+

lemma mc_frame:
  "cds_mc_thread ready s = Some s' \<Longrightarrow> aMsgBuffers s' = aMsgBuffers s \<and> postings s' = postings s \<and> posted s' = posted s \<and> flushed s' = flushed s \<and> closing s' = closing s"
  by (cases "mc_thread s")
    (auto simp: cds_mc_thread_def put_mq_def cds_core_return_msg_def split: if_splits option.splits prod.splits)

lemma close_frame:
  "cds_sched_close s = Some s' \<Longrightarrow>
     aMsgBuffers s' = aMsgBuffers s \<and> postings s' = postings s \<and> posted s' = posted s \<and> taken s' = taken s \<and> handled s' = handled s \<and> dropped s' = dropped s \<and>
     mc_thread s' = mc_thread s"
  by (cases "closing s")
    (auto simp: cds_sched_close_def cds_sched_flush_mc_mqs_def put_mq_def cds_core_return_msg_def split: if_splits option.splits prod.splits)

lemma buffers_begin: "buffers_ok s \<Longrightarrow> buffers_ok (post_begin q msg high s)"
  by (simp add: post_begin_def buffers_ok_def)

lemma buffers_step: "wrappers_ok s \<Longrightarrow> buffers_ok s \<Longrightarrow> sched_step a s = Some s' \<Longrightarrow> buffers_ok s'"
  by (cases a)
    (auto intro: buffers_post buffers_begin, auto simp: suspend_defs buffers_ok_def dest!: mc_frame close_frame split: if_splits)

text \<open>The messages for a queue, in order.\<close>

definition posted_to :: "cds_mq_id \<Rightarrow> (cds_mq_id \<times> cds_msg \<times> bool) list \<Rightarrow> cds_msg list" where
  "posted_to q xs = map (\<lambda>(_, m, _). m) (filter (\<lambda>(q', _, _). q' = q) xs)"

definition of_queue :: "cds_mq_id \<Rightarrow> (cds_mq_id \<times> cds_msg) list \<Rightarrow> cds_msg list" where
  "of_queue q xs = map snd (filter (\<lambda>(q', _). q' = q) xs)"

definition no_high :: "cds_mq_id \<Rightarrow> (cds_mq_id \<times> cds_msg \<times> bool) list \<Rightarrow> bool" where
  "no_high q xs \<longleftrightarrow> list_all (\<lambda>(q', _, h). q' = q \<longrightarrow> \<not> h) xs"

definition buffered :: "cds_mq_id \<Rightarrow> mc_state \<Rightarrow> cds_msg list" where
  "buffered q s = map (aMsgBuffers s) (mcMq s q)"

definition in_hand :: "cds_mq_id \<Rightarrow> mc_state \<Rightarrow> cds_msg list" where
  "in_hand q s = (case mc_thread s of McHandle q' w \<Rightarrow> if q' = q then [aMsgBuffers s w] else [] | _ \<Rightarrow> [])"

lemma of_queue_simps [simp]:
  "of_queue q [] = []" "of_queue q (xs @ ys) = of_queue q xs @ of_queue q ys" "of_queue q [(q', m)] = (if q' = q then [m] else [])"
  "posted_to q [] = []" "posted_to q (zs @ [(q', m, h)]) = posted_to q zs @ (if q' = q then [m] else [])"
  "no_high q []" "no_high q (zs @ [(q', m, h)]) \<longleftrightarrow> no_high q zs \<and> (q' = q \<longrightarrow> \<not> h)"
  by (auto simp: of_queue_def posted_to_def no_high_def)

text \<open>
  Every message posted to a queue has been got by the thread, or by the closing, or is in the queue, and without messages of high priority
  they are in the order of posting. What the thread got was handled, dropped, or is in its hands.
\<close>

definition contents_ok :: "mc_state \<Rightarrow> bool" where
  "contents_ok s \<longleftrightarrow> (\<forall>q.
     mset (posted_to q (posted s)) = mset (of_queue q (taken s) @ of_queue q (flushed s) @ buffered q s) \<and>
     (no_high q (posted s) \<longrightarrow> posted_to q (posted s) = of_queue q (taken s) @ of_queue q (flushed s) @ buffered q s) \<and>
     mset (of_queue q (taken s)) = mset (of_queue q (handled s) @ of_queue q (dropped s) @ in_hand q s) \<and>
     (of_queue q (dropped s) = [] \<longrightarrow> of_queue q (taken s) = of_queue q (handled s) @ in_hand q s) \<and>
     (q \<in> {CDS_MQ_ID_SYS, CDS_MQ_ID_WMA} \<longrightarrow> of_queue q (dropped s) = []))"

lemma contents_frame:
  assumes "posted s' = posted s" "taken s' = taken s" "flushed s' = flushed s" "handled s' = handled s" "dropped s' = dropped s"
    "aMsgBuffers s' = aMsgBuffers s" "mcMq s' = mcMq s" "\<And>q. in_hand q s' = in_hand q s"
  shows "contents_ok s' = contents_ok s"
  using assms by (simp add: contents_ok_def buffered_def)

lemma in_hand_cong: "aMsgBuffers s' = aMsgBuffers s \<Longrightarrow> mc_thread s' = mc_thread s \<Longrightarrow> in_hand q s' = in_hand q s"
  by (cases "mc_thread s") (simp_all add: in_hand_def)

lemma contents_still:
  assumes "posted s' = posted s" "taken s' = taken s" "flushed s' = flushed s" "handled s' = handled s" "dropped s' = dropped s"
    "aMsgBuffers s' = aMsgBuffers s" "mcMq s' = mcMq s" "mc_thread s' = mc_thread s"
  shows "contents_ok s' = contents_ok s"
  by (rule contents_frame assms in_hand_cong)+

lemma contents_post:
  assumes "wrappers_ok s" "buffers_ok s" "contents_ok s" "post_step k s = Some s'"
  shows "contents_ok s'"
  using assms(4)
proof (cases rule: post_stepE)
  case (get q msg high w)
  have "buffered q' s' = buffered q' s" "in_hand q' s' = in_hand q' s" for q'
    using get free_nowhere(1,3) [OF assms(1) get(3)] by (auto simp: buffered_def in_hand_def split: mc_pc.split)
  then show ?thesis using assms(3) get post_step_frame [OF assms(4)] by (simp add: contents_ok_def)
next
  case (put q msg high w)
  have "Posting q msg high (PostPut w) \<in> set (postings s)" using put(1,2) nth_mem by metis
  then have "aMsgBuffers s w = msg" using assms(2) by (simp add: buffers_ok_def)
  then have "buffered q' s' = (if q' = q then if high then msg # buffered q s else buffered q s @ [msg] else buffered q' s)"
    "in_hand q' s' = in_hand q' s" for q'
    using put by (auto simp: buffered_def in_hand_def split: mc_pc.split)
  then show ?thesis using assms(3) put post_step_frame [OF assms(4)] by (auto simp: contents_ok_def)
qed (use assms(3) post_step_frame [OF assms(4)] in \<open>auto simp: contents_ok_def buffered_def in_hand_def split: mc_pc.split\<close>)

lemma contents_mc:
  assumes "control_ok s" "contents_ok s" "cds_mc_thread ready s = Some s'"
  shows "contents_ok s'"
proof (cases "mc_thread s")
  case (McGet q)
  then obtain w ws where ws: "mcMq s q = w # ws" using assms(1) by (cases "mcMq s q") (auto simp: control_ok_def)
  have f: "flushed s = []" using assms(1) McGet by (auto simp: control_ok_def)
  have q: "of_queue q' (taken s') = of_queue q' (taken s) @ (if q' = q then [aMsgBuffers s w] else [])"
    "buffered q' s = (if q' = q then [aMsgBuffers s w] else []) @ buffered q' s'" "in_hand q' s = []"
    "in_hand q' s' = (if q' = q then [aMsgBuffers s w] else [])" for q'
    using assms(3) McGet ws by (auto simp: cds_mc_thread_def put_mq_def buffered_def in_hand_def)
  have "handled s' = handled s" "dropped s' = dropped s" "posted s' = posted s" "flushed s' = []"
    using assms(3) McGet ws f by (auto simp: cds_mc_thread_def put_mq_def)
  then show ?thesis using assms(2) f by (simp add: contents_ok_def q)
next
  case (McHandle q w)
  have q: "in_hand q' s = (if q' = q then [aMsgBuffers s w] else [])" "in_hand q' s' = []" "buffered q' s' = buffered q' s" for q'
    using assms(3) McHandle by (auto simp: cds_mc_thread_def buffered_def in_hand_def)
  have same: "taken s' = taken s" "posted s' = posted s" "flushed s' = flushed s" using assms(3) McHandle by (auto simp: cds_mc_thread_def)
  show ?thesis
  proof (cases "q \<in> {CDS_MQ_ID_PE, CDS_MQ_ID_SME} \<and> \<not> ready")
    case True
    then have "handled s' = handled s" "dropped s' = dropped s @ [(q, aMsgBuffers s w)]" using assms(3) McHandle by (auto simp: cds_mc_thread_def)
    with True assms(2) show ?thesis by (auto simp: contents_ok_def same q)
  next
    case False
    then have "handled s' = handled s @ [(q, aMsgBuffers s w)]" "dropped s' = dropped s" using assms(3) McHandle by (auto simp: cds_mc_thread_def)
    with assms(2) show ?thesis by (simp add: contents_ok_def same q)
  qed
next
  case (McCheck q)
  then have "contents_ok s' = contents_ok s"
    by (intro contents_frame) (use assms in \<open>auto simp: cds_mc_thread_def in_hand_def split: option.split\<close>)
  with assms(2) show ?thesis by simp
qed (subst contents_frame [of s' s]; use assms in \<open>auto simp: cds_mc_thread_def cds_core_return_msg_def in_hand_def split: if_splits\<close>)+

lemma contents_close:
  assumes "contents_ok s" "cds_sched_close s = Some s'"
  shows "contents_ok s'"
proof (cases "closing s")
  case (CloseFlush q)
  show ?thesis
  proof (cases "mcMq s q")
    case Nil
    with CloseFlush have "contents_ok s' = contents_ok s" by (intro contents_still) (use assms in \<open>auto simp: cds_sched_close_def cds_sched_flush_mc_mqs_def\<close>)
    with assms(1) show ?thesis by simp
  next
    case (Cons w ws)
    have q: "of_queue q' (flushed s') = of_queue q' (flushed s) @ (if q' = q then [aMsgBuffers s w] else [])"
      "buffered q' s = (if q' = q then [aMsgBuffers s w] else []) @ buffered q' s'" for q'
      using assms(2) CloseFlush Cons by (auto simp: cds_sched_close_def cds_sched_flush_mc_mqs_def put_mq_def buffered_def)
    have h: "in_hand q' s' = in_hand q' s" for q' by (rule in_hand_cong) (use close_frame [OF assms(2)] in simp_all)
    show ?thesis using assms(1) close_frame [OF assms(2)] by (simp add: contents_ok_def q h)
  qed
qed (subst contents_still [of s' s]; use assms in \<open>auto simp: cds_sched_close_def cds_sched_flush_mc_mqs_def cds_core_return_msg_def split: if_splits\<close>)+

lemma contents_suspend:
  "contents_ok s \<Longrightarrow> a \<in> {SuspendRequest, SuspendComplete, SuspendTimeout, SuspendWithdraw, ResumeMc} \<Longrightarrow> sched_step a s = Some s' \<Longrightarrow> contents_ok s'"
  by (subst contents_still [of s' s]) (auto simp: suspend_defs split: if_splits)

lemma contents_begin: "contents_ok s \<Longrightarrow> contents_ok (post_begin q msg high s)"
  by (subst contents_still [of _ s]) (simp_all add: post_begin_def)

lemma contents_step:
  "\<lbrakk>wrappers_ok s; control_ok s; buffers_ok s; contents_ok s; sched_step a s = Some s'\<rbrakk> \<Longrightarrow> contents_ok s'"
  by (cases a) (auto intro: contents_post contents_mc contents_close contents_begin dest: contents_suspend)

section \<open>Wake-ups\<close>

primrec rank :: "cds_mq_id \<Rightarrow> nat" where
  "rank CDS_MQ_ID_SYS = 0"
| "rank CDS_MQ_ID_WMA = 1"
| "rank CDS_MQ_ID_PE = 2"
| "rank CDS_MQ_ID_SME = 3"

text \<open>The thread will look at the queue before it waits for an event, or it is ending.\<close>

fun will_look :: "cds_mq_id \<Rightarrow> mc_pc \<Rightarrow> bool" where
  "will_look q McWait = False"
| "will_look q (McCheck q') = (rank q' \<le> rank q)"
| "will_look q McCheckSus = False"
| "will_look q McSusClear = False"
| "will_look q McSusInit = False"
| "will_look q McSusTell = False"
| "will_look q McSuspended = False"
| "will_look q pc = True"

definition signalling :: "posting list \<Rightarrow> bool" where
  "signalling ps \<longleftrightarrow> list_ex (\<lambda>p. case p of Posting _ _ _ pc \<Rightarrow> pc = PostSignal) ps"

lemma signalling_iff: "signalling ps \<longleftrightarrow> (\<exists>q msg high. Posting q msg high PostSignal \<in> set ps)"
  by (induction ps) (auto simp: signalling_def split: posting.splits)

text \<open>A queue that has a message will be looked at, now or after an event that is set or about to be set.\<close>

definition wake_ok :: "mc_state \<Rightarrow> bool" where
  "wake_ok s \<longleftrightarrow> (\<forall>q. mcMq s q \<noteq> [] \<longrightarrow> mc_post_event s \<or> signalling (postings s) \<or> will_look q (mc_thread s))"

lemma next_queue_rank: "next_queue q = Some q' \<Longrightarrow> rank q' \<le> rank q'' \<longleftrightarrow> rank q < rank q''"
  by (cases q; cases q''; cases q') auto

lemma last_queue: "next_queue q = None \<Longrightarrow> rank q'' \<le> rank q"
  by (cases q; cases q'') auto

lemma rank_inject: "rank q = rank q' \<longleftrightarrow> q = q'"
  by (cases q; cases q') auto

lemma wake_mc:
  assumes "control_ok s" "wake_ok s" "cds_mc_thread ready s = Some s'"
  shows "wake_ok s'"
proof (cases "mc_thread s")
  case (McGet q)
  then obtain w ws where "mcMq s q = w # ws" using assms(1) by (cases "mcMq s q") (auto simp: control_ok_def)
  then show ?thesis using assms McGet by (auto simp: wake_ok_def cds_mc_thread_def put_mq_def)
next
  case (McCheck q)
  have same: "mcMq s' = mcMq s" "mc_post_event s' = mc_post_event s" "postings s' = postings s"
    using assms(3) McCheck by (auto simp: cds_mc_thread_def)
  then have "signalling (postings s') = signalling (postings s)" by simp
  moreover have "will_look q' (mc_thread s')" if "mcMq s q' \<noteq> []" "rank q \<le> rank q'" for q'
    using that assms(3) McCheck next_queue_rank [of q] last_queue [of q q'] rank_inject [of q q']
    by (auto simp: cds_mc_thread_def cds_is_mq_empty_def le_less split: option.splits)
  ultimately show ?thesis using assms(2) McCheck same by (auto simp: wake_ok_def)
qed (use assms in \<open>auto simp: wake_ok_def cds_mc_thread_def cds_core_return_msg_def split: if_splits\<close>)

lemma wake_post:
  assumes "wake_ok s" "post_step k s = Some s'"
  shows "wake_ok s'"
  using assms(2)
proof (cases rule: post_stepE)
  case (put q msg high w)
  then have "signalling (postings s')" by (auto simp: signalling_iff)
  then show ?thesis by (simp add: wake_ok_def)
next
  case (empty q msg high)
  then have "signalling (postings s) \<Longrightarrow> signalling (postings s')" unfolding signalling_iff by (metis post_pc.distinct(3) posting.inject)
  with empty assms(1) show ?thesis by (auto simp: wake_ok_def)
next
  case (get q msg high w)
  then have "signalling (postings s) \<Longrightarrow> signalling (postings s')" unfolding signalling_iff by (metis post_pc.distinct(3) posting.inject)
  with get assms(1) show ?thesis by (auto simp: wake_ok_def)
qed (simp add: wake_ok_def)

lemma wake_close:
  assumes "control_ok s" "wake_ok s" "cds_sched_close s = Some s'"
  shows "wake_ok s'"
proof (cases "closing s")
  case (CloseFlush q)
  then have "mc_thread s = McExit" using assms(1) by (simp add: control_ok_def)
  then show ?thesis using close_frame [OF assms(3)] by (simp add: wake_ok_def)
qed (use assms in \<open>auto simp: wake_ok_def cds_sched_close_def cds_sched_flush_mc_mqs_def cds_core_return_msg_def split: if_splits\<close>)

lemma wake_begin: "wake_ok s \<Longrightarrow> wake_ok (post_begin q msg high s)"
  by (auto simp: post_begin_def wake_ok_def signalling_def)

lemma wake_suspend:
  assumes "wake_ok s" "a \<in> {SuspendRequest, SuspendComplete, SuspendTimeout, SuspendWithdraw, ResumeMc}" "sched_step a s = Some s'"
  shows "wake_ok s'"
proof -
  have "mcMq s' = mcMq s \<and> mc_post_event s' = mc_post_event s \<and> postings s' = postings s \<and> mc_thread s' = mc_thread s"
    using assms(2,3) by (auto simp: suspend_defs split: if_splits)
  with assms(1) show ?thesis by (simp add: wake_ok_def)
qed

lemma wake_step: "\<lbrakk>control_ok s; wake_ok s; sched_step a s = Some s'\<rbrakk> \<Longrightarrow> wake_ok s'"
  by (cases a) (auto intro: wake_post wake_mc wake_close wake_begin dest: wake_suspend)

section \<open>All interleavings\<close>

definition sched_inv :: "mc_state \<Rightarrow> bool" where
  "sched_inv s \<longleftrightarrow> wrappers_ok s \<and> control_ok s \<and> buffers_ok s \<and> contents_ok s \<and> wake_ok s"

lemma sched_inv_step: "sched_inv s \<Longrightarrow> sched_step a s = Some s' \<Longrightarrow> sched_inv s'"
  using places_step [of a s s'] control_step [of s a s'] buffers_step [of s a s'] contents_step [of s a s'] wake_step [of s a s']
  by (simp add: sched_inv_def wrappers_ok_def)

lemma foldl_put: "foldl cds_mq_put ws xs = ws @ xs"
  by (induction xs arbitrary: ws) (simp_all add: cds_mq_put_def)

lemma sched_inv_open: "sched_inv (cds_open_queues bufs)"
  by (simp add: sched_inv_def wrappers_ok_def places_def control_ok_def buffers_ok_def contents_ok_def wake_ok_def cds_open_queues_def foldl_put
      buffered_def in_hand_def)

interpretation sched: machine "\<lambda>s. \<exists>bufs. s = cds_open_queues bufs" sched_next sched_inv
  by unfold_locales (auto intro: sched_inv_open sched_inv_step elim: sched_nextE)

lemma sched_reachable: "sched_next\<^sup>*\<^sup>* (cds_open_queues bufs) s \<Longrightarrow> sched_inv s"
  by (rule sched.reachable_inv) blast+

lemma sched_run_steps: "sched_run as s = Some s' \<Longrightarrow> sched_next\<^sup>*\<^sup>* s s'"
  by (induction as arbitrary: s) (auto simp: bind_eq_Some_conv intro: converse_rtranclp_into_rtranclp sched_next.step)

end
