(* ===== verification/Cds_Sched_Live.thy ===== *)
theory Cds_Sched_Live
  imports Cds_Sched_Safe
begin

text \<open>
  What the invariants give: the accounting of messages and wrappers, that the thread on its own handles all that is queued, in the order of
  the queues, and what goes wrong when a message is posted while the driver closes.
\<close>

section \<open>Accounting\<close>

definition queued :: "mc_state \<Rightarrow> nat" where
  "queued s = length (mcMq s CDS_MQ_ID_SYS) + length (mcMq s CDS_MQ_ID_WMA) + length (mcMq s CDS_MQ_ID_PE) + length (mcMq s CDS_MQ_ID_SME)"

text \<open>
  C11: In every interleaving, a message posted to a queue is, exactly once and unchanged, handled, dropped, in the hands of the thread,
  flushed at the closing or still in the queue. When nothing of high priority is posted to the SYS or WMA queue, its messages are handled in
  the order they were posted, with none left out.
\<close>

theorem cds_messages_accounted:
  assumes "sched_next\<^sup>*\<^sup>* (cds_open_queues bufs) s"
  shows "mset (posted_to q (posted s)) =
      mset (of_queue q (handled s) @ of_queue q (dropped s) @ in_hand q s @ of_queue q (flushed s) @ buffered q s) \<and>
    (q \<in> {CDS_MQ_ID_SYS, CDS_MQ_ID_WMA} \<and> no_high q (posted s) \<longrightarrow>
      posted_to q (posted s) = of_queue q (handled s) @ in_hand q s @ of_queue q (flushed s) @ buffered q s)"
proof -
  have "contents_ok s" using sched_reachable [OF assms] by (simp add: sched_inv_def)
  then have q: "mset (posted_to q (posted s)) = mset (of_queue q (taken s) @ of_queue q (flushed s) @ buffered q s)"
      "no_high q (posted s) \<Longrightarrow> posted_to q (posted s) = of_queue q (taken s) @ of_queue q (flushed s) @ buffered q s"
      "mset (of_queue q (taken s)) = mset (of_queue q (handled s) @ of_queue q (dropped s) @ in_hand q s)"
      "q \<in> {CDS_MQ_ID_SYS, CDS_MQ_ID_WMA} \<Longrightarrow> of_queue q (taken s) = of_queue q (handled s) @ in_hand q s"
    unfolding contents_ok_def by blast+
  then show ?thesis by simp
qed

lemmas run_simps = sched_step.simps sched_run.simps cds_mc_thread_def suspend_defs cds_is_mq_empty_def next_queue.simps

lemma free_open: "foldl cds_mq_put [] [0..<CDS_CORE_MAX_MESSAGES] = 0 # [1..<CDS_CORE_MAX_MESSAGES]"
proof -
  have "0 < CDS_CORE_MAX_MESSAGES" by (simp add: CDS_CORE_MAX_MESSAGES_def)
  then show ?thesis by (simp add: foldl_put upt_conv_Cons cds_mq_put_def)
qed

text \<open>One message of type 7 is posted to the PE queue.\<close>

definition one_post :: "mc_action list" where
  "one_post = [PostBegin CDS_MQ_ID_PE (cds_msg_zero\<lparr>msg_type := 7\<rparr>) False, Post 0, Post 0, Post 0]"

lemmas post_simps = run_simps post_begin_def post_step_def put_mq_def cds_mq_put_def cds_mq_put_front_def

lemma one_post_run:
  "\<exists>s. sched_run one_post (cds_open_queues bufs) = Some s \<and> postings s = [] \<and> \<not> mc_shutdown_event s \<and> \<not> mc_suspend_event s \<and> mc_thread s = McWait \<and>
     queued s = 1 \<and> posted s = [(CDS_MQ_ID_PE, cds_msg_zero\<lparr>msg_type := 7\<rparr>, False)]"
  by (simp add: one_post_def post_simps cds_open_queues_def free_open queued_def)

lemma cds_messages_accounted_witness:
  "\<exists>s. sched_run one_post (cds_open_queues (\<lambda>w. cds_msg_zero)) = Some s \<and>
     {#cds_msg_zero\<lparr>msg_type := 7\<rparr>#} =
       mset (of_queue CDS_MQ_ID_PE (handled s) @ of_queue CDS_MQ_ID_PE (dropped s) @ in_hand CDS_MQ_ID_PE s @ of_queue CDS_MQ_ID_PE (flushed s) @ buffered CDS_MQ_ID_PE s)"
proof -
  obtain s where s: "sched_run one_post (cds_open_queues (\<lambda>w. cds_msg_zero)) = Some s" "posted s = [(CDS_MQ_ID_PE, cds_msg_zero\<lparr>msg_type := 7\<rparr>, False)]"
    using one_post_run [of "\<lambda>w. cds_msg_zero"] by blast
  have p: "posted_to CDS_MQ_ID_PE (posted s) = [cds_msg_zero\<lparr>msg_type := 7\<rparr>]" by (simp add: s(2) posted_to_def)
  from cds_messages_accounted [OF sched_run_steps [OF s(1)], of CDS_MQ_ID_PE] p
  have "{#cds_msg_zero\<lparr>msg_type := 7\<rparr>#} =
       mset (of_queue CDS_MQ_ID_PE (handled s) @ of_queue CDS_MQ_ID_PE (dropped s) @ in_hand CDS_MQ_ID_PE s @ of_queue CDS_MQ_ID_PE (flushed s) @ buffered CDS_MQ_ID_PE s)"
    by simp
  with s(1) show ?thesis by blast
qed

text \<open>
  Every wrapper is in exactly one place: free, in a queue, with a post, with the thread or with the closing. And the thread never gets a null
  wrapper from a queue it has found to hold one, although it looks and gets under two locks.
\<close>

theorem cds_wrappers_conserved:
  assumes "sched_next\<^sup>*\<^sup>* (cds_open_queues bufs) s"
  shows "count (places s) w = (if w < CDS_CORE_MAX_MESSAGES then 1 else 0) \<and> \<not> mc_assert s"
proof -
  have "places s = mset [0..<CDS_CORE_MAX_MESSAGES]" "\<not> mc_assert s"
    using sched_reachable [OF assms] by (simp_all add: sched_inv_def wrappers_ok_def control_ok_def)
  then show ?thesis using distinct_count_atmost_1 [of "[0..<CDS_CORE_MAX_MESSAGES]"] by simp
qed

section \<open>The thread on its own\<close>

fun running :: "mc_pc \<Rightarrow> bool" where
  "running McWait = True"
| "running McWoken = True"
| "running McTop = True"
| "running (McCheck q) = True"
| "running (McGet q) = True"
| "running (McHandle q w) = True"
| "running (McReturn w) = True"
| "running McCheckSus = True"
| "running pc = False"

fun pc_work :: "mc_pc \<Rightarrow> nat" where
  "pc_work McWoken = 10"
| "pc_work McTop = 9"
| "pc_work (McCheck q) = 8 - rank q"
| "pc_work (McGet q) = 4"
| "pc_work (McHandle q w) = 15"
| "pc_work (McReturn w) = 14"
| "pc_work McCheckSus = 4"
| "pc_work pc = 0"

definition work :: "mc_state \<Rightarrow> nat" where
  "work s = 20 * queued s + (if mc_post_event s \<and> mc_thread s \<noteq> McWoken then 20 else 0) + pc_work (mc_thread s)"

text \<open>Nothing but the thread has a step to make: no post is under way, no shutdown and no suspend is asked for.\<close>

definition alone :: "mc_state \<Rightarrow> bool" where
  "alone s \<longleftrightarrow> control_ok s \<and> postings s = [] \<and> \<not> mc_shutdown_event s \<and> \<not> mc_suspend_event s \<and> running (mc_thread s)"

lemma queued_get: "mcMq s q = w # ws \<Longrightarrow> queued (put_mq q ws s) + 1 = queued s"
  by (cases q) (simp_all add: queued_def put_mq_def)

lemma rank_le: "rank q \<le> 3"
  by (cases q) simp_all

lemma next_queue_Suc: "next_queue q = Some q' \<Longrightarrow> rank q' = Suc (rank q)"
  by (cases q) auto

lemma alone_step:
  assumes "alone s" "cds_mc_thread ready s = Some s'"
  shows "alone s' \<and> work s' < work s"
proof -
  have c: "control_ok s'" using assms by (auto simp: alone_def intro: control_mc)
  show ?thesis
  proof (cases "mc_thread s")
    case (McGet q)
    then obtain w ws where w: "mcMq s q = w # ws" using assms(1) by (cases "mcMq s q") (auto simp: control_ok_def alone_def)
    then have "s' = (put_mq q ws s)\<lparr>taken := taken s @ [(q, aMsgBuffers s w)], mc_thread := McHandle q w\<rparr>"
      using assms(2) McGet by (simp add: cds_mc_thread_def)
    with queued_get [OF w] c assms(1) McGet show ?thesis by (auto simp: work_def alone_def queued_def put_mq_def)
  next
    case (McCheck q)
    then show ?thesis using assms c rank_le [of q] next_queue_Suc [of q]
      by (auto simp: cds_mc_thread_def alone_def work_def queued_def split: if_splits option.splits)
  qed (use assms c in \<open>auto simp: cds_mc_thread_def cds_core_return_msg_def alone_def work_def queued_def split: if_splits\<close>)
qed

lemma alone_stop:
  assumes "alone s" "cds_mc_thread ready s = None"
  shows "mc_thread s = McWait \<and> \<not> mc_post_event s"
  using assms by (cases "mc_thread s") (auto simp: cds_mc_thread_def alone_def split: if_splits option.splits prod.splits)

lemma alone_run:
  assumes "alone s"
  shows "\<exists>n s'. n \<le> work s \<and> sched_run (replicate n (Mc ready)) s = Some s' \<and> alone s' \<and> posted s' = posted s \<and> mc_thread s' = McWait \<and> \<not> mc_post_event s'"
  using assms
proof (induction "work s" arbitrary: s rule: less_induct)
  case less
  show ?case
  proof (cases "cds_mc_thread ready s")
    case None
    with alone_stop less.prems show ?thesis by (intro exI [of _ 0] exI [of _ s]) auto
  next
    case (Some s1)
    with alone_step less.prems have s1: "alone s1" "work s1 < work s" by blast+
    then obtain n s' where "n \<le> work s1" "sched_run (replicate n (Mc ready)) s1 = Some s'" "alone s'" "posted s' = posted s1" "mc_thread s' = McWait" "\<not> mc_post_event s'"
      using less.hyps by blast
    with Some s1 mc_frame [OF Some] show ?thesis by (intro exI [of _ "Suc n"] exI [of _ s']) simp
  qed
qed

lemma work_bound: "work s \<le> 20 * queued s + 35"
  by (cases "mc_thread s") (auto simp: work_def)

text \<open>
  C12: No wake-up is lost. From every state that any interleaving can reach with all posts complete and neither a shutdown nor a suspend in
  progress, the thread, without any further event, comes to wait with all queues empty, within 20 steps for each message that was queued and 35
  more. Every message ever posted has then been handled or dropped.
\<close>

theorem cds_mc_thread_drains:
  assumes "sched_next\<^sup>*\<^sup>* (cds_open_queues bufs) s" "postings s = []" "\<not> mc_shutdown_event s" "\<not> mc_suspend_event s" "running (mc_thread s)"
  shows "\<exists>n s'. n \<le> 20 * queued s + 35 \<and> sched_run (replicate n (Mc ready)) s = Some s' \<and> mc_thread s' = McWait \<and>
    (\<forall>q. mcMq s' q = [] \<and> mset (posted_to q (posted s)) = mset (of_queue q (handled s') @ of_queue q (dropped s')))"
proof -
  have inv: "sched_inv s" by (rule sched_reachable [OF assms(1)])
  then have "alone s" using assms(2-5) by (simp add: alone_def sched_inv_def)
  then obtain n s' where n: "n \<le> work s" and s': "sched_run (replicate n (Mc ready)) s = Some s'" "alone s'" "posted s' = posted s" "mc_thread s' = McWait" "\<not> mc_post_event s'"
    using alone_run by blast
  have "sched_inv s'" using sched.steps_inv [OF sched_run_steps [OF s'(1)] inv] .
  then have w: "wake_ok s'" "contents_ok s'" and p: "postings s' = []" and c: "control_ok s'" using s'(2) by (simp_all add: sched_inv_def alone_def)
  then have e: "mcMq s' q = []" for q using s'(4,5) by (auto simp: wake_ok_def signalling_def)
  have f: "flushed s' = []" using c s'(4) by (auto simp: control_ok_def)
  have "mset (posted_to q (posted s)) = mset (of_queue q (handled s') @ of_queue q (dropped s'))" for q
    using w(2) s'(3,4) e [of q] f unfolding contents_ok_def by (simp add: buffered_def in_hand_def)
  with n work_bound [of s] s' e show ?thesis by (intro exI [of _ n] exI [of _ s']) simp
qed

lemma cds_mc_thread_drains_witness:
  "\<exists>s n s'. sched_run one_post (cds_open_queues (\<lambda>w. cds_msg_zero)) = Some s \<and> queued s = 1 \<and> n \<le> 55 \<and>
     sched_run (replicate n (Mc True)) s = Some s' \<and> mc_thread s' = McWait \<and> mcMq s' CDS_MQ_ID_PE = []"
proof -
  obtain s where s: "sched_run one_post (cds_open_queues (\<lambda>w. cds_msg_zero)) = Some s" "postings s = []" "\<not> mc_shutdown_event s" "\<not> mc_suspend_event s"
      "mc_thread s = McWait" "queued s = 1"
    using one_post_run [of "\<lambda>w. cds_msg_zero"] by blast
  then have "running (mc_thread s)" by simp
  from cds_mc_thread_drains [OF sched_run_steps [OF s(1)] s(2-4) this, of True] s(6)
  obtain n s' where "n \<le> 55" "sched_run (replicate n (Mc True)) s = Some s'" "mc_thread s' = McWait" "mcMq s' CDS_MQ_ID_PE = []" by auto
  with s(1,6) show ?thesis by blast
qed

section \<open>The order of the queues\<close>

definition backlog :: "mc_state \<Rightarrow> (cds_mq_id \<times> cds_msg) list" where
  "backlog s = concat (map (\<lambda>q. map (Pair q) (buffered q s)) [CDS_MQ_ID_SYS, CDS_MQ_ID_WMA, CDS_MQ_ID_PE, CDS_MQ_ID_SME])"

definition at_top :: "mc_state \<Rightarrow> bool" where
  "at_top s \<longleftrightarrow> mc_thread s = McTop \<and> \<not> mc_shutdown_event s \<and> \<not> mc_suspend_event s"

lemma top_step:
  assumes "at_top s" "backlog s = x # xs"
  shows "\<exists>n s'. sched_run (replicate n (Mc True)) s = Some s' \<and> at_top s' \<and> backlog s' = xs \<and> handled s' = handled s @ [x]"
proof -
  have e: "cds_is_mq_empty (mcMq s q) \<longleftrightarrow> buffered q s = []" for q by (simp add: cds_is_mq_empty_def buffered_def)
  note defs = run_simps at_top_def backlog_def buffered_def put_mq_def cds_core_return_msg_def eval_nat_numeral
  consider (sys) w ws where "mcMq s CDS_MQ_ID_SYS = w # ws"
    | (wma) w ws where "mcMq s CDS_MQ_ID_SYS = []" "mcMq s CDS_MQ_ID_WMA = w # ws"
    | (pe) w ws where "mcMq s CDS_MQ_ID_SYS = []" "mcMq s CDS_MQ_ID_WMA = []" "mcMq s CDS_MQ_ID_PE = w # ws"
    | (sme) w ws where "mcMq s CDS_MQ_ID_SYS = []" "mcMq s CDS_MQ_ID_WMA = []" "mcMq s CDS_MQ_ID_PE = []" "mcMq s CDS_MQ_ID_SME = w # ws"
    using assms(2) unfolding backlog_def buffered_def
    by (cases "mcMq s CDS_MQ_ID_SYS"; cases "mcMq s CDS_MQ_ID_WMA"; cases "mcMq s CDS_MQ_ID_PE"; cases "mcMq s CDS_MQ_ID_SME") auto
  then show ?thesis
  proof cases
    case sys
    with assms show ?thesis by (intro exI [of _ 5]) (simp add: defs)
  next
    case wma
    with assms show ?thesis by (intro exI [of _ 6]) (simp add: defs)
  next
    case pe
    with assms show ?thesis by (intro exI [of _ 7]) (simp add: defs)
  next
    case sme
    with assms show ?thesis by (intro exI [of _ 8]) (simp add: defs)
  qed
qed

lemma run_append: "sched_run (as @ bs) s = Option.bind (sched_run as s) (sched_run bs)"
  by (induction as arbitrary: s) (auto split: bind_splits)

text \<open>
  C28: From the top of its inner loop, and as long as nothing else happens, the thread handles what the queues hold in the order SYS, WMA, PE, SME,
  each queue from its front, and then waits with every queue empty.
\<close>

theorem cds_mc_thread_order:
  assumes "mc_thread s = McTop" "\<not> mc_shutdown_event s" "\<not> mc_suspend_event s"
  shows "\<exists>n s'. sched_run (replicate n (Mc True)) s = Some s' \<and> mc_thread s' = McWait \<and> (\<forall>q. mcMq s' q = []) \<and>
    handled s' = handled s @ concat (map (\<lambda>q. map (Pair q) (buffered q s)) [CDS_MQ_ID_SYS, CDS_MQ_ID_WMA, CDS_MQ_ID_PE, CDS_MQ_ID_SME])"
proof -
  have "at_top s" using assms by (simp add: at_top_def)
  then have "\<exists>n s'. sched_run (replicate n (Mc True)) s = Some s' \<and> mc_thread s' = McWait \<and> (\<forall>q. mcMq s' q = []) \<and> handled s' = handled s @ backlog s"
  proof (induction "backlog s" arbitrary: s)
    case Nil
    then have "mcMq s q = []" for q by (cases q) (simp_all add: backlog_def buffered_def)
    with Nil show ?case by (intro exI [of _ 6]) (simp add: run_simps at_top_def eval_nat_numeral)
  next
    case (Cons x xs)
    then obtain n s1 where 1: "sched_run (replicate n (Mc True)) s = Some s1" "at_top s1" "xs = backlog s1" "handled s1 = handled s @ [x]"
      using top_step by metis
    with Cons.hyps(1) [of s1] obtain m s' where "sched_run (replicate m (Mc True)) s1 = Some s'" "mc_thread s' = McWait" "\<forall>q. mcMq s' q = []"
        "handled s' = handled s1 @ backlog s1" by blast
    with 1 Cons.hyps(2) [symmetric] show ?case by (intro exI [of _ "n + m"] exI [of _ s']) (simp add: replicate_add run_append)
  qed
  then show ?thesis by (simp add: backlog_def)
qed

lemma cds_mc_thread_order_witness:
  "\<exists>n s'. sched_run (replicate n (Mc True)) ((cds_open_queues (\<lambda>w. cds_msg_zero\<lparr>msg_type := of_nat w\<rparr>))
       \<lparr>mcMq := (\<lambda>q. if q = CDS_MQ_ID_SYS then [4] else if q = CDS_MQ_ID_SME then [2, 3] else []), mc_thread := McTop\<rparr>) = Some s' \<and>
     map (\<lambda>(q, m). (q, msg_type m)) (handled s') = [(CDS_MQ_ID_SYS, 4), (CDS_MQ_ID_SME, 2), (CDS_MQ_ID_SME, 3)]"
proof -
  let ?s = "(cds_open_queues (\<lambda>w. cds_msg_zero\<lparr>msg_type := of_nat w\<rparr>))
       \<lparr>mcMq := (\<lambda>q. if q = CDS_MQ_ID_SYS then [4] else if q = CDS_MQ_ID_SME then [2, 3] else []), mc_thread := McTop\<rparr>"
  obtain n s' where r: "sched_run (replicate n (Mc True)) ?s = Some s'"
      "handled s' = handled ?s @ concat (map (\<lambda>q. map (Pair q) (buffered q ?s)) [CDS_MQ_ID_SYS, CDS_MQ_ID_WMA, CDS_MQ_ID_PE, CDS_MQ_ID_SME])"
    using cds_mc_thread_order [of ?s] by (auto simp: cds_open_queues_def)
  from r(2) have "map (\<lambda>(q, m). (q, msg_type m)) (handled s') = [(CDS_MQ_ID_SYS, 4), (CDS_MQ_ID_SME, 2), (CDS_MQ_ID_SME, 3)]"
    by (simp add: buffered_def cds_open_queues_def)
  with r(1) show ?thesis by (intro exI conjI)
qed

section \<open>A post while the driver closes\<close>

lemma closed_step:
  assumes "control_ok s" "closing s = CloseDone" "sched_step a s = Some s'"
  shows "closing s' = CloseDone \<and> set (mcMq s q) \<subseteq> set (mcMq s' q) \<and> handled s' = handled s"
proof (cases a)
  case (Mc ready)
  then show ?thesis using assms by (simp add: control_ok_def cds_mc_thread_def)
next
  case (Post k)
  then show ?thesis using assms post_step_frame [of k s s'] by (auto elim!: post_stepE)
qed (use assms in \<open>auto simp: cds_sched_close_def cds_sched_flush_mc_mqs_def post_begin_def suspend_defs split: if_splits\<close>)

lemma closed_run:
  "\<lbrakk>control_ok s; closing s = CloseDone; sched_run as s = Some s'\<rbrakk> \<Longrightarrow> set (mcMq s q) \<subseteq> set (mcMq s' q) \<and> handled s' = handled s"
proof (induction as arbitrary: s)
  case (Cons a as)
  then obtain s1 where "sched_step a s = Some s1" "sched_run as s1 = Some s'" by (auto simp: bind_eq_Some_conv)
  with Cons closed_step [of s a s1 q] control_step [of s a s1] show ?case by force
qed simp

text \<open>The message is accepted, the driver closes, the message is queued.\<close>

definition late_post :: "mc_action list" where
  "late_post = PostBegin CDS_MQ_ID_SME (cds_msg_zero\<lparr>msg_type := 7\<rparr>) False # replicate 3 Close @ replicate 5 (Mc True) @ replicate 7 Close @ replicate 3 (Post 0)"

lemma late_post_run:
  "\<exists>s. sched_run late_post (cds_open_queues bufs) = Some s \<and> closing s = CloseDone \<and> 0 \<in> set (mcMq s CDS_MQ_ID_SME) \<and> handled s = [] \<and>
    posted s = [(CDS_MQ_ID_SME, cds_msg_zero\<lparr>msg_type := 7\<rparr>, False)]"
  by (simp add: late_post_def post_simps cds_sched_close_def cds_sched_flush_mc_mqs_def cds_open_queues_def free_open eval_nat_numeral)

text \<open>
  C29: A message whose posting passed its checks before the driver closed can be queued after the queues were flushed: it is reported as posted, and
  whatever happens afterwards it is never handled nor flushed, and its wrapper stays in the queue.
\<close>

theorem cds_sched_close_late_post:
  "\<exists>s. sched_run late_post (cds_open_queues bufs) = Some s \<and> closing s = CloseDone \<and>
     posted s = [(CDS_MQ_ID_SME, cds_msg_zero\<lparr>msg_type := 7\<rparr>, False)] \<and>
     (\<forall>as s'. sched_run as s = Some s' \<longrightarrow> 0 \<in> set (mcMq s' CDS_MQ_ID_SME) \<and> handled s' = [])"
proof -
  obtain s where s: "sched_run late_post (cds_open_queues bufs) = Some s" "closing s = CloseDone" "0 \<in> set (mcMq s CDS_MQ_ID_SME)" "handled s = []"
      "posted s = [(CDS_MQ_ID_SME, cds_msg_zero\<lparr>msg_type := 7\<rparr>, False)]"
    using late_post_run [of bufs] by blast
  have c: "control_ok s" using sched_reachable [OF sched_run_steps [OF s(1)]] by (simp add: sched_inv_def)
  have "0 \<in> set (mcMq s' CDS_MQ_ID_SME) \<and> handled s' = []" if "sched_run as s = Some s'" for as s'
    using closed_run [OF c s(2) that, of CDS_MQ_ID_SME] s(3,4) by auto
  with s(1,2,5) show ?thesis by blast
qed

lemma cds_sched_close_late_post_witness:
  "\<exists>s s'. sched_run late_post (cds_open_queues (\<lambda>w. cds_msg_zero)) = Some s \<and> sched_run [SuspendRequest] s = Some s' \<and> 0 \<in> set (mcMq s' CDS_MQ_ID_SME)"
proof -
  obtain s where s: "sched_run late_post (cds_open_queues (\<lambda>w. cds_msg_zero)) = Some s"
      "\<And>as s'. sched_run as s = Some s' \<longrightarrow> 0 \<in> set (mcMq s' CDS_MQ_ID_SME) \<and> handled s' = []"
    using cds_sched_close_late_post [of "\<lambda>w. cds_msg_zero"] by blast
  have "suspending s = ReqIdle \<and> \<not> isMcThreadSuspended s"
    using s(1) by (simp add: late_post_def post_simps cds_sched_close_def cds_sched_flush_mc_mqs_def cds_open_queues_def free_open eval_nat_numeral) auto
  then have "\<exists>s'. sched_run [SuspendRequest] s = Some s'" by (simp add: suspend_request_def)
  with s(1) s(2) [of "[SuspendRequest]"] show ?thesis by blast
qed

end
