(* ===== verification/Cds_Suspend.thy ===== *)
theory Cds_Suspend
  imports Cds_Sched_Live
begin

text \<open>
  The hand-shake that suspends the controller thread: with answers in time it is suspended exactly when the driver believes so; after an
  answer that comes with the end of the wait it is not. And the message that is posted while the driver closes.
\<close>

section \<open>Answers in time\<close>

fun answering :: "mc_pc \<Rightarrow> bool" where
  "answering McSusInit = True"
| "answering McSusTell = True"
| "answering McShutTell = True"
| "answering pc = False"

fun clearing :: "mc_pc \<Rightarrow> bool" where
  "clearing McSusClear = True"
| "clearing McShutClear = True"
| "clearing pc = False"

text \<open>The thread does nothing more, or nothing more before it is resumed.\<close>

fun stopped :: "mc_pc \<Rightarrow> nat \<Rightarrow> bool" where
  "stopped McSuspended n = (n = 0)"
| "stopped McExiting n = True"
| "stopped McExit n = True"
| "stopped pc n = False"

fun handshake :: "req_pc \<Rightarrow> mc_pc \<Rightarrow> bool \<Rightarrow> nat \<Rightarrow> nat \<Rightarrow> bool \<Rightarrow> bool" where
  "handshake ReqIdle pc ev var n noted \<longleftrightarrow> \<not> ev \<and> var = 0 \<and>
     (if noted then stopped pc n else \<not> answering pc \<and> \<not> clearing pc \<and> (pc = McSuspended \<longrightarrow> n > 0))"
| "handshake ReqWait pc ev var n noted \<longleftrightarrow> \<not> noted \<and>
     (if ev then var = 0 \<and> \<not> answering pc \<and> (pc = McSuspended \<longrightarrow> n > 0)
      else if answering pc then var = 0 \<and> (pc = McSusTell \<longrightarrow> n = 0)
      else var = 1 \<and> stopped pc n)"
| "handshake ReqTimeout pc ev var n noted \<longleftrightarrow> False"

definition suspend_ok :: "mc_state \<Rightarrow> bool" where
  "suspend_ok s \<longleftrightarrow>
     handshake (suspending s) (mc_thread s) (mc_suspend_event s) (mc_sus_event_var s) (ResumeMcEvent s) (isMcThreadSuspended s)"

lemma suspend_ok_cong:
  assumes "suspend_ok s" "mc_thread s' = mc_thread s" "mc_suspend_event s' = mc_suspend_event s" "suspending s' = suspending s"
    "mc_sus_event_var s' = mc_sus_event_var s" "ResumeMcEvent s' = ResumeMcEvent s" "isMcThreadSuspended s' = isMcThreadSuspended s"
  shows "suspend_ok s'"
  using assms(1) unfolding suspend_ok_def assms(2-) .

lemma suspend_post: "suspend_ok s \<Longrightarrow> post_step k s = Some s' \<Longrightarrow> suspend_ok s'"
  by (rule suspend_ok_cong) (auto simp: post_step_frame elim: post_stepE)

lemma suspend_begin: "suspend_ok s \<Longrightarrow> suspend_ok (post_begin q msg high s)"
  by (erule suspend_ok_cong) (simp_all add: post_begin_def)

lemma suspend_close: "suspend_ok s \<Longrightarrow> cds_sched_close s = Some s' \<Longrightarrow> suspend_ok s'"
  by (erule suspend_ok_cong)
    (cases "closing s"; auto simp: cds_sched_close_def cds_sched_flush_mc_mqs_def put_mq_def cds_core_return_msg_def split: if_splits option.splits prod.splits)+

text \<open>Places where the thread is neither suspended nor on its way there or out of the driver: a step between them changes nothing.\<close>

fun busy :: "mc_pc \<Rightarrow> bool" where
  "busy McSuspended = False"
| "busy McExiting = False"
| "busy McExit = False"
| "busy pc = (\<not> answering pc \<and> \<not> clearing pc)"

lemma handshake_busy: "busy pc \<Longrightarrow> busy pc' \<Longrightarrow> handshake r pc ev var n noted = handshake r pc' ev var n noted"
  by (cases r; cases pc; cases pc') simp_all

lemma suspend_busy:
  assumes "suspend_ok s" "busy (mc_thread s)" "busy (mc_thread s')" "mc_suspend_event s' = mc_suspend_event s" "suspending s' = suspending s"
    "mc_sus_event_var s' = mc_sus_event_var s" "ResumeMcEvent s' = ResumeMcEvent s" "isMcThreadSuspended s' = isMcThreadSuspended s"
  shows "suspend_ok s'"
  using assms(1) handshake_busy [OF assms(2,3)] by (simp add: suspend_ok_def assms(4-))

lemma suspend_mc:
  assumes "suspend_ok s" "cds_mc_thread ready s = Some s'"
  shows "suspend_ok s'"
proof (cases "busy (mc_thread s) \<and> busy (mc_thread s')")
  case True
  have "mc_suspend_event s' = mc_suspend_event s \<and> suspending s' = suspending s \<and> mc_sus_event_var s' = mc_sus_event_var s \<and>
      ResumeMcEvent s' = ResumeMcEvent s \<and> isMcThreadSuspended s' = isMcThreadSuspended s"
    using assms(2) True
    by (cases "mc_thread s") (auto simp: cds_mc_thread_def put_mq_def cds_core_return_msg_def split: if_splits option.splits prod.splits)
  with True assms(1) show ?thesis by (blast intro: suspend_busy)
next
  case False
  then show ?thesis
  proof (cases "mc_thread s")
    case (McGet q)
    then have "busy (mc_thread s')" using assms(2) by (cases "mcMq s q") (auto simp: cds_mc_thread_def put_mq_def)
    with False McGet show ?thesis by simp
  next
    case (McCheck q)
    then have "busy (mc_thread s')" using assms(2) by (auto simp: cds_mc_thread_def split: option.split)
    with False McCheck show ?thesis by simp
  qed (use assms False in \<open>cases "suspending s"; auto simp: suspend_ok_def cds_mc_thread_def cds_core_return_msg_def split: if_splits\<close>)+
qed

lemma stopped_not: "stopped pc n \<Longrightarrow> \<not> answering pc \<and> \<not> clearing pc"
  by (cases pc) simp_all

lemma suspend_requests:
  "\<lbrakk>suspend_ok s; a \<in> {SuspendRequest, SuspendComplete, SuspendWithdraw, ResumeMc}; sched_step a s = Some s'\<rbrakk> \<Longrightarrow> suspend_ok s'"
  by (cases "suspending s") (auto simp: suspend_defs suspend_ok_def stopped_not split: if_splits)

lemma suspend_step: "\<lbrakk>suspend_ok s; sched_step a s = Some s'; a \<noteq> SuspendTimeout\<rbrakk> \<Longrightarrow> suspend_ok s'"
  by (cases a) (auto intro: suspend_post suspend_mc suspend_close suspend_begin dest: suspend_requests)

lemma suspend_run: "\<lbrakk>sched_run as s = Some s'; SuspendTimeout \<notin> set as; suspend_ok s\<rbrakk> \<Longrightarrow> suspend_ok s'"
  by (induction as arbitrary: s) (auto simp: bind_eq_Some_conv dest: suspend_step)

lemma suspend_open: "suspend_ok (cds_open_queues bufs)"
  by (simp add: suspend_ok_def cds_open_queues_def)

text \<open>
  C13: As long as no wait for the thread to suspend times out, the driver is right about the thread: while it notes the thread as suspended, the
  thread takes no step, or only ends; and while it neither notes that nor waits for it, the thread can leave the place where it is suspended.
\<close>

theorem mc_thread_suspended:
  assumes "sched_run as (cds_open_queues bufs) = Some s" "SuspendTimeout \<notin> set as"
  shows "(isMcThreadSuspended s \<longrightarrow> (case cds_mc_thread ready s of None \<Rightarrow> mc_thread s \<in> {McSuspended, McExit} | Some s' \<Rightarrow> mc_thread s' = McExit)) \<and>
    (\<not> isMcThreadSuspended s \<and> suspending s = ReqIdle \<and> mc_thread s = McSuspended \<longrightarrow> (\<exists>s'. cds_mc_thread ready s = Some s' \<and> mc_thread s' = McWait))"
proof -
  have ok: "suspend_ok s" using suspend_run [OF assms suspend_open] .
  show ?thesis
  proof (intro conjI impI)
    assume "isMcThreadSuspended s"
    with ok have "stopped (mc_thread s) (ResumeMcEvent s)" by (cases "suspending s") (simp_all add: suspend_ok_def)
    then show "case cds_mc_thread ready s of None \<Rightarrow> mc_thread s \<in> {McSuspended, McExit} | Some s' \<Rightarrow> mc_thread s' = McExit"
      by (cases "mc_thread s") (auto simp: cds_mc_thread_def)
  next
    assume "\<not> isMcThreadSuspended s \<and> suspending s = ReqIdle \<and> mc_thread s = McSuspended"
    with ok show "\<exists>s'. cds_mc_thread ready s = Some s' \<and> mc_thread s' = McWait" by (auto simp: suspend_ok_def cds_mc_thread_def)
  qed
qed

lemma mc_thread_suspended_witness:
  "\<exists>s. sched_run (SuspendRequest # replicate 11 (Mc True) @ [SuspendComplete]) (cds_open_queues (\<lambda>w. cds_msg_zero)) = Some s \<and>
     isMcThreadSuspended s \<and> (case cds_mc_thread True s of None \<Rightarrow> mc_thread s \<in> {McSuspended, McExit} | Some s' \<Rightarrow> mc_thread s' = McExit)"
proof -
  obtain s where s: "sched_run (SuspendRequest # replicate 11 (Mc True) @ [SuspendComplete]) (cds_open_queues (\<lambda>w. cds_msg_zero)) = Some s"
      "isMcThreadSuspended s"
    by (simp add: run_simps cds_open_queues_def eval_nat_numeral)
  have "SuspendTimeout \<notin> set (SuspendRequest # replicate 11 (Mc True) @ [SuspendComplete])" by simp
  from mc_thread_suspended [OF s(1) this, of True] s(2)
  have "case cds_mc_thread True s of None \<Rightarrow> mc_thread s \<in> {McSuspended, McExit} | Some s' \<Rightarrow> mc_thread s' = McExit" by blast
  with s show ?thesis by (intro exI conjI)
qed

section \<open>An answer with the end of the wait\<close>

text \<open>The thread is suspended and nobody knows.\<close>

definition forgotten :: "mc_state \<Rightarrow> bool" where
  "forgotten s \<longleftrightarrow> mc_thread s = McSuspended \<and> ResumeMcEvent s = 0 \<and> suspending s = ReqIdle \<and> \<not> isMcThreadSuspended s"

lemma forgotten_step:
  assumes "forgotten s" "sched_step a s = Some s'" "a \<noteq> SuspendRequest"
  shows "forgotten s' \<and> handled s' = handled s"
proof (cases a)
  case (Post k)
  then show ?thesis using assms post_step_frame [of k s s'] by (auto simp: forgotten_def elim: post_stepE)
next
  case Close
  then have "sched_step Close s = Some s'" using assms(2) by simp
  then have "ResumeMcEvent s' = ResumeMcEvent s \<and> suspending s' = suspending s \<and> isMcThreadSuspended s' = isMcThreadSuspended s"
    by (cases "closing s") (auto simp: cds_sched_close_def cds_sched_flush_mc_mqs_def put_mq_def cds_core_return_msg_def split: if_splits option.splits prod.splits)
  with assms Close close_frame [of s s'] show ?thesis by (simp add: forgotten_def)
qed (use assms in \<open>auto simp: forgotten_def cds_mc_thread_def post_begin_def suspend_defs split: if_splits\<close>)

lemma forgotten_run:
  "\<lbrakk>sched_run as s = Some s'; SuspendRequest \<notin> set as; forgotten s\<rbrakk> \<Longrightarrow> forgotten s' \<and> handled s' = handled s"
  by (induction as arbitrary: s) (auto simp: bind_eq_Some_conv dest: forgotten_step)

definition late_answer :: "mc_action list" where
  "late_answer = SuspendRequest # replicate 9 (Mc True) @ [SuspendTimeout] @ replicate 2 (Mc True) @ [SuspendWithdraw]"

definition next_cycle :: "mc_action list" where
  "next_cycle = [SuspendRequest, SuspendComplete, ResumeMc] @ replicate 12 (Mc True)"

lemma forgotten_late:
  "\<exists>s. sched_run late_answer (cds_open_queues bufs) = Some s \<and> forgotten s \<and> handled s = [] \<and> mc_sus_event_var s = 1 \<and> \<not> mc_suspend_event s \<and>
     \<not> mc_post_event s \<and> \<not> mc_shutdown_event s \<and> (\<forall>q. mcMq s q = [])"
  by (simp add: late_answer_def run_simps cds_open_queues_def forgotten_def eval_nat_numeral)

lemma forgotten_again:
  "\<lbrakk>forgotten s; mc_sus_event_var s = 1; \<not> mc_suspend_event s; \<not> mc_post_event s; \<not> mc_shutdown_event s; \<forall>q. mcMq s q = []\<rbrakk> \<Longrightarrow>
     \<exists>s'. sched_run next_cycle s = Some s' \<and> forgotten s'"
  by (simp add: next_cycle_def run_simps forgotten_def eval_nat_numeral)

text \<open>
  C27: When the thread answers a request to suspend between the time-out of the wait for it and the withdrawal of the request, it stays suspended
  while the driver takes it to be running: whatever is posted, no message is handled until the next request to suspend, and the closing of the driver does not come to its end. That request finds the
  old answer, so that after the resume that belongs to it the thread is suspended again, and again nobody knows.
\<close>

theorem mc_suspend_late_answer:
  "\<exists>s. sched_run late_answer (cds_open_queues bufs) = Some s \<and> \<not> isMcThreadSuspended s \<and> suspending s = ReqIdle \<and>
     (\<forall>as s'. SuspendRequest \<notin> set as \<and> sched_run as s = Some s' \<longrightarrow> mc_thread s' = McSuspended \<and> handled s' = [] \<and> resume_mc s' = None \<and> closing s' \<noteq> CloseDone) \<and>
     (\<exists>s'. sched_run next_cycle s = Some s' \<and> mc_thread s' = McSuspended \<and> ResumeMcEvent s' = 0 \<and> suspending s' = ReqIdle \<and> \<not> isMcThreadSuspended s')"
proof -
  obtain s where s: "sched_run late_answer (cds_open_queues bufs) = Some s" "forgotten s" "handled s = []" "mc_sus_event_var s = 1"
      "\<not> mc_suspend_event s" "\<not> mc_post_event s" "\<not> mc_shutdown_event s" "\<forall>q. mcMq s q = []"
    using forgotten_late [of bufs] by blast
  obtain s2 where "sched_run next_cycle s = Some s2" "forgotten s2" using forgotten_again [OF s(2,4-8)] by blast
  moreover have "mc_thread s' = McSuspended \<and> handled s' = [] \<and> resume_mc s' = None \<and> closing s' \<noteq> CloseDone"
    if "SuspendRequest \<notin> set as" "sched_run as s = Some s'" for as s'
  proof -
    have f: "forgotten s'" "handled s' = []" using forgotten_run [OF that(2,1) s(2)] s(3) by simp_all
    have "sched_inv s'" using sched.steps_inv [OF sched_run_steps [OF that(2)] sched_reachable [OF sched_run_steps [OF s(1)]]] .
    then have "past_wait (closing s') \<longrightarrow> mc_thread s' = McExit" by (simp add: sched_inv_def control_ok_def)
    with f show ?thesis by (auto simp: forgotten_def resume_mc_def)
  qed
  ultimately show ?thesis using s(1,2) unfolding forgotten_def by blast
qed

lemma mc_suspend_late_answer_witness:
  "\<exists>s. sched_run late_answer (cds_open_queues (\<lambda>w. cds_msg_zero)) = Some s \<and>
     sched_run [] s = Some s \<and> mc_thread s = McSuspended \<and> handled s = []"
proof -
  obtain s where s: "sched_run late_answer (cds_open_queues (\<lambda>w. cds_msg_zero)) = Some s"
      "\<And>as s'. SuspendRequest \<notin> set as \<and> sched_run as s = Some s' \<longrightarrow> mc_thread s' = McSuspended \<and> handled s' = [] \<and> resume_mc s' = None \<and> closing s' \<noteq> CloseDone"
    using mc_suspend_late_answer [of "\<lambda>w. cds_msg_zero"] by blast
  from s(2) [of "[]" s] have "mc_thread s = McSuspended \<and> handled s = []" by simp
  with s(1) show ?thesis by simp
qed

end
