(* ===== verification/Spec2Isabelle.thy ===== *)
theory Spec2Isabelle
  imports Csr_List Aid_Pool Rx_Reorder Green_Ap Dfs_Nol Wep Auth_Timeout Peer_Safety Tx_Flow_Run Conc_Session Cfg_Image Cfg_Readers Cds_Suspend
begin

text \<open>
  \<^bold>\<open>A verification development of the qcacld-3.0 WLAN host driver.\<close>

  The driver (\<open>src/core\<close>) connects the network stack of the host to the firmware of a WLAN chip.
  HDD talks to the operating system, SME and CSR schedule commands, the protocol engine PE/LIM runs the
  management protocol of each BSS, WMA and HTT exchange messages with the firmware, and the data path
  (\<open>dp/txrx\<close>) moves frames. This development models the parts of it that keep state of their own in
  data structures of the driver, at the level of the C code: arrays, indices, links and machine integers.

  \<^bold>\<open>Theories.\<close>

  \<^item> \<open>Prelude\<close>: machine types, bounded scans with an eight-bit counter (\<open>scan_u8\<close>), null-terminated chains
    (\<open>chain\<close>) and segments (\<open>seg\<close>) through a store of links, ring indices, and the locale \<open>machine\<close> for
    invariants of reachable states.
  \<^item> \<open>Mac_Table\<close>: the locale \<open>mac_table\<close>, the contract of a table of stations; interpreted by \<open>Dph\<close> and \<open>Pre_Auth\<close>.
  \<^item> \<open>Dph\<close>: the station table of a session, \<open>mac/src/dph/dph_hash_table.c\<close>. Lookup, addition and deletion walk the
    hash chains of the node array and refine a partial map from addresses to association ids.
  \<^item> \<open>Csr_List\<close>: the doubly linked list of SME, \<open>sme/src/csr/csr_link_list.c\<close>; the locale \<open>link_list\<close> states its
    contract with respect to plain lists.
  \<^item> \<open>Tx_Timer\<close>, \<open>Lim_Types\<close>: the timers of the MAC layer
    (\<open>mac/src/sys/legacy/src/platform/src/sys_wrapper.c\<close>) and shared enumerations.
  \<^item> \<open>Pe_Session\<close>: the session table, \<open>mac/src/pe/lim/lim_session.c\<close>, with the queries of \<open>lim_session_utils.c\<close>:
    creation and deletion with every block of memory obtained and freed, and all lookups.
  \<^item> \<open>Aid_Pool\<close>: the pool of association ids, \<open>mac/src/pe/lim/lim_aid_mgmt.c\<close>, a free list inside a byte array;
    the locale \<open>free_pool\<close> states what its clients rely on.
  \<^item> \<open>Pre_Auth\<close>: the pre-authentication list (\<open>lim_security_utils.c\<close>, \<open>lim_assoc_utils.c\<close>) and the handlers of open-system
    and shared-key authentication frames that work on it (\<open>lim_process_auth_frame.c\<close>).
  \<^item> \<open>Auth_Timeout\<close>: the time-out of shared-key authentication, which uses the session table.
  \<^item> \<open>Wep\<close>: CRC-32, RC4 and the encryption and decryption of the third authentication frame
    (\<open>lim_security_utils.c\<close>); the locale \<open>stream_cipher\<close> has the facts that hold for any key stream.
  \<^item> \<open>Rx_Pn\<close>: the replay check of the receive path, \<open>dp/txrx/ol_rx_pn.c\<close>; the locales \<open>replay_check\<close> and \<open>pn_filtering\<close> are
    interpreted for the 24-, 48- and 128-bit packet numbers.
  \<^item> \<open>Rx_Defrag\<close>, \<open>Rx_Reorder\<close>: fragment lists, the wait list, the reorder array and the reorder
    time-out, \<open>dp/txrx/ol_rx_defrag.c\<close>, \<open>ol_rx_reorder.c\<close> and \<open>ol_rx_reorder_timeout.c\<close>.
  \<^item> \<open>Peer_Ref\<close>: the peer objects of the data path, \<open>dp/txrx/ol_txrx_peer_find.c\<close> and the parts of \<open>ol_txrx.c\<close> that create, count
    references to and delete peers and virtual devices. \<open>Peer_Inv\<close> has the invariant (counters, hash bins, peer lists,
    local ids) and its primitives, \<open>Peer_Safety\<close> shows that every operation keeps it.
  \<^item> \<open>Tx_Flow\<close>: the transmit descriptors and their flow pools, \<open>dp/txrx/ol_txrx_flow_control.c\<close>, \<open>ol_tx_desc.h\<close> and
    \<open>ol_tx_desc.c\<close>. \<open>Tx_Flow_Inv\<close> has the invariant (every descriptor in one place, counters, thresholds), \<open>Tx_Flow_Safety\<close>
    shows that every operation keeps it, \<open>Tx_Flow_Run\<close> has the interleavings and the properties.
  \<^item> \<open>Conc_Tables\<close> to \<open>Conc_Session\<close>: the concurrency policy, \<open>cds/src/cds_concurrency.c\<close>, which decides which connections
    may be up together and on which channels. \<open>Conc_Tables\<close> has its tables as association lists, \<open>Conc_List\<close> the table of connections
    and the operations on it with a refinement to lists, \<open>Conc_Pcl\<close> the preferred channel lists, \<open>Conc_Policy\<close> the questions about
    the connections and \<open>cds_allow_concurrency\<close>, \<open>Conc_Hw\<close> the commands for the hardware mode, \<open>Conc_Session\<close> the sessions.
    \<open>Conc_Matrix\<close>, \<open>Conc_Pcl_Spec\<close> and \<open>Conc_Safety\<close> have the theorems about the tables, the lists and the decisions.
  \<^item> \<open>Arrays\<close>: arrays as lists with checked access, shared by the next two groups.
  \<^item> \<open>Cfg_Tables\<close> to \<open>Cfg_Readers\<close>: the configuration store of the MAC layer, \<open>mac/src/cfg\<close>. \<open>Cfg_Tables\<close> has the tables of parameters
    and default strings, \<open>Cfg_Store\<close> creation, access and the download of the tables, \<open>Cfg_Msg\<close> the messages of the host,
    \<open>Cfg_Caps\<close> the functions that read several parameters. \<open>Cfg_Layout\<close> has the layout of the arrays, \<open>Cfg_Inv\<close> the well-formed
    stores and the map a store stands for, \<open>Cfg_Download\<close> the state after a download, \<open>Cfg_Refine\<close> the locale \<open>param_store\<close> and its
    interpretation, \<open>Cfg_Set\<close> and \<open>Cfg_Image\<close> the set requests and images of the host, \<open>Cfg_Readers\<close> the theorems about \<open>Cfg_Caps\<close>.
  \<^item> \<open>Cds_Sched\<close>: the message queues and the controller thread, \<open>cds/src/cds_mq.c\<close> and parts of \<open>cds_sched.c\<close>, \<open>cds_api.c\<close> and
    \<open>hdd/src/wlan_hdd_power.c\<close>. The threads are step functions over one state, a step being what is done under one lock, and all
    interleavings of their steps are considered. \<open>Cds_Sched_Inv\<close> has where the wrappers are, \<open>Cds_Sched_Safe\<close> the invariants,
    \<open>Cds_Sched_Live\<close> their consequences for messages and wake-ups, \<open>Cds_Suspend\<close> the hand-shake of suspend and resume.
  \<^item> \<open>Green_Ap\<close>: the power-saving state machine of the access point, \<open>hdd/src/wlan_hdd_green_ap.c\<close>.
  \<^item> \<open>Dfs_Nol\<close>: the non-occupancy list of radar channels, \<open>sap/dfs/src/dfs_nol.c\<close>.
  \<^item> This theory: the agreement of the association ids with the station table.

  \<^bold>\<open>State.\<close> A C structure is a record with the members that the modelled functions use. A pointer into an array is
  an index, a null pointer is \<open>None\<close>; where links are followed, the array of nodes is the store. Integers have the
  width of the source (\<open>u8\<close> to \<open>u64\<close>) and wrap. Blocks that are allocated, freed, frames that are sent, buffers
  that are handed on and timer calls are recorded in lists of the state. Results of code outside the
  repository (memory allocation, QDF timers and clocks, the firmware) are arguments, as are the values of
  parameters that the other components read from the configuration store.

  \<^bold>\<open>Failure and termination.\<close> An operation that can leave the bounds of an array, dereference a null
  pointer or fail to return has an \<open>option\<close> result, and \<open>None\<close> is that case. Loops over links and the scans with a
  narrow counter are \<open>partial_function (option)\<close>; there is no fuel. The theorems about them state that a result
  \<^emph>\<open>exists\<close> on every well-formed state; where the code does not return or leaves an array, a theorem says so.

  \<^bold>\<open>What the theorems show.\<close> Refinement of an abstract map or list, with a result on every well-formed
  state: \<open>Dph\<close>, \<open>Csr_List\<close>, \<open>Dfs_Nol\<close>, \<open>Pre_Auth\<close>, \<open>Rx_Pn\<close>, \<open>Conc_List\<close>, \<open>Cfg_Refine\<close>. Invariants over all histories of operations: \<open>Aid_Pool\<close>, \<open>Pre_Auth\<close>,
  \<open>Green_Ap\<close>, \<open>Dfs_Nol\<close>, \<open>Rx_Reorder\<close>. Memory safety of reference counting over all interleavings of the operations: \<open>Peer_Safety\<close>, \<open>Tx_Flow_Run\<close>;
  the latter also shows that no descriptor is lost and that paused pools without a deficit are woken up. Exact effect on buffers and memory: \<open>Pe_Session\<close>, \<open>Rx_Reorder\<close>, \<open>Rx_Defrag\<close>.
  The concurrency policy: the large tables equal short formulas, the preferred channel lists are computed exactly and inside their
  arrays (\<open>Conc_Matrix\<close>, \<open>Conc_Pcl_Spec\<close>), and the rules on channels, DFS, group owners and IBSS hold in every reachable state as
  long as each connection was agreed to (\<open>Conc_Safety\<close>). The configuration store: both downloads give every parameter its default, which is in its
  range (\<open>Cfg_Download\<close>, \<open>Cfg_Image\<close>), writes and requests of the host change exactly the parameters they should (\<open>Cfg_Refine\<close>, \<open>Cfg_Set\<close>),
  and the capability information, the transmit power and the vendor elements are what they are to be (\<open>Cfg_Readers\<close>). The controller thread: messages are
  neither lost, doubled nor changed, no wake-up is lost, the order of handling is that of the queues (\<open>Cds_Sched_Live\<close>), and the thread is suspended
  when the driver believes so, unless an answer comes with the end of the wait (\<open>Cds_Suspend\<close>). Security: no replayed packet number passes, within one call and across calls (\<open>Rx_Pn\<close>); an encrypted
  authentication body decrypts to itself and any change of one byte is detected (\<open>Wep\<close>); a station is authenticated by
  shared key only with the challenge that was sent (\<open>Pre_Auth\<close>). Several theorems describe code that does not
  do what it means to, for example fragments that are linked out of order, a wait list that becomes a
  cycle, a power-saving machine that cannot be started, an over-read of the decryption buffer, and
  a set request that is written outside its buffer.

  \<^bold>\<open>Not modelled.\<close> Of the modelled files: printing, tracing and statistics; the protection reset callback of a
  session; the decapsulation of reassembled frames; the dispatch of authentication frames
  (\<open>lim_process_auth_frame\<close>), frame 1 up to the two algorithm handlers (it runs the disassociation and deauthentication
  machinery), and frames 2 and 4 of the station side; of the services of CDS the start-up, the receive thread and what a module does with a message; of the concurrency policy the waiting for
  answers of the firmware, the restart and channel switch of an access point beside a station, the parameters of two channels on
  one MAC, TDLS, the dumps, and the locks (each operation is one step, except in \<open>Cds_Sched\<close>). Of the driver: the interface to the operating
  system and its configuration (HDD), the command scheduling and roaming of SME/CSR, the remaining
  message handlers of LIM, the generated frame packing and parsing, the message translation of WMA
  and HTT, the queues of the transmit path, the SAP state machine, radar detection, and firmware download. They are
  glue around the firmware and kernel interfaces, generated code, or work for later extensions.
\<close>

section \<open>Association ids and the station table\<close>

text \<open>
  The association request handler takes an id from the pool of the session (\<open>lim_assign_peer_idx\<close>) and files
  the station under it (\<open>dph_add_hash_entry\<close>); the clean-up of a station gives the id back
  (\<open>lim_release_peer_idx\<close>) and removes the entry (\<open>dph_delete_hash_entry\<close>). The two components agree when every id in the
  pool is inside the table and not in use there.
\<close>

abbreviation station_table :: "nat \<Rightarrow> mac_ctx \<Rightarrow> dph_table" where
  "station_table k m \<equiv> dphHashTable (gpSession m ! k)"

definition with_table :: "nat \<Rightarrow> dph_table \<Rightarrow> mac_ctx \<Rightarrow> mac_ctx" where
  "with_table k t m = put_session k ((gpSession m ! k)\<lparr>dphHashTable := t\<rparr>) m"

definition assoc_agree :: "nat \<Rightarrow> mac_ctx \<Rightarrow> nat list \<Rightarrow> bool" where
  "assoc_agree k m free \<longleftrightarrow> pool_rep k m free \<and> dph_wf (station_table k m) \<and>
     (\<forall>i \<in> set free. i < unat (dph_size (station_table k m)) \<and> i \<notin> ran (dph_abs (station_table k m)))"

lemma with_table_simps [simp]:
  assumes "k < length (gpSession m)"
  shows "station_table k (with_table k t m) = t"
    and "gpSession (with_table k t m) ! k = (gpSession m ! k)\<lparr>dphHashTable := t\<rparr>"
  using assms by (simp_all add: with_table_def)

lemma with_table_pool: "pool_rep k (with_table k t m) free = pool_rep k m free"
  by (auto simp: with_table_def pool_rep_def idx_rep_def mac_ok_def)

lemma not_added_iff:
  assumes "dph_wf t" "i < unat (dph_size t)"
  shows "dn_added (pDphNodeArray t ! i) \<longleftrightarrow> i \<in> ran (dph_abs t)"
  using assms by (auto simp: dph_wf_def dph_abs_Some_iff ran_def)

lemma pool_head:
  assumes "pool_rep k m (i # free)"
  shows "i \<notin> set free" "0 < i" "i < 256" "\<exists>pool. gpLimPeerIdxpool (gpSession m ! k) = Some pool \<and> i < length pool"
proof -
  obtain pool where pool: "gpLimPeerIdxpool (gpSession m ! k) = Some pool"
      "chain (\<lambda>i. idx_ptr (pool ! i)) (idx_ptr (freePeerIdxHead (gpSession m ! k))) (i # free)"
      "\<forall>j \<in> set (i # free). 0 < j \<and> j < length pool \<and> j < 256"
    using assms by (auto simp: pool_rep_def idx_rep_def)
  from chain_distinct [OF pool(2)] pool(3) show "i \<notin> set free" "0 < i" "i < 256" by auto
  from pool(1,3) show "\<exists>pool. gpLimPeerIdxpool (gpSession m ! k) = Some pool \<and> i < length pool" by auto
qed

lemma release_table:
  "lim_release_peer_idx p s = Some s' \<Longrightarrow> dphHashTable s' = dphHashTable s"
  by (auto simp: lim_release_peer_idx_def Let_def split: Option.bind_splits if_splits prod.splits)

lemma delete_size: "dph_delete_hash_entry a k t = Some (t', st) \<Longrightarrow> dph_size t' = dph_size t"
  by (auto simp: dph_delete_hash_entry_def dph_unlink_def Let_def
      split: Option.bind_splits if_splits option.splits del_scan.splits)

lemma admit:
  assumes ok: "assoc_agree k m (i # free)" and "below_limit m" "is_mac a" "dph_abs (station_table k m) a = None"
  shows "\<exists>m1 t1. lim_assign_peer_idx k m = Some (m1, of_nat i) \<and>
      dph_add_hash_entry cfg a (of_nat i) (station_table k m1) = Some (t1, Some i) \<and>
      dph_abs t1 = (dph_abs (station_table k m))(a \<mapsto> i) \<and> assoc_agree k (with_table k t1 m1) free \<and>
      gpLimPeerIdxpool (gpSession m1 ! k) = gpLimPeerIdxpool (gpSession m ! k) \<and>
      k < length (gpSession m1) \<and> pool_rep k m1 free \<and> dph_size t1 = dph_size (station_table k m) \<and> dph_wf t1"
proof -
  let ?t = "station_table k m"
  have rep: "pool_rep k m (i # free)" and wf: "dph_wf ?t"
    and i: "i < unat (dph_size ?t)" "i \<notin> ran (dph_abs ?t)"
    using ok by (auto simp: assoc_agree_def)
  have k: "k < length (gpSession m)" using rep by (simp add: pool_rep_def)
  obtain s' where s': "lim_assign_peer_idx k m = Some (put_session k s' m, of_nat i)" "pool_rep k (put_session k s' m) free"
      "dphHashTable s' = ?t" "gpLimPeerIdxpool s' = gpLimPeerIdxpool (gpSession m ! k)"
    using lim_assign_Cons [OF rep assms(2)] by blast
  let ?m1 = "put_session k s' m" and ?t1 = "dph_insert cfg a i ?t"
  have u: "unat (of_nat i :: u16) = i" using pool_head(3) [OF rep] by (rule unat_of_nat_small_u16)
  have free: "\<not> dn_added (pDphNodeArray ?t ! i)" using not_added_iff [OF wf i(1)] i(2) by simp
  have add: "dph_add_hash_entry cfg a (of_nat i) ?t = Some (?t1, Some i)"
    using i(1) free assms(4) u by (simp add: dph_add_hash_entry_eq [OF wf assms(3)] word_less_nat_alt)
  have t1: "dph_wf ?t1" "dph_abs ?t1 = (dph_abs ?t)(a \<mapsto> i)"
    using dph_insert_wf [OF wf assms(3) i(1) free assms(4)] dph_insert_abs [OF wf assms(3) i(1) free assms(4)] by simp_all
  have k1: "k < length (gpSession ?m1)" "station_table k ?m1 = ?t" using k s'(3) by simp_all
  have "assoc_agree k (with_table k ?t1 ?m1) free"
    using s'(2) t1 ok pool_head(1) [OF rep] k1(1) assms(4)
    by (auto simp: assoc_agree_def with_table_pool dph_insert_simps)
  with s' add t1 k k1 show ?thesis by (intro exI [of _ ?m1] exI [of _ ?t1]) (simp add: dph_insert_simps)
qed

text \<open>
  C25: An association id and the station table stay in agreement. If an id is free, the association limit
  is not reached and the station is new, \<open>lim_assign_peer_idx\<close> gives an id that \<open>dph_add_hash_entry\<close> accepts, the station
  is found under it, and the remaining ids can still be given out. When the station is removed and
  its id released, the id is in the pool again and the table is as before.
\<close>

theorem station_admitted_and_removed:
  assumes ok: "assoc_agree k m (i # free)" and "below_limit m" "is_mac a" "dph_abs (station_table k m) a = None"
  shows "\<exists>m1 t1 s2 t2. lim_assign_peer_idx k m = Some (m1, of_nat i) \<and>
      dph_add_hash_entry cfg a (of_nat i) (station_table k m1) = Some (t1, Some i) \<and>
      dph_abs t1 = (dph_abs (station_table k m))(a \<mapsto> i) \<and> assoc_agree k (with_table k t1 m1) free \<and>
      lim_release_peer_idx (of_nat i) (gpSession (with_table k t1 m1) ! k) = Some s2 \<and>
      dph_delete_hash_entry a (of_nat i) (dphHashTable s2) = Some (t2, eSIR_SUCCESS) \<and>
      dph_abs t2 = dph_abs (station_table k m) \<and>
      assoc_agree k (with_table k t2 (put_session k s2 m1)) (free @ [i])"
proof -
  have rep: "pool_rep k m (i # free)" and old: "i < unat (dph_size (station_table k m))"
      "\<forall>j \<in> set (i # free). j < unat (dph_size (station_table k m)) \<and> j \<notin> ran (dph_abs (station_table k m))"
    using ok by (auto simp: assoc_agree_def)
  note head = pool_head [OF rep]
  obtain m1 t1 where 1: "lim_assign_peer_idx k m = Some (m1, of_nat i)"
      "dph_add_hash_entry cfg a (of_nat i) (station_table k m1) = Some (t1, Some i)"
      "dph_abs t1 = (dph_abs (station_table k m))(a \<mapsto> i)" "assoc_agree k (with_table k t1 m1) free"
      "gpLimPeerIdxpool (gpSession m1 ! k) = gpLimPeerIdxpool (gpSession m ! k)" "k < length (gpSession m1)"
      "pool_rep k m1 free" "dph_size t1 = dph_size (station_table k m)" "dph_wf t1"
    using admit [OF assms] by blast
  obtain pool where pool: "gpLimPeerIdxpool (gpSession m1 ! k) = Some pool" "i < length pool" using head(4) 1(5) by auto
  let ?s1 = "(gpSession m1 ! k)\<lparr>dphHashTable := t1\<rparr>"
  have s1: "gpSession (with_table k t1 m1) ! k = ?s1" using 1(6) by simp
  have rep1: "idx_rep ?s1 free" using 1(7) by (simp add: pool_rep_def idx_rep_def)
  obtain s2 where s2: "lim_release_peer_idx (of_nat i) ?s1 = Some s2" "idx_rep s2 (free @ [i])"
    using lim_release_peer_idx_rep [OF rep1 head(1-3), of pool] pool by auto
  have t2: "dphHashTable s2 = t1" using release_table [OF s2(1)] by simp
  have u: "unat (of_nat i :: u16) = i" using head(3) by (rule unat_of_nat_small_u16)
  have "dn_added (pDphNodeArray t1 ! i)" using not_added_iff [OF 1(9), of i] old(1) 1(3,8) by (auto simp: ran_def)
  then obtain t2 where t2': "dph_delete_hash_entry a (of_nat i) t1 = Some (t2, eSIR_SUCCESS)" "dph_wf t2"
      "dph_abs t2 = (dph_abs t1)(a := None)"
    using dph_delete_hash_entry_eq(2) [OF 1(9) assms(3), of "of_nat i" i] u old(1) 1(3,8)
    by (auto simp: word_less_nat_alt)
  note size = delete_size [OF t2'(1)]
  have abs: "dph_abs t2 = dph_abs (station_table k m)" using t2'(3) 1(3) assms(4) by auto
  have "pool_rep k (put_session k s2 m1) (free @ [i])" by (rule pool_rep_put [OF 1(7) s2(2)])
  then have "assoc_agree k (with_table k t2 (put_session k s2 m1)) (free @ [i])"
    using t2'(2) size abs old(2) 1(6,8) by (simp add: assoc_agree_def with_table_pool)
  with 1 s1 s2(1) t2 t2' abs show ?thesis by auto
qed

definition ap_with_stations :: mac_ctx where
  "ap_with_stations = with_table 0 demo_table ap_ready"

lemma sum_filter_update:
  "\<lbrakk>k < length xs; f y = f (xs ! k); P y = P (xs ! k)\<rbrakk> \<Longrightarrow> map f (filter P (xs[k := y])) = map f (filter P xs)"
proof (induction xs arbitrary: k)
  case (Cons x xs)
  then show ?case by (cases k) auto
qed simp

lemma ap_with_stations_ok:
  "assoc_agree 0 ap_with_stations [1, 2, 3]" "below_limit ap_with_stations"
  "dph_abs (station_table 0 ap_with_stations) demo_a = None"
proof -
  have k: "0 < length (gpSession ap_ready)" using ap_ready_rep(1) by (simp add: pool_rep_def)
  then show "assoc_agree 0 ap_with_stations [1, 2, 3]" "dph_abs (station_table 0 ap_with_stations) demo_a = None"
    using ap_ready_rep(1) demo_table_wf
    by (simp_all add: ap_with_stations_def assoc_agree_def with_table_pool)
  show "below_limit ap_with_stations"
    using ap_ready_below k
    by (simp add: ap_with_stations_def with_table_def below_limit_def put_session_def sum_filter_update)
qed

theorem station_admitted_and_removed_witness:
  "\<exists>m1 t1 s2 t2. lim_assign_peer_idx 0 ap_with_stations = Some (m1, 1) \<and>
      dph_add_hash_entry None demo_a 1 (station_table 0 m1) = Some (t1, Some 1) \<and>
      lim_release_peer_idx 1 (gpSession (with_table 0 t1 m1) ! 0) = Some s2 \<and>
      dph_delete_hash_entry demo_a 1 (dphHashTable s2) = Some (t2, eSIR_SUCCESS) \<and>
      assoc_agree 0 (with_table 0 t2 (put_session 0 s2 m1)) [2, 3, 1]"
  using station_admitted_and_removed [OF ap_with_stations_ok(1,2) demo_macs(1) ap_with_stations_ok(3), of None] by auto

end
